(* ===== verification/E2fs_Prelude.thy ===== *)
theory E2fs_Prelude
  imports Main "HOL-Library.Word"
begin

text \<open>
  Shared vocabulary of the development: the C integer types as machine words, the error codes
  of \<^verbatim>\<open>libext2fs/ext2_err.h\<close> that the modelled routines return, and the generic lemmas on words,
  bytes and lists that the component theories use.

  \<^item> \<open>__u8\<close>, \<open>__u16\<close>, \<open>__u32\<close>, \<open>__u64\<close> are \<open>u8\<close>, \<open>u16\<close>, \<open>u32\<close>, \<open>u64\<close>; arithmetic on
    them wraps as in C.
  \<^item> \<open>errcode_t\<close> is a \<open>long\<close> in C; the codes are compared and returned only, so they are \<open>int\<close>.
  \<^item> Byte buffers (\<open>char *\<close>) are \<open>u8 list\<close>.
\<close>

unbundle bit_operations_syntax

type_synonym u8 = "8 word"
type_synonym u16 = "16 word"
type_synonym u32 = "32 word"
type_synonym u64 = "64 word"
type_synonym errcode = int

section \<open>Error codes\<close>

abbreviation EXT2_ET_MAGIC_EXT2FS_FILSYS :: errcode where
  "EXT2_ET_MAGIC_EXT2FS_FILSYS \<equiv> 2133571329"
abbreviation EXT2_ET_MAGIC_BADBLOCKS_LIST :: errcode where
  "EXT2_ET_MAGIC_BADBLOCKS_LIST \<equiv> 2133571330"
abbreviation EXT2_ET_MAGIC_BADBLOCKS_ITERATE :: errcode where
  "EXT2_ET_MAGIC_BADBLOCKS_ITERATE \<equiv> 2133571331"
abbreviation EXT2_ET_MAGIC_BLOCK_BITMAP :: errcode where
  "EXT2_ET_MAGIC_BLOCK_BITMAP \<equiv> 2133571336"
abbreviation EXT2_ET_MAGIC_INODE_BITMAP :: errcode where
  "EXT2_ET_MAGIC_INODE_BITMAP \<equiv> 2133571337"
abbreviation EXT2_ET_MAGIC_GENERIC_BITMAP :: errcode where
  "EXT2_ET_MAGIC_GENERIC_BITMAP \<equiv> 2133571338"
abbreviation EXT2_ET_MAGIC_GENERIC_BITMAP64 :: errcode where
  "EXT2_ET_MAGIC_GENERIC_BITMAP64 \<equiv> 2133571437"
abbreviation EXT2_ET_MAGIC_BLOCK_BITMAP64 :: errcode where
  "EXT2_ET_MAGIC_BLOCK_BITMAP64 \<equiv> 2133571438"
abbreviation EXT2_ET_MAGIC_INODE_BITMAP64 :: errcode where
  "EXT2_ET_MAGIC_INODE_BITMAP64 \<equiv> 2133571439"
abbreviation EXT2_ET_BAD_BLOCK_MARK :: errcode where
  "EXT2_ET_BAD_BLOCK_MARK \<equiv> 2133571373"
abbreviation EXT2_ET_BAD_INODE_MARK :: errcode where
  "EXT2_ET_BAD_INODE_MARK \<equiv> 2133571376"
abbreviation EXT2_ET_BAD_GENERIC_MARK :: errcode where
  "EXT2_ET_BAD_GENERIC_MARK \<equiv> 2133571389"
abbreviation EXT2_ET_NO_MEMORY :: errcode where
  "EXT2_ET_NO_MEMORY \<equiv> 2133571398"
abbreviation EXT2_ET_INVALID_ARGUMENT :: errcode where
  "EXT2_ET_INVALID_ARGUMENT \<equiv> 2133571399"
abbreviation EXT2_ET_DIR_CORRUPTED :: errcode where
  "EXT2_ET_DIR_CORRUPTED \<equiv> 2133571363"
abbreviation EXT2_ET_NO_INODE_BITMAP :: errcode where
  "EXT2_ET_NO_INODE_BITMAP \<equiv> 2133571367"
abbreviation EXT2_ET_NO_BLOCK_BITMAP :: errcode where
  "EXT2_ET_NO_BLOCK_BITMAP \<equiv> 2133571368"
abbreviation EXT2_ET_BAD_INODE_NUM :: errcode where
  "EXT2_ET_BAD_INODE_NUM \<equiv> 2133571369"
abbreviation EXT2_ET_BAD_BLOCK_NUM :: errcode where
  "EXT2_ET_BAD_BLOCK_NUM \<equiv> 2133571370"
abbreviation EXT2_ET_BLOCK_ALLOC_FAIL :: errcode where
  "EXT2_ET_BLOCK_ALLOC_FAIL \<equiv> 2133571400"
abbreviation EXT2_ET_INODE_ALLOC_FAIL :: errcode where
  "EXT2_ET_INODE_ALLOC_FAIL \<equiv> 2133571401"
abbreviation EXT2_ET_FILE_RO :: errcode where
  "EXT2_ET_FILE_RO \<equiv> 2133571405"
abbreviation EXT2_ET_FILE_TOO_BIG :: errcode where
  "EXT2_ET_FILE_TOO_BIG \<equiv> 2133571410"
abbreviation EXT2_ET_NO_CURRENT_NODE :: errcode where
  "EXT2_ET_NO_CURRENT_NODE \<equiv> 2133571456"
abbreviation EXT2_ET_NO_GDESC :: errcode where
  "EXT2_ET_NO_GDESC \<equiv> 2133571507"
abbreviation EXT2_ET_CANT_USE_LEGACY_BITMAPS :: errcode where
  "EXT2_ET_CANT_USE_LEGACY_BITMAPS \<equiv> 2133571465"
abbreviation EOVERFLOW :: errcode where
  "EOVERFLOW \<equiv> 84"
abbreviation EINVAL :: errcode where
  "EINVAL \<equiv> 22"
abbreviation ENOENT :: errcode where
  "ENOENT \<equiv> 2"

section \<open>memset and memcpy\<close>

definition memset :: "u8 list \<Rightarrow> nat \<Rightarrow> u8 \<Rightarrow> nat \<Rightarrow> u8 list" where
  "memset buf off v n = take off buf @ replicate n v @ drop (off + n) buf"

definition memcpy_at :: "u8 list \<Rightarrow> nat \<Rightarrow> u8 list \<Rightarrow> nat \<Rightarrow> u8 list" where
  "memcpy_at dst off src n = take off dst @ take n src @ drop (off + n) dst"

lemma length_memset [simp]: "off + n \<le> length buf \<Longrightarrow> length (memset buf off v n) = length buf"
  by (simp add: memset_def)

lemma length_memcpy_at [simp]:
  "off + n \<le> length dst \<Longrightarrow> n \<le> length src \<Longrightarrow> length (memcpy_at dst off src n) = length dst"
  by (simp add: memcpy_at_def)

lemma nth_memset:
  "off + n \<le> length buf \<Longrightarrow> i < length buf \<Longrightarrow>
   memset buf off v n ! i = (if off \<le> i \<and> i < off + n then v else buf ! i)"
  by (auto simp: memset_def nth_append)

lemma nth_memcpy_at:
  "off + n \<le> length dst \<Longrightarrow> n \<le> length src \<Longrightarrow> i < length dst \<Longrightarrow>
   memcpy_at dst off src n ! i = (if off \<le> i \<and> i < off + n then src ! (i - off) else dst ! i)"
  by (auto simp: memcpy_at_def nth_append)

section \<open>Words read as natural numbers\<close>

named_theorems word_nat \<open>rewrites that move word arithmetic to natural numbers\<close>

lemma unat_drop_bit3 [word_nat]: "unat (drop_bit 3 (w :: 'a::len word)) = unat w div 8"
  by (simp add: unat_drop_bit_eq) (simp add: drop_bit_eq_div)

lemma unat_lt64: "unat (w :: u64) < 18446744073709551616"
  using unsigned_less [where 'a = nat and w = w] by simp

lemma unat_push_drop3: "unat (push_bit 3 (drop_bit 3 (w :: u64))) = unat w div 8 * 8"
proof -
  have "push_bit 3 (drop_bit 3 w) = drop_bit 3 w * 8"
    by (simp add: push_bit_eq_mult)
  then show ?thesis
    using unat_lt64 [of w] by (simp add: unat_word_ariths unat_drop_bit3)
qed

lemma unat_and_7 [word_nat]:
  assumes "3 \<le> LENGTH('a)"
  shows "unat ((w :: 'a::len word) AND 7) = unat w mod 8"
proof -
  have "(7 :: 'a word) = mask 3" by (simp add: mask_eq_exp_minus_1)
  then have "w AND 7 = take_bit 3 w" by (simp add: take_bit_eq_mask)
  then show ?thesis using assms
    by (simp add: unsigned_take_bit_eq) (simp add: take_bit_eq_mod)
qed

lemma word_eq_0_bits: "(w :: 'a::len word) = 0 \<longleftrightarrow> (\<forall>i. \<not> bit w i)"
  by (auto simp: bit_eq_iff dest: bit_imp_le_length)

lemma unat_add_no_wrap [word_nat]:
  "unat a + unat b < 2 ^ LENGTH('a) \<Longrightarrow> unat ((a :: 'a::len word) + b) = unat a + unat b"
  by (simp add: unat_word_ariths)

lemma unat_sub_no_wrap [word_nat]:
  "b \<le> a \<Longrightarrow> unat ((a :: 'a::len word) - b) = unat a - unat b"
  by (simp add: unat_sub)

lemma unat_lt32: "unat (w :: u32) < 4294967296"
  using unsigned_less [where 'a = nat and w = w] by simp

lemma unat_inc [word_nat]:
  assumes "i < (n :: 'a::len word)"
  shows "unat (i + 1) = Suc (unat i)"
proof -
  have "Suc (unat i) \<le> unat n" using assms by (simp add: word_less_nat_alt)
  also have "\<dots> < 2 ^ LENGTH('a)" by (rule unsigned_less)
  finally show ?thesis by (simp add: unat_word_ariths)
qed

lemma unat_dec [word_nat]: "b < (i :: 'a::len word) \<Longrightarrow> unat (i - 1) = unat i - 1"
  by (rule unat_minus_one) auto

lemma unat_dec_less:
  assumes "0 < (i :: 'a::len word)"
  shows "unat (i - 1) < unat i"
proof -
  from assms have "0 < unat i" by (simp add: word_less_nat_alt)
  then show ?thesis using unat_dec [OF assms] by simp
qed

lemma unat_of_nat_small: "n < 2 ^ 64 \<Longrightarrow> unat (of_nat n :: u64) = n"
  by (simp add: unsigned_of_nat take_bit_nat_eq_self)

lemma unat_ucast32_64 [word_nat]: "unat (ucast (w :: u32) :: u64) = unat w"
proof -
  have "unat w < 2 ^ 32" using unsigned_less [of w] by simp
  then have "unat w < 2 ^ 64" by simp
  then show ?thesis by (simp add: unsigned_ucast_eq take_bit_nat_eq_self)
qed

end
