(* ===== verification/Ext2_fs.thy ===== *)
theory Ext2_fs
  imports E2fs_Prelude
begin

text \<open>
  The on-disk structures of \<^verbatim>\<open>libext2fs/ext2_fs.h\<close> (super block, group descriptor, inode) with all
  their fields, the feature flags with their test, set and clear functions, the size macros, and
  the part of \<open>struct struct_ext2_filsys\<close> (\<^verbatim>\<open>libext2fs/ext2fs.h\<close>) that does not depend on the
  bitmaps. The unions of the inode are read through their \<open>linux\<close> members. The group descriptors
  of a file system are a list: descriptor \<open>group\<close> is \<open>fs_group_desc fs ! group\<close>, where the C code
  computes an address in one buffer. An access with a group number past the descriptors is
  undefined in C and unspecified here.
\<close>

section \<open>The structures\<close>

record ext2_super_block =
  s_inodes_count :: u32
  s_blocks_count :: u32
  s_r_blocks_count :: u32
  s_free_blocks_count :: u32
  s_free_inodes_count :: u32
  s_first_data_block :: u32
  s_log_block_size :: u32
  s_log_cluster_size :: u32
  s_blocks_per_group :: u32
  s_clusters_per_group :: u32
  s_inodes_per_group :: u32
  s_mtime :: u32
  s_wtime :: u32
  s_mnt_count :: u16
  s_max_mnt_count :: "16 word"
  s_magic :: u16
  s_state :: u16
  s_errors :: u16
  s_minor_rev_level :: u16
  s_lastcheck :: u32
  s_checkinterval :: u32
  s_creator_os :: u32
  s_rev_level :: u32
  s_def_resuid :: u16
  s_def_resgid :: u16
  s_first_ino :: u32
  s_inode_size :: u16
  s_block_group_nr :: u16
  s_feature_compat :: u32
  s_feature_incompat :: u32
  s_feature_ro_compat :: u32
  s_uuid :: "u8 list"
  s_volume_name :: "u8 list"
  s_last_mounted :: "u8 list"
  s_algorithm_usage_bitmap :: u32
  s_prealloc_blocks :: u8
  s_prealloc_dir_blocks :: u8
  s_reserved_gdt_blocks :: u16
  s_journal_uuid :: "u8 list"
  s_journal_inum :: u32
  s_journal_dev :: u32
  s_last_orphan :: u32
  s_hash_seed :: "u32 list"
  s_def_hash_version :: u8
  s_jnl_backup_type :: u8
  s_desc_size :: u16
  s_default_mount_opts :: u32
  s_first_meta_bg :: u32
  s_mkfs_time :: u32
  s_jnl_blocks :: "u32 list"
  s_blocks_count_hi :: u32
  s_r_blocks_count_hi :: u32
  s_free_blocks_hi :: u32
  s_min_extra_isize :: u16
  s_want_extra_isize :: u16
  s_flags :: u32
  s_raid_stride :: u16
  s_mmp_update_interval :: u16
  s_mmp_block :: u64
  s_raid_stripe_width :: u32
  s_log_groups_per_flex :: u8
  s_checksum_type :: u8
  s_encryption_level :: u8
  s_reserved_pad :: u8
  s_kbytes_written :: u64
  s_snapshot_inum :: u32
  s_snapshot_id :: u32
  s_snapshot_r_blocks_count :: u64
  s_snapshot_list :: u32
  s_error_count :: u32
  s_first_error_time :: u32
  s_first_error_ino :: u32
  s_first_error_block :: u64
  s_first_error_func :: "u8 list"
  s_first_error_line :: u32
  s_last_error_time :: u32
  s_last_error_ino :: u32
  s_last_error_line :: u32
  s_last_error_block :: u64
  s_last_error_func :: "u8 list"
  s_mount_opts :: "u8 list"
  s_usr_quota_inum :: u32
  s_grp_quota_inum :: u32
  s_overhead_clusters :: u32
  s_backup_bgs :: "u32 list"
  s_encrypt_algos :: "u8 list"
  s_encrypt_pw_salt :: "u8 list"
  s_lpf_ino :: u32
  s_prj_quota_inum :: u32
  s_checksum_seed :: u32
  s_wtime_hi :: u8
  s_mtime_hi :: u8
  s_mkfs_time_hi :: u8
  s_lastcheck_hi :: u8
  s_first_error_time_hi :: u8
  s_last_error_time_hi :: u8
  s_first_error_errcode :: u8
  s_last_error_errcode :: u8
  s_encoding :: u16
  s_encoding_flags :: u16
  s_orphan_file_inum :: u32
  s_reserved :: "u32 list"
  s_checksum :: u32

record ext4_group_desc =
  bg_block_bitmap :: u32
  bg_inode_bitmap :: u32
  bg_inode_table :: u32
  bg_free_blocks_count :: u16
  bg_free_inodes_count :: u16
  bg_used_dirs_count :: u16
  bg_flags :: u16
  bg_exclude_bitmap_lo :: u32
  bg_block_bitmap_csum_lo :: u16
  bg_inode_bitmap_csum_lo :: u16
  bg_itable_unused :: u16
  bg_checksum :: u16
  bg_block_bitmap_hi :: u32
  bg_inode_bitmap_hi :: u32
  bg_inode_table_hi :: u32
  bg_free_blocks_count_hi :: u16
  bg_free_inodes_count_hi :: u16
  bg_used_dirs_count_hi :: u16
  bg_itable_unused_hi :: u16
  bg_exclude_bitmap_hi :: u32
  bg_block_bitmap_csum_hi :: u16
  bg_inode_bitmap_csum_hi :: u16
  bg_reserved :: u32

record ext2_inode =
  i_mode :: u16
  i_uid :: u16
  i_size :: u32
  i_atime :: u32
  i_ctime :: u32
  i_mtime :: u32
  i_dtime :: u32
  i_gid :: u16
  i_links_count :: u16
  i_blocks :: u32
  i_flags :: u32
  l_i_version :: u32
  i_block :: "u32 list"
  i_generation :: u32
  i_file_acl :: u32
  i_size_high :: u32
  i_faddr :: u32
  l_i_blocks_hi :: u16
  l_i_file_acl_high :: u16
  l_i_uid_high :: u16
  l_i_gid_high :: u16
  l_i_checksum_lo :: u16
  l_i_reserved :: u16

text \<open>\<open>struct ext2_inode_large\<close> starts with the same fields.\<close>

record ext2_inode_large = ext2_inode +
  i_extra_isize :: u16
  i_checksum_hi :: u16
  i_ctime_extra :: u32
  i_mtime_extra :: u32
  i_atime_extra :: u32
  i_crtime :: u32
  i_crtime_extra :: u32
  i_version_hi :: u32
  i_projid :: u32

section \<open>Features\<close>

abbreviation (input) EXT2_FEATURE_COMPAT_DIR_PREALLOC :: u32 where "EXT2_FEATURE_COMPAT_DIR_PREALLOC \<equiv> 1"
abbreviation (input) EXT2_FEATURE_COMPAT_IMAGIC_INODES :: u32 where "EXT2_FEATURE_COMPAT_IMAGIC_INODES \<equiv> 2"
abbreviation (input) EXT3_FEATURE_COMPAT_HAS_JOURNAL :: u32 where "EXT3_FEATURE_COMPAT_HAS_JOURNAL \<equiv> 4"
abbreviation (input) EXT2_FEATURE_COMPAT_EXT_ATTR :: u32 where "EXT2_FEATURE_COMPAT_EXT_ATTR \<equiv> 8"
abbreviation (input) EXT2_FEATURE_COMPAT_RESIZE_INODE :: u32 where "EXT2_FEATURE_COMPAT_RESIZE_INODE \<equiv> 16"
abbreviation (input) EXT2_FEATURE_COMPAT_DIR_INDEX :: u32 where "EXT2_FEATURE_COMPAT_DIR_INDEX \<equiv> 32"
abbreviation (input) EXT2_FEATURE_COMPAT_LAZY_BG :: u32 where "EXT2_FEATURE_COMPAT_LAZY_BG \<equiv> 64"
abbreviation (input) EXT2_FEATURE_COMPAT_EXCLUDE_BITMAP :: u32 where "EXT2_FEATURE_COMPAT_EXCLUDE_BITMAP \<equiv> 256"
abbreviation (input) EXT4_FEATURE_COMPAT_SPARSE_SUPER2 :: u32 where "EXT4_FEATURE_COMPAT_SPARSE_SUPER2 \<equiv> 512"
abbreviation (input) EXT4_FEATURE_COMPAT_FAST_COMMIT :: u32 where "EXT4_FEATURE_COMPAT_FAST_COMMIT \<equiv> 1024"
abbreviation (input) EXT4_FEATURE_COMPAT_STABLE_INODES :: u32 where "EXT4_FEATURE_COMPAT_STABLE_INODES \<equiv> 2048"
abbreviation (input) EXT4_FEATURE_COMPAT_ORPHAN_FILE :: u32 where "EXT4_FEATURE_COMPAT_ORPHAN_FILE \<equiv> 4096"
abbreviation (input) EXT2_FEATURE_RO_COMPAT_SPARSE_SUPER :: u32 where "EXT2_FEATURE_RO_COMPAT_SPARSE_SUPER \<equiv> 1"
abbreviation (input) EXT2_FEATURE_RO_COMPAT_LARGE_FILE :: u32 where "EXT2_FEATURE_RO_COMPAT_LARGE_FILE \<equiv> 2"
abbreviation (input) EXT4_FEATURE_RO_COMPAT_HUGE_FILE :: u32 where "EXT4_FEATURE_RO_COMPAT_HUGE_FILE \<equiv> 8"
abbreviation (input) EXT4_FEATURE_RO_COMPAT_GDT_CSUM :: u32 where "EXT4_FEATURE_RO_COMPAT_GDT_CSUM \<equiv> 16"
abbreviation (input) EXT4_FEATURE_RO_COMPAT_DIR_NLINK :: u32 where "EXT4_FEATURE_RO_COMPAT_DIR_NLINK \<equiv> 32"
abbreviation (input) EXT4_FEATURE_RO_COMPAT_EXTRA_ISIZE :: u32 where "EXT4_FEATURE_RO_COMPAT_EXTRA_ISIZE \<equiv> 64"
abbreviation (input) EXT4_FEATURE_RO_COMPAT_HAS_SNAPSHOT :: u32 where "EXT4_FEATURE_RO_COMPAT_HAS_SNAPSHOT \<equiv> 128"
abbreviation (input) EXT4_FEATURE_RO_COMPAT_QUOTA :: u32 where "EXT4_FEATURE_RO_COMPAT_QUOTA \<equiv> 256"
abbreviation (input) EXT4_FEATURE_RO_COMPAT_BIGALLOC :: u32 where "EXT4_FEATURE_RO_COMPAT_BIGALLOC \<equiv> 512"
abbreviation (input) EXT4_FEATURE_RO_COMPAT_METADATA_CSUM :: u32 where "EXT4_FEATURE_RO_COMPAT_METADATA_CSUM \<equiv> 1024"
abbreviation (input) EXT4_FEATURE_RO_COMPAT_REPLICA :: u32 where "EXT4_FEATURE_RO_COMPAT_REPLICA \<equiv> 2048"
abbreviation (input) EXT4_FEATURE_RO_COMPAT_READONLY :: u32 where "EXT4_FEATURE_RO_COMPAT_READONLY \<equiv> 4096"
abbreviation (input) EXT4_FEATURE_RO_COMPAT_PROJECT :: u32 where "EXT4_FEATURE_RO_COMPAT_PROJECT \<equiv> 8192"
abbreviation (input) EXT4_FEATURE_RO_COMPAT_SHARED_BLOCKS :: u32 where "EXT4_FEATURE_RO_COMPAT_SHARED_BLOCKS \<equiv> 16384"
abbreviation (input) EXT4_FEATURE_RO_COMPAT_VERITY :: u32 where "EXT4_FEATURE_RO_COMPAT_VERITY \<equiv> 32768"
abbreviation (input) EXT4_FEATURE_RO_COMPAT_ORPHAN_PRESENT :: u32 where "EXT4_FEATURE_RO_COMPAT_ORPHAN_PRESENT \<equiv> 65536"
abbreviation (input) EXT2_FEATURE_INCOMPAT_COMPRESSION :: u32 where "EXT2_FEATURE_INCOMPAT_COMPRESSION \<equiv> 1"
abbreviation (input) EXT2_FEATURE_INCOMPAT_FILETYPE :: u32 where "EXT2_FEATURE_INCOMPAT_FILETYPE \<equiv> 2"
abbreviation (input) EXT3_FEATURE_INCOMPAT_RECOVER :: u32 where "EXT3_FEATURE_INCOMPAT_RECOVER \<equiv> 4"
abbreviation (input) EXT3_FEATURE_INCOMPAT_JOURNAL_DEV :: u32 where "EXT3_FEATURE_INCOMPAT_JOURNAL_DEV \<equiv> 8"
abbreviation (input) EXT2_FEATURE_INCOMPAT_META_BG :: u32 where "EXT2_FEATURE_INCOMPAT_META_BG \<equiv> 16"
abbreviation (input) EXT3_FEATURE_INCOMPAT_EXTENTS :: u32 where "EXT3_FEATURE_INCOMPAT_EXTENTS \<equiv> 64"
abbreviation (input) EXT4_FEATURE_INCOMPAT_64BIT :: u32 where "EXT4_FEATURE_INCOMPAT_64BIT \<equiv> 128"
abbreviation (input) EXT4_FEATURE_INCOMPAT_MMP :: u32 where "EXT4_FEATURE_INCOMPAT_MMP \<equiv> 256"
abbreviation (input) EXT4_FEATURE_INCOMPAT_FLEX_BG :: u32 where "EXT4_FEATURE_INCOMPAT_FLEX_BG \<equiv> 512"
abbreviation (input) EXT4_FEATURE_INCOMPAT_EA_INODE :: u32 where "EXT4_FEATURE_INCOMPAT_EA_INODE \<equiv> 1024"
abbreviation (input) EXT4_FEATURE_INCOMPAT_DIRDATA :: u32 where "EXT4_FEATURE_INCOMPAT_DIRDATA \<equiv> 4096"
abbreviation (input) EXT4_FEATURE_INCOMPAT_CSUM_SEED :: u32 where "EXT4_FEATURE_INCOMPAT_CSUM_SEED \<equiv> 8192"
abbreviation (input) EXT4_FEATURE_INCOMPAT_LARGEDIR :: u32 where "EXT4_FEATURE_INCOMPAT_LARGEDIR \<equiv> 16384"
abbreviation (input) EXT4_FEATURE_INCOMPAT_INLINE_DATA :: u32 where "EXT4_FEATURE_INCOMPAT_INLINE_DATA \<equiv> 32768"
abbreviation (input) EXT4_FEATURE_INCOMPAT_ENCRYPT :: u32 where "EXT4_FEATURE_INCOMPAT_ENCRYPT \<equiv> 65536"
abbreviation (input) EXT4_FEATURE_INCOMPAT_CASEFOLD :: u32 where "EXT4_FEATURE_INCOMPAT_CASEFOLD \<equiv> 131072"

definition has_feature_compat :: "u32 \<Rightarrow> ext2_super_block \<Rightarrow> bool" where
  "has_feature_compat flag sb \<longleftrightarrow> s_feature_compat sb AND flag \<noteq> 0"

definition set_feature_compat :: "u32 \<Rightarrow> ext2_super_block \<Rightarrow> ext2_super_block" where
  "set_feature_compat flag sb = sb\<lparr>s_feature_compat := s_feature_compat sb OR flag\<rparr>"

definition clear_feature_compat :: "u32 \<Rightarrow> ext2_super_block \<Rightarrow> ext2_super_block" where
  "clear_feature_compat flag sb = sb\<lparr>s_feature_compat := s_feature_compat sb AND NOT flag\<rparr>"

definition has_feature_ro_compat :: "u32 \<Rightarrow> ext2_super_block \<Rightarrow> bool" where
  "has_feature_ro_compat flag sb \<longleftrightarrow> s_feature_ro_compat sb AND flag \<noteq> 0"

definition set_feature_ro_compat :: "u32 \<Rightarrow> ext2_super_block \<Rightarrow> ext2_super_block" where
  "set_feature_ro_compat flag sb = sb\<lparr>s_feature_ro_compat := s_feature_ro_compat sb OR flag\<rparr>"

definition clear_feature_ro_compat :: "u32 \<Rightarrow> ext2_super_block \<Rightarrow> ext2_super_block" where
  "clear_feature_ro_compat flag sb = sb\<lparr>s_feature_ro_compat := s_feature_ro_compat sb AND NOT flag\<rparr>"

definition has_feature_incompat :: "u32 \<Rightarrow> ext2_super_block \<Rightarrow> bool" where
  "has_feature_incompat flag sb \<longleftrightarrow> s_feature_incompat sb AND flag \<noteq> 0"

definition set_feature_incompat :: "u32 \<Rightarrow> ext2_super_block \<Rightarrow> ext2_super_block" where
  "set_feature_incompat flag sb = sb\<lparr>s_feature_incompat := s_feature_incompat sb OR flag\<rparr>"

definition clear_feature_incompat :: "u32 \<Rightarrow> ext2_super_block \<Rightarrow> ext2_super_block" where
  "clear_feature_incompat flag sb = sb\<lparr>s_feature_incompat := s_feature_incompat sb AND NOT flag\<rparr>"

abbreviation "ext2fs_has_feature_dir_prealloc \<equiv> has_feature_compat EXT2_FEATURE_COMPAT_DIR_PREALLOC"
abbreviation "ext2fs_has_feature_imagic_inodes \<equiv> has_feature_compat EXT2_FEATURE_COMPAT_IMAGIC_INODES"
abbreviation "ext2fs_has_feature_journal \<equiv> has_feature_compat EXT3_FEATURE_COMPAT_HAS_JOURNAL"
abbreviation "ext2fs_has_feature_xattr \<equiv> has_feature_compat EXT2_FEATURE_COMPAT_EXT_ATTR"
abbreviation "ext2fs_has_feature_resize_inode \<equiv> has_feature_compat EXT2_FEATURE_COMPAT_RESIZE_INODE"
abbreviation "ext2fs_has_feature_dir_index \<equiv> has_feature_compat EXT2_FEATURE_COMPAT_DIR_INDEX"
abbreviation "ext2fs_has_feature_lazy_bg \<equiv> has_feature_compat EXT2_FEATURE_COMPAT_LAZY_BG"
abbreviation "ext2fs_has_feature_exclude_bitmap \<equiv> has_feature_compat EXT2_FEATURE_COMPAT_EXCLUDE_BITMAP"
abbreviation "ext2fs_has_feature_sparse_super2 \<equiv> has_feature_compat EXT4_FEATURE_COMPAT_SPARSE_SUPER2"
abbreviation "ext2fs_has_feature_fast_commit \<equiv> has_feature_compat EXT4_FEATURE_COMPAT_FAST_COMMIT"
abbreviation "ext2fs_has_feature_stable_inodes \<equiv> has_feature_compat EXT4_FEATURE_COMPAT_STABLE_INODES"
abbreviation "ext2fs_has_feature_orphan_file \<equiv> has_feature_compat EXT4_FEATURE_COMPAT_ORPHAN_FILE"
abbreviation "ext2fs_has_feature_sparse_super \<equiv> has_feature_ro_compat EXT2_FEATURE_RO_COMPAT_SPARSE_SUPER"
abbreviation "ext2fs_has_feature_large_file \<equiv> has_feature_ro_compat EXT2_FEATURE_RO_COMPAT_LARGE_FILE"
abbreviation "ext2fs_has_feature_huge_file \<equiv> has_feature_ro_compat EXT4_FEATURE_RO_COMPAT_HUGE_FILE"
abbreviation "ext2fs_has_feature_gdt_csum \<equiv> has_feature_ro_compat EXT4_FEATURE_RO_COMPAT_GDT_CSUM"
abbreviation "ext2fs_has_feature_dir_nlink \<equiv> has_feature_ro_compat EXT4_FEATURE_RO_COMPAT_DIR_NLINK"
abbreviation "ext2fs_has_feature_extra_isize \<equiv> has_feature_ro_compat EXT4_FEATURE_RO_COMPAT_EXTRA_ISIZE"
abbreviation "ext2fs_has_feature_has_snapshot \<equiv> has_feature_ro_compat EXT4_FEATURE_RO_COMPAT_HAS_SNAPSHOT"
abbreviation "ext2fs_has_feature_quota \<equiv> has_feature_ro_compat EXT4_FEATURE_RO_COMPAT_QUOTA"
abbreviation "ext2fs_has_feature_bigalloc \<equiv> has_feature_ro_compat EXT4_FEATURE_RO_COMPAT_BIGALLOC"
abbreviation "ext2fs_has_feature_metadata_csum \<equiv> has_feature_ro_compat EXT4_FEATURE_RO_COMPAT_METADATA_CSUM"
abbreviation "ext2fs_has_feature_replica \<equiv> has_feature_ro_compat EXT4_FEATURE_RO_COMPAT_REPLICA"
abbreviation "ext2fs_has_feature_readonly \<equiv> has_feature_ro_compat EXT4_FEATURE_RO_COMPAT_READONLY"
abbreviation "ext2fs_has_feature_project \<equiv> has_feature_ro_compat EXT4_FEATURE_RO_COMPAT_PROJECT"
abbreviation "ext2fs_has_feature_shared_blocks \<equiv> has_feature_ro_compat EXT4_FEATURE_RO_COMPAT_SHARED_BLOCKS"
abbreviation "ext2fs_has_feature_verity \<equiv> has_feature_ro_compat EXT4_FEATURE_RO_COMPAT_VERITY"
abbreviation "ext2fs_has_feature_orphan_present \<equiv> has_feature_ro_compat EXT4_FEATURE_RO_COMPAT_ORPHAN_PRESENT"
abbreviation "ext2fs_has_feature_compression \<equiv> has_feature_incompat EXT2_FEATURE_INCOMPAT_COMPRESSION"
abbreviation "ext2fs_has_feature_filetype \<equiv> has_feature_incompat EXT2_FEATURE_INCOMPAT_FILETYPE"
abbreviation "ext2fs_has_feature_journal_needs_recovery \<equiv> has_feature_incompat EXT3_FEATURE_INCOMPAT_RECOVER"
abbreviation "ext2fs_has_feature_journal_dev \<equiv> has_feature_incompat EXT3_FEATURE_INCOMPAT_JOURNAL_DEV"
abbreviation "ext2fs_has_feature_meta_bg \<equiv> has_feature_incompat EXT2_FEATURE_INCOMPAT_META_BG"
abbreviation "ext2fs_has_feature_extents \<equiv> has_feature_incompat EXT3_FEATURE_INCOMPAT_EXTENTS"
abbreviation "ext2fs_has_feature_64bit \<equiv> has_feature_incompat EXT4_FEATURE_INCOMPAT_64BIT"
abbreviation "ext2fs_has_feature_mmp \<equiv> has_feature_incompat EXT4_FEATURE_INCOMPAT_MMP"
abbreviation "ext2fs_has_feature_flex_bg \<equiv> has_feature_incompat EXT4_FEATURE_INCOMPAT_FLEX_BG"
abbreviation "ext2fs_has_feature_ea_inode \<equiv> has_feature_incompat EXT4_FEATURE_INCOMPAT_EA_INODE"
abbreviation "ext2fs_has_feature_dirdata \<equiv> has_feature_incompat EXT4_FEATURE_INCOMPAT_DIRDATA"
abbreviation "ext2fs_has_feature_csum_seed \<equiv> has_feature_incompat EXT4_FEATURE_INCOMPAT_CSUM_SEED"
abbreviation "ext2fs_has_feature_largedir \<equiv> has_feature_incompat EXT4_FEATURE_INCOMPAT_LARGEDIR"
abbreviation "ext2fs_has_feature_inline_data \<equiv> has_feature_incompat EXT4_FEATURE_INCOMPAT_INLINE_DATA"
abbreviation "ext2fs_has_feature_encrypt \<equiv> has_feature_incompat EXT4_FEATURE_INCOMPAT_ENCRYPT"
abbreviation "ext2fs_has_feature_casefold \<equiv> has_feature_incompat EXT4_FEATURE_INCOMPAT_CASEFOLD"
abbreviation "ext2fs_set_feature_large_file \<equiv> set_feature_ro_compat EXT2_FEATURE_RO_COMPAT_LARGE_FILE"
abbreviation "ext2fs_clear_feature_journal_needs_recovery \<equiv> clear_feature_incompat EXT3_FEATURE_INCOMPAT_RECOVER"
abbreviation "ext2fs_set_feature_largedir \<equiv> set_feature_incompat EXT4_FEATURE_INCOMPAT_LARGEDIR"

section \<open>The file system handle\<close>

text \<open>
  \<open>fs_base\<close> holds the members of \<open>struct struct_ext2_filsys\<close> that the geometry and the counters
  need; \<^verbatim>\<open>Filsys\<close> extends it with the bitmaps. \<open>flags\<close> is an \<open>int\<close> in C, used as a set of bits;
  \<open>cluster_ratio_bits\<close> is an \<open>int\<close> that is never negative.
\<close>

record fs_base =
  fs_magic :: errcode
  fs_flags :: u32
  fs_super :: ext2_super_block
  fs_blocksize :: u32
  fs_group_desc_count :: u32
  fs_desc_blocks :: u64
  fs_group_desc :: "ext4_group_desc list"
  fs_inode_blocks_per_group :: u32
  fs_cluster_ratio_bits :: nat
  fs_default_bitmap_type :: u16
  fs_csum_seed :: u32

definition EXT2_BLOCK_SIZE :: "ext2_super_block \<Rightarrow> u32" where
  "EXT2_BLOCK_SIZE s = push_bit (unat (s_log_block_size s)) 1024"

definition EXT2_CLUSTER_SIZE :: "ext2_super_block \<Rightarrow> u32" where
  "EXT2_CLUSTER_SIZE s = push_bit (unat (s_log_cluster_size s)) 1024"

definition EXT2_INODE_SIZE :: "ext2_super_block \<Rightarrow> u16" where
  "EXT2_INODE_SIZE s = (if s_rev_level s = 0 then 128 else s_inode_size s)"

definition EXT2_FIRST_INO :: "ext2_super_block \<Rightarrow> u32" where
  "EXT2_FIRST_INO s = (if s_rev_level s = 0 then 11 else s_first_ino s)"

definition EXT2_DESC_SIZE :: "ext2_super_block \<Rightarrow> u32" where
  "EXT2_DESC_SIZE s = (if ext2fs_has_feature_64bit s then ucast (s_desc_size s) else 32)"

definition EXT2_DESC_PER_BLOCK :: "ext2_super_block \<Rightarrow> u32" where
  "EXT2_DESC_PER_BLOCK s = EXT2_BLOCK_SIZE s div EXT2_DESC_SIZE s"

definition EXT2_GROUPS_TO_BLOCKS :: "ext2_super_block \<Rightarrow> u32 \<Rightarrow> u64" where
  "EXT2_GROUPS_TO_BLOCKS s g = ucast (s_blocks_per_group s) * ucast g"

definition EXT2FS_CLUSTER_RATIO :: "'a fs_base_scheme \<Rightarrow> u64" where
  "EXT2FS_CLUSTER_RATIO fs = push_bit (fs_cluster_ratio_bits fs) 1"

definition EXT2FS_CLUSTER_MASK :: "'a fs_base_scheme \<Rightarrow> u64" where
  "EXT2FS_CLUSTER_MASK fs = EXT2FS_CLUSTER_RATIO fs - 1"

definition EXT2FS_B2C :: "'a fs_base_scheme \<Rightarrow> u64 \<Rightarrow> u64" where
  "EXT2FS_B2C fs blk = drop_bit (fs_cluster_ratio_bits fs) blk"

definition EXT2FS_C2B :: "'a fs_base_scheme \<Rightarrow> u64 \<Rightarrow> u64" where
  "EXT2FS_C2B fs cluster = push_bit (fs_cluster_ratio_bits fs) cluster"

definition EXT2FS_NUM_B2C :: "'a fs_base_scheme \<Rightarrow> u64 \<Rightarrow> u64" where
  "EXT2FS_NUM_B2C fs blks = drop_bit (fs_cluster_ratio_bits fs) (blks + EXT2FS_CLUSTER_MASK fs)"

section \<open>The state flags\<close>

abbreviation (input) EXT2_FLAG_CHANGED :: u32 where "EXT2_FLAG_CHANGED \<equiv> 2"
abbreviation (input) EXT2_FLAG_DIRTY :: u32 where "EXT2_FLAG_DIRTY \<equiv> 4"
abbreviation (input) EXT2_FLAG_VALID :: u32 where "EXT2_FLAG_VALID \<equiv> 8"
abbreviation (input) EXT2_FLAG_IB_DIRTY :: u32 where "EXT2_FLAG_IB_DIRTY \<equiv> 16"
abbreviation (input) EXT2_FLAG_BB_DIRTY :: u32 where "EXT2_FLAG_BB_DIRTY \<equiv> 32"
abbreviation (input) EXT2_FLAG_64BITS :: u32 where "EXT2_FLAG_64BITS \<equiv> 131072"

definition ext2fs_mark_super_dirty :: "'a fs_base_scheme \<Rightarrow> 'a fs_base_scheme" where
  "ext2fs_mark_super_dirty fs = fs\<lparr>fs_flags := fs_flags fs OR (EXT2_FLAG_DIRTY OR EXT2_FLAG_CHANGED)\<rparr>"

definition ext2fs_mark_changed :: "'a fs_base_scheme \<Rightarrow> 'a fs_base_scheme" where
  "ext2fs_mark_changed fs = fs\<lparr>fs_flags := fs_flags fs OR EXT2_FLAG_CHANGED\<rparr>"

definition ext2fs_test_changed :: "'a fs_base_scheme \<Rightarrow> u32" where
  "ext2fs_test_changed fs = fs_flags fs AND EXT2_FLAG_CHANGED"

definition ext2fs_mark_valid :: "'a fs_base_scheme \<Rightarrow> 'a fs_base_scheme" where
  "ext2fs_mark_valid fs = fs\<lparr>fs_flags := fs_flags fs OR EXT2_FLAG_VALID\<rparr>"

definition ext2fs_unmark_valid :: "'a fs_base_scheme \<Rightarrow> 'a fs_base_scheme" where
  "ext2fs_unmark_valid fs = fs\<lparr>fs_flags := fs_flags fs AND NOT EXT2_FLAG_VALID\<rparr>"

definition ext2fs_test_valid :: "'a fs_base_scheme \<Rightarrow> u32" where
  "ext2fs_test_valid fs = fs_flags fs AND EXT2_FLAG_VALID"

definition ext2fs_mark_ib_dirty :: "'a fs_base_scheme \<Rightarrow> 'a fs_base_scheme" where
  "ext2fs_mark_ib_dirty fs = fs\<lparr>fs_flags := fs_flags fs OR (EXT2_FLAG_IB_DIRTY OR EXT2_FLAG_CHANGED)\<rparr>"

definition ext2fs_mark_bb_dirty :: "'a fs_base_scheme \<Rightarrow> 'a fs_base_scheme" where
  "ext2fs_mark_bb_dirty fs = fs\<lparr>fs_flags := fs_flags fs OR (EXT2_FLAG_BB_DIRTY OR EXT2_FLAG_CHANGED)\<rparr>"

definition ext2fs_test_ib_dirty :: "'a fs_base_scheme \<Rightarrow> u32" where
  "ext2fs_test_ib_dirty fs = fs_flags fs AND EXT2_FLAG_IB_DIRTY"

definition ext2fs_test_bb_dirty :: "'a fs_base_scheme \<Rightarrow> u32" where
  "ext2fs_test_bb_dirty fs = fs_flags fs AND EXT2_FLAG_BB_DIRTY"

section \<open>Division rounded up\<close>

definition ext2fs_div_ceil :: "u32 \<Rightarrow> u32 \<Rightarrow> u32" where
  "ext2fs_div_ceil a b = (if a = 0 then 0 else (a - 1) div b + 1)"

definition ext2fs_div64_ceil :: "u64 \<Rightarrow> u64 \<Rightarrow> u64" where
  "ext2fs_div64_ceil a b = (if a = 0 then 0 else (a - 1) div b + 1)"

definition ext2fs_group_of_ino :: "'a fs_base_scheme \<Rightarrow> u32 \<Rightarrow> u32" where
  "ext2fs_group_of_ino fs ino = (ino - 1) div s_inodes_per_group (fs_super fs)"

end
