(* ===== verification/Blknum.thy ===== *)
theory Blknum
  imports Ext2_fs
begin

text \<open>
  \<^verbatim>\<open>libext2fs/blknum.c\<close> and \<^verbatim>\<open>libext2fs/get_num_dirs.c\<close>: the geometry of the block groups, the
  counters of the super block and of the group descriptors, whose high halves are used only with
  the 64-bit feature, and the block count, acl block and size of an inode.
\<close>

section \<open>Super block counters\<close>

definition ext2fs_blocks_count :: "ext2_super_block \<Rightarrow> u64" where
  "ext2fs_blocks_count super =
     ucast (s_blocks_count super) OR
     (if ext2fs_has_feature_64bit super then push_bit 32 (ucast (s_blocks_count_hi super)) else 0)"

definition ext2fs_blocks_count_set :: "ext2_super_block \<Rightarrow> u64 \<Rightarrow> ext2_super_block" where
  "ext2fs_blocks_count_set super blk =
     (let super = super\<lparr>s_blocks_count := ucast blk\<rparr>
      in if ext2fs_has_feature_64bit super then super\<lparr>s_blocks_count_hi := ucast (drop_bit 32 blk)\<rparr>
         else super)"

definition ext2fs_blocks_count_add :: "ext2_super_block \<Rightarrow> u64 \<Rightarrow> ext2_super_block" where
  "ext2fs_blocks_count_add super blk = ext2fs_blocks_count_set super (ext2fs_blocks_count super + blk)"

definition ext2fs_r_blocks_count :: "ext2_super_block \<Rightarrow> u64" where
  "ext2fs_r_blocks_count super =
     ucast (s_r_blocks_count super) OR
     (if ext2fs_has_feature_64bit super then push_bit 32 (ucast (s_r_blocks_count_hi super)) else 0)"

definition ext2fs_r_blocks_count_set :: "ext2_super_block \<Rightarrow> u64 \<Rightarrow> ext2_super_block" where
  "ext2fs_r_blocks_count_set super blk =
     (let super = super\<lparr>s_r_blocks_count := ucast blk\<rparr>
      in if ext2fs_has_feature_64bit super then super\<lparr>s_r_blocks_count_hi := ucast (drop_bit 32 blk)\<rparr>
         else super)"

definition ext2fs_r_blocks_count_add :: "ext2_super_block \<Rightarrow> u64 \<Rightarrow> ext2_super_block" where
  "ext2fs_r_blocks_count_add super blk = ext2fs_r_blocks_count_set super (ext2fs_r_blocks_count super + blk)"

definition ext2fs_free_blocks_count :: "ext2_super_block \<Rightarrow> u64" where
  "ext2fs_free_blocks_count super =
     ucast (s_free_blocks_count super) OR
     (if ext2fs_has_feature_64bit super then push_bit 32 (ucast (s_free_blocks_hi super)) else 0)"

definition ext2fs_free_blocks_count_set :: "ext2_super_block \<Rightarrow> u64 \<Rightarrow> ext2_super_block" where
  "ext2fs_free_blocks_count_set super blk =
     (let super = super\<lparr>s_free_blocks_count := ucast blk\<rparr>
      in if ext2fs_has_feature_64bit super then super\<lparr>s_free_blocks_hi := ucast (drop_bit 32 blk)\<rparr>
         else super)"

definition ext2fs_free_blocks_count_add :: "ext2_super_block \<Rightarrow> u64 \<Rightarrow> ext2_super_block" where
  "ext2fs_free_blocks_count_add super blk = ext2fs_free_blocks_count_set super (ext2fs_free_blocks_count super + blk)"

section \<open>Geometry of the groups\<close>

definition ext2fs_group_of_blk2 :: "'a fs_base_scheme \<Rightarrow> u64 \<Rightarrow> u32" where
  "ext2fs_group_of_blk2 fs blk =
     ucast ((blk - ucast (s_first_data_block (fs_super fs))) div ucast (s_blocks_per_group (fs_super fs)))"

definition ext2fs_group_first_block2 :: "'a fs_base_scheme \<Rightarrow> u32 \<Rightarrow> u64" where
  "ext2fs_group_first_block2 fs grp =
     ucast (s_first_data_block (fs_super fs)) + EXT2_GROUPS_TO_BLOCKS (fs_super fs) grp"

definition ext2fs_group_last_block2 :: "'a fs_base_scheme \<Rightarrow> u32 \<Rightarrow> u64" where
  "ext2fs_group_last_block2 fs grp =
     (if grp = fs_group_desc_count fs - 1 then ext2fs_blocks_count (fs_super fs) - 1
      else ext2fs_group_first_block2 fs grp + ucast (s_blocks_per_group (fs_super fs) - 1))"

definition ext2fs_group_blocks_count :: "'a fs_base_scheme \<Rightarrow> u32 \<Rightarrow> u32" where
  "ext2fs_group_blocks_count fs grp =
     (if grp = fs_group_desc_count fs - 1
      then let num_blocks = ucast ((ext2fs_blocks_count (fs_super fs)
                                     - ucast (s_first_data_block (fs_super fs)))
                                   mod ucast (s_blocks_per_group (fs_super fs)))
           in if num_blocks = 0 then s_blocks_per_group (fs_super fs) else num_blocks
      else s_blocks_per_group (fs_super fs))"

section \<open>Group descriptors\<close>

text \<open>
  \<open>ext2fs_group_desc\<close> with the descriptors in memory: the null pointer for a group number beyond
  the count, else the descriptor at its index. The accessors read the result without a test. The code
  steps through one byte array with a stride of \<open>EXT2_DESC_SIZE\<close>, and reads a descriptor from the device when
  the array was not loaded; here the array is loaded, and is a list of records, so two descriptors are
  distinct by construction: nothing is proved about descriptors that overlap in memory.
\<close>

definition ext2fs_group_desc :: "'a fs_base_scheme \<Rightarrow> u32 \<Rightarrow> ext4_group_desc option" where
  "ext2fs_group_desc fs grp =
     (if grp > fs_group_desc_count fs then None else Some (fs_group_desc fs ! unat grp))"

definition ext4fs_group_desc :: "'a fs_base_scheme \<Rightarrow> u32 \<Rightarrow> ext4_group_desc" where
  "ext4fs_group_desc fs grp = the (ext2fs_group_desc fs grp)"

definition gdp_store :: "'a fs_base_scheme \<Rightarrow> u32 \<Rightarrow> ext4_group_desc \<Rightarrow> 'a fs_base_scheme" where
  "gdp_store fs grp gdp = fs\<lparr>fs_group_desc := (fs_group_desc fs)[unat grp := gdp]\<rparr>"

definition ext2fs_block_bitmap_checksum :: "'a fs_base_scheme \<Rightarrow> u32 \<Rightarrow> u32" where
  "ext2fs_block_bitmap_checksum fs grp =
     (let gdp = ext4fs_group_desc fs grp;
          csum = ucast (bg_block_bitmap_csum_lo gdp)
      in if EXT2_DESC_SIZE (fs_super fs) \<ge> 58
         then csum OR push_bit 16 (ucast (bg_block_bitmap_csum_hi gdp)) else csum)"

definition ext2fs_inode_bitmap_checksum :: "'a fs_base_scheme \<Rightarrow> u32 \<Rightarrow> u32" where
  "ext2fs_inode_bitmap_checksum fs grp =
     (let gdp = ext4fs_group_desc fs grp;
          csum = ucast (bg_inode_bitmap_csum_lo gdp)
      in if EXT2_DESC_SIZE (fs_super fs) \<ge> 60
         then csum OR push_bit 16 (ucast (bg_inode_bitmap_csum_hi gdp)) else csum)"

definition ext2fs_block_bitmap_loc :: "'a fs_base_scheme \<Rightarrow> u32 \<Rightarrow> u64" where
  "ext2fs_block_bitmap_loc fs grp =
     (let gdp = ext4fs_group_desc fs grp
      in ucast (bg_block_bitmap gdp) OR
         (if ext2fs_has_feature_64bit (fs_super fs) then push_bit 32 (ucast (bg_block_bitmap_hi gdp)) else 0))"

definition ext2fs_block_bitmap_loc_set :: "'a fs_base_scheme \<Rightarrow> u32 \<Rightarrow> u64 \<Rightarrow> 'a fs_base_scheme" where
  "ext2fs_block_bitmap_loc_set fs grp blk =
     (let gdp = (ext4fs_group_desc fs grp)\<lparr>bg_block_bitmap := ucast blk\<rparr>
      in gdp_store fs grp
           (if ext2fs_has_feature_64bit (fs_super fs)
            then gdp\<lparr>bg_block_bitmap_hi := ucast (drop_bit 32 blk)\<rparr> else gdp))"

definition ext2fs_inode_bitmap_loc :: "'a fs_base_scheme \<Rightarrow> u32 \<Rightarrow> u64" where
  "ext2fs_inode_bitmap_loc fs grp =
     (let gdp = ext4fs_group_desc fs grp
      in ucast (bg_inode_bitmap gdp) OR
         (if ext2fs_has_feature_64bit (fs_super fs) then push_bit 32 (ucast (bg_inode_bitmap_hi gdp)) else 0))"

definition ext2fs_inode_bitmap_loc_set :: "'a fs_base_scheme \<Rightarrow> u32 \<Rightarrow> u64 \<Rightarrow> 'a fs_base_scheme" where
  "ext2fs_inode_bitmap_loc_set fs grp blk =
     (let gdp = (ext4fs_group_desc fs grp)\<lparr>bg_inode_bitmap := ucast blk\<rparr>
      in gdp_store fs grp
           (if ext2fs_has_feature_64bit (fs_super fs)
            then gdp\<lparr>bg_inode_bitmap_hi := ucast (drop_bit 32 blk)\<rparr> else gdp))"

definition ext2fs_inode_table_loc :: "'a fs_base_scheme \<Rightarrow> u32 \<Rightarrow> u64" where
  "ext2fs_inode_table_loc fs grp =
     (let gdp = ext4fs_group_desc fs grp
      in ucast (bg_inode_table gdp) OR
         (if ext2fs_has_feature_64bit (fs_super fs) then push_bit 32 (ucast (bg_inode_table_hi gdp)) else 0))"

definition ext2fs_inode_table_loc_set :: "'a fs_base_scheme \<Rightarrow> u32 \<Rightarrow> u64 \<Rightarrow> 'a fs_base_scheme" where
  "ext2fs_inode_table_loc_set fs grp blk =
     (let gdp = (ext4fs_group_desc fs grp)\<lparr>bg_inode_table := ucast blk\<rparr>
      in gdp_store fs grp
           (if ext2fs_has_feature_64bit (fs_super fs)
            then gdp\<lparr>bg_inode_table_hi := ucast (drop_bit 32 blk)\<rparr> else gdp))"

definition ext2fs_bg_free_blocks_count :: "'a fs_base_scheme \<Rightarrow> u32 \<Rightarrow> u32" where
  "ext2fs_bg_free_blocks_count fs grp =
     (let gdp = ext4fs_group_desc fs grp
      in ucast (bg_free_blocks_count gdp) OR
         (if ext2fs_has_feature_64bit (fs_super fs) then push_bit 16 (ucast (bg_free_blocks_count_hi gdp)) else 0))"

definition ext2fs_bg_free_blocks_count_set :: "'a fs_base_scheme \<Rightarrow> u32 \<Rightarrow> u32 \<Rightarrow> 'a fs_base_scheme" where
  "ext2fs_bg_free_blocks_count_set fs grp n =
     (let gdp = (ext4fs_group_desc fs grp)\<lparr>bg_free_blocks_count := ucast n\<rparr>
      in gdp_store fs grp
           (if ext2fs_has_feature_64bit (fs_super fs)
            then gdp\<lparr>bg_free_blocks_count_hi := ucast (drop_bit 16 n)\<rparr> else gdp))"

definition ext2fs_bg_free_inodes_count :: "'a fs_base_scheme \<Rightarrow> u32 \<Rightarrow> u32" where
  "ext2fs_bg_free_inodes_count fs grp =
     (let gdp = ext4fs_group_desc fs grp
      in ucast (bg_free_inodes_count gdp) OR
         (if ext2fs_has_feature_64bit (fs_super fs) then push_bit 16 (ucast (bg_free_inodes_count_hi gdp)) else 0))"

definition ext2fs_bg_free_inodes_count_set :: "'a fs_base_scheme \<Rightarrow> u32 \<Rightarrow> u32 \<Rightarrow> 'a fs_base_scheme" where
  "ext2fs_bg_free_inodes_count_set fs grp n =
     (let gdp = (ext4fs_group_desc fs grp)\<lparr>bg_free_inodes_count := ucast n\<rparr>
      in gdp_store fs grp
           (if ext2fs_has_feature_64bit (fs_super fs)
            then gdp\<lparr>bg_free_inodes_count_hi := ucast (drop_bit 16 n)\<rparr> else gdp))"

definition ext2fs_bg_used_dirs_count :: "'a fs_base_scheme \<Rightarrow> u32 \<Rightarrow> u32" where
  "ext2fs_bg_used_dirs_count fs grp =
     (let gdp = ext4fs_group_desc fs grp
      in ucast (bg_used_dirs_count gdp) OR
         (if ext2fs_has_feature_64bit (fs_super fs) then push_bit 16 (ucast (bg_used_dirs_count_hi gdp)) else 0))"

definition ext2fs_bg_used_dirs_count_set :: "'a fs_base_scheme \<Rightarrow> u32 \<Rightarrow> u32 \<Rightarrow> 'a fs_base_scheme" where
  "ext2fs_bg_used_dirs_count_set fs grp n =
     (let gdp = (ext4fs_group_desc fs grp)\<lparr>bg_used_dirs_count := ucast n\<rparr>
      in gdp_store fs grp
           (if ext2fs_has_feature_64bit (fs_super fs)
            then gdp\<lparr>bg_used_dirs_count_hi := ucast (drop_bit 16 n)\<rparr> else gdp))"

definition ext2fs_bg_itable_unused :: "'a fs_base_scheme \<Rightarrow> u32 \<Rightarrow> u32" where
  "ext2fs_bg_itable_unused fs grp =
     (let gdp = ext4fs_group_desc fs grp
      in ucast (bg_itable_unused gdp) OR
         (if ext2fs_has_feature_64bit (fs_super fs) then push_bit 16 (ucast (bg_itable_unused_hi gdp)) else 0))"

definition ext2fs_bg_itable_unused_set :: "'a fs_base_scheme \<Rightarrow> u32 \<Rightarrow> u32 \<Rightarrow> 'a fs_base_scheme" where
  "ext2fs_bg_itable_unused_set fs grp n =
     (let gdp = (ext4fs_group_desc fs grp)\<lparr>bg_itable_unused := ucast n\<rparr>
      in gdp_store fs grp
           (if ext2fs_has_feature_64bit (fs_super fs)
            then gdp\<lparr>bg_itable_unused_hi := ucast (drop_bit 16 n)\<rparr> else gdp))"

definition ext2fs_bg_flags :: "'a fs_base_scheme \<Rightarrow> u32 \<Rightarrow> u16" where
  "ext2fs_bg_flags fs grp = bg_flags (ext4fs_group_desc fs grp)"

definition ext2fs_bg_flags_zap :: "'a fs_base_scheme \<Rightarrow> u32 \<Rightarrow> 'a fs_base_scheme" where
  "ext2fs_bg_flags_zap fs grp = gdp_store fs grp ((ext4fs_group_desc fs grp)\<lparr>bg_flags := 0\<rparr>)"

definition ext2fs_bg_flags_test :: "'a fs_base_scheme \<Rightarrow> u32 \<Rightarrow> u16 \<Rightarrow> int" where
  "ext2fs_bg_flags_test fs grp bg_flag = uint (bg_flags (ext4fs_group_desc fs grp) AND bg_flag)"

definition ext2fs_bg_flags_set :: "'a fs_base_scheme \<Rightarrow> u32 \<Rightarrow> u16 \<Rightarrow> 'a fs_base_scheme" where
  "ext2fs_bg_flags_set fs grp flags =
     (let gdp = ext4fs_group_desc fs grp
      in gdp_store fs grp (gdp\<lparr>bg_flags := bg_flags gdp OR flags\<rparr>))"

definition ext2fs_bg_flags_clear :: "'a fs_base_scheme \<Rightarrow> u32 \<Rightarrow> u16 \<Rightarrow> 'a fs_base_scheme" where
  "ext2fs_bg_flags_clear fs grp flags =
     (let gdp = ext4fs_group_desc fs grp
      in gdp_store fs grp (gdp\<lparr>bg_flags := bg_flags gdp AND NOT flags\<rparr>))"

definition ext2fs_bg_checksum :: "'a fs_base_scheme \<Rightarrow> u32 \<Rightarrow> u16" where
  "ext2fs_bg_checksum fs grp = bg_checksum (ext4fs_group_desc fs grp)"

definition ext2fs_bg_checksum_set :: "'a fs_base_scheme \<Rightarrow> u32 \<Rightarrow> u16 \<Rightarrow> 'a fs_base_scheme" where
  "ext2fs_bg_checksum_set fs grp checksum =
     gdp_store fs grp ((ext4fs_group_desc fs grp)\<lparr>bg_checksum := checksum\<rparr>)"

section \<open>Directories\<close>

definition num_dirs_loop :: "'a fs_base_scheme \<Rightarrow> u32 \<Rightarrow> nat \<Rightarrow> u32" where
  "num_dirs_loop fs max_dirs n =
     foldl (\<lambda>num_dirs i. if ext2fs_bg_used_dirs_count fs (of_nat i) > max_dirs
                         then num_dirs + max_dirs div 8
                         else num_dirs + ext2fs_bg_used_dirs_count fs (of_nat i)) 0 [0..<n]"

definition ext2fs_get_num_dirs :: "'a fs_base_scheme \<Rightarrow> errcode + u32" where
  "ext2fs_get_num_dirs fs =
     (if fs_magic fs \<noteq> EXT2_ET_MAGIC_EXT2FS_FILSYS then Inl EXT2_ET_MAGIC_EXT2FS_FILSYS
      else
        let num_dirs = num_dirs_loop fs (s_inodes_per_group (fs_super fs)) (unat (fs_group_desc_count fs))
        in Inr (if num_dirs > s_inodes_count (fs_super fs) then s_inodes_count (fs_super fs) else num_dirs))"

section \<open>Inodes\<close>

abbreviation LINUX_S_IFMT :: u16 where "LINUX_S_IFMT \<equiv> 61440"
abbreviation LINUX_S_IFREG :: u16 where "LINUX_S_IFREG \<equiv> 32768"
abbreviation LINUX_S_IFDIR :: u16 where "LINUX_S_IFDIR \<equiv> 16384"
abbreviation LINUX_S_IFLNK :: u16 where "LINUX_S_IFLNK \<equiv> 40960"
abbreviation EXT4_HUGE_FILE_FL :: u32 where "EXT4_HUGE_FILE_FL \<equiv> 262144"
abbreviation EXT4_INLINE_DATA_FL :: u32 where "EXT4_INLINE_DATA_FL \<equiv> 268435456"

definition LINUX_S_ISREG :: "u16 \<Rightarrow> bool" where
  "LINUX_S_ISREG m \<longleftrightarrow> m AND LINUX_S_IFMT = LINUX_S_IFREG"

definition LINUX_S_ISDIR :: "u16 \<Rightarrow> bool" where
  "LINUX_S_ISDIR m \<longleftrightarrow> m AND LINUX_S_IFMT = LINUX_S_IFDIR"

definition LINUX_S_ISLNK :: "u16 \<Rightarrow> bool" where
  "LINUX_S_ISLNK m \<longleftrightarrow> m AND LINUX_S_IFMT = LINUX_S_IFLNK"

definition ext2fs_inode_i_blocks :: "'a fs_base_scheme \<Rightarrow> 'b ext2_inode_scheme \<Rightarrow> u64" where
  "ext2fs_inode_i_blocks fs inode =
     ucast (i_blocks inode) OR
     (if ext2fs_has_feature_huge_file (fs_super fs) then push_bit 32 (ucast (l_i_blocks_hi inode)) else 0)"

definition ext2fs_inode_data_blocks2 :: "'a fs_base_scheme \<Rightarrow> 'b ext2_inode_scheme \<Rightarrow> u64" where
  "ext2fs_inode_data_blocks2 fs inode =
     (ucast (i_blocks inode) OR
      (if ext2fs_has_feature_huge_file (fs_super fs) then push_bit 32 (ucast (l_i_blocks_hi inode)) else 0))
     - (if i_file_acl inode \<noteq> 0 then ucast (drop_bit 9 (EXT2_CLUSTER_SIZE (fs_super fs))) else 0)"

definition ext2fs_get_stat_i_blocks :: "'a fs_base_scheme \<Rightarrow> 'b ext2_inode_scheme \<Rightarrow> u64" where
  "ext2fs_get_stat_i_blocks fs inode =
     (let ret = ucast (i_blocks inode)
      in if ext2fs_has_feature_huge_file (fs_super fs)
         then let ret = ret + push_bit 32 (ucast (l_i_blocks_hi inode))
              in if i_flags inode AND EXT4_HUGE_FILE_FL \<noteq> 0
                 then ret * ucast (fs_blocksize fs div 512) else ret
         else ret)"

text \<open>The file system argument of the acl functions may be null.\<close>

definition ext2fs_file_acl_block :: "'a fs_base_scheme option \<Rightarrow> 'b ext2_inode_scheme \<Rightarrow> u64" where
  "ext2fs_file_acl_block fs inode =
     ucast (i_file_acl inode) OR
     (if fs \<noteq> None \<and> ext2fs_has_feature_64bit (fs_super (the fs))
      then push_bit 32 (ucast (l_i_file_acl_high inode)) else 0)"

definition ext2fs_file_acl_block_set ::
  "'a fs_base_scheme option \<Rightarrow> 'b ext2_inode_scheme \<Rightarrow> u64 \<Rightarrow> 'b ext2_inode_scheme" where
  "ext2fs_file_acl_block_set fs inode blk =
     (let inode = inode\<lparr>i_file_acl := ucast blk\<rparr>
      in if fs \<noteq> None \<and> ext2fs_has_feature_64bit (fs_super (the fs))
         then inode\<lparr>l_i_file_acl_high := ucast (drop_bit 32 blk)\<rparr> else inode)"

definition ext2fs_needs_large_file_feature :: "u64 \<Rightarrow> bool" where
  "ext2fs_needs_large_file_feature file_size \<longleftrightarrow> file_size \<ge> 2147483648"

definition ext2fs_update_dynamic_rev :: "'a fs_base_scheme \<Rightarrow> 'a fs_base_scheme" where
  "ext2fs_update_dynamic_rev fs =
     (if s_rev_level (fs_super fs) > 0 then fs
      else fs\<lparr>fs_super := (fs_super fs)\<lparr>s_rev_level := 1, s_first_ino := 11, s_inode_size := 128\<rparr>\<rparr>)"

text \<open>\<open>sz\<close> is signed; an error leaves the inode as it is.\<close>

definition inode_size_dirty :: "'a fs_base_scheme \<Rightarrow> 'a fs_base_scheme" where
  "inode_size_dirty fs =
     ext2fs_mark_super_dirty (if s_rev_level (fs_super fs) = 0 then ext2fs_update_dynamic_rev fs else fs)"

definition ext2fs_inode_size_set ::
  "'a fs_base_scheme \<Rightarrow> 'b ext2_inode_scheme \<Rightarrow> u64
   \<Rightarrow> errcode + 'a fs_base_scheme \<times> 'b ext2_inode_scheme" where
  "ext2fs_inode_size_set fs inode sz =
     (if sint sz < 0 then Inl EINVAL
      else
        let inode' = inode\<lparr>i_size := ucast (sz AND 4294967295), i_size_high := ucast (drop_bit 32 sz)\<rparr>
        in if ext2fs_needs_large_file_feature sz
           then if LINUX_S_ISREG (i_mode inode)
                then if ext2fs_has_feature_large_file (fs_super fs) then Inr (fs, inode')
                     else Inr (inode_size_dirty
                                 (fs\<lparr>fs_super := ext2fs_set_feature_large_file (fs_super fs)\<rparr>), inode')
                else if LINUX_S_ISDIR (i_mode inode)
                then if ext2fs_has_feature_largedir (fs_super fs) then Inr (fs, inode')
                     else Inr (inode_size_dirty
                                 (fs\<lparr>fs_super := ext2fs_set_feature_largedir (fs_super fs)\<rparr>), inode')
                else Inl EXT2_ET_FILE_TOO_BIG
           else Inr (fs, inode'))"

definition EXT2_I_SIZE :: "'b ext2_inode_scheme \<Rightarrow> u64" where
  "EXT2_I_SIZE i = ucast (i_size i) OR push_bit 32 (ucast (i_size_high i))"

section \<open>Halves of a counter\<close>

named_theorems geom \<open>the geometry of the groups in natural numbers\<close>

lemma join_take64: "take_bit 32 n OR push_bit 32 (take_bit 32 (drop_bit 32 n)) = (n :: u64)"
  by (rule bit_word_eqI) (auto simp: bit_simps)

lemma join_take32: "take_bit 16 n OR push_bit 16 (take_bit 16 (drop_bit 16 n)) = (n :: u32)"
  by (rule bit_word_eqI) (auto simp: bit_simps)

lemma ucast_half64: "ucast (ucast (n :: u64) :: u32) = take_bit 32 n"
  by (rule bit_word_eqI) (auto simp: bit_simps)

lemma ucast_half32: "ucast (ucast (n :: u32) :: u16) = take_bit 16 n"
  by (rule bit_word_eqI) (auto simp: bit_simps)

lemma ucast_acl: "ucast (ucast (n :: u64) :: u16) = take_bit 16 n"
  by (rule bit_word_eqI) (auto simp: bit_simps)

lemma join_acl: "take_bit 32 n OR push_bit 32 (take_bit 16 (drop_bit 32 n)) = take_bit 48 (n :: u64)"
  by (rule bit_word_eqI) (auto simp: bit_simps)

lemmas join_halves = ucast_half64 ucast_half32 ucast_acl join_take64 join_take32 join_acl

lemma has_feature_incompat_upd [simp]:
  "has_feature_incompat f (sb\<lparr>s_blocks_count := a\<rparr>) = has_feature_incompat f sb"
  "has_feature_incompat f (sb\<lparr>s_r_blocks_count := a\<rparr>) = has_feature_incompat f sb"
  "has_feature_incompat f (sb\<lparr>s_free_blocks_count := a\<rparr>) = has_feature_incompat f sb"
  "has_feature_incompat f (sb\<lparr>s_blocks_count_hi := a\<rparr>) = has_feature_incompat f sb"
  "has_feature_incompat f (sb\<lparr>s_r_blocks_count_hi := a\<rparr>) = has_feature_incompat f sb"
  "has_feature_incompat f (sb\<lparr>s_free_blocks_hi := a\<rparr>) = has_feature_incompat f sb"
  by (simp_all add: has_feature_incompat_def)

definition count_wide :: "ext2_super_block \<Rightarrow> u64 \<Rightarrow> u64" where
  "count_wide super n = (if ext2fs_has_feature_64bit super then n else take_bit 32 n)"

lemma blocks_count_set_get:
  "ext2fs_blocks_count (ext2fs_blocks_count_set super n) = count_wide super n"
  by (simp add: ext2fs_blocks_count_def ext2fs_blocks_count_set_def count_wide_def Let_def join_halves)

lemma r_blocks_count_set_get:
  "ext2fs_r_blocks_count (ext2fs_r_blocks_count_set super n) = count_wide super n"
  by (simp add: ext2fs_r_blocks_count_def ext2fs_r_blocks_count_set_def count_wide_def Let_def join_halves)

lemma free_blocks_count_set_get:
  "ext2fs_free_blocks_count (ext2fs_free_blocks_count_set super n) = count_wide super n"
  by (simp add: ext2fs_free_blocks_count_def ext2fs_free_blocks_count_set_def count_wide_def Let_def join_halves)

lemma count_set_64bit [simp]:
  "has_feature_incompat f (ext2fs_blocks_count_set super n) = has_feature_incompat f super"
  "has_feature_incompat f (ext2fs_r_blocks_count_set super n) = has_feature_incompat f super"
  "has_feature_incompat f (ext2fs_free_blocks_count_set super n) = has_feature_incompat f super"
  by (simp_all add: ext2fs_blocks_count_set_def ext2fs_r_blocks_count_set_def
      ext2fs_free_blocks_count_set_def Let_def)

lemma unat_take_bit32: "unat (take_bit 32 (a :: u64)) = unat a mod 4294967296"
  by (subst unsigned_take_bit_eq) (simp add: take_bit_eq_mod)

lemma take_bit_add64: "take_bit 32 (take_bit 32 a + b) = take_bit 32 (a + b :: u64)"
proof -
  have "(unat a mod 4294967296 + unat b) mod 18446744073709551616 mod 4294967296
      = (unat a + unat b) mod 18446744073709551616 mod 4294967296"
    by (simp add: mod_mod_cancel mod_simps)
  then show ?thesis by (simp add: word_unat_eq_iff unat_take_bit32 unat_word_ariths)
qed

lemma count_wide_add: "count_wide super (count_wide super a + b) = count_wide super (a + b)"
  by (simp add: count_wide_def take_bit_add64)

lemma free_blocks_count_add_get:
  "ext2fs_free_blocks_count (ext2fs_free_blocks_count_add super n)
   = count_wide super (ext2fs_free_blocks_count super + n)"
  by (simp add: ext2fs_free_blocks_count_add_def free_blocks_count_set_get)

section \<open>Group descriptors\<close>

definition group_in :: "'a fs_base_scheme \<Rightarrow> u32 \<Rightarrow> bool" where
  "group_in fs g \<longleftrightarrow> g < fs_group_desc_count fs \<and> length (fs_group_desc fs) = unat (fs_group_desc_count fs)"

lemma ext4fs_group_desc_nth: "group_in fs g \<Longrightarrow> ext4fs_group_desc fs g = fs_group_desc fs ! unat g"
  by (auto simp: group_in_def ext4fs_group_desc_def ext2fs_group_desc_def)

lemma gdp_store_simps [simp]:
  "fs_super (gdp_store fs g d) = fs_super fs" "fs_group_desc_count (gdp_store fs g d) = fs_group_desc_count fs"
  "fs_flags (gdp_store fs g d) = fs_flags fs" "group_in (gdp_store fs g d) h = group_in fs h"
  by (simp_all add: gdp_store_def group_in_def)

lemma gdp_store_get:
  assumes "group_in fs g" "group_in fs h"
  shows "ext4fs_group_desc (gdp_store fs g d) h = (if h = g then d else ext4fs_group_desc fs h)"
proof -
  have "unat h = unat g \<longleftrightarrow> h = g" by (rule word_unat_eq_iff [symmetric])
  then show ?thesis using assms
    by (auto simp: ext4fs_group_desc_nth [of "gdp_store fs g d" h] ext4fs_group_desc_nth)
      (auto simp: gdp_store_def group_in_def nth_list_update word_less_nat_alt)
qed

definition group_count_wide :: "'a fs_base_scheme \<Rightarrow> u32 \<Rightarrow> u32" where
  "group_count_wide fs n = (if ext2fs_has_feature_64bit (fs_super fs) then n else take_bit 16 n)"

lemma bg_free_blocks_count_set_get:
  assumes "group_in fs g" "group_in fs h"
  shows "ext2fs_bg_free_blocks_count (ext2fs_bg_free_blocks_count_set fs g n) h
    = (if h = g then group_count_wide fs n else ext2fs_bg_free_blocks_count fs h)"
  using assms by (auto simp: ext2fs_bg_free_blocks_count_def ext2fs_bg_free_blocks_count_set_def
      Let_def gdp_store_get group_count_wide_def join_halves)

lemma bg_free_inodes_count_set_get:
  assumes "group_in fs g" "group_in fs h"
  shows "ext2fs_bg_free_inodes_count (ext2fs_bg_free_inodes_count_set fs g n) h
    = (if h = g then group_count_wide fs n else ext2fs_bg_free_inodes_count fs h)"
  using assms by (auto simp: ext2fs_bg_free_inodes_count_def ext2fs_bg_free_inodes_count_set_def
      Let_def gdp_store_get group_count_wide_def join_halves)

lemma bg_used_dirs_count_set_get:
  assumes "group_in fs g" "group_in fs h"
  shows "ext2fs_bg_used_dirs_count (ext2fs_bg_used_dirs_count_set fs g n) h
    = (if h = g then group_count_wide fs n else ext2fs_bg_used_dirs_count fs h)"
  using assms by (auto simp: ext2fs_bg_used_dirs_count_def ext2fs_bg_used_dirs_count_set_def
      Let_def gdp_store_get group_count_wide_def join_halves)

lemma bg_itable_unused_set_get:
  assumes "group_in fs g" "group_in fs h"
  shows "ext2fs_bg_itable_unused (ext2fs_bg_itable_unused_set fs g n) h
    = (if h = g then group_count_wide fs n else ext2fs_bg_itable_unused fs h)"
  using assms by (auto simp: ext2fs_bg_itable_unused_def ext2fs_bg_itable_unused_set_def
      Let_def gdp_store_get group_count_wide_def join_halves)

section \<open>Blocks and groups\<close>

text \<open>
  A sound geometry: groups of equal positive size from the first data block on, the last one
  possibly shorter, and as many descriptors as groups.
\<close>

definition fdb :: "'a fs_base_scheme \<Rightarrow> nat" where
  "fdb fs = unat (s_first_data_block (fs_super fs))"

definition bpg :: "'a fs_base_scheme \<Rightarrow> nat" where
  "bpg fs = unat (s_blocks_per_group (fs_super fs))"

definition nblocks :: "'a fs_base_scheme \<Rightarrow> nat" where
  "nblocks fs = unat (ext2fs_blocks_count (fs_super fs))"

definition ngroups :: "'a fs_base_scheme \<Rightarrow> nat" where
  "ngroups fs = unat (fs_group_desc_count fs)"

definition fs_geom :: "'a fs_base_scheme \<Rightarrow> bool" where
  "fs_geom fs \<longleftrightarrow> 0 < bpg fs \<and> fdb fs < nblocks fs
     \<and> ngroups fs = (nblocks fs - fdb fs - 1) div bpg fs + 1"

lemma fs_geomD:
  assumes "fs_geom fs"
  shows "0 < bpg fs" "fdb fs < nblocks fs" "nblocks fs - fdb fs \<le> ngroups fs * bpg fs"
    "(ngroups fs - 1) * bpg fs < nblocks fs - fdb fs" "0 < ngroups fs" "ngroups fs < 2 ^ 32"
    "nblocks fs < 2 ^ 64"
proof -
  define q where "q = (nblocks fs - fdb fs - 1) div bpg fs"
  from assms show b: "0 < bpg fs" and "fdb fs < nblocks fs" by (simp_all add: fs_geom_def)
  moreover have "ngroups fs = q + 1" using assms by (simp add: fs_geom_def q_def)
  moreover have "q * bpg fs \<le> nblocks fs - fdb fs - 1" by (simp add: q_def)
  moreover have "nblocks fs - fdb fs - 1 < (q + 1) * bpg fs"
    using b by (simp add: q_def) (metis dividend_less_div_times)
  ultimately show "nblocks fs - fdb fs \<le> ngroups fs * bpg fs"
    "(ngroups fs - 1) * bpg fs < nblocks fs - fdb fs" "0 < ngroups fs" by auto
  show "ngroups fs < 2 ^ 32" "nblocks fs < 2 ^ 64"
    by (simp_all add: ngroups_def nblocks_def unat_lt32 unat_lt64)
qed

lemma unat_last_group:
  assumes "fs_geom fs"
  shows "g = fs_group_desc_count fs - 1 \<longleftrightarrow> unat g = ngroups fs - 1"
proof -
  have "0 < fs_group_desc_count fs" using fs_geomD(5) [OF assms] by (simp add: ngroups_def word_less_nat_alt)
  then have "unat (fs_group_desc_count fs - 1) = ngroups fs - 1" by (simp add: ngroups_def unat_dec)
  then show ?thesis by (metis word_unat_eq_iff)
qed

lemma group_times: "unat (EXT2_GROUPS_TO_BLOCKS (fs_super fs) g) = bpg fs * unat g"
proof -
  have "bpg fs * unat g < 2 ^ 32 * 2 ^ 32"
    by (rule mult_strict_mono) (simp_all add: bpg_def unat_lt32)
  then show ?thesis by (simp add: EXT2_GROUPS_TO_BLOCKS_def bpg_def unat_word_ariths unat_ucast32_64)
qed

lemma unat_ucast64_32: "unat w < 2 ^ 32 \<Longrightarrow> unat (ucast (w :: u64) :: u32) = unat w"
  by (simp add: unsigned_ucast_eq take_bit_nat_eq_self)

lemma first_block_nat [geom]:
  assumes "fs_geom fs" "unat g < ngroups fs"
  shows "unat (ext2fs_group_first_block2 fs g) = fdb fs + unat g * bpg fs"
    "fdb fs + unat g * bpg fs < nblocks fs"
proof -
  have "unat g * bpg fs \<le> (ngroups fs - 1) * bpg fs" using assms(2) by (intro mult_right_mono) auto
  then show lt: "fdb fs + unat g * bpg fs < nblocks fs" using fs_geomD(4) [OF assms(1)] by linarith
  then have "fdb fs + bpg fs * unat g < 2 ^ 64" using fs_geomD(7) [OF assms(1)] by (simp add: mult.commute)
  then show "unat (ext2fs_group_first_block2 fs g) = fdb fs + unat g * bpg fs"
    by (simp add: ext2fs_group_first_block2_def unat_word_ariths group_times unat_ucast32_64 fdb_def
        mult.commute)
qed

lemma group_of_blk_nat [geom]:
  assumes "fs_geom fs" "fdb fs \<le> unat blk" "unat blk < nblocks fs"
  shows "unat (ext2fs_group_of_blk2 fs blk) = (unat blk - fdb fs) div bpg fs"
    "(unat blk - fdb fs) div bpg fs < ngroups fs"
proof -
  have le: "ucast (s_first_data_block (fs_super fs)) \<le> blk"
    using assms(2) by (simp add: word_le_nat_alt unat_ucast32_64 fdb_def)
  have "unat blk - fdb fs < ngroups fs * bpg fs" using fs_geomD(3) [OF assms(1)] assms(2,3) by linarith
  then show lt: "(unat blk - fdb fs) div bpg fs < ngroups fs" by (rule less_mult_imp_div_less)
  then have "(unat blk - fdb fs) div bpg fs < 2 ^ 32" using fs_geomD(6) [OF assms(1)] by linarith
  then show "unat (ext2fs_group_of_blk2 fs blk) = (unat blk - fdb fs) div bpg fs"
    using le by (simp add: ext2fs_group_of_blk2_def unat_ucast64_32 unat_div unat_sub unat_ucast32_64
        fdb_def bpg_def)
qed

lemma last_block_nat [geom]:
  assumes "fs_geom fs" "unat g < ngroups fs"
  shows "unat (ext2fs_group_last_block2 fs g) =
    (if unat g = ngroups fs - 1 then nblocks fs - 1 else fdb fs + unat g * bpg fs + bpg fs - 1)"
proof (cases "unat g = ngroups fs - 1")
  case True
  then have "g = fs_group_desc_count fs - 1" using unat_last_group [OF assms(1)] by simp
  moreover have "0 < ext2fs_blocks_count (fs_super fs)"
    using fs_geomD(2) [OF assms(1)] by (simp add: nblocks_def word_less_nat_alt)
  ultimately show ?thesis using True
    by (simp add: ext2fs_group_last_block2_def unat_dec nblocks_def)
next
  case False
  then have "g \<noteq> fs_group_desc_count fs - 1" using unat_last_group [OF assms(1)] by simp
  moreover have "Suc (unat g) * bpg fs \<le> (ngroups fs - 1) * bpg fs"
    using assms(2) False by (intro mult_right_mono) auto
  then have "fdb fs + unat g * bpg fs + (bpg fs - 1) < 2 ^ 64"
    using fs_geomD [OF assms(1)] by simp
  moreover have "unat (s_blocks_per_group (fs_super fs) - 1) = bpg fs - 1"
    using fs_geomD(1) [OF assms(1)] unat_dec [of 0 "s_blocks_per_group (fs_super fs)"]
    by (simp add: bpg_def word_less_nat_alt)
  ultimately show ?thesis using False fs_geomD(1) [OF assms(1)]
    by (simp add: ext2fs_group_last_block2_def unat_word_ariths first_block_nat [OF assms] unat_ucast32_64)
qed

text \<open>The groups cut the blocks from the first data block on into intervals.\<close>

lemma group_of_blk_iff:
  assumes "fs_geom fs" "fdb fs \<le> unat blk" "unat blk < nblocks fs" "unat g < ngroups fs"
  shows "ext2fs_group_of_blk2 fs blk = g \<longleftrightarrow>
    ext2fs_group_first_block2 fs g \<le> blk \<and> blk \<le> ext2fs_group_last_block2 fs g"
proof -
  define n where "n = unat blk - fdb fs"
  have b: "0 < bpg fs" using fs_geomD(1) [OF assms(1)] .
  have "ext2fs_group_of_blk2 fs blk = g \<longleftrightarrow> n div bpg fs = unat g"
    by (simp add: word_unat_eq_iff group_of_blk_nat [OF assms(1-3)] n_def)
  also have "\<dots> \<longleftrightarrow> unat g * bpg fs \<le> n \<and> n < Suc (unat g) * bpg fs"
    using b by (metis div_nat_eqI div_times_less_eq_dividend dividend_less_div_times mult.commute mult_Suc)
  also have "\<dots> \<longleftrightarrow> ext2fs_group_first_block2 fs g \<le> blk \<and> blk \<le> ext2fs_group_last_block2 fs g"
  proof (cases "unat g = ngroups fs - 1")
    case True
    have "ngroups fs * bpg fs = Suc (unat g) * bpg fs" using True assms(4) by simp
    then have "n < Suc (unat g) * bpg fs"
      using fs_geomD(3) [OF assms(1)] assms(2,3) unfolding n_def by linarith
    then show ?thesis using assms True
      by (auto simp: word_le_nat_alt first_block_nat last_block_nat n_def)
  next
    case False
    then show ?thesis using assms b
      by (auto simp: word_le_nat_alt first_block_nat last_block_nat n_def)
  qed
  finally show ?thesis .
qed

lemma group_of_first_block:
  assumes "fs_geom fs" "unat g < ngroups fs"
  shows "ext2fs_group_of_blk2 fs (ext2fs_group_first_block2 fs g) = g"
  using group_of_blk_nat [OF assms(1), of "ext2fs_group_first_block2 fs g"] first_block_nat [OF assms]
    fs_geomD(1) [OF assms(1)]
  by (simp add: word_unat_eq_iff)

lemma group_blocks_count_nat [geom]:
  assumes "fs_geom fs" "unat g < ngroups fs"
  shows "unat (ext2fs_group_blocks_count fs g) =
    (if unat g = ngroups fs - 1 then nblocks fs - fdb fs - (ngroups fs - 1) * bpg fs else bpg fs)"
proof (cases "unat g = ngroups fs - 1")
  case True
  then have g: "g = fs_group_desc_count fs - 1" using unat_last_group [OF assms(1)] by simp
  define d where "d = nblocks fs - fdb fs"
  have le: "ucast (s_first_data_block (fs_super fs)) \<le> ext2fs_blocks_count (fs_super fs)"
    using fs_geomD(2) [OF assms(1)] by (simp add: word_le_nat_alt unat_ucast32_64 fdb_def nblocks_def)
  have "d mod bpg fs < 2 ^ 32"
    using mod_less_divisor [OF fs_geomD(1) [OF assms(1)], of d] unat_lt32 [of "s_blocks_per_group (fs_super fs)"]
    by (simp add: bpg_def)
  then have m: "unat (ucast ((ext2fs_blocks_count (fs_super fs) - ucast (s_first_data_block (fs_super fs)))
                   mod ucast (s_blocks_per_group (fs_super fs))) :: u32) = d mod bpg fs"
    using le by (simp add: unat_ucast64_32 unat_mod unat_sub unat_ucast32_64 fdb_def bpg_def nblocks_def
        d_def)
  define q where "q = ngroups fs - 1"
  have q: "q * bpg fs < d" "d \<le> Suc q * bpg fs"
    using fs_geomD(3-5) [OF assms(1)] by (simp_all add: q_def d_def)
  have "d mod bpg fs = (if d = Suc q * bpg fs then 0 else d - q * bpg fs)"
  proof (cases "d = Suc q * bpg fs")
    case F: False
    then have "d div bpg fs = q" using q by (intro div_nat_eqI) (simp_all add: mult.commute)
    then show ?thesis using F by (metis minus_div_mult_eq_mod)
  qed simp
  then show ?thesis using True g m q
    by (auto simp: ext2fs_group_blocks_count_def Let_def d_def q_def bpg_def word_unat_eq_iff)
next
  case False
  then show ?thesis using unat_last_group [OF assms(1)]
    by (simp add: ext2fs_group_blocks_count_def bpg_def)
qed

lemma unat_of_nat32: "n < ngroups fs \<Longrightarrow> unat (of_nat n :: u32) = n"
  using unat_lt32 [of "fs_group_desc_count fs"]
  by (simp add: ngroups_def unsigned_of_nat take_bit_nat_eq_self)

text \<open>The sizes of the groups add up to the blocks of the file system.\<close>

lemma sum_group_blocks:
  assumes "fs_geom fs"
  shows "(\<Sum>g < ngroups fs. unat (ext2fs_group_blocks_count fs (of_nat g))) = nblocks fs - fdb fs"
proof -
  define q where "q = ngroups fs - 1"
  have n: "ngroups fs = Suc q" using fs_geomD(5) [OF assms] by (simp add: q_def)
  have "(\<Sum>g < Suc q. unat (ext2fs_group_blocks_count fs (of_nat g)))
      = (\<Sum>g < q. bpg fs) + (nblocks fs - fdb fs - q * bpg fs)"
  proof -
    have "unat (ext2fs_group_blocks_count fs (of_nat g)) = bpg fs" if "g < q" for g
      using that n unat_of_nat32 [of g fs] by (subst group_blocks_count_nat [OF assms]) simp_all
    moreover have "unat (ext2fs_group_blocks_count fs (of_nat q)) = nblocks fs - fdb fs - q * bpg fs"
      using n unat_of_nat32 [of q fs] by (subst group_blocks_count_nat [OF assms]) simp_all
    ultimately show ?thesis by simp
  qed
  also have "\<dots> = nblocks fs - fdb fs" using fs_geomD(4) [OF assms] by (simp add: n)
  finally show ?thesis by (simp add: n)
qed

section \<open>Directories and inode sizes\<close>

lemma num_dirs_bound:
  assumes "ext2fs_get_num_dirs fs = Inr n"
  shows "n \<le> s_inodes_count (fs_super fs)"
  using assms by (auto simp: ext2fs_get_num_dirs_def Let_def split: if_splits)

lemma file_acl_set_get:
  "ext2fs_file_acl_block fs (ext2fs_file_acl_block_set fs inode blk) =
     (if fs \<noteq> None \<and> ext2fs_has_feature_64bit (fs_super (the fs)) then take_bit 48 blk
      else take_bit 32 blk)"
  by (simp add: ext2fs_file_acl_block_def ext2fs_file_acl_block_set_def Let_def join_halves)

lemma and_mask32: "ucast (sz AND 4294967295 :: u64) = (ucast sz :: u32)"
proof -
  have "(4294967295 :: u64) = mask 32" by (simp add: mask_eq_exp_minus_1)
  then have "bit (4294967295 :: u64) n \<longleftrightarrow> n < 32" for n by (simp only: bit_mask_iff) auto
  then show ?thesis by (intro bit_word_eqI) (auto simp: bit_simps)
qed

lemma inode_size_set_Inr:
  assumes "ext2fs_inode_size_set fs inode sz = Inr (fs', inode')"
  shows "EXT2_I_SIZE inode' = sz" "i_mode inode' = i_mode inode" "i_blocks inode' = i_blocks inode"
    "i_block inode' = i_block inode"
proof -
  have "inode' = inode\<lparr>i_size := ucast (sz AND 4294967295), i_size_high := ucast (drop_bit 32 sz)\<rparr>"
    using assms by (auto simp: ext2fs_inode_size_set_def Let_def split: if_splits)
  then show "EXT2_I_SIZE inode' = sz" "i_mode inode' = i_mode inode" "i_blocks inode' = i_blocks inode"
    "i_block inode' = i_block inode"
    by (simp_all add: EXT2_I_SIZE_def and_mask32 join_halves)
qed
end
