(* ===== verification/Bitops.thy ===== *)
theory Bitops
  imports E2fs_Prelude
begin

text \<open>
  \<^verbatim>\<open>libext2fs/bitops.c\<close> and the inline routines of \<^verbatim>\<open>libext2fs/bitops.h\<close>: single bits of a byte
  buffer (little-endian bit order), byte swapping and the population count. The buffer is an
  \<open>u8 list\<close>; the C code returns the old bit as an \<open>int\<close> in 0..128 next to the mutated buffer.
  An access outside the buffer is undefined behaviour in C: every property here assumes that the
  byte index is in range.
\<close>

section \<open>Setting, clearing and testing a bit\<close>

definition ext2fs_set_bit :: "u32 \<Rightarrow> u8 list \<Rightarrow> u8 list \<times> int" where
  "ext2fs_set_bit nr addr =
     (let ADDR = unat (drop_bit 3 nr);
          mask = push_bit (unat (nr AND 7)) 1;
          retval = uint (mask AND addr ! ADDR)
      in (addr[ADDR := addr ! ADDR OR mask], retval))"

definition ext2fs_clear_bit :: "u32 \<Rightarrow> u8 list \<Rightarrow> u8 list \<times> int" where
  "ext2fs_clear_bit nr addr =
     (let ADDR = unat (drop_bit 3 nr);
          mask = push_bit (unat (nr AND 7)) 1;
          retval = uint (mask AND addr ! ADDR)
      in (addr[ADDR := addr ! ADDR AND NOT mask], retval))"

definition ext2fs_test_bit :: "u32 \<Rightarrow> u8 list \<Rightarrow> int" where
  "ext2fs_test_bit nr addr =
     (let ADDR = unat (drop_bit 3 nr);
          mask = push_bit (unat (nr AND 7)) 1
      in uint (mask AND addr ! ADDR))"

definition ext2fs_set_bit64 :: "u64 \<Rightarrow> u8 list \<Rightarrow> u8 list \<times> int" where
  "ext2fs_set_bit64 nr addr =
     (let ADDR = unat (drop_bit 3 nr);
          mask = push_bit (unat (nr AND 7)) 1;
          retval = uint (mask AND addr ! ADDR)
      in (addr[ADDR := addr ! ADDR OR mask], retval))"

definition ext2fs_clear_bit64 :: "u64 \<Rightarrow> u8 list \<Rightarrow> u8 list \<times> int" where
  "ext2fs_clear_bit64 nr addr =
     (let ADDR = unat (drop_bit 3 nr);
          mask = push_bit (unat (nr AND 7)) 1;
          retval = uint (mask AND addr ! ADDR)
      in (addr[ADDR := addr ! ADDR AND NOT mask], retval))"

definition ext2fs_test_bit64 :: "u64 \<Rightarrow> u8 list \<Rightarrow> int" where
  "ext2fs_test_bit64 nr addr =
     (let ADDR = unat (drop_bit 3 nr);
          mask = push_bit (unat (nr AND 7)) 1
      in uint (mask AND addr ! ADDR))"

definition ext2fs_fast_set_bit :: "u32 \<Rightarrow> u8 list \<Rightarrow> u8 list" where
  "ext2fs_fast_set_bit nr addr =
     (let ADDR = unat (drop_bit 3 nr)
      in addr[ADDR := addr ! ADDR OR push_bit (unat (nr AND 7)) 1])"

definition ext2fs_fast_clear_bit :: "u32 \<Rightarrow> u8 list \<Rightarrow> u8 list" where
  "ext2fs_fast_clear_bit nr addr =
     (let ADDR = unat (drop_bit 3 nr)
      in addr[ADDR := addr ! ADDR AND NOT (push_bit (unat (nr AND 7)) 1)])"

definition ext2fs_fast_set_bit64 :: "u64 \<Rightarrow> u8 list \<Rightarrow> u8 list" where
  "ext2fs_fast_set_bit64 nr addr =
     (let ADDR = unat (drop_bit 3 nr)
      in addr[ADDR := addr ! ADDR OR push_bit (unat (nr AND 7)) 1])"

definition ext2fs_fast_clear_bit64 :: "u64 \<Rightarrow> u8 list \<Rightarrow> u8 list" where
  "ext2fs_fast_clear_bit64 nr addr =
     (let ADDR = unat (drop_bit 3 nr)
      in addr[ADDR := addr ! ADDR AND NOT (push_bit (unat (nr AND 7)) 1)])"

section \<open>The bits of a buffer\<close>

text \<open>The abstract content of a buffer: bit \<open>n\<close> is bit \<open>n mod 8\<close> of byte \<open>n div 8\<close>.\<close>

definition bit_at :: "u8 list \<Rightarrow> nat \<Rightarrow> bool" where
  "bit_at addr n \<longleftrightarrow> bit (addr ! (n div 8)) (n mod 8)"

named_theorems bitops \<open>what the bit routines do to \<open>bit_at\<close>\<close>

lemma bit_byte_mask:
  "bit (push_bit k 1 :: u8) i \<longleftrightarrow> i = k \<and> k < 8"
  by (auto simp: bit_simps simp del: push_bit_of_1)

declare push_bit_of_1 [simp del]

lemma mask_and_eq_0:
  assumes "k < 8"
  shows "(push_bit k 1 AND b :: u8) = 0 \<longleftrightarrow> \<not> bit b k"
  unfolding word_eq_0_bits using assms by (auto simp: bit_and_iff bit_byte_mask)

lemma uint_mask_and_eq_0:
  "k < 8 \<Longrightarrow> uint (push_bit k 1 AND b :: u8) = 0 \<longleftrightarrow> \<not> bit b k"
  using mask_and_eq_0 [of k b] by (metis unsigned_0 word_of_int_uint of_int_0)

lemma bit_at_or_mask:
  assumes "m div 8 < length addr"
  shows "bit_at (addr[m div 8 := addr ! (m div 8) OR push_bit (m mod 8) 1]) n
         \<longleftrightarrow> n = m \<or> bit_at addr n"
proof (cases "n div 8 = m div 8")
  case True
  then have "n mod 8 = m mod 8 \<longleftrightarrow> n = m"
    by (metis mult_div_mod_eq)
  with True assms show ?thesis
    by (auto simp: bit_at_def bit_or_iff bit_byte_mask)
next
  case False
  then show ?thesis by (auto simp: bit_at_def)
qed

lemma bit_at_and_not_mask:
  assumes "m div 8 < length addr"
  shows "bit_at (addr[m div 8 := addr ! (m div 8) AND NOT (push_bit (m mod 8) 1)]) n
         \<longleftrightarrow> n \<noteq> m \<and> bit_at addr n"
proof (cases "n div 8 = m div 8")
  case True
  then have "n mod 8 = m mod 8 \<longleftrightarrow> n = m"
    by (metis mult_div_mod_eq)
  with True assms show ?thesis
    by (auto simp: bit_at_def bit_and_iff bit_not_iff bit_byte_mask)
next
  case False
  then show ?thesis by (auto simp: bit_at_def)
qed

lemma test_mask_iff:
  fixes nr :: "'a::len word"
  assumes "3 \<le> LENGTH('a)"
  shows "uint (push_bit (unat (nr AND 7)) 1 AND addr ! unat (drop_bit 3 nr) :: u8) \<noteq> 0
         \<longleftrightarrow> bit_at addr (unat nr)"
  using assms by (simp add: uint_mask_and_eq_0 word_nat bit_at_def del: unsigned_eq_0_iff)

lemma test_bit_iff [bitops]: "ext2fs_test_bit nr addr \<noteq> 0 \<longleftrightarrow> bit_at addr (unat nr)"
  by (simp add: ext2fs_test_bit_def Let_def test_mask_iff)

lemma test_bit64_iff [bitops]: "ext2fs_test_bit64 nr addr \<noteq> 0 \<longleftrightarrow> bit_at addr (unat nr)"
  by (simp add: ext2fs_test_bit64_def Let_def test_mask_iff)

lemma set_bit_ret [bitops]: "snd (ext2fs_set_bit nr addr) = ext2fs_test_bit nr addr"
  by (simp add: ext2fs_set_bit_def ext2fs_test_bit_def Let_def)

lemma clear_bit_ret [bitops]: "snd (ext2fs_clear_bit nr addr) = ext2fs_test_bit nr addr"
  by (simp add: ext2fs_clear_bit_def ext2fs_test_bit_def Let_def)

lemma set_bit64_ret [bitops]: "snd (ext2fs_set_bit64 nr addr) = ext2fs_test_bit64 nr addr"
  by (simp add: ext2fs_set_bit64_def ext2fs_test_bit64_def Let_def)

lemma clear_bit64_ret [bitops]: "snd (ext2fs_clear_bit64 nr addr) = ext2fs_test_bit64 nr addr"
  by (simp add: ext2fs_clear_bit64_def ext2fs_test_bit64_def Let_def)

lemma fast_set_bit_eq [bitops]: "ext2fs_fast_set_bit nr addr = fst (ext2fs_set_bit nr addr)"
  by (simp add: ext2fs_set_bit_def ext2fs_fast_set_bit_def Let_def)

lemma fast_clear_bit_eq [bitops]: "ext2fs_fast_clear_bit nr addr = fst (ext2fs_clear_bit nr addr)"
  by (simp add: ext2fs_clear_bit_def ext2fs_fast_clear_bit_def Let_def)

lemma fast_set_bit64_eq [bitops]: "ext2fs_fast_set_bit64 nr addr = fst (ext2fs_set_bit64 nr addr)"
  by (simp add: ext2fs_set_bit64_def ext2fs_fast_set_bit64_def Let_def)

lemma fast_clear_bit64_eq [bitops]:
  "ext2fs_fast_clear_bit64 nr addr = fst (ext2fs_clear_bit64 nr addr)"
  by (simp add: ext2fs_clear_bit64_def ext2fs_fast_clear_bit64_def Let_def)

lemma length_bit_ops [simp]:
  "length (fst (ext2fs_set_bit nr addr)) = length addr"
  "length (fst (ext2fs_clear_bit nr addr)) = length addr"
  "length (fst (ext2fs_set_bit64 nr64 addr)) = length addr"
  "length (fst (ext2fs_clear_bit64 nr64 addr)) = length addr"
  by (simp_all add: ext2fs_set_bit_def ext2fs_clear_bit_def ext2fs_set_bit64_def
      ext2fs_clear_bit64_def Let_def)

lemma bit_at_set_bit [bitops]:
  "unat nr div 8 < length addr \<Longrightarrow>
   bit_at (fst (ext2fs_set_bit nr addr)) n \<longleftrightarrow> n = unat nr \<or> bit_at addr n"
  by (simp add: ext2fs_set_bit_def Let_def word_nat bit_at_or_mask)

lemma bit_at_clear_bit [bitops]:
  "unat nr div 8 < length addr \<Longrightarrow>
   bit_at (fst (ext2fs_clear_bit nr addr)) n \<longleftrightarrow> n \<noteq> unat nr \<and> bit_at addr n"
  by (simp add: ext2fs_clear_bit_def Let_def word_nat bit_at_and_not_mask)

lemma bit_at_set_bit64 [bitops]:
  "unat nr div 8 < length addr \<Longrightarrow>
   bit_at (fst (ext2fs_set_bit64 nr addr)) n \<longleftrightarrow> n = unat nr \<or> bit_at addr n"
  by (simp add: ext2fs_set_bit64_def Let_def word_nat bit_at_or_mask)

lemma bit_at_clear_bit64 [bitops]:
  "unat nr div 8 < length addr \<Longrightarrow>
   bit_at (fst (ext2fs_clear_bit64 nr addr)) n \<longleftrightarrow> n \<noteq> unat nr \<and> bit_at addr n"
  by (simp add: ext2fs_clear_bit64_def Let_def word_nat bit_at_and_not_mask)

section \<open>Byte swapping\<close>

definition ext2fs_swab16 :: "u16 \<Rightarrow> u16" where
  "ext2fs_swab16 val = drop_bit 8 val OR push_bit 8 val"

definition ext2fs_swab32 :: "u32 \<Rightarrow> u32" where
  "ext2fs_swab32 val =
     drop_bit 24 val OR (drop_bit 8 val AND 0xFF00) OR (push_bit 8 val AND 0xFF0000)
     OR push_bit 24 val"

definition ext2fs_swab64 :: "u64 \<Rightarrow> u64" where
  "ext2fs_swab64 val =
     ucast (ext2fs_swab32 (ucast (drop_bit 32 val)))
     OR push_bit 32 (ucast (ext2fs_swab32 (ucast (val AND 0xFFFFFFFF))))"

section \<open>Population count\<close>

definition popcount8 :: "u32 \<Rightarrow> u32" where
  "popcount8 w =
     (let res = w - (drop_bit 1 w AND 0x55);
          res = (res AND 0x33) + (drop_bit 2 res AND 0x33)
      in (res + drop_bit 4 res) AND 0x0F)"

definition popcount32 :: "u32 \<Rightarrow> u32" where
  "popcount32 w =
     (let res = w - (drop_bit 1 w AND 0x55555555);
          res = (res AND 0x33333333) + (drop_bit 2 res AND 0x33333333);
          res = (res + drop_bit 4 res) AND 0x0F0F0F0F;
          res = res + drop_bit 8 res
      in (res + drop_bit 16 res) AND 0x000000FF)"

section \<open>Words in memory\<close>

text \<open>Four bytes of a buffer read as a little endian word.\<close>

definition le32 :: "u8 list \<Rightarrow> u32" where
  "le32 b = ucast (b ! 0) OR push_bit 8 (ucast (b ! 1)) OR push_bit 16 (ucast (b ! 2))
              OR push_bit 24 (ucast (b ! 3))"

end
