(* ===== verification/Bmap64.thy ===== *)
theory Bmap64
  imports Bitops
begin

text \<open>
  \<^verbatim>\<open>libext2fs/bmap64.h\<close>: the 64-bit bitmap structure and the table of operations
  (\<open>struct ext2_bitmap_ops\<close>) that every back end fills in. The structure is a record; its
  \<open>void *private\<close> is an option of the back end's own data (\<open>None\<close> is the null pointer) and the
  type parameter \<open>'p\<close> is the back end's private type. The \<open>bitmap_ops\<close> pointer of the structure is
  passed next to it, and the \<open>fs\<close> back pointer and the optional statistics are left out.

  The table is a record of functions. An operation that mutates the bitmap returns the new one
  beside its result. The locale \<open>bmap_backend\<close> states what the callers of a back end rely on: each
  operation as a change of the set \<open>bits\<close> of marked numbers, the header untouched, the invariant
  kept. \<open>bmap_find_set\<close> and \<open>bmap_find_zero\<close> add the two searches.
\<close>

section \<open>Memory\<close>

text \<open>
  \<open>_MALLOC\<close> belongs to the kernel. An allocator maps a size to a fresh block (its address and its
  unspecified content) or to nothing; the code relies on the size of what it gets.
\<close>

type_synonym mem_block = "u64 \<times> u8 list"
type_synonym allocator = "nat \<Rightarrow> mem_block option"

definition alloc_sized :: "allocator \<Rightarrow> bool" where
  "alloc_sized mem \<longleftrightarrow> (\<forall>n blk. mem n = Some blk \<longrightarrow> length (snd blk) = n)"

definition ext2fs_get_mem :: "allocator \<Rightarrow> nat \<Rightarrow> errcode + mem_block" where
  "ext2fs_get_mem mem sz =
     (case mem sz of None \<Rightarrow> Inl EXT2_ET_NO_MEMORY | Some pp \<Rightarrow> Inr pp)"

definition e2fsmac_realloc :: "allocator \<Rightarrow> mem_block \<Rightarrow> nat \<Rightarrow> nat \<Rightarrow> mem_block option" where
  "e2fsmac_realloc mem ptr old new =
     (if old = new then Some ptr
      else case mem new of
             None \<Rightarrow> None
           | Some addr \<Rightarrow>
               Some (fst addr, memcpy_at (snd addr) 0 (snd ptr) (min old new)))"

definition ext2fs_resize_mem ::
  "allocator \<Rightarrow> nat \<Rightarrow> nat \<Rightarrow> mem_block \<Rightarrow> errcode + mem_block" where
  "ext2fs_resize_mem mem old_size sz ptr =
     (case e2fsmac_realloc mem ptr old_size sz of
        None \<Rightarrow> Inl EXT2_ET_NO_MEMORY
      | Some p \<Rightarrow> Inr p)"

lemma ext2fs_get_mem_length:
  "alloc_sized mem \<Longrightarrow> ext2fs_get_mem mem n = Inr blk \<Longrightarrow> length (snd blk) = n"
  by (auto simp: ext2fs_get_mem_def alloc_sized_def split: option.splits)

lemma ext2fs_resize_mem_Inl: "ext2fs_resize_mem mem old new ptr = Inl err \<Longrightarrow> err = EXT2_ET_NO_MEMORY"
  by (auto simp: ext2fs_resize_mem_def split: option.splits)

lemma ext2fs_resize_mem_Inr:
  assumes "alloc_sized mem" "ext2fs_resize_mem mem old new ptr = Inr blk" "old = length (snd ptr)"
  shows "length (snd blk) = new \<and> take (min old new) (snd blk) = take (min old new) (snd ptr)"
  using assms
  by (auto simp: ext2fs_resize_mem_def e2fsmac_realloc_def alloc_sized_def memcpy_at_def
      split: option.splits if_splits)

section \<open>The structure and the operation table\<close>

record 'p gen_bitmap_64 =
  bm_magic :: errcode
  bm_start :: u64
  bm_end :: u64
  bm_real_end :: u64
  bm_cluster_bits :: nat
  bm_description :: "string option"
  bm_private :: "'p option"
  bm_base_error_code :: errcode

record 'p bitmap_ops =
  ops_new_bmap :: "allocator \<Rightarrow> 'p gen_bitmap_64 \<Rightarrow> errcode + 'p gen_bitmap_64"
  ops_copy_bmap :: "allocator \<Rightarrow> 'p gen_bitmap_64 \<Rightarrow> 'p gen_bitmap_64
    \<Rightarrow> 'p gen_bitmap_64 \<times> (errcode + 'p gen_bitmap_64)"
  ops_resize_bmap :: "allocator \<Rightarrow> 'p gen_bitmap_64 \<Rightarrow> u64 \<Rightarrow> u64 \<Rightarrow> 'p gen_bitmap_64 \<times> errcode"
  ops_mark_bmap :: "'p gen_bitmap_64 \<Rightarrow> u64 \<Rightarrow> 'p gen_bitmap_64 \<times> int"
  ops_unmark_bmap :: "'p gen_bitmap_64 \<Rightarrow> u64 \<Rightarrow> 'p gen_bitmap_64 \<times> int"
  ops_test_bmap :: "'p gen_bitmap_64 \<Rightarrow> u64 \<Rightarrow> 'p gen_bitmap_64 \<times> int"
  ops_mark_bmap_extent :: "'p gen_bitmap_64 \<Rightarrow> u64 \<Rightarrow> u32 \<Rightarrow> 'p gen_bitmap_64"
  ops_unmark_bmap_extent :: "'p gen_bitmap_64 \<Rightarrow> u64 \<Rightarrow> u32 \<Rightarrow> 'p gen_bitmap_64"
  ops_test_clear_bmap_extent :: "'p gen_bitmap_64 \<Rightarrow> u64 \<Rightarrow> u32 \<Rightarrow> int"
  ops_set_bmap_range :: "'p gen_bitmap_64 \<Rightarrow> u64 \<Rightarrow> u64 \<Rightarrow> u8 list \<Rightarrow> 'p gen_bitmap_64"
  ops_get_bmap_range :: "'p gen_bitmap_64 \<Rightarrow> u64 \<Rightarrow> u64 \<Rightarrow> u8 list \<Rightarrow> u8 list"
  ops_clear_bmap :: "'p gen_bitmap_64 \<Rightarrow> 'p gen_bitmap_64"
  ops_find_first_zero :: "'p gen_bitmap_64 \<Rightarrow> u64 \<Rightarrow> u64 \<Rightarrow> errcode + u64"
  ops_find_first_set :: "'p gen_bitmap_64 \<Rightarrow> u64 \<Rightarrow> u64 \<Rightarrow> errcode + u64"

text \<open>Everything of the structure but the back end's data.\<close>

definition bm_hdr :: "'p gen_bitmap_64 \<Rightarrow> 'p gen_bitmap_64" where
  "bm_hdr b = b\<lparr>bm_private := None\<rparr>"

lemma bm_hdr_private [simp]: "bm_hdr (b\<lparr>bm_private := p\<rparr>) = bm_hdr b"
  by (simp add: bm_hdr_def)

lemma bm_hdr_eqD:
  assumes "bm_hdr b' = bm_hdr b"
  shows "bm_magic b' = bm_magic b" "bm_start b' = bm_start b" "bm_end b' = bm_end b"
    "bm_real_end b' = bm_real_end b" "bm_cluster_bits b' = bm_cluster_bits b"
    "bm_description b' = bm_description b" "bm_base_error_code b' = bm_base_error_code b"
  using assms unfolding bm_hdr_def by (cases b; cases b'; simp)+

text \<open>The numbers a bitmap holds a bit for.\<close>

definition bm_range :: "'p gen_bitmap_64 \<Rightarrow> nat set" where
  "bm_range b = {unat (bm_start b) .. unat (bm_real_end b)}"

definition in_bmap :: "'p gen_bitmap_64 \<Rightarrow> u64 \<Rightarrow> bool" where
  "in_bmap b a \<longleftrightarrow> bm_start b \<le> a \<and> a \<le> bm_real_end b"

definition extent_in_bmap :: "'p gen_bitmap_64 \<Rightarrow> u64 \<Rightarrow> u32 \<Rightarrow> bool" where
  "extent_in_bmap b a num \<longleftrightarrow>
     bm_start b \<le> a \<and> unat a + unat num \<le> Suc (unat (bm_real_end b))"

definition extent_set :: "u64 \<Rightarrow> u32 \<Rightarrow> nat set" where
  "extent_set a num = {unat a ..< unat a + unat num}"

section \<open>The contract of a back end\<close>

locale bmap_backend =
  fixes ops :: "'p bitmap_ops"
    and inv :: "'p gen_bitmap_64 \<Rightarrow> bool"
    and bits :: "'p gen_bitmap_64 \<Rightarrow> nat set"
  assumes bits_range: "inv b \<Longrightarrow> bits b \<subseteq> bm_range b"
    and test_ret: "inv b \<Longrightarrow> in_bmap b a \<Longrightarrow> snd (ops_test_bmap ops b a) \<noteq> 0 \<longleftrightarrow> unat a \<in> bits b"
    and test_state: "inv b \<Longrightarrow> in_bmap b a \<Longrightarrow>
      inv (fst (ops_test_bmap ops b a)) \<and> bits (fst (ops_test_bmap ops b a)) = bits b
      \<and> bm_hdr (fst (ops_test_bmap ops b a)) = bm_hdr b"
    and mark_ret: "inv b \<Longrightarrow> in_bmap b a \<Longrightarrow> snd (ops_mark_bmap ops b a) \<noteq> 0 \<longleftrightarrow> unat a \<in> bits b"
    and mark_state: "inv b \<Longrightarrow> in_bmap b a \<Longrightarrow>
      inv (fst (ops_mark_bmap ops b a)) \<and> bits (fst (ops_mark_bmap ops b a)) = insert (unat a) (bits b)
      \<and> bm_hdr (fst (ops_mark_bmap ops b a)) = bm_hdr b"
    and unmark_state: "inv b \<Longrightarrow> in_bmap b a \<Longrightarrow>
      inv (fst (ops_unmark_bmap ops b a)) \<and> bits (fst (ops_unmark_bmap ops b a)) = bits b - {unat a}
      \<and> bm_hdr (fst (ops_unmark_bmap ops b a)) = bm_hdr b"
    and mark_extent: "inv b \<Longrightarrow> extent_in_bmap b a num \<Longrightarrow>
      inv (ops_mark_bmap_extent ops b a num)
      \<and> bits (ops_mark_bmap_extent ops b a num) = bits b \<union> extent_set a num
      \<and> bm_hdr (ops_mark_bmap_extent ops b a num) = bm_hdr b"
    and unmark_extent: "inv b \<Longrightarrow> extent_in_bmap b a num \<Longrightarrow>
      inv (ops_unmark_bmap_extent ops b a num)
      \<and> bits (ops_unmark_bmap_extent ops b a num) = bits b - extent_set a num
      \<and> bm_hdr (ops_unmark_bmap_extent ops b a num) = bm_hdr b"
    and test_clear_extent: "inv b \<Longrightarrow> extent_in_bmap b a num \<Longrightarrow> 0 < num \<Longrightarrow>
      ops_test_clear_bmap_extent ops b a num \<noteq> 0 \<longleftrightarrow> bits b \<inter> extent_set a num = {}"
    and clear: "inv b \<Longrightarrow>
      inv (ops_clear_bmap ops b) \<and> bits (ops_clear_bmap ops b) = {}
      \<and> bm_hdr (ops_clear_bmap ops b) = bm_hdr b"

text \<open>
  Creation and copying. A bitmap to be filled in has a sound header (\<open>bm_wf\<close>); the copy gets the
  header its caller prepared, with the geometry of the source.
\<close>

definition bm_wf :: "'p gen_bitmap_64 \<Rightarrow> bool" where
  "bm_wf b \<longleftrightarrow> bm_start b \<le> bm_end b \<and> bm_end b \<le> bm_real_end b
     \<and> unat (bm_real_end b) - unat (bm_start b) < 2 ^ 64 - 1"

definition bm_same_geometry :: "'p gen_bitmap_64 \<Rightarrow> 'q gen_bitmap_64 \<Rightarrow> bool" where
  "bm_same_geometry a b \<longleftrightarrow> bm_start a = bm_start b \<and> bm_end a = bm_end b \<and> bm_real_end a = bm_real_end b"

definition never_fails :: "allocator \<Rightarrow> bool" where
  "never_fails mem \<longleftrightarrow> (\<forall>n. mem n \<noteq> None)"

lemma ext2fs_get_mem_Inl:
  assumes "ext2fs_get_mem mem n = Inl err"
  shows "err = EXT2_ET_NO_MEMORY \<and> \<not> never_fails mem"
proof -
  have "mem n = None" "err = EXT2_ET_NO_MEMORY"
    using assms by (auto simp: ext2fs_get_mem_def split: option.splits)
  then show ?thesis unfolding never_fails_def by blast
qed

locale bmap_lifecycle = bmap_backend +
  assumes new_Inr: "bm_wf b \<Longrightarrow> alloc_sized mem \<Longrightarrow> ops_new_bmap ops mem b = Inr b' \<Longrightarrow>
      inv b' \<and> bits b' = {} \<and> bm_hdr b' = bm_hdr b"
    and new_Inl: "ops_new_bmap ops mem b = Inl err \<Longrightarrow> err = EXT2_ET_NO_MEMORY \<and> \<not> never_fails mem"
    and copy_src: "inv src \<Longrightarrow> ops_copy_bmap ops mem src dest = (src', res) \<Longrightarrow>
      inv src' \<and> bits src' = bits src \<and> bm_hdr src' = bm_hdr src"
    and copy_Inr: "inv src \<Longrightarrow> bm_same_geometry src dest \<Longrightarrow> alloc_sized mem \<Longrightarrow>
      ops_copy_bmap ops mem src dest = (src', Inr dest') \<Longrightarrow>
      inv dest' \<and> bits dest' = bits src \<and> bm_hdr dest' = bm_hdr dest"
    and copy_Inl: "inv src \<Longrightarrow> ops_copy_bmap ops mem src dest = (src', Inl err) \<Longrightarrow>
      err = EXT2_ET_NO_MEMORY \<and> \<not> never_fails mem"

locale bmap_find_set = bmap_backend +
  assumes find_first_set_Inr: "inv b \<Longrightarrow> in_bmap b s \<Longrightarrow> in_bmap b e \<Longrightarrow> s \<le> e \<Longrightarrow>
      ops_find_first_set ops b s e = Inr x \<Longrightarrow>
      s \<le> x \<and> x \<le> e \<and> unat x \<in> bits b \<and> bits b \<inter> {unat s ..< unat x} = {}"
    and find_first_set_Inl: "inv b \<Longrightarrow> in_bmap b s \<Longrightarrow> in_bmap b e \<Longrightarrow> s \<le> e \<Longrightarrow>
      ops_find_first_set ops b s e = Inl err \<Longrightarrow>
      err = ENOENT \<and> bits b \<inter> {unat s .. unat e} = {}"

locale bmap_find_zero = bmap_backend +
  assumes find_first_zero_Inr: "inv b \<Longrightarrow> in_bmap b s \<Longrightarrow> in_bmap b e \<Longrightarrow> s \<le> e \<Longrightarrow>
      ops_find_first_zero ops b s e = Inr x \<Longrightarrow>
      s \<le> x \<and> x \<le> e \<and> unat x \<notin> bits b \<and> {unat s ..< unat x} \<subseteq> bits b"
    and find_first_zero_Inl: "inv b \<Longrightarrow> in_bmap b s \<Longrightarrow> in_bmap b e \<Longrightarrow> s \<le> e \<Longrightarrow>
      ops_find_first_zero ops b s e = Inl err \<Longrightarrow>
      err = ENOENT \<and> {unat s .. unat e} \<subseteq> bits b"

end
