(* ===== verification/Gen_bitmap.thy ===== *)
theory Gen_bitmap
  imports Bmap64
begin

text \<open>
  \<^verbatim>\<open>libext2fs/gen_bitmap.c\<close>: the 32-bit bitmap, a byte array with its bounds, and the routines
  that the bit-array back end of the 64-bit bitmaps shares (the test that a range of bits is clear
  and the zero-memory test).
\<close>

section \<open>Testing that memory and bit ranges are clear\<close>

text \<open>\<open>ext2fs_mem_is_zero\<close> compares with a zero buffer of 256 bytes at a time.\<close>

function ext2fs_mem_is_zero :: "u8 list \<Rightarrow> nat \<Rightarrow> int" where
  "ext2fs_mem_is_zero mem len =
     (if 256 \<le> len
      then (if take 256 mem \<noteq> replicate 256 0 then 0
            else ext2fs_mem_is_zero (drop 256 mem) (len - 256))
      else if len \<noteq> 0 then (if take len mem = replicate len 0 then 1 else 0)
      else 1)"
  by pat_completeness auto
termination
  by (relation "measure (\<lambda>(mem, len). len)") auto

declare ext2fs_mem_is_zero.simps [simp del]

text \<open>
  The loops that build the byte masks: \<open>first_bit\<close> gets \<open>i\<close> bits from \<open>mark_bit\<close> downwards,
  \<open>last_bit\<close> the bits below \<open>len_bit\<close>.
\<close>

fun first_bit_loop :: "nat \<Rightarrow> nat \<Rightarrow> u32 \<Rightarrow> u32" where
  "first_bit_loop 0 mark_bit first_bit = first_bit"
| "first_bit_loop (Suc i) mark_bit first_bit =
     first_bit_loop i (mark_bit - 1) (first_bit OR push_bit mark_bit 1)"

fun last_bit_loop :: "nat \<Rightarrow> u32 \<Rightarrow> u32" where
  "last_bit_loop 0 last_bit = last_bit"
| "last_bit_loop (Suc mark_bit) last_bit = last_bit_loop mark_bit (last_bit OR push_bit mark_bit 1)"

definition test_clear_tail :: "u8 list \<Rightarrow> u64 \<Rightarrow> u32 \<Rightarrow> u64 \<Rightarrow> int" where
  "test_clear_tail ADDR start_byte len_bit len_byte =
     (if len_bit \<noteq> 0
      then if last_bit_loop (unat len_bit) 0 AND scast (ADDR ! unat (start_byte + len_byte)) \<noteq> 0
           then 0
           else if len_byte = 0 then 1
           else ext2fs_mem_is_zero (drop (unat start_byte) ADDR) (unat len_byte)
      else ext2fs_mem_is_zero (drop (unat start_byte) ADDR) (unat len_byte))"

definition test_clear_bits :: "u8 list \<Rightarrow> u64 \<Rightarrow> u32 \<Rightarrow> int" where
  "test_clear_bits ADDR start len =
     (let start_byte = drop_bit 3 start;
          start_bit = ucast (start AND 7) :: u32;
          len_byte = ucast (drop_bit 3 len) :: u64;
          len_bit = len AND 7
      in if start_bit \<noteq> 0
         then
           let mark_count = (if len < 8 - start_bit then len else 8 - start_bit);
               mark_bit = (if len < 8 - start_bit then len + start_bit - 1 else 7);
               first_bit = first_bit_loop (unat mark_count) (unat mark_bit) 0
           in if first_bit AND scast (ADDR ! unat start_byte) \<noteq> 0 then 0
              else if len \<le> 8 - start_bit then 1
              else test_clear_tail ADDR (start_byte + 1) ((len - mark_count) AND 7)
                     (ucast (drop_bit 3 (len - mark_count)))
         else test_clear_tail ADDR start_byte len_bit len_byte)"

definition bits_clear :: "u8 list \<Rightarrow> nat \<Rightarrow> nat \<Rightarrow> bool" where
  "bits_clear arr s n \<longleftrightarrow> (\<forall>k. s \<le> k \<and> k < s + n \<longrightarrow> \<not> bit_at arr k)"

lemma bits_clear_0 [simp]: "bits_clear arr s 0"
  by (auto simp: bits_clear_def)

lemma bits_clear_split: "bits_clear arr s (m + n) \<longleftrightarrow> bits_clear arr s m \<and> bits_clear arr (s + m) n"
  unfolding bits_clear_def by (auto simp: not_less) (metis add.assoc leI)+

lemma bits_clear_byte:
  assumes "a + n \<le> 8"
  shows "bits_clear arr (8 * q + a) n \<longleftrightarrow> (\<forall>k. a \<le> k \<and> k < a + n \<longrightarrow> \<not> bit (arr ! q) k)"
proof -
  have "(8 * q + k) div 8 = q \<and> (8 * q + k) mod 8 = k" if "k < a + n" for k
    using that assms by auto
  then have at: "bit_at arr (8 * q + k) = bit (arr ! q) k" if "k < a + n" for k
    using that by (simp add: bit_at_def)
  show ?thesis
  proof
    assume l: "bits_clear arr (8 * q + a) n"
    show "\<forall>k. a \<le> k \<and> k < a + n \<longrightarrow> \<not> bit (arr ! q) k"
      using l at unfolding bits_clear_def by (metis add_le_cancel_left add_less_cancel_left add.assoc)
  next
    assume r: "\<forall>k. a \<le> k \<and> k < a + n \<longrightarrow> \<not> bit (arr ! q) k"
    show "bits_clear arr (8 * q + a) n"
      unfolding bits_clear_def
    proof (intro allI impI)
      fix k assume k: "8 * q + a \<le> k \<and> k < 8 * q + a + n"
      then obtain j where j: "k = 8 * q + j" by (metis add_leD1 le_Suc_ex)
      with k r at [of j] show "\<not> bit_at arr k" by auto
    qed
  qed
qed

lemma byte_eq_0: "(b :: u8) = 0 \<longleftrightarrow> (\<forall>k<8. \<not> bit b k)"
  by (simp add: bit_eq_iff)

lemma bits_clear_bytes: "bits_clear arr (8 * q) (8 * n) \<longleftrightarrow> (\<forall>j<n. arr ! (q + j) = 0)"
proof (induction n)
  case 0
  then show ?case by simp
next
  case (Suc n)
  have "bits_clear arr (8 * q) (8 * Suc n) \<longleftrightarrow>
        bits_clear arr (8 * q) (8 * n) \<and> bits_clear arr (8 * (q + n) + 0) 8"
    using bits_clear_split [of arr "8 * q" "8 * n" 8] by (simp add: distrib_left add.commute)
  also have "bits_clear arr (8 * (q + n) + 0) 8 \<longleftrightarrow> arr ! (q + n) = 0"
    by (subst bits_clear_byte) (auto simp: byte_eq_0)
  finally show ?case using Suc.IH by (auto simp: less_Suc_eq)
qed

lemma take_eq_replicate:
  "n \<le> length xs \<Longrightarrow> take n xs = replicate n v \<longleftrightarrow> (\<forall>j<n. xs ! j = v)"
  by (auto simp: list_eq_iff_nth_eq)

lemma mem_is_zero_step:
  "256 \<le> len \<Longrightarrow> ext2fs_mem_is_zero mem len =
     (if take 256 mem \<noteq> replicate 256 0 then 0 else ext2fs_mem_is_zero (drop 256 mem) (len - 256))"
  by (subst ext2fs_mem_is_zero.simps) (simp only: if_True)

lemma mem_is_zero_last:
  "len < 256 \<Longrightarrow> len \<le> length mem \<Longrightarrow>
   ext2fs_mem_is_zero mem len \<noteq> 0 \<longleftrightarrow> (\<forall>j<len. mem ! j = 0)"
  by (subst ext2fs_mem_is_zero.simps) (simp add: take_eq_replicate)

lemma all_less_split:
  assumes "n \<le> len" "len \<le> length mem"
  shows "(\<forall>j<len. mem ! j = v) \<longleftrightarrow> (\<forall>j<n. mem ! j = v) \<and> (\<forall>j<len - n. drop n mem ! j = v)"
proof -
  have low: "mem ! j = drop n mem ! (j - n)" if "n \<le> j" for j
    using that assms by simp
  show ?thesis
  proof safe
    fix j assume "\<forall>j<len. mem ! j = v" "j < len - n"
    then show "drop n mem ! j = v" using low [of "n + j"] by simp
  next
    fix j assume "\<forall>j<n. mem ! j = v" "\<forall>j<len - n. drop n mem ! j = v" "j < len"
    then show "mem ! j = v" using low [of j] by (cases "j < n") auto
  qed (use assms in auto)
qed

lemma mem_is_zero_iff:
  "len \<le> length mem \<Longrightarrow> ext2fs_mem_is_zero mem len \<noteq> 0 \<longleftrightarrow> (\<forall>j<len. mem ! j = 0)"
proof (induction mem len rule: ext2fs_mem_is_zero.induct)
  case (1 mem len)
  show ?case
  proof (cases "256 \<le> len")
    case False
    with "1.prems" show ?thesis by (intro mem_is_zero_last) simp_all
  next
    case True
    note split = all_less_split [OF True "1.prems", of 0]
    have first: "take 256 mem = replicate 256 0 \<longleftrightarrow> (\<forall>j<256. mem ! j = 0)"
      using True "1.prems" by (intro take_eq_replicate) linarith
    show ?thesis
    proof (cases "take 256 mem = replicate 256 0")
      case F: False
      with first split show ?thesis
        unfolding mem_is_zero_step [OF True] by (simp only: F not_False_eq_True if_True) blast
    next
      case T: True
      have "len - 256 \<le> length (drop 256 mem)" using "1.prems" by simp
      from "1.IH" [OF True _ this] T have
        "ext2fs_mem_is_zero (drop 256 mem) (len - 256) \<noteq> 0 \<longleftrightarrow> (\<forall>j<len - 256. drop 256 mem ! j = 0)"
        by blast
      with T first split show ?thesis
        unfolding mem_is_zero_step [OF True] by (simp only: T not_True_eq_False if_False) blast
    qed
  qed
qed

lemma bit_word32_mask: "bit (push_bit k 1 :: u32) i \<longleftrightarrow> i = k \<and> k < 32"
  by (auto simp: bit_simps push_bit_of_1)

lemma first_bit_loop_bits:
  "i \<le> Suc mb \<Longrightarrow> mb < 32 \<Longrightarrow>
   bit (first_bit_loop i mb acc) k \<longleftrightarrow> bit acc k \<or> Suc mb - i \<le> k \<and> k \<le> mb"
proof (induction i mb acc rule: first_bit_loop.induct)
  case (1 mb acc)
  then show ?case by auto
next
  case (2 i mb acc)
  show ?case
  proof (cases i)
    case 0
    with "2.prems" show ?thesis by (auto simp: bit_or_iff bit_word32_mask)
  next
    case (Suc i')
    with "2.prems" have "i \<le> Suc (mb - 1)" "mb - 1 < 32" "0 < mb" by auto
    with "2.IH" Suc "2.prems" show ?thesis
      by (auto simp: bit_or_iff bit_word32_mask)
  qed
qed

lemma last_bit_loop_bits:
  "n \<le> 32 \<Longrightarrow> bit (last_bit_loop n acc) k \<longleftrightarrow> bit acc k \<or> k < n"
  by (induction n acc rule: last_bit_loop.induct) (auto simp: bit_or_iff bit_word32_mask less_Suc_eq)

lemma mask_scast_byte:
  assumes "\<And>k. bit (m :: u32) k \<longleftrightarrow> P k" "\<And>k. P k \<Longrightarrow> k < 8"
  shows "m AND scast (b :: u8) = 0 \<longleftrightarrow> (\<forall>k. P k \<longrightarrow> \<not> bit b k)"
proof -
  have "bit (scast b :: u32) k = bit b k" if "k < 8" for k
    using that by (simp add: bit_simps)
  then show ?thesis using assms unfolding word_eq_0_bits by (auto simp: bit_and_iff)
qed

lemma test_clear_tail_iff:
  assumes len: "8 * unat sb + 8 * unat ln + unat lb \<le> 8 * length ADDR"
    and lb: "unat lb < 8" and wrap: "unat sb + unat ln < 2 ^ 64"
  shows "test_clear_tail ADDR sb lb ln \<noteq> 0 \<longleftrightarrow>
         bits_clear ADDR (8 * unat sb) (8 * unat ln + unat lb)"
proof -
  have idx: "unat (sb + ln) = unat sb + unat ln"
    using wrap by (simp add: unat_add_no_wrap)
  have bytes: "ext2fs_mem_is_zero (drop (unat sb) ADDR) (unat ln) \<noteq> 0 \<longleftrightarrow>
      bits_clear ADDR (8 * unat sb) (8 * unat ln)"
    using len by (subst mem_is_zero_iff) (auto simp: bits_clear_bytes nth_drop)
  have last: "last_bit_loop (unat lb) 0 AND scast (ADDR ! unat (sb + ln)) = 0 \<longleftrightarrow>
      bits_clear ADDR (8 * unat sb + 8 * unat ln) (unat lb)"
  proof -
    have "last_bit_loop (unat lb) 0 AND scast (ADDR ! unat (sb + ln)) = 0 \<longleftrightarrow>
        (\<forall>k. k < unat lb \<longrightarrow> \<not> bit (ADDR ! (unat sb + unat ln)) k)"
      unfolding idx using lb by (intro mask_scast_byte) (auto simp: last_bit_loop_bits)
    also have "\<dots> \<longleftrightarrow> bits_clear ADDR (8 * (unat sb + unat ln) + 0) (unat lb)"
      using lb by (subst bits_clear_byte) auto
    finally show ?thesis by (simp add: distrib_left)
  qed
  show ?thesis
  proof (cases "lb = 0")
    case True
    with bytes show ?thesis by (simp add: test_clear_tail_def)
  next
    case False
    with bytes last show ?thesis
      by (auto simp: test_clear_tail_def bits_clear_split)
  qed
qed

lemma unat_minus_le [word_nat]: "b \<le> a \<Longrightarrow> unat ((a :: 'a::len word) - b) = unat a - unat b"
  by (rule unat_sub_no_wrap)

lemma test_clear_bits_iff:
  assumes fit: "unat start + unat len \<le> 8 * length ADDR"
    and wrap: "unat start + unat len \<le> 2 ^ 64"
  shows "test_clear_bits ADDR start len \<noteq> 0 \<longleftrightarrow> bits_clear ADDR (unat start) (unat len)"
proof -
  define q where "q = unat start div 8"
  define a where "a = unat start mod 8"
  have start: "unat start = 8 * q + a" and a8: "a < 8" by (simp_all add: q_def a_def)
  have ua: "unat (ucast (start AND 7) :: u32) = a"
    using a8 by (simp add: unsigned_ucast_eq a_def word_nat take_bit_eq_mod)
  have sb: "unat (drop_bit 3 start) = q" by (simp add: word_nat q_def)
  define sbit where "sbit = (ucast (start AND 7) :: u32)"
  have us: "unat sbit = a" using ua by (simp add: sbit_def)
  show ?thesis
  proof (cases "a = 0")
    case True
    then have "sbit = 0" using us by (simp add: unat_eq_0)
    then have eq: "test_clear_bits ADDR start len =
        test_clear_tail ADDR (drop_bit 3 start) (len AND 7) (ucast (drop_bit 3 len))"
      by (simp add: test_clear_bits_def sbit_def)
    have L: "8 * unat (ucast (drop_bit 3 len) :: u64) + unat (len AND 7) = unat len"
      by (simp add: word_nat)
    show ?thesis unfolding eq
      using fit wrap start True sb L
      by (subst test_clear_tail_iff) (auto simp: word_nat)
  next
    case False
    then have nz: "sbit \<noteq> 0" using us by auto
    have le8: "sbit \<le> 8" using us a8 by (simp add: word_le_nat_alt)
    have u8s: "unat (8 - sbit) = 8 - a" using us le8 by (simp add: word_nat)
    define mc where "mc = (if len < 8 - sbit then len else 8 - sbit)"
    define mb where "mb = (if len < 8 - sbit then len + sbit - 1 else 7)"
    have mc: "unat mc = min (unat len) (8 - a)"
      using u8s by (auto simp: mc_def word_less_nat_alt min_def)
    have mcle: "unat mc \<le> 8 - a" using mc by simp
    have mb: "unat mb = a + unat mc - 1"
    proof (cases "len < 8 - sbit")
      case True
      then have l: "unat len < 8 - a" using u8s by (simp add: word_less_nat_alt)
      have "unat (len + sbit) = unat len + a" using l us by (simp add: unat_add_no_wrap)
      moreover have "1 \<le> len + sbit" using calculation False by (simp add: word_le_nat_alt)
      ultimately show ?thesis using True l False
        by (simp add: mb_def mc_def word_nat)
    next
      case F: False
      then show ?thesis using a8 False u8s by (simp add: mb_def mc_def)
    qed
    have first: "first_bit_loop (unat mc) (unat mb) 0 AND scast (ADDR ! unat (drop_bit 3 start)) = 0
        \<longleftrightarrow> bits_clear ADDR (8 * q + a) (unat mc)"
    proof -
      have "first_bit_loop (unat mc) (unat mb) 0 AND scast (ADDR ! unat (drop_bit 3 start)) = 0
          \<longleftrightarrow> (\<forall>k. a \<le> k \<and> k < a + unat mc \<longrightarrow> \<not> bit (ADDR ! q) k)"
        unfolding sb
      proof (rule mask_scast_byte)
        fix k show "bit (first_bit_loop (unat mc) (unat mb) 0) k \<longleftrightarrow> a \<le> k \<and> k < a + unat mc"
          using mb mcle False a8 by (subst first_bit_loop_bits) auto
      qed (use mc in auto)
      then show ?thesis using mcle a8 by (simp add: bits_clear_byte)
    qed
    have eq: "test_clear_bits ADDR start len =
       (if first_bit_loop (unat mc) (unat mb) 0 AND scast (ADDR ! unat (drop_bit 3 start)) \<noteq> 0 then 0
        else if len \<le> 8 - sbit then 1
        else test_clear_tail ADDR (drop_bit 3 start + 1) ((len - mc) AND 7)
               (ucast (drop_bit 3 (len - mc))))"
      unfolding test_clear_bits_def Let_def sbit_def [symmetric] mc_def [symmetric]
        mb_def [symmetric]
      by (simp only: nz not_False_eq_True if_True)
    show ?thesis
    proof (cases "len \<le> 8 - sbit")
      case True
      then have "unat mc = unat len" using mc u8s by (simp add: word_le_nat_alt)
      with first True start show ?thesis unfolding eq by auto
    next
      case F: False
      then have lgt: "8 - a < unat len" using u8s by (simp add: word_le_nat_alt)
      then have mcv: "unat mc = 8 - a" and mcl: "mc \<le> len" using mc by (auto simp: word_le_nat_alt)
      have usb: "unat (drop_bit 3 start + 1) = Suc q"
        using sb wrap start by (subst unat_add_no_wrap) auto
      have rest: "8 * unat (ucast (drop_bit 3 (len - mc)) :: u64) + unat ((len - mc) AND 7)
          = unat len - (8 - a)"
        using mcl mcv by (simp add: word_nat)
      have tail: "test_clear_tail ADDR (drop_bit 3 start + 1) ((len - mc) AND 7)
               (ucast (drop_bit 3 (len - mc))) \<noteq> 0 \<longleftrightarrow>
             bits_clear ADDR (8 * Suc q) (unat len - (8 - a))"
        using fit wrap start lgt rest usb a8
        by (subst test_clear_tail_iff) (auto simp: word_nat)
      have "bits_clear ADDR (unat start) (unat len) \<longleftrightarrow>
          bits_clear ADDR (8 * q + a) (8 - a) \<and> bits_clear ADDR (8 * Suc q) (unat len - (8 - a))"
        using bits_clear_split [of ADDR "8 * q + a" "8 - a" "unat len - (8 - a)"] lgt a8 start
        by (simp add: algebra_simps)
      with first tail F mcv show ?thesis unfolding eq by auto
    qed
  qed
qed

end
