(* ===== verification/Gen_bitmap32.thy ===== *)
theory Gen_bitmap32
  imports Gen_bitmap
begin

text \<open>
  The 32-bit bitmap of \<^verbatim>\<open>libext2fs/gen_bitmap.c\<close>: \<open>struct ext2fs_struct_generic_bitmap_32\<close> and its
  operations. Numbers are \<open>__u32\<close>. Each operation first looks at the magic number; the branch that
  forwards a 64-bit bitmap is in \<^verbatim>\<open>Gen_bitmap64\<close>, where the two structures meet. Warnings print
  and change nothing, so they are left out.
\<close>

section \<open>The structure\<close>

record gen_bitmap_32 =
  b32_magic :: errcode
  b32_start :: u32
  b32_end :: u32
  b32_real_end :: u32
  b32_description :: "string option"
  b32_bitmap :: "u8 list"
  b32_base_error_code :: errcode

definition EXT2FS_IS_32_BITMAP :: "errcode \<Rightarrow> bool" where
  "EXT2FS_IS_32_BITMAP magic \<longleftrightarrow>
     magic = EXT2_ET_MAGIC_GENERIC_BITMAP \<or> magic = EXT2_ET_MAGIC_BLOCK_BITMAP
     \<or> magic = EXT2_ET_MAGIC_INODE_BITMAP"

definition EXT2FS_IS_64_BITMAP :: "errcode \<Rightarrow> bool" where
  "EXT2FS_IS_64_BITMAP magic \<longleftrightarrow>
     magic = EXT2_ET_MAGIC_GENERIC_BITMAP64 \<or> magic = EXT2_ET_MAGIC_BLOCK_BITMAP64
     \<or> magic = EXT2_ET_MAGIC_INODE_BITMAP64"

text \<open>The size rounding \<open>(size + 7) & ~3\<close> of a new bitmap's buffer.\<close>

definition b32_alloc_size :: "u32 \<Rightarrow> u32 \<Rightarrow> nat" where
  "b32_alloc_size start real_end =
     unat (((ucast ((real_end - start) div 8 + 1) :: u64) + 7) AND NOT 3)"

definition base_error_code32 :: "errcode \<Rightarrow> errcode" where
  "base_error_code32 magic =
     (if magic = EXT2_ET_MAGIC_INODE_BITMAP then EXT2_ET_BAD_INODE_MARK
      else if magic = EXT2_ET_MAGIC_BLOCK_BITMAP then EXT2_ET_BAD_BLOCK_MARK
      else EXT2_ET_BAD_GENERIC_MARK)"

definition ext2fs_make_generic_bitmap ::
  "allocator \<Rightarrow> errcode \<Rightarrow> u32 \<Rightarrow> u32 \<Rightarrow> u32 \<Rightarrow> string option \<Rightarrow> u8 list option
   \<Rightarrow> errcode + gen_bitmap_32" where
  "ext2fs_make_generic_bitmap mem magic start end real_end descr init_map =
     (case ext2fs_get_mem mem 88 of
        Inl retval \<Rightarrow> Inl retval
      | Inr _ \<Rightarrow>
          (case (case descr of
                   None \<Rightarrow> Inr ()
                 | Some d \<Rightarrow> (case ext2fs_get_mem mem (length d + 1) of
                                Inl retval \<Rightarrow> Inl retval | Inr _ \<Rightarrow> Inr ())) of
             Inl retval \<Rightarrow> Inl retval
           | Inr _ \<Rightarrow>
               let size = b32_alloc_size start real_end
               in case ext2fs_get_mem mem size of
                    Inl retval \<Rightarrow> Inl retval
                  | Inr blk \<Rightarrow>
                      Inr \<lparr>b32_magic = magic, b32_start = start, b32_end = end, b32_real_end = real_end,
                           b32_description = descr,
                           b32_bitmap = (case init_map of
                                           Some m \<Rightarrow> memcpy_at (snd blk) 0 m size
                                         | None \<Rightarrow> memset (snd blk) 0 0 size),
                           b32_base_error_code = base_error_code32 magic\<rparr>))"

definition ext2fs_allocate_generic_bitmap ::
  "allocator \<Rightarrow> u32 \<Rightarrow> u32 \<Rightarrow> u32 \<Rightarrow> string option \<Rightarrow> errcode + gen_bitmap_32" where
  "ext2fs_allocate_generic_bitmap mem start end real_end descr =
     ext2fs_make_generic_bitmap mem EXT2_ET_MAGIC_GENERIC_BITMAP start end real_end descr None"

definition ext2fs_copy_generic_bitmap :: "allocator \<Rightarrow> gen_bitmap_32 \<Rightarrow> errcode + gen_bitmap_32" where
  "ext2fs_copy_generic_bitmap mem src =
     ext2fs_make_generic_bitmap mem (b32_magic src) (b32_start src) (b32_end src) (b32_real_end src)
       (b32_description src) (Some (b32_bitmap src))"

section \<open>Single numbers\<close>

definition test_generic_bitmap32 :: "gen_bitmap_32 \<Rightarrow> u32 \<Rightarrow> int" where
  "test_generic_bitmap32 bitmap bitno =
     (if \<not> EXT2FS_IS_32_BITMAP (b32_magic bitmap) then 0
      else if bitno < b32_start bitmap \<or> bitno > b32_end bitmap then 0
      else ext2fs_test_bit (bitno - b32_start bitmap) (b32_bitmap bitmap))"

definition mark_generic_bitmap32 :: "gen_bitmap_32 \<Rightarrow> u32 \<Rightarrow> gen_bitmap_32 \<times> int" where
  "mark_generic_bitmap32 bitmap bitno =
     (if \<not> EXT2FS_IS_32_BITMAP (b32_magic bitmap) then (bitmap, 0)
      else if bitno < b32_start bitmap \<or> bitno > b32_end bitmap then (bitmap, 0)
      else case ext2fs_set_bit (bitno - b32_start bitmap) (b32_bitmap bitmap) of
             (arr, retval) \<Rightarrow> (bitmap\<lparr>b32_bitmap := arr\<rparr>, retval))"

definition unmark_generic_bitmap32 :: "gen_bitmap_32 \<Rightarrow> u32 \<Rightarrow> gen_bitmap_32 \<times> int" where
  "unmark_generic_bitmap32 bitmap bitno =
     (if \<not> EXT2FS_IS_32_BITMAP (b32_magic bitmap) then (bitmap, 0)
      else if bitno < b32_start bitmap \<or> bitno > b32_end bitmap then (bitmap, 0)
      else case ext2fs_clear_bit (bitno - b32_start bitmap) (b32_bitmap bitmap) of
             (arr, retval) \<Rightarrow> (bitmap\<lparr>b32_bitmap := arr\<rparr>, retval))"

definition get_generic_bitmap_start32 :: "gen_bitmap_32 \<Rightarrow> u32" where
  "get_generic_bitmap_start32 bitmap =
     (if \<not> EXT2FS_IS_32_BITMAP (b32_magic bitmap) then 0 else b32_start bitmap)"

definition get_generic_bitmap_end32 :: "gen_bitmap_32 \<Rightarrow> u32" where
  "get_generic_bitmap_end32 bitmap =
     (if \<not> EXT2FS_IS_32_BITMAP (b32_magic bitmap) then 0 else b32_end bitmap)"

definition b32_bytes :: "gen_bitmap_32 \<Rightarrow> nat" where
  "b32_bytes bitmap = unat ((b32_real_end bitmap - b32_start bitmap) div 8 + 1)"

definition clear_generic_bitmap32 :: "gen_bitmap_32 \<Rightarrow> gen_bitmap_32" where
  "clear_generic_bitmap32 bitmap =
     (if \<not> EXT2FS_IS_32_BITMAP (b32_magic bitmap) then bitmap
      else bitmap\<lparr>b32_bitmap := memset (b32_bitmap bitmap) 0 0 (b32_bytes bitmap)\<rparr>)"

section \<open>The bounds\<close>

text \<open>The result is the error code, the bitmap and the value stored through \<open>oend\<close>.\<close>

definition ext2fs_fudge_generic_bitmap_end ::
  "gen_bitmap_32 \<Rightarrow> errcode \<Rightarrow> errcode \<Rightarrow> u32 \<Rightarrow> (errcode + gen_bitmap_32 \<times> u32)" where
  "ext2fs_fudge_generic_bitmap_end bitmap magic neq end =
     (if b32_magic bitmap \<noteq> magic then Inl magic
      else if end > b32_real_end bitmap then Inl neq
      else Inr (bitmap\<lparr>b32_end := end\<rparr>, b32_end bitmap))"

function resize_clear32 :: "u32 \<Rightarrow> u32 \<Rightarrow> u32 \<Rightarrow> u8 list \<Rightarrow> u8 list" where
  "resize_clear32 bitno bend start arr =
     (if bend < bitno
      then resize_clear32 (bitno - 1) bend start (fst (ext2fs_clear_bit (bitno - start) arr))
      else arr)"
  by pat_completeness auto
termination
  by (relation "measure (\<lambda>(bitno, bend, start, arr). unat bitno)")
    (simp_all add: word_nat, simp add: word_less_nat_alt)

declare resize_clear32.simps [simp del]

text \<open>On an error the bitmap keeps the bits already cleared; the buffer's address is not looked at.\<close>

definition ext2fs_resize_generic_bitmap ::
  "allocator \<Rightarrow> errcode \<Rightarrow> u32 \<Rightarrow> u32 \<Rightarrow> gen_bitmap_32 \<Rightarrow> gen_bitmap_32 \<times> errcode" where
  "ext2fs_resize_generic_bitmap mem magic new_end new_real_end bmap =
     (if b32_magic bmap \<noteq> magic then (bmap, magic)
      else
        let bmap = (if b32_end bmap < new_end
                    then bmap\<lparr>b32_bitmap :=
                           resize_clear32 (if new_end < b32_real_end bmap then new_end
                                           else b32_real_end bmap)
                             (b32_end bmap) (b32_start bmap) (b32_bitmap bmap)\<rparr>
                    else bmap)
        in if new_real_end = b32_real_end bmap then (bmap\<lparr>b32_end := new_end\<rparr>, 0)
           else
             let size = b32_bytes bmap;
                 new_size = unat ((new_real_end - b32_start bmap) div 8 + 1)
             in case (if size \<noteq> new_size
                      then ext2fs_resize_mem mem size new_size (0, b32_bitmap bmap)
                      else Inr (0, b32_bitmap bmap)) of
                  Inl retval \<Rightarrow> (bmap, retval)
                | Inr blk \<Rightarrow>
                    (bmap\<lparr>b32_bitmap := (if size < new_size
                                         then memset (snd blk) size 0 (new_size - size)
                                         else snd blk),
                          b32_end := new_end, b32_real_end := new_real_end\<rparr>, 0))"

section \<open>Comparison and padding\<close>

text \<open>
  Loops that run while \<open>i <= end\<close> do not end when \<open>end\<close> is the largest number and nothing stops
  them earlier; the outer \<open>None\<close> is that case.
\<close>

partial_function (option) compare_tail32 :: "u32 \<Rightarrow> u32 \<Rightarrow> gen_bitmap_32 \<Rightarrow> gen_bitmap_32 \<Rightarrow> bool option" where
  "compare_tail32 i e bm1 bm2 =
     (if i \<le> e
      then if test_generic_bitmap32 bm1 i \<noteq> test_generic_bitmap32 bm2 i then Some False
           else compare_tail32 (i + 1) e bm1 bm2
      else Some True)"

definition ext2fs_compare_generic_bitmap ::
  "errcode \<Rightarrow> errcode \<Rightarrow> gen_bitmap_32 \<Rightarrow> gen_bitmap_32 \<Rightarrow> errcode option" where
  "ext2fs_compare_generic_bitmap magic neq bm1 bm2 =
     (if b32_magic bm1 \<noteq> magic then Some magic
      else if b32_magic bm2 \<noteq> magic then Some magic
      else
        let n = unat ((b32_end bm1 - b32_start bm1) div 8)
        in if b32_start bm1 \<noteq> b32_start bm2 \<or> b32_end bm1 \<noteq> b32_end bm2
              \<or> take n (b32_bitmap bm1) \<noteq> take n (b32_bitmap bm2)
           then Some neq
           else map_option (\<lambda>same. if same then 0 else neq)
                  (compare_tail32 (b32_end bm1 - (b32_end bm1 - b32_start bm1) mod 8)
                     (b32_end bm1) bm1 bm2))"

function padding_loop32 :: "u32 \<Rightarrow> u32 \<Rightarrow> u32 \<Rightarrow> u32 \<Rightarrow> u8 list \<Rightarrow> u8 list" where
  "padding_loop32 i j real_end bend arr =
     (if i \<le> real_end \<and> i > bend
      then padding_loop32 (i + 1) (j + 1) real_end bend (fst (ext2fs_set_bit j arr))
      else arr)"
  by pat_completeness auto
termination
proof (relation "measure (\<lambda>(i, j, real_end, bend, arr).
    if i \<le> real_end \<and> i > bend then Suc (unat real_end - unat i) else 0)", simp, clarsimp)
  fix i real_end bend :: u32
  assume a: "i \<le> real_end" "bend < i" "i + 1 \<le> real_end" "bend < i + 1"
  then have "i + 1 \<noteq> 0" by auto
  then have "unat (i + 1) = Suc (unat i)" by (simp add: unatSuc add.commute)
  then show "unat real_end - unat (i + 1) < unat real_end - unat i"
    using a(3) by (simp add: word_le_nat_alt)
qed

declare padding_loop32.simps [simp del]

definition ext2fs_set_generic_bitmap_padding :: "gen_bitmap_32 \<Rightarrow> gen_bitmap_32" where
  "ext2fs_set_generic_bitmap_padding bm =
     (let i = b32_end bm + 1
      in bm\<lparr>b32_bitmap := padding_loop32 i (i - b32_start bm) (b32_real_end bm) (b32_end bm)
                              (b32_bitmap bm)\<rparr>)"

section \<open>Ranges\<close>

definition range_ok32 :: "gen_bitmap_32 \<Rightarrow> u32 \<Rightarrow> u32 \<Rightarrow> bool" where
  "range_ok32 bmap start num \<longleftrightarrow> \<not> (start < b32_start bmap \<or> start + num - 1 > b32_real_end bmap)"

definition ext2fs_get_generic_bitmap_range ::
  "gen_bitmap_32 \<Rightarrow> errcode \<Rightarrow> u32 \<Rightarrow> u32 \<Rightarrow> u8 list \<Rightarrow> errcode + u8 list" where
  "ext2fs_get_generic_bitmap_range bmap magic start num out =
     (if b32_magic bmap \<noteq> magic then Inl magic
      else if \<not> range_ok32 bmap start num then Inl EXT2_ET_INVALID_ARGUMENT
      else Inr (memcpy_at out 0 (drop (unat (drop_bit 3 (start - b32_start bmap))) (b32_bitmap bmap))
                  (unat (drop_bit 3 (num + 7)))))"

definition ext2fs_set_generic_bitmap_range ::
  "gen_bitmap_32 \<Rightarrow> errcode \<Rightarrow> u32 \<Rightarrow> u32 \<Rightarrow> u8 list \<Rightarrow> errcode + gen_bitmap_32" where
  "ext2fs_set_generic_bitmap_range bmap magic start num inp =
     (if b32_magic bmap \<noteq> magic then Inl magic
      else if \<not> range_ok32 bmap start num then Inl EXT2_ET_INVALID_ARGUMENT
      else Inr (bmap\<lparr>b32_bitmap := memcpy_at (b32_bitmap bmap)
                  (unat (drop_bit 3 (start - b32_start bmap))) inp (unat (drop_bit 3 (num + 7)))\<rparr>))"

definition ext2fs_test_clear_generic_bitmap_range :: "gen_bitmap_32 \<Rightarrow> u32 \<Rightarrow> u32 \<Rightarrow> int" where
  "ext2fs_test_clear_generic_bitmap_range bitmap start len =
     test_clear_bits (b32_bitmap bitmap) (ucast (start - b32_start bitmap)) len"

text \<open>The wrong magic number is returned as the answer: a nonzero \<open>int\<close>.\<close>

definition test_range32 :: "errcode \<Rightarrow> gen_bitmap_32 \<Rightarrow> u32 \<Rightarrow> u32 \<Rightarrow> int" where
  "test_range32 magic bitmap block num =
     (if b32_magic bitmap \<noteq> magic then magic
      else if block < b32_start bitmap \<or> block > b32_real_end bitmap
              \<or> block + num - 1 > b32_real_end bitmap then 0
      else ext2fs_test_clear_generic_bitmap_range bitmap block num)"

definition ext2fs_test_block_bitmap_range :: "gen_bitmap_32 \<Rightarrow> u32 \<Rightarrow> u32 \<Rightarrow> int" where
  "ext2fs_test_block_bitmap_range = test_range32 EXT2_ET_MAGIC_BLOCK_BITMAP"

definition ext2fs_test_inode_bitmap_range :: "gen_bitmap_32 \<Rightarrow> u32 \<Rightarrow> u32 \<Rightarrow> int" where
  "ext2fs_test_inode_bitmap_range = test_range32 EXT2_ET_MAGIC_INODE_BITMAP"

partial_function (option) find_first32 :: "bool \<Rightarrow> u32 \<Rightarrow> u32 \<Rightarrow> gen_bitmap_32 \<Rightarrow> u32 option option" where
  "find_first32 want start e bitmap =
     (if start \<le> e
      then if (ext2fs_test_bit (start - b32_start bitmap) (b32_bitmap bitmap) \<noteq> 0) = want
           then Some (Some start)
           else find_first32 want (start + 1) e bitmap
      else Some None)"

definition find_first_generic_bitmap32 ::
  "bool \<Rightarrow> gen_bitmap_32 \<Rightarrow> u32 \<Rightarrow> u32 \<Rightarrow> (errcode + u32) option" where
  "find_first_generic_bitmap32 want bitmap start e =
     (if start < b32_start bitmap \<or> e > b32_end bitmap \<or> start > e then Some (Inl EINVAL)
      else map_option (\<lambda>r. case r of Some x \<Rightarrow> Inr x | None \<Rightarrow> Inl ENOENT)
             (find_first32 want start e bitmap))"

definition ext2fs_find_first_zero_generic_bitmap ::
  "gen_bitmap_32 \<Rightarrow> u32 \<Rightarrow> u32 \<Rightarrow> (errcode + u32) option" where
  "ext2fs_find_first_zero_generic_bitmap = find_first_generic_bitmap32 False"

definition ext2fs_find_first_set_generic_bitmap ::
  "gen_bitmap_32 \<Rightarrow> u32 \<Rightarrow> u32 \<Rightarrow> (errcode + u32) option" where
  "ext2fs_find_first_set_generic_bitmap = find_first_generic_bitmap32 True"

text \<open>\<open>num\<close> is an \<open>int\<close>: the loops run \<open>num\<close> times, or not at all when it is negative.\<close>

fun mark_loop32 :: "nat \<Rightarrow> u32 \<Rightarrow> u8 list \<Rightarrow> u8 list" where
  "mark_loop32 0 j arr = arr"
| "mark_loop32 (Suc n) j arr = mark_loop32 n (j + 1) (ext2fs_fast_set_bit j arr)"

fun unmark_loop32 :: "nat \<Rightarrow> u32 \<Rightarrow> u8 list \<Rightarrow> u8 list" where
  "unmark_loop32 0 j arr = arr"
| "unmark_loop32 (Suc n) j arr = unmark_loop32 n (j + 1) (ext2fs_fast_clear_bit j arr)"

definition mark_range_bad32 :: "gen_bitmap_32 \<Rightarrow> u32 \<Rightarrow> u32 \<Rightarrow> bool" where
  "mark_range_bad32 bitmap block num \<longleftrightarrow>
     block < b32_start bitmap \<or> block > b32_end bitmap \<or> block + num - 1 > b32_end bitmap"

definition ext2fs_mark_block_bitmap_range :: "gen_bitmap_32 \<Rightarrow> u32 \<Rightarrow> u32 \<Rightarrow> gen_bitmap_32" where
  "ext2fs_mark_block_bitmap_range bitmap block num =
     (if mark_range_bad32 bitmap block num then bitmap
      else bitmap\<lparr>b32_bitmap :=
             mark_loop32 (nat (sint num)) (block - b32_start bitmap) (b32_bitmap bitmap)\<rparr>)"

definition ext2fs_unmark_block_bitmap_range :: "gen_bitmap_32 \<Rightarrow> u32 \<Rightarrow> u32 \<Rightarrow> gen_bitmap_32" where
  "ext2fs_unmark_block_bitmap_range bitmap block num =
     (if mark_range_bad32 bitmap block num then bitmap
      else bitmap\<lparr>b32_bitmap :=
             unmark_loop32 (nat (sint num)) (block - b32_start bitmap) (b32_bitmap bitmap)\<rparr>)"

end
