(* ===== verification/Blkmap64_ba.thy ===== *)
theory Blkmap64_ba
  imports Gen_bitmap
begin

text \<open>
  \<^verbatim>\<open>libext2fs/blkmap64_ba.c\<close>: the bit-array back end. The private data is the byte array (with the
  address it lives at, which the searches look at for alignment); bit \<open>n - start\<close> of the array is
  the mark of number \<open>n\<close>. \<open>ba_inv\<close> is the well-formedness of such a bitmap and \<open>ba_bits\<close> its set of
  marked numbers; the operations are proved to meet \<open>bmap_backend\<close> and both search contracts.
\<close>

section \<open>Data and allocation\<close>

record ba_private =
  bitarray :: "u8 list"
  bitarray_addr :: u64

definition ba_size :: "ba_private gen_bitmap_64 \<Rightarrow> nat" where
  "ba_size bitmap = unat ((bm_real_end bitmap - bm_start bitmap) div 8 + 1)"

definition ba_alloc_private_data ::
  "allocator \<Rightarrow> ba_private gen_bitmap_64 \<Rightarrow> errcode + ba_private gen_bitmap_64" where
  "ba_alloc_private_data mem bitmap =
     (case ext2fs_get_mem mem 8 of
        Inl retval \<Rightarrow> Inl retval
      | Inr bp \<Rightarrow>
          (case ext2fs_get_mem mem (ba_size bitmap) of
             Inl retval \<Rightarrow> Inl retval
           | Inr blk \<Rightarrow>
               Inr (bitmap\<lparr>bm_private := Some \<lparr>bitarray = snd blk, bitarray_addr = fst blk\<rparr>\<rparr>)))"

definition ba_arr :: "ba_private gen_bitmap_64 \<Rightarrow> u8 list" where
  "ba_arr bitmap = bitarray (the (bm_private bitmap))"

definition ba_put :: "ba_private gen_bitmap_64 \<Rightarrow> u8 list \<Rightarrow> ba_private gen_bitmap_64" where
  "ba_put bitmap arr =
     bitmap\<lparr>bm_private := Some ((the (bm_private bitmap))\<lparr>bitarray := arr\<rparr>)\<rparr>"

definition ba_new_bmap ::
  "allocator \<Rightarrow> ba_private gen_bitmap_64 \<Rightarrow> errcode + ba_private gen_bitmap_64" where
  "ba_new_bmap mem bitmap =
     (case ba_alloc_private_data mem bitmap of
        Inl retval \<Rightarrow> Inl retval
      | Inr bitmap \<Rightarrow> Inr (ba_put bitmap (memset (ba_arr bitmap) 0 0 (ba_size bitmap))))"

definition ba_copy_bmap ::
  "allocator \<Rightarrow> ba_private gen_bitmap_64 \<Rightarrow> ba_private gen_bitmap_64
   \<Rightarrow> ba_private gen_bitmap_64 \<times> (errcode + ba_private gen_bitmap_64)" where
  "ba_copy_bmap mem src dest =
     (src,
      case ba_alloc_private_data mem dest of
        Inl retval \<Rightarrow> Inl retval
      | Inr dest \<Rightarrow> Inr (ba_put dest (memcpy_at (ba_arr dest) 0 (ba_arr src) (ba_size src))))"

text \<open>The loop of \<open>ba_resize_bmap\<close> that clears the bits from \<open>bitno\<close> down to \<open>bend + 1\<close>.\<close>

function ba_resize_clear :: "u64 \<Rightarrow> u64 \<Rightarrow> u64 \<Rightarrow> u8 list \<Rightarrow> u8 list" where
  "ba_resize_clear bitno bend start arr =
     (if bend < bitno
      then ba_resize_clear (bitno - 1) bend start (fst (ext2fs_clear_bit64 (bitno - start) arr))
      else arr)"
  by pat_completeness auto
termination
  by (relation "measure (\<lambda>(bitno, bend, start, arr). unat bitno)")
    (simp_all add: word_nat, simp add: word_less_nat_alt)

declare ba_resize_clear.simps [simp del]

definition ba_resize_bmap ::
  "allocator \<Rightarrow> ba_private gen_bitmap_64 \<Rightarrow> u64 \<Rightarrow> u64 \<Rightarrow> ba_private gen_bitmap_64 \<times> errcode" where
  "ba_resize_bmap mem bmap new_end new_real_end =
     (let bmap = (if bm_end bmap < new_end
                  then ba_put bmap
                    (ba_resize_clear
                      (if new_end < bm_real_end bmap then new_end else bm_real_end bmap)
                      (bm_end bmap) (bm_start bmap) (ba_arr bmap))
                  else bmap)
      in if new_real_end = bm_real_end bmap then (bmap\<lparr>bm_end := new_end\<rparr>, 0)
         else
           let sz = unat ((bm_real_end bmap - bm_start bmap) div 8 + 1);
               new_size = unat ((new_real_end - bm_start bmap) div 8 + 1)
           in case (if sz \<noteq> new_size
                    then ext2fs_resize_mem mem sz new_size
                           (bitarray_addr (the (bm_private bmap)), ba_arr bmap)
                    else Inr (bitarray_addr (the (bm_private bmap)), ba_arr bmap)) of
                Inl retval \<Rightarrow> (bmap, retval)
              | Inr blk \<Rightarrow>
                  (bmap\<lparr>bm_private :=
                         Some \<lparr>bitarray =
                                 (if sz < new_size then memset (snd blk) sz 0 (new_size - sz)
                                  else snd blk),
                               bitarray_addr = fst blk\<rparr>,
                        bm_end := new_end, bm_real_end := new_real_end\<rparr>, 0))"

section \<open>Marking and testing\<close>

definition ba_mark_bmap :: "ba_private gen_bitmap_64 \<Rightarrow> u64 \<Rightarrow> ba_private gen_bitmap_64 \<times> int" where
  "ba_mark_bmap bitmap arg =
     (case ext2fs_set_bit64 (arg - bm_start bitmap) (ba_arr bitmap) of
        (arr, retval) \<Rightarrow> (ba_put bitmap arr, retval))"

definition ba_unmark_bmap :: "ba_private gen_bitmap_64 \<Rightarrow> u64 \<Rightarrow> ba_private gen_bitmap_64 \<times> int" where
  "ba_unmark_bmap bitmap arg =
     (case ext2fs_clear_bit64 (arg - bm_start bitmap) (ba_arr bitmap) of
        (arr, retval) \<Rightarrow> (ba_put bitmap arr, retval))"

definition ba_test_bmap :: "ba_private gen_bitmap_64 \<Rightarrow> u64 \<Rightarrow> ba_private gen_bitmap_64 \<times> int" where
  "ba_test_bmap bitmap arg =
     (bitmap, ext2fs_test_bit64 (arg - bm_start bitmap) (ba_arr bitmap))"

function ba_set_extent_loop :: "u32 \<Rightarrow> u32 \<Rightarrow> u64 \<Rightarrow> u64 \<Rightarrow> u8 list \<Rightarrow> u8 list" where
  "ba_set_extent_loop i num bitno start arr =
     (if i < num
      then ba_set_extent_loop (i + 1) num bitno start
             (ext2fs_fast_set_bit64 (bitno + ucast i - start) arr)
      else arr)"
  by pat_completeness auto
termination
  by (relation "measure (\<lambda>(i, num, bitno, start, arr). unat num - unat i)")
    (simp_all add: word_nat, simp add: word_less_nat_alt)

function ba_clear_extent_loop :: "u32 \<Rightarrow> u32 \<Rightarrow> u64 \<Rightarrow> u64 \<Rightarrow> u8 list \<Rightarrow> u8 list" where
  "ba_clear_extent_loop i num bitno start arr =
     (if i < num
      then ba_clear_extent_loop (i + 1) num bitno start
             (ext2fs_fast_clear_bit64 (bitno + ucast i - start) arr)
      else arr)"
  by pat_completeness auto
termination
  by (relation "measure (\<lambda>(i, num, bitno, start, arr). unat num - unat i)")
    (simp_all add: word_nat, simp add: word_less_nat_alt)

declare ba_set_extent_loop.simps [simp del] ba_clear_extent_loop.simps [simp del]

definition ba_mark_bmap_extent ::
  "ba_private gen_bitmap_64 \<Rightarrow> u64 \<Rightarrow> u32 \<Rightarrow> ba_private gen_bitmap_64" where
  "ba_mark_bmap_extent bitmap arg num =
     ba_put bitmap (ba_set_extent_loop 0 num arg (bm_start bitmap) (ba_arr bitmap))"

definition ba_unmark_bmap_extent ::
  "ba_private gen_bitmap_64 \<Rightarrow> u64 \<Rightarrow> u32 \<Rightarrow> ba_private gen_bitmap_64" where
  "ba_unmark_bmap_extent bitmap arg num =
     ba_put bitmap (ba_clear_extent_loop 0 num arg (bm_start bitmap) (ba_arr bitmap))"

definition ba_test_clear_bmap_extent :: "ba_private gen_bitmap_64 \<Rightarrow> u64 \<Rightarrow> u32 \<Rightarrow> int" where
  "ba_test_clear_bmap_extent bitmap start len =
     test_clear_bits (ba_arr bitmap) (start - bm_start bitmap) len"

definition ba_set_bmap_range ::
  "ba_private gen_bitmap_64 \<Rightarrow> u64 \<Rightarrow> u64 \<Rightarrow> u8 list \<Rightarrow> ba_private gen_bitmap_64" where
  "ba_set_bmap_range bitmap start num inp =
     ba_put bitmap (memcpy_at (ba_arr bitmap) (unat (drop_bit 3 start)) inp
                      (unat (drop_bit 3 (num + 7))))"

definition ba_get_bmap_range ::
  "ba_private gen_bitmap_64 \<Rightarrow> u64 \<Rightarrow> u64 \<Rightarrow> u8 list \<Rightarrow> u8 list" where
  "ba_get_bmap_range bitmap start num out =
     memcpy_at out 0 (drop (unat (drop_bit 3 start)) (ba_arr bitmap))
       (unat (drop_bit 3 (num + 7)))"

definition ba_clear_bmap :: "ba_private gen_bitmap_64 \<Rightarrow> ba_private gen_bitmap_64" where
  "ba_clear_bmap bitmap = ba_put bitmap (memset (ba_arr bitmap) 0 0 (ba_size bitmap))"

section \<open>Searching\<close>

text \<open>
  \<open>ba_find_first_zero\<close> and \<open>ba_find_first_set\<close> are the same code for the wanted bit value
  \<open>want\<close> (\<open>False\<close> and \<open>True\<close>): single bits up to a byte boundary, bytes up to an address that is
  a multiple of 8, eight bytes at a time, bytes, and single bits again. A byte is skipped when it
  holds no wanted bit (\<open>0xff\<close> and \<open>0\<close>). \<open>pos\<close> is the index of the byte the C pointer points at.
\<close>

definition skip_byte :: "bool \<Rightarrow> u8" where
  "skip_byte want = (if want then 0 else 0xff)"

function ba_scan_align :: "bool \<Rightarrow> u8 list \<Rightarrow> u64 \<Rightarrow> u64 \<Rightarrow> u64 + u64 \<times> u64" where
  "ba_scan_align want arr bitpos count =
     (if bitpos AND 7 \<noteq> 0 \<and> 0 < count
      then if (ext2fs_test_bit64 bitpos arr \<noteq> 0) = want then Inl bitpos
           else ba_scan_align want arr (bitpos + 1) (count - 1)
      else Inr (bitpos, count))"
  by pat_completeness auto
termination
  by (relation "measure (\<lambda>(want, arr, bitpos, count). unat count)")
    (auto simp: unat_dec_less)

function ba_scan_bytes_align ::
  "bool \<Rightarrow> u8 list \<Rightarrow> u64 \<Rightarrow> nat \<Rightarrow> u64 \<Rightarrow> u64 \<Rightarrow> bool \<times> nat \<times> u64 \<times> u64" where
  "ba_scan_bytes_align want arr addr pos bitpos count =
     (if 8 \<le> count \<and> (addr + of_nat pos) AND 7 \<noteq> 0
      then if arr ! pos \<noteq> skip_byte want then (True, pos, bitpos, count)
           else ba_scan_bytes_align want arr addr (pos + 1) (bitpos + 8) (count - 8)
      else (False, pos, bitpos, count))"
  by pat_completeness auto
termination
  by (relation "measure (\<lambda>(want, arr, addr, pos, bitpos, count). unat count)")
    (simp_all add: unat_sub_no_wrap, simp add: word_le_nat_alt)

fun ba_scan_words :: "bool \<Rightarrow> u8 list \<Rightarrow> nat \<Rightarrow> nat \<Rightarrow> nat \<times> nat" where
  "ba_scan_words want arr pos 0 = (pos, 0)"
| "ba_scan_words want arr pos (Suc i) =
     (if take 8 (drop pos arr) \<noteq> replicate 8 (skip_byte want) then (pos, Suc i)
      else ba_scan_words want arr (pos + 8) i)"

fun ba_scan_bytes :: "bool \<Rightarrow> u8 list \<Rightarrow> nat \<Rightarrow> nat \<Rightarrow> nat \<times> nat" where
  "ba_scan_bytes want arr pos 0 = (pos, 0)"
| "ba_scan_bytes want arr pos (Suc i) =
     (if arr ! pos \<noteq> skip_byte want then (pos, Suc i)
      else ba_scan_bytes want arr (pos + 1) i)"

function ba_scan_bits :: "bool \<Rightarrow> u8 list \<Rightarrow> u64 \<Rightarrow> u64 \<Rightarrow> u64 option" where
  "ba_scan_bits want arr bitpos count =
     (if 0 < count
      then if (ext2fs_test_bit64 bitpos arr \<noteq> 0) = want then Some bitpos
           else ba_scan_bits want arr (bitpos + 1) (count - 1)
      else None)"
  by pat_completeness auto
termination
  by (relation "measure (\<lambda>(want, arr, bitpos, count). unat count)")
    (auto simp: unat_dec_less)

declare ba_scan_align.simps [simp del] ba_scan_bytes_align.simps [simp del]
  ba_scan_bits.simps [simp del]

text \<open>The block under \<open>if (!byte_found)\<close>: whole words, then whole bytes.\<close>

definition ba_scan_middle :: "bool \<Rightarrow> u8 list \<Rightarrow> nat \<Rightarrow> u64 \<Rightarrow> u64 \<Rightarrow> u64 \<times> u64" where
  "ba_scan_middle want arr pos bitpos count =
     (let max_loop_count = drop_bit 6 count;
          (pos, i) = ba_scan_words want arr pos (unat max_loop_count);
          count = count - 64 * (max_loop_count - of_nat i);
          bitpos = bitpos + 64 * (max_loop_count - of_nat i);
          max_loop_count = drop_bit 3 count;
          (pos, i) = ba_scan_bytes want arr pos (unat max_loop_count);
          count = count - 8 * (max_loop_count - of_nat i);
          bitpos = bitpos + 8 * (max_loop_count - of_nat i)
      in (bitpos, count))"

definition ba_find_first :: "bool \<Rightarrow> ba_private gen_bitmap_64 \<Rightarrow> u64 \<Rightarrow> u64 \<Rightarrow> errcode + u64" where
  "ba_find_first want bitmap start end =
     (let arr = ba_arr bitmap;
          bitpos = start - bm_start bitmap;
          count = end - start + 1
      in case ba_scan_align want arr bitpos count of
           Inl bitpos \<Rightarrow> Inr (bitpos + bm_start bitmap)
         | Inr (bitpos, count) \<Rightarrow>
             if count = 0 then Inl ENOENT
             else
               let (byte_found, pos, bitpos, count) =
                     ba_scan_bytes_align want arr (bitarray_addr (the (bm_private bitmap)))
                       (unat (drop_bit 3 bitpos)) bitpos count;
                   (bitpos, count) =
                     (if byte_found then (bitpos, count)
                      else ba_scan_middle want arr pos bitpos count)
               in case ba_scan_bits want arr bitpos count of
                    Some bitpos \<Rightarrow> Inr (bitpos + bm_start bitmap)
                  | None \<Rightarrow> Inl ENOENT)"

definition ba_find_first_zero :: "ba_private gen_bitmap_64 \<Rightarrow> u64 \<Rightarrow> u64 \<Rightarrow> errcode + u64" where
  "ba_find_first_zero = ba_find_first False"

definition ba_find_first_set :: "ba_private gen_bitmap_64 \<Rightarrow> u64 \<Rightarrow> u64 \<Rightarrow> errcode + u64" where
  "ba_find_first_set = ba_find_first True"

definition ext2fs_blkmap64_bitarray :: "ba_private bitmap_ops" where
  "ext2fs_blkmap64_bitarray =
     \<lparr>ops_new_bmap = ba_new_bmap, ops_copy_bmap = ba_copy_bmap, ops_resize_bmap = ba_resize_bmap,
      ops_mark_bmap = ba_mark_bmap, ops_unmark_bmap = ba_unmark_bmap, ops_test_bmap = ba_test_bmap,
      ops_mark_bmap_extent = ba_mark_bmap_extent, ops_unmark_bmap_extent = ba_unmark_bmap_extent,
      ops_test_clear_bmap_extent = ba_test_clear_bmap_extent,
      ops_set_bmap_range = ba_set_bmap_range, ops_get_bmap_range = ba_get_bmap_range,
      ops_clear_bmap = ba_clear_bmap, ops_find_first_zero = ba_find_first_zero,
      ops_find_first_set = ba_find_first_set\<rparr>"

section \<open>Well-formed bit arrays and their content\<close>

definition ba_inv :: "ba_private gen_bitmap_64 \<Rightarrow> bool" where
  "ba_inv b \<longleftrightarrow>
     bm_start b \<le> bm_end b \<and> bm_end b \<le> bm_real_end b \<and>
     unat (bm_real_end b) - unat (bm_start b) < 2 ^ 64 - 1 \<and>
     bm_private b \<noteq> None \<and> length (ba_arr b) = ba_size b"

definition ba_bits :: "ba_private gen_bitmap_64 \<Rightarrow> nat set" where
  "ba_bits b = {n \<in> bm_range b. bit_at (ba_arr b) (n - unat (bm_start b))}"

lemma ba_put_simps [simp]:
  "ba_arr (ba_put b arr) = arr"
  "bm_start (ba_put b arr) = bm_start b" "bm_end (ba_put b arr) = bm_end b"
  "bm_real_end (ba_put b arr) = bm_real_end b"
  "bm_private (ba_put b arr) \<noteq> None" "bm_hdr (ba_put b arr) = bm_hdr b"
  "ba_size (ba_put b arr) = ba_size b" "bm_range (ba_put b arr) = bm_range b"
  by (simp_all add: ba_put_def ba_arr_def ba_size_def bm_range_def)

lemma ba_size_eq:
  assumes "bm_start b \<le> bm_real_end b"
  shows "ba_size b = (unat (bm_real_end b) - unat (bm_start b)) div 8 + 1"
proof -
  have d: "unat ((bm_real_end b - bm_start b) div 8) = (unat (bm_real_end b) - unat (bm_start b)) div 8"
    using assms by (simp add: unat_div_distrib word_nat)
  moreover have "unat ((bm_real_end b - bm_start b) div 8) + unat (1 :: u64) < 2 ^ LENGTH(64)"
    unfolding d using unat_lt64 [of "bm_real_end b"] by simp
  ultimately show ?thesis unfolding ba_size_def by (subst unat_add_no_wrap) simp_all
qed

lemma ba_put_inv:
  "ba_inv b \<Longrightarrow> length arr = length (ba_arr b) \<Longrightarrow> ba_inv (ba_put b arr)"
  by (auto simp: ba_inv_def simp flip: ba_size_def)

lemma ba_offset:
  assumes "ba_inv b" "in_bmap b a"
  shows "unat (a - bm_start b) = unat a - unat (bm_start b)"
    "unat (a - bm_start b) div 8 < length (ba_arr b)"
    "unat a \<in> bm_range b" "unat (bm_start b) \<le> unat a"
proof -
  from assms have le: "bm_start b \<le> a" "a \<le> bm_real_end b" and len: "length (ba_arr b) = ba_size b"
    by (auto simp: ba_inv_def in_bmap_def)
  then show off: "unat (a - bm_start b) = unat a - unat (bm_start b)" by (simp add: word_nat)
  from le show "unat a \<in> bm_range b" "unat (bm_start b) \<le> unat a"
    by (auto simp: bm_range_def word_le_nat_alt)
  have "unat a - unat (bm_start b) \<le> unat (bm_real_end b) - unat (bm_start b)"
    using le by (simp add: word_le_nat_alt)
  then have "(unat a - unat (bm_start b)) div 8 \<le> (unat (bm_real_end b) - unat (bm_start b)) div 8"
    by (rule div_le_mono)
  moreover have "bm_start b \<le> bm_real_end b" using le by simp
  ultimately show "unat (a - bm_start b) div 8 < length (ba_arr b)"
    unfolding off len by (simp add: ba_size_eq)
qed

lemma ba_bits_iff:
  "n \<in> ba_bits b \<longleftrightarrow> n \<in> bm_range b \<and> bit_at (ba_arr b) (n - unat (bm_start b))"
  by (simp add: ba_bits_def)

lemma ba_test_iff:
  "ba_inv b \<Longrightarrow> in_bmap b a \<Longrightarrow>
   ext2fs_test_bit64 (a - bm_start b) (ba_arr b) \<noteq> 0 \<longleftrightarrow> unat a \<in> ba_bits b"
  using ba_offset [of b a] by (simp add: bitops ba_bits_iff)

lemma ba_put_bits:
  assumes "\<And>n. n \<in> bm_range b \<Longrightarrow> bit_at arr (n - unat (bm_start b)) \<longleftrightarrow> n \<in> S"
  shows "ba_bits (ba_put b arr) = bm_range b \<inter> S"
  using assms by (auto simp: ba_bits_iff)

lemma ba_mark_bmap_simps:
  "fst (ba_mark_bmap b a) = ba_put b (fst (ext2fs_set_bit64 (a - bm_start b) (ba_arr b)))"
  "snd (ba_mark_bmap b a) = ext2fs_test_bit64 (a - bm_start b) (ba_arr b)"
  "fst (ba_unmark_bmap b a) = ba_put b (fst (ext2fs_clear_bit64 (a - bm_start b) (ba_arr b)))"
  "snd (ba_unmark_bmap b a) = ext2fs_test_bit64 (a - bm_start b) (ba_arr b)"
  "fst (ba_test_bmap b a) = b" "snd (ba_test_bmap b a) = ext2fs_test_bit64 (a - bm_start b) (ba_arr b)"
  by (simp_all add: ba_mark_bmap_def ba_unmark_bmap_def ba_test_bmap_def case_prod_beta bitops)

lemma ba_same_offset:
  "ba_inv b \<Longrightarrow> in_bmap b a \<Longrightarrow> n \<in> bm_range b \<Longrightarrow>
   n - unat (bm_start b) = unat a - unat (bm_start b) \<longleftrightarrow> n = unat a"
  using ba_offset [of b a] by (auto simp: bm_range_def)

lemma ba_mark_bmap_bits:
  assumes "ba_inv b" "in_bmap b a"
  shows "ba_bits (fst (ba_mark_bmap b a)) = insert (unat a) (ba_bits b)"
  unfolding ba_mark_bmap_simps
  using ba_offset [OF assms] ba_same_offset [OF assms]
  by (subst ba_put_bits [where S = "insert (unat a) (ba_bits b)"])
    (auto simp: ba_bits_iff bit_at_set_bit64)

lemma ba_unmark_bmap_bits:
  assumes "ba_inv b" "in_bmap b a"
  shows "ba_bits (fst (ba_unmark_bmap b a)) = ba_bits b - {unat a}"
  unfolding ba_mark_bmap_simps
  using ba_offset [OF assms] ba_same_offset [OF assms]
  by (subst ba_put_bits [where S = "ba_bits b - {unat a}"])
    (auto simp: ba_bits_iff bit_at_clear_bit64)

text \<open>The loops over an extent.\<close>

lemma extent_offset:
  assumes "start \<le> a" "unat a + unat i < 2 ^ 64"
  shows "unat (a + ucast (i :: u32) - start :: u64) = unat a + unat i - unat start"
proof -
  have s: "unat (a + ucast i) = unat a + unat i"
    using assms by (simp add: unat_add_no_wrap unat_ucast32_64)
  moreover have "start \<le> a + ucast i"
    using assms s by (simp add: word_le_nat_alt)
  ultimately show ?thesis by (simp add: word_nat)
qed

lemma ba_set_extent_loop_bits:
  assumes "start \<le> a" "unat a + unat num \<le> 2 ^ 64"
    "unat a + unat num \<le> unat start + 8 * length arr"
  shows "length (ba_set_extent_loop i num a start arr) = length arr \<and>
    (bit_at (ba_set_extent_loop i num a start arr) n \<longleftrightarrow>
       bit_at arr n \<or> unat a + unat i \<le> n + unat start \<and> n + unat start < unat a + unat num)"
  using assms
proof (induction i num a start arr rule: ba_set_extent_loop.induct)
  case (1 i num a start arr)
  note [simp] = ba_set_extent_loop.simps [of i num a start arr]
  show ?case
  proof (cases "i < num")
    case False
    then show ?thesis by (auto simp: word_less_nat_alt)
  next
    case True
    then have lt: "unat i < unat num" by (simp add: word_less_nat_alt)
    have off: "unat (a + ucast i - start) = unat a + unat i - unat start"
      using "1.prems" lt by (simp add: extent_offset)
    have le: "unat start \<le> unat a" using "1.prems" by (simp add: word_le_nat_alt)
    have idx: "(unat a + unat i - unat start) div 8 < length arr"
      using "1.prems" lt le by (simp add: div_less_iff_less_mult)
    have inc: "unat (i + 1) = Suc (unat i)" using True by (rule unat_inc)
    show ?thesis
      using "1.IH" [OF True] "1.prems" True le lt idx
      by (auto simp: fast_set_bit64_eq bit_at_set_bit64 off inc)
  qed
qed

lemma ba_clear_extent_loop_bits:
  assumes "start \<le> a" "unat a + unat num \<le> 2 ^ 64"
    "unat a + unat num \<le> unat start + 8 * length arr"
  shows "length (ba_clear_extent_loop i num a start arr) = length arr \<and>
    (bit_at (ba_clear_extent_loop i num a start arr) n \<longleftrightarrow>
       bit_at arr n \<and> \<not> (unat a + unat i \<le> n + unat start \<and> n + unat start < unat a + unat num))"
  using assms
proof (induction i num a start arr rule: ba_clear_extent_loop.induct)
  case (1 i num a start arr)
  note [simp] = ba_clear_extent_loop.simps [of i num a start arr]
  show ?case
  proof (cases "i < num")
    case False
    then show ?thesis by (auto simp: word_less_nat_alt)
  next
    case True
    then have lt: "unat i < unat num" by (simp add: word_less_nat_alt)
    have off: "unat (a + ucast i - start) = unat a + unat i - unat start"
      using "1.prems" lt by (simp add: extent_offset)
    have le: "unat start \<le> unat a" using "1.prems" by (simp add: word_le_nat_alt)
    have idx: "(unat a + unat i - unat start) div 8 < length arr"
      using "1.prems" lt le by (simp add: div_less_iff_less_mult)
    have inc: "unat (i + 1) = Suc (unat i)" using True by (rule unat_inc)
    show ?thesis
      using "1.IH" [OF True] "1.prems" True le lt idx
      by (auto simp: fast_clear_bit64_eq bit_at_clear_bit64 off inc)
  qed
qed

lemma ba_extent_fits:
  assumes "ba_inv b" "extent_in_bmap b a num"
  shows "bm_start b \<le> a" "unat a + unat num \<le> 2 ^ 64"
    "unat a + unat num \<le> unat (bm_start b) + 8 * length (ba_arr b)"
proof -
  from assms have le: "bm_start b \<le> a" "unat a + unat num \<le> Suc (unat (bm_real_end b))"
    and se: "bm_start b \<le> bm_real_end b" and len: "length (ba_arr b) = ba_size b"
    by (auto simp: ba_inv_def extent_in_bmap_def)
  then show "bm_start b \<le> a" by simp
  show "unat a + unat num \<le> 2 ^ 64" using le unat_lt64 [of "bm_real_end b"] by simp
  have "unat (bm_start b) \<le> unat (bm_real_end b)" using se by (simp add: word_le_nat_alt)
  then show "unat a + unat num \<le> unat (bm_start b) + 8 * length (ba_arr b)"
    using le unfolding len ba_size_eq [OF se] by simp
qed

lemma ba_mark_extent_bits:
  assumes "ba_inv b" "extent_in_bmap b a num"
  shows "ba_bits (ba_mark_bmap_extent b a num) = ba_bits b \<union> extent_set a num"
    "ba_inv (ba_mark_bmap_extent b a num)"
proof -
  note fit = ba_extent_fits [OF assms]
  note loop = ba_set_extent_loop_bits [OF fit, of 0]
  have "n - unat (bm_start b) + unat (bm_start b) = n" if "n \<in> bm_range b" for n
    using that by (auto simp: bm_range_def)
  moreover have "extent_set a num \<subseteq> bm_range b"
    using assms fit by (auto simp: extent_in_bmap_def extent_set_def bm_range_def word_le_nat_alt)
  ultimately show "ba_bits (ba_mark_bmap_extent b a num) = ba_bits b \<union> extent_set a num"
    unfolding ba_mark_bmap_extent_def using loop
    by (subst ba_put_bits [where S = "ba_bits b \<union> extent_set a num"])
      (auto simp: ba_bits_iff extent_set_def)
  show "ba_inv (ba_mark_bmap_extent b a num)"
    unfolding ba_mark_bmap_extent_def using assms(1) loop by (intro ba_put_inv) auto
qed

lemma ba_unmark_extent_bits:
  assumes "ba_inv b" "extent_in_bmap b a num"
  shows "ba_bits (ba_unmark_bmap_extent b a num) = ba_bits b - extent_set a num"
    "ba_inv (ba_unmark_bmap_extent b a num)"
proof -
  note fit = ba_extent_fits [OF assms]
  note loop = ba_clear_extent_loop_bits [OF fit, of 0]
  have "n - unat (bm_start b) + unat (bm_start b) = n" if "n \<in> bm_range b" for n
    using that by (auto simp: bm_range_def)
  then show "ba_bits (ba_unmark_bmap_extent b a num) = ba_bits b - extent_set a num"
    unfolding ba_unmark_bmap_extent_def using loop
    by (subst ba_put_bits [where S = "ba_bits b - extent_set a num"])
      (auto simp: ba_bits_iff extent_set_def)
  show "ba_inv (ba_unmark_bmap_extent b a num)"
    unfolding ba_unmark_bmap_extent_def using assms(1) loop by (intro ba_put_inv) auto
qed

lemma ba_test_clear_iff:
  assumes "ba_inv b" "extent_in_bmap b a num"
  shows "ba_test_clear_bmap_extent b a num \<noteq> 0 \<longleftrightarrow> ba_bits b \<inter> extent_set a num = {}"
proof -
  note fit = ba_extent_fits [OF assms]
  have off: "unat (a - bm_start b) = unat a - unat (bm_start b)" and
    le: "unat (bm_start b) \<le> unat a" using fit by (simp_all add: word_nat word_le_nat_alt)
  have "ba_test_clear_bmap_extent b a num \<noteq> 0 \<longleftrightarrow>
      bits_clear (ba_arr b) (unat a - unat (bm_start b)) (unat num)"
    unfolding ba_test_clear_bmap_extent_def
    using fit le off by (subst test_clear_bits_iff) auto
  also have "\<dots> \<longleftrightarrow> ba_bits b \<inter> extent_set a num = {}"
  proof -
    have mem: "n \<in> bm_range b" if "n \<in> extent_set a num" for n
      using that assms le by (auto simp: extent_in_bmap_def extent_set_def bm_range_def)
    show ?thesis
    proof
      assume c: "bits_clear (ba_arr b) (unat a - unat (bm_start b)) (unat num)"
      have "x \<notin> ba_bits b" if "x \<in> extent_set a num" for x
      proof -
        have "unat a - unat (bm_start b) \<le> x - unat (bm_start b)"
          "x - unat (bm_start b) < unat a - unat (bm_start b) + unat num"
          using le that by (auto simp: extent_set_def)
        with c show ?thesis by (auto simp: bits_clear_def ba_bits_iff)
      qed
      then show "ba_bits b \<inter> extent_set a num = {}" by blast
    next
      assume d: "ba_bits b \<inter> extent_set a num = {}"
      show "bits_clear (ba_arr b) (unat a - unat (bm_start b)) (unat num)"
        unfolding bits_clear_def
      proof (intro allI impI)
        fix k assume k: "unat a - unat (bm_start b) \<le> k \<and> k < unat a - unat (bm_start b) + unat num"
        then have e: "k + unat (bm_start b) \<in> extent_set a num"
          using le by (auto simp: extent_set_def)
        with d have "k + unat (bm_start b) \<notin> ba_bits b" by blast
        with mem [OF e] show "\<not> bit_at (ba_arr b) k" by (auto simp: ba_bits_iff)
      qed
    qed
  qed
  finally show ?thesis .
qed

lemma bit_at_memset0:
  "n div 8 < sz \<Longrightarrow> sz \<le> length arr \<Longrightarrow> \<not> bit_at (memset arr 0 0 sz) n"
  by (simp add: bit_at_def nth_memset)

lemma ba_clear_bits:
  assumes "ba_inv b"
  shows "ba_bits (ba_clear_bmap b) = {}" "ba_inv (ba_clear_bmap b)"
proof -
  from assms have len: "length (ba_arr b) = ba_size b" and le: "bm_start b \<le> bm_real_end b"
    by (auto simp: ba_inv_def)
  have "(n - unat (bm_start b)) div 8 < ba_size b" if "n \<in> bm_range b" for n
    unfolding ba_size_eq [OF le] using that by (auto simp: bm_range_def le_imp_less_Suc div_le_mono)
  then show "ba_bits (ba_clear_bmap b) = {}"
    by (auto simp: ba_clear_bmap_def ba_bits_iff bit_at_memset0 len)
  show "ba_inv (ba_clear_bmap b)"
    unfolding ba_clear_bmap_def using assms len by (intro ba_put_inv) auto
qed

section \<open>The back-end contract\<close>

lemma ba_ops_hdr:
  "bm_hdr (fst (ba_mark_bmap b a)) = bm_hdr b" "bm_hdr (fst (ba_unmark_bmap b a)) = bm_hdr b"
  "bm_hdr (ba_mark_bmap_extent b a num) = bm_hdr b"
  "bm_hdr (ba_unmark_bmap_extent b a num) = bm_hdr b" "bm_hdr (ba_clear_bmap b) = bm_hdr b"
  by (simp_all add: ba_mark_bmap_simps ba_mark_bmap_extent_def ba_unmark_bmap_extent_def
      ba_clear_bmap_def)

lemma ba_ops_inv:
  "ba_inv b \<Longrightarrow> ba_inv (fst (ba_mark_bmap b a))" "ba_inv b \<Longrightarrow> ba_inv (fst (ba_unmark_bmap b a))"
  by (simp_all add: ba_mark_bmap_simps ba_put_inv)

interpretation ba: bmap_backend ext2fs_blkmap64_bitarray ba_inv ba_bits
  by unfold_locales
    (auto simp: ext2fs_blkmap64_bitarray_def ba_test_iff
      ba_mark_bmap_simps(2,4,5,6) ba_mark_bmap_bits ba_unmark_bmap_bits ba_mark_extent_bits
      ba_unmark_extent_bits ba_test_clear_iff ba_clear_bits ba_ops_hdr ba_ops_inv ba_bits_iff)

section \<open>The searches\<close>

definition skipped :: "bool \<Rightarrow> u8 list \<Rightarrow> nat \<Rightarrow> nat \<Rightarrow> bool" where
  "skipped want arr a b \<longleftrightarrow> (\<forall>n. a \<le> n \<and> n < b \<longrightarrow> bit_at arr n \<noteq> want)"

lemma skipped_trans:
  "skipped want arr a b \<Longrightarrow> skipped want arr b c \<Longrightarrow> skipped want arr a c"
  by (auto simp: skipped_def) (metis not_le)+

lemma skipped_refl [simp]: "b \<le> a \<Longrightarrow> skipped want arr a b"
  by (auto simp: skipped_def)

lemma skipped_Suc:
  "bit_at arr a \<noteq> want \<Longrightarrow> skipped want arr (Suc a) b \<Longrightarrow> skipped want arr a b"
  by (auto simp: skipped_def) (metis Suc_leI le_neq_implies_less)+

lemma skipped_byte:
  assumes "arr ! q = skip_byte want"
  shows "skipped want arr (8 * q) (8 * q + 8)"
proof -
  have ff: "(0xff :: u8) = mask 8" by (simp add: mask_eq_exp_minus_1)
  have "bit (skip_byte want) k \<noteq> want" if "k < 8" for k
    using that by (auto simp: skip_byte_def ff bit_mask_iff simp del: mask_numeral)
  moreover have "n div 8 = q" if "8 * q \<le> n" "n < 8 * q + 8" for n
    using that by simp
  ultimately show ?thesis using assms
    by (auto simp: skipped_def bit_at_def)
qed

lemma ba_scan_align_spec:
  assumes "unat bitpos + unat count < 2 ^ 64"
  shows "case ba_scan_align want arr bitpos count of
      Inl p \<Rightarrow> bitpos \<le> p \<and> unat p < unat bitpos + unat count \<and> bit_at arr (unat p) = want
               \<and> skipped want arr (unat bitpos) (unat p)
    | Inr (p, c) \<Rightarrow> unat p + unat c = unat bitpos + unat count \<and> bitpos \<le> p
               \<and> skipped want arr (unat bitpos) (unat p) \<and> (c = 0 \<or> unat p mod 8 = 0)"
  using assms
proof (induction want arr bitpos count rule: ba_scan_align.induct)
  case (1 want arr bitpos count)
  note unf = ba_scan_align.simps [of want arr bitpos count]
  show ?case
  proof (cases "bitpos AND 7 \<noteq> 0 \<and> 0 < count")
    case False
    have "unat (bitpos AND 7) = unat bitpos mod 8" by (simp add: word_nat)
    with False have "count = 0 \<or> unat bitpos mod 8 = 0" by (auto simp: word_gt_0)
    with False show ?thesis unfolding unf by auto
  next
    case True
    then have c: "0 < unat count" by (simp add: word_less_nat_alt)
    have p1: "unat (bitpos + 1) = Suc (unat bitpos)" using "1.prems" c
      by (subst unat_add_no_wrap) auto
    have c1: "unat (count - 1) = unat count - 1" using True by (simp add: unat_dec [of 0])
    show ?thesis
    proof (cases "bit_at arr (unat bitpos) = want")
      case hit: True
      with True c show ?thesis unfolding unf by (simp add: test_bit64_iff)
    next
      case miss: False
      then have eq: "ba_scan_align want arr bitpos count = ba_scan_align want arr (bitpos + 1) (count - 1)"
        unfolding unf using True by (simp add: test_bit64_iff)
      have "unat (bitpos + 1) + unat (count - 1) < 2 ^ 64" using "1.prems" p1 c1 c by simp
      from "1.IH" [OF True _ this] miss show ?thesis unfolding eq
        using p1 c1 c skipped_Suc [OF miss]
        by (auto simp: test_bit64_iff word_le_nat_alt split: sum.splits prod.splits)
    qed
  qed
qed

lemma ba_scan_bytes_align_spec:
  assumes "unat bitpos + unat count < 2 ^ 64" "unat bitpos = 8 * pos"
    "ba_scan_bytes_align want arr addr pos bitpos count = (f, pos', p, c)"
  shows "unat p + unat c = unat bitpos + unat count \<and> bitpos \<le> p \<and> unat p = 8 * pos'
         \<and> skipped want arr (unat bitpos) (unat p)"
  using assms
proof (induction want arr addr pos bitpos count rule: ba_scan_bytes_align.induct)
  case (1 want arr addr pos bitpos count)
  note unf = ba_scan_bytes_align.simps [of want arr addr pos bitpos count]
  show ?case
  proof (cases "8 \<le> count \<and> (addr + of_nat pos) AND 7 \<noteq> 0 \<and> arr ! pos = skip_byte want")
    case False
    with "1.prems" show ?thesis unfolding unf by (auto split: if_splits)
  next
    case True
    then have c: "8 \<le> unat count" by (simp add: word_le_nat_alt)
    have p8: "unat (bitpos + 8) = unat bitpos + 8" using "1.prems" c
      by (subst unat_add_no_wrap) auto
    have c8: "unat (count - 8) = unat count - 8" using True by (simp add: unat_sub_no_wrap)
    have eq: "ba_scan_bytes_align want arr addr pos bitpos count
        = ba_scan_bytes_align want arr addr (pos + 1) (bitpos + 8) (count - 8)"
      unfolding unf using True by simp
    have sk: "skipped want arr (unat bitpos) (unat bitpos + 8)"
      unfolding "1.prems"(2) using True by (intro skipped_byte) simp
    have "unat p + unat c = unat (bitpos + 8) + unat (count - 8) \<and> bitpos + 8 \<le> p
        \<and> unat p = 8 * pos' \<and> skipped want arr (unat (bitpos + 8)) (unat p)"
      using True "1.prems" p8 c8 c unfolding eq by (intro "1.IH") auto
    with p8 c8 c skipped_trans [OF sk] show ?thesis
      by (auto simp: word_le_nat_alt)
  qed
qed

lemma skipped_bytes:
  "(\<And>j. j < n \<Longrightarrow> arr ! (q + j) = skip_byte want) \<Longrightarrow> skipped want arr (8 * q) (8 * (q + n))"
proof (induction n)
  case (Suc n)
  have "skipped want arr (8 * (q + n)) (8 * (q + n) + 8)"
    using Suc.prems [of n] by (intro skipped_byte) simp
  moreover have "8 * (q + n) + 8 = 8 * (q + Suc n)" by simp
  ultimately show ?case using Suc.IH Suc.prems skipped_trans by (metis less_Suc_eq)
qed simp

lemma ba_scan_words_Suc:
  "take 8 (drop pos arr) = replicate 8 (skip_byte want) \<Longrightarrow>
     ba_scan_words want arr pos (Suc n) = ba_scan_words want arr (pos + 8) n"
  "take 8 (drop pos arr) \<noteq> replicate 8 (skip_byte want) \<Longrightarrow>
     ba_scan_words want arr pos (Suc n) = (pos, Suc n)"
  by (simp_all only: ba_scan_words.simps simp_thms if_True if_False)

lemma ba_scan_words_spec:
  "8 * n \<le> length arr - pos \<Longrightarrow> pos \<le> length arr \<Longrightarrow> ba_scan_words want arr pos n = (pos', i) \<Longrightarrow>
   i \<le> n \<and> pos' = pos + 8 * (n - i) \<and> skipped want arr (8 * pos) (8 * pos')"
proof (induction n arbitrary: pos)
  case 0
  then show ?case by simp
next
  case (Suc n)
  show ?case
  proof (cases "take 8 (drop pos arr) = replicate 8 (skip_byte want)")
    case True
    have "arr ! (pos + j) = skip_byte want" if "j < 8" for j
      using arg_cong [OF True, of "\<lambda>xs. xs ! j"] that Suc.prems(1,2)
      by (simp only: nth_take nth_drop nth_replicate)
    then have sk: "skipped want arr (8 * pos) (8 * (pos + 8))" by (rule skipped_bytes)
    have IH: "i \<le> n \<and> pos' = pos + 8 + 8 * (n - i) \<and> skipped want arr (8 * (pos + 8)) (8 * pos')"
      using Suc.prems unfolding ba_scan_words_Suc(1) [OF True] by (intro Suc.IH) auto
    then have "skipped want arr (8 * pos) (8 * pos')" using skipped_trans [OF sk] by blast
    with IH show ?thesis by (simp add: Suc_diff_le)
  next
    case False
    with Suc.prems show ?thesis unfolding ba_scan_words_Suc(2) [OF False] by simp
  qed
qed

lemma ba_scan_bytes_spec:
  "ba_scan_bytes want arr pos n = (pos', i) \<Longrightarrow>
   i \<le> n \<and> pos' = pos + (n - i) \<and> skipped want arr (8 * pos) (8 * pos')"
proof (induction want arr pos n rule: ba_scan_bytes.induct)
  case (2 want arr pos n)
  show ?case
  proof (cases "arr ! pos = skip_byte want")
    case True
    with "2.prems" have IH: "i \<le> n \<and> pos' = pos + 1 + (n - i) \<and> skipped want arr (8 * (pos + 1)) (8 * pos')"
      by (intro "2.IH") auto
    have "skipped want arr (8 * pos) (8 * (pos + 1))"
      using skipped_byte [OF True] by (simp add: add.commute)
    with IH have "skipped want arr (8 * pos) (8 * pos')" using skipped_trans by blast
    with IH show ?thesis by (simp add: Suc_diff_le)
  qed (use "2.prems" in auto)
qed auto

lemma ba_scan_bits_spec:
  assumes "unat bitpos + unat count < 2 ^ 64"
  shows "case ba_scan_bits want arr bitpos count of
      Some p \<Rightarrow> bitpos \<le> p \<and> unat p < unat bitpos + unat count \<and> bit_at arr (unat p) = want
               \<and> skipped want arr (unat bitpos) (unat p)
    | None \<Rightarrow> skipped want arr (unat bitpos) (unat bitpos + unat count)"
  using assms
proof (induction want arr bitpos count rule: ba_scan_bits.induct)
  case (1 want arr bitpos count)
  note unf = ba_scan_bits.simps [of want arr bitpos count]
  show ?case
  proof (cases "0 < count")
    case False
    then show ?thesis unfolding unf by (auto simp: word_less_nat_alt)
  next
    case True
    then have c: "0 < unat count" by (simp add: word_less_nat_alt)
    have p1: "unat (bitpos + 1) = Suc (unat bitpos)" using "1.prems" c
      by (subst unat_add_no_wrap) auto
    have c1: "unat (count - 1) = unat count - 1" using True by (simp add: unat_dec [of 0])
    show ?thesis
    proof (cases "bit_at arr (unat bitpos) = want")
      case hit: True
      with True c show ?thesis unfolding unf by (simp add: test_bit64_iff)
    next
      case miss: False
      then have eq: "ba_scan_bits want arr bitpos count = ba_scan_bits want arr (bitpos + 1) (count - 1)"
        unfolding unf using True by (simp add: test_bit64_iff)
      have "unat (bitpos + 1) + unat (count - 1) < 2 ^ 64" using "1.prems" p1 c1 c by simp
      from "1.IH" [OF True _ this] miss show ?thesis unfolding eq
        using p1 c1 c skipped_Suc [OF miss]
        by (auto simp: test_bit64_iff word_le_nat_alt split: option.splits)
    qed
  qed
qed

lemma step_down:
  assumes "k * unat (m :: u64) \<le> unat (count :: u64)" "i \<le> unat m" "unat bitpos + unat count < 2 ^ 64"
    "k < 2 ^ 64"
  shows "unat (count - of_nat k * (m - of_nat i)) = unat count - k * (unat m - i)"
    "unat (bitpos + of_nat k * (m - of_nat i)) = unat bitpos + k * (unat m - i)"
proof -
  have ui: "unat (of_nat i :: u64) = i"
    using assms(2) unat_lt64 [of m] by (simp add: unat_of_nat_small)
  have "unat (m - of_nat i) = unat m - i"
    using assms(2) ui by (subst unat_sub_no_wrap) (auto simp: word_le_nat_alt)
  moreover have "k * (unat m - i) < 2 ^ 64"
  proof -
    have "k * (unat m - i) \<le> k * unat m" by (rule mult_le_mono2) simp
    from order_trans [OF this assms(1)] unat_lt64 [of count] show ?thesis by simp
  qed
  ultimately have p: "unat (of_nat k * (m - of_nat i)) = k * (unat m - i)"
    using assms(4) by (simp add: unat_word_ariths unat_of_nat_small)
  have le: "k * (unat m - i) \<le> unat count" using assms(1) by (rule order_trans [rotated]) simp
  show "unat (count - of_nat k * (m - of_nat i)) = unat count - k * (unat m - i)"
    using p le by (subst unat_sub_no_wrap) (auto simp: word_le_nat_alt)
  show "unat (bitpos + of_nat k * (m - of_nat i)) = unat bitpos + k * (unat m - i)"
    using p le assms(3) by (subst unat_add_no_wrap) auto
qed

lemma unat_drop_bit_div: "unat (drop_bit k (w :: u64)) = unat w div 2 ^ k"
  by (simp add: unat_drop_bit_eq) (simp add: drop_bit_eq_div)

lemma ba_scan_middle_spec:
  assumes "unat bitpos + unat count < 2 ^ 64" "unat bitpos = 8 * pos"
    "unat bitpos + unat count \<le> 8 * length arr"
    "ba_scan_middle want arr pos bitpos count = (p, c)"
  shows "unat p + unat c = unat bitpos + unat count \<and> bitpos \<le> p
         \<and> skipped want arr (unat bitpos) (unat p)"
proof -
  define m where "m = drop_bit 6 count"
  obtain pos1 i where w: "ba_scan_words want arr pos (unat m) = (pos1, i)" by fastforce
  have um: "unat m = unat count div 64" by (simp add: m_def unat_drop_bit_div)
  have "8 * unat m \<le> length arr - pos" "pos \<le> length arr" using assms um by auto
  from ba_scan_words_spec [OF this w] have w': "i \<le> unat m" "pos1 = pos + 8 * (unat m - i)"
    "skipped want arr (8 * pos) (8 * pos1)" by auto
  define count1 where "count1 = count - 64 * (m - of_nat i)"
  define bitpos1 where "bitpos1 = bitpos + 64 * (m - of_nat i)"
  have "64 * unat m \<le> unat count" by (simp add: um)
  note sd = step_down [OF this w'(1) assms(1), simplified]
  have s1: "unat count1 = unat count - 64 * (unat m - i)" "unat bitpos1 = unat bitpos + 64 * (unat m - i)"
    using sd by (simp_all add: count1_def bitpos1_def)
  have le1: "64 * (unat m - i) \<le> unat count" using um by (simp add: diff_mult_distrib2)
  define m2 where "m2 = drop_bit 3 count1"
  have um2: "unat m2 = unat count1 div 8" by (simp add: m2_def unat_drop_bit_div)
  obtain pos2 i2 where b: "ba_scan_bytes want arr pos1 (unat m2) = (pos2, i2)" by fastforce
  from ba_scan_bytes_spec [OF b] have b': "i2 \<le> unat m2" "pos2 = pos1 + (unat m2 - i2)"
    "skipped want arr (8 * pos1) (8 * pos2)" by auto
  have sum1: "unat bitpos1 + unat count1 = unat bitpos + unat count" using s1 le1 by simp
  have "8 * unat m2 \<le> unat count1" by (simp add: um2)
  note sd2 = step_down [OF this b'(1), of bitpos1, simplified]
  have p: "p = bitpos1 + 8 * (m2 - of_nat i2)" and c: "c = count1 - 8 * (m2 - of_nat i2)"
    using assms(4) w b unfolding ba_scan_middle_def Let_def m_def [symmetric]
    by (simp_all add: count1_def bitpos1_def m2_def)
  have le2: "8 * (unat m2 - i2) \<le> unat count1" using um2 by (simp add: diff_mult_distrib2)
  have up: "unat p = unat bitpos1 + 8 * (unat m2 - i2)" "unat c = unat count1 - 8 * (unat m2 - i2)"
    unfolding p c using sd2 sum1 assms(1) by simp_all
  have "8 * pos2 = unat p" unfolding b'(2) w'(2) up(1) s1(2) assms(2) by simp
  with up sum1 le2 s1 skipped_trans [OF w'(3) b'(3)] assms(2) show ?thesis
    by (simp add: word_le_nat_alt)
qed

text \<open>
  The search in offsets: \<open>r\<close> is the offset of the first wanted bit in the \<open>cnt\<close> bits from \<open>bp\<close>.
\<close>

definition first_at :: "bool \<Rightarrow> u8 list \<Rightarrow> u64 \<Rightarrow> u64 \<Rightarrow> u64 option \<Rightarrow> bool" where
  "first_at want arr bp cnt r \<longleftrightarrow>
     (case r of
        Some p \<Rightarrow> bp \<le> p \<and> unat p < unat bp + unat cnt \<and> bit_at arr (unat p) = want
                  \<and> skipped want arr (unat bp) (unat p)
      | None \<Rightarrow> skipped want arr (unat bp) (unat bp + unat cnt))"

lemma first_at_later:
  assumes "skipped want arr (unat bp) (unat p)" "bp \<le> p" "unat p + unat c = unat bp + unat cnt"
    "first_at want arr p c r"
  shows "first_at want arr bp cnt r"
  using assms skipped_trans [OF assms(1)] by (auto simp: first_at_def split: option.splits)

lemma ba_scan_bits_first:
  "unat bp + unat cnt < 2 ^ 64 \<Longrightarrow> first_at want arr bp cnt (ba_scan_bits want arr bp cnt)"
  using ba_scan_bits_spec [of bp cnt, where want = want and arr = arr] by (simp add: first_at_def)

definition ba_search :: "bool \<Rightarrow> u8 list \<Rightarrow> u64 \<Rightarrow> u64 \<Rightarrow> u64 \<Rightarrow> u64 option" where
  "ba_search want arr addr bitpos count =
     (case ba_scan_align want arr bitpos count of
        Inl bitpos \<Rightarrow> Some bitpos
      | Inr (bitpos, count) \<Rightarrow>
          if count = 0 then None
          else
            let (byte_found, pos, bitpos, count) =
                  ba_scan_bytes_align want arr addr (unat (drop_bit 3 bitpos)) bitpos count;
                (bitpos, count) =
                  (if byte_found then (bitpos, count) else ba_scan_middle want arr pos bitpos count)
            in ba_scan_bits want arr bitpos count)"

lemma ba_find_first_search:
  "ba_find_first want b s e =
     (case ba_search want (ba_arr b) (bitarray_addr (the (bm_private b))) (s - bm_start b) (e - s + 1) of
        Some p \<Rightarrow> Inr (p + bm_start b) | None \<Rightarrow> Inl ENOENT)"
  by (simp add: ba_find_first_def ba_search_def Let_def split: sum.splits prod.splits)

lemma ba_search_first:
  assumes bound: "unat bp + unat cnt < 2 ^ 64" and fits: "unat bp + unat cnt \<le> 8 * length arr"
  shows "first_at want arr bp cnt (ba_search want arr addr bp cnt)"
proof (cases "ba_scan_align want arr bp cnt")
  case (Inl p)
  with ba_scan_align_spec [OF bound, where want = want and arr = arr] show ?thesis
    by (simp add: ba_search_def first_at_def)
next
  case (Inr pc)
  then obtain p1 c1 where a: "ba_scan_align want arr bp cnt = Inr (p1, c1)" by (cases pc) auto
  from ba_scan_align_spec [OF bound, where want = want and arr = arr] a
  have a': "unat p1 + unat c1 = unat bp + unat cnt" "bp \<le> p1"
    "skipped want arr (unat bp) (unat p1)" "c1 = 0 \<or> unat p1 mod 8 = 0" by auto
  show ?thesis
  proof (cases "c1 = 0")
    case True
    with a a' show ?thesis by (simp add: ba_search_def first_at_def)
  next
    case False
    define pos where "pos = unat (drop_bit 3 p1)"
    have pos: "unat p1 = 8 * pos" using a'(4) False by (auto simp: pos_def word_nat)
    obtain f pos' p2 c2 where by1: "ba_scan_bytes_align want arr addr pos p1 c1 = (f, pos', p2, c2)"
      by (metis prod_cases4)
    have "unat p1 + unat c1 < 2 ^ 64" using a'(1) bound by simp
    note b' = ba_scan_bytes_align_spec [OF this pos by1]
    obtain p3 c3 where m: "(if f then (p2, c2) else ba_scan_middle want arr pos' p2 c2) = (p3, c3)"
      by fastforce
    have "unat p3 + unat c3 = unat p2 + unat c2 \<and> p2 \<le> p3 \<and> skipped want arr (unat p2) (unat p3)"
      using ba_scan_middle_spec [of p2 c2 pos' arr want p3 c3] m b' a'(1) bound fits
      by (auto split: if_splits)
    with b' a' have sk: "skipped want arr (unat bp) (unat p3)" "bp \<le> p3"
      "unat p3 + unat c3 = unat bp + unat cnt"
      using skipped_trans by (blast, auto)
    have eq: "ba_search want arr addr bp cnt = ba_scan_bits want arr p3 c3"
      using a False by1 m by (simp add: ba_search_def pos_def)
    show ?thesis unfolding eq
      using sk bound by (intro first_at_later [OF sk] ba_scan_bits_first) simp
  qed
qed

lemma ba_search_window:
  assumes inv: "ba_inv b" and s: "in_bmap b s" and e: "in_bmap b e" and le: "s \<le> e"
  shows "unat (s - bm_start b) = unat s - unat (bm_start b)"
    "unat (s - bm_start b) + unat (e - s + 1) = unat e - unat (bm_start b) + 1"
    "unat (s - bm_start b) + unat (e - s + 1) < 2 ^ 64"
    "unat (s - bm_start b) + unat (e - s + 1) \<le> 8 * length (ba_arr b)"
proof -
  have les: "bm_start b \<le> s" "e \<le> bm_real_end b" "bm_start b \<le> bm_real_end b"
    using s e le by (auto simp: in_bmap_def)
  have n: "unat (bm_start b) \<le> unat s" "unat s \<le> unat e" "unat e \<le> unat (bm_real_end b)"
    using les le by (auto simp: word_le_nat_alt)
  have small: "unat (bm_real_end b) - unat (bm_start b) < 2 ^ 64 - 1" using inv by (simp add: ba_inv_def)
  show bp: "unat (s - bm_start b) = unat s - unat (bm_start b)" using les by (simp add: unat_sub_no_wrap)
  have "unat (e - s + 1) = unat e - unat s + 1"
    using le n small by (subst unat_add_no_wrap) (auto simp: unat_sub_no_wrap)
  then show total: "unat (s - bm_start b) + unat (e - s + 1) = unat e - unat (bm_start b) + 1"
    using bp n by simp
  then show "unat (s - bm_start b) + unat (e - s + 1) < 2 ^ 64" using n small by simp
  have "length (ba_arr b) = (unat (bm_real_end b) - unat (bm_start b)) div 8 + 1"
    using inv by (simp add: ba_inv_def ba_size_eq [OF les(3)])
  then show "unat (s - bm_start b) + unat (e - s + 1) \<le> 8 * length (ba_arr b)"
    unfolding total using n by simp
qed

lemma ba_find_first_spec:
  assumes "ba_inv b" "in_bmap b s" "in_bmap b e" "s \<le> e"
  shows "case ba_find_first want b s e of
      Inr x \<Rightarrow> s \<le> x \<and> x \<le> e \<and> (unat x \<in> ba_bits b) = want \<and>
              (\<forall>n. unat s \<le> n \<and> n < unat x \<longrightarrow> (n \<in> ba_bits b) \<noteq> want)
    | Inl err \<Rightarrow> err = ENOENT \<and> (\<forall>n. unat s \<le> n \<and> n \<le> unat e \<longrightarrow> (n \<in> ba_bits b) \<noteq> want)"
proof -
  define st where "st = unat (bm_start b)"
  note win = ba_search_window [OF assms, folded st_def]
  have n: "st \<le> unat s" "unat s \<le> unat e" "unat e \<le> unat (bm_real_end b)"
    using assms by (auto simp: in_bmap_def st_def word_le_nat_alt)
  have mem: "x \<in> ba_bits b \<longleftrightarrow> bit_at (ba_arr b) (x - st)" if "unat s \<le> x" "x \<le> unat e" for x
    using that n by (auto simp: ba_bits_iff bm_range_def st_def)
  have none: "(x \<in> ba_bits b) \<noteq> want"
    if "skipped want (ba_arr b) (unat s - st) m" "unat s \<le> x" "x < m + st" "x \<le> unat e" for m x
  proof -
    have "unat s - st \<le> x - st" "x - st < m" using that n by auto
    then have "bit_at (ba_arr b) (x - st) \<noteq> want" using that(1) by (auto simp: skipped_def)
    with mem [OF that(2,4)] show ?thesis by simp
  qed
  let ?r = "ba_search want (ba_arr b) (bitarray_addr (the (bm_private b))) (s - bm_start b) (e - s + 1)"
  note first = ba_search_first [OF win(3,4), of want "bitarray_addr (the (bm_private b))"]
  show ?thesis
  proof (cases ?r)
    case None
    with first win none [of "unat e - st + 1"] n show ?thesis
      by (simp add: ba_find_first_search first_at_def)
  next
    case (Some p)
    with first have p: "s - bm_start b \<le> p" "unat p < unat e - st + 1" "bit_at (ba_arr b) (unat p) = want"
      "skipped want (ba_arr b) (unat s - st) (unat p)"
      using win by (auto simp: first_at_def)
    have up: "unat (p + bm_start b) = unat p + st"
      using p(2) n unat_lt64 [of e] by (subst unat_add_no_wrap) (auto simp: st_def)
    have r: "unat s \<le> unat p + st" "unat p + st \<le> unat e"
      using p(1,2) win(1) n by (auto simp: word_le_nat_alt)
    with up mem [OF r] p none [OF p(4)] show ?thesis
      by (simp add: ba_find_first_search Some word_le_nat_alt)
  qed
qed

interpretation ba_set: bmap_find_set ext2fs_blkmap64_bitarray ba_inv ba_bits
proof unfold_locales
  fix b s e x
  assume a: "ba_inv b" "in_bmap b s" "in_bmap b e" "s \<le> e"
    "ops_find_first_set ext2fs_blkmap64_bitarray b s e = Inr x"
  with ba_find_first_spec [OF a(1-4), of True]
  show "s \<le> x \<and> x \<le> e \<and> unat x \<in> ba_bits b \<and> ba_bits b \<inter> {unat s..<unat x} = {}"
    by (auto simp: ext2fs_blkmap64_bitarray_def ba_find_first_set_def)
next
  fix b s e err
  assume a: "ba_inv b" "in_bmap b s" "in_bmap b e" "s \<le> e"
    "ops_find_first_set ext2fs_blkmap64_bitarray b s e = Inl err"
  with ba_find_first_spec [OF a(1-4), of True]
  show "err = ENOENT \<and> ba_bits b \<inter> {unat s..unat e} = {}"
    by (auto simp: ext2fs_blkmap64_bitarray_def ba_find_first_set_def)
qed

interpretation ba_zero: bmap_find_zero ext2fs_blkmap64_bitarray ba_inv ba_bits
proof unfold_locales
  fix b s e x
  assume a: "ba_inv b" "in_bmap b s" "in_bmap b e" "s \<le> e"
    "ops_find_first_zero ext2fs_blkmap64_bitarray b s e = Inr x"
  with ba_find_first_spec [OF a(1-4), of False]
  show "s \<le> x \<and> x \<le> e \<and> unat x \<notin> ba_bits b \<and> {unat s..<unat x} \<subseteq> ba_bits b"
    by (auto simp: ext2fs_blkmap64_bitarray_def ba_find_first_zero_def)
next
  fix b s e err
  assume a: "ba_inv b" "in_bmap b s" "in_bmap b e" "s \<le> e"
    "ops_find_first_zero ext2fs_blkmap64_bitarray b s e = Inl err"
  with ba_find_first_spec [OF a(1-4), of False]
  show "err = ENOENT \<and> {unat s..unat e} \<subseteq> ba_bits b"
    by (auto simp: ext2fs_blkmap64_bitarray_def ba_find_first_zero_def)
qed

end
