(* ===== verification/Blkmap64_ba_Life.thy ===== *)
theory Blkmap64_ba_Life
  imports Blkmap64_ba
begin

text \<open>
  The rest of the bit-array back end: a new bitmap is empty, a copy has the bits of its source, a
  resized one keeps the marks that fit and gets no new ones as long as no stale bit lies between the
  real end and the end of the last byte (\<open>ba_tidy\<close>); and the byte-wise range operations.
\<close>

section \<open>Creation and copying\<close>

lemma ba_alloc_Inr:
  assumes "ba_alloc_private_data mem b = Inr b'" "alloc_sized mem"
  obtains p where "b' = b\<lparr>bm_private := Some p\<rparr>" "length (bitarray p) = ba_size b"
  using assms ext2fs_get_mem_length [OF assms(2)]
  by (auto simp: ba_alloc_private_data_def split: sum.splits)

lemma ba_alloc_Inl:
  "ba_alloc_private_data mem b = Inl err \<Longrightarrow> err = EXT2_ET_NO_MEMORY \<and> \<not> never_fails mem"
  by (auto simp: ba_alloc_private_data_def split: sum.splits dest: ext2fs_get_mem_Inl)

lemma ba_private_simps [simp]:
  "ba_size (b\<lparr>bm_private := p\<rparr>) = ba_size b" "ba_arr (b\<lparr>bm_private := Some q\<rparr>) = bitarray q"
  "bm_range (b\<lparr>bm_private := p\<rparr>) = bm_range b"
  by (simp_all add: ba_size_def ba_arr_def bm_range_def)

lemma ba_inv_private:
  "bm_wf b \<Longrightarrow> length (bitarray p) = ba_size b \<Longrightarrow> ba_inv (b\<lparr>bm_private := Some p\<rparr>)"
  by (simp add: ba_inv_def bm_wf_def)

lemma ba_new_Inr:
  assumes "bm_wf b" "alloc_sized mem" "ba_new_bmap mem b = Inr b'"
  shows "ba_inv b' \<and> ba_bits b' = {} \<and> bm_hdr b' = bm_hdr b"
proof -
  obtain b1 where a: "ba_alloc_private_data mem b = Inr b1" and b': "b' = ba_clear_bmap b1"
    using assms(3) by (auto simp: ba_new_bmap_def ba_clear_bmap_def split: sum.splits)
  then obtain p where "b1 = b\<lparr>bm_private := Some p\<rparr>" "length (bitarray p) = ba_size b"
    using ba_alloc_Inr [OF _ assms(2)] by metis
  then have "ba_inv b1" "bm_hdr b1 = bm_hdr b" using ba_inv_private assms(1) by simp_all
  with b' ba_clear_bits [OF this(1)] show ?thesis by (simp add: ba_ops_hdr)
qed

lemma ba_copy_Inr:
  assumes "ba_inv src" "bm_same_geometry src dest" "alloc_sized mem"
    "ba_copy_bmap mem src dest = (src', Inr dest')"
  shows "ba_inv dest' \<and> ba_bits dest' = ba_bits src \<and> bm_hdr dest' = bm_hdr dest"
proof -
  have g: "bm_start dest = bm_start src" "bm_end dest = bm_end src" "bm_real_end dest = bm_real_end src"
    using assms(2) by (simp_all add: bm_same_geometry_def)
  then have sz: "ba_size dest = ba_size src" "bm_range dest = bm_range src"
    by (simp_all add: ba_size_def bm_range_def)
  obtain d1 where a: "ba_alloc_private_data mem dest = Inr d1"
    and d': "dest' = ba_put d1 (memcpy_at (ba_arr d1) 0 (ba_arr src) (ba_size src))"
    using assms(4) by (auto simp: ba_copy_bmap_def split: sum.splits)
  obtain p where p: "d1 = dest\<lparr>bm_private := Some p\<rparr>" "length (bitarray p) = ba_size src"
    using ba_alloc_Inr [OF a assms(3)] sz by metis
  have len: "length (ba_arr src) = ba_size src" using assms(1) by (simp add: ba_inv_def)
  then have "memcpy_at (ba_arr d1) 0 (ba_arr src) (ba_size src) = ba_arr src"
    using p by (simp add: memcpy_at_def)
  with d' p have d: "dest' = dest\<lparr>bm_private := Some (p\<lparr>bitarray := ba_arr src\<rparr>)\<rparr>"
    by (simp add: ba_put_def)
  have "bm_wf dest" using assms(1) g by (simp add: ba_inv_def bm_wf_def)
  then show ?thesis using len g sz by (simp add: d ba_inv_private ba_bits_def)
qed

lemma ba_copy_Inl: "ba_copy_bmap mem src dest = (src', Inl err) \<Longrightarrow> err = EXT2_ET_NO_MEMORY \<and> \<not> never_fails mem"
  using ba_alloc_Inl by (auto simp: ba_copy_bmap_def split: sum.splits)

lemma ba_new_Inl: "ba_new_bmap mem b = Inl err \<Longrightarrow> err = EXT2_ET_NO_MEMORY \<and> \<not> never_fails mem"
  using ba_alloc_Inl by (auto simp: ba_new_bmap_def split: sum.splits)

interpretation ba_life: bmap_lifecycle ext2fs_blkmap64_bitarray ba_inv ba_bits
  by unfold_locales
    (auto simp: ext2fs_blkmap64_bitarray_def ba_new_Inr
      dest: ba_new_Inl ba_copy_Inl ba_copy_Inr, auto simp: ba_copy_bmap_def)

section \<open>Resizing\<close>

definition ba_tidy :: "ba_private gen_bitmap_64 \<Rightarrow> bool" where
  "ba_tidy b \<longleftrightarrow> (\<forall>n \<in> {Suc (unat (bm_real_end b) - unat (bm_start b)) ..< 8 * length (ba_arr b)}.
     \<not> bit_at (ba_arr b) n)"

lemma ba_resize_clear_bits:
  assumes "start \<le> bend" "(unat hi - unat start) div 8 < length arr"
  shows "length (ba_resize_clear hi bend start arr) = length arr
    \<and> (bit_at (ba_resize_clear hi bend start arr) n \<longleftrightarrow>
         bit_at arr n \<and> \<not> (unat bend - unat start < n \<and> n \<le> unat hi - unat start))"
  using assms
proof (induction hi bend start arr rule: ba_resize_clear.induct)
  case (1 hi bend start arr)
  show ?case
  proof (cases "bend < hi")
    case False
    then show ?thesis by (subst (1 2) ba_resize_clear.simps) (auto simp: word_less_nat_alt)
  next
    case True
    let ?arr = "fst (ext2fs_clear_bit64 (hi - start) arr)"
    have h: "unat (hi - start) = unat hi - unat start" "unat (hi - 1) = unat hi - 1"
      "unat start \<le> unat bend" "unat bend < unat hi"
      using True 1(2) by (auto simp: word_nat word_less_nat_alt word_le_nat_alt unat_sub)
    have IH: "length (ba_resize_clear (hi - 1) bend start ?arr) = length arr
      \<and> (bit_at (ba_resize_clear (hi - 1) bend start ?arr) n \<longleftrightarrow>
         bit_at ?arr n \<and> \<not> (unat bend - unat start < n \<and> n \<le> unat (hi - 1) - unat start))"
      using "1.IH" [OF True 1(2)] 1(3) h by (simp add: div_le_mono le_less_trans)
    have "bit_at ?arr n \<longleftrightarrow> n \<noteq> unat hi - unat start \<and> bit_at arr n"
      using 1(3) h(1) by (simp add: bitops)
    with IH h True show ?thesis
      by (subst (1 2) ba_resize_clear.simps) auto
  qed
qed

text \<open>The first step: no mark is left between the old and the new end.\<close>

definition ba_resize_step :: "ba_private gen_bitmap_64 \<Rightarrow> u64 \<Rightarrow> u8 list" where
  "ba_resize_step b new_end =
     (if bm_end b < new_end
      then ba_resize_clear (if new_end < bm_real_end b then new_end else bm_real_end b)
             (bm_end b) (bm_start b) (ba_arr b)
      else ba_arr b)"

lemma ba_resize_step_bits:
  assumes "ba_inv b" "ba_tidy b" "n div 8 < ba_size b" "n \<le> unat new_end - unat (bm_start b)"
  shows "bit_at (ba_resize_step b new_end) n
    \<longleftrightarrow> bit_at (ba_arr b) n \<and> n \<le> unat (bm_end b) - unat (bm_start b)"
proof -
  have le: "bm_start b \<le> bm_end b" "bm_end b \<le> bm_real_end b" and len: "length (ba_arr b) = ba_size b"
    using assms(1) by (auto simp: ba_inv_def)
  have le': "bm_start b \<le> bm_real_end b" using le by (rule order.trans)
  let ?hi = "if new_end < bm_real_end b then new_end else bm_real_end b"
  have "unat ?hi - unat (bm_start b) \<le> unat (bm_real_end b) - unat (bm_start b)"
    by (auto simp: word_less_nat_alt)
  then have hi: "(unat ?hi - unat (bm_start b)) div 8 < length (ba_arr b)"
    unfolding len ba_size_eq [OF le'] by (simp add: div_le_mono le_imp_less_Suc)
  have tidy: "\<not> bit_at (ba_arr b) n" if "unat (bm_real_end b) - unat (bm_start b) < n"
    using assms(2,3) that len by (auto simp: ba_tidy_def)
  show ?thesis
  proof (cases "bm_end b < new_end")
    case True
    then show ?thesis
      using ba_resize_clear_bits [OF le(1) hi, of n] tidy assms(4)
      by (auto simp: ba_resize_step_def word_less_nat_alt split: if_split_asm)
  next
    case False
    then show ?thesis using assms(4) by (auto simp: ba_resize_step_def word_less_nat_alt)
  qed
qed

lemma ba_resize_step_length:
  assumes "ba_inv b"
  shows "length (ba_resize_step b new_end) = ba_size b"
proof -
  have le: "bm_start b \<le> bm_end b" "bm_start b \<le> bm_real_end b" and len: "length (ba_arr b) = ba_size b"
    using assms by (auto simp: ba_inv_def)
  let ?hi = "if new_end < bm_real_end b then new_end else bm_real_end b"
  have "unat ?hi - unat (bm_start b) \<le> unat (bm_real_end b) - unat (bm_start b)"
    by (auto simp: word_less_nat_alt)
  then have hi: "(unat ?hi - unat (bm_start b)) div 8 < length (ba_arr b)"
    unfolding len ba_size_eq [OF le(2)] by (simp add: div_le_mono le_imp_less_Suc)
  show ?thesis using ba_resize_clear_bits [OF le(1) hi] len by (simp add: ba_resize_step_def)
qed

text \<open>The second step: the array has the size of the new real end, new bytes are zero.\<close>

lemma ba_resize_array:
  assumes "ba_inv b" "alloc_sized mem" "ba_resize_bmap mem b new_end new_real_end = (b', 0)"
  obtains p where "b' = b\<lparr>bm_private := Some p, bm_end := new_end, bm_real_end := new_real_end\<rparr>"
    "length (bitarray p) = unat ((new_real_end - bm_start b) div 8 + 1)"
    "\<And>n. n div 8 < length (bitarray p) \<Longrightarrow>
       bit_at (bitarray p) n \<longleftrightarrow> n div 8 < ba_size b \<and> bit_at (ba_resize_step b new_end) n"
proof -
  define b1 where "b1 = (if bm_end b < new_end
      then ba_put b (ba_resize_clear (if new_end < bm_real_end b then new_end else bm_real_end b)
             (bm_end b) (bm_start b) (ba_arr b))
      else b)"
  have b1: "ba_arr b1 = ba_resize_step b new_end" "bm_real_end b1 = bm_real_end b"
    "bm_start b1 = bm_start b" "bm_private b1 \<noteq> None"
    "b1\<lparr>bm_private := q\<rparr> = b\<lparr>bm_private := q\<rparr>" for q
    using assms(1) by (auto simp: b1_def ba_resize_step_def ba_put_def ba_inv_def)
  define sz where "sz = unat ((bm_real_end b1 - bm_start b1) div 8 + 1)"
  define new_size where "new_size = unat ((new_real_end - bm_start b1) div 8 + 1)"
  let ?old = "(bitarray_addr (the (bm_private b1)), ba_arr b1)"
  have len: "length (ba_arr b1) = sz" using ba_resize_step_length [OF assms(1)] b1
    by (simp add: ba_size_def sz_def)
  have res: "ba_resize_bmap mem b new_end new_real_end =
      (if new_real_end = bm_real_end b1 then (b1\<lparr>bm_end := new_end\<rparr>, 0)
       else case (if sz \<noteq> new_size then ext2fs_resize_mem mem sz new_size ?old else Inr ?old) of
              Inl retval \<Rightarrow> (b1, retval)
            | Inr blk \<Rightarrow>
                (b1\<lparr>bm_private := Some \<lparr>bitarray = (if sz < new_size then memset (snd blk) sz 0 (new_size - sz)
                                                     else snd blk), bitarray_addr = fst blk\<rparr>,
                        bm_end := new_end, bm_real_end := new_real_end\<rparr>, 0))"
    unfolding ba_resize_bmap_def Let_def sz_def new_size_def b1_def by (rule refl)
  show thesis
  proof (cases "new_real_end = bm_real_end b")
    case True
    then have "b' = b1\<lparr>bm_end := new_end\<rparr>" using res assms(3) b1(2) by simp
    then have "b' = b1\<lparr>bm_private := Some (the (bm_private b1)), bm_end := new_end, bm_real_end := new_real_end\<rparr>"
      using True b1(2,4) by (cases b1) auto
    with b1 len True show thesis
      by (intro that [of "the (bm_private b1)"]) (auto simp: ba_arr_def sz_def ba_size_def)
  next
    case False
    define r where "r = (if sz \<noteq> new_size then ext2fs_resize_mem mem sz new_size ?old else Inr ?old)"
    have nz: "r = Inl err \<Longrightarrow> err \<noteq> 0" for err
      by (auto simp: r_def dest: ext2fs_resize_mem_Inl split: if_splits)
    from False nz obtain blk where blk: "r = Inr blk"
      and b': "b' = b1\<lparr>bm_private := Some \<lparr>bitarray = (if sz < new_size then memset (snd blk) sz 0 (new_size - sz)
             else snd blk), bitarray_addr = fst blk\<rparr>, bm_end := new_end, bm_real_end := new_real_end\<rparr>"
      using res [folded r_def] assms(3) b1(2) by (cases r) simp_all
    from blk have blk: "(if sz \<noteq> new_size then ext2fs_resize_mem mem sz new_size ?old else Inr ?old) = Inr blk"
      by (simp only: r_def)
    have "length (snd blk) = new_size \<and> take (min sz new_size) (snd blk) = take (min sz new_size) (ba_arr b1)"
    proof (cases "sz = new_size")
      case True
      then have "blk = ?old" using blk by simp
      with True len show ?thesis by simp
    next
      case False
      then have "ext2fs_resize_mem mem sz new_size ?old = Inr blk" using blk by simp
      from ext2fs_resize_mem_Inr [OF assms(2) this] len show ?thesis by simp
    qed
    then have l: "length (snd blk) = new_size"
      and nth: "i < sz \<Longrightarrow> i < new_size \<Longrightarrow> snd blk ! i = ba_arr b1 ! i" for i
      by (simp_all, metis min_less_iff_conj nth_take)
    define arr where "arr = (if sz < new_size then memset (snd blk) sz 0 (new_size - sz) else snd blk)"
    have la: "length arr = new_size" using l by (simp add: arr_def)
    have na: "arr ! i = (if i < sz then ba_arr b1 ! i else 0)" if "i < new_size" for i
      using l nth that by (simp add: arr_def nth_memset)
    have sizes: "sz = ba_size b" "new_size = unat ((new_real_end - bm_start b) div 8 + 1)"
      using b1 by (simp_all add: sz_def new_size_def ba_size_def)
    show thesis
    proof (rule that [of "\<lparr>bitarray = arr, bitarray_addr = fst blk\<rparr>"])
      show "b' = b\<lparr>bm_private := Some \<lparr>bitarray = arr, bitarray_addr = fst blk\<rparr>,
          bm_end := new_end, bm_real_end := new_real_end\<rparr>"
        unfolding b' arr_def by (simp only: b1(5))
    qed (simp_all add: la sizes(2) [symmetric] sizes(1) [symmetric] bit_at_def na b1(1))
  qed
qed

lemma ba_resize_spec:
  assumes "ba_inv b" "ba_tidy b" "alloc_sized mem" "bm_start b \<le> new_end" "new_end \<le> new_real_end"
    "unat new_real_end - unat (bm_start b) < 2 ^ 64 - 1"
    "ba_resize_bmap mem b new_end new_real_end = (b', 0)"
  shows "ba_inv b'" "bm_start b' = bm_start b" "bm_end b' = new_end" "bm_real_end b' = new_real_end"
    "ba_bits b' \<inter> {.. unat new_end} = ba_bits b \<inter> {.. min (unat (bm_end b)) (unat new_end)}"
proof -
  obtain p where b': "b' = b\<lparr>bm_private := Some p, bm_end := new_end, bm_real_end := new_real_end\<rparr>"
    and len: "length (bitarray p) = unat ((new_real_end - bm_start b) div 8 + 1)"
    and bits: "\<And>n. n div 8 < length (bitarray p) \<Longrightarrow>
       bit_at (bitarray p) n \<longleftrightarrow> n div 8 < ba_size b \<and> bit_at (ba_resize_step b new_end) n"
    by (rule ba_resize_array [OF assms(1,3,7)]) blast
  show "bm_start b' = bm_start b" "bm_end b' = new_end" "bm_real_end b' = new_real_end"
    by (simp_all add: b')
  have arr: "ba_arr b' = bitarray p" "length (bitarray p) = ba_size b'"
    by (simp_all add: b' ba_arr_def ba_size_def len)
  then show inv: "ba_inv b'" using assms(4-6) by (simp add: ba_inv_def b')
  have le: "bm_start b \<le> new_real_end" "bm_start b \<le> bm_end b" "bm_end b \<le> bm_real_end b"
    using assms(1,4,5) by (auto simp: ba_inv_def)
  then have le': "bm_start b \<le> bm_real_end b" by simp
  note sz = ba_size_eq [OF le'] ba_size_eq [of b', unfolded b', simplified, OF le(1), folded b']
  have "n \<in> ba_bits b' \<longleftrightarrow> n \<in> ba_bits b \<and> n \<le> unat (bm_end b)"
    if "unat (bm_start b) \<le> n" "n \<le> unat new_end" for n
  proof -
    define m where "m = n - unat (bm_start b)"
    have m: "m \<le> unat new_end - unat (bm_start b)" using that by (simp add: m_def)
    have "m div 8 < length (bitarray p)"
      using that assms(5) unfolding arr(2) sz m_def
      by (simp add: less_Suc_eq_le div_le_mono word_le_nat_alt)
    from bits [OF this] have "bit_at (bitarray p) m \<longleftrightarrow> m div 8 < ba_size b \<and> bit_at (ba_arr b) m \<and> n \<le> unat (bm_end b)"
      using ba_resize_step_bits [OF assms(1,2) _ m] that(1) le by (auto simp: m_def word_le_nat_alt)
    moreover have "n \<le> unat (bm_end b) \<Longrightarrow> m div 8 < ba_size b"
      using le(3) unfolding sz m_def
      by (simp add: less_Suc_eq_le div_le_mono word_le_nat_alt)
    moreover have "n \<in> bm_range b'"
      using that assms(5) by (simp add: bm_range_def b' word_le_nat_alt)
    then have "n \<in> ba_bits b' \<longleftrightarrow> bit_at (bitarray p) m"
      unfolding ba_bits_def arr(1) by (simp add: m_def b')
    moreover have "n \<in> ba_bits b \<longleftrightarrow> n \<le> unat (bm_real_end b) \<and> bit_at (ba_arr b) m"
      using that(1) by (simp add: ba_bits_def bm_range_def m_def)
    moreover have "n \<le> unat (bm_end b) \<Longrightarrow> n \<le> unat (bm_real_end b)"
      using le(3) by (simp add: word_le_nat_alt)
    ultimately show ?thesis by blast
  qed
  note key = this
  have low: "unat (bm_start b) \<le> n" if "n \<in> ba_bits b \<or> n \<in> ba_bits b'" for n
    using that by (auto simp: ba_bits_def bm_range_def b')
  show "ba_bits b' \<inter> {.. unat new_end} = ba_bits b \<inter> {.. min (unat (bm_end b)) (unat new_end)}"
  proof (rule set_eqI)
    fix n
    show "n \<in> ba_bits b' \<inter> {.. unat new_end}
        \<longleftrightarrow> n \<in> ba_bits b \<inter> {.. min (unat (bm_end b)) (unat new_end)}"
      using key [of n] low [of n] by (cases "unat (bm_start b) \<le> n"; cases "n \<le> unat new_end"; auto)
  qed
qed

text \<open>What the array holds after a resize, bit by bit, stale bits included.\<close>

lemma ba_resize_inv:
  assumes "ba_inv b" "alloc_sized mem" "bm_start b \<le> e" "e \<le> r" "unat r - unat (bm_start b) < 2 ^ 64 - 1"
    "ba_resize_bmap mem b e r = (b', 0)"
  shows "ba_inv b'" "bm_start b' = bm_start b" "bm_end b' = e" "bm_real_end b' = r"
    "\<And>n. n \<in> ba_bits b' \<longleftrightarrow> n \<in> {unat (bm_start b) .. unat r} \<and> (n - unat (bm_start b)) div 8 < ba_size b
       \<and> bit_at (ba_resize_step b e) (n - unat (bm_start b))"
proof -
  obtain p where b': "b' = b\<lparr>bm_private := Some p, bm_end := e, bm_real_end := r\<rparr>"
    and len: "length (bitarray p) = unat ((r - bm_start b) div 8 + 1)"
    and bits: "\<And>n. n div 8 < length (bitarray p) \<Longrightarrow>
      bit_at (bitarray p) n \<longleftrightarrow> n div 8 < ba_size b \<and> bit_at (ba_resize_step b e) n"
    using ba_resize_array [OF assms(1,2,6)] by blast
  show f: "bm_start b' = bm_start b" "bm_end b' = e" "bm_real_end b' = r" by (simp_all add: b')
  have arr: "ba_arr b' = bitarray p" by (simp add: b' ba_arr_def)
  show "ba_inv b'" using assms(3-5) len by (auto simp: ba_inv_def ba_size_def arr f) (simp add: b')
  have le: "bm_start b' \<le> bm_real_end b'" using assms(3,4) by (simp add: f)
  have sz: "length (bitarray p) = (unat r - unat (bm_start b)) div 8 + 1"
    using len ba_size_eq [OF le] by (simp add: ba_size_def f)
  show "n \<in> ba_bits b' \<longleftrightarrow> n \<in> {unat (bm_start b) .. unat r} \<and> (n - unat (bm_start b)) div 8 < ba_size b
       \<and> bit_at (ba_resize_step b e) (n - unat (bm_start b))" for n
  proof (cases "n \<in> {unat (bm_start b) .. unat r}")
    case True
    then have "(n - unat (bm_start b)) div 8 < length (bitarray p)"
      unfolding sz by (auto simp: less_Suc_eq_le intro!: div_le_mono diff_le_mono)
    from bits [OF this] True show ?thesis by (simp add: ba_bits_iff bm_range_def f arr)
  next
    case False
    then show ?thesis by (auto simp: ba_bits_iff bm_range_def f)
  qed
qed

text \<open>
  Shrinking clears nothing above the new end, and growing clears only above the old end of the
  array's own bounds: a mark that shares the last byte comes back.
\<close>

lemma ba_resize_stale:
  assumes "ba_inv b" "alloc_sized mem" "bm_start b \<le> e" "e < x" "x \<le> y" "x \<le> bm_end b"
    "(unat x - unat (bm_start b)) div 8 = (unat e - unat (bm_start b)) div 8"
    "unat y - unat (bm_start b) < 2 ^ 64 - 1"
    "ba_resize_bmap mem b e e = (b1, 0)" "ba_resize_bmap mem b1 y y = (b2, 0)"
  shows "ba_inv b1" "bm_end b1 = e" "unat x \<notin> ba_bits b1"
    "ba_inv b2" "bm_end b2 = y" "unat x \<in> ba_bits b2 \<longleftrightarrow> unat x \<in> ba_bits b"
proof -
  define st where "st = unat (bm_start b)"
  have n: "st \<le> unat e" "unat e < unat x" "unat x \<le> unat y" "unat x \<le> unat (bm_end b)"
    using assms(3-6) by (simp_all add: st_def word_le_nat_alt word_less_nat_alt)
  have be: "\<not> bm_end b < e" using n by (simp add: word_less_nat_alt)
  have bi: "bm_start b \<le> bm_real_end b" "unat (bm_end b) \<le> unat (bm_real_end b)"
    using assms(1) by (auto simp: ba_inv_def word_le_nat_alt)
  have le: "unat e - unat (bm_start b) < 2 ^ 64 - 1" using n assms(8) by (simp add: st_def)
  note r1 = ba_resize_inv [OF assms(1-3) order_refl le assms(9)]
  have ey: "bm_start b1 \<le> y" using n by (simp add: r1(2) word_le_nat_alt st_def)
  have ly: "unat y - unat (bm_start b1) < 2 ^ 64 - 1" using assms(8) by (simp add: r1(2))
  note r2 = ba_resize_inv [OF r1(1) assms(2) ey order_refl ly assms(10)]
  show "ba_inv b1" "bm_end b1 = e" "ba_inv b2" "bm_end b2 = y" using r1 r2 by simp_all
  show "unat x \<notin> ba_bits b1" using n by (simp add: r1(5))
  have s1: "ba_size b1 = (unat e - st) div 8 + 1"
    using ba_size_eq [of b1] assms(3) by (simp add: r1 st_def)
  have len1: "length (ba_arr b1) = ba_size b1" using r1(1) by (simp add: ba_inv_def)
  have q: "(unat x - st) div 8 < ba_size b1" using assms(7) s1 by (simp add: st_def)
  have "(unat x - st) div 8 \<le> (unat (bm_real_end b) - st) div 8" using n bi by (intro div_le_mono) simp
  then have q0: "(unat x - st) div 8 < ba_size b" using ba_size_eq [OF bi(1)] by (simp add: st_def)
  have "ba_resize_step b1 y = ba_arr b1 \<or> ba_resize_step b1 y = ba_resize_clear e e (bm_start b) (ba_arr b1)"
    using n by (auto simp: ba_resize_step_def r1 word_less_nat_alt)
  then have "bit_at (ba_resize_step b1 y) (unat x - st) \<longleftrightarrow> bit_at (ba_arr b1) (unat x - st)"
    by (auto simp: ba_resize_clear.simps)
  moreover obtain p where p: "b1 = b\<lparr>bm_private := Some p, bm_end := e, bm_real_end := e\<rparr>"
    and "\<And>n. n div 8 < length (bitarray p) \<Longrightarrow>
      bit_at (bitarray p) n \<longleftrightarrow> n div 8 < ba_size b \<and> bit_at (ba_resize_step b e) n"
    using ba_resize_array [OF assms(1,2,9)] by blast
  then have "bit_at (ba_arr b1) (unat x - st) \<longleftrightarrow> bit_at (ba_arr b) (unat x - st)"
    using q q0 len1 by (simp add: ba_arr_def ba_resize_step_def be)
  ultimately show "unat x \<in> ba_bits b2 \<longleftrightarrow> unat x \<in> ba_bits b"
    using n q q0 bi by (simp only: r2(5) r1(2)) (simp add: ba_bits_iff bm_range_def st_def)
qed

section \<open>Ranges\<close>

text \<open>
  The range operations address bytes from the absolute number \<open>start >> 3\<close>. For a bitmap that
  starts below 8 and a range that starts a whole number of bytes after it, that is the byte of the
  bit \<open>start\<close>.
\<close>

definition byte_aligned :: "'p gen_bitmap_64 \<Rightarrow> u64 \<Rightarrow> bool" where
  "byte_aligned b start \<longleftrightarrow> unat (bm_start b) < 8 \<and> bm_start b \<le> start
     \<and> (unat start - unat (bm_start b)) mod 8 = 0"

lemma byte_aligned_offset:
  assumes "byte_aligned b start"
  shows "8 * unat (drop_bit 3 start) = unat start - unat (bm_start b)"
proof -
  have "unat start = (unat start - unat (bm_start b)) + unat (bm_start b)"
    using assms by (auto simp: byte_aligned_def word_le_nat_alt)
  moreover obtain k where "unat start - unat (bm_start b) = 8 * k"
    using assms by (auto simp: byte_aligned_def)
  ultimately show ?thesis using assms by (simp add: word_nat byte_aligned_def)
qed

lemma unat_bytes:
  assumes "unat num < 2 ^ 64 - 8"
  shows "unat (drop_bit 3 (num + 7 :: u64)) = (unat num + 7) div 8"
  using assms by (simp add: word_nat unat_add_no_wrap)

lemma bit_at_memcpy:
  assumes "off + k \<le> length dst" "k \<le> length src" "n div 8 < length dst"
  shows "bit_at (memcpy_at dst off src k) n \<longleftrightarrow>
    (if 8 * off \<le> n \<and> n < 8 * (off + k) then bit_at src (n - 8 * off) else bit_at dst n)"
proof -
  have "off \<le> n div 8 \<longleftrightarrow> 8 * off \<le> n" "n div 8 < off + k \<longleftrightarrow> n < 8 * (off + k)"
    by (simp_all add: less_eq_div_iff_mult_less_eq div_less_iff_less_mult mult.commute)
  moreover have "(n - 8 * off) div 8 = n div 8 - off \<and> (n - 8 * off) mod 8 = n mod 8" if le: "8 * off \<le> n"
  proof -
    obtain m where "n = 8 * off + m" using le_Suc_ex [OF le] by blast
    then show ?thesis by simp
  qed
  ultimately show ?thesis
    by (cases "8 * off \<le> n \<and> n < 8 * (off + k)")
      (simp_all only: bit_at_def nth_memcpy_at [OF assms] if_True if_False simp_thms)
qed

lemma ba_get_range_bits:
  assumes "ba_inv b" "byte_aligned b start" "unat num < 2 ^ 64 - 8" "i < unat num"
    "unat start + unat num \<le> Suc (unat (bm_real_end b))" "unat (drop_bit 3 (num + 7)) \<le> length out"
  shows "bit_at (ba_get_bmap_range b start num out) i \<longleftrightarrow> unat start + i \<in> ba_bits b"
proof -
  have le: "bm_start b \<le> bm_real_end b" "bm_start b \<le> start" and len: "length (ba_arr b) = ba_size b"
    using assms(1,2) by (auto simp: ba_inv_def byte_aligned_def)
  define off where "off = unat (drop_bit 3 start)"
  define k where "k = unat (drop_bit 3 (num + 7))"
  have off: "8 * off = unat start - unat (bm_start b)"
    unfolding off_def by (rule byte_aligned_offset [OF assms(2)])
  have k: "k = (unat num + 7) div 8" unfolding k_def by (rule unat_bytes [OF assms(3)])
  have fits: "off + k \<le> ba_size b"
    using off k assms(4,5) le unfolding ba_size_eq [OF le(1)] word_le_nat_alt by linarith
  have "i div 8 < k" using k assms(4) by linarith
  then have "bit_at (ba_get_bmap_range b start num out) i \<longleftrightarrow> bit_at (drop off (ba_arr b)) i"
    using bit_at_memcpy [of 0 k out "drop off (ba_arr b)" i] assms(6) fits len
    by (simp add: ba_get_bmap_range_def off_def [symmetric] k_def [symmetric] div_less_iff_less_mult mult.commute)
  also have "\<dots> \<longleftrightarrow> bit_at (ba_arr b) (8 * off + i)"
    using fits len \<open>i div 8 < k\<close> by (simp add: bit_at_def)
  also have "8 * off + i = unat start + i - unat (bm_start b)"
    using off le(2) by (simp add: word_le_nat_alt)
  also have "bit_at (ba_arr b) (unat start + i - unat (bm_start b)) \<longleftrightarrow> unat start + i \<in> ba_bits b"
    using assms(4,5) le(2) by (simp add: ba_bits_def bm_range_def word_le_nat_alt)
  finally show ?thesis .
qed

text \<open>Setting a range writes whole bytes: up to seven numbers after the range are overwritten too.\<close>

lemma ba_set_range_bits:
  assumes "ba_inv b" "byte_aligned b start" "unat num < 2 ^ 64 - 8" "0 < unat num"
    "unat start + unat num \<le> Suc (unat (bm_real_end b))" "unat (drop_bit 3 (num + 7)) \<le> length inp"
    "n \<in> bm_range b"
  shows "ba_inv (ba_set_bmap_range b start num inp)"
    "n \<in> ba_bits (ba_set_bmap_range b start num inp) \<longleftrightarrow>
       (if unat start \<le> n \<and> n < unat start + 8 * ((unat num + 7) div 8)
        then bit_at inp (n - unat start) else n \<in> ba_bits b)"
proof -
  have le: "bm_start b \<le> bm_real_end b" "bm_start b \<le> start" and len: "length (ba_arr b) = ba_size b"
    using assms(1,2) by (auto simp: ba_inv_def byte_aligned_def)
  define off where "off = unat (drop_bit 3 start)"
  define k where "k = unat (drop_bit 3 (num + 7))"
  have off: "8 * off = unat start - unat (bm_start b)"
    unfolding off_def by (rule byte_aligned_offset [OF assms(2)])
  have k: "k = (unat num + 7) div 8" unfolding k_def by (rule unat_bytes [OF assms(3)])
  have fits: "off + k \<le> ba_size b"
    using off k assms(4,5) le unfolding ba_size_eq [OF le(1)] word_le_nat_alt by linarith
  have arr: "ba_set_bmap_range b start num inp = ba_put b (memcpy_at (ba_arr b) off inp k)"
    by (simp add: ba_set_bmap_range_def off_def k_def)
  show "ba_inv (ba_set_bmap_range b start num inp)"
    unfolding arr using assms(1,6) fits len by (intro ba_put_inv) (auto simp: k_def)
  define m where "m = n - unat (bm_start b)"
  have m: "m div 8 < length (ba_arr b)" "n = unat (bm_start b) + m"
    using assms(7) unfolding len ba_size_eq [OF le(1)] m_def
    by (auto simp: bm_range_def less_Suc_eq_le div_le_mono)
  have "n \<in> ba_bits (ba_set_bmap_range b start num inp) \<longleftrightarrow> bit_at (memcpy_at (ba_arr b) off inp k) m"
    using assms(7) by (simp add: arr ba_bits_def m_def)
  also have "\<dots> \<longleftrightarrow> (if 8 * off \<le> m \<and> m < 8 * (off + k) then bit_at inp (m - 8 * off) else bit_at (ba_arr b) m)"
    using fits len assms(6) by (intro bit_at_memcpy m(1)) (simp_all add: k_def)
  also have "8 * off \<le> m \<and> m < 8 * (off + k) \<longleftrightarrow> unat start \<le> n \<and> n < unat start + 8 * k"
  proof -
    have "unat start = unat (bm_start b) + 8 * off" using off le(2) unfolding word_le_nat_alt by linarith
    then show ?thesis unfolding m(2) by (simp add: algebra_simps)
  qed
  also have "bit_at (ba_arr b) m \<longleftrightarrow> n \<in> ba_bits b"
    using assms(7) by (simp add: ba_bits_def m_def)
  also have "m - 8 * off = n - unat start"
    using off le(2) m(2) by (simp add: word_le_nat_alt)
  finally show "n \<in> ba_bits (ba_set_bmap_range b start num inp) \<longleftrightarrow>
       (if unat start \<le> n \<and> n < unat start + 8 * ((unat num + 7) div 8)
        then bit_at inp (n - unat start) else n \<in> ba_bits b)"
    by (simp add: k)
qed

end
