(* ===== verification/Rbtree.thy ===== *)
theory Rbtree
  imports Main
begin

text \<open>
  \<^verbatim>\<open>libext2fs/rbtree.c\<close>: the red-black tree of the extent bitmaps. C nodes carry a pointer to their
  parent; the model is a coloured tree, and a pointer to a node is the node's subtree with the path
  of crumbs up to the root (its parent chain), so that following \<open>rb_parent\<close> is taking a crumb
  off the path. The payload of a node stands for the structure that embeds the \<open>rb_node\<close>; it keeps
  its identity when nodes are relinked, as the C pointers do.

  Where the C code would follow a null pointer (a red root, a missing sibling) the model stops and
  returns the tree as it is; \<open>rbt_insert_color\<close> and \<open>rbt_erase\<close> show that this does not happen in a
  red-black tree.
\<close>

section \<open>Trees, parent chains, rotations\<close>

datatype rb_color = RB_RED | RB_BLACK

datatype 'a rbtree = Leaf | Node rb_color "'a rbtree" 'a "'a rbtree"

datatype 'a crumb =
    LeftOf rb_color 'a "'a rbtree"
  | RightOf rb_color "'a rbtree" 'a

fun rb_plug :: "'a crumb \<Rightarrow> 'a rbtree \<Rightarrow> 'a rbtree" where
  "rb_plug (LeftOf c x r) t = Node c t x r"
| "rb_plug (RightOf c l x) t = Node c l x t"

fun rb_zip :: "'a crumb list \<Rightarrow> 'a rbtree \<Rightarrow> 'a rbtree" where
  "rb_zip [] t = t"
| "rb_zip (k # path) t = rb_zip path (rb_plug k t)"

fun crumb_color :: "'a crumb \<Rightarrow> rb_color" where
  "crumb_color (LeftOf c x r) = c"
| "crumb_color (RightOf c l x) = c"

fun rb_is_red :: "'a rbtree \<Rightarrow> bool" where
  "rb_is_red Leaf = False"
| "rb_is_red (Node c l x r) = (c = RB_RED)"

fun rb_set_black :: "'a rbtree \<Rightarrow> 'a rbtree" where
  "rb_set_black Leaf = Leaf"
| "rb_set_black (Node c l x r) = Node RB_BLACK l x r"

fun rb_set_red :: "'a rbtree \<Rightarrow> 'a rbtree" where
  "rb_set_red Leaf = Leaf"
| "rb_set_red (Node c l x r) = Node RB_RED l x r"

fun rb_set_color :: "'a rbtree \<Rightarrow> rb_color \<Rightarrow> 'a rbtree" where
  "rb_set_color Leaf c' = Leaf"
| "rb_set_color (Node c l x r) c' = Node c' l x r"

fun rb_blacken_right :: "'a rbtree \<Rightarrow> 'a rbtree" where
  "rb_blacken_right Leaf = Leaf"
| "rb_blacken_right (Node c l x r) = Node c l x (rb_set_black r)"

fun rb_blacken_left :: "'a rbtree \<Rightarrow> 'a rbtree" where
  "rb_blacken_left Leaf = Leaf"
| "rb_blacken_left (Node c l x r) = Node c (rb_set_black l) x r"

fun rb_rotate_left :: "'a rbtree \<Rightarrow> 'a rbtree" where
  "rb_rotate_left (Node c l x (Node c' rl y rr)) = Node c' (Node c l x rl) y rr"
| "rb_rotate_left t = t"

fun rb_rotate_right :: "'a rbtree \<Rightarrow> 'a rbtree" where
  "rb_rotate_right (Node c (Node c' ll y lr) x r) = Node c' ll y (Node c lr x r)"
| "rb_rotate_right t = t"

section \<open>Insertion\<close>

text \<open>\<open>ext2fs_rb_link_node\<close> hangs a red node without children at the place the search ended.\<close>

definition ext2fs_rb_link_node :: "'a \<Rightarrow> 'a rbtree" where
  "ext2fs_rb_link_node x = Node RB_RED Leaf x Leaf"

fun ext2fs_rb_insert_color :: "'a rbtree \<Rightarrow> 'a crumb list \<Rightarrow> 'a rbtree" where
  "ext2fs_rb_insert_color node [] = rb_set_black node"
| "ext2fs_rb_insert_color node [parent] = rb_set_black (rb_plug parent node)"
| "ext2fs_rb_insert_color node (parent # gparent # up) =
     (if crumb_color parent = RB_BLACK
      then rb_set_black (rb_zip (parent # gparent # up) node)
      else case gparent of
             LeftOf gc g uncle \<Rightarrow>
               if rb_is_red uncle
               then ext2fs_rb_insert_color
                      (Node RB_RED (rb_set_black (rb_plug parent node)) g (rb_set_black uncle)) up
               else
                 let p = (case parent of
                            RightOf _ _ _ \<Rightarrow> rb_rotate_left (rb_plug parent node)
                          | LeftOf _ _ _ \<Rightarrow> rb_plug parent node)
                 in rb_set_black (rb_zip up (rb_rotate_right (Node RB_RED (rb_set_black p) g uncle)))
           | RightOf gc uncle g \<Rightarrow>
               if rb_is_red uncle
               then ext2fs_rb_insert_color
                      (Node RB_RED (rb_set_black uncle) g (rb_set_black (rb_plug parent node))) up
               else
                 let p = (case parent of
                            LeftOf _ _ _ \<Rightarrow> rb_rotate_right (rb_plug parent node)
                          | RightOf _ _ _ \<Rightarrow> rb_plug parent node)
                 in rb_set_black (rb_zip up (rb_rotate_left (Node RB_RED uncle g (rb_set_black p)))))"

section \<open>Erasure\<close>

text \<open>
  \<open>rb_erase_color node path\<close>: the black height of \<open>node\<close> is one short; \<open>path\<close> is its parent chain.
\<close>

function rb_erase_color :: "'a rbtree \<Rightarrow> 'a crumb list \<Rightarrow> 'a rbtree" where
  "rb_erase_color node [] = rb_set_black node"
| "rb_erase_color node (LeftOf pc p other # up) =
     (if rb_is_red node then rb_zip (LeftOf pc p other # up) (rb_set_black node)
      else
        let (pc, other, up) =
              (case other of
                 Node RB_RED ol ox orr \<Rightarrow> (RB_RED, ol, LeftOf RB_BLACK ox orr # up)
               | _ \<Rightarrow> (pc, other, up))
        in case other of
             Leaf \<Rightarrow> rb_zip (LeftOf pc p other # up) node
           | Node oc ol ox orr \<Rightarrow>
               if \<not> rb_is_red ol \<and> \<not> rb_is_red orr
               then rb_erase_color (Node pc node p (rb_set_red other)) up
               else
                 let other = (if \<not> rb_is_red orr
                              then rb_rotate_right (Node RB_RED (rb_set_black ol) ox orr)
                              else other);
                     other = rb_blacken_right (rb_set_color other pc)
                 in rb_set_black (rb_zip up (rb_rotate_left (Node RB_BLACK node p other))))"
| "rb_erase_color node (RightOf pc other p # up) =
     (if rb_is_red node then rb_zip (RightOf pc other p # up) (rb_set_black node)
      else
        let (pc, other, up) =
              (case other of
                 Node RB_RED ol ox orr \<Rightarrow> (RB_RED, orr, RightOf RB_BLACK ol ox # up)
               | _ \<Rightarrow> (pc, other, up))
        in case other of
             Leaf \<Rightarrow> rb_zip (RightOf pc other p # up) node
           | Node oc ol ox orr \<Rightarrow>
               if \<not> rb_is_red ol \<and> \<not> rb_is_red orr
               then rb_erase_color (Node pc (rb_set_red other) p node) up
               else
                 let other = (if \<not> rb_is_red ol
                              then rb_rotate_left (Node RB_RED ol ox (rb_set_black orr))
                              else other);
                     other = rb_blacken_left (rb_set_color other pc)
                 in rb_set_black (rb_zip up (rb_rotate_right (Node RB_BLACK other p node))))"
  by pat_completeness auto
termination
  by (relation "measure (\<lambda>(node, path). 2 * length path + (if rb_is_red node then 0 else 1))")
    (auto split: rbtree.splits rb_color.splits)

declare rb_erase_color.simps(2,3) [simp del]

fun rb_go_left :: "'a rbtree \<Rightarrow> 'a crumb list \<Rightarrow> 'a rbtree \<times> 'a crumb list" where
  "rb_go_left (Node c (Node c' l' x' r') x r) path =
     rb_go_left (Node c' l' x' r') (LeftOf c x r # path)"
| "rb_go_left t path = (t, path)"

fun rb_go_right :: "'a rbtree \<Rightarrow> 'a crumb list \<Rightarrow> 'a rbtree \<times> 'a crumb list" where
  "rb_go_right (Node c l x (Node c' l' x' r')) path =
     rb_go_right (Node c' l' x' r') (RightOf c l x # path)"
| "rb_go_right t path = (t, path)"

fun ext2fs_rb_erase :: "'a rbtree \<Rightarrow> 'a crumb list \<Rightarrow> 'a rbtree" where
  "ext2fs_rb_erase Leaf path = rb_zip path Leaf"
| "ext2fs_rb_erase (Node c Leaf x r) path =
     (if c = RB_BLACK then rb_erase_color r path else rb_zip path r)"
| "ext2fs_rb_erase (Node c l x Leaf) path =
     (if c = RB_BLACK then rb_erase_color l path else rb_zip path l)"
| "ext2fs_rb_erase (Node c l x r) path =
     (case rb_go_left r [] of
        (Node color _ y child, rp) \<Rightarrow>
          let path' = rp @ RightOf c l y # path
          in if color = RB_BLACK then rb_erase_color child path' else rb_zip path' child
      | (Leaf, _) \<Rightarrow> rb_zip path (Node c l x r))"

section \<open>Traversal\<close>

fun ext2fs_rb_first :: "'a rbtree \<Rightarrow> ('a rbtree \<times> 'a crumb list) option" where
  "ext2fs_rb_first Leaf = None"
| "ext2fs_rb_first root = Some (rb_go_left root [])"

fun ext2fs_rb_last :: "'a rbtree \<Rightarrow> ('a rbtree \<times> 'a crumb list) option" where
  "ext2fs_rb_last Leaf = None"
| "ext2fs_rb_last root = Some (rb_go_right root [])"

fun rb_next_up :: "'a rbtree \<Rightarrow> 'a crumb list \<Rightarrow> ('a rbtree \<times> 'a crumb list) option" where
  "rb_next_up node [] = None"
| "rb_next_up node (RightOf c l x # path) = rb_next_up (Node c l x node) path"
| "rb_next_up node (LeftOf c x r # path) = Some (Node c node x r, path)"

fun rb_prev_up :: "'a rbtree \<Rightarrow> 'a crumb list \<Rightarrow> ('a rbtree \<times> 'a crumb list) option" where
  "rb_prev_up node [] = None"
| "rb_prev_up node (LeftOf c x r # path) = rb_prev_up (Node c node x r) path"
| "rb_prev_up node (RightOf c l x # path) = Some (Node c l x node, path)"

fun ext2fs_rb_next :: "'a rbtree \<times> 'a crumb list \<Rightarrow> ('a rbtree \<times> 'a crumb list) option" where
  "ext2fs_rb_next (Leaf, path) = None"
| "ext2fs_rb_next (Node c l x r, path) =
     (if r \<noteq> Leaf then Some (rb_go_left r (RightOf c l x # path))
      else rb_next_up (Node c l x r) path)"

fun ext2fs_rb_prev :: "'a rbtree \<times> 'a crumb list \<Rightarrow> ('a rbtree \<times> 'a crumb list) option" where
  "ext2fs_rb_prev (Leaf, path) = None"
| "ext2fs_rb_prev (Node c l x r, path) =
     (if l \<noteq> Leaf then Some (rb_go_right l (LeftOf c x r # path))
      else rb_prev_up (Node c l x r) path)"

fun ext2fs_rb_replace_node :: "'a rbtree \<Rightarrow> 'a crumb list \<Rightarrow> 'a \<Rightarrow> 'a rbtree" where
  "ext2fs_rb_replace_node Leaf path new = rb_zip path Leaf"
| "ext2fs_rb_replace_node (Node c l victim r) path new = rb_zip path (Node c l new r)"

section \<open>In-order content\<close>

fun rb_inorder :: "'a rbtree \<Rightarrow> 'a list" where
  "rb_inorder Leaf = []"
| "rb_inorder (Node c l x r) = rb_inorder l @ x # rb_inorder r"

fun path_before :: "'a crumb list \<Rightarrow> 'a list" where
  "path_before [] = []"
| "path_before (LeftOf c x r # path) = path_before path"
| "path_before (RightOf c l x # path) = path_before path @ rb_inorder l @ [x]"

fun path_after :: "'a crumb list \<Rightarrow> 'a list" where
  "path_after [] = []"
| "path_after (LeftOf c x r # path) = x # rb_inorder r @ path_after path"
| "path_after (RightOf c l x # path) = path_after path"

lemma inorder_zip [simp]:
  "rb_inorder (rb_zip path t) = path_before path @ rb_inorder t @ path_after path"
proof (induction path arbitrary: t)
  case (Cons k path)
  then show ?case by (cases k) auto
qed simp

lemma path_append [simp]:
  "path_before (p @ q) = path_before q @ path_before p"
  "path_after (p @ q) = path_after p @ path_after q"
proof -
  show "path_before (p @ q) = path_before q @ path_before p"
    by (induction p rule: path_before.induct) auto
  show "path_after (p @ q) = path_after p @ path_after q"
    by (induction p rule: path_after.induct) auto
qed

lemma inorder_recolor [simp]:
  "rb_inorder (rb_set_black t) = rb_inorder t" "rb_inorder (rb_set_red t) = rb_inorder t"
  "rb_inorder (rb_set_color t c) = rb_inorder t"
  "rb_inorder (rb_blacken_right t) = rb_inorder t" "rb_inorder (rb_blacken_left t) = rb_inorder t"
  by (cases t; simp; metis (full_types) rb_inorder.simps rb_set_black.simps rbtree.exhaust)+

lemma inorder_rotate [simp]:
  "rb_inorder (rb_rotate_left t) = rb_inorder t"
  "rb_inorder (rb_rotate_right t) = rb_inorder t"
   by (cases t rule: rb_rotate_left.cases; simp) (cases t rule: rb_rotate_right.cases; simp)

lemma inorder_plug:
  "rb_inorder (rb_plug k t) = path_before [k] @ rb_inorder t @ path_after [k]"
  by (cases k) auto

lemma inorder_insert_color [simp]:
  "rb_inorder (ext2fs_rb_insert_color t path) = path_before path @ rb_inorder t @ path_after path"
proof (induction t path rule: ext2fs_rb_insert_color.induct)
  case (2 node parent)
  then show ?case by (cases parent) (auto simp: inorder_plug)
next
  case (3 node parent gparent up)
  then show ?case
    by (cases parent; cases gparent) (auto simp: inorder_plug Let_def)
qed simp

lemma inorder_erase_color [simp]:
  "rb_inorder (rb_erase_color t path) = path_before path @ rb_inorder t @ path_after path"
proof (induction t path rule: rb_erase_color.induct)
  case (2 node pc p other up)
  show ?case
    unfolding rb_erase_color.simps(2) [of node pc p other up]
    using "2.IH" by (auto simp: Let_def split: rbtree.splits rb_color.splits)
next
  case (3 node pc other p up)
  show ?case
    unfolding rb_erase_color.simps(3) [of node pc other p up]
    using "3.IH" by (auto simp: Let_def split: rbtree.splits rb_color.splits)
qed simp

lemma go_left_spec:
  assumes "rb_go_left t path = (t', path')" "t \<noteq> Leaf"
  shows "rb_zip path' t' = rb_zip path t \<and> path_before path' = path_before path \<and>
    (\<exists>c x r. t' = Node c Leaf x r) \<and>
    rb_inorder t' @ path_after path' = rb_inorder t @ path_after path"
  using assms by (induction t path rule: rb_go_left.induct) auto

lemma go_right_spec:
  assumes "rb_go_right t path = (t', path')" "t \<noteq> Leaf"
  shows "rb_zip path' t' = rb_zip path t \<and> path_after path' = path_after path \<and>
    (\<exists>c l x. t' = Node c l x Leaf) \<and>
    path_before path' @ rb_inorder t' = path_before path @ rb_inorder t"
  using assms by (induction t path rule: rb_go_right.induct) auto

lemma inorder_erase:
  "rb_inorder (ext2fs_rb_erase (Node c l x r) path) =
   path_before path @ rb_inorder l @ rb_inorder r @ path_after path"
proof (cases "l = Leaf \<or> r = Leaf")
  case True
  then show ?thesis by (cases l; cases r) auto
next
  case False
  then obtain lc ll lx lr rc rl rx rr where l: "l = Node lc ll lx lr" and r: "r = Node rc rl rx rr"
    by (cases l; cases r) auto
  obtain t' rp where g: "rb_go_left r [] = (t', rp)" by fastforce
  with go_left_spec [OF g] r obtain yc y yr where t': "t' = Node yc Leaf y yr"
    and "path_before rp = []" "y # rb_inorder yr @ path_after rp = rb_inorder r" by auto
  then have ins: "path_before rp = []" "rb_inorder r = y # rb_inorder yr @ path_after rp" by simp_all
  from g t' have "rb_go_left (Node rc rl rx rr) [] = (Node yc Leaf y yr, rp)" by (simp add: r)
  then have "ext2fs_rb_erase (Node c l x r) path =
      (if yc = RB_BLACK then rb_erase_color yr (rp @ RightOf c l y # path)
       else rb_zip (rp @ RightOf c l y # path) yr)"
    by (simp add: l r Let_def)
  with ins show ?thesis by simp
qed

section \<open>Pointers into the tree\<close>

text \<open>
  Positions split the in-order sequence: what lies before the node, the node, what lies after it.
\<close>

fun pos_before :: "'a rbtree \<times> 'a crumb list \<Rightarrow> 'a list" where
  "pos_before (Leaf, path) = path_before path"
| "pos_before (Node c l x r, path) = path_before path @ rb_inorder l"

fun pos_after :: "'a rbtree \<times> 'a crumb list \<Rightarrow> 'a list" where
  "pos_after (Leaf, path) = path_after path"
| "pos_after (Node c l x r, path) = rb_inorder r @ path_after path"

fun pos_item :: "'a rbtree \<times> 'a crumb list \<Rightarrow> 'a option" where
  "pos_item (Leaf, path) = None"
| "pos_item (Node c l x r, path) = Some x"

lemma pos_split:
  "pos_item (t, path) = Some x \<Longrightarrow>
   rb_inorder (rb_zip path t) = pos_before (t, path) @ x # pos_after (t, path)"
  by (cases t) auto

lemma next_up_spec:
  "rb_next_up t path = Some z \<Longrightarrow>
     pos_before z = path_before path @ rb_inorder t \<and> rb_zip (snd z) (fst z) = rb_zip path t \<and>
     (\<exists>x. pos_item z = Some x \<and> path_after path = x # pos_after z)"
  "rb_next_up t path = None \<Longrightarrow> path_after path = []"
  by (induction t path rule: rb_next_up.induct) auto

lemma prev_up_spec:
  "rb_prev_up t path = Some z \<Longrightarrow>
     pos_after z = rb_inorder t @ path_after path \<and> rb_zip (snd z) (fst z) = rb_zip path t \<and>
     (\<exists>x. pos_item z = Some x \<and> path_before path = pos_before z @ [x])"
  "rb_prev_up t path = None \<Longrightarrow> path_before path = []"
  by (induction t path rule: rb_prev_up.induct) auto

lemma next_Some:
  assumes "ext2fs_rb_next z = Some z'"
  shows "rb_zip (snd z') (fst z') = rb_zip (snd z) (fst z)"
    "\<exists>x y. pos_item z = Some x \<and> pos_item z' = Some y \<and> pos_before z' = pos_before z @ [x]
       \<and> pos_after z = y # pos_after z'"
proof -
  obtain c l x r path where z: "z = (Node c l x r, path)" using assms
    by (cases z rule: ext2fs_rb_next.cases) auto
  have *: "rb_zip (snd z') (fst z') = rb_zip (snd z) (fst z) \<and> (\<exists>x y. pos_item z = Some x \<and>
      pos_item z' = Some y \<and> pos_before z' = pos_before z @ [x] \<and> pos_after z = y # pos_after z')"
  proof (cases "r = Leaf")
    case True
    with assms z next_up_spec(1) [of "Node c l x r" path z'] show ?thesis by auto
  next
    case False
    with assms z obtain t' p' where g: "rb_go_left r (RightOf c l x # path) = (t', p')" "z' = (t', p')"
      by (metis ext2fs_rb_next.simps(2) option.inject surj_pair)
    from go_left_spec [OF g(1) False] g(2) z show ?thesis by auto
  qed
  then show "rb_zip (snd z') (fst z') = rb_zip (snd z) (fst z)"
    "\<exists>x y. pos_item z = Some x \<and> pos_item z' = Some y \<and> pos_before z' = pos_before z @ [x]
       \<and> pos_after z = y # pos_after z'" by auto
qed

lemma next_None: "ext2fs_rb_next z = None \<Longrightarrow> pos_item z \<noteq> None \<Longrightarrow> pos_after z = []"
  using next_up_spec(2) by (cases z rule: ext2fs_rb_next.cases) (auto split: if_splits)

lemma prev_Some:
  assumes "ext2fs_rb_prev z = Some z'"
  shows "rb_zip (snd z') (fst z') = rb_zip (snd z) (fst z)"
    "\<exists>x y. pos_item z = Some x \<and> pos_item z' = Some y \<and> pos_before z = pos_before z' @ [y]
       \<and> pos_after z' = x # pos_after z"
proof -
  obtain c l x r path where z: "z = (Node c l x r, path)" using assms
    by (cases z rule: ext2fs_rb_prev.cases) auto
  have *: "rb_zip (snd z') (fst z') = rb_zip (snd z) (fst z) \<and> (\<exists>x y. pos_item z = Some x \<and>
      pos_item z' = Some y \<and> pos_before z = pos_before z' @ [y] \<and> pos_after z' = x # pos_after z)"
  proof (cases "l = Leaf")
    case True
    with assms z prev_up_spec(1) [of "Node c l x r" path z'] show ?thesis by auto
  next
    case False
    with assms z obtain t' p' where g: "rb_go_right l (LeftOf c x r # path) = (t', p')" "z' = (t', p')"
      by (metis ext2fs_rb_prev.simps(2) option.inject surj_pair)
    from go_right_spec [OF g(1) False] g(2) z show ?thesis by auto
  qed
  then show "rb_zip (snd z') (fst z') = rb_zip (snd z) (fst z)"
    "\<exists>x y. pos_item z = Some x \<and> pos_item z' = Some y \<and> pos_before z = pos_before z' @ [y]
       \<and> pos_after z' = x # pos_after z" by auto
qed

lemma prev_None: "ext2fs_rb_prev z = None \<Longrightarrow> pos_item z \<noteq> None \<Longrightarrow> pos_before z = []"
  using prev_up_spec(2) by (cases z rule: ext2fs_rb_prev.cases) (auto split: if_splits)

lemma first_spec:
  "ext2fs_rb_first t = None \<longleftrightarrow> t = Leaf"
  "ext2fs_rb_first t = Some z \<Longrightarrow> rb_zip (snd z) (fst z) = t \<and> pos_before z = [] \<and> pos_item z \<noteq> None"
proof -
  show "ext2fs_rb_first t = None \<longleftrightarrow> t = Leaf" by (cases t) auto
  assume "ext2fs_rb_first t = Some z"
  then have g: "rb_go_left t [] = (fst z, snd z)" and t: "t \<noteq> Leaf" by (cases t; auto)+
  from go_left_spec [OF g t] show "rb_zip (snd z) (fst z) = t \<and> pos_before z = [] \<and> pos_item z \<noteq> None"
    by (cases z) auto
qed

lemma last_spec:
  "ext2fs_rb_last t = None \<longleftrightarrow> t = Leaf"
  "ext2fs_rb_last t = Some z \<Longrightarrow> rb_zip (snd z) (fst z) = t \<and> pos_after z = [] \<and> pos_item z \<noteq> None"
proof -
  show "ext2fs_rb_last t = None \<longleftrightarrow> t = Leaf" by (cases t) auto
  assume "ext2fs_rb_last t = Some z"
  then have g: "rb_go_right t [] = (fst z, snd z)" and t: "t \<noteq> Leaf" by (cases t; auto)+
  from go_right_spec [OF g t] show "rb_zip (snd z) (fst z) = t \<and> pos_after z = [] \<and> pos_item z \<noteq> None"
    by (cases z) auto
qed

section \<open>The red-black invariant\<close>

fun rb_bheight :: "'a rbtree \<Rightarrow> nat" where
  "rb_bheight Leaf = 0"
| "rb_bheight (Node c l x r) = (if c = RB_BLACK then Suc (rb_bheight l) else rb_bheight l)"

fun inv_height :: "'a rbtree \<Rightarrow> bool" where
  "inv_height Leaf = True"
| "inv_height (Node c l x r) = (rb_bheight l = rb_bheight r \<and> inv_height l \<and> inv_height r)"

fun inv_color :: "'a rbtree \<Rightarrow> bool" where
  "inv_color Leaf = True"
| "inv_color (Node c l x r) =
     ((c = RB_RED \<longrightarrow> \<not> rb_is_red l \<and> \<not> rb_is_red r) \<and> inv_color l \<and> inv_color r)"

definition rbt :: "'a rbtree \<Rightarrow> bool" where
  "rbt t \<longleftrightarrow> inv_color t \<and> inv_height t \<and> \<not> rb_is_red t"

text \<open>What a parent chain expects of the subtree in its hole: a black height, and blackness.\<close>

fun path_height :: "'a crumb list \<Rightarrow> nat \<Rightarrow> bool" where
  "path_height [] h = True"
| "path_height (LeftOf c x r # path) h =
     (rb_bheight r = h \<and> inv_height r \<and> path_height path (if c = RB_BLACK then Suc h else h))"
| "path_height (RightOf c l x # path) h =
     (rb_bheight l = h \<and> inv_height l \<and> path_height path (if c = RB_BLACK then Suc h else h))"

fun path_color :: "'a crumb list \<Rightarrow> bool \<Rightarrow> bool" where
  "path_color [] red = (\<not> red)"
| "path_color (LeftOf c x r # path) red =
     ((c = RB_RED \<longrightarrow> \<not> red \<and> \<not> rb_is_red r) \<and> inv_color r \<and> path_color path (c = RB_RED))"
| "path_color (RightOf c l x # path) red =
     ((c = RB_RED \<longrightarrow> \<not> red \<and> \<not> rb_is_red l) \<and> inv_color l \<and> path_color path (c = RB_RED))"

lemma not_red [simp]: "c \<noteq> RB_RED \<longleftrightarrow> c = RB_BLACK"
  by (cases c) simp_all

lemma not_black [simp]: "c \<noteq> RB_BLACK \<longleftrightarrow> c = RB_RED"
  by (cases c) simp_all

lemma inv_height_zip: "inv_height (rb_zip path t) \<longleftrightarrow> inv_height t \<and> path_height path (rb_bheight t)"
proof (induction path arbitrary: t)
  case (Cons k path)
  then show ?case by (cases k) (simp_all, (metis (full_types))+)
qed simp

lemma rbt_zip:
  "rbt (rb_zip path t) \<longleftrightarrow> inv_color t \<and> inv_height t \<and> path_height path (rb_bheight t)
    \<and> path_color path (rb_is_red t)"
proof -
  have "inv_color (rb_zip path t) \<and> \<not> rb_is_red (rb_zip path t) \<longleftrightarrow>
      inv_color t \<and> path_color path (rb_is_red t)"
  proof (induction path arbitrary: t)
    case (Cons k path)
    then show ?case by (cases k) (auto split: if_splits)
  qed auto
  then show ?thesis by (auto simp: rbt_def inv_height_zip)
qed

lemma path_color_black: "path_color path red \<Longrightarrow> path_color path False"
proof (cases path)
  case (Cons k p)
  then show "path_color path red \<Longrightarrow> path_color path False" by (cases k) auto
qed simp

lemma set_black_inv [simp]:
  "inv_color t \<Longrightarrow> inv_color (rb_set_black t)" "inv_height (rb_set_black t) = inv_height t"
  "\<not> rb_is_red (rb_set_black t)" "\<not> rb_is_red t \<Longrightarrow> rb_set_black t = t"
  "rb_is_red t \<Longrightarrow> rb_bheight (rb_set_black t) = Suc (rb_bheight t)"
  by (cases t; auto)+

lemma rbt_set_black: "inv_color t \<Longrightarrow> inv_height t \<Longrightarrow> rbt (rb_set_black t)"
  by (simp add: rbt_def)

lemma rbt_black_root: "rbt t \<Longrightarrow> rbt (rb_set_black t)"
  by (auto simp: rbt_def)

text \<open>
  Insertion: the subtree is sound, its parent chain expects its height and a black node. Only the
  node itself may be red under a red parent.
\<close>

theorem rbt_insert_color:
  assumes "inv_color node" "inv_height node" "rb_is_red node"
    "path_height path (rb_bheight node)" "path_color path False"
  shows "rbt (ext2fs_rb_insert_color node path)"
  using assms
proof (induction node path rule: ext2fs_rb_insert_color.induct)
  case (1 node)
  then show ?case by (simp add: rbt_set_black)
next
  case (2 node parent)
  then show ?case by (cases parent) (auto simp: rbt_def split: if_splits)
next
  case (3 node parent gparent up)
  show ?case
  proof (cases "crumb_color parent = RB_BLACK")
    case True
    then have "rbt (rb_zip (parent # gparent # up) node)"
      using "3.prems" unfolding rbt_zip by (cases parent) auto
    with True show ?thesis by (simp add: rbt_black_root)
  next
    case red: False
    show ?thesis
    proof (cases gparent)
      case g: (LeftOf gc g uncle)
      show ?thesis
      proof (cases "rb_is_red uncle")
        case True
        with red g "3.prems" have "rbt (ext2fs_rb_insert_color
            (Node RB_RED (rb_set_black (rb_plug parent node)) g (rb_set_black uncle)) up)"
          by (intro "3.IH"(1) [OF _ g]) (cases parent; auto split: if_splits)+
        with True red g show ?thesis by simp
      next
        case False
        with red g "3.prems" show ?thesis
          by (cases parent; cases node)
            (auto simp: Let_def rbt_zip intro!: rbt_black_root split: if_splits)
      qed
    next
      case g: (RightOf gc uncle g)
      show ?thesis
      proof (cases "rb_is_red uncle")
        case True
        with red g "3.prems" have "rbt (ext2fs_rb_insert_color
            (Node RB_RED (rb_set_black uncle) g (rb_set_black (rb_plug parent node))) up)"
          by (intro "3.IH"(2) [OF _ g]) (cases parent; auto split: if_splits)+
        with True red g show ?thesis by simp
      next
        case False
        with red g "3.prems" show ?thesis
          by (cases parent; cases node)
            (auto simp: Let_def rbt_zip intro!: rbt_black_root split: if_splits)
      qed
    qed
  qed
qed

text \<open>
  One round of the erasure loop on a black \<open>node\<close> whose sibling is black: either the deficit moves
  up, or rotations end it.
\<close>

lemma erase_left_final:
  assumes "inv_color node" "inv_height node" "inv_color other" "inv_height other"
    "\<not> rb_is_red other" "other = Node oc ol ox orr" "rb_bheight other = Suc (rb_bheight node)"
    "rb_is_red ol \<or> rb_is_red orr" "\<not> rb_is_red node"
    "path_height up (if pc = RB_BLACK then Suc (Suc (rb_bheight node)) else Suc (rb_bheight node))"
    "path_color up (pc = RB_RED)"
  shows "rbt (rb_zip up (rb_rotate_left (Node RB_BLACK node p (rb_blacken_right (rb_set_color
           (if \<not> rb_is_red orr then rb_rotate_right (Node RB_RED (rb_set_black ol) ox orr)
            else other) pc)))))"
  using assms
  by (cases ol; cases orr) (auto simp: rbt_zip split: if_splits)

lemma erase_right_final:
  assumes "inv_color node" "inv_height node" "inv_color other" "inv_height other"
    "\<not> rb_is_red other" "other = Node oc ol ox orr" "rb_bheight other = Suc (rb_bheight node)"
    "rb_is_red ol \<or> rb_is_red orr" "\<not> rb_is_red node"
    "path_height up (if pc = RB_BLACK then Suc (Suc (rb_bheight node)) else Suc (rb_bheight node))"
    "path_color up (pc = RB_RED)"
  shows "rbt (rb_zip up (rb_rotate_right (Node RB_BLACK (rb_blacken_left (rb_set_color
           (if \<not> rb_is_red ol then rb_rotate_left (Node RB_RED ol ox (rb_set_black orr))
            else other) pc)) p node)))"
  using assms
  by (cases ol; cases orr) (auto simp: rbt_zip split: if_splits)

lemma erase_color_red_node:
  "rb_is_red node \<Longrightarrow> rb_erase_color node path = rb_zip path (rb_set_black node)"
proof (cases path)
  case (Cons k up)
  then show "rb_is_red node \<Longrightarrow> ?thesis"
    by (cases k) (simp_all add: rb_erase_color.simps)
qed simp

lemma erase_color_left_black:
  "\<not> rb_is_red node \<Longrightarrow> other = Node RB_BLACK ol ox orr \<Longrightarrow>
   rb_erase_color node (LeftOf pc p other # up) =
     (if \<not> rb_is_red ol \<and> \<not> rb_is_red orr
      then rb_erase_color (Node pc node p (rb_set_red other)) up
      else rb_set_black (rb_zip up (rb_rotate_left (Node RB_BLACK node p
             (rb_blacken_right (rb_set_color
               (if \<not> rb_is_red orr then rb_rotate_right (Node RB_RED (rb_set_black ol) ox orr)
                else other) pc))))))"
  by (subst rb_erase_color.simps) (simp add: Let_def)

lemma erase_color_right_black:
  "\<not> rb_is_red node \<Longrightarrow> other = Node RB_BLACK ol ox orr \<Longrightarrow>
   rb_erase_color node (RightOf pc other p # up) =
     (if \<not> rb_is_red ol \<and> \<not> rb_is_red orr
      then rb_erase_color (Node pc (rb_set_red other) p node) up
      else rb_set_black (rb_zip up (rb_rotate_right (Node RB_BLACK
             (rb_blacken_left (rb_set_color
               (if \<not> rb_is_red ol then rb_rotate_left (Node RB_RED ol ox (rb_set_black orr))
                else other) pc)) p node))))"
  by (subst rb_erase_color.simps) (simp add: Let_def)

lemma erase_color_left_red:
  "\<not> rb_is_red node \<Longrightarrow> other = Node RB_RED (Node RB_BLACK l x r) ox orr \<Longrightarrow>
   rb_erase_color node (LeftOf pc p other # up) =
   rb_erase_color node (LeftOf RB_RED p (Node RB_BLACK l x r) # LeftOf RB_BLACK ox orr # up)"
  by (simp add: rb_erase_color.simps Let_def)

lemma erase_color_right_red:
  "\<not> rb_is_red node \<Longrightarrow> other = Node RB_RED ol ox (Node RB_BLACK l x r) \<Longrightarrow>
   rb_erase_color node (RightOf pc other p # up) =
   rb_erase_color node (RightOf RB_RED (Node RB_BLACK l x r) p # RightOf RB_BLACK ol ox # up)"
  by (simp add: rb_erase_color.simps Let_def)

text \<open>What the erasure loop needs of its arguments.\<close>

definition deficit :: "'a rbtree \<Rightarrow> 'a crumb list \<Rightarrow> bool" where
  "deficit node path \<longleftrightarrow> inv_color (rb_set_black node) \<and> inv_height node
     \<and> path_height path (Suc (rb_bheight node)) \<and> path_color path False"

lemma deficit_red: "deficit node path \<Longrightarrow> rb_is_red node \<Longrightarrow> rbt (rb_erase_color node path)"
  by (simp add: deficit_def erase_color_red_node rbt_zip)

lemma bheight_pos:
  assumes "rb_bheight t = Suc h" "\<not> rb_is_red t"
  obtains l x r where "t = Node RB_BLACK l x r"
  using assms by (cases t) auto

lemma deficit_left_black:
  assumes "deficit node (LeftOf pc p other # up)" "\<not> rb_is_red node" "\<not> rb_is_red other"
    and IH: "\<And>n. pc = RB_BLACK \<Longrightarrow> deficit n up \<Longrightarrow> rbt (rb_erase_color n up)"
  shows "rbt (rb_erase_color node (LeftOf pc p other # up))"
proof -
  from assms have d: "inv_color node" "inv_height node" "inv_color other" "inv_height other"
    "rb_bheight other = Suc (rb_bheight node)" "path_color up (pc = RB_RED)"
    "path_height up (if pc = RB_BLACK then Suc (Suc (rb_bheight node)) else Suc (rb_bheight node))"
    by (auto simp: deficit_def)
  from bheight_pos [OF d(5) assms(3)] obtain ol ox orr where o: "other = Node RB_BLACK ol ox orr" .
  show ?thesis
  proof (cases "\<not> rb_is_red ol \<and> \<not> rb_is_red orr")
    case True
    then have "deficit (Node pc node p (rb_set_red other)) up"
      using d o assms(2) path_color_black by (auto simp: deficit_def)
    then have "rbt (rb_erase_color (Node pc node p (rb_set_red other)) up)"
      using IH by (cases pc) (auto intro: deficit_red)
    with True show ?thesis by (simp only: erase_color_left_black [OF assms(2) o] simp_thms if_True)
  next
    case False
    then show ?thesis
      using erase_left_final [OF d(1-4) assms(3) o d(5) _ assms(2) d(7,6)]
      by (simp only: erase_color_left_black [OF assms(2) o] if_False) (simp add: rbt_black_root)
  qed
qed

lemma deficit_right_black:
  assumes "deficit node (RightOf pc other p # up)" "\<not> rb_is_red node" "\<not> rb_is_red other"
    and IH: "\<And>n. pc = RB_BLACK \<Longrightarrow> deficit n up \<Longrightarrow> rbt (rb_erase_color n up)"
  shows "rbt (rb_erase_color node (RightOf pc other p # up))"
proof -
  from assms have d: "inv_color node" "inv_height node" "inv_color other" "inv_height other"
    "rb_bheight other = Suc (rb_bheight node)" "path_color up (pc = RB_RED)"
    "path_height up (if pc = RB_BLACK then Suc (Suc (rb_bheight node)) else Suc (rb_bheight node))"
    by (auto simp: deficit_def)
  from bheight_pos [OF d(5) assms(3)] obtain ol ox orr where o: "other = Node RB_BLACK ol ox orr" .
  show ?thesis
  proof (cases "\<not> rb_is_red ol \<and> \<not> rb_is_red orr")
    case True
    then have "deficit (Node pc (rb_set_red other) p node) up"
      using d o assms(2) path_color_black by (auto simp: deficit_def)
    then have "rbt (rb_erase_color (Node pc (rb_set_red other) p node) up)"
      using IH by (cases pc) (auto intro: deficit_red)
    with True show ?thesis by (simp only: erase_color_right_black [OF assms(2) o] simp_thms if_True)
  next
    case False
    then show ?thesis
      using erase_right_final [OF d(1-4) assms(3) o d(5) _ assms(2) d(7,6)]
      by (simp only: erase_color_right_black [OF assms(2) o] if_False) (simp add: rbt_black_root)
  qed
qed

lemma rbt_erase_color: "deficit node path \<Longrightarrow> rbt (rb_erase_color node path)"
proof (induction path arbitrary: node)
  case Nil
  then show ?case by (simp add: deficit_def rbt_set_black rbt_def)
next
  case (Cons k up)
  show ?case
  proof (cases "rb_is_red node")
    case True
    with Cons.prems show ?thesis by (rule deficit_red)
  next
    case black: False
    show ?thesis
    proof (cases k)
      case k: (LeftOf pc p other)
      show ?thesis
      proof (cases "rb_is_red other")
        case False
        then show ?thesis using Cons black unfolding k by (intro deficit_left_black)
      next
        case True
        then obtain ol ox orr where o: "other = Node RB_RED ol ox orr" by (cases other) auto
        with Cons.prems k have "rb_bheight ol = Suc (rb_bheight node)" "\<not> rb_is_red ol"
          by (auto simp: deficit_def)
        from bheight_pos [OF this] obtain l x r where ol: "ol = Node RB_BLACK l x r" .
        have "deficit node (LeftOf RB_RED p ol # LeftOf RB_BLACK ox orr # up)"
          using Cons.prems k o by (auto simp: deficit_def split: if_splits)
        then have "rbt (rb_erase_color node (LeftOf RB_RED p ol # LeftOf RB_BLACK ox orr # up))"
          using black ol by (intro deficit_left_black) auto
        then show ?thesis unfolding k using erase_color_left_red [OF black, of other l x r ox orr] o ol
          by simp
      qed
    next
      case k: (RightOf pc other p)
      show ?thesis
      proof (cases "rb_is_red other")
        case False
        then show ?thesis using Cons black unfolding k by (intro deficit_right_black)
      next
        case True
        then obtain ol ox orr where o: "other = Node RB_RED ol ox orr" by (cases other) auto
        with Cons.prems k have "rb_bheight orr = Suc (rb_bheight node)" "\<not> rb_is_red orr"
          by (auto simp: deficit_def)
        from bheight_pos [OF this] obtain l x r where ol: "orr = Node RB_BLACK l x r" .
        have "deficit node (RightOf RB_RED orr p # RightOf RB_BLACK ol ox # up)"
          using Cons.prems k o by (auto simp: deficit_def split: if_splits)
        then have "rbt (rb_erase_color node (RightOf RB_RED orr p # RightOf RB_BLACK ol ox # up))"
          using black ol by (intro deficit_right_black) auto
        then show ?thesis unfolding k using erase_color_right_red [OF black, of other ol ox l x r] o ol
          by simp
      qed
    qed
  qed
qed

lemma rb_zip_append [simp]: "rb_zip (p @ q) t = rb_zip q (rb_zip p t)"
  by (induction p arbitrary: t) auto

lemma rbt_drop_leftless:
  assumes "rbt (rb_zip path (Node c Leaf x r))"
  shows "rbt (if c = RB_BLACK then rb_erase_color r path else rb_zip path r)"
proof (cases c)
  case RB_BLACK
  with assms have "deficit r path" by (cases r) (auto simp: rbt_zip deficit_def)
  with RB_BLACK show ?thesis by (simp add: rbt_erase_color)
next
  case RB_RED
  with assms path_color_black show ?thesis by (cases r) (auto simp: rbt_zip)
qed

lemma rbt_drop_rightless:
  assumes "rbt (rb_zip path (Node c l x Leaf))"
  shows "rbt (if c = RB_BLACK then rb_erase_color l path else rb_zip path l)"
proof (cases c)
  case RB_BLACK
  with assms have "deficit l path" by (cases l) (auto simp: rbt_zip deficit_def)
  with RB_BLACK show ?thesis by (simp add: rbt_erase_color)
next
  case RB_RED
  with assms path_color_black show ?thesis by (cases l) (auto simp: rbt_zip)
qed

theorem rbt_erase:
  assumes "rbt (rb_zip path (Node c l x r))"
  shows "rbt (ext2fs_rb_erase (Node c l x r) path)"
proof (cases "l = Leaf \<or> r = Leaf")
  case True
  then consider "l = Leaf" | lc ll lx lr where "l = Node lc ll lx lr" "r = Leaf" by (cases l) auto
  then show ?thesis
  proof cases
    case 1
    with assms rbt_drop_leftless show ?thesis by fastforce
  next
    case 2
    with assms have "rbt (rb_zip path (Node c l x Leaf))" by simp
    from rbt_drop_rightless [OF this] 2 show ?thesis by (auto split: if_splits)
  qed
next
  case False
  then obtain lc ll lx lr rc rl rx rr where l: "l = Node lc ll lx lr" and r: "r = Node rc rl rx rr"
    by (cases l; cases r) auto
  obtain t' rp where g: "rb_go_left r [] = (t', rp)" by fastforce
  from go_left_spec [OF g] r obtain yc y yr where t': "t' = Node yc Leaf y yr"
    and zip: "rb_zip rp t' = r" by auto
  let ?path = "rp @ RightOf c l y # path"
  have "rb_zip ?path t' = rb_zip path (Node c l y r)" by (simp add: zip)
  moreover have "rbt (rb_zip path (Node c l y r))" using assms by (simp add: rbt_zip)
  ultimately have "rbt (rb_zip ?path (Node yc Leaf y yr))" using t' by simp
  from rbt_drop_leftless [OF this] show ?thesis
    using g t' unfolding l r by (simp add: Let_def split: if_splits)
qed

end
