(* ===== verification/Blkmap64_rb.thy ===== *)
theory Blkmap64_rb
  imports Bmap64 Rbtree
begin

text \<open>
  \<^verbatim>\<open>libext2fs/blkmap64_rb.c\<close>: the back end that keeps the marked numbers as extents in a red-black
  tree. An extent (\<open>struct bmap_rb_extent\<close>) is a node of the tree; its address identifies it, so a
  \<open>struct rb_node *\<close> is an address (\<open>nat\<close>), following it is \<open>rb_find\<close>, and a store through it is
  \<open>rb_store\<close>. The three cursors of the private data are such pointers. Extents are relative to the
  bitmap's start.

  The loops over \<open>ext2fs_rb_next\<close> take a fuel argument, the number of nodes of the tree they start
  on; each round moves to a later node, and the proofs of the loops show that the fuel suffices on a
  well-formed tree (\<open>exts_ok\<close>), where they are functions of the in-order extent list alone.
\<close>

section \<open>Extents, pointers and the private data\<close>

record bmap_rb_extent =
  ext_addr :: nat
  ext_start :: u64
  ext_count :: u64

type_synonym ext_tree = "bmap_rb_extent rbtree"
type_synonym ext_pos = "bmap_rb_extent rbtree \<times> bmap_rb_extent crumb list"

record ext2fs_rb_private =
  rb_root :: ext_tree
  rb_wcursor :: "nat option"
  rb_rcursor :: "nat option"
  rb_rcursor_next :: "nat option"

definition ext_end :: "bmap_rb_extent \<Rightarrow> u64" where
  "ext_end e = ext_start e + ext_count e"

fun rb_find :: "nat \<Rightarrow> ext_tree \<Rightarrow> bmap_rb_extent crumb list \<Rightarrow> ext_pos option" where
  "rb_find a Leaf path = None"
| "rb_find a (Node c l e r) path =
     (if ext_addr e = a then Some (Node c l e r, path)
      else case rb_find a l (LeftOf c e r # path) of
             Some z \<Rightarrow> Some z
           | None \<Rightarrow> rb_find a r (RightOf c l e # path))"

definition pos_ptr :: "ext_pos option \<Rightarrow> nat option" where
  "pos_ptr z = Option.bind z (\<lambda>z. map_option ext_addr (pos_item z))"

definition rb_deref :: "nat \<Rightarrow> ext_tree \<Rightarrow> bmap_rb_extent" where
  "rb_deref a root = the (Option.bind (rb_find a root []) pos_item)"

definition rb_store :: "nat \<Rightarrow> u64 \<Rightarrow> u64 \<Rightarrow> ext_tree \<Rightarrow> ext_tree" where
  "rb_store a start count =
     map_rbtree (\<lambda>e. if ext_addr e = a then e\<lparr>ext_start := start, ext_count := count\<rparr> else e)"

definition rb_next_ptr :: "nat \<Rightarrow> ext_tree \<Rightarrow> nat option" where
  "rb_next_ptr a root = pos_ptr (Option.bind (rb_find a root []) ext2fs_rb_next)"

definition rb_prev_ptr :: "nat \<Rightarrow> ext_tree \<Rightarrow> nat option" where
  "rb_prev_ptr a root = pos_ptr (Option.bind (rb_find a root []) ext2fs_rb_prev)"

definition rb_erase_ptr :: "nat \<Rightarrow> ext_tree \<Rightarrow> ext_tree" where
  "rb_erase_ptr a root =
     (case rb_find a root [] of None \<Rightarrow> root | Some (node, path) \<Rightarrow> ext2fs_rb_erase node path)"

text \<open>
  The address of a new extent: any address that no live extent has. The code asserts that the allocation
  succeeded (\<open>kassert\<close>, \<^verbatim>\<open>blkmap64_rb.c:163\<close>), so running out of memory stops the kernel there; the model has the
  allocation succeed, and what is proved of these operations is about the runs in which it does.
\<close>

definition rb_new_addr :: "ext_tree \<Rightarrow> nat" where
  "rb_new_addr root = Suc (foldr max (map ext_addr (rb_inorder root)) 0)"

definition rb_get_new_extent :: "ext_tree \<Rightarrow> u64 \<Rightarrow> u64 \<Rightarrow> bmap_rb_extent" where
  "rb_get_new_extent root start count =
     \<lparr>ext_addr = rb_new_addr root, ext_start = start, ext_count = count\<rparr>"

definition rb_free_extent :: "ext2fs_rb_private \<Rightarrow> nat \<Rightarrow> ext2fs_rb_private" where
  "rb_free_extent bp ext =
     (let bp = (if rb_wcursor bp = Some ext then bp\<lparr>rb_wcursor := None\<rparr> else bp);
          bp = (if rb_rcursor bp = Some ext then bp\<lparr>rb_rcursor := None\<rparr> else bp)
      in if rb_rcursor_next bp = Some ext then bp\<lparr>rb_rcursor_next := None\<rparr> else bp)"

text \<open>The pair of calls \<open>ext2fs_rb_erase (node, root); rb_free_extent (bp, ext)\<close>.\<close>

definition rb_erase_free :: "nat \<Rightarrow> ext2fs_rb_private \<Rightarrow> ext2fs_rb_private" where
  "rb_erase_free a bp = rb_free_extent (bp\<lparr>rb_root := rb_erase_ptr a (rb_root bp)\<rparr>) a"

definition rb_fuel :: "ext2fs_rb_private \<Rightarrow> nat" where
  "rb_fuel bp = length (rb_inorder (rb_root bp))"

definition rb_empty_private :: ext2fs_rb_private where
  "rb_empty_private =
     \<lparr>rb_root = Leaf, rb_wcursor = None, rb_rcursor = None, rb_rcursor_next = None\<rparr>"

section \<open>Descending the tree\<close>

text \<open>
  The search loops \<open>while (*n)\<close>: the result is the node found, or the empty place (\<open>Leaf\<close>) where the
  search ended with the chain of its ancestors, the nearest being the C variable \<open>parent\<close>.
  \<open>rb_search_insert\<close> is the loop of \<open>rb_insert_extent\<close>, which also stops at an extent that ends
  where the new one starts.
\<close>

fun rb_search :: "u64 \<Rightarrow> ext_tree \<Rightarrow> bmap_rb_extent crumb list \<Rightarrow> ext_pos" where
  "rb_search start Leaf path = (Leaf, path)"
| "rb_search start (Node c l ext r) path =
     (if start < ext_start ext then rb_search start l (LeftOf c ext r # path)
      else if start \<ge> ext_end ext then rb_search start r (RightOf c l ext # path)
      else (Node c l ext r, path))"

fun rb_search_insert :: "u64 \<Rightarrow> ext_tree \<Rightarrow> bmap_rb_extent crumb list \<Rightarrow> ext_pos" where
  "rb_search_insert start Leaf path = (Leaf, path)"
| "rb_search_insert start (Node c l ext r) path =
     (if start < ext_start ext then rb_search_insert start l (LeftOf c ext r # path)
      else if start > ext_end ext then rb_search_insert start r (RightOf c l ext # path)
      else (Node c l ext r, path))"

fun path_parent :: "bmap_rb_extent crumb list \<Rightarrow> nat option" where
  "path_parent [] = None"
| "path_parent (LeftOf c e r # path) = Some (ext_addr e)"
| "path_parent (RightOf c l e # path) = Some (ext_addr e)"

section \<open>Testing\<close>

text \<open>The tail of \<open>rb_test_bit\<close> from the label \<open>search_tree\<close>.\<close>

definition rb_test_search :: "ext2fs_rb_private \<Rightarrow> u64 \<Rightarrow> ext2fs_rb_private \<times> int" where
  "rb_test_search bp bitno =
     (case rb_search bitno (rb_root bp) [] of
        (Node _ _ ext _, _) \<Rightarrow>
          (bp\<lparr>rb_rcursor := Some (ext_addr ext), rb_rcursor_next := None\<rparr>, 1)
      | (Leaf, _) \<Rightarrow> (bp, 0))"

definition rb_test_bit :: "ext2fs_rb_private \<Rightarrow> u64 \<Rightarrow> ext2fs_rb_private \<times> int" where
  "rb_test_bit bp bitno =
     (case rb_rcursor bp of
        None \<Rightarrow> rb_test_search bp bitno
      | Some a \<Rightarrow>
          let rcursor = rb_deref a (rb_root bp)
          in if bitno \<ge> ext_start rcursor \<and> bitno < ext_end rcursor then (bp, 1)
             else
               let next_ext = (case rb_rcursor_next bp of
                                 Some n \<Rightarrow> Some n
                               | None \<Rightarrow> rb_next_ptr a (rb_root bp));
                   bp = bp\<lparr>rb_rcursor_next := next_ext\<rparr>
               in if (case next_ext of
                        Some n \<Rightarrow> bitno \<ge> ext_end rcursor \<and> bitno < ext_start (rb_deref n (rb_root bp))
                      | None \<Rightarrow> False)
                  then (bp, 0)
                  else
                    let bp = bp\<lparr>rb_rcursor := None, rb_rcursor_next := None\<rparr>
                    in case rb_wcursor bp of
                         None \<Rightarrow> rb_test_search bp bitno
                       | Some w \<Rightarrow>
                           let rcursor = rb_deref w (rb_root bp)
                           in if bitno \<ge> ext_start rcursor \<and> bitno < ext_end rcursor then (bp, 1)
                              else rb_test_search bp bitno)"

fun rb_test_clear_loop :: "nat \<Rightarrow> nat option \<Rightarrow> u64 \<Rightarrow> u64 \<Rightarrow> ext_tree \<Rightarrow> int" where
  "rb_test_clear_loop fuel None start len root = 1"
| "rb_test_clear_loop 0 (Some node) start len root = 1"
| "rb_test_clear_loop (Suc fuel) (Some node) start len root =
     (let next = rb_next_ptr node root; ext = rb_deref node root
      in if ext_end ext \<le> start then rb_test_clear_loop fuel next start len root
         else if start + len \<le> ext_start ext then 1
         else 0)"

definition rb_test_clear_bmap_extent ::
  "ext2fs_rb_private gen_bitmap_64 \<Rightarrow> u64 \<Rightarrow> u32 \<Rightarrow> int" where
  "rb_test_clear_bmap_extent bitmap start len =
     (let bp = the (bm_private bitmap); start = start - bm_start bitmap
      in if len = 0 \<or> rb_root bp = Leaf then 1
         else case rb_search start (rb_root bp) [] of
                (Node _ _ _ _, _) \<Rightarrow> 0
              | (Leaf, path) \<Rightarrow>
                  rb_test_clear_loop (rb_fuel bp) (path_parent path) start (ucast len) (rb_root bp))"

section \<open>Inserting an extent\<close>

text \<open>
  The loop \<open>for (node = next (new_node); node; node = next)\<close> that swallows what the grown extent
  reaches; it returns the new count.
\<close>

fun rb_merge_loop ::
  "nat \<Rightarrow> nat option \<Rightarrow> u64 \<Rightarrow> u64 \<Rightarrow> ext2fs_rb_private \<Rightarrow> u64 \<times> ext2fs_rb_private" where
  "rb_merge_loop fuel None start count bp = (count, bp)"
| "rb_merge_loop 0 (Some node) start count bp = (count, bp)"
| "rb_merge_loop (Suc fuel) (Some node) start count bp =
     (let next = rb_next_ptr node (rb_root bp); ext = rb_deref node (rb_root bp)
      in if ext_end ext \<le> start then rb_merge_loop fuel next start count bp
         else if start + count < ext_start ext then (count, bp)
         else if start + count \<ge> ext_end ext
         then rb_merge_loop fuel next start count (rb_erase_free node bp)
         else (count + (ext_end ext - (start + count)), rb_erase_free node bp))"

text \<open>From the label \<open>skip_insert\<close> on.\<close>

definition rb_insert_finish ::
  "nat \<Rightarrow> u64 \<Rightarrow> u64 \<Rightarrow> ext2fs_rb_private \<Rightarrow> ext2fs_rb_private" where
  "rb_insert_finish new_ext start count bp =
     (case rb_merge_loop (rb_fuel bp) (rb_next_ptr new_ext (rb_root bp)) start count bp of
        (count, bp) \<Rightarrow> bp\<lparr>rb_root := rb_store new_ext start count (rb_root bp)\<rparr>)"

text \<open>The label \<open>got_extent\<close>.\<close>

definition rb_got_extent ::
  "bmap_rb_extent \<Rightarrow> u64 \<Rightarrow> u64 \<Rightarrow> ext2fs_rb_private \<Rightarrow> ext2fs_rb_private \<times> int" where
  "rb_got_extent ext start count bp =
     (if start + count \<le> ext_end ext then (bp, 1)
      else
        let retval = (if ext_end ext = start then 0 else 1);
            count = count + (start - ext_start ext);
            start = ext_start ext
        in (rb_insert_finish (ext_addr ext) start count bp, retval))"

text \<open>The new node, and the extent to its left that it continues.\<close>

definition rb_insert_new ::
  "bmap_rb_extent crumb list \<Rightarrow> u64 \<Rightarrow> u64 \<Rightarrow> ext2fs_rb_private \<Rightarrow> ext2fs_rb_private" where
  "rb_insert_new path start count bp =
     (let new_ext = rb_get_new_extent (rb_root bp) start count;
          new = ext_addr new_ext;
          bp = bp\<lparr>rb_root := ext2fs_rb_insert_color (ext2fs_rb_link_node new_ext) path,
                  rb_wcursor := Some new\<rparr>
      in case rb_prev_ptr new (rb_root bp) of
           None \<Rightarrow> rb_insert_finish new start count bp
         | Some node \<Rightarrow>
             let ext = rb_deref node (rb_root bp)
             in if ext_end ext = start
                then rb_insert_finish new (ext_start ext) (count + ext_count ext)
                       (rb_erase_free node bp)
                else rb_insert_finish new start count bp)"

definition rb_insert_extent ::
  "u64 \<Rightarrow> u64 \<Rightarrow> ext2fs_rb_private \<Rightarrow> ext2fs_rb_private \<times> int" where
  "rb_insert_extent start count bp =
     (if count = 0 then (bp, 0)
      else
        let bp = bp\<lparr>rb_rcursor_next := None\<rparr>;
            cur = Option.bind (rb_wcursor bp)
                    (\<lambda>w. let ext = rb_deref w (rb_root bp)
                         in if start \<ge> ext_start ext \<and> start \<le> ext_end ext then Some ext else None)
        in case cur of
             Some ext \<Rightarrow> rb_got_extent ext start count bp
           | None \<Rightarrow>
               (case rb_search_insert start (rb_root bp) [] of
                  (Node _ _ ext _, _) \<Rightarrow> rb_got_extent ext start count bp
                | (Leaf, path) \<Rightarrow> (rb_insert_new path start count bp, 0)))"

section \<open>Removing an extent\<close>

text \<open>
  How the first loop of \<open>rb_remove_extent\<close> ends: at an empty place; at an extent to be split in two;
  at an extent that became empty; or after moving the start of an extent. The tree in the result
  holds the counts the loop has changed on its way.
\<close>

datatype remove_descent =
    RM_hole "bmap_rb_extent crumb list" int
  | RM_split ext_tree u64 u64
  | RM_empty nat ext_tree int
  | RM_shift ext_tree

fun rb_remove_descend ::
  "u64 \<Rightarrow> u64 \<Rightarrow> ext_tree \<Rightarrow> bmap_rb_extent crumb list \<Rightarrow> int \<Rightarrow> remove_descent" where
  "rb_remove_descend start count Leaf path retval = RM_hole path retval"
| "rb_remove_descend start count (Node c l ext r) path retval =
     (if start < ext_start ext then rb_remove_descend start count l (LeftOf c ext r # path) retval
      else if start \<ge> ext_end ext
      then rb_remove_descend start count r (RightOf c l ext # path) retval
      else if start > ext_start ext \<and> start + count < ext_end ext
      then RM_split (rb_zip path (Node c l (ext\<lparr>ext_count := start - ext_start ext\<rparr>) r))
             (start + count) (ext_end ext - (start + count))
      else
        let cut = start + count \<ge> ext_end ext;
            ext = (if cut then ext\<lparr>ext_count := start - ext_start ext\<rparr> else ext);
            retval = (if cut then 1 else retval)
        in if ext_count ext = 0
           then RM_empty (ext_addr ext) (rb_zip path (Node c l ext r)) retval
           else if start = ext_start ext
           then RM_shift (rb_zip path
                  (Node c l (ext\<lparr>ext_start := ext_start ext + count,
                                 ext_count := ext_count ext - count\<rparr>) r))
           else rb_remove_descend start count r (RightOf c l ext # path) retval)"

text \<open>The second loop: extents to the right of \<open>start\<close>.\<close>

fun rb_remove_loop ::
  "nat \<Rightarrow> nat option \<Rightarrow> u64 \<Rightarrow> u64 \<Rightarrow> ext2fs_rb_private \<Rightarrow> int \<Rightarrow> ext2fs_rb_private \<times> int" where
  "rb_remove_loop fuel None start count bp retval = (bp, retval)"
| "rb_remove_loop 0 (Some parent) start count bp retval = (bp, retval)"
| "rb_remove_loop (Suc fuel) (Some parent) start count bp retval =
     (let node = rb_next_ptr parent (rb_root bp); ext = rb_deref parent (rb_root bp)
      in if ext_end ext \<le> start then rb_remove_loop fuel node start count bp retval
         else if start + count < ext_start ext then (bp, retval)
         else if start + count \<ge> ext_end ext
         then rb_remove_loop fuel node start count (rb_erase_free parent bp) 1
         else (bp\<lparr>rb_root := rb_store parent (start + count)
                               (ext_count ext - ((start + count) - ext_start ext)) (rb_root bp)\<rparr>, 1))"

definition rb_remove_extent ::
  "u64 \<Rightarrow> u64 \<Rightarrow> ext2fs_rb_private \<Rightarrow> ext2fs_rb_private \<times> int" where
  "rb_remove_extent start count bp =
     (if rb_root bp = Leaf then (bp, 0)
      else case rb_remove_descend start count (rb_root bp) [] 0 of
             RM_hole path retval \<Rightarrow>
               let bp = bp\<lparr>rb_root := rb_zip path Leaf\<rparr>
               in rb_remove_loop (rb_fuel bp) (path_parent path) start count bp retval
           | RM_split root new_start new_count \<Rightarrow>
               (fst (rb_insert_extent new_start new_count (bp\<lparr>rb_root := root\<rparr>)), 1)
           | RM_empty ext root retval \<Rightarrow>
               let parent = rb_next_ptr ext root;
                   bp = rb_erase_free ext (bp\<lparr>rb_root := root\<rparr>)
               in rb_remove_loop (rb_fuel bp) parent start count bp retval
           | RM_shift root \<Rightarrow> (bp\<lparr>rb_root := root\<rparr>, 1))"

section \<open>The operations of the table\<close>

definition rb_priv :: "ext2fs_rb_private gen_bitmap_64 \<Rightarrow> ext2fs_rb_private" where
  "rb_priv bitmap = the (bm_private bitmap)"

definition rb_put ::
  "ext2fs_rb_private gen_bitmap_64 \<Rightarrow> ext2fs_rb_private \<Rightarrow> ext2fs_rb_private gen_bitmap_64" where
  "rb_put bitmap bp = bitmap\<lparr>bm_private := Some bp\<rparr>"

definition rb_alloc_private_data ::
  "allocator \<Rightarrow> ext2fs_rb_private gen_bitmap_64 \<Rightarrow> errcode + ext2fs_rb_private gen_bitmap_64" where
  "rb_alloc_private_data mem bitmap =
     (case ext2fs_get_mem mem 32 of
        Inl retval \<Rightarrow> Inl retval
      | Inr _ \<Rightarrow> Inr (rb_put bitmap rb_empty_private))"

definition rb_new_bmap ::
  "allocator \<Rightarrow> ext2fs_rb_private gen_bitmap_64 \<Rightarrow> errcode + ext2fs_rb_private gen_bitmap_64" where
  "rb_new_bmap mem bitmap = rb_alloc_private_data mem bitmap"

fun rb_free_tree_loop :: "nat \<Rightarrow> nat option \<Rightarrow> ext_tree \<Rightarrow> ext_tree" where
  "rb_free_tree_loop fuel None root = root"
| "rb_free_tree_loop 0 (Some node) root = root"
| "rb_free_tree_loop (Suc fuel) (Some node) root =
     rb_free_tree_loop fuel (rb_next_ptr node root) (rb_erase_ptr node root)"

definition rb_free_tree :: "ext_tree \<Rightarrow> ext_tree" where
  "rb_free_tree root =
     rb_free_tree_loop (length (rb_inorder root)) (pos_ptr (ext2fs_rb_first root)) root"

definition rb_append_node :: "bmap_rb_extent \<Rightarrow> ext_tree \<Rightarrow> ext_tree" where
  "rb_append_node e root =
     (case ext2fs_rb_last root of
        None \<Rightarrow> ext2fs_rb_insert_color (ext2fs_rb_link_node e) []
      | Some (Node c l x r, path) \<Rightarrow>
          ext2fs_rb_insert_color (ext2fs_rb_link_node e) (RightOf c l x # path)
      | Some (Leaf, path) \<Rightarrow> root)"

fun rb_copy_loop ::
  "allocator \<Rightarrow> nat \<Rightarrow> nat option \<Rightarrow> ext_tree \<Rightarrow> ext_tree \<Rightarrow> errcode option \<times> ext_tree" where
  "rb_copy_loop mem fuel None src dest = (None, dest)"
| "rb_copy_loop mem 0 (Some node) src dest = (None, dest)"
| "rb_copy_loop mem (Suc fuel) (Some node) src dest =
     (case ext2fs_get_mem mem 40 of
        Inl retval \<Rightarrow> (Some retval, dest)
      | Inr _ \<Rightarrow>
          let src_ext = rb_deref node src;
              dest_ext = src_ext\<lparr>ext_addr := rb_new_addr dest\<rparr>
          in rb_copy_loop mem fuel (rb_next_ptr node src) src (rb_append_node dest_ext dest))"

definition rb_copy_bmap ::
  "allocator \<Rightarrow> ext2fs_rb_private gen_bitmap_64 \<Rightarrow> ext2fs_rb_private gen_bitmap_64
   \<Rightarrow> ext2fs_rb_private gen_bitmap_64 \<times> (errcode + ext2fs_rb_private gen_bitmap_64)" where
  "rb_copy_bmap mem src dest =
     (case rb_alloc_private_data mem dest of
        Inl retval \<Rightarrow> (src, Inl retval)
      | Inr dest \<Rightarrow>
          let src_bp = (rb_priv src)\<lparr>rb_rcursor := None\<rparr>;
              dest_bp = (rb_priv dest)\<lparr>rb_rcursor := None\<rparr>
          in case rb_copy_loop mem (rb_fuel src_bp) (pos_ptr (ext2fs_rb_first (rb_root src_bp)))
                    (rb_root src_bp) (rb_root dest_bp) of
               (Some retval, root) \<Rightarrow> (rb_put src src_bp, Inl retval)
             | (None, root) \<Rightarrow>
                 (rb_put src src_bp, Inr (rb_put dest (dest_bp\<lparr>rb_root := root\<rparr>))))"

fun rb_truncate_loop :: "nat \<Rightarrow> u64 \<Rightarrow> ext_tree \<Rightarrow> ext_tree" where
  "rb_truncate_loop 0 new_max root = root"
| "rb_truncate_loop (Suc fuel) new_max root =
     (case pos_ptr (ext2fs_rb_last root) of
        None \<Rightarrow> root
      | Some node \<Rightarrow>
          let ext = rb_deref node root
          in if ext_end ext - 1 \<le> new_max then root
             else if ext_start ext > new_max
             then rb_truncate_loop fuel new_max (rb_erase_ptr node root)
             else rb_truncate_loop fuel new_max
                    (rb_store node (ext_start ext) (new_max - ext_start ext + 1) root))"

definition rb_truncate :: "u64 \<Rightarrow> ext_tree \<Rightarrow> ext_tree" where
  "rb_truncate new_max root = rb_truncate_loop (length (rb_inorder root) + 1) new_max root"

definition rb_resize_bmap ::
  "allocator \<Rightarrow> ext2fs_rb_private gen_bitmap_64 \<Rightarrow> u64 \<Rightarrow> u64
   \<Rightarrow> ext2fs_rb_private gen_bitmap_64 \<times> errcode" where
  "rb_resize_bmap mem bmap new_end new_real_end =
     (let bp = (rb_priv bmap)\<lparr>rb_rcursor := None, rb_wcursor := None\<rparr>;
          lim = (if new_end < bm_end bmap then new_end else bm_end bmap) - bm_start bmap;
          bp = bp\<lparr>rb_root := rb_truncate lim (rb_root bp)\<rparr>;
          bmap = bmap\<lparr>bm_end := new_end, bm_real_end := new_real_end\<rparr>;
          bp = (if bm_end bmap < bm_real_end bmap
                then fst (rb_insert_extent (bm_end bmap + 1 - bm_start bmap)
                            (bm_real_end bmap - bm_end bmap) bp)
                else bp)
      in (rb_put bmap bp, 0))"

definition rb_mark_bmap ::
  "ext2fs_rb_private gen_bitmap_64 \<Rightarrow> u64 \<Rightarrow> ext2fs_rb_private gen_bitmap_64 \<times> int" where
  "rb_mark_bmap bitmap arg =
     (case rb_insert_extent (arg - bm_start bitmap) 1 (rb_priv bitmap) of
        (bp, retval) \<Rightarrow> (rb_put bitmap bp, retval))"

definition rb_unmark_bmap ::
  "ext2fs_rb_private gen_bitmap_64 \<Rightarrow> u64 \<Rightarrow> ext2fs_rb_private gen_bitmap_64 \<times> int" where
  "rb_unmark_bmap bitmap arg =
     (case rb_remove_extent (arg - bm_start bitmap) 1 (rb_priv bitmap) of
        (bp, retval) \<Rightarrow> (rb_put bitmap bp, retval))"

definition rb_test_bmap ::
  "ext2fs_rb_private gen_bitmap_64 \<Rightarrow> u64 \<Rightarrow> ext2fs_rb_private gen_bitmap_64 \<times> int" where
  "rb_test_bmap bitmap arg =
     (case rb_test_bit (rb_priv bitmap) (arg - bm_start bitmap) of
        (bp, retval) \<Rightarrow> (rb_put bitmap bp, retval))"

definition rb_mark_bmap_extent ::
  "ext2fs_rb_private gen_bitmap_64 \<Rightarrow> u64 \<Rightarrow> u32 \<Rightarrow> ext2fs_rb_private gen_bitmap_64" where
  "rb_mark_bmap_extent bitmap arg num =
     rb_put bitmap (fst (rb_insert_extent (arg - bm_start bitmap) (ucast num) (rb_priv bitmap)))"

definition rb_unmark_bmap_extent ::
  "ext2fs_rb_private gen_bitmap_64 \<Rightarrow> u64 \<Rightarrow> u32 \<Rightarrow> ext2fs_rb_private gen_bitmap_64" where
  "rb_unmark_bmap_extent bitmap arg num =
     rb_put bitmap (fst (rb_remove_extent (arg - bm_start bitmap) (ucast num) (rb_priv bitmap)))"

text \<open>
  The scan of \<open>rb_set_bmap_range\<close>; \<open>first_set\<close> is \<open>None\<close> for the C value \<open>-1\<close>. It is an \<open>int\<close> in the code, which holds
  every index as long as \<open>num\<close> is below \<open>2 ^ 31\<close>; the model is exact there, and the properties ask for it.
\<close>

function rb_set_range_loop ::
  "nat \<Rightarrow> nat \<Rightarrow> nat option \<Rightarrow> u64 \<Rightarrow> u8 list \<Rightarrow> ext2fs_rb_private
   \<Rightarrow> nat option \<times> ext2fs_rb_private" where
  "rb_set_range_loop i num first_set base inp bp =
     (if i < num
      then
        if i mod 8 = 0 \<and> inp ! (i div 8) = 0xFF
        then rb_set_range_loop (i + 8) num
               (case first_set of None \<Rightarrow> Some i | Some f \<Rightarrow> Some f) base inp bp
        else if i mod 8 = 0 \<and> inp ! (i div 8) = 0 \<and> first_set = None
        then rb_set_range_loop (i + 8) num first_set base inp bp
        else if ext2fs_test_bit (of_nat i) inp \<noteq> 0
        then rb_set_range_loop (i + 1) num
               (case first_set of None \<Rightarrow> Some i | Some f \<Rightarrow> Some f) base inp bp
        else (case first_set of
                None \<Rightarrow> rb_set_range_loop (i + 1) num None base inp bp
              | Some f \<Rightarrow>
                  rb_set_range_loop (i + 1) num None base inp
                    (fst (rb_insert_extent (base + of_nat f) (of_nat (i - f)) bp)))
      else (first_set, bp))"
  by pat_completeness auto
termination
  by (relation "measure (\<lambda>(i, num, first_set, base, inp, bp). num - i)") auto

definition rb_set_bmap_range ::
  "ext2fs_rb_private gen_bitmap_64 \<Rightarrow> u64 \<Rightarrow> u64 \<Rightarrow> u8 list \<Rightarrow> ext2fs_rb_private gen_bitmap_64" where
  "rb_set_bmap_range bitmap start num inp =
     (let base = start - bm_start bitmap
      in case rb_set_range_loop 0 (unat num) None base inp (rb_priv bitmap) of
           (None, bp) \<Rightarrow> rb_put bitmap bp
         | (Some f, bp) \<Rightarrow>
             rb_put bitmap (fst (rb_insert_extent (base + of_nat f) (num - of_nat f) bp)))"

text \<open>
  The inner loop of \<open>rb_get_bmap_range\<close> that sets \<open>count\<close> bits of \<open>out\<close> from \<open>pos - start\<close>. The code keeps \<open>nbytes\<close> and
  \<open>offset\<close> in an \<open>int\<close> and shifts \<open>nbytes\<close> there; neither overflows while the range that was asked for has fewer than
  \<open>2 ^ 31\<close> numbers, since \<open>count\<close> and \<open>pos - start\<close> are at most its length. The model is exact there, and the properties ask for
  it.
\<close>

function rb_fill_loop :: "u64 \<Rightarrow> u64 \<Rightarrow> u64 \<Rightarrow> u8 list \<Rightarrow> u8 list" where
  "rb_fill_loop pos count start out =
     (if 0 < count
      then
        if 8 \<le> count \<and> (pos - start) AND 7 = 0
        then
          let nbytes = drop_bit 3 count; offset = drop_bit 3 (pos - start)
          in rb_fill_loop (pos + push_bit 3 nbytes) (count - push_bit 3 nbytes) start
               (memset out (unat offset) 0xFF (unat nbytes))
        else rb_fill_loop (pos + 1) (count - 1) start (ext2fs_fast_set_bit64 (pos - start) out)
      else out)"
  by pat_completeness auto
termination
proof (relation "measure (\<lambda>(pos, count, start, out). unat count)", simp, goal_cases)
  case (1 pos count start out nbytes offset)
  then have "8 \<le> unat count" by (simp add: word_le_nat_alt)
  then have "unat (count - push_bit 3 nbytes) < unat count"
    using 1 unat_push_drop3 [of count] by (simp add: unat_sub_no_wrap word_le_nat_alt)
  then show ?case by simp
next
  case (2 pos count start out)
  then show ?case by (simp add: unat_dec_less)
qed

text \<open>The part of the extent \<open>pos, count\<close> that lies in the range asked for.\<close>

definition rb_clip :: "u64 \<Rightarrow> u64 \<Rightarrow> u64 \<Rightarrow> u64 \<Rightarrow> u64 \<times> u64" where
  "rb_clip start num pos count =
     (let (pos, count) = (if pos < start then (start, count - (start - pos)) else (pos, count))
      in (pos, if pos + count > start + num then start + num - pos else count))"

fun rb_get_range_loop ::
  "nat \<Rightarrow> nat option \<Rightarrow> u64 \<Rightarrow> u64 \<Rightarrow> ext_tree \<Rightarrow> u8 list \<Rightarrow> u8 list" where
  "rb_get_range_loop fuel None start num root out = out"
| "rb_get_range_loop 0 (Some parent) start num root out = out"
| "rb_get_range_loop (Suc fuel) (Some parent) start num root out =
     (let next = rb_next_ptr parent root; ext = rb_deref parent root
      in if ext_start ext \<ge> start + num then out
         else if ext_start ext < start \<and> ext_end ext < start
         then rb_get_range_loop fuel next start num root out
         else rb_get_range_loop fuel next start num root
                (case rb_clip start num (ext_start ext) (ext_count ext) of
                   (pos, count) \<Rightarrow> rb_fill_loop pos count start out))"

definition rb_get_bmap_range ::
  "ext2fs_rb_private gen_bitmap_64 \<Rightarrow> u64 \<Rightarrow> u64 \<Rightarrow> u8 list \<Rightarrow> u8 list" where
  "rb_get_bmap_range bitmap start num out =
     (let bp = rb_priv bitmap; start = start - bm_start bitmap
      in if rb_root bp = Leaf then out
         else
           let parent = (case rb_search start (rb_root bp) [] of
                           (Node _ _ ext _, _) \<Rightarrow> Some (ext_addr ext)
                         | (Leaf, path) \<Rightarrow> path_parent path);
               out = memset out 0 0 (unat (drop_bit 3 (num + 7)))
           in rb_get_range_loop (rb_fuel bp) parent start num (rb_root bp) out)"

definition rb_clear_bmap ::
  "ext2fs_rb_private gen_bitmap_64 \<Rightarrow> ext2fs_rb_private gen_bitmap_64" where
  "rb_clear_bmap bitmap =
     rb_put bitmap \<lparr>rb_root = rb_free_tree (rb_root (rb_priv bitmap)),
                    rb_wcursor = None, rb_rcursor = None, rb_rcursor_next = None\<rparr>"

definition rb_find_first_zero ::
  "ext2fs_rb_private gen_bitmap_64 \<Rightarrow> u64 \<Rightarrow> u64 \<Rightarrow> errcode + u64" where
  "rb_find_first_zero bitmap start end =
     (let bp = rb_priv bitmap; start = start - bm_start bitmap; end = end - bm_start bitmap
      in if start > end then Inl EINVAL
         else if rb_root bp = Leaf then Inl ENOENT
         else case rb_search start (rb_root bp) [] of
                (Node _ _ ext _, _) \<Rightarrow>
                  if ext_end ext \<le> end then Inr (ext_end ext + bm_start bitmap) else Inl ENOENT
              | (Leaf, _) \<Rightarrow> Inr (start + bm_start bitmap))"

definition rb_find_first_set ::
  "ext2fs_rb_private gen_bitmap_64 \<Rightarrow> u64 \<Rightarrow> u64 \<Rightarrow> errcode + u64" where
  "rb_find_first_set bitmap start end =
     (let bp = rb_priv bitmap; start = start - bm_start bitmap; end = end - bm_start bitmap;
          found = (\<lambda>node. let ext = rb_deref node (rb_root bp)
                          in if ext_start ext \<le> end then Inr (ext_start ext + bm_start bitmap)
                             else Inl ENOENT)
      in if start > end then Inl EINVAL
         else if rb_root bp = Leaf then Inl ENOENT
         else case rb_search start (rb_root bp) [] of
                (Node _ _ ext _, _) \<Rightarrow> Inr (start + bm_start bitmap)
              | (Leaf, path) \<Rightarrow>
                  (case path_parent path of
                     None \<Rightarrow> Inl ENOENT
                   | Some node \<Rightarrow>
                       if ext_start (rb_deref node (rb_root bp)) < start
                       then (case rb_next_ptr node (rb_root bp) of
                               None \<Rightarrow> Inl ENOENT
                             | Some node \<Rightarrow> found node)
                       else found node))"

definition ext2fs_blkmap64_rbtree :: "ext2fs_rb_private bitmap_ops" where
  "ext2fs_blkmap64_rbtree =
     \<lparr>ops_new_bmap = rb_new_bmap,
      ops_copy_bmap = rb_copy_bmap,
      ops_resize_bmap = rb_resize_bmap,
      ops_mark_bmap = rb_mark_bmap,
      ops_unmark_bmap = rb_unmark_bmap,
      ops_test_bmap = rb_test_bmap,
      ops_mark_bmap_extent = rb_mark_bmap_extent,
      ops_unmark_bmap_extent = rb_unmark_bmap_extent,
      ops_test_clear_bmap_extent = rb_test_clear_bmap_extent,
      ops_set_bmap_range = rb_set_bmap_range,
      ops_get_bmap_range = rb_get_bmap_range,
      ops_clear_bmap = rb_clear_bmap,
      ops_find_first_zero = rb_find_first_zero,
      ops_find_first_set = rb_find_first_set\<rparr>"

end
