(* ===== verification/Blkmap64_rb_State.thy ===== *)
theory Blkmap64_rb_State
  imports Blkmap64_rb
begin

text \<open>
  The state of the red-black back end read as a list. Every pointer operation of
  \<^verbatim>\<open>blkmap64_rb.c\<close> (dereference, \<open>ext2fs_rb_next\<close>, store, erase and free, insertion of a node) is an
  operation on the in-order list of extents; \<open>rb_state bp xs\<close> says that the private data \<open>bp\<close> is a
  red-black tree that holds the extents \<open>xs\<close>, with three cursors that are null or valid.
\<close>

section \<open>Following a pointer\<close>

abbreviation addrs :: "bmap_rb_extent list \<Rightarrow> nat list" where
  "addrs xs \<equiv> map ext_addr xs"

fun hd_ptr :: "bmap_rb_extent list \<Rightarrow> nat option" where
  "hd_ptr [] = None"
| "hd_ptr (e # es) = Some (ext_addr e)"

lemma rb_find_Some:
  "rb_find a t path = Some z \<Longrightarrow>
     rb_zip (snd z) (fst z) = rb_zip path t \<and> (\<exists>e. pos_item z = Some e \<and> ext_addr e = a)"
  by (induction a t path rule: rb_find.induct) (auto split: if_splits option.splits)

lemma rb_find_None: "rb_find a t path = None \<Longrightarrow> a \<notin> set (addrs (rb_inorder t))"
  by (induction a t path rule: rb_find.induct) (auto split: if_splits option.splits)

lemma split_distinct:
  assumes "distinct (addrs (xs @ e # ys))" "xs @ e # ys = us @ f # vs" "ext_addr f = ext_addr e"
  shows "us = xs \<and> f = e \<and> vs = ys"
proof -
  have "addrs xs @ ext_addr e # addrs ys = addrs us @ ext_addr e # addrs vs"
    using assms(2,3) by (metis list.simps(9) map_append)
  moreover have "ext_addr e \<notin> set (addrs xs) \<union> set (addrs ys)" using assms(1) by auto
  ultimately have "length us = length xs"
    by (metis UnI1 UnI2 append_Cons_eq_iff length_map)
  with assms(2) show ?thesis by simp
qed

lemma rb_find_split:
  assumes "rb_inorder root = xs @ e # ys" "distinct (addrs (xs @ e # ys))"
  obtains z where "rb_find (ext_addr e) root [] = Some z" "rb_zip (snd z) (fst z) = root"
    "pos_before z = xs" "pos_item z = Some e" "pos_after z = ys"
proof -
  obtain z where z: "rb_find (ext_addr e) root [] = Some z"
    using rb_find_None [of "ext_addr e" root "[]"] assms(1) by fastforce
  from rb_find_Some [OF z] obtain f where f: "rb_zip (snd z) (fst z) = root"
    "pos_item z = Some f" "ext_addr f = ext_addr e" by auto
  with pos_split [of "fst z" "snd z" f] have "rb_inorder root = pos_before z @ f # pos_after z" by simp
  with split_distinct [OF assms(2), of "pos_before z" f "pos_after z"] assms(1) f(3)
  have "pos_before z = xs" "f = e" "pos_after z = ys" by simp_all
  with f z show ?thesis by (intro that) simp_all
qed

lemma rb_deref_split [simp]:
  assumes "rb_inorder root = xs @ e # ys" "distinct (addrs (xs @ e # ys))"
  shows "rb_deref (ext_addr e) root = e"
  by (rule rb_find_split [OF assms]) (simp add: rb_deref_def)

lemma rb_next_ptr_split:
  assumes "rb_inorder root = xs @ e # ys" "distinct (addrs (xs @ e # ys))"
  shows "rb_next_ptr (ext_addr e) root = hd_ptr ys"
proof (rule rb_find_split [OF assms])
  fix z
  assume z: "rb_find (ext_addr e) root [] = Some z" "pos_item z = Some e" "pos_after z = ys"
  show ?thesis
  proof (cases "ext2fs_rb_next z")
    case None
    with next_None [of z] z have "ys = []" by simp
    with z None show ?thesis by (simp add: rb_next_ptr_def pos_ptr_def)
  next
    case (Some z')
    with next_Some(2) [of z z'] z show ?thesis
      by (auto simp: rb_next_ptr_def pos_ptr_def)
  qed
qed

lemma rb_prev_ptr_split:
  assumes "rb_inorder root = xs @ e # ys" "distinct (addrs (xs @ e # ys))"
  shows "rb_prev_ptr (ext_addr e) root = hd_ptr (rev xs)"
proof (rule rb_find_split [OF assms])
  fix z
  assume z: "rb_find (ext_addr e) root [] = Some z" "pos_item z = Some e" "pos_before z = xs"
  show ?thesis
  proof (cases "ext2fs_rb_prev z")
    case None
    with prev_None [of z] z have "xs = []" by simp
    with z None show ?thesis by (simp add: rb_prev_ptr_def pos_ptr_def)
  next
    case (Some z')
    with prev_Some(2) [of z z'] z show ?thesis
      by (auto simp: rb_prev_ptr_def pos_ptr_def)
  qed
qed

lemma rb_erase_ptr_split:
  assumes "rb_inorder root = xs @ e # ys" "distinct (addrs (xs @ e # ys))"
  shows "rb_inorder (rb_erase_ptr (ext_addr e) root) = xs @ ys"
    and "rbt root \<Longrightarrow> rbt (rb_erase_ptr (ext_addr e) root)"
proof -
  obtain z where z: "rb_find (ext_addr e) root [] = Some z" "rb_zip (snd z) (fst z) = root"
    "pos_before z = xs" "pos_item z = Some e" "pos_after z = ys"
    by (rule rb_find_split [OF assms])
  then obtain c l r path where n: "z = (Node c l e r, path)"
    by (cases z rule: pos_item.cases) auto
  with z show "rb_inorder (rb_erase_ptr (ext_addr e) root) = xs @ ys"
    by (simp add: rb_erase_ptr_def inorder_erase)
  show "rbt root \<Longrightarrow> rbt (rb_erase_ptr (ext_addr e) root)"
    using z n rbt_erase [of path c l e r] by (simp add: rb_erase_ptr_def)
qed

section \<open>Stores keep the shape\<close>

lemma inorder_map [simp]: "rb_inorder (map_rbtree f t) = map f (rb_inorder t)"
  by (induction t) auto

lemma map_rbtree_Leaf [simp]: "map_rbtree f t = Leaf \<longleftrightarrow> t = Leaf"
  by (cases t) auto

lemma rbt_map [simp]: "rbt (map_rbtree f t) = rbt t"
proof -
  have red: "rb_is_red (map_rbtree f t) = rb_is_red t" for t by (cases t) auto
  have "rb_bheight (map_rbtree f t) = rb_bheight t" for t by (induction t) auto
  then have "inv_height (map_rbtree f t) = inv_height t" by (induction t) auto
  moreover have "inv_color (map_rbtree f t) = inv_color t" by (induction t) (auto simp: red)
  ultimately show ?thesis by (simp add: rbt_def red)
qed

lemma map_zip: "map_rbtree f (rb_zip path t) = rb_zip (map (map_crumb f) path) (map_rbtree f t)"
proof (induction path arbitrary: t)
  case (Cons k path)
  then show ?case by (cases k) auto
qed simp

lemma rbt_same_shape: "map_rbtree f t = map_rbtree f t' \<Longrightarrow> rbt t = rbt t'"
  by (metis rbt_map)

lemma rb_store_split:
  assumes "rb_inorder root = xs @ e # ys" "distinct (addrs (xs @ e # ys))"
  shows "rb_inorder (rb_store (ext_addr e) s c root)
       = xs @ e\<lparr>ext_start := s, ext_count := c\<rparr> # ys"
proof -
  have "map (\<lambda>f. if ext_addr f = ext_addr e then f\<lparr>ext_start := s, ext_count := c\<rparr> else f) zs = zs"
    if "ext_addr e \<notin> set (addrs zs)" for zs
    using that by (induction zs) auto
  with assms show ?thesis by (simp add: rb_store_def)
qed

lemma rbt_store [simp]: "rbt (rb_store a s c t) = rbt t"
  by (simp add: rb_store_def)

section \<open>The state as a list of extents\<close>

definition cursors_ok :: "nat list \<Rightarrow> nat option \<Rightarrow> nat option \<Rightarrow> nat option \<Rightarrow> bool" where
  "cursors_ok as w r n \<longleftrightarrow> (\<forall>a. w = Some a \<longrightarrow> a \<in> set as) \<and> (\<forall>a. r = Some a \<longrightarrow> a \<in> set as)
     \<and> (\<forall>a b. r = Some a \<longrightarrow> n = Some b \<longrightarrow> (\<exists>us vs. as = us @ a # b # vs))"

definition rb_state :: "ext2fs_rb_private \<Rightarrow> bmap_rb_extent list \<Rightarrow> bool" where
  "rb_state bp xs \<longleftrightarrow> rbt (rb_root bp) \<and> rb_inorder (rb_root bp) = xs \<and> distinct (addrs xs)
     \<and> cursors_ok (addrs xs) (rb_wcursor bp) (rb_rcursor bp) (rb_rcursor_next bp)"

lemma rb_stateD:
  assumes "rb_state bp xs"
  shows "rbt (rb_root bp)" "rb_inorder (rb_root bp) = xs" "distinct (addrs xs)"
    "cursors_ok (addrs xs) (rb_wcursor bp) (rb_rcursor bp) (rb_rcursor_next bp)"
  using assms by (auto simp: rb_state_def)

lemma rb_state_root_Leaf: "rb_state bp xs \<Longrightarrow> rb_root bp = Leaf \<longleftrightarrow> xs = []"
  by (cases "rb_root bp") (auto simp: rb_state_def)

lemma rb_state_fuel: "rb_state bp xs \<Longrightarrow> rb_fuel bp = length xs"
  by (simp add: rb_state_def rb_fuel_def)

lemma rb_state_deref: "rb_state bp (xs @ e # ys) \<Longrightarrow> rb_deref (ext_addr e) (rb_root bp) = e"
  by (rule rb_deref_split [OF rb_stateD(2,3)])

lemma rb_state_next: "rb_state bp (xs @ e # ys) \<Longrightarrow> rb_next_ptr (ext_addr e) (rb_root bp) = hd_ptr ys"
  by (rule rb_next_ptr_split [OF rb_stateD(2,3)])

lemma rb_state_prev:
  "rb_state bp (xs @ e # ys) \<Longrightarrow> rb_prev_ptr (ext_addr e) (rb_root bp) = hd_ptr (rev xs)"
  by (rule rb_prev_ptr_split [OF rb_stateD(2,3)])

lemma adjacent_remove:
  assumes "us @ a # b # vs = X @ e # Y" "a \<noteq> e" "b \<noteq> e"
  shows "\<exists>us vs. X @ Y = us @ a # b # vs"
proof -
  consider zs where "us = X @ zs" "zs @ a # b # vs = e # Y" | zs where "X = us @ zs" "a # b # vs = zs @ e # Y"
    using assms(1) by (auto simp: append_eq_append_conv2)
  then show ?thesis
  proof cases
    case 1
    with assms(2) obtain ws where "zs = e # ws" "Y = ws @ a # b # vs" by (cases zs) auto
    with 1 show ?thesis by (intro exI [of _ "X @ ws"] exI [of _ vs]) simp
  next
    case 2
    with assms(2,3) obtain ws where "zs = a # b # ws" "vs = ws @ e # Y"
      by (cases zs; cases "tl zs") auto
    with 2 show ?thesis by (intro exI [of _ us] exI [of _ "ws @ Y"]) simp
  qed
qed

lemma cursors_ok_remove:
  assumes "cursors_ok (as @ a # bs) w r n"
  shows "cursors_ok (as @ bs) (if w = Some a then None else w) (if r = Some a then None else r)
           (if n = Some a then None else n)"
proof -
  have "\<exists>us vs. as @ bs = us @ x # y # vs" if "r = Some x" "n = Some y" "x \<noteq> a" "y \<noteq> a" for x y
  proof -
    from assms that(1,2) obtain us vs where "us @ x # y # vs = as @ a # bs"
      by (fastforce simp: cursors_ok_def)
    from adjacent_remove [OF this that(3,4)] show ?thesis .
  qed
  moreover have "x \<in> set (as @ bs)" if "w = Some x \<or> r = Some x" "x \<noteq> a" for x
    using assms that by (auto simp: cursors_ok_def)
  ultimately show ?thesis
    unfolding cursors_ok_def by (intro conjI allI impI) (simp_all split: if_splits)
qed

lemma rb_state_erase_free:
  assumes "rb_state bp (xs @ e # ys)"
  shows "rb_state (rb_erase_free (ext_addr e) bp) (xs @ ys)"
proof -
  let ?a = "ext_addr e"
  note s = rb_stateD [OF assms]
  have c: "cursors_ok (addrs (xs @ ys)) (if rb_wcursor bp = Some ?a then None else rb_wcursor bp)
     (if rb_rcursor bp = Some ?a then None else rb_rcursor bp)
     (if rb_rcursor_next bp = Some ?a then None else rb_rcursor_next bp)"
    using cursors_ok_remove [of "addrs xs" ?a "addrs ys"] s(4) by simp
  have "rb_erase_free ?a bp =
      \<lparr>rb_root = rb_erase_ptr ?a (rb_root bp),
       rb_wcursor = (if rb_wcursor bp = Some ?a then None else rb_wcursor bp),
       rb_rcursor = (if rb_rcursor bp = Some ?a then None else rb_rcursor bp),
       rb_rcursor_next = (if rb_rcursor_next bp = Some ?a then None else rb_rcursor_next bp)\<rparr>"
    by (cases bp) (simp add: rb_erase_free_def rb_free_extent_def)
  with c s rb_erase_ptr_split [OF s(2,3)] show ?thesis
    by (auto simp: rb_state_def)
qed

lemma rb_state_store:
  assumes "rb_state bp (xs @ e # ys)"
  shows "rb_state (bp\<lparr>rb_root := rb_store (ext_addr e) s c (rb_root bp)\<rparr>)
           (xs @ e\<lparr>ext_start := s, ext_count := c\<rparr> # ys)"
  using rb_stateD [OF assms] rb_store_split [of "rb_root bp" xs e ys s c]
  by (simp add: rb_state_def)

text \<open>A change of the extents' bounds that keeps the tree's shape and the addresses.\<close>

lemma rb_state_same_shape:
  assumes "rb_state bp xs" "map_rbtree ext_addr root = map_rbtree ext_addr (rb_root bp)"
  shows "rb_state (bp\<lparr>rb_root := root\<rparr>) (rb_inorder root)"
proof -
  have "addrs (rb_inorder root) = addrs xs"
    using arg_cong [OF assms(2), of rb_inorder] rb_stateD(2) [OF assms(1)] by simp
  then show ?thesis
    using rb_stateD [OF assms(1)] rbt_same_shape [OF assms(2)]
    by (auto simp: rb_state_def)
qed

lemma rb_state_no_next:
  "rb_state bp xs \<Longrightarrow> rb_state (bp\<lparr>rb_rcursor_next := None\<rparr>) xs"
  "rb_state bp xs \<Longrightarrow> rb_state (bp\<lparr>rb_rcursor := None, rb_rcursor_next := None\<rparr>) xs"
  "rb_state bp xs \<Longrightarrow> a \<in> set (addrs xs) \<Longrightarrow>
   rb_state (bp\<lparr>rb_rcursor := Some a, rb_rcursor_next := None\<rparr>) xs"
  by (auto simp: rb_state_def cursors_ok_def)

lemma rb_new_addr_fresh: "rb_new_addr t \<notin> set (addrs (rb_inorder t))"
proof -
  have "a \<le> foldr max as 0" if "a \<in> set as" for a and as :: "nat list"
    using that by (induction as) auto
  then show ?thesis by (fastforce simp: rb_new_addr_def)
qed

lemma path_of_leaf:
  assumes "rbt (rb_zip path Leaf)"
  shows "path_height path 0" "path_color path False"
  using assms by (auto simp: rbt_zip)

lemma rbt_link:
  assumes "rbt (rb_zip path Leaf)"
  shows "rbt (ext2fs_rb_insert_color (ext2fs_rb_link_node x) path)"
  using path_of_leaf [OF assms] by (simp add: ext2fs_rb_link_node_def rbt_insert_color)

lemma rb_state_insert:
  assumes "rb_state bp (path_before path @ path_after path)" "rb_zip path Leaf = rb_root bp"
    "rb_rcursor_next bp = None" "ext_addr x = rb_new_addr (rb_root bp)"
  shows "rb_state (bp\<lparr>rb_root := ext2fs_rb_insert_color (ext2fs_rb_link_node x) path,
                      rb_wcursor := Some (ext_addr x)\<rparr>)
           (path_before path @ x # path_after path)"
proof -
  note s = rb_stateD [OF assms(1)]
  have "ext_addr x \<notin> set (addrs (path_before path @ path_after path))"
    using rb_new_addr_fresh [of "rb_root bp"] s(2) assms(4) by simp
  moreover have "rbt (ext2fs_rb_insert_color (ext2fs_rb_link_node x) path)"
    using rbt_link s(1) assms(2) by metis
  ultimately show ?thesis
    using s assms(3) by (auto simp: rb_state_def cursors_ok_def ext2fs_rb_link_node_def)
qed

lemma path_parent_spec:
  "path_parent path = hd_ptr (path_after path) \<or>
   (\<exists>us e. path_before path = us @ [e] \<and> path_parent path = Some (ext_addr e))"
  by (cases path rule: path_parent.cases) auto

end
