(* ===== verification/Blkmap64_rb_Ops.thy ===== *)
theory Blkmap64_rb_Ops
  imports Blkmap64_rb_State
begin

text \<open>
  The engine of the red-black back end: \<open>rb_insert_extent\<close>, \<open>rb_remove_extent\<close>, \<open>rb_test_bit\<close> and the
  searches, each as an operation on the set of numbers the extents cover.
\<close>

section \<open>Extents as intervals\<close>

definition es :: "bmap_rb_extent \<Rightarrow> nat" where
  "es e = unat (ext_start e)"

definition ee :: "bmap_rb_extent \<Rightarrow> nat" where
  "ee e = unat (ext_start e) + unat (ext_count e)"

definition ext_ok :: "bmap_rb_extent \<Rightarrow> bool" where
  "ext_ok e \<longleftrightarrow> es e < ee e \<and> ee e < 2 ^ 64"

text \<open>What \<open>check_tree\<close> asserts: no empty extent, in order, and neither overlapping nor adjacent.\<close>

definition exts_ok :: "bmap_rb_extent list \<Rightarrow> bool" where
  "exts_ok xs \<longleftrightarrow> (\<forall>e \<in> set xs. ext_ok e) \<and> sorted_wrt (\<lambda>e f. ee e < es f) xs"

definition ext_bits :: "bmap_rb_extent list \<Rightarrow> nat set" where
  "ext_bits xs = (\<Union>e \<in> set xs. {es e ..< ee e})"

named_theorems ext_arith \<open>word conditions on extents as conditions on natural numbers\<close>

lemma unat_ext_end [ext_arith]: "ext_ok e \<Longrightarrow> unat (ext_end e) = ee e"
  unfolding ext_ok_def ee_def ext_end_def by (simp add: unat_add_no_wrap)

lemma unat_ext_start [ext_arith]: "unat (ext_start e) = es e"
  by (simp add: es_def)

lemmas [ext_arith] = word_less_nat_alt word_le_nat_alt

lemma unat_add64 [ext_arith]:
  "unat a + unat b < 2 ^ 64 \<Longrightarrow> unat ((a :: u64) + b) = unat a + unat b"
  by (simp add: unat_add_no_wrap)

lemma es_ee_update [simp]:
  "es (e\<lparr>ext_start := s, ext_count := c\<rparr>) = unat s"
  "ee (e\<lparr>ext_start := s, ext_count := c\<rparr>) = unat s + unat c"
  "es (e\<lparr>ext_start := s\<rparr>) = unat s" "es (e\<lparr>ext_count := c\<rparr>) = es e" "ee (e\<lparr>ext_count := c\<rparr>) = es e + unat c"
  "es \<lparr>ext_addr = a, ext_start = s, ext_count = c\<rparr> = unat s"
  "ee \<lparr>ext_addr = a, ext_start = s, ext_count = c\<rparr> = unat s + unat c"
  by (simp_all add: es_def ee_def)

lemma exts_ok_append [simp]:
  "exts_ok (xs @ ys) \<longleftrightarrow> exts_ok xs \<and> exts_ok ys \<and> (\<forall>e \<in> set xs. \<forall>f \<in> set ys. ee e < es f)"
  by (auto simp: exts_ok_def sorted_wrt_append)

lemma exts_ok_Cons [simp]:
  "exts_ok (e # xs) \<longleftrightarrow> ext_ok e \<and> exts_ok xs \<and> (\<forall>f \<in> set xs. ee e < es f)"
  by (auto simp: exts_ok_def)

lemma exts_ok_Nil [simp]: "exts_ok []"
  by (simp add: exts_ok_def)

lemma ext_bits_simps [simp]:
  "ext_bits [] = {}" "ext_bits (e # xs) = {es e ..< ee e} \<union> ext_bits xs"
  "ext_bits (xs @ ys) = ext_bits xs \<union> ext_bits ys"
  by (auto simp: ext_bits_def)

lemma exts_okD: "exts_ok xs \<Longrightarrow> e \<in> set xs \<Longrightarrow> ext_ok e"
  by (simp add: exts_ok_def)

lemma ext_bits_mem: "n \<in> ext_bits xs \<longleftrightarrow> (\<exists>e \<in> set xs. es e \<le> n \<and> n < ee e)"
  by (auto simp: ext_bits_def)

lemma ball_lt_mono: "\<forall>f \<in> S. b < (g f :: nat) \<Longrightarrow> a \<le> b \<Longrightarrow> \<forall>f \<in> S. a < g f"
  by (meson le_less_trans)

lemma ball_mono_lt: "\<forall>f \<in> S. (g f :: nat) < b \<Longrightarrow> b \<le> a \<Longrightarrow> \<forall>f \<in> S. g f < a"
  by (meson less_le_trans)

lemma ball_lt_le: "\<forall>f \<in> S. (g f :: nat) < b \<Longrightarrow> \<forall>f \<in> S. g f \<le> b"
  by (meson less_imp_le)

section \<open>Descending\<close>

lemma rb_search_zip:
  "rb_search s t path = (t', path') \<Longrightarrow> rb_zip path' t' = rb_zip path t"
  by (induction s t path rule: rb_search.induct) (auto split: if_splits)

lemma rb_search_Node:
  "rb_search s t path = (Node c l e r, path') \<Longrightarrow> \<not> s < ext_start e \<and> s < ext_end e"
  by (induction s t path rule: rb_search.induct) (auto split: if_splits)

lemma rb_search_Leaf:
  assumes "rb_search s t path = (Leaf, path')"
    "exts_ok (path_before path @ rb_inorder t @ path_after path)"
    "\<forall>e \<in> set (path_before path). ee e \<le> unat s" "\<forall>e \<in> set (path_after path). unat s < es e"
  shows "(\<forall>e \<in> set (path_before path'). ee e \<le> unat s) \<and> (\<forall>e \<in> set (path_after path'). unat s < es e)"
  using assms
proof (induction s t path rule: rb_search.induct)
  case (2 s c l ext r path)
  have ok: "es ext < ee ext" "ext_ok ext" "\<forall>f \<in> set (rb_inorder l). ee f < es ext"
    "\<forall>f \<in> set (rb_inorder r). ee ext < es f"
    using "2.prems"(2) by (simp_all add: ext_ok_def)
  consider "unat s < es ext" | "\<not> unat s < es ext" "ee ext \<le> unat s"
    | "\<not> unat s < es ext" "\<not> ee ext \<le> unat s" by blast
  then show ?case
  proof cases
    case 1
    then have "\<forall>f \<in> set (rb_inorder r). unat s < es f" using ok(1) by (intro ball_lt_mono [OF ok(4)]) linarith
    moreover have lt: "s < ext_start ext" using 1 by (simp add: ext_arith)
    ultimately show ?thesis using "2.IH"(1) [OF lt] "2.prems" 1 by (simp add: ball_Un)
  next
    case c: 2
    then have "\<forall>f \<in> set (rb_inorder l). ee f \<le> unat s"
      using ok(1) by (intro ball_lt_le [OF ball_mono_lt [OF ok(3)]]) linarith
    moreover have ge: "\<not> s < ext_start ext" "ext_end ext \<le> s" using c ok(2) by (simp_all add: ext_arith)
    ultimately show ?thesis using "2.IH"(2) [OF ge] "2.prems" c by (simp add: ball_Un)
  next
    case 3
    with "2.prems"(1) ok(2) show ?thesis by (simp add: ext_arith)
  qed
qed simp

lemma rb_search_insert_zip:
  "rb_search_insert s t path = (t', path') \<Longrightarrow> rb_zip path' t' = rb_zip path t"
  by (induction s t path rule: rb_search_insert.induct) (auto split: if_splits)

lemma rb_search_insert_Node:
  "rb_search_insert s t path = (Node c l e r, path') \<Longrightarrow> \<not> s < ext_start e \<and> \<not> ext_end e < s"
  by (induction s t path rule: rb_search_insert.induct) (auto split: if_splits)

lemma rb_search_insert_Leaf:
  assumes "rb_search_insert s t path = (Leaf, path')"
    "exts_ok (path_before path @ rb_inorder t @ path_after path)"
    "\<forall>e \<in> set (path_before path). ee e < unat s" "\<forall>e \<in> set (path_after path). unat s < es e"
  shows "(\<forall>e \<in> set (path_before path'). ee e < unat s) \<and> (\<forall>e \<in> set (path_after path'). unat s < es e)"
  using assms
proof (induction s t path rule: rb_search_insert.induct)
  case (2 s c l ext r path)
  have ok: "es ext < ee ext" "ext_ok ext" "\<forall>f \<in> set (rb_inorder l). ee f < es ext"
    "\<forall>f \<in> set (rb_inorder r). ee ext < es f"
    using "2.prems"(2) by (simp_all add: ext_ok_def)
  consider "unat s < es ext" | "\<not> unat s < es ext" "ee ext < unat s"
    | "\<not> unat s < es ext" "\<not> ee ext < unat s" by blast
  then show ?case
  proof cases
    case 1
    then have "\<forall>f \<in> set (rb_inorder r). unat s < es f" using ok(1) by (intro ball_lt_mono [OF ok(4)]) linarith
    moreover have lt: "s < ext_start ext" using 1 by (simp add: ext_arith)
    ultimately show ?thesis using "2.IH"(1) [OF lt] "2.prems" 1 by (simp add: ball_Un)
  next
    case c: 2
    then have "\<forall>f \<in> set (rb_inorder l). ee f < unat s" using ok(1) by (intro ball_mono_lt [OF ok(3)]) linarith
    moreover have ge: "\<not> s < ext_start ext" "ext_end ext < s" using c ok(2) by (simp_all add: ext_arith)
    ultimately show ?thesis using "2.IH"(2) [OF ge] "2.prems" c by (simp add: ball_Un)
  next
    case 3
    with "2.prems"(1) ok(2) show ?thesis by (simp add: ext_arith)
  qed
qed simp

section \<open>Insertion\<close>

lemma rb_merge_loop_spec:
  assumes "rb_state bp (xs @ n # ys)" "length ys \<le> fuel" "exts_ok ys"
    "\<forall>f \<in> set ys. unat s < es f" "unat s + unat c < 2 ^ 64" "0 < unat c"
  shows "\<exists>c' bp' ys'. rb_merge_loop fuel (hd_ptr ys) s c bp = (c', bp') \<and> rb_state bp' (xs @ n # ys')
    \<and> exts_ok ys' \<and> (\<forall>f \<in> set ys'. unat s + unat c' < es f) \<and> unat s + unat c' < 2 ^ 64
    \<and> 0 < unat c' \<and> {unat s ..< unat s + unat c'} \<union> ext_bits ys'
         = {unat s ..< unat s + unat c} \<union> ext_bits ys"
  using assms
proof (induction ys arbitrary: c bp fuel)
  case Nil
  then show ?case by auto
next
  case (Cons f ys)
  from Cons.prems(2) obtain k where k: "fuel = Suc k" "length ys \<le> k" by (cases fuel) auto
  have st: "rb_state bp ((xs @ [n]) @ f # ys)" using Cons.prems(1) by simp
  note ptr = rb_state_next [OF st] rb_state_deref [OF st]
  have f: "ext_ok f" "unat s < es f" "es f < ee f" "ee f < 2 ^ 64" "\<forall>g \<in> set ys. ee f < es g"
    using Cons.prems by (auto simp: ext_ok_def)
  have go: "rb_merge_loop fuel (hd_ptr (f # ys)) s c bp =
      (if s + c < ext_start f then (c, bp)
       else if ext_end f \<le> s + c then rb_merge_loop k (hd_ptr ys) s c (rb_erase_free (ext_addr f) bp)
       else (c + (ext_end f - (s + c)), rb_erase_free (ext_addr f) bp))"
    using f Cons.prems by (simp add: k ptr Let_def ext_arith del: unat_ext_start)
  have st': "rb_state (rb_erase_free (ext_addr f) bp) (xs @ n # ys)"
    using rb_state_erase_free [OF st] by simp
  consider "unat s + unat c < es f" | "ee f \<le> unat s + unat c"
    | "es f \<le> unat s + unat c" "unat s + unat c < ee f" by linarith
  then show ?case
  proof cases
    case 1
    then have "\<forall>g \<in> set (f # ys). unat s + unat c < es g" using f by auto
    with 1 Cons.prems go show ?thesis by (intro exI [of _ c] exI [of _ bp] exI [of _ "f # ys"]) (simp add: ext_arith)
  next
    case 2
    have "rb_merge_loop fuel (hd_ptr (f # ys)) s c bp
        = rb_merge_loop k (hd_ptr ys) s c (rb_erase_free (ext_addr f) bp)"
      using 2 f Cons.prems go by (simp add: ext_arith)
    moreover have "{unat s ..< unat s + unat c} \<union> ext_bits (f # ys) = {unat s ..< unat s + unat c} \<union> ext_bits ys"
      using 2 f by auto
    ultimately show ?thesis
      using Cons.IH [OF st' k(2)] Cons.prems by auto
  next
    case 3
    have "unat (ext_end f - s) = ee f - unat s"
      using 3 f(1,2) by (simp add: ext_arith unat_sub_no_wrap)
    moreover have "{unat s ..< ee f} \<union> ext_bits ys = {unat s ..< unat s + unat c} \<union> ext_bits (f # ys)"
      using 3 f(2) by auto
    moreover have "rb_merge_loop fuel (hd_ptr (f # ys)) s c bp = (ext_end f - s, rb_erase_free (ext_addr f) bp)"
      using 3 f(1) Cons.prems(5) go by (simp add: ext_arith)
    ultimately show ?thesis
      using 3 f st' Cons.prems(3)
      by (intro exI [of _ "ext_end f - s"] exI [of _ "rb_erase_free (ext_addr f) bp"] exI [of _ ys]) simp
  qed
qed

lemma rb_insert_finish_spec:
  assumes "rb_state bp (xs @ n # ys)" "exts_ok xs" "exts_ok ys" "\<forall>e \<in> set xs. ee e < unat s"
    "\<forall>f \<in> set ys. unat s < es f" "unat s + unat c < 2 ^ 64" "0 < unat c"
  shows "\<exists>zs. rb_state (rb_insert_finish (ext_addr n) s c bp) zs \<and> exts_ok zs
    \<and> ext_bits zs = ext_bits xs \<union> {unat s ..< unat s + unat c} \<union> ext_bits ys"
proof -
  have "length ys \<le> rb_fuel bp" using rb_state_fuel [OF assms(1)] by simp
  with rb_merge_loop_spec [OF assms(1) _ assms(3,5,6,7)] obtain c' bp' ys' where
    loop: "rb_merge_loop (rb_fuel bp) (hd_ptr ys) s c bp = (c', bp')"
    and st: "rb_state bp' (xs @ n # ys')" and ok: "exts_ok ys'"
    "\<forall>f \<in> set ys'. unat s + unat c' < es f" "unat s + unat c' < 2 ^ 64" "0 < unat c'"
    and bits: "{unat s ..< unat s + unat c'} \<union> ext_bits ys'
         = {unat s ..< unat s + unat c} \<union> ext_bits ys" by blast
  let ?n = "n\<lparr>ext_start := s, ext_count := c'\<rparr>"
  have "rb_insert_finish (ext_addr n) s c bp
      = bp'\<lparr>rb_root := rb_store (ext_addr n) s c' (rb_root bp')\<rparr>"
    by (simp add: rb_insert_finish_def rb_state_next [OF assms(1)] loop)
  with rb_state_store [OF st] have "rb_state (rb_insert_finish (ext_addr n) s c bp) (xs @ ?n # ys')"
    by simp
  moreover have "\<forall>e \<in> set xs. \<forall>f \<in> set ys'. ee e < es f"
    using ok(2) assms(4) by (meson less_trans trans_less_add1)
  then have "exts_ok (xs @ ?n # ys')"
    using ok assms(2,4) by (simp add: ext_ok_def)
  moreover have "ext_bits (xs @ ?n # ys') = ext_bits xs \<union> {unat s ..< unat s + unat c} \<union> ext_bits ys"
    using bits by auto
  ultimately show ?thesis by blast
qed

lemma ext_bits_bounds:
  "\<forall>e \<in> set xs. ee e \<le> n \<Longrightarrow> m \<in> ext_bits xs \<Longrightarrow> m < n"
  "\<forall>e \<in> set xs. n \<le> es e \<Longrightarrow> m \<in> ext_bits xs \<Longrightarrow> n \<le> m"
  by (auto simp: ext_bits_mem)

text \<open>The branch that extends an extent which holds \<open>s\<close> or ends there.\<close>

lemma rb_got_extent_spec:
  assumes "rb_state bp (xs @ e # ys)" "exts_ok (xs @ e # ys)" "es e \<le> unat s" "unat s \<le> ee e"
    "unat s + unat c < 2 ^ 64" "0 < unat c"
  shows "\<exists>zs. rb_state (fst (rb_got_extent e s c bp)) zs \<and> exts_ok zs
    \<and> ext_bits zs = ext_bits (xs @ e # ys) \<union> {unat s ..< unat s + unat c}"
    and "snd (rb_got_extent e s c bp) \<noteq> 0 \<longleftrightarrow> unat s \<in> ext_bits (xs @ e # ys)"
proof -
  have e: "ext_ok e" "\<forall>f \<in> set xs. ee f < es e" "\<forall>f \<in> set ys. ee e < es f" "exts_ok xs" "exts_ok ys"
    using assms(2) by auto
  have out: "unat s \<notin> ext_bits ys" "unat s \<notin> ext_bits xs"
    using e assms(3,4) by (fastforce simp: ext_bits_mem)+
  have split: "rb_got_extent e s c bp =
      (if unat s + unat c \<le> ee e then (bp, 1)
       else (rb_insert_finish (ext_addr e) (ext_start e) (c + (s - ext_start e)) bp,
             if ee e = unat s then 0 else 1))"
    using e assms by (simp add: rb_got_extent_def Let_def ext_arith word_unat_eq_iff)
  show "snd (rb_got_extent e s c bp) \<noteq> 0 \<longleftrightarrow> unat s \<in> ext_bits (xs @ e # ys)"
    using out assms(3,4,6) by (auto simp: split)
  have "unat (s - ext_start e) = unat s - es e"
    using assms(3) by (simp add: ext_arith unat_sub_no_wrap)
  then have c: "unat (c + (s - ext_start e)) = unat c + (unat s - es e)"
    using assms(3,5) by (simp add: ext_arith)
  have "es e < ee e" using e(1) by (simp add: ext_ok_def)
  then have "\<forall>f \<in> set ys. es e < es f" by (intro ball_lt_mono [OF e(3)]) simp
  moreover have "es e + unat (c + (s - ext_start e)) = unat s + unat c" using assms(3) c by simp
  ultimately have "\<exists>zs. rb_state (rb_insert_finish (ext_addr e) (ext_start e) (c + (s - ext_start e)) bp) zs
      \<and> exts_ok zs \<and> ext_bits zs = ext_bits xs \<union> {es e ..< unat s + unat c} \<union> ext_bits ys"
    using rb_insert_finish_spec [OF assms(1) e(4,5), of "ext_start e" "c + (s - ext_start e)"]
      e(2) assms(5,6) c by (simp add: unat_ext_start add.commute)
  moreover have "{es e ..< unat s + unat c} = {es e ..< ee e} \<union> {unat s ..< unat s + unat c}"
    if "\<not> unat s + unat c \<le> ee e" using that assms(3,4) by auto
  moreover have "{unat s ..< unat s + unat c} \<subseteq> {es e ..< ee e}" if "unat s + unat c \<le> ee e"
    using that assms(3) by auto
  ultimately show "\<exists>zs. rb_state (fst (rb_got_extent e s c bp)) zs \<and> exts_ok zs
    \<and> ext_bits zs = ext_bits (xs @ e # ys) \<union> {unat s ..< unat s + unat c}"
    using assms(1,2) by (auto simp: split Un_ac)
qed

lemma hd_ptr_rev: "hd_ptr (rev xs) = Some a \<Longrightarrow> \<exists>us e. xs = us @ [e] \<and> a = ext_addr e"
  by (cases xs rule: rev_cases) auto

lemma addr_split: "a \<in> set (addrs xs) \<Longrightarrow> \<exists>us e vs. xs = us @ e # vs \<and> ext_addr e = a"
  by (fastforce simp: in_set_conv_decomp)

lemma rb_insert_new_spec:
  assumes st: "rb_state bp (path_before path @ path_after path)" and z: "rb_zip path Leaf = rb_root bp"
    and n: "rb_rcursor_next bp = None" and ok: "exts_ok (path_before path @ path_after path)"
    and lo: "\<forall>e \<in> set (path_before path). ee e < unat s"
    and hi: "\<forall>f \<in> set (path_after path). unat s < es f"
    and c: "unat s + unat c < 2 ^ 64" "0 < unat c"
  shows "\<exists>zs. rb_state (rb_insert_new path s c bp) zs \<and> exts_ok zs
    \<and> ext_bits zs = ext_bits (path_before path @ path_after path) \<union> {unat s ..< unat s + unat c}"
proof -
  define x where "x = rb_get_new_extent (rb_root bp) s c"
  define bp' where "bp' = bp\<lparr>rb_root := ext2fs_rb_insert_color (ext2fs_rb_link_node x) path,
                             rb_wcursor := Some (ext_addr x)\<rparr>"
  have "ext_addr x = rb_new_addr (rb_root bp)" by (simp add: x_def rb_get_new_extent_def)
  from rb_state_insert [OF st z n this]
  have st': "rb_state bp' (path_before path @ x # path_after path)" unfolding bp'_def .
  have new: "rb_insert_new path s c bp =
     (case rb_prev_ptr (ext_addr x) (rb_root bp') of
        None \<Rightarrow> rb_insert_finish (ext_addr x) s c bp'
      | Some node \<Rightarrow>
          let ext = rb_deref node (rb_root bp')
          in if ext_end ext = s
             then rb_insert_finish (ext_addr x) (ext_start ext) (c + ext_count ext) (rb_erase_free node bp')
             else rb_insert_finish (ext_addr x) s c bp')"
    unfolding rb_insert_new_def Let_def x_def bp'_def by (rule refl)
  have "rb_insert_new path s c bp = rb_insert_finish (ext_addr x) s c bp'"
  proof (cases "hd_ptr (rev (path_before path))")
    case None
    then show ?thesis
      using rb_state_prev [OF st'] by (simp add: new)
  next
    case (Some a)
    then obtain us e where e: "path_before path = us @ [e]" "a = ext_addr e" by (auto dest: hd_ptr_rev)
    have "rb_deref a (rb_root bp') = e"
      using rb_state_deref [of bp' us e "x # path_after path"] st' e by simp
    moreover have "ext_end e \<noteq> s"
    proof
      assume "ext_end e = s"
      with unat_ext_end [of e] e ok lo show False by auto
    qed
    ultimately show ?thesis
      using rb_state_prev [OF st'] Some by (simp add: new)
  qed
  with rb_insert_finish_spec [OF st' _ _ lo hi c] ok show ?thesis by (simp add: Un_ac)
qed

text \<open>
  Where the insertion starts: at an extent (the cursor's or the one found) that holds \<open>s\<close> or ends
  there, or at an empty place.
\<close>

lemma rb_insert_extent_cases:
  assumes "rb_state bp xs" "c \<noteq> 0" "bp0 = bp\<lparr>rb_rcursor_next := None\<rparr>"
  obtains (found) us e vs where "xs = us @ e # vs" "\<not> s < ext_start e" "\<not> ext_end e < s"
      "rb_insert_extent s c bp = rb_got_extent e s c bp0"
    | (hole) path where "rb_search_insert s (rb_root bp0) [] = (Leaf, path)"
      "rb_insert_extent s c bp = (rb_insert_new path s c bp0, 0)"
proof -
  have st: "rb_state bp0 xs" using rb_state_no_next(1) [OF assms(1)] assms(3) by simp
  define cur where "cur = Option.bind (rb_wcursor bp0)
                    (\<lambda>w. let ext = rb_deref w (rb_root bp0)
                         in if ext_start ext \<le> s \<and> s \<le> ext_end ext then Some ext else None)"
  have ins: "rb_insert_extent s c bp =
     (case cur of
        Some ext \<Rightarrow> rb_got_extent ext s c bp0
      | None \<Rightarrow> (case rb_search_insert s (rb_root bp0) [] of
                  (Node _ _ ext _, _) \<Rightarrow> rb_got_extent ext s c bp0
                | (Leaf, path) \<Rightarrow> (rb_insert_new path s c bp0, 0)))"
    using assms(2) unfolding rb_insert_extent_def Let_def cur_def assms(3) by (simp only: if_False)
  show thesis
  proof (cases cur)
    case (Some e)
    then obtain w where w: "rb_wcursor bp0 = Some w" "rb_deref w (rb_root bp0) = e"
      "ext_start e \<le> s" "s \<le> ext_end e"
      by (cases "rb_wcursor bp0") (simp_all add: cur_def Let_def split: if_split_asm)
    then have "w \<in> set (addrs xs)" using rb_stateD(4) [OF st] by (auto simp: cursors_ok_def)
    then obtain us f vs where f: "xs = us @ f # vs" "ext_addr f = w"
      using addr_split [of w xs] by blast
    with w(2) st rb_state_deref [of bp0 us f vs] have "f = e" by simp
    with f w Some ins show thesis by (intro found) auto
  next
    case None
    obtain t path where t: "rb_search_insert s (rb_root bp0) [] = (t, path)" by fastforce
    show thesis
    proof (cases t)
      case Leaf
      with t None ins show thesis by (intro hole) auto
    next
      case (Node k l e r)
      have "xs = (path_before path @ rb_inorder l) @ e # (rb_inorder r @ path_after path)"
        using arg_cong [OF rb_search_insert_zip [OF t], of rb_inorder] rb_stateD(2) [OF st] Node by simp
      then show thesis
        using rb_search_insert_Node [of s "rb_root bp0" "[]" k l e r path] t Node None ins
        by (intro found [of "path_before path @ rb_inorder l" e "rb_inorder r @ path_after path"])
          simp_all
    qed
  qed
qed

lemma rb_insert_extent_spec:
  assumes "rb_state bp xs" "exts_ok xs" "unat s + unat c < 2 ^ 64"
  shows "\<exists>zs. rb_state (fst (rb_insert_extent s c bp)) zs \<and> exts_ok zs
      \<and> ext_bits zs = ext_bits xs \<union> {unat s ..< unat s + unat c}"
    and "c \<noteq> 0 \<Longrightarrow> snd (rb_insert_extent s c bp) \<noteq> 0 \<longleftrightarrow> unat s \<in> ext_bits xs"
proof -
  define bp0 where "bp0 = bp\<lparr>rb_rcursor_next := None\<rparr>"
  have st: "rb_state bp0 xs" using rb_state_no_next(1) [OF assms(1)] by (simp add: bp0_def)
  have "(\<exists>zs. rb_state (fst (rb_insert_extent s c bp)) zs \<and> exts_ok zs
      \<and> ext_bits zs = ext_bits xs \<union> {unat s ..< unat s + unat c})
      \<and> (snd (rb_insert_extent s c bp) \<noteq> 0 \<longleftrightarrow> unat s \<in> ext_bits xs)" if "c \<noteq> 0"
  proof -
    have c: "0 < unat c" using that by (simp add: unat_gt_0)
    from assms(1) that bp0_def show ?thesis
    proof (cases rule: rb_insert_extent_cases [of bp xs c bp0 s])
      case (found us e vs)
      then have "es e \<le> unat s" "unat s \<le> ee e" "ext_ok e" 
        using assms(2) by (auto simp: ext_arith not_less)
      with rb_got_extent_spec [of bp0 us e vs s c] found st assms(2,3) c show ?thesis by simp
    next
      case (hole path)
      note z = rb_search_insert_zip [OF hole(1)]
      have xs: "path_before path @ path_after path = xs"
        using arg_cong [OF z, of rb_inorder] rb_stateD(2) [OF st] by simp
      have b: "(\<forall>e \<in> set (path_before path). ee e < unat s) \<and> (\<forall>e \<in> set (path_after path). unat s < es e)"
        using rb_search_insert_Leaf [OF hole(1)] assms(2) rb_stateD(2) [OF st] by simp
      have "unat s \<notin> ext_bits xs"
        using b xs [symmetric] by (fastforce simp: ext_bits_mem)
      with rb_insert_new_spec [of bp0 path s c] xs z st b c assms(2,3) hole(2) show ?thesis
        by (simp add: bp0_def)
    qed
  qed
  moreover have "rb_insert_extent s c bp = (bp, 0)" if "c = 0"
    using that by (simp add: rb_insert_extent_def)
  ultimately show "\<exists>zs. rb_state (fst (rb_insert_extent s c bp)) zs \<and> exts_ok zs
      \<and> ext_bits zs = ext_bits xs \<union> {unat s ..< unat s + unat c}"
    "c \<noteq> 0 \<Longrightarrow> snd (rb_insert_extent s c bp) \<noteq> 0 \<longleftrightarrow> unat s \<in> ext_bits xs"
    using assms(1,2) by (cases "c = 0"; auto)+
qed

section \<open>Removal\<close>

lemma rb_remove_loop_spec:
  assumes "rb_state bp (us @ zs)" "length zs \<le> fuel" "exts_ok zs"
    "\<forall>f \<in> set zs. ee f \<le> unat s \<or> unat s < es f" "unat s + unat c < 2 ^ 64"
  shows "\<exists>bp' zs' rv'. rb_remove_loop fuel (hd_ptr zs) s c bp rv = (bp', rv') \<and> rb_state bp' (us @ zs')
    \<and> exts_ok zs' \<and> (\<forall>f \<in> set zs'. \<exists>g \<in> set zs. es g \<le> es f)
    \<and> ext_bits zs' = ext_bits zs - {unat s ..< unat s + unat c}
    \<and> (rv' \<noteq> 0 \<longleftrightarrow> rv \<noteq> 0 \<or> ext_bits zs \<inter> {unat s .. unat s + unat c} \<noteq> {})"
  using assms
proof (induction zs arbitrary: us bp fuel rv)
  case Nil
  then show ?case by auto
next
  case (Cons f zs)
  have tl: "exts_ok zs" "\<forall>f \<in> set zs. ee f \<le> unat s \<or> unat s < es f" using Cons.prems(3,4) by simp_all
  from Cons.prems(2) obtain k where k: "fuel = Suc k" "length zs \<le> k" by (cases fuel) auto
  note st = Cons.prems(1)
  note ptr = rb_state_next [OF st] rb_state_deref [OF st]
  have f: "ext_ok f" "es f < ee f" "ee f < 2 ^ 64" "\<forall>g \<in> set zs. ee f < es g"
    "ee f \<le> unat s \<or> unat s < es f"
    using Cons.prems by (auto simp: ext_ok_def)
  have sc: "unat (s + c) = unat s + unat c" using Cons.prems(5) by (simp add: ext_arith)
  have go: "rb_remove_loop fuel (hd_ptr (f # zs)) s c bp rv =
      (if ee f \<le> unat s then rb_remove_loop k (hd_ptr zs) s c bp rv
       else if unat s + unat c < es f then (bp, rv)
       else if ee f \<le> unat s + unat c
       then rb_remove_loop k (hd_ptr zs) s c (rb_erase_free (ext_addr f) bp) 1
       else (bp\<lparr>rb_root := rb_store (ext_addr f) (s + c)
                             (ext_count f - ((s + c) - ext_start f)) (rb_root bp)\<rparr>, 1))"
    using f(1) by (simp add: k ptr Let_def ext_arith sc)
  consider (skip) "ee f \<le> unat s" | (stop) "unat s < es f" "unat s + unat c < es f"
    | (del) "unat s < es f" "ee f \<le> unat s + unat c"
    | (trim) "unat s < es f" "es f \<le> unat s + unat c" "unat s + unat c < ee f"
    using f(5) by linarith
  then show ?case
  proof cases
    case skip
    have st': "rb_state bp ((us @ [f]) @ zs)" using st by simp
    obtain bp' zs' rv' where IH: "rb_remove_loop k (hd_ptr zs) s c bp rv = (bp', rv')"
      "rb_state bp' ((us @ [f]) @ zs')" "exts_ok zs'" "\<forall>f \<in> set zs'. \<exists>g \<in> set zs. es g \<le> es f"
      "ext_bits zs' = ext_bits zs - {unat s ..< unat s + unat c}"
      "rv' \<noteq> 0 \<longleftrightarrow> rv \<noteq> 0 \<or> ext_bits zs \<inter> {unat s .. unat s + unat c} \<noteq> {}"
      using Cons.IH [OF st' k(2) tl Cons.prems(5), of rv] by blast
    have "\<forall>g \<in> set zs'. ee f < es g" using IH(4) f(4) by fastforce
    moreover have "{es f ..< ee f} \<inter> {unat s .. unat s + unat c} = {}" using skip by auto
    ultimately show ?thesis
      using IH f(1) skip go by (intro exI [of _ bp'] exI [of _ "f # zs'"] exI [of _ rv']) auto
  next
    case stop
    have "\<forall>g \<in> set (f # zs). unat s + unat c < es g"
      using ball_lt_mono [OF f(4), of "unat s + unat c"] stop f(2) by auto
    then have "ext_bits (f # zs) \<inter> {unat s .. unat s + unat c} = {}"
      by (fastforce simp: ext_bits_mem)
    moreover from this have "ext_bits (f # zs) = ext_bits (f # zs) - {unat s ..< unat s + unat c}"
      by fastforce
    ultimately show ?thesis
      using Cons.prems stop go f(2) by (intro exI [of _ bp] exI [of _ "f # zs"] exI [of _ rv]) auto
  next
    case del
    obtain bp' zs' rv' where IH:
      "rb_remove_loop k (hd_ptr zs) s c (rb_erase_free (ext_addr f) bp) 1 = (bp', rv')"
      "rb_state bp' (us @ zs')" "exts_ok zs'" "\<forall>f \<in> set zs'. \<exists>g \<in> set zs. es g \<le> es f"
      "ext_bits zs' = ext_bits zs - {unat s ..< unat s + unat c}" "rv' \<noteq> 0"
      using Cons.IH [OF rb_state_erase_free [OF st] k(2) tl Cons.prems(5), of 1] by auto
    have "es f \<in> ext_bits (f # zs) \<inter> {unat s .. unat s + unat c}" using del f(2) by simp
    with IH del go f(2) show ?thesis by (intro exI [of _ bp'] exI [of _ zs'] exI [of _ rv']) auto
  next
    case trim
    let ?c = "ext_count f - ((s + c) - ext_start f)"
    have "unat ((s + c) - ext_start f) = unat s + unat c - es f"
      using trim sc by (simp add: ext_arith unat_sub_no_wrap)
    moreover have "ee f = es f + unat (ext_count f)" by (simp add: es_def ee_def)
    ultimately have uc: "unat ?c = ee f - (unat s + unat c)"
      using trim by (simp add: ext_arith unat_sub_no_wrap)
    let ?f = "f\<lparr>ext_start := s + c, ext_count := ?c\<rparr>"
    have b: "es ?f = unat s + unat c" "ee ?f = ee f" using trim uc sc by simp_all
    then have "ext_ok ?f" using trim f(3) by (simp add: ext_ok_def)
    moreover have "es f \<in> ext_bits (f # zs) \<inter> {unat s .. unat s + unat c}" using trim f(2) by simp
    moreover have "ext_bits zs \<inter> {unat s ..< unat s + unat c} = {}"
      using trim f(4) by (fastforce simp: ext_bits_mem)
    then have "ext_bits (?f # zs) = ext_bits (f # zs) - {unat s ..< unat s + unat c}"
      using trim b by auto
    ultimately show ?thesis
      using rb_state_store [OF st, of "s + c" ?c] Cons.prems(3) trim go b f(2)
      by (intro exI [of _ "bp\<lparr>rb_root := rb_store (ext_addr f) (s + c) ?c (rb_root bp)\<rparr>"]
            exI [of _ "?f # zs"] exI [of _ 1]) auto
  qed
qed

lemma exts_ok_es_mono:
  assumes "\<forall>e \<in> set us. \<forall>g \<in> set zs. ee e < es g" "\<forall>f \<in> set zs'. \<exists>g \<in> set zs. es g \<le> es f"
  shows "\<forall>e \<in> set us. \<forall>f \<in> set zs'. ee e < es f"
  using assms by (meson less_le_trans)

lemma rb_remove_suffix:
  assumes "rb_state bp (us @ zs)" "exts_ok (us @ zs)" "\<forall>e \<in> set us. ee e \<le> unat s"
    "\<forall>f \<in> set zs. ee f \<le> unat s \<or> unat s < es f" "unat s + unat c < 2 ^ 64"
    "rb_remove_loop (rb_fuel bp) (hd_ptr zs) s c bp rv = (bp', rv')"
  shows "\<exists>ws. rb_state bp' ws \<and> exts_ok ws
      \<and> ext_bits ws = ext_bits (us @ zs) - {unat s ..< unat s + unat c}"
    and "rv' \<noteq> 0 \<longleftrightarrow> rv \<noteq> 0 \<or> ext_bits (us @ zs) \<inter> {unat s .. unat s + unat c} \<noteq> {}"
proof -
  have fuel: "length zs \<le> rb_fuel bp" using rb_state_fuel [OF assms(1)] by simp
  from rb_remove_loop_spec [OF assms(1) fuel _ assms(4,5), of rv] assms(2,6) obtain zs' where
    zs': "rb_state bp' (us @ zs')" "exts_ok zs'" "\<forall>f \<in> set zs'. \<exists>g \<in> set zs. es g \<le> es f"
    "ext_bits zs' = ext_bits zs - {unat s ..< unat s + unat c}"
    and rv': "rv' \<noteq> 0 \<longleftrightarrow> rv \<noteq> 0 \<or> ext_bits zs \<inter> {unat s .. unat s + unat c} \<noteq> {}" by auto
  have us: "ext_bits us \<inter> {unat s .. unat s + unat c} = {}"
    using assms(3) by (fastforce simp: ext_bits_mem)
  then show "rv' \<noteq> 0 \<longleftrightarrow> rv \<noteq> 0 \<or> ext_bits (us @ zs) \<inter> {unat s .. unat s + unat c} \<noteq> {}"
    using rv' by (simp add: Int_Un_distrib2)
  have "exts_ok (us @ zs')"
    using exts_ok_es_mono [of us zs zs'] zs'(2,3) assms(2) by simp
  moreover have "ext_bits (us @ zs') = ext_bits (us @ zs) - {unat s ..< unat s + unat c}"
    using zs'(4) us by fastforce
  ultimately show "\<exists>ws. rb_state bp' ws \<and> exts_ok ws
      \<and> ext_bits ws = ext_bits (us @ zs) - {unat s ..< unat s + unat c}" using zs'(1) by blast
qed

lemma rb_remove_from_hole:
  assumes "rb_state bp (path_before path @ path_after path)"
    "exts_ok (path_before path @ path_after path)" "\<forall>e \<in> set (path_before path). ee e \<le> unat s"
    "\<forall>f \<in> set (path_after path). unat s < es f" "unat s + unat c < 2 ^ 64"
    "rb_remove_loop (rb_fuel bp) (path_parent path) s c bp rv = (bp', rv')"
  shows "(\<exists>ws. rb_state bp' ws \<and> exts_ok ws
      \<and> ext_bits ws = ext_bits (path_before path @ path_after path) - {unat s ..< unat s + unat c})
    \<and> (rv' \<noteq> 0 \<longleftrightarrow> rv \<noteq> 0
        \<or> ext_bits (path_before path @ path_after path) \<inter> {unat s .. unat s + unat c} \<noteq> {})"
  using path_parent_spec [of path]
proof (elim disjE exE conjE)
  assume "path_parent path = hd_ptr (path_after path)"
  with rb_remove_suffix [OF assms(1-3) _ assms(5)] assms(4,6) show ?thesis by simp
next
  fix us e
  assume "path_before path = us @ [e]" "path_parent path = Some (ext_addr e)"
  with rb_remove_suffix [of bp us "e # path_after path" s c rv bp' rv'] assms show ?thesis by simp
qed

lemma rb_remove_descend_search:
  "rb_search s t path = (Leaf, path') \<Longrightarrow> rb_remove_descend s c t path rv = RM_hole path' rv"
  "rb_search s t path = (Node k l e r, path') \<Longrightarrow>
   rb_remove_descend s c t path rv = rb_remove_descend s c (Node k l e r) path' rv"
proof -
  show "rb_search s t path = (Leaf, path') \<Longrightarrow> rb_remove_descend s c t path rv = RM_hole path' rv"
    by (induction s t path rule: rb_search.induct) (auto split: if_splits)
  show "rb_search s t path = (Node k l e r, path') \<Longrightarrow>
    rb_remove_descend s c t path rv = rb_remove_descend s c (Node k l e r) path' rv"
    by (induction s t path rule: rb_search.induct) (auto split: if_splits simp del: rb_remove_descend.simps(2), auto)
qed

lemma rb_state_replace:
  assumes "rb_state bp xs" "rb_zip p (Node k l e r) = rb_root bp" "ext_addr e' = ext_addr e"
  shows "rb_state (bp\<lparr>rb_root := rb_zip p (Node k l e' r)\<rparr>)
           ((path_before p @ rb_inorder l) @ e' # (rb_inorder r @ path_after p))"
proof -
  have "map_rbtree ext_addr (rb_zip p (Node k l e' r)) = map_rbtree ext_addr (rb_root bp)"
    by (simp only: assms(2) [symmetric] map_zip rbtree.map assms(3))
  from rb_state_same_shape [OF assms(1) this] show ?thesis by simp
qed

lemma inter_atLeastLessThan:
  "A \<inter> {m .. n} = {} \<Longrightarrow> A - {m ..< (n :: nat)} = A"
  by fastforce

text \<open>The descent found the extent \<open>e\<close> that holds \<open>s\<close>, between \<open>us\<close> and \<open>vs\<close>.\<close>

lemma rb_remove_found:
  assumes st: "rb_state bp xs" and ok: "exts_ok xs" and sc: "unat s + unat c < 2 ^ 64"
    and found: "rb_search s (rb_root bp) [] = (Node k l e r, p)"
  shows "(\<exists>zs. rb_state (fst (rb_remove_extent s c bp)) zs \<and> exts_ok zs
      \<and> ext_bits zs = ext_bits xs - {unat s ..< unat s + unat c}) \<and> snd (rb_remove_extent s c bp) \<noteq> 0"
proof -
  define us where "us = path_before p @ rb_inorder l"
  define vs where "vs = rb_inorder r @ path_after p"
  note z = rb_search_zip [OF found, simplified]
  have xs: "xs = us @ e # vs"
    using arg_cong [OF z, of rb_inorder] rb_stateD(2) [OF st] by (simp add: us_def vs_def)
  have e: "ext_ok e" "exts_ok us" "exts_ok vs" "\<forall>f \<in> set us. ee f < es e" "\<forall>f \<in> set vs. ee e < es f"
    "\<forall>f \<in> set us. \<forall>g \<in> set vs. ee f < es g" "ee e < 2 ^ 64" "ext_end e = ext_start e + ext_count e"
    using ok by (auto simp: xs ext_ok_def ext_end_def)
  have s: "es e \<le> unat s" "unat s < ee e"
    using rb_search_Node [OF found] e(1) by (auto simp: ext_arith)
  note replace = rb_state_replace [OF st z, folded us_def vs_def]
  have root: "rb_root bp \<noteq> Leaf" using rb_state_root_Leaf [OF st] xs by simp
  have words: "\<not> s < ext_start e" "\<not> ext_end e \<le> s" "ext_start e < s \<longleftrightarrow> es e < unat s"
    "s + c < ext_end e \<longleftrightarrow> unat s + unat c < ee e" "ext_end e \<le> s + c \<longleftrightarrow> ee e \<le> unat s + unat c"
    "s = ext_start e \<longleftrightarrow> unat s = es e" "unat (s - ext_start e) = unat s - es e"
    "unat (s + c) = unat s + unat c"
    using s sc e(1) by (simp_all add: ext_arith word_unat_eq_iff unat_sub_no_wrap)
  have us: "ext_bits us \<inter> {unat s .. unat s + unat c} = {}"
    using e(4) s by (fastforce simp: ext_bits_mem)
  have desc: "rb_remove_descend s c (rb_root bp) [] 0 = rb_remove_descend s c (Node k l e r) p 0"
    by (rule rb_remove_descend_search(2) [OF found])
  let ?e = "e\<lparr>ext_count := s - ext_start e\<rparr>"
  have b: "es ?e = es e" "ee ?e = unat s" using s words by simp_all
  have lt: "\<forall>f \<in> set vs. unat s < es f" using s e(5) by (meson less_trans)
  consider (split) "es e < unat s" "unat s + unat c < ee e"
    | (empty) "es e = unat s" "ee e \<le> unat s + unat c"
    | (right) "es e < unat s" "ee e \<le> unat s + unat c"
    | (shift) "es e = unat s" "unat s + unat c < ee e" using s by linarith
  then show ?thesis
  proof cases
    case split
    let ?n = "ext_end e - (s + c)" and ?bp = "bp\<lparr>rb_root := rb_zip p (Node k l ?e r)\<rparr>"
    have n: "unat ?n = ee e - (unat s + unat c)"
      using split words e(1) by (simp add: ext_arith unat_sub_no_wrap)
    have ok': "exts_ok (us @ ?e # vs)"
      using e b split lt by (simp add: ext_ok_def)
    have "rb_remove_extent s c bp = (fst (rb_insert_extent (s + c) ?n ?bp), 1)"
      using root words split by (simp add: rb_remove_extent_def desc del: not_less)
    moreover have "unat (s + c) + unat ?n < 2 ^ 64" using n split e(7) words(8) by simp
    note rb_insert_extent_spec(1) [OF replace [of ?e] ok' this]
    moreover have "ext_bits vs \<inter> {unat s ..< unat s + unat c} = {}"
      using e(5) split by (fastforce simp: ext_bits_mem)
    then have "ext_bits (us @ ?e # vs) \<union> {unat s + unat c ..< ee e} = ext_bits xs - {unat s ..< unat s + unat c}"
      using us b split by (auto simp: xs)
    ultimately show ?thesis using n split words(8) by simp
  next
    case empty
    let ?bp = "bp\<lparr>rb_root := rb_zip p (Node k l ?e r)\<rparr>"
    have st': "rb_state ?bp (us @ ?e # vs)" by (rule replace) simp
    obtain bp' rv' where loop: "rb_remove_loop (rb_fuel (rb_erase_free (ext_addr e) ?bp)) (hd_ptr vs) s c
        (rb_erase_free (ext_addr e) ?bp) 1 = (bp', rv')" by fastforce
    have "s - ext_start e = 0" using empty words by (simp add: word_unat_eq_iff)
    then have "rb_remove_extent s c bp = (bp', rv')"
      using root words empty rb_state_next [OF st'] loop
      by (simp add: rb_remove_extent_def desc Let_def)
    moreover have "rb_state (rb_erase_free (ext_addr e) ?bp) (us @ vs)"
      using rb_state_erase_free [OF st'] by simp
    from rb_remove_suffix [OF this _ _ _ sc loop] e lt s
    have "\<exists>ws. rb_state bp' ws \<and> exts_ok ws \<and> ext_bits ws = ext_bits (us @ vs) - {unat s ..< unat s + unat c}"
      "rv' \<noteq> 0" by (auto intro: less_imp_le less_le_trans)
    moreover have "ext_bits (us @ vs) - {unat s ..< unat s + unat c} = ext_bits xs - {unat s ..< unat s + unat c}"
      using empty by (auto simp: xs)
    ultimately show ?thesis by simp
  next
    case right
    let ?bp = "bp\<lparr>rb_root := rb_zip p (Node k l ?e r)\<rparr>" and ?p = "RightOf k l ?e # p"
    have ok': "exts_ok (us @ ?e # vs)"
      using e b right lt unat_lt64 [of s] by (simp add: ext_ok_def)
    have miss: "\<forall>f \<in> set (us @ ?e # vs). ee f \<le> unat s \<or> unat s < es f"
      using e(4) s(1) b lt by (auto intro: less_imp_le less_le_trans)
    obtain t' p' where s': "rb_search s r ?p = (t', p')" by fastforce
    have in': "rb_inorder (rb_zip p' t') = us @ ?e # vs"
      using rb_search_zip [OF s'] by (simp add: us_def vs_def)
    have "t' = Leaf"
    proof (cases t')
      case (Node k' l' f r')
      then have "f \<in> set (us @ ?e # vs)" by (simp flip: in')
      then have "ee f \<le> unat s \<or> unat s < es f" "ext_ok f"
        using miss exts_okD [OF ok'] by blast+
      with rb_search_Node [OF s' [unfolded Node]] show ?thesis by (auto simp: ext_arith)
    qed
    note s' = s' [unfolded this] and in' = in' [unfolded this, simplified]
    have q: "path_before ?p = us @ [?e]" "rb_inorder r @ path_after ?p = vs" by (simp_all add: us_def vs_def)
    have "\<forall>f \<in> set (path_before ?p). ee f \<le> unat s"
      unfolding q(1) using ball_lt_le [OF ball_mono_lt [OF e(4) s(1)]] b(2) by (simp add: ball_Un)
    moreover have "\<forall>f \<in> set (path_after ?p). unat s < es f"
      using lt unfolding q(2) [symmetric] by (simp add: ball_Un)
    moreover have "exts_ok (path_before ?p @ rb_inorder r @ path_after ?p)"
      unfolding q using ok' by simp
    ultimately have bnd: "(\<forall>f \<in> set (path_before p'). ee f \<le> unat s) \<and> (\<forall>f \<in> set (path_after p'). unat s < es f)"
      by (intro rb_search_Leaf [OF s'])
    obtain bp' rv' where loop: "rb_remove_loop (rb_fuel ?bp) (path_parent p') s c ?bp 1 = (bp', rv')"
      by fastforce
    have "s - ext_start e \<noteq> 0" "s \<noteq> ext_start e" using right words(6) by auto
    then have "rb_remove_descend s c (Node k l e r) p 0 = RM_hole p' 1"
      using words right rb_remove_descend_search(1) [OF s'] by (simp add: Let_def)
    then have "rb_remove_extent s c bp = (bp', rv')"
      using root loop rb_search_zip [OF s'] by (simp add: rb_remove_extent_def desc Let_def)
    moreover have "rb_state ?bp (path_before p' @ path_after p')"
      using replace [of ?e] in' by simp
    from rb_remove_from_hole [OF this _ _ _ sc loop] bnd ok' in'
    have "\<exists>ws. rb_state bp' ws \<and> exts_ok ws
        \<and> ext_bits ws = ext_bits (us @ ?e # vs) - {unat s ..< unat s + unat c}" "rv' \<noteq> 0" by auto
    moreover have "ext_bits (us @ ?e # vs) - {unat s ..< unat s + unat c} = ext_bits xs - {unat s ..< unat s + unat c}"
      using right b s(2) by (auto simp: xs)
    ultimately show ?thesis by simp
  next
    case shift
    let ?f = "e\<lparr>ext_start := ext_start e + c, ext_count := ext_count e - c\<rparr>"
    let ?bp = "bp\<lparr>rb_root := rb_zip p (Node k l ?f r)\<rparr>"
    have "s = ext_start e" using shift words(6) by simp
    have ecnt: "ee e = es e + unat (ext_count e)" by (simp add: es_def ee_def)
    have f: "es ?f = unat s + unat c" "ee ?f = ee e"
      using shift sc ecnt words(8) \<open>s = ext_start e\<close>
      by (simp_all add: unat_sub_no_wrap word_le_nat_alt)
    have "exts_ok (us @ ?f # vs)" using e f shift by (auto simp: ext_ok_def intro: less_le_trans)
    moreover have "ext_bits vs \<inter> {unat s ..< unat s + unat c} = {}"
      using e(5) shift by (fastforce simp: ext_bits_mem)
    then have "ext_bits (us @ ?f # vs) = ext_bits xs - {unat s ..< unat s + unat c}"
      using us f shift by (auto simp: xs)
    moreover have "ext_count e \<noteq> 0" using e(1) ecnt by (auto simp: ext_ok_def)
    then have "rb_remove_descend s c (Node k l e r) p 0 = RM_shift (rb_zip p (Node k l ?f r))"
      using words shift \<open>s = ext_start e\<close> by (simp add: Let_def)
    then have "rb_remove_extent s c bp = (?bp, 1)"
      using root by (simp add: rb_remove_extent_def desc)
    ultimately show ?thesis using replace [of ?f] by auto
  qed
qed

text \<open>Where a search that found nothing ended.\<close>

lemma rb_search_hole:
  assumes "rb_state bp xs" "exts_ok xs" "rb_search s (rb_root bp) [] = (Leaf, path)"
  shows "path_before path @ path_after path = xs" "rb_zip path Leaf = rb_root bp"
    "\<forall>e \<in> set (path_before path). ee e \<le> unat s" "\<forall>e \<in> set (path_after path). unat s < es e"
    "unat s \<notin> ext_bits xs"
proof -
  note z = rb_search_zip [OF assms(3), simplified]
  show "rb_zip path Leaf = rb_root bp" by (rule z)
  show xs: "path_before path @ path_after path = xs"
    using arg_cong [OF z, of rb_inorder] rb_stateD(2) [OF assms(1)] by simp
  have "(\<forall>e \<in> set (path_before path). ee e \<le> unat s) \<and> (\<forall>e \<in> set (path_after path). unat s < es e)"
    using rb_search_Leaf [OF assms(3)] assms(2) rb_stateD(2) [OF assms(1)] by simp
  then show "\<forall>e \<in> set (path_before path). ee e \<le> unat s"
    "\<forall>e \<in> set (path_after path). unat s < es e" by simp_all
  then show "unat s \<notin> ext_bits xs"
    by (fastforce simp: ext_bits_mem simp flip: xs)
qed

lemma rb_search_found:
  assumes "rb_state bp xs" "exts_ok xs" "rb_search s (rb_root bp) [] = (Node k l e r, path)"
  obtains us vs where "xs = us @ e # vs" "es e \<le> unat s" "unat s < ee e" "unat s \<in> ext_bits xs"
proof -
  have xs: "xs = (path_before path @ rb_inorder l) @ e # (rb_inorder r @ path_after path)"
    using arg_cong [OF rb_search_zip [OF assms(3)], of rb_inorder] rb_stateD(2) [OF assms(1)] by simp
  then have "ext_ok e" using assms(2) by simp
  then have "es e \<le> unat s" "unat s < ee e"
    using rb_search_Node [OF assms(3)] by (auto simp: ext_arith)
  then show thesis by (intro that [OF xs]) (auto simp: xs)
qed

text \<open>
  The state after \<open>rb_remove_extent\<close> is the set difference. The return value is nonzero when some
  marked number lies in the closed interval from \<open>s\<close> to \<open>s + c\<close>, one more than what is removed.
\<close>

lemma rb_remove_extent_spec:
  assumes "rb_state bp xs" "exts_ok xs" "unat s + unat c < 2 ^ 64"
  shows "\<exists>zs. rb_state (fst (rb_remove_extent s c bp)) zs \<and> exts_ok zs
      \<and> ext_bits zs = ext_bits xs - {unat s ..< unat s + unat c}"
    and "snd (rb_remove_extent s c bp) \<noteq> 0 \<longleftrightarrow> ext_bits xs \<inter> {unat s .. unat s + unat c} \<noteq> {}"
proof -
  have "(\<exists>zs. rb_state (fst (rb_remove_extent s c bp)) zs \<and> exts_ok zs
      \<and> ext_bits zs = ext_bits xs - {unat s ..< unat s + unat c})
    \<and> (snd (rb_remove_extent s c bp) \<noteq> 0 \<longleftrightarrow> ext_bits xs \<inter> {unat s .. unat s + unat c} \<noteq> {})"
  proof (cases "xs = []")
    case True
    then have "rb_remove_extent s c bp = (bp, 0)"
      using rb_state_root_Leaf [OF assms(1)] by (simp add: rb_remove_extent_def)
    with True assms(1) show ?thesis by (intro conjI exI [of _ xs]) simp_all
  next
    case False
    obtain t path where found: "rb_search s (rb_root bp) [] = (t, path)" by fastforce
    show ?thesis
    proof (cases t)
      case Leaf
      note hole = rb_search_hole [OF assms(1,2) found [unfolded Leaf]]
      obtain bp' rv' where loop: "rb_remove_loop (rb_fuel bp) (path_parent path) s c bp 0 = (bp', rv')"
        by fastforce
      have "rb_remove_extent s c bp = (bp', rv')"
        using False rb_state_root_Leaf [OF assms(1)] hole(2) loop
          rb_remove_descend_search(1) [OF found [unfolded Leaf]]
        by (simp add: rb_remove_extent_def)
      with rb_remove_from_hole [OF _ _ hole(3,4) assms(3) loop] hole(1) assms(1,2)
      show ?thesis by simp
    next
      case (Node k l e r)
      note f = found [unfolded Node]
      obtain us vs where "unat s \<in> ext_bits xs" by (rule rb_search_found [OF assms(1,2) f])
      moreover have "unat s \<in> {unat s .. unat s + unat c}" by simp
      ultimately show ?thesis using rb_remove_found [OF assms f] by blast
    qed
  qed
  then show "\<exists>zs. rb_state (fst (rb_remove_extent s c bp)) zs \<and> exts_ok zs
      \<and> ext_bits zs = ext_bits xs - {unat s ..< unat s + unat c}"
    "snd (rb_remove_extent s c bp) \<noteq> 0 \<longleftrightarrow> ext_bits xs \<inter> {unat s .. unat s + unat c} \<noteq> {}" by blast+
qed

section \<open>Testing\<close>

lemma rb_test_search_spec:
  assumes "rb_state bp xs" "exts_ok xs"
  shows "rb_state (fst (rb_test_search bp s)) xs"
    "snd (rb_test_search bp s) \<noteq> 0 \<longleftrightarrow> unat s \<in> ext_bits xs"
proof -
  obtain t path where found: "rb_search s (rb_root bp) [] = (t, path)" by fastforce
  have "rb_state (fst (rb_test_search bp s)) xs
      \<and> (snd (rb_test_search bp s) \<noteq> 0 \<longleftrightarrow> unat s \<in> ext_bits xs)"
  proof (cases t)
    case Leaf
    with found rb_search_hole [OF assms found [unfolded Leaf]] assms(1) show ?thesis
      by (simp add: rb_test_search_def)
  next
    case (Node k l e r)
    obtain us vs where "xs = us @ e # vs" "unat s \<in> ext_bits xs"
      by (rule rb_search_found [OF assms found [unfolded Node]])
    with found Node rb_state_no_next(3) [OF assms(1), of "ext_addr e"] show ?thesis
      by (simp add: rb_test_search_def)
  qed
  then show "rb_state (fst (rb_test_search bp s)) xs"
    "snd (rb_test_search bp s) \<noteq> 0 \<longleftrightarrow> unat s \<in> ext_bits xs" by simp_all
qed

lemma cursor_split:
  assumes "rb_state bp xs" "a \<in> set (addrs xs)"
  obtains us e vs where "xs = us @ e # vs" "rb_deref a (rb_root bp) = e" "ext_addr e = a"
    "rb_next_ptr a (rb_root bp) = hd_ptr vs"
proof -
  from addr_split [OF assms(2)] obtain us e vs where e: "xs = us @ e # vs" "ext_addr e = a" by blast
  with rb_state_deref [of bp us e vs] rb_state_next [of bp us e vs] assms(1) that show thesis by auto
qed

text \<open>A cached successor is the true one; caching it keeps the state.\<close>

lemma rb_state_rcursor_next:
  assumes "rb_state bp (us @ e # vs)" "rb_rcursor bp = Some (ext_addr e)"
    "n = (case rb_rcursor_next bp of Some n \<Rightarrow> Some n | None \<Rightarrow> hd_ptr vs)"
  shows "n = hd_ptr vs" "rb_state (bp\<lparr>rb_rcursor_next := n\<rparr>) (us @ e # vs)"
proof -
  let ?a = "ext_addr e"
  have d: "distinct (addrs us @ ?a # addrs vs)" using rb_stateD(3) [OF assms(1)] by simp
  show n: "n = hd_ptr vs"
  proof (cases "rb_rcursor_next bp")
    case (Some b)
    then obtain as bs where "addrs us @ ?a # addrs vs = as @ ?a # b # bs"
      using rb_stateD(4) [OF assms(1)] assms(2) by (auto simp: cursors_ok_def)
    then have "addrs vs = b # bs" using d
      by (metis append_Cons_eq_iff distinct.simps(2) distinct_append not_distinct_conv_prefix)
    with Some assms(3) show ?thesis by (cases vs) auto
  qed (simp add: assms(3))
  have "\<exists>as bs. addrs us @ ?a # addrs vs = as @ ?a # b # bs" if "n = Some b" for b
    using that n by (cases vs) auto
  with assms(1,2) show "rb_state (bp\<lparr>rb_rcursor_next := n\<rparr>) (us @ e # vs)"
    by (auto simp: rb_state_def cursors_ok_def)
qed

lemma not_between:
  assumes "exts_ok (us @ e # f # vs)" "ee e \<le> n" "n < es f"
  shows "n \<notin> ext_bits (us @ e # f # vs)"
proof -
  have "ee g \<le> n" if "g \<in> set us" for g
    using assms that by (auto simp: ext_ok_def intro: less_imp_le order.trans)
  moreover have "n < es g" if "g \<in> set vs" for g
    using assms that by (auto simp: ext_ok_def intro: less_trans)
  ultimately show ?thesis using assms(2,3) by (fastforce simp: ext_bits_mem)
qed

lemma rb_test_bit_spec:
  assumes "rb_state bp xs" "exts_ok xs"
  shows "rb_state (fst (rb_test_bit bp s)) xs \<and> (snd (rb_test_bit bp s) \<noteq> 0 \<longleftrightarrow> unat s \<in> ext_bits xs)"
proof (cases "rb_rcursor bp")
  case None
  with rb_test_search_spec [OF assms] show ?thesis by (simp add: rb_test_bit_def)
next
  case (Some a)
  have "a \<in> set (addrs xs)"
    using rb_stateD(4) [OF assms(1)] Some by (auto simp: cursors_ok_def)
  then obtain us e vs where e: "xs = us @ e # vs" "rb_deref a (rb_root bp) = e" "ext_addr e = a"
    "rb_next_ptr a (rb_root bp) = hd_ptr vs" by (rule cursor_split [OF assms(1)])
  have eok: "ext_ok e" using assms(2) e(1) by simp
  define n where "n = (case rb_rcursor_next bp of Some n \<Rightarrow> Some n | None \<Rightarrow> rb_next_ptr a (rb_root bp))"
  have n: "n = hd_ptr vs" "rb_state (bp\<lparr>rb_rcursor_next := n\<rparr>) xs"
    using rb_state_rcursor_next [of bp us e vs n, OF _ _ n_def [unfolded e(4)]] assms(1) Some e(1,3)
    by simp_all
  define bp0 where "bp0 = bp\<lparr>rb_rcursor := None, rb_rcursor_next := None\<rparr>"
  have st0: "rb_state bp0 xs" using rb_state_no_next(2) [OF assms(1)] by (simp add: bp0_def)
  have rest: "rb_state (fst t) xs \<and> (snd t \<noteq> 0 \<longleftrightarrow> unat s \<in> ext_bits xs)"
    if "t = (case rb_wcursor bp0 of None \<Rightarrow> rb_test_search bp0 s
        | Some w \<Rightarrow> let rcursor = rb_deref w (rb_root bp0)
                    in if s \<ge> ext_start rcursor \<and> s < ext_end rcursor then (bp0, 1)
                       else rb_test_search bp0 s)" for t :: "ext2fs_rb_private \<times> int"
  proof (cases "rb_wcursor bp0")
    case None
    with that rb_test_search_spec [OF st0 assms(2)] show ?thesis by simp
  next
    case (Some w)
    then have "w \<in> set (addrs xs)"
      using rb_stateD(4) [OF st0] by (auto simp: cursors_ok_def)
    then obtain ws f zs where f: "xs = ws @ f # zs" "rb_deref w (rb_root bp0) = f"
      by (rule cursor_split [OF st0])
    then have "ext_ok f" using assms(2) by simp
    then have "ext_start f \<le> s \<and> s < ext_end f \<Longrightarrow> unat s \<in> ext_bits xs"
      by (auto simp: f(1) ext_arith)
    with that Some f(2) rb_test_search_spec [OF st0 assms(2)] st0 show ?thesis
      by (auto simp: Let_def split: if_split_asm)
  qed
  define t where "t = (case rb_wcursor bp0 of None \<Rightarrow> rb_test_search bp0 s
        | Some w \<Rightarrow> let rcursor = rb_deref w (rb_root bp0)
                    in if s \<ge> ext_start rcursor \<and> s < ext_end rcursor then (bp0, 1)
                       else rb_test_search bp0 s)"
  have test: "rb_test_bit bp s =
      (if ext_start e \<le> s \<and> s < ext_end e then (bp, 1)
       else if (case n of Some m \<Rightarrow> ext_end e \<le> s \<and> s < ext_start (rb_deref m (rb_root bp)) | None \<Rightarrow> False)
       then (bp\<lparr>rb_rcursor_next := n\<rparr>, 0) else t)"
    by (simp add: rb_test_bit_def Some e(2) Let_def n_def t_def bp0_def
        cong: option.case_cong if_cong)
  consider (hit) "ext_start e \<le> s \<and> s < ext_end e"
    | (gap) "\<not> (ext_start e \<le> s \<and> s < ext_end e)"
        "case n of Some m \<Rightarrow> ext_end e \<le> s \<and> s < ext_start (rb_deref m (rb_root bp)) | None \<Rightarrow> False"
    | (other) "\<not> (ext_start e \<le> s \<and> s < ext_end e)"
        "\<not> (case n of Some m \<Rightarrow> ext_end e \<le> s \<and> s < ext_start (rb_deref m (rb_root bp)) | None \<Rightarrow> False)"
    by blast
  then show ?thesis
  proof cases
    case hit
    then have "unat s \<in> ext_bits xs" using eok by (auto simp: e(1) ext_arith)
    with hit test assms(1) show ?thesis by simp
  next
    case gap
    then obtain f zs where f: "vs = f # zs" "n = Some (ext_addr f)" using n(1) by (cases vs) auto
    then have "rb_deref (ext_addr f) (rb_root bp) = f"
      using rb_state_deref [of bp "us @ [e]" f zs] assms(1) e(1) by simp
    with gap f not_between [of us e f zs "unat s"] assms(2) e(1) eok
    have "unat s \<notin> ext_bits xs" by (simp add: ext_arith)
    with gap test n(2) show ?thesis by auto
  next
    case other
    with rest [OF t_def] test show ?thesis by simp
  qed
qed

lemma rb_test_clear_loop_spec:
  assumes "rb_state bp (us @ zs)" "exts_ok (us @ zs)" "length zs \<le> fuel" "unat s + unat c < 2 ^ 64"
    "\<forall>f \<in> set us. ee f \<le> unat s" "\<forall>f \<in> set zs. ee f \<le> unat s \<or> unat s < es f"
  shows "rb_test_clear_loop fuel (hd_ptr zs) s c (rb_root bp) \<noteq> 0
    \<longleftrightarrow> ext_bits (us @ zs) \<inter> {unat s ..< unat s + unat c} = {}"
  using assms
proof (induction zs arbitrary: us fuel)
  case Nil
  then have "ext_bits us \<inter> {unat s ..< unat s + unat c} = {}" by (fastforce simp: ext_bits_mem)
  then show ?case by simp
next
  case (Cons f zs)
  from Cons.prems(3) obtain k where k: "fuel = Suc k" "length zs \<le> k" by (cases fuel) auto
  have f: "ext_ok f" "es f < ee f" "\<forall>g \<in> set zs. ee f < es g" using Cons.prems(2) by (auto simp: ext_ok_def)
  have go: "rb_test_clear_loop fuel (hd_ptr (f # zs)) s c (rb_root bp) =
      (if ee f \<le> unat s then rb_test_clear_loop k (hd_ptr zs) s c (rb_root bp)
       else if unat s + unat c \<le> es f then 1 else 0)"
    using f(1) Cons.prems(4)
    by (simp add: k Let_def rb_state_next [OF Cons.prems(1)] rb_state_deref [OF Cons.prems(1)] ext_arith)
  show ?case
  proof (cases "ee f \<le> unat s")
    case True
    with Cons.IH [of "us @ [f]" k] Cons.prems k go show ?thesis by simp
  next
    case False
    then have s: "unat s < es f" using Cons.prems(6) by simp
    have "ext_bits us \<inter> {unat s ..< unat s + unat c} = {}"
      using Cons.prems(5) by (fastforce simp: ext_bits_mem)
    moreover have "ext_bits zs \<inter> {unat s ..< unat s + unat c} = {}" if "unat s + unat c \<le> es f"
      using f that by (fastforce simp: ext_bits_mem)
    moreover have "es f \<in> {unat s ..< unat s + unat c}" if "\<not> unat s + unat c \<le> es f"
      using s that by simp
    ultimately show ?thesis using False go s f(2) by auto
  qed
qed

lemma rb_test_clear_from_hole:
  assumes "rb_state bp (path_before path @ path_after path)"
    "exts_ok (path_before path @ path_after path)" "\<forall>e \<in> set (path_before path). ee e \<le> unat s"
    "\<forall>f \<in> set (path_after path). unat s < es f" "unat s + unat c < 2 ^ 64"
  shows "rb_test_clear_loop (rb_fuel bp) (path_parent path) s c (rb_root bp) \<noteq> 0
    \<longleftrightarrow> ext_bits (path_before path @ path_after path) \<inter> {unat s ..< unat s + unat c} = {}"
  using path_parent_spec [of path]
proof (elim disjE exE conjE)
  assume "path_parent path = hd_ptr (path_after path)"
  with rb_test_clear_loop_spec [OF assms(1,2) _ assms(5,3)] assms(4) rb_state_fuel [OF assms(1)]
  show ?thesis by simp
next
  fix us e
  assume "path_before path = us @ [e]" "path_parent path = Some (ext_addr e)"
  with rb_test_clear_loop_spec [of bp us "e # path_after path" "rb_fuel bp" s c] assms
    rb_state_fuel [OF assms(1)] show ?thesis by simp
qed

end
