(* ===== verification/Blkmap64_rb_Table.thy ===== *)
theory Blkmap64_rb_Table
  imports Blkmap64_rb_Ops
begin

text \<open>
  The operations of \<open>ext2fs_blkmap64_rbtree\<close> on whole bitmaps: the invariant \<open>rb_inv\<close>, the set
  \<open>rb_bits\<close> of marked numbers, and the proof that the red-black back end meets the contract
  \<open>bmap_backend\<close> that the bit-array back end meets.
\<close>

section \<open>Invariant and meaning of a bitmap\<close>

definition rb_exts :: "ext2fs_rb_private gen_bitmap_64 \<Rightarrow> bmap_rb_extent list" where
  "rb_exts b = rb_inorder (rb_root (rb_priv b))"

definition rb_inv :: "ext2fs_rb_private gen_bitmap_64 \<Rightarrow> bool" where
  "rb_inv b \<longleftrightarrow> bm_private b \<noteq> None \<and> rb_state (rb_priv b) (rb_exts b) \<and> exts_ok (rb_exts b)
     \<and> (\<forall>e \<in> set (rb_exts b). ee e \<le> Suc (unat (bm_real_end b) - unat (bm_start b)))
     \<and> bm_start b \<le> bm_real_end b \<and> unat (bm_real_end b) - unat (bm_start b) < 2 ^ 64 - 1"

definition rb_bits :: "ext2fs_rb_private gen_bitmap_64 \<Rightarrow> nat set" where
  "rb_bits b = (+) (unat (bm_start b)) ` ext_bits (rb_exts b)"

lemma rb_invD:
  assumes "rb_inv b"
  shows "rb_state (rb_priv b) (rb_exts b)" "exts_ok (rb_exts b)" "bm_start b \<le> bm_real_end b"
    "unat (bm_real_end b) - unat (bm_start b) < 2 ^ 64 - 1" "rb_put b (rb_priv b) = b"
    "ext_bits (rb_exts b) \<subseteq> {.. unat (bm_real_end b) - unat (bm_start b)}"
  using assms by (auto simp: rb_inv_def rb_put_def rb_priv_def ext_bits_mem, fastforce)

lemma exts_bound:
  assumes "exts_ok xs" "ext_bits xs \<subseteq> {.. n}" "e \<in> set xs"
  shows "ee e \<le> Suc n"
proof -
  have "es e < ee e" using exts_okD [OF assms(1,3)] by (simp add: ext_ok_def)
  then have "ee e - 1 \<in> ext_bits xs"
    using assms(3) by (auto simp: ext_bits_mem intro!: bexI [of _ e])
  with assms(2) show ?thesis by auto
qed

lemma rb_put_simps [simp]:
  "rb_priv (rb_put b bp) = bp" "bm_hdr (rb_put b bp) = bm_hdr b" "bm_start (rb_put b bp) = bm_start b"
  "bm_end (rb_put b bp) = bm_end b" "bm_real_end (rb_put b bp) = bm_real_end b"
  "bm_private (rb_put b bp) = Some bp" "rb_exts (rb_put b bp) = rb_inorder (rb_root bp)"
  by (simp_all add: rb_put_def rb_priv_def rb_exts_def)

lemma rb_put_inv:
  assumes "rb_inv b" "rb_state bp zs" "exts_ok zs"
    "ext_bits zs \<subseteq> {.. unat (bm_real_end b) - unat (bm_start b)}"
  shows "rb_inv (rb_put b bp)" "rb_bits (rb_put b bp) = (+) (unat (bm_start b)) ` ext_bits zs"
  using assms(1,2,3) rb_stateD(2) [OF assms(2)] exts_bound [OF assms(3,4)]
  by (auto simp: rb_inv_def rb_bits_def)

text \<open>Numbers of the bitmap, relative to its start.\<close>

lemma rel_arg:
  assumes "rb_inv b" "in_bmap b a"
  shows "unat (a - bm_start b) = unat a - unat (bm_start b)"
    "unat (bm_start b) + unat (a - bm_start b) = unat a"
    "unat (a - bm_start b) \<le> unat (bm_real_end b) - unat (bm_start b)"
    "unat (a - bm_start b) + 1 < 2 ^ 64"
  using assms rb_invD(4) [OF assms(1)]
  by (auto simp: in_bmap_def unat_sub_no_wrap word_le_nat_alt)

lemma rel_extent:
  assumes "rb_inv b" "extent_in_bmap b a num"
  shows "unat (a - bm_start b) + unat (ucast num :: u64) < 2 ^ 64"
    "unat (bm_start b) + unat (a - bm_start b) = unat a" "unat (ucast num :: u64) = unat num"
    "{unat (a - bm_start b) ..< unat (a - bm_start b) + unat num}
       \<subseteq> {.. unat (bm_real_end b) - unat (bm_start b)}"
proof -
  have a: "unat (a - bm_start b) = unat a - unat (bm_start b)" "unat (bm_start b) \<le> unat a"
    using assms(2) by (auto simp: extent_in_bmap_def unat_sub_no_wrap word_le_nat_alt)
  show n: "unat (ucast num :: u64) = unat num" using unat_lt32 [of num]
    by (simp add: unsigned_ucast_eq take_bit_eq_mod)
  show "unat (bm_start b) + unat (a - bm_start b) = unat a" using a by simp
  show "unat (a - bm_start b) + unat (ucast num :: u64) < 2 ^ 64"
    "{unat (a - bm_start b) ..< unat (a - bm_start b) + unat num}
       \<subseteq> {.. unat (bm_real_end b) - unat (bm_start b)}"
    using a n assms(2) rb_invD(4) [OF assms(1)] by (auto simp: extent_in_bmap_def)
qed

lemma rb_bits_iff:
  assumes "rb_inv b" "in_bmap b a"
  shows "unat a \<in> rb_bits b \<longleftrightarrow> unat (a - bm_start b) \<in> ext_bits (rb_exts b)"
  using rel_arg(2) [OF assms, symmetric] by (auto simp: rb_bits_def)

section \<open>The contract\<close>

lemma rb_bits_range: "rb_inv b \<Longrightarrow> rb_bits b \<subseteq> bm_range b"
  using rb_invD(3,6) [of b] by (fastforce simp: rb_bits_def bm_range_def word_le_nat_alt)

lemma rb_test_bmap_spec:
  assumes "rb_inv b" "in_bmap b a"
  shows "snd (rb_test_bmap b a) \<noteq> 0 \<longleftrightarrow> unat a \<in> rb_bits b"
    "rb_inv (fst (rb_test_bmap b a)) \<and> rb_bits (fst (rb_test_bmap b a)) = rb_bits b
      \<and> bm_hdr (fst (rb_test_bmap b a)) = bm_hdr b"
proof -
  note i = rb_invD [OF assms(1)]
  obtain bp' r where t: "rb_test_bit (rb_priv b) (a - bm_start b) = (bp', r)" by fastforce
  from rb_test_bit_spec [OF i(1,2), of "a - bm_start b"]
  have "rb_state bp' (rb_exts b)" "r \<noteq> 0 \<longleftrightarrow> unat (a - bm_start b) \<in> ext_bits (rb_exts b)"
    by (simp_all add: t)
  with rb_put_inv [OF assms(1) this(1) i(2,6)] rb_bits_iff [OF assms]
  show "snd (rb_test_bmap b a) \<noteq> 0 \<longleftrightarrow> unat a \<in> rb_bits b"
    "rb_inv (fst (rb_test_bmap b a)) \<and> rb_bits (fst (rb_test_bmap b a)) = rb_bits b
      \<and> bm_hdr (fst (rb_test_bmap b a)) = bm_hdr b"
    by (simp_all add: rb_test_bmap_def t rb_bits_def [of b])
qed

lemma rb_insert_put:
  assumes "rb_inv b" "unat s + unat c < 2 ^ 64"
    "{unat s ..< unat s + unat c} \<subseteq> {.. unat (bm_real_end b) - unat (bm_start b)}"
  shows "rb_inv (rb_put b (fst (rb_insert_extent s c (rb_priv b))))"
    "rb_bits (rb_put b (fst (rb_insert_extent s c (rb_priv b)))) =
       rb_bits b \<union> {unat (bm_start b) + unat s ..< unat (bm_start b) + unat s + unat c}"
proof -
  note i = rb_invD [OF assms(1)]
  obtain zs where zs: "rb_state (fst (rb_insert_extent s c (rb_priv b))) zs" "exts_ok zs"
    "ext_bits zs = ext_bits (rb_exts b) \<union> {unat s ..< unat s + unat c}"
    using rb_insert_extent_spec(1) [OF i(1,2) assms(2)] by blast
  with i(6) assms(3) have "ext_bits zs \<subseteq> {.. unat (bm_real_end b) - unat (bm_start b)}" by simp
  from rb_put_inv [OF assms(1) zs(1,2) this]
  show "rb_inv (rb_put b (fst (rb_insert_extent s c (rb_priv b))))"
    "rb_bits (rb_put b (fst (rb_insert_extent s c (rb_priv b)))) =
       rb_bits b \<union> {unat (bm_start b) + unat s ..< unat (bm_start b) + unat s + unat c}"
    by (simp_all add: zs(3) image_Un rb_bits_def [of b] ac_simps)
qed

lemma rb_remove_put:
  assumes "rb_inv b" "unat s + unat c < 2 ^ 64"
  shows "rb_inv (rb_put b (fst (rb_remove_extent s c (rb_priv b))))"
    "rb_bits (rb_put b (fst (rb_remove_extent s c (rb_priv b)))) =
       rb_bits b - {unat (bm_start b) + unat s ..< unat (bm_start b) + unat s + unat c}"
proof -
  note i = rb_invD [OF assms(1)]
  obtain zs where zs: "rb_state (fst (rb_remove_extent s c (rb_priv b))) zs" "exts_ok zs"
    "ext_bits zs = ext_bits (rb_exts b) - {unat s ..< unat s + unat c}"
    using rb_remove_extent_spec(1) [OF i(1,2) assms(2)] by blast
  with i(6) have "ext_bits zs \<subseteq> {.. unat (bm_real_end b) - unat (bm_start b)}" by auto
  from rb_put_inv [OF assms(1) zs(1,2) this]
  show "rb_inv (rb_put b (fst (rb_remove_extent s c (rb_priv b))))"
    "rb_bits (rb_put b (fst (rb_remove_extent s c (rb_priv b)))) =
       rb_bits b - {unat (bm_start b) + unat s ..< unat (bm_start b) + unat s + unat c}"
    by (simp_all add: zs(3) image_set_diff rb_bits_def [of b] ac_simps)
qed

lemma rb_mark_bmap_spec:
  assumes "rb_inv b" "in_bmap b a"
  shows "snd (rb_mark_bmap b a) \<noteq> 0 \<longleftrightarrow> unat a \<in> rb_bits b"
    "rb_inv (fst (rb_mark_bmap b a)) \<and> rb_bits (fst (rb_mark_bmap b a)) = insert (unat a) (rb_bits b)
      \<and> bm_hdr (fst (rb_mark_bmap b a)) = bm_hdr b"
proof -
  note i = rb_invD [OF assms(1)] and a = rel_arg [OF assms]
  have f: "rb_mark_bmap b a = (rb_put b (fst (rb_insert_extent (a - bm_start b) 1 (rb_priv b))),
      snd (rb_insert_extent (a - bm_start b) 1 (rb_priv b)))"
    by (simp add: rb_mark_bmap_def split_beta)
  show "snd (rb_mark_bmap b a) \<noteq> 0 \<longleftrightarrow> unat a \<in> rb_bits b"
    using rb_insert_extent_spec(2) [OF i(1,2), of "a - bm_start b" 1] a(4) rb_bits_iff [OF assms]
    by (simp add: f)
  show "rb_inv (fst (rb_mark_bmap b a)) \<and> rb_bits (fst (rb_mark_bmap b a)) = insert (unat a) (rb_bits b)
      \<and> bm_hdr (fst (rb_mark_bmap b a)) = bm_hdr b"
    using rb_insert_put [OF assms(1), of "a - bm_start b" 1] a(2,3,4) by (auto simp: f)
qed

lemma rb_unmark_bmap_spec:
  assumes "rb_inv b" "in_bmap b a"
  shows "rb_inv (fst (rb_unmark_bmap b a)) \<and> rb_bits (fst (rb_unmark_bmap b a)) = rb_bits b - {unat a}
      \<and> bm_hdr (fst (rb_unmark_bmap b a)) = bm_hdr b"
    "snd (rb_unmark_bmap b a) \<noteq> 0 \<longleftrightarrow> unat a \<in> rb_bits b \<or> Suc (unat a) \<in> rb_bits b"
proof -
  note i = rb_invD [OF assms(1)] and a = rel_arg [OF assms]
  have f: "rb_unmark_bmap b a = (rb_put b (fst (rb_remove_extent (a - bm_start b) 1 (rb_priv b))),
      snd (rb_remove_extent (a - bm_start b) 1 (rb_priv b)))"
    by (simp add: rb_unmark_bmap_def split_beta)
  show "rb_inv (fst (rb_unmark_bmap b a)) \<and> rb_bits (fst (rb_unmark_bmap b a)) = rb_bits b - {unat a}
      \<and> bm_hdr (fst (rb_unmark_bmap b a)) = bm_hdr b"
    using rb_remove_put [OF assms(1), of "a - bm_start b" 1] a(2,4) by (auto simp: f)
  have "snd (rb_unmark_bmap b a) \<noteq> 0 \<longleftrightarrow>
      ext_bits (rb_exts b) \<inter> {unat (a - bm_start b) .. unat (a - bm_start b) + 1} \<noteq> {}"
    using rb_remove_extent_spec(2) [OF i(1,2), of "a - bm_start b" 1] a(4) by (simp add: f)
  also have "\<dots> \<longleftrightarrow> unat (a - bm_start b) \<in> ext_bits (rb_exts b)
      \<or> Suc (unat (a - bm_start b)) \<in> ext_bits (rb_exts b)"
    by (auto simp: le_Suc_eq) 
  also have "\<dots> \<longleftrightarrow> unat a \<in> rb_bits b \<or> Suc (unat a) \<in> rb_bits b"
    using a(2) [symmetric] by (auto simp: rb_bits_def image_iff simp flip: add_Suc_right)
  finally show "snd (rb_unmark_bmap b a) \<noteq> 0 \<longleftrightarrow> unat a \<in> rb_bits b \<or> Suc (unat a) \<in> rb_bits b" .
qed

lemma rb_mark_extent_spec:
  assumes "rb_inv b" "extent_in_bmap b a num"
  shows "rb_inv (rb_mark_bmap_extent b a num)
    \<and> rb_bits (rb_mark_bmap_extent b a num) = rb_bits b \<union> extent_set a num
    \<and> bm_hdr (rb_mark_bmap_extent b a num) = bm_hdr b"
  using rb_insert_put [OF assms(1) rel_extent(1) [OF assms]] rel_extent [OF assms]
  by (simp add: rb_mark_bmap_extent_def extent_set_def)

lemma rb_unmark_extent_spec:
  assumes "rb_inv b" "extent_in_bmap b a num"
  shows "rb_inv (rb_unmark_bmap_extent b a num)
    \<and> rb_bits (rb_unmark_bmap_extent b a num) = rb_bits b - extent_set a num
    \<and> bm_hdr (rb_unmark_bmap_extent b a num) = bm_hdr b"
  using rb_remove_put [OF assms(1) rel_extent(1) [OF assms]] rel_extent [OF assms]
  by (simp add: rb_unmark_bmap_extent_def extent_set_def)

lemma rb_test_clear_spec:
  assumes "rb_inv b" "extent_in_bmap b a num" "0 < num"
  shows "rb_test_clear_bmap_extent b a num \<noteq> 0 \<longleftrightarrow> rb_bits b \<inter> extent_set a num = {}"
proof -
  note i = rb_invD [OF assms(1)] and a = rel_extent [OF assms(1,2)]
  let ?s = "a - bm_start b"
  have n: "num \<noteq> 0" "0 < unat num" using assms(3) by (auto simp: word_less_nat_alt)
  have "rb_bits b \<inter> extent_set a num = (+) (unat (bm_start b)) ` ext_bits (rb_exts b)
      \<inter> (+) (unat (bm_start b)) ` {unat ?s ..< unat ?s + unat num}"
    using a(2) by (simp add: rb_bits_def extent_set_def ac_simps)
  also have "\<dots> = (+) (unat (bm_start b)) ` (ext_bits (rb_exts b) \<inter> {unat ?s ..< unat ?s + unat num})"
    by (rule image_Int [symmetric]) simp
  finally have set_eq: "rb_bits b \<inter> extent_set a num = {} \<longleftrightarrow>
      ext_bits (rb_exts b) \<inter> {unat ?s ..< unat ?s + unat num} = {}" by (simp only: image_is_empty)
  show ?thesis
  proof (cases "rb_root (rb_priv b) = Leaf")
    case True
    then show ?thesis
      unfolding set_eq by (simp add: rb_test_clear_bmap_extent_def rb_priv_def [symmetric] rb_exts_def)
  next
    case False
    obtain t path where s: "rb_search ?s (rb_root (rb_priv b)) [] = (t, path)" by fastforce
    show ?thesis
    proof (cases t)
      case Leaf
      note h = rb_search_hole [OF i(1,2) s [unfolded Leaf]]
      have "rb_test_clear_bmap_extent b a num
          = rb_test_clear_loop (rb_fuel (rb_priv b)) (path_parent path) ?s (ucast num) (rb_root (rb_priv b))"
        using False n(1) s Leaf by (simp add: rb_test_clear_bmap_extent_def rb_priv_def [symmetric] Let_def)
      with rb_test_clear_from_hole [of "rb_priv b" path ?s "ucast num"] h i(1,2) a(1,3)
      show ?thesis unfolding set_eq by simp
    next
      case (Node k l e r)
      obtain us vs where "unat ?s \<in> ext_bits (rb_exts b)"
        by (rule rb_search_found [OF i(1,2) s [unfolded Node]])
      moreover have "unat ?s \<in> {unat ?s ..< unat ?s + unat num}" using n(2) by simp
      ultimately show ?thesis
        unfolding set_eq using False n(1) s Node
        by (auto simp: rb_test_clear_bmap_extent_def rb_priv_def [symmetric] Let_def)
    qed
  qed
qed

lemma inorder_Nil [simp]: "rb_inorder t = [] \<longleftrightarrow> t = Leaf"
  by (cases t) auto

lemma first_ptr: "pos_ptr (ext2fs_rb_first root) = hd_ptr (rb_inorder root)"
proof (cases "ext2fs_rb_first root")
  case None
  then have "root = Leaf" using first_spec(1) by blast
  with None show ?thesis by (simp add: pos_ptr_def)
next
  case (Some z)
  with first_spec(2) [OF Some] obtain x where x: "rb_zip (snd z) (fst z) = root" "pos_before z = []"
    "pos_item z = Some x" by auto
  then have "rb_inorder root = x # pos_after z" using pos_split [of "fst z" "snd z" x] by simp
  with Some x show ?thesis by (simp add: pos_ptr_def)
qed

lemma rb_free_tree_loop_Leaf:
  assumes "rb_inorder root = zs" "distinct (addrs zs)" "length zs \<le> fuel"
  shows "rb_free_tree_loop fuel (hd_ptr zs) root = Leaf"
  using assms
proof (induction zs arbitrary: root fuel)
  case Nil
  then show ?case by simp
next
  case (Cons f zs)
  then obtain k where k: "fuel = Suc k" "length zs \<le> k" by (cases fuel) auto
  from rb_next_ptr_split [of root "[]" f zs] rb_erase_ptr_split(1) [of root "[]" f zs] Cons.prems
  have "rb_next_ptr (ext_addr f) root = hd_ptr zs" "rb_inorder (rb_erase_ptr (ext_addr f) root) = zs"
    by simp_all
  with Cons.IH [of "rb_erase_ptr (ext_addr f) root" k] Cons.prems k show ?case by simp
qed

lemma rb_free_tree_Leaf: "distinct (addrs (rb_inorder root)) \<Longrightarrow> rb_free_tree root = Leaf"
  by (simp add: rb_free_tree_def first_ptr rb_free_tree_loop_Leaf)

lemma rb_state_empty: "rb_state \<lparr>rb_root = Leaf, rb_wcursor = None, rb_rcursor = None, rb_rcursor_next = None\<rparr> []"
  by (simp add: rb_state_def cursors_ok_def rbt_def)

lemma rb_clear_spec:
  assumes "rb_inv b"
  shows "rb_inv (rb_clear_bmap b) \<and> rb_bits (rb_clear_bmap b) = {} \<and> bm_hdr (rb_clear_bmap b) = bm_hdr b"
proof -
  note i = rb_invD [OF assms]
  have "distinct (addrs (rb_inorder (rb_root (rb_priv b))))"
    using rb_stateD(2,3) [OF i(1)] by simp
  then have "rb_clear_bmap b = rb_put b
      \<lparr>rb_root = Leaf, rb_wcursor = None, rb_rcursor = None, rb_rcursor_next = None\<rparr>"
    by (simp add: rb_clear_bmap_def rb_free_tree_Leaf)
  with rb_put_inv [OF assms rb_state_empty] show ?thesis by simp
qed

section \<open>The searches\<close>

lemma rb_state_Leaf: "rb_inv b \<Longrightarrow> rb_root (rb_priv b) = Leaf \<longleftrightarrow> rb_exts b = []"
  using rb_state_root_Leaf [OF rb_invD(1)] .

lemma add_bm_start: "(x :: u64) - s + s = x"
  by simp

text \<open>The successor that \<open>rb_find_first_set\<close> reaches from the empty place.\<close>

lemma rb_find_set_hole:
  assumes "rb_state bp xs" "exts_ok xs" "rb_search s (rb_root bp) [] = (Leaf, path)"
  shows "(case path_parent path of
            None \<Rightarrow> Inl ENOENT
          | Some node \<Rightarrow> if ext_start (rb_deref node (rb_root bp)) < s
                         then (case rb_next_ptr node (rb_root bp) of None \<Rightarrow> Inl ENOENT | Some node \<Rightarrow> g node)
                         else g node)
    = (case hd_ptr (path_after path) of None \<Rightarrow> Inl ENOENT | Some node \<Rightarrow> (g node :: errcode + 'a))"
proof -
  note h = rb_search_hole [OF assms]
  have ok: "exts_ok (path_before path @ path_after path)" using assms(2) h(1) by simp
  show ?thesis
    using path_parent_spec [of path]
  proof (elim disjE exE conjE)
    assume p: "path_parent path = hd_ptr (path_after path)"
    show ?thesis
    proof (cases "path_after path")
      case (Cons f fs)
      then have "rb_deref (ext_addr f) (rb_root bp) = f"
        using rb_state_deref [of bp "path_before path" f fs] assms(1) h(1) by simp
      with p Cons h(4) show ?thesis by (simp add: ext_arith)
    qed (simp add: p)
  next
    fix us e
    assume e: "path_before path = us @ [e]" "path_parent path = Some (ext_addr e)"
    then have st: "rb_state bp (us @ e # path_after path)" using assms(1) h(1) by simp
    have "es e < unat s" using e(1) h(3) ok by (auto simp: ext_ok_def)
    then show ?thesis
      using e(2) rb_state_deref [OF st] rb_state_next [OF st] by (simp add: ext_arith)
  qed
qed

lemma rb_bits_notin:
  assumes "\<And>m. m \<in> ext_bits (rb_exts b) \<Longrightarrow> unat (bm_start b) + m \<notin> S"
  shows "rb_bits b \<inter> S = {}"
  using assms by (auto simp: rb_bits_def)

text \<open>The search from an empty place, over the extents after it.\<close>

lemma rb_find_set_after:
  assumes "rb_inv b" "in_bmap b s" "in_bmap b t" "s \<le> t" "rb_exts b = us @ vs"
    "\<forall>e \<in> set us. ee e \<le> unat (s - bm_start b)" "\<forall>f \<in> set vs. unat (s - bm_start b) < es f"
    "res = (case hd_ptr vs of None \<Rightarrow> Inl ENOENT
        | Some node \<Rightarrow> if ext_start (rb_deref node (rb_root (rb_priv b))) \<le> t - bm_start b
            then Inr (ext_start (rb_deref node (rb_root (rb_priv b))) + bm_start b) else Inl ENOENT)"
  shows "(\<exists>x. res = Inr x \<and> s \<le> x \<and> x \<le> t \<and> unat x \<in> rb_bits b
           \<and> rb_bits b \<inter> {unat s ..< unat x} = {})
       \<or> res = Inl ENOENT \<and> rb_bits b \<inter> {unat s .. unat t} = {}"
proof -
  note i = rb_invD [OF assms(1)] and s = rel_arg [OF assms(1,2)] and t = rel_arg [OF assms(1,3)]
  have lo: "m < unat (s - bm_start b)" if "m \<in> ext_bits us" for m
    using ext_bits_bounds(1) [OF assms(6) that] .
  show ?thesis
  proof (cases vs)
    case Nil
    have "rb_bits b \<inter> {unat s .. unat t} = {}"
      by (rule rb_bits_notin) (use lo s(2) Nil assms(5) in fastforce)
    with Nil assms(8) show ?thesis by simp
  next
    case (Cons f fs)
    have d: "rb_deref (ext_addr f) (rb_root (rb_priv b)) = f"
      using rb_state_deref [of "rb_priv b" us f fs] i(1) assms(5) Cons by simp
    have f: "es f < ee f" "unat (s - bm_start b) < es f" "\<forall>g \<in> set vs. es f \<le> es g"
      using i(2) assms(5,7) Cons by (auto simp: ext_ok_def)
    have hi: "es f \<le> m" if "m \<in> ext_bits vs" for m
      using ext_bits_bounds(2) [OF f(3) that] .
    show ?thesis
    proof (cases "es f \<le> unat (t - bm_start b)")
      case True
      define x where "x = ext_start f + bm_start b"
      have x: "unat x = unat (bm_start b) + es f"
        using True t(2) unat_lt64 [of t] unfolding x_def by (simp add: ext_arith)
      have "rb_bits b \<inter> {unat s ..< unat x} = {}"
        by (rule rb_bits_notin) (use lo hi x s(2) assms(5) in fastforce)
      moreover have "unat x \<in> rb_bits b"
        using x f(1) Cons assms(5) by (simp add: rb_bits_def)
      moreover have "s \<le> x" "x \<le> t" using x f(2) True s(2) t(2) by (simp_all add: word_le_nat_alt)
      moreover have "res = Inr x" using assms(8) Cons d True by (simp add: x_def ext_arith)
      ultimately show ?thesis by simp
    next
      case False
      have "rb_bits b \<inter> {unat s .. unat t} = {}"
        by (rule rb_bits_notin) (use lo hi False s(2) t(2) assms(5) in fastforce)
      with assms(8) Cons d False show ?thesis by (simp add: ext_arith)
    qed
  qed
qed

lemma rb_find_first_set_spec:
  assumes "rb_inv b" "in_bmap b s" "in_bmap b t" "s \<le> t"
  shows "(\<exists>x. rb_find_first_set b s t = Inr x \<and> s \<le> x \<and> x \<le> t \<and> unat x \<in> rb_bits b
           \<and> rb_bits b \<inter> {unat s ..< unat x} = {})
       \<or> rb_find_first_set b s t = Inl ENOENT \<and> rb_bits b \<inter> {unat s .. unat t} = {}"
proof -
  note i = rb_invD [OF assms(1)]
  have st: "\<not> t - bm_start b < s - bm_start b"
    using rel_arg(1) [OF assms(1,2)] rel_arg(1) [OF assms(1,3)] assms(4)
    by (simp add: word_less_nat_alt word_le_nat_alt)
  obtain n path where found: "rb_search (s - bm_start b) (rb_root (rb_priv b)) [] = (n, path)" by fastforce
  show ?thesis
  proof (cases "rb_root (rb_priv b) = Leaf")
    case True
    with st rb_state_Leaf [OF assms(1)] show ?thesis
      by (simp add: rb_find_first_set_def Let_def rb_bits_def)
  next
    case root: False
    show ?thesis
    proof (cases n)
      case Leaf
      note h = rb_search_hole [OF i(1,2) found [unfolded Leaf]]
      have "rb_find_first_set b s t = (case hd_ptr (path_after path) of None \<Rightarrow> Inl ENOENT
        | Some node \<Rightarrow> if ext_start (rb_deref node (rb_root (rb_priv b))) \<le> t - bm_start b
            then Inr (ext_start (rb_deref node (rb_root (rb_priv b))) + bm_start b) else Inl ENOENT)"
        using rb_find_set_hole [OF i(1,2) found [unfolded Leaf]] root st found Leaf
        by (simp add: rb_find_first_set_def Let_def)
      from rb_find_set_after [OF assms h(1) [symmetric] h(3,4) this] show ?thesis .
    next
      case (Node k l e r)
      obtain us vs where "unat (s - bm_start b) \<in> ext_bits (rb_exts b)"
        by (rule rb_search_found [OF i(1,2) found [unfolded Node]])
      then have "unat s \<in> rb_bits b" using rb_bits_iff [OF assms(1,2)] by simp
      with root st found Node assms(4) show ?thesis
        by (simp add: rb_find_first_set_def Let_def)
    qed
  qed
qed

text \<open>The search for a clear number is right on a tree that is not empty.\<close>

lemma rb_find_first_zero_spec:
  assumes "rb_inv b" "in_bmap b s" "in_bmap b t" "s \<le> t" "rb_bits b \<noteq> {}"
  shows "(\<exists>x. rb_find_first_zero b s t = Inr x \<and> s \<le> x \<and> x \<le> t \<and> unat x \<notin> rb_bits b
           \<and> {unat s ..< unat x} \<subseteq> rb_bits b)
       \<or> rb_find_first_zero b s t = Inl ENOENT \<and> {unat s .. unat t} \<subseteq> rb_bits b"
proof -
  note i = rb_invD [OF assms(1)] and s = rel_arg [OF assms(1,2)] and t = rel_arg [OF assms(1,3)]
  have st: "\<not> t - bm_start b < s - bm_start b"
    using s(1) t(1) assms(4) by (simp add: word_less_nat_alt word_le_nat_alt)
  have root: "rb_root (rb_priv b) \<noteq> Leaf"
    using assms(5) rb_state_Leaf [OF assms(1)] by (auto simp: rb_bits_def)
  obtain n path where found: "rb_search (s - bm_start b) (rb_root (rb_priv b)) [] = (n, path)" by fastforce
  show ?thesis
  proof (cases n)
    case Leaf
    have "unat s \<notin> rb_bits b"
      using rb_search_hole(5) [OF i(1,2) found [unfolded Leaf]] rb_bits_iff [OF assms(1,2)] by simp
    with root st found Leaf assms(4) show ?thesis
      by (simp add: rb_find_first_zero_def Let_def)
  next
    case (Node k l e r)
    obtain us vs where e: "rb_exts b = us @ e # vs" "es e \<le> unat (s - bm_start b)"
      "unat (s - bm_start b) < ee e"
      by (rule rb_search_found [OF i(1,2) found [unfolded Node]])
    have ok: "ext_ok e" "\<forall>f \<in> set us. ee f < es e" "\<forall>f \<in> set vs. ee e < es f"
      using i(2) e(1) by simp_all
    have sub: "{unat s ..< unat (bm_start b) + ee e} \<subseteq> rb_bits b"
    proof
      fix n
      assume n: "n \<in> {unat s ..< unat (bm_start b) + ee e}"
      then have "n - unat (bm_start b) \<in> ext_bits (rb_exts b)" using e s(2) by auto
      moreover have "n = unat (bm_start b) + (n - unat (bm_start b))" using n s(2) by auto
      ultimately show "n \<in> rb_bits b" unfolding rb_bits_def by blast
    qed
    have res: "rb_find_first_zero b s t =
        (if ext_end e \<le> t - bm_start b then Inr (ext_end e + bm_start b) else Inl ENOENT)"
      using root st found Node by (simp add: rb_find_first_zero_def Let_def)
    show ?thesis
    proof (cases "ee e \<le> unat (t - bm_start b)")
      case True
      define x where "x = ext_end e + bm_start b"
      have x: "unat x = unat (bm_start b) + ee e"
        using True t(2) unat_lt64 [of t] ok(1) unfolding x_def by (simp add: ext_arith)
      have "ee e \<notin> ext_bits (rb_exts b)"
        using ok ext_bits_bounds(1) [of us "es e"] by (fastforce simp: e(1) ext_ok_def ext_bits_mem)
      then have "unat x \<notin> rb_bits b" using x by (auto simp: rb_bits_def)
      moreover have "s \<le> x" "x \<le> t" using x e(3) True s(2) t(2) by (simp_all add: word_le_nat_alt)
      ultimately show ?thesis
        using sub x True ok(1) by (simp add: res x_def ext_arith)
    next
      case False
      then have "{unat s .. unat t} \<subseteq> {unat s ..< unat (bm_start b) + ee e}" using t(2) by auto
      with sub False ok(1) show ?thesis by (simp add: res ext_arith)
    qed
  qed
qed

section \<open>The red-black back end meets the contract\<close>

lemmas rb_table_simps = ext2fs_blkmap64_rbtree_def

interpretation rb: bmap_backend ext2fs_blkmap64_rbtree rb_inv rb_bits
  by unfold_locales
    (simp_all add: rb_table_simps rb_bits_range rb_test_bmap_spec rb_mark_bmap_spec
      rb_unmark_bmap_spec(1) rb_mark_extent_spec rb_unmark_extent_spec rb_test_clear_spec rb_clear_spec)

interpretation rb_set: bmap_find_set ext2fs_blkmap64_rbtree rb_inv rb_bits
  by unfold_locales
    (use rb_find_first_set_spec in \<open>fastforce simp: rb_table_simps\<close>)+

end
