(* ===== verification/Blkmap64_rb_Life.thy ===== *)
theory Blkmap64_rb_Life
  imports Blkmap64_rb_Table
begin

text \<open>
  The rest of the red-black back end: a new bitmap is empty, a copy covers the same numbers, and
  resizing cuts the marks off at the end and marks the padding between the end and the real end.
\<close>

section \<open>Creation and copying\<close>

lemma rb_put_put [simp]: "rb_put (rb_put b p) q = rb_put b q"
  by (simp add: rb_put_def)

lemma rb_empty_private_simps [simp]: "rb_root rb_empty_private = Leaf"
  by (simp add: rb_empty_private_def)

lemma rb_alloc_Inr:
  assumes "bm_wf b" "rb_alloc_private_data mem b = Inr b'"
  shows "rb_inv b'" "rb_bits b' = {}" "bm_hdr b' = bm_hdr b" "b' = rb_put b rb_empty_private"
proof -
  show b': "b' = rb_put b rb_empty_private"
    using assms(2) by (auto simp: rb_alloc_private_data_def split: sum.splits)
  have "rb_state rb_empty_private []" using rb_state_empty by (simp add: rb_empty_private_def)
  moreover have "bm_start b \<le> bm_real_end b" using assms(1) by (auto simp: bm_wf_def)
  ultimately show "rb_inv b'" "rb_bits b' = {}" "bm_hdr b' = bm_hdr b"
    using assms(1) by (simp_all add: b' rb_inv_def rb_bits_def bm_wf_def rb_empty_private_def)
qed

lemma rb_alloc_Inl:
  "rb_alloc_private_data mem b = Inl err \<Longrightarrow> err = EXT2_ET_NO_MEMORY \<and> \<not> never_fails mem"
  by (auto simp: rb_alloc_private_data_def split: sum.splits dest: ext2fs_get_mem_Inl)

text \<open>The bounds of an extent, which is what a copy keeps.\<close>

definition ext_iv :: "bmap_rb_extent \<Rightarrow> u64 \<times> u64" where
  "ext_iv e = (ext_start e, ext_count e)"

lemma ext_iv_addr [simp]: "ext_iv (e\<lparr>ext_addr := a\<rparr>) = ext_iv e"
  by (simp add: ext_iv_def)

lemma same_iv:
  assumes "map ext_iv xs = map ext_iv ys"
  shows "exts_ok xs = exts_ok ys" "ext_bits xs = ext_bits ys"
proof -
  have "list_all2 (\<lambda>x y. es x = es y \<and> ee x = ee y) xs ys"
    using assms by (induction xs arbitrary: ys) (auto simp: Cons_eq_map_conv ext_iv_def es_def ee_def)
  then have "map (\<lambda>e. (es e, ee e)) xs = map (\<lambda>e. (es e, ee e)) ys"
    by (induction) auto
  moreover have "exts_ok zs \<longleftrightarrow> (\<forall>(s, e) \<in> set (map (\<lambda>e. (es e, ee e)) zs). s < e \<and> e < 2 ^ 64)
      \<and> sorted_wrt (\<lambda>a b. snd a < fst b) (map (\<lambda>e. (es e, ee e)) zs)"
    "ext_bits zs = (\<Union>(s, e) \<in> set (map (\<lambda>e. (es e, ee e)) zs). {s ..< e})" for zs
    by (auto simp: exts_ok_def ext_ok_def sorted_wrt_map ext_bits_def)
  ultimately show "exts_ok xs = exts_ok ys" "ext_bits xs = ext_bits ys" by (simp_all only:)
qed

lemma rb_append_node_spec:
  assumes "rbt root"
  shows "rbt (rb_append_node e root)" "rb_inorder (rb_append_node e root) = rb_inorder root @ [e]"
proof -
  have "rbt (rb_append_node e root) \<and> rb_inorder (rb_append_node e root) = rb_inorder root @ [e]"
  proof (cases "ext2fs_rb_last root")
    case None
    then have "root = Leaf" using last_spec(1) by blast
    with None show ?thesis
      by (simp add: rb_append_node_def ext2fs_rb_link_node_def rbt_def)
  next
    case (Some z)
    with last_spec(2) [OF Some] obtain c l x r path where z: "z = (Node c l x r, path)"
      "rb_zip path (Node c l x r) = root" "pos_after z = []"
      by (cases z rule: pos_item.cases) auto
    then have r: "r = Leaf" "path_after path = []" by simp_all
    have "rbt (rb_zip (RightOf c l x # path) Leaf)" using assms z(2) r by simp
    from rbt_link [OF this, of e] have "rbt (rb_append_node e root)"
      using Some z(1) by (simp add: rb_append_node_def)
    moreover have "rb_inorder root = path_before path @ rb_inorder l @ [x]"
      using arg_cong [OF z(2), of rb_inorder] r by simp
    ultimately show ?thesis
      using Some z(1) r by (simp add: rb_append_node_def ext2fs_rb_link_node_def)
  qed
  then show "rbt (rb_append_node e root)" "rb_inorder (rb_append_node e root) = rb_inorder root @ [e]"
    by simp_all
qed

lemma rb_copy_loop_spec:
  assumes "rb_inorder src = us @ zs" "distinct (addrs (us @ zs))" "length zs \<le> fuel"
    "rbt dest" "map ext_iv (rb_inorder dest) = map ext_iv us" "distinct (addrs (rb_inorder dest))"
    "rb_copy_loop mem fuel (hd_ptr zs) src dest = (err, dest')"
  shows "(err = None \<and> rbt dest' \<and> map ext_iv (rb_inorder dest') = map ext_iv (us @ zs)
      \<and> distinct (addrs (rb_inorder dest'))) \<or> (err = Some EXT2_ET_NO_MEMORY \<and> \<not> never_fails mem)"
  using assms
proof (induction zs arbitrary: us dest fuel)
  case Nil
  then show ?case by auto
next
  case (Cons f zs)
  then obtain k where k: "fuel = Suc k" "length zs \<le> k" by (cases fuel) auto
  note ptr = rb_next_ptr_split [OF Cons.prems(1,2)] rb_deref_split [OF Cons.prems(1,2)]
  show ?case
  proof (cases "ext2fs_get_mem mem 40")
    case (Inl a)
    with Cons.prems(7) k ext2fs_get_mem_Inl [OF Inl] show ?thesis by simp
  next
    case (Inr blk)
    define e where "e = f\<lparr>ext_addr := rb_new_addr dest\<rparr>"
    define d where "d = rb_append_node e dest"
    have d: "rbt d" "rb_inorder d = rb_inorder dest @ [e]"
      unfolding d_def by (rule rb_append_node_spec [OF Cons.prems(4)])+
    have "distinct (addrs (rb_inorder d))"
      using Cons.prems(6) rb_new_addr_fresh [of dest] d(2) by (simp add: e_def)
    moreover have "map ext_iv (rb_inorder d) = map ext_iv (us @ [f])"
      using Cons.prems(5) d(2) by (simp add: e_def)
    moreover have "rb_copy_loop mem k (hd_ptr zs) src d = (err, dest')"
      using Cons.prems(7) k Inr ptr by (simp add: Let_def d_def e_def)
    ultimately show ?thesis
      using Cons.IH [of "us @ [f]" k d] Cons.prems k d(1) by simp
  qed
qed

lemma rb_state_no_rcursor: "rb_state bp xs \<Longrightarrow> rb_state (bp\<lparr>rb_rcursor := None\<rparr>) xs"
  by (auto simp: rb_state_def cursors_ok_def)

lemma rb_copy_spec:
  assumes "rb_inv src" "rb_copy_bmap mem src dest = (src', res)"
  shows "rb_inv src' \<and> rb_bits src' = rb_bits src \<and> bm_hdr src' = bm_hdr src"
    "res = Inl err \<Longrightarrow> err = EXT2_ET_NO_MEMORY \<and> \<not> never_fails mem"
    "res = Inr dest' \<Longrightarrow> bm_same_geometry src dest \<Longrightarrow>
       rb_inv dest' \<and> rb_bits dest' = rb_bits src \<and> bm_hdr dest' = bm_hdr dest"
proof -
  note i = rb_invD [OF assms(1)]
  obtain al where al: "rb_alloc_private_data mem dest = al" by simp
  have "rb_inv src' \<and> rb_bits src' = rb_bits src \<and> bm_hdr src' = bm_hdr src
    \<and> (case res of Inl err \<Rightarrow> err = EXT2_ET_NO_MEMORY \<and> \<not> never_fails mem
        | Inr dest' \<Rightarrow> bm_same_geometry src dest \<longrightarrow>
            rb_inv dest' \<and> rb_bits dest' = rb_bits src \<and> bm_hdr dest' = bm_hdr dest)"
  proof (cases al)
    case (Inl err)
    then have "rb_copy_bmap mem src dest = (src, Inl err)" using al by (simp add: rb_copy_bmap_def)
    then have "src' = src" "res = Inl err" using assms(2) by simp_all
    with assms(1) Inl al rb_alloc_Inl [of mem dest err] show ?thesis by simp
  next
    case (Inr d1)
    then have d1: "d1 = rb_put dest rb_empty_private"
      using al by (auto simp: rb_alloc_private_data_def split: sum.splits)
    define sp where "sp = (rb_priv src)\<lparr>rb_rcursor := None\<rparr>"
    have sp: "rb_state sp (rb_exts src)" using rb_state_no_rcursor [OF i(1)] by (simp add: sp_def)
    have src': "rb_inv (rb_put src sp)" "rb_bits (rb_put src sp) = rb_bits src"
      using rb_put_inv [OF assms(1) sp i(2,6)] by (simp_all add: rb_bits_def [of src])
    obtain err root where loop: "rb_copy_loop mem (rb_fuel sp) (hd_ptr (rb_exts src)) (rb_root sp) Leaf = (err, root)"
      by fastforce
    have *: "(err = None \<and> rbt root \<and> map ext_iv (rb_inorder root) = map ext_iv (rb_exts src)
        \<and> distinct (addrs (rb_inorder root))) \<or> (err = Some EXT2_ET_NO_MEMORY \<and> \<not> never_fails mem)"
      using rb_copy_loop_spec [of "rb_root sp" "[]" "rb_exts src" "rb_fuel sp" Leaf mem err root]
        loop rb_stateD [OF sp] rb_state_fuel [OF sp] by (simp add: rbt_def)
    have copy: "rb_copy_bmap mem src dest = (rb_put src sp, case err of Some e \<Rightarrow> Inl e
        | None \<Rightarrow> Inr (rb_put dest (rb_empty_private\<lparr>rb_rcursor := None, rb_root := root\<rparr>)))"
      using al Inr loop rb_stateD(2) [OF sp]
      by (simp add: rb_copy_bmap_def Let_def d1 sp_def first_ptr split: option.splits)
    have "rb_inv (rb_put dest (rb_empty_private\<lparr>rb_rcursor := None, rb_root := root\<rparr>))
        \<and> rb_bits (rb_put dest (rb_empty_private\<lparr>rb_rcursor := None, rb_root := root\<rparr>)) = rb_bits src"
      if g: "bm_same_geometry src dest" and ok: "err = None"
    proof -
      have st: "rb_state (rb_empty_private\<lparr>rb_rcursor := None, rb_root := root\<rparr>) (rb_inorder root)"
        using * ok by (simp add: rb_state_def cursors_ok_def rb_empty_private_def)
      have iv: "exts_ok (rb_inorder root)" "ext_bits (rb_inorder root) = ext_bits (rb_exts src)"
        using same_iv [of "rb_inorder root" "rb_exts src"] * ok i(2) by simp_all
      have e: "bm_start dest = bm_start src" "bm_real_end dest = bm_real_end src"
        using g by (simp_all add: bm_same_geometry_def)
      have "\<forall>f \<in> set (rb_inorder root). ee f \<le> Suc (unat (bm_real_end src) - unat (bm_start src))"
        using exts_bound [OF iv(1)] iv(2) i(6) by auto
      with st iv i(3,4) e show ?thesis by (simp add: rb_inv_def rb_bits_def)
    qed
    with copy src' * assms(2) show ?thesis by (auto simp: i)
  qed
  then show "rb_inv src' \<and> rb_bits src' = rb_bits src \<and> bm_hdr src' = bm_hdr src"
    "res = Inl err \<Longrightarrow> err = EXT2_ET_NO_MEMORY \<and> \<not> never_fails mem"
    "res = Inr dest' \<Longrightarrow> bm_same_geometry src dest \<Longrightarrow>
       rb_inv dest' \<and> rb_bits dest' = rb_bits src \<and> bm_hdr dest' = bm_hdr dest"
    by simp_all
qed

interpretation rb_life: bmap_lifecycle ext2fs_blkmap64_rbtree rb_inv rb_bits
proof unfold_locales
  show "rb_inv b' \<and> rb_bits b' = {} \<and> bm_hdr b' = bm_hdr b"
    if "bm_wf b" "ops_new_bmap ext2fs_blkmap64_rbtree mem b = Inr b'" for b b' mem
    using rb_alloc_Inr [OF that(1)] that(2) by (simp add: rb_table_simps rb_new_bmap_def)
  show "err = EXT2_ET_NO_MEMORY \<and> \<not> never_fails mem"
    if "ops_new_bmap ext2fs_blkmap64_rbtree mem b = Inl err" for mem err b
    using rb_alloc_Inl that by (simp add: rb_table_simps rb_new_bmap_def)
  fix src mem dest src' res err dest'
  assume src: "rb_inv src"
  { assume "ops_copy_bmap ext2fs_blkmap64_rbtree mem src dest = (src', res)"
    then show "rb_inv src' \<and> rb_bits src' = rb_bits src \<and> bm_hdr src' = bm_hdr src"
      using rb_copy_spec(1) [OF src] by (simp add: rb_table_simps) }
  { assume "ops_copy_bmap ext2fs_blkmap64_rbtree mem src dest = (src', Inl err)"
    then show "err = EXT2_ET_NO_MEMORY \<and> \<not> never_fails mem"
      using rb_copy_spec(2) [OF src] by (simp add: rb_table_simps) }
  { assume "ops_copy_bmap ext2fs_blkmap64_rbtree mem src dest = (src', Inr dest')" "bm_same_geometry src dest"
    then show "rb_inv dest' \<and> rb_bits dest' = rb_bits src \<and> bm_hdr dest' = bm_hdr dest"
      using rb_copy_spec(3) [OF src] by (simp add: rb_table_simps) }
qed

section \<open>Resizing\<close>

lemma last_ptr: "pos_ptr (ext2fs_rb_last root) = hd_ptr (rev (rb_inorder root))"
proof (cases "ext2fs_rb_last root")
  case None
  then have "root = Leaf" using last_spec(1) by blast
  with None show ?thesis by (simp add: pos_ptr_def)
next
  case (Some z)
  with last_spec(2) [OF Some] obtain x where x: "rb_zip (snd z) (fst z) = root" "pos_after z = []"
    "pos_item z = Some x" by auto
  then have "rb_inorder root = pos_before z @ [x]" using pos_split [of "fst z" "snd z" x] by simp
  with Some x show ?thesis by (simp add: pos_ptr_def)
qed

definition tree_of :: "ext_tree \<Rightarrow> bmap_rb_extent list \<Rightarrow> bool" where
  "tree_of root xs \<longleftrightarrow> rbt root \<and> rb_inorder root = xs \<and> distinct (addrs xs)"

lemma tree_of_erase:
  assumes "tree_of root (xs @ [e])"
  shows "tree_of (rb_erase_ptr (ext_addr e) root) xs"
  using assms rb_erase_ptr_split [of root xs e "[]"] by (simp add: tree_of_def)

lemma tree_of_store:
  assumes "tree_of root (xs @ [e])"
  shows "tree_of (rb_store (ext_addr e) s c root) (xs @ [e\<lparr>ext_start := s, ext_count := c\<rparr>])"
  using assms rb_store_split [of root xs e "[]" s c] by (simp add: tree_of_def)

lemma rb_truncate_loop_Suc:
  assumes "tree_of root (xs @ [e])"
  shows "rb_truncate_loop (Suc k) m root =
    (if ext_end e - 1 \<le> m then root
     else if m < ext_start e then rb_truncate_loop k m (rb_erase_ptr (ext_addr e) root)
     else rb_truncate_loop k m (rb_store (ext_addr e) (ext_start e) (m - ext_start e + 1) root))"
  using assms rb_deref_split [of root xs e "[]"] by (simp add: tree_of_def last_ptr Let_def)

lemma rb_truncate_stop:
  assumes "tree_of root (xs @ [e])" "ext_end e - 1 \<le> m"
  shows "rb_truncate_loop k m root = root"
  using rb_truncate_loop_Suc [OF assms(1)] assms(2) by (cases k) auto

lemma rb_truncate_loop_spec:
  assumes "tree_of root xs" "exts_ok xs" "length xs \<le> fuel"
  shows "\<exists>ys. tree_of (rb_truncate_loop fuel m root) ys \<and> exts_ok ys \<and> ext_bits ys = ext_bits xs \<inter> {.. unat m}"
  using assms
proof (induction xs arbitrary: root fuel rule: rev_induct)
  case Nil
  then have "pos_ptr (ext2fs_rb_last root) = None" unfolding last_ptr by (simp add: tree_of_def)
  then have "rb_truncate_loop fuel m root = root" by (cases fuel) simp_all
  with Nil show ?case by (intro exI [of _ "[]"]) simp
next
  case (snoc e xs)
  then obtain k where k: "fuel = Suc k" "length xs \<le> k" by (cases fuel) auto
  have e: "ext_ok e" "es e < ee e" "\<forall>f \<in> set xs. ee f < es e" "exts_ok xs" "ee e < 2 ^ 64"
    using snoc.prems(2) by (auto simp: ext_ok_def)
  have end1: "unat (ext_end e - 1) = ee e - 1"
  proof -
    have "ext_end e \<noteq> 0" using e(1,2) unat_ext_end [OF e(1)] by auto
    from unat_minus_one [OF this] show ?thesis by (simp add: unat_ext_end e(1))
  qed
  have xs: "n < es e" if "n \<in> ext_bits xs" for n
    using ext_bits_bounds(1) [OF ball_lt_le [OF e(3)] that] .
  note step = rb_truncate_loop_Suc [OF snoc.prems(1), of k m, folded k(1)]
  consider (stop) "ee e - 1 \<le> unat m" | (drop) "unat m < es e"
    | (cut) "es e \<le> unat m" "unat m < ee e - 1" by linarith
  then show ?case
  proof cases
    case stop
    then have "ext_end e - 1 \<le> m" using end1 by (simp add: word_le_nat_alt)
    then have "rb_truncate_loop fuel m root = root" using step by simp
    moreover have "ext_bits (xs @ [e]) \<subseteq> {.. unat m}" using xs stop e(2) by fastforce
    ultimately show ?thesis using snoc.prems by (intro exI [of _ "xs @ [e]"]) auto
  next
    case drop
    then have "\<not> ext_end e - 1 \<le> m" "m < ext_start e" using end1 e(2)
      by (simp_all add: word_le_nat_alt word_less_nat_alt unat_ext_start)
    then have "rb_truncate_loop fuel m root = rb_truncate_loop k m (rb_erase_ptr (ext_addr e) root)"
      using step by simp
    moreover have "ext_bits (xs @ [e]) \<inter> {.. unat m} = ext_bits xs \<inter> {.. unat m}" using drop by auto
    ultimately show ?thesis
      using snoc.IH [OF tree_of_erase [OF snoc.prems(1)] e(4) k(2)] by simp
  next
    case cut
    let ?c = "m - ext_start e + 1" and ?e = "e\<lparr>ext_start := ext_start e, ext_count := m - ext_start e + 1\<rparr>"
    have d: "unat (m - ext_start e) = unat m - es e"
      using cut(1) by (simp add: ext_arith unat_sub_no_wrap)
    then have c: "unat ?c = unat m - es e + 1" using cut e(5) by (subst unat_add64) simp_all
    have b: "es ?e = es e" "ee ?e = Suc (unat m)"
      unfolding es_ee_update(1,2) c using cut by (simp_all add: unat_ext_start)
    have conds: "\<not> ext_end e - 1 \<le> m" "\<not> m < ext_start e" using cut end1
      by (simp_all add: word_le_nat_alt word_less_nat_alt unat_ext_start)
    have ok: "exts_ok (xs @ [?e])" using e b cut by (simp add: ext_ok_def)
    have t: "tree_of (rb_store (ext_addr e) (ext_start e) ?c root) (xs @ [?e])"
      by (rule tree_of_store [OF snoc.prems(1)])
    have "ext_ok ?e" using ok by simp
    then have u: "unat (ext_end ?e) = Suc (unat m)" using b unat_ext_end by metis
    then have "ext_end ?e \<noteq> 0" by auto
    from unat_minus_one [OF this] have "ext_end ?e - 1 \<le> m" unfolding u by (simp add: word_le_nat_alt)
    from rb_truncate_stop [OF t this]
    have "rb_truncate_loop fuel m root = rb_store (ext_addr e) (ext_start e) ?c root"
      using step conds by simp
    moreover have "ext_bits (xs @ [?e]) = ext_bits (xs @ [e]) \<inter> {.. unat m}"
      using b cut xs by fastforce
    ultimately show ?thesis using t ok by metis
  qed
qed

lemma rb_truncate_spec:
  assumes "rb_state bp xs" "exts_ok xs" "rb_rcursor bp = None" "rb_wcursor bp = None"
  shows "\<exists>ys. rb_state (bp\<lparr>rb_root := rb_truncate m (rb_root bp)\<rparr>) ys \<and> exts_ok ys
    \<and> ext_bits ys = ext_bits xs \<inter> {.. unat m}"
proof -
  have "tree_of (rb_root bp) xs" using rb_stateD [OF assms(1)] by (simp add: tree_of_def)
  from rb_truncate_loop_spec [OF this assms(2), of "length (rb_inorder (rb_root bp)) + 1" m]
  obtain ys where "tree_of (rb_truncate m (rb_root bp)) ys" "exts_ok ys"
    "ext_bits ys = ext_bits xs \<inter> {.. unat m}"
    using rb_stateD(2) [OF assms(1)] by (auto simp: rb_truncate_def)
  then show ?thesis
    using assms(3,4) by (intro exI [of _ ys]) (simp add: rb_state_def tree_of_def cursors_ok_def)
qed

text \<open>
  After a resize the marks up to the smaller end are kept and the padding up to the real end is
  marked.
\<close>

lemma rb_resize_spec:
  assumes "rb_inv b" "bm_start b \<le> bm_end b" "bm_start b \<le> new_end" "new_end \<le> new_real_end"
    "unat new_real_end - unat (bm_start b) < 2 ^ 64 - 1"
    "rb_resize_bmap mem b new_end new_real_end = (b', 0)"
  shows "rb_inv b'" "bm_start b' = bm_start b" "bm_end b' = new_end" "bm_real_end b' = new_real_end"
    "rb_bits b' = (rb_bits b \<inter> {.. min (unat (bm_end b)) (unat new_end)})
       \<union> {Suc (unat new_end) .. unat new_real_end}"
proof -
  note i = rb_invD [OF assms(1)]
  define lim where "lim = (if new_end < bm_end b then new_end else bm_end b) - bm_start b"
  define bp0 where "bp0 = (rb_priv b)\<lparr>rb_rcursor := None, rb_wcursor := None\<rparr>"
  define bp1 where "bp1 = bp0\<lparr>rb_root := rb_truncate lim (rb_root bp0)\<rparr>"
  define bp2 where "bp2 = (if new_end < new_real_end
      then fst (rb_insert_extent (new_end + 1 - bm_start b) (new_real_end - new_end) bp1) else bp1)"
  define st where "st = unat (bm_start b)"
  have le: "st \<le> unat (bm_end b)" "st \<le> unat new_end" "unat new_end \<le> unat new_real_end"
    using assms(2-4) by (simp_all add: st_def word_le_nat_alt)
  have b': "b' = rb_put (b\<lparr>bm_end := new_end, bm_real_end := new_real_end\<rparr>) bp2"
    using assms(6) by (simp add: rb_resize_bmap_def Let_def bp2_def bp1_def bp0_def lim_def cong: if_cong)
  show "bm_start b' = bm_start b" "bm_end b' = new_end" "bm_real_end b' = new_real_end"
    by (simp_all add: b')
  have lim: "unat lim = min (unat (bm_end b)) (unat new_end) - st"
    using assms(2,3) by (auto simp: lim_def st_def unat_sub_no_wrap word_less_nat_alt)
  have "rb_state bp0 (rb_exts b)" using i(1) by (simp add: bp0_def rb_state_def cursors_ok_def)
  from rb_truncate_spec [OF this i(2), of lim] obtain ys where ys: "rb_state bp1 ys" "exts_ok ys"
    "ext_bits ys = ext_bits (rb_exts b) \<inter> {.. unat lim}" by (auto simp: bp1_def bp0_def)
  have "\<exists>zs. rb_state bp2 zs \<and> exts_ok zs \<and> ext_bits zs = ext_bits ys \<union> {Suc (unat new_end) - st .. unat new_real_end - st}"
  proof (cases "new_end < new_real_end")
    case True
    then have "unat (new_end + 1) = Suc (unat new_end)" by (rule unat_inc)
    then have u: "unat (new_end + 1 - bm_start b) = Suc (unat new_end) - st"
      using le by (simp add: st_def unat_sub_no_wrap word_le_nat_alt)
    have v: "unat (new_real_end - new_end) = unat new_real_end - unat new_end"
      using assms(4) by (simp add: unat_sub_no_wrap)
    have w: "unat (new_end + 1 - bm_start b) + unat (new_real_end - new_end) < 2 ^ 64"
      unfolding u v using le assms(5) by (simp add: st_def)
    have "{Suc (unat new_end) - st ..< Suc (unat new_end) - st + (unat new_real_end - unat new_end)}
        = {Suc (unat new_end) - st .. unat new_real_end - st}" using le by auto
    with rb_insert_extent_spec(1) [OF ys(1,2) w] True show ?thesis by (simp add: bp2_def u v)
  next
    case False
    then have "{Suc (unat new_end) - st .. unat new_real_end - st} = {}"
      using le by (auto simp: word_less_nat_alt)
    with False ys show ?thesis by (auto simp: bp2_def)
  qed
  then obtain zs where zs: "rb_state bp2 zs" "exts_ok zs"
    "ext_bits zs = (ext_bits (rb_exts b) \<inter> {.. unat lim}) \<union> {Suc (unat new_end) - st .. unat new_real_end - st}"
    using ys(3) by auto
  have sub: "ext_bits zs \<subseteq> {.. unat new_real_end - st}" using zs(3) lim le by auto
  note in' = rb_stateD(2) [OF zs(1)]
  show "rb_inv b'"
    using zs(1,2) in' exts_bound [OF zs(2) sub] assms(3-5)
    by (auto simp: b' rb_inv_def st_def)
  have "(+) st ` (ext_bits (rb_exts b) \<inter> {.. unat lim})
      = (+) st ` ext_bits (rb_exts b) \<inter> {.. min (unat (bm_end b)) (unat new_end)}"
    using le unfolding lim by (auto simp: le_diff_conv2)
  moreover have "(+) st ` {Suc (unat new_end) - st .. unat new_real_end - st}
      = {Suc (unat new_end) .. unat new_real_end}"
    using le by (simp add: image_add_atLeastAtMost)
  moreover have e: "rb_exts b' = zs" "bm_start b' = bm_start b" using in' by (simp_all add: b')
  ultimately show "rb_bits b' = (rb_bits b \<inter> {.. min (unat (bm_end b)) (unat new_end)})
       \<union> {Suc (unat new_end) .. unat new_real_end}"
    unfolding rb_bits_def e st_def [symmetric] zs(3) image_Un by (simp only:)
qed

section \<open>Ranges\<close>

text \<open>The last insertion of \<open>rb_set_bmap_range\<close>, after the scan.\<close>

definition rb_set_finish :: "nat \<Rightarrow> u64 \<Rightarrow> nat option \<times> ext2fs_rb_private \<Rightarrow> ext2fs_rb_private" where
  "rb_set_finish num base r =
     (case r of (None, bp) \<Rightarrow> bp | (Some f, bp) \<Rightarrow> fst (rb_insert_extent (base + of_nat f) (of_nat (num - f)) bp))"

lemma byte_bits:
  assumes "i mod 8 = 0" "i \<le> j" "j < i + 8"
  shows "j div 8 = i div (8 :: nat)"
proof -
  obtain q where "i = 8 * q" using assms(1) by (auto simp: mod_eq_0_iff_dvd)
  then show ?thesis using assms(2,3) by (auto intro!: div_nat_eqI)
qed

definition pending :: "nat option \<Rightarrow> nat \<Rightarrow> nat set" where
  "pending f i = (case f of None \<Rightarrow> {} | Some f \<Rightarrow> {f ..< i})"

lemma rb_insert_rel:
  assumes "rb_state bp xs" "exts_ok xs" "unat base + num < 2 ^ 64" "f \<le> i" "i \<le> num"
  shows "\<exists>zs. rb_state (fst (rb_insert_extent (base + of_nat f) (of_nat (i - f)) bp)) zs \<and> exts_ok zs
    \<and> ext_bits zs = ext_bits xs \<union> (+) (unat base) ` {f ..< i}"
proof -
  have n: "unat (of_nat f :: u64) = f" "unat (of_nat (i - f) :: u64) = i - f"
    using assms(3-5) by (auto intro!: unat_of_nat_small simp del: of_nat_diff)
  then have u: "unat (base + of_nat f) = unat base + f"
    using assms(3-5) by (simp add: unat_add64)
  have "unat (base + of_nat f) + unat (of_nat (i - f) :: u64) < 2 ^ 64"
    using u n assms(3-5) by simp
  moreover have "(+) (unat base) ` {f ..< i} = {unat base + f ..< unat base + f + (i - f)}"
    using assms(4) by (simp add: ac_simps)
  ultimately show ?thesis using rb_insert_extent_spec(1) [OF assms(1,2)] u n(2) by metis
qed

declare rb_set_range_loop.simps [simp del]

lemma byte_FF:
  assumes "inp ! (i div 8) = 0xFF" "i mod 8 = 0" "i \<le> j" "j < i + 8"
  shows "bit_at inp j"
proof -
  have "(0xFF :: u8) = mask 8" by (simp add: mask_eq_exp_minus_1)
  then have "bit (0xFF :: u8) (j mod 8)" by (simp only: bit_mask_iff) simp
  then show ?thesis using assms(1) byte_bits [OF assms(2-4)] by (simp add: bit_at_def)
qed

lemma byte_00:
  assumes "inp ! (i div 8) = 0" "i mod 8 = 0" "i \<le> j" "j < i + 8"
  shows "\<not> bit_at inp j"
  using assms(1) byte_bits [OF assms(2-4)] by (simp add: bit_at_def)

lemma pending_step:
  assumes "case f of None \<Rightarrow> True | Some f \<Rightarrow> f < i" "i < num" "i < k" "\<And>j. i \<le> j \<Longrightarrow> j < k \<Longrightarrow> bit_at inp j"
  shows "pending (Some (case f of None \<Rightarrow> i | Some f \<Rightarrow> f)) (min k num) \<union> {j. k \<le> j \<and> j < num \<and> bit_at inp j}
    = pending f (min i num) \<union> {j. i \<le> j \<and> j < num \<and> bit_at inp j}"
  using assms by (cases f) (auto simp: pending_def not_less)

lemma pending_skip:
  assumes "i < k" "\<And>j. i \<le> j \<Longrightarrow> j < k \<Longrightarrow> \<not> bit_at inp j"
  shows "{j. k \<le> j \<and> j < num \<and> bit_at inp j} = {j. i \<le> j \<and> j < num \<and> bit_at inp j}"
  using assms by (auto simp: not_le) (metis not_le)

lemma rb_set_range_loop_spec:
  assumes "rb_state bp xs" "exts_ok xs" "unat base + num < 2 ^ 64" "num < 2 ^ 32"
    "case f of None \<Rightarrow> True | Some f \<Rightarrow> f < i \<and> f < num"
  shows "\<exists>zs. rb_state (rb_set_finish num base (rb_set_range_loop i num f base inp bp)) zs \<and> exts_ok zs
    \<and> ext_bits zs = ext_bits xs
        \<union> (+) (unat base) ` (pending f (min i num) \<union> {j. i \<le> j \<and> j < num \<and> bit_at inp j})"
  using assms
proof (induction i num f base inp bp arbitrary: xs rule: rb_set_range_loop.induct)
  case (1 i num f base inp bp)
  have f: "case f of None \<Rightarrow> True | Some f \<Rightarrow> f < i" using "1.prems"(5) by (simp split: option.splits)
  define f' where "f' = (case f of None \<Rightarrow> Some i | Some f \<Rightarrow> Some f)"
  have f': "f' = Some (case f of None \<Rightarrow> i | Some f \<Rightarrow> f)"
    by (simp add: f'_def split: option.splits)
  note step = rb_set_range_loop.simps [of i num f base inp bp, folded f'_def]
  have test: "ext2fs_test_bit (of_nat i) inp \<noteq> 0 \<longleftrightarrow> bit_at inp i" if "i < num"
    using that "1.prems"(4) by (simp add: test_bit_iff unsigned_of_nat take_bit_nat_eq_self)
  show ?case
  proof (cases "i < num")
    case False
    then have stop: "rb_set_range_loop i num f base inp bp = (f, bp)" using step by simp
    have none: "{j. i \<le> j \<and> j < num \<and> bit_at inp j} = {}" using False by auto
    show ?thesis
    proof (cases f)
      case None
      with stop none "1.prems"(1,2) show ?thesis by (auto simp: rb_set_finish_def pending_def)
    next
      case (Some k)
      then have "k \<le> num" using "1.prems"(5) by simp
      from rb_insert_rel [OF "1.prems"(1-3) this order.refl] Some
      have "\<exists>zs. rb_state (rb_set_finish num base (f, bp)) zs \<and> exts_ok zs
          \<and> ext_bits zs = ext_bits xs \<union> (+) (unat base) ` pending f num"
        by (simp add: rb_set_finish_def pending_def)
      moreover have "min i num = num" using False by simp
      ultimately show ?thesis unfolding stop none by simp
    qed
  next
    case lt: True
    have f'_ok: "k > i \<Longrightarrow> case f' of None \<Rightarrow> True | Some f \<Rightarrow> f < k \<and> f < num" for k
      using "1.prems"(5) lt by (auto simp: f' split: option.splits)
    consider (full) "i mod 8 = 0 \<and> inp ! (i div 8) = 0xFF"
      | (zero) "\<not> (i mod 8 = 0 \<and> inp ! (i div 8) = 0xFF)" "i mod 8 = 0 \<and> inp ! (i div 8) = 0 \<and> f = None"
      | (set) "\<not> (i mod 8 = 0 \<and> inp ! (i div 8) = 0xFF)"
          "\<not> (i mod 8 = 0 \<and> inp ! (i div 8) = 0 \<and> f = None)" "ext2fs_test_bit (of_nat i) inp \<noteq> 0"
      | (clear) "\<not> (i mod 8 = 0 \<and> inp ! (i div 8) = 0xFF)"
          "\<not> (i mod 8 = 0 \<and> inp ! (i div 8) = 0 \<and> f = None)" "\<not> ext2fs_test_bit (of_nat i) inp \<noteq> 0"
      by blast
    then show ?thesis
    proof cases
      case full
      have go: "rb_set_range_loop i num f base inp bp = rb_set_range_loop (i + 8) num f' base inp bp"
        using step lt full by simp
      have "i < i + 8" by simp
      note IH = "1.IH"(1) [OF lt full "1.prems"(1-4), folded f'_def, OF f'_ok [OF this]]
      have "pending f' (min (i + 8) num) \<union> {j. i + 8 \<le> j \<and> j < num \<and> bit_at inp j}
          = pending f (min i num) \<union> {j. i \<le> j \<and> j < num \<and> bit_at inp j}"
        unfolding f' by (rule pending_step [OF f lt]) (use full in \<open>auto dest: byte_FF\<close>)
      with IH show ?thesis unfolding go by simp
    next
      case zero
      have go: "rb_set_range_loop i num f base inp bp = rb_set_range_loop (i + 8) num f base inp bp"
        using step lt zero by simp
      have "{j. i + 8 \<le> j \<and> j < num \<and> bit_at inp j} = {j. i \<le> j \<and> j < num \<and> bit_at inp j}"
        using zero(2) by (intro pending_skip) (auto dest: byte_00)
      with "1.IH"(2) [OF lt zero "1.prems"(1-4)] zero(2) go show ?thesis by (simp add: pending_def)
    next
      case set
      have go: "rb_set_range_loop i num f base inp bp = rb_set_range_loop (i + 1) num f' base inp bp"
        using step lt set by simp
      have "i < i + 1" by simp
      have b: "bit_at inp j" if "i \<le> j" "j < i + 1" for j
        using that test [OF lt] set(3) by (cases "j = i") auto
      note IH = "1.IH"(3) [OF lt set "1.prems"(1-4), folded f'_def, OF f'_ok [OF \<open>i < i + 1\<close>]]
      have "pending f' (min (i + 1) num) \<union> {j. i + 1 \<le> j \<and> j < num \<and> bit_at inp j}
          = pending f (min i num) \<union> {j. i \<le> j \<and> j < num \<and> bit_at inp j}"
        unfolding f' by (rule pending_step [OF f lt]) (simp_all add: b)
      with IH show ?thesis unfolding go by simp
    next
      case clear
      have skip: "{j. i + 1 \<le> j \<and> j < num \<and> bit_at inp j} = {j. i \<le> j \<and> j < num \<and> bit_at inp j}"
        using test [OF lt] clear(3) by (intro pending_skip) (auto simp: less_Suc_eq_le)
      show ?thesis
      proof (cases f)
        case None
        have "rb_set_range_loop i num f base inp bp = rb_set_range_loop (i + 1) num None base inp bp"
          using step lt clear None by auto
        with "1.IH"(4) [OF lt clear None "1.prems"(1-4)] skip None show ?thesis by (simp add: pending_def)
      next
        case (Some k)
        define bp' where "bp' = fst (rb_insert_extent (base + of_nat k) (of_nat (i - k)) bp)"
        have "k \<le> i" "i \<le> num" using f Some lt by simp_all
        from rb_insert_rel [OF "1.prems"(1-3) this] obtain ys where ys: "rb_state bp' ys" "exts_ok ys"
          "ext_bits ys = ext_bits xs \<union> (+) (unat base) ` {k ..< i}" by (auto simp: bp'_def)
        have "rb_set_range_loop i num f base inp bp = rb_set_range_loop (i + 1) num None base inp bp'"
          using step lt clear Some by (auto simp: bp'_def)
        with "1.IH"(5) [OF lt clear Some, folded bp'_def, OF ys(1,2) "1.prems"(3,4)] skip Some ys(3) lt
        show ?thesis by (simp add: pending_def image_Un Un_assoc)
      qed
    qed
  qed
qed

lemma rb_set_range_loop_first:
  assumes "\<And>k. f = Some k \<Longrightarrow> k < num" "fst (rb_set_range_loop i num f base inp bp) = Some k"
  shows "k < num"
  using assms
proof (induction i num f base inp bp rule: rb_set_range_loop.induct)
  case (1 i num f base inp bp)
  show ?case
  proof (cases "i < num")
    case False
    with "1.prems" show ?thesis by (simp add: rb_set_range_loop.simps)
  next
    case True
    with 1 show ?thesis
      by (subst (asm) (6) rb_set_range_loop.simps) (auto split: if_split_asm option.split_asm)
  qed
qed

lemma image_add_Collect: "(+) (a :: nat) ` {j. P j} = {n. a \<le> n \<and> P (n - a)}"
  by (force simp: image_iff intro: exI [of _ "n - a" for n])

lemma rb_set_range_spec:
  assumes "rb_inv b" "bm_start b \<le> start" "unat start + unat num \<le> Suc (unat (bm_real_end b))"
    "unat num < 2 ^ 32"
  shows "rb_inv (rb_set_bmap_range b start num inp)"
    "bm_hdr (rb_set_bmap_range b start num inp) = bm_hdr b"
    "rb_bits (rb_set_bmap_range b start num inp)
       = rb_bits b \<union> {n. unat start \<le> n \<and> n < unat start + unat num \<and> bit_at inp (n - unat start)}"
proof -
  note i = rb_invD [OF assms(1)]
  define base where "base = start - bm_start b"
  have base: "unat base = unat start - unat (bm_start b)" "unat (bm_start b) \<le> unat start"
    using assms(2) by (simp_all add: base_def unat_sub_no_wrap word_le_nat_alt)
  have fit: "unat base + unat num \<le> Suc (unat (bm_real_end b) - unat (bm_start b))"
    using base assms(3) by simp
  then have fit': "unat base + unat num < 2 ^ 64" using i(4) by simp
  let ?r = "rb_set_range_loop 0 (unat num) None base inp (rb_priv b)"
  have fin: "rb_set_bmap_range b start num inp = rb_put b (rb_set_finish (unat num) base ?r)"
  proof (cases ?r)
    case (Pair f bp)
    have "num - of_nat k = of_nat (unat num - k)" if "f = Some k" for k
    proof -
      have "k < unat num"
        using rb_set_range_loop_first [of None "unat num" 0 base inp "rb_priv b" k] Pair that by simp
      then show ?thesis by (simp add: of_nat_diff)
    qed
    then show ?thesis
      by (cases f) (simp_all add: rb_set_bmap_range_def Let_def base_def [symmetric] Pair rb_set_finish_def)
  qed
  let ?new = "{j. j < unat num \<and> bit_at inp j}"
  from rb_set_range_loop_spec [OF i(1,2) fit' assms(4), where f = None and i = 0 and inp = inp] obtain zs where
    zs: "rb_state (rb_set_finish (unat num) base ?r) zs" "exts_ok zs"
    "ext_bits zs = ext_bits (rb_exts b) \<union> (+) (unat base) ` ?new"
    by (auto simp: pending_def)
  have "ext_bits zs \<subseteq> {.. unat (bm_real_end b) - unat (bm_start b)}"
    using zs(3) i(6) fit by auto
  note put = rb_put_inv [OF assms(1) zs(1,2) this]
  show "rb_inv (rb_set_bmap_range b start num inp)" "bm_hdr (rb_set_bmap_range b start num inp) = bm_hdr b"
    unfolding fin using put by simp_all
  have "(+) (unat (bm_start b)) ` (+) (unat base) ` ?new
      = {n. unat start \<le> n \<and> n < unat start + unat num \<and> bit_at inp (n - unat start)}"
  proof -
    have "unat (bm_start b) + (unat base + j) = unat start + j" for j using base by simp
    then have "(+) (unat (bm_start b)) ` (+) (unat base) ` ?new = (+) (unat start) ` ?new"
      by (simp only: image_image)
    also have "\<dots> = {n. unat start \<le> n \<and> n < unat start + unat num \<and> bit_at inp (n - unat start)}"
      unfolding image_add_Collect by (auto simp: less_diff_conv2)
    finally show ?thesis .
  qed
  then show "rb_bits (rb_set_bmap_range b start num inp)
       = rb_bits b \<union> {n. unat start \<le> n \<and> n < unat start + unat num \<and> bit_at inp (n - unat start)}"
    unfolding fin put(2) zs(3) image_Un by (simp add: rb_bits_def)
qed

text \<open>The inner loop of \<open>rb_get_bmap_range\<close> sets \<open>count\<close> bits of the buffer.\<close>

declare rb_fill_loop.simps [simp del]

lemma bit_at_memset_FF:
  assumes "off + k \<le> length buf" "n div 8 < length buf"
  shows "bit_at (memset buf off 0xFF k) n \<longleftrightarrow> (8 * off \<le> n \<and> n < 8 * (off + k)) \<or> bit_at buf n"
proof -
  have d: "off \<le> n div 8 \<longleftrightarrow> 8 * off \<le> n" "n div 8 < off + k \<longleftrightarrow> n < 8 * (off + k)"
    by (simp_all add: less_eq_div_iff_mult_less_eq div_less_iff_less_mult mult.commute)
  have "(0xFF :: u8) = mask 8" by (simp add: mask_eq_exp_minus_1)
  then have "bit (0xFF :: u8) (n mod 8)" by (simp only: bit_mask_iff) simp
  then show ?thesis
    using d by (auto simp: bit_at_def nth_memset [OF assms])
qed

lemma rb_fill_loop_spec:
  assumes "start \<le> pos" "unat pos + unat count < 2 ^ 64"
    "unat pos - unat start + unat count \<le> 8 * length out"
  shows "length (rb_fill_loop pos count start out) = length out \<and>
    (\<forall>n. n div 8 < length out \<longrightarrow> (bit_at (rb_fill_loop pos count start out) n \<longleftrightarrow>
       (unat pos - unat start \<le> n \<and> n < unat pos - unat start + unat count) \<or> bit_at out n))"
  using assms
proof (induction pos count start out rule: rb_fill_loop.induct)
  case (1 pos count start out)
  have rel: "unat (pos - start) = unat pos - unat start" "unat start \<le> unat pos"
    using "1.prems"(1) by (simp_all add: unat_sub_no_wrap word_le_nat_alt)
  show ?case
  proof (cases "0 < count")
    case False
    then have "unat count = 0" by (simp add: word_less_nat_alt)
    with False show ?thesis by (auto simp: rb_fill_loop.simps [of pos count])
  next
    case True
    then have cnt: "0 < unat count" by (simp add: word_less_nat_alt)
    show ?thesis
    proof (cases "8 \<le> count \<and> (pos - start) AND 7 = 0")
      case True
      define nb where "nb = unat (drop_bit 3 count)"
      define off where "off = unat (drop_bit 3 (pos - start))"
      define out' where "out' = memset out off 0xFF nb"
      have a: "unat (pos - start) mod 8 = 0" 
        using True unat_and_7 [of "pos - start"] by simp
      have nb: "nb = unat count div 8" "8 \<le> unat count" "8 * off = unat pos - unat start"
        using True a rel by (auto simp: nb_def off_def word_nat word_le_nat_alt)
      have nb8: "8 * nb \<le> unat count" "0 < nb" using nb by simp_all
      have pb: "unat (push_bit 3 (drop_bit 3 count)) = 8 * nb"
        using unat_push_drop3 [of count] by (simp add: nb_def word_nat)
      have fit: "off + nb \<le> length out" using "1.prems"(3) nb nb8 by simp
      have out': "length out' = length out" "\<And>n. n div 8 < length out \<Longrightarrow>
          bit_at out' n \<longleftrightarrow> (8 * off \<le> n \<and> n < 8 * (off + nb)) \<or> bit_at out n"
        using fit bit_at_memset_FF [OF fit] by (simp_all add: out'_def)
      have p: "unat (pos + push_bit 3 (drop_bit 3 count)) = unat pos + 8 * nb"
        "unat (count - push_bit 3 (drop_bit 3 count)) = unat count - 8 * nb"
        using "1.prems"(2) nb8 pb by (simp_all add: unat_add_no_wrap unat_sub_no_wrap word_le_nat_alt)
      have "start \<le> pos + push_bit 3 (drop_bit 3 count)" using rel(2) p(1) by (simp add: word_le_nat_alt)
      from "1.IH"(1) [OF \<open>0 < count\<close> True refl refl, folded nb_def off_def, folded out'_def, OF this]
        "1.prems"(2,3) p out'(1) rel nb8
      have IH: "length (rb_fill_loop (pos + push_bit 3 (drop_bit 3 count)) (count - push_bit 3 (drop_bit 3 count)) start out') = length out"
        "\<And>n. n div 8 < length out \<Longrightarrow>
           bit_at (rb_fill_loop (pos + push_bit 3 (drop_bit 3 count)) (count - push_bit 3 (drop_bit 3 count)) start out') n \<longleftrightarrow>
           (unat pos + 8 * nb - unat start \<le> n \<and> n < unat pos + 8 * nb - unat start + (unat count - 8 * nb))
           \<or> bit_at out' n"
        by simp_all
      have go: "rb_fill_loop pos count start out =
          rb_fill_loop (pos + push_bit 3 (drop_bit 3 count)) (count - push_bit 3 (drop_bit 3 count)) start out'"
        using \<open>0 < count\<close> True by (simp add: rb_fill_loop.simps [of pos count] Let_def out'_def nb_def off_def)
      have e: "unat pos + 8 * nb - unat start = 8 * off + 8 * nb"
        "8 * off + 8 * nb + (unat count - 8 * nb) = 8 * off + unat count"
        using nb(3) nb8(1) rel(2) by simp_all
      have "(8 * off + 8 * nb \<le> n \<and> n < 8 * off + unat count) \<or> (8 * off \<le> n \<and> n < 8 * (off + nb))
          \<longleftrightarrow> 8 * off \<le> n \<and> n < 8 * off + unat count" for n
        using nb8(1) by (simp add: add_mult_distrib2) arith
      note u = this
      have "bit_at (rb_fill_loop (pos + push_bit 3 (drop_bit 3 count)) (count - push_bit 3 (drop_bit 3 count)) start out') n
          \<longleftrightarrow> (unat pos - unat start \<le> n \<and> n < unat pos - unat start + unat count) \<or> bit_at out n"
        if "n div 8 < length out" for n
        unfolding IH(2) [OF that] out'(2) [OF that] e nb(3) [symmetric] using u [of n] by blast
      with go IH(1) show ?thesis by simp
    next
      case False
      define out' where "out' = ext2fs_fast_set_bit64 (pos - start) out"
      have "(unat pos - unat start) div 8 < length out"
        using "1.prems"(3) cnt by (simp add: div_less_iff_less_mult mult.commute)
      then have out': "length out' = length out"
        "\<And>n. bit_at out' n \<longleftrightarrow> n = unat pos - unat start \<or> bit_at out n"
        by (simp_all add: out'_def bitops rel)
      have p: "unat (pos + 1) = unat pos + 1" "unat (count - 1) = unat count - 1"
        using "1.prems"(2) cnt \<open>0 < count\<close> by (simp_all add: unat_add_no_wrap word_nat)
      have "start \<le> pos + 1" using rel(2) p(1) by (simp add: word_le_nat_alt)
      define d where "d = unat pos - unat start"
      have e: "unat (pos + 1) - unat start = Suc d" "Suc d + unat (count - 1) = d + unat count"
        using p rel(2) cnt by (simp_all add: d_def)
      have ih: "length (rb_fill_loop (pos + 1) (count - 1) start out') = length out \<and>
          (\<forall>n. n div 8 < length out \<longrightarrow> (bit_at (rb_fill_loop (pos + 1) (count - 1) start out') n \<longleftrightarrow>
             (Suc d \<le> n \<and> n < d + unat count) \<or> bit_at out' n))"
        using "1.IH"(2) [OF \<open>0 < count\<close> False, folded out'_def, OF \<open>start \<le> pos + 1\<close>, unfolded e out'(1)]
          "1.prems"(2,3) p cnt by (simp add: d_def)
      have "(Suc d \<le> n \<and> n < d + unat count) \<or> n = d \<longleftrightarrow> d \<le> n \<and> n < d + unat count" for n
        using cnt by auto
      then have IH: "length (rb_fill_loop (pos + 1) (count - 1) start out') = length out"
        "\<And>n. n div 8 < length out \<Longrightarrow> bit_at (rb_fill_loop (pos + 1) (count - 1) start out') n \<longleftrightarrow>
           (d \<le> n \<and> n < d + unat count) \<or> bit_at out n"
        using ih unfolding out'(2) d_def [symmetric] by blast+
      have "rb_fill_loop pos count start out = rb_fill_loop (pos + 1) (count - 1) start out'"
        using \<open>0 < count\<close> False by (auto simp: rb_fill_loop.simps [of pos count] out'_def)
      with IH show ?thesis by (simp add: d_def)
    qed
  qed
qed

text \<open>The outer loop, over the extents \<open>zs\<close> from the one the descent ended at.\<close>

lemma rb_clip_spec:
  assumes "ext_ok e" "es e < unat start + unat num" "unat start \<le> ee e" "unat start + unat num < 2 ^ 64"
    "rb_clip start num (ext_start e) (ext_count e) = (pos, count)"
  shows "start \<le> pos" "unat pos = max (es e) (unat start)"
    "unat pos + unat count = min (ee e) (unat start + unat num)"
proof -
  have e: "es e = unat (ext_start e)" "ee e = unat (ext_start e) + unat (ext_count e)" "ee e < 2 ^ 64"
    using assms(1) by (simp_all add: es_def ee_def ext_ok_def)
  have sn: "unat (start + num) = unat start + unat num" using assms(4) by (simp add: unat_add64)
  define c where "c = (if ext_start e < start then ext_count e - (start - ext_start e) else ext_count e)"
  define p where "p = (if ext_start e < start then start else ext_start e)"
  have p: "unat p = max (es e) (unat start)" "start \<le> p"
    using e by (auto simp: p_def word_less_nat_alt word_le_nat_alt)
  have "unat p + unat c = ee e"
  proof (cases "ext_start e < start")
    case True
    then have d: "unat (start - ext_start e) = unat start - es e" using e
      by (simp add: unat_sub_no_wrap)
    have "unat c = unat (ext_count e) - (unat start - es e)"
      using True d e assms(3) unfolding c_def by (simp add: unat_sub_no_wrap word_le_nat_alt)
    with True e assms(3) show ?thesis by (simp add: p_def word_less_nat_alt)
  next
    case False
    with e show ?thesis by (simp add: p_def c_def)
  qed
  moreover from this have pc: "unat (p + c) = ee e" using e(3) by (simp add: unat_add64)
  moreover have "(pos, count) = (p, if p + c > start + num then start + num - p else c)"
    unfolding assms(5) [symmetric] by (simp add: rb_clip_def p_def c_def)
  moreover have "unat (start + num - p) = unat start + unat num - unat p" if "p + c > start + num"
    using p assms(2) sn by (simp add: unat_sub_no_wrap word_le_nat_alt)
  moreover have "unat p \<le> unat start + unat num" using p assms(2) by simp
  ultimately show "start \<le> pos" "unat pos = max (es e) (unat start)"
    "unat pos + unat count = min (ee e) (unat start + unat num)"
    using p sn by (auto simp: word_less_nat_alt)
qed

lemma rb_get_range_loop_spec:
  assumes "rb_inorder root = us @ zs" "distinct (addrs (us @ zs))" "exts_ok zs" "length zs \<le> fuel"
    "unat start + unat num < 2 ^ 64" "unat num \<le> 8 * length out"
  shows "length (rb_get_range_loop fuel (hd_ptr zs) start num root out) = length out \<and>
    (\<forall>n. n < unat num \<longrightarrow> (bit_at (rb_get_range_loop fuel (hd_ptr zs) start num root out) n \<longleftrightarrow>
       unat start + n \<in> ext_bits zs \<or> bit_at out n))"
  using assms
proof (induction zs arbitrary: us fuel out)
  case Nil
  then show ?case by simp
next
  case (Cons f zs)
  then obtain k where k: "fuel = Suc k" "length zs \<le> k" by (cases fuel) auto
  have tl: "rb_inorder root = (us @ [f]) @ zs" "distinct (addrs ((us @ [f]) @ zs))" "exts_ok zs"
    using Cons.prems(1-3) by simp_all
  have f: "ext_ok f" "es f < ee f" "\<forall>g \<in> set zs. ee f < es g" using Cons.prems(3) by (simp_all add: ext_ok_def)
  have sn: "unat (start + num) = unat start + unat num" using Cons.prems(5) by (simp add: unat_add64)
  obtain pos count where clip: "rb_clip start num (ext_start f) (ext_count f) = (pos, count)" by fastforce
  have go: "rb_get_range_loop fuel (hd_ptr (f # zs)) start num root out =
      (if unat start + unat num \<le> es f then out
       else if ee f < unat start then rb_get_range_loop k (hd_ptr zs) start num root out
       else rb_get_range_loop k (hd_ptr zs) start num root (rb_fill_loop pos count start out))"
    using f(1,2) by (auto simp: k(1) rb_next_ptr_split [OF Cons.prems(1,2)] rb_deref_split [OF Cons.prems(1,2)]
        Let_def ext_arith sn clip)
  consider (stop) "unat start + unat num \<le> es f" | (skip) "ee f < unat start"
    | (fill) "es f < unat start + unat num" "unat start \<le> ee f" by linarith
  then show ?case
  proof cases
    case stop
    have "unat start + n \<notin> ext_bits (f # zs)" if "n < unat num" for n
      using that stop f(2,3) by (fastforce simp: ext_bits_mem)
    with stop go show ?thesis by simp
  next
    case skip
    then have "unat start + n \<notin> {es f ..< ee f}" for n by simp
    with skip go Cons.IH [OF tl k(2) Cons.prems(5,6)] f(2) show ?thesis by auto
  next
    case fill
    note c = rb_clip_spec [OF f(1) fill Cons.prems(5) clip]
    define out' where "out' = rb_fill_loop pos count start out"
    have "unat pos + unat count < 2 ^ 64" "unat pos - unat start + unat count \<le> 8 * length out"
      using c Cons.prems(5,6) by simp_all
    note fl = rb_fill_loop_spec [OF c(1) this, folded out'_def]
    have "bit_at out' n \<longleftrightarrow> unat start + n \<in> {es f ..< ee f} \<or> bit_at out n" if "n < unat num" for n
    proof -
      have "n div 8 < length out" using that Cons.prems(6) by (simp add: div_less_iff_less_mult mult.commute)
      moreover have "unat pos - unat start \<le> n \<and> n < unat pos - unat start + unat count
          \<longleftrightarrow> unat start + n \<in> {es f ..< ee f}"
        using c(2,3) that fill by auto
      ultimately show ?thesis using fl by simp
    qed
    with fill go Cons.IH [OF tl k(2) Cons.prems(5), of out'] Cons.prems(6) fl
    show ?thesis by (auto simp: out'_def)
  qed
qed

text \<open>Where the outer loop starts: nothing before that extent reaches past \<open>start\<close>.\<close>

lemma rb_get_start:
  assumes "rb_state bp xs" "exts_ok xs" "rb_search s (rb_root bp) [] = (t, path)"
    "parent = (case t of Node k l e r \<Rightarrow> Some (ext_addr e) | Leaf \<Rightarrow> path_parent path)"
  shows "\<exists>us zs. xs = us @ zs \<and> parent = hd_ptr zs \<and> (\<forall>e \<in> set us. ee e \<le> unat s)"
proof (cases t)
  case Leaf
  note h = rb_search_hole [OF assms(1,2) assms(3) [unfolded Leaf]]
  from path_parent_spec [of path] show ?thesis
  proof (elim disjE exE conjE)
    assume "path_parent path = hd_ptr (path_after path)"
    with h assms(4) Leaf show ?thesis
      by (intro exI [of _ "path_before path"] exI [of _ "path_after path"]) simp
  next
    fix us e
    assume "path_before path = us @ [e]" "path_parent path = Some (ext_addr e)"
    with h assms(4) Leaf show ?thesis
      by (intro exI [of _ us] exI [of _ "e # path_after path"]) auto
  qed
next
  case (Node k l e r)
  obtain us vs where e: "xs = us @ e # vs" "es e \<le> unat s"
    by (rule rb_search_found [OF assms(1,2) assms(3) [unfolded Node]])
  then have "\<forall>f \<in> set us. ee f < es e" using assms(2) by simp
  from ball_lt_le [OF ball_mono_lt [OF this e(2)]] show ?thesis
    using e assms(4) Node by (intro exI [of _ us] exI [of _ "e # vs"]) simp
qed

lemma rb_get_range_spec:
  assumes "rb_inv b" "rb_bits b \<noteq> {}" "bm_start b \<le> start"
    "unat start + unat num \<le> Suc (unat (bm_real_end b))" "unat num < 2 ^ 64 - 8"
    "unat (drop_bit 3 (num + 7)) \<le> length out" "n < unat num"
  shows "bit_at (rb_get_bmap_range b start num out) n \<longleftrightarrow> unat start + n \<in> rb_bits b"
proof -
  note i = rb_invD [OF assms(1)]
  define s where "s = start - bm_start b"
  have s: "unat s + unat (bm_start b) = unat start"
    using assms(3) by (simp add: s_def unat_sub_no_wrap word_le_nat_alt)
  then have fit: "unat s + unat num < 2 ^ 64" using assms(4) i(3,4) by (simp add: word_le_nat_alt)
  define k where "k = unat (drop_bit 3 (num + 7))"
  have k: "k = (unat num + 7) div 8"
    using assms(5) unfolding k_def by (simp add: word_nat unat_add_no_wrap)
  define out0 where "out0 = memset out 0 0 k"
  have out0: "length out0 = length out" "n < unat num \<Longrightarrow> \<not> bit_at out0 n" for n
  proof -
    show "length out0 = length out" using assms(6) by (simp add: out0_def k_def)
    assume "n < unat num"
    then have "n div 8 < k" unfolding k by linarith
    then show "\<not> bit_at out0 n" using assms(6) by (simp add: out0_def bit_at_def nth_memset k_def)
  qed
  have root: "rb_root (rb_priv b) \<noteq> Leaf"
    using assms(2) rb_state_Leaf [OF assms(1)] by (auto simp: rb_bits_def)
  obtain t path where found: "rb_search s (rb_root (rb_priv b)) [] = (t, path)" by fastforce
  define parent where "parent = (case t of Node k l e r \<Rightarrow> Some (ext_addr e) | Leaf \<Rightarrow> path_parent path)"
  from rb_get_start [OF i(1,2) found parent_def] obtain us zs where
    z: "rb_exts b = us @ zs" "parent = hd_ptr zs" "\<forall>e \<in> set us. ee e \<le> unat s" by blast
  have go: "rb_get_bmap_range b start num out =
      rb_get_range_loop (rb_fuel (rb_priv b)) parent s num (rb_root (rb_priv b)) out0"
    using root found by (simp add: rb_get_bmap_range_def Let_def s_def out0_def k_def parent_def split: rbtree.splits)
  have "8 * k \<ge> unat num" unfolding k by linarith
  then have "unat num \<le> 8 * length out0" using out0(1) assms(6) by (simp add: k_def)
  moreover have "length zs \<le> rb_fuel (rb_priv b)" using rb_state_fuel [OF i(1)] z(1) by simp
  ultimately have "bit_at (rb_get_bmap_range b start num out) n \<longleftrightarrow> unat s + n \<in> ext_bits zs \<or> bit_at out0 n"
    using rb_get_range_loop_spec [of "rb_root (rb_priv b)" us zs "rb_fuel (rb_priv b)" s num out0]
      rb_stateD(2,3) [OF i(1)] i(2) z fit assms(7) by (simp add: go)
  moreover have "unat s + n \<notin> ext_bits us" using ext_bits_bounds(1) [OF z(3)] by fastforce
  ultimately have "bit_at (rb_get_bmap_range b start num out) n \<longleftrightarrow> unat s + n \<in> ext_bits (rb_exts b)"
    using out0(2) [OF assms(7)] z(1) by simp
  also have "\<dots> \<longleftrightarrow> unat start + n \<in> rb_bits b"
  proof -
    have "unat start + n = unat (bm_start b) + (unat s + n)" using s by simp
    then show ?thesis by (auto simp: rb_bits_def)
  qed
  finally show ?thesis .
qed

end
