(* ===== verification/Gen_bitmap64.thy ===== *)
theory Gen_bitmap64
  imports Blknum Gen_bitmap32 Blkmap64_ba_Life Blkmap64_rb_Life
begin

text \<open>
  \<^verbatim>\<open>libext2fs/gen_bitmap64.c\<close>: the generic bitmaps. A caller holds an \<open>ext2fs_generic_bitmap\<close>, a
  pointer that is null or leads to a 32-bit bitmap or to a 64-bit bitmap with one of the two back
  ends; here \<open>generic_bitmap option\<close>. Each operation looks at the magic number to find the kind of
  structure, converts block numbers to cluster numbers, checks the bounds and calls the back end.

  The part behind the magic number is written once for an operation table \<open>ops\<close> (the functions
  \<open>gb64_*\<close>) and applied to the tables of the two back ends. A structure whose magic number belongs
  to neither kind is refused as in C; one that carries the magic number of the other kind would be
  read with the wrong layout in C and is refused here. Warnings and the statistics
  (\<open>ENABLE_BMAP_STATS_OPS\<close> is off) are left out.
\<close>

datatype generic_bitmap =
    GB32 gen_bitmap_32
  | GB_BA "ba_private gen_bitmap_64"
  | GB_RB "ext2fs_rb_private gen_bitmap_64"

definition fits32 :: "u64 \<Rightarrow> bool" where
  "fits32 n \<longleftrightarrow> n AND NOT 4294967295 = 0"

definition is64 :: "'p gen_bitmap_64 \<Rightarrow> bool" where
  "is64 b \<longleftrightarrow> EXT2FS_IS_64_BITMAP (bm_magic b)"

definition is32 :: "gen_bitmap_32 \<Rightarrow> bool" where
  "is32 b \<longleftrightarrow> EXT2FS_IS_32_BITMAP (b32_magic b)"

section \<open>Creation\<close>

abbreviation (input) EXT2FS_BMAP64_BITARRAY :: int where "EXT2FS_BMAP64_BITARRAY \<equiv> 1"
abbreviation (input) EXT2FS_BMAP64_RBTREE :: int where "EXT2FS_BMAP64_RBTREE \<equiv> 2"
abbreviation (input) EXT2FS_BMAP64_AUTODIR :: int where "EXT2FS_BMAP64_AUTODIR \<equiv> 3"

definition gb64_init ::
  "'a fs_base_scheme \<Rightarrow> errcode \<Rightarrow> u64 \<Rightarrow> u64 \<Rightarrow> u64 \<Rightarrow> string option \<Rightarrow> 'p gen_bitmap_64" where
  "gb64_init fs magic start end real_end descr =
     \<lparr>bm_magic = magic, bm_start = start, bm_end = end, bm_real_end = real_end,
      bm_cluster_bits = (if magic = EXT2_ET_MAGIC_BLOCK_BITMAP64 then fs_cluster_ratio_bits fs else 0),
      bm_description = descr, bm_private = None,
      bm_base_error_code =
        (if magic = EXT2_ET_MAGIC_INODE_BITMAP64 then EXT2_ET_BAD_INODE_MARK
         else if magic = EXT2_ET_MAGIC_BLOCK_BITMAP64 then EXT2_ET_BAD_BLOCK_MARK
         else EXT2_ET_BAD_GENERIC_MARK)\<rparr>"

text \<open>\<open>descr_mem\<close> is the allocation of the copied description, of \<open>extra\<close> bytes more than its length.\<close>

definition descr_mem :: "allocator \<Rightarrow> nat \<Rightarrow> string option \<Rightarrow> errcode + unit" where
  "descr_mem mem extra descr =
     (case descr of
        None \<Rightarrow> Inr ()
      | Some d \<Rightarrow> (case ext2fs_get_mem mem (length d + extra) of Inl retval \<Rightarrow> Inl retval | Inr _ \<Rightarrow> Inr ()))"

definition gb64_alloc ::
  "'p bitmap_ops \<Rightarrow> allocator \<Rightarrow> 'a fs_base_scheme \<Rightarrow> errcode \<Rightarrow> u64 \<Rightarrow> u64 \<Rightarrow> u64 \<Rightarrow> string option
   \<Rightarrow> errcode + 'p gen_bitmap_64" where
  "gb64_alloc ops mem fs magic start end real_end descr =
     (case ext2fs_get_mem mem 112 of
        Inl retval \<Rightarrow> Inl retval
      | Inr _ \<Rightarrow>
          (case descr_mem mem 1 descr of
             Inl retval \<Rightarrow> Inl retval
           | Inr _ \<Rightarrow> ops_new_bmap ops mem (gb64_init fs magic start end real_end descr)))"

text \<open>The choice of the table: the \<open>switch\<close> on the type, with \<open>AUTODIR\<close> resolved.\<close>

definition alloc_backend :: "'a fs_base_scheme \<Rightarrow> int \<Rightarrow> int" where
  "alloc_backend fs type =
     (if type = 0 then EXT2FS_BMAP64_BITARRAY
      else if type = EXT2FS_BMAP64_AUTODIR
      then (case ext2fs_get_num_dirs fs of
              Inl _ \<Rightarrow> EXT2FS_BMAP64_BITARRAY
            | Inr num_dirs \<Rightarrow> if num_dirs > s_inodes_count (fs_super fs) div 320
                              then EXT2FS_BMAP64_BITARRAY else EXT2FS_BMAP64_RBTREE)
      else type)"

definition ext2fs_alloc_generic_bmap ::
  "allocator \<Rightarrow> 'a fs_base_scheme \<Rightarrow> errcode \<Rightarrow> int \<Rightarrow> u64 \<Rightarrow> u64 \<Rightarrow> u64 \<Rightarrow> string option
   \<Rightarrow> errcode + generic_bitmap" where
  "ext2fs_alloc_generic_bmap mem fs magic type start end real_end descr =
     (let t = alloc_backend fs type
      in if t = EXT2FS_BMAP64_BITARRAY
         then map_sum id GB_BA (gb64_alloc ext2fs_blkmap64_bitarray mem fs magic start end real_end descr)
         else if t = EXT2FS_BMAP64_RBTREE
         then map_sum id GB_RB (gb64_alloc ext2fs_blkmap64_rbtree mem fs magic start end real_end descr)
         else Inl EINVAL)"

definition gb64_copy ::
  "'p bitmap_ops \<Rightarrow> allocator \<Rightarrow> 'p gen_bitmap_64 \<Rightarrow> 'p gen_bitmap_64 \<times> (errcode + 'p gen_bitmap_64)" where
  "gb64_copy ops mem src =
     (case ext2fs_get_mem mem 112 of
        Inl retval \<Rightarrow> (src, Inl retval)
      | Inr _ \<Rightarrow>
          (case descr_mem mem 10 (bm_description src) of
             Inl retval \<Rightarrow> (src, Inl retval)
           | Inr _ \<Rightarrow>
               ops_copy_bmap ops mem src
                 (src\<lparr>bm_private := None,
                      bm_description := map_option (\<lambda>descr. ''copy of '' @ descr) (bm_description src)\<rparr>)))"

text \<open>The source comes back too: copying a red-black bitmap resets its cursors.\<close>

definition ext2fs_copy_generic_bmap ::
  "allocator \<Rightarrow> generic_bitmap option \<Rightarrow> generic_bitmap option \<times> (errcode + generic_bitmap)" where
  "ext2fs_copy_generic_bmap mem gen_src =
     (case gen_src of
        None \<Rightarrow> (None, Inl EINVAL)
      | Some (GB32 b) \<Rightarrow>
          (gen_src, if is32 b then map_sum id GB32 (ext2fs_copy_generic_bitmap mem b) else Inl EINVAL)
      | Some (GB_BA b) \<Rightarrow>
          (if is64 b then map_prod (Some \<circ> GB_BA) (map_sum id GB_BA) (gb64_copy ext2fs_blkmap64_bitarray mem b)
           else (gen_src, Inl EINVAL))
      | Some (GB_RB b) \<Rightarrow>
          (if is64 b then map_prod (Some \<circ> GB_RB) (map_sum id GB_RB) (gb64_copy ext2fs_blkmap64_rbtree mem b)
           else (gen_src, Inl EINVAL)))"

section \<open>Bounds\<close>

definition ext2fs_resize_generic_bmap ::
  "allocator \<Rightarrow> generic_bitmap option \<Rightarrow> u64 \<Rightarrow> u64 \<Rightarrow> generic_bitmap option \<times> errcode" where
  "ext2fs_resize_generic_bmap mem gen_bmap new_end new_real_end =
     (case gen_bmap of
        None \<Rightarrow> (None, EINVAL)
      | Some (GB32 b) \<Rightarrow>
          (if is32 b
           then map_prod (Some \<circ> GB32) id
                  (ext2fs_resize_generic_bitmap mem (b32_magic b) (ucast new_end) (ucast new_real_end) b)
           else (gen_bmap, EINVAL))
      | Some (GB_BA b) \<Rightarrow>
          (if is64 b
           then map_prod (Some \<circ> GB_BA) id (ops_resize_bmap ext2fs_blkmap64_bitarray mem b new_end new_real_end)
           else (gen_bmap, EINVAL))
      | Some (GB_RB b) \<Rightarrow>
          (if is64 b
           then map_prod (Some \<circ> GB_RB) id (ops_resize_bmap ext2fs_blkmap64_rbtree mem b new_end new_real_end)
           else (gen_bmap, EINVAL)))"

text \<open>On success the new bitmap and the old end, which the C code stores through \<open>oend\<close>.\<close>

definition gb64_fudge_end ::
  "'p gen_bitmap_64 \<Rightarrow> errcode \<Rightarrow> u64 \<Rightarrow> errcode + 'p gen_bitmap_64 \<times> u64" where
  "gb64_fudge_end bitmap neq end =
     (if \<not> is64 bitmap then Inl EINVAL
      else if end > bm_real_end bitmap then Inl neq
      else Inr (bitmap\<lparr>bm_end := end\<rparr>, bm_end bitmap))"

definition ext2fs_fudge_generic_bmap_end ::
  "generic_bitmap option \<Rightarrow> errcode \<Rightarrow> u64 \<Rightarrow> errcode + generic_bitmap \<times> u64" where
  "ext2fs_fudge_generic_bmap_end gen_bitmap neq end =
     (case gen_bitmap of
        None \<Rightarrow> Inl EINVAL
      | Some (GB32 b) \<Rightarrow>
          (if is32 b
           then map_sum id (map_prod GB32 ucast)
                  (ext2fs_fudge_generic_bitmap_end b (b32_magic b) neq (ucast end))
           else Inl EINVAL)
      | Some (GB_BA b) \<Rightarrow> map_sum id (map_prod GB_BA id) (gb64_fudge_end b neq end)
      | Some (GB_RB b) \<Rightarrow> map_sum id (map_prod GB_RB id) (gb64_fudge_end b neq end))"

text \<open>The bounds are returned as numbers, and so is the error code of a bad bitmap.\<close>

definition ext2fs_get_generic_bmap_start :: "generic_bitmap option \<Rightarrow> u64" where
  "ext2fs_get_generic_bmap_start gen_bitmap =
     (case gen_bitmap of
        None \<Rightarrow> of_int EINVAL
      | Some (GB32 b) \<Rightarrow> if is32 b then ucast (get_generic_bitmap_start32 b) else of_int EINVAL
      | Some (GB_BA b) \<Rightarrow> if is64 b then bm_start b else of_int EINVAL
      | Some (GB_RB b) \<Rightarrow> if is64 b then bm_start b else of_int EINVAL)"

definition ext2fs_get_generic_bmap_end :: "generic_bitmap option \<Rightarrow> u64" where
  "ext2fs_get_generic_bmap_end gen_bitmap =
     (case gen_bitmap of
        None \<Rightarrow> of_int EINVAL
      | Some (GB32 b) \<Rightarrow> if is32 b then ucast (get_generic_bitmap_end32 b) else of_int EINVAL
      | Some (GB_BA b) \<Rightarrow> if is64 b then bm_end b else of_int EINVAL
      | Some (GB_RB b) \<Rightarrow> if is64 b then bm_end b else of_int EINVAL)"

definition ext2fs_clear_generic_bmap :: "generic_bitmap \<Rightarrow> generic_bitmap" where
  "ext2fs_clear_generic_bmap gen_bitmap =
     (case gen_bitmap of
        GB32 b \<Rightarrow> GB32 (clear_generic_bitmap32 b)
      | GB_BA b \<Rightarrow> GB_BA (ops_clear_bmap ext2fs_blkmap64_bitarray b)
      | GB_RB b \<Rightarrow> GB_RB (ops_clear_bmap ext2fs_blkmap64_rbtree b))"

section \<open>Single numbers\<close>

definition to_cluster :: "'p gen_bitmap_64 \<Rightarrow> u64 \<Rightarrow> u64" where
  "to_cluster bitmap arg = drop_bit (bm_cluster_bits bitmap) arg"

definition out_of_range :: "'p gen_bitmap_64 \<Rightarrow> u64 \<Rightarrow> bool" where
  "out_of_range bitmap arg \<longleftrightarrow> arg < bm_start bitmap \<or> arg > bm_end bitmap"

definition gb64_mark :: "'p bitmap_ops \<Rightarrow> 'p gen_bitmap_64 \<Rightarrow> u64 \<Rightarrow> 'p gen_bitmap_64 \<times> int" where
  "gb64_mark ops bitmap arg =
     (if \<not> is64 bitmap then (bitmap, 0)
      else let arg = to_cluster bitmap arg
           in if out_of_range bitmap arg then (bitmap, 0) else ops_mark_bmap ops bitmap arg)"

definition gb64_unmark :: "'p bitmap_ops \<Rightarrow> 'p gen_bitmap_64 \<Rightarrow> u64 \<Rightarrow> 'p gen_bitmap_64 \<times> int" where
  "gb64_unmark ops bitmap arg =
     (if \<not> is64 bitmap then (bitmap, 0)
      else let arg = to_cluster bitmap arg
           in if out_of_range bitmap arg then (bitmap, 0) else ops_unmark_bmap ops bitmap arg)"

definition gb64_test :: "'p bitmap_ops \<Rightarrow> 'p gen_bitmap_64 \<Rightarrow> u64 \<Rightarrow> 'p gen_bitmap_64 \<times> int" where
  "gb64_test ops bitmap arg =
     (if \<not> is64 bitmap then (bitmap, 0)
      else let arg = to_cluster bitmap arg
           in if out_of_range bitmap arg then (bitmap, 0) else ops_test_bmap ops bitmap arg)"

definition ext2fs_mark_generic_bmap ::
  "generic_bitmap option \<Rightarrow> u64 \<Rightarrow> generic_bitmap option \<times> int" where
  "ext2fs_mark_generic_bmap gen_bitmap arg =
     (case gen_bitmap of
        None \<Rightarrow> (None, 0)
      | Some (GB32 b) \<Rightarrow>
          (if is32 b \<and> fits32 arg then map_prod (Some \<circ> GB32) id (mark_generic_bitmap32 b (ucast arg))
           else (gen_bitmap, 0))
      | Some (GB_BA b) \<Rightarrow> map_prod (Some \<circ> GB_BA) id (gb64_mark ext2fs_blkmap64_bitarray b arg)
      | Some (GB_RB b) \<Rightarrow> map_prod (Some \<circ> GB_RB) id (gb64_mark ext2fs_blkmap64_rbtree b arg))"

definition ext2fs_unmark_generic_bmap ::
  "generic_bitmap option \<Rightarrow> u64 \<Rightarrow> generic_bitmap option \<times> int" where
  "ext2fs_unmark_generic_bmap gen_bitmap arg =
     (case gen_bitmap of
        None \<Rightarrow> (None, 0)
      | Some (GB32 b) \<Rightarrow>
          (if is32 b \<and> fits32 arg then map_prod (Some \<circ> GB32) id (unmark_generic_bitmap32 b (ucast arg))
           else (gen_bitmap, 0))
      | Some (GB_BA b) \<Rightarrow> map_prod (Some \<circ> GB_BA) id (gb64_unmark ext2fs_blkmap64_bitarray b arg)
      | Some (GB_RB b) \<Rightarrow> map_prod (Some \<circ> GB_RB) id (gb64_unmark ext2fs_blkmap64_rbtree b arg))"

definition ext2fs_test_generic_bmap ::
  "generic_bitmap option \<Rightarrow> u64 \<Rightarrow> generic_bitmap option \<times> int" where
  "ext2fs_test_generic_bmap gen_bitmap arg =
     (case gen_bitmap of
        None \<Rightarrow> (None, 0)
      | Some (GB32 b) \<Rightarrow>
          (gen_bitmap, if is32 b \<and> fits32 arg then test_generic_bitmap32 b (ucast arg) else 0)
      | Some (GB_BA b) \<Rightarrow> map_prod (Some \<circ> GB_BA) id (gb64_test ext2fs_blkmap64_bitarray b arg)
      | Some (GB_RB b) \<Rightarrow> map_prod (Some \<circ> GB_RB) id (gb64_test ext2fs_blkmap64_rbtree b arg))"

section \<open>Ranges\<close>

definition gb64_set_range ::
  "'p bitmap_ops \<Rightarrow> 'p gen_bitmap_64 \<Rightarrow> u64 \<Rightarrow> u32 \<Rightarrow> u8 list \<Rightarrow> errcode + 'p gen_bitmap_64" where
  "gb64_set_range ops bmap start num inp =
     (if \<not> is64 bmap then Inl EINVAL else Inr (ops_set_bmap_range ops bmap start (ucast num) inp))"

definition gb64_get_range ::
  "'p bitmap_ops \<Rightarrow> 'p gen_bitmap_64 \<Rightarrow> u64 \<Rightarrow> u32 \<Rightarrow> u8 list \<Rightarrow> errcode + u8 list" where
  "gb64_get_range ops bmap start num out =
     (if \<not> is64 bmap then Inl EINVAL else Inr (ops_get_bmap_range ops bmap start (ucast num) out))"

definition ext2fs_set_generic_bmap_range ::
  "generic_bitmap option \<Rightarrow> u64 \<Rightarrow> u32 \<Rightarrow> u8 list \<Rightarrow> errcode + generic_bitmap" where
  "ext2fs_set_generic_bmap_range gen_bmap start num inp =
     (case gen_bmap of
        None \<Rightarrow> Inl EINVAL
      | Some (GB32 b) \<Rightarrow>
          (if is32 b \<and> fits32 (start + ucast num - 1)
           then map_sum id GB32 (ext2fs_set_generic_bitmap_range b (b32_magic b) (ucast start) num inp)
           else Inl EINVAL)
      | Some (GB_BA b) \<Rightarrow> map_sum id GB_BA (gb64_set_range ext2fs_blkmap64_bitarray b start num inp)
      | Some (GB_RB b) \<Rightarrow> map_sum id GB_RB (gb64_set_range ext2fs_blkmap64_rbtree b start num inp))"

definition ext2fs_get_generic_bmap_range ::
  "generic_bitmap option \<Rightarrow> u64 \<Rightarrow> u32 \<Rightarrow> u8 list \<Rightarrow> errcode + u8 list" where
  "ext2fs_get_generic_bmap_range gen_bmap start num out =
     (case gen_bmap of
        None \<Rightarrow> Inl EINVAL
      | Some (GB32 b) \<Rightarrow>
          (if is32 b \<and> fits32 (start + ucast num - 1)
           then ext2fs_get_generic_bitmap_range b (b32_magic b) (ucast start) num out
           else Inl EINVAL)
      | Some (GB_BA b) \<Rightarrow> gb64_get_range ext2fs_blkmap64_bitarray b start num out
      | Some (GB_RB b) \<Rightarrow> gb64_get_range ext2fs_blkmap64_rbtree b start num out)"

text \<open>
  The block range operations convert to clusters, rounding the end up. \<open>num\<close> is an \<open>unsigned int\<close>:
  the cluster count is cut to 32 bits.
\<close>

definition cluster_extent :: "'p gen_bitmap_64 \<Rightarrow> u64 \<Rightarrow> u32 \<Rightarrow> u64 \<times> u32" where
  "cluster_extent bmap block num =
     (let e = block + ucast num;
          block = drop_bit (bm_cluster_bits bmap) block;
          e = drop_bit (bm_cluster_bits bmap) (e + (push_bit (bm_cluster_bits bmap) 1 - 1))
      in (block, ucast (e - block)))"

definition extent_bad :: "'p gen_bitmap_64 \<Rightarrow> u64 \<Rightarrow> u32 \<Rightarrow> bool" where
  "extent_bad bmap block num \<longleftrightarrow>
     block < bm_start bmap \<or> block > bm_end bmap \<or> block + ucast num - 1 > bm_end bmap"

definition gb64_test_range :: "'p bitmap_ops \<Rightarrow> 'p gen_bitmap_64 \<Rightarrow> u64 \<Rightarrow> u32 \<Rightarrow> int" where
  "gb64_test_range ops bmap block num =
     (if \<not> is64 bmap then EINVAL
      else case cluster_extent bmap block num of
             (block, num) \<Rightarrow> if extent_bad bmap block num then EINVAL
                             else ops_test_clear_bmap_extent ops bmap block num)"

definition gb64_mark_range :: "'p bitmap_ops \<Rightarrow> 'p gen_bitmap_64 \<Rightarrow> u64 \<Rightarrow> u32 \<Rightarrow> 'p gen_bitmap_64" where
  "gb64_mark_range ops bmap block num =
     (if \<not> is64 bmap then bmap
      else case cluster_extent bmap block num of
             (block, num) \<Rightarrow> if extent_bad bmap block num then bmap
                             else ops_mark_bmap_extent ops bmap block num)"

definition gb64_unmark_range :: "'p bitmap_ops \<Rightarrow> 'p gen_bitmap_64 \<Rightarrow> u64 \<Rightarrow> u32 \<Rightarrow> 'p gen_bitmap_64" where
  "gb64_unmark_range ops bmap block num =
     (if \<not> is64 bmap then bmap
      else case cluster_extent bmap block num of
             (block, num) \<Rightarrow> if extent_bad bmap block num then bmap
                             else ops_unmark_bmap_extent ops bmap block num)"

definition range_fits32 :: "u64 \<Rightarrow> u32 \<Rightarrow> bool" where
  "range_fits32 block num \<longleftrightarrow> fits32 block \<and> fits32 (block + ucast num - 1)"

text \<open>The single-block shortcut negates the test; errors are nonzero answers, that is, ``clear''.\<close>

definition ext2fs_test_block_bitmap_range2 ::
  "generic_bitmap option \<Rightarrow> u64 \<Rightarrow> u32 \<Rightarrow> generic_bitmap option \<times> int" where
  "ext2fs_test_block_bitmap_range2 gen_bmap block num =
     (if gen_bmap = None then (gen_bmap, EINVAL)
      else if num = 1
      then map_prod id (\<lambda>r. if r = 0 then 1 else 0) (ext2fs_test_generic_bmap gen_bmap block)
      else (gen_bmap,
        case the gen_bmap of
          GB32 b \<Rightarrow> if \<not> is32 b then EINVAL
                    else if range_fits32 block num then ext2fs_test_block_bitmap_range b (ucast block) num
                    else EINVAL
        | GB_BA b \<Rightarrow> gb64_test_range ext2fs_blkmap64_bitarray b block num
        | GB_RB b \<Rightarrow> gb64_test_range ext2fs_blkmap64_rbtree b block num))"

definition ext2fs_mark_block_bitmap_range2 ::
  "generic_bitmap option \<Rightarrow> u64 \<Rightarrow> u32 \<Rightarrow> generic_bitmap option" where
  "ext2fs_mark_block_bitmap_range2 gen_bmap block num =
     (case gen_bmap of
        None \<Rightarrow> None
      | Some (GB32 b) \<Rightarrow>
          (if is32 b \<and> range_fits32 block num
           then Some (GB32 (ext2fs_mark_block_bitmap_range b (ucast block) num)) else gen_bmap)
      | Some (GB_BA b) \<Rightarrow> Some (GB_BA (gb64_mark_range ext2fs_blkmap64_bitarray b block num))
      | Some (GB_RB b) \<Rightarrow> Some (GB_RB (gb64_mark_range ext2fs_blkmap64_rbtree b block num)))"

definition ext2fs_unmark_block_bitmap_range2 ::
  "generic_bitmap option \<Rightarrow> u64 \<Rightarrow> u32 \<Rightarrow> generic_bitmap option" where
  "ext2fs_unmark_block_bitmap_range2 gen_bmap block num =
     (case gen_bmap of
        None \<Rightarrow> None
      | Some (GB32 b) \<Rightarrow>
          (if is32 b \<and> range_fits32 block num
           then Some (GB32 (ext2fs_unmark_block_bitmap_range b (ucast block) num)) else gen_bmap)
      | Some (GB_BA b) \<Rightarrow> Some (GB_BA (gb64_unmark_range ext2fs_blkmap64_bitarray b block num))
      | Some (GB_RB b) \<Rightarrow> Some (GB_RB (gb64_unmark_range ext2fs_blkmap64_rbtree b block num)))"

definition gb64_padding :: "'p bitmap_ops \<Rightarrow> 'p gen_bitmap_64 \<Rightarrow> 'p gen_bitmap_64" where
  "gb64_padding ops bmap =
     ops_mark_bmap_extent ops bmap (bm_end bmap + 1) (ucast (bm_real_end bmap - bm_end bmap))"

definition ext2fs_set_generic_bmap_padding :: "generic_bitmap \<Rightarrow> generic_bitmap" where
  "ext2fs_set_generic_bmap_padding gen_bmap =
     (case gen_bmap of
        GB32 b \<Rightarrow> GB32 (ext2fs_set_generic_bitmap_padding b)
      | GB_BA b \<Rightarrow> GB_BA (gb64_padding ext2fs_blkmap64_bitarray b)
      | GB_RB b \<Rightarrow> GB_RB (gb64_padding ext2fs_blkmap64_rbtree b))"

section \<open>Searches\<close>

definition gb64_find_first ::
  "('p gen_bitmap_64 \<Rightarrow> u64 \<Rightarrow> u64 \<Rightarrow> errcode + u64) \<Rightarrow> 'p gen_bitmap_64 \<Rightarrow> u64 \<Rightarrow> u64 \<Rightarrow> errcode + u64" where
  "gb64_find_first find_first bmap start end =
     (if \<not> is64 bmap then Inl EINVAL
      else
        let cstart = to_cluster bmap start; cend = to_cluster bmap end
        in if cstart < bm_start bmap \<or> cend > bm_end bmap \<or> start > end then Inl EINVAL
           else case find_first bmap cstart cend of
                  Inl retval \<Rightarrow> Inl retval
                | Inr cout \<Rightarrow>
                    let cout = push_bit (bm_cluster_bits bmap) cout
                    in Inr (if cout \<ge> start then cout else start))"

text \<open>The outer \<open>None\<close>: the search of a 32-bit bitmap does not end.\<close>

definition find_first32_wide ::
  "(gen_bitmap_32 \<Rightarrow> u32 \<Rightarrow> u32 \<Rightarrow> (errcode + u32) option) \<Rightarrow> gen_bitmap_32 \<Rightarrow> u64 \<Rightarrow> u64
   \<Rightarrow> (errcode + u64) option" where
  "find_first32_wide find_first b start end =
     (if \<not> is32 b then Some (Inl EINVAL)
      else if \<not> fits32 start \<or> \<not> fits32 end then Some (Inl EINVAL)
      else map_option (map_sum id ucast) (find_first b (ucast start) (ucast end)))"

definition ext2fs_find_first_zero_generic_bmap ::
  "generic_bitmap option \<Rightarrow> u64 \<Rightarrow> u64 \<Rightarrow> (errcode + u64) option" where
  "ext2fs_find_first_zero_generic_bmap bitmap start end =
     (case bitmap of
        None \<Rightarrow> Some (Inl EINVAL)
      | Some (GB32 b) \<Rightarrow> find_first32_wide ext2fs_find_first_zero_generic_bitmap b start end
      | Some (GB_BA b) \<Rightarrow> Some (gb64_find_first (ops_find_first_zero ext2fs_blkmap64_bitarray) b start end)
      | Some (GB_RB b) \<Rightarrow> Some (gb64_find_first (ops_find_first_zero ext2fs_blkmap64_rbtree) b start end))"

definition ext2fs_find_first_set_generic_bmap ::
  "generic_bitmap option \<Rightarrow> u64 \<Rightarrow> u64 \<Rightarrow> (errcode + u64) option" where
  "ext2fs_find_first_set_generic_bmap bitmap start end =
     (case bitmap of
        None \<Rightarrow> Some (Inl EINVAL)
      | Some (GB32 b) \<Rightarrow> find_first32_wide ext2fs_find_first_set_generic_bitmap b start end
      | Some (GB_BA b) \<Rightarrow> Some (gb64_find_first (ops_find_first_set ext2fs_blkmap64_bitarray) b start end)
      | Some (GB_RB b) \<Rightarrow> Some (gb64_find_first (ops_find_first_set ext2fs_blkmap64_rbtree) b start end))"

section \<open>Comparison and counting\<close>

text \<open>The result is the answer beside the two bitmaps, whose cursors the tests move.\<close>

function compare_loop ::
  "u64 \<Rightarrow> u64 \<Rightarrow> generic_bitmap option \<Rightarrow> generic_bitmap option
   \<Rightarrow> generic_bitmap option \<times> generic_bitmap option \<times> bool" where
  "compare_loop i e bm1 bm2 =
     (if i < e
      then
        let t1 = ext2fs_test_generic_bmap bm1 i; t2 = ext2fs_test_generic_bmap bm2 i
        in if (snd t1 \<noteq> 0) \<noteq> (snd t2 \<noteq> 0) then (fst t1, fst t2, False)
           else compare_loop (i + 1) e (fst t1) (fst t2)
      else (bm1, bm2, True))"
  by pat_completeness auto
termination
  by (relation "measure (\<lambda>(i, e, bm1, bm2). unat e - unat i)")
    (simp_all add: word_nat, simp add: word_less_nat_alt)

declare compare_loop.simps [simp del]

fun gb_magic :: "generic_bitmap \<Rightarrow> errcode" where
  "gb_magic (GB32 b) = b32_magic b"
| "gb_magic (GB_BA b) = bm_magic b"
| "gb_magic (GB_RB b) = bm_magic b"

fun gb_bounds :: "generic_bitmap \<Rightarrow> u64 \<times> u64" where
  "gb_bounds (GB32 b) = (ucast (b32_start b), ucast (b32_end b))"
| "gb_bounds (GB_BA b) = (bm_start b, bm_end b)"
| "gb_bounds (GB_RB b) = (bm_start b, bm_end b)"

definition ext2fs_compare_generic_bmap ::
  "errcode \<Rightarrow> generic_bitmap option \<Rightarrow> generic_bitmap option
   \<Rightarrow> (generic_bitmap option \<times> generic_bitmap option \<times> errcode) option" where
  "ext2fs_compare_generic_bmap neq bm1 bm2 =
     (case (bm1, bm2) of
        (Some b1, Some b2) \<Rightarrow>
          (if gb_magic b1 \<noteq> gb_magic b2 then Some (bm1, bm2, EINVAL)
           else case (b1, b2) of
             (GB32 m1, GB32 m2) \<Rightarrow>
               (if is32 m1
                then map_option (\<lambda>r. (bm1, bm2, r)) (ext2fs_compare_generic_bitmap (b32_magic m1) neq m1 m2)
                else Some (bm1, bm2, EINVAL))
           | _ \<Rightarrow>
               (if \<not> EXT2FS_IS_64_BITMAP (gb_magic b1) then Some (bm1, bm2, EINVAL)
                else if gb_bounds b1 \<noteq> gb_bounds b2 then Some (bm1, bm2, neq)
                else case compare_loop (fst (gb_bounds b1)) (snd (gb_bounds b1)) bm1 bm2 of
                       (bm1, bm2, same) \<Rightarrow> Some (bm1, bm2, if same then 0 else neq)))
      | _ \<Rightarrow> Some (bm1, bm2, EINVAL))"

end
