(* ===== verification/Gen_bitmap64_Spec.thy ===== *)
theory Gen_bitmap64_Spec
  imports Gen_bitmap64
begin

text \<open>
  What the generic operations of \<^verbatim>\<open>Gen_bitmap64\<close> do to the set of marked cluster numbers. The
  guards and the cluster conversion are verified once, inside the locale of the back-end contract;
  the facts for the two back ends follow from its interpretations. \<open>refines\<close> relates a bitmap to
  its bounds and the set of its marks, and each operation is described on that set; the machine
  made of all operations, and how the two back ends differ on it, is in \<^verbatim>\<open>Gen_bitmap64_Machine\<close>.
\<close>

section \<open>The guards over a back end\<close>

definition gb_bounded :: "'p gen_bitmap_64 \<Rightarrow> bool" where
  "gb_bounded b \<longleftrightarrow> is64 b \<and> bm_end b \<le> bm_real_end b \<and> unat (bm_real_end b) + 2 ^ 32 < 2 ^ 64"

lemma gb_bounded_hdr:
  assumes "bm_hdr b' = bm_hdr b"
  shows "gb_bounded b' = gb_bounded b"
  by (simp add: gb_bounded_def is64_def bm_hdr_eqD [OF assms])

lemma in_range_in_bmap: "gb_bounded b \<Longrightarrow> \<not> out_of_range b a \<Longrightarrow> in_bmap b a"
  by (auto simp: gb_bounded_def out_of_range_def in_bmap_def)

lemma extent_ok:
  assumes "gb_bounded b" "\<not> extent_bad b a num"
  shows "extent_in_bmap b a num"
proof -
  have le: "bm_start b \<le> a" "a \<le> bm_end b" "a + ucast num - 1 \<le> bm_end b"
    using assms(2) by (auto simp: extent_bad_def)
  have r: "bm_end b \<le> bm_real_end b" "unat (bm_real_end b) + 2 ^ 32 < 2 ^ 64"
    using assms(1) by (auto simp: gb_bounded_def)
  then have a: "unat a \<le> unat (bm_real_end b)" using le by (simp add: word_le_nat_alt)
  show ?thesis
  proof (cases "num = 0")
    case True
    then show ?thesis using le a by (simp add: extent_in_bmap_def)
  next
    case False
    then have n: "0 < unat num" using unat_gt_0 by blast
    have "unat (a + ucast num) = unat a + unat num"
      using a r unat_lt32 [of num] by (subst unat_add_no_wrap) (simp_all add: unat_ucast32_64)
    moreover have "unat (a + ucast num - 1) = unat (a + ucast num) - 1"
      by (rule unat_minus_one) (use calculation n in auto)
    ultimately have "unat a + unat num - 1 \<le> unat (bm_real_end b)"
      using le(3) r(1) by (simp add: word_le_nat_alt)
    then show ?thesis using le(1) n by (simp add: extent_in_bmap_def)
  qed
qed

context bmap_backend
begin

definition gb_keeps :: "'p gen_bitmap_64 \<Rightarrow> 'p gen_bitmap_64 \<Rightarrow> bool" where
  "gb_keeps b b' \<longleftrightarrow> inv b' \<and> bm_hdr b' = bm_hdr b"

lemma gb64_test_spec:
  assumes "inv b" "gb_bounded b"
  shows "gb_keeps b (fst (gb64_test ops b a))" "bits (fst (gb64_test ops b a)) = bits b"
    "snd (gb64_test ops b a) \<noteq> 0 \<longleftrightarrow> \<not> out_of_range b (to_cluster b a) \<and> unat (to_cluster b a) \<in> bits b"
  using assms test_state [OF assms(1), of "to_cluster b a"] test_ret [OF assms(1), of "to_cluster b a"]
    in_range_in_bmap [OF assms(2), of "to_cluster b a"]
  by (auto simp: gb64_test_def gb_keeps_def Let_def gb_bounded_def)

lemma gb64_mark_spec:
  assumes "inv b" "gb_bounded b"
  shows "gb_keeps b (fst (gb64_mark ops b a))"
    "bits (fst (gb64_mark ops b a)) =
       (if out_of_range b (to_cluster b a) then bits b else insert (unat (to_cluster b a)) (bits b))"
    "snd (gb64_mark ops b a) \<noteq> 0 \<longleftrightarrow> \<not> out_of_range b (to_cluster b a) \<and> unat (to_cluster b a) \<in> bits b"
  using assms mark_state [OF assms(1), of "to_cluster b a"] mark_ret [OF assms(1), of "to_cluster b a"]
    in_range_in_bmap [OF assms(2), of "to_cluster b a"]
  by (auto simp: gb64_mark_def gb_keeps_def Let_def gb_bounded_def)

lemma gb64_unmark_spec:
  assumes "inv b" "gb_bounded b"
  shows "gb_keeps b (fst (gb64_unmark ops b a))"
    "bits (fst (gb64_unmark ops b a)) =
       (if out_of_range b (to_cluster b a) then bits b else bits b - {unat (to_cluster b a)})"
  using assms unmark_state [OF assms(1), of "to_cluster b a"]
    in_range_in_bmap [OF assms(2), of "to_cluster b a"]
  by (auto simp: gb64_unmark_def gb_keeps_def Let_def gb_bounded_def)

lemma gb64_mark_range_spec:
  assumes "inv b" "gb_bounded b" "cluster_extent b a num = (c, n)"
  shows "gb_keeps b (gb64_mark_range ops b a num)"
    "bits (gb64_mark_range ops b a num) = (if extent_bad b c n then bits b else bits b \<union> extent_set c n)"
  using assms mark_extent [OF assms(1), of c n] extent_ok [OF assms(2), of c n]
  by (auto simp: gb64_mark_range_def gb_keeps_def gb_bounded_def)

lemma gb64_unmark_range_spec:
  assumes "inv b" "gb_bounded b" "cluster_extent b a num = (c, n)"
  shows "gb_keeps b (gb64_unmark_range ops b a num)"
    "bits (gb64_unmark_range ops b a num) = (if extent_bad b c n then bits b else bits b - extent_set c n)"
  using assms unmark_extent [OF assms(1), of c n] extent_ok [OF assms(2), of c n]
  by (auto simp: gb64_unmark_range_def gb_keeps_def gb_bounded_def)

lemma gb64_test_range_spec:
  assumes "inv b" "gb_bounded b" "cluster_extent b a num = (c, n)" "0 < n"
  shows "gb64_test_range ops b a num \<noteq> 0 \<longleftrightarrow> extent_bad b c n \<or> bits b \<inter> extent_set c n = {}"
  using assms test_clear_extent [OF assms(1), of c n] extent_ok [OF assms(2), of c n]
  by (auto simp: gb64_test_range_def gb_bounded_def)

lemma gb64_padding_spec:
  assumes "inv b" "gb_bounded b" "bm_start b \<le> bm_end b" "unat (bm_real_end b) - unat (bm_end b) < 2 ^ 32"
  shows "gb_keeps b (gb64_padding ops b)"
    "bits (gb64_padding ops b) = bits b \<union> {Suc (unat (bm_end b)) .. unat (bm_real_end b)}"
proof -
  have le: "bm_end b \<le> bm_real_end b" "unat (bm_real_end b) + 2 ^ 32 < 2 ^ 64"
    using assms(2) by (auto simp: gb_bounded_def)
  then have e: "unat (bm_end b) \<le> unat (bm_real_end b)" by (simp add: word_le_nat_alt)
  have s: "unat (bm_end b + 1) = Suc (unat (bm_end b))"
    using e le(2) by (subst unat_add_no_wrap) simp_all
  define n where "n = (ucast (bm_real_end b - bm_end b) :: u32)"
  have n: "unat n = unat (bm_real_end b) - unat (bm_end b)"
    using le(1) assms(4) by (simp add: n_def unat_ucast64_32 unat_sub)
  have "extent_in_bmap b (bm_end b + 1) n"
    using s n e assms(3) by (simp add: extent_in_bmap_def word_le_nat_alt)
  moreover have "extent_set (bm_end b + 1) n = {Suc (unat (bm_end b)) .. unat (bm_real_end b)}"
    using s n e by (auto simp: extent_set_def)
  ultimately show "gb_keeps b (gb64_padding ops b)"
    "bits (gb64_padding ops b) = bits b \<union> {Suc (unat (bm_end b)) .. unat (bm_real_end b)}"
    using mark_extent [OF assms(1), of "bm_end b + 1" n]
    by (auto simp: gb64_padding_def n_def gb_keeps_def)
qed

end

section \<open>Cluster ranges\<close>

lemma unat_pow2: "c < 64 \<Longrightarrow> unat (2 ^ c :: u64) = 2 ^ c"
  using unat_of_nat_small [of "2 ^ c"] power_strict_increasing [of c 64 "2 :: nat"] by simp

lemma unat_push1: "c < 64 \<Longrightarrow> unat (push_bit c 1 :: u64) = 2 ^ c"
  by (simp add: push_bit_eq_mult unat_pow2)

lemma div_add_mask: "(0 :: nat) < d \<Longrightarrow> 0 < n \<Longrightarrow> (n + (d - 1)) div d = Suc ((n - 1) div d)"
proof -
  assume d: "0 < d" "0 < n"
  then have "n + (d - 1) = (n - 1) + d" by simp
  then show ?thesis using d by (simp only: div_add_self2)
qed

lemma ceil_span:
  assumes "0 < d" "0 < m"
  shows "(s + m - 1) div d < s div d + (m :: nat)"
proof -
  have "m - 1 \<le> (m - 1) * d" using assms(1) by simp
  then have "s + m - 1 \<le> s + (m - 1) * d" using assms(2) by linarith
  then have "(s + m - 1) div d \<le> (s + (m - 1) * d) div d" by (rule div_le_mono)
  also have "\<dots> = s div d + (m - 1)" using assms(1) by simp
  finally show ?thesis using assms(2) by linarith
qed

lemma div_image_interval:
  assumes "0 < d" "0 < m"
  shows "{s div d .. (s + m - 1) div d} = (\<lambda>i. i div d) ` {s ..< s + (m :: nat)}"
proof (intro equalityI subsetI)
  fix j assume j: "j \<in> {s div d .. (s + m - 1) div d}"
  show "j \<in> (\<lambda>i. i div d) ` {s ..< s + m}"
  proof (cases "j = s div d")
    case True
    then show ?thesis using assms(2) by (intro image_eqI [of _ _ s]) auto
  next
    case False
    then have "Suc (s div d) \<le> j" using j by auto
    then have "Suc (s div d) * d \<le> j * d" by (rule mult_right_mono) simp
    moreover have "s < Suc (s div d) * d" using assms(1) dividend_less_div_times [of d s] by simp
    moreover have "j * d \<le> (s + m - 1) div d * d" using j by (intro mult_right_mono) auto
    moreover have "(s + m - 1) div d * d \<le> s + m - 1" by (rule div_times_less_eq_dividend)
    ultimately have "s \<le> j * d" "j * d < s + m" using assms(2) by linarith+
    then show ?thesis using assms(1) by (intro image_eqI [of _ _ "j * d"]) auto
  qed
next
  fix j assume "j \<in> (\<lambda>i. i div d) ` {s ..< s + m}"
  then obtain i where "j = i div d" "s \<le> i" "i \<le> s + m - 1" by auto
  then show "j \<in> {s div d .. (s + m - 1) div d}" by (simp add: div_le_mono)
qed

text \<open>The clusters of a range are exactly those that hold a block of it.\<close>

lemma cluster_extent_covers:
  assumes c: "bm_cluster_bits b < 32" and num: "0 < unat num" and wrap: "unat blk + unat num + 2 ^ 32 \<le> 2 ^ 64"
    and ext: "cluster_extent b blk num = (k, n)"
  shows "extent_set k n = (\<lambda>m. m div 2 ^ bm_cluster_bits b) ` {unat blk ..< unat blk + unat num}" "0 < n"
proof -
  define d where "d = (2 :: nat) ^ bm_cluster_bits b"
  have d: "0 < d" "d < 2 ^ 32" using c power_strict_increasing [OF c, of "2 :: nat"] by (simp_all add: d_def)
  have e: "unat (blk + ucast num) = unat blk + unat num"
    using wrap by (subst unat_add_no_wrap) (simp_all add: unat_ucast32_64)
  have "unat (push_bit (bm_cluster_bits b) 1 - 1 :: u64) = d - 1"
    using c by (subst unat_minus_one) (auto simp: push_bit_eq_mult unat_pow2 d_def simp flip: unat_gt_0)
  then have e2: "unat (blk + ucast num + (push_bit (bm_cluster_bits b) 1 - 1)) = unat blk + unat num + (d - 1)"
    using wrap e d by (subst unat_add_no_wrap) simp_all
  have kd: "k = drop_bit (bm_cluster_bits b) blk" using ext by (auto simp: cluster_extent_def Let_def)
  have k: "unat k = unat blk div d"
    unfolding kd unat_drop_bit_eq d_def by (rule drop_bit_eq_div)
  define q where "q = (unat blk + unat num - 1) div d"
  have ce: "unat (drop_bit (bm_cluster_bits b) (blk + ucast num + (push_bit (bm_cluster_bits b) 1 - 1))) = Suc q"
  proof -
    have "(unat blk + unat num + (d - 1)) div d = Suc q"
      unfolding q_def using num d(1) by (intro div_add_mask) simp_all
    moreover have "drop_bit (bm_cluster_bits b) (unat blk + unat num + (d - 1))
        = (unat blk + unat num + (d - 1)) div d"
      unfolding d_def by (rule drop_bit_eq_div)
    ultimately show ?thesis unfolding unat_drop_bit_eq e2 by simp
  qed
  have kq: "unat blk div d \<le> q" using num by (simp add: q_def div_le_mono)
  have kle: "k \<le> drop_bit (bm_cluster_bits b) (blk + ucast num + (push_bit (bm_cluster_bits b) 1 - 1))"
    using ce k kq by (simp add: word_le_nat_alt)
  have "q < unat blk div d + unat num" unfolding q_def using d(1) num by (rule ceil_span)
  then have "Suc q - unat blk div d \<le> unat num" by linarith
  then have small: "Suc q - unat blk div d < 2 ^ 32" using unat_lt32 [of num] by simp
  have n: "unat n = Suc q - unat blk div d"
  proof -
    have "n = ucast (drop_bit (bm_cluster_bits b) (blk + ucast num + (push_bit (bm_cluster_bits b) 1 - 1)) - k)"
      using ext by (auto simp: cluster_extent_def Let_def)
    then show ?thesis using kle ce k small by (simp add: unat_ucast64_32 unat_sub)
  qed
  show "0 < n" using n kq by (simp add: word_less_nat_alt)
  have "extent_set k n = {unat blk div d .. q}"
    using n k kq by (auto simp: extent_set_def)
  also have "\<dots> = (\<lambda>m. m div d) ` {unat blk ..< unat blk + unat num}"
    unfolding q_def using d(1) num by (rule div_image_interval)
  finally show "extent_set k n = (\<lambda>m. m div 2 ^ bm_cluster_bits b) ` {unat blk ..< unat blk + unat num}"
    by (simp add: d_def)
qed

section \<open>Bounds and marks\<close>

record gb_frame =
  fr_start :: u64
  fr_end :: u64
  fr_bits :: nat

definition frame :: "'p gen_bitmap_64 \<Rightarrow> gb_frame" where
  "frame b = \<lparr>fr_start = bm_start b, fr_end = bm_end b, fr_bits = bm_cluster_bits b\<rparr>"

definition fr_cluster :: "gb_frame \<Rightarrow> u64 \<Rightarrow> u64" where
  "fr_cluster f a = drop_bit (fr_bits f) a"

definition fr_in :: "gb_frame \<Rightarrow> u64 \<Rightarrow> bool" where
  "fr_in f a \<longleftrightarrow> fr_start f \<le> fr_cluster f a \<and> fr_cluster f a \<le> fr_end f"

text \<open>The clusters of a block range, and whether they lie inside the bounds.\<close>

definition fr_clusters :: "gb_frame \<Rightarrow> u64 \<Rightarrow> u32 \<Rightarrow> nat set" where
  "fr_clusters f a num = (\<lambda>m. m div 2 ^ fr_bits f) ` {unat a ..< unat a + unat num}"

definition fr_fits :: "gb_frame \<Rightarrow> u64 \<Rightarrow> u32 \<Rightarrow> bool" where
  "fr_fits f a num \<longleftrightarrow> fr_clusters f a num \<subseteq> {unat (fr_start f) .. unat (fr_end f)}"

definition first_in :: "nat set \<Rightarrow> nat \<Rightarrow> nat \<Rightarrow> nat option" where
  "first_in S lo hi = find (\<lambda>n. n \<in> S) [lo ..< Suc hi]"

text \<open>A search is refused for these arguments; a found cluster is reported as its first block.\<close>

definition fr_bad :: "gb_frame \<Rightarrow> u64 \<Rightarrow> u64 \<Rightarrow> bool" where
  "fr_bad f a e \<longleftrightarrow> fr_cluster f a < fr_start f \<or> fr_cluster f e > fr_end f \<or> a > e"

definition first_block :: "gb_frame \<Rightarrow> u64 \<Rightarrow> u64 \<Rightarrow> u64" where
  "first_block f a c = (let c = push_bit (fr_bits f) c in if c \<ge> a then c else a)"

lemma extent_bad_fits:
  assumes "gb_bounded b" "bm_cluster_bits b < 32" "0 < n" "unat a + unat n + 2 ^ 32 \<le> 2 ^ 64"
    "cluster_extent b a n = (c, m)"
  shows "extent_set c m = fr_clusters (frame b) a n" "0 < m" "extent_bad b c m \<longleftrightarrow> \<not> fr_fits (frame b) a n"
proof -
  have n: "0 < unat n" using assms(3) by (simp add: word_less_nat_alt)
  show eq: "extent_set c m = fr_clusters (frame b) a n" and m: "0 < m"
    using cluster_extent_covers [OF assms(2) n assms(4,5)] by (simp_all add: fr_clusters_def frame_def)
  have m': "0 < unat m" using m by (simp add: word_less_nat_alt)
  have c: "unat c \<le> unat a"
  proof -
    have "c = drop_bit (bm_cluster_bits b) a" using assms(5) by (auto simp: cluster_extent_def Let_def)
    then have "unat c = drop_bit (bm_cluster_bits b) (unat a)" by (simp only: unat_drop_bit_eq)
    then show ?thesis by (simp add: drop_bit_eq_div)
  qed
  then have "unat (c + ucast m) = unat c + unat m"
    using assms(4) unat_lt32 [of m] by (subst unat_add_no_wrap) (simp_all add: unat_ucast32_64)
  moreover have "unat (c + ucast m - 1) = unat (c + ucast m) - 1"
    by (rule unat_minus_one) (use calculation m' in auto)
  ultimately have u: "unat (c + ucast m - 1) = unat c + unat m - 1" by simp
  have "extent_bad b c m \<longleftrightarrow> \<not> extent_set c m \<subseteq> {unat (bm_start b) .. unat (bm_end b)}"
  proof -
    have "extent_set c m \<subseteq> {unat (bm_start b) .. unat (bm_end b)} \<longleftrightarrow>
        unat (bm_start b) \<le> unat c \<and> unat c + unat m - 1 \<le> unat (bm_end b)"
      using m' by (force simp: extent_set_def subset_iff)
    then show ?thesis using m' by (auto simp: extent_bad_def word_less_nat_alt word_le_nat_alt u not_le)
  qed
  then show "extent_bad b c m \<longleftrightarrow> \<not> fr_fits (frame b) a n"
    by (simp add: fr_fits_def flip: eq) (simp add: frame_def)
qed

lemma find_append_None: "find P xs = None \<Longrightarrow> find P (xs @ ys) = find P ys"
  by (induction xs) (auto split: if_splits)

lemma first_in_Some:
  assumes "n \<in> S" "lo \<le> n" "n \<le> hi" "S \<inter> {lo ..< n} = {}"
  shows "first_in S lo hi = Some n"
proof -
  have "[lo ..< Suc hi] = [lo ..< n] @ n # [Suc n ..< Suc hi]"
    using assms(2,3) upt_add_eq_append [of lo n "Suc hi - n"] by (simp add: upt_conv_Cons del: upt_Suc)
  moreover have "find (\<lambda>n. n \<in> S) [lo ..< n] = None"
    using assms(4) by (auto simp: find_None_iff disjoint_iff)
  ultimately show ?thesis using assms(1) by (simp add: first_in_def find_append_None del: upt_Suc)
qed

lemma first_in_None: "S \<inter> {lo .. hi} = {} \<Longrightarrow> first_in S lo hi = None"
  by (auto simp: first_in_def find_None_iff)


context bmap_find_set
begin

definition refines :: "'a gen_bitmap_64 \<Rightarrow> gb_frame \<Rightarrow> nat set \<Rightarrow> bool" where
  "refines b f S \<longleftrightarrow> inv b \<and> gb_bounded b \<and> bm_cluster_bits b < 32 \<and> frame b = f \<and> bits b = S"

lemma refines_keeps:
  assumes "refines b f S" "gb_keeps b b'" "bits b' = S'"
  shows "refines b' f S'"
proof -
  have h: "bm_hdr b' = bm_hdr b" "inv b'" using assms(2) by (simp_all add: gb_keeps_def)
  show ?thesis using assms(1,3) h gb_bounded_hdr [OF h(1)]
    by (simp add: refines_def frame_def bm_hdr_eqD [OF h(1)])
qed

lemma refines_out:
  assumes "refines b f S"
  shows "out_of_range b (fr_cluster f a) \<longleftrightarrow> \<not> fr_in f a" "to_cluster b a = fr_cluster f a"
  using assms by (auto simp: refines_def out_of_range_def to_cluster_def fr_in_def fr_cluster_def
      frame_def not_le)

lemma refines_mark:
  assumes "refines b f S"
  shows "refines (fst (gb64_mark ops b a)) f (if fr_in f a then insert (unat (fr_cluster f a)) S else S)"
    "snd (gb64_mark ops b a) \<noteq> 0 \<longleftrightarrow> fr_in f a \<and> unat (fr_cluster f a) \<in> S"
proof -
  have b: "inv b" "gb_bounded b" "bits b = S" using assms by (simp_all add: refines_def)
  note s = gb64_mark_spec [OF b(1,2), of a, unfolded refines_out [OF assms] b(3)]
  show "refines (fst (gb64_mark ops b a)) f (if fr_in f a then insert (unat (fr_cluster f a)) S else S)"
    using refines_keeps [OF assms s(1,2)] by (auto split: if_splits)
  show "snd (gb64_mark ops b a) \<noteq> 0 \<longleftrightarrow> fr_in f a \<and> unat (fr_cluster f a) \<in> S" using s(3) by auto
qed

lemma refines_unmark:
  assumes "refines b f S"
  shows "refines (fst (gb64_unmark ops b a)) f (if fr_in f a then S - {unat (fr_cluster f a)} else S)"
proof -
  have b: "inv b" "gb_bounded b" "bits b = S" using assms by (simp_all add: refines_def)
  note s = gb64_unmark_spec [OF b(1,2), of a, unfolded refines_out [OF assms] b(3)]
  show ?thesis using refines_keeps [OF assms s] by (auto split: if_splits)
qed

lemma refines_test:
  assumes "refines b f S"
  shows "refines (fst (gb64_test ops b a)) f S"
    "snd (gb64_test ops b a) \<noteq> 0 \<longleftrightarrow> fr_in f a \<and> unat (fr_cluster f a) \<in> S"
proof -
  have b: "inv b" "gb_bounded b" "bits b = S" using assms by (simp_all add: refines_def)
  note s = gb64_test_spec [OF b(1,2), of a, unfolded refines_out [OF assms] b(3)]
  show "refines (fst (gb64_test ops b a)) f S" using refines_keeps [OF assms s(1,2)] .
  show "snd (gb64_test ops b a) \<noteq> 0 \<longleftrightarrow> fr_in f a \<and> unat (fr_cluster f a) \<in> S" using s(3) by auto
qed

lemma refines_range:
  assumes "refines b f S" "0 < n" "unat a + unat n + 2 ^ 32 \<le> 2 ^ 64"
  shows "refines (gb64_mark_range ops b a n) f (if fr_fits f a n then S \<union> fr_clusters f a n else S)"
    "refines (gb64_unmark_range ops b a n) f (if fr_fits f a n then S - fr_clusters f a n else S)"
    "gb64_test_range ops b a n \<noteq> 0 \<longleftrightarrow> \<not> fr_fits f a n \<or> S \<inter> fr_clusters f a n = {}"
proof -
  have b: "inv b" "gb_bounded b" "frame b = f" "bits b = S" "bm_cluster_bits b < 32"
    using assms(1) by (simp_all add: refines_def)
  obtain c m where cm: "cluster_extent b a n = (c, m)" by (cases "cluster_extent b a n")
  note ext = extent_bad_fits [OF b(2,5) assms(2,3) cm, unfolded b(3)]
  note s = gb64_mark_range_spec [OF b(1,2) cm, unfolded ext(1,3) b(4)]
    and u = gb64_unmark_range_spec [OF b(1,2) cm, unfolded ext(1,3) b(4)]
  show "refines (gb64_mark_range ops b a n) f (if fr_fits f a n then S \<union> fr_clusters f a n else S)"
    using refines_keeps [OF assms(1) s] by (auto split: if_splits)
  show "refines (gb64_unmark_range ops b a n) f (if fr_fits f a n then S - fr_clusters f a n else S)"
    using refines_keeps [OF assms(1) u] by (auto split: if_splits)
  show "gb64_test_range ops b a n \<noteq> 0 \<longleftrightarrow> \<not> fr_fits f a n \<or> S \<inter> fr_clusters f a n = {}"
    using gb64_test_range_spec [OF b(1,2) cm ext(2)] by (simp add: ext(1,3) b(4))
qed

text \<open>A search of the back end, described on cluster numbers, gives the search on block numbers.\<close>

lemma find_abs:
  assumes "refines b f S"
    and "\<And>s t. in_bmap b s \<Longrightarrow> in_bmap b t \<Longrightarrow> s \<le> t \<Longrightarrow>
      F b s t = (case w (unat s) (unat t) of None \<Rightarrow> Inl ENOENT | Some n \<Rightarrow> Inr (of_nat n))"
  shows "gb64_find_first F b a e =
     (if fr_bad f a e then Inl EINVAL
      else case w (unat (fr_cluster f a)) (unat (fr_cluster f e)) of
             None \<Rightarrow> Inl ENOENT | Some n \<Rightarrow> Inr (first_block f a (of_nat n)))"
proof -
  have b: "gb_bounded b" "frame b = f" using assms(1) by (simp_all add: refines_def)
  have f: "bm_start b = fr_start f" "bm_end b = fr_end f" "bm_cluster_bits b = fr_bits f"
    using b(2) by (auto simp: frame_def)
  have c: "to_cluster b x = fr_cluster f x" for x using refines_out [OF assms(1)] by simp
  show ?thesis
  proof (cases "fr_bad f a e")
    case True
    then show ?thesis using b(1)
      by (simp add: gb64_find_first_def c f gb_bounded_def Let_def fr_bad_def)
  next
    case False
    then have nF: "\<not> fr_cluster f a < fr_start f" "\<not> fr_end f < fr_cluster f e" "\<not> e < a"
      by (auto simp: fr_bad_def)
    then have "unat a \<le> unat e" by (simp add: word_less_nat_alt)
    then have "drop_bit (fr_bits f) (unat a) \<le> drop_bit (fr_bits f) (unat e)"
      by (simp add: drop_bit_eq_div div_le_mono)
    then have le: "fr_cluster f a \<le> fr_cluster f e"
      by (simp only: fr_cluster_def word_le_nat_alt unat_drop_bit_eq)
    have ir: "in_bmap b (fr_cluster f a)" "in_bmap b (fr_cluster f e)"
      using nF le b(1) by (auto simp: in_bmap_def f gb_bounded_def)
    show ?thesis using nF b(1) False assms(2) [OF ir le]
      by (simp add: gb64_find_first_def c f gb_bounded_def Let_def first_block_def split: option.split)
  qed
qed

lemma find_first_set_first_in:
  assumes "inv b" "in_bmap b s" "in_bmap b t" "s \<le> t"
  shows "ops_find_first_set ops b s t =
    (case first_in (bits b) (unat s) (unat t) of None \<Rightarrow> Inl ENOENT | Some n \<Rightarrow> Inr (of_nat n))"
proof (cases "ops_find_first_set ops b s t")
  case (Inl err)
  from find_first_set_Inl [OF assms this] show ?thesis by (simp add: first_in_None Inl)
next
  case (Inr x)
  from find_first_set_Inr [OF assms this]
  have "first_in (bits b) (unat s) (unat t) = Some (unat x)"
    by (intro first_in_Some) (simp_all add: word_le_nat_alt)
  then show ?thesis by (simp add: Inr)
qed

lemma refines_find_set:
  assumes "refines b f S"
  shows "gb64_find_first (ops_find_first_set ops) b a e =
     (if fr_bad f a e then Inl EINVAL
      else case first_in S (unat (fr_cluster f a)) (unat (fr_cluster f e)) of
             None \<Rightarrow> Inl ENOENT | Some n \<Rightarrow> Inr (first_block f a (of_nat n)))"
proof (rule find_abs [OF assms])
  have "inv b" "bits b = S" using assms by (simp_all add: refines_def)
  then show "ops_find_first_set ops b s t =
      (case first_in S (unat s) (unat t) of None \<Rightarrow> Inl ENOENT | Some n \<Rightarrow> Inr (of_nat n))"
    if "in_bmap b s" "in_bmap b t" "s \<le> t" for s t
    using find_first_set_first_in that by blast
qed

end

end
