(* ===== verification/Gen_bitmap64_Machine.thy ===== *)
theory Gen_bitmap64_Machine
  imports Gen_bitmap64_Spec
begin

text \<open>
  One machine for the generic 64-bit bitmaps: a sequence of operations on a bitmap, with the answer
  of each, over an operation table (\<open>gb_step\<close>) and on a set of numbers with bounds (\<open>gb_spec\<close>). The
  two back ends do not answer alike everywhere, and \<open>gb_behaviour\<close> names the four operations in which
  they differ: what unmarking reports, what a search for a clear number finds, what reading a piece of
  the on-disk bitmap does to the marks, and what writing one puts in the buffer. \<open>ba_behaviour\<close> and
  \<open>rb_behaviour\<close> are those of the bit array and of the red-black tree; the locale \<open>gb_machine\<close> proves
  once that a back end with a given behaviour implements the machine of that behaviour.

  Creation is not an operation of the machine (it starts from a bitmap), and resizing is one for
  the red-black tree only: what a bit array holds after a resize depends on stale bits of its array.
\<close>

section \<open>Operations and answers\<close>

datatype gb_op =
    Mark u64 | Unmark u64 | Test u64
  | Mark_range u64 u32 | Unmark_range u64 u32 | Test_range u64 u32
  | Find_set u64 u64 | Find_zero u64 u64
  | Set_range u64 u32 "u8 list" | Get_range u64 u32 "u8 list"
  | Clear | Padding | Copy bool allocator | Resize allocator u64 u64

datatype gb_answer = Done | Bit bool | Found u64 | Read "bool list" | Fails errcode

definition search_answer :: "errcode + u64 \<Rightarrow> gb_answer" where
  "search_answer r = (case r of Inl err \<Rightarrow> Fails err | Inr x \<Rightarrow> Found x)"

text \<open>
  The operations on an implementation. \<open>Copy go mem\<close> makes a copy and goes on with the copy or with
  the original; \<open>Get_range\<close> answers with the bits of the range in the buffer.
\<close>

definition gb_step :: "'p bitmap_ops \<Rightarrow> gb_op \<Rightarrow> 'p gen_bitmap_64 \<Rightarrow> 'p gen_bitmap_64 \<times> gb_answer" where
  "gb_step ops op b =
     (case op of
        Mark a \<Rightarrow> map_prod id (\<lambda>r. Bit (r \<noteq> 0)) (gb64_mark ops b a)
      | Unmark a \<Rightarrow> map_prod id (\<lambda>r. Bit (r \<noteq> 0)) (gb64_unmark ops b a)
      | Test a \<Rightarrow> map_prod id (\<lambda>r. Bit (r \<noteq> 0)) (gb64_test ops b a)
      | Mark_range a n \<Rightarrow> (gb64_mark_range ops b a n, Done)
      | Unmark_range a n \<Rightarrow> (gb64_unmark_range ops b a n, Done)
      | Test_range a n \<Rightarrow> (b, Bit (gb64_test_range ops b a n \<noteq> 0))
      | Find_set a e \<Rightarrow> (b, search_answer (gb64_find_first (ops_find_first_set ops) b a e))
      | Find_zero a e \<Rightarrow> (b, search_answer (gb64_find_first (ops_find_first_zero ops) b a e))
      | Set_range a n inp \<Rightarrow>
          (case gb64_set_range ops b a n inp of Inl err \<Rightarrow> (b, Fails err) | Inr b' \<Rightarrow> (b', Done))
      | Get_range a n out \<Rightarrow>
          (b, case gb64_get_range ops b a n out of
                Inl err \<Rightarrow> Fails err | Inr out \<Rightarrow> Read (map (bit_at out) [0 ..< unat n]))
      | Clear \<Rightarrow> (ops_clear_bmap ops b, Done)
      | Padding \<Rightarrow> (gb64_padding ops b, Done)
      | Copy go mem \<Rightarrow>
          (case gb64_copy ops mem b of
             (b', Inl err) \<Rightarrow> (b', Fails err)
           | (b', Inr c) \<Rightarrow> (if go then c else b', Done))
      | Resize mem e r \<Rightarrow>
          map_prod id (\<lambda>err. if err = 0 then Done else Fails err) (ops_resize_bmap ops mem b e r))"

fun run :: "(gb_op \<Rightarrow> 's \<Rightarrow> 's \<times> gb_answer) \<Rightarrow> gb_op list \<Rightarrow> 's \<Rightarrow> 's \<times> gb_answer list" where
  "run step [] s = (s, [])"
| "run step (op # ops) s =
     (case step op s of (s', a) \<Rightarrow> case run step ops s' of (s'', as) \<Rightarrow> (s'', a # as))"

section \<open>The abstract machine\<close>

record gb_state =
  gs_frame :: gb_frame
  gs_real_end :: u64
  gs_marks :: "nat set"

definition range_of :: "u64 \<Rightarrow> u32 \<Rightarrow> nat set" where
  "range_of a n = {unat a ..< unat a + unat n}"

text \<open>The numbers of a range whose bit is set in a buffer.\<close>

definition read_in :: "u64 \<Rightarrow> u32 \<Rightarrow> u8 list \<Rightarrow> nat set" where
  "read_in a n inp = {m \<in> range_of a n. bit_at inp (m - unat a)}"

record gb_behaviour =
  bh_unmark :: "nat \<Rightarrow> nat set \<Rightarrow> bool"
  bh_zero :: "nat set \<Rightarrow> nat \<Rightarrow> nat \<Rightarrow> nat option"
  bh_set :: "nat set \<Rightarrow> nat set \<Rightarrow> nat set \<Rightarrow> nat set"
  bh_get :: "nat set \<Rightarrow> nat \<Rightarrow> bool \<Rightarrow> bool"
  bh_range_ok :: "gb_frame \<Rightarrow> u64 \<Rightarrow> u32 \<Rightarrow> bool"
  bh_resizes :: bool

text \<open>
  The bit array: unmarking reports the old bit, the search finds the first clear number, a range is
  overwritten and written out. It copies whole bytes, so ranges have to consist of such.
\<close>

definition byte_range :: "gb_frame \<Rightarrow> u64 \<Rightarrow> u32 \<Rightarrow> bool" where
  "byte_range f a n \<longleftrightarrow> unat (fr_start f) < 8 \<and> fr_start f \<le> a
     \<and> (unat a - unat (fr_start f)) mod 8 = 0 \<and> unat n mod 8 = 0"

definition ba_behaviour :: gb_behaviour where
  "ba_behaviour =
     \<lparr>bh_unmark = (\<lambda>n S. n \<in> S),
      bh_zero = (\<lambda>S lo hi. first_in (- S) lo hi),
      bh_set = (\<lambda>R I S. (S - R) \<union> I),
      bh_get = (\<lambda>S n old. n \<in> S),
      bh_range_ok = byte_range, bh_resizes = False\<rparr>"

text \<open>
  The red-black tree: unmarking also reports a mark on the next number, an empty tree has no clear
  number and leaves a buffer alone, and reading a range takes no mark away.
\<close>

definition rb_behaviour :: gb_behaviour where
  "rb_behaviour =
     \<lparr>bh_unmark = (\<lambda>n S. n \<in> S \<or> Suc n \<in> S),
      bh_zero = (\<lambda>S lo hi. if S = {} then None else first_in (- S) lo hi),
      bh_set = (\<lambda>R I S. S \<union> I),
      bh_get = (\<lambda>S n old. if S = {} then old else n \<in> S),
      bh_range_ok = (\<lambda>f a n. fr_start f \<le> a), bh_resizes = True\<rparr>"

definition find_answer :: "gb_frame \<Rightarrow> u64 \<Rightarrow> u64 \<Rightarrow> nat option \<Rightarrow> gb_answer" where
  "find_answer f a e r =
     (if fr_bad f a e then Fails EINVAL
      else case r of None \<Rightarrow> Fails ENOENT | Some n \<Rightarrow> Found (first_block f a (of_nat n)))"

definition gb_spec :: "gb_behaviour \<Rightarrow> gb_op \<Rightarrow> gb_state \<Rightarrow> gb_state \<times> gb_answer" where
  "gb_spec bh op s =
     (let f = gs_frame s; S = gs_marks s; to = (\<lambda>S'. s\<lparr>gs_marks := S'\<rparr>);
          num = (\<lambda>a. unat (fr_cluster f a))
      in case op of
        Mark a \<Rightarrow> (to (if fr_in f a then insert (num a) S else S), Bit (fr_in f a \<and> num a \<in> S))
      | Unmark a \<Rightarrow> (to (if fr_in f a then S - {num a} else S), Bit (fr_in f a \<and> bh_unmark bh (num a) S))
      | Test a \<Rightarrow> (s, Bit (fr_in f a \<and> num a \<in> S))
      | Mark_range a n \<Rightarrow> (to (if fr_fits f a n then S \<union> fr_clusters f a n else S), Done)
      | Unmark_range a n \<Rightarrow> (to (if fr_fits f a n then S - fr_clusters f a n else S), Done)
      | Test_range a n \<Rightarrow> (s, Bit (fr_fits f a n \<longrightarrow> S \<inter> fr_clusters f a n = {}))
      | Find_set a e \<Rightarrow> (s, find_answer f a e (first_in S (num a) (num e)))
      | Find_zero a e \<Rightarrow> (s, find_answer f a e (bh_zero bh S (num a) (num e)))
      | Set_range a n inp \<Rightarrow> (to (bh_set bh (range_of a n) (read_in a n inp) S), Done)
      | Get_range a n out \<Rightarrow> (s, Read (map (\<lambda>i. bh_get bh S (unat a + i) (bit_at out i)) [0 ..< unat n]))
      | Clear \<Rightarrow> (to {}, Done)
      | Padding \<Rightarrow> (to (S \<union> {Suc (unat (fr_end f)) .. unat (gs_real_end s)}), Done)
      | Copy go mem \<Rightarrow> (s, Done)
      | Resize mem e r \<Rightarrow>
          (s\<lparr>gs_frame := f\<lparr>fr_end := e\<rparr>, gs_real_end := r,
             gs_marks := (S \<inter> {.. min (unat (fr_end f)) (unat e)}) \<union> {Suc (unat e) .. unat r}\<rparr>, Done))"

text \<open>
  What a caller has to respect: block ranges are nonempty and end well below the largest number,
  pieces of the on-disk bitmap lie inside the bitmap and the buffer, memory does not run out, and a
  new end is not before the start.
\<close>

definition piece_ok :: "gb_behaviour \<Rightarrow> gb_state \<Rightarrow> u64 \<Rightarrow> u32 \<Rightarrow> u8 list \<Rightarrow> bool" where
  "piece_ok bh s a n buf \<longleftrightarrow> bh_range_ok bh (gs_frame s) a n \<and> 0 < unat n \<and> unat n < 2 ^ 31
     \<and> unat a + unat n \<le> Suc (unat (gs_real_end s)) \<and> (unat n + 7) div 8 \<le> length buf"

definition op_ok :: "gb_behaviour \<Rightarrow> gb_state \<Rightarrow> gb_op \<Rightarrow> bool" where
  "op_ok bh s op = (case op of
      Mark_range a n \<Rightarrow> 0 < n \<and> unat a + unat n + 2 ^ 32 \<le> 2 ^ 64
    | Unmark_range a n \<Rightarrow> 0 < n \<and> unat a + unat n + 2 ^ 32 \<le> 2 ^ 64
    | Test_range a n \<Rightarrow> 0 < n \<and> unat a + unat n + 2 ^ 32 \<le> 2 ^ 64
    | Set_range a n inp \<Rightarrow> piece_ok bh s a n inp
    | Get_range a n out \<Rightarrow> piece_ok bh s a n out
    | Padding \<Rightarrow> unat (gs_real_end s) - unat (fr_end (gs_frame s)) < 2 ^ 32
    | Copy go mem \<Rightarrow> alloc_sized mem \<and> never_fails mem
    | Resize mem e r \<Rightarrow> bh_resizes bh \<and> fr_start (gs_frame s) \<le> e \<and> e \<le> r \<and> unat r + 2 ^ 32 < 2 ^ 64
    | _ \<Rightarrow> True)"

fun ops_ok :: "gb_behaviour \<Rightarrow> gb_state \<Rightarrow> gb_op list \<Rightarrow> bool" where
  "ops_ok bh s [] = True"
| "ops_ok bh s (op # opl) = (op_ok bh s op \<and> ops_ok bh (fst (gb_spec bh op s)) opl)"

text \<open>A bitmap implements a state of the machine.\<close>

definition gb_refines ::
  "('p gen_bitmap_64 \<Rightarrow> bool) \<Rightarrow> ('p gen_bitmap_64 \<Rightarrow> nat set) \<Rightarrow> 'p gen_bitmap_64 \<Rightarrow> gb_state \<Rightarrow> bool" where
  "gb_refines ok bits b s \<longleftrightarrow> ok b \<and> gb_bounded b \<and> bm_start b \<le> bm_end b \<and> bm_cluster_bits b < 32
     \<and> frame b = gs_frame s \<and> bm_real_end b = gs_real_end s \<and> bits b = gs_marks s"


section \<open>A back end with a behaviour\<close>

locale gb_machine = bmap_find_set + bmap_lifecycle +
  fixes bh :: gb_behaviour
  assumes unmark_answer: "inv b \<Longrightarrow> in_bmap b a \<Longrightarrow>
      snd (ops_unmark_bmap ops b a) \<noteq> 0 \<longleftrightarrow> bh_unmark bh (unat a) (bits b)"
    and find_zero: "inv b \<Longrightarrow> in_bmap b s \<Longrightarrow> in_bmap b t \<Longrightarrow> s \<le> t \<Longrightarrow>
      ops_find_first_zero ops b s t =
        (case bh_zero bh (bits b) (unat s) (unat t) of None \<Rightarrow> Inl ENOENT | Some n \<Rightarrow> Inr (of_nat n))"
    and set_range: "inv b \<Longrightarrow> bh_range_ok bh (frame b) a n \<Longrightarrow> 0 < unat n \<Longrightarrow> unat n < 2 ^ 31 \<Longrightarrow>
      unat a + unat n \<le> Suc (unat (bm_real_end b)) \<Longrightarrow> (unat n + 7) div 8 \<le> length inp \<Longrightarrow>
      inv (ops_set_bmap_range ops b a (ucast n) inp)
      \<and> bits (ops_set_bmap_range ops b a (ucast n) inp) = bh_set bh (range_of a n) (read_in a n inp) (bits b)
      \<and> bm_hdr (ops_set_bmap_range ops b a (ucast n) inp) = bm_hdr b"
    and get_range: "inv b \<Longrightarrow> bh_range_ok bh (frame b) a n \<Longrightarrow>
      unat a + unat n \<le> Suc (unat (bm_real_end b)) \<Longrightarrow> (unat n + 7) div 8 \<le> length out \<Longrightarrow> i < unat n \<Longrightarrow>
      bit_at (ops_get_bmap_range ops b a (ucast n) out) i \<longleftrightarrow> bh_get bh (bits b) (unat a + i) (bit_at out i)"
    and resize: "bh_resizes bh \<Longrightarrow> inv b \<Longrightarrow> bm_start b \<le> bm_end b \<Longrightarrow> bm_start b \<le> e \<Longrightarrow> e \<le> r \<Longrightarrow>
      unat r + 2 ^ 32 < 2 ^ 64 \<Longrightarrow> ops_resize_bmap ops mem b e r = (b', err) \<Longrightarrow>
      err = 0 \<and> inv b' \<and> bm_hdr b' = bm_hdr (b\<lparr>bm_end := e, bm_real_end := r\<rparr>)
      \<and> bits b' = (bits b \<inter> {.. min (unat (bm_end b)) (unat e)}) \<union> {Suc (unat e) .. unat r}"
begin

lemma machine_refines:
  assumes "gb_refines inv bits b s"
  shows "refines b (gs_frame s) (gs_marks s)"
  using assms by (simp add: gb_refines_def refines_def)

lemma machine_keeps:
  assumes "gb_refines inv bits b s" "inv b'" "bm_hdr b' = bm_hdr b" "bits b' = S'"
  shows "gb_refines inv bits b' (s\<lparr>gs_marks := S'\<rparr>)"
  using assms gb_bounded_hdr [OF assms(3)]
  by (simp add: gb_refines_def frame_def bm_hdr_eqD [OF assms(3)])

text \<open>The operations of \<open>refines\<close> leave the bounds alone, so they keep \<open>gb_refines\<close>.\<close>

lemma gb64_hdr:
  assumes "inv b" "gb_bounded b"
  shows "bm_hdr (fst (gb64_mark ops b a)) = bm_hdr b" "bm_hdr (fst (gb64_unmark ops b a)) = bm_hdr b"
    "bm_hdr (fst (gb64_test ops b a)) = bm_hdr b" "bm_hdr (gb64_mark_range ops b a n) = bm_hdr b"
    "bm_hdr (gb64_unmark_range ops b a n) = bm_hdr b"
proof -
  obtain c m where cm: "cluster_extent b a n = (c, m)" by (cases "cluster_extent b a n")
  show "bm_hdr (fst (gb64_mark ops b a)) = bm_hdr b" "bm_hdr (fst (gb64_unmark ops b a)) = bm_hdr b"
    "bm_hdr (fst (gb64_test ops b a)) = bm_hdr b" "bm_hdr (gb64_mark_range ops b a n) = bm_hdr b"
    "bm_hdr (gb64_unmark_range ops b a n) = bm_hdr b"
    using gb64_mark_spec(1) [OF assms] gb64_unmark_spec(1) [OF assms] gb64_test_spec(1) [OF assms]
      gb64_mark_range_spec(1) [OF assms cm] gb64_unmark_range_spec(1) [OF assms cm]
    by (simp_all add: gb_keeps_def)
qed

lemma machine_to:
  assumes "gb_refines inv bits b s" "refines b' (gs_frame s) S'" "bm_hdr b' = bm_hdr b"
  shows "gb_refines inv bits b' (s\<lparr>gs_marks := S'\<rparr>)"
  using machine_keeps [OF assms(1) _ assms(3), of S'] assms(2) by (simp add: refines_def)

lemma unmark_says:
  assumes "refines b f S"
  shows "snd (gb64_unmark ops b a) \<noteq> 0 \<longleftrightarrow> fr_in f a \<and> bh_unmark bh (unat (fr_cluster f a)) S"
proof -
  have b: "inv b" "gb_bounded b" "bits b = S" using assms by (simp_all add: refines_def)
  note out = refines_out [OF assms]
  show ?thesis
  proof (cases "fr_in f a")
    case True
    then have "in_bmap b (fr_cluster f a)" using in_range_in_bmap [OF b(2)] out(1) by blast
    with unmark_answer [OF b(1) this] True b show ?thesis by (simp add: gb64_unmark_def out gb_bounded_def)
  next
    case False
    then show ?thesis using b by (simp add: gb64_unmark_def out gb_bounded_def)
  qed
qed

text \<open>Single numbers and ranges of blocks.\<close>

definition implements :: "gb_op \<Rightarrow> 'a gen_bitmap_64 \<Rightarrow> gb_state \<Rightarrow> bool" where
  "implements op b s \<longleftrightarrow> gb_refines inv bits (fst (gb_step ops op b)) (fst (gb_spec bh op s))
     \<and> snd (gb_step ops op b) = snd (gb_spec bh op s)"

lemmas step_defs = implements_def gb_step_def gb_spec_def Let_def

lemma step_single:
  assumes "gb_refines inv bits b s"
  shows "implements (Mark a) b s" "implements (Unmark a) b s" "implements (Test a) b s"
proof -
  note r = machine_refines [OF assms]
  have b: "inv b" "gb_bounded b" using assms by (simp_all add: gb_refines_def)
  show "implements (Mark a) b s"
    using machine_to [OF assms refines_mark(1) [OF r] gb64_hdr(1) [OF b]] refines_mark(2) [OF r]
    by (simp add: step_defs)
  show "implements (Unmark a) b s"
    using machine_to [OF assms refines_unmark [OF r] gb64_hdr(2) [OF b]] unmark_says [OF r]
    by (simp add: step_defs)
  show "implements (Test a) b s"
    using machine_to [OF assms refines_test(1) [OF r] gb64_hdr(3) [OF b]] refines_test(2) [OF r]
    by (simp add: step_defs)
qed

lemma step_range:
  assumes "gb_refines inv bits b s" "0 < n" "unat a + unat n + 2 ^ 32 \<le> 2 ^ 64"
  shows "implements (Mark_range a n) b s" "implements (Unmark_range a n) b s"
    "implements (Test_range a n) b s"
proof -
  note r = machine_refines [OF assms(1)]
  have b: "inv b" "gb_bounded b" using assms(1) by (simp_all add: gb_refines_def)
  show "implements (Mark_range a n) b s"
    using machine_to [OF assms(1) refines_range(1) [OF r assms(2,3)] gb64_hdr(4) [OF b]]
    by (simp add: step_defs)
  show "implements (Unmark_range a n) b s"
    using machine_to [OF assms(1) refines_range(2) [OF r assms(2,3)] gb64_hdr(5) [OF b]]
    by (simp add: step_defs)
  show "implements (Test_range a n) b s"
    using assms(1) refines_range(3) [OF r assms(2,3)] by (auto simp: step_defs)
qed

lemma step_find:
  assumes "gb_refines inv bits b s"
  shows "implements (Find_set a e) b s" "implements (Find_zero a e) b s"
proof -
  note r = machine_refines [OF assms]
  have b: "inv b" "bits b = gs_marks s" using assms by (simp_all add: gb_refines_def)
  have z: "ops_find_first_zero ops b lo hi =
      (case bh_zero bh (gs_marks s) (unat lo) (unat hi) of None \<Rightarrow> Inl ENOENT | Some n \<Rightarrow> Inr (of_nat n))"
    if "in_bmap b lo" "in_bmap b hi" "lo \<le> hi" for lo hi
    using find_zero [OF b(1) that] by (simp add: b(2))
  show "implements (Find_set a e) b s"
    using assms by (simp add: step_defs refines_find_set [OF r] search_answer_def find_answer_def
        split: option.split)
  show "implements (Find_zero a e) b s"
    using assms by (simp add: step_defs find_abs [where F = "ops_find_first_zero ops" and w = "bh_zero bh (gs_marks s)", OF r z]
        search_answer_def find_answer_def split: option.split)
qed

lemma step_piece:
  assumes "gb_refines inv bits b s" "piece_ok bh s a n buf"
  shows "implements (Set_range a n buf) b s" "implements (Get_range a n buf) b s"
proof -
  have b: "inv b" "is64 b" "frame b = gs_frame s" "bm_real_end b = gs_real_end s" "bits b = gs_marks s"
    using assms(1) by (simp_all add: gb_refines_def gb_bounded_def)
  have p: "bh_range_ok bh (frame b) a n" "0 < unat n" "unat n < 2 ^ 31"
    "unat a + unat n \<le> Suc (unat (bm_real_end b))" "(unat n + 7) div 8 \<le> length buf"
    using assms(2) by (simp_all add: piece_ok_def b)
  show "implements (Set_range a n buf) b s"
    using set_range [OF b(1) p] machine_keeps [OF assms(1)]
    by (simp add: step_defs gb64_set_range_def b)
  show "implements (Get_range a n buf) b s"
    using get_range [OF b(1) p(1,4,5)] assms(1) by (simp add: step_defs gb64_get_range_def b)
qed

lemma step_clear_padding:
  assumes "gb_refines inv bits b s"
  shows "implements Clear b s"
    "unat (gs_real_end s) - unat (fr_end (gs_frame s)) < 2 ^ 32 \<Longrightarrow> implements Padding b s"
proof -
  have b: "inv b" "gb_bounded b" "bm_start b \<le> bm_end b" "frame b = gs_frame s"
      "bm_real_end b = gs_real_end s" "bits b = gs_marks s"
    using assms by (simp_all add: gb_refines_def)
  have e: "fr_end (gs_frame s) = bm_end b" by (simp add: frame_def flip: b(4))
  show "implements Clear b s"
    using clear [OF b(1)] machine_keeps [OF assms] by (simp add: step_defs)
  assume "unat (gs_real_end s) - unat (fr_end (gs_frame s)) < 2 ^ 32"
  then have d: "unat (bm_real_end b) - unat (bm_end b) < 2 ^ 32" by (simp add: e b(5))
  show "implements Padding b s"
    using gb64_padding_spec [OF b(1-3) d] machine_keeps [OF assms]
    by (simp add: step_defs gb_keeps_def e b(5,6))
qed

lemma copy_succeeds:
  assumes "inv src" "alloc_sized mem" "never_fails mem"
  obtains src' dest' where "gb64_copy ops mem src = (src', Inr dest')" "inv src'" "bits src' = bits src"
    "bm_hdr src' = bm_hdr src" "inv dest'" "bits dest' = bits src"
    "bm_hdr dest' = bm_hdr (src\<lparr>bm_description := map_option (\<lambda>d. ''copy of '' @ d) (bm_description src)\<rparr>)"
proof -
  define dest where "dest = src\<lparr>bm_private := None,
    bm_description := map_option (\<lambda>d. ''copy of '' @ d) (bm_description src)\<rparr>"
  obtain src' res where c: "ops_copy_bmap ops mem src dest = (src', res)" by (cases "ops_copy_bmap ops mem src dest")
  have nf: "\<exists>blk. ext2fs_get_mem mem n = Inr blk" for n
    using ext2fs_get_mem_Inl [of mem n] assms(3) by (cases "ext2fs_get_mem mem n") auto
  then have d: "descr_mem mem 10 (bm_description src) = Inr ()"
    by (auto simp: descr_mem_def split: option.split sum.split) (metis nf old.sum.exhaust sum.simps(4))
  have g: "bm_same_geometry src dest" by (simp add: dest_def bm_same_geometry_def)
  obtain dest' where r: "res = Inr dest'"
    using copy_Inl [OF assms(1)] c assms(3) by (cases res) auto
  obtain blk where blk: "ext2fs_get_mem mem 112 = Inr blk" using nf by blast
  have "gb64_copy ops mem src = ops_copy_bmap ops mem src dest"
    by (simp only: gb64_copy_def dest_def blk d sum.case)
  then have cp: "gb64_copy ops mem src = (src', Inr dest')" by (simp only: c r)
  show thesis
    using cp copy_src [OF assms(1) c] copy_Inr [OF assms(1) g assms(2) c [unfolded r]]
    by (intro that [of src' dest']) (simp_all add: dest_def bm_hdr_def)
qed

lemma step_copy:
  assumes "gb_refines inv bits b s" "alloc_sized mem" "never_fails mem"
  shows "implements (Copy go mem) b s"
proof -
  have b: "inv b" "bits b = gs_marks s" using assms(1) by (simp_all add: gb_refines_def)
  obtain b' c where c: "gb64_copy ops mem b = (b', Inr c)" "inv b'" "bits b' = bits b" "bm_hdr b' = bm_hdr b"
    "inv c" "bits c = bits b"
    "bm_hdr c = bm_hdr (b\<lparr>bm_description := map_option (\<lambda>d. ''copy of '' @ d) (bm_description b)\<rparr>)"
    using copy_succeeds [OF b(1) assms(2,3)] .
  note h = bm_hdr_eqD [OF c(7)]
  have "gb_refines inv bits c s" using assms(1) c(5,6) h
    by (auto simp: gb_refines_def frame_def gb_bounded_def is64_def)
  moreover have "gb_refines inv bits b' s"
    using machine_keeps [OF assms(1) c(2,4,3)] by (simp add: b(2))
  ultimately show ?thesis by (simp add: step_defs c(1))
qed

lemma step_resize:
  assumes "gb_refines inv bits b s" "op_ok bh s (Resize mem e r)"
  shows "implements (Resize mem e r) b s"
proof -
  have b: "inv b" "gb_bounded b" "bm_start b \<le> bm_end b" "bm_cluster_bits b < 32" "frame b = gs_frame s"
      "bm_real_end b = gs_real_end s" "bits b = gs_marks s"
    using assms(1) by (simp_all add: gb_refines_def)
  have f: "fr_start (gs_frame s) = bm_start b" "fr_end (gs_frame s) = bm_end b"
    "fr_bits (gs_frame s) = bm_cluster_bits b" by (simp_all add: frame_def flip: b(5))
  have o: "bh_resizes bh" "bm_start b \<le> e" "e \<le> r" "unat r + 2 ^ 32 < 2 ^ 64"
    using assms(2) by (simp_all add: op_ok_def f)
  obtain b' err where r: "ops_resize_bmap ops mem b e r = (b', err)" by (cases "ops_resize_bmap ops mem b e r")
  have R: "err = 0" "inv b'" "bm_hdr b' = bm_hdr (b\<lparr>bm_end := e, bm_real_end := r\<rparr>)"
    "bits b' = (bits b \<inter> {.. min (unat (bm_end b)) (unat e)}) \<union> {Suc (unat e) .. unat r}"
    using resize [OF o(1) b(1,3) o(2-4) r] by simp_all
  have "gb_bounded b'" using b(2) o(3,4) bm_hdr_eqD [OF R(3)]
    by (simp add: gb_bounded_def is64_def)
  moreover have "frame b' = (gs_frame s)\<lparr>fr_end := e\<rparr>"
    using bm_hdr_eqD [OF R(3)] by (simp add: frame_def flip: b(5))
  ultimately show ?thesis using R(1,2,4) o(2) b(4) bm_hdr_eqD [OF R(3)]
    by (simp add: step_defs r gb_refines_def f b(7))
qed

text \<open>One step of the back end is one step of the machine of its behaviour.\<close>

lemma machine_step:
  assumes "gb_refines inv bits b s" "op_ok bh s op"
  shows "implements op b s"
  using assms step_single [OF assms(1)] step_range [OF assms(1)] step_find [OF assms(1)]
    step_piece [OF assms(1)] step_clear_padding [OF assms(1)] step_copy [OF assms(1)] step_resize [OF assms(1)]
  by (cases op) (simp_all add: op_ok_def)

lemma machine_run:
  assumes "gb_refines inv bits b s" "ops_ok bh s opl"
  shows "gb_refines inv bits (fst (run (gb_step ops) opl b)) (fst (run (gb_spec bh) opl s))
    \<and> snd (run (gb_step ops) opl b) = snd (run (gb_spec bh) opl s)"
  using assms
proof (induction opl arbitrary: b s)
  case Nil
  then show ?case by simp
next
  case (Cons op opl)
  have "implements op b s" using machine_step Cons.prems by simp
  with Cons.IH [of "fst (gb_step ops op b)" "fst (gb_spec bh op s)"] Cons.prems
  show ?case by (simp add: implements_def case_prod_beta)
qed

end


section \<open>The bit array\<close>

lemma ba_zero_first_in:
  assumes "ba_inv b" "in_bmap b s" "in_bmap b t" "s \<le> t"
  shows "ba_find_first_zero b s t =
    (case first_in (- ba_bits b) (unat s) (unat t) of None \<Rightarrow> Inl ENOENT | Some n \<Rightarrow> Inr (of_nat n))"
proof (cases "ba_find_first_zero b s t")
  case (Inl err)
  then have "err = ENOENT \<and> {unat s .. unat t} \<subseteq> ba_bits b"
    using ba_zero.find_first_zero_Inl [OF assms] by (simp add: ext2fs_blkmap64_bitarray_def)
  then show ?thesis by (subst first_in_None) (auto simp: Inl)
next
  case (Inr x)
  then have "s \<le> x \<and> x \<le> t \<and> unat x \<notin> ba_bits b \<and> {unat s ..< unat x} \<subseteq> ba_bits b"
    using ba_zero.find_first_zero_Inr [OF assms] by (simp add: ext2fs_blkmap64_bitarray_def)
  then have "first_in (- ba_bits b) (unat s) (unat t) = Some (unat x)"
    by (intro first_in_Some) (auto simp: word_le_nat_alt)
  then show ?thesis by (simp add: Inr)
qed

lemma byte_range_aligned: "byte_range (frame b) a n \<Longrightarrow> byte_aligned b a \<and> unat n mod 8 = 0"
  by (simp add: byte_range_def byte_aligned_def frame_def)

lemma whole_bytes: "n mod 8 = 0 \<Longrightarrow> 8 * ((n + 7) div 8) = (n :: nat)"
  by presburger

lemma ba_piece_bytes:
  assumes "(unat n + 7) div 8 \<le> length buf"
  shows "unat (drop_bit 3 ((ucast n :: u64) + 7)) \<le> length buf" "unat (ucast n :: u64) = unat (n :: u32)"
    "unat (ucast n :: u64) < 2 ^ 64 - 8"
proof -
  show u: "unat (ucast n :: u64) = unat n" by (simp add: unat_ucast32_64)
  then show s: "unat (ucast n :: u64) < 2 ^ 64 - 8" using unat_lt32 [of n] by simp
  show "unat (drop_bit 3 ((ucast n :: u64) + 7)) \<le> length buf"
    using unat_bytes [OF s] assms by (simp add: u)
qed

lemma ba_set_range_marks:
  assumes "ba_inv b" "byte_range (frame b) a n" "0 < unat n"
    "unat a + unat n \<le> Suc (unat (bm_real_end b))" "(unat n + 7) div 8 \<le> length inp"
  shows "ba_inv (ba_set_bmap_range b a (ucast n) inp)
    \<and> ba_bits (ba_set_bmap_range b a (ucast n) inp) = (ba_bits b - range_of a n) \<union> read_in a n inp
    \<and> bm_hdr (ba_set_bmap_range b a (ucast n) inp) = bm_hdr b"
proof -
  let ?b = "ba_set_bmap_range b a (ucast n) inp"
  note al = byte_range_aligned [OF assms(2)] and p = ba_piece_bytes [OF assms(5)]
  note spec = ba_set_range_bits [OF assms(1) conjunct1 [OF al] p(3) _ _ p(1), unfolded p(2),
      OF assms(3,4), unfolded whole_bytes [OF conjunct2 [OF al]]]
  have hdr: "bm_hdr ?b = bm_hdr b" by (simp add: ba_set_bmap_range_def)
  have rng: "ba_bits ?b \<subseteq> bm_range b" "ba_bits b \<subseteq> bm_range b"
    by (auto simp: ba_bits_def ba_set_bmap_range_def)
  have in_rng: "range_of a n \<subseteq> bm_range b"
    using al assms(4) by (auto simp: range_of_def bm_range_def byte_aligned_def word_le_nat_alt)
  have "unat a \<in> bm_range b" using in_rng assms(3) by (auto simp: range_of_def)
  then have inv: "ba_inv ?b" by (rule spec(1))
  have "m \<in> ba_bits ?b \<longleftrightarrow> m \<in> (ba_bits b - range_of a n) \<union> read_in a n inp" for m
  proof (cases "m \<in> bm_range b")
    case True
    from spec(2) [OF this] show ?thesis by (auto simp: range_of_def read_in_def)
  next
    case False
    then show ?thesis using rng in_rng by (auto simp: read_in_def)
  qed
  with inv hdr show ?thesis by blast
qed

interpretation ba_machine: gb_machine ext2fs_blkmap64_bitarray ba_inv ba_bits ba_behaviour
proof unfold_locales
  fix b :: "ba_private gen_bitmap_64" and a s t e r :: u64 and n :: u32 and inp out :: "u8 list" and i :: nat and b' err mem
  assume b: "ba_inv b"
  show "snd (ops_unmark_bmap ext2fs_blkmap64_bitarray b a) \<noteq> 0 \<longleftrightarrow> bh_unmark ba_behaviour (unat a) (ba_bits b)"
    if "in_bmap b a"
    using b that by (simp add: ext2fs_blkmap64_bitarray_def ba_behaviour_def ba_mark_bmap_simps ba_test_iff)
  show "ops_find_first_zero ext2fs_blkmap64_bitarray b s t =
      (case bh_zero ba_behaviour (ba_bits b) (unat s) (unat t) of None \<Rightarrow> Inl ENOENT | Some n \<Rightarrow> Inr (of_nat n))"
    if "in_bmap b s" "in_bmap b t" "s \<le> t"
    using ba_zero_first_in [OF b that] by (simp add: ext2fs_blkmap64_bitarray_def ba_behaviour_def)
  assume p: "bh_range_ok ba_behaviour (frame b) a n" "unat a + unat n \<le> Suc (unat (bm_real_end b))"
  { assume "0 < unat n" "(unat n + 7) div 8 \<le> length inp"
    with ba_set_range_marks [OF b _ _ p(2)] p(1)
    show "ba_inv (ops_set_bmap_range ext2fs_blkmap64_bitarray b a (ucast n) inp)
      \<and> ba_bits (ops_set_bmap_range ext2fs_blkmap64_bitarray b a (ucast n) inp)
        = bh_set ba_behaviour (range_of a n) (read_in a n inp) (ba_bits b)
      \<and> bm_hdr (ops_set_bmap_range ext2fs_blkmap64_bitarray b a (ucast n) inp) = bm_hdr b"
      by (simp add: ext2fs_blkmap64_bitarray_def ba_behaviour_def) }
  { assume o: "(unat n + 7) div 8 \<le> length out" "i < unat n"
    note al = byte_range_aligned [of b a n] and pb = ba_piece_bytes [OF o(1)]
    show "bit_at (ops_get_bmap_range ext2fs_blkmap64_bitarray b a (ucast n) out) i
      \<longleftrightarrow> bh_get ba_behaviour (ba_bits b) (unat a + i) (bit_at out i)"
      using ba_get_range_bits [OF b _ pb(3) _ _ pb(1), unfolded pb(2), OF _ o(2) p(2)] al p(1)
      by (simp add: ext2fs_blkmap64_bitarray_def ba_behaviour_def) }
qed (simp_all add: ba_behaviour_def)

section \<open>The red-black tree\<close>

lemma rb_empty_root:
  assumes "rb_inv b"
  shows "rb_bits b = {} \<longleftrightarrow> rb_root (rb_priv b) = Leaf"
proof
  assume "rb_bits b = {}"
  then have "rb_exts b = []" using assms rb_invD(2) [OF assms]
    by (cases "rb_exts b") (auto simp: rb_bits_def ext_bits_def exts_ok_def ext_ok_def)
  then show "rb_root (rb_priv b) = Leaf" using rb_state_Leaf [OF assms] by simp
next
  assume "rb_root (rb_priv b) = Leaf"
  then show "rb_bits b = {}" by (simp add: rb_bits_def rb_exts_def ext_bits_def)
qed

lemma rb_zero_first_in:
  assumes "rb_inv b" "in_bmap b s" "in_bmap b t" "s \<le> t"
  shows "rb_find_first_zero b s t =
    (case (if rb_bits b = {} then None else first_in (- rb_bits b) (unat s) (unat t)) of
       None \<Rightarrow> Inl ENOENT | Some n \<Rightarrow> Inr (of_nat n))"
proof (cases "rb_bits b = {}")
  case True
  moreover have "\<not> t - bm_start b < s - bm_start b"
    using assms(2-4) by (simp add: in_bmap_def word_less_nat_alt word_le_nat_alt unat_sub)
  ultimately show ?thesis using rb_empty_root [OF assms(1)]
    by (simp add: rb_find_first_zero_def Let_def cong: if_cong)
next
  case False
  from rb_find_first_zero_spec [OF assms False] show ?thesis
  proof (elim disjE exE conjE)
    fix x assume x: "rb_find_first_zero b s t = Inr x" "s \<le> x" "x \<le> t" "unat x \<notin> rb_bits b"
      "{unat s ..< unat x} \<subseteq> rb_bits b"
    then have "first_in (- rb_bits b) (unat s) (unat t) = Some (unat x)"
      by (intro first_in_Some) (auto simp: word_le_nat_alt)
    then show ?thesis using False by (simp add: x(1))
  next
    assume "rb_find_first_zero b s t = Inl ENOENT" "{unat s .. unat t} \<subseteq> rb_bits b"
    moreover from this have "first_in (- rb_bits b) (unat s) (unat t) = None" by (intro first_in_None) blast
    ultimately show ?thesis using False by simp
  qed
qed

interpretation rb_machine: gb_machine ext2fs_blkmap64_rbtree rb_inv rb_bits rb_behaviour
proof unfold_locales
  fix b :: "ext2fs_rb_private gen_bitmap_64" and a s t e r :: u64 and n :: u32 and inp out :: "u8 list" and i :: nat and b' err mem
  assume b: "rb_inv b"
  show "snd (ops_unmark_bmap ext2fs_blkmap64_rbtree b a) \<noteq> 0 \<longleftrightarrow> bh_unmark rb_behaviour (unat a) (rb_bits b)"
    if "in_bmap b a"
    using rb_unmark_bmap_spec(2) [OF b that] by (simp add: rb_table_simps rb_behaviour_def)
  show "ops_find_first_zero ext2fs_blkmap64_rbtree b s t =
      (case bh_zero rb_behaviour (rb_bits b) (unat s) (unat t) of None \<Rightarrow> Inl ENOENT | Some n \<Rightarrow> Inr (of_nat n))"
    if "in_bmap b s" "in_bmap b t" "s \<le> t"
    using rb_zero_first_in [OF b that] by (simp add: rb_table_simps rb_behaviour_def)
  { assume r: "bm_start b \<le> bm_end b" "bm_start b \<le> e" "e \<le> r" "unat r + 2 ^ 32 < 2 ^ 64"
      "ops_resize_bmap ext2fs_blkmap64_rbtree mem b e r = (b', err)"
    have err: "err = 0" using r(5) by (simp add: rb_table_simps rb_resize_bmap_def Let_def)
    have res: "rb_resize_bmap mem b e r = (b', 0)" using r(5) by (simp add: rb_table_simps err)
    have lim: "unat r - unat (bm_start b) < 2 ^ 64 - 1" using r(4) by simp
    have hdr: "bm_hdr (fst (rb_resize_bmap mem b e r)) = bm_hdr (b\<lparr>bm_end := e, bm_real_end := r\<rparr>)"
      by (simp add: rb_resize_bmap_def Let_def rb_put_def)
    show "err = 0 \<and> rb_inv b' \<and> bm_hdr b' = bm_hdr (b\<lparr>bm_end := e, bm_real_end := r\<rparr>)
      \<and> rb_bits b' = (rb_bits b \<inter> {.. min (unat (bm_end b)) (unat e)}) \<union> {Suc (unat e) .. unat r}"
      using rb_resize_spec [OF b r(1-3) lim res] err hdr by (simp add: res) }
  assume p: "bh_range_ok rb_behaviour (frame b) a n" "unat a + unat n \<le> Suc (unat (bm_real_end b))"
  then have a: "bm_start b \<le> a" by (simp add: rb_behaviour_def frame_def)
  { assume "unat n < 2 ^ 31"
    moreover have "unat (ucast n :: u64) = unat n" by (simp add: unat_ucast32_64)
    ultimately show "rb_inv (ops_set_bmap_range ext2fs_blkmap64_rbtree b a (ucast n) inp)
      \<and> rb_bits (ops_set_bmap_range ext2fs_blkmap64_rbtree b a (ucast n) inp)
        = bh_set rb_behaviour (range_of a n) (read_in a n inp) (rb_bits b)
      \<and> bm_hdr (ops_set_bmap_range ext2fs_blkmap64_rbtree b a (ucast n) inp) = bm_hdr b"
      using rb_set_range_spec [OF b a, of "ucast n" inp] p(2)
      by (auto simp: rb_table_simps rb_behaviour_def range_of_def read_in_def) }
  { assume o: "(unat n + 7) div 8 \<le> length out" "i < unat n"
    note pb = ba_piece_bytes [OF o(1)]
    show "bit_at (ops_get_bmap_range ext2fs_blkmap64_rbtree b a (ucast n) out) i
      \<longleftrightarrow> bh_get rb_behaviour (rb_bits b) (unat a + i) (bit_at out i)"
    proof (cases "rb_bits b = {}")
      case True
      then show ?thesis using rb_empty_root [OF b]
        by (simp add: rb_table_simps rb_behaviour_def rb_get_bmap_range_def)
    next
      case False
      from rb_get_range_spec [OF b this a _ pb(3,1), unfolded pb(2), OF p(2) o(2)] False
      show ?thesis by (simp add: rb_table_simps rb_behaviour_def)
    qed }
qed


section \<open>Where the two back ends can be told apart\<close>

text \<open>
  From the same state the answers differ exactly here: when a clear number before a marked one is
  unmarked, when a clear number is searched in an empty bitmap, and when a piece of an empty bitmap
  is written to a buffer that is not clear.
\<close>

definition told_apart :: "gb_op \<Rightarrow> gb_state \<Rightarrow> bool" where
  "told_apart op s =
     (let f = gs_frame s; S = gs_marks s
      in case op of
        Unmark a \<Rightarrow> fr_in f a \<and> unat (fr_cluster f a) \<notin> S \<and> Suc (unat (fr_cluster f a)) \<in> S
      | Find_zero a e \<Rightarrow> \<not> fr_bad f a e \<and> S = {}
      | Get_range a n out \<Rightarrow> S = {} \<and> (\<exists>i < unat n. bit_at out i)
      | _ \<Rightarrow> False)"

text \<open>The marks stay the same as long as no piece that is read in would take a mark away.\<close>

definition loses_mark :: "gb_op \<Rightarrow> gb_state \<Rightarrow> bool" where
  "loses_mark op s =
     (case op of Set_range a n inp \<Rightarrow> \<not> gs_marks s \<inter> range_of a n \<subseteq> read_in a n inp | _ \<Rightarrow> False)"

fun no_mark_lost :: "gb_state \<Rightarrow> gb_op list \<Rightarrow> bool" where
  "no_mark_lost s [] = True"
| "no_mark_lost s (op # opl) = (\<not> loses_mark op s \<and> no_mark_lost (fst (gb_spec ba_behaviour op s)) opl)"

lemma fr_cluster_mono:
  assumes "a \<le> e"
  shows "unat (fr_cluster f a) \<le> unat (fr_cluster f e)"
proof -
  have "drop_bit (fr_bits f) (unat a) \<le> drop_bit (fr_bits f) (unat e)"
    using assms by (simp add: drop_bit_eq_div div_le_mono word_le_nat_alt)
  then show ?thesis by (simp only: fr_cluster_def unat_drop_bit_eq)
qed

lemma first_in_UNIV: "lo \<le> hi \<Longrightarrow> first_in UNIV lo hi = Some lo"
  by (rule first_in_Some) simp_all

lemma spec_answers:
  "snd (gb_spec ba_behaviour op s) = snd (gb_spec rb_behaviour op s) \<longleftrightarrow> \<not> told_apart op s"
proof (cases op)
  case (Find_zero a e)
  show ?thesis
  proof (cases "fr_bad (gs_frame s) a e \<or> gs_marks s \<noteq> {}")
    case True
    then show ?thesis
      by (auto simp: Find_zero gb_spec_def told_apart_def ba_behaviour_def rb_behaviour_def find_answer_def Let_def)
  next
    case False
    then have "a \<le> e" by (auto simp: fr_bad_def not_less)
    then have "first_in UNIV (unat (fr_cluster (gs_frame s) a)) (unat (fr_cluster (gs_frame s) e))
        = Some (unat (fr_cluster (gs_frame s) a))"
      by (intro first_in_UNIV fr_cluster_mono)
    with False show ?thesis
      by (simp add: Find_zero gb_spec_def told_apart_def ba_behaviour_def rb_behaviour_def find_answer_def Let_def)
  qed
next
  case (Get_range a n out)
  then show ?thesis by (auto simp: gb_spec_def told_apart_def ba_behaviour_def rb_behaviour_def Let_def)
qed (auto simp: gb_spec_def told_apart_def ba_behaviour_def rb_behaviour_def Let_def)

lemma spec_states:
  assumes "\<not> loses_mark op s"
  shows "fst (gb_spec ba_behaviour op s) = fst (gb_spec rb_behaviour op s)"
proof (cases op)
  case (Set_range a n inp)
  then have "gs_marks s \<inter> range_of a n \<subseteq> read_in a n inp" using assms by (simp add: loses_mark_def)
  then have "gs_marks s - range_of a n \<union> read_in a n inp = gs_marks s \<union> read_in a n inp" by blast
  then show ?thesis by (simp add: Set_range gb_spec_def ba_behaviour_def rb_behaviour_def)
qed (simp_all add: gb_spec_def Let_def)

lemma op_ok_both: "op_ok ba_behaviour s op \<Longrightarrow> op_ok rb_behaviour s op"
  by (cases op) (simp_all add: op_ok_def piece_ok_def ba_behaviour_def rb_behaviour_def byte_range_def)

lemma ops_ok_both:
  assumes "ops_ok ba_behaviour s opl" "no_mark_lost s opl"
  shows "ops_ok rb_behaviour s opl"
  using assms
proof (induction opl arbitrary: s)
  case (Cons op opl)
  then have "fst (gb_spec rb_behaviour op s) = fst (gb_spec ba_behaviour op s)"
    using spec_states [of op s] by simp
  with Cons show ?case by (simp add: op_ok_both)
qed simp

lemma spec_runs:
  assumes "no_mark_lost s opl"
  shows "fst (run (gb_spec ba_behaviour) opl s) = fst (run (gb_spec rb_behaviour) opl s)
    \<and> (\<forall>i < length opl. snd (run (gb_spec ba_behaviour) opl s) ! i = snd (run (gb_spec rb_behaviour) opl s) ! i
          \<longleftrightarrow> \<not> told_apart (opl ! i) (fst (run (gb_spec ba_behaviour) (take i opl) s)))"
  using assms
proof (induction opl arbitrary: s)
  case (Cons op opl)
  let ?s = "fst (gb_spec ba_behaviour op s)"
  have s: "fst (gb_spec rb_behaviour op s) = ?s" using spec_states [of op s] Cons.prems by simp
  have IH: "fst (run (gb_spec ba_behaviour) opl ?s) = fst (run (gb_spec rb_behaviour) opl ?s)"
    "\<And>i. i < length opl \<Longrightarrow> snd (run (gb_spec ba_behaviour) opl ?s) ! i = snd (run (gb_spec rb_behaviour) opl ?s) ! i
       \<longleftrightarrow> \<not> told_apart (opl ! i) (fst (run (gb_spec ba_behaviour) (take i opl) ?s))"
    using Cons.IH [of ?s] Cons.prems by auto
  have "snd (run (gb_spec ba_behaviour) (op # opl) s) ! i = snd (run (gb_spec rb_behaviour) (op # opl) s) ! i
      \<longleftrightarrow> \<not> told_apart ((op # opl) ! i) (fst (run (gb_spec ba_behaviour) (take i (op # opl)) s))"
    if "i < length (op # opl)" for i
    using that spec_answers [of op s] IH(2) by (cases i) (simp_all add: case_prod_beta s)
  then show ?case using IH(1) by (simp add: case_prod_beta s)
qed simp

lemma both_runs:
  assumes "gb_refines ba_inv ba_bits b s" "gb_refines rb_inv rb_bits r s" "ops_ok ba_behaviour s opl"
    "no_mark_lost s opl"
  shows "ba_bits (fst (run (gb_step ext2fs_blkmap64_bitarray) opl b))
      = rb_bits (fst (run (gb_step ext2fs_blkmap64_rbtree) opl r))"
    "i < length opl \<Longrightarrow>
      snd (run (gb_step ext2fs_blkmap64_bitarray) opl b) ! i = snd (run (gb_step ext2fs_blkmap64_rbtree) opl r) ! i
      \<longleftrightarrow> \<not> told_apart (opl ! i) (fst (run (gb_spec ba_behaviour) (take i opl) s))"
proof -
  note ba = ba_machine.machine_run [OF assms(1,3)]
    and rb = rb_machine.machine_run [OF assms(2) ops_ok_both [OF assms(3,4)]]
  show "ba_bits (fst (run (gb_step ext2fs_blkmap64_bitarray) opl b))
      = rb_bits (fst (run (gb_step ext2fs_blkmap64_rbtree) opl r))"
    using ba rb spec_runs [OF assms(4)] by (simp add: gb_refines_def)
  show "snd (run (gb_step ext2fs_blkmap64_bitarray) opl b) ! i = snd (run (gb_step ext2fs_blkmap64_rbtree) opl r) ! i
      \<longleftrightarrow> \<not> told_apart (opl ! i) (fst (run (gb_spec ba_behaviour) (take i opl) s))" if "i < length opl"
    using ba rb spec_runs [OF assms(4)] that by simp
qed

end
