(* ===== verification/Bitmap_Examples.thy ===== *)
theory Bitmap_Examples
  imports Gen_bitmap64_Machine
begin

text \<open>
  Small concrete bitmaps over the numbers 0 to 15, one for each back end, on which the theorems of
  the development are applied; with the facts that they are well formed and what they hold.
\<close>

definition ex_mem :: allocator where
  "ex_mem n = Some (0, replicate n 255)"

lemma ex_mem [simp]: "alloc_sized ex_mem" "never_fails ex_mem"
  by (simp_all add: ex_mem_def alloc_sized_def never_fails_def)

definition ex_bmap :: "'p option \<Rightarrow> 'p gen_bitmap_64" where
  "ex_bmap p =
     \<lparr>bm_magic = EXT2_ET_MAGIC_GENERIC_BITMAP64, bm_start = 0, bm_end = 15, bm_real_end = 15,
      bm_cluster_bits = 0, bm_description = None, bm_private = p,
      bm_base_error_code = EXT2_ET_BAD_GENERIC_MARK\<rparr>"

lemma ex_bmap_simps [simp]:
  "bm_start (ex_bmap p) = 0" "bm_end (ex_bmap p) = 15" "bm_real_end (ex_bmap p) = 15"
  "bm_cluster_bits (ex_bmap p) = 0" "bm_private (ex_bmap p) = p" "is64 (ex_bmap p)"
  "gb_bounded (ex_bmap p)" "bm_wf (ex_bmap p)" "in_bmap (ex_bmap p) 4" "in_bmap (ex_bmap p) 0"
  "extent_in_bmap (ex_bmap p) 3 4"
  by (simp_all add: ex_bmap_def is64_def EXT2FS_IS_64_BITMAP_def gb_bounded_def bm_wf_def in_bmap_def
      extent_in_bmap_def)

section \<open>The bit array\<close>

definition ex_ba0 :: "ba_private gen_bitmap_64" where
  "ex_ba0 = ex_bmap (Some \<lparr>bitarray = [0, 0], bitarray_addr = 0\<rparr>)"

definition ex_ba1 :: "ba_private gen_bitmap_64" where
  "ex_ba1 = ba_mark_bmap_extent ex_ba0 3 4"

lemma ex_ba0: "ba_inv ex_ba0" "ba_bits ex_ba0 = {}" "bm_hdr ex_ba0 = ex_bmap None"
proof -
  have "[0, 0] ! (n div 8) = (0 :: u8)" if "n \<le> 15" for n
    using that by (cases "n div 8") (auto simp: nth_Cons split: nat.split)
  then show "ba_inv ex_ba0" "ba_bits ex_ba0 = {}" "bm_hdr ex_ba0 = ex_bmap None"
    by (auto simp: ex_ba0_def ba_inv_def ba_arr_def ba_size_def ba_bits_def bm_range_def bit_at_def
        bm_hdr_def ex_bmap_def)
qed

lemma extent_set_3_4: "extent_set 3 4 = {3, 4, 5, 6}"
  by (auto simp: extent_set_def)

lemma ex_hdr_facts:
  assumes "bm_hdr b = ex_bmap None"
  shows "bm_start b = 0" "bm_end b = 15" "bm_real_end b = 15" "bm_cluster_bits b = 0" "gb_bounded b"
    "in_bmap b 4" "in_bmap b 2" "in_bmap b 0" "in_bmap b 9" "extent_in_bmap b 3 4"
    "frame b = \<lparr>fr_start = 0, fr_end = 15, fr_bits = 0\<rparr>"
proof -
  have h: "bm_hdr b = bm_hdr (ex_bmap None)" using assms by (simp add: ex_bmap_def bm_hdr_def)
  show "bm_start b = 0" "bm_end b = 15" "bm_real_end b = 15" "bm_cluster_bits b = 0" "gb_bounded b"
    "in_bmap b 4" "in_bmap b 2" "in_bmap b 0" "in_bmap b 9" "extent_in_bmap b 3 4"
    "frame b = \<lparr>fr_start = 0, fr_end = 15, fr_bits = 0\<rparr>"
    by (simp_all add: bm_hdr_eqD [OF h] gb_bounded_hdr [OF h] in_bmap_def extent_in_bmap_def frame_def)
qed

lemma ex_ba1: "ba_inv ex_ba1" "ba_bits ex_ba1 = {3, 4, 5, 6}" "bm_hdr ex_ba1 = ex_bmap None"
  using ba_mark_extent_bits [OF ex_ba0(1), of 3 4] ex_hdr_facts [OF ex_ba0(3)] ex_ba0(2,3) extent_set_3_4
  by (simp_all add: ex_ba1_def ba_mark_bmap_extent_def)

section \<open>The red-black tree\<close>

definition ex_rb0 :: "ext2fs_rb_private gen_bitmap_64" where
  "ex_rb0 = ex_bmap (Some rb_empty_private)"

definition ex_rb1 :: "ext2fs_rb_private gen_bitmap_64" where
  "ex_rb1 = rb_mark_bmap_extent ex_rb0 3 4"

lemma ex_rb0: "rb_inv ex_rb0" "rb_bits ex_rb0 = {}" "bm_hdr ex_rb0 = ex_bmap None"
proof -
  show "rb_inv ex_rb0" "rb_bits ex_rb0 = {}"
    using rb_state_empty
    by (simp_all add: ex_rb0_def rb_inv_def rb_bits_def rb_exts_def rb_priv_def rb_empty_private_def
        exts_ok_def ext_bits_def)
  show "bm_hdr ex_rb0 = ex_bmap None" by (simp add: ex_rb0_def bm_hdr_def ex_bmap_def)
qed

lemma ex_rb1: "rb_inv ex_rb1" "rb_bits ex_rb1 = {3, 4, 5, 6}" "bm_hdr ex_rb1 = ex_bmap None"
  using rb_mark_extent_spec [OF ex_rb0(1), of 3 4] ex_hdr_facts [OF ex_rb0(3)] ex_rb0(2,3) extent_set_3_4
  by (simp_all add: ex_rb1_def)

lemmas ex_rb1_state = rb_invD(1,2) [OF ex_rb1(1)]

lemma ex_rb1_bits: "ext_bits (rb_exts ex_rb1) = {3, 4, 5, 6}"
proof -
  have "(+) (0 :: nat) ` ext_bits (rb_exts ex_rb1) = {3, 4, 5, 6}"
    using ex_rb1(2) ex_hdr_facts(1) [OF ex_rb1(3)] by (simp add: rb_bits_def)
  then show ?thesis by (simp add: image_def)
qed

lemma ex_refines:
  "gb_refines ba_inv ba_bits ex_ba1
     \<lparr>gs_frame = \<lparr>fr_start = 0, fr_end = 15, fr_bits = 0\<rparr>, gs_real_end = 15, gs_marks = {3, 4, 5, 6}\<rparr>"
  "gb_refines rb_inv rb_bits ex_rb1
     \<lparr>gs_frame = \<lparr>fr_start = 0, fr_end = 15, fr_bits = 0\<rparr>, gs_real_end = 15, gs_marks = {3, 4, 5, 6}\<rparr>"
  using ex_ba1 ex_rb1 ex_hdr_facts [OF ex_ba1(3)] ex_hdr_facts [OF ex_rb1(3)]
  by (simp_all add: gb_refines_def)

end
