(* ===== verification/Bitmap_Theorems.thy ===== *)
theory Bitmap_Theorems
  imports Bitmap_Examples
begin

text \<open>
  The main properties of the bitmaps: the agreement of the two back ends, the contracts of the
  red-black tree of extents, the balance of the tree, the range tests and the searches, and where
  the code departs from what its callers expect.
\<close>

section \<open>The generic bitmaps\<close>

text \<open>
  C1. From a bit array and a red-black tree with the same bounds, cluster size and marks, every
  sequence of operations ends with the same marks, and at every position the two answers are equal
  except exactly when a clear number whose successor is marked is unmarked, when a clear number is
  searched in an empty bitmap, and when a piece of an empty bitmap is written to a buffer that has
  bits set. The operations are mark, unmark and test of a number and of a range, both searches,
  reading and writing a whole-byte piece of the on-disk bitmap, clear, padding and copy; creation and
  resizing are not among them. No piece that is read in may take a mark away (the tree would keep
  it), block ranges are nonempty and memory does not run out.
\<close>

theorem gb_backends_agree:
  assumes "gb_refines ba_inv ba_bits b s" "gb_refines rb_inv rb_bits r s" "ops_ok ba_behaviour s opl"
    "no_mark_lost s opl"
  shows "ba_bits (fst (run (gb_step ext2fs_blkmap64_bitarray) opl b))
      = rb_bits (fst (run (gb_step ext2fs_blkmap64_rbtree) opl r))
    \<and> (\<forall>i < length opl.
          snd (run (gb_step ext2fs_blkmap64_bitarray) opl b) ! i = snd (run (gb_step ext2fs_blkmap64_rbtree) opl r) ! i
          \<longleftrightarrow> \<not> told_apart (opl ! i) (fst (run (gb_spec ba_behaviour) (take i opl) s)))"
  using both_runs [OF assms] by blast

theorem gb_backends_agree_witness:
  "ba_bits (fst (run (gb_step ext2fs_blkmap64_bitarray) [Mark 8, Unmark 2] ex_ba1))
     = rb_bits (fst (run (gb_step ext2fs_blkmap64_rbtree) [Mark 8, Unmark 2] ex_rb1))
   \<and> snd (run (gb_step ext2fs_blkmap64_bitarray) [Mark 8, Unmark 2] ex_ba1) ! 0
     = snd (run (gb_step ext2fs_blkmap64_rbtree) [Mark 8, Unmark 2] ex_rb1) ! 0
   \<and> snd (run (gb_step ext2fs_blkmap64_bitarray) [Mark 8, Unmark 2] ex_ba1) ! 1
     \<noteq> snd (run (gb_step ext2fs_blkmap64_rbtree) [Mark 8, Unmark 2] ex_rb1) ! 1"
proof -
  have ok: "ops_ok ba_behaviour s [Mark 8, Unmark 2]" "no_mark_lost s [Mark 8, Unmark 2]" for s
    by (simp_all add: op_ok_def loses_mark_def)
  note facts = gb_backends_agree [OF ex_refines ok]
  have "\<not> told_apart (Mark 8) s" for s by (simp add: told_apart_def)
  moreover have "told_apart (Unmark 2) (fst (gb_spec ba_behaviour (Mark 8)
      \<lparr>gs_frame = \<lparr>fr_start = 0, fr_end = 15, fr_bits = 0\<rparr>, gs_real_end = 15, gs_marks = {3, 4, 5, 6}\<rparr>))"
    by (simp add: told_apart_def gb_spec_def fr_in_def fr_cluster_def Let_def)
  moreover have "take 0 [Mark 8, Unmark 2] = []" "take 1 [Mark 8, Unmark 2] = [Mark 8]" by simp_all
  moreover have "fst (run step [op] s) = fst (step op s)" for step :: "gb_op \<Rightarrow> gb_state \<Rightarrow> _" and op s
    by (simp add: case_prod_beta)
  ultimately show ?thesis
    using conjunct1 [OF facts] spec [OF conjunct2 [OF facts], of 0] spec [OF conjunct2 [OF facts], of 1]
    by (simp del: run.simps)
qed

text \<open>
  C2. Every operation of the red-black back end (those of C1 and resizing) is the operation of the
  abstract machine of its behaviour: the invariant is kept, the bounds and marks change as
  specified, and the answer is the specified one, with what unmarking really reports, the failed
  search in an empty tree, the reading of a piece that only adds marks and the writing that leaves
  the buffer alone when the tree is empty.
\<close>

theorem gb_rbtree_refines:
  assumes "gb_refines rb_inv rb_bits b s" "op_ok rb_behaviour s op"
  shows "gb_refines rb_inv rb_bits (fst (gb_step ext2fs_blkmap64_rbtree op b)) (fst (gb_spec rb_behaviour op s))
    \<and> snd (gb_step ext2fs_blkmap64_rbtree op b) = snd (gb_spec rb_behaviour op s)"
  using rb_machine.machine_step [OF assms] by (simp add: rb_machine.implements_def)

theorem gb_rbtree_refines_witness:
  "snd (gb_step ext2fs_blkmap64_rbtree (Unmark 2) ex_rb1) = Bit True
   \<and> rb_bits (fst (gb_step ext2fs_blkmap64_rbtree (Resize ex_mem 4 7) ex_rb1)) = {3, 4, 5, 6, 7}"
proof -
  note rm = gb_rbtree_refines [OF ex_refines(2), of "Resize ex_mem 4 7"]
    and un = gb_rbtree_refines [OF ex_refines(2), of "Unmark 2"]
  have "({3, 4, 5, 6} :: nat set) \<inter> {.. min 15 4} \<union> {Suc 4 .. 7} = {3, 4, 5, 6, 7}" by auto
  then have "rb_bits (fst (gb_step ext2fs_blkmap64_rbtree (Resize ex_mem 4 7) ex_rb1)) = {3, 4, 5, 6, 7}"
    using rm by (simp add: op_ok_def rb_behaviour_def gb_refines_def gb_spec_def Let_def)
  moreover have "snd (gb_step ext2fs_blkmap64_rbtree (Unmark 2) ex_rb1) = Bit True"
    using un by (simp add: op_ok_def gb_spec_def rb_behaviour_def fr_in_def fr_cluster_def Let_def)
  ultimately show ?thesis by simp
qed

text \<open>
  C3. A block range is converted to the clusters that hold at least one of its blocks, for every
  cluster size up to \<open>2 ^ 31\<close> blocks.
\<close>

theorem cluster_range_exact:
  assumes "bm_cluster_bits b < 32" "0 < unat num" "unat blk + unat num + 2 ^ 32 \<le> 2 ^ 64"
    "cluster_extent b blk num = (k, n)"
  shows "extent_set k n = (\<lambda>m. m div 2 ^ bm_cluster_bits b) ` {unat blk ..< unat blk + unat num}"
  using cluster_extent_covers(1) [OF assms] .

theorem cluster_range_exact_witness:
  "extent_set 5 2 = (\<lambda>m. m div 2 ^ 0) ` {unat (5 :: u64) ..< unat (5 :: u64) + unat (2 :: u32)}"
  using cluster_range_exact [of "ex_bmap None" 2 5 5 2] by (simp add: cluster_extent_def)

section \<open>The red-black tree of extents\<close>

text \<open>
  C4. \<open>rb_insert_extent\<close> keeps the tree balanced, ordered and free of overlapping or adjacent
  extents, keeps the cursors valid, and adds exactly the numbers of the extent.
\<close>

theorem rb_insert_extent_correct:
  assumes "rb_state bp xs" "exts_ok xs" "unat s + unat c < 2 ^ 64"
  shows "\<exists>zs. rb_state (fst (rb_insert_extent s c bp)) zs \<and> exts_ok zs
      \<and> ext_bits zs = ext_bits xs \<union> {unat s ..< unat s + unat c}"
  using rb_insert_extent_spec(1) [OF assms] .

theorem rb_insert_extent_correct_witness:
  "\<exists>zs. rb_state (fst (rb_insert_extent 1 3 (rb_priv ex_rb1))) zs \<and> exts_ok zs
     \<and> ext_bits zs = {3, 4, 5, 6} \<union> {unat (1 :: u64) ..< unat (1 :: u64) + unat (3 :: u64)}"
  using rb_insert_extent_correct [OF ex_rb1_state, of 1 3] unfolding ex_rb1_bits by simp

text \<open>
  C5. \<open>rb_remove_extent\<close> keeps the same invariants, cutting or splitting extents as needed, and
  takes away exactly the numbers of the extent.
\<close>

theorem rb_remove_extent_correct:
  assumes "rb_state bp xs" "exts_ok xs" "unat s + unat c < 2 ^ 64"
  shows "\<exists>zs. rb_state (fst (rb_remove_extent s c bp)) zs \<and> exts_ok zs
      \<and> ext_bits zs = ext_bits xs - {unat s ..< unat s + unat c}"
  using rb_remove_extent_spec(1) [OF assms] .

theorem rb_remove_extent_correct_witness:
  "\<exists>zs. rb_state (fst (rb_remove_extent 4 1 (rb_priv ex_rb1))) zs \<and> exts_ok zs
     \<and> ext_bits zs = {3, 4, 5, 6} - {unat (4 :: u64) ..< unat (4 :: u64) + unat (1 :: u64)}"
  using rb_remove_extent_correct [OF ex_rb1_state, of 4 1] unfolding ex_rb1_bits by simp

text \<open>
  Unmarking reports more than the old bit: the answer is nonzero when the number was marked or
  the next one is, because the second loop of \<open>rb_remove_extent\<close> stops one extent too late.
\<close>

theorem rb_unmark_answer:
  assumes "rb_inv b" "in_bmap b a"
  shows "snd (rb_unmark_bmap b a) \<noteq> 0 \<longleftrightarrow> unat a \<in> rb_bits b \<or> Suc (unat a) \<in> rb_bits b"
  using rb_unmark_bmap_spec(2) [OF assms] .

theorem rb_unmark_answer_witness:
  "unat (2 :: u64) \<notin> rb_bits ex_rb1 \<and> snd (rb_unmark_bmap ex_rb1 2) \<noteq> 0"
  using rb_unmark_answer [OF ex_rb1(1) ex_hdr_facts(7) [OF ex_rb1(3)]] ex_rb1(2) by simp

text \<open>
  C7. Inserting a red node and calling \<open>ext2fs_rb_insert_color\<close> gives a red-black tree again:
  black root, no red node with a red child, equal black heights.
\<close>

theorem rb_insert_color_balanced:
  assumes "rbt (rb_zip path Leaf)"
  shows "rbt (ext2fs_rb_insert_color (ext2fs_rb_link_node x) path)"
proof -
  have "path_height path 0 \<and> path_color path False" using assms by (simp add: rbt_zip)
  then show ?thesis by (intro rbt_insert_color) (simp_all add: ext2fs_rb_link_node_def)
qed

theorem rb_insert_color_balanced_witness:
  "rbt (ext2fs_rb_insert_color (ext2fs_rb_link_node (1 :: nat)) [LeftOf RB_BLACK 2 Leaf])"
  using rb_insert_color_balanced [of "[LeftOf RB_BLACK 2 Leaf]" "1 :: nat"] by (simp add: rbt_def)

text \<open>
  C8. \<open>ext2fs_rb_erase\<close> removes one node: the tree stays a red-black tree and the other nodes keep
  their order.
\<close>

theorem rb_erase_balanced:
  assumes "rbt (rb_zip path (Node c l x r))"
  shows "rbt (ext2fs_rb_erase (Node c l x r) path)
    \<and> rb_inorder (ext2fs_rb_erase (Node c l x r) path)
      = path_before path @ rb_inorder l @ rb_inorder r @ path_after path"
  using rbt_erase [OF assms] inorder_erase [of c l x r path] by simp

theorem rb_erase_balanced_witness:
  "rb_inorder (ext2fs_rb_erase (Node RB_BLACK (Node RB_RED Leaf (1 :: nat) Leaf) 2 Leaf) []) = [1]"
  using rb_erase_balanced [of "[]" RB_BLACK "Node RB_RED Leaf (1 :: nat) Leaf" 2 Leaf]
  by (simp add: rbt_def)

text \<open>
  The test of a range in the tree answers nonzero exactly when no number of the range is marked.
\<close>

theorem rb_test_clear_exact:
  assumes "rb_inv b" "extent_in_bmap b a num" "0 < num"
  shows "rb_test_clear_bmap_extent b a num \<noteq> 0 \<longleftrightarrow> rb_bits b \<inter> extent_set a num = {}"
  using rb_test_clear_spec [OF assms] .

theorem rb_test_clear_exact_witness: "rb_test_clear_bmap_extent ex_rb1 3 4 = 0"
  using rb_test_clear_exact [OF ex_rb1(1) ex_hdr_facts(10) [OF ex_rb1(3)]] ex_rb1(2) extent_set_3_4
  by fastforce

text \<open>
  The search for the first clear number in the tree finds the smallest one, or reports
  \<open>ENOENT\<close> when the whole range is marked, provided the tree is not empty.
\<close>

theorem rb_find_first_zero_correct:
  assumes "rb_inv b" "in_bmap b s" "in_bmap b t" "s \<le> t" "rb_bits b \<noteq> {}"
  shows "(\<exists>x. rb_find_first_zero b s t = Inr x \<and> s \<le> x \<and> x \<le> t \<and> unat x \<notin> rb_bits b
           \<and> {unat s ..< unat x} \<subseteq> rb_bits b)
       \<or> rb_find_first_zero b s t = Inl ENOENT \<and> {unat s .. unat t} \<subseteq> rb_bits b"
  using rb_find_first_zero_spec [OF assms] .

theorem rb_find_first_zero_correct_witness: "rb_find_first_zero ex_rb1 0 0 = Inr 0"
  using rb_find_first_zero_correct [OF ex_rb1(1) ex_hdr_facts(8) [OF ex_rb1(3)] ex_hdr_facts(8) [OF ex_rb1(3)]]
    ex_rb1(2) by auto

text \<open>
  C11. On an empty tree the search for a clear number fails, although every number is clear; the bit
  array finds the start of the range there.
\<close>

theorem find_first_zero_empty:
  assumes "rb_inv r" "rb_bits r = {}" "ba_inv b" "ba_bits b = {}" "in_bmap b s" "in_bmap b e" "s \<le> e"
    "in_bmap r s" "in_bmap r e"
  shows "rb_find_first_zero r s e = Inl ENOENT \<and> ba_find_first_zero b s e = Inr s"
proof -
  have "rb_exts r = []" using assms(1,2) rb_invD(2) [OF assms(1)]
    by (cases "rb_exts r") (auto simp: rb_bits_def ext_bits_def exts_ok_def ext_ok_def)
  then have "rb_root (rb_priv r) = Leaf" using rb_state_Leaf [OF assms(1)] by simp
  moreover have "\<not> e - bm_start r < s - bm_start r"
    using assms(7-9) by (simp add: in_bmap_def word_less_nat_alt word_le_nat_alt unat_sub)
  ultimately have r: "rb_find_first_zero r s e = Inl ENOENT"
    by (simp add: rb_find_first_zero_def Let_def cong: if_cong)
  have "case ba_find_first False b s e of
      Inr x \<Rightarrow> s \<le> x \<and> (\<forall>n. unat s \<le> n \<and> n < unat x \<longrightarrow> n \<in> ba_bits b)
    | Inl err \<Rightarrow> (\<forall>n. unat s \<le> n \<and> n \<le> unat e \<longrightarrow> n \<in> ba_bits b)"
    using ba_find_first_spec [OF assms(3,5-7), of False] by (auto split: sum.splits)
  then have "ba_find_first False b s e = Inr s"
    using assms(4,7) by (auto simp: word_le_nat_alt word_unat_eq_iff not_less intro: le_antisym split: sum.splits)
  with r show ?thesis by (simp add: ba_find_first_zero_def)
qed

theorem find_first_zero_empty_witness:
  "rb_find_first_zero ex_rb0 0 4 = Inl ENOENT \<and> ba_find_first_zero ex_ba0 0 4 = Inr 0"
  using find_first_zero_empty [OF ex_rb0(1,2) ex_ba0(1,2) ex_hdr_facts(8) [OF ex_ba0(3)]
      ex_hdr_facts(6) [OF ex_ba0(3)] _ ex_hdr_facts(8) [OF ex_rb0(3)] ex_hdr_facts(6) [OF ex_rb0(3)]] by simp

text \<open>
  Resizing a red-black bitmap keeps the marks up to the smaller of the two ends, forgets the
  rest, and marks all padding between the new end and the new real end.
\<close>

theorem rb_resize_correct:
  assumes "rb_inv b" "bm_start b \<le> bm_end b" "bm_start b \<le> new_end" "new_end \<le> new_real_end"
    "unat new_real_end - unat (bm_start b) < 2 ^ 64 - 1"
    "rb_resize_bmap mem b new_end new_real_end = (b', 0)"
  shows "rb_inv b' \<and> bm_end b' = new_end \<and> bm_real_end b' = new_real_end
    \<and> rb_bits b' = (rb_bits b \<inter> {.. min (unat (bm_end b)) (unat new_end)})
       \<union> {Suc (unat new_end) .. unat new_real_end}"
  using rb_resize_spec [OF assms] by blast

theorem rb_resize_correct_witness:
  "rb_bits (fst (rb_resize_bmap ex_mem ex_rb1 4 7)) = {3, 4, 5, 6, 7}"
proof -
  obtain b' where b': "rb_resize_bmap ex_mem ex_rb1 4 7 = (b', 0)" by (simp add: rb_resize_bmap_def Let_def)
  have "rb_bits b' = (rb_bits ex_rb1 \<inter> {.. min 15 4}) \<union> {Suc 4 .. 7}"
    using rb_resize_correct [OF ex_rb1(1) _ _ _ _ b'] ex_hdr_facts [OF ex_rb1(3)] by simp
  then show ?thesis using b' ex_rb1(2) by auto
qed

text \<open>
  Copying a red-black bitmap gives an independent bitmap with the same marks and the header its
  caller prepared, leaves the marks of the source alone, and fails only when memory runs out.
\<close>

theorem rb_copy_correct:
  assumes "rb_inv src" "bm_same_geometry src dest" "rb_copy_bmap mem src dest = (src', res)"
  shows "rb_inv src' \<and> rb_bits src' = rb_bits src
    \<and> (case res of Inl err \<Rightarrow> err = EXT2_ET_NO_MEMORY
         | Inr dest' \<Rightarrow> rb_inv dest' \<and> rb_bits dest' = rb_bits src \<and> bm_hdr dest' = bm_hdr dest)"
  using rb_copy_spec(1) [OF assms(1,3)] rb_copy_spec(2) [OF assms(1,3)] rb_copy_spec(3) [OF assms(1,3) _ assms(2)]
  by (cases res) simp_all

theorem rb_copy_correct_witness: "rb_bits (fst (rb_copy_bmap ex_mem ex_rb1 (ex_bmap None))) = {3, 4, 5, 6}"
proof -
  obtain src' res where c: "rb_copy_bmap ex_mem ex_rb1 (ex_bmap None) = (src', res)" by (cases "rb_copy_bmap ex_mem ex_rb1 (ex_bmap None)")
  have "bm_same_geometry ex_rb1 (ex_bmap None)"
    using ex_hdr_facts [OF ex_rb1(3)] by (simp add: bm_same_geometry_def)
  from rb_copy_correct [OF ex_rb1(1) this c] c ex_rb1(2) show ?thesis by simp
qed

text \<open>
  Reading a bitmap block into a red-black bitmap (\<open>set_bmap_range\<close>) adds exactly the numbers
  whose bits are set in the buffer; it clears none.
\<close>

theorem rb_set_range_correct:
  assumes "rb_inv b" "bm_start b \<le> start" "unat start + unat num \<le> Suc (unat (bm_real_end b))"
    "unat num < 2 ^ 31"
  shows "rb_inv (rb_set_bmap_range b start num inp)
    \<and> rb_bits (rb_set_bmap_range b start num inp)
      = rb_bits b \<union> {n. unat start \<le> n \<and> n < unat start + unat num \<and> bit_at inp (n - unat start)}"
proof -
  have "unat num < 2 ^ 32" using assms(4) by simp
  from rb_set_range_spec [OF assms(1-3) this] show ?thesis by blast
qed

theorem rb_set_range_correct_witness:
  "rb_bits (rb_set_bmap_range ex_rb1 8 8 [0]) = {3, 4, 5, 6}"
proof -
  have z: "\<not> bit_at [0] (n - 8)" if "n < 16" for n
  proof -
    have "(n - 8) div 8 = 0" using that by simp
    then show ?thesis by (simp add: bit_at_def)
  qed
  show ?thesis
    using rb_set_range_correct [OF ex_rb1(1), of 8 8 "[0]"] ex_hdr_facts [OF ex_rb1(3)] ex_rb1(2) z by auto
qed

text \<open>
  Writing a bitmap block from a nonempty red-black bitmap (\<open>get_bmap_range\<close>) sets bit \<open>n\<close> of the
  buffer exactly when the number \<open>start + n\<close> is marked, whatever the buffer held before.
\<close>

theorem rb_get_range_correct:
  assumes "rb_inv b" "rb_bits b \<noteq> {}" "bm_start b \<le> start"
    "unat start + unat num \<le> Suc (unat (bm_real_end b))" "unat num < 2 ^ 31"
    "unat (drop_bit 3 (num + 7)) \<le> length out" "n < unat num"
  shows "bit_at (rb_get_bmap_range b start num out) n \<longleftrightarrow> unat start + n \<in> rb_bits b"
proof -
  have "unat num < 2 ^ 64 - 8" using assms(5) by simp
  from rb_get_range_spec [OF assms(1-4) this assms(6,7)] show ?thesis .
qed

theorem rb_get_range_correct_witness:
  "bit_at (rb_get_bmap_range ex_rb1 0 16 [255, 255]) 3 \<and> \<not> bit_at (rb_get_bmap_range ex_rb1 0 16 [255, 255]) 9"
  using rb_get_range_correct [OF ex_rb1(1), of 0 16 "[255, 255]" 3]
    rb_get_range_correct [OF ex_rb1(1), of 0 16 "[255, 255]" 9] ex_rb1(2) ex_hdr_facts [OF ex_rb1(3)]
  by simp

section \<open>The bit array\<close>

text \<open>
  The word-wise, aligned searches of the bit array return the first number with the wanted bit,
  or \<open>ENOENT\<close> when there is none in the range.
\<close>

theorem ba_find_first_correct:
  assumes "ba_inv b" "in_bmap b s" "in_bmap b e" "s \<le> e"
  shows "case ba_find_first want b s e of
      Inr x \<Rightarrow> s \<le> x \<and> x \<le> e \<and> (unat x \<in> ba_bits b) = want \<and>
              (\<forall>n. unat s \<le> n \<and> n < unat x \<longrightarrow> (n \<in> ba_bits b) \<noteq> want)
    | Inl err \<Rightarrow> err = ENOENT \<and> (\<forall>n. unat s \<le> n \<and> n \<le> unat e \<longrightarrow> (n \<in> ba_bits b) \<noteq> want)"
  using ba_find_first_spec [OF assms] .

theorem ba_find_first_correct_witness: "ba_find_first True ex_ba1 4 4 = Inr 4"
  using ba_find_first_correct [OF ex_ba1(1) ex_hdr_facts(6) [OF ex_ba1(3)] ex_hdr_facts(6) [OF ex_ba1(3)],
      of True] ex_ba1(2) by (cases "ba_find_first True ex_ba1 4 4") auto

text \<open>
  C17. \<open>ext2fs_test_bits_range\<close>, with its partial first and last bytes and its comparison with a
  block of zeros, answers nonzero exactly when every bit of the range is clear.
\<close>

theorem test_clear_bits_exact:
  assumes "unat start + unat len \<le> 8 * length ADDR" "unat start + unat len \<le> 2 ^ 64"
  shows "test_clear_bits ADDR start len \<noteq> 0 \<longleftrightarrow> (\<forall>k. unat start \<le> k \<and> k < unat start + unat len \<longrightarrow> \<not> bit_at ADDR k)"
  using test_clear_bits_iff [OF assms] by (simp add: bits_clear_def)

theorem test_clear_bits_exact_witness: "test_clear_bits [7, 0, 128] 3 20 \<noteq> 0"
proof -
  have "\<not> bit_at [7, 0, 128] k" if "3 \<le> k" "k < 23" for k
  proof -
    have k: "k \<in> set [3 ..< 23]" using that by (simp only: set_upt atLeastLessThan_iff)
    have "\<forall>k \<in> set [3 ..< 23]. \<not> bit_at [7, 0, 128] k" by code_simp
    with k show ?thesis by blast
  qed
  then show ?thesis using test_clear_bits_exact [of 3 20 "[7, 0, 128]"] by auto
qed

text \<open>
  Resizing a bit array keeps the marks up to the smaller end and adds none below the new end,
  provided no stale bit lies after the old real end.
\<close>

theorem ba_resize_correct:
  assumes "ba_inv b" "ba_tidy b" "alloc_sized mem" "bm_start b \<le> new_end" "new_end \<le> new_real_end"
    "unat new_real_end - unat (bm_start b) < 2 ^ 64 - 1"
    "ba_resize_bmap mem b new_end new_real_end = (b', 0)"
  shows "ba_inv b' \<and> bm_end b' = new_end \<and> bm_real_end b' = new_real_end
    \<and> ba_bits b' \<inter> {.. unat new_end} = ba_bits b \<inter> {.. min (unat (bm_end b)) (unat new_end)}"
  using ba_resize_spec [OF assms] by blast

theorem ba_resize_correct_witness:
  "ba_bits (fst (ba_resize_bmap ex_mem ex_ba1 4 15)) \<inter> {.. 4} = {3, 4}"
proof -
  obtain b' where b': "ba_resize_bmap ex_mem ex_ba1 4 15 = (b', 0)"
    using ex_hdr_facts [OF ex_ba1(3)] by (simp add: ba_resize_bmap_def Let_def)
  have "ba_tidy ex_ba1"
    using ex_ba1(1) ex_hdr_facts [OF ex_ba1(3)] by (simp add: ba_tidy_def ba_inv_def ba_size_def)
  from ba_resize_correct [OF ex_ba1(1) this ex_mem(1) _ _ _ b'] ex_hdr_facts [OF ex_ba1(3)] ex_ba1(2) b'
  show ?thesis by auto
qed

text \<open>
  C19. The proviso of the resize is needed. For every bit array, end \<open>e\<close> and marked number \<open>x\<close>
  after \<open>e\<close> in the same byte: after shrinking to \<open>e\<close> the number is not marked, and after growing
  again to an end \<open>y\<close> at or after \<open>x\<close> it is marked and inside the bounds, although no
  operation marked it.
\<close>

theorem ba_resize_resurrects:
  assumes "ba_inv b" "alloc_sized mem" "bm_start b \<le> e" "e < x" "x \<le> y" "x \<le> bm_end b"
    "(unat x - unat (bm_start b)) div 8 = (unat e - unat (bm_start b)) div 8"
    "unat y - unat (bm_start b) < 2 ^ 64 - 1" "unat x \<in> ba_bits b"
    "ba_resize_bmap mem b e e = (b1, 0)" "ba_resize_bmap mem b1 y y = (b2, 0)"
  shows "bm_end b1 = e \<and> unat x \<notin> ba_bits b1 \<and> bm_end b2 = y \<and> unat x \<in> ba_bits b2"
  using ba_resize_stale [OF assms(1-8,10,11)] assms(9) by simp

theorem ba_resize_resurrects_witness:
  "\<exists>b1 b2. ba_resize_bmap ex_mem ex_ba1 4 4 = (b1, 0) \<and> ba_resize_bmap ex_mem b1 15 15 = (b2, 0)
     \<and> bm_end b1 = 4 \<and> 6 \<notin> ba_bits b1 \<and> bm_end b2 = 15 \<and> 6 \<in> ba_bits b2"
proof -
  have ok: "snd (ba_resize_bmap ex_mem b y y) = 0" for b y
    by (auto simp: ba_resize_bmap_def Let_def ext2fs_resize_mem_def e2fsmac_realloc_def ex_mem_def
        split: sum.split option.split)
  obtain b1 where b1: "ba_resize_bmap ex_mem ex_ba1 4 4 = (b1, 0)"
    using ok [of ex_ba1 4] by (cases "ba_resize_bmap ex_mem ex_ba1 4 4") simp
  obtain b2 where b2: "ba_resize_bmap ex_mem b1 15 15 = (b2, 0)"
    using ok [of b1 15] by (cases "ba_resize_bmap ex_mem b1 15 15") simp
  show ?thesis
    using ba_resize_resurrects [OF ex_ba1(1) ex_mem(1) _ _ _ _ _ _ _ b1 b2, of 6] b1 b2
      ex_hdr_facts [OF ex_ba1(3)] ex_ba1(2) by simp
qed

text \<open>
  Writing a bitmap block from a bit array gives the marks of the range, when the bitmap starts
  below 8 and the range begins a whole number of bytes after it.
\<close>

theorem ba_get_range_correct:
  assumes "ba_inv b" "byte_aligned b start" "unat num < 2 ^ 64 - 8" "i < unat num"
    "unat start + unat num \<le> Suc (unat (bm_real_end b))" "unat (drop_bit 3 (num + 7)) \<le> length out"
  shows "bit_at (ba_get_bmap_range b start num out) i \<longleftrightarrow> unat start + i \<in> ba_bits b"
  using ba_get_range_bits [OF assms] .

theorem ba_get_range_correct_witness: "bit_at (ba_get_bmap_range ex_ba1 0 16 [0, 0]) 3"
  using ba_get_range_correct [OF ex_ba1(1), of 0 16 3 "[0, 0]"] ex_ba1(2) ex_hdr_facts [OF ex_ba1(3)]
  by (simp add: byte_aligned_def)

end
