(* ===== verification/Fs_Examples.thy ===== *)
theory Fs_Examples
  imports Blknum
begin

text \<open>
  A small concrete file system, 20 blocks from block 1 on in three groups of eight, on which the
  theorems about the geometry and the counters are applied.
\<close>

definition zero_super :: ext2_super_block where
  "zero_super =
     \<lparr>s_inodes_count = 0, s_blocks_count = 0, s_r_blocks_count = 0, s_free_blocks_count = 0,
      s_free_inodes_count = 0, s_first_data_block = 0, s_log_block_size = 0,
      s_log_cluster_size = 0, s_blocks_per_group = 0, s_clusters_per_group = 0,
      s_inodes_per_group = 0, s_mtime = 0, s_wtime = 0, s_mnt_count = 0, s_max_mnt_count = 0,
      s_magic = 0, s_state = 0, s_errors = 0, s_minor_rev_level = 0, s_lastcheck = 0,
      s_checkinterval = 0, s_creator_os = 0, s_rev_level = 0, s_def_resuid = 0, s_def_resgid = 0,
      s_first_ino = 0, s_inode_size = 0, s_block_group_nr = 0, s_feature_compat = 0,
      s_feature_incompat = 0, s_feature_ro_compat = 0, s_uuid = [], s_volume_name = [],
      s_last_mounted = [], s_algorithm_usage_bitmap = 0, s_prealloc_blocks = 0,
      s_prealloc_dir_blocks = 0, s_reserved_gdt_blocks = 0, s_journal_uuid = [],
      s_journal_inum = 0, s_journal_dev = 0, s_last_orphan = 0, s_hash_seed = [],
      s_def_hash_version = 0, s_jnl_backup_type = 0, s_desc_size = 0, s_default_mount_opts = 0,
      s_first_meta_bg = 0, s_mkfs_time = 0, s_jnl_blocks = [], s_blocks_count_hi = 0,
      s_r_blocks_count_hi = 0, s_free_blocks_hi = 0, s_min_extra_isize = 0,
      s_want_extra_isize = 0, s_flags = 0, s_raid_stride = 0, s_mmp_update_interval = 0,
      s_mmp_block = 0, s_raid_stripe_width = 0, s_log_groups_per_flex = 0, s_checksum_type = 0,
      s_encryption_level = 0, s_reserved_pad = 0, s_kbytes_written = 0, s_snapshot_inum = 0,
      s_snapshot_id = 0, s_snapshot_r_blocks_count = 0, s_snapshot_list = 0, s_error_count = 0,
      s_first_error_time = 0, s_first_error_ino = 0, s_first_error_block = 0,
      s_first_error_func = [], s_first_error_line = 0, s_last_error_time = 0,
      s_last_error_ino = 0, s_last_error_line = 0, s_last_error_block = 0,
      s_last_error_func = [], s_mount_opts = [], s_usr_quota_inum = 0, s_grp_quota_inum = 0,
      s_overhead_clusters = 0, s_backup_bgs = [], s_encrypt_algos = [], s_encrypt_pw_salt = [],
      s_lpf_ino = 0, s_prj_quota_inum = 0, s_checksum_seed = 0, s_wtime_hi = 0, s_mtime_hi = 0,
      s_mkfs_time_hi = 0, s_lastcheck_hi = 0, s_first_error_time_hi = 0,
      s_last_error_time_hi = 0, s_first_error_errcode = 0, s_last_error_errcode = 0,
      s_encoding = 0, s_encoding_flags = 0, s_orphan_file_inum = 0, s_reserved = [],
      s_checksum = 0\<rparr>"

definition zero_desc :: ext4_group_desc where
  "zero_desc =
     \<lparr>bg_block_bitmap = 0, bg_inode_bitmap = 0, bg_inode_table = 0, bg_free_blocks_count = 0,
      bg_free_inodes_count = 0, bg_used_dirs_count = 0, bg_flags = 0, bg_exclude_bitmap_lo = 0,
      bg_block_bitmap_csum_lo = 0, bg_inode_bitmap_csum_lo = 0, bg_itable_unused = 0,
      bg_checksum = 0, bg_block_bitmap_hi = 0, bg_inode_bitmap_hi = 0, bg_inode_table_hi = 0,
      bg_free_blocks_count_hi = 0, bg_free_inodes_count_hi = 0, bg_used_dirs_count_hi = 0,
      bg_itable_unused_hi = 0, bg_exclude_bitmap_hi = 0, bg_block_bitmap_csum_hi = 0,
      bg_inode_bitmap_csum_hi = 0, bg_reserved = 0\<rparr>"

definition zero_inode :: ext2_inode where
  "zero_inode =
     \<lparr>i_mode = 0, i_uid = 0, i_size = 0, i_atime = 0, i_ctime = 0, i_mtime = 0, i_dtime = 0,
      i_gid = 0, i_links_count = 0, i_blocks = 0, i_flags = 0, l_i_version = 0, i_block = [],
      i_generation = 0, i_file_acl = 0, i_size_high = 0, i_faddr = 0, l_i_blocks_hi = 0,
      l_i_file_acl_high = 0, l_i_uid_high = 0, l_i_gid_high = 0, l_i_checksum_lo = 0,
      l_i_reserved = 0\<rparr>"

definition ex_super :: ext2_super_block where
  "ex_super = zero_super\<lparr>s_blocks_count := 21, s_first_data_block := 1, s_blocks_per_group := 8,
     s_inodes_per_group := 16, s_inodes_count := 48, s_feature_incompat := 128, s_desc_size := 64\<rparr>"

definition ex_fs :: fs_base where
  "ex_fs = \<lparr>fs_magic = EXT2_ET_MAGIC_EXT2FS_FILSYS, fs_flags = 0, fs_super = ex_super,
     fs_blocksize = 1024, fs_group_desc_count = 3, fs_desc_blocks = 1,
     fs_group_desc = [zero_desc, zero_desc, zero_desc], fs_inode_blocks_per_group = 2,
     fs_cluster_ratio_bits = 0, fs_default_bitmap_type = 0, fs_csum_seed = 0\<rparr>"

lemma ex_super_simps [simp]:
  "s_blocks_count ex_super = 21" "s_blocks_count_hi ex_super = 0" "s_first_data_block ex_super = 1"
  "s_blocks_per_group ex_super = 8" "s_inodes_per_group ex_super = 16" "s_inodes_count ex_super = 48"
  "s_feature_incompat ex_super = 128" "s_feature_compat ex_super = 0" "s_feature_ro_compat ex_super = 0"
  "s_desc_size ex_super = 64" "s_log_block_size ex_super = 0" "s_reserved_gdt_blocks ex_super = 0"
  "s_first_meta_bg ex_super = 0" "s_log_cluster_size ex_super = 0"
  by (simp_all add: ex_super_def zero_super_def)

lemma ex_fs_simps [simp]:
  "fs_super ex_fs = ex_super" "fs_group_desc_count ex_fs = 3" "fs_cluster_ratio_bits ex_fs = 0"
  "fs_blocksize ex_fs = 1024" "fs_magic ex_fs = EXT2_ET_MAGIC_EXT2FS_FILSYS"
  "length (fs_group_desc ex_fs) = 3" "fs_desc_blocks ex_fs = 1" "fs_inode_blocks_per_group ex_fs = 2"
  by (simp_all add: ex_fs_def)

lemma ex_64bit [simp]: "ext2fs_has_feature_64bit ex_super"
  by (simp add: has_feature_incompat_def)

lemma ex_fs_geom: "fs_geom ex_fs" "fdb ex_fs = 1" "nblocks ex_fs = 21" "ngroups ex_fs = 3" "bpg ex_fs = 8"
  by (simp_all add: fs_geom_def fdb_def nblocks_def ngroups_def bpg_def ext2fs_blocks_count_def)

lemma ex_group_in: "group_in ex_fs 0" "group_in ex_fs 2"
  by (simp_all add: group_in_def)

end
