(* ===== verification/Fs_Theorems.thy ===== *)
theory Fs_Theorems
  imports Fs_Examples
begin

text \<open>The main properties of the geometry and the counters of a file system.\<close>

text \<open>
  C21. The block groups cut the blocks of the file system into intervals: \<open>ext2fs_group_of_blk2\<close>
  names the group whose first and last block enclose the block, the shorter last group included.
\<close>

theorem group_of_block_exact:
  assumes "fs_geom fs" "fdb fs \<le> unat blk" "unat blk < nblocks fs" "unat g < ngroups fs"
  shows "ext2fs_group_of_blk2 fs blk = g \<longleftrightarrow>
    ext2fs_group_first_block2 fs g \<le> blk \<and> blk \<le> ext2fs_group_last_block2 fs g"
  using group_of_blk_iff [OF assms] .

theorem group_of_block_exact_witness:
  "ext2fs_group_of_blk2 ex_fs 18 = 2 \<longleftrightarrow>
   ext2fs_group_first_block2 ex_fs 2 \<le> 18 \<and> 18 \<le> ext2fs_group_last_block2 ex_fs 2"
  using group_of_block_exact [OF ex_fs_geom(1), of 18 2] ex_fs_geom by simp

lemma card_interval: "card {b :: u64. x \<le> b \<and> b \<le> y} = Suc (unat y) - unat x"
proof -
  define S where "S = {b. x \<le> b \<and> b \<le> y}"
  have m: "n \<in> unat ` S" if n: "n \<in> {unat x .. unat y}" for n
  proof -
    have "n < 2 ^ 64" using n unsigned_less [of y, where 'a = nat] by simp
    then have u: "unat (of_nat n :: u64) = n" by (simp add: unsigned_of_nat take_bit_nat_eq_self)
    then have "of_nat n \<in> S" using n unfolding S_def word_le_nat_alt by simp
    then show ?thesis using u by (metis image_eqI)
  qed
  have "unat ` S \<subseteq> {unat x .. unat y}" by (auto simp: S_def word_le_nat_alt)
  then have e: "unat ` S = {unat x .. unat y}" using m by blast
  have "inj_on unat S" by (rule inj_onI) (rule unsigned_word_eqI)
  then have "card S = card (unat ` S)" by (rule card_image [symmetric])
  then show ?thesis unfolding e by (simp add: S_def)
qed

text \<open>
  C23. The size of a group, which \<open>ext2fs_group_blocks_count\<close> computes from the geometry alone, is the number of
  blocks that \<open>ext2fs_group_of_blk2\<close> puts into the group, the last group included, whether it is full or
  shorter; and the sizes of the groups add up to the blocks of the file system.
\<close>

theorem group_sizes_exact:
  assumes "fs_geom fs"
  shows "(\<forall>g. unat g < ngroups fs \<longrightarrow> unat (ext2fs_group_blocks_count fs g)
      = card {blk. fdb fs \<le> unat blk \<and> unat blk < nblocks fs \<and> ext2fs_group_of_blk2 fs blk = g})
    \<and> (\<Sum>g < ngroups fs. unat (ext2fs_group_blocks_count fs (of_nat g))) = nblocks fs - fdb fs"
proof (intro conjI allI impI sum_group_blocks [OF assms])
  fix g :: u32 assume g: "unat g < ngroups fs"
  note f = first_block_nat [OF assms g] and l = last_block_nat [OF assms g]
  have lt: "unat (ext2fs_group_last_block2 fs g) < nblocks fs"
  proof (cases "unat g = ngroups fs - 1")
    case False
    then have "Suc (unat g) * bpg fs \<le> (ngroups fs - 1) * bpg fs" using g by (intro mult_right_mono) auto
    then show ?thesis using l False fs_geomD(4) [OF assms] by simp
  qed (use l f(2) in simp)
  have "{blk. fdb fs \<le> unat blk \<and> unat blk < nblocks fs \<and> ext2fs_group_of_blk2 fs blk = g}
      = {blk. ext2fs_group_first_block2 fs g \<le> blk \<and> blk \<le> ext2fs_group_last_block2 fs g}"
    using group_of_blk_iff [OF assms _ _ g] f(1) lt by (auto simp: word_le_nat_alt)
  then have "card {blk. fdb fs \<le> unat blk \<and> unat blk < nblocks fs \<and> ext2fs_group_of_blk2 fs blk = g}
      = Suc (unat (ext2fs_group_last_block2 fs g)) - (fdb fs + unat g * bpg fs)"
    by (simp add: card_interval f(1))
  then show "unat (ext2fs_group_blocks_count fs g)
      = card {blk. fdb fs \<le> unat blk \<and> unat blk < nblocks fs \<and> ext2fs_group_of_blk2 fs blk = g}"
    using l f(2) fs_geomD(1) [OF assms] group_blocks_count_nat [OF assms g] by auto
qed

theorem group_sizes_exact_witness:
  "unat (ext2fs_group_blocks_count ex_fs 2) = card {blk. 1 \<le> unat blk \<and> unat blk < 21 \<and> ext2fs_group_of_blk2 ex_fs blk = 2}
   \<and> (\<Sum>g < 3. unat (ext2fs_group_blocks_count ex_fs (of_nat g))) = 20"
  using group_sizes_exact [OF ex_fs_geom(1)] ex_fs_geom by auto

text \<open>
  A successful \<open>ext2fs_inode_size_set\<close> stores the size so that \<open>EXT2_I_SIZE\<close> reads it back, and
  leaves the block count and the block map of the inode alone.
\<close>

theorem inode_size_roundtrip:
  assumes "ext2fs_inode_size_set fs inode sz = Inr (fs', inode')"
  shows "EXT2_I_SIZE inode' = sz \<and> i_blocks inode' = i_blocks inode \<and> i_block inode' = i_block inode"
  using inode_size_set_Inr [OF assms] by blast

theorem inode_size_roundtrip_witness:
  "EXT2_I_SIZE (snd (projr (ext2fs_inode_size_set ex_fs (zero_inode\<lparr>i_mode := 32768\<rparr>) 6000000000))) = 6000000000"
proof -
  obtain fs' inode' where r: "ext2fs_inode_size_set ex_fs (zero_inode\<lparr>i_mode := 32768\<rparr>) 6000000000 = Inr (fs', inode')"
    by (simp add: ext2fs_inode_size_set_def Let_def ext2fs_needs_large_file_feature_def LINUX_S_ISREG_def
        has_feature_ro_compat_def)
  then show ?thesis using inode_size_roundtrip [OF r] by simp
qed

end
