(* ===== verification/Crc.thy ===== *)
theory Crc
  imports Crc_Tables
begin

text \<open>
  The checksums of \<open>crc16.c\<close> and \<open>crc32c.c\<close>. A buffer is the list of its bytes; the address of its
  first byte is an argument where the code aligns its reads. The reference definitions are the
  bit-serial variants (\<open>CRC_LE_BITS == 1\<close> and \<open>CRC_BE_BITS == 1\<close>) of the same file. The machine is
  little endian.
\<close>

section \<open>The code\<close>

abbreviation (input) CRC32C_POLY_LE :: u32 where "CRC32C_POLY_LE \<equiv> 0x82f63b78"
abbreviation (input) CRCPOLY_BE :: u32 where "CRCPOLY_BE \<equiv> 0x04c11db7"

primrec crc16_loop :: "nat \<Rightarrow> u32 \<Rightarrow> u8 list \<Rightarrow> u32" where
  "crc16_loop 0 crc cp = crc"
| "crc16_loop (Suc len) crc cp =
     crc16_loop len
       (((drop_bit 8 crc AND 0xff) XOR ucast (crc16_table ! unat ((crc XOR ucast (hd cp)) AND 0xff)))
          AND 0xffff) (tl cp)"

definition ext2fs_crc16 :: "u32 \<Rightarrow> u8 list \<Rightarrow> u32 \<Rightarrow> u32" where
  "ext2fs_crc16 crc buffer len = crc16_loop (unat len) crc buffer"

definition swab32 :: "u32 \<Rightarrow> u32" where
  "swab32 x = push_bit 24 (x AND 0xff) OR push_bit 8 (x AND 0xff00) OR drop_bit 8 (x AND 0xff0000)
                OR drop_bit 24 (x AND 0xff000000)"

definition crc32ctable_le :: "u32 list list" where
  "crc32ctable_le = [crc32ctable_le_0, crc32ctable_le_1, crc32ctable_le_2, crc32ctable_le_3,
                     crc32ctable_le_4, crc32ctable_le_5, crc32ctable_le_6, crc32ctable_le_7]"

definition crc32table_be :: "u32 list list" where
  "crc32table_be = map (map swab32)
     [crc32table_be_0, crc32table_be_1, crc32table_be_2, crc32table_be_3,
      crc32table_be_4, crc32table_be_5, crc32table_be_6, crc32table_be_7]"

definition crc_lookup :: "u32 list list \<Rightarrow> nat \<Rightarrow> u32 \<Rightarrow> u32" where
  "crc_lookup tab k x = tab ! k ! unat (x AND 255)"

definition DO_CRC :: "u32 list list \<Rightarrow> u8 \<Rightarrow> u32 \<Rightarrow> u32" where
  "DO_CRC tab x crc = crc_lookup tab 0 (crc XOR ucast x) XOR drop_bit 8 crc"

definition DO_CRC4 :: "u32 list list \<Rightarrow> u32 \<Rightarrow> u32" where
  "DO_CRC4 tab q = crc_lookup tab 3 q XOR crc_lookup tab 2 (drop_bit 8 q)
                     XOR crc_lookup tab 1 (drop_bit 16 q) XOR crc_lookup tab 0 (drop_bit 24 q)"

definition DO_CRC8 :: "u32 list list \<Rightarrow> u32 \<Rightarrow> u32" where
  "DO_CRC8 tab q = crc_lookup tab 7 q XOR crc_lookup tab 6 (drop_bit 8 q)
                     XOR crc_lookup tab 5 (drop_bit 16 q) XOR crc_lookup tab 4 (drop_bit 24 q)"

text \<open>The bytes before the first aligned address.\<close>

primrec crc32_align :: "u32 list list \<Rightarrow> nat \<Rightarrow> u64 \<Rightarrow> u32 \<Rightarrow> u8 list \<Rightarrow> u32 \<times> u8 list \<times> nat" where
  "crc32_align tab 0 addr crc buf = (crc, buf, 0)"
| "crc32_align tab (Suc len) addr crc buf =
     (if addr AND 3 = 0 then (crc, buf, Suc len)
      else crc32_align tab len (addr + 1) (DO_CRC tab (hd buf) crc) (tl buf))"

text \<open>The loop over double words.\<close>

primrec crc32_words :: "u32 list list \<Rightarrow> nat \<Rightarrow> u32 \<Rightarrow> u8 list \<Rightarrow> u32 \<times> u8 list" where
  "crc32_words tab 0 crc b = (crc, b)"
| "crc32_words tab (Suc len) crc b =
     (let q = crc XOR le32 b;
          crc = DO_CRC8 tab q;
          q = le32 (drop 4 b);
          crc = crc XOR DO_CRC4 tab q
      in crc32_words tab len crc (drop 8 b))"

text \<open>The last bytes.\<close>

primrec crc32_bytes :: "u32 list list \<Rightarrow> nat \<Rightarrow> u32 \<Rightarrow> u8 list \<Rightarrow> u32" where
  "crc32_bytes tab 0 crc p = crc"
| "crc32_bytes tab (Suc len) crc p = crc32_bytes tab len (DO_CRC tab (hd p) crc) (tl p)"

definition crc32_body :: "u32 \<Rightarrow> u64 \<Rightarrow> u8 list \<Rightarrow> nat \<Rightarrow> u32 list list \<Rightarrow> u32" where
  "crc32_body crc addr buf len tab =
     (case crc32_align tab len addr crc buf of
        (crc, buf, len) \<Rightarrow>
          case crc32_words tab (len div 8) crc buf of
            (crc, p) \<Rightarrow> crc32_bytes tab (len mod 8) crc p)"

definition ext2fs_crc32c_le :: "u32 \<Rightarrow> u64 \<Rightarrow> u8 list \<Rightarrow> u64 \<Rightarrow> u32" where
  "ext2fs_crc32c_le crc addr p len = crc32_body crc addr p (unat len) crc32ctable_le"

definition ext2fs_crc32_be :: "u32 \<Rightarrow> u64 \<Rightarrow> u8 list \<Rightarrow> u64 \<Rightarrow> u32" where
  "ext2fs_crc32_be crc addr p len =
     ext2fs_swab32 (crc32_body (ext2fs_swab32 crc) addr p (unat len) crc32table_be)"

text \<open>The bit-serial variants of \<open>crc32_le_generic\<close> and \<open>crc32_be_generic\<close>.\<close>

definition crc_bit_le :: "u32 \<Rightarrow> u32 \<Rightarrow> u32" where
  "crc_bit_le polynomial crc = drop_bit 1 crc XOR (if crc AND 1 \<noteq> 0 then polynomial else 0)"

primrec crc32_le_bits1 :: "u32 \<Rightarrow> nat \<Rightarrow> u32 \<Rightarrow> u8 list \<Rightarrow> u32" where
  "crc32_le_bits1 polynomial 0 crc p = crc"
| "crc32_le_bits1 polynomial (Suc len) crc p =
     crc32_le_bits1 polynomial len ((crc_bit_le polynomial ^^ 8) (crc XOR ucast (hd p))) (tl p)"

definition crc_bit_be :: "u32 \<Rightarrow> u32 \<Rightarrow> u32" where
  "crc_bit_be polynomial crc =
     push_bit 1 crc XOR (if crc AND 0x80000000 \<noteq> 0 then polynomial else 0)"

primrec crc32_be_bits1 :: "u32 \<Rightarrow> nat \<Rightarrow> u32 \<Rightarrow> u8 list \<Rightarrow> u32" where
  "crc32_be_bits1 polynomial 0 crc p = crc"
| "crc32_be_bits1 polynomial (Suc len) crc p =
     crc32_be_bits1 polynomial len
       ((crc_bit_be polynomial ^^ 8) (crc XOR push_bit 24 (ucast (hd p)))) (tl p)"

section \<open>Linear byte steps\<close>

text \<open>
  A byte step is linear and shifts a word whose low byte is zero. A register update of the code is
  such a step, and a table of the code holds its powers on the single bytes.
\<close>

locale crc_step =
  fixes L :: "u32 \<Rightarrow> u32"
  assumes L_xor: "L (x XOR y) = L x XOR L y"
    and L_high: "x AND 255 = 0 \<Longrightarrow> L x = drop_bit 8 x"

lemma bit_255 [simp]: "bit (255 :: int) n \<longleftrightarrow> n < 8"
proof -
  have "bit (mask 8 :: int) n \<longleftrightarrow> n < 8" by (simp only: bit_mask_iff possible_bit_def) simp
  then show ?thesis by (simp add: mask_eq_exp_minus_1)
qed

lemma unat_and_255: "unat (x AND 255 :: u32) < 256" "word_of_nat (unat (x AND 255)) = x AND (255 :: u32)"
proof -
  have "x AND 255 \<le> (255 :: u32)" by (rule word_and_le1)
  then show "unat (x AND 255 :: u32) < 256" by (simp add: word_le_nat_alt)
qed simp

lemma bit_255w [simp]: "bit (255 :: u32) n \<longleftrightarrow> n < 8"
  by (auto simp: bit_simps)

lemma u32_split_byte: "(x AND 255) XOR push_bit 8 (drop_bit 8 x) = (x :: u32)"
  by (rule bit_word_eqI) (auto simp: bit_simps)

lemma drop_push_drop: "drop_bit 8 (push_bit 8 (drop_bit 8 x)) = drop_bit 8 (x :: u32)"
  by (rule bit_word_eqI) (auto simp: bit_simps dest: bit_imp_le_length)

lemma push_and_255: "push_bit 8 x AND 255 = (0 :: u32)"
  by (rule bit_word_eqI) (auto simp: bit_simps)

context crc_step
begin

lemma L_0 [simp]: "L 0 = 0"
  using L_xor [of 0 0] by simp

lemma pow_xor: "(L ^^ n) (x XOR y) = (L ^^ n) x XOR (L ^^ n) y"
  by (induction n arbitrary: x y) (simp_all add: L_xor)

lemma pow_0 [simp]: "(L ^^ n) 0 = 0"
  by (induction n) simp_all

lemma L_split: "L x = L (x AND 255) XOR drop_bit 8 x"
proof -
  have "L x = L (x AND 255) XOR L (push_bit 8 (drop_bit 8 x))"
    using L_xor [of "x AND 255" "push_bit 8 (drop_bit 8 x)"] by (simp add: u32_split_byte)
  then show ?thesis by (simp add: L_high push_and_255 drop_push_drop)
qed

lemma pow_split: "(L ^^ Suc n) x = (L ^^ Suc n) (x AND 255) XOR (L ^^ n) (drop_bit 8 x)"
proof -
  have "(L ^^ Suc n) x = (L ^^ n) (L x)" by (simp add: funpow_swap1)
  also have "\<dots> = (L ^^ n) (L (x AND 255)) XOR (L ^^ n) (drop_bit 8 x)"
    unfolding L_split [of x] by (rule pow_xor)
  finally show ?thesis by (simp add: funpow_swap1)
qed

lemma byte_step:
  assumes "\<And>i. i < 256 \<Longrightarrow> tab ! 0 ! i = L (word_of_nat i)"
  shows "DO_CRC tab x crc = L (crc XOR ucast x)"
proof -
  have "drop_bit 8 (ucast x :: u32) = 0" by (rule bit_word_eqI) (auto simp: bit_simps dest: bit_imp_le_length)
  then have "drop_bit 8 crc = drop_bit 8 (crc XOR ucast x)" by (simp add: drop_bit_xor)
  then show ?thesis using assms unfolding DO_CRC_def crc_lookup_def
    by (simp add: L_split [of "crc XOR ucast x"] unat_and_255)
qed

end

lemma xor_cancel: "x XOR z = y XOR z \<longleftrightarrow> x = (y :: u32)" "z XOR x = z XOR y \<longleftrightarrow> x = y"
  by (auto simp: bit_eq_iff bit_xor_iff)

lemma le32_bytes:
  "ucast (le32 b) = b ! 0" "ucast (drop_bit 8 (le32 b)) = b ! 1"
  "ucast (drop_bit 16 (le32 b)) = b ! 2" "ucast (drop_bit 24 (le32 b)) = (b ! 3 :: u8)"
  by (rule bit_word_eqI; auto simp: le32_def bit_simps dest: bit_imp_le_length)+

lemma le32_inj:
  assumes "length a = 4" "length b = 4" "le32 a = le32 b"
  shows "a = b"
proof (rule nth_equalityI)
  fix i assume "i < length a"
  then have "i \<in> {0, 1, 2, 3}" using assms(1) by auto
  then show "a ! i = b ! i" using le32_bytes [of a] le32_bytes [of b] assms(3) by auto
qed (use assms in simp)

text \<open>The value of a buffer under a byte step.\<close>

primrec crc_fold :: "(u32 \<Rightarrow> u32) \<Rightarrow> u32 \<Rightarrow> u8 list \<Rightarrow> u32" where
  "crc_fold L crc [] = crc"
| "crc_fold L crc (x # xs) = crc_fold L (L (crc XOR ucast x)) xs"

lemma crc_fold_append: "crc_fold L crc (xs @ ys) = crc_fold L (crc_fold L crc xs) ys"
  by (induction xs arbitrary: crc) simp_all

context crc_step
begin

lemma pow_shift:
  assumes "\<And>n. 24 \<le> n \<Longrightarrow> \<not> bit y n"
  shows "(L ^^ Suc n) (x XOR push_bit 8 y) = (L ^^ n) (L x XOR y)"
proof -
  have "drop_bit 8 (push_bit 8 y) = y"
    using assms by (intro bit_word_eqI) (fastforce simp: bit_simps not_le [symmetric])
  then have "L (push_bit 8 y) = y" using L_high [OF push_and_255, of y] by simp
  then show ?thesis by (simp add: funpow_swap1 L_xor)
qed

lemma pow_bytes4:
  assumes "length bs = 4"
  shows "crc_fold L crc bs = (L ^^ 4) (crc XOR le32 bs)"
proof -
  obtain a b c d where bs: "bs = [a, b, c, d]"
    using assms by (auto simp: length_Suc_conv eval_nat_numeral)
  let ?d = "ucast d :: u32" and ?c = "ucast c :: u32" and ?b = "ucast b :: u32"
  have le: "le32 bs = ucast a XOR push_bit 8 (?b XOR push_bit 8 (?c XOR push_bit 8 ?d))"
    by (rule bit_word_eqI) (auto simp: le32_def bs bit_simps dest: bit_imp_le_length)
  have "(L ^^ 4) (crc XOR le32 bs)
    = (L ^^ Suc 3) ((crc XOR ucast a) XOR push_bit 8 (?b XOR push_bit 8 (?c XOR push_bit 8 ?d)))"
    unfolding le by (simp add: xor.assoc)
  also have "\<dots> = (L ^^ 3) (L (crc XOR ucast a) XOR (?b XOR push_bit 8 (?c XOR push_bit 8 ?d)))"
    by (rule pow_shift) (auto simp: bit_simps dest: bit_imp_le_length)
  also have "\<dots> = (L ^^ Suc 2) ((L (crc XOR ucast a) XOR ?b) XOR push_bit 8 (?c XOR push_bit 8 ?d))"
    by (simp only: xor.assoc numeral_3_eq_3 numeral_2_eq_2)
  also have "\<dots> = (L ^^ 2) (L (L (crc XOR ucast a) XOR ?b) XOR (?c XOR push_bit 8 ?d))"
    by (rule pow_shift) (auto simp: bit_simps dest: bit_imp_le_length)
  also have "\<dots> = (L ^^ Suc 1) ((L (L (crc XOR ucast a) XOR ?b) XOR ?c) XOR push_bit 8 ?d)"
    by (simp only: xor.assoc numeral_2_eq_2 One_nat_def)
  also have "\<dots> = crc_fold L crc bs"
    by (subst pow_shift) (auto simp: bit_simps bs dest: bit_imp_le_length)
  finally show ?thesis by simp
qed

lemma crc_fold_inj_seed: "inj L \<Longrightarrow> crc_fold L c xs = crc_fold L d xs \<Longrightarrow> c = d"
proof (induction xs arbitrary: c d)
  case (Cons x xs)
  have "L (c XOR ucast x) = L (d XOR ucast x)" using Cons.IH [OF Cons.prems(1)] Cons.prems(2) by simp
  then have "c XOR ucast x = d XOR ucast x" by (rule injD [OF Cons.prems(1)])
  then show ?case by (simp only: xor_cancel)
qed simp

lemma burst:
  assumes "inj L" "length a = 4" "length b = 4" "a \<noteq> b"
  shows "crc_fold L c (pre @ a @ post) \<noteq> crc_fold L c (pre @ b @ post)"
proof
  assume "crc_fold L c (pre @ a @ post) = crc_fold L c (pre @ b @ post)"
  then have "crc_fold L (crc_fold L c pre) a = crc_fold L (crc_fold L c pre) b"
    unfolding crc_fold_append by (rule crc_fold_inj_seed [OF assms(1)])
  then have "crc_fold L c pre XOR le32 a = crc_fold L c pre XOR le32 b"
    unfolding pow_bytes4 [OF assms(2)] pow_bytes4 [OF assms(3)]
    by (rule injD [OF inj_fn [OF assms(1)]])
  then have "le32 a = le32 b" by (simp only: xor_cancel)
  then show False using le32_inj assms by blast
qed

end

text \<open>The tables of slicing by eight.\<close>

locale crc_tables = crc_step +
  fixes tab :: "u32 list list"
  assumes tab: "k < 8 \<Longrightarrow> i < 256 \<Longrightarrow> tab ! k ! i = (L ^^ Suc k) (word_of_nat i)"
begin

lemma lookup: "k < 8 \<Longrightarrow> crc_lookup tab k x = (L ^^ Suc k) (x AND 255)"
  unfolding crc_lookup_def by (subst tab) (simp_all add: unat_and_255)

lemma DO_CRC: "DO_CRC tab x crc = L (crc XOR ucast x)"
  by (rule byte_step) (simp add: tab)

lemma pow4: "(L ^^ (4 + n)) q =
   (L ^^ (4 + n)) (q AND 255) XOR (L ^^ (3 + n)) (drop_bit 8 q AND 255)
     XOR (L ^^ (2 + n)) (drop_bit 16 q AND 255) XOR (L ^^ (1 + n)) (drop_bit 24 q AND 255)"
proof -
  have z: "drop_bit 32 q = 0" by (rule bit_word_eqI) (auto simp: bit_simps dest: bit_imp_le_length)
  have "(L ^^ (4 + n)) q = (L ^^ Suc (3 + n)) q" by simp
  also note pow_split
  also have "(L ^^ (3 + n)) (drop_bit 8 q) = (L ^^ Suc (2 + n)) (drop_bit 8 q)" by (simp add: eval_nat_numeral)
  also note pow_split
  also have "(L ^^ (2 + n)) (drop_bit 8 (drop_bit 8 q)) = (L ^^ Suc (1 + n)) (drop_bit 16 q)" 
    by (simp add: eval_nat_numeral)
  also note pow_split
  also have "(L ^^ (1 + n)) (drop_bit 8 (drop_bit 16 q)) = (L ^^ Suc n) (drop_bit 24 q)" by simp
  also note pow_split
  finally show ?thesis using z by (simp add: eval_nat_numeral xor.assoc)
qed

lemma DO_CRC4: "DO_CRC4 tab q = (L ^^ 4) q"
proof -
  have "DO_CRC4 tab q = (L ^^ (4 + 0)) (q AND 255) XOR (L ^^ (3 + 0)) (drop_bit 8 q AND 255)
     XOR (L ^^ (2 + 0)) (drop_bit 16 q AND 255) XOR (L ^^ (1 + 0)) (drop_bit 24 q AND 255)"
    unfolding DO_CRC4_def by (simp add: lookup eval_nat_numeral)
  then show ?thesis unfolding pow4 [of 0, symmetric] by simp
qed

lemma DO_CRC8: "DO_CRC8 tab q = (L ^^ 8) q"
proof -
  have "DO_CRC8 tab q = (L ^^ (4 + 4)) (q AND 255) XOR (L ^^ (3 + 4)) (drop_bit 8 q AND 255)
     XOR (L ^^ (2 + 4)) (drop_bit 16 q AND 255) XOR (L ^^ (1 + 4)) (drop_bit 24 q AND 255)"
    unfolding DO_CRC8_def by (simp add: lookup eval_nat_numeral)
  then show ?thesis unfolding pow4 [of 4, symmetric] by simp
qed

end

context crc_tables
begin

lemma bytes_fold:
  "len \<le> length buf \<Longrightarrow> crc32_bytes tab len crc buf = crc_fold L crc (take len buf)"
  by (induction len arbitrary: crc buf) (auto simp: DO_CRC take_Suc Suc_le_length_iff)

lemma words_fold:
  "8 * len \<le> length buf \<Longrightarrow>
   crc32_words tab len crc buf = (crc_fold L crc (take (8 * len) buf), drop (8 * len) buf)"
proof (induction len arbitrary: crc buf)
  case (Suc len)
  have l: "length (take 4 buf) = 4" "length (take 4 (drop 4 buf)) = 4" "8 * len \<le> length (drop 8 buf)"
    using Suc.prems by auto
  have t: "take (8 * Suc len) buf = take 4 buf @ take 4 (drop 4 buf) @ take (8 * len) (drop 8 buf)"
    by (metis (no_types) add.assoc add_2_eq_Suc mult_Suc_right numeral_Bit0 take_add drop_drop append_assoc)
  have le: "le32 (take 4 buf) = le32 buf" "le32 (take 4 (drop 4 buf)) = le32 (drop 4 buf)"
    by (simp_all add: le32_def)
  have "crc32_words tab (Suc len) crc buf =
    crc32_words tab len ((L ^^ 8) (crc XOR le32 buf) XOR (L ^^ 4) (le32 (drop 4 buf))) (drop 8 buf)"
    by (simp add: DO_CRC4 DO_CRC8)
  also have "(L ^^ 8) (crc XOR le32 buf) XOR (L ^^ 4) (le32 (drop 4 buf))
    = crc_fold L crc (take 4 buf @ take 4 (drop 4 buf))"
    unfolding crc_fold_append pow_bytes4 [OF l(1)] pow_bytes4 [OF l(2)] le pow_xor [of 4]
    by (simp add: funpow_add [of 4 4, simplified] pow_xor)
  finally show ?case unfolding Suc.IH [OF l(3)] t by (simp add: crc_fold_append add.commute)
qed simp

lemma align_fold:
  "len \<le> length buf \<Longrightarrow> crc32_align tab len addr crc buf = (crc', buf', len') \<Longrightarrow>
   len' \<le> length buf' \<and> crc_fold L crc' (take len' buf') = crc_fold L crc (take len buf)"
  by (induction len arbitrary: addr crc buf)
    (auto simp: DO_CRC take_Suc Suc_le_length_iff split: if_splits)

lemma body_fold:
  assumes "len \<le> length buf"
  shows "crc32_body crc addr buf len tab = crc_fold L crc (take len buf)"
proof -
  obtain crc' buf' len' where a: "crc32_align tab len addr crc buf = (crc', buf', len')"
    by (cases "crc32_align tab len addr crc buf")
  have f: "len' \<le> length buf'" "crc_fold L crc' (take len' buf') = crc_fold L crc (take len buf)"
    using align_fold [OF assms a] by simp_all
  have "8 * (len' div 8) \<le> length buf'" "len' mod 8 \<le> length (drop (8 * (len' div 8)) buf')"
    using f(1) mult_div_mod_eq [of 8 len'] unfolding length_drop by linarith+
  then have "crc32_body crc addr buf len tab
    = crc_fold L crc' (take (8 * (len' div 8)) buf' @ take (len' mod 8) (drop (8 * (len' div 8)) buf'))"
    by (simp add: crc32_body_def a words_fold bytes_fold crc_fold_append)
  also have "take (8 * (len' div 8)) buf' @ take (len' mod 8) (drop (8 * (len' div 8)) buf') = take len' buf'"
    by (simp flip: take_add)
  finally show ?thesis using f(2) by simp
qed

end

end
