(* ===== verification/Crc_Check.thy ===== *)
theory Crc_Check
  imports Crc
begin

text \<open>
  The tables of the code hold the powers of the bit-serial steps: every table is spanned by its
  entries at the powers of two, and those are checked by evaluation. With that the sliced loops are
  the bit-serial ones, and every change within four bytes is detected.
\<close>

section \<open>Tables of linear functions\<close>

definition lin_build :: "u32 list \<Rightarrow> u32 list" where
  "lin_build = foldl (\<lambda>acc b. acc @ map ((XOR) b) acc) [0]"

lemma of_nat_pow_add:
  assumes "i < 2 ^ k"
  shows "word_of_nat (2 ^ k + i) = (word_of_nat (2 ^ k) XOR word_of_nat i :: u32)"
proof -
  have "2 ^ k AND i = 0"
  proof (rule bit_eqI)
    have "\<not> bit i k" using assms by (simp add: bit_iff_odd)
    then show "bit (2 ^ k AND i) n \<longleftrightarrow> bit 0 n" for n by (auto simp: bit_and_iff bit_exp_iff)
  qed
  then have "2 ^ k + i = 2 ^ k XOR i" by (rule disjunctive_add_eq_xor)
  then show ?thesis by (simp add: of_nat_xor_eq)
qed

lemma lin_build_snoc: "lin_build (bs @ [b]) = lin_build bs @ map ((XOR) b) (lin_build bs)"
  by (simp add: lin_build_def)

lemma lin_build:
  fixes F :: "u32 \<Rightarrow> u32"
  assumes F: "\<And>x y. F (x XOR y) = F x XOR F y"
  shows "lin_build (map (\<lambda>j. F (word_of_nat (2 ^ j))) [0..<k]) = map (\<lambda>i. F (word_of_nat i)) [0..<2 ^ k]"
proof (induction k)
  case 0
  then show ?case using assms [of 0 0] by (simp add: lin_build_def)
next
  case (Suc k)
  have "[0..<2 ^ Suc k] = [0..<2 ^ k] @ map ((+) (2 ^ k)) [0..<2 ^ k]"
  proof -
    have "map ((+) (2 ^ k)) [0..<2 ^ k] = [2 ^ k..<2 ^ k + 2 ^ k]"
    proof -
      have "map ((+) (2 ^ k)) [0..<2 ^ k] = map (\<lambda>i :: nat. i + 2 ^ k) [0..<2 ^ k]"
        by (rule map_cong [OF refl]) (rule add.commute)
      also note map_add_upt
      finally show ?thesis .
    qed
    then show ?thesis using upt_add_eq_append [of 0 "2 ^ k" "2 ^ k"] by (simp add: mult_2)
  qed
  moreover have "map (\<lambda>i. F (word_of_nat i)) (map ((+) (2 ^ k)) [0..<2 ^ k])
      = map ((XOR) (F (word_of_nat (2 ^ k)))) (map (\<lambda>i. F (word_of_nat i)) [0..<2 ^ k])"
    unfolding map_map by (rule map_cong [OF refl]) (auto simp only: o_apply of_nat_pow_add F set_upt atLeastLessThan_iff)
  moreover have "map (\<lambda>j. F (word_of_nat (2 ^ j))) [0..<Suc k]
      = map (\<lambda>j. F (word_of_nat (2 ^ j))) [0..<k] @ [F (word_of_nat (2 ^ k))]"
    by simp
  ultimately show ?case by (simp only: map_append lin_build_snoc Suc.IH)
qed

lemma pow8: "(f ^^ 8) x = f (f (f (f (f (f (f (f x)))))))"
  by (simp add: eval_nat_numeral)

lemma lin_table:
  fixes F :: "u32 \<Rightarrow> u32"
  assumes F: "\<And>x y. F (x XOR y) = F x XOR F y"
    and "map F [1, 2, 4, 8, 0x10, 0x20, 0x40, 0x80] = bs" "t = lin_build bs" "i < 256"
  shows "t ! i = F (word_of_nat i)"
proof -
  have "[0..<8] = [0, 1, 2, 3, 4, 5, 6, 7]" by (simp add: upt_rec)
  then have "map (\<lambda>j. F (word_of_nat (2 ^ j))) [0..<8] = bs"
    unfolding assms(2) [symmetric] by simp
  then have "t = map (\<lambda>i. F (word_of_nat i)) [0..<2 ^ 8]"
    using assms(3) lin_build [where F = F and k = 8, OF F] by metis
  then show ?thesis using assms(4) by simp
qed

section \<open>The bit-serial steps\<close>

lemma crc_bit_le_alt: "crc_bit_le p x = drop_bit 1 x XOR (if bit x 0 then p else 0)"
proof -
  have "x AND 1 \<noteq> 0 \<longleftrightarrow> bit x 0" by (simp add: and_one_eq odd_iff_mod_2_eq_one bit_0)
  then show ?thesis by (simp add: crc_bit_le_def)
qed

lemma crc_bit_be_alt: "crc_bit_be p x = push_bit 1 x XOR (if bit x 31 then p else 0)"
proof -
  have m: "(0x80000000 :: u32) = push_bit 31 1" by (simp add: push_bit_of_1)
  have "x AND 0x80000000 \<noteq> 0 \<longleftrightarrow> bit x 31" unfolding m bit_iff_and_push_bit_not_eq_0 by simp
  then show ?thesis by (simp add: crc_bit_be_def)
qed

lemma crc_bit_le_xor: "crc_bit_le p (x XOR y) = crc_bit_le p x XOR crc_bit_le p y"
  by (rule bit_word_eqI) (auto simp: crc_bit_le_alt bit_simps)

lemma crc_bit_be_xor: "crc_bit_be p (x XOR y) = crc_bit_be p x XOR crc_bit_be p y"
  by (rule bit_word_eqI) (auto simp: crc_bit_be_alt bit_simps)

lemma funpow_xor:
  fixes f :: "u32 \<Rightarrow> u32"
  assumes "\<And>x y. f (x XOR y) = f x XOR f y"
  shows "(f ^^ n) (x XOR y) = (f ^^ n) x XOR (f ^^ n) y"
proof (induction n)
  case (Suc n)
  then show ?case by (simp add: assms)
qed simp

lemma le_shift:
  "(\<And>j. j < n \<Longrightarrow> \<not> bit x j) \<Longrightarrow> (crc_bit_le p ^^ n) x = drop_bit n x"
proof (induction n arbitrary: x)
  case (Suc n)
  have "crc_bit_le p x = drop_bit 1 x" using Suc.prems [of 0] by (simp add: crc_bit_le_alt)
  moreover have "(crc_bit_le p ^^ n) (drop_bit 1 x) = drop_bit n (drop_bit 1 x)"
    using Suc.prems by (intro Suc.IH) (simp add: bit_drop_bit_eq)
  ultimately show ?case by (simp add: funpow_swap1 del: funpow.simps(2)) (simp add: funpow_Suc_right del: funpow.simps(2))
qed simp

lemma be_shift:
  "(\<And>j. j < n \<Longrightarrow> \<not> bit x (31 - j)) \<Longrightarrow> n \<le> 32 \<Longrightarrow> (crc_bit_be p ^^ n) x = push_bit n x"
proof (induction n arbitrary: x)
  case (Suc n)
  have b: "crc_bit_be p x = push_bit 1 x" using Suc.prems(1) [of 0] by (simp add: crc_bit_be_alt)
  have "\<not> bit (push_bit 1 x) (31 - j)" if "j < n" for j
    using Suc.prems(1) [of "Suc j"] Suc.prems(2) that by (simp add: bit_push_bit_iff del: push_bit_of_1 push_bit_Suc)
  then show ?case using Suc.IH [of "push_bit 1 x"] Suc.prems(2) b by (simp add: funpow_swap1)
qed simp

text \<open>Swapping the bytes.\<close>

lemma bit_byte_mask32: "bit (0xff00 :: int) n \<longleftrightarrow> 8 \<le> n \<and> n < 16" "bit (0xff0000 :: int) n \<longleftrightarrow> 16 \<le> n \<and> n < 24"
  "bit (0xff000000 :: int) n \<longleftrightarrow> 24 \<le> n \<and> n < 32"
proof -
  have "bit (push_bit k (mask 8) :: int) n \<longleftrightarrow> k \<le> n \<and> n < k + 8" for k
    by (auto simp: bit_push_bit_iff bit_mask_iff possible_bit_def)
  from this [of 8] this [of 16] this [of 24]
  show "bit (0xff00 :: int) n \<longleftrightarrow> 8 \<le> n \<and> n < 16" "bit (0xff0000 :: int) n \<longleftrightarrow> 16 \<le> n \<and> n < 24"
    "bit (0xff000000 :: int) n \<longleftrightarrow> 24 \<le> n \<and> n < 32"
    by (simp_all add: mask_eq_exp_minus_1 push_bit_eq_mult)
qed

lemma bit_swab32:
  "bit (swab32 x) n \<longleftrightarrow> n < 32 \<and> bit x (if n < 8 then 24 + n else if n < 16 then 8 + n else if n < 24 then n - 8 else n - 24)"
  by (auto simp: swab32_def bit_simps bit_byte_mask32)

lemma ext2fs_swab32: "ext2fs_swab32 = swab32"
  unfolding fun_eq_iff
  by (intro allI bit_word_eqI) (auto simp: ext2fs_swab32_def bit_swab32 bit_simps bit_byte_mask32 dest: bit_imp_le_length)

lemma swab32_swab32 [simp]: "swab32 (swab32 x) = x"
  by (rule bit_word_eqI) (auto simp: bit_swab32)

lemma swab32_xor: "swab32 (x XOR y) = swab32 x XOR swab32 y"
  by (rule bit_word_eqI) (auto simp: bit_swab32 bit_simps)

lemma swab32_byte: "i < 256 \<Longrightarrow> swab32 (word_of_nat i) = push_bit 24 (word_of_nat i)"
proof -
  assume "i < 256"
  then have "\<not> bit i k" if "8 \<le> k" for k
    using that power_increasing [of 8 k "2 :: nat"] by (simp add: bit_iff_odd)
  then show ?thesis by (intro bit_word_eqI) (auto simp: bit_swab32 bit_simps)
qed

definition L_le :: "u32 \<Rightarrow> u32" where "L_le = crc_bit_le CRC32C_POLY_LE ^^ 8"

definition M_be :: "u32 \<Rightarrow> u32" where "M_be = crc_bit_be CRCPOLY_BE ^^ 8"

definition L_be :: "u32 \<Rightarrow> u32" where "L_be x = swab32 (M_be (swab32 x))"

lemma L_be_pow: "(L_be ^^ n) x = swab32 ((M_be ^^ n) (swab32 x))"
  by (induction n) (simp_all add: L_be_def)

lemma M_be_xor: "M_be (x XOR y) = M_be x XOR M_be y"
  unfolding M_be_def by (rule funpow_xor) (rule crc_bit_be_xor)

interpretation le: crc_step L_le
proof
  show "L_le (x XOR y) = L_le x XOR L_le y" for x y
    unfolding L_le_def by (rule funpow_xor) (rule crc_bit_le_xor)
  show "L_le x = drop_bit 8 x" if "x AND 255 = 0" for x
    unfolding L_le_def
  proof (rule le_shift)
    show "\<not> bit x j" if "j < 8" for j
      using that \<open>x AND 255 = 0\<close> by (metis bit_0_eq bit_and_iff bit_255w bot_apply bot_bool_def)
  qed
qed

interpretation be: crc_step L_be
proof
  show "L_be (x XOR y) = L_be x XOR L_be y" for x y
    by (simp add: L_be_def swab32_xor M_be_xor)
  show "L_be x = drop_bit 8 x" if x: "x AND 255 = 0" for x
  proof -
    have z: "\<not> bit x j" if "j < 8" for j
      using that x by (metis bit_0_eq bit_and_iff bit_255w bot_apply bot_bool_def)
    have "M_be (swab32 x) = push_bit 8 (swab32 x)"
      unfolding M_be_def by (rule be_shift) (auto simp: bit_swab32 z)
    moreover have "\<not> bit x (8 + n)" if "n < 32" "24 \<le> n" for n
      using that by (auto dest: bit_imp_le_length)
    ultimately show ?thesis unfolding L_be_def
      by (intro bit_word_eqI) (auto simp: bit_swab32 bit_simps z)
  qed
qed

section \<open>The entries of the tables\<close>

lemma le_build_0: "crc32ctable_le_0 = lin_build [0xf26b8303, 0xe13b70f7, 0xc79a971f, 0x8ad958cf, 0x105ec76f, 0x20bd8ede, 0x417b1dbc, 0x82f63b78]"
  by (simp add: crc32ctable_le_0_def lin_build_def)

lemma le_build_1: "crc32ctable_le_1 = lin_build [0x13a29877, 0x274530ee, 0x4e8a61dc, 0x9d14c3b8, 0x3fc5f181, 0x7f8be302, 0xff17c604, 0xfbc3faf9]"
  by (simp add: crc32ctable_le_1_def lin_build_def)

lemma le_build_2: "crc32ctable_le_2 = lin_build [0xa541927e, 0x4f6f520d, 0x9edea41a, 0x38513ec5, 0x70a27d8a, 0xe144fb14, 0xc76580d9, 0x8b277743]"
  by (simp add: crc32ctable_le_2_def lin_build_def)

lemma le_build_3: "crc32ctable_le_3 = lin_build [0xdd45aab8, 0xbf672381, 0x7b2231f3, 0xf64463e6, 0xe964b13d, 0xd725148b, 0xaba65fe7, 0x52a0c93f]"
  by (simp add: crc32ctable_le_3_def lin_build_def)

lemma le_build_4: "crc32ctable_le_4 = lin_build [0x38116fac, 0x7022df58, 0xe045beb0, 0xc5670b91, 0x8f2261d3, 0x1ba8b557, 0x37516aae, 0x6ea2d55c]"
  by (simp add: crc32ctable_le_4_def lin_build_def)

lemma le_build_5: "crc32ctable_le_5 = lin_build [0xef306b19, 0xdb8ca0c3, 0xb2f53777, 0x6006181f, 0xc00c303e, 0x85f4168d, 0xe045beb, 0x1c08b7d6]"
  by (simp add: crc32ctable_le_5_def lin_build_def)

lemma le_build_6: "crc32ctable_le_6 = lin_build [0x68032cc8, 0xd0065990, 0xa5e0c5d1, 0x4e2dfd53, 0x9c5bfaa6, 0x3d5b83bd, 0x7ab7077a, 0xf56e0ef4]"
  by (simp add: crc32ctable_le_6_def lin_build_def)

lemma le_build_7: "crc32ctable_le_7 = lin_build [0x493c7d27, 0x9278fa4e, 0x211d826d, 0x423b04da, 0x847609b4, 0xd006599, 0x1a00cb32, 0x34019664]"
  by (simp add: crc32ctable_le_7_def lin_build_def)

lemma le_basis_0: "map L_le [1, 2, 4, 8, 0x10, 0x20, 0x40, 0x80]
  = [0xf26b8303, 0xe13b70f7, 0xc79a971f, 0x8ad958cf, 0x105ec76f, 0x20bd8ede, 0x417b1dbc, 0x82f63b78]"
  unfolding L_le_def by (simp only: list.map pow8) (simp add: crc_bit_le_def)

lemma le_basis_1: "map L_le [0xf26b8303, 0xe13b70f7, 0xc79a971f, 0x8ad958cf, 0x105ec76f, 0x20bd8ede, 0x417b1dbc, 0x82f63b78]
  = [0x13a29877, 0x274530ee, 0x4e8a61dc, 0x9d14c3b8, 0x3fc5f181, 0x7f8be302, 0xff17c604, 0xfbc3faf9]"
  unfolding L_le_def by (simp only: list.map pow8) (simp add: crc_bit_le_def)

lemma le_basis_2: "map L_le [0x13a29877, 0x274530ee, 0x4e8a61dc, 0x9d14c3b8, 0x3fc5f181, 0x7f8be302, 0xff17c604, 0xfbc3faf9]
  = [0xa541927e, 0x4f6f520d, 0x9edea41a, 0x38513ec5, 0x70a27d8a, 0xe144fb14, 0xc76580d9, 0x8b277743]"
  unfolding L_le_def by (simp only: list.map pow8) (simp add: crc_bit_le_def)

lemma le_basis_3: "map L_le [0xa541927e, 0x4f6f520d, 0x9edea41a, 0x38513ec5, 0x70a27d8a, 0xe144fb14, 0xc76580d9, 0x8b277743]
  = [0xdd45aab8, 0xbf672381, 0x7b2231f3, 0xf64463e6, 0xe964b13d, 0xd725148b, 0xaba65fe7, 0x52a0c93f]"
  unfolding L_le_def by (simp only: list.map pow8) (simp add: crc_bit_le_def)

lemma le_basis_4: "map L_le [0xdd45aab8, 0xbf672381, 0x7b2231f3, 0xf64463e6, 0xe964b13d, 0xd725148b, 0xaba65fe7, 0x52a0c93f]
  = [0x38116fac, 0x7022df58, 0xe045beb0, 0xc5670b91, 0x8f2261d3, 0x1ba8b557, 0x37516aae, 0x6ea2d55c]"
  unfolding L_le_def by (simp only: list.map pow8) (simp add: crc_bit_le_def)

lemma le_basis_5: "map L_le [0x38116fac, 0x7022df58, 0xe045beb0, 0xc5670b91, 0x8f2261d3, 0x1ba8b557, 0x37516aae, 0x6ea2d55c]
  = [0xef306b19, 0xdb8ca0c3, 0xb2f53777, 0x6006181f, 0xc00c303e, 0x85f4168d, 0xe045beb, 0x1c08b7d6]"
  unfolding L_le_def by (simp only: list.map pow8) (simp add: crc_bit_le_def)

lemma le_basis_6: "map L_le [0xef306b19, 0xdb8ca0c3, 0xb2f53777, 0x6006181f, 0xc00c303e, 0x85f4168d, 0xe045beb, 0x1c08b7d6]
  = [0x68032cc8, 0xd0065990, 0xa5e0c5d1, 0x4e2dfd53, 0x9c5bfaa6, 0x3d5b83bd, 0x7ab7077a, 0xf56e0ef4]"
  unfolding L_le_def by (simp only: list.map pow8) (simp add: crc_bit_le_def)

lemma le_basis_7: "map L_le [0x68032cc8, 0xd0065990, 0xa5e0c5d1, 0x4e2dfd53, 0x9c5bfaa6, 0x3d5b83bd, 0x7ab7077a, 0xf56e0ef4]
  = [0x493c7d27, 0x9278fa4e, 0x211d826d, 0x423b04da, 0x847609b4, 0xd006599, 0x1a00cb32, 0x34019664]"
  unfolding L_le_def by (simp only: list.map pow8) (simp add: crc_bit_le_def)

lemma be_build_0: "crc32table_be_0 = lin_build [0x4c11db7, 0x9823b6e, 0x130476dc, 0x2608edb8, 0x4c11db70, 0x9823b6e0, 0x34867077, 0x690ce0ee]"
  by (simp add: crc32table_be_0_def lin_build_def)

lemma be_build_1: "crc32table_be_1 = lin_build [0xd219c1dc, 0xa0f29e0f, 0x452421a9, 0x8a484352, 0x10519b13, 0x20a33626, 0x41466c4c, 0x828cd898]"
  by (simp add: crc32table_be_1_def lin_build_def)

lemma be_build_2: "crc32table_be_2 = lin_build [0x1d8ac87, 0x3b1590e, 0x762b21c, 0xec56438, 0x1d8ac870, 0x3b1590e0, 0x762b21c0, 0xec564380]"
  by (simp add: crc32table_be_2_def lin_build_def)

lemma be_build_3: "crc32table_be_3 = lin_build [0xdc6d9ab7, 0xbc1a28d9, 0x7cf54c05, 0xf9ea980a, 0xf7142da3, 0xeae946f1, 0xd1139055, 0xa6e63d1d]"
  by (simp add: crc32table_be_3_def lin_build_def)

lemma be_build_4: "crc32table_be_4 = lin_build [0x490d678d, 0x921acf1a, 0x20f48383, 0x41e90706, 0x83d20e0c, 0x36501af, 0x6ca035e, 0xd9406bc]"
  by (simp add: crc32table_be_4_def lin_build_def)

lemma be_build_5: "crc32table_be_5 = lin_build [0x1b280d78, 0x36501af0, 0x6ca035e0, 0xd9406bc0, 0xb641ca37, 0x684289d9, 0xd08513b2, 0xa5cb3ad3]"
  by (simp add: crc32table_be_5_def lin_build_def)

lemma be_build_6: "crc32table_be_6 = lin_build [0x4f576811, 0x9eaed022, 0x399cbdf3, 0x73397be6, 0xe672f7cc, 0xc824f22f, 0x9488f9e9, 0x2dd0ee65]"
  by (simp add: crc32table_be_6_def lin_build_def)

lemma be_build_7: "crc32table_be_7 = lin_build [0x5ba1dcca, 0xb743b994, 0x6a466e9f, 0xd48cdd3e, 0xadd8a7cb, 0x5f705221, 0xbee0a442, 0x79005533]"
  by (simp add: crc32table_be_7_def lin_build_def)

lemma be_basis_0: "map M_be [0x1000000, 0x2000000, 0x4000000, 0x8000000, 0x10000000, 0x20000000, 0x40000000, 0x80000000]
  = [0x4c11db7, 0x9823b6e, 0x130476dc, 0x2608edb8, 0x4c11db70, 0x9823b6e0, 0x34867077, 0x690ce0ee]"
  unfolding M_be_def by (simp only: list.map pow8) (simp add: crc_bit_be_def)

lemma be_basis_1: "map M_be [0x4c11db7, 0x9823b6e, 0x130476dc, 0x2608edb8, 0x4c11db70, 0x9823b6e0, 0x34867077, 0x690ce0ee]
  = [0xd219c1dc, 0xa0f29e0f, 0x452421a9, 0x8a484352, 0x10519b13, 0x20a33626, 0x41466c4c, 0x828cd898]"
  unfolding M_be_def by (simp only: list.map pow8) (simp add: crc_bit_be_def)

lemma be_basis_2: "map M_be [0xd219c1dc, 0xa0f29e0f, 0x452421a9, 0x8a484352, 0x10519b13, 0x20a33626, 0x41466c4c, 0x828cd898]
  = [0x1d8ac87, 0x3b1590e, 0x762b21c, 0xec56438, 0x1d8ac870, 0x3b1590e0, 0x762b21c0, 0xec564380]"
  unfolding M_be_def by (simp only: list.map pow8) (simp add: crc_bit_be_def)

lemma be_basis_3: "map M_be [0x1d8ac87, 0x3b1590e, 0x762b21c, 0xec56438, 0x1d8ac870, 0x3b1590e0, 0x762b21c0, 0xec564380]
  = [0xdc6d9ab7, 0xbc1a28d9, 0x7cf54c05, 0xf9ea980a, 0xf7142da3, 0xeae946f1, 0xd1139055, 0xa6e63d1d]"
  unfolding M_be_def by (simp only: list.map pow8) (simp add: crc_bit_be_def)

lemma be_basis_4: "map M_be [0xdc6d9ab7, 0xbc1a28d9, 0x7cf54c05, 0xf9ea980a, 0xf7142da3, 0xeae946f1, 0xd1139055, 0xa6e63d1d]
  = [0x490d678d, 0x921acf1a, 0x20f48383, 0x41e90706, 0x83d20e0c, 0x36501af, 0x6ca035e, 0xd9406bc]"
  unfolding M_be_def by (simp only: list.map pow8) (simp add: crc_bit_be_def)

lemma be_basis_5: "map M_be [0x490d678d, 0x921acf1a, 0x20f48383, 0x41e90706, 0x83d20e0c, 0x36501af, 0x6ca035e, 0xd9406bc]
  = [0x1b280d78, 0x36501af0, 0x6ca035e0, 0xd9406bc0, 0xb641ca37, 0x684289d9, 0xd08513b2, 0xa5cb3ad3]"
  unfolding M_be_def by (simp only: list.map pow8) (simp add: crc_bit_be_def)

lemma be_basis_6: "map M_be [0x1b280d78, 0x36501af0, 0x6ca035e0, 0xd9406bc0, 0xb641ca37, 0x684289d9, 0xd08513b2, 0xa5cb3ad3]
  = [0x4f576811, 0x9eaed022, 0x399cbdf3, 0x73397be6, 0xe672f7cc, 0xc824f22f, 0x9488f9e9, 0x2dd0ee65]"
  unfolding M_be_def by (simp only: list.map pow8) (simp add: crc_bit_be_def)

lemma be_basis_7: "map M_be [0x4f576811, 0x9eaed022, 0x399cbdf3, 0x73397be6, 0xe672f7cc, 0xc824f22f, 0x9488f9e9, 0x2dd0ee65]
  = [0x5ba1dcca, 0xb743b994, 0x6a466e9f, 0xd48cdd3e, 0xadd8a7cb, 0x5f705221, 0xbee0a442, 0x79005533]"
  unfolding M_be_def by (simp only: list.map pow8) (simp add: crc_bit_be_def)

section \<open>The tables hold the powers of the steps\<close>

lemmas le_basis = le_basis_0 le_basis_1 le_basis_2 le_basis_3 le_basis_4 le_basis_5 le_basis_6 le_basis_7
lemmas be_basis = be_basis_0 be_basis_1 be_basis_2 be_basis_3 be_basis_4 be_basis_5 be_basis_6 be_basis_7
lemmas le_build = le_build_0 le_build_1 le_build_2 le_build_3 le_build_4 le_build_5 le_build_6 le_build_7
lemmas be_build = be_build_0 be_build_1 be_build_2 be_build_3 be_build_4 be_build_5 be_build_6 be_build_7

lemma map_pow_step:
  "map (f ^^ Suc k) xs = bs \<Longrightarrow> map f bs = cs \<Longrightarrow> map (f ^^ Suc (Suc k)) xs = cs"
  by auto

lemma le_pow_0: "map (L_le ^^ Suc 0) [1, 2, 4, 8, 0x10, 0x20, 0x40, 0x80]
  = [0xf26b8303, 0xe13b70f7, 0xc79a971f, 0x8ad958cf, 0x105ec76f, 0x20bd8ede, 0x417b1dbc, 0x82f63b78]"
  using le_basis_0 by simp

lemmas le_pow_1 = map_pow_step [OF le_pow_0 le_basis_1]
lemmas le_pow_2 = map_pow_step [OF le_pow_1 le_basis_2]
lemmas le_pow_3 = map_pow_step [OF le_pow_2 le_basis_3]
lemmas le_pow_4 = map_pow_step [OF le_pow_3 le_basis_4]
lemmas le_pow_5 = map_pow_step [OF le_pow_4 le_basis_5]
lemmas le_pow_6 = map_pow_step [OF le_pow_5 le_basis_6]
lemmas le_pow_7 = map_pow_step [OF le_pow_6 le_basis_7]

lemma be_pow_0: "map (M_be ^^ Suc 0) [0x1000000, 0x2000000, 0x4000000, 0x8000000, 0x10000000, 0x20000000, 0x40000000, 0x80000000]
  = [0x4c11db7, 0x9823b6e, 0x130476dc, 0x2608edb8, 0x4c11db70, 0x9823b6e0, 0x34867077, 0x690ce0ee]"
  using be_basis_0 by simp

lemmas be_pow_1 = map_pow_step [OF be_pow_0 be_basis_1]
lemmas be_pow_2 = map_pow_step [OF be_pow_1 be_basis_2]
lemmas be_pow_3 = map_pow_step [OF be_pow_2 be_basis_3]
lemmas be_pow_4 = map_pow_step [OF be_pow_3 be_basis_4]
lemmas be_pow_5 = map_pow_step [OF be_pow_4 be_basis_5]
lemmas be_pow_6 = map_pow_step [OF be_pow_5 be_basis_6]
lemmas be_pow_7 = map_pow_step [OF be_pow_6 be_basis_7]

lemma less_8_iff: "(\<forall>k < 8. P k) \<longleftrightarrow> P 0 \<and> P (Suc 0) \<and> P (Suc (Suc 0)) \<and> P (Suc (Suc (Suc 0))) \<and> P (Suc (Suc (Suc (Suc 0)))) \<and> P (Suc (Suc (Suc (Suc (Suc 0))))) \<and> P (Suc (Suc (Suc (Suc (Suc (Suc 0)))))) \<and> P (Suc (Suc (Suc (Suc (Suc (Suc (Suc 0)))))))"
proof -
  have "8 = Suc (Suc (Suc (Suc (Suc (Suc (Suc (Suc 0)))))))" by simp
  then show ?thesis by (simp only: All_less_Suc not_less0 simp_thms) blast
qed

lemma lin_table_le:
  "map (L_le ^^ n) [1, 2, 4, 8, 0x10, 0x20, 0x40, 0x80] = bs \<Longrightarrow> t = lin_build bs \<Longrightarrow> i < 256 \<Longrightarrow>
   t ! i = (L_le ^^ n) (word_of_nat i)"
  by (rule lin_table [OF le.pow_xor])

lemma lin_table_be:
  assumes "map (M_be ^^ n) [0x1000000, 0x2000000, 0x4000000, 0x8000000, 0x10000000, 0x20000000, 0x40000000, 0x80000000] = bs"
    "t = lin_build bs" "length t = 256" "i < 256"
  shows "map swab32 t ! i = (L_be ^^ n) (word_of_nat i)"
proof -
  have "t ! i = (M_be ^^ n) (push_bit 24 (word_of_nat i))"
  proof (rule lin_table [where F = "\<lambda>x. (M_be ^^ n) (push_bit 24 x)", OF _ _ assms(2,4)])
    show "(M_be ^^ n) (push_bit 24 (x XOR y)) = (M_be ^^ n) (push_bit 24 x) XOR (M_be ^^ n) (push_bit 24 y)" for x y
      unfolding push_bit_xor by (rule funpow_xor) (rule M_be_xor)
    show "map (\<lambda>x. (M_be ^^ n) (push_bit 24 x)) [1, 2, 4, 8, 0x10, 0x20, 0x40, 0x80] = bs"
      unfolding assms(1) [symmetric] by (simp add: push_bit_of_1)
  qed
  then show ?thesis using assms(3,4) by (simp add: L_be_pow swab32_byte)
qed

lemma length_lin_build: "length (lin_build bs) = 2 ^ length bs"
  by (induction bs rule: rev_induct) (simp_all add: lin_build_snoc, simp add: lin_build_def)

lemma be_length_0: "length crc32table_be_0 = 256"
  unfolding be_build_0 length_lin_build by simp

lemma be_length_1: "length crc32table_be_1 = 256"
  unfolding be_build_1 length_lin_build by simp

lemma be_length_2: "length crc32table_be_2 = 256"
  unfolding be_build_2 length_lin_build by simp

lemma be_length_3: "length crc32table_be_3 = 256"
  unfolding be_build_3 length_lin_build by simp

lemma be_length_4: "length crc32table_be_4 = 256"
  unfolding be_build_4 length_lin_build by simp

lemma be_length_5: "length crc32table_be_5 = 256"
  unfolding be_build_5 length_lin_build by simp

lemma be_length_6: "length crc32table_be_6 = 256"
  unfolding be_build_6 length_lin_build by simp

lemma be_length_7: "length crc32table_be_7 = 256"
  unfolding be_build_7 length_lin_build by simp

lemmas le_tab_0 = lin_table_le [OF le_pow_0 le_build_0]
lemmas le_tab_1 = lin_table_le [OF le_pow_1 le_build_1]
lemmas le_tab_2 = lin_table_le [OF le_pow_2 le_build_2]
lemmas le_tab_3 = lin_table_le [OF le_pow_3 le_build_3]
lemmas le_tab_4 = lin_table_le [OF le_pow_4 le_build_4]
lemmas le_tab_5 = lin_table_le [OF le_pow_5 le_build_5]
lemmas le_tab_6 = lin_table_le [OF le_pow_6 le_build_6]
lemmas le_tab_7 = lin_table_le [OF le_pow_7 le_build_7]
lemmas be_tab_0 = lin_table_be [OF be_pow_0 be_build_0 be_length_0]
lemmas be_tab_1 = lin_table_be [OF be_pow_1 be_build_1 be_length_1]
lemmas be_tab_2 = lin_table_be [OF be_pow_2 be_build_2 be_length_2]
lemmas be_tab_3 = lin_table_be [OF be_pow_3 be_build_3 be_length_3]
lemmas be_tab_4 = lin_table_be [OF be_pow_4 be_build_4 be_length_4]
lemmas be_tab_5 = lin_table_be [OF be_pow_5 be_build_5 be_length_5]
lemmas be_tab_6 = lin_table_be [OF be_pow_6 be_build_6 be_length_6]
lemmas be_tab_7 = lin_table_be [OF be_pow_7 be_build_7 be_length_7]

lemma le_tab: "\<forall>k < 8. \<forall>i < 256. crc32ctable_le ! k ! i = (L_le ^^ Suc k) (word_of_nat i)"
  unfolding less_8_iff crc32ctable_le_def nth_Cons_0 nth_Cons_Suc
  by (intro conjI allI impI le_tab_0 le_tab_1 le_tab_2 le_tab_3 le_tab_4 le_tab_5 le_tab_6 le_tab_7)

lemma be_tab: "\<forall>k < 8. \<forall>i < 256. crc32table_be ! k ! i = (L_be ^^ Suc k) (word_of_nat i)"
  unfolding less_8_iff crc32table_be_def list.map nth_Cons_0 nth_Cons_Suc
  by (intro conjI allI impI be_tab_0 be_tab_1 be_tab_2 be_tab_3 be_tab_4 be_tab_5 be_tab_6 be_tab_7)


interpretation leT: crc_tables L_le crc32ctable_le
  by unfold_locales (use le_tab in blast)

interpretation beT: crc_tables L_be crc32table_be
  by unfold_locales (use be_tab in blast)

section \<open>The sliced loops and the bit-serial loops\<close>

lemma le_bits1_fold:
  "len \<le> length p \<Longrightarrow> crc32_le_bits1 poly len crc p = crc_fold (crc_bit_le poly ^^ 8) crc (take len p)"
  by (induction len arbitrary: crc p) (auto simp: take_Suc Suc_le_length_iff)

lemma be_bits1_fold:
  "len \<le> length p \<Longrightarrow>
   crc32_be_bits1 CRCPOLY_BE len crc p = swab32 (crc_fold L_be (swab32 crc) (take len p))"
proof (induction len arbitrary: crc p)
  case (Suc len)
  then obtain x xs where p: "p = x # xs" "len \<le> length xs" by (auto simp: Suc_le_length_iff)
  have "push_bit 24 (ucast x) = swab32 (ucast x)"
    by (rule bit_word_eqI) (auto simp: bit_swab32 bit_simps dest: bit_imp_le_length)
  then show ?case using Suc.IH [OF p(2)] p
    by (simp add: L_be_def swab32_xor M_be_def [symmetric] del: funpow.simps)
qed simp

lemma crc32c_le_fold:
  "unat len \<le> length p \<Longrightarrow> ext2fs_crc32c_le crc addr p len = crc_fold L_le crc (take (unat len) p)"
  by (simp add: ext2fs_crc32c_le_def leT.body_fold)

lemma crc32_be_bits1:
  "unat len \<le> length p \<Longrightarrow> ext2fs_crc32_be crc addr p len = crc32_be_bits1 CRCPOLY_BE (unat len) crc p"
  by (simp add: ext2fs_crc32_be_def ext2fs_swab32 beT.body_fold be_bits1_fold)

text \<open>No information is lost.\<close>

lemma inj_bit_le:
  assumes "bit p 31"
  shows "inj (crc_bit_le p)"
proof (rule injI)
  fix x y assume eq: "crc_bit_le p x = crc_bit_le p y"
  have top: "bit (crc_bit_le p z) 31 \<longleftrightarrow> bit z 0" for z
    using assms by (auto simp: crc_bit_le_alt bit_simps dest: bit_imp_le_length)
  have b0: "bit x 0 \<longleftrightarrow> bit y 0" using top [of x] top [of y] eq by simp
  then have "drop_bit 1 x = drop_bit 1 y" using eq by (simp only: crc_bit_le_alt xor_cancel)
  then have "bit (drop_bit 1 x) n = bit (drop_bit 1 y) n" for n by simp
  then have "bit x (Suc n) = bit y (Suc n)" for n by (simp only: bit_drop_bit_eq o_apply plus_1_eq_Suc)
  then show "x = y" using b0 by (intro bit_word_eqI) (metis not0_implies_Suc)
qed

lemma inj_L_le: "inj L_le"
proof -
  have "bit CRC32C_POLY_LE 31" by simp
  then show ?thesis unfolding L_le_def by (intro inj_fn inj_bit_le)
qed

section \<open>CRC-16\<close>

abbreviation (input) CRC16_POLY :: u32 where "CRC16_POLY \<equiv> 0xa001"

definition L_16 :: "u32 \<Rightarrow> u32" where "L_16 = crc_bit_le CRC16_POLY ^^ 8"

interpretation c16: crc_step L_16
proof
  show "L_16 (x XOR y) = L_16 x XOR L_16 y" for x y
    unfolding L_16_def by (rule funpow_xor) (rule crc_bit_le_xor)
  show "L_16 x = drop_bit 8 x" if "x AND 255 = 0" for x
    unfolding L_16_def
  proof (rule le_shift)
    show "\<not> bit x j" if "j < 8" for j
      using that \<open>x AND 255 = 0\<close> by (metis bit_0_eq bit_and_iff bit_255w bot_apply bot_bool_def)
  qed
qed

lemma c16_build: "map ucast crc16_table = lin_build [0xc0c1, 0xc181, 0xc301, 0xc601, 0xcc01, 0xd801, 0xf001, 0xa001]"
  by (simp add: crc16_table_def lin_build_def)

lemma c16_basis: "map L_16 [1, 2, 4, 8, 0x10, 0x20, 0x40, 0x80]
  = [0xc0c1, 0xc181, 0xc301, 0xc601, 0xcc01, 0xd801, 0xf001, 0xa001]"
  unfolding L_16_def by (simp only: list.map pow8) (simp add: crc_bit_le_def)

lemma c16_length: "length crc16_table = 256"
proof -
  have "length (map ucast crc16_table :: u32 list) = 256" unfolding c16_build length_lin_build by simp
  then show ?thesis by simp
qed

lemma c16_tab: "i < 256 \<Longrightarrow> ucast (crc16_table ! i) = L_16 (word_of_nat i)"
  using lin_table [OF c16.L_xor c16_basis c16_build, of i] by (simp add: c16_length)

lemma bit_ffff: "bit (0xffff :: int) n \<longleftrightarrow> n < 16"
proof -
  have "bit (mask 16 :: int) n \<longleftrightarrow> n < 16" by (simp only: bit_mask_iff possible_bit_def) simp
  then show ?thesis by (simp add: mask_eq_exp_minus_1)
qed

lemma c16_step:
  "((drop_bit 8 crc AND 0xff) XOR ucast (crc16_table ! unat ((crc XOR ucast x) AND 0xff))) AND 0xffff
   = L_16 ((crc AND 0xffff) XOR ucast (x :: u8))" (is "(?h XOR ?t) AND _ = L_16 ?y")
proof -
  have t: "?t = L_16 ((crc XOR ucast x) AND 0xff)" by (subst c16_tab) (simp_all add: unat_and_255)
  have "(crc XOR ucast x) AND 0xff = ?y AND 255"
    by (rule bit_word_eqI) (auto simp: bit_simps bit_ffff)
  moreover have "?h = drop_bit 8 ?y"
    by (rule bit_word_eqI) (auto simp: bit_simps bit_ffff dest: bit_imp_le_length)
  ultimately have "?h XOR ?t = L_16 ?y" using c16.L_split [of ?y] t by (simp add: xor.commute)
  moreover have "(?h XOR ?t) AND 0xffff = ?h XOR ?t"
    by (rule bit_word_eqI) (auto simp: bit_simps bit_ffff dest: bit_imp_le_length)
  ultimately show ?thesis by simp
qed

lemma crc16_fold:
  "len \<le> length p \<Longrightarrow> crc16_loop len crc p = (if len = 0 then crc else crc_fold L_16 (crc AND 0xffff) (take len p))"
proof (induction len arbitrary: crc p)
  case (Suc len)
  then obtain x xs where p: "p = x # xs" "len \<le> length xs" by (auto simp: Suc_le_length_iff)
  let ?c = "L_16 ((crc AND 0xffff) XOR ucast x)"
  have "?c AND 0xffff = ?c" unfolding c16_step [symmetric] by (simp add: and.assoc)
  then show ?case using Suc.IH [OF p(2), of ?c] p by (simp only: crc16_loop.simps c16_step list.sel) simp
qed simp

end
