(* ===== verification/Crc_Theorems.thy ===== *)
theory Crc_Theorems
  imports Crc_Check
begin

text \<open>The properties of the checksums.\<close>

text \<open>
  C25. The compiled CRC-32C, which reads eight bytes at a time through eight tables after aligning
  its pointer, is the bit-serial CRC-32C of the same source file, for every seed and wherever the
  buffer starts.
\<close>

theorem crc32c_is_bit_serial:
  assumes "unat len \<le> length p"
  shows "ext2fs_crc32c_le crc addr p len = crc32_le_bits1 CRC32C_POLY_LE (unat len) crc p"
  using assms by (simp add: crc32c_le_fold le_bits1_fold L_le_def)

theorem crc32c_is_bit_serial_witness:
  "ext2fs_crc32c_le 0xffffffff 3 [0x31, 0x32, 0x33] 3 = crc32_le_bits1 CRC32C_POLY_LE 3 0xffffffff [0x31, 0x32, 0x33]"
  using crc32c_is_bit_serial [of 3 "[0x31, 0x32, 0x33]" "0xffffffff" 3] by simp

text \<open>
  C26. Two buffers that differ, but only within four consecutive bytes, have different CRC-32C
  values for every seed.
\<close>

theorem crc32c_detects_burst:
  assumes "length a = 4" "length b = 4" "a \<noteq> b" "length (pre @ a @ post) < 2 ^ 64"
  shows "ext2fs_crc32c_le crc addr (pre @ a @ post) (word_of_nat (length (pre @ a @ post)))
     \<noteq> ext2fs_crc32c_le crc addr (pre @ b @ post) (word_of_nat (length (pre @ b @ post)))"
proof -
  have "unat (word_of_nat (length (pre @ a @ post)) :: u64) = length (pre @ a @ post)"
    unfolding unat_of_nat by (rule mod_less) (use assms(4) in simp)
  then show ?thesis using le.burst [OF inj_L_le assms(1-3), of crc pre post] assms(1,2)
    by (simp add: crc32c_le_fold)
qed

theorem crc32c_detects_burst_witness:
  "ext2fs_crc32c_le 0 0 ([7] @ [1, 2, 3, 4] @ []) (word_of_nat (length ([7 :: u8] @ [1, 2, 3, 4] @ [])))
   \<noteq> ext2fs_crc32c_le 0 0 ([7] @ [1, 2, 3, 5] @ []) (word_of_nat (length ([7 :: u8] @ [1, 2, 3, 5] @ [])))"
  using crc32c_detects_burst [of "[1, 2, 3, 4]" "[1, 2, 3, 5]" "[7]" "[]" 0 0] by simp

text \<open>
  C27. The table-driven CRC-16 is the bit-serial CRC with the reflected polynomial \<open>0xa001\<close>; the bits
  above the low sixteen of the seed do not count.
\<close>

theorem crc16_is_bit_serial:
  assumes "0 < unat len" "unat len \<le> length p"
  shows "ext2fs_crc16 crc p len = crc32_le_bits1 CRC16_POLY (unat len) (crc AND 0xffff) p"
  using assms by (simp add: ext2fs_crc16_def crc16_fold le_bits1_fold L_16_def)

theorem crc16_is_bit_serial_witness:
  "ext2fs_crc16 0xffff [0x31, 0x32] 2 = crc32_le_bits1 CRC16_POLY 2 0xffff [0x31, 0x32]"
  using crc16_is_bit_serial [of 2 "[0x31, 0x32]" "0xffff"] by simp

end
