(* ===== verification/Badblocks.thy ===== *)
theory Badblocks
  imports Bmap64
begin

text \<open>
  \<^verbatim>\<open>libext2fs/badblocks.c\<close> and \<^verbatim>\<open>bb_compat.c\<close>: lists of 32-bit numbers kept in increasing order in an
  array that grows by a hundred entries. The counts are a C \<open>int\<close> in the code and unbounded here: the model is
  exact as long as the array has fewer than \<open>2 ^ 31\<close> entries after growing, which the properties ask for; past
  that \<open>bb->size += 100\<close> would overflow. \<open>badblocks.c\<close> provides every operation twice, for
  \<open>u32_list\<close> and for \<open>badblocks_list\<close>, and \<open>bb_compat.c\<close> a third time; the copies only forward. The
  list is a set of numbers: \<open>u32_set\<close>.
\<close>

section \<open>Arrays of 32-bit words\<close>

definition array32 :: "u8 list \<Rightarrow> u32 list" where
  "array32 b = map (\<lambda>i. le32 (drop (4 * i) b)) [0..<length b div 4]"

definition ulong :: "int \<Rightarrow> nat" where
  "ulong i = nat (i mod 2 ^ 64)"

definition ext2fs_get_array :: "allocator \<Rightarrow> nat \<Rightarrow> nat \<Rightarrow> errcode + mem_block" where
  "ext2fs_get_array mem count sz =
     (if count \<noteq> 0 \<and> (2 ^ 64 - 1) div count < sz then Inl EXT2_ET_NO_MEMORY
      else ext2fs_get_mem mem (count * sz))"

definition resize_array32 :: "allocator \<Rightarrow> int \<Rightarrow> int \<Rightarrow> u32 list \<Rightarrow> errcode + u32 list" where
  "resize_array32 mem old_size sz list =
     (if old_size = sz then Inr list
      else case mem (ulong sz * 4) of
             None \<Rightarrow> Inl EXT2_ET_NO_MEMORY
           | Some blk \<Rightarrow>
               let n = nat (min old_size sz)
               in Inr (take n list @ drop n (array32 (snd blk))))"

section \<open>The list\<close>

record u32_list =
  bb_magic :: errcode
  bb_num :: int
  bb_size :: int
  bb_list :: "u32 list"
  bb_flags :: int

definition make_u32_list :: "allocator \<Rightarrow> int \<Rightarrow> int \<Rightarrow> u32 list option \<Rightarrow> errcode + u32_list" where
  "make_u32_list mem sz num list =
     (case ext2fs_get_mem mem 32 of
        Inl retval \<Rightarrow> Inl retval
      | Inr _ \<Rightarrow>
          let sz = (if sz \<noteq> 0 then sz else 10)
          in case ext2fs_get_array mem (ulong sz) 4 of
               Inl retval \<Rightarrow> Inl retval
             | Inr _ \<Rightarrow>
                 Inr \<lparr>bb_magic = EXT2_ET_MAGIC_BADBLOCKS_LIST, bb_num = num, bb_size = sz,
                      bb_list = (case list of
                                   Some l \<Rightarrow> take (nat sz) l
                                 | None \<Rightarrow> replicate (nat sz) 0),
                      bb_flags = 0\<rparr>)"

definition ext2fs_u32_list_create :: "allocator \<Rightarrow> int \<Rightarrow> errcode + u32_list" where
  "ext2fs_u32_list_create mem sz = make_u32_list mem sz 0 None"

definition ext2fs_badblocks_list_create :: "allocator \<Rightarrow> int \<Rightarrow> errcode + u32_list" where
  "ext2fs_badblocks_list_create mem sz = make_u32_list mem sz 0 None"

definition ext2fs_u32_copy :: "allocator \<Rightarrow> u32_list \<Rightarrow> errcode + u32_list" where
  "ext2fs_u32_copy mem src =
     (case make_u32_list mem (bb_size src) (bb_num src) (Some (bb_list src)) of
        Inl retval \<Rightarrow> Inl retval
      | Inr dest \<Rightarrow> Inr (dest\<lparr>bb_flags := bb_flags src\<rparr>))"

definition ext2fs_badblocks_copy :: "allocator \<Rightarrow> u32_list \<Rightarrow> errcode + u32_list" where
  "ext2fs_badblocks_copy mem src = ext2fs_u32_copy mem src"

section \<open>Adding\<close>

text \<open>The scan for the place of a new number: \<open>None\<close> when the number is found.\<close>

primrec u32_add_scan :: "nat \<Rightarrow> int \<Rightarrow> u32 list \<Rightarrow> u32 \<Rightarrow> int \<Rightarrow> int option" where
  "u32_add_scan 0 i list blk j = Some j"
| "u32_add_scan (Suc n) i list blk j =
     (if list ! nat i = blk then None
      else if list ! nat i > blk then Some i
      else u32_add_scan n (i + 1) list blk j)"

text \<open>\<open>for (i = num; i > j; i--)\<close>, \<open>n = i - j\<close> times.\<close>

primrec u32_shift_up :: "nat \<Rightarrow> int \<Rightarrow> u32 list \<Rightarrow> u32 list" where
  "u32_shift_up 0 i list = list"
| "u32_shift_up (Suc n) i list = u32_shift_up n (i - 1) (list[nat i := list ! nat (i - 1)])"

definition u32_list_put :: "u32_list \<Rightarrow> u32 \<Rightarrow> u32_list" where
  "u32_list_put bb blk =
     (let i = bb_num bb - 1
      in if bb_num bb \<noteq> 0 \<and> bb_list bb ! nat i = blk then bb
         else if bb_num bb = 0 \<or> bb_list bb ! nat i < blk
         then bb\<lparr>bb_list := (bb_list bb)[nat (bb_num bb) := blk], bb_num := bb_num bb + 1\<rparr>
         else case u32_add_scan (nat (bb_num bb)) 0 (bb_list bb) blk (bb_num bb) of
                None \<Rightarrow> bb
              | Some j \<Rightarrow>
                  let list = u32_shift_up (nat (bb_num bb - j)) (bb_num bb) (bb_list bb)
                  in bb\<lparr>bb_list := list[nat j := blk], bb_num := bb_num bb + 1\<rparr>)"

definition ext2fs_u32_list_add :: "allocator \<Rightarrow> u32_list \<Rightarrow> u32 \<Rightarrow> u32_list \<times> errcode" where
  "ext2fs_u32_list_add mem bb blk =
     (if bb_magic bb \<noteq> EXT2_ET_MAGIC_BADBLOCKS_LIST then (bb, EXT2_ET_MAGIC_BADBLOCKS_LIST)
      else if bb_num bb \<ge> bb_size bb
      then case resize_array32 mem (bb_size bb) (bb_size bb + 100) (bb_list bb) of
             Inl retval \<Rightarrow> (bb, retval)
           | Inr list \<Rightarrow> (u32_list_put (bb\<lparr>bb_size := bb_size bb + 100, bb_list := list\<rparr>) blk, 0)
      else (u32_list_put bb blk, 0))"

definition ext2fs_badblocks_list_add :: "allocator \<Rightarrow> u32_list \<Rightarrow> u32 \<Rightarrow> u32_list \<times> errcode" where
  "ext2fs_badblocks_list_add mem bb blk = ext2fs_u32_list_add mem bb blk"

section \<open>Searching\<close>

function u32_find_loop :: "u32 list \<Rightarrow> u32 \<Rightarrow> int \<Rightarrow> int \<Rightarrow> int" where
  "u32_find_loop list blk low high =
     (if low < high then
        let mid = (low + high) div 2
        in if mid = low \<or> mid = high then -1
           else if blk = list ! nat mid then mid
           else if blk < list ! nat mid then u32_find_loop list blk low mid
           else u32_find_loop list blk mid high
      else -1)"
  by pat_completeness auto
termination by (relation "measure (\<lambda>(list, blk, low, high). nat (high - low))") auto

declare u32_find_loop.simps [simp del]

definition ext2fs_u32_list_find :: "u32_list \<Rightarrow> u32 \<Rightarrow> int" where
  "ext2fs_u32_list_find bb blk =
     (if bb_magic bb \<noteq> EXT2_ET_MAGIC_BADBLOCKS_LIST then -1
      else if bb_num bb = 0 then -1
      else
        let low = 0; high = bb_num bb - 1
        in if blk = bb_list bb ! nat low then low
           else if blk = bb_list bb ! nat high then high
           else u32_find_loop (bb_list bb) blk low high)"

definition ext2fs_u32_list_test :: "u32_list \<Rightarrow> u32 \<Rightarrow> int" where
  "ext2fs_u32_list_test bb blk = (if ext2fs_u32_list_find bb blk < 0 then 0 else 1)"

definition ext2fs_badblocks_list_test :: "u32_list \<Rightarrow> u32 \<Rightarrow> int" where
  "ext2fs_badblocks_list_test bb blk = ext2fs_u32_list_test bb blk"

section \<open>Deleting\<close>

text \<open>\<open>for (i = remloc; i < num - 1; i++)\<close>, \<open>n = num - 1 - i\<close> times.\<close>

primrec u32_shift_down :: "nat \<Rightarrow> int \<Rightarrow> u32 list \<Rightarrow> u32 list" where
  "u32_shift_down 0 i list = list"
| "u32_shift_down (Suc n) i list = u32_shift_down n (i + 1) (list[nat i := list ! nat (i + 1)])"

definition ext2fs_u32_list_del :: "u32_list \<Rightarrow> u32 \<Rightarrow> u32_list \<times> int" where
  "ext2fs_u32_list_del bb blk =
     (if bb_num bb = 0 then (bb, -1)
      else
        let remloc = ext2fs_u32_list_find bb blk
        in if remloc < 0 then (bb, -1)
           else (bb\<lparr>bb_list := u32_shift_down (nat (bb_num bb - 1 - remloc)) remloc (bb_list bb),
                    bb_num := bb_num bb - 1\<rparr>, 0))"

definition ext2fs_badblocks_list_del :: "u32_list \<Rightarrow> u32 \<Rightarrow> u32_list" where
  "ext2fs_badblocks_list_del bb blk = fst (ext2fs_u32_list_del bb blk)"

section \<open>Iterating\<close>

text \<open>
  The iterator points to its list, which may change between two steps; the step takes the list the
  pointer leads to. \<open>iterate_end\<close> clears the pointer and frees the iterator.
\<close>

record u32_iterate =
  it_magic :: errcode
  it_ptr :: int

definition ext2fs_u32_list_iterate_begin :: "allocator \<Rightarrow> u32_list \<Rightarrow> errcode + u32_iterate" where
  "ext2fs_u32_list_iterate_begin mem bb =
     (if bb_magic bb \<noteq> EXT2_ET_MAGIC_BADBLOCKS_LIST then Inl EXT2_ET_MAGIC_BADBLOCKS_LIST
      else case ext2fs_get_mem mem 24 of
             Inl retval \<Rightarrow> Inl retval
           | Inr _ \<Rightarrow> Inr \<lparr>it_magic = EXT2_ET_MAGIC_BADBLOCKS_ITERATE, it_ptr = 0\<rparr>)"

definition ext2fs_badblocks_list_iterate_begin :: "allocator \<Rightarrow> u32_list \<Rightarrow> errcode + u32_iterate" where
  "ext2fs_badblocks_list_iterate_begin mem bb = ext2fs_u32_list_iterate_begin mem bb"

text \<open>The result is the new iterator, the number stored through \<open>blk\<close> if any, and the answer.\<close>

definition ext2fs_u32_list_iterate ::
  "u32_iterate \<Rightarrow> u32_list \<Rightarrow> u32_iterate \<times> u32 option \<times> int" where
  "ext2fs_u32_list_iterate iter bb =
     (if it_magic iter \<noteq> EXT2_ET_MAGIC_BADBLOCKS_ITERATE then (iter, None, 0)
      else if bb_magic bb \<noteq> EXT2_ET_MAGIC_BADBLOCKS_LIST then (iter, None, 0)
      else if it_ptr iter < bb_num bb
      then (iter\<lparr>it_ptr := it_ptr iter + 1\<rparr>, Some (bb_list bb ! nat (it_ptr iter)), 1)
      else (iter, Some 0, 0))"

definition ext2fs_badblocks_list_iterate ::
  "u32_iterate \<Rightarrow> u32_list \<Rightarrow> u32_iterate \<times> u32 option \<times> int" where
  "ext2fs_badblocks_list_iterate iter bb = ext2fs_u32_list_iterate iter bb"

text \<open>The memory that \<open>iterate_end\<close> leaves: nothing, unless the iterator is not one.\<close>

definition ext2fs_u32_list_iterate_end :: "u32_iterate option \<Rightarrow> u32_iterate option" where
  "ext2fs_u32_list_iterate_end iter =
     (case iter of
        None \<Rightarrow> None
      | Some it \<Rightarrow> if it_magic it \<noteq> EXT2_ET_MAGIC_BADBLOCKS_ITERATE then iter else None)"

definition ext2fs_badblocks_list_iterate_end :: "u32_iterate option \<Rightarrow> u32_iterate option" where
  "ext2fs_badblocks_list_iterate_end iter = ext2fs_u32_list_iterate_end iter"

section \<open>Comparing and counting\<close>

definition ext2fs_u32_list_equal :: "u32_list \<Rightarrow> u32_list \<Rightarrow> int" where
  "ext2fs_u32_list_equal bb1 bb2 =
     (if bb_magic bb1 \<noteq> EXT2_ET_MAGIC_BADBLOCKS_LIST then EXT2_ET_MAGIC_BADBLOCKS_LIST
      else if bb_magic bb2 \<noteq> EXT2_ET_MAGIC_BADBLOCKS_LIST then EXT2_ET_MAGIC_BADBLOCKS_LIST
      else if bb_num bb1 \<noteq> bb_num bb2 then 0
      else if take (nat (bb_num bb1)) (bb_list bb1) \<noteq> take (nat (bb_num bb1)) (bb_list bb2) then 0
      else 1)"

definition ext2fs_badblocks_equal :: "u32_list \<Rightarrow> u32_list \<Rightarrow> int" where
  "ext2fs_badblocks_equal bb1 bb2 = ext2fs_u32_list_equal bb1 bb2"

definition ext2fs_u32_list_count :: "u32_list \<Rightarrow> int" where
  "ext2fs_u32_list_count bb = bb_num bb"

text \<open>\<open>freefs.c\<close>: what is left of a list after it is freed.\<close>

definition ext2fs_u32_list_free :: "u32_list \<Rightarrow> u32_list option" where
  "ext2fs_u32_list_free bb = (if bb_magic bb \<noteq> EXT2_ET_MAGIC_BADBLOCKS_LIST then Some bb else None)"

definition ext2fs_badblocks_list_free :: "u32_list \<Rightarrow> u32_list option" where
  "ext2fs_badblocks_list_free bb = ext2fs_u32_list_free bb"

section \<open>The compatibility names\<close>

definition badblocks_list_create :: "allocator \<Rightarrow> int \<Rightarrow> errcode + u32_list" where
  "badblocks_list_create mem sz = ext2fs_badblocks_list_create mem sz"

definition badblocks_list_free :: "u32_list \<Rightarrow> u32_list option" where
  "badblocks_list_free bb = ext2fs_badblocks_list_free bb"

definition badblocks_list_add :: "allocator \<Rightarrow> u32_list \<Rightarrow> u32 \<Rightarrow> u32_list \<times> errcode" where
  "badblocks_list_add mem bb blk = ext2fs_badblocks_list_add mem bb blk"

definition badblocks_list_test :: "u32_list \<Rightarrow> u32 \<Rightarrow> int" where
  "badblocks_list_test bb blk = ext2fs_badblocks_list_test bb blk"

definition badblocks_list_iterate_begin :: "allocator \<Rightarrow> u32_list \<Rightarrow> errcode + u32_iterate" where
  "badblocks_list_iterate_begin mem bb = ext2fs_badblocks_list_iterate_begin mem bb"

definition badblocks_list_iterate ::
  "u32_iterate \<Rightarrow> u32_list \<Rightarrow> u32_iterate \<times> u32 option \<times> int" where
  "badblocks_list_iterate iter bb = ext2fs_badblocks_list_iterate iter bb"

definition badblocks_list_iterate_end :: "u32_iterate option \<Rightarrow> u32_iterate option" where
  "badblocks_list_iterate_end iter = ext2fs_badblocks_list_iterate_end iter"

section \<open>The list as a set\<close>

definition u32_items :: "u32_list \<Rightarrow> u32 list" where
  "u32_items bb = take (nat (bb_num bb)) (bb_list bb)"

definition u32_wf :: "u32_list \<Rightarrow> bool" where
  "u32_wf bb \<longleftrightarrow> bb_magic bb = EXT2_ET_MAGIC_BADBLOCKS_LIST \<and> 0 \<le> bb_num bb \<and> bb_num bb \<le> bb_size bb
     \<and> 0 < bb_size bb \<and> int (length (bb_list bb)) = bb_size bb \<and> sorted_wrt (<) (u32_items bb)"

definition u32_set :: "u32_list \<Rightarrow> u32 set" where
  "u32_set bb = set (u32_items bb)"

lemma u32_wf_length: "u32_wf bb \<Longrightarrow> length (u32_items bb) = nat (bb_num bb)"
  by (auto simp: u32_wf_def u32_items_def)

lemma u32_items_nth: "i < nat (bb_num bb) \<Longrightarrow> u32_items bb ! i = bb_list bb ! i"
  by (simp add: u32_items_def)

lemma finite_u32_set [simp]: "finite (u32_set bb)"
  by (simp add: u32_set_def)

lemma u32_create_wf:
  assumes "ext2fs_u32_list_create mem sz = Inr bb" "0 \<le> sz"
  shows "u32_wf bb \<and> u32_set bb = {}"
  using assms
  by (auto simp: ext2fs_u32_list_create_def make_u32_list_def u32_wf_def u32_set_def u32_items_def
      split: sum.splits if_splits)

lemma u32_copy_wf:
  assumes "u32_wf bb" "ext2fs_u32_copy mem bb = Inr c"
  shows "u32_wf c \<and> u32_set c = u32_set bb \<and> bb_flags c = bb_flags bb"
  using assms
  by (auto simp: ext2fs_u32_copy_def make_u32_list_def Let_def u32_wf_def u32_set_def u32_items_def
      split: sum.splits if_splits)

section \<open>Searching is exact\<close>

lemma sorted_wrt_nth_mono:
  "sorted_wrt (<) xs \<Longrightarrow> i \<le> j \<Longrightarrow> j < length xs \<Longrightarrow> xs ! i \<le> (xs ! j :: u32)"
  by (cases "i = j") (auto dest: sorted_wrt_nth_less [of _ _ i j])

lemma sorted_wrt_nth_inj:
  "sorted_wrt (<) xs \<Longrightarrow> i < length xs \<Longrightarrow> j < length xs \<Longrightarrow> xs ! i < (xs ! j :: u32) \<longleftrightarrow> i < j"
  by (metis linorder_not_less sorted_wrt_nth_less sorted_wrt_nth_mono)

lemma find_loop:
  assumes "sorted_wrt (<) xs" "\<And>k. k < length xs \<Longrightarrow> list ! k = xs ! k"
    and "0 \<le> low" "high < int (length xs)" "low \<le> high"
    and "\<And>k. k < length xs \<Longrightarrow> xs ! k = blk \<Longrightarrow> low < int k \<and> int k < high"
  shows "if blk \<in> set xs
    then 0 \<le> u32_find_loop list blk low high \<and> u32_find_loop list blk low high < int (length xs)
      \<and> xs ! nat (u32_find_loop list blk low high) = blk
    else u32_find_loop list blk low high = -1"
  using assms
proof (induction list blk low high rule: u32_find_loop.induct)
  case (1 list blk low high)
  define mid where "mid = (low + high) div 2"
  show ?case
  proof (cases "mid = low \<or> mid = high \<or> \<not> low < high")
    case True
    then have "high \<le> low + 1" unfolding mid_def by linarith
    then have "k < length xs \<Longrightarrow> xs ! k \<noteq> blk" for k using "1.prems"(6) [of k] by linarith
    then have "blk \<notin> set xs" by (auto simp: in_set_conv_nth)
    moreover have "u32_find_loop list blk low high = -1"
      using True by (subst u32_find_loop.simps) (auto simp: Let_def mid_def)
    ultimately show ?thesis by simp
  next
    case False
    then have m: "low < mid" "mid < high" "low < high" unfolding mid_def by linarith+
    then have ml: "nat mid < length xs" "0 \<le> mid" using "1.prems"(3,4) by auto
    note step = u32_find_loop.simps [of list blk low high]
    consider "blk = list ! nat mid" | "blk < list ! nat mid" | "list ! nat mid < blk" by fastforce
    then show ?thesis
    proof cases
      case 1
      then have "u32_find_loop list blk low high = mid" using m by (subst step) (simp add: Let_def mid_def)
      moreover have "xs ! nat mid = blk" "blk \<in> set xs" using 1 "1.prems"(2) ml by auto
      ultimately show ?thesis using ml by auto
    next
      case 2
      have e: "u32_find_loop list blk low high = u32_find_loop list blk low mid"
        using m 2 by (subst step) (auto simp: Let_def mid_def)
      have "low < int k \<and> int k < mid" if k: "k < length xs" "xs ! k = blk" for k
      proof -
        have "xs ! k < xs ! nat mid" using 2 k "1.prems"(2) ml(1) by simp
        then have "k < nat mid" using sorted_wrt_nth_inj [OF "1.prems"(1)] k(1) ml(1) by blast
        then show ?thesis using "1.prems"(6) [OF k] by simp
      qed
      then show ?thesis unfolding e using "1.prems" m 2
        by (intro "1.IH"(1) [OF _ mid_def]) auto
    next
      case 3
      have e: "u32_find_loop list blk low high = u32_find_loop list blk mid high"
        using m 3 by (subst step) (auto simp: Let_def mid_def)
      have "mid < int k \<and> int k < high" if k: "k < length xs" "xs ! k = blk" for k
      proof -
        have "xs ! nat mid < xs ! k" using 3 k "1.prems"(2) ml(1) by simp
        then have "nat mid < k" using sorted_wrt_nth_inj [OF "1.prems"(1)] k(1) ml(1) by blast
        then show ?thesis using "1.prems"(6) [OF k] by simp
      qed
      then show ?thesis unfolding e using "1.prems" m ml 3
        by (intro "1.IH"(2) [OF _ mid_def]) auto
    qed
  qed
qed

lemma find_exact:
  assumes "u32_wf bb"
  shows "if blk \<in> u32_set bb
    then 0 \<le> ext2fs_u32_list_find bb blk \<and> ext2fs_u32_list_find bb blk < bb_num bb
      \<and> u32_items bb ! nat (ext2fs_u32_list_find bb blk) = blk
    else ext2fs_u32_list_find bb blk = -1"
proof (cases "bb_num bb = 0")
  case True
  then show ?thesis by (simp add: u32_set_def u32_items_def ext2fs_u32_list_find_def)
next
  case False
  define xs where "xs = u32_items bb"
  have wf: "bb_magic bb = EXT2_ET_MAGIC_BADBLOCKS_LIST" "0 < bb_num bb" "int (length xs) = bb_num bb"
      "sorted_wrt (<) xs" "xs \<noteq> []"
    using assms False u32_wf_length [OF assms] by (auto simp: u32_wf_def xs_def)
  have nth: "k < length xs \<Longrightarrow> bb_list bb ! k = xs ! k" for k
    unfolding xs_def by (simp add: u32_items_def)
  let ?n = "bb_num bb"
  have ends: "nat 0 < length xs" "nat (?n - 1) < length xs" using wf by auto
  show ?thesis
  proof (cases "blk = xs ! nat 0 \<or> blk = xs ! nat (?n - 1)")
    case True
    then have "blk \<in> set xs" using ends nth_mem by metis
    then show ?thesis using True wf False nth [OF ends(1)] nth [OF ends(2)]
      by (auto simp: ext2fs_u32_list_find_def Let_def u32_set_def xs_def [symmetric])
  next
    case f: False
    then have e: "ext2fs_u32_list_find bb blk = u32_find_loop (bb_list bb) blk 0 (?n - 1)"
      using False wf nth [OF ends(1)] nth [OF ends(2)] by (simp add: ext2fs_u32_list_find_def)
    have "0 < int k \<and> int k < ?n - 1" if "k < length xs" "xs ! k = blk" for k
    proof -
      have "k \<noteq> 0" "k \<noteq> nat (?n - 1)" using f that by (auto intro: ccontr)
      then show ?thesis using that wf by linarith
    qed
    then show ?thesis
      unfolding e u32_set_def xs_def [symmetric] using find_loop [OF wf(4) nth, of 0 "?n - 1" blk] wf by auto
  qed
qed

section \<open>Adding and deleting\<close>

lemma nat_1_int [simp]: "nat (1 + int i) = Suc i"
  by simp

lemma add_scan:
  assumes "\<And>k. k < length xs \<Longrightarrow> list ! k = xs ! k" "sorted_wrt (<) xs" "i + n = length xs"
    and "\<And>k. k < i \<Longrightarrow> xs ! k < blk" "j0 = int (length xs)"
  shows "case u32_add_scan n (int i) list blk j0 of
      None \<Rightarrow> blk \<in> set xs
    | Some j \<Rightarrow> 0 \<le> j \<and> nat j \<le> length xs \<and> (\<forall>k < nat j. xs ! k < blk) \<and> (\<forall>k. nat j \<le> k \<and> k < length xs \<longrightarrow> blk < xs ! k)"
  using assms
proof (induction n arbitrary: i)
  case (Suc n)
  then have i: "i < length xs" "list ! i = xs ! i" by auto
  consider "xs ! i = blk" | "blk < xs ! i" | "xs ! i < blk" by fastforce
  then show ?case
  proof cases
    case 1
    then show ?thesis using i nth_mem [OF i(1)] by simp
  next
    case 2
    have "blk < xs ! k" if "i \<le> k" "k < length xs" for k
      using 2 sorted_wrt_nth_mono [OF Suc.prems(2) that] by order
    then show ?thesis using 2 i Suc.prems(4) by auto
  next
    case 3
    have "k < Suc i \<Longrightarrow> xs ! k < blk" for k using 3 Suc.prems(4) by (cases "k = i") auto
    then have "case u32_add_scan n (int (Suc i)) list blk j0 of None \<Rightarrow> blk \<in> set xs
      | Some j \<Rightarrow> 0 \<le> j \<and> nat j \<le> length xs \<and> (\<forall>k < nat j. xs ! k < blk) \<and> (\<forall>k. nat j \<le> k \<and> k < length xs \<longrightarrow> blk < xs ! k)"
      using Suc.prems by (intro Suc.IH) auto
    moreover have "\<not> blk < xs ! i" "xs ! i \<noteq> blk" using 3 by auto
    ultimately show ?thesis using i by (simp add: add.commute)
  qed
qed auto

lemma shift_up:
  assumes "n \<le> i" "i < length list"
  shows "length (u32_shift_up n (int i) list) = length list \<and>
    (\<forall>k < length list. u32_shift_up n (int i) list ! k =
      (if i - n < k \<and> k \<le> i then list ! (k - 1) else list ! k))"
  using assms
proof (induction n arbitrary: i list)
  case (Suc n)
  obtain i' where i: "i = Suc i'" using Suc.prems(1) by (cases i) auto
  have "n \<le> i'" "i' < length (list[i := list ! i'])" using Suc.prems i by auto
  from Suc.IH [OF this] show ?case using i Suc.prems by (auto simp: nth_list_update)
qed auto

lemma shift_down:
  assumes "i + n < length list"
  shows "length (u32_shift_down n (int i) list) = length list \<and>
    (\<forall>k < length list. u32_shift_down n (int i) list ! k =
      (if i \<le> k \<and> k < i + n then list ! Suc k else list ! k))"
  using assms
proof (induction n arbitrary: i list)
  case (Suc n)
  have s: "nat (int i + 1) = Suc i" "int i + 1 = int (Suc i)" by simp_all
  have "Suc i + n < length (list[i := list ! Suc i])" using Suc.prems by simp
  from Suc.IH [OF this] show ?case using Suc.prems
    by (auto simp: nth_list_update s not_less_eq_eq le_antisym)
qed auto

lemma sorted_insert_at:
  assumes "sorted_wrt (<) xs" "j \<le> length xs" "\<forall>k < j. xs ! k < blk" "\<forall>k. j \<le> k \<and> k < length xs \<longrightarrow> blk < xs ! k"
  shows "sorted_wrt (<) (take j xs @ (blk :: u32) # drop j xs)"
proof -
  have "\<forall>x \<in> set (take j xs). x < blk" using assms(2,3) by (auto simp: in_set_conv_nth)
  moreover have "\<forall>y \<in> set (drop j xs). blk < y" using assms(4) by (auto simp: in_set_conv_nth)
  moreover have "\<forall>x \<in> set (take j xs). \<forall>y \<in> set (drop j xs). x < y"
    using calculation by (meson order.strict_trans)
  ultimately show ?thesis using assms(1)
    by (auto simp: sorted_wrt_append sorted_wrt_take sorted_wrt_drop)
qed

lemma put_items:
  assumes "u32_wf bb" "bb_num bb < bb_size bb"
  shows "u32_wf (u32_list_put bb blk) \<and> u32_set (u32_list_put bb blk) = insert blk (u32_set bb)"
proof -
  define xs where "xs = u32_items bb"
  define n where "n = length xs"
  have wf: "bb_num bb = int n" "n < length (bb_list bb)" "sorted_wrt (<) xs" "int (length (bb_list bb)) = bb_size bb"
    using assms u32_wf_length [OF assms(1)] by (auto simp: u32_wf_def xs_def n_def)
  have xs: "xs = take n (bb_list bb)" using wf(1) by (simp add: xs_def u32_items_def)
  have nth: "k < n \<Longrightarrow> bb_list bb ! k = xs ! k" for k by (simp add: xs)
  have put: "u32_wf b \<and> u32_set b = insert blk (u32_set bb)"
    if "b = bb\<lparr>bb_list := l, bb_num := bb_num bb + 1\<rparr>" "length l = length (bb_list bb)"
      "take (Suc n) l = take j xs @ blk # drop j xs" "j \<le> n"
      "\<forall>k < j. xs ! k < blk" "\<forall>k. j \<le> k \<and> k < n \<longrightarrow> blk < xs ! k" for b l j
  proof -
    have "nat (bb_num bb + 1) = Suc n" using wf(1) by simp
    then have i: "u32_items b = take j xs @ blk # drop j xs" using that(1,3) by (simp add: u32_items_def)
    have "sorted_wrt (<) (u32_items b)"
      unfolding i using sorted_insert_at [OF wf(3)] that(4-6) n_def by blast
    moreover have "set (u32_items b) = insert blk (set xs)"
      unfolding i by (metis Un_insert_right append_take_drop_id list.simps(15) set_append)
    ultimately show ?thesis using assms that(1,2) wf by (auto simp: u32_wf_def u32_set_def xs_def)
  qed
  consider "n \<noteq> 0" "bb_list bb ! (n - 1) = blk" | "n = 0 \<or> bb_list bb ! (n - 1) < blk"
    | "n \<noteq> 0" "blk < bb_list bb ! (n - 1)" by fastforce
  then show ?thesis
  proof cases
    case 1
    then have "blk = xs ! (n - 1)" "n - 1 < length xs" using nth [of "n - 1"] n_def by auto
    then have "blk \<in> u32_set bb" unfolding u32_set_def xs_def [symmetric] by simp
    moreover have "u32_list_put bb blk = bb" using 1 wf(1) by (simp add: u32_list_put_def nat_diff_distrib)
    ultimately show ?thesis using assms(1) by auto
  next
    case 2
    have "u32_list_put bb blk = bb\<lparr>bb_list := (bb_list bb)[n := blk], bb_num := bb_num bb + 1\<rparr>"
      using 2 wf(1) by (auto simp: u32_list_put_def nat_diff_distrib Let_def)
    moreover have "xs ! k < blk" if "k < n" for k
      using 2 that sorted_wrt_nth_mono [OF wf(3), of k "n - 1"] nth [of "n - 1"] n_def by fastforce
    ultimately show ?thesis
      using wf(2) by (intro put [of _ "(bb_list bb)[n := blk]" n]) (auto simp: xs take_Suc_conv_app_nth)
  next
    case 3
    have lst: "blk < xs ! (n - 1)" using 3 nth [of "n - 1"] by simp
    have scan: "case u32_add_scan n 0 (bb_list bb) blk (int n) of None \<Rightarrow> blk \<in> set xs
      | Some j \<Rightarrow> 0 \<le> j \<and> nat j \<le> length xs \<and> (\<forall>k < nat j. xs ! k < blk) \<and> (\<forall>k. nat j \<le> k \<and> k < length xs \<longrightarrow> blk < xs ! k)"
      using add_scan [of xs "bb_list bb" 0 n blk "int n"] nth wf(3) by (simp add: n_def)
    have p: "u32_list_put bb blk = (case u32_add_scan n 0 (bb_list bb) blk (int n) of None \<Rightarrow> bb
        | Some j \<Rightarrow> bb\<lparr>bb_list := (u32_shift_up (nat (int n - j)) (int n) (bb_list bb))[nat j := blk], bb_num := bb_num bb + 1\<rparr>)"
      using 3 wf(1) by (auto simp: u32_list_put_def nat_diff_distrib Let_def split: option.splits)
    show ?thesis
    proof (cases "u32_add_scan n 0 (bb_list bb) blk (int n)")
      case None
      then show ?thesis using p scan assms(1) by (auto simp: u32_set_def xs_def)
    next
      case (Some j')
      then obtain j where j: "j' = int j" "j \<le> n" "\<forall>k < j. xs ! k < blk" "\<forall>k. j \<le> k \<and> k < n \<longrightarrow> blk < xs ! k"
        using scan n_def by (cases j' rule: int_cases) auto
      define l where "l = u32_shift_up (n - j) (int n) (bb_list bb)"
      have l: "length l = length (bb_list bb)"
        "k < length (bb_list bb) \<Longrightarrow> l ! k = (if j < k \<and> k \<le> n then bb_list bb ! (k - 1) else bb_list bb ! k)" for k
        using shift_up [of "n - j" n "bb_list bb"] wf(2) j(2) by (auto simp: l_def)
      have "take (Suc n) (l[j := blk]) = take j xs @ blk # drop j xs"
      proof (rule nth_equalityI)
        show "length (take (Suc n) (l[j := blk])) = length (take j xs @ blk # drop j xs)"
          using l(1) wf(2) j(2) n_def by simp
        fix k assume "k < length (take (Suc n) (l[j := blk]))"
        then have "k \<le> n" "k < length (bb_list bb)" using l(1) wf(2) by auto
        then show "take (Suc n) (l[j := blk]) ! k = (take j xs @ blk # drop j xs) ! k"
        proof (cases "j < k")
          case True
          then obtain d where "k = Suc (j + d)" by (auto simp: less_iff_Suc_add)
          then show ?thesis using l j(2) nth [of "j + d"] n_def \<open>k \<le> n\<close> \<open>k < length (bb_list bb)\<close>
            by (simp add: nth_append)
        next
          case False
          then show ?thesis using l j(2) nth [of k] n_def \<open>k \<le> n\<close> \<open>k < length (bb_list bb)\<close>
            by (cases "k = j") (auto simp: nth_append)
        qed
      qed
      then show ?thesis
        using p Some j l(1) by (intro put [of _ "l[j := blk]" j]) (auto simp: l_def nat_diff_distrib)
    qed
  qed
qed

lemma resize_wf:
  assumes "u32_wf bb" "resize_array32 mem (bb_size bb) (bb_size bb + 100) (bb_list bb) = Inr l"
    and "alloc_sized mem" "bb_size bb + 100 < 2 ^ 62"
  shows "u32_wf (bb\<lparr>bb_size := bb_size bb + 100, bb_list := l\<rparr>)
    \<and> u32_items (bb\<lparr>bb_size := bb_size bb + 100, bb_list := l\<rparr>) = u32_items bb"
proof -
  let ?n = "nat (bb_size bb)"
  have wf: "0 < bb_size bb" "bb_num bb \<le> bb_size bb" "length (bb_list bb) = ?n" using assms(1) by (auto simp: u32_wf_def)
  obtain blk where blk: "mem (ulong (bb_size bb + 100) * 4) = Some blk"
    and l: "l = take ?n (bb_list bb) @ drop ?n (array32 (snd blk))"
    using assms(2) wf(1) by (auto simp: resize_array32_def Let_def split: option.splits)
  have "ulong (bb_size bb + 100) = ?n + 100" using wf(1) assms(4) by (simp add: ulong_def nat_add_distrib)
  then have "length (array32 (snd blk)) = ?n + 100"
    using assms(3) blk by (cases blk) (fastforce simp: alloc_sized_def array32_def)
  then have "length l = ?n + 100" using l wf(3) by simp
  moreover have "take (nat (bb_num bb)) l = u32_items bb"
    using wf l by (auto simp: u32_items_def nat_mono)
  ultimately show ?thesis using assms(1) wf by (auto simp: u32_wf_def u32_items_def)
qed

lemma add_spec:
  assumes "u32_wf bb" "alloc_sized mem" "bb_size bb + 100 < 2 ^ 62"
    and "ext2fs_u32_list_add mem bb blk = (bb', err)"
  shows "u32_wf bb' \<and> (err = 0 \<and> u32_set bb' = insert blk (u32_set bb)
    \<or> err = EXT2_ET_NO_MEMORY \<and> bb' = bb)"
proof (cases "bb_num bb \<ge> bb_size bb")
  case True
  show ?thesis
  proof (cases "resize_array32 mem (bb_size bb) (bb_size bb + 100) (bb_list bb)")
    case (Inl e)
    then have "e = EXT2_ET_NO_MEMORY" by (auto simp: resize_array32_def Let_def split: option.splits)
    then show ?thesis using assms(1,4) True Inl by (auto simp: ext2fs_u32_list_add_def u32_wf_def)
  next
    case (Inr l)
    let ?b = "bb\<lparr>bb_size := bb_size bb + 100, bb_list := l\<rparr>"
    have b: "u32_wf ?b" "u32_set ?b = u32_set bb"
      using resize_wf [OF assms(1) Inr assms(2,3)] by (auto simp: u32_set_def)
    have "bb_num ?b < bb_size ?b" using assms(1) by (simp add: u32_wf_def)
    from put_items [OF b(1) this] show ?thesis using assms(1,4) True Inr b
      by (auto simp: ext2fs_u32_list_add_def u32_wf_def)
  qed
next
  case False
  then have "bb' = u32_list_put bb blk" "err = 0" using assms(1,4) by (auto simp: ext2fs_u32_list_add_def u32_wf_def)
  then show ?thesis using put_items [OF assms(1)] False by auto
qed

lemma del_spec:
  assumes "u32_wf bb" "ext2fs_u32_list_del bb blk = (bb', r)"
  shows "u32_wf bb' \<and> u32_set bb' = u32_set bb - {blk} \<and> (r = 0 \<longleftrightarrow> blk \<in> u32_set bb) \<and> (r = 0 \<or> r = -1)"
proof (cases "blk \<in> u32_set bb")
  case False
  then show ?thesis using assms find_exact [OF assms(1), of blk]
    by (auto simp: ext2fs_u32_list_del_def Let_def split: if_splits)
next
  case True
  define xs where "xs = u32_items bb"
  define n where "n = length xs"
  obtain i where i: "ext2fs_u32_list_find bb blk = int i" "i < n" "xs ! i = blk"
    using find_exact [OF assms(1), of blk] True u32_wf_length [OF assms(1)]
    by (cases "ext2fs_u32_list_find bb blk" rule: int_cases) (auto simp: xs_def n_def)
  have wf: "bb_num bb = int n" "n \<le> length (bb_list bb)" "sorted_wrt (<) xs" "xs = take n (bb_list bb)"
    using assms(1) u32_wf_length [OF assms(1)] by (auto simp: u32_wf_def xs_def n_def u32_items_def)
  define l where "l = u32_shift_down (n - 1 - i) (int i) (bb_list bb)"
  have l: "length l = length (bb_list bb)"
    "k < length (bb_list bb) \<Longrightarrow> l ! k = (if i \<le> k \<and> k < n - 1 then bb_list bb ! Suc k else bb_list bb ! k)" for k
    using shift_down [of i "n - 1 - i" "bb_list bb"] wf(2) i(2) by (auto simp: l_def)
  have "nat (int n - 1 - int i) = n - 1 - i" using i(2) by simp
  then have b: "bb' = bb\<lparr>bb_list := l, bb_num := int n - 1\<rparr>" "r = 0"
    using assms(2) i wf(1) by (auto simp: ext2fs_u32_list_del_def l_def)
  have items: "u32_items bb' = take i xs @ drop (Suc i) xs"
  proof (rule nth_equalityI)
    show "length (u32_items bb') = length (take i xs @ drop (Suc i) xs)"
      using b(1) l(1) wf i(2) by (simp add: u32_items_def nat_diff_distrib)
    fix k assume "k < length (u32_items bb')"
    then have "k < n - 1" using b(1) by (auto simp: u32_items_def)
    then show "u32_items bb' ! k = (take i xs @ drop (Suc i) xs) ! k"
      using b(1) l(2) [of k] wf i(2) by (auto simp: u32_items_def nat_diff_distrib nth_append)
  qed
  have d: "xs = take i xs @ blk # drop (Suc i) xs" using i n_def by (metis id_take_nth_drop)
  have s: "sorted_wrt (<) (take i xs @ blk # drop (Suc i) xs)" using wf(3) d by simp
  then have "sorted_wrt (<) (u32_items bb')" unfolding items by (auto simp: sorted_wrt_append)
  moreover have "set (u32_items bb') = set xs - {blk}"
    unfolding items using s by (subst (3) d) (auto simp: sorted_wrt_append)
  ultimately show ?thesis using assms(1) b wf l(1) True i(2)
    by (auto simp: u32_wf_def u32_set_def xs_def)
qed

section \<open>Comparing and iterating\<close>

lemma sorted_items:
  assumes "u32_wf bb"
  shows "sorted_list_of_set (u32_set bb) = u32_items bb" "distinct (u32_items bb)"
proof -
  have "sorted (u32_items bb) \<and> distinct (u32_items bb)"
    using assms unfolding u32_wf_def strict_sorted_iff by simp
  then show "sorted_list_of_set (u32_set bb) = u32_items bb" "distinct (u32_items bb)"
    unfolding u32_set_def by (simp_all add: sorted_list_of_set.idem_if_sorted_distinct)
qed

lemma equal_spec:
  assumes "u32_wf bb1" "u32_wf bb2"
  shows "ext2fs_u32_list_equal bb1 bb2 = (if u32_set bb1 = u32_set bb2 then 1 else 0)"
proof -
  have n: "int (length (u32_items bb)) = bb_num bb" if "u32_wf bb" for bb
    using u32_wf_length [OF that] that by (simp add: u32_wf_def)
  have "u32_set bb1 = u32_set bb2 \<longleftrightarrow> u32_items bb1 = u32_items bb2"
    using sorted_items(1) [OF assms(1)] sorted_items(1) [OF assms(2)] unfolding u32_set_def by metis
  moreover have "u32_items bb1 = u32_items bb2 \<longleftrightarrow>
      bb_num bb1 = bb_num bb2 \<and> take (nat (bb_num bb1)) (bb_list bb1) = take (nat (bb_num bb1)) (bb_list bb2)"
  proof
    assume e: "u32_items bb1 = u32_items bb2"
    then have "bb_num bb1 = bb_num bb2" using n [OF assms(1)] n [OF assms(2)] by simp
    then show "bb_num bb1 = bb_num bb2 \<and> take (nat (bb_num bb1)) (bb_list bb1) = take (nat (bb_num bb1)) (bb_list bb2)"
      using e by (simp add: u32_items_def)
  next
    assume "bb_num bb1 = bb_num bb2 \<and> take (nat (bb_num bb1)) (bb_list bb1) = take (nat (bb_num bb1)) (bb_list bb2)"
    then show "u32_items bb1 = u32_items bb2" unfolding u32_items_def by metis
  qed
  ultimately show ?thesis using assms by (auto simp: ext2fs_u32_list_equal_def u32_wf_def)
qed

text \<open>All steps of an iteration over an unchanged list.\<close>

primrec iterate_all :: "nat \<Rightarrow> u32_iterate \<Rightarrow> u32_list \<Rightarrow> u32 list" where
  "iterate_all 0 iter bb = []"
| "iterate_all (Suc n) iter bb =
     (case ext2fs_u32_list_iterate iter bb of
        (iter, blk, r) \<Rightarrow> if r = 0 then [] else the blk # iterate_all n iter bb)"

lemma iterate_all_drop:
  assumes "u32_wf bb" "it_magic iter = EXT2_ET_MAGIC_BADBLOCKS_ITERATE" "it_ptr iter = int i"
    "length (u32_items bb) < i + n"
  shows "iterate_all n iter bb = drop i (u32_items bb)"
  using assms(2-4)
proof (induction n arbitrary: i iter)
  case (Suc n)
  have num: "bb_num bb = int (length (u32_items bb))"
    using u32_wf_length [OF assms(1)] assms(1) by (simp add: u32_wf_def)
  have mg: "bb_magic bb = EXT2_ET_MAGIC_BADBLOCKS_LIST" using assms(1) by (simp add: u32_wf_def)
  show ?case
  proof (cases "i < length (u32_items bb)")
    case True
    define it where "it = iter\<lparr>it_ptr := it_ptr iter + 1\<rparr>"
    have "iterate_all n it bb = drop (Suc i) (u32_items bb)"
      using Suc.prems by (intro Suc.IH) (auto simp: it_def)
    moreover have "bb_list bb ! i = u32_items bb ! i" using True num by (simp add: u32_items_nth)
    then have "ext2fs_u32_list_iterate iter bb = (it, Some (u32_items bb ! i), 1)"
      using True Suc.prems(1,2) num mg by (simp add: ext2fs_u32_list_iterate_def it_def)
    ultimately have "iterate_all (Suc n) iter bb = u32_items bb ! i # drop (Suc i) (u32_items bb)"
      by (simp only: iterate_all.simps) simp
    then show ?thesis using True by (simp add: Cons_nth_drop_Suc)
  next
    case False
    then have "ext2fs_u32_list_iterate iter bb = (iter, Some 0, 0)"
      using Suc.prems(1,2) num mg by (simp add: ext2fs_u32_list_iterate_def)
    then show ?thesis using False by simp
  qed
qed simp

lemma iterate_spec:
  assumes "u32_wf bb" "ext2fs_u32_list_iterate_begin mem bb = Inr iter" "card (u32_set bb) < n"
  shows "iterate_all n iter bb = sorted_list_of_set (u32_set bb)"
proof -
  have "it_magic iter = EXT2_ET_MAGIC_BADBLOCKS_ITERATE" "it_ptr iter = int 0"
    using assms(2) by (auto simp: ext2fs_u32_list_iterate_begin_def split: if_splits sum.splits)
  moreover have "length (u32_items bb) < 0 + n"
    using assms(3) distinct_card [OF sorted_items(2) [OF assms(1)]] by (simp add: u32_set_def)
  ultimately have "iterate_all n iter bb = drop 0 (u32_items bb)" by (rule iterate_all_drop [OF assms(1)])
  then show ?thesis by (simp add: sorted_items [OF assms(1)])
qed

end
