(* ===== verification/Hashmap.thy ===== *)
theory Hashmap
  imports Bmap64 "HOL-Library.Multiset"
begin

text \<open>
  \<^verbatim>\<open>libext2fs/hashmap.c\<close>. An entry is reached in two ways: through the chain of its bucket
  (\<open>entries[i]\<close> and \<open>next\<close>) and through the list of all entries (\<open>first\<close> and \<open>list_next\<close>). Entries are
  added in front of both and never changed, so a chain is a list of entries; \<open>he_addr\<close> is the address
  of an entry, which tells entries apart. A key is the bytes its pointer leads to. The hash function
  and the allocator are parameters of the table, as they are in the code. A table of size zero would
  divide by zero; the lemmas exclude it.
\<close>

record 'a hashmap_entry =
  he_addr :: nat
  he_data :: 'a
  he_key :: "u8 list"
  he_key_len :: nat

record 'a hashmap =
  hm_size :: u32
  hm_hash :: "u8 list \<Rightarrow> nat \<Rightarrow> u32"
  hm_entries :: "'a hashmap_entry list list"
  hm_list :: "'a hashmap_entry list"
  hm_last :: "nat option"

primrec djb2_loop :: "nat \<Rightarrow> u8 list \<Rightarrow> u32 \<Rightarrow> u32" where
  "djb2_loop 0 s hash = hash"
| "djb2_loop (Suc n) s hash = djb2_loop n (tl s) (push_bit 5 hash + hash + scast (hd s))"

definition ext2fs_djb2_hash :: "u8 list \<Rightarrow> nat \<Rightarrow> u32" where
  "ext2fs_djb2_hash str sz = djb2_loop sz str 5381"

definition ext2fs_hashmap_create ::
  "allocator \<Rightarrow> (u8 list \<Rightarrow> nat \<Rightarrow> u32) \<Rightarrow> nat \<Rightarrow> 'a hashmap option" where
  "ext2fs_hashmap_create mem hash_fct sz =
     (case mem (40 + 48 * sz) of
        None \<Rightarrow> None
      | Some _ \<Rightarrow>
          Some \<lparr>hm_size = word_of_nat sz, hm_hash = hash_fct, hm_entries = replicate sz [],
                hm_list = [], hm_last = None\<rparr>)"

definition hashmap_slot :: "'a hashmap \<Rightarrow> u8 list \<Rightarrow> nat \<Rightarrow> nat" where
  "hashmap_slot h key key_len = unat (hm_hash h key key_len mod hm_size h)"

text \<open>The address of the new entry comes from the allocator; the answer is 0 or -1.\<close>

definition ext2fs_hashmap_add ::
  "allocator \<Rightarrow> 'a hashmap \<Rightarrow> 'a \<Rightarrow> u8 list \<Rightarrow> nat \<Rightarrow> 'a hashmap \<times> int" where
  "ext2fs_hashmap_add mem h data key key_len =
     (let hash = hashmap_slot h key key_len
      in case mem 48 of
           None \<Rightarrow> (h, -1)
         | Some blk \<Rightarrow>
             let e = \<lparr>he_addr = unat (fst blk), he_data = data, he_key = key, he_key_len = key_len\<rparr>
             in (h\<lparr>hm_entries := (hm_entries h)[hash := e # hm_entries h ! hash],
                   hm_list := e # hm_list h,
                   hm_last := (if hm_last h = None then Some (he_addr e) else hm_last h)\<rparr>, 0))"

definition key_eq :: "'a hashmap_entry \<Rightarrow> u8 list \<Rightarrow> nat \<Rightarrow> bool" where
  "key_eq e key key_len \<longleftrightarrow> he_key_len e = key_len \<and> take key_len (he_key e) = take key_len key"

primrec hashmap_find :: "'a hashmap_entry list \<Rightarrow> u8 list \<Rightarrow> nat \<Rightarrow> 'a option" where
  "hashmap_find [] key key_len = None"
| "hashmap_find (iter # es) key key_len =
     (if key_eq iter key key_len then Some (he_data iter) else hashmap_find es key key_len)"

definition ext2fs_hashmap_lookup :: "'a hashmap \<Rightarrow> u8 list \<Rightarrow> nat \<Rightarrow> 'a option" where
  "ext2fs_hashmap_lookup h key key_len = hashmap_find (hm_entries h ! hashmap_slot h key key_len) key key_len"

text \<open>\<open>list_next\<close> of the entry at an address.\<close>

primrec list_next :: "'a hashmap_entry list \<Rightarrow> nat \<Rightarrow> 'a hashmap_entry option" where
  "list_next [] a = None"
| "list_next (e # es) a =
     (if he_addr e = a then (case es of [] \<Rightarrow> None | e' # _ \<Rightarrow> Some e') else list_next es a)"

definition ext2fs_hashmap_iter_in_order ::
  "'a hashmap \<Rightarrow> nat option \<Rightarrow> nat option \<times> 'a option" where
  "ext2fs_hashmap_iter_in_order h it =
     (case (case it of Some a \<Rightarrow> list_next (hm_list h) a
                     | None \<Rightarrow> (case hm_list h of [] \<Rightarrow> None | e # _ \<Rightarrow> Some e)) of
        None \<Rightarrow> (None, None)
      | Some e \<Rightarrow> (Some (he_addr e), Some (he_data e)))"

text \<open>The data handed to the \<open>free\<close> function, in order.\<close>

definition ext2fs_hashmap_free :: "'a hashmap \<Rightarrow> 'a list" where
  "ext2fs_hashmap_free h = concat (map (map he_data) (hm_entries h))"

section \<open>The table as a map\<close>

definition key_hash_ok :: "(u8 list \<Rightarrow> nat \<Rightarrow> u32) \<Rightarrow> bool" where
  "key_hash_ok hash \<longleftrightarrow> (\<forall>k k' n. take n k = take n k' \<longrightarrow> hash k n = hash k' n)"

lemma djb2_fold:
  "n \<le> length s \<Longrightarrow> djb2_loop n s h = foldl (\<lambda>h c. push_bit 5 h + h + scast c) h (take n s)"
proof (induction n arbitrary: s h)
  case (Suc n)
  then obtain c cs where "s = c # cs" "n \<le> length cs" by (auto simp: Suc_le_length_iff)
  then show ?case using Suc.IH [of cs] by simp
qed simp

lemma djb2_key_hash: "key_hash_ok ext2fs_djb2_hash"
  unfolding key_hash_ok_def
proof (intro allI impI)
  fix k k' :: "u8 list" and n
  assume t: "take n k = take n k'"
  show "ext2fs_djb2_hash k n = ext2fs_djb2_hash k' n"
  proof (cases "n \<le> length k")
    case True
    then have "n \<le> length k'" using arg_cong [OF t, of length] by simp
    then show ?thesis using True t by (simp add: ext2fs_djb2_hash_def djb2_fold)
  next
    case False
    then have "length k' < n" using arg_cong [OF t, of length] by simp
    then show ?thesis using False t by simp
  qed
qed

text \<open>
  Every entry is in the bucket of its key, and the entries of a bucket are, in the same order, those
  of the list that hash to it.
\<close>

definition hm_wf :: "'a hashmap \<Rightarrow> bool" where
  "hm_wf h \<longleftrightarrow> 0 < hm_size h \<and> length (hm_entries h) = unat (hm_size h) \<and>
     (\<forall>i < unat (hm_size h).
        hm_entries h ! i = filter (\<lambda>e. hashmap_slot h (he_key e) (he_key_len e) = i) (hm_list h))"

lemma slot_less: "0 < hm_size h \<Longrightarrow> hashmap_slot h k n < unat (hm_size h)"
  unfolding hashmap_slot_def unat_mod by (rule mod_less_divisor) (simp add: word_less_nat_alt)

lemma hashmap_create_wf:
  assumes "ext2fs_hashmap_create mem hash sz = Some h" "0 < sz" "sz < 2 ^ 32"
  shows "hm_wf h \<and> hm_list h = []"
proof -
  have u: "unat (word_of_nat sz :: u32) = sz" unfolding unat_of_nat by (rule mod_less) (use assms(3) in simp)
  have "h = \<lparr>hm_size = word_of_nat sz, hm_hash = hash, hm_entries = replicate sz [], hm_list = [], hm_last = None\<rparr>"
    using assms(1) by (simp add: ext2fs_hashmap_create_def split: option.splits)
  moreover have "(0 :: u32) < word_of_nat sz" using u assms(2) by (simp only: word_less_nat_alt unat_0)
  ultimately show ?thesis by (simp add: hm_wf_def u)
qed

lemma hashmap_add_wf:
  assumes "hm_wf h" "ext2fs_hashmap_add mem h d k n = (h', r)"
  shows "hm_wf h'"
proof -
  have l: "hashmap_slot h k n < length (hm_entries h)"
    using assms(1) slot_less [of h k n] by (simp add: hm_wf_def)
  show ?thesis
  proof (cases "mem 48")
    case None
    then show ?thesis using assms by (simp add: ext2fs_hashmap_add_def Let_def)
  next
    case (Some blk)
    then have [simp]: "hm_size h' = hm_size h" "\<And>k n. hashmap_slot h' k n = hashmap_slot h k n"
      using assms(2) by (auto simp: ext2fs_hashmap_add_def Let_def hashmap_slot_def)
    show ?thesis using assms Some l
      by (auto simp: hm_wf_def ext2fs_hashmap_add_def Let_def nth_list_update)
  qed
qed

lemma find_filter:
  "(\<And>e. e \<in> set es \<Longrightarrow> key_eq e k n \<Longrightarrow> P e) \<Longrightarrow>
   hashmap_find (filter P es) k n = hashmap_find es k n"
  by (induction es) auto

text \<open>The search of one bucket is the search of the whole list.\<close>

lemma lookup_list:
  assumes "hm_wf h" "key_hash_ok (hm_hash h)"
  shows "ext2fs_hashmap_lookup h k n = hashmap_find (hm_list h) k n"
proof -
  have "hashmap_slot h k n < unat (hm_size h)" using assms(1) slot_less by (auto simp: hm_wf_def)
  then have "hm_entries h ! hashmap_slot h k n
      = filter (\<lambda>e. hashmap_slot h (he_key e) (he_key_len e) = hashmap_slot h k n) (hm_list h)"
    using assms(1) by (simp add: hm_wf_def)
  moreover have "hashmap_slot h (he_key e) (he_key_len e) = hashmap_slot h k n" if "key_eq e k n" for e :: "'a hashmap_entry"
    using that assms(2) unfolding hashmap_slot_def key_hash_ok_def key_eq_def by metis
  ultimately show ?thesis by (simp add: ext2fs_hashmap_lookup_def find_filter)
qed

lemma hashmap_add_lookup_eq:
  assumes "hm_wf h" "key_hash_ok (hm_hash h)" "ext2fs_hashmap_add mem h d k n = (h', 0)"
  shows "ext2fs_hashmap_lookup h' k' n' =
    (if n = n' \<and> take n k = take n k' then Some d else ext2fs_hashmap_lookup h k' n')"
proof -
  obtain e where e: "hm_list h' = e # hm_list h" "he_key e = k" "he_key_len e = n" "he_data e = d"
    and hash: "hm_hash h' = hm_hash h"
    using assms(3) by (auto simp: ext2fs_hashmap_add_def Let_def split: option.splits)
  have "ext2fs_hashmap_lookup h' k' n' = hashmap_find (hm_list h') k' n'"
    using lookup_list [OF hashmap_add_wf [OF assms(1,3)]] assms(2) hash by simp
  then show ?thesis using e lookup_list [OF assms(1,2)] by (auto simp: key_eq_def)
qed

text \<open>Freeing the table hands out the data of every entry once.\<close>

lemma mset_buckets:
  assumes "\<And>e. e \<in> set es \<Longrightarrow> f e < (n :: nat)"
  shows "mset (concat (map (\<lambda>i. filter (\<lambda>e. f e = i) es) [0..<n])) = mset es"
  using assms
proof (induction es)
  case Nil
  have "concat (map (\<lambda>i. []) xs) = []" for xs :: "nat list" by (induction xs) simp_all
  then show ?case by simp
next
  case (Cons x es)
  have c: "mset (concat (map (\<lambda>i. filter (\<lambda>e. f e = i) xs) [0..<n])) = (\<Sum>i<n. mset (filter (\<lambda>e. f e = i) xs))" for xs
    by (simp add: mset_concat comp_def interv_sum_list_conv_sum_set_nat atLeast0LessThan)
  have "mset (filter (\<lambda>e. f e = i) (x # es)) = (if f x = i then {#x#} else {#}) + mset (filter (\<lambda>e. f e = i) es)" for i
    by simp
  then have "mset (concat (map (\<lambda>i. filter (\<lambda>e. f e = i) (x # es)) [0..<n]))
    = (\<Sum>i<n. if f x = i then {#x#} else {#}) + mset (concat (map (\<lambda>i. filter (\<lambda>e. f e = i) es) [0..<n]))"
    unfolding c by (simp only: sum.distrib)
  also have "(\<Sum>i<n. if f x = i then {#x#} else {#}) = {#x#}"
    using Cons.prems [of x] by (simp add: sum.delta')
  finally show ?case using Cons by simp
qed

lemma free_all:
  assumes "hm_wf h"
  shows "mset (ext2fs_hashmap_free h) = mset (map he_data (hm_list h))"
proof -
  define f where "f e = hashmap_slot h (he_key e) (he_key_len e)" for e :: "'a hashmap_entry"
  have "hm_entries h = map (\<lambda>i. filter (\<lambda>e. f e = i) (hm_list h)) [0..<unat (hm_size h)]"
    using assms by (intro nth_equalityI) (auto simp: hm_wf_def f_def)
  then have "mset (concat (hm_entries h)) = mset (hm_list h)"
    using mset_buckets [of "hm_list h" f] slot_less assms by (auto simp: hm_wf_def f_def)
  then show ?thesis by (simp add: ext2fs_hashmap_free_def map_concat [symmetric])
qed

section \<open>Iteration\<close>

text \<open>All steps of an iteration.\<close>

primrec iterate_hashmap :: "nat \<Rightarrow> 'a hashmap \<Rightarrow> nat option \<Rightarrow> 'a list" where
  "iterate_hashmap 0 h it = []"
| "iterate_hashmap (Suc n) h it =
     (case ext2fs_hashmap_iter_in_order h it of
        (it, None) \<Rightarrow> []
      | (it, Some d) \<Rightarrow> d # iterate_hashmap n h it)"

lemma list_next_drop:
  assumes "distinct (map he_addr es)" "i < length es"
  shows "list_next es (he_addr (es ! i)) = (if Suc i < length es then Some (es ! Suc i) else None)"
  using assms
proof (induction es arbitrary: i)
  case (Cons e es)
  show ?case
  proof (cases i)
    case 0
    then show ?thesis by (cases es) auto
  next
    case (Suc j)
    then have "he_addr e \<noteq> he_addr (es ! j)" using Cons.prems by auto
    then show ?thesis using Cons Suc by simp
  qed
qed simp

lemma iterate_hashmap_drop:
  assumes "distinct (map he_addr (hm_list h))" "i < length (hm_list h)" "length (hm_list h) < Suc i + n"
  shows "iterate_hashmap n h (Some (he_addr (hm_list h ! i))) = map he_data (drop (Suc i) (hm_list h))"
  using assms(2,3)
proof (induction n arbitrary: i)
  case (Suc n)
  show ?case
  proof (cases "Suc i < length (hm_list h)")
    case True
    then show ?thesis using Suc.IH [OF True] Suc.prems list_next_drop [OF assms(1) Suc.prems(1)]
      by (simp add: ext2fs_hashmap_iter_in_order_def Cons_nth_drop_Suc [symmetric])
  next
    case False
    then show ?thesis using list_next_drop [OF assms(1) Suc.prems(1)]
      by (simp add: ext2fs_hashmap_iter_in_order_def)
  qed
qed simp

lemma iterate_all_in_order:
  assumes "distinct (map he_addr (hm_list h))" "length (hm_list h) < n"
  shows "iterate_hashmap n h None = map he_data (hm_list h)"
proof -
  obtain m where n: "n = Suc m" using assms(2) by (cases n) auto
  show ?thesis
  proof (cases "hm_list h")
    case Nil
    then show ?thesis by (simp add: n ext2fs_hashmap_iter_in_order_def)
  next
    case (Cons e es)
    then show ?thesis using iterate_hashmap_drop [OF assms(1), of 0 m] assms(2)
      by (simp add: n ext2fs_hashmap_iter_in_order_def)
  qed
qed

end
