(* ===== verification/Container_Theorems.thy ===== *)
theory Container_Theorems
  imports Badblocks Hashmap
begin

text \<open>The properties of the bad block lists and of the hash table.\<close>

definition ex_bb :: u32_list where
  "ex_bb = \<lparr>bb_magic = EXT2_ET_MAGIC_BADBLOCKS_LIST, bb_num = 3, bb_size = 4, bb_list = [2, 5, 9, 0], bb_flags = 0\<rparr>"

lemma ex_bb: "u32_wf ex_bb" "u32_set ex_bb = {2, 5, 9}"
  by (simp_all add: ex_bb_def u32_wf_def u32_set_def u32_items_def)

definition ex_alloc :: allocator where
  "ex_alloc n = Some (8, replicate n 0)"

lemma ex_alloc_sized: "alloc_sized ex_alloc"
  by (simp add: ex_alloc_def alloc_sized_def)

text \<open>
  C28. Adding a number to a bad block list keeps the list sorted without duplicates and within its
  array; either the set gains the number, or there was no memory to grow and nothing changed. The size of the
  array is an \<open>int\<close> of the code, which must not overflow when the array grows by a hundred entries.
\<close>

theorem badblocks_add_correct:
  assumes "u32_wf bb" "alloc_sized mem" "bb_size bb + 100 < 2 ^ 31"
    and "ext2fs_badblocks_list_add mem bb blk = (bb', err)"
  shows "u32_wf bb' \<and> (err = 0 \<and> u32_set bb' = insert blk (u32_set bb)
    \<or> err = EXT2_ET_NO_MEMORY \<and> bb' = bb)"
proof -
  have "bb_size bb + 100 < 2 ^ 62" using assms(3) by simp
  from add_spec [OF assms(1,2) this] assms(4) show ?thesis by (simp add: ext2fs_badblocks_list_add_def)
qed

theorem badblocks_add_correct_witness:
  "u32_wf (fst (ext2fs_badblocks_list_add ex_alloc ex_bb 7))"
  using badblocks_add_correct [OF ex_bb(1) ex_alloc_sized, of 7 "fst (ext2fs_badblocks_list_add ex_alloc ex_bb 7)"
      "snd (ext2fs_badblocks_list_add ex_alloc ex_bb 7)"]
  by (simp add: ex_bb_def)

text \<open>
  The binary search of a bad block list answers membership, and deleting takes away exactly the
  number, with the answer 0 when it was there and -1 when it was not.
\<close>

theorem badblocks_test_del_correct:
  assumes "u32_wf bb" "ext2fs_u32_list_del bb blk = (bb', r)"
  shows "(ext2fs_badblocks_list_test bb blk = 1 \<longleftrightarrow> blk \<in> u32_set bb)
    \<and> u32_wf bb' \<and> u32_set bb' = u32_set bb - {blk} \<and> r = (if blk \<in> u32_set bb then 0 else -1)"
proof -
  have "ext2fs_badblocks_list_test bb blk = 1 \<longleftrightarrow> blk \<in> u32_set bb"
    using find_exact [OF assms(1), of blk]
    by (simp add: ext2fs_badblocks_list_test_def ext2fs_u32_list_test_def split: if_splits)
  then show ?thesis using del_spec [OF assms] by (auto split: if_splits)
qed

theorem badblocks_test_del_correct_witness:
  "ext2fs_badblocks_list_test ex_bb 5 = 1 \<and> u32_set (fst (ext2fs_u32_list_del ex_bb 5)) = {2, 9}"
  using badblocks_test_del_correct [OF ex_bb(1), of 5 "fst (ext2fs_u32_list_del ex_bb 5)" "snd (ext2fs_u32_list_del ex_bb 5)"]
  unfolding ex_bb(2) by (simp add: insert_Diff_if)

text \<open>
  C30. After a successful addition the hash table finds the new data under its key and everything
  else as before, whatever the hash function, as long as it reads the bytes of the key only.
\<close>

theorem hashmap_add_lookup:
  assumes "hm_wf h" "key_hash_ok (hm_hash h)" "ext2fs_hashmap_add mem h d k n = (h', 0)"
  shows "hm_wf h' \<and> ext2fs_hashmap_lookup h' k' n' =
    (if n = n' \<and> take n k = take n k' then Some d else ext2fs_hashmap_lookup h k' n')"
  by (intro conjI hashmap_add_wf [OF assms(1,3)] hashmap_add_lookup_eq [OF assms])

definition ex_hm :: "nat hashmap" where
  "ex_hm = \<lparr>hm_size = 4, hm_hash = ext2fs_djb2_hash, hm_entries = [[], [], [], []], hm_list = [], hm_last = None\<rparr>"

lemma ex_hm: "hm_wf ex_hm" "key_hash_ok (hm_hash ex_hm)"
proof -
  have "\<forall>i < 4. hm_entries ex_hm ! i = []" by (simp add: ex_hm_def numeral_eq_Suc All_less_Suc)
  then show "hm_wf ex_hm" by (simp add: ex_hm_def hm_wf_def)
  show "key_hash_ok (hm_hash ex_hm)" by (simp add: ex_hm_def djb2_key_hash)
qed

theorem hashmap_add_lookup_witness:
  "ext2fs_hashmap_lookup (fst (ext2fs_hashmap_add ex_alloc ex_hm 42 [1, 2] 2)) [1, 2] 2 = Some (42 :: nat)"
proof -
  have "ext2fs_hashmap_add ex_alloc ex_hm 42 [1, 2] 2 = (fst (ext2fs_hashmap_add ex_alloc ex_hm 42 [1, 2] 2), 0)"
    by (simp add: ext2fs_hashmap_add_def ex_alloc_def Let_def)
  from hashmap_add_lookup [OF ex_hm this, of "[1, 2]" 2] show ?thesis by simp
qed

end
