(* ===== verification/Super_loc.thy ===== *)
theory Super_loc
  imports Blknum "HOL-Library.Monad_Syntax"
begin

text \<open>
  Where the copies of the super block and of the group descriptors are: \<open>test_root\<close>,
  \<open>ext2fs_bg_has_super\<close> and \<open>ext2fs_super_and_bgd_loc2\<close> of \<^verbatim>\<open>libext2fs/closefs.c\<close>, by which they are
  written, and \<open>ext2fs_descriptor_block_loc2\<close> of \<^verbatim>\<open>libext2fs/openfs.c\<close>, by which they are read.
  \<open>test_root\<close> is a loop without a bound: it is a partial function, \<open>None\<close> where it does not return, and
  its callers pass that on.
\<close>

section \<open>The code\<close>

partial_function (option) test_root :: "u32 \<Rightarrow> u32 \<Rightarrow> int option" where
  "test_root a b =
     (if a < b then Some 0
      else if a = b then Some 1
      else if b = 0 then None
      else if a mod b \<noteq> 0 then Some 0
      else test_root (a div b) b)"

definition ext2fs_bg_has_super :: "'a fs_base_scheme \<Rightarrow> u32 \<Rightarrow> int option" where
  "ext2fs_bg_has_super fs g =
     (if g = 0 then Some 1
      else if ext2fs_has_feature_sparse_super2 (fs_super fs) then
        if g = s_backup_bgs (fs_super fs) ! 0 \<or> g = s_backup_bgs (fs_super fs) ! 1 then Some 1 else Some 0
      else if g \<le> 1 \<or> \<not> ext2fs_has_feature_sparse_super (fs_super fs) then Some 1
      else if g AND 1 = 0 then Some 0
      else do {
        r3 \<leftarrow> test_root g 3;
        if r3 \<noteq> 0 then Some 1 else do {
          r5 \<leftarrow> test_root g 5;
          if r5 \<noteq> 0 then Some 1 else do {
            r7 \<leftarrow> test_root g 7;
            Some (if r7 \<noteq> 0 then 1 else 0) } } })"

text \<open>The results of \<open>ext2fs_super_and_bgd_loc2\<close> in the order of its pointers; the returned 0 is left out.\<close>

record bgd_loc =
  super_blk :: u64
  old_desc_blk :: u64
  new_desc_blk :: u64
  used_blks :: u32

definition ext2fs_super_and_bgd_loc2 :: "'a fs_base_scheme \<Rightarrow> u32 \<Rightarrow> bgd_loc option" where
  "ext2fs_super_and_bgd_loc2 fs g =
     (let super = fs_super fs;
          group_block = ext2fs_group_first_block2 fs g;
          group_block = (if group_block = 0 \<and> fs_blocksize fs = 1024 then 1 else group_block);
          old_desc_blocks = (if ext2fs_has_feature_meta_bg super then ucast (s_first_meta_bg super)
                             else fs_desc_blocks fs + ucast (s_reserved_gdt_blocks super));
          meta_bg_size = EXT2_DESC_PER_BLOCK super;
          meta_bg = g div meta_bg_size
      in do {
        has_super \<leftarrow> ext2fs_bg_has_super fs g;
        let r = (if has_super \<noteq> 0
                 then \<lparr>super_blk = group_block, old_desc_blk = 0, new_desc_blk = 0, used_blks = 1\<rparr>
                 else \<lparr>super_blk = 0, old_desc_blk = 0, new_desc_blk = 0, used_blks = 0\<rparr>);
        Some (if \<not> ext2fs_has_feature_meta_bg super \<or> meta_bg < s_first_meta_bg super
              then (if has_super \<noteq> 0
                    then r\<lparr>old_desc_blk := group_block + 1, used_blks := used_blks r + ucast old_desc_blocks\<rparr>
                    else r)
              else (if g mod meta_bg_size = 0 \<or> g mod meta_bg_size = 1 \<or> g mod meta_bg_size = meta_bg_size - 1
                    then let has_super = (if has_super \<noteq> 0 then 1 else has_super)
                         in r\<lparr>new_desc_blk := group_block + of_int has_super, used_blks := used_blks r + 1\<rparr>
                    else r)) })"

text \<open>
  The older entry point: the three locations cut to 32 bits, the number of the meta group, and the
  returned \<open>int\<close>, the blocks left in the group.
\<close>

definition ext2fs_super_and_bgd_loc :: "'a fs_base_scheme \<Rightarrow> u32 \<Rightarrow> (u32 \<times> u32 \<times> u32 \<times> u32 \<times> u32) option" where
  "ext2fs_super_and_bgd_loc fs g =
     do {
       r \<leftarrow> ext2fs_super_and_bgd_loc2 fs g;
       let numblocks = ext2fs_group_blocks_count fs g;
       Some (ucast (super_blk r), ucast (old_desc_blk r), ucast (new_desc_blk r),
             g div EXT2_DESC_PER_BLOCK (fs_super fs),
             numblocks - (2 + fs_inode_blocks_per_group fs + used_blks r)) }"

definition ext2fs_descriptor_block_loc2 :: "'a fs_base_scheme \<Rightarrow> u64 \<Rightarrow> u32 \<Rightarrow> u64 option" where
  "ext2fs_descriptor_block_loc2 fs group_block i =
     (let group_zero_adjust =
            (if i = 0 \<and> fs_blocksize fs = 1024 \<and> EXT2FS_CLUSTER_RATIO fs > 1 then 1 else 0)
      in if \<not> ext2fs_has_feature_meta_bg (fs_super fs) \<or> i < s_first_meta_bg (fs_super fs)
         then Some (group_block + ucast i + 1 + group_zero_adjust)
         else let bg = EXT2_DESC_PER_BLOCK (fs_super fs) * i
         in do {
           r \<leftarrow> ext2fs_bg_has_super fs bg;
           let has_super = (if r \<noteq> 0 then 1 else 0);
           let ret_blk = ext2fs_group_first_block2 fs bg;
           if group_block \<noteq> ucast (s_first_data_block (fs_super fs))
              \<and> ret_blk + has_super + ucast (s_blocks_per_group (fs_super fs)) < ext2fs_blocks_count (fs_super fs)
           then do {
             r \<leftarrow> ext2fs_bg_has_super fs (bg + 1);
             Some (ret_blk + ucast (s_blocks_per_group (fs_super fs))
                   + (if r \<noteq> 0 then 1 else 0) + group_zero_adjust) }
           else Some (ret_blk + has_super + group_zero_adjust) })"

definition ext2fs_descriptor_block_loc :: "'a fs_base_scheme \<Rightarrow> u32 \<Rightarrow> u32 \<Rightarrow> u32 option" where
  "ext2fs_descriptor_block_loc fs group_block i =
     map_option ucast (ext2fs_descriptor_block_loc2 fs (ucast group_block) i)"

section \<open>The powers found by \<open>test_root\<close>\<close>

lemma test_root_eqs:
  "a < b \<Longrightarrow> test_root a b = Some 0"
  "test_root b b = Some 1"
  "b < a \<Longrightarrow> b \<noteq> 0 \<Longrightarrow> a mod b \<noteq> 0 \<Longrightarrow> test_root a b = Some 0"
  "b < a \<Longrightarrow> b \<noteq> 0 \<Longrightarrow> a mod b = 0 \<Longrightarrow> test_root a b = test_root (a div b) b"
proof -
  show "a < b \<Longrightarrow> test_root a b = Some 0" "test_root b b = Some 1" by (subst test_root.simps, simp)+
  assume "b < a" "b \<noteq> 0"
  then have *: "\<not> a < b" "a \<noteq> b" "b \<noteq> 0" by auto
  show "a mod b \<noteq> 0 \<Longrightarrow> test_root a b = Some 0" by (subst test_root.simps) (simp only: * if_False if_True simp_thms)
  show "a mod b = 0 \<Longrightarrow> test_root a b = test_root (a div b) b"
    by (subst test_root.simps) (simp only: * if_False if_True simp_thms)
qed

definition is_power :: "nat \<Rightarrow> nat \<Rightarrow> bool" where
  "is_power b a \<longleftrightarrow> (\<exists>k. a = b ^ Suc k)"

lemma is_power_base: "1 < b \<Longrightarrow> is_power b b"
  unfolding is_power_def by (rule exI [of _ 0]) simp

lemma is_power_ge: "1 < b \<Longrightarrow> is_power b a \<Longrightarrow> b \<le> a"
  by (auto simp: is_power_def)

lemma is_power_step:
  assumes "1 < b" "b < a"
  shows "is_power b a \<longleftrightarrow> a mod b = 0 \<and> is_power b (a div b)"
proof
  assume "is_power b a"
  then obtain k where k: "a = b ^ Suc k" by (auto simp: is_power_def)
  then obtain m where "k = Suc m" using assms(2) by (cases k) auto
  then show "a mod b = 0 \<and> is_power b (a div b)" using k assms(1) by (auto simp: is_power_def)
next
  assume r: "a mod b = 0 \<and> is_power b (a div b)"
  then obtain k where "a div b = b ^ Suc k" by (auto simp: is_power_def)
  moreover have "a = b * (a div b)" using r mult_div_mod_eq [of b a] by simp
  ultimately have "a = b ^ Suc (Suc k)" by simp
  then show "is_power b a" unfolding is_power_def by blast
qed

lemma test_root_power:
  assumes "1 < b"
  shows "test_root a b = Some (if is_power (unat b) (unat a) then 1 else 0)"
proof (induction "unat a" arbitrary: a rule: less_induct)
  case less
  have b: "1 < unat b" using assms by (simp add: word_less_nat_alt)
  consider "a < b" | "a = b" | "b < a" by (metis linorder_neqE)
  then show ?case
  proof cases
    case 1
    then show ?thesis using is_power_ge [OF b, of "unat a"] by (auto simp: test_root_eqs word_less_nat_alt)
  next
    case 2
    then show ?thesis using is_power_base [OF b] by (simp add: test_root_eqs)
  next
    case 3
    then have lt: "unat b < unat a" by (simp add: word_less_nat_alt)
    have b0: "b \<noteq> 0" using assms by auto
    have m: "a mod b = 0 \<longleftrightarrow> unat a mod unat b = 0" by (simp add: word_unat_eq_iff unat_mod)
    show ?thesis
    proof (cases "a mod b = 0")
      case True
      have "unat (a div b) < unat a" using b lt by (simp add: unat_div)
      from less [OF this] show ?thesis
        using True m by (simp add: test_root_eqs(4) [OF 3 b0] is_power_step [OF b lt] unat_div)
    next
      case False
      then show ?thesis using m by (simp add: test_root_eqs(3) [OF 3 b0] is_power_step [OF b lt])
    qed
  qed
qed

text \<open>With the base 1, which no caller passes, the loop would not end.\<close>

lemma test_root_loops:
  assumes "1 < a"
  shows "test_root a 1 = None"
proof (rule ccontr)
  assume "test_root a 1 \<noteq> None"
  then obtain y where "test_root a 1 = Some y" by blast
  then have "\<not> (1 < a \<and> (1 :: u32) = 1)"
    by (rule test_root.raw_induct [of "\<lambda>a b y. \<not> (1 < a \<and> b = 1)", rotated])
       (use assms in \<open>fastforce split: if_splits\<close>)
  then show False using assms by simp
qed

section \<open>Which groups hold a copy of the super block\<close>

definition backup_group :: "'a fs_base_scheme \<Rightarrow> u32 \<Rightarrow> bool" where
  "backup_group fs g \<longleftrightarrow> g = 0 \<or>
     (if ext2fs_has_feature_sparse_super2 (fs_super fs)
      then g = s_backup_bgs (fs_super fs) ! 0 \<or> g = s_backup_bgs (fs_super fs) ! 1
      else \<not> ext2fs_has_feature_sparse_super (fs_super fs) \<or> g = 1
        \<or> is_power 3 (unat g) \<or> is_power 5 (unat g) \<or> is_power 7 (unat g))"

lemma is_power_odd: "odd b \<Longrightarrow> is_power b a \<Longrightarrow> odd a"
  by (auto simp: is_power_def)

lemma even_and_1: "(g :: u32) AND 1 = 0 \<longleftrightarrow> even (unat g)"
proof -
  have "g AND 1 = 0 \<longleftrightarrow> unat (g mod 2) = 0" unfolding and_one_eq unat_eq_0 ..
  then show ?thesis by (simp add: unat_mod even_iff_mod_2_eq_zero)
qed

lemma bg_has_super: "ext2fs_bg_has_super fs g = Some (if backup_group fs g then 1 else 0)"
proof -
  have p: "test_root g 3 = Some (if is_power 3 (unat g) then 1 else 0)"
    "test_root g 5 = Some (if is_power 5 (unat g) then 1 else 0)"
    "test_root g 7 = Some (if is_power 7 (unat g) then 1 else 0)"
    using test_root_power [of 3 g] test_root_power [of 5 g] test_root_power [of 7 g] by simp_all
  have o: "g AND 1 = 0 \<Longrightarrow> \<not> is_power 3 (unat g) \<and> \<not> is_power 5 (unat g) \<and> \<not> is_power 7 (unat g)"
    using is_power_odd [of 3] is_power_odd [of 5] is_power_odd [of 7] unfolding even_and_1 by auto
  have le1: "g \<le> 1 \<longleftrightarrow> g = 0 \<or> g = 1" 
    by (auto simp: word_le_nat_alt word_unat_eq_iff)
  show ?thesis
  proof (cases "g = 0 \<or> ext2fs_has_feature_sparse_super2 (fs_super fs) \<or> g = 1
      \<or> \<not> ext2fs_has_feature_sparse_super (fs_super fs)")
    case True
    then show ?thesis by (elim disjE) (simp_all add: ext2fs_bg_has_super_def backup_group_def le1)
  next
    case False
    then show ?thesis
      by (cases "g AND 1 = 0") (simp_all add: ext2fs_bg_has_super_def backup_group_def le1 p o)
  qed
qed

section \<open>The writer and the reader of the descriptors agree\<close>

lemma meta_group:
  fixes D i :: u32
  assumes "1 < unat D" "unat D * unat i < 2 ^ 32"
  shows "unat (D * i) = unat D * unat i" "D * i div D = i" "D * i mod D = 0"
    and "unat (D * i) + 1 < 2 ^ 32 \<Longrightarrow> (D * i + 1) div D = i \<and> (D * i + 1) mod D = 1"
proof -
  show m: "unat (D * i) = unat D * unat i" using assms(2) by (simp add: unat_word_ariths)
  show "D * i div D = i" using assms(1) by (simp add: word_unat_eq_iff unat_div m)
  show "D * i mod D = 0" by (simp add: word_unat_eq_iff unat_mod m)
  assume s: "unat (D * i) + 1 < 2 ^ 32"
  then have m1: "unat (D * i + 1) = unat D * unat i + 1" by (subst unat_add_no_wrap) (simp_all add: m)
  have "(unat D * unat i + 1) div unat D = unat i"
    using assms(1) by (metis add.commute add_cancel_right_left div_less div_mult_self2 gr_implies_not0 less_imp_le_nat not_one_less_zero)
  moreover have "(unat D * unat i + 1) mod unat D = 1"
    using assms(1) mod_mult_self2 [of 1 "unat D" "unat i"] by (simp add: mod_less)
  ultimately show "(D * i + 1) div D = i \<and> (D * i + 1) mod D = 1"
    by (simp add: word_unat_eq_iff unat_div unat_mod m1)
qed

text \<open>A file system with 1 KB blocks starts at block 0 exactly when its clusters are larger than a block.\<close>

definition start_1k :: "'a fs_base_scheme \<Rightarrow> bool" where
  "start_1k fs \<longleftrightarrow> fs_blocksize fs = 1024 \<longrightarrow>
     (s_first_data_block (fs_super fs) = 0 \<longleftrightarrow> 1 < EXT2FS_CLUSTER_RATIO fs)"

lemma first_block_0:
  assumes "fs_geom fs" "unat g < ngroups fs"
  shows "ext2fs_group_first_block2 fs g = 0 \<longleftrightarrow> s_first_data_block (fs_super fs) = 0 \<and> g = 0"
  using first_block_nat(1) [OF assms] fs_geomD(1) [OF assms(1)]
  by (simp add: word_unat_eq_iff fdb_def)

lemma desc_block_primary:
  assumes "fs_geom fs" "start_1k fs" "ext2fs_has_feature_meta_bg (fs_super fs)"
    and "s_first_meta_bg (fs_super fs) \<le> i" "1 < unat (EXT2_DESC_PER_BLOCK (fs_super fs))"
    and "unat (EXT2_DESC_PER_BLOCK (fs_super fs)) * unat i < ngroups fs"
  shows "ext2fs_descriptor_block_loc2 fs (ucast (s_first_data_block (fs_super fs))) i =
    map_option new_desc_blk (ext2fs_super_and_bgd_loc2 fs (EXT2_DESC_PER_BLOCK (fs_super fs) * i))"
proof -
  define D where "D = EXT2_DESC_PER_BLOCK (fs_super fs)"
  have lt: "unat D * unat i < 2 ^ 32" using assms(6) fs_geomD(6) [OF assms(1)] unfolding D_def by linarith
  note m = meta_group [OF assms(5) [folded D_def] lt]
  have g: "unat (D * i) < ngroups fs" using m(1) assms(6) unfolding D_def by simp
  have i0: "D * i = 0 \<longleftrightarrow> i = 0" using assms(5) by (auto simp: word_unat_eq_iff m(1) D_def [symmetric])
  have adj: "ext2fs_group_first_block2 fs (D * i) = 0 \<and> fs_blocksize fs = 1024 \<longleftrightarrow>
      i = 0 \<and> fs_blocksize fs = 1024 \<and> 1 < EXT2FS_CLUSTER_RATIO fs"
    using assms(2) by (auto simp: start_1k_def first_block_0 [OF assms(1) g] i0)
  have z: "i = 0 \<and> fs_blocksize fs = 1024 \<and> 1 < EXT2FS_CLUSTER_RATIO fs \<Longrightarrow> ext2fs_group_first_block2 fs 0 = 0"
    using adj i0 by auto
  define c where "c \<longleftrightarrow> i = 0 \<and> fs_blocksize fs = 1024 \<and> 1 < EXT2FS_CLUSTER_RATIO fs"
  have ni: "\<not> i < s_first_meta_bg (fs_super fs)" using assms(4) by simp
  have ci: "c \<Longrightarrow> i = 0" by (simp add: c_def)
  show ?thesis
    unfolding ext2fs_descriptor_block_loc2_def ext2fs_super_and_bgd_loc2_def Let_def D_def [symmetric] adj
      c_def [symmetric]
    using assms(3) ni z ci unfolding c_def [symmetric] by (cases c) (simp_all add: m bg_has_super)
qed

text \<open>
  With the address of a backup, the reader takes the second group of the meta group, if it is not cut
  off; it then reads what the writer wrote there, unless the adjustment for 1 KB blocks applies, which
  belongs to group 0 only.
\<close>

lemma desc_block_backup:
  assumes "fs_geom fs" "ext2fs_has_feature_meta_bg (fs_super fs)"
    and "s_first_meta_bg (fs_super fs) \<le> i" "1 < unat (EXT2_DESC_PER_BLOCK (fs_super fs))"
    and "unat (EXT2_DESC_PER_BLOCK (fs_super fs)) * unat i + 1 < ngroups fs"
    and "group_block \<noteq> ucast (s_first_data_block (fs_super fs))"
    and "fdb fs + (unat (EXT2_DESC_PER_BLOCK (fs_super fs)) * unat i + 1) * bpg fs + 1 < nblocks fs"
  shows "ext2fs_descriptor_block_loc2 fs group_block i =
    map_option (\<lambda>r. new_desc_blk r + (if i = 0 \<and> fs_blocksize fs = 1024 \<and> 1 < EXT2FS_CLUSTER_RATIO fs then 1 else 0))
      (ext2fs_super_and_bgd_loc2 fs (EXT2_DESC_PER_BLOCK (fs_super fs) * i + 1))"
proof -
  define D where "D = EXT2_DESC_PER_BLOCK (fs_super fs)"
  have lt: "unat D * unat i + 1 < 2 ^ 32" using assms(5) fs_geomD(6) [OF assms(1)] unfolding D_def by linarith
  then have lt': "unat D * unat i < 2 ^ 32" by linarith
  note m = meta_group [OF assms(4) [folded D_def] lt']
  have m4: "(D * i + 1) div D = i" "(D * i + 1) mod D = 1" using m(4) lt m(1) by simp_all
  have u1: "unat (D * i + 1) = unat D * unat i + 1"
    using lt by (subst unat_add_no_wrap) (simp_all add: m(1))
  have g: "unat (D * i) < ngroups fs" "unat (D * i + 1) < ngroups fs"
    using m(1) u1 assms(5) unfolding D_def by simp_all
  define B where "B = fdb fs + (unat D * unat i) * bpg fs"
  define fb where "fb = ext2fs_group_first_block2 fs (D * i)"
  have f: "unat fb = B" using first_block_nat(1) [OF assms(1) g(1)] unfolding m(1) by (simp add: B_def fb_def)
  have f1: "unat (ext2fs_group_first_block2 fs (D * i + 1)) = B + bpg fs"
    using first_block_nat(1) [OF assms(1) g(2)] unfolding u1 B_def by simp
  have nb: "nblocks fs < 2 ^ 64" by (rule fs_geomD [OF assms(1)])
  have n7: "B + bpg fs + 1 < nblocks fs" using assms(7) unfolding B_def by (simp add: D_def)
  define bp where "bp = (ucast (s_blocks_per_group (fs_super fs)) :: u64)"
  have bp: "unat bp = bpg fs" by (simp add: bp_def bpg_def unat_ucast32_64)
  have step: "ext2fs_group_first_block2 fs (D * i + 1) = fb + bp"
  proof -
    have "unat (fb + bp) = B + bpg fs"
      using n7 nb by (subst unat_add_no_wrap) (simp_all add: f bp)
    then show ?thesis by (simp add: word_unat_eq_iff f1)
  qed
  have lt2: "fb + h + bp < ext2fs_blocks_count (fs_super fs)" if "h = 0 \<or> h = 1" for h
  proof -
    have h: "unat h \<le> 1" using that by auto
    have "unat (fb + h) = B + unat h"
      using n7 nb h by (subst unat_add_no_wrap) (simp_all add: f)
    then have "unat (fb + h + bp) = B + unat h + bpg fs"
      using n7 nb h by (subst unat_add_no_wrap) (simp_all add: bp)
    then show ?thesis using n7 h by (simp add: word_less_nat_alt nblocks_def [symmetric])
  qed
  have n0: "ext2fs_group_first_block2 fs (D * i + 1) \<noteq> 0"
    using first_block_0 [OF assms(1) g(2)] u1 by (auto simp: word_unat_eq_iff)
  have ni: "\<not> i < s_first_meta_bg (fs_super fs)" using assms(3) by simp
  show ?thesis
    unfolding ext2fs_descriptor_block_loc2_def ext2fs_super_and_bgd_loc2_def Let_def D_def [symmetric]
      bp_def [symmetric] fb_def [symmetric]
    using assms(2,6) ni n0 lt2 by (simp add: m4 bg_has_super step)
qed

end
