(* ===== verification/Iblock.thy ===== *)
theory Iblock
  imports Blknum
begin

text \<open>
  \<^verbatim>\<open>libext2fs/i_block.c\<close>, the count of 512-byte sectors or of blocks an inode occupies, and
  \<^verbatim>\<open>libext2fs/valid_blk.c\<close>. The operations return the inode together with the error code, since
  \<open>ext2fs_iblk_set\<close> has written the low half before it reports the overflow.
\<close>

abbreviation (input) EXT4_HUGE_FILE_FL :: u32 where "EXT4_HUGE_FILE_FL \<equiv> 262144"
abbreviation (input) EXT4_INLINE_DATA_FL :: u32 where "EXT4_INLINE_DATA_FL \<equiv> 268435456"
abbreviation (input) EXT2_N_BLOCKS :: u32 where "EXT2_N_BLOCKS \<equiv> 15"

section \<open>The code\<close>

text \<open>The beginning that the operations share: the count of the inode, and a number of clusters in its unit.\<close>

definition iblk_get :: "'a fs_base_scheme \<Rightarrow> 'b ext2_inode_scheme \<Rightarrow> u64" where
  "iblk_get fs inode =
     (let b = ucast (i_blocks inode)
      in if ext2fs_has_feature_huge_file (fs_super fs)
         then b + push_bit 32 (ucast (l_i_blocks_hi inode)) else b)"

definition iblk_units :: "'a fs_base_scheme \<Rightarrow> 'b ext2_inode_scheme \<Rightarrow> u64 \<Rightarrow> u64" where
  "iblk_units fs inode num_blocks =
     (let num_blocks = (if \<not> ext2fs_has_feature_huge_file (fs_super fs) \<or> i_flags inode AND EXT4_HUGE_FILE_FL = 0
                        then num_blocks * ucast (fs_blocksize fs div 512) else num_blocks)
      in num_blocks * EXT2FS_CLUSTER_RATIO fs)"

definition ext2fs_iblk_add_blocks ::
  "'a fs_base_scheme \<Rightarrow> 'b ext2_inode_scheme \<Rightarrow> u64 \<Rightarrow> 'b ext2_inode_scheme \<times> errcode" where
  "ext2fs_iblk_add_blocks fs inode num_blocks =
     (let b = iblk_get fs inode + iblk_units fs inode num_blocks
      in if ext2fs_has_feature_huge_file (fs_super fs)
         then (inode\<lparr>l_i_blocks_hi := ucast (drop_bit 32 b), i_blocks := ucast (b AND 0xFFFFFFFF)\<rparr>, 0)
         else if b > 0xFFFFFFFF then (inode, EOVERFLOW)
         else (inode\<lparr>i_blocks := ucast (b AND 0xFFFFFFFF)\<rparr>, 0))"

definition ext2fs_iblk_sub_blocks ::
  "'a fs_base_scheme \<Rightarrow> 'b ext2_inode_scheme \<Rightarrow> u64 \<Rightarrow> 'b ext2_inode_scheme \<times> errcode" where
  "ext2fs_iblk_sub_blocks fs inode num_blocks =
     (let b = iblk_get fs inode;
          num_blocks = iblk_units fs inode num_blocks
      in if num_blocks > b then (inode, EOVERFLOW)
         else let b = b - num_blocks;
                  inode = (if ext2fs_has_feature_huge_file (fs_super fs)
                           then inode\<lparr>l_i_blocks_hi := ucast (drop_bit 32 b)\<rparr> else inode)
              in (inode\<lparr>i_blocks := ucast (b AND 0xFFFFFFFF)\<rparr>, 0))"

definition ext2fs_iblk_set ::
  "'a fs_base_scheme \<Rightarrow> 'b ext2_inode_scheme \<Rightarrow> u64 \<Rightarrow> 'b ext2_inode_scheme \<times> errcode" where
  "ext2fs_iblk_set fs inode b =
     (let b = iblk_units fs inode b;
          inode = inode\<lparr>i_blocks := ucast (b AND 0xFFFFFFFF)\<rparr>
      in if ext2fs_has_feature_huge_file (fs_super fs)
         then (inode\<lparr>l_i_blocks_hi := ucast (drop_bit 32 b)\<rparr>, 0)
         else if drop_bit 32 b \<noteq> 0 then (inode, EOVERFLOW) else (inode, 0))"

definition ext2fs_inode_has_valid_blocks2 :: "'a fs_base_scheme option \<Rightarrow> 'b ext2_inode_scheme \<Rightarrow> int" where
  "ext2fs_inode_has_valid_blocks2 fs inode =
     (let rest = (if i_flags inode AND EXT4_INLINE_DATA_FL \<noteq> 0 then 0 else 1)
      in if \<not> LINUX_S_ISDIR (i_mode inode) \<and> \<not> LINUX_S_ISREG (i_mode inode) \<and> \<not> LINUX_S_ISLNK (i_mode inode)
         then 0
         else if LINUX_S_ISLNK (i_mode inode) then
           if ext2fs_file_acl_block fs inode = 0 then
             if i_blocks inode = 0 then 0 else rest
           else if i_size inode \<ge> EXT2_N_BLOCKS * 4 then 1
           else if i_size inode > 4 \<and> i_block inode ! 1 = 0 then 1
           else 0
         else rest)"

definition ext2fs_inode_has_valid_blocks :: "'b ext2_inode_scheme \<Rightarrow> int" where
  "ext2fs_inode_has_valid_blocks inode = ext2fs_inode_has_valid_blocks2 (None :: fs_base option) inode"

section \<open>The count as a number\<close>

text \<open>The largest count the two halves can hold, plus one.\<close>

definition iblk_limit :: "'a fs_base_scheme \<Rightarrow> nat" where
  "iblk_limit fs = (if ext2fs_has_feature_huge_file (fs_super fs) then 2 ^ 48 else 2 ^ 32)"

lemma iblk_units_upd [simp]:
  "iblk_units fs (inode\<lparr>i_blocks := x\<rparr>) n = iblk_units fs inode n"
  "iblk_units fs (inode\<lparr>l_i_blocks_hi := y\<rparr>) n = iblk_units fs inode n"
  by (simp_all add: iblk_units_def)

lemma iblk_get_or: "iblk_get fs inode = ext2fs_inode_i_blocks fs inode"
proof -
  have "ucast (i_blocks inode) + push_bit 32 (ucast (l_i_blocks_hi inode)) =
      (ucast (i_blocks inode) OR push_bit 32 (ucast (l_i_blocks_hi inode)) :: u64)"
    by (rule disjunctive_add) (auto simp: bit_simps dest: bit_imp_le_length)
  then show ?thesis by (simp add: iblk_get_def ext2fs_inode_i_blocks_def Let_def)
qed

text \<open>Storing a number in the halves and reading it back.\<close>

lemma iblk_store:
  assumes "ext2fs_has_feature_huge_file (fs_super fs)"
  shows "iblk_get fs (inode\<lparr>l_i_blocks_hi := ucast (drop_bit 32 b), i_blocks := ucast (b AND 0xFFFFFFFF)\<rparr>) =
    take_bit 48 b"
proof -
  have "ucast (ucast (b AND 0xFFFFFFFF) :: u32) = take_bit 32 b"
    using and_mask32 [of b] by (simp add: ucast_half64)
  then show ?thesis using assms
    by (simp add: iblk_get_or ext2fs_inode_i_blocks_def join_halves)
qed

lemma iblk_store32:
  assumes "\<not> ext2fs_has_feature_huge_file (fs_super fs)"
  shows "iblk_get fs (inode\<lparr>i_blocks := ucast (b AND 0xFFFFFFFF)\<rparr>) = take_bit 32 b"
  using assms and_mask32 [of b] by (simp add: iblk_get_def ucast_half64)

lemma iblk_low: "ucast (iblk_get fs inode AND 0xFFFFFFFF) = i_blocks inode"
proof -
  have "ucast (iblk_get fs inode AND 0xFFFFFFFF) = (ucast (iblk_get fs inode) :: u32)" by (rule and_mask32)
  also have "\<dots> = i_blocks inode"
    by (rule bit_eqI) (auto simp: iblk_get_or ext2fs_inode_i_blocks_def bit_simps)
  finally show ?thesis .
qed

lemma iblk_high:
  "ext2fs_has_feature_huge_file (fs_super fs) \<Longrightarrow> ucast (drop_bit 32 (iblk_get fs inode)) = l_i_blocks_hi inode"
  by (rule bit_eqI) (auto simp: iblk_get_or ext2fs_inode_i_blocks_def bit_simps dest: bit_imp_le_length)

lemma iblk_get_limit: "unat (iblk_get fs inode) < iblk_limit fs"
proof (cases "ext2fs_has_feature_huge_file (fs_super fs)")
  case True
  have "take_bit 48 (iblk_get fs inode) = iblk_get fs inode"
    by (rule bit_eqI) (auto simp: iblk_get_or ext2fs_inode_i_blocks_def bit_simps dest: bit_imp_le_length)
  then have "take_bit 48 (unat (iblk_get fs inode)) = unat (iblk_get fs inode)"
    unfolding unsigned_take_bit_eq [symmetric] by (rule arg_cong)
  then have "unat (iblk_get fs inode) < 2 ^ 48" by (metis take_bit_nat_less_exp)
  then show ?thesis using True by (simp add: iblk_limit_def)
next
  case False
  then show ?thesis using unat_lt32 [of "i_blocks inode"] by (simp add: iblk_get_def iblk_limit_def unat_ucast32_64)
qed

lemma take_bit_id: "unat (b :: u64) < 2 ^ n \<Longrightarrow> take_bit n b = b"
  by (simp add: word_unat_eq_iff unsigned_take_bit_eq take_bit_nat_eq_self)

text \<open>
  Adding within the limit stores the exact sum. Past it the addition is refused without the huge-file
  feature, and with it the stored count is cut to 48 bits.
\<close>

lemma iblk_add_exact:
  assumes "unat (iblk_get fs inode) + unat (iblk_units fs inode n) < iblk_limit fs"
    "ext2fs_iblk_add_blocks fs inode n = (inode', err)"
  shows "err = 0 \<and> unat (iblk_get fs inode') = unat (iblk_get fs inode) + unat (iblk_units fs inode n)
    \<and> iblk_units fs inode' m = iblk_units fs inode m"
proof -
  define s where "s = iblk_get fs inode + iblk_units fs inode n"
  have l: "iblk_limit fs \<le> 2 ^ 48" by (simp add: iblk_limit_def)
  then have s: "unat s = unat (iblk_get fs inode) + unat (iblk_units fs inode n)"
    using assms(1) unfolding s_def by (intro unat_add_no_wrap) simp
  have r: "ext2fs_iblk_add_blocks fs inode n =
     (if ext2fs_has_feature_huge_file (fs_super fs)
      then (inode\<lparr>l_i_blocks_hi := ucast (drop_bit 32 s), i_blocks := ucast (s AND 0xFFFFFFFF)\<rparr>, 0)
      else if s > 0xFFFFFFFF then (inode, EOVERFLOW)
      else (inode\<lparr>i_blocks := ucast (s AND 0xFFFFFFFF)\<rparr>, 0))"
    by (simp only: ext2fs_iblk_add_blocks_def Let_def s_def)
  show ?thesis
  proof (cases "ext2fs_has_feature_huge_file (fs_super fs)")
    case True
    then have e: "inode' = inode\<lparr>l_i_blocks_hi := ucast (drop_bit 32 s), i_blocks := ucast (s AND 0xFFFFFFFF)\<rparr>" "err = 0"
      using assms(2) r by simp_all
    have "take_bit 48 s = s" using assms(1) s True by (intro take_bit_id) (simp add: iblk_limit_def)
    then show ?thesis unfolding e iblk_store [OF True] by (simp add: s)
  next
    case False
    then have lt: "unat s < 2 ^ 32" using assms(1) s by (simp add: iblk_limit_def)
    then have "\<not> s > 0xFFFFFFFF" by (simp add: word_less_nat_alt)
    then have e: "inode' = inode\<lparr>i_blocks := ucast (s AND 0xFFFFFFFF)\<rparr>" "err = 0"
      using assms(2) r False by simp_all
    show ?thesis unfolding e iblk_store32 [OF False] using lt by (simp add: s take_bit_id)
  qed
qed

lemma iblk_add_overflow:
  assumes "iblk_limit fs \<le> unat (iblk_get fs inode) + unat (iblk_units fs inode n)"
    "unat (iblk_get fs inode) + unat (iblk_units fs inode n) < 2 ^ 64"
    "\<not> ext2fs_has_feature_huge_file (fs_super fs)"
  shows "ext2fs_iblk_add_blocks fs inode n = (inode, EOVERFLOW)"
proof -
  have "unat (iblk_get fs inode + iblk_units fs inode n) = unat (iblk_get fs inode) + unat (iblk_units fs inode n)"
    using assms(2) by (intro unat_add_no_wrap) simp
  then have "iblk_get fs inode + iblk_units fs inode n > 0xFFFFFFFF"
    using assms(1,3) by (simp add: word_less_nat_alt iblk_limit_def)
  then show ?thesis using assms(3) by (simp add: ext2fs_iblk_add_blocks_def Let_def)
qed

lemma iblk_add_cut:
  assumes "ext2fs_has_feature_huge_file (fs_super fs)"
  shows "iblk_get fs (fst (ext2fs_iblk_add_blocks fs inode n)) =
      take_bit 48 (iblk_get fs inode + iblk_units fs inode n) \<and> snd (ext2fs_iblk_add_blocks fs inode n) = 0"
  using assms iblk_store [OF assms] by (simp add: ext2fs_iblk_add_blocks_def Let_def)

lemma iblk_sub_exact:
  assumes "ext2fs_iblk_sub_blocks fs inode n = (inode', err)"
  shows "if iblk_units fs inode n \<le> iblk_get fs inode
     then err = 0 \<and> iblk_get fs inode' = iblk_get fs inode - iblk_units fs inode n
     else err = EOVERFLOW \<and> inode' = inode"
proof (cases "iblk_units fs inode n \<le> iblk_get fs inode")
  case True
  define s where "s = iblk_get fs inode - iblk_units fs inode n"
  have "unat s < iblk_limit fs"
    using True iblk_get_limit [of fs inode] by (simp add: s_def unat_sub_no_wrap)
  then have "if ext2fs_has_feature_huge_file (fs_super fs) then take_bit 48 s = s else take_bit 32 s = s"
    by (simp add: iblk_limit_def take_bit_id split: if_splits)
  then show ?thesis using True assms iblk_store [of fs s inode] iblk_store32 [of fs s inode]
    by (auto simp: ext2fs_iblk_sub_blocks_def Let_def s_def [symmetric] split: if_splits)
next
  case False
  then have "iblk_get fs inode < iblk_units fs inode n" by simp
  then show ?thesis using assms False by (simp add: ext2fs_iblk_sub_blocks_def Let_def)
qed

lemma iblk_add_sub:
  assumes "unat (iblk_get fs inode) + unat (iblk_units fs inode n) < iblk_limit fs"
    "ext2fs_iblk_add_blocks fs inode n = (inode', err)"
  shows "ext2fs_iblk_sub_blocks fs inode' n = (inode, 0)"
proof -
  have a: "unat (iblk_get fs inode') = unat (iblk_get fs inode) + unat (iblk_units fs inode n)"
    "iblk_units fs inode' n = iblk_units fs inode n" "err = 0"
    using iblk_add_exact [OF assms, of n] by simp_all
  have le: "iblk_units fs inode n \<le> iblk_get fs inode'" by (simp add: word_le_nat_alt a)
  then have d: "iblk_get fs inode' - iblk_units fs inode n = iblk_get fs inode"
    by (simp add: word_unat_eq_iff unat_sub_no_wrap a)
  have r: "inode'\<lparr>l_i_blocks_hi := l_i_blocks_hi inode, i_blocks := i_blocks inode\<rparr> = inode"
    "\<not> ext2fs_has_feature_huge_file (fs_super fs) \<Longrightarrow> inode'\<lparr>i_blocks := i_blocks inode\<rparr> = inode"
    using assms(2) by (auto simp: ext2fs_iblk_add_blocks_def Let_def split: if_splits)
  show ?thesis using le r
    by (simp add: ext2fs_iblk_sub_blocks_def Let_def a(2) d iblk_low iblk_high)
qed

lemma iblk_set_get:
  assumes "ext2fs_iblk_set fs inode n = (inode', err)"
  shows "if unat (iblk_units fs inode n) < iblk_limit fs then err = 0 \<and> iblk_get fs inode' = iblk_units fs inode n
    else err = (if ext2fs_has_feature_huge_file (fs_super fs) then 0 else EOVERFLOW)
      \<and> iblk_get fs inode' \<noteq> iblk_units fs inode n"
proof -
  define s where "s = iblk_units fs inode n"
  have r: "inode' = (if ext2fs_has_feature_huge_file (fs_super fs)
       then inode\<lparr>l_i_blocks_hi := ucast (drop_bit 32 s), i_blocks := ucast (s AND 0xFFFFFFFF)\<rparr>
       else inode\<lparr>i_blocks := ucast (s AND 0xFFFFFFFF)\<rparr>)"
    and e: "err = (if ext2fs_has_feature_huge_file (fs_super fs) \<or> drop_bit 32 s = 0 then 0 else EOVERFLOW)"
    using assms by (auto simp: ext2fs_iblk_set_def Let_def s_def split: if_splits)
  have g: "iblk_get fs inode' = (if ext2fs_has_feature_huge_file (fs_super fs) then take_bit 48 s else take_bit 32 s)"
    unfolding r by (simp add: iblk_store iblk_store32)
  have z: "drop_bit 32 s = 0 \<longleftrightarrow> unat s < 2 ^ 32"
    by (simp add: word_unat_eq_iff unat_drop_bit_eq drop_bit_eq_div unat_div div_eq_0_iff)
  have w: "take_bit k s = s \<longleftrightarrow> unat s < 2 ^ k" if "k < 64" for k
    using that by (simp add: word_unat_eq_iff unsigned_take_bit_eq take_bit_nat_eq_self_iff)
  show ?thesis unfolding g e z s_def [symmetric] using w [of 48] w [of 32] by (simp add: iblk_limit_def)
qed

end
