(* ===== verification/Qsort.thy ===== *)
theory Qsort
  imports E2fs_Prelude "HOL-Library.Multiset"
begin

text \<open>
  \<^verbatim>\<open>e2fsmac/qsort.c\<close>: the quicksort of Bentley and McIlroy with the switch to insertion sort when a
  partition moved nothing. The array is a list and a pointer into it counts elements; the three ways
  the code copies an element (\<open>swaptype\<close>) are one exchange. The comparison function is the argument
  \<open>cmp\<close>; the locale \<open>comparator\<close> says what a caller has to guarantee.
\<close>

section \<open>The code\<close>

definition swap_at :: "'a list \<Rightarrow> nat \<Rightarrow> nat \<Rightarrow> 'a list" where
  "swap_at xs i j = xs[i := xs ! j, j := xs ! i]"

primrec vecswap :: "nat \<Rightarrow> 'a list \<Rightarrow> nat \<Rightarrow> nat \<Rightarrow> 'a list" where
  "vecswap 0 xs pi pj = xs"
| "vecswap (Suc i) xs pi pj = vecswap i (swap_at xs pi pj) (Suc pi) (Suc pj)"

definition med3 :: "('a \<Rightarrow> 'a \<Rightarrow> int) \<Rightarrow> 'a list \<Rightarrow> nat \<Rightarrow> nat \<Rightarrow> nat \<Rightarrow> nat" where
  "med3 cmp xs a b c =
     (if cmp (xs ! a) (xs ! b) < 0
      then (if cmp (xs ! b) (xs ! c) < 0 then b else if cmp (xs ! a) (xs ! c) < 0 then c else a)
      else (if cmp (xs ! b) (xs ! c) > 0 then b else if cmp (xs ! a) (xs ! c) < 0 then a else c))"

text \<open>Insertion sort: the inner loop moves the element at \<open>pl\<close> down to its place.\<close>

function isort_inner :: "('a \<Rightarrow> 'a \<Rightarrow> int) \<Rightarrow> nat \<Rightarrow> 'a list \<Rightarrow> nat \<Rightarrow> 'a list" where
  "isort_inner cmp a xs pl =
     (if pl > a \<and> cmp (xs ! (pl - 1)) (xs ! pl) > 0
      then isort_inner cmp a (swap_at xs pl (pl - 1)) (pl - 1)
      else xs)"
  by pat_completeness auto
termination by (relation "measure (\<lambda>(cmp, a, xs, pl). pl)") auto

function isort_outer :: "('a \<Rightarrow> 'a \<Rightarrow> int) \<Rightarrow> nat \<Rightarrow> nat \<Rightarrow> 'a list \<Rightarrow> nat \<Rightarrow> 'a list" where
  "isort_outer cmp a n xs pm =
     (if pm < a + n then isort_outer cmp a n (isort_inner cmp a xs pm) (Suc pm) else xs)"
  by pat_completeness auto
termination by (relation "measure (\<lambda>(cmp, a, n, xs, pm). a + n - pm)") auto

declare isort_inner.simps [simp del] isort_outer.simps [simp del]

definition choose_pivot :: "('a \<Rightarrow> 'a \<Rightarrow> int) \<Rightarrow> 'a list \<Rightarrow> nat \<Rightarrow> nat \<Rightarrow> nat" where
  "choose_pivot cmp xs a n =
     (let pm = a + n div 2
      in if n > 7 then
           let pl = a; pn = a + n - 1;
               d = n div 8;
               (pl, pm, pn) =
                 (if n > 40
                  then (med3 cmp xs pl (pl + d) (pl + 2 * d), med3 cmp xs (pm - d) pm (pm + d),
                        med3 cmp xs (pn - 2 * d) (pn - d) pn)
                  else (pl, pm, pn))
           in med3 cmp xs pl pm pn
         else pm)"

text \<open>
  The state of the partition: the array, the four pointers and \<open>swap_cnt\<close>. \<open>pb\<close> starts behind the base
  and only grows, so it is never zero; the loop that lowers \<open>pc\<close> says so, because an index below zero
  does not exist here.
\<close>

record 'a part =
  arr :: "'a list"
  pa :: nat
  pb :: nat
  pc :: nat
  pd :: nat
  swap_cnt :: bool

definition up_step :: "('a \<Rightarrow> 'a \<Rightarrow> int) \<Rightarrow> nat \<Rightarrow> 'a part \<Rightarrow> 'a part" where
  "up_step cmp a s =
     (if cmp (arr s ! pb s) (arr s ! a) = 0
      then s\<lparr>swap_cnt := True, arr := swap_at (arr s) (pa s) (pb s), pa := pa s + 1, pb := pb s + 1\<rparr>
      else s\<lparr>pb := pb s + 1\<rparr>)"

definition down_step :: "('a \<Rightarrow> 'a \<Rightarrow> int) \<Rightarrow> nat \<Rightarrow> 'a part \<Rightarrow> 'a part" where
  "down_step cmp a s =
     (if cmp (arr s ! pc s) (arr s ! a) = 0
      then s\<lparr>swap_cnt := True, arr := swap_at (arr s) (pc s) (pd s), pd := pd s - 1, pc := pc s - 1\<rparr>
      else s\<lparr>pc := pc s - 1\<rparr>)"

function scan_up :: "('a \<Rightarrow> 'a \<Rightarrow> int) \<Rightarrow> nat \<Rightarrow> 'a part \<Rightarrow> 'a part" where
  "scan_up cmp a s =
     (if pb s \<le> pc s \<and> cmp (arr s ! pb s) (arr s ! a) \<le> 0
      then scan_up cmp a (up_step cmp a s) else s)"
  by pat_completeness auto
termination by (relation "measure (\<lambda>(cmp, a, s). Suc (pc s) - pb s)") (auto simp: up_step_def)

function scan_down :: "('a \<Rightarrow> 'a \<Rightarrow> int) \<Rightarrow> nat \<Rightarrow> 'a part \<Rightarrow> 'a part" where
  "scan_down cmp a s =
     (if 0 < pb s \<and> pb s \<le> pc s \<and> cmp (arr s ! pc s) (arr s ! a) \<ge> 0
      then scan_down cmp a (down_step cmp a s) else s)"
  by pat_completeness auto
termination by (relation "measure (\<lambda>(cmp, a, s). Suc (pc s) - pb s)") (auto simp: down_step_def)

declare scan_up.simps [simp del] scan_down.simps [simp del]

lemma scan_up_step:
  "pb s \<le> pc s \<and> cmp (arr s ! pb s) (arr s ! a) \<le> 0 \<Longrightarrow> scan_up cmp a s = scan_up cmp a (up_step cmp a s)"
  "\<not> (pb s \<le> pc s \<and> cmp (arr s ! pb s) (arr s ! a) \<le> 0) \<Longrightarrow> scan_up cmp a s = s"
  by (subst scan_up.simps, erule if_P) (subst scan_up.simps, erule if_not_P)

lemma scan_down_step:
  "0 < pb s \<and> pb s \<le> pc s \<and> 0 \<le> cmp (arr s ! pc s) (arr s ! a) \<Longrightarrow>
   scan_down cmp a s = scan_down cmp a (down_step cmp a s)"
  "\<not> (0 < pb s \<and> pb s \<le> pc s \<and> 0 \<le> cmp (arr s ! pc s) (arr s ! a)) \<Longrightarrow> scan_down cmp a s = s"
  by (subst scan_down.simps, erule if_P) (subst scan_down.simps, erule if_not_P)

text \<open>What a step of a scan keeps, the scan keeps; and it ends where its condition fails.\<close>

lemma scan_up_inv:
  assumes "P s" "\<And>s. P s \<Longrightarrow> pb s \<le> pc s \<Longrightarrow> cmp (arr s ! pb s) (arr s ! a) \<le> 0 \<Longrightarrow> P (up_step cmp a s)"
  shows "P (scan_up cmp a s)"
  using assms
proof (induction cmp a s rule: scan_up.induct)
  case (1 cmp a s)
  show ?case
  proof (cases "pb s \<le> pc s \<and> cmp (arr s ! pb s) (arr s ! a) \<le> 0")
    case True
    then have "P (scan_up cmp a (up_step cmp a s))"
      using "1.prems" by (intro "1.IH") auto
    then show ?thesis unfolding scan_up_step(1) [of s cmp a, OF True] .
  next
    case False
    show ?thesis unfolding scan_up_step(2) [of s cmp a, OF False] by (rule "1.prems"(1))
  qed
qed

lemma scan_up_end: "\<not> (pb (scan_up cmp a s) \<le> pc (scan_up cmp a s)
    \<and> cmp (arr (scan_up cmp a s) ! pb (scan_up cmp a s)) (arr (scan_up cmp a s) ! a) \<le> 0)"
proof (induction cmp a s rule: scan_up.induct)
  case (1 cmp a s)
  show ?case
  proof (cases "pb s \<le> pc s \<and> cmp (arr s ! pb s) (arr s ! a) \<le> 0")
    case True
    show ?thesis unfolding scan_up_step(1) [of s cmp a, OF True] by (rule "1.IH" [OF True])
  next
    case False
    show ?thesis unfolding scan_up_step(2) [of s cmp a, OF False] by (rule False)
  qed
qed

lemma scan_down_inv:
  assumes "P s"
    "\<And>s. P s \<Longrightarrow> 0 < pb s \<Longrightarrow> pb s \<le> pc s \<Longrightarrow> 0 \<le> cmp (arr s ! pc s) (arr s ! a) \<Longrightarrow> P (down_step cmp a s)"
  shows "P (scan_down cmp a s)"
  using assms
proof (induction cmp a s rule: scan_down.induct)
  case (1 cmp a s)
  show ?case
  proof (cases "0 < pb s \<and> pb s \<le> pc s \<and> 0 \<le> cmp (arr s ! pc s) (arr s ! a)")
    case True
    then have "P (scan_down cmp a (down_step cmp a s))"
      using "1.prems" by (intro "1.IH") auto
    then show ?thesis unfolding scan_down_step(1) [of s cmp a, OF True] .
  next
    case False
    show ?thesis unfolding scan_down_step(2) [of s cmp a, OF False] by (rule "1.prems"(1))
  qed
qed

lemma scan_down_end: "\<not> (0 < pb (scan_down cmp a s) \<and> pb (scan_down cmp a s) \<le> pc (scan_down cmp a s)
    \<and> 0 \<le> cmp (arr (scan_down cmp a s) ! pc (scan_down cmp a s)) (arr (scan_down cmp a s) ! a))"
proof (induction cmp a s rule: scan_down.induct)
  case (1 cmp a s)
  show ?case
  proof (cases "0 < pb s \<and> pb s \<le> pc s \<and> 0 \<le> cmp (arr s ! pc s) (arr s ! a)")
    case True
    show ?thesis unfolding scan_down_step(1) [of s cmp a, OF True] by (rule "1.IH" [OF True])
  next
    case False
    show ?thesis unfolding scan_down_step(2) [of s cmp a, OF False] by (rule False)
  qed
qed

lemma scan_up_mono: "pb s \<le> pb (scan_up cmp a s) \<and> pc (scan_up cmp a s) = pc s"
  by (rule scan_up_inv [where P = "\<lambda>s'. pb s \<le> pb s' \<and> pc s' = pc s"]) (auto simp: up_step_def)

lemma scan_down_mono: "pc (scan_down cmp a s) \<le> pc s \<and> pb (scan_down cmp a s) = pb s"
  by (rule scan_down_inv [where P = "\<lambda>s'. pc s' \<le> pc s \<and> pb s' = pb s"]) (auto simp: down_step_def)

text \<open>\<open>for (;;)\<close>\<close>

function partition_loop :: "('a \<Rightarrow> 'a \<Rightarrow> int) \<Rightarrow> nat \<Rightarrow> 'a part \<Rightarrow> 'a part" where
  "partition_loop cmp a s =
     (let s = scan_down cmp a (scan_up cmp a s)
      in if pb s > pc s then s
         else partition_loop cmp a
                (s\<lparr>arr := swap_at (arr s) (pb s) (pc s), swap_cnt := True, pb := pb s + 1, pc := pc s - 1\<rparr>))"
  by pat_completeness auto
termination
proof (relation "measure (\<lambda>(cmp, a, s). Suc (pc s) - pb s)", goal_cases)
  case (2 cmp a s x)
  have "pb s \<le> pb x \<and> pc x \<le> pc s"
    using 2(1) scan_up_mono [of s cmp a] scan_down_mono [of cmp a "scan_up cmp a s"] by simp
  then show ?case using 2(2) by simp linarith
qed simp

declare partition_loop.simps [simp del]

lemma partition_loop_inv:
  assumes "P s" "\<And>s. P s \<Longrightarrow> Q (scan_up cmp a s)" "\<And>s. Q s \<Longrightarrow> R (scan_down cmp a s)"
    and "\<And>s. R s \<Longrightarrow> pb s \<le> pc s \<Longrightarrow> \<not> (0 < pb s \<and> 0 \<le> cmp (arr s ! pc s) (arr s ! a)) \<Longrightarrow>
      P (s\<lparr>arr := swap_at (arr s) (pb s) (pc s), swap_cnt := True, pb := pb s + 1, pc := pc s - 1\<rparr>)"
  shows "R (partition_loop cmp a s)"
  using assms
proof (induction cmp a s rule: partition_loop.induct)
  case (1 cmp a s)
  define x where "x = scan_down cmp a (scan_up cmp a s)"
  have x: "R x" unfolding x_def using "1.prems"(1-3) by blast
  have e: "\<not> (0 < pb x \<and> pb x \<le> pc x \<and> 0 \<le> cmp (arr x ! pc x) (arr x ! a))"
    unfolding x_def by (rule scan_down_end)
  show ?case
  proof (cases "pc x < pb x")
    case True
    then show ?thesis using x by (subst partition_loop.simps) (simp add: x_def Let_def)
  next
    case False
    then have "P (x\<lparr>arr := swap_at (arr x) (pb x) (pc x), swap_cnt := True, pb := pb x + 1, pc := pc x - 1\<rparr>)"
      using x e by (intro "1.prems"(4)) auto
    from "1.IH" [OF x_def False this "1.prems"(2-4)] show ?thesis using False
      by (subst partition_loop.simps) (simp add: x_def Let_def)
  qed
qed

lemma partition_loop_end: "pc (partition_loop cmp a s) < pb (partition_loop cmp a s)"
proof (induction cmp a s rule: partition_loop.induct)
  case (1 cmp a s)
  then show ?case
    by (cases "pc (scan_down cmp a (scan_up cmp a s)) < pb (scan_down cmp a (scan_up cmp a s))")
      (simp_all add: partition_loop.simps [of cmp a s] Let_def)
qed

definition qsort_partition :: "('a \<Rightarrow> 'a \<Rightarrow> int) \<Rightarrow> 'a list \<Rightarrow> nat \<Rightarrow> nat \<Rightarrow> 'a part" where
  "qsort_partition cmp xs a n =
     partition_loop cmp a
       \<lparr>arr = swap_at xs a (choose_pivot cmp xs a n), pa = a + 1, pb = a + 1,
        pc = a + n - 1, pd = a + n - 1, swap_cnt = False\<rparr>"

text \<open>The two block exchanges that bring the elements equal to the pivot to the middle.\<close>

definition qsort_middle :: "nat \<Rightarrow> nat \<Rightarrow> 'a part \<Rightarrow> 'a list" where
  "qsort_middle a n s =
     (let pn = a + n;
          r = min (pa s - a) (pb s - pa s);
          xs = vecswap r (arr s) a (pb s - r);
          r = min (pd s - pc s) (pn - pd s - 1)
      in vecswap r xs (pb s) (pn - r))"

text \<open>Where the pointers can be.\<close>

definition pbounds :: "nat \<Rightarrow> nat \<Rightarrow> 'a part \<Rightarrow> bool" where
  "pbounds a n s \<longleftrightarrow> a < pa s \<and> pa s \<le> pb s \<and> pb s \<le> a + n \<and> a \<le> pc s \<and> pc s \<le> pd s \<and> pd s < a + n"

lemma scan_up_bounds: "pbounds a n s \<Longrightarrow> pbounds a n (scan_up cmp a s)"
  by (rule scan_up_inv [where P = "pbounds a n"]) (auto simp: pbounds_def up_step_def)

lemma scan_down_bounds: "pbounds a n s \<Longrightarrow> pbounds a n (scan_down cmp a s)"
  by (rule scan_down_inv [where P = "pbounds a n"]) (auto simp: pbounds_def down_step_def)

lemma partition_loop_bounds: "pbounds a n s \<Longrightarrow> pbounds a n (partition_loop cmp a s)"
  by (erule partition_loop_inv [where P = "pbounds a n" and Q = "pbounds a n" and R = "pbounds a n"])
    (erule scan_up_bounds, erule scan_down_bounds, auto simp: pbounds_def)

lemma partition_bounds: "1 < n \<Longrightarrow> pbounds a n (qsort_partition cmp xs a n)"
  unfolding qsort_partition_def by (rule partition_loop_bounds) (simp add: pbounds_def)

function qsort_loop :: "('a \<Rightarrow> 'a \<Rightarrow> int) \<Rightarrow> 'a list \<Rightarrow> nat \<Rightarrow> nat \<Rightarrow> 'a list" where
  "qsort_loop cmp xs a n =
     (if n < 7 then isort_outer cmp a n xs (a + 1)
      else
        let s = qsort_partition cmp xs a n
        in if \<not> swap_cnt s then isort_outer cmp a n (arr s) (a + 1)
           else
             let pn = a + n;
                 xs = qsort_middle a n s;
                 r = pb s - pa s;
                 xs = (if r > 1 then qsort_loop cmp xs a r else xs);
                 r = pd s - pc s
             in if r > 1 then qsort_loop cmp xs (pn - r) r else xs)"
  by pat_completeness auto
termination
proof (relation "measure (\<lambda>(cmp, xs, a, n). n)", goal_cases)
  case 1
  then show ?case by simp
next
  case (2 cmp xs a n s pn xs' r)
  then show ?case using partition_bounds [of n a cmp xs] by (auto simp: pbounds_def)
next
  case (3 cmp xs a n s pn xs' r xs'' r')
  then show ?case using partition_bounds [of n a cmp xs] by (auto simp: pbounds_def)
qed

declare qsort_loop.simps [simp del]

definition qsort :: "'a list \<Rightarrow> nat \<Rightarrow> ('a \<Rightarrow> 'a \<Rightarrow> int) \<Rightarrow> 'a list" where
  "qsort a n cmp = qsort_loop cmp a 0 n"

section \<open>Rearranging a range\<close>

definition rearr :: "nat \<Rightarrow> nat \<Rightarrow> 'a list \<Rightarrow> 'a list \<Rightarrow> bool" where
  "rearr a n xs ys \<longleftrightarrow> mset ys = mset xs \<and> (\<forall>i < length xs. i < a \<or> a + n \<le> i \<longrightarrow> ys ! i = xs ! i)"

lemma rearr_refl [simp, intro]: "rearr a n xs xs"
  by (simp add: rearr_def)

lemma rearr_length: "rearr a n xs ys \<Longrightarrow> length ys = length xs"
  by (auto simp: rearr_def dest: mset_eq_length)

lemma rearr_trans [trans]: "rearr a n xs ys \<Longrightarrow> rearr a n ys zs \<Longrightarrow> rearr a n xs zs"
  using rearr_length [of a n xs ys] by (simp add: rearr_def)

lemma rearr_mono: "rearr b m xs ys \<Longrightarrow> a \<le> b \<Longrightarrow> b + m \<le> a + n \<Longrightarrow> rearr a n xs ys"
  by (auto simp: rearr_def)

lemma length_swap_at [simp]: "length (swap_at xs i j) = length xs"
  by (simp add: swap_at_def)

lemma nth_swap_at:
  "i < length xs \<Longrightarrow> j < length xs \<Longrightarrow> k < length xs \<Longrightarrow>
   swap_at xs i j ! k = xs ! (if k = j then i else if k = i then j else k)"
  by (auto simp: swap_at_def nth_list_update)

lemma rearr_swap_at:
  assumes "a \<le> i" "i < a + n" "a \<le> j" "j < a + n" "a + n \<le> length xs"
  shows "rearr a n xs (swap_at xs i j)"
  using assms by (auto simp: rearr_def nth_swap_at) (simp add: swap_at_def mset_swap)

text \<open>A range keeps its elements.\<close>

lemma rearr_range:
  assumes "rearr a n xs ys" "a + n \<le> length xs" "\<forall>k. a \<le> k \<and> k < a + n \<longrightarrow> P (xs ! k)" "a \<le> i" "i < a + n"
  shows "P (ys ! i)"
proof -
  have len: "length ys = length xs" by (rule rearr_length [OF assms(1)])
  have parts: "zs = take a zs @ take n (drop a zs) @ drop (a + n) zs" for zs :: "'a list"
  proof -
    have "drop (a + n) zs = drop n (drop a zs)" by (simp add: add.commute)
    then show ?thesis by (simp only: append_take_drop_id)
  qed
  have "take a ys = take a xs" "drop (a + n) ys = drop (a + n) xs"
    using assms(1,2) len by (auto intro!: nth_equalityI simp: rearr_def)
  then have "mset (take n (drop a ys)) = mset (take n (drop a xs))"
    using assms(1) parts [of ys] parts [of xs] unfolding rearr_def
    by (metis (no_types, lifting) add_left_cancel add_right_cancel mset_append)
  then have s: "set (take n (drop a ys)) = set (take n (drop a xs))" by (rule mset_eq_setD)
  have "ys ! i = take n (drop a ys) ! (i - a)" "i - a < length (take n (drop a ys))"
    using assms(2,4,5) len by auto
  then have "ys ! i \<in> set (take n (drop a xs))" unfolding s [symmetric] by (metis nth_mem)
  then obtain k where "k < n" "ys ! i = xs ! (a + k)" using assms(2) by (auto simp: in_set_conv_nth)
  then show ?thesis using assms(3) by auto
qed

lemma vecswap:
  assumes "i + r \<le> j \<or> r = 0" "j + r \<le> length xs"
  shows "length (vecswap r xs i j) = length xs \<and> mset (vecswap r xs i j) = mset xs \<and>
    (\<forall>k < length xs. vecswap r xs i j ! k =
      xs ! (if i \<le> k \<and> k < i + r then k + j - i else if j \<le> k \<and> k < j + r then k - j + i else k))"
  using assms
proof (induction r arbitrary: xs i j)
  case (Suc r)
  have ij: "i < j" "j < length xs" using Suc.prems by auto
  have "Suc i + r \<le> Suc j \<or> r = 0" "Suc j + r \<le> length (swap_at xs i j)" using Suc.prems by auto
  note ih = Suc.IH [OF this]
  have m: "mset (swap_at xs i j) = mset xs" using ij by (simp add: swap_at_def mset_swap)
  have "vecswap r (swap_at xs i j) (Suc i) (Suc j) ! k =
      xs ! (if i \<le> k \<and> k < i + Suc r then k + j - i else if j \<le> k \<and> k < j + Suc r then k - j + i else k)"
    if k: "k < length xs" for k
  proof -
    define k' where "k' = (if Suc i \<le> k \<and> k < Suc i + r then k + Suc j - Suc i
      else if Suc j \<le> k \<and> k < Suc j + r then k - Suc j + Suc i else k)"
    have k': "k' < length xs" using Suc.prems k ij by (auto simp: k'_def)
    have "vecswap r (swap_at xs i j) (Suc i) (Suc j) ! k = swap_at xs i j ! k'"
      using ih k by (simp add: k'_def)
    also have "\<dots> = xs ! (if k' = j then i else if k' = i then j else k')"
      using k' ij by (simp add: nth_swap_at)
    finally show ?thesis using Suc.prems k ij by (auto simp: k'_def Suc_diff_Suc)
  qed
  then show ?case using ih m by simp
qed auto

section \<open>Correctness\<close>

definition sorted_on :: "('a \<Rightarrow> 'a \<Rightarrow> int) \<Rightarrow> nat \<Rightarrow> nat \<Rightarrow> 'a list \<Rightarrow> bool" where
  "sorted_on cmp a b xs \<longleftrightarrow> (\<forall>i j. a \<le> i \<and> i < j \<and> j < b \<longrightarrow> cmp (xs ! i) (xs ! j) \<le> 0)"

text \<open>
  The partition: equal elements at both ends, the smaller ones before \<open>pb\<close>, the greater ones behind
  \<open>pc\<close>.
\<close>

definition parted :: "('a \<Rightarrow> 'a \<Rightarrow> int) \<Rightarrow> nat \<Rightarrow> nat \<Rightarrow> 'a list \<Rightarrow> 'a \<Rightarrow> 'a part \<Rightarrow> bool" where
  "parted cmp a n xs v s \<longleftrightarrow> a < pa s \<and> pa s \<le> pb s \<and> pb s \<le> pc s + 1 \<and> pc s \<le> pd s \<and> pd s < a + n
     \<and> rearr a n xs (arr s) \<and> arr s ! a = v
     \<and> (\<forall>i. a \<le> i \<and> i < pa s \<longrightarrow> cmp (arr s ! i) v = 0)
     \<and> (\<forall>i. pa s \<le> i \<and> i < pb s \<longrightarrow> cmp (arr s ! i) v < 0)
     \<and> (\<forall>i. pc s < i \<and> i \<le> pd s \<longrightarrow> 0 < cmp (arr s ! i) v)
     \<and> (\<forall>i. pd s < i \<and> i < a + n \<longrightarrow> cmp (arr s ! i) v = 0)"

text \<open>What the comparison has to be: the sign of a total preorder.\<close>

locale comparator =
  fixes cmp :: "'a \<Rightarrow> 'a \<Rightarrow> int"
  assumes cmp_sign: "cmp x y < 0 \<longleftrightarrow> 0 < cmp y x"
    and cmp_trans: "cmp x y \<le> 0 \<Longrightarrow> cmp y z \<le> 0 \<Longrightarrow> cmp x z \<le> 0"
begin

lemma cmp_refl [simp]: "cmp x x = 0"
  using cmp_sign [of x x] by linarith

lemma cmp_total: "0 < cmp x y \<Longrightarrow> cmp y x \<le> 0"
  using cmp_sign [of y x] by linarith

lemma isort_inner:
  assumes "m < length xs" "a \<le> pl" "pl \<le> m"
    and "\<forall>i j. a \<le> i \<and> i < j \<and> j \<le> m \<and> j \<noteq> pl \<longrightarrow> cmp (xs ! i) (xs ! j) \<le> 0"
  shows "sorted_on cmp a (Suc m) (isort_inner cmp a xs pl) \<and> rearr a (Suc m - a) xs (isort_inner cmp a xs pl)"
  using assms
proof (induction "pl - a" arbitrary: pl xs)
  case 0
  then have "isort_inner cmp a xs pl = xs" by (subst isort_inner.simps) simp
  then show ?case using 0 by (auto simp: sorted_on_def)
next
  case (Suc d)
  have pl: "a < pl" "d = (pl - 1) - a" using Suc.hyps(2) by auto
  show ?case
  proof (cases "cmp (xs ! (pl - 1)) (xs ! pl) > 0")
    case True
    define ys where "ys = swap_at xs pl (pl - 1)"
    have e: "isort_inner cmp a xs pl = isort_inner cmp a ys (pl - 1)"
      using True pl by (subst isort_inner.simps) (simp add: ys_def)
    have nth: "k < length xs \<Longrightarrow> ys ! k = xs ! (if k = pl - 1 then pl else if k = pl then pl - 1 else k)" for k
      using Suc.prems by (simp add: ys_def nth_swap_at)
    have r: "rearr a (Suc m - a) xs ys" unfolding ys_def using pl Suc.prems by (intro rearr_swap_at) auto
    have "sorted_on cmp a (Suc m) (isort_inner cmp a ys (pl - 1))
        \<and> rearr a (Suc m - a) ys (isort_inner cmp a ys (pl - 1))"
    proof (rule Suc.hyps(1) [OF pl(2)])
      show "m < length ys" "a \<le> pl - 1" "pl - 1 \<le> m" using Suc.prems pl by (auto simp: ys_def)
      show "\<forall>i j. a \<le> i \<and> i < j \<and> j \<le> m \<and> j \<noteq> pl - 1 \<longrightarrow> cmp (ys ! i) (ys ! j) \<le> 0"
      proof (intro allI impI)
        fix i j assume ij: "a \<le> i \<and> i < j \<and> j \<le> m \<and> j \<noteq> pl - 1"
        then have len: "i < length xs" "j < length xs" using Suc.prems(1) by auto
        show "cmp (ys ! i) (ys ! j) \<le> 0"
        proof (cases "j = pl")
          case True
          then have j: "ys ! j = xs ! (pl - 1)" using nth len pl by auto
          show ?thesis
          proof (cases "i = pl - 1")
            case True
            then show ?thesis using j nth [OF len(1)] cmp_total [OF \<open>cmp (xs ! (pl - 1)) (xs ! pl) > 0\<close>] by simp
          next
            case False
            then have "i < pl - 1" "pl - 1 \<le> m" "pl - 1 \<noteq> pl" using ij True pl by auto
            then have "cmp (xs ! i) (xs ! (pl - 1)) \<le> 0" using Suc.prems(4) ij by blast
            then show ?thesis using j nth [OF len(1)] ij True False by simp
          qed
        next
          case False
          then have j: "ys ! j = xs ! j" using nth [OF len(2)] ij by auto
          have "(if i = pl - 1 then pl else if i = pl then pl - 1 else i) < j"
            "a \<le> (if i = pl - 1 then pl else if i = pl then pl - 1 else i)"
            using ij False pl by auto
          then show ?thesis using Suc.prems(4) j nth [OF len(1)] ij False by auto
        qed
      qed
    qed
    then show ?thesis unfolding e using rearr_trans [OF r] by blast
  next
    case False
    then have e: "isort_inner cmp a xs pl = xs" by (subst isort_inner.simps) simp
    have "cmp (xs ! i) (xs ! j) \<le> 0" if ij: "a \<le> i" "i < j" "j < Suc m" for i j
    proof (cases "j = pl")
      case True
      have "cmp (xs ! i) (xs ! (pl - 1)) \<le> 0"
      proof (cases "i = pl - 1")
        case False
        then have "i < pl - 1" "pl - 1 \<le> m" "pl - 1 \<noteq> pl" using ij True pl by auto
        then show ?thesis using Suc.prems(4) ij(1) by blast
      qed simp
      then show ?thesis using False True cmp_trans by (meson not_less)
    next
      case False
      then show ?thesis using Suc.prems(4) ij by auto
    qed
    then show ?thesis unfolding e by (auto simp: sorted_on_def)
  qed
qed

lemma isort_outer:
  assumes "a + n \<le> length xs" "a < pm" "sorted_on cmp a pm xs"
  shows "sorted_on cmp a (a + n) (isort_outer cmp a n xs pm) \<and> rearr a n xs (isort_outer cmp a n xs pm)"
  using assms
proof (induction "a + n - pm" arbitrary: pm xs)
  case 0
  then have "isort_outer cmp a n xs pm = xs" by (subst isort_outer.simps) simp
  then show ?case using 0 by (auto simp: sorted_on_def)
next
  case (Suc d)
  define ys where "ys = isort_inner cmp a xs pm"
  have pm: "pm < a + n" "d = a + n - Suc pm" using Suc.hyps(2) by auto
  have "sorted_on cmp a (Suc pm) ys \<and> rearr a (Suc pm - a) xs ys"
    unfolding ys_def using Suc.prems pm by (intro isort_inner) (auto simp: sorted_on_def)
  then have ys: "sorted_on cmp a (Suc pm) ys" "rearr a n xs ys"
    using Suc.prems(2) pm by (auto elim: rearr_mono)
  have "isort_outer cmp a n xs pm = isort_outer cmp a n ys (Suc pm)"
    using pm by (subst isort_outer.simps) (simp add: ys_def)
  moreover have "sorted_on cmp a (a + n) (isort_outer cmp a n ys (Suc pm)) \<and> rearr a n ys (isort_outer cmp a n ys (Suc pm))"
    using Suc.prems ys rearr_length [OF ys(2)] by (intro Suc.hyps(1) [OF pm(2)]) auto
  ultimately show ?case using rearr_trans [OF ys(2)] by simp
qed

lemma isort: "a + n \<le> length xs \<Longrightarrow>
  sorted_on cmp a (a + n) (isort_outer cmp a n xs (a + 1)) \<and> rearr a n xs (isort_outer cmp a n xs (a + 1))"
  by (rule isort_outer) (auto simp: sorted_on_def)

lemma partedI_swap:
  assumes "parted cmp a n xs v s" "a + n \<le> length xs" "a < i" "i < a + n" "a < j" "j < a + n"
  shows "rearr a n xs (swap_at (arr s) i j)" "swap_at (arr s) i j ! a = v"
    "\<And>k. k < a + n \<Longrightarrow> swap_at (arr s) i j ! k = arr s ! (if k = j then i else if k = i then j else k)"
proof -
  have r: "rearr a n xs (arr s)" "arr s ! a = v" using assms(1) by (auto simp: parted_def)
  have len: "length (arr s) = length xs" using rearr_length [OF r(1)] .
  show "rearr a n xs (swap_at (arr s) i j)"
    using rearr_trans [OF r(1) rearr_swap_at [of a i n j "arr s"]] assms len by simp
  show nth: "swap_at (arr s) i j ! k = arr s ! (if k = j then i else if k = i then j else k)" if "k < a + n" for k
    using that assms len by (intro nth_swap_at) auto
  show "swap_at (arr s) i j ! a = v" using nth [of a] assms r(2) by auto
qed

lemma up_step_parted:
  assumes "parted cmp a n xs v s" "a + n \<le> length xs" "pb s \<le> pc s" "cmp (arr s ! pb s) (arr s ! a) \<le> 0"
  shows "parted cmp a n xs v (up_step cmp a s)"
proof (cases "cmp (arr s ! pb s) (arr s ! a) = 0")
  case True
  have b: "a < pa s" "pa s < a + n" "a < pb s" "pb s < a + n" using assms(1,3) by (auto simp: parted_def)
  note sw = partedI_swap [OF assms(1,2) b]
  show ?thesis using assms(1,3) True sw b
    by (auto simp: up_step_def parted_def less_Suc_eq)
next
  case False
  then show ?thesis using assms by (auto simp: up_step_def parted_def less_Suc_eq)
qed

lemma down_step_parted:
  assumes "parted cmp a n xs v s" "a + n \<le> length xs" "pb s \<le> pc s" "0 \<le> cmp (arr s ! pc s) (arr s ! a)"
  shows "parted cmp a n xs v (down_step cmp a s)"
proof (cases "cmp (arr s ! pc s) (arr s ! a) = 0")
  case True
  have b: "a < pc s" "pc s < a + n" "a < pd s" "pd s < a + n" using assms(1,3) by (auto simp: parted_def)
  note sw = partedI_swap [OF assms(1,2) b]
  have "i = pc s \<or> pc s < i" if "pc s - 1 < i" for i using that by linarith
  moreover have "i = pd s \<or> pd s < i" if "pd s - 1 < i" for i using that by linarith
  ultimately show ?thesis using assms(1,3) True sw b
    by (fastforce simp: down_step_def parted_def)
next
  case False
  have "i = pc s \<or> pc s < i" if "pc s - 1 < i" for i using that by linarith
  then show ?thesis using assms False by (fastforce simp: down_step_def parted_def)
qed

lemma partition_parted:
  assumes "a + n \<le> length xs" "parted cmp a n xs v s"
  shows "parted cmp a n xs v (partition_loop cmp a s)"
proof -
  define Q where "Q t \<longleftrightarrow> parted cmp a n xs v t \<and> (pb t \<le> pc t \<longrightarrow> 0 < cmp (arr t ! pb t) v)" for t
  have "Q (partition_loop cmp a s)"
  proof (rule partition_loop_inv [where P = "parted cmp a n xs v" and Q = Q and R = Q])
    fix t assume t: "parted cmp a n xs v t"
    have "parted cmp a n xs v (scan_up cmp a t)"
      using t by (rule scan_up_inv) (rule up_step_parted [OF _ assms(1)])
    then show "Q (scan_up cmp a t)" using scan_up_end [of cmp a t] by (auto simp: Q_def parted_def)
  next
    fix t assume t: "Q t"
    show "Q (scan_down cmp a t)"
    proof (rule scan_down_inv [where P = Q, OF t])
      fix t assume t: "Q t" "pb t \<le> pc t" "0 \<le> cmp (arr t ! pc t) (arr t ! a)"
      have p: "parted cmp a n xs v t" using t(1) by (simp add: Q_def)
      have "pb (down_step cmp a t) \<le> pc (down_step cmp a t) \<Longrightarrow>
          arr (down_step cmp a t) ! pb (down_step cmp a t) = arr t ! pb t"
        using p t(2) partedI_swap(3) [OF p assms(1), of "pc t" "pd t" "pb t"]
        by (auto simp: down_step_def parted_def split: if_splits)
      moreover have "pb (down_step cmp a t) \<le> pc (down_step cmp a t) \<Longrightarrow> pb t \<le> pc t" using t(2) by simp
      ultimately show "Q (down_step cmp a t)"
        using down_step_parted [OF p assms(1) t(2,3)] t(1) unfolding Q_def
        by (auto simp: down_step_def split: if_splits)
    qed
  next
    fix t assume t: "Q t" "pb t \<le> pc t" "\<not> (0 < pb t \<and> 0 \<le> cmp (arr t ! pc t) (arr t ! a))"
    have p: "parted cmp a n xs v t" and gt: "0 < cmp (arr t ! pb t) v" using t(1,2) by (auto simp: Q_def)
    have lt: "cmp (arr t ! pc t) v < 0" using t(3) p by (auto simp: parted_def)
    have "pb t \<noteq> pc t" using gt lt by auto
    then have b: "pb t < pc t" "a < pb t" "pb t < a + n" "a < pc t" "pc t < a + n" using p t(2) by (auto simp: parted_def)
    note sw = partedI_swap [OF p assms(1) b(2-5)]
    have "i = pc t \<or> pc t < i" if "pc t - 1 < i" for i using that by linarith
    then show "parted cmp a n xs v (t\<lparr>arr := swap_at (arr t) (pb t) (pc t), swap_cnt := True, pb := pb t + 1, pc := pc t - 1\<rparr>)"
      using p sw b gt lt by (fastforce simp: parted_def less_Suc_eq)
  qed (rule assms(2))
  then show ?thesis by (simp add: Q_def)
qed

lemma med3_range:
  "lo \<le> i \<Longrightarrow> i < hi \<Longrightarrow> lo \<le> j \<Longrightarrow> j < hi \<Longrightarrow> lo \<le> k \<Longrightarrow> k < hi \<Longrightarrow>
   lo \<le> med3 cmp xs i j k \<and> med3 cmp xs i j k < hi"
  by (simp add: med3_def)

lemma choose_pivot_range:
  assumes "0 < n"
  shows "a \<le> choose_pivot cmp xs a n \<and> choose_pivot cmp xs a n < a + n"
proof (cases "n > 40")
  case True
  define d where "d = n div 8"
  have "8 * d \<le> n" "n < 2 * (n div 2) + 2" "2 * (n div 2) \<le> n" unfolding d_def by simp_all
  then have d: "2 * d < n" "d \<le> n div 2" "n div 2 + d < n" "2 * d \<le> n - 1" "n div 2 < n" using True by linarith+
  let ?l = "med3 cmp xs a (a + d) (a + 2 * d)" and ?m = "med3 cmp xs (a + n div 2 - d) (a + n div 2) (a + n div 2 + d)"
    and ?n = "med3 cmp xs (a + n - 1 - 2 * d) (a + n - 1 - d) (a + n - 1)"
  have "a \<le> ?l \<and> ?l < a + n" using d by (intro med3_range) linarith+
  moreover have "a \<le> ?m \<and> ?m < a + n" using d by (intro med3_range) linarith+
  moreover have "a \<le> ?n \<and> ?n < a + n" using d by (intro med3_range) linarith+
  moreover have "choose_pivot cmp xs a n = med3 cmp xs ?l ?m ?n"
    using True unfolding choose_pivot_def d_def Let_def by simp
  ultimately show ?thesis using med3_range [of a ?l "a + n" ?m ?n xs] by simp
next
  case False
  have "n div 2 < n" using assms by auto
  then have "a \<le> med3 cmp xs a (a + n div 2) (a + n - 1) \<and> med3 cmp xs a (a + n div 2) (a + n - 1) < a + n"
    using assms by (intro med3_range) linarith+
  then show ?thesis using False \<open>n div 2 < n\<close> unfolding choose_pivot_def Let_def by simp
qed

lemma qsort_partition:
  assumes "a + n \<le> length xs" "1 < n"
  shows "\<exists>v. parted cmp a n xs v (qsort_partition cmp xs a n) \<and> pb (qsort_partition cmp xs a n) = Suc (pc (qsort_partition cmp xs a n))"
proof -
  define ys where "ys = swap_at xs a (choose_pivot cmp xs a n)"
  have "rearr a n xs ys"
    unfolding ys_def using assms choose_pivot_range [of n a xs] by (intro rearr_swap_at) auto
  then have "parted cmp a n xs (ys ! a) \<lparr>arr = ys, pa = a + 1, pb = a + 1, pc = a + n - 1, pd = a + n - 1, swap_cnt = False\<rparr>"
    using assms(2) by (auto simp: parted_def less_Suc_eq)
  then have p: "parted cmp a n xs (ys ! a) (qsort_partition cmp xs a n)"
    unfolding qsort_partition_def ys_def [symmetric] by (rule partition_parted [OF assms(1)])
  then have "pb (qsort_partition cmp xs a n) \<le> pc (qsort_partition cmp xs a n) + 1" by (simp add: parted_def)
  moreover have "pc (qsort_partition cmp xs a n) < pb (qsort_partition cmp xs a n)"
    unfolding qsort_partition_def by (rule partition_loop_end)
  ultimately show ?thesis using p by (intro exI [of _ "ys ! a"]) simp
qed

lemma qsort_middle:
  assumes p: "parted cmp a n xs v s" and e: "pb s = Suc (pc s)" and len: "a + n \<le> length xs"
  defines "ys \<equiv> qsort_middle a n s" and "l \<equiv> pb s - pa s" and "g \<equiv> pd s - pc s"
  shows "rearr a n xs ys" "l + g < n"
    "\<And>i. a \<le> i \<Longrightarrow> i < a + l \<Longrightarrow> cmp (ys ! i) v < 0"
    "\<And>i. a + l \<le> i \<Longrightarrow> i < a + n - g \<Longrightarrow> cmp (ys ! i) v = 0"
    "\<And>i. a + n - g \<le> i \<Longrightarrow> i < a + n \<Longrightarrow> 0 < cmp (ys ! i) v"
proof -
  have b: "a < pa s" "pa s \<le> pb s" "pc s \<le> pd s" "pd s < a + n" "rearr a n xs (arr s)"
    using p by (simp_all add: parted_def)
  have al: "length (arr s) = length xs" by (rule rearr_length [OF b(5)])
  define r1 where "r1 = min (pa s - a) (pb s - pa s)"
  define r2 where "r2 = min (pd s - pc s) (a + n - pd s - 1)"
  define xs1 where "xs1 = vecswap r1 (arr s) a (pb s - r1)"
  have ys: "ys = vecswap r2 xs1 (pb s) (a + n - r2)"
    by (simp add: ys_def qsort_middle_def Let_def r1_def r2_def xs1_def)
  have r1: "a + r1 \<le> pb s - r1" "pb s - r1 + r1 \<le> length (arr s)" "r1 \<le> pb s"
    using b e len al by (auto simp: r1_def min_def)
  have v1: "length xs1 = length xs" "mset xs1 = mset (arr s)"
    "k < length xs \<Longrightarrow> xs1 ! k = arr s ! (if a \<le> k \<and> k < a + r1 then k + (pb s - r1) - a
       else if pb s - r1 \<le> k \<and> k < pb s - r1 + r1 then k - (pb s - r1) + a else k)" for k
    using vecswap [of a r1 "pb s - r1" "arr s"] r1 al by (simp_all add: xs1_def)
  have r2: "pb s + r2 \<le> a + n - r2" "a + n - r2 + r2 \<le> length xs1" "r2 \<le> a + n" "pd s < a + n - r2"
    using b e len v1(1) by (auto simp: r2_def min_def)
  have v2: "length ys = length xs" "mset ys = mset xs1"
    "k < length xs \<Longrightarrow> ys ! k = xs1 ! (if pb s \<le> k \<and> k < pb s + r2 then k + (a + n - r2) - pb s
       else if a + n - r2 \<le> k \<and> k < a + n - r2 + r2 then k - (a + n - r2) + pb s else k)" for k
    using vecswap [of "pb s" r2 "a + n - r2" xs1] r2 v1(1) by (simp_all add: ys)
  have low: "ys ! k = arr s ! (if a \<le> k \<and> k < a + r1 then k + (pb s - r1) - a
       else if pb s - r1 \<le> k \<and> k < pb s - r1 + r1 then k - (pb s - r1) + a else k)" if "k < pb s" for k
    using that v1(3) [of k] v2(3) [of k] r2 len v1(1) by auto
  have high: "ys ! k = arr s ! (if k < pb s + r2 then k + (a + n - r2) - pb s
       else if a + n - r2 \<le> k \<and> k < a + n - r2 + r2 then k - (a + n - r2) + pb s else k)"
    if "pb s \<le> k" "k < length xs" for k
  proof -
    define k' where "k' = (if k < pb s + r2 then k + (a + n - r2) - pb s
       else if a + n - r2 \<le> k \<and> k < a + n - r2 + r2 then k - (a + n - r2) + pb s else k)"
    have k': "pb s \<le> k'" "k' < length xs" using that r2 len v1(1) by (auto simp: k'_def)
    have "ys ! k = xs1 ! k'" using v2(3) [OF that(2)] that(1) by (simp add: k'_def)
    also have "\<dots> = arr s ! k'" using v1(3) [OF k'(2)] k'(1) r1 b by auto
    finally show ?thesis by (simp add: k'_def)
  qed
  show "rearr a n xs ys"
  proof -
    have "ys ! k = arr s ! k" if k: "k < length xs" "k < a \<or> a + n \<le> k" for k
    proof (cases "k < pb s")
      case True
      then have "k < a" using k b e by linarith
      then show ?thesis using low [OF True] r1 by auto
    next
      case False
      then have "a + n \<le> k" using k b by linarith
      then show ?thesis using high [of k] k False r2 by auto
    qed
    then show ?thesis using b(5) v1 v2 by (auto simp: rearr_def)
  qed
  show "l + g < n" using b e by (auto simp: l_def g_def)
  have parts: "cmp (arr s ! i) v = 0" if "a \<le> i" "i < pa s" for i using p that by (simp add: parted_def)
  have partl: "cmp (arr s ! i) v < 0" if "pa s \<le> i" "i < pb s" for i using p that by (simp add: parted_def)
  have partg: "0 < cmp (arr s ! i) v" if "pc s < i" "i \<le> pd s" for i using p that by (simp add: parted_def)
  have parte: "cmp (arr s ! i) v = 0" if "pd s < i" "i < a + n" for i using p that by (simp add: parted_def)
  obtain E where E: "pa s = a + E" using b by (metis less_imp_add_positive)
  obtain L where L: "pb s = a + E + L" using b(2) unfolding E by (metis le_Suc_ex)
  obtain G where G: "pd s = pc s + G" using b(3) by (metis le_Suc_ex)
  obtain F where F: "a + n = pc s + G + 1 + F" using b(4) unfolding G by (metis less_iff_Suc_add add_Suc_right Suc_eq_plus1 add.assoc add.commute)
  have lg: "l = L" "g = G" using E L G by (simp_all add: l_def g_def)
  have m: "r1 = min E L" "r2 = min G F" using E L G F by (simp_all add: r1_def r2_def)
  have lowj: "(if a \<le> i \<and> i < a + r1 then i + (pb s - r1) - a
       else if pb s - r1 \<le> i \<and> i < pb s - r1 + r1 then i - (pb s - r1) + a else i) = j \<Longrightarrow> a \<le> i \<Longrightarrow> i < pb s \<Longrightarrow>
      (if i < a + L then pa s \<le> j \<and> j < pb s else a \<le> j \<and> j < pa s)" for i j
  proof (cases "E \<le> L")
    case True
    then obtain D where "L = E + D" by (metis le_Suc_ex)
    moreover assume "(if a \<le> i \<and> i < a + r1 then i + (pb s - r1) - a
       else if pb s - r1 \<le> i \<and> i < pb s - r1 + r1 then i - (pb s - r1) + a else i) = j" "a \<le> i" "i < pb s"
    ultimately show ?thesis using E L m(1) by (auto split: if_splits)
  next
    case False
    then obtain D where "E = L + D" by (metis le_Suc_ex nat_le_linear)
    moreover assume "(if a \<le> i \<and> i < a + r1 then i + (pb s - r1) - a
       else if pb s - r1 \<le> i \<and> i < pb s - r1 + r1 then i - (pb s - r1) + a else i) = j" "a \<le> i" "i < pb s"
    ultimately show ?thesis using E L m(1) by (auto split: if_splits)
  qed
  have highj: "(if i < pb s + r2 then i + (a + n - r2) - pb s
       else if a + n - r2 \<le> i \<and> i < a + n - r2 + r2 then i - (a + n - r2) + pb s else i) = j \<Longrightarrow> pb s \<le> i \<Longrightarrow> i < a + n \<Longrightarrow>
      (if i < a + n - G then pd s < j \<and> j < a + n else pc s < j \<and> j \<le> pd s)" for i j
  proof (cases "G \<le> F")
    case True
    then obtain D where "F = G + D" by (metis le_Suc_ex)
    moreover assume "(if i < pb s + r2 then i + (a + n - r2) - pb s
       else if a + n - r2 \<le> i \<and> i < a + n - r2 + r2 then i - (a + n - r2) + pb s else i) = j" "pb s \<le> i" "i < a + n"
    ultimately show ?thesis using e G m(2) unfolding F by (auto split: if_splits)
  next
    case False
    then obtain D where "G = F + D" by (metis le_Suc_ex nat_le_linear)
    moreover assume "(if i < pb s + r2 then i + (a + n - r2) - pb s
       else if a + n - r2 \<le> i \<and> i < a + n - r2 + r2 then i - (a + n - r2) + pb s else i) = j" "pb s \<le> i" "i < a + n"
    ultimately show ?thesis using e G m(2) unfolding F by (auto split: if_splits)
  qed
  show "cmp (ys ! i) v < 0" if i: "a \<le> i" "i < a + l" for i
  proof -
    have "i < pb s" using i L lg by simp
    from low [OF this] lowj [OF refl i(1) this] show ?thesis using i lg partl by simp
  qed
  show "cmp (ys ! i) v = 0" if i: "a + l \<le> i" "i < a + n - g" for i
  proof (cases "i < pb s")
    case True
    from low [OF True] lowj [OF refl _ True] show ?thesis using i lg parts by simp
  next
    case False
    from high [of i] highj [OF refl, of i] show ?thesis using i lg parte False len by simp
  qed
  show "0 < cmp (ys ! i) v" if i: "a + n - g \<le> i" "i < a + n" for i
  proof -
    have "pb s \<le> i" using i G F e lg by simp
    from high [OF this] highj [OF refl this i(2)] show ?thesis using i lg partg len by simp
  qed
qed

text \<open>A step that sorts a part of the array keeps what is known of the other parts.\<close>

lemma sorted_concat:
  assumes "sorted_on cmp a b xs" "sorted_on cmp c e xs" "b \<le> c"
    and "\<And>i. a \<le> i \<Longrightarrow> i < b \<Longrightarrow> cmp (xs ! i) v \<le> 0"
    and "\<And>i. b \<le> i \<Longrightarrow> i < c \<Longrightarrow> cmp (xs ! i) v = 0"
    and "\<And>i. c \<le> i \<Longrightarrow> i < e \<Longrightarrow> 0 \<le> cmp (xs ! i) v"
  shows "sorted_on cmp a e xs"
  unfolding sorted_on_def
proof (intro allI impI)
  fix i j assume ij: "a \<le> i \<and> i < j \<and> j < e"
  have up: "cmp v (xs ! k) \<le> 0" if "b \<le> k" "k < e" for k
    using assms(5,6) [of k] that cmp_sign [of "xs ! k" v] cmp_sign [of v "xs ! k"] by (cases "k < c") auto
  have down: "cmp (xs ! k) v \<le> 0" if "a \<le> k" "k < c" for k
    using assms(4,5) [of k] that by (cases "k < b") auto
  consider "j < b" | "c \<le> i" | "b \<le> j" "i < c" using ij assms(3) by linarith
  then show "cmp (xs ! i) (xs ! j) \<le> 0"
  proof cases
    case 1
    then show ?thesis using assms(1) ij by (simp add: sorted_on_def)
  next
    case 2
    then show ?thesis using assms(2) ij by (simp add: sorted_on_def)
  next
    case 3
    then show ?thesis using up [of j] down [of i] ij by (blast intro: cmp_trans)
  qed
qed

lemma sorted_on_cong:
  "(\<And>i. a \<le> i \<Longrightarrow> i < b \<Longrightarrow> ys ! i = xs ! i) \<Longrightarrow> sorted_on cmp a b xs \<Longrightarrow> sorted_on cmp a b ys"
  by (simp add: sorted_on_def)

lemma sorted_on_small: "b \<le> Suc a \<Longrightarrow> sorted_on cmp a b xs"
  by (auto simp: sorted_on_def)

lemma qsort_loop_correct:
  assumes "a + n \<le> length xs"
  shows "sorted_on cmp a (a + n) (qsort_loop cmp xs a n) \<and> rearr a n xs (qsort_loop cmp xs a n)"
  using assms
proof (induction n arbitrary: xs a rule: less_induct)
  case (less n)
  define s where "s = qsort_partition cmp xs a n"
  consider "n < 7" | "7 \<le> n" "\<not> swap_cnt s" | "7 \<le> n" "swap_cnt s" by linarith
  then show ?case
  proof cases
    case 1
    then show ?thesis using isort [OF less.prems] by (subst (1 2) qsort_loop.simps) simp
  next
    case 2
    then have e: "qsort_loop cmp xs a n = isort_outer cmp a n (arr s) (a + 1)"
      by (subst qsort_loop.simps) (simp add: s_def)
    obtain v where "parted cmp a n xs v s" using qsort_partition [OF less.prems] 2(1) by (auto simp: s_def)
    then have r: "rearr a n xs (arr s)" by (simp add: parted_def)
    then show ?thesis unfolding e
      using isort [of a n "arr s"] less.prems rearr_length [OF r] rearr_trans [OF r] by auto
  next
    case 3
    obtain v where p: "parted cmp a n xs v s" "pb s = Suc (pc s)"
      using qsort_partition [OF less.prems] 3(1) by (auto simp: s_def)
    define l where "l = pb s - pa s"
    define g where "g = pd s - pc s"
    define ys where "ys = qsort_middle a n s"
    note mid = qsort_middle [OF p less.prems, folded l_def g_def ys_def]
    define zs where "zs = (if l > 1 then qsort_loop cmp ys a l else ys)"
    define ws where "ws = (if g > 1 then qsort_loop cmp zs (a + n - g) g else zs)"
    have e: "qsort_loop cmp xs a n = ws"
      using 3 by (subst qsort_loop.simps) (simp add: Let_def s_def [symmetric] l_def [symmetric]
          g_def [symmetric] ys_def [symmetric] zs_def ws_def)
    have ylen: "length ys = length xs" by (rule rearr_length [OF mid(1)])
    have z: "sorted_on cmp a (a + l) zs \<and> rearr a l ys zs"
      using less.IH [of l a ys] mid(2) less.prems ylen by (auto simp: zs_def sorted_on_small)
    have zlen: "length zs = length xs" using rearr_length z ylen by metis
    have w: "sorted_on cmp (a + n - g) (a + n) ws \<and> rearr (a + n - g) g zs ws"
      using less.IH [of g "a + n - g" zs] mid(2) less.prems zlen by (auto simp: ws_def sorted_on_small)
    have wz: "ws ! i = zs ! i" if "i < a + n - g" "i < length xs" for i
      using w that zlen by (auto simp: rearr_def)
    have zy: "zs ! i = ys ! i" if "i < a \<or> a + l \<le> i" "i < length xs" for i
      using z that ylen by (auto simp: rearr_def)
    have lo: "cmp (ws ! i) v \<le> 0" if "a \<le> i" "i < a + l" for i
    proof -
      have "cmp (zs ! i) v < 0"
        using rearr_range [of a l ys zs "\<lambda>x. cmp x v < 0" i] z mid(2,3) that less.prems ylen by auto
      then show ?thesis using wz [of i] that mid(2) less.prems by simp
    qed
    have eq: "cmp (ws ! i) v = 0" if "a + l \<le> i" "i < a + n - g" for i
      using mid(4) [OF that] wz [of i] zy [of i] that mid(2) less.prems by simp
    have hi: "0 \<le> cmp (ws ! i) v" if "a + n - g \<le> i" "i < a + n" for i
    proof -
      have "0 < cmp (zs ! k) v" if "a + n - g \<le> k" "k < a + n" for k
      proof -
        have "a + l \<le> k" "k < length xs" using that mid(2) less.prems by linarith+
        then show ?thesis using mid(5) [OF that] zy [of k] by simp
      qed
      then have "0 < cmp (ws ! i) v"
        using rearr_range [of "a + n - g" g zs ws "\<lambda>x. 0 < cmp x v" i] w that mid(2) less.prems zlen by auto
      then show ?thesis by simp
    qed
    have "sorted_on cmp a (a + l) ws"
      using z wz mid(2) less.prems by (intro sorted_on_cong [of a "a + l" ws zs]) auto
    then have "sorted_on cmp a (a + n) ws"
      using w mid(2) lo eq hi by (intro sorted_concat [of a "a + l" ws "a + n - g" "a + n" v]) auto
    moreover have "rearr a n xs ws"
    proof -
      have "rearr a n ys zs" using z mid(2) by (auto elim: rearr_mono)
      moreover have "rearr a n zs ws" using w mid(2) by (auto elim: rearr_mono)
      ultimately show ?thesis using mid(1) rearr_trans by blast
    qed
    ultimately show ?thesis unfolding e by simp
  qed
qed

lemma qsort_sorted:
  assumes "n \<le> length xs"
  shows "sorted_on cmp 0 n (qsort xs n cmp) \<and> rearr 0 n xs (qsort xs n cmp)"
  using qsort_loop_correct [of 0 n xs] assms by (simp add: qsort_def)

end

end
