(* ===== verification/Dx_map.thy ===== *)
theory Dx_map
  imports Qsort
begin

text \<open>
  The map from hashes to directory entries that \<open>dx_split_leaf\<close> of \<^verbatim>\<open>libext2fs/link.c\<close> sorts before
  it splits a leaf of an indexed directory, its comparison function and the choice of the split point.
\<close>

section \<open>The code\<close>

record dx_hash_map =
  dm_hash :: u32
  dm_size :: int
  dm_off :: int

definition dx_hash_map_cmp :: "dx_hash_map \<Rightarrow> dx_hash_map \<Rightarrow> int" where
  "dx_hash_map_cmp a b =
     (if dm_hash a < dm_hash b then -1 else if dm_hash a > dm_hash b then 1 else 0)"

text \<open>
  The loop that runs from the last entry down while what moves stays within half a block; \<open>i\<close> counts
  one more than the index in C, so that the result is the index of the first entry to move.
\<close>

fun dx_split_scan :: "nat \<Rightarrow> dx_hash_map list \<Rightarrow> nat \<Rightarrow> int \<Rightarrow> nat" where
  "dx_split_scan blocksize m 0 move_size = 0"
| "dx_split_scan blocksize m (Suc i) move_size =
     (if move_size + dm_size (m ! i) div 2 > int (blocksize div 2) then Suc i
      else dx_split_scan blocksize m i (move_size + dm_size (m ! i)))"

definition dx_sort_map :: "dx_hash_map list \<Rightarrow> nat \<Rightarrow> dx_hash_map list" where
  "dx_sort_map m n = qsort m n dx_hash_map_cmp"

section \<open>The comparison\<close>

interpretation dx: comparator dx_hash_map_cmp
  by unfold_locales (auto simp: dx_hash_map_cmp_def split: if_splits)

lemma dx_cmp_le: "dx_hash_map_cmp a b \<le> 0 \<longleftrightarrow> dm_hash a \<le> dm_hash b"
  by (auto simp: dx_hash_map_cmp_def not_le)

lemma dx_sort_map:
  assumes "n \<le> length m"
  shows "mset (dx_sort_map m n) = mset m"
    "drop n (dx_sort_map m n) = drop n m"
    "sorted (map dm_hash (take n (dx_sort_map m n)))"
proof -
  have s: "sorted_on dx_hash_map_cmp 0 n (dx_sort_map m n)" "rearr 0 n m (dx_sort_map m n)"
    using dx.qsort_sorted [OF assms] by (simp_all add: dx_sort_map_def)
  then show m: "mset (dx_sort_map m n) = mset m" by (simp add: rearr_def)
  have l: "length (dx_sort_map m n) = length m" by (rule rearr_length [OF s(2)])
  show "drop n (dx_sort_map m n) = drop n m"
    using s(2) l by (intro nth_equalityI) (auto simp: rearr_def)
  show "sorted (map dm_hash (take n (dx_sort_map m n)))"
    using s(1) l assms by (auto simp: sorted_iff_nth_mono_less sorted_on_def dx_cmp_le)
qed

section \<open>The split point\<close>

text \<open>What is moved is at most half of the block and half of its own first entry.\<close>

lemma dx_split_scan_sum:
  assumes "i \<le> length m" "\<forall>k < length m. 0 \<le> dm_size (m ! k)"
    "move_size \<le> int (blocksize div 2) + (if i < length m then (dm_size (m ! i) + 1) div 2 else 0)"
  defines "r \<equiv> dx_split_scan blocksize m i move_size"
  shows "r \<le> i \<and> move_size + (\<Sum>k = r..<i. dm_size (m ! k)) \<le>
     int (blocksize div 2) + (if r < length m then (dm_size (m ! r) + 1) div 2 else 0)
     \<and> (r = 0 \<or> int (blocksize div 2) < move_size + (\<Sum>k = r..<i. dm_size (m ! k)) + dm_size (m ! (r - 1)) div 2)"
  using assms(1-3) unfolding r_def
proof (induction i arbitrary: move_size)
  case 0
  then show ?case by (cases "m = []") auto
next
  case (Suc i)
  show ?case
  proof (cases "move_size + dm_size (m ! i) div 2 > int (blocksize div 2)")
    case True
    then show ?thesis using Suc.prems by auto
  next
    case False
    define r where "r = dx_split_scan blocksize m i (move_size + dm_size (m ! i))"
    have "move_size + dm_size (m ! i) \<le> int (blocksize div 2) + (dm_size (m ! i) + 1) div 2"
      using False by linarith
    then have prem: "i \<le> length m" "\<forall>k < length m. 0 \<le> dm_size (m ! k)"
      "move_size + dm_size (m ! i) \<le> int (blocksize div 2) + (if i < length m then (dm_size (m ! i) + 1) div 2 else 0)"
      using Suc.prems by auto
    have r: "r \<le> i" "(move_size + dm_size (m ! i)) + (\<Sum>k = r..<i. dm_size (m ! k)) \<le>
       int (blocksize div 2) + (if r < length m then (dm_size (m ! r) + 1) div 2 else 0)"
       "r = 0 \<or> int (blocksize div 2) < (move_size + dm_size (m ! i)) + (\<Sum>k = r..<i. dm_size (m ! k)) + dm_size (m ! (r - 1)) div 2"
      using Suc.IH [OF prem, folded r_def] by (blast+)
    have e: "dx_split_scan blocksize m (Suc i) move_size = r" using False by (simp add: r_def)
    have s: "(\<Sum>k = r..<Suc i. dm_size (m ! k)) = (\<Sum>k = r..<i. dm_size (m ! k)) + dm_size (m ! i)"
      using r(1) by simp
    show ?thesis unfolding e s using r by (intro conjI) (linarith+)
  qed
qed

end
