(* ===== verification/Layout_Theorems.thy ===== *)
theory Layout_Theorems
  imports Fs_Examples Super_loc Iblock Dx_map
begin

text \<open>
  The properties of the places of the backups, of the sector count of an inode and of the hash map
  of a directory leaf.
\<close>

text \<open>
  C31. The unbounded loop of \<open>test_root\<close> returns for every base above 1, with 1 exactly when the
  number is a positive power of the base.
\<close>

theorem test_root_returns:
  assumes "1 < b"
  shows "\<exists>r. test_root a b = Some r \<and> (r = 1 \<longleftrightarrow> (\<exists>k. unat a = unat b ^ Suc k)) \<and> r \<in> {0, 1}"
  using test_root_power [OF assms, of a] by (auto simp: is_power_def)

theorem test_root_returns_witness: "\<exists>r. test_root 343 7 = Some r \<and> (r = 1 \<longleftrightarrow> (\<exists>k. (343 :: nat) = 7 ^ Suc k)) \<and> r \<in> {0, 1}"
  using test_root_returns [of 7 343] by simp

text \<open>
  C32. Where the descriptors of a meta group \<open>i\<close> are read and where they are written, on a sound geometry with more than one
  descriptor per block and, for 1 KB blocks, the usual first data block (\<open>start_1k\<close>), for the meta groups from
  \<open>s_first_meta_bg\<close> on. Opened through the primary super block, \<open>ext2fs_descriptor_block_loc2\<close> gives the block to which
  \<open>ext2fs_super_and_bgd_loc2\<close> lets the descriptors be written in the first group of the meta group. Opened through a backup
  (any other \<open>group_block\<close>), and if the second group of the meta group is not cut off, it gives the block to which they are
  written in the second group, except for meta group 0 with bigalloc and 1 KB blocks, where it is one block too
  high.
\<close>

theorem descriptor_blocks_agree:
  assumes "fs_geom fs" "start_1k fs" "ext2fs_has_feature_meta_bg (fs_super fs)"
    and "s_first_meta_bg (fs_super fs) \<le> i" "1 < unat (EXT2_DESC_PER_BLOCK (fs_super fs))"
    and "unat (EXT2_DESC_PER_BLOCK (fs_super fs)) * unat i < ngroups fs"
  shows "(\<exists>r. ext2fs_super_and_bgd_loc2 fs (EXT2_DESC_PER_BLOCK (fs_super fs) * i) = Some r
      \<and> ext2fs_descriptor_block_loc2 fs (ucast (s_first_data_block (fs_super fs))) i = Some (new_desc_blk r))
    \<and> (unat (EXT2_DESC_PER_BLOCK (fs_super fs)) * unat i + 1 < ngroups fs
       \<and> fdb fs + (unat (EXT2_DESC_PER_BLOCK (fs_super fs)) * unat i + 1) * bpg fs + 1 < nblocks fs
       \<and> group_block \<noteq> ucast (s_first_data_block (fs_super fs)) \<longrightarrow>
       (\<exists>r. ext2fs_super_and_bgd_loc2 fs (EXT2_DESC_PER_BLOCK (fs_super fs) * i + 1) = Some r
          \<and> ext2fs_descriptor_block_loc2 fs group_block i
            = Some (new_desc_blk r + (if i = 0 \<and> fs_blocksize fs = 1024 \<and> 1 < EXT2FS_CLUSTER_RATIO fs then 1 else 0))))"
proof (intro conjI impI)
  have w: "\<exists>r. ext2fs_super_and_bgd_loc2 fs g = Some r" for g by (auto simp: ext2fs_super_and_bgd_loc2_def bg_has_super Let_def)
  show "\<exists>r. ext2fs_super_and_bgd_loc2 fs (EXT2_DESC_PER_BLOCK (fs_super fs) * i) = Some r
      \<and> ext2fs_descriptor_block_loc2 fs (ucast (s_first_data_block (fs_super fs))) i = Some (new_desc_blk r)"
    using w [of "EXT2_DESC_PER_BLOCK (fs_super fs) * i"] desc_block_primary [OF assms] by auto
  assume b: "unat (EXT2_DESC_PER_BLOCK (fs_super fs)) * unat i + 1 < ngroups fs
       \<and> fdb fs + (unat (EXT2_DESC_PER_BLOCK (fs_super fs)) * unat i + 1) * bpg fs + 1 < nblocks fs
       \<and> group_block \<noteq> ucast (s_first_data_block (fs_super fs))"
  then show "\<exists>r. ext2fs_super_and_bgd_loc2 fs (EXT2_DESC_PER_BLOCK (fs_super fs) * i + 1) = Some r
          \<and> ext2fs_descriptor_block_loc2 fs group_block i
            = Some (new_desc_blk r + (if i = 0 \<and> fs_blocksize fs = 1024 \<and> 1 < EXT2FS_CLUSTER_RATIO fs then 1 else 0))"
    using w [of "EXT2_DESC_PER_BLOCK (fs_super fs) * i + 1"] desc_block_backup [OF assms(1,3-5), of group_block] by auto
qed

definition meta_fs :: fs_base where
  "meta_fs = ex_fs\<lparr>fs_super := ex_super\<lparr>s_feature_incompat := 144, s_desc_size := 512\<rparr>\<rparr>"

lemma meta_fs: "fs_geom meta_fs" "start_1k meta_fs" "ext2fs_has_feature_meta_bg (fs_super meta_fs)"
  "EXT2_DESC_PER_BLOCK (fs_super meta_fs) = 2" "s_first_meta_bg (fs_super meta_fs) = 0" "ngroups meta_fs = 3"
  "s_first_data_block (fs_super meta_fs) = 1"
  by (simp_all add: meta_fs_def fs_geom_def start_1k_def fdb_def nblocks_def ngroups_def bpg_def
      ext2fs_blocks_count_def has_feature_incompat_def EXT2_DESC_PER_BLOCK_def EXT2_BLOCK_SIZE_def
      EXT2_DESC_SIZE_def EXT2FS_CLUSTER_RATIO_def)

lemma meta_fs_more: "bpg meta_fs = 8" "nblocks meta_fs = 21" "fdb meta_fs = 1" "\<not> 1 < EXT2FS_CLUSTER_RATIO meta_fs"
  by (simp_all add: meta_fs_def bpg_def nblocks_def fdb_def ext2fs_blocks_count_def has_feature_incompat_def EXT2FS_CLUSTER_RATIO_def)

theorem descriptor_blocks_agree_witness:
  "(\<exists>r. ext2fs_super_and_bgd_loc2 meta_fs 2 = Some r \<and> ext2fs_descriptor_block_loc2 meta_fs 1 1 = Some (new_desc_blk r))
   \<and> (\<exists>r. ext2fs_super_and_bgd_loc2 meta_fs 1 = Some r \<and> ext2fs_descriptor_block_loc2 meta_fs 9 0 = Some (new_desc_blk r))"
  using descriptor_blocks_agree [OF meta_fs(1-3), of 1 0] descriptor_blocks_agree [OF meta_fs(1-3), of 0 9] meta_fs(4-7) meta_fs_more
  by simp

text \<open>
  C33. Adding clusters to the block count of an inode stores the exact sum as long as it fits in the
  two halves, and subtracting them gives the inode back. Without the huge-file feature a sum that does
  not fit is refused and the inode left alone. With it the call never refuses: it stores the sum cut to 48 bits
  and returns success, so that the count is silently wrong. \<open>iblk_units\<close> is the number in the unit of the inode as
  the code computes it, and the sum itself must fit in 64 bits.
\<close>

theorem iblk_add_bounds:
  assumes "unat (iblk_get fs inode) + unat (iblk_units fs inode n) < 2 ^ 64"
    and "ext2fs_iblk_add_blocks fs inode n = (inode', err)"
  shows "if unat (iblk_get fs inode) + unat (iblk_units fs inode n) < iblk_limit fs
     then err = 0 \<and> unat (iblk_get fs inode') = unat (iblk_get fs inode) + unat (iblk_units fs inode n)
       \<and> ext2fs_iblk_sub_blocks fs inode' n = (inode, 0)
     else if ext2fs_has_feature_huge_file (fs_super fs)
     then err = 0 \<and> unat (iblk_get fs inode') = (unat (iblk_get fs inode) + unat (iblk_units fs inode n)) mod 2 ^ 48
       \<and> unat (iblk_get fs inode') \<noteq> unat (iblk_get fs inode) + unat (iblk_units fs inode n)
     else err = EOVERFLOW \<and> inode' = inode"
proof (cases "unat (iblk_get fs inode) + unat (iblk_units fs inode n) < iblk_limit fs")
  case True
  then show ?thesis using iblk_add_exact [of fs inode n inode' err] iblk_add_sub [of fs inode n inode' err] assms by auto
next
  case False
  show ?thesis
  proof (cases "ext2fs_has_feature_huge_file (fs_super fs)")
    case h: True
    have "iblk_get fs inode' = take_bit 48 (iblk_get fs inode + iblk_units fs inode n)" "err = 0"
      using iblk_add_cut [OF h, of inode n] assms(2) by simp_all
    moreover have u: "unat (iblk_get fs inode + iblk_units fs inode n) = unat (iblk_get fs inode) + unat (iblk_units fs inode n)"
      using assms(1) by (intro unat_add_no_wrap) simp
    ultimately have "unat (iblk_get fs inode') = take_bit 48 (unat (iblk_get fs inode + iblk_units fs inode n))" "err = 0"
      by (simp_all only: unsigned_take_bit_eq)
    then have "unat (iblk_get fs inode') = (unat (iblk_get fs inode) + unat (iblk_units fs inode n)) mod 2 ^ 48" "err = 0"
      by (simp_all only: u take_bit_eq_mod)
    moreover have "2 ^ 48 \<le> unat (iblk_get fs inode) + unat (iblk_units fs inode n)" using False h by (simp add: iblk_limit_def)
    moreover have "(unat (iblk_get fs inode) + unat (iblk_units fs inode n)) mod 2 ^ 48 < 2 ^ 48" by (rule mod_less_divisor) simp
    ultimately show ?thesis using False h by simp
  next
    case False': False
    then show ?thesis using False iblk_add_overflow [of fs inode n] assms by (simp add: not_less)
  qed
qed

theorem iblk_add_bounds_witness:
  "ext2fs_iblk_sub_blocks ex_fs (fst (ext2fs_iblk_add_blocks ex_fs zero_inode 5)) 5 = (zero_inode, 0)"
proof -
  have "unat (iblk_get ex_fs zero_inode) + unat (iblk_units ex_fs zero_inode 5) = 10" "iblk_limit ex_fs = 2 ^ 32"
    by (simp_all add: iblk_get_def iblk_units_def iblk_limit_def zero_inode_def has_feature_ro_compat_def
        EXT2FS_CLUSTER_RATIO_def)
  then show ?thesis
    using iblk_add_bounds [of ex_fs zero_inode 5 "fst (ext2fs_iblk_add_blocks ex_fs zero_inode 5)"
        "snd (ext2fs_iblk_add_blocks ex_fs zero_inode 5)"] by simp
qed

text \<open>
  Sorting the hash map of a directory leaf with the library's quicksort and \<open>dx_hash_map_cmp\<close>
  keeps its entries, orders the first \<open>n\<close> by their hashes and leaves the rest alone.
\<close>

theorem dx_map_sorted:
  assumes "n \<le> length m"
  shows "mset (dx_sort_map m n) = mset m \<and> sorted (map dm_hash (take n (dx_sort_map m n)))
    \<and> drop n (dx_sort_map m n) = drop n m"
  using dx_sort_map [OF assms] by simp

theorem dx_map_sorted_witness:
  "sorted (map dm_hash (take 2 (dx_sort_map [\<lparr>dm_hash = 9, dm_size = 12, dm_off = 0\<rparr>, \<lparr>dm_hash = 3, dm_size = 16, dm_off = 12\<rparr>] 2)))"
  by (rule dx_map_sorted [THEN conjunct2, THEN conjunct1]) simp

end
