(* ===== verification/Bytes.thy ===== *)
theory Bytes
  imports Bitops
begin

text \<open>
  Little-endian integers in a byte buffer, the way the library reads and writes the fields of the
  structures it lays over a block. \<open>get16 b o\<close> is \<open>*(__u16 *) (b + o)\<close> on the little-endian machine the
  code is compiled for, and \<open>ext2fs_le16_to_cpu\<close> of it on any.
\<close>

definition get16 :: "u8 list \<Rightarrow> nat \<Rightarrow> u16" where
  "get16 b off = ucast (b ! off) OR push_bit 8 (ucast (b ! (off + 1)))"

definition put16 :: "u8 list \<Rightarrow> nat \<Rightarrow> u16 \<Rightarrow> u8 list" where
  "put16 b off v = b[off := ucast v, off + 1 := ucast (drop_bit 8 v)]"

definition get32 :: "u8 list \<Rightarrow> nat \<Rightarrow> u32" where
  "get32 b off = ucast (get16 b off) OR push_bit 16 (ucast (get16 b (off + 2)))"

definition put32 :: "u8 list \<Rightarrow> nat \<Rightarrow> u32 \<Rightarrow> u8 list" where
  "put32 b off v = put16 (put16 b off (ucast v)) (off + 2) (ucast (drop_bit 16 v))"

text \<open>\<open>strncpy\<close>: \<open>n\<close> characters, zeros after the end of the string.\<close>

definition strncpy_at :: "u8 list \<Rightarrow> nat \<Rightarrow> u8 list \<Rightarrow> nat \<Rightarrow> u8 list" where
  "strncpy_at dst off src n = memcpy_at dst off (src @ replicate n 0) n"

named_theorems bytes \<open>reading a buffer after writing it\<close>

lemma length_put16 [simp]: "length (put16 b off v) = length b"
  by (simp add: put16_def)

lemma length_put32 [simp]: "length (put32 b off v) = length b"
  by (simp add: put32_def)

lemma nth_put16 [bytes]:
  "off + 1 < length b \<Longrightarrow> put16 b off v ! i =
    (if i = off then ucast v else if i = off + 1 then ucast (drop_bit 8 v) else b ! i)"
  by (simp add: put16_def nth_list_update)

lemma nth_put32:
  assumes "off + 3 < length b"
  shows "put32 b off v ! i =
    (if i = off then ucast v else if i = off + 1 then ucast (drop_bit 8 v)
     else if i = off + 2 then ucast (drop_bit 16 v) else if i = off + 3 then ucast (drop_bit 24 v) else b ! i)"
proof -
  have "ucast (ucast v :: u16) = (ucast v :: u8)" "ucast (drop_bit 8 (ucast v :: u16)) = (ucast (drop_bit 8 v) :: u8)"
    "ucast (ucast (drop_bit 16 v) :: u16) = (ucast (drop_bit 16 v) :: u8)"
    "ucast (drop_bit 8 (ucast (drop_bit 16 v) :: u16)) = (ucast (drop_bit 24 v) :: u8)"
    by (rule bit_word_eqI; auto simp: bit_simps ac_simps)+
  then show ?thesis using assms by (simp add: put32_def nth_put16)
qed

lemma nth_put32_other [bytes]:
  "off + 3 < length b \<Longrightarrow> i < off \<or> off + 3 < i \<Longrightarrow> put32 b off v ! i = b ! i"
  by (auto simp: put32_def nth_put16)

lemma get16_put16 [bytes]: "off + 1 < length b \<Longrightarrow> get16 (put16 b off v) off = v"
  by (rule bit_word_eqI) (auto simp: get16_def nth_put16 bit_simps)

lemma get16_put16_other [bytes]:
  "off + 1 < length b \<Longrightarrow> p + 1 < off \<or> off + 1 < p \<Longrightarrow> get16 (put16 b off v) p = get16 b p"
  by (simp add: get16_def nth_put16) auto

lemma get32_put32 [bytes]: "off + 3 < length b \<Longrightarrow> get32 (put32 b off v) off = v"
  unfolding get32_def put32_def
  by (simp add: get16_put16 get16_put16_other) (rule bit_word_eqI, auto simp: bit_simps)

section \<open>Two buffers that agree on a range\<close>

definition same_on :: "nat \<Rightarrow> nat \<Rightarrow> u8 list \<Rightarrow> u8 list \<Rightarrow> bool" where
  "same_on a e b c \<longleftrightarrow> (\<forall>i. a \<le> i \<and> i < e \<longrightarrow> c ! i = b ! i)"

lemma same_on_refl [simp, intro]: "same_on a e b b"
  by (simp add: same_on_def)

lemma same_on_trans [trans]: "same_on a e b c \<Longrightarrow> same_on a e c d \<Longrightarrow> same_on a e b d"
  by (simp add: same_on_def)

lemma same_on_mono: "same_on a e b c \<Longrightarrow> a \<le> a' \<Longrightarrow> e' \<le> e \<Longrightarrow> same_on a' e' b c"
  by (simp add: same_on_def)

lemma same_on_nth: "same_on a e b c \<Longrightarrow> a \<le> i \<Longrightarrow> i < e \<Longrightarrow> c ! i = b ! i"
  by (simp add: same_on_def)

lemma same_on_get16: "same_on a e b c \<Longrightarrow> a \<le> i \<Longrightarrow> i + 1 < e \<Longrightarrow> get16 c i = get16 b i"
  by (simp add: get16_def same_on_def)

lemma same_on_get32: "same_on a e b c \<Longrightarrow> a \<le> i \<Longrightarrow> i + 3 < e \<Longrightarrow> get32 c i = get32 b i"
  by (simp add: get32_def same_on_get16)

lemma same_on_put16 [intro]:
  "off + 1 < length b \<Longrightarrow> e \<le> off \<or> off + 2 \<le> a \<Longrightarrow> same_on a e b (put16 b off v)"
  by (auto simp: same_on_def nth_put16)

lemma same_on_put32 [intro]:
  "off + 3 < length b \<Longrightarrow> e \<le> off \<or> off + 4 \<le> a \<Longrightarrow> same_on a e b (put32 b off v)"
  by (auto simp: same_on_def nth_put32_other)

lemma same_on_list_update [intro]: "e \<le> off \<or> off < a \<Longrightarrow> same_on a e b (b[off := v])"
  by (auto simp: same_on_def)

lemma length_strncpy_at [simp]: "off + n \<le> length dst \<Longrightarrow> length (strncpy_at dst off src n) = length dst"
  by (simp add: strncpy_at_def)

lemma same_on_strncpy_at [intro]:
  "off + n \<le> length b \<Longrightarrow> e \<le> length b \<Longrightarrow> e \<le> off \<or> off + n \<le> a \<Longrightarrow> same_on a e b (strncpy_at b off src n)"
  by (auto simp: same_on_def strncpy_at_def nth_memcpy_at)

lemma strncpy_at_name:
  "off + length src \<le> length dst \<Longrightarrow> take (length src) (drop off (strncpy_at dst off src (length src))) = src"
  by (simp add: strncpy_at_def memcpy_at_def)

lemma same_on_take_drop:
  assumes "same_on a e b c" "a \<le> off" "off + n \<le> e" "e \<le> length b" "length c = length b"
  shows "take n (drop off c) = take n (drop off b)"
  using assms by (intro nth_equalityI) (auto simp: same_on_def)

end
