(* ===== verification/Dirent.thy ===== *)
theory Dirent
  imports Bytes Ext2_fs
begin

text \<open>
  Directory entries: \<open>struct ext2_dir_entry\<close> of \<^verbatim>\<open>libext2fs/ext2_fs.h\<close>, the accessors of
  \<^verbatim>\<open>libext2fs/ext2fs.h\<close> and the record lengths of \<^verbatim>\<open>libext2fs/dir_iterate.c\<close>. An entry is not copied
  out of its block: a \<open>struct ext2_dir_entry *\<close> is the block and the offset of the entry in it, and a
  store through it changes the block. The \<open>unsigned int\<close> lengths and offsets are natural numbers,
  since they stay within a block, whose size \<open>ext2fs_set_rec_len\<close> itself bounds by 2 to the 18.
\<close>

abbreviation (input) EXT2_DIR_NAME_LEN_CSUM :: u16 where "EXT2_DIR_NAME_LEN_CSUM \<equiv> 0xDE00"
abbreviation (input) EXT4_MAX_REC_LEN :: u32 where "EXT4_MAX_REC_LEN \<equiv> 65535"

section \<open>The fields\<close>

definition de_inode :: "u8 list \<Rightarrow> nat \<Rightarrow> u32" where
  "de_inode buf de = get32 buf de"

definition de_set_inode :: "u32 \<Rightarrow> u8 list \<Rightarrow> nat \<Rightarrow> u8 list" where
  "de_set_inode ino buf de = put32 buf de ino"

definition de_rec_len :: "u8 list \<Rightarrow> nat \<Rightarrow> u16" where
  "de_rec_len buf de = get16 buf (de + 4)"

definition de_set_rec_len :: "u16 \<Rightarrow> u8 list \<Rightarrow> nat \<Rightarrow> u8 list" where
  "de_set_rec_len len buf de = put16 buf (de + 4) len"

definition de_name_len :: "u8 list \<Rightarrow> nat \<Rightarrow> u16" where
  "de_name_len buf de = get16 buf (de + 6)"

definition de_name :: "u8 list \<Rightarrow> nat \<Rightarrow> u8 list" where
  "de_name buf de = drop (de + 8) buf"

definition ext2fs_dirent_name_len :: "u8 list \<Rightarrow> nat \<Rightarrow> nat" where
  "ext2fs_dirent_name_len buf de = unat (de_name_len buf de AND 0xff)"

definition ext2fs_dirent_set_name_len :: "nat \<Rightarrow> u8 list \<Rightarrow> nat \<Rightarrow> u8 list" where
  "ext2fs_dirent_set_name_len len buf de =
     put16 buf (de + 6) ((de_name_len buf de AND 0xff00) OR (of_nat len AND 0xff))"

definition ext2fs_dirent_file_type :: "u8 list \<Rightarrow> nat \<Rightarrow> u16" where
  "ext2fs_dirent_file_type buf de = drop_bit 8 (de_name_len buf de)"

definition ext2fs_dirent_set_file_type :: "u16 \<Rightarrow> u8 list \<Rightarrow> nat \<Rightarrow> u8 list" where
  "ext2fs_dirent_set_file_type type buf de =
     put16 buf (de + 6) ((de_name_len buf de AND 0xff) OR push_bit 8 type)"

text \<open>\<open>ext2fs_dir_rec_len\<close> takes the length of the name as an \<open>__u8\<close>.\<close>

definition ext2fs_dir_rec_len :: "u8 \<Rightarrow> bool \<Rightarrow> nat" where
  "ext2fs_dir_rec_len name_len extended =
     (let rec_len = (unat name_len + 8 + 3) div 4 * 4
      in if extended then rec_len + 8 else rec_len)"

definition EXT2_DIR_REC_LEN :: "nat \<Rightarrow> nat" where
  "EXT2_DIR_REC_LEN name_len = ext2fs_dir_rec_len (of_nat name_len) False"

section \<open>Record lengths\<close>

text \<open>
  In blocks of 64 KB and more a length does not fit in its 16 bits; the two low bits, which are zero
  in a length, hold its bits 16 and 17.
\<close>

definition ext2fs_get_rec_len :: "'a fs_base_scheme \<Rightarrow> u8 list \<Rightarrow> nat \<Rightarrow> nat" where
  "ext2fs_get_rec_len fs buf de =
     (let len = ucast (de_rec_len buf de) :: u32
      in if fs_blocksize fs < 65536 then unat len
         else if len = EXT4_MAX_REC_LEN \<or> len = 0 then unat (fs_blocksize fs)
         else unat ((len AND 65532) OR push_bit 16 (len AND 3)))"

definition ext2fs_set_rec_len :: "'a fs_base_scheme \<Rightarrow> nat \<Rightarrow> u8 list \<Rightarrow> nat \<Rightarrow> u8 list \<times> errcode" where
  "ext2fs_set_rec_len fs rec_len buf de =
     (let len = of_nat rec_len :: u32
      in if len > fs_blocksize fs \<or> fs_blocksize fs > 262144 \<or> len AND 3 \<noteq> 0 then (buf, EINVAL)
         else if len < 65536 then (de_set_rec_len (ucast len) buf de, 0)
         else if len = fs_blocksize fs then
           if fs_blocksize fs = 65536 then (de_set_rec_len (ucast EXT4_MAX_REC_LEN) buf de, 0)
           else (de_set_rec_len 0 buf de, 0)
         else (de_set_rec_len (ucast ((len AND 65532) OR (drop_bit 16 len AND 3))) buf de, 0))"

section \<open>Reading a field after writing another\<close>

lemmas de_defs = de_inode_def de_set_inode_def de_rec_len_def de_set_rec_len_def de_name_len_def de_name_def
  ext2fs_dirent_name_len_def ext2fs_dirent_set_name_len_def ext2fs_dirent_file_type_def
  ext2fs_dirent_set_file_type_def

lemma length_de_set [simp]:
  "length (de_set_inode i buf de) = length buf" "length (de_set_rec_len l buf de) = length buf"
  "length (ext2fs_dirent_set_name_len n buf de) = length buf"
  "length (ext2fs_dirent_set_file_type t buf de) = length buf"
  by (simp_all add: de_defs)

lemma length_set_rec_len [simp]: "length (fst (ext2fs_set_rec_len fs l buf de)) = length buf"
  by (simp add: ext2fs_set_rec_len_def Let_def)

lemma name_len_lt: "ext2fs_dirent_name_len buf de < 256"
proof -
  have "(0xff :: u16) = mask 8" by (simp add: mask_eq_exp_minus_1)
  then have "de_name_len buf de AND 0xff = take_bit 8 (de_name_len buf de)" by (simp add: take_bit_eq_mask)
  then show ?thesis using take_bit_nat_less_exp [of 8 "unat (de_name_len buf de)"]
    by (simp add: ext2fs_dirent_name_len_def unsigned_take_bit_eq)
qed

lemma dir_rec_len_bounds:
  assumes "n < 256"
  shows "n + 8 \<le> EXT2_DIR_REC_LEN n" "EXT2_DIR_REC_LEN n mod 4 = 0" "EXT2_DIR_REC_LEN n \<le> n + 11"
proof -
  have "unat (of_nat n :: u8) = n" using assms unfolding unat_of_nat by (intro mod_less) simp
  then have e: "EXT2_DIR_REC_LEN n = (n + 11) div 4 * 4"
    by (simp add: EXT2_DIR_REC_LEN_def ext2fs_dir_rec_len_def)
  show "n + 8 \<le> EXT2_DIR_REC_LEN n" "EXT2_DIR_REC_LEN n mod 4 = 0" "EXT2_DIR_REC_LEN n \<le> n + 11"
    unfolding e by auto
qed

text \<open>The 16 bits hold every length that is a multiple of four, with two exceptions.\<close>

lemma rec_len_code:
  fixes len :: u32
  assumes "len AND 3 = 0" "len < 262144" "65536 \<le> len"
  defines "c \<equiv> ucast ((len AND 65532) OR (drop_bit 16 len AND 3)) :: u16"
  shows "(ucast c AND 65532) OR push_bit 16 (ucast c AND 3) = len"
proof -
  have m: "(65532 :: u32) = mask 16 AND NOT (mask 2)" "(3 :: u32) = mask 2" by (simp_all add: mask_eq_exp_minus_1)
  have hi: "bit len k \<Longrightarrow> k < 18" for k
  proof -
    have "take_bit 18 len = len" using assms(2)
      by (simp add: word_unat_eq_iff unsigned_take_bit_eq take_bit_nat_eq_self_iff word_less_nat_alt)
    then have "bit (take_bit 18 len) k = bit len k" by simp
    then show "bit len k \<Longrightarrow> k < 18" by (simp add: bit_take_bit_iff)
  qed
  have lo: "bit len k \<Longrightarrow> 2 \<le> k" for k
  proof -
    have "bit (len AND mask 2) k = False" using assms(1) m(2) by simp
    then show "bit len k \<Longrightarrow> 2 \<le> k" by (auto simp: bit_simps)
  qed
  have b: "bit c k \<longleftrightarrow> (if k < 2 then bit len (k + 16) else k < 16 \<and> bit len k)" for k
    unfolding c_def m by (auto simp: bit_simps add.commute dest: hi lo bit_imp_le_length)
  show ?thesis
    unfolding m by (rule bit_word_eqI) (auto simp: bit_simps b not_less dest: hi lo, metis le_add_diff_inverse2 not_le)
qed


lemma rec_len_code_eq:
  fixes len :: u32
  assumes "len AND 3 = 0" "len < 262144" "65536 \<le> len"
  defines "c \<equiv> ucast ((len AND 65532) OR (drop_bit 16 len AND 3)) :: u16"
  shows "(ucast c :: u32) = 0 \<longrightarrow> len = 0" "(ucast c :: u32) = EXT4_MAX_REC_LEN \<longrightarrow> len = 262140"
  using rec_len_code [OF assms(1-3)] unfolding c_def [symmetric] by auto

lemma and_3_mod: "(len :: u32) AND 3 = 0 \<longleftrightarrow> unat len mod 4 = 0"
proof -
  have "(3 :: u32) = mask 2" by (simp add: mask_eq_exp_minus_1)
  then have "len AND 3 = take_bit 2 len" by (simp add: take_bit_eq_mask)
  then have "unat (len AND 3) = unat len mod 4" by (simp add: unsigned_take_bit_eq) (simp add: take_bit_eq_mod)
  then show ?thesis by (metis unat_eq_0)
qed

lemma set_rec_len_ok:
  assumes "l < 2 ^ 32"
  shows "snd (ext2fs_set_rec_len fs l buf de) = 0 \<longleftrightarrow>
    l \<le> unat (fs_blocksize fs) \<and> unat (fs_blocksize fs) \<le> 262144 \<and> l mod 4 = 0"
proof -
  have u: "unat (of_nat l :: u32) = l" using assms unfolding unat_of_nat by (intro mod_less) simp
  have "snd (ext2fs_set_rec_len fs l buf de) = 0 \<longleftrightarrow>
      \<not> (fs_blocksize fs < of_nat l \<or> 262144 < fs_blocksize fs \<or> (of_nat l :: u32) AND 3 \<noteq> 0)"
    by (simp add: ext2fs_set_rec_len_def Let_def)
  also have "\<dots> \<longleftrightarrow> l \<le> unat (fs_blocksize fs) \<and> unat (fs_blocksize fs) \<le> 262144 \<and> l mod 4 = 0"
    unfolding and_3_mod u by (auto simp: word_less_nat_alt u)
  finally show ?thesis .
qed

lemma set_get_rec_len:
  assumes "ext2fs_set_rec_len fs l buf de = (buf', 0)" "de + 5 < length buf" "l < 2 ^ 32"
    and "l \<noteq> 0 \<or> fs_blocksize fs < 65536" "l \<noteq> 262140"
  shows "ext2fs_get_rec_len fs buf' de = l"
proof -
  define len where "len = (of_nat l :: u32)"
  have u: "unat len = l" using assms(3) unfolding len_def unat_of_nat by (intro mod_less) simp
  note ok = set_rec_len_ok [OF assms(3), of fs buf de, unfolded assms(1) snd_conv, simplified]
  have l: "l \<le> unat (fs_blocksize fs)" "unat (fs_blocksize fs) \<le> 262144" "l mod 4 = 0" using ok by auto
  have z: "len AND 3 = 0" using l(3) u and_3_mod by simp
  have set: "(de_set_rec_len x buf de, 0) = (buf', 0) \<Longrightarrow> de_rec_len buf' de = x" for x
    using assms(2) by (auto simp: de_defs get16_put16)
  have s: "ext2fs_set_rec_len fs l buf de =
      (if len < 65536 then (de_set_rec_len (ucast len) buf de, 0)
         else if len = fs_blocksize fs then
           if fs_blocksize fs = 65536 then (de_set_rec_len (ucast EXT4_MAX_REC_LEN) buf de, 0)
           else (de_set_rec_len 0 buf de, 0)
         else (de_set_rec_len (ucast ((len AND 65532) OR (drop_bit 16 len AND 3))) buf de, 0))"
    using ok unfolding ext2fs_set_rec_len_def Let_def len_def [symmetric]
    by (simp add: word_less_nat_alt z u)
  show ?thesis
  proof (cases "len < 65536")
    case True
    then have r: "de_rec_len buf' de = ucast len" using assms(1) s set by simp
    have lt: "l < 65536" using True u by (simp add: word_less_nat_alt)
    have t16: "take_bit 16 len = len"
      using lt u by (simp add: word_unat_eq_iff unsigned_take_bit_eq take_bit_nat_eq_self)
    have c: "(ucast (ucast len :: u16) :: u32) = len"
    proof (rule bit_word_eqI)
      fix k
      have "bit len k \<Longrightarrow> k < 16" using t16 by (metis bit_take_bit_iff)
      then show "k < LENGTH(32) \<Longrightarrow> bit (ucast (ucast len :: u16) :: u32) k = bit len k" by (auto simp: bit_simps)
    qed
    have ne: "len \<noteq> 65535" using l(3) u by auto
    have a: "(len AND 65532) OR push_bit 16 (len AND 3) = len"
    proof -
      have "len AND 65532 = len"
      proof (rule bit_word_eqI)
        fix k
        have m: "(65532 :: u32) = mask 16 AND NOT (mask 2)" by (simp add: mask_eq_exp_minus_1)
        have hi: "bit len k \<Longrightarrow> k < 16" using t16 by (metis bit_take_bit_iff)
        have "(3 :: u32) = mask 2" by (simp add: mask_eq_exp_minus_1)
        then have "\<not> bit (len AND mask 2) k" using z by simp
        then have lo: "bit len k \<Longrightarrow> 2 \<le> k" by (auto simp: bit_simps)
        show "k < LENGTH(32) \<Longrightarrow> bit (len AND 65532) k = bit len k" unfolding m using hi lo by (auto simp: bit_simps)
      qed
      then show ?thesis using z by simp
    qed
    have l0: "fs_blocksize fs < 65536 \<or> len \<noteq> 0" using assms(4) u by auto
    show ?thesis unfolding ext2fs_get_rec_len_def Let_def r c using a ne l0 u by auto
  next
    case False
    then have ge: "65536 \<le> len" by simp
    then have bs: "\<not> fs_blocksize fs < 65536" using l(1) u by (simp add: word_le_nat_alt word_less_nat_alt)
    show ?thesis
    proof (cases "len = fs_blocksize fs")
      case True
      then have "de_rec_len buf' de = 65535 \<or> de_rec_len buf' de = 0" using assms(1) s set False by (auto split: if_splits)
      then show ?thesis using True u bs by (auto simp: ext2fs_get_rec_len_def Let_def)
    next
      case neq: False
      then have lt: "len < 262144" using l(1,2) u by (auto simp: word_less_nat_alt word_unat_eq_iff)
      have r: "de_rec_len buf' de = ucast ((len AND 65532) OR (drop_bit 16 len AND 3))"
        using assms(1) s set False neq by simp
      have "len \<noteq> 262140" using assms(5) u by auto
      moreover have "len \<noteq> 0" using ge by auto
      ultimately show ?thesis using rec_len_code [OF z lt ge] rec_len_code_eq [OF z lt ge] bs u
        unfolding ext2fs_get_rec_len_def Let_def r by auto
    qed
  qed
qed

end
