(* ===== verification/Csum.thy ===== *)
theory Csum
  imports Dirent Blknum Crc_Check
begin

text \<open>
  \<^verbatim>\<open>libext2fs/csum.c\<close>: the checksums of the metadata. A structure on disk is the buffer it lies in and a
  field is read and written at its offset; group descriptors, which the handle keeps as records, are laid
  out as bytes by \<open>group_desc_bytes\<close>. The code is modelled for a little-endian machine: \<open>need_swab\<close>, whose
  two translations are then both the identity, is kept as an argument. \<open>ext2fs_read_inode\<close> is an argument
  (\<open>rdi\<close>) of the checksums that depend on the generation number of an inode.
\<close>

abbreviation (input) EXT2_FLAG_SWAP_BYTES :: u32 where "EXT2_FLAG_SWAP_BYTES \<equiv> 0x40"
abbreviation (input) EXT2_FLAG_IGNORE_CSUM_ERRORS :: u32 where "EXT2_FLAG_IGNORE_CSUM_ERRORS \<equiv> 0x200000"
abbreviation (input) EXT2_ET_DB_NOT_FOUND :: errcode where "EXT2_ET_DB_NOT_FOUND \<equiv> 2133571406"
abbreviation (input) EXT2_ET_DIR_NO_SPACE_FOR_CSUM :: errcode where "EXT2_ET_DIR_NO_SPACE_FOR_CSUM \<equiv> 2133571477"
abbreviation (input) EXT2_FILSYS_CORRUPTED :: errcode where "EXT2_FILSYS_CORRUPTED \<equiv> 2133571508"

type_synonym inode_reader = "u32 \<Rightarrow> errcode + ext2_inode"

section \<open>Bytes of integers and buffers\<close>

definition bytes16 :: "u16 \<Rightarrow> u8 list" where
  "bytes16 v = [ucast v, ucast (drop_bit 8 v)]"

definition bytes32 :: "u32 \<Rightarrow> u8 list" where
  "bytes32 v = [ucast v, ucast (drop_bit 8 v), ucast (drop_bit 16 v), ucast (drop_bit 24 v)]"

definition bytes64 :: "u64 \<Rightarrow> u8 list" where
  "bytes64 v = bytes32 (ucast v) @ bytes32 (ucast (drop_bit 32 v))"

text \<open>
  \<open>ext2fs_crc32c_le\<close> of \<open>n\<close> bytes at \<open>off\<close>. Its result does not depend on the address, which only decides
  how the bytes are cut into words; it is given the address 0.
\<close>

definition crc32c :: "u32 \<Rightarrow> u8 list \<Rightarrow> nat \<Rightarrow> nat \<Rightarrow> u32" where
  "crc32c crc buf off n = ext2fs_crc32c_le crc 0 (take n (drop off buf)) (of_nat n)"

definition crc32c_inode :: "'a fs_base_scheme \<Rightarrow> u32 \<Rightarrow> u32 \<Rightarrow> u32" where
  "crc32c_inode fs inum gen = crc32c (crc32c (fs_csum_seed fs) (bytes32 inum) 0 4) (bytes32 gen) 0 4"

section \<open>Seed, super block, MMP block and extended attribute block\<close>

definition ext2fs_init_csum_seed :: "'a fs_base_scheme \<Rightarrow> 'a fs_base_scheme" where
  "ext2fs_init_csum_seed fs =
     (if ext2fs_has_feature_csum_seed (fs_super fs)
      then fs\<lparr>fs_csum_seed := s_checksum_seed (fs_super fs)\<rparr>
      else if ext2fs_has_feature_metadata_csum (fs_super fs) \<or> ext2fs_has_feature_ea_inode (fs_super fs)
      then fs\<lparr>fs_csum_seed := crc32c (-1) (s_uuid (fs_super fs)) 0 16\<rparr>
      else fs)"

definition ext2fs_mmp_csum :: "'a fs_base_scheme \<Rightarrow> u8 list \<Rightarrow> u32" where
  "ext2fs_mmp_csum fs mmp = crc32c (fs_csum_seed fs) mmp 0 1020"

definition ext2fs_mmp_csum_verify :: "'a fs_base_scheme \<Rightarrow> u8 list \<Rightarrow> int" where
  "ext2fs_mmp_csum_verify fs mmp =
     (if \<not> ext2fs_has_feature_metadata_csum (fs_super fs) then 1
      else if get32 mmp 1020 = ext2fs_mmp_csum fs mmp then 1 else 0)"

definition ext2fs_mmp_csum_set :: "'a fs_base_scheme \<Rightarrow> u8 list \<Rightarrow> u8 list \<times> errcode" where
  "ext2fs_mmp_csum_set fs mmp =
     (if \<not> ext2fs_has_feature_metadata_csum (fs_super fs) then (mmp, 0)
      else (put32 mmp 1020 (ext2fs_mmp_csum fs mmp), 0))"

definition ext2fs_verify_csum_type :: "'a fs_base_scheme \<Rightarrow> ext2_super_block \<Rightarrow> int" where
  "ext2fs_verify_csum_type fs sb =
     (if \<not> ext2fs_has_feature_metadata_csum (fs_super fs) then 1
      else if s_checksum_type sb = 1 then 1 else 0)"

definition ext2fs_superblock_csum :: "u8 list \<Rightarrow> u32" where
  "ext2fs_superblock_csum sb = crc32c (-1) sb 0 1020"

text \<open>Both values of \<open>flag\<close> are the metadata checksum feature on a little-endian machine.\<close>

definition ext2fs_superblock_csum_verify :: "'a fs_base_scheme \<Rightarrow> u8 list \<Rightarrow> int" where
  "ext2fs_superblock_csum_verify fs sb =
     (let flag = (if fs_flags fs AND EXT2_FLAG_SWAP_BYTES \<noteq> 0 then EXT4_FEATURE_RO_COMPAT_METADATA_CSUM
                  else EXT4_FEATURE_RO_COMPAT_METADATA_CSUM)
      in if s_feature_ro_compat (fs_super fs) AND flag = 0 then 1
         else if get32 sb 1020 = ext2fs_superblock_csum sb then 1 else 0)"

definition ext2fs_superblock_csum_set :: "'a fs_base_scheme \<Rightarrow> u8 list \<Rightarrow> u8 list \<times> errcode" where
  "ext2fs_superblock_csum_set fs sb =
     (let flag = (if fs_flags fs AND EXT2_FLAG_SWAP_BYTES \<noteq> 0 then EXT4_FEATURE_RO_COMPAT_METADATA_CSUM
                  else EXT4_FEATURE_RO_COMPAT_METADATA_CSUM)
      in if s_feature_ro_compat (fs_super fs) AND flag = 0 then (sb, 0)
         else (put32 sb 1020 (ext2fs_superblock_csum sb), 0))"

text \<open>\<open>h_checksum\<close> is at offset 16; it counts as zero and is restored.\<close>

definition ext2fs_ext_attr_block_csum :: "'a fs_base_scheme \<Rightarrow> u64 \<Rightarrow> u8 list \<Rightarrow> u8 list \<times> u32" where
  "ext2fs_ext_attr_block_csum fs block hdr =
     (let old_crc = get32 hdr 16;
          hdr = put32 hdr 16 0;
          crc = crc32c (fs_csum_seed fs) (bytes64 block) 0 8;
          crc = crc32c crc hdr 0 (unat (fs_blocksize fs))
      in (put32 hdr 16 old_crc, crc))"

definition ext2fs_ext_attr_block_csum_verify :: "'a fs_base_scheme \<Rightarrow> u64 \<Rightarrow> u8 list \<Rightarrow> int" where
  "ext2fs_ext_attr_block_csum_verify fs block hdr =
     (if \<not> ext2fs_has_feature_metadata_csum (fs_super fs) then 1
      else let (hdr, calculated) = ext2fs_ext_attr_block_csum fs block hdr
           in if get32 hdr 16 = calculated then 1 else 0)"

definition ext2fs_ext_attr_block_csum_set :: "'a fs_base_scheme \<Rightarrow> u64 \<Rightarrow> u8 list \<Rightarrow> u8 list \<times> errcode" where
  "ext2fs_ext_attr_block_csum_set fs block hdr =
     (if \<not> ext2fs_has_feature_metadata_csum (fs_super fs) then (hdr, 0)
      else let (hdr, crc) = ext2fs_ext_attr_block_csum fs block hdr in (put32 hdr 16 crc, 0))"

section \<open>Directory blocks\<close>

definition do_nothing16 :: "u16 \<Rightarrow> u16" where
  "do_nothing16 x = x"

definition disk_to_host16 :: "u16 \<Rightarrow> u16" where
  "disk_to_host16 x = x"

text \<open>The result is the offset of the \<open>ext2_dx_countlimit\<close>, to which both result pointers lead.\<close>

definition get_dx_countlimit :: "'a fs_base_scheme \<Rightarrow> u8 list \<Rightarrow> bool \<Rightarrow> errcode + nat" where
  "get_dx_countlimit fs dirent need_swab =
     (let translate = (if need_swab then disk_to_host16 else do_nothing16);
          bs = unat (fs_blocksize fs);
          rec_len = unat (translate (de_rec_len dirent 0));
          check = (\<lambda>count_offset.
            let max_sane_entries = (bs - count_offset) div 8
            in if unat (get16 dirent count_offset) > max_sane_entries
                  \<or> unat (get16 dirent (count_offset + 2)) > max_sane_entries
               then Inl EXT2_ET_DIR_NO_SPACE_FOR_CSUM else Inr count_offset)
      in if rec_len = bs \<and> translate (de_name_len dirent 0) = 0 then check 8
         else if rec_len = 12 then
           if int (unat (translate (de_rec_len dirent 12))) \<noteq> int bs - 12 then Inl EXT2_ET_DB_NOT_FOUND
           else if get32 dirent 24 \<noteq> 0 \<or> dirent ! 29 \<noteq> 8 then Inl EXT2_ET_DB_NOT_FOUND
           else check 32
         else Inl EXT2_ET_DB_NOT_FOUND)"

definition ext2fs_get_dx_countlimit :: "'a fs_base_scheme \<Rightarrow> u8 list \<Rightarrow> errcode + nat" where
  "ext2fs_get_dx_countlimit fs dirent = get_dx_countlimit fs dirent False"

definition ext2fs_initialize_dirent_tail :: "'a fs_base_scheme \<Rightarrow> u8 list \<Rightarrow> nat \<Rightarrow> u8 list" where
  "ext2fs_initialize_dirent_tail fs buf t =
     (let buf = memset buf t 0 12;
          buf = fst (ext2fs_set_rec_len fs 12 buf t)
      in put16 buf (t + 6) EXT2_DIR_NAME_LEN_CSUM)"

text \<open>The walk over the entries up to the tail: an error, or the place where it ends.\<close>

function dirent_tail_walk :: "(u16 \<Rightarrow> u16) \<Rightarrow> u8 list \<Rightarrow> nat \<Rightarrow> nat \<Rightarrow> errcode + nat" where
  "dirent_tail_walk translate dirent t d =
     (if d < t
      then let rec_len = unat (translate (de_rec_len dirent d))
           in if rec_len < 8 \<or> rec_len mod 4 \<noteq> 0 then Inl EXT2_ET_DIR_CORRUPTED
              else dirent_tail_walk translate dirent t (d + rec_len)
      else Inr d)"
  by pat_completeness auto
termination by (relation "measure (\<lambda>(tr, dirent, t, d). t - d)") auto

declare dirent_tail_walk.simps [simp del]

definition get_dirent_tail :: "'a fs_base_scheme \<Rightarrow> u8 list \<Rightarrow> bool \<Rightarrow> errcode + nat" where
  "get_dirent_tail fs dirent need_swab =
     (let translate = (if need_swab then disk_to_host16 else do_nothing16);
          bs = unat (fs_blocksize fs);
          tl = bs - 12
      in if bs < 1024 then Inl EXT2_FILSYS_CORRUPTED
         else case dirent_tail_walk translate dirent tl 0 of
                Inl e \<Rightarrow> Inl e
              | Inr d \<Rightarrow>
                  if d > bs then Inl EXT2_ET_DIR_CORRUPTED
                  else if d \<noteq> tl then Inl EXT2_ET_DIR_NO_SPACE_FOR_CSUM
                  else if get32 dirent d \<noteq> 0 \<or> translate (get16 dirent (d + 4)) \<noteq> 12
                          \<or> translate (get16 dirent (d + 6)) \<noteq> EXT2_DIR_NAME_LEN_CSUM
                  then Inl EXT2_ET_DIR_NO_SPACE_FOR_CSUM
                  else Inr d)"

definition ext2fs_dirent_has_tail :: "'a fs_base_scheme \<Rightarrow> u8 list \<Rightarrow> int" where
  "ext2fs_dirent_has_tail fs dirent =
     (if get_dirent_tail fs dirent False \<noteq> Inl EXT2_ET_DIR_NO_SPACE_FOR_CSUM then 1 else 0)"

definition ext2fs_dirent_csum :: "inode_reader \<Rightarrow> 'a fs_base_scheme \<Rightarrow> u32 \<Rightarrow> u8 list \<Rightarrow> nat \<Rightarrow> errcode + u32" where
  "ext2fs_dirent_csum rdi fs inum dirent sz =
     (case rdi inum of
        Inl retval \<Rightarrow> Inl retval
      | Inr inode \<Rightarrow> Inr (crc32c (crc32c_inode fs inum (i_generation inode)) dirent 0 sz))"

text \<open>The checksum field \<open>det_checksum\<close> of the tail is at its offset 8.\<close>

definition ext2fs_dirent_csum_verify :: "inode_reader \<Rightarrow> 'a fs_base_scheme \<Rightarrow> u32 \<Rightarrow> u8 list \<Rightarrow> int" where
  "ext2fs_dirent_csum_verify rdi fs inum dirent =
     (case get_dirent_tail fs dirent True of
        Inl _ \<Rightarrow> 1
      | Inr t \<Rightarrow> (case ext2fs_dirent_csum rdi fs inum dirent t of
                    Inl _ \<Rightarrow> 0
                  | Inr calculated \<Rightarrow> if get32 dirent (t + 8) = calculated then 1 else 0))"

definition ext2fs_dirent_csum_set :: "inode_reader \<Rightarrow> 'a fs_base_scheme \<Rightarrow> u32 \<Rightarrow> u8 list \<Rightarrow> u8 list \<times> errcode" where
  "ext2fs_dirent_csum_set rdi fs inum dirent =
     (case get_dirent_tail fs dirent True of
        Inl retval \<Rightarrow> (dirent, retval)
      | Inr t \<Rightarrow> (case ext2fs_dirent_csum rdi fs inum dirent t of
                    Inl retval \<Rightarrow> (dirent, retval)
                  | Inr crc \<Rightarrow> (put32 dirent (t + 8) crc, 0)))"

text \<open>The checksum of an index block and the offset of its tail.\<close>

definition ext2fs_dx_csum :: "inode_reader \<Rightarrow> 'a fs_base_scheme \<Rightarrow> u32 \<Rightarrow> u8 list \<Rightarrow> errcode + (u32 \<times> nat)" where
  "ext2fs_dx_csum rdi fs inum dirent =
     (case get_dx_countlimit fs dirent True of
        Inl retval \<Rightarrow> Inl retval
      | Inr count_offset \<Rightarrow>
          let limit = unat (get16 dirent count_offset);
              n = unat (get16 dirent (count_offset + 2))
          in if count_offset + limit * 8 + 8 > unat (fs_blocksize fs) then Inl EXT2_ET_DIR_NO_SPACE_FOR_CSUM
             else let t = count_offset + limit * 8;
                      sz = count_offset + n * 8
                  in case rdi inum of
                       Inl retval \<Rightarrow> Inl retval
                     | Inr inode \<Rightarrow>
                         let crc = crc32c_inode fs inum (i_generation inode);
                             crc = crc32c crc dirent 0 sz;
                             crc = crc32c crc dirent t 4
                         in Inr (crc32c crc (bytes32 0) 0 4, t))"

definition ext2fs_dx_csum_verify :: "inode_reader \<Rightarrow> 'a fs_base_scheme \<Rightarrow> u32 \<Rightarrow> u8 list \<Rightarrow> int" where
  "ext2fs_dx_csum_verify rdi fs inum dirent =
     (case ext2fs_dx_csum rdi fs inum dirent of
        Inl _ \<Rightarrow> 0
      | Inr (calculated, t) \<Rightarrow> if get32 dirent (t + 4) = calculated then 1 else 0)"

definition ext2fs_dx_csum_set :: "inode_reader \<Rightarrow> 'a fs_base_scheme \<Rightarrow> u32 \<Rightarrow> u8 list \<Rightarrow> u8 list \<times> errcode" where
  "ext2fs_dx_csum_set rdi fs inum dirent =
     (case ext2fs_dx_csum rdi fs inum dirent of
        Inl retval \<Rightarrow> (dirent, retval)
      | Inr (crc, t) \<Rightarrow> (put32 dirent (t + 4) crc, 0))"

definition ext2fs_dir_block_csum_verify :: "inode_reader \<Rightarrow> 'a fs_base_scheme \<Rightarrow> u32 \<Rightarrow> u8 list \<Rightarrow> int" where
  "ext2fs_dir_block_csum_verify rdi fs inum dirent =
     (if \<not> ext2fs_has_feature_metadata_csum (fs_super fs) then 1
      else if \<not> isl (get_dirent_tail fs dirent True) then ext2fs_dirent_csum_verify rdi fs inum dirent
      else if \<not> isl (get_dx_countlimit fs dirent True) then ext2fs_dx_csum_verify rdi fs inum dirent
      else 0)"

definition ext2fs_dir_block_csum_set :: "inode_reader \<Rightarrow> 'a fs_base_scheme \<Rightarrow> u32 \<Rightarrow> u8 list \<Rightarrow> u8 list \<times> errcode" where
  "ext2fs_dir_block_csum_set rdi fs inum dirent =
     (if \<not> ext2fs_has_feature_metadata_csum (fs_super fs) then (dirent, 0)
      else if \<not> isl (get_dirent_tail fs dirent True) then ext2fs_dirent_csum_set rdi fs inum dirent
      else if \<not> isl (get_dx_countlimit fs dirent True) then ext2fs_dx_csum_set rdi fs inum dirent
      else if fs_flags fs AND EXT2_FLAG_IGNORE_CSUM_ERRORS \<noteq> 0 then (dirent, 0)
      else (dirent, EXT2_ET_DIR_NO_SPACE_FOR_CSUM))"

section \<open>Extent blocks, bitmaps, inodes and group descriptors\<close>

text \<open>\<open>EXT3_EXTENT_TAIL_OFFSET\<close>: the header, then \<open>eh_max\<close> (at offset 4) entries, 12 bytes each.\<close>

definition get_extent_tail :: "u8 list \<Rightarrow> nat" where
  "get_extent_tail eh = 12 + 12 * unat (get16 eh 4)"

definition ext2fs_extent_block_csum :: "inode_reader \<Rightarrow> 'a fs_base_scheme \<Rightarrow> u32 \<Rightarrow> u8 list \<Rightarrow> errcode + u32" where
  "ext2fs_extent_block_csum rdi fs inum eh =
     (let sz = get_extent_tail eh
      in case rdi inum of
           Inl retval \<Rightarrow> Inl retval
         | Inr inode \<Rightarrow> Inr (crc32c (crc32c_inode fs inum (i_generation inode)) eh 0 sz))"

definition ext2fs_extent_block_csum_verify :: "inode_reader \<Rightarrow> 'a fs_base_scheme \<Rightarrow> u32 \<Rightarrow> u8 list \<Rightarrow> int" where
  "ext2fs_extent_block_csum_verify rdi fs inum eh =
     (if \<not> ext2fs_has_feature_metadata_csum (fs_super fs) then 1
      else case ext2fs_extent_block_csum rdi fs inum eh of
             Inl _ \<Rightarrow> 0
           | Inr calculated \<Rightarrow> if get32 eh (get_extent_tail eh) = calculated then 1 else 0)"

definition ext2fs_extent_block_csum_set :: "inode_reader \<Rightarrow> 'a fs_base_scheme \<Rightarrow> u32 \<Rightarrow> u8 list \<Rightarrow> u8 list \<times> errcode" where
  "ext2fs_extent_block_csum_set rdi fs inum eh =
     (if \<not> ext2fs_has_feature_metadata_csum (fs_super fs) then (eh, 0)
      else case ext2fs_extent_block_csum rdi fs inum eh of
             Inl retval \<Rightarrow> (eh, retval)
           | Inr crc \<Rightarrow> (put32 eh (get_extent_tail eh) crc, 0))"

definition ext2fs_inode_bitmap_csum_verify :: "'a fs_base_scheme \<Rightarrow> u32 \<Rightarrow> u8 list \<Rightarrow> nat \<Rightarrow> int" where
  "ext2fs_inode_bitmap_csum_verify fs g bitmap n =
     (let gdp = ext4fs_group_desc fs g
      in if \<not> ext2fs_has_feature_metadata_csum (fs_super fs) then 1
         else let provided = ucast (bg_inode_bitmap_csum_lo gdp) :: u32;
                  calculated = crc32c (fs_csum_seed fs) bitmap 0 n;
                  (provided, calculated) =
                    (if EXT2_DESC_SIZE (fs_super fs) \<ge> 60
                     then (provided OR push_bit 16 (ucast (bg_inode_bitmap_csum_hi gdp)), calculated)
                     else (provided, calculated AND 0xFFFF))
              in if provided = calculated then 1 else 0)"

definition ext2fs_inode_bitmap_csum_set :: "'a fs_base_scheme \<Rightarrow> u32 \<Rightarrow> u8 list \<Rightarrow> nat \<Rightarrow> 'a fs_base_scheme \<times> errcode" where
  "ext2fs_inode_bitmap_csum_set fs g bitmap n =
     (let gdp = ext4fs_group_desc fs g
      in if \<not> ext2fs_has_feature_metadata_csum (fs_super fs) then (fs, 0)
         else let crc = crc32c (fs_csum_seed fs) bitmap 0 n;
                  gdp = gdp\<lparr>bg_inode_bitmap_csum_lo := ucast (crc AND 0xFFFF)\<rparr>;
                  gdp = (if EXT2_DESC_SIZE (fs_super fs) \<ge> 60
                         then gdp\<lparr>bg_inode_bitmap_csum_hi := ucast (drop_bit 16 crc)\<rparr> else gdp)
              in (gdp_store fs g gdp, 0))"

definition ext2fs_block_bitmap_csum_verify :: "'a fs_base_scheme \<Rightarrow> u32 \<Rightarrow> u8 list \<Rightarrow> nat \<Rightarrow> int" where
  "ext2fs_block_bitmap_csum_verify fs g bitmap n =
     (let gdp = ext4fs_group_desc fs g
      in if \<not> ext2fs_has_feature_metadata_csum (fs_super fs) then 1
         else let provided = ucast (bg_block_bitmap_csum_lo gdp) :: u32;
                  calculated = crc32c (fs_csum_seed fs) bitmap 0 n;
                  (provided, calculated) =
                    (if EXT2_DESC_SIZE (fs_super fs) \<ge> 58
                     then (provided OR push_bit 16 (ucast (bg_block_bitmap_csum_hi gdp)), calculated)
                     else (provided, calculated AND 0xFFFF))
              in if provided = calculated then 1 else 0)"

definition ext2fs_block_bitmap_csum_set :: "'a fs_base_scheme \<Rightarrow> u32 \<Rightarrow> u8 list \<Rightarrow> nat \<Rightarrow> 'a fs_base_scheme \<times> errcode" where
  "ext2fs_block_bitmap_csum_set fs g bitmap n =
     (let gdp = ext4fs_group_desc fs g
      in if \<not> ext2fs_has_feature_metadata_csum (fs_super fs) then (fs, 0)
         else let crc = crc32c (fs_csum_seed fs) bitmap 0 n;
                  gdp = gdp\<lparr>bg_block_bitmap_csum_lo := ucast (crc AND 0xFFFF)\<rparr>;
                  gdp = (if EXT2_DESC_SIZE (fs_super fs) \<ge> 58
                         then gdp\<lparr>bg_block_bitmap_csum_hi := ucast (drop_bit 16 crc)\<rparr> else gdp)
              in (gdp_store fs g gdp, 0))"

text \<open>
  An inode is a buffer of the inode size: \<open>i_generation\<close> is at offset 100, \<open>i_checksum_lo\<close> at 124,
  \<open>i_extra_isize\<close> at 128 and \<open>i_checksum_hi\<close> at 130. The checksum fields count as zero.
\<close>

definition inode_has_hi :: "'a fs_base_scheme \<Rightarrow> u8 list \<Rightarrow> bool" where
  "inode_has_hi fs inode \<longleftrightarrow> EXT2_INODE_SIZE (fs_super fs) > 128 \<and> get16 inode 128 \<ge> 4"

definition ext2fs_inode_csum :: "'a fs_base_scheme \<Rightarrow> u32 \<Rightarrow> u8 list \<Rightarrow> bool \<Rightarrow> u8 list \<times> u32" where
  "ext2fs_inode_csum fs inum inode has_hi =
     (let old_lo = get16 inode 124;
          inode = put16 inode 124 0;
          old_hi = (if has_hi then get16 inode 130 else 0);
          inode = (if has_hi then put16 inode 130 0 else inode);
          gen = get32 inode 100;
          crc = crc32c (crc32c_inode fs inum gen) inode 0 (unat (EXT2_INODE_SIZE (fs_super fs)));
          inode = put16 inode 124 old_lo;
          inode = (if has_hi then put16 inode 130 old_hi else inode)
      in (inode, crc))"

definition ext2fs_inode_csum_verify :: "'a fs_base_scheme \<Rightarrow> u32 \<Rightarrow> u8 list \<Rightarrow> int" where
  "ext2fs_inode_csum_verify fs inum inode =
     (if \<not> ext2fs_has_feature_metadata_csum (fs_super fs) then 1
      else let has_hi = inode_has_hi fs inode;
               provided = ucast (get16 inode 124) :: u32;
               (inode, calculated) = ext2fs_inode_csum fs inum inode has_hi;
               (provided, calculated) =
                 (if has_hi then (provided OR push_bit 16 (ucast (get16 inode 130)), calculated)
                  else (provided, calculated AND 0xFFFF))
           in if provided = calculated then 1
              else if \<forall>b \<in> set (take 128 inode). b = 0 then 1 else 0)"

definition ext2fs_inode_csum_set :: "'a fs_base_scheme \<Rightarrow> u32 \<Rightarrow> u8 list \<Rightarrow> u8 list \<times> errcode" where
  "ext2fs_inode_csum_set fs inum inode =
     (if \<not> ext2fs_has_feature_metadata_csum (fs_super fs) then (inode, 0)
      else let has_hi = inode_has_hi fs inode;
               (inode, crc) = ext2fs_inode_csum fs inum inode has_hi;
               inode = put16 inode 124 (ucast (crc AND 0xFFFF));
               inode = (if has_hi then put16 inode 130 (ucast (drop_bit 16 crc)) else inode)
           in (inode, 0))"

definition group_desc_bytes :: "ext4_group_desc \<Rightarrow> u8 list" where
  "group_desc_bytes d =
     bytes32 (bg_block_bitmap d) @ bytes32 (bg_inode_bitmap d) @ bytes32 (bg_inode_table d) @
     bytes16 (bg_free_blocks_count d) @ bytes16 (bg_free_inodes_count d) @ bytes16 (bg_used_dirs_count d) @
     bytes16 (bg_flags d) @ bytes32 (bg_exclude_bitmap_lo d) @ bytes16 (bg_block_bitmap_csum_lo d) @
     bytes16 (bg_inode_bitmap_csum_lo d) @ bytes16 (bg_itable_unused d) @ bytes16 (bg_checksum d) @
     bytes32 (bg_block_bitmap_hi d) @ bytes32 (bg_inode_bitmap_hi d) @ bytes32 (bg_inode_table_hi d) @
     bytes16 (bg_free_blocks_count_hi d) @ bytes16 (bg_free_inodes_count_hi d) @
     bytes16 (bg_used_dirs_count_hi d) @ bytes16 (bg_itable_unused_hi d) @ bytes32 (bg_exclude_bitmap_hi d) @
     bytes16 (bg_block_bitmap_csum_hi d) @ bytes16 (bg_inode_bitmap_csum_hi d) @ bytes32 (bg_reserved d)"

text \<open>\<open>ext2fs_crc16\<close> takes and returns an \<open>unsigned int\<close>; the caller keeps 16 bits.\<close>

definition crc16_bytes :: "u32 \<Rightarrow> u8 list \<Rightarrow> u16" where
  "crc16_bytes crc buf = ucast (ext2fs_crc16 crc buf (of_nat (length buf)))"

definition ext2fs_group_desc_csum :: "'a fs_base_scheme \<Rightarrow> u32 \<Rightarrow> u16" where
  "ext2fs_group_desc_csum fs g =
     (let desc = ext4fs_group_desc fs g;
          n = unat (EXT2_DESC_SIZE (fs_super fs))
      in if ext2fs_has_feature_metadata_csum (fs_super fs)
         then let desc = desc\<lparr>bg_checksum := 0\<rparr>;
                  crc32 = crc32c (fs_csum_seed fs) (bytes32 g) 0 4;
                  crc32 = crc32c crc32 (group_desc_bytes desc) 0 n
              in ucast (crc32 AND 0xFFFF)
         else let offset = 30;
                  crc = crc16_bytes (-1) (take 16 (s_uuid (fs_super fs)));
                  crc = crc16_bytes (ucast crc) (bytes32 g);
                  crc = crc16_bytes (ucast crc) (take offset (group_desc_bytes desc));
                  offset = offset + 2
              in if offset < n then crc16_bytes (ucast crc) (take (n - offset) (drop offset (group_desc_bytes desc)))
                 else crc)"

definition ext2fs_has_group_desc_csum :: "'a fs_base_scheme \<Rightarrow> bool" where
  "ext2fs_has_group_desc_csum fs \<longleftrightarrow>
     ext2fs_has_feature_metadata_csum (fs_super fs) \<or> ext2fs_has_feature_gdt_csum (fs_super fs)"

definition ext2fs_group_desc_csum_verify :: "'a fs_base_scheme \<Rightarrow> u32 \<Rightarrow> int" where
  "ext2fs_group_desc_csum_verify fs g =
     (if ext2fs_has_group_desc_csum fs \<and> ext2fs_bg_checksum fs g \<noteq> ext2fs_group_desc_csum fs g then 0 else 1)"

definition ext2fs_group_desc_csum_set :: "'a fs_base_scheme \<Rightarrow> u32 \<Rightarrow> 'a fs_base_scheme" where
  "ext2fs_group_desc_csum_set fs g =
     (if \<not> ext2fs_has_group_desc_csum fs then fs
      else ext2fs_bg_checksum_set fs g (ext2fs_group_desc_csum fs g))"

section \<open>A checksum that was set verifies\<close>

text \<open>A checksum depends on the bytes it covers only.\<close>

lemma crc32c_same_on:
  assumes "same_on off (off + n) b c" "length c = length b" "off + n \<le> length b"
  shows "crc32c crc c off n = crc32c crc b off n"
  unfolding crc32c_def using same_on_take_drop [OF assms(1), of off n] assms(2,3) by simp

lemma put16_twice [bytes]: "off + 1 < length b \<Longrightarrow> put16 (put16 b off x) off y = put16 b off y"
  by (rule nth_equalityI) (auto simp: nth_put16)

lemma put16_same [bytes]: "off + 1 < length b \<Longrightarrow> put16 b off (get16 b off) = b"
  by (rule nth_equalityI, simp, rule bit_word_eqI) (auto simp: nth_put16 get16_def bit_simps dest: bit_imp_le_length)

lemma put16_commute:
  "off + 1 < length b \<Longrightarrow> p + 1 < length b \<Longrightarrow> off + 1 < p \<or> p + 1 < off \<Longrightarrow>
   put16 (put16 b off x) p y = put16 (put16 b p y) off x"
  by (rule nth_equalityI) (auto simp: nth_put16)

lemma put32_twice [bytes]: "off + 3 < length b \<Longrightarrow> put32 (put32 b off x) off y = put32 b off y"
  by (rule nth_equalityI) (auto simp: nth_put32)

lemma put32_same [bytes]: "off + 3 < length b \<Longrightarrow> put32 b off (get32 b off) = b"
proof -
  assume l: "off + 3 < length b"
  have "ucast (get32 b off) = get16 b off" "ucast (drop_bit 16 (get32 b off)) = get16 b (off + 2)"
    by (rule bit_word_eqI; auto simp: get32_def bit_simps dest: bit_imp_le_length)+
  then show ?thesis using l by (simp add: put32_def put16_same)
qed

lemma mmp_csum_set_verify:
  assumes "1024 \<le> length mmp"
  shows "ext2fs_mmp_csum_verify fs (fst (ext2fs_mmp_csum_set fs mmp)) = 1"
proof -
  have "crc32c crc (put32 mmp 1020 x) 0 1020 = crc32c crc mmp 0 1020" for crc x
    using assms by (intro crc32c_same_on same_on_put32) auto
  then show ?thesis using assms
    by (simp add: ext2fs_mmp_csum_verify_def ext2fs_mmp_csum_set_def ext2fs_mmp_csum_def get32_put32)
qed

lemma superblock_csum_set_verify:
  assumes "1024 \<le> length sb"
  shows "ext2fs_superblock_csum_verify fs (fst (ext2fs_superblock_csum_set fs sb)) = 1"
proof -
  have "crc32c crc (put32 sb 1020 x) 0 1020 = crc32c crc sb 0 1020" for crc x
    using assms by (intro crc32c_same_on same_on_put32) auto
  then show ?thesis using assms
    by (simp add: ext2fs_superblock_csum_verify_def ext2fs_superblock_csum_set_def ext2fs_superblock_csum_def get32_put32)
qed

lemma ext_attr_block_csum_set_verify:
  assumes "20 \<le> length hdr"
  shows "ext2fs_ext_attr_block_csum_verify fs block (fst (ext2fs_ext_attr_block_csum_set fs block hdr)) = 1"
  using assms
  by (simp add: ext2fs_ext_attr_block_csum_verify_def ext2fs_ext_attr_block_csum_set_def
      ext2fs_ext_attr_block_csum_def Let_def bytes)

lemma dirent_tail_walk_step:
  "d < t \<Longrightarrow> dirent_tail_walk tr b t d =
    (let l = unat (tr (de_rec_len b d)) in
     if l < 8 \<or> l mod 4 \<noteq> 0 then Inl EXT2_ET_DIR_CORRUPTED else dirent_tail_walk tr b t (d + l))"
  "\<not> d < t \<Longrightarrow> dirent_tail_walk tr b t d = Inr d"
  by (subst dirent_tail_walk.simps, simp)+

lemma dirent_tail_walk_ge: "dirent_tail_walk tr b t d = Inr e \<Longrightarrow> t \<le> e"
proof (induction tr b t d rule: dirent_tail_walk.induct)
  case (1 tr b t d)
  show ?case
  proof (cases "d < t")
    case True
    then show ?thesis using 1 by (auto simp: dirent_tail_walk_step(1) Let_def split: if_splits)
  qed (use 1 in \<open>simp add: dirent_tail_walk_step(2)\<close>)
qed

lemma dirent_tail_walk_cong:
  "same_on 0 (t + 8) b c \<Longrightarrow> dirent_tail_walk tr c t d = dirent_tail_walk tr b t d"
proof (induction tr b t d rule: dirent_tail_walk.induct)
  case (1 tr b t d)
  show ?case
  proof (cases "d < t")
    case True
    then have "de_rec_len c d = de_rec_len b d"
      unfolding de_rec_len_def by (intro same_on_get16 [OF "1.prems"]) auto
    then show ?thesis using 1 True by (simp add: dirent_tail_walk_step(1) Let_def)
  qed (simp add: dirent_tail_walk_step(2))
qed

text \<open>On a little-endian machine \<open>need_swab\<close> makes no difference.\<close>

lemma translate_id: "(if sw then disk_to_host16 else do_nothing16) = (\<lambda>x. x)"
  by (auto simp: disk_to_host16_def do_nothing16_def)

lemma get_dirent_tail_cong:
  assumes "same_on 0 (unat (fs_blocksize fs) - 4) b c"
  shows "get_dirent_tail fs c sw = get_dirent_tail fs b sw"
proof (cases "unat (fs_blocksize fs) < 1024")
  case True
  then show ?thesis by (simp add: get_dirent_tail_def Let_def)
next
  case False
  define tl where "tl = unat (fs_blocksize fs) - 12"
  have s: "same_on 0 (tl + 8) b c" using assms False by (simp add: tl_def)
  have r: "get32 c tl = get32 b tl" "get16 c (tl + 4) = get16 b (tl + 4)" "get16 c (tl + 6) = get16 b (tl + 6)"
    by (auto intro!: same_on_get32 [OF s] same_on_get16 [OF s])
  show ?thesis
    unfolding get_dirent_tail_def Let_def translate_id tl_def [symmetric] dirent_tail_walk_cong [OF s]
    by (cases "dirent_tail_walk (\<lambda>x. x) b tl 0") (auto simp: r)
qed

lemma get_dirent_tail_Inr:
  "get_dirent_tail fs b sw = Inr t \<Longrightarrow> t + 12 = unat (fs_blocksize fs) \<and> 1024 \<le> unat (fs_blocksize fs)"
  unfolding get_dirent_tail_def Let_def translate_id by (auto split: if_splits sum.splits)

lemma dirent_csum_set_verify:
  assumes "ext2fs_dirent_csum_set rdi fs inum b = (c, 0)" "length b = unat (fs_blocksize fs)" "rdi inum \<noteq> Inl 0"
    and "\<not> isl (get_dirent_tail fs b True)"
  shows "ext2fs_dirent_csum_verify rdi fs inum c = 1 \<and> get_dirent_tail fs c True = get_dirent_tail fs b True"
proof -
  obtain t where t: "get_dirent_tail fs b True = Inr t" using assms(4) by (cases "get_dirent_tail fs b True") auto
  note b = get_dirent_tail_Inr [OF t]
  obtain inode where i: "rdi inum = Inr inode"
    using assms(1,3) t by (cases "rdi inum") (auto simp: ext2fs_dirent_csum_set_def ext2fs_dirent_csum_def)
  define crc where "crc = crc32c (crc32c_inode fs inum (i_generation inode)) b 0 t"
  have c: "c = put32 b (t + 8) crc"
    using assms(1) t i by (simp add: ext2fs_dirent_csum_set_def ext2fs_dirent_csum_def crc_def)
  have s: "same_on 0 (unat (fs_blocksize fs) - 4) b c" unfolding c using b assms(2) by (intro same_on_put32) auto
  have t': "get_dirent_tail fs c True = Inr t" using get_dirent_tail_cong [OF s] t by simp
  have "crc32c x c 0 t = crc32c x b 0 t" for x
    using b assms(2) by (intro crc32c_same_on same_on_mono [OF s]) (auto simp: c)
  moreover have "get32 c (t + 8) = crc" unfolding c using b assms(2) by (intro get32_put32) simp
  ultimately show ?thesis using t t' i
    by (simp add: ext2fs_dirent_csum_verify_def ext2fs_dirent_csum_def crc_def)
qed

text \<open>Of an index block, provided that the entries in use do not reach into the tail.\<close>

lemma get_dx_countlimit_Inr: "get_dx_countlimit fs b sw = Inr k \<Longrightarrow> k = 8 \<or> k = 32"
  unfolding get_dx_countlimit_def Let_def translate_id by (auto split: if_splits)

text \<open>The test of the counters, as the function \<open>check\<close> of the code.\<close>

lemma get_dx_countlimit_cong:
  assumes "get_dx_countlimit fs b sw = Inr k" "same_on 0 (k + 4) b c"
  shows "get_dx_countlimit fs c sw = Inr k"
proof -
  have r: "i + 1 < k + 4 \<Longrightarrow> get16 c i = get16 b i" for i by (rule same_on_get16 [OF assms(2)]) auto
  have k: "k = 8 \<or> k = 32" by (rule get_dx_countlimit_Inr [OF assms(1)])
  then have r': "get16 c 4 = get16 b 4" "get16 c 6 = get16 b 6" "get16 c k = get16 b k" "get16 c (k + 2) = get16 b (k + 2)"
    by (auto intro!: r)
  have r32: "get16 c 16 = get16 b 16 \<and> get32 c 24 = get32 b 24 \<and> c ! 29 = b ! 29" if "k = 32"
    using that by (auto intro!: r same_on_get32 [OF assms(2)] same_on_nth [OF assms(2)])
  show ?thesis
  proof (cases "unat (get16 b 4) = unat (fs_blocksize fs) \<and> get16 b 6 = 0")
    case True
    then have "k = 8"
      using assms(1) unfolding get_dx_countlimit_def Let_def translate_id de_rec_len_def de_name_len_def
      by (simp split: if_split_asm)
    then show ?thesis using assms(1) True r'
      unfolding get_dx_countlimit_def Let_def translate_id de_rec_len_def de_name_len_def by simp
  next
    case False
    then have "k = 32"
      using assms(1) unfolding get_dx_countlimit_def Let_def translate_id de_rec_len_def de_name_len_def
      by (simp split: if_split_asm)
    then show ?thesis using assms(1) False r' r32
      unfolding get_dx_countlimit_def Let_def translate_id de_rec_len_def de_name_len_def
      by (simp split: if_split_asm)
  qed
qed

lemma dx_csum_eq:
  "get_dx_countlimit fs b True = Inr k \<Longrightarrow> rdi inum = Inr inode \<Longrightarrow>
   k + unat (get16 b k) * 8 + 8 \<le> unat (fs_blocksize fs) \<Longrightarrow>
   ext2fs_dx_csum rdi fs inum b =
     Inr (crc32c (crc32c (crc32c (crc32c_inode fs inum (i_generation inode)) b 0
       (k + unat (get16 b (k + 2)) * 8)) b (k + unat (get16 b k) * 8) 4) (bytes32 0) 0 4, k + unat (get16 b k) * 8)"
  "get_dx_countlimit fs b True = Inr k \<Longrightarrow> rdi inum = Inl e \<Longrightarrow>
   k + unat (get16 b k) * 8 + 8 \<le> unat (fs_blocksize fs) \<Longrightarrow> ext2fs_dx_csum rdi fs inum b = Inl e"
  "get_dx_countlimit fs b True = Inr k \<Longrightarrow> unat (fs_blocksize fs) < k + unat (get16 b k) * 8 + 8 \<Longrightarrow>
   ext2fs_dx_csum rdi fs inum b = Inl EXT2_ET_DIR_NO_SPACE_FOR_CSUM"
  by (simp_all add: ext2fs_dx_csum_def Let_def)

lemma dx_csum_set_verify:
  assumes "ext2fs_dx_csum_set rdi fs inum b = (c, 0)" "length b = unat (fs_blocksize fs)" "rdi inum \<noteq> Inl 0"
    and k: "get_dx_countlimit fs b True = Inr k" and le: "get16 b (k + 2) \<le> get16 b k"
  shows "ext2fs_dx_csum_verify rdi fs inum c = 1 \<and> get_dx_countlimit fs c True = Inr k"
proof -
  define t where "t = k + unat (get16 b k) * 8"
  have fit: "t + 8 \<le> unat (fs_blocksize fs)"
  proof (rule ccontr)
    assume "\<not> t + 8 \<le> unat (fs_blocksize fs)"
    then have "ext2fs_dx_csum rdi fs inum b = Inl EXT2_ET_DIR_NO_SPACE_FOR_CSUM"
      unfolding t_def by (intro dx_csum_eq(3) [OF k]) simp
    then show False using assms(1) by (simp add: ext2fs_dx_csum_set_def)
  qed
  obtain inode where i: "rdi inum = Inr inode"
  proof (cases "rdi inum")
    case (Inl e)
    have "ext2fs_dx_csum rdi fs inum b = Inl e"
      using fit unfolding t_def by (intro dx_csum_eq(2) [OF k] Inl)
    then show ?thesis using assms(1,3) Inl by (simp add: ext2fs_dx_csum_set_def)
  qed (rule that)
  define crc where "crc = crc32c (crc32c (crc32c (crc32c_inode fs inum (i_generation inode)) b 0
      (k + unat (get16 b (k + 2)) * 8)) b t 4) (bytes32 0) 0 4"
  have c: "c = put32 b (t + 4) crc"
    using assms(1) dx_csum_eq(1) [where rdi = rdi and fs = fs and inum = inum, OF k i fit [unfolded t_def]]
    unfolding t_def [symmetric] crc_def [symmetric] by (simp add: ext2fs_dx_csum_set_def)
  have s: "same_on 0 (t + 4) b c" unfolding c using fit assms(2) by (intro same_on_put32) auto
  have kt: "k \<le> t" "k + unat (get16 b (k + 2)) * 8 \<le> t" using le by (simp_all add: t_def word_le_nat_alt)
  have k': "get_dx_countlimit fs c True = Inr k"
    using kt by (intro get_dx_countlimit_cong [OF k] same_on_mono [OF s]) auto
  have r: "get16 c k = get16 b k" "get16 c (Suc (Suc k)) = get16 b (Suc (Suc k))"
    using kt by (auto intro!: same_on_get16 [OF s])
  have "crc32c x c 0 (k + unat (get16 b (k + 2)) * 8) = crc32c x b 0 (k + unat (get16 b (k + 2)) * 8)"
    "crc32c x c t 4 = crc32c x b t 4" for x
    using kt fit assms(2) by (auto intro!: crc32c_same_on same_on_mono [OF s] simp: c)
  then have "ext2fs_dx_csum rdi fs inum c = Inr (crc, t)"
    using dx_csum_eq(1) [where rdi = rdi and fs = fs and inum = inum, OF k' i] fit r unfolding t_def crc_def by simp
  moreover have "get32 c (t + 4) = crc" unfolding c using fit assms(2) by (intro get32_put32) simp
  ultimately show ?thesis using k' by (simp add: ext2fs_dx_csum_verify_def)
qed

text \<open>Of any directory block.\<close>

lemma dir_block_csum_set_verify:
  assumes "ext2fs_dir_block_csum_set rdi fs inum b = (c, 0)" "length b = unat (fs_blocksize fs)" "rdi inum \<noteq> Inl 0"
    and "fs_flags fs AND EXT2_FLAG_IGNORE_CSUM_ERRORS = 0"
    and "\<And>k. get_dx_countlimit fs b True = Inr k \<Longrightarrow> get16 b (k + 2) \<le> get16 b k"
    and "\<And>k. get_dx_countlimit fs b True = Inr k \<Longrightarrow> isl (get_dirent_tail fs b True) \<Longrightarrow> isl (get_dirent_tail fs c True)"
  shows "ext2fs_dir_block_csum_verify rdi fs inum c = 1"
proof (cases "\<not> ext2fs_has_feature_metadata_csum (fs_super fs)")
  case True
  then show ?thesis by (simp add: ext2fs_dir_block_csum_verify_def)
next
  case False
  show ?thesis
  proof (cases "isl (get_dirent_tail fs b True)")
    case dx: True
    show ?thesis
    proof (cases "get_dx_countlimit fs b True")
      case (Inl e)
      then show ?thesis using assms(1,4) False dx by (simp add: ext2fs_dir_block_csum_set_def)
    next
      case (Inr k)
      then have "ext2fs_dx_csum_set rdi fs inum b = (c, 0)"
        using assms(1) False dx by (simp add: ext2fs_dir_block_csum_set_def)
      from dx_csum_set_verify [OF this assms(2,3) Inr assms(5) [OF Inr]] assms(6) [OF Inr dx] False
      show ?thesis by (simp add: ext2fs_dir_block_csum_verify_def)
    qed
  next
    case tail: False
    then have "ext2fs_dirent_csum_set rdi fs inum b = (c, 0)"
      using assms(1) False by (simp add: ext2fs_dir_block_csum_set_def)
    from dirent_csum_set_verify [OF this assms(2,3) tail] tail False
    show ?thesis by (simp add: ext2fs_dir_block_csum_verify_def)
  qed
qed

text \<open>Of extent blocks, bitmaps, inodes and group descriptors.\<close>

lemma extent_block_csum_set_verify:
  assumes "ext2fs_extent_block_csum_set rdi fs inum eh = (eh', 0)" "get_extent_tail eh + 4 \<le> length eh" "rdi inum \<noteq> Inl 0"
  shows "ext2fs_extent_block_csum_verify rdi fs inum eh' = 1"
proof (cases "\<not> ext2fs_has_feature_metadata_csum (fs_super fs)")
  case True
  then show ?thesis by (simp add: ext2fs_extent_block_csum_verify_def)
next
  case False
  obtain inode where i: "rdi inum = Inr inode"
    using assms(1,3) False by (cases "rdi inum") (auto simp: ext2fs_extent_block_csum_set_def ext2fs_extent_block_csum_def)
  define t where "t = get_extent_tail eh"
  define crc where "crc = crc32c (crc32c_inode fs inum (i_generation inode)) eh 0 t"
  have e: "eh' = put32 eh t crc"
    using assms(1) False i by (simp add: ext2fs_extent_block_csum_set_def ext2fs_extent_block_csum_def t_def crc_def)
  have l: "t + 4 \<le> length eh" "12 \<le> t" using assms(2) by (simp_all add: t_def get_extent_tail_def)
  have s: "same_on 0 t eh eh'" unfolding e using l by (intro same_on_put32) auto
  have "get16 eh' 4 = get16 eh 4" using l by (intro same_on_get16 [OF s]) auto
  then have t': "get_extent_tail eh' = t" by (simp add: get_extent_tail_def t_def)
  have "crc32c x eh' 0 t = crc32c x eh 0 t" for x using l by (intro crc32c_same_on [OF same_on_mono [OF s]]) (auto simp: e)
  moreover have "get32 eh' t = crc" unfolding e using l by (intro get32_put32) simp
  ultimately show ?thesis using False i
    by (simp add: ext2fs_extent_block_csum_verify_def ext2fs_extent_block_csum_def t' crc_def)
qed

lemma low_high_16: "ucast (ucast (crc AND 0xFFFF) :: u16) OR push_bit 16 (ucast (ucast (drop_bit 16 crc) :: u16)) = (crc :: u32)"
  "ucast (ucast (crc AND 0xFFFF) :: u16) = (crc AND 0xFFFF :: u32)"
proof -
  have m: "(0xFFFF :: u32) = mask 16" by (simp add: mask_eq_exp_minus_1)
  show "ucast (ucast (crc AND 0xFFFF) :: u16) OR push_bit 16 (ucast (ucast (drop_bit 16 crc) :: u16)) = (crc :: u32)"
    "ucast (ucast (crc AND 0xFFFF) :: u16) = (crc AND 0xFFFF :: u32)"
    unfolding m by (rule bit_word_eqI; auto simp: bit_simps)+
qed

lemmas low_high_16_join = low_high_16(1) [unfolded low_high_16(2)]

lemma gdp_store_seed [simp]: "fs_csum_seed (gdp_store fs g d) = fs_csum_seed fs"
  by (simp add: gdp_store_def)

lemma group_desc_bytes_checksum [simp]:
  "take 30 (group_desc_bytes (d\<lparr>bg_checksum := x\<rparr>)) = take 30 (group_desc_bytes d)"
  "drop 32 (group_desc_bytes (d\<lparr>bg_checksum := x\<rparr>)) = drop 32 (group_desc_bytes d)"
  by (simp_all add: group_desc_bytes_def bytes16_def bytes32_def)

lemma inode_bitmap_csum_set_verify:
  assumes "group_in fs g"
  shows "ext2fs_inode_bitmap_csum_verify (fst (ext2fs_inode_bitmap_csum_set fs g bm n)) g bm n = 1"
  using assms by (simp add: ext2fs_inode_bitmap_csum_verify_def ext2fs_inode_bitmap_csum_set_def Let_def
      gdp_store_get low_high_16 low_high_16_join)

lemma block_bitmap_csum_set_verify:
  assumes "group_in fs g"
  shows "ext2fs_block_bitmap_csum_verify (fst (ext2fs_block_bitmap_csum_set fs g bm n)) g bm n = 1"
  using assms by (simp add: ext2fs_block_bitmap_csum_verify_def ext2fs_block_bitmap_csum_set_def Let_def
      gdp_store_get low_high_16 low_high_16_join)

lemma group_desc_csum_set_verify:
  assumes "group_in fs g"
  shows "ext2fs_group_desc_csum_verify (ext2fs_group_desc_csum_set fs g) g = 1"
  using assms
  by (simp add: ext2fs_group_desc_csum_verify_def ext2fs_group_desc_csum_set_def Let_def ext2fs_has_group_desc_csum_def
      ext2fs_bg_checksum_set_def ext2fs_bg_checksum_def gdp_store_get ext2fs_group_desc_csum_def)

text \<open>The two checksum fields of an inode are outside the fields that the checksum reads.\<close>

lemma inode_has_hi_put: "132 \<le> length b \<Longrightarrow> inode_has_hi fs (put16 b 124 x) = inode_has_hi fs b"
  "132 \<le> length b \<Longrightarrow> inode_has_hi fs (put16 b 130 x) = inode_has_hi fs b"
  by (simp_all add: inode_has_hi_def get16_put16_other)

lemma inode_csum_keeps:
  assumes "132 \<le> length b"
  shows "fst (ext2fs_inode_csum fs inum b hi) = b"
  using assms
  by (simp add: ext2fs_inode_csum_def Let_def put16_commute [of 130 _ 124] put16_twice put16_same get16_put16_other)

lemma inode_csum_ignores:
  assumes "132 \<le> length b"
  shows "snd (ext2fs_inode_csum fs inum (put16 b 124 x) hi) = snd (ext2fs_inode_csum fs inum b hi)"
    "hi \<Longrightarrow> snd (ext2fs_inode_csum fs inum (put16 b 130 x) hi) = snd (ext2fs_inode_csum fs inum b hi)"
  using assms
  by (simp_all add: ext2fs_inode_csum_def Let_def put16_twice put16_commute [of 130 _ 124])

lemma inode_csum_set_verify:
  assumes "132 \<le> length b"
  shows "ext2fs_inode_csum_verify fs inum (fst (ext2fs_inode_csum_set fs inum b)) = 1"
proof (cases "ext2fs_has_feature_metadata_csum (fs_super fs)")
  case False
  then show ?thesis by (simp add: ext2fs_inode_csum_verify_def)
next
  case True
  define hi where "hi = inode_has_hi fs b"
  define crc where "crc = snd (ext2fs_inode_csum fs inum b hi)"
  define c where "c = (if hi then put16 (put16 b 124 (ucast (crc AND 0xFFFF))) 130 (ucast (drop_bit 16 crc))
     else put16 b 124 (ucast (crc AND 0xFFFF)))"
  have p: "ext2fs_inode_csum fs inum b hi = (b, crc)"
    using inode_csum_keeps [OF assms, of fs inum hi] by (simp add: crc_def prod_eq_iff)
  have c: "fst (ext2fs_inode_csum_set fs inum b) = c"
    using True p by (simp add: ext2fs_inode_csum_set_def Let_def hi_def [symmetric] c_def)
  have l: "132 \<le> length c" using assms by (simp add: c_def)
  have h: "inode_has_hi fs c = hi" using assms by (simp add: c_def hi_def inode_has_hi_put)
  have "snd (ext2fs_inode_csum fs inum c hi) = crc"
    using assms by (simp add: c_def crc_def inode_csum_ignores)
  then have q: "ext2fs_inode_csum fs inum c hi = (c, crc)"
    using inode_csum_keeps [OF l, of fs inum hi] by (simp add: prod_eq_iff)
  have "get16 c 124 = ucast (crc AND 0xFFFF)" "hi \<Longrightarrow> get16 c 130 = ucast (drop_bit 16 crc)"
    using assms by (simp_all add: c_def get16_put16 get16_put16_other)
  then show ?thesis unfolding c ext2fs_inode_csum_verify_def Let_def h q
    using True by (simp add: low_high_16 low_high_16_join)
qed

end
