(* ===== verification/Csum_Theorems.thy ===== *)
theory Csum_Theorems
  imports Csum Fs_Examples
begin

text \<open>The theorem about the checksums of directory blocks.\<close>

text \<open>
  C35. A checksum that \<open>ext2fs_dirent_csum_set\<close> stores in a directory block is accepted by
  \<open>ext2fs_dirent_csum_verify\<close>; only its four bytes in the tail change, and a verification still fails
  when they are altered.
\<close>

theorem dirent_csum_roundtrip:
  assumes "get_dirent_tail fs b True = Inr t" "length b = unat (fs_blocksize fs)" "rdi inum = Inr inode"
    and "ext2fs_dirent_csum_set rdi fs inum b = (c, err)"
  shows "err = 0 \<and> take (t + 8) c = take (t + 8) b \<and> ext2fs_dirent_csum_verify rdi fs inum c = 1
    \<and> (x \<noteq> get32 c (t + 8) \<longrightarrow> ext2fs_dirent_csum_verify rdi fs inum (put32 c (t + 8) x) = 0)"
proof -
  note tb = get_dirent_tail_Inr [OF assms(1)]
  define crc where "crc y = crc32c (crc32c_inode fs inum (i_generation inode)) y 0 t" for y
  have c: "c = put32 b (t + 8) (crc b)" "err = 0"
    using assms(1,3,4) by (simp_all add: ext2fs_dirent_csum_set_def ext2fs_dirent_csum_def crc_def)
  have len: "length c = t + 12" using c tb assms(2) by simp
  have tl: "take (t + 8) (put32 y (t + 8) z) = take (t + 8) y" if "length y = t + 12" for y z
    using that by (intro nth_equalityI) (auto simp: nth_put32_other)
  have ver: "ext2fs_dirent_csum_verify rdi fs inum y = (if get32 y (t + 8) = crc y then 1 else 0)"
    if "get_dirent_tail fs y True = Inr t" for y
    using that assms(3) by (simp add: ext2fs_dirent_csum_verify_def ext2fs_dirent_csum_def crc_def)
  have same: "same_on 0 (unat (fs_blocksize fs) - 4) y (put32 y (t + 8) z)" if "length y = t + 12" for y z
    using that tb by (intro same_on_put32) auto
  have keep: "get_dirent_tail fs (put32 y (t + 8) z) True = get_dirent_tail fs y True" if "length y = t + 12" for y z
    by (rule get_dirent_tail_cong [OF same [OF that]])
  have crc: "crc (put32 y (t + 8) z) = crc y" if "length y = t + 12" for y z
    unfolding crc_def using tb that by (intro crc32c_same_on same_on_mono [OF same [OF that]]) auto
  have lb: "length b = t + 12" using assms(2) tb by simp
  have gc: "get_dirent_tail fs c True = Inr t" using keep [OF lb] assms(1) c by simp
  have g: "get32 c (t + 8) = crc b" using c lb by (simp add: get32_put32)
  have "ext2fs_dirent_csum_verify rdi fs inum (put32 c (t + 8) x) = 0" if "x \<noteq> get32 c (t + 8)"
    using ver keep [OF len] gc crc [OF len] crc [OF lb] g that len c by (simp add: get32_put32)
  then show ?thesis using c tl [OF lb] ver [OF gc] g crc [OF lb] by simp
qed

text \<open>A block with one unused entry of 1012 bytes and the tail.\<close>

definition ex_dirblock :: "u8 list" where
  "ex_dirblock = [0, 0, 0, 0, 0xF4, 3, 0, 0] @ replicate 1004 0 @ [0, 0, 0, 0, 12, 0, 0, 0xDE, 0, 0, 0, 0]"

lemma ex_dirblock: "get_dirent_tail ex_fs ex_dirblock True = Inr 1012" "length ex_dirblock = unat (fs_blocksize ex_fs)"
proof -
  have r: "de_rec_len ex_dirblock 0 = 1012" by (simp add: de_rec_len_def get16_def ex_dirblock_def)
  have w: "dirent_tail_walk (\<lambda>x. x) ex_dirblock 1012 0 = Inr 1012"
    by (simp add: dirent_tail_walk_step r)
  show "get_dirent_tail ex_fs ex_dirblock True = Inr 1012"
    by (simp add: get_dirent_tail_def translate_id Let_def w ex_fs_simps) (simp add: get32_def get16_def ex_dirblock_def nth_append)
  show "length ex_dirblock = unat (fs_blocksize ex_fs)" by (simp add: ex_dirblock_def ex_fs_simps)
qed

theorem dirent_csum_roundtrip_witness:
  "\<exists>c. ext2fs_dirent_csum_set (\<lambda>_. Inr zero_inode) ex_fs 12 ex_dirblock = (c, 0)
    \<and> ext2fs_dirent_csum_verify (\<lambda>_. Inr zero_inode) ex_fs 12 c = 1"
proof -
  obtain c err where "ext2fs_dirent_csum_set (\<lambda>_. Inr zero_inode) ex_fs 12 ex_dirblock = (c, err)" by (metis surj_pair)
  with dirent_csum_roundtrip [OF ex_dirblock(1,2) _ this, of zero_inode] show ?thesis by simp
qed

end
