(* ===== verification/Xnu_io.thy ===== *)
theory Xnu_io
  imports E2fs_Prelude
begin

text \<open>
  \<^verbatim>\<open>libext2fs/xnu_io.c\<close>, the I/O manager: a cache of eight blocks in front of a vnode, and the dispatch of
  \<^verbatim>\<open>libext2fs/io_manager.c\<close>. \<open>struct struct_io_channel\<close> and its private data are one record;
  \<open>vpread\<close> and \<open>vpwrite\<close> (\<^verbatim>\<open>e2fsmac/vio.c\<close>) call the kernel and are an argument, \<open>vnode_ops\<close>, over the
  state \<open>'d\<close> of the device. A transfer of \<open>size\<close> bytes returns how many were transferred, negative for
  an error.

  No code of the repository sets the error handlers of a channel, its alignment or the flag that forces
  the bounce buffer: \<open>xnu_open\<close> clears them. The handlers are therefore left out, and the bounce paths,
  which are taken for other alignments only, are not modelled: the guards below are those of
  \<open>channel->align == 0\<close>. The statistics are left out. Offsets on the device are integers: the products
  of the code are 64 bits wide and agree with them for devices of less than \<open>2^63\<close> bytes; so is the
  clock of the cache, an \<open>int\<close> of the code.
\<close>

abbreviation (input) EXT2_ET_MAGIC_IO_CHANNEL :: errcode where "EXT2_ET_MAGIC_IO_CHANNEL \<equiv> 2133571333"
abbreviation (input) EXT2_ET_MAGIC_UNIX_IO_CHANNEL :: errcode where "EXT2_ET_MAGIC_UNIX_IO_CHANNEL \<equiv> 2133571334"
abbreviation (input) EXT2_ET_SHORT_READ :: errcode where "EXT2_ET_SHORT_READ \<equiv> 2133571364"
abbreviation (input) EXT2_ET_SHORT_WRITE :: errcode where "EXT2_ET_SHORT_WRITE \<equiv> 2133571365"
abbreviation (input) EXT2_ET_UNIMPLEMENTED :: errcode where "EXT2_ET_UNIMPLEMENTED \<equiv> 2133571408"
abbreviation (input) EXT2_ET_OP_NOT_SUPPORTED :: errcode where "EXT2_ET_OP_NOT_SUPPORTED \<equiv> 2133571457"
abbreviation (input) EIO :: errcode where "EIO \<equiv> 5"

abbreviation (input) IO_FLAG_NOCACHE :: u32 where "IO_FLAG_NOCACHE \<equiv> 0x20"
abbreviation (input) CHANNEL_FLAGS_WRITETHROUGH :: u32 where "CHANNEL_FLAGS_WRITETHROUGH \<equiv> 1"
abbreviation (input) CACHE_SIZE :: nat where "CACHE_SIZE \<equiv> 8"
abbreviation (input) WRITE_DIRECT_SIZE :: int where "WRITE_DIRECT_SIZE \<equiv> 4"

section \<open>The state\<close>

record xnu_cache =
  xc_buf :: "u8 list"
  xc_block :: u64
  xc_access_time :: int
  xc_dirty :: bool
  xc_in_use :: bool
  xc_write_err :: bool

record 'd io_channel =
  io_magic :: errcode
  io_block_size :: nat
  io_refcount :: int
  io_flags :: u32
  xd_magic :: errcode
  xd_flags :: u32
  xd_access_time :: int
  xd_offset :: int
  xd_cache :: "xnu_cache list"
  xd_vp :: 'd

record 'd vnode_ops =
  vpread :: "'d \<Rightarrow> nat \<Rightarrow> int \<Rightarrow> 'd \<times> int \<times> u8 list"
  vpwrite :: "'d \<Rightarrow> u8 list \<Rightarrow> int \<Rightarrow> 'd \<times> int"

section \<open>Reading and writing the vnode\<close>

text \<open>
  A direct read is tried twice; what was not read is filled with zeros. The result is the buffer and
  the error code.
\<close>

definition xfer_size :: "'d io_channel \<Rightarrow> int \<Rightarrow> nat" where
  "xfer_size ch n = (if n < 0 then nat (- n) else nat n * io_block_size ch)"

definition xfer_location :: "'d io_channel \<Rightarrow> u64 \<Rightarrow> int" where
  "xfer_location ch block = uint block * int (io_block_size ch) + xd_offset ch"

definition raw_read_blk :: "'d vnode_ops \<Rightarrow> 'd io_channel \<Rightarrow> u64 \<Rightarrow> int \<Rightarrow> 'd io_channel \<times> u8 list \<times> errcode" where
  "raw_read_blk ops ch block n =
     (let size = xfer_size ch n;
          location = xfer_location ch block;
          (vp, actual, buf) = vpread ops (xd_vp ch) size location
      in if actual = int size then (ch\<lparr>xd_vp := vp\<rparr>, take size buf, 0)
         else let (vp, actual, buf) = vpread ops vp size location;
                  ch = ch\<lparr>xd_vp := vp\<rparr>
              in if actual = int size then (ch, take size buf, 0)
                 else let (retval, actual) = (if actual < 0 then (EIO, 0) else (EXT2_ET_SHORT_READ, actual))
                      in (ch, take (nat actual) buf @ replicate (size - nat actual) 0, retval))"

definition raw_write_blk :: "'d vnode_ops \<Rightarrow> 'd io_channel \<Rightarrow> u64 \<Rightarrow> int \<Rightarrow> u8 list \<Rightarrow> 'd io_channel \<times> errcode" where
  "raw_write_blk ops ch block n buf =
     (let size = xfer_size ch n;
          location = xfer_location ch block;
          (vp, actual) = vpwrite ops (xd_vp ch) (take size buf) location
      in if actual = int size then (ch\<lparr>xd_vp := vp\<rparr>, 0)
         else let (vp, actual) = vpwrite ops vp (take size buf) location;
                  ch = ch\<lparr>xd_vp := vp\<rparr>
              in if actual < 0 then (ch, EIO)
                 else if actual \<noteq> int size then (ch, EXT2_ET_SHORT_WRITE)
                 else (ch, 0))"

section \<open>The cache\<close>

definition xc_upd :: "'d io_channel \<Rightarrow> nat \<Rightarrow> (xnu_cache \<Rightarrow> xnu_cache) \<Rightarrow> 'd io_channel" where
  "xc_upd ch i f = ch\<lparr>xd_cache := (xd_cache ch)[i := f (xd_cache ch ! i)]\<rparr>"

text \<open>
  \<open>find_cached_block\<close>: the search from entry \<open>i\<close> on, with the first unused entry and the entry least
  recently used so far. A hit is \<open>Inl\<close>; otherwise \<open>Inr\<close> gives the entry to reuse.
\<close>

function find_cached_loop :: "xnu_cache list \<Rightarrow> u64 \<Rightarrow> nat \<Rightarrow> nat option \<Rightarrow> nat option \<Rightarrow> nat + nat option" where
  "find_cached_loop cache block i unused oldest =
     (if i < length cache then
        if \<not> xc_in_use (cache ! i)
        then find_cached_loop cache block (i + 1) (if unused = None then Some i else unused) oldest
        else if xc_block (cache ! i) = block then Inl i
        else find_cached_loop cache block (i + 1) unused
               (if oldest = None \<or> xc_access_time (cache ! i) < xc_access_time (cache ! the oldest) then Some i else oldest)
      else Inr (if unused \<noteq> None then unused else oldest))"
  by pat_completeness auto
termination by (relation "measure (\<lambda>(cache, block, i, unused, oldest). length cache - i)") auto

declare find_cached_loop.simps [simp del]

definition find_cached_block :: "'d io_channel \<Rightarrow> u64 \<Rightarrow> 'd io_channel \<times> (nat + nat option)" where
  "find_cached_block ch block =
     (case find_cached_loop (xd_cache ch) block 0 None None of
        Inl i \<Rightarrow> (let ch = ch\<lparr>xd_access_time := xd_access_time ch + 1\<rparr>
                  in (xc_upd ch i (\<lambda>c. c\<lparr>xc_access_time := xd_access_time ch\<rparr>), Inl i))
      | Inr e \<Rightarrow> (ch, Inr e))"

definition reuse_cache :: "'d vnode_ops \<Rightarrow> 'd io_channel \<Rightarrow> nat \<Rightarrow> u64 \<Rightarrow> 'd io_channel \<times> errcode" where
  "reuse_cache ops ch i block =
     (let c = xd_cache ch ! i;
          (ch, retval) = (if xc_dirty c \<and> xc_in_use c then raw_write_blk ops ch (xc_block c) 1 (xc_buf c) else (ch, 0))
      in if retval \<noteq> 0 then (xc_upd ch i (\<lambda>c. c\<lparr>xc_write_err := True\<rparr>), retval)
         else let ch = ch\<lparr>xd_access_time := xd_access_time ch + 1\<rparr>
              in (xc_upd ch i (\<lambda>c. c\<lparr>xc_in_use := True, xc_dirty := False, xc_write_err := False,
                                    xc_block := block, xc_access_time := xd_access_time ch\<rparr>), 0))"

text \<open>
  \<open>flush_cached_blocks\<close>. Without a handler the second half only takes back the error marks.
\<close>

primrec flush_loop :: "'d vnode_ops \<Rightarrow> bool \<Rightarrow> nat \<Rightarrow> 'd io_channel \<Rightarrow> nat \<Rightarrow> errcode \<Rightarrow> bool \<Rightarrow> 'd io_channel \<times> errcode \<times> bool" where
  "flush_loop ops invalidate 0 ch i retval2 errors_found = (ch, retval2, errors_found)"
| "flush_loop ops invalidate (Suc n) ch i retval2 errors_found =
     (let c = xd_cache ch ! i
      in if \<not> xc_in_use c \<or> \<not> xc_dirty c then flush_loop ops invalidate n ch (i + 1) retval2 errors_found
         else let (ch, retval) = raw_write_blk ops ch (xc_block c) 1 (xc_buf c)
              in if retval \<noteq> 0
                 then flush_loop ops invalidate n (xc_upd ch i (\<lambda>c. c\<lparr>xc_write_err := True\<rparr>)) (i + 1) retval True
                 else flush_loop ops invalidate n
                        (xc_upd ch i (\<lambda>c. c\<lparr>xc_dirty := False, xc_write_err := False,
                                          xc_in_use := (if invalidate then False else xc_in_use c)\<rparr>))
                        (i + 1) retval2 errors_found)"

definition flush_cached_blocks :: "'d vnode_ops \<Rightarrow> 'd io_channel \<Rightarrow> bool \<Rightarrow> 'd io_channel \<times> errcode" where
  "flush_cached_blocks ops ch invalidate =
     (let (ch, retval2, errors_found) = flush_loop ops invalidate CACHE_SIZE ch 0 0 False
      in if errors_found
         then (ch\<lparr>xd_cache := map (\<lambda>c. if xc_in_use c \<and> xc_write_err c then c\<lparr>xc_write_err := False\<rparr> else c) (xd_cache ch)\<rparr>,
               retval2)
         else (ch, retval2))"

section \<open>The operations of the manager\<close>

text \<open>The number of uncached blocks from \<open>block\<close> on, at most \<open>n\<close>; each search counts as an access.\<close>

primrec uncached_run :: "'d io_channel \<Rightarrow> u64 \<Rightarrow> nat \<Rightarrow> nat \<Rightarrow> 'd io_channel \<times> nat" where
  "uncached_run ch block i 0 = (ch, i)"
| "uncached_run ch block i (Suc n) =
     (case find_cached_block ch (block + of_nat i) of
        (ch, Inl _) \<Rightarrow> (ch, i)
      | (ch, Inr _) \<Rightarrow> uncached_run ch block (i + 1) n)"

text \<open>The loop that saves \<open>n\<close> blocks read at \<open>block\<close>, whose bytes are \<open>cp\<close>, in the cache.\<close>

primrec save_in_cache :: "'d vnode_ops \<Rightarrow> nat \<Rightarrow> 'd io_channel \<Rightarrow> u64 \<Rightarrow> u8 list \<Rightarrow> 'd io_channel \<times> errcode" where
  "save_in_cache ops 0 ch block cp = (ch, 0)"
| "save_in_cache ops (Suc n) ch block cp =
     (case find_cached_block ch block of
        (ch, Inl _) \<Rightarrow> save_in_cache ops n ch (block + 1) (drop (io_block_size ch) cp)
      | (ch, Inr e) \<Rightarrow>
          (case reuse_cache ops ch (the e) block of
             (ch, retval) \<Rightarrow>
               if retval \<noteq> 0 then (ch, retval)
               else save_in_cache ops n (xc_upd ch (the e) (\<lambda>c. c\<lparr>xc_buf := take (io_block_size ch) cp\<rparr>))
                      (block + 1) (drop (io_block_size ch) cp)))"

lemma uncached_run_pos: "snd (uncached_run ch block i n) \<ge> i"
proof (induction n arbitrary: ch i)
  case (Suc n)
  show ?case
  proof (cases "find_cached_block ch (block + of_nat i)")
    case (Pair ch' r)
    then show ?thesis using Suc.IH [of "i + 1" ch'] by (cases r) auto
  qed
qed simp

text \<open>
  The loop of \<open>xnu_read_blk64\<close>; \<open>acc\<close> is what has been stored in the caller's buffer so far.
\<close>

function read_loop :: "'d vnode_ops \<Rightarrow> nat \<Rightarrow> 'd io_channel \<Rightarrow> u64 \<Rightarrow> u8 list \<Rightarrow> 'd io_channel \<times> u8 list \<times> errcode" where
  "read_loop ops n ch block acc =
     (if n = 0 then (ch, acc, 0)
      else case find_cached_block ch block of
             (ch, Inl i) \<Rightarrow> read_loop ops (n - 1) ch (block + 1) (acc @ take (io_block_size ch) (xc_buf (xd_cache ch ! i)))
           | (ch, Inr _) \<Rightarrow>
               (case uncached_run ch block 1 (n - 1) of
                  (ch, i) \<Rightarrow>
                    (case raw_read_blk ops ch block (int i) of
                       (ch, cp, retval) \<Rightarrow>
                         if retval \<noteq> 0 then (ch, acc @ cp, retval)
                         else (case save_in_cache ops i ch block cp of
                                 (ch, retval) \<Rightarrow>
                                   if retval \<noteq> 0 then (ch, acc @ cp, retval)
                                   else read_loop ops (n - i) ch (block + of_nat i) (acc @ cp)))))"
  by pat_completeness auto
termination
proof (relation "measure (\<lambda>(ops, n, ch, block, acc). n)", simp, simp, goal_cases)
  case (1 ops n ch block acc ch1 y b ch2 i)
  then have "1 \<le> i" using uncached_run_pos [where i = 1] by (metis snd_conv)
  then show ?case using 1(1) by simp
qed

declare read_loop.simps [simp del]

definition io_checks :: "'d io_channel \<Rightarrow> errcode" where
  "io_checks ch =
     (if io_magic ch \<noteq> EXT2_ET_MAGIC_IO_CHANNEL then EXT2_ET_MAGIC_IO_CHANNEL
      else if xd_magic ch \<noteq> EXT2_ET_MAGIC_UNIX_IO_CHANNEL then EXT2_ET_MAGIC_UNIX_IO_CHANNEL else 0)"

text \<open>A failed read gives what the code had stored in the buffer when it returned.\<close>

definition xnu_read_blk64 :: "'d vnode_ops \<Rightarrow> 'd io_channel \<Rightarrow> u64 \<Rightarrow> int \<Rightarrow> 'd io_channel \<times> u8 list \<times> errcode" where
  "xnu_read_blk64 ops ch block n =
     (if io_checks ch \<noteq> 0 then (ch, [], io_checks ch)
      else if xd_flags ch AND IO_FLAG_NOCACHE \<noteq> 0 then raw_read_blk ops ch block n
      else if n < 0 \<or> n > WRITE_DIRECT_SIZE then
        (case flush_cached_blocks ops ch False of
           (ch, retval) \<Rightarrow> if retval \<noteq> 0 then (ch, [], retval) else raw_read_blk ops ch block n)
      else read_loop ops (nat n) ch block [])"

definition xnu_read_blk :: "'d vnode_ops \<Rightarrow> 'd io_channel \<Rightarrow> u64 \<Rightarrow> int \<Rightarrow> 'd io_channel \<times> u8 list \<times> errcode" where
  "xnu_read_blk ops ch block n = xnu_read_blk64 ops ch block n"

text \<open>
  The loop of \<open>xnu_write_blk64\<close>. When an entry cannot be reused, the error is in \<open>err\<close>, and \<open>retval\<close>,
  the result of the write-through, is returned.
\<close>

primrec write_loop :: "'d vnode_ops \<Rightarrow> bool \<Rightarrow> nat \<Rightarrow> 'd io_channel \<Rightarrow> u64 \<Rightarrow> u8 list \<Rightarrow> errcode \<Rightarrow> 'd io_channel \<times> errcode" where
  "write_loop ops writethrough 0 ch block cp retval = (ch, retval)"
| "write_loop ops writethrough (Suc n) ch block cp retval =
     (let (ch, r) = find_cached_block ch block;
          (ch, i, err) = (case r of
                            Inl i \<Rightarrow> (ch, i, 0)
                          | Inr e \<Rightarrow> (case reuse_cache ops ch (the e) block of (ch, err) \<Rightarrow> (ch, the e, err)))
      in if err \<noteq> 0 then (ch, retval)
         else write_loop ops writethrough n
                (xc_upd ch i (\<lambda>c. c\<lparr>xc_buf := take (io_block_size ch) cp, xc_dirty := \<not> writethrough\<rparr>))
                (block + 1) (drop (io_block_size ch) cp) retval)"

definition xnu_write_blk64 :: "'d vnode_ops \<Rightarrow> 'd io_channel \<Rightarrow> u64 \<Rightarrow> int \<Rightarrow> u8 list \<Rightarrow> 'd io_channel \<times> errcode" where
  "xnu_write_blk64 ops ch block n buf =
     (if io_checks ch \<noteq> 0 then (ch, io_checks ch)
      else if xd_flags ch AND IO_FLAG_NOCACHE \<noteq> 0 then raw_write_blk ops ch block n buf
      else if n < 0 \<or> n > WRITE_DIRECT_SIZE then
        (case flush_cached_blocks ops ch True of
           (ch, retval) \<Rightarrow> if retval \<noteq> 0 then (ch, retval) else raw_write_blk ops ch block n buf)
      else let writethrough = io_flags ch AND CHANNEL_FLAGS_WRITETHROUGH \<noteq> 0;
               (ch, retval) = (if writethrough then raw_write_blk ops ch block n buf else (ch, 0))
           in write_loop ops writethrough (nat n) ch block buf retval)"

definition xnu_write_blk :: "'d vnode_ops \<Rightarrow> 'd io_channel \<Rightarrow> u64 \<Rightarrow> int \<Rightarrow> u8 list \<Rightarrow> 'd io_channel \<times> errcode" where
  "xnu_write_blk ops ch block n buf = xnu_write_blk64 ops ch block n buf"

definition xnu_cache_readahead :: "'d io_channel \<Rightarrow> u64 \<Rightarrow> u64 \<Rightarrow> errcode" where
  "xnu_cache_readahead ch block n = EXT2_ET_OP_NOT_SUPPORTED"

definition xnu_flush :: "'d vnode_ops \<Rightarrow> 'd io_channel \<Rightarrow> 'd io_channel \<times> errcode" where
  "xnu_flush ops ch = (if io_checks ch \<noteq> 0 then (ch, io_checks ch) else flush_cached_blocks ops ch False)"

definition xnu_write_byte :: "'d vnode_ops \<Rightarrow> 'd io_channel \<Rightarrow> int \<Rightarrow> u8 list \<Rightarrow> 'd io_channel \<times> errcode" where
  "xnu_write_byte ops ch offset buf =
     (if io_checks ch \<noteq> 0 then (ch, io_checks ch)
      else case flush_cached_blocks ops ch True of
             (ch, retval) \<Rightarrow>
               if retval \<noteq> 0 then (ch, retval)
               else let (vp, actual) = vpwrite ops (xd_vp ch) buf (offset + xd_offset ch);
                        ch = ch\<lparr>xd_vp := vp\<rparr>
                    in if actual < 0 then (ch, EIO)
                       else if actual \<noteq> int (length buf) then (ch, EXT2_ET_SHORT_WRITE)
                       else (ch, 0))"

text \<open>
  \<open>alloc_cache\<close> with the buffers that \<open>io_channel_alloc_buf\<close> gives, one for each entry (\<open>mem i\<close> is its
  unspecified content, or nothing when there is no memory): it stops at the first failure.
\<close>

definition empty_entry :: "u8 list \<Rightarrow> xnu_cache" where
  "empty_entry b = \<lparr>xc_buf = b, xc_block = 0, xc_access_time = 0, xc_dirty = False, xc_in_use = False, xc_write_err = False\<rparr>"

primrec alloc_loop :: "(nat \<Rightarrow> u8 list option) \<Rightarrow> nat \<Rightarrow> nat \<Rightarrow> xnu_cache list \<Rightarrow> xnu_cache list \<times> errcode" where
  "alloc_loop mem 0 i cache = (cache, 0)"
| "alloc_loop mem (Suc n) i cache =
     (case mem i of
        None \<Rightarrow> (cache[i := (empty_entry [])\<lparr>xc_write_err := xc_write_err (cache ! i)\<rparr>], EXT2_ET_NO_MEMORY)
      | Some b \<Rightarrow> alloc_loop mem n (i + 1)
                    (cache[i := (empty_entry b)\<lparr>xc_write_err := xc_write_err (cache ! i)\<rparr>]))"

definition alloc_cache :: "(nat \<Rightarrow> u8 list option) \<Rightarrow> 'd io_channel \<Rightarrow> 'd io_channel \<times> errcode" where
  "alloc_cache mem ch =
     (let (cache, retval) = alloc_loop mem CACHE_SIZE 0 (xd_cache ch)
      in (ch\<lparr>xd_access_time := 0, xd_cache := cache\<rparr>, retval))"

definition free_cache :: "'d io_channel \<Rightarrow> 'd io_channel" where
  "free_cache ch =
     ch\<lparr>xd_access_time := 0,
        xd_cache := map (\<lambda>c. (empty_entry [])\<lparr>xc_write_err := xc_write_err c\<rparr>) (xd_cache ch)\<rparr>"

text \<open>\<open>xnu_open\<close> when the two structures and the name can be allocated; \<open>blk\<close> is \<open>vnode_isblk\<close>.\<close>

definition xnu_open :: "(nat \<Rightarrow> u8 list option) \<Rightarrow> 'd \<Rightarrow> bool \<Rightarrow> u32 \<Rightarrow> errcode + 'd io_channel" where
  "xnu_open mem vp blk flags =
     (let ch = \<lparr>io_magic = EXT2_ET_MAGIC_IO_CHANNEL, io_block_size = 1024, io_refcount = 1,
                io_flags = (if blk then 4 else 2), xd_magic = EXT2_ET_MAGIC_UNIX_IO_CHANNEL, xd_flags = flags,
                xd_access_time = 0, xd_offset = 0, xd_cache = replicate CACHE_SIZE (empty_entry []), xd_vp = vp\<rparr>
      in case alloc_cache mem ch of
           (ch, retval) \<Rightarrow> if retval \<noteq> 0 then Inl retval else Inr ch)"

definition xnu_set_blksize ::
  "'d vnode_ops \<Rightarrow> (nat \<Rightarrow> u8 list option) \<Rightarrow> 'd io_channel \<Rightarrow> nat \<Rightarrow> 'd io_channel \<times> errcode" where
  "xnu_set_blksize ops mem ch blksize =
     (if io_checks ch \<noteq> 0 then (ch, io_checks ch)
      else if io_block_size ch \<noteq> blksize then
        (case flush_cached_blocks ops ch False of
           (ch, retval) \<Rightarrow>
             if retval \<noteq> 0 then (ch, retval)
             else alloc_cache mem (free_cache (ch\<lparr>io_block_size := blksize\<rparr>)))
      else (ch, 0))"

text \<open>Closing gives the channel back while others hold it; with \<open>None\<close> it is gone.\<close>

definition xnu_close :: "'d vnode_ops \<Rightarrow> 'd io_channel \<Rightarrow> 'd io_channel option \<times> 'd \<times> errcode" where
  "xnu_close ops ch =
     (if io_checks ch \<noteq> 0 then (Some ch, xd_vp ch, io_checks ch)
      else let ch = ch\<lparr>io_refcount := io_refcount ch - 1\<rparr>
           in if io_refcount ch > 0 then (Some ch, xd_vp ch, 0)
              else case flush_cached_blocks ops ch False of (ch, retval) \<Rightarrow> (None, xd_vp ch, retval))"

text \<open>The option \<open>cache\<close>; the option \<open>offset\<close> parses its number with \<open>strtoul\<close> and is left out.\<close>

definition xnu_set_cache_option :: "'d vnode_ops \<Rightarrow> 'd io_channel \<Rightarrow> string option \<Rightarrow> 'd io_channel \<times> errcode" where
  "xnu_set_cache_option ops ch arg =
     (if io_checks ch \<noteq> 0 then (ch, io_checks ch)
      else case arg of
             None \<Rightarrow> (ch, EXT2_ET_INVALID_ARGUMENT)
           | Some a \<Rightarrow>
               if a = ''on'' then (ch\<lparr>xd_flags := xd_flags ch AND NOT IO_FLAG_NOCACHE\<rparr>, 0)
               else if a = ''off'' then
                 (case flush_cached_blocks ops ch False of
                    (ch, retval) \<Rightarrow> (ch\<lparr>xd_flags := xd_flags ch OR IO_FLAG_NOCACHE\<rparr>, retval))
               else (ch, EXT2_ET_INVALID_ARGUMENT))"

section \<open>\<^verbatim>\<open>io_manager.c\<close>\<close>

text \<open>The operations a manager may leave out are options.\<close>

record 'c io_manager =
  m_read_blk :: "'c \<Rightarrow> u64 \<Rightarrow> int \<Rightarrow> 'c \<times> u8 list \<times> errcode"
  m_write_blk :: "'c \<Rightarrow> u64 \<Rightarrow> int \<Rightarrow> u8 list \<Rightarrow> 'c \<times> errcode"
  m_read_blk64 :: "('c \<Rightarrow> u64 \<Rightarrow> int \<Rightarrow> 'c \<times> u8 list \<times> errcode) option"
  m_write_blk64 :: "('c \<Rightarrow> u64 \<Rightarrow> int \<Rightarrow> u8 list \<Rightarrow> 'c \<times> errcode) option"
  m_write_byte :: "('c \<Rightarrow> int \<Rightarrow> u8 list \<Rightarrow> 'c \<times> errcode) option"
  m_discard :: "('c \<Rightarrow> u64 \<Rightarrow> u64 \<Rightarrow> 'c \<times> errcode) option"
  m_zeroout :: "('c \<Rightarrow> u64 \<Rightarrow> u64 \<Rightarrow> 'c \<times> errcode) option"

abbreviation (input) EXT2_ET_IO_CHANNEL_NO_SUPPORT_64 :: errcode where
  "EXT2_ET_IO_CHANNEL_NO_SUPPORT_64 \<equiv> 2133571463"

definition io_channel_write_byte :: "('d io_channel) io_manager \<Rightarrow> 'd io_channel \<Rightarrow> int \<Rightarrow> u8 list \<Rightarrow> 'd io_channel \<times> errcode" where
  "io_channel_write_byte m ch offset data =
     (if io_magic ch \<noteq> EXT2_ET_MAGIC_IO_CHANNEL then (ch, EXT2_ET_MAGIC_IO_CHANNEL)
      else case m_write_byte m of Some f \<Rightarrow> f ch offset data | None \<Rightarrow> (ch, EXT2_ET_UNIMPLEMENTED))"

definition io_channel_read_blk64 :: "('d io_channel) io_manager \<Rightarrow> 'd io_channel \<Rightarrow> u64 \<Rightarrow> int \<Rightarrow> 'd io_channel \<times> u8 list \<times> errcode" where
  "io_channel_read_blk64 m ch block n =
     (if io_magic ch \<noteq> EXT2_ET_MAGIC_IO_CHANNEL then (ch, [], EXT2_ET_MAGIC_IO_CHANNEL)
      else case m_read_blk64 m of
             Some f \<Rightarrow> f ch block n
           | None \<Rightarrow> if drop_bit 32 block \<noteq> 0 then (ch, [], EXT2_ET_IO_CHANNEL_NO_SUPPORT_64)
                     else m_read_blk m ch block n)"

definition io_channel_write_blk64 :: "('d io_channel) io_manager \<Rightarrow> 'd io_channel \<Rightarrow> u64 \<Rightarrow> int \<Rightarrow> u8 list \<Rightarrow> 'd io_channel \<times> errcode" where
  "io_channel_write_blk64 m ch block n data =
     (if io_magic ch \<noteq> EXT2_ET_MAGIC_IO_CHANNEL then (ch, EXT2_ET_MAGIC_IO_CHANNEL)
      else case m_write_blk64 m of
             Some f \<Rightarrow> f ch block n data
           | None \<Rightarrow> if drop_bit 32 block \<noteq> 0 then (ch, EXT2_ET_IO_CHANNEL_NO_SUPPORT_64)
                     else m_write_blk m ch block n data)"

definition io_channel_discard :: "('d io_channel) io_manager \<Rightarrow> 'd io_channel \<Rightarrow> u64 \<Rightarrow> u64 \<Rightarrow> 'd io_channel \<times> errcode" where
  "io_channel_discard m ch block n =
     (if io_magic ch \<noteq> EXT2_ET_MAGIC_IO_CHANNEL then (ch, EXT2_ET_MAGIC_IO_CHANNEL)
      else case m_discard m of Some f \<Rightarrow> f ch block n | None \<Rightarrow> (ch, EXT2_ET_UNIMPLEMENTED))"

definition io_channel_zeroout :: "('d io_channel) io_manager \<Rightarrow> 'd io_channel \<Rightarrow> u64 \<Rightarrow> u64 \<Rightarrow> 'd io_channel \<times> errcode" where
  "io_channel_zeroout m ch block n =
     (if io_magic ch \<noteq> EXT2_ET_MAGIC_IO_CHANNEL then (ch, EXT2_ET_MAGIC_IO_CHANNEL)
      else case m_zeroout m of Some f \<Rightarrow> f ch block n | None \<Rightarrow> (ch, EXT2_ET_UNIMPLEMENTED))"

definition xnu_discard :: "'d io_channel \<Rightarrow> u64 \<Rightarrow> u64 \<Rightarrow> 'd io_channel \<times> errcode" where
  "xnu_discard ch block n = (ch, EXT2_ET_UNIMPLEMENTED)"

definition xnu_zeroout :: "'d io_channel \<Rightarrow> u64 \<Rightarrow> u64 \<Rightarrow> 'd io_channel \<times> errcode" where
  "xnu_zeroout ch block n = (ch, EXT2_ET_UNIMPLEMENTED)"

definition xnu_io_manager :: "'d vnode_ops \<Rightarrow> ('d io_channel) io_manager" where
  "xnu_io_manager ops =
     \<lparr>m_read_blk = xnu_read_blk ops, m_write_blk = xnu_write_blk ops,
      m_read_blk64 = Some (xnu_read_blk64 ops), m_write_blk64 = Some (xnu_write_blk64 ops),
      m_write_byte = Some (xnu_write_byte ops), m_discard = Some xnu_discard, m_zeroout = Some xnu_zeroout\<rparr>"

end
