(* ===== verification/Xnu_cache.thy ===== *)
theory Xnu_cache
  imports Xnu_io
begin

text \<open>
  The cache of \<^verbatim>\<open>Xnu_io\<close> is transparent: \<open>view\<close> is the content of the device as its users see it, the
  buffer of a block that is cached and the block on the vnode otherwise. \<open>cache_ok\<close> is the invariant
  of the cache: no block twice, and an entry that is not dirty agrees with the vnode.
\<close>

section \<open>The vnode\<close>

text \<open>
  What the code relies on: reading changes nothing, a complete read gives the bytes, a write changes
  nothing outside its range, and a complete one stores the bytes.
\<close>

definition vnode_ok :: "'d vnode_ops \<Rightarrow> ('d \<Rightarrow> int \<Rightarrow> u8) \<Rightarrow> bool" where
  "vnode_ok ops content \<longleftrightarrow>
     (\<forall>d n off d' r b. vpread ops d n off = (d', r, b) \<longrightarrow>
        content d' = content d \<and> (r = int n \<longrightarrow> take n b = map (\<lambda>i. content d (off + int i)) [0..<n]))
     \<and> (\<forall>d buf off d' r. vpwrite ops d buf off = (d', r) \<longrightarrow>
        (\<forall>a. a < off \<or> off + int (length buf) \<le> a \<longrightarrow> content d' a = content d a)
        \<and> (r = int (length buf) \<longrightarrow> (\<forall>i < length buf. content d' (off + int i) = buf ! i)))"

text \<open>A vnode whose writes never fail.\<close>

definition vnode_reliable :: "'d vnode_ops \<Rightarrow> bool" where
  "vnode_reliable ops \<longleftrightarrow> (\<forall>d buf off. snd (vpwrite ops d buf off) = int (length buf))"

definition dev_bytes :: "('d \<Rightarrow> int \<Rightarrow> u8) \<Rightarrow> 'd io_channel \<Rightarrow> u64 \<Rightarrow> nat \<Rightarrow> u8 list" where
  "dev_bytes content ch block n = map (\<lambda>i. content (xd_vp ch) (xfer_location ch block + int i)) [0..<n]"

abbreviation dev_block :: "('d \<Rightarrow> int \<Rightarrow> u8) \<Rightarrow> 'd io_channel \<Rightarrow> u64 \<Rightarrow> u8 list" where
  "dev_block content ch block \<equiv> dev_bytes content ch block (io_block_size ch)"

lemma length_dev_bytes [simp]: "length (dev_bytes content ch block n) = n"
  by (simp add: dev_bytes_def)

lemma vnode_read:
  assumes "vnode_ok ops content" "vpread ops d n off = (d', r, b)"
  shows "content d' = content d" "r = int n \<Longrightarrow> take n b = map (\<lambda>i. content d (off + int i)) [0..<n]"
  using assms unfolding vnode_ok_def by blast+

lemma vnode_write:
  assumes "vnode_ok ops content" "vpwrite ops d buf off = (d', r)"
  shows "a < off \<or> off + int (length buf) \<le> a \<Longrightarrow> content d' a = content d a"
    "r = int (length buf) \<Longrightarrow> i < length buf \<Longrightarrow> content d' (off + int i) = buf ! i"
  using assms unfolding vnode_ok_def by blast+

lemma raw_read_blk:
  assumes v: "vnode_ok ops content" and r: "raw_read_blk ops ch block (int n) = (ch', buf, err)"
  shows "\<exists>d. ch' = ch\<lparr>xd_vp := d\<rparr> \<and> content d = content (xd_vp ch)"
    "err = 0 \<Longrightarrow> buf = dev_bytes content ch block (n * io_block_size ch)"
proof -
  define sz where "sz = n * io_block_size ch"
  have s: "xfer_size ch (int n) = sz" by (simp add: xfer_size_def sz_def)
  obtain d1 r1 b1 where 1: "vpread ops (xd_vp ch) sz (xfer_location ch block) = (d1, r1, b1)" by (metis prod_cases3)
  obtain d2 r2 b2 where 2: "vpread ops d1 sz (xfer_location ch block) = (d2, r2, b2)" by (metis prod_cases3)
  note v1 = vnode_read [OF v 1] and v2 = vnode_read [OF v 2]
  show "\<exists>d. ch' = ch\<lparr>xd_vp := d\<rparr> \<and> content d = content (xd_vp ch)"
    using r v1(1) v2(1) unfolding raw_read_blk_def Let_def s 1 by (auto simp: 2 split: if_splits)
  show "err = 0 \<Longrightarrow> buf = dev_bytes content ch block (n * io_block_size ch)"
    using r v1 v2 unfolding raw_read_blk_def Let_def s 1 dev_bytes_def sz_def [symmetric]
    by (auto simp: 2 split: if_splits)
qed

lemma raw_write_blk:
  assumes v: "vnode_ok ops content" and r: "raw_write_blk ops ch block (int n) buf = (ch', err)"
    and l: "length buf = n * io_block_size ch"
  shows "\<exists>d. ch' = ch\<lparr>xd_vp := d\<rparr>
      \<and> (\<forall>a. a < xfer_location ch block \<or> xfer_location ch block + int (length buf) \<le> a \<longrightarrow> content d a = content (xd_vp ch) a)
      \<and> (err = 0 \<longrightarrow> (\<forall>i < length buf. content d (xfer_location ch block + int i) = buf ! i))"
    "vnode_reliable ops \<Longrightarrow> err = 0"
proof -
  have s: "xfer_size ch (int n) = length buf" using l by (simp add: xfer_size_def)
  obtain d1 r1 where 1: "vpwrite ops (xd_vp ch) buf (xfer_location ch block) = (d1, r1)" by (metis surj_pair)
  obtain d2 r2 where 2: "vpwrite ops d1 buf (xfer_location ch block) = (d2, r2)" by (metis surj_pair)
  note v1 = vnode_write [OF v 1] and v2 = vnode_write [OF v 2]
  show "\<exists>d. ch' = ch\<lparr>xd_vp := d\<rparr>
      \<and> (\<forall>a. a < xfer_location ch block \<or> xfer_location ch block + int (length buf) \<le> a \<longrightarrow> content d a = content (xd_vp ch) a)
      \<and> (err = 0 \<longrightarrow> (\<forall>i < length buf. content d (xfer_location ch block + int i) = buf ! i))"
    using r v1 v2 unfolding raw_write_blk_def Let_def s by (auto simp: 1 2 split: if_splits)
  assume "vnode_reliable ops"
  then have "r1 = int (length buf)" using 1 by (metis snd_conv vnode_reliable_def)
  then show "err = 0" using r unfolding raw_write_blk_def Let_def s by (auto simp: 1)
qed

section \<open>Blocks on the vnode\<close>

lemma blocks_apart:
  assumes "b \<noteq> c" "int i < int (io_block_size ch)"
  shows "xfer_location ch c + int i < xfer_location ch b
    \<or> xfer_location ch b + int (io_block_size ch) \<le> xfer_location ch c + int i"
proof -
  define s where "s = int (io_block_size ch)"
  have n: "uint b \<noteq> uint c" using assms(1) by (simp add: word_uint_eq_iff)
  show ?thesis
  proof (cases "uint c < uint b")
    case True
    then have "(uint c + 1) * s \<le> uint b * s" by (intro mult_right_mono) (simp_all add: s_def)
    then show ?thesis using assms(2) by (simp add: xfer_location_def s_def algebra_simps)
  next
    case False
    then have "(uint b + 1) * s \<le> uint c * s" using n by (intro mult_right_mono) (simp_all add: s_def)
    then show ?thesis using assms(2) by (simp add: xfer_location_def s_def algebra_simps)
  qed
qed

text \<open>A write of one block, completed or not, changes no other block.\<close>

lemma raw_write_block:
  assumes "vnode_ok ops content" "raw_write_blk ops ch block 1 buf = (ch', err)" "length buf = io_block_size ch"
  obtains d where "ch' = ch\<lparr>xd_vp := d\<rparr>" "\<And>b. b \<noteq> block \<Longrightarrow> dev_block content ch' b = dev_block content ch b"
    "err = 0 \<Longrightarrow> dev_block content ch' block = buf"
proof -
  obtain d where d: "ch' = ch\<lparr>xd_vp := d\<rparr>"
    "\<And>a. a < xfer_location ch block \<or> xfer_location ch block + int (length buf) \<le> a \<Longrightarrow> content d a = content (xd_vp ch) a"
    "err = 0 \<Longrightarrow> \<forall>i < length buf. content d (xfer_location ch block + int i) = buf ! i"
    using raw_write_blk(1) [OF assms(1), of ch block 1 buf ch' err] assms(2,3) by auto
  have l: "xfer_location ch' b = xfer_location ch b" for b by (simp add: d(1) xfer_location_def)
  have "dev_block content ch' b = dev_block content ch b" if "b \<noteq> block" for b
  proof -
    have "content d (xfer_location ch b + int i) = content (xd_vp ch) (xfer_location ch b + int i)"
      if "i < io_block_size ch" for i
      using blocks_apart [of block b i ch] that \<open>b \<noteq> block\<close> assms(3) by (intro d(2)) simp
    then show ?thesis unfolding dev_bytes_def l by (simp add: d(1))
  qed
  moreover have "err = 0 \<Longrightarrow> dev_block content ch' block = buf"
    unfolding dev_bytes_def l using d(3) assms(3) by (intro nth_equalityI) (auto simp: d(1))
  ultimately show ?thesis using that d(1) by blast
qed

section \<open>The cache and its view\<close>

definition cached_at :: "'d io_channel \<Rightarrow> nat \<Rightarrow> u64 \<Rightarrow> bool" where
  "cached_at ch i b \<longleftrightarrow> i < length (xd_cache ch) \<and> xc_in_use (xd_cache ch ! i) \<and> xc_block (xd_cache ch ! i) = b"

definition cache_ok :: "('d \<Rightarrow> int \<Rightarrow> u8) \<Rightarrow> 'd io_channel \<Rightarrow> bool" where
  "cache_ok content ch \<longleftrightarrow> length (xd_cache ch) = CACHE_SIZE \<and> 0 < io_block_size ch
     \<and> (\<forall>i j b. cached_at ch i b \<and> cached_at ch j b \<longrightarrow> i = j)
     \<and> (\<forall>i b. cached_at ch i b \<longrightarrow> length (xc_buf (xd_cache ch ! i)) = io_block_size ch
          \<and> (\<not> xc_dirty (xd_cache ch ! i) \<longrightarrow> xc_buf (xd_cache ch ! i) = dev_block content ch b))"

definition view :: "('d \<Rightarrow> int \<Rightarrow> u8) \<Rightarrow> 'd io_channel \<Rightarrow> u64 \<Rightarrow> u8 list" where
  "view content ch b =
     (case find (\<lambda>c. xc_in_use c \<and> xc_block c = b) (xd_cache ch) of
        Some c \<Rightarrow> xc_buf c
      | None \<Rightarrow> dev_block content ch b)"

lemma view_cached:
  assumes "cache_ok content ch" "cached_at ch i b"
  shows "view content ch b = xc_buf (xd_cache ch ! i)"
proof (cases "find (\<lambda>c. xc_in_use c \<and> xc_block c = b) (xd_cache ch)")
  case None
  then show ?thesis using assms(2) by (auto simp: find_None_iff cached_at_def)
next
  case (Some c)
  then obtain j where "j < length (xd_cache ch)" "xc_in_use c" "xc_block c = b" "c = xd_cache ch ! j"
    by (auto simp: find_Some_iff)
  then have "cached_at ch j b" by (simp add: cached_at_def)
  then have "j = i" using assms unfolding cache_ok_def by blast
  then show ?thesis using Some \<open>c = xd_cache ch ! j\<close> by (simp add: view_def)
qed

lemma view_uncached:
  assumes "\<not> (\<exists>i. cached_at ch i b)"
  shows "view content ch b = dev_block content ch b"
proof -
  have "find (\<lambda>c. xc_in_use c \<and> xc_block c = b) (xd_cache ch) = None"
    using assms by (auto simp: find_None_iff cached_at_def in_set_conv_nth)
  then show ?thesis by (simp add: view_def)
qed

lemma length_view: "cache_ok content ch \<Longrightarrow> length (view content ch b) = io_block_size ch"
  by (cases "\<exists>i. cached_at ch i b") (auto simp: view_cached view_uncached cache_ok_def)

text \<open>
  Two states are equivalent when they look the same and are both sound: what every step below that is
  not a write has to show.
\<close>

definition same_view :: "('d \<Rightarrow> int \<Rightarrow> u8) \<Rightarrow> 'd io_channel \<Rightarrow> 'd io_channel \<Rightarrow> bool" where
  "same_view content ch ch' \<longleftrightarrow> cache_ok content ch' \<and> io_block_size ch' = io_block_size ch
     \<and> io_magic ch' = io_magic ch \<and> xd_magic ch' = xd_magic ch \<and> xd_flags ch' = xd_flags ch \<and> io_flags ch' = io_flags ch
     \<and> view content ch' = view content ch"

lemma same_viewI:
  assumes "cache_ok content ch'" "io_block_size ch' = io_block_size ch" "io_magic ch' = io_magic ch" "xd_magic ch' = xd_magic ch"
    "xd_flags ch' = xd_flags ch" "io_flags ch' = io_flags ch" "\<And>b. view content ch' b = view content ch b"
  shows "same_view content ch ch'"
  using assms by (auto simp: same_view_def)

lemma same_view_refl: "cache_ok content ch \<Longrightarrow> same_view content ch ch"
  by (simp add: same_view_def)

lemma same_view_trans [trans]: "same_view content a b \<Longrightarrow> same_view content b c \<Longrightarrow> same_view content a c"
  by (simp add: same_view_def)

lemma same_view_ok: "same_view content a b \<Longrightarrow> cache_ok content b"
  by (simp add: same_view_def)

text \<open>Only what an entry holds matters, not its age nor its error mark; and of the device only its content.\<close>

definition entry_eq :: "xnu_cache \<Rightarrow> xnu_cache \<Rightarrow> bool" where
  "entry_eq c d \<longleftrightarrow> xc_in_use d = xc_in_use c \<and>
     (xc_in_use c \<longrightarrow> xc_block d = xc_block c \<and> xc_buf d = xc_buf c \<and> xc_dirty d = xc_dirty c)"

definition chan_eq :: "('d \<Rightarrow> int \<Rightarrow> u8) \<Rightarrow> 'd io_channel \<Rightarrow> 'd io_channel \<Rightarrow> bool" where
  "chan_eq content ch ch' \<longleftrightarrow> io_block_size ch' = io_block_size ch \<and> xd_offset ch' = xd_offset ch
     \<and> io_magic ch' = io_magic ch \<and> xd_magic ch' = xd_magic ch \<and> xd_flags ch' = xd_flags ch \<and> io_flags ch' = io_flags ch
     \<and> content (xd_vp ch') = content (xd_vp ch) \<and> length (xd_cache ch') = length (xd_cache ch)
     \<and> (\<forall>i < length (xd_cache ch). entry_eq (xd_cache ch ! i) (xd_cache ch' ! i))"

lemma chan_eq_refl [simp]: "chan_eq content ch ch"
  by (simp add: chan_eq_def entry_eq_def)

lemma chan_eq_trans [trans]: "chan_eq content a b \<Longrightarrow> chan_eq content b c \<Longrightarrow> chan_eq content a c"
  by (simp add: chan_eq_def entry_eq_def)

lemma chan_eq_cached_at: "chan_eq content ch ch' \<Longrightarrow> cached_at ch' i b = cached_at ch i b"
  by (auto simp: chan_eq_def entry_eq_def cached_at_def)

lemma chan_eq_dev: "chan_eq content ch ch' \<Longrightarrow> dev_bytes content ch' b n = dev_bytes content ch b n"
  by (simp add: chan_eq_def dev_bytes_def xfer_location_def)

lemma chan_eq_buf:
  "chan_eq content ch ch' \<Longrightarrow> cached_at ch i b \<Longrightarrow> xc_buf (xd_cache ch' ! i) = xc_buf (xd_cache ch ! i)"
  "chan_eq content ch ch' \<Longrightarrow> cached_at ch i b \<Longrightarrow> xc_dirty (xd_cache ch' ! i) = xc_dirty (xd_cache ch ! i)"
  by (auto simp: chan_eq_def entry_eq_def cached_at_def)

lemma chan_eq_same_view:
  assumes "chan_eq content ch ch'" "cache_ok content ch"
  shows "same_view content ch ch'"
proof (rule same_viewI)
  have "dev_block content ch' b = dev_block content ch b" for b
    using chan_eq_dev [OF assms(1), of b "io_block_size ch"] assms(1) by (simp add: chan_eq_def)
  then show ok: "cache_ok content ch'"
    using assms(2) chan_eq_cached_at [OF assms(1)] chan_eq_buf [OF assms(1)] assms(1)
    unfolding cache_ok_def by (auto simp: chan_eq_def)
  show "view content ch' b = view content ch b" for b
  proof (cases "\<exists>i. cached_at ch i b")
    case True
    then obtain i where i: "cached_at ch i b" by blast
    then show ?thesis
      using view_cached [OF assms(2) i] view_cached [OF ok, of i b] chan_eq_cached_at [OF assms(1)] chan_eq_buf [OF assms(1) i]
      by simp
  next
    case False
    then show ?thesis using chan_eq_cached_at [OF assms(1)] chan_eq_dev [OF assms(1), of b "io_block_size ch"] assms(1)
      by (simp add: view_uncached chan_eq_def)
  qed
qed (use assms(1) in \<open>simp_all add: chan_eq_def\<close>)

section \<open>The steps of the cache\<close>

lemma xc_upd_simps [simp]:
  "io_block_size (xc_upd ch i f) = io_block_size ch" "io_magic (xc_upd ch i f) = io_magic ch"
  "xd_magic (xc_upd ch i f) = xd_magic ch" "xd_flags (xc_upd ch i f) = xd_flags ch"
  "io_flags (xc_upd ch i f) = io_flags ch" "xd_offset (xc_upd ch i f) = xd_offset ch" "xd_vp (xc_upd ch i f) = xd_vp ch"
  "length (xd_cache (xc_upd ch i f)) = length (xd_cache ch)"
  by (simp_all add: xc_upd_def)

lemma xc_upd_nth: "i < length (xd_cache ch) \<Longrightarrow> xd_cache (xc_upd ch i f) ! j = (if j = i then f (xd_cache ch ! i) else xd_cache ch ! j)"
  by (simp add: xc_upd_def nth_list_update)

lemma dev_bytes_xc_upd [simp]: "dev_bytes content (xc_upd ch i f) b n = dev_bytes content ch b n"
  by (simp add: dev_bytes_def xfer_location_def)

lemma find_cached_step:
  "i < length cache \<Longrightarrow> find_cached_loop cache block i u o' =
     (if \<not> xc_in_use (cache ! i) then find_cached_loop cache block (i + 1) (if u = None then Some i else u) o'
      else if xc_block (cache ! i) = block then Inl i
      else find_cached_loop cache block (i + 1) u
             (if o' = None \<or> xc_access_time (cache ! i) < xc_access_time (cache ! the o') then Some i else o'))"
  "\<not> i < length cache \<Longrightarrow> find_cached_loop cache block i u o' = Inr (if u \<noteq> None then u else o')"
  by (subst find_cached_loop.simps, simp)+

lemma find_cached_loop:
  assumes "case u of None \<Rightarrow> True | Some k \<Rightarrow> k < length cache" "case o' of None \<Rightarrow> True | Some k \<Rightarrow> k < length cache"
    "0 < length cache" "0 < i \<Longrightarrow> u \<noteq> None \<or> o' \<noteq> None" "i \<le> length cache"
  shows "case find_cached_loop cache block i u o' of
      Inl j \<Rightarrow> i \<le> j \<and> j < length cache \<and> xc_in_use (cache ! j) \<and> xc_block (cache ! j) = block
    | Inr e \<Rightarrow> (\<exists>k. e = Some k \<and> k < length cache)
        \<and> (\<forall>j. i \<le> j \<and> j < length cache \<longrightarrow> \<not> (xc_in_use (cache ! j) \<and> xc_block (cache ! j) = block))"
  using assms
proof (induction "length cache - i" arbitrary: i u o')
  case 0
  then show ?case by (auto simp: find_cached_step(2))
next
  case (Suc n)
  then have i: "i < length cache" "n = length cache - (i + 1)" "i + 1 \<le> length cache" by auto
  have from_i: "i \<le> j \<longleftrightarrow> j = i \<or> i + 1 \<le> j" for j by auto
  consider "\<not> xc_in_use (cache ! i)" | "xc_in_use (cache ! i)" "xc_block (cache ! i) = block"
    | "xc_in_use (cache ! i)" "xc_block (cache ! i) \<noteq> block" by blast
  then show ?case
  proof cases
    case 1
    define u' where "u' = (if u = None then Some i else u)"
    have "case find_cached_loop cache block (i + 1) u' o' of
        Inl j \<Rightarrow> i + 1 \<le> j \<and> j < length cache \<and> xc_in_use (cache ! j) \<and> xc_block (cache ! j) = block
      | Inr e \<Rightarrow> (\<exists>k. e = Some k \<and> k < length cache)
          \<and> (\<forall>j. i + 1 \<le> j \<and> j < length cache \<longrightarrow> \<not> (xc_in_use (cache ! j) \<and> xc_block (cache ! j) = block))"
      using Suc.prems i by (intro Suc.hyps(1)) (auto simp: u'_def split: option.splits)
    then show ?thesis using 1 i(1) find_cached_step(1) [OF i(1), of block u o'] unfolding u'_def [symmetric]
      by (auto split: sum.splits simp: from_i)
  next
    case 2
    then show ?thesis using i(1) by (simp add: find_cached_step(1))
  next
    case 3
    define w where "w = (if o' = None \<or> xc_access_time (cache ! i) < xc_access_time (cache ! the o') then Some i else o')"
    have "case find_cached_loop cache block (i + 1) u w of
        Inl j \<Rightarrow> i + 1 \<le> j \<and> j < length cache \<and> xc_in_use (cache ! j) \<and> xc_block (cache ! j) = block
      | Inr e \<Rightarrow> (\<exists>k. e = Some k \<and> k < length cache)
          \<and> (\<forall>j. i + 1 \<le> j \<and> j < length cache \<longrightarrow> \<not> (xc_in_use (cache ! j) \<and> xc_block (cache ! j) = block))"
      using Suc.prems i by (intro Suc.hyps(1)) (auto simp: w_def split: option.splits)
    then show ?thesis using 3 i(1) find_cached_step(1) [OF i(1), of block u o'] unfolding w_def [symmetric]
      by (auto split: sum.splits simp: from_i)
  qed
qed

lemma find_cached_block:
  assumes "length (xd_cache ch) = CACHE_SIZE" "find_cached_block ch block = (ch', r)"
  shows "chan_eq content ch ch'"
    "case r of Inl i \<Rightarrow> cached_at ch i block
     | Inr e \<Rightarrow> (\<exists>k. e = Some k \<and> k < CACHE_SIZE) \<and> \<not> (\<exists>i. cached_at ch i block)"
proof -
  note f = find_cached_loop [where u = None and o' = None and i = 0 and cache = "xd_cache ch" and block = block]
  show "case r of Inl i \<Rightarrow> cached_at ch i block
     | Inr e \<Rightarrow> (\<exists>k. e = Some k \<and> k < CACHE_SIZE) \<and> \<not> (\<exists>i. cached_at ch i block)"
    using f assms by (auto simp: find_cached_block_def cached_at_def Let_def split: sum.splits)
  show "chan_eq content ch ch'"
  proof (cases "find_cached_loop (xd_cache ch) block 0 None None")
    case (Inl i)
    then have "i < length (xd_cache ch)" using f assms(1) by auto
    then show ?thesis using assms(2) Inl
      by (auto simp: find_cached_block_def Let_def chan_eq_def entry_eq_def xc_upd_def nth_list_update
          split: if_splits)
  next
    case (Inr e)
    then show ?thesis using assms(2) by (simp add: find_cached_block_def)
  qed
qed

text \<open>Replacing the device behind the channel.\<close>

lemma cached_at_vp [simp]: "cached_at (ch\<lparr>xd_vp := d\<rparr>) i b = cached_at ch i b"
  by (simp add: cached_at_def)

text \<open>
  A dirty entry is written back: its block on the device becomes its buffer, or something unknown if
  the write fails, and no other block changes. The view stays as it is in both cases, because the
  entry is still there.
\<close>

lemma write_back:
  assumes ok: "cache_ok content ch" and v: "vnode_ok ops content" and i: "cached_at ch i b"
    and w: "raw_write_blk ops ch b 1 (xc_buf (xd_cache ch ! i)) = (ch', err)" and dirty: "xc_dirty (xd_cache ch ! i)"
  shows "same_view content ch ch'" "xd_cache ch' = xd_cache ch"
    "err = 0 \<Longrightarrow> dev_block content ch' b = xc_buf (xd_cache ch ! i)"
    "c \<noteq> b \<Longrightarrow> dev_block content ch' c = dev_block content ch c"
    "vnode_reliable ops \<Longrightarrow> err = 0"
proof -
  have len: "length (xc_buf (xd_cache ch ! i)) = io_block_size ch" using ok i by (auto simp: cache_ok_def)
  obtain d where d: "ch' = ch\<lparr>xd_vp := d\<rparr>" "\<And>c. c \<noteq> b \<Longrightarrow> dev_block content ch' c = dev_block content ch c"
    "err = 0 \<Longrightarrow> dev_block content ch' b = xc_buf (xd_cache ch ! i)"
    using raw_write_block [OF v w len] by blast
  show "err = 0 \<Longrightarrow> dev_block content ch' b = xc_buf (xd_cache ch ! i)" by (rule d(3))
  show "c \<noteq> b \<Longrightarrow> dev_block content ch' c = dev_block content ch c" by (rule d(2))
  show "vnode_reliable ops \<Longrightarrow> err = 0"
    using raw_write_blk(2) [OF v, of ch b 1 "xc_buf (xd_cache ch ! i)" ch' err] w len by simp
  show c: "xd_cache ch' = xd_cache ch" by (simp add: d(1))
  have at: "cached_at ch' j k = cached_at ch j k" for j k by (simp add: d(1))
  have ok': "cache_ok content ch'"
    unfolding cache_ok_def at c
  proof (intro conjI allI impI)
    fix j k assume "cached_at ch j k"
    then show "length (xc_buf (xd_cache ch ! j)) = io_block_size ch'" using ok by (simp add: cache_ok_def d(1))
    assume nd: "\<not> xc_dirty (xd_cache ch ! j)"
    then have "j \<noteq> i" using dirty by auto
    then have "k \<noteq> b" using ok i \<open>cached_at ch j k\<close> unfolding cache_ok_def by blast
    then show "xc_buf (xd_cache ch ! j) = dev_block content ch' k"
      using ok \<open>cached_at ch j k\<close> nd d(2) unfolding cache_ok_def by simp
  qed (use ok in \<open>auto simp: cache_ok_def d(1)\<close>)
  show "same_view content ch ch'"
  proof (rule same_viewI [OF ok'])
    fix k
    show "view content ch' k = view content ch k"
    proof (cases "\<exists>j. cached_at ch j k")
      case True
      then obtain j where "cached_at ch j k" by blast
      then show ?thesis using view_cached [OF ok] view_cached [OF ok'] by (simp add: at c)
    next
      case False
      then have "k \<noteq> b" using i by blast
      then show ?thesis using False d(2) by (simp add: view_uncached at)
    qed
  qed (simp_all add: d(1))
qed

text \<open>An entry that agrees with the device can be dropped.\<close>

lemma drop_entry:
  assumes ok: "cache_ok content ch" and i: "i < length (xd_cache ch)" and f: "\<not> xc_in_use (f (xd_cache ch ! i))"
    and clean: "xc_in_use (xd_cache ch ! i) \<Longrightarrow> xc_buf (xd_cache ch ! i) = dev_block content ch (xc_block (xd_cache ch ! i))"
  shows "same_view content ch (xc_upd ch i f)"
proof (rule same_viewI)
  have at: "cached_at (xc_upd ch i f) j b \<longleftrightarrow> j \<noteq> i \<and> cached_at ch j b" for j b
    using i f by (auto simp: cached_at_def xc_upd_nth)
  show ok': "cache_ok content (xc_upd ch i f)"
    using ok i unfolding cache_ok_def at by (auto simp: xc_upd_nth)
  show "view content (xc_upd ch i f) b = view content ch b" for b
  proof (cases "\<exists>j. cached_at ch j b")
    case True
    then obtain j where j: "cached_at ch j b" by blast
    show ?thesis
    proof (cases "j = i")
      case True
      then have "\<not> (\<exists>j. cached_at (xc_upd ch i f) j b)" using ok j at unfolding cache_ok_def by blast
      moreover have "xc_buf (xd_cache ch ! i) = dev_block content ch b" using clean j True by (auto simp: cached_at_def)
      ultimately show ?thesis using j True by (simp add: view_uncached view_cached [OF ok])
    next
      case False
      then show ?thesis using view_cached [OF ok j] view_cached [OF ok', of j b] at j i by (simp add: xc_upd_nth)
    qed
  next
    case False
    then show ?thesis using at by (simp add: view_uncached)
  qed
qed simp_all

text \<open>An unused entry can take a block that is not cached, with a new content or the one on the device.\<close>

lemma fill_entry:
  assumes ok: "cache_ok content ch" and i: "i < length (xd_cache ch)" and free: "\<not> xc_in_use (xd_cache ch ! i)"
    and f: "xc_in_use (f (xd_cache ch ! i))" "xc_block (f (xd_cache ch ! i)) = b" "xc_buf (f (xd_cache ch ! i)) = buf"
    and len: "length buf = io_block_size ch" and new: "\<not> (\<exists>j. cached_at ch j b)"
    and clean: "\<not> xc_dirty (f (xd_cache ch ! i)) \<Longrightarrow> buf = dev_block content ch b"
  shows "cache_ok content (xc_upd ch i f)" "view content (xc_upd ch i f) = (view content ch)(b := buf)"
proof -
  have at: "cached_at (xc_upd ch i f) j c \<longleftrightarrow> (if j = i then c = b else cached_at ch j c)" for j c
    using i f by (auto simp: cached_at_def xc_upd_nth)
  have ni: "\<not> cached_at ch i c" for c using free by (simp add: cached_at_def)
  show ok': "cache_ok content (xc_upd ch i f)"
    using ok i new len clean f unfolding cache_ok_def at by (auto simp: xc_upd_nth split: if_splits)
  show "view content (xc_upd ch i f) = (view content ch)(b := buf)"
  proof
    fix c
    consider "c = b" | j where "c \<noteq> b" "cached_at ch j c" | "c \<noteq> b" "\<not> (\<exists>j. cached_at ch j c)" by blast
    then show "view content (xc_upd ch i f) c = ((view content ch)(b := buf)) c"
    proof cases
      case 1
      then show ?thesis using view_cached [OF ok', of i b] at i f by (simp add: xc_upd_nth)
    next
      case 2
      then have "j \<noteq> i" using ni by auto
      then show ?thesis using 2 view_cached [OF ok', of j c] view_cached [OF ok, of j c] at i by (simp add: xc_upd_nth)
    next
      case 3
      then have "\<not> (\<exists>j. cached_at (xc_upd ch i f) j c)" using at by auto
      then show ?thesis using 3 by (simp add: view_uncached)
    qed
  qed
qed

lemma xc_upd_twice:
  "i < length (xd_cache ch) \<Longrightarrow> xc_upd (xc_upd ch i f) i g = xc_upd ch i (g \<circ> f)"
  by (simp add: xc_upd_def)

lemma reuse_cache:
  assumes ok: "cache_ok content ch" and v: "vnode_ok ops content" and e: "e < CACHE_SIZE"
    and new: "\<not> (\<exists>i. cached_at ch i block)" and r: "reuse_cache ops ch e block = (ch', err)"
  shows "err \<noteq> 0 \<Longrightarrow> same_view content ch ch'" "vnode_reliable ops \<Longrightarrow> err = 0"
    and "err = 0 \<Longrightarrow> length buf = io_block_size ch \<Longrightarrow> (\<not> dirty \<Longrightarrow> buf = dev_block content ch block) \<Longrightarrow>
      cache_ok content (xc_upd ch' e (\<lambda>c. c\<lparr>xc_buf := buf, xc_dirty := dirty\<rparr>))
      \<and> view content (xc_upd ch' e (\<lambda>c. c\<lparr>xc_buf := buf, xc_dirty := dirty\<rparr>)) = (view content ch)(block := buf)"
    and "err = 0 \<Longrightarrow> io_block_size ch' = io_block_size ch \<and> io_magic ch' = io_magic ch \<and> xd_magic ch' = xd_magic ch
      \<and> xd_flags ch' = xd_flags ch \<and> io_flags ch' = io_flags ch"
    and "err = 0 \<Longrightarrow> xc_upd ch' e (\<lambda>c. c\<lparr>xc_buf := buf\<rparr>) = xc_upd ch' e (\<lambda>c. c\<lparr>xc_buf := buf, xc_dirty := False\<rparr>)"
proof -
  define b where "b = xc_block (xd_cache ch ! e)"
  have len: "length (xd_cache ch) = CACHE_SIZE" using ok by (simp add: cache_ok_def)
  define w where "w = (if xc_dirty (xd_cache ch ! e) \<and> xc_in_use (xd_cache ch ! e)
     then raw_write_blk ops ch b 1 (xc_buf (xd_cache ch ! e)) else (ch, 0))"
  obtain ch1 r1 where w1: "w = (ch1, r1)" by (cases w) auto
  have s: "same_view content ch ch1 \<and> xd_cache ch1 = xd_cache ch \<and> dev_block content ch1 block = dev_block content ch block
      \<and> (r1 = 0 \<longrightarrow> xc_in_use (xd_cache ch ! e) \<longrightarrow> xc_buf (xd_cache ch ! e) = dev_block content ch1 b)
      \<and> (vnode_reliable ops \<longrightarrow> r1 = 0)"
  proof (cases "xc_dirty (xd_cache ch ! e) \<and> xc_in_use (xd_cache ch ! e)")
    case True
    then have at: "cached_at ch e b" using e len by (simp add: cached_at_def b_def)
    then have "block \<noteq> b" using new by blast
    then show ?thesis using write_back [OF ok v at, of ch1 r1] True w1 unfolding w_def by auto
  next
    case False
    have "xc_in_use (xd_cache ch ! e) \<Longrightarrow> cached_at ch e b" using e len by (simp add: cached_at_def b_def)
    then show ?thesis using False w1 ok same_view_refl [OF ok] unfolding w_def cache_ok_def by auto
  qed
  have r': "(ch', err) = (if r1 \<noteq> 0 then (xc_upd ch1 e (\<lambda>c. c\<lparr>xc_write_err := True\<rparr>), r1)
      else (xc_upd (ch1\<lparr>xd_access_time := xd_access_time ch1 + 1\<rparr>) e
         (\<lambda>c. c\<lparr>xc_in_use := True, xc_dirty := False, xc_write_err := False, xc_block := block,
           xc_access_time := xd_access_time (ch1\<lparr>xd_access_time := xd_access_time ch1 + 1\<rparr>)\<rparr>), 0))"
    using r w1 unfolding reuse_cache_def Let_def w_def b_def by (simp split: if_splits)
  have ok1: "cache_ok content ch1" using s by (simp add: same_view_def)
  have len1: "e < length (xd_cache ch1)" using s e len by simp
  show "vnode_reliable ops \<Longrightarrow> err = 0" using r' s by auto
  show "err \<noteq> 0 \<Longrightarrow> same_view content ch ch'"
  proof -
    assume "err \<noteq> 0"
    then have "ch' = xc_upd ch1 e (\<lambda>c. c\<lparr>xc_write_err := True\<rparr>)" using r' by (simp split: if_splits)
    then have "chan_eq content ch1 ch'" using len1
      by (simp add: chan_eq_def entry_eq_def xc_upd_nth)
    then show "same_view content ch ch'" using s same_view_trans chan_eq_same_view [OF _ ok1] by blast
  qed
  assume err: "err = 0"
  define ch2 where "ch2 = ch1\<lparr>xd_access_time := xd_access_time ch1 + 1\<rparr>"
  define g where "g = (\<lambda>c :: xnu_cache. c\<lparr>xc_in_use := True, xc_dirty := False, xc_write_err := False, xc_block := block,
           xc_access_time := xd_access_time ch2\<rparr>)"
  have ch': "ch' = xc_upd ch2 e g" and r1: "r1 = 0" using r' err by (auto simp: ch2_def g_def split: if_splits)
  have eq2: "chan_eq content ch1 ch2" by (simp add: ch2_def chan_eq_def entry_eq_def)
  have s2: "same_view content ch ch2" using s chan_eq_same_view [OF eq2 ok1] same_view_trans by blast
  have ok2: "cache_ok content ch2" using s2 by (rule same_view_ok)
  have c2: "xd_cache ch2 = xd_cache ch" using s by (simp add: ch2_def)
  have e2: "e < length (xd_cache ch2)" using c2 e len by simp
  show "io_block_size ch' = io_block_size ch \<and> io_magic ch' = io_magic ch \<and> xd_magic ch' = xd_magic ch
      \<and> xd_flags ch' = xd_flags ch \<and> io_flags ch' = io_flags ch"
    using s2 by (simp add: ch' same_view_def)
  have "g (xd_cache ch ! e)\<lparr>xc_buf := buf\<rparr> = g (xd_cache ch ! e)\<lparr>xc_buf := buf, xc_dirty := False\<rparr>" by (simp add: g_def)
  then show "xc_upd ch' e (\<lambda>c. c\<lparr>xc_buf := buf\<rparr>) = xc_upd ch' e (\<lambda>c. c\<lparr>xc_buf := buf, xc_dirty := False\<rparr>)"
    unfolding ch' xc_upd_twice [OF e2] by (simp add: xc_upd_def c2)
  assume lb: "length buf = io_block_size ch" and cl: "\<not> dirty \<Longrightarrow> buf = dev_block content ch block"
  define drp where "drp = (\<lambda>c :: xnu_cache. c\<lparr>xc_in_use := False\<rparr>)"
  define ch3 where "ch3 = xc_upd ch2 e drp"
  have dev2: "dev_block content ch2 x = dev_block content ch1 x" for x
    using chan_eq_dev [OF eq2, of x "io_block_size ch1"] by (simp add: ch2_def)
  have s3: "same_view content ch2 ch3"
    unfolding ch3_def using s r1 c2 dev2 by (intro drop_entry ok2 e2) (simp_all add: drp_def b_def)
  have ok3: "cache_ok content ch3" using s3 by (rule same_view_ok)
  have at3: "cached_at ch3 j x \<Longrightarrow> cached_at ch j x" for j x
    using e2 by (auto simp: ch3_def drp_def cached_at_def xc_upd_nth c2 split: if_splits)
  define f where "f = (\<lambda>c :: xnu_cache. c\<lparr>xc_buf := buf, xc_dirty := dirty\<rparr>) \<circ> g"
  have e3: "e < length (xd_cache ch3)" using e2 by (simp add: ch3_def)
  have final: "xc_upd ch' e (\<lambda>c. c\<lparr>xc_buf := buf, xc_dirty := dirty\<rparr>) = xc_upd ch3 e f"
    unfolding ch' ch3_def xc_upd_twice [OF e2] by (simp add: xc_upd_def f_def g_def drp_def)
  have bs: "io_block_size ch3 = io_block_size ch" using s2 s3 by (simp add: same_view_def)
  have dev3: "dev_block content ch3 block = dev_block content ch block"
  proof -
    have "dev_block content ch1 block = dev_block content ch block" using s by blast
    moreover have "io_block_size ch1 = io_block_size ch" using s by (simp add: same_view_def)
    ultimately show ?thesis using dev2 [of block] bs by (simp add: ch3_def ch2_def)
  qed
  have pr: "\<not> xc_in_use (xd_cache ch3 ! e)" "xc_in_use (f (xd_cache ch3 ! e))" "xc_block (f (xd_cache ch3 ! e)) = block"
    "xc_buf (f (xd_cache ch3 ! e)) = buf" "length buf = io_block_size ch3"
    using e2 lb bs by (simp_all add: f_def g_def ch3_def drp_def xc_upd_nth)
  have n3: "\<not> (\<exists>j. cached_at ch3 j block)" using new at3 by blast
  have c3: "\<not> xc_dirty (f (xd_cache ch3 ! e)) \<Longrightarrow> buf = dev_block content ch3 block"
    using cl dev3 by (simp add: f_def)
  have "cache_ok content (xc_upd ch3 e f) \<and> view content (xc_upd ch3 e f) = (view content ch3)(block := buf)"
    using fill_entry [where f = f and b = block and buf = buf, OF ok3 e3 pr n3 c3] by blast
  then show "cache_ok content (xc_upd ch' e (\<lambda>c. c\<lparr>xc_buf := buf, xc_dirty := dirty\<rparr>))
      \<and> view content (xc_upd ch' e (\<lambda>c. c\<lparr>xc_buf := buf, xc_dirty := dirty\<rparr>)) = (view content ch)(block := buf)"
    unfolding final using s2 s3 by (simp add: same_view_def)
qed

text \<open>An entry that agrees with the device can be marked clean.\<close>

lemma clean_entry:
  assumes ok: "cache_ok content ch" and i: "cached_at ch i b"
    and f: "xc_in_use (f (xd_cache ch ! i))" "xc_block (f (xd_cache ch ! i)) = b" "xc_buf (f (xd_cache ch ! i)) = xc_buf (xd_cache ch ! i)"
    and clean: "xc_buf (xd_cache ch ! i) = dev_block content ch b"
  shows "same_view content ch (xc_upd ch i f)"
proof (rule same_viewI)
  have il: "i < length (xd_cache ch)" using i by (simp add: cached_at_def)
  have at: "cached_at (xc_upd ch i f) j c \<longleftrightarrow> cached_at ch j c" for j c
    using i f il by (auto simp: cached_at_def xc_upd_nth)
  have buf: "xc_buf (xd_cache (xc_upd ch i f) ! j) = xc_buf (xd_cache ch ! j)" for j
    using f il by (simp add: xc_upd_nth)
  have ib: "cached_at ch i c \<Longrightarrow> c = b" for c using i by (simp add: cached_at_def)
  show ok': "cache_ok content (xc_upd ch i f)"
    using ok clean ib il unfolding cache_ok_def at buf by (auto simp: xc_upd_nth)
  show "view content (xc_upd ch i f) c = view content ch c" for c
  proof (cases "\<exists>j. cached_at ch j c")
    case True
    then obtain j where "cached_at ch j c" by blast
    then show ?thesis using view_cached [OF ok, of j c] view_cached [OF ok', of j c] at buf by simp
  next
    case False
    then show ?thesis by (simp add: view_uncached at)
  qed
qed simp_all

definition dirty_at :: "'d io_channel \<Rightarrow> nat \<Rightarrow> bool" where
  "dirty_at ch j \<longleftrightarrow> xc_in_use (xd_cache ch ! j) \<and> xc_dirty (xd_cache ch ! j)"

text \<open>One round of the flush.\<close>

lemma flush_step:
  assumes ok: "cache_ok content ch" and v: "vnode_ok ops content" and i: "i < CACHE_SIZE" and d: "dirty_at ch i"
    and w: "raw_write_blk ops ch (xc_block (xd_cache ch ! i)) 1 (xc_buf (xd_cache ch ! i)) = (ch1, err)"
  shows "err \<noteq> 0 \<Longrightarrow> same_view content ch (xc_upd ch1 i (\<lambda>c. c\<lparr>xc_write_err := True\<rparr>))"
    "err = 0 \<Longrightarrow> same_view content ch
      (xc_upd ch1 i (\<lambda>c. c\<lparr>xc_dirty := False, xc_write_err := False, xc_in_use := (if invalidate then False else xc_in_use c)\<rparr>))"
    "vnode_reliable ops \<Longrightarrow> err = 0" "xd_cache ch1 = xd_cache ch"
proof -
  define b where "b = xc_block (xd_cache ch ! i)"
  have at: "cached_at ch i b" using ok i d by (simp add: cached_at_def b_def cache_ok_def dirty_at_def)
  note wb = write_back [OF ok v at w [folded b_def]]
  have dd: "xc_dirty (xd_cache ch ! i)" using d by (simp add: dirty_at_def)
  have s: "same_view content ch ch1" and c: "xd_cache ch1 = xd_cache ch" using wb(1,2) dd by blast+
  show "vnode_reliable ops \<Longrightarrow> err = 0" "xd_cache ch1 = xd_cache ch" using wb(5) dd c by blast+
  have ok1: "cache_ok content ch1" using s by (rule same_view_ok)
  have at1: "cached_at ch1 i b" using at by (simp add: cached_at_def c)
  have il: "i < length (xd_cache ch1)" using at1 by (simp add: cached_at_def)
  have "chan_eq content ch1 (xc_upd ch1 i (\<lambda>c. c\<lparr>xc_write_err := True\<rparr>))"
    using il by (simp add: chan_eq_def entry_eq_def xc_upd_nth)
  then show "err \<noteq> 0 \<Longrightarrow> same_view content ch (xc_upd ch1 i (\<lambda>c. c\<lparr>xc_write_err := True\<rparr>))"
    using same_view_trans [OF s chan_eq_same_view [OF _ ok1]] by blast
  assume "err = 0"
  then have dev: "xc_buf (xd_cache ch1 ! i) = dev_block content ch1 b" using wb(3) dd c by simp
  show "same_view content ch
      (xc_upd ch1 i (\<lambda>c. c\<lparr>xc_dirty := False, xc_write_err := False, xc_in_use := (if invalidate then False else xc_in_use c)\<rparr>))"
  proof (rule same_view_trans [OF s], cases invalidate)
    case True
    then show "same_view content ch1
      (xc_upd ch1 i (\<lambda>c. c\<lparr>xc_dirty := False, xc_write_err := False, xc_in_use := (if invalidate then False else xc_in_use c)\<rparr>))"
      using dev at1 by (intro drop_entry ok1 il) (simp_all add: cached_at_def)
  next
    case False
    then show "same_view content ch1
      (xc_upd ch1 i (\<lambda>c. c\<lparr>xc_dirty := False, xc_write_err := False, xc_in_use := (if invalidate then False else xc_in_use c)\<rparr>))"
      using dev at1 by (intro clean_entry [OF ok1 at1]) (simp_all add: cached_at_def)
  qed
qed

lemma flush_loop:
  assumes "vnode_ok ops content" "cache_ok content ch" "i + n = CACHE_SIZE"
    "flush_loop ops invalidate n ch i rv ef = (ch', rv', ef')"
  shows "same_view content ch ch' \<and> (vnode_reliable ops \<longrightarrow> ef' = ef) \<and> ((ef \<longrightarrow> rv \<noteq> 0) \<longrightarrow> ef' \<longrightarrow> rv' \<noteq> 0)
    \<and> (\<not> ef' \<longrightarrow> \<not> ef \<and> rv' = rv)
    \<and> (\<not> ef' \<longrightarrow> (\<forall>j. j < CACHE_SIZE \<longrightarrow> (j < i \<longrightarrow> xd_cache ch' ! j = xd_cache ch ! j)
        \<and> (i \<le> j \<longrightarrow> \<not> dirty_at ch' j \<and> (\<forall>b. cached_at ch' j b \<longrightarrow> cached_at ch j b \<and> (invalidate \<longrightarrow> \<not> dirty_at ch j)))))"
  using assms
proof (induction n arbitrary: ch i rv ef)
  case 0
  then show ?case by (auto simp: same_view_refl)
next
  case (Suc n)
  have i: "i < CACHE_SIZE" "i + 1 + n = CACHE_SIZE" using Suc.prems(3) by auto
  have len: "length (xd_cache ch) = CACHE_SIZE" using Suc.prems(2) by (simp add: cache_ok_def)
  show ?case
  proof (cases "dirty_at ch i")
    case False
    then have r: "flush_loop ops invalidate n ch (i + 1) rv ef = (ch', rv', ef')"
      using Suc.prems(4) by (auto simp: dirty_at_def)
    note IH = Suc.IH [OF Suc.prems(1,2) i(2) r]
    have "\<not> ef' \<Longrightarrow> xd_cache ch' ! i = xd_cache ch ! i" using IH i by auto
    then have "\<not> ef' \<Longrightarrow> \<not> dirty_at ch' i" "\<not> ef' \<Longrightarrow> cached_at ch' i b \<Longrightarrow> cached_at ch i b" for b
      using False i len by (auto simp: dirty_at_def cached_at_def)
    moreover have "i \<le> j \<longleftrightarrow> j = i \<or> i + 1 \<le> j" for j by auto
    ultimately show ?thesis using IH False by auto
  next
    case True
    obtain ch1 err where w: "raw_write_blk ops ch (xc_block (xd_cache ch ! i)) 1 (xc_buf (xd_cache ch ! i)) = (ch1, err)"
      by (metis surj_pair)
    note fs = flush_step [OF Suc.prems(2,1) i(1) True w]
    show ?thesis
    proof (cases "err = 0")
      case err: False
      define ch2 where "ch2 = xc_upd ch1 i (\<lambda>c. c\<lparr>xc_write_err := True\<rparr>)"
      have r: "flush_loop ops invalidate n ch2 (i + 1) err True = (ch', rv', ef')"
        using Suc.prems(4) True w err by (auto simp: dirty_at_def ch2_def Let_def)
      have s: "same_view content ch ch2" using fs(1) [OF err] by (simp add: ch2_def)
      note IH = Suc.IH [OF Suc.prems(1) same_view_ok [OF s] i(2) r]
      have "ef' \<longrightarrow> rv' \<noteq> 0" "ef'" using IH err by blast+
      then show ?thesis using IH same_view_trans [OF s] fs(3) err by auto
    next
      case err: True
      define ch2 where "ch2 = xc_upd ch1 i
        (\<lambda>c. c\<lparr>xc_dirty := False, xc_write_err := False, xc_in_use := (if invalidate then False else xc_in_use c)\<rparr>)"
      have r: "flush_loop ops invalidate n ch2 (i + 1) rv ef = (ch', rv', ef')"
        using Suc.prems(4) True w err by (auto simp: dirty_at_def ch2_def Let_def)
      have s: "same_view content ch ch2" using fs(2) [OF err, of invalidate] by (simp add: ch2_def)
      note IH = Suc.IH [OF Suc.prems(1) same_view_ok [OF s] i(2) r]
      have il: "i < length (xd_cache ch1)" using fs(4) len i by simp
      have c2: "xd_cache ch2 ! j = (if j = i then (xd_cache ch ! i)\<lparr>xc_dirty := False, xc_write_err := False,
          xc_in_use := (if invalidate then False else xc_in_use (xd_cache ch ! i))\<rparr> else xd_cache ch ! j)" for j
        using il by (simp add: ch2_def xc_upd_nth fs(4))
      have "\<not> ef' \<Longrightarrow> xd_cache ch' ! i = xd_cache ch2 ! i" using IH i by auto
      then have "\<not> ef' \<Longrightarrow> \<not> dirty_at ch' i" "\<not> ef' \<Longrightarrow> cached_at ch' i b \<Longrightarrow> cached_at ch i b \<and> \<not> invalidate" for b
        using c2 [of i] len i by (auto simp: dirty_at_def cached_at_def split: if_splits)
      moreover have "\<not> ef' \<Longrightarrow> j < i \<Longrightarrow> xd_cache ch' ! j = xd_cache ch ! j" for j
        using IH i c2 [of j] by auto
      moreover have "\<not> ef' \<Longrightarrow> i + 1 \<le> j \<Longrightarrow> j < CACHE_SIZE \<Longrightarrow> \<not> dirty_at ch' j
          \<and> (\<forall>b. cached_at ch' j b \<longrightarrow> cached_at ch j b \<and> (invalidate \<longrightarrow> \<not> dirty_at ch j))" for j
      proof -
        assume h: "\<not> ef'" "i + 1 \<le> j" "j < CACHE_SIZE"
        then have "cached_at ch2 j b = cached_at ch j b" "dirty_at ch2 j = dirty_at ch j" for b
          using c2 [of j] len il by (auto simp: cached_at_def dirty_at_def ch2_def fs(4))
        then show ?thesis using IH h by auto
      qed
      moreover have "i \<le> j \<longleftrightarrow> j = i \<or> i + 1 \<le> j" for j by auto
      ultimately show ?thesis using IH same_view_trans [OF s] by auto
    qed
  qed
qed

text \<open>
  The whole flush keeps the view. When it succeeds nothing is dirty any more, so that the view is what
  is on the device; with invalidation, the entries that were dirty are gone, and only those.
\<close>

lemma flush:
  assumes "vnode_ok ops content" "cache_ok content ch" "flush_cached_blocks ops ch invalidate = (ch', err)"
  shows "same_view content ch ch'" "vnode_reliable ops \<Longrightarrow> err = 0"
    "err = 0 \<Longrightarrow> j < CACHE_SIZE \<Longrightarrow> \<not> dirty_at ch' j"
    "err = 0 \<Longrightarrow> cached_at ch' j b \<Longrightarrow> cached_at ch j b \<and> (invalidate \<longrightarrow> \<not> dirty_at ch j)"
proof -
  obtain ch1 rv ef where l: "flush_loop ops invalidate CACHE_SIZE ch 0 0 False = (ch1, rv, ef)" by (metis prod_cases3)
  have z: "0 + CACHE_SIZE = CACHE_SIZE" by simp
  note fl = flush_loop [OF assms(1,2) z l]
  have r: "(ch', err) = (if ef then (ch1\<lparr>xd_cache := map (\<lambda>c. if xc_in_use c \<and> xc_write_err c then c\<lparr>xc_write_err := False\<rparr> else c) (xd_cache ch1)\<rparr>, rv)
      else (ch1, rv))"
    using assms(3) l by (simp add: flush_cached_blocks_def)
  have s: "same_view content ch ch1" using fl by blast
  have "chan_eq content ch1 ch'" using r by (auto simp: chan_eq_def entry_eq_def split: if_splits)
  then show "same_view content ch ch'" using same_view_trans [OF s] chan_eq_same_view [OF _ same_view_ok [OF s]] by blast
  show "vnode_reliable ops \<Longrightarrow> err = 0" using fl r by (auto split: if_splits)
  assume "err = 0"
  then have ef: "\<not> ef" "ch' = ch1" using fl r by (auto split: if_splits)
  have len: "length (xd_cache ch1) = CACHE_SIZE" using same_view_ok [OF s] by (simp add: cache_ok_def)
  show "j < CACHE_SIZE \<Longrightarrow> \<not> dirty_at ch' j" using fl ef by auto
  show "cached_at ch' j b \<Longrightarrow> cached_at ch j b \<and> (invalidate \<longrightarrow> \<not> dirty_at ch j)"
    using fl ef len by (auto simp: cached_at_def)
qed

lemma flushed_view:
  assumes "cache_ok content ch" "\<And>j. j < CACHE_SIZE \<Longrightarrow> \<not> dirty_at ch j"
  shows "view content ch b = dev_block content ch b"
proof (cases "\<exists>j. cached_at ch j b")
  case True
  then obtain j where j: "cached_at ch j b" by blast
  then have "j < CACHE_SIZE" using assms(1) by (simp add: cache_ok_def cached_at_def)
  then have "\<not> xc_dirty (xd_cache ch ! j)" using assms(2) j by (auto simp: dirty_at_def cached_at_def)
  then show ?thesis using assms(1) j view_cached [OF assms(1) j] by (auto simp: cache_ok_def)
qed (simp add: view_uncached)

section \<open>Reading\<close>

text \<open>The blocks of a transfer, from \<open>block\<close> on.\<close>

definition view_run :: "('d \<Rightarrow> int \<Rightarrow> u8) \<Rightarrow> 'd io_channel \<Rightarrow> u64 \<Rightarrow> nat \<Rightarrow> u8 list" where
  "view_run content ch block n = concat (map (\<lambda>k. view content ch (block + of_nat k)) [0..<n])"

lemma view_run_0 [simp]: "view_run content ch block 0 = []"
  by (simp add: view_run_def)

lemma view_run_add: "view_run content ch block (m + n) = view_run content ch block m @ view_run content ch (block + of_nat m) n"
proof -
  have "[0..<m + n] = [0..<m] @ map (\<lambda>k. m + k) [0..<n]"
    by (rule nth_equalityI) (auto simp: nth_append)
  then show ?thesis by (simp add: view_run_def comp_def add.assoc)
qed

lemma view_run_Suc: "view_run content ch block (Suc n) = view content ch block @ view_run content ch (block + 1) n"
  using view_run_add [of content ch block 1 n] by (simp add: view_run_def)

lemma length_view_run: "cache_ok content ch \<Longrightarrow> length (view_run content ch block n) = n * io_block_size ch"
  by (induction n arbitrary: block) (simp_all add: view_run_Suc length_view)

lemma view_run_same: "same_view content ch ch' \<Longrightarrow> view_run content ch' block n = view_run content ch block n"
  by (simp add: view_run_def same_view_def)

text \<open>Consecutive blocks lie next to each other on the device.\<close>

lemma dev_bytes_run:
  assumes "unat block + n \<le> 2 ^ 64"
  shows "dev_bytes content ch block (n * io_block_size ch) =
    concat (map (\<lambda>k. dev_block content ch (block + of_nat k)) [0..<n])"
  using assms
proof (induction n)
  case 0
  then show ?case by (simp add: dev_bytes_def)
next
  case (Suc n)
  define s where "s = io_block_size ch"
  have un: "unat (of_nat n :: u64) = n" using Suc.prems unfolding unat_of_nat by (intro mod_less) simp
  have "unat (block + of_nat n) = unat block + n"
    using Suc.prems by (subst unat_add_no_wrap) (simp_all add: un)
  then have "int (unat (block + of_nat n)) = int (unat block + n)" by (rule arg_cong)
  then have "uint (block + of_nat n) = uint block + int n" by simp
  then have loc: "xfer_location ch (block + of_nat n) = xfer_location ch block + int (n * s)"
    by (simp add: xfer_location_def s_def algebra_simps)
  have "[0..<m + s] = [0..<m] @ map (\<lambda>k. m + k) [0..<s]" for m
    by (rule nth_equalityI) (auto simp: nth_append)
  then have "dev_bytes content ch block (n * s + s) = dev_bytes content ch block (n * s) @ dev_bytes content ch (block + of_nat n) s"
    unfolding dev_bytes_def loc by (simp add: comp_def add.assoc)
  moreover have "dev_bytes content ch block (n * s) = concat (map (\<lambda>k. dev_block content ch (block + of_nat k)) [0..<n])"
    using Suc by (simp add: s_def)
  moreover have "Suc n * s = n * s + s" by simp
  ultimately show ?case unfolding s_def [symmetric] by (simp only: upt_Suc) simp
qed

lemma uncached_run:
  assumes "length (xd_cache ch) = CACHE_SIZE" "uncached_run ch block i n = (ch', j)"
    "\<And>k. k < i \<Longrightarrow> \<not> (\<exists>m. cached_at ch m (block + of_nat k))"
  shows "chan_eq content ch ch' \<and> i \<le> j \<and> j \<le> i + n \<and> (\<forall>k < j. \<not> (\<exists>m. cached_at ch m (block + of_nat k)))"
  using assms
proof (induction n arbitrary: ch i)
  case 0
  then show ?case by auto
next
  case (Suc n)
  obtain ch1 r where f: "find_cached_block ch (block + of_nat i) = (ch1, r)" by (metis surj_pair)
  note fc = find_cached_block(1) [where content = content, OF Suc.prems(1) f] find_cached_block(2) [OF Suc.prems(1) f]
  show ?case
  proof (cases r)
    case (Inl m)
    then show ?thesis using Suc.prems f fc by auto
  next
    case (Inr e)
    then have u: "uncached_run ch1 block (i + 1) n = (ch', j)" using Suc.prems(2) f by simp
    have len: "length (xd_cache ch1) = CACHE_SIZE" using fc(1) Suc.prems(1) by (simp add: chan_eq_def)
    have "\<not> (\<exists>m. cached_at ch1 m (block + of_nat k))" if "k < i + 1" for k
      using that Suc.prems(3) fc(2) Inr chan_eq_cached_at [OF fc(1)] by (auto simp: less_Suc_eq)
    from Suc.IH [OF len u this] show ?thesis
      using chan_eq_trans [OF fc(1)] chan_eq_cached_at [OF fc(1)] by auto
  qed
qed

lemma save_in_cache:
  assumes "vnode_ok ops content" "cache_ok content ch" "cp = view_run content ch block n"
    "save_in_cache ops n ch block cp = (ch', err)"
  shows "same_view content ch ch' \<and> (vnode_reliable ops \<longrightarrow> err = 0)"
  using assms
proof (induction n arbitrary: ch block cp)
  case 0
  then show ?case by (auto simp: same_view_refl)
next
  case (Suc n)
  have len: "length (xd_cache ch) = CACHE_SIZE" using Suc.prems(2) by (simp add: cache_ok_def)
  have cp: "take (io_block_size ch) cp = view content ch block" "drop (io_block_size ch) cp = view_run content ch (block + 1) n"
    using Suc.prems(2,3) by (simp_all add: view_run_Suc length_view)
  obtain ch1 r where f: "find_cached_block ch block = (ch1, r)" by (metis surj_pair)
  note eq1 = find_cached_block(1) [where content = content, OF len f] and fr = find_cached_block(2) [OF len f]
  have s1: "same_view content ch ch1" by (rule chan_eq_same_view [OF eq1 Suc.prems(2)])
  have bs1: "io_block_size ch1 = io_block_size ch" using s1 by (simp add: same_view_def)
  show ?case
  proof (cases r)
    case (Inl i)
    have "save_in_cache ops n ch1 (block + 1) (drop (io_block_size ch) cp) = (ch', err)"
      using Suc.prems(4) f Inl bs1 by simp
    then show ?thesis
      using Suc.IH [OF Suc.prems(1) same_view_ok [OF s1], of "drop (io_block_size ch) cp" "block + 1"] cp(2)
        same_view_trans [OF s1] by (simp add: view_run_same [OF s1])
  next
    case (Inr e)
    then obtain k where k: "e = Some k" "k < CACHE_SIZE" and new: "\<not> (\<exists>i. cached_at ch i block)" using fr by auto
    have new1: "\<not> (\<exists>i. cached_at ch1 i block)" using new chan_eq_cached_at [OF eq1] by simp
    obtain ch2 e1 where rc: "reuse_cache ops ch1 k block = (ch2, e1)" by (metis surj_pair)
    note ru = reuse_cache [OF same_view_ok [OF s1] Suc.prems(1) k(2) new1 rc]
    show ?thesis
    proof (cases "e1 = 0")
      case False
      then have "ch' = ch2" "err = e1" using Suc.prems(4) f Inr k rc by auto
      then show ?thesis using ru(1,2) False same_view_trans [OF s1] by auto
    next
      case True
      define buf where "buf = take (io_block_size ch) cp"
      define ch3 where "ch3 = xc_upd ch2 k (\<lambda>c. c\<lparr>xc_buf := buf, xc_dirty := False\<rparr>)"
      have bs2: "io_block_size ch2 = io_block_size ch" using ru(4) [OF True] bs1 by simp
      have n3: "save_in_cache ops n ch3 (block + 1) (drop (io_block_size ch) cp) = (ch', err)"
        using Suc.prems(4) f Inr k rc True ru(5) [OF True, of buf] by (simp add: bs1 bs2 ch3_def buf_def)
      have bv: "buf = view content ch1 block" using cp(1) s1 by (simp add: buf_def same_view_def)
      have lb: "length buf = io_block_size ch1" unfolding bv by (rule length_view [OF same_view_ok [OF s1]])
      have "buf = dev_block content ch1 block" unfolding bv by (rule view_uncached [OF new1])
      then have "cache_ok content ch3 \<and> view content ch3 = (view content ch1)(block := buf)"
        using ru(3) [OF True lb, of False] by (simp add: ch3_def)
      then have "same_view content ch1 ch3"
        using ru(4) [OF True] bv by (simp add: same_view_def ch3_def)
      then have s3: "same_view content ch ch3" using same_view_trans [OF s1] by blast
      show ?thesis
        using Suc.IH [OF Suc.prems(1) same_view_ok [OF s3] _ n3] cp(2) same_view_trans [OF s3]
        by (simp add: view_run_same [OF s3])
    qed
  qed
qed

lemma read_loop_step:
  "read_loop ops 0 ch block acc = (ch, acc, 0)"
  "n \<noteq> 0 \<Longrightarrow> find_cached_block ch block = (ch1, Inl i) \<Longrightarrow>
   read_loop ops n ch block acc = read_loop ops (n - 1) ch1 (block + 1) (acc @ take (io_block_size ch1) (xc_buf (xd_cache ch1 ! i)))"
  "n \<noteq> 0 \<Longrightarrow> find_cached_block ch block = (ch1, Inr e) \<Longrightarrow> uncached_run ch1 block 1 (n - 1) = (ch2, i) \<Longrightarrow>
   raw_read_blk ops ch2 block (int i) = (ch3, cp, err) \<Longrightarrow> save_in_cache ops i ch3 block cp = (ch4, err2) \<Longrightarrow>
   read_loop ops n ch block acc =
     (if err \<noteq> 0 then (ch3, acc @ cp, err)
      else if err2 \<noteq> 0 then (ch4, acc @ cp, err2)
      else read_loop ops (n - i) ch4 (block + of_nat i) (acc @ cp))"
  by (subst read_loop.simps, simp)+

lemma read_loop:
  assumes "vnode_ok ops content" "cache_ok content ch" "unat block + n \<le> 2 ^ 64"
    "read_loop ops n ch block acc = (ch', buf, err)"
  shows "same_view content ch ch' \<and> (err = 0 \<longrightarrow> buf = acc @ view_run content ch block n)"
  using assms(2-)
proof (induction n arbitrary: ch block acc rule: less_induct)
  case (less n)
  show ?case
  proof (cases "n = 0")
    case True
    then show ?thesis using less.prems by (auto simp: read_loop_step same_view_refl)
  next
    case n0: False
    have len: "length (xd_cache ch) = CACHE_SIZE" using less.prems(1) by (simp add: cache_ok_def)
    obtain ch1 r where f: "find_cached_block ch block = (ch1, r)" by (metis surj_pair)
    note eq1 = find_cached_block(1) [where content = content, OF len f] and fr = find_cached_block(2) [OF len f]
    have s1: "same_view content ch ch1" by (rule chan_eq_same_view [OF eq1 less.prems(1)])
    have ok1: "cache_ok content ch1" by (rule same_view_ok [OF s1])
    have step: "unat (block + of_nat i) + (n - i) \<le> 2 ^ 64" if "i \<le> n" "i < n \<or> True" for i
    proof (cases "i = n")
      case True
      then show ?thesis using unat_lt64 [of "block + of_nat i"] by simp
    next
      case False
      then have un: "unat (of_nat i :: u64) = i" using that less.prems(2) unfolding unat_of_nat by (intro mod_less) simp
      have "unat (block + of_nat i) = unat block + i"
        using False that less.prems(2) by (subst unat_add_no_wrap) (simp_all add: un)
      then show ?thesis using less.prems(2) that by simp
    qed
    show ?thesis
    proof (cases r)
      case (Inl i)
      then have at: "cached_at ch i block" using fr by simp
      have at1: "cached_at ch1 i block" using at chan_eq_cached_at [OF eq1] by simp
      have "take (io_block_size ch1) (xc_buf (xd_cache ch1 ! i)) = view content ch1 block"
        using view_cached [OF ok1 at1] length_view [OF ok1, of block] by simp
      then have rl: "read_loop ops (n - 1) ch1 (block + 1) (acc @ view content ch1 block) = (ch', buf, err)"
        using less.prems(3) read_loop_step(2) [OF n0 f [unfolded Inl]] by simp
      have "n - 1 < n" "unat (block + 1) + (n - 1) \<le> 2 ^ 64" using n0 step [of 1] by auto
      from less.IH [OF this(1) ok1 this(2) rl]
      have "same_view content ch1 ch' \<and> (err = 0 \<longrightarrow> buf = acc @ view content ch1 block @ view_run content ch1 (block + 1) (n - 1))"
        by simp
      moreover have "view_run content ch1 block n = view content ch1 block @ view_run content ch1 (block + 1) (n - 1)"
        using view_run_Suc [of content ch1 block "n - 1"] n0 by simp
      ultimately show ?thesis using same_view_trans [OF s1] view_run_same [OF s1, of block n] by auto
    next
      case (Inr e)
      obtain ch2 i where u: "uncached_run ch1 block 1 (n - 1) = (ch2, i)" by (metis surj_pair)
      obtain ch3 cp e3 where rr: "raw_read_blk ops ch2 block (int i) = (ch3, cp, e3)" by (metis prod_cases3)
      obtain ch4 e4 where sv: "save_in_cache ops i ch3 block cp = (ch4, e4)" by (metis surj_pair)
      note rl = read_loop_step(3) [OF n0 f [unfolded Inr] u rr sv, of acc]
      have len1: "length (xd_cache ch1) = CACHE_SIZE" using ok1 by (simp add: cache_ok_def)
      have "k < 1 \<Longrightarrow> \<not> (\<exists>m. cached_at ch1 m (block + of_nat k))" for k
        using fr Inr chan_eq_cached_at [OF eq1] by simp
      note un = uncached_run [where content = content, OF len1 u this]
      have i: "1 \<le> i" "i \<le> n" using un n0 by auto
      have s2: "same_view content ch1 ch2" using chan_eq_same_view [OF _ ok1] un by blast
      have ok2: "cache_ok content ch2" by (rule same_view_ok [OF s2])
      obtain d where d: "ch3 = ch2\<lparr>xd_vp := d\<rparr>" "content d = content (xd_vp ch2)"
        using raw_read_blk(1) [OF assms(1) rr] by blast
      have "chan_eq content ch2 ch3" using d by (simp add: chan_eq_def entry_eq_def)
      then have s3: "same_view content ch2 ch3" by (rule chan_eq_same_view [OF _ ok2])
      show ?thesis
      proof (cases "e3 = 0")
        case False
        then have "ch' = ch3" "err = e3" using less.prems(3) rl by auto
        then show ?thesis using False same_view_trans [OF s1 same_view_trans [OF s2 s3]] by simp
      next
        case True
        have "dev_block content ch2 (block + of_nat k) = view content ch2 (block + of_nat k)" if "k < i" for k
        proof -
          have "\<not> (\<exists>m. cached_at ch2 m (block + of_nat k))"
            using un that chan_eq_cached_at [of content ch1 ch2] by auto
          then show ?thesis by (rule view_uncached [symmetric])
        qed
        then have "map (\<lambda>k. dev_block content ch2 (block + of_nat k)) [0..<i] = map (\<lambda>k. view content ch2 (block + of_nat k)) [0..<i]"
          by simp
        moreover have "cp = concat (map (\<lambda>k. dev_block content ch2 (block + of_nat k)) [0..<i])"
          using raw_read_blk(2) [OF assms(1) rr True] dev_bytes_run [of block i content ch2] i less.prems(2) by simp
        ultimately have cp: "cp = view_run content ch2 block i" by (simp only: view_run_def)
        have cp3: "cp = view_run content ch3 block i" using cp view_run_same [OF s3] by simp
        have s4: "same_view content ch3 ch4" using save_in_cache [OF assms(1) same_view_ok [OF s3] cp3 sv] by blast
        have s: "same_view content ch ch4" using same_view_trans [OF s1 same_view_trans [OF s2 same_view_trans [OF s3 s4]]] .
        show ?thesis
        proof (cases "e4 = 0")
          case False
          then have "ch' = ch4" "err = e4" using less.prems(3) rl True by auto
          then show ?thesis using False s by simp
        next
          case e4: True
          have r: "read_loop ops (n - i) ch4 (block + of_nat i) (acc @ cp) = (ch', buf, err)"
            using less.prems(3) rl True e4 by simp
          have lt: "n - i < n" "unat (block + of_nat i) + (n - i) \<le> 2 ^ 64" using i step [of i] by auto
          have "view_run content ch block n = view_run content ch block i @ view_run content ch (block + of_nat i) (n - i)"
            using view_run_add [of content ch block i "n - i"] i by simp
          moreover have "cp = view_run content ch block i" using cp view_run_same [OF s1] view_run_same [OF s2] by simp
          ultimately show ?thesis
            using less.IH [OF lt(1) same_view_ok [OF s] lt(2) r] same_view_trans [OF s] view_run_same [OF s] by simp
        qed
      qed
    qed
  qed
qed

section \<open>Writing\<close>

text \<open>The abstract write: \<open>n\<close> blocks from \<open>block\<close> on, one after the other.\<close>

primrec put_blocks :: "(u64 \<Rightarrow> u8 list) \<Rightarrow> u64 \<Rightarrow> nat \<Rightarrow> nat \<Rightarrow> u8 list \<Rightarrow> u64 \<Rightarrow> u8 list" where
  "put_blocks v block bs 0 buf = v"
| "put_blocks v block bs (Suc n) buf = put_blocks (v(block := take bs buf)) (block + 1) bs n (drop bs buf)"

lemma set_entry:
  assumes ok: "cache_ok content ch" and i: "cached_at ch i b" and len: "length buf = io_block_size ch"
  defines "ch' \<equiv> xc_upd ch i (\<lambda>c. c\<lparr>xc_buf := buf, xc_dirty := True\<rparr>)"
  shows "cache_ok content ch'" "view content ch' = (view content ch)(b := buf)"
proof -
  have il: "i < length (xd_cache ch)" using i by (simp add: cached_at_def)
  have at: "cached_at ch' j c \<longleftrightarrow> cached_at ch j c" for j c
    using il by (auto simp: cached_at_def ch'_def xc_upd_nth)
  show ok': "cache_ok content ch'"
    using ok len il unfolding cache_ok_def at by (auto simp: ch'_def xc_upd_nth)
  show "view content ch' = (view content ch)(b := buf)"
  proof
    fix c
    show "view content ch' c = ((view content ch)(b := buf)) c"
    proof (cases "\<exists>j. cached_at ch j c")
      case True
      then obtain j where j: "cached_at ch j c" by blast
      have "j = i \<longleftrightarrow> c = b" using ok i j unfolding cache_ok_def by (auto simp: cached_at_def)
      then show ?thesis using view_cached [OF ok j] view_cached [OF ok', of j c] at j il by (simp add: ch'_def xc_upd_nth)
    next
      case False
      then have "c \<noteq> b" using i by auto
      then show ?thesis using False at by (simp add: view_uncached) (simp add: ch'_def)
    qed
  qed
qed

lemma write_loop:
  assumes "vnode_ok ops content" "cache_ok content ch" "n * io_block_size ch \<le> length buf"
    "write_loop ops False n ch block buf rv = (ch', err)"
  shows "err = rv \<and> cache_ok content ch' \<and> io_block_size ch' = io_block_size ch \<and> io_magic ch' = io_magic ch
    \<and> xd_magic ch' = xd_magic ch \<and> xd_flags ch' = xd_flags ch \<and> io_flags ch' = io_flags ch
    \<and> (\<exists>k \<le> n. view content ch' = put_blocks (view content ch) block (io_block_size ch) k buf
         \<and> (vnode_reliable ops \<longrightarrow> k = n))"
  using assms
proof (induction n arbitrary: ch block buf)
  case 0
  then show ?case by auto
next
  case (Suc n)
  define x where "x = take (io_block_size ch) buf"
  have len: "length (xd_cache ch) = CACHE_SIZE" using Suc.prems(2) by (simp add: cache_ok_def)
  have lx: "length x = io_block_size ch" using Suc.prems(3) by (simp add: x_def)
  obtain ch1 r where f: "find_cached_block ch block = (ch1, r)" by (metis surj_pair)
  note eq1 = find_cached_block(1) [where content = content, OF len f] and fr = find_cached_block(2) [OF len f]
  have s1: "same_view content ch ch1" by (rule chan_eq_same_view [OF eq1 Suc.prems(2)])
  have ok1: "cache_ok content ch1" by (rule same_view_ok [OF s1])
  have p1: "io_block_size ch1 = io_block_size ch" "view content ch1 = view content ch" "io_magic ch1 = io_magic ch"
    "xd_magic ch1 = xd_magic ch" "xd_flags ch1 = xd_flags ch" "io_flags ch1 = io_flags ch"
    using s1 by (simp_all add: same_view_def)
  have go: ?case
    if "cache_ok content ch3" "view content ch3 = (view content ch)(block := x)" "io_block_size ch3 = io_block_size ch"
      "io_magic ch3 = io_magic ch" "xd_magic ch3 = xd_magic ch" "xd_flags ch3 = xd_flags ch" "io_flags ch3 = io_flags ch"
      "write_loop ops False n ch3 (block + 1) (drop (io_block_size ch) buf) rv = (ch', err)" for ch3
  proof -
    note h = that
    have l: "n * io_block_size ch3 \<le> length (drop (io_block_size ch) buf)" using Suc.prems(3) h(3) by simp
    have IH: "err = rv \<and> cache_ok content ch' \<and> io_block_size ch' = io_block_size ch3 \<and> io_magic ch' = io_magic ch3
      \<and> xd_magic ch' = xd_magic ch3 \<and> xd_flags ch' = xd_flags ch3 \<and> io_flags ch' = io_flags ch3
      \<and> (\<exists>k \<le> n. view content ch' = put_blocks (view content ch3) (block + 1) (io_block_size ch3) k (drop (io_block_size ch) buf)
           \<and> (vnode_reliable ops \<longrightarrow> k = n))"
      by (rule Suc.IH [OF Suc.prems(1) h(1) l h(8)])
    then obtain k where k: "k \<le> n" "vnode_reliable ops \<longrightarrow> k = n"
      "view content ch' = put_blocks (view content ch3) (block + 1) (io_block_size ch3) k (drop (io_block_size ch) buf)"
      by blast
    have "view content ch' = put_blocks (view content ch) block (io_block_size ch) (Suc k) buf"
      unfolding k(3) h(2,3) by (simp add: x_def)
    moreover have "Suc k \<le> Suc n" "vnode_reliable ops \<longrightarrow> Suc k = Suc n" using k by auto
    ultimately show ?case using IH h(3-7) by metis
  qed
  show ?case
  proof (cases r)
    case (Inl i)
    have at1: "cached_at ch1 i block" using fr Inl chan_eq_cached_at [OF eq1] by simp
    have "write_loop ops False n (xc_upd ch1 i (\<lambda>c. c\<lparr>xc_buf := x, xc_dirty := True\<rparr>)) (block + 1) (drop (io_block_size ch) buf) rv = (ch', err)"
      using Suc.prems(4) f Inl p1(1) by (simp add: x_def)
    then show ?thesis
      using set_entry [OF ok1 at1, of x] lx p1 by (intro go) simp_all
  next
    case (Inr e)
    then obtain k where k: "e = Some k" "k < CACHE_SIZE" and new: "\<not> (\<exists>i. cached_at ch1 i block)"
      using fr chan_eq_cached_at [OF eq1] by auto
    obtain ch2 e1 where rc: "reuse_cache ops ch1 k block = (ch2, e1)" by (metis surj_pair)
    note ru = reuse_cache [OF ok1 Suc.prems(1) k(2) new rc]
    show ?thesis
    proof (cases "e1 = 0")
      case False
      then have r: "ch' = ch2" "err = rv" using Suc.prems(4) f Inr k rc by auto
      have s: "same_view content ch ch2" using same_view_trans [OF s1 ru(1) [OF False]] .
      have "\<not> vnode_reliable ops" using ru(2) False by blast
      moreover have "view content ch2 = put_blocks (view content ch) block (io_block_size ch) 0 buf"
        using s by (simp add: same_view_def)
      ultimately show ?thesis using r s by (auto simp: same_view_def intro!: exI [of _ 0])
    next
      case True
      have lx1: "length x = io_block_size ch1" using lx p1(1) by simp
      have "cache_ok content (xc_upd ch2 k (\<lambda>c. c\<lparr>xc_buf := x, xc_dirty := True\<rparr>))
          \<and> view content (xc_upd ch2 k (\<lambda>c. c\<lparr>xc_buf := x, xc_dirty := True\<rparr>)) = (view content ch1)(block := x)"
        by (rule ru(3) [OF True lx1]) simp
      moreover have "write_loop ops False n (xc_upd ch2 k (\<lambda>c. c\<lparr>xc_buf := x, xc_dirty := True\<rparr>)) (block + 1)
          (drop (io_block_size ch) buf) rv = (ch', err)"
        using Suc.prems(4) f Inr k rc True ru(4) [OF True] p1(1) by (simp add: x_def)
      ultimately show ?thesis using ru(4) [OF True] p1 by (intro go) simp_all
    qed
  qed
qed

end
