(* ===== verification/Io_Theorems.thy ===== *)
theory Io_Theorems
  imports Xnu_cache
begin

text \<open>
  The I/O channel as a block device. \<open>xnu_inv\<close> is what the operations rely on: a sound cache, the two
  magic numbers, and neither the option that turns the cache off nor the one that writes through it.
  The operations are then those of an array of blocks, \<open>block_store\<close>, as long as a write has at most
  four blocks; the theorems say exactly what goes wrong beyond that.
\<close>

definition xnu_inv :: "('d \<Rightarrow> int \<Rightarrow> u8) \<Rightarrow> 'd io_channel \<Rightarrow> bool" where
  "xnu_inv content ch \<longleftrightarrow> cache_ok content ch \<and> io_checks ch = 0
     \<and> xd_flags ch AND IO_FLAG_NOCACHE = 0 \<and> io_flags ch AND CHANNEL_FLAGS_WRITETHROUGH = 0"

lemma same_view_inv: "same_view content ch ch' \<Longrightarrow> xnu_inv content ch \<Longrightarrow> xnu_inv content ch'"
  by (simp add: xnu_inv_def same_view_def io_checks_def split: if_splits)

section \<open>Reading\<close>

lemma dev_run_view:
  assumes "\<And>b. view content ch b = dev_block content ch b" "unat block + n \<le> 2 ^ 64"
  shows "dev_bytes content ch block (n * io_block_size ch) = view_run content ch block n"
  using dev_bytes_run [OF assms(2), of content ch] assms(1) by (simp only: view_run_def)

lemma xnu_read:
  assumes v: "vnode_ok ops content" and inv: "xnu_inv content ch" and fits: "unat block + n \<le> 2 ^ 64"
    and r: "xnu_read_blk64 ops ch block (int n) = (ch', buf, err)"
  shows "same_view content ch ch'" "err = 0 \<Longrightarrow> buf = view_run content ch block n"
proof -
  have ok: "cache_ok content ch" using inv by (simp add: xnu_inv_def)
  have "same_view content ch ch' \<and> (err = 0 \<longrightarrow> buf = view_run content ch block n)"
  proof (cases "int n > WRITE_DIRECT_SIZE")
    case False
    then have "read_loop ops n ch block [] = (ch', buf, err)"
      using r inv by (simp add: xnu_read_blk64_def xnu_inv_def)
    from read_loop [OF v ok fits this] show ?thesis by simp
  next
    case True
    obtain ch1 e1 where f: "flush_cached_blocks ops ch False = (ch1, e1)" by (metis surj_pair)
    note fl = flush [OF v ok f]
    have ok1: "cache_ok content ch1" by (rule same_view_ok [OF fl(1)])
    show ?thesis
    proof (cases "e1 = 0")
      case False
      then show ?thesis using r inv True f fl(1) by (simp add: xnu_read_blk64_def xnu_inv_def)
    next
      case e: True
      then have rr: "raw_read_blk ops ch1 block (int n) = (ch', buf, err)"
        using r inv True f by (simp add: xnu_read_blk64_def xnu_inv_def)
      have dv: "view content ch1 b = dev_block content ch1 b" for b
        using flushed_view [OF ok1] fl(3) [OF e] by blast
      obtain d where "ch' = ch1\<lparr>xd_vp := d\<rparr>" "content d = content (xd_vp ch1)"
        using raw_read_blk(1) [OF v rr] by blast
      then have "chan_eq content ch1 ch'" by (simp add: chan_eq_def entry_eq_def)
      then have s: "same_view content ch ch'" using same_view_trans [OF fl(1) chan_eq_same_view [OF _ ok1]] by blast
      have "err = 0 \<Longrightarrow> buf = view_run content ch1 block n"
        using raw_read_blk(2) [OF v rr] dev_run_view [OF dv fits] by simp
      then show ?thesis using s view_run_same [OF fl(1)] by simp
    qed
  qed
  then show "same_view content ch ch'" "err = 0 \<Longrightarrow> buf = view_run content ch block n" by blast+
qed

section \<open>Writing\<close>

lemma xnu_small_write:
  assumes v: "vnode_ok ops content" and inv: "xnu_inv content ch" and n: "n \<le> 4" and l: "n * io_block_size ch \<le> length buf"
    and r: "xnu_write_blk64 ops ch block (int n) buf = (ch', err)"
  shows "err = 0" "xnu_inv content ch'" "io_block_size ch' = io_block_size ch"
    "\<exists>k \<le> n. view content ch' = put_blocks (view content ch) block (io_block_size ch) k buf \<and> (vnode_reliable ops \<longrightarrow> k = n)"
proof -
  have ok: "cache_ok content ch" using inv by (simp add: xnu_inv_def)
  have w: "write_loop ops False n ch block buf 0 = (ch', err)"
    using r inv n by (simp add: xnu_write_blk64_def xnu_inv_def)
  note wl = write_loop [OF v ok l w]
  then show "err = 0" "io_block_size ch' = io_block_size ch"
    "\<exists>k \<le> n. view content ch' = put_blocks (view content ch) block (io_block_size ch) k buf \<and> (vnode_reliable ops \<longrightarrow> k = n)"
    by blast+
  show "xnu_inv content ch'" using wl inv by (simp add: xnu_inv_def io_checks_def split: if_splits)
qed


lemma put_blocks:
  assumes "n \<le> 2 ^ 64"
  shows "put_blocks v block bs n buf c =
    (if unat (c - block) < n then take bs (drop (unat (c - block) * bs) buf) else v c)"
  using assms
proof (induction n arbitrary: v block buf)
  case 0
  then show ?case by simp
next
  case (Suc n)
  have IH: "put_blocks (v(block := take bs buf)) (block + 1) bs n (drop bs buf) c =
      (if unat (c - (block + 1)) < n then take bs (drop (unat (c - (block + 1)) * bs) (drop bs buf))
       else (v(block := take bs buf)) c)"
    by (rule Suc.IH) (use Suc.prems in simp)
  show ?case
  proof (cases "c = block")
    case True
    have "unat (- 1 :: u64) = 2 ^ 64 - 1" by (simp add: unsigned_minus_1_eq_mask mask_eq_exp_minus_1)
    then have "\<not> unat (c - (block + 1)) < n" using True Suc.prems by simp
    then show ?thesis unfolding put_blocks.simps IH using True by simp
  next
    case False
    define x where "x = c - block"
    have "x \<noteq> 0" using False by (simp add: x_def)
    then have "unat x = Suc (unat (x - 1))"
      by (metis Suc_pred' unat_gt_0 unat_minus_one)
    moreover have "c - (block + 1) = x - 1" by (simp add: x_def)
    ultimately have u: "unat (c - block) = Suc (unat (c - (block + 1)))" by (simp only: x_def)
    show ?thesis unfolding put_blocks.simps IH u using False by (simp add: add.commute [of bs])
  qed
qed

lemma xfer_location_add:
  assumes "unat block + k < 2 ^ 64"
  shows "xfer_location ch (block + of_nat k) = xfer_location ch block + int (k * io_block_size ch)"
proof -
  have "unat (of_nat k :: u64) = k" unfolding unat_of_nat using assms by (intro mod_less) simp
  then have "unat (block + of_nat k) = unat block + k" using assms by (simp add: unat_word_ariths)
  then have "uint (block + of_nat k) = uint block + int k" by (metis of_nat_add uint_nat)
  then show ?thesis by (simp add: xfer_location_def algebra_simps)
qed

lemma raw_write_view:
  assumes v: "vnode_ok ops content" and r: "raw_write_blk ops ch block (int n) buf = (ch', 0)"
    and l: "length buf = n * io_block_size ch" and fits: "unat block + n \<le> 2 ^ 64" and n: "0 < n"
  shows "dev_block content ch' c =
    (if unat (c - block) < n then take (io_block_size ch) (drop (unat (c - block) * io_block_size ch) buf)
     else dev_block content ch c)"
proof -
  define s where "s = io_block_size ch"
  define k where "k = unat (c - block)"
  obtain d where d: "ch' = ch\<lparr>xd_vp := d\<rparr>"
    "\<And>a. a < xfer_location ch block \<or> xfer_location ch block + int (length buf) \<le> a \<Longrightarrow> content d a = content (xd_vp ch) a"
    "\<And>i. i < length buf \<Longrightarrow> content d (xfer_location ch block + int i) = buf ! i"
    using raw_write_blk(1) [OF v r l] by auto
  have loc: "xfer_location ch' b = xfer_location ch b" for b by (simp add: d(1) xfer_location_def)
  show ?thesis
  proof (cases "k < n")
    case True
    have c: "c = block + of_nat k" by (simp add: k_def)
    have x: "xfer_location ch c = xfer_location ch block + int (k * s)"
      unfolding c s_def using True fits by (intro xfer_location_add) simp
    have m: "k * s + s \<le> n * s" using True mult_le_mono1 [of "Suc k" n s] by simp
    have "dev_block content ch' c = take s (drop (k * s) buf)"
    proof (rule nth_equalityI)
      show "length (dev_block content ch' c) = length (take s (drop (k * s) buf))"
        using m l by (simp add: d(1) s_def)
      fix i assume "i < length (dev_block content ch' c)"
      then have i: "i < s" by (simp add: d(1) s_def)
      have "content d (xfer_location ch block + int (k * s + i)) = buf ! (k * s + i)"
        using i m l by (intro d(3)) (simp add: s_def)
      moreover have "k * s \<le> length buf" using m l unfolding s_def [symmetric] by linarith
      ultimately show "dev_block content ch' c ! i = take s (drop (k * s) buf) ! i"
        using i m l unfolding dev_bytes_def loc x by (simp add: d(1) s_def add.assoc nth_drop)
    qed
    then show ?thesis using True by (simp add: k_def s_def)
  next
    case False
    have "content d (xfer_location ch c + int i) = content (xd_vp ch) (xfer_location ch c + int i)" if i: "i < s" for i
    proof (cases "c < block")
      case True
      then have "c \<noteq> block" "uint c < uint block" by (auto simp: word_less_def)
      then have "(uint c + 1) * int s \<le> uint block * int s" by (intro mult_right_mono) simp_all
      then show ?thesis using i by (intro d(2) disjI1) (simp add: xfer_location_def s_def algebra_simps)
    next
      case ge: False
      define last where "last = block + of_nat (n - 1)"
      have "unat c = unat block + k" using ge by (simp add: k_def unat_sub linorder_not_less word_le_nat_alt)
      then have "unat block + n \<le> unat c" using False by simp
      then have "int (unat block + n) \<le> uint c" unfolding uint_nat by (simp only: of_nat_le_iff)
      then have "(uint block + int n) * int s \<le> uint c * int s" unfolding uint_nat by (intro mult_right_mono) simp_all
      then show ?thesis using l by (intro d(2) disjI2) (simp add: xfer_location_def s_def algebra_simps)
    qed
    then show ?thesis using False unfolding dev_bytes_def loc k_def s_def by (simp add: d(1))
  qed
qed

lemma flush_keeps_clean:
  assumes "flush_loop ops invalidate n ch i rv ef = (ch', rv', ef')" "cached_at ch j b" "\<not> dirty_at ch j"
  shows "cached_at ch' j b"
  using assms
proof (induction n arbitrary: ch i rv ef)
  case 0
  then show ?case by simp
next
  case (Suc n)
  show ?case
  proof (cases "dirty_at ch i")
    case False
    then show ?thesis using Suc by (auto simp: dirty_at_def Let_def)
  next
    case True
    then have ij: "i \<noteq> j" using Suc.prems(3) by blast
    obtain ch1 e where w: "raw_write_blk ops ch (xc_block (xd_cache ch ! i)) 1 (xc_buf (xd_cache ch ! i)) = (ch1, e)"
      by (metis surj_pair)
    have "xd_cache ch1 = xd_cache ch"
      using w by (auto simp: raw_write_blk_def Let_def split: prod.splits if_splits)
    then have "cached_at (xc_upd ch1 i f) j b" "\<not> dirty_at (xc_upd ch1 i f) j" for f
      using Suc.prems(2,3) ij by (auto simp: cached_at_def dirty_at_def xc_upd_def)
    then show ?thesis using Suc.IH Suc.prems(1) True w by (auto simp: dirty_at_def Let_def split: if_splits)
  qed
qed

lemma xnu_large_write:
  assumes v: "vnode_ok ops content" and rel: "vnode_reliable ops" and inv: "xnu_inv content ch" and n: "4 < n"
    and l: "length buf = n * io_block_size ch" and fits: "unat block + n \<le> 2 ^ 64"
    and r: "xnu_write_blk64 ops ch block (int n) buf = (ch', err)"
  shows "err = 0"
    "view content ch' c = (if \<exists>j. cached_at ch j c \<and> \<not> dirty_at ch j then view content ch c
       else put_blocks (view content ch) block (io_block_size ch) n buf c)"
    "\<lbrakk>\<not> (\<exists>k j. k < n \<and> cached_at ch j (block + of_nat k) \<and> \<not> dirty_at ch j)\<rbrakk> \<Longrightarrow> xnu_inv content ch'"
proof -
  have ok: "cache_ok content ch" using inv by (simp add: xnu_inv_def)
  obtain ch1 e1 where f: "flush_cached_blocks ops ch True = (ch1, e1)" by (metis surj_pair)
  note fl = flush [OF v ok f]
  have e1: "e1 = 0" by (rule fl(2) [OF rel])
  have s: "same_view content ch ch1" by (rule fl(1))
  have ok1: "cache_ok content ch1" by (rule same_view_ok [OF s])
  have rr: "raw_write_blk ops ch1 block (int n) buf = (ch', err)"
    using r inv n f e1 by (simp add: xnu_write_blk64_def xnu_inv_def)
  have bs: "io_block_size ch1 = io_block_size ch" using s by (simp add: same_view_def)
  show e: "err = 0" using raw_write_blk(2) [OF v rr] rel l bs by simp
  obtain d where d: "ch' = ch1\<lparr>xd_vp := d\<rparr>" using raw_write_blk(1) [OF v rr] l bs by auto
  have at': "cached_at ch' j b \<longleftrightarrow> cached_at ch1 j b" for j b by (simp add: d)
  have clean: "cached_at ch1 j b \<longleftrightarrow> cached_at ch j b \<and> \<not> dirty_at ch j" for j b
  proof
    show "cached_at ch1 j b \<Longrightarrow> cached_at ch j b \<and> \<not> dirty_at ch j" using fl(4) [OF e1] by simp
    obtain ch2 rv ef where fl2: "flush_loop ops True CACHE_SIZE ch 0 0 False = (ch2, rv, ef)" by (metis prod_cases3)
    then have c2: "ch1 = ch2 \<or> ch1 = ch2\<lparr>xd_cache := map (\<lambda>c. if xc_in_use c \<and> xc_write_err c then c\<lparr>xc_write_err := False\<rparr> else c) (xd_cache ch2)\<rparr>"
      using f by (auto simp: flush_cached_blocks_def split: if_splits)
    assume "cached_at ch j b \<and> \<not> dirty_at ch j"
    then have "cached_at ch2 j b" using flush_keeps_clean [OF fl2] by blast
    then show "cached_at ch1 j b" using c2 by (auto simp: cached_at_def)
  qed
  have w: "dev_block content ch' b = (if unat (b - block) < n
      then take (io_block_size ch) (drop (unat (b - block) * io_block_size ch) buf) else dev_block content ch1 b)" for b
    using raw_write_view [OF v, of ch1 block n buf ch' b] rr e l bs fits n by simp
  have n64: "n \<le> 2 ^ 64" using fits by simp
  show vw: "view content ch' c = (if \<exists>j. cached_at ch j c \<and> \<not> dirty_at ch j then view content ch c
       else put_blocks (view content ch) block (io_block_size ch) n buf c)"
  proof (cases "\<exists>j. cached_at ch1 j c")
    case True
    then obtain j where j: "cached_at ch1 j c" by blast
    have "find (\<lambda>x. xc_in_use x \<and> xc_block x = c) (xd_cache ch1) \<noteq> None"
      using j by (auto simp: find_None_iff cached_at_def)
    then have "view content ch' c = view content ch1 c" by (auto simp: view_def d)
    then show ?thesis using s clean True by (auto simp: same_view_def)
  next
    case False
    then have "view content ch' c = dev_block content ch' c" "view content ch1 c = dev_block content ch1 c"
      using at' by (auto intro!: view_uncached)
    moreover have "\<not> (\<exists>j. cached_at ch j c \<and> \<not> dirty_at ch j)" using False clean by blast
    ultimately show ?thesis using s w [of c] put_blocks [OF n64, of "view content ch" block "io_block_size ch" buf c]
      by (simp only: same_view_def if_False)
  qed
  assume none: "\<not> (\<exists>k j. k < n \<and> cached_at ch j (block + of_nat k) \<and> \<not> dirty_at ch j)"
  have nc: "\<not> unat (b - block) < n" if "cached_at ch1 j b" for j b
  proof
    assume a: "unat (b - block) < n"
    have "b = block + of_nat (unat (b - block))" by simp
    then show False using none a that clean by metis
  qed
  have "cache_ok content ch'"
    unfolding cache_ok_def
  proof (intro conjI allI impI)
    show "length (xd_cache ch') = CACHE_SIZE" "0 < io_block_size ch'" using ok1 by (simp_all add: cache_ok_def d)
    fix i b
    { fix j assume "cached_at ch' i b \<and> cached_at ch' j b"
      then show "i = j" using ok1 unfolding cache_ok_def at' by blast }
    assume i: "cached_at ch' i b"
    show "length (xc_buf (xd_cache ch' ! i)) = io_block_size ch'"
      using ok1 i unfolding cache_ok_def at' by (auto simp: d)
    assume "\<not> xc_dirty (xd_cache ch' ! i)"
    then have "xc_buf (xd_cache ch' ! i) = dev_block content ch1 b"
      using ok1 i unfolding cache_ok_def at' by (auto simp: d)
    then show "xc_buf (xd_cache ch' ! i) = dev_block content ch' b" using w [of b] nc i at' by simp
  qed
  then show "xnu_inv content ch'"
    using inv s by (simp add: xnu_inv_def same_view_def d io_checks_def split: if_splits)
qed


section \<open>An array of blocks\<close>

datatype io_op = Rd u64 nat | Wr u64 nat "u8 list"

definition op_fits :: "nat \<Rightarrow> nat \<Rightarrow> io_op \<Rightarrow> bool" where
  "op_fits bs lim x =
     (case x of Rd b n \<Rightarrow> unat b + n \<le> 2 ^ 64 | Wr b n buf \<Rightarrow> n \<le> lim \<and> n * bs \<le> length buf)"

definition array_run :: "(u64 \<Rightarrow> u8 list) \<Rightarrow> u64 \<Rightarrow> nat \<Rightarrow> u8 list" where
  "array_run v block n = concat (map (\<lambda>k. v (block + of_nat k)) [0..<n])"

text \<open>What an array of blocks answers to a list of requests, and what it holds in the end.\<close>

primrec array_ops :: "nat \<Rightarrow> io_op list \<Rightarrow> (u64 \<Rightarrow> u8 list) \<Rightarrow> (u64 \<Rightarrow> u8 list) \<times> u8 list list" where
  "array_ops bs [] v = (v, [])"
| "array_ops bs (x # xs) v =
     (case x of
        Rd b n \<Rightarrow> (let (v', rs) = array_ops bs xs v in (v', array_run v b n # rs))
      | Wr b n buf \<Rightarrow> (let (v', rs) = array_ops bs xs (put_blocks v b bs n buf) in (v', [] # rs)))"

primrec io_ops ::
  "('s \<Rightarrow> u64 \<Rightarrow> nat \<Rightarrow> 's \<times> u8 list \<times> errcode) \<Rightarrow> ('s \<Rightarrow> u64 \<Rightarrow> nat \<Rightarrow> u8 list \<Rightarrow> 's \<times> errcode) \<Rightarrow>
   io_op list \<Rightarrow> 's \<Rightarrow> 's \<times> (u8 list \<times> errcode) list" where
  "io_ops rd wr [] s = (s, [])"
| "io_ops rd wr (x # xs) s =
     (case x of
        Rd b n \<Rightarrow> (let (s, buf, err) = rd s b n; (s, rs) = io_ops rd wr xs s in (s, (buf, err) # rs))
      | Wr b n buf \<Rightarrow> (let (s, err) = wr s b n buf; (s, rs) = io_ops rd wr xs s in (s, ([], err) # rs)))"

definition answers :: "(u8 list \<times> errcode) list \<Rightarrow> u8 list list \<Rightarrow> bool" where
  "answers rs as = list_all2 (\<lambda>(buf, err) a. err = 0 \<longrightarrow> buf = a) rs as"

locale block_store =
  fixes inv :: "'s \<Rightarrow> bool" and blocks :: "'s \<Rightarrow> u64 \<Rightarrow> u8 list" and bsize :: "'s \<Rightarrow> nat" and lim :: nat
    and rd :: "'s \<Rightarrow> u64 \<Rightarrow> nat \<Rightarrow> 's \<times> u8 list \<times> errcode"
    and wr :: "'s \<Rightarrow> u64 \<Rightarrow> nat \<Rightarrow> u8 list \<Rightarrow> 's \<times> errcode"
  assumes rd: "inv s \<Longrightarrow> unat b + n \<le> 2 ^ 64 \<Longrightarrow> rd s b n = (s', buf, err) \<Longrightarrow>
      inv s' \<and> bsize s' = bsize s \<and> blocks s' = blocks s \<and> (err = 0 \<longrightarrow> buf = array_run (blocks s) b n)"
    and wr: "inv s \<Longrightarrow> n \<le> lim \<Longrightarrow> n * bsize s \<le> length buf \<Longrightarrow> wr s b n buf = (s', err) \<Longrightarrow>
      inv s' \<and> bsize s' = bsize s \<and> blocks s' = put_blocks (blocks s) b (bsize s) n buf"
begin

lemma ops_refine:
  assumes "inv s" "list_all (op_fits (bsize s) lim) xs" "io_ops rd wr xs s = (s', rs)"
  shows "inv s' \<and> bsize s' = bsize s \<and> blocks s' = fst (array_ops (bsize s) xs (blocks s))
    \<and> answers rs (snd (array_ops (bsize s) xs (blocks s)))"
  using assms
proof (induction xs arbitrary: s rs)
  case Nil
  then show ?case by (simp add: answers_def)
next
  case (Cons x xs)
  show ?case
  proof (cases x)
    case (Rd b n)
    obtain s1 buf err where r: "rd s b n = (s1, buf, err)" by (metis prod_cases3)
    obtain rs1 where i: "io_ops rd wr xs s1 = (s', rs1)" "rs = (buf, err) # rs1"
      using Cons.prems(3) Rd r by (auto split: prod.splits)
    have k: "inv s1" "bsize s1 = bsize s" "blocks s1 = blocks s" "err = 0 \<longrightarrow> buf = array_run (blocks s) b n"
      using rd [OF Cons.prems(1) _ r] Cons.prems(2) Rd by (auto simp: op_fits_def)
    have "list_all (op_fits (bsize s1) lim) xs" using Cons.prems(2) k(2) by simp
    note IH = Cons.IH [OF k(1) this i(1)]
    then show ?thesis using k i(2) Rd by (auto simp: answers_def split: prod.splits)
  next
    case (Wr b n buf)
    obtain s1 err where r: "wr s b n buf = (s1, err)" by (metis surj_pair)
    obtain rs1 where i: "io_ops rd wr xs s1 = (s', rs1)" "rs = ([], err) # rs1"
      using Cons.prems(3) Wr r by (auto split: prod.splits)
    have k: "inv s1" "bsize s1 = bsize s" "blocks s1 = put_blocks (blocks s) b (bsize s) n buf"
      using wr [OF Cons.prems(1) _ _ r] Cons.prems(2) Wr by (auto simp: op_fits_def)
    have "list_all (op_fits (bsize s1) lim) xs" using Cons.prems(2) k(2) by simp
    note IH = Cons.IH [OF k(1) this i(1)]
    then show ?thesis using k i(2) Wr by (auto simp: answers_def split: prod.splits)
  qed
qed

lemma write_read_back:
  assumes "inv s" "n \<le> lim" "length buf = n * bsize s" "unat b + n \<le> 2 ^ 64" "wr s b n buf = (s1, e1)" "rd s1 b n = (s2, x, 0)"
  shows "x = array_run (put_blocks (blocks s) b (bsize s) n buf) b n"
  using wr [OF assms(1,2) _ assms(5)] rd [OF _ assms(4,6)] assms(3) by auto

end

text \<open>The channel, over a vnode whose writes succeed, is such a store.\<close>

interpretation xnu: block_store
  "\<lambda>ch. vnode_ok ops content \<and> vnode_reliable ops \<and> xnu_inv content ch" "view content" io_block_size 4
  "\<lambda>ch b n. xnu_read_blk64 ops ch b (int n)" "\<lambda>ch b n buf. xnu_write_blk64 ops ch b (int n) buf"
  for ops :: "'d vnode_ops" and content
proof (unfold_locales, goal_cases)
  case (1 ch b n ch' buf err)
  then have s: "same_view content ch ch'" "err = 0 \<longrightarrow> buf = view_run content ch b n" using xnu_read by blast+
  then show ?case using 1(1) same_view_inv [OF s(1)] by (simp add: same_view_def array_run_def view_run_def)
next
  case (2 ch n buf b ch' err)
  then have v: "vnode_ok ops content" and i: "xnu_inv content ch" and r: "vnode_reliable ops" by simp_all
  note w = xnu_small_write [OF v i 2(2-4)]
  show ?case using w(2-4) v r by auto
qed

section \<open>Writes that are lost\<close>

lemma write_dropped:
  assumes v: "vnode_ok ops content" and bad: "\<And>d buf off. snd (vpwrite ops d buf off) < 0"
    and ok: "cache_ok content ch" and dirty: "\<And>j. j < CACHE_SIZE \<Longrightarrow> dirty_at ch j"
    and new: "\<not> (\<exists>j. cached_at ch j block)"
    and r: "write_loop ops False n ch block buf 0 = (ch', err)"
  shows "err = 0" "view content ch' = view content ch"
proof -
  have "err = 0 \<and> view content ch' = view content ch"
  proof (cases n)
    case 0
    then show ?thesis using r by simp
  next
    case (Suc m)
    have len: "length (xd_cache ch) = CACHE_SIZE" using ok by (simp add: cache_ok_def)
    obtain ch1 q where f: "find_cached_block ch block = (ch1, q)" by (metis surj_pair)
    note eq1 = find_cached_block(1) [where content = content, OF len f] and fr = find_cached_block(2) [OF len f]
    note s1 = chan_eq_same_view [OF eq1 ok]
    obtain k where q: "q = Inr (Some k)" "k < CACHE_SIZE"
      using fr new by (cases q) auto
    have new1: "\<not> (\<exists>i. cached_at ch1 i block)" using new chan_eq_cached_at [OF eq1] by simp
    obtain ch2 e2 where rc: "reuse_cache ops ch1 k block = (ch2, e2)" by (metis surj_pair)
    have kl: "k < length (xd_cache ch)" using q(2) len by simp
    have "xc_in_use (xd_cache ch ! k)" "xc_dirty (xd_cache ch ! k)" using dirty q(2) by (simp_all add: dirty_at_def)
    then have d1: "xc_in_use (xd_cache ch1 ! k)" "xc_dirty (xd_cache ch1 ! k)"
      using eq1 kl by (auto simp: chan_eq_def entry_eq_def)
    have fail: "snd (raw_write_blk ops c b 1 x) \<noteq> 0" for c b x
      using bad by (auto simp: raw_write_blk_def Let_def split: prod.splits) (metis less_irrefl of_nat_less_0_iff snd_conv)+
    have "e2 \<noteq> 0"
      using rc d1 fail by (auto simp: reuse_cache_def Let_def split: prod.splits if_splits) (metis snd_conv)
    then have "err = 0" "ch' = ch2" using r Suc f q(1) rc by auto
    then show ?thesis
      using reuse_cache(1) [OF same_view_ok [OF s1] v q(2) new1 rc \<open>e2 \<noteq> 0\<close>] s1 by (simp add: same_view_def)
  qed
  then show "err = 0" "view content ch' = view content ch" by blast+
qed


section \<open>The theorems\<close>

text \<open>A vnode in memory, one whose writes fail, and a channel with blocks of two bytes, for the witnesses.\<close>

definition mem_ops :: "(int \<Rightarrow> u8) vnode_ops" where
  "mem_ops = \<lparr>vpread = (\<lambda>d n off. (d, int n, map (\<lambda>i. d (off + int i)) [0..<n])),
    vpwrite = (\<lambda>d buf off. (\<lambda>a. if off \<le> a \<and> a < off + int (length buf) then buf ! nat (a - off) else d a, int (length buf)))\<rparr>"

definition bad_ops :: "(int \<Rightarrow> u8) vnode_ops" where
  "bad_ops = mem_ops\<lparr>vpwrite := (\<lambda>d buf off. (d, -1))\<rparr>"

definition mem_ch :: "xnu_cache list \<Rightarrow> (int \<Rightarrow> u8) io_channel" where
  "mem_ch cache = \<lparr>io_magic = EXT2_ET_MAGIC_IO_CHANNEL, io_block_size = 2, io_refcount = 1, io_flags = 4,
    xd_magic = EXT2_ET_MAGIC_UNIX_IO_CHANNEL, xd_flags = 0, xd_access_time = 0, xd_offset = 0, xd_cache = cache, xd_vp = (\<lambda>_. 7)\<rparr>"

definition mem_entry :: "bool \<Rightarrow> u64 \<Rightarrow> xnu_cache" where
  "mem_entry dirty b = \<lparr>xc_buf = [7, 7], xc_block = b, xc_access_time = 0, xc_dirty = dirty, xc_in_use = True, xc_write_err = False\<rparr>"

lemma mem_vnode: "vnode_ok mem_ops (\<lambda>d. d)" "vnode_reliable mem_ops" "vnode_ok bad_ops (\<lambda>d. d)"
  by (auto simp: vnode_ok_def vnode_reliable_def mem_ops_def bad_ops_def)

lemma mem_ch_inv:
  assumes "length cache = CACHE_SIZE" "distinct (map xc_block (filter xc_in_use cache))"
    "\<And>i j. i < 8 \<Longrightarrow> j < 8 \<Longrightarrow> xc_in_use (cache ! i) \<Longrightarrow> xc_in_use (cache ! j) \<Longrightarrow> xc_block (cache ! i) = xc_block (cache ! j) \<Longrightarrow> i = j"
    "\<And>i. i < 8 \<Longrightarrow> xc_in_use (cache ! i) \<Longrightarrow> xc_buf (cache ! i) = [7, 7]"
  shows "xnu_inv (\<lambda>d. d) (mem_ch cache)"
  using assms by (auto simp: xnu_inv_def cache_ok_def mem_ch_def io_checks_def cached_at_def dev_bytes_def numeral_2_eq_2)

text \<open>
  C36. However reads of any size and writes of at most four blocks follow one another, the channel over a
  reliable vnode answers like an array of blocks: every read that reports no error gives the bytes last
  written, whatever was evicted in between. A flush then leaves the whole array on the device.
\<close>

theorem io_refines_array:
  assumes "vnode_ok ops content" "vnode_reliable ops" "xnu_inv content ch" "list_all (op_fits (io_block_size ch) 4) xs"
    and "io_ops (\<lambda>ch b n. xnu_read_blk64 ops ch b (int n)) (\<lambda>ch b n buf. xnu_write_blk64 ops ch b (int n) buf) xs ch = (ch', rs)"
    and "xnu_flush ops ch' = (ch'', err)"
  shows "answers rs (snd (array_ops (io_block_size ch) xs (view content ch)))
    \<and> err = 0 \<and> dev_block content ch'' b = fst (array_ops (io_block_size ch) xs (view content ch)) b"
proof -
  have inv: "vnode_ok ops content \<and> vnode_reliable ops \<and> xnu_inv content ch" using assms(1-3) by blast
  note r = xnu.ops_refine [OF inv assms(4,5)]
  then have i: "xnu_inv content ch'" and ok: "cache_ok content ch'" by (simp_all add: xnu_inv_def)
  have f: "flush_cached_blocks ops ch' False = (ch'', err)" using assms(6) i by (simp add: xnu_flush_def xnu_inv_def)
  note fl = flush [OF assms(1) ok f]
  have e: "err = 0" by (rule fl(2) [OF assms(2)])
  have "view content ch'' b = dev_block content ch'' b"
    using flushed_view [OF same_view_ok [OF fl(1)]] fl(3) [OF e] by blast
  then show ?thesis using r fl(1) e by (simp add: same_view_def)
qed

theorem io_refines_array_witness:
  "\<exists>ch' rs ch''. io_ops (\<lambda>ch b n. xnu_read_blk64 mem_ops ch b (int n)) (\<lambda>ch b n buf. xnu_write_blk64 mem_ops ch b (int n) buf)
      [Wr 3 1 [1, 2], Rd 3 1] (mem_ch (replicate 8 (empty_entry []))) = (ch', rs)
    \<and> xnu_flush mem_ops ch' = (ch'', 0) \<and> dev_block (\<lambda>d. d) ch'' 3 = [1, 2]"
proof -
  define ch where "ch = mem_ch (replicate 8 (empty_entry []))"
  have inv: "xnu_inv (\<lambda>d. d) ch" unfolding ch_def by (rule mem_ch_inv) (simp_all add: empty_entry_def nth_Cons')
  have fits: "list_all (op_fits (io_block_size ch) 4) [Wr 3 1 [1, 2], Rd 3 1]" by (simp add: op_fits_def ch_def mem_ch_def)
  obtain ch' rs where 1: "io_ops (\<lambda>ch b n. xnu_read_blk64 mem_ops ch b (int n)) (\<lambda>ch b n buf. xnu_write_blk64 mem_ops ch b (int n) buf)
      [Wr 3 1 [1, 2], Rd 3 1] ch = (ch', rs)" by (metis surj_pair)
  obtain ch'' err where 2: "xnu_flush mem_ops ch' = (ch'', err)" by (metis surj_pair)
  have "err = 0 \<and> dev_block (\<lambda>d. d) ch'' 3 = [1, 2]"
    using io_refines_array [OF mem_vnode(1,2) inv fits 1 2, of 3] by (simp add: ch_def mem_ch_def)
  then show ?thesis using 1 2 ch_def by blast
qed

text \<open>
  C37. A write of more than four blocks goes to the vnode after the cache was flushed with the request
  to invalidate it. Only the dirty entries are dropped: a block that was in the cache, unchanged, keeps
  its old content for every later read; the others hold what was written.
\<close>

theorem large_write_stale:
  assumes "vnode_ok ops content" "vnode_reliable ops" "xnu_inv content ch" "4 < n"
    and "length buf = n * io_block_size ch" "unat block + n \<le> 2 ^ 64"
    and "xnu_write_blk64 ops ch block (int n) buf = (ch', err)"
  shows "err = 0 \<and> view content ch' b = (if \<exists>j. cached_at ch j b \<and> \<not> dirty_at ch j then view content ch b
    else put_blocks (view content ch) block (io_block_size ch) n buf b)"
  using xnu_large_write [OF assms] by simp

theorem large_write_stale_witness:
  "\<exists>ch' err. xnu_write_blk64 mem_ops (mem_ch (mem_entry False 2 # replicate 7 (empty_entry []))) 0 5 [0, 1, 2, 3, 4, 5, 6, 7, 8, 9] = (ch', err)
    \<and> err = 0 \<and> view (\<lambda>d. d) ch' 2 = [7, 7] \<and> view (\<lambda>d. d) ch' 3 = [6, 7]"
proof -
  define ch where "ch = mem_ch (mem_entry False 2 # replicate 7 (empty_entry []))"
  define buf :: "u8 list" where "buf = [0, 1, 2, 3, 4, 5, 6, 7, 8, 9]"
  have inv: "xnu_inv (\<lambda>d. d) ch"
    unfolding ch_def by (rule mem_ch_inv) (simp_all add: empty_entry_def mem_entry_def nth_Cons' split: if_splits)
  have bs: "io_block_size ch = 2" by (simp add: ch_def mem_ch_def)
  obtain ch' err where r: "xnu_write_blk64 mem_ops ch 0 (int 5) buf = (ch', err)" by (metis surj_pair)
  have c2: "cached_at ch 0 2" "\<not> dirty_at ch 0" by (simp_all add: ch_def mem_ch_def cached_at_def dirty_at_def mem_entry_def)
  have c3: "\<not> cached_at ch j 3" for j
    by (auto simp: ch_def mem_ch_def cached_at_def mem_entry_def empty_entry_def nth_Cons')
  have v2: "view (\<lambda>d. d) ch 2 = [7, 7]" by (simp add: view_def ch_def mem_ch_def mem_entry_def)
  have v3: "put_blocks v 0 2 5 buf 3 = [6, 7]" for v by (simp add: put_blocks buf_def)
  have a: "err = 0 \<and> view (\<lambda>d. d) ch' b = (if \<exists>j. cached_at ch j b \<and> \<not> dirty_at ch j then view (\<lambda>d. d) ch b
    else put_blocks (view (\<lambda>d. d) ch) 0 (io_block_size ch) 5 buf b)" for b
    by (rule large_write_stale [OF mem_vnode(1,2) inv _ _ _ r]) (simp_all add: bs buf_def)
  have "view (\<lambda>d. d) ch' 2 = [7, 7]" using a [of 2] c2 v2 by auto
  moreover have "view (\<lambda>d. d) ch' 3 = [6, 7]" using a [of 3] c3 v3 by (simp add: bs)
  ultimately show ?thesis using r a by (auto simp: ch_def buf_def)
qed

text \<open>
  C38. When a block to be written is not in the cache and every entry is dirty, an entry has to be
  written back first. If that fails, a write of at most four blocks stores nothing and returns 0.
\<close>

theorem write_error_lost:
  assumes "vnode_ok ops content" "\<And>d buf off. snd (vpwrite ops d buf off) < 0" "xnu_inv content ch"
    and "\<And>j. j < CACHE_SIZE \<Longrightarrow> dirty_at ch j" "\<not> (\<exists>j. cached_at ch j block)" "n \<le> 4"
    and "xnu_write_blk64 ops ch block (int n) buf = (ch', err)"
  shows "err = 0 \<and> view content ch' = view content ch"
proof -
  have "cache_ok content ch" "write_loop ops False n ch block buf 0 = (ch', err)"
    using assms(3,6,7) by (auto simp: xnu_inv_def xnu_write_blk64_def)
  from write_dropped [OF assms(1,2) this(1) assms(4,5) this(2)] show ?thesis by simp
qed

theorem write_error_lost_witness:
  "\<exists>ch' err. xnu_write_blk64 bad_ops (mem_ch (map (mem_entry True) [0, 1, 2, 3, 4, 5, 6, 7])) 9 1 [1, 2] = (ch', err)
    \<and> err = 0 \<and> view (\<lambda>d. d) ch' 9 = [7, 7]"
proof -
  define ch where "ch = mem_ch (map (mem_entry True) [0, 1, 2, 3, 4, 5, 6, 7])"
  have inv: "xnu_inv (\<lambda>d. d) ch"
    unfolding ch_def by (rule mem_ch_inv) (simp_all add: mem_entry_def nth_Cons' split: if_splits)
  have d: "dirty_at ch j" if "j < CACHE_SIZE" for j
  proof -
    have "j < length [0, 1, 2, 3, 4, 5, 6, 7 :: u64]" using that by simp
    then show ?thesis by (simp only: dirty_at_def ch_def mem_ch_def mem_entry_def io_channel.simps nth_map xnu_cache.simps simp_thms)
  qed
  have n: "\<not> (\<exists>j. cached_at ch j 9)"
    by (auto simp: ch_def mem_ch_def cached_at_def mem_entry_def nth_Cons' split: if_splits)
  have bad: "snd (vpwrite bad_ops d b off) < 0" for d b off by (simp add: bad_ops_def)
  obtain ch' err where r: "xnu_write_blk64 bad_ops ch 9 (int 1) [1, 2] = (ch', err)" by (metis surj_pair)
  have "err = 0 \<and> view (\<lambda>d. d) ch' = view (\<lambda>d. d) ch"
    by (rule write_error_lost [OF mem_vnode(3) bad inv d n _ r]) simp_all
  moreover have "view (\<lambda>d. d) ch 9 = [7, 7]"
    by (simp add: view_def ch_def mem_ch_def mem_entry_def dev_bytes_def numeral_2_eq_2)
  ultimately show ?thesis using r by (auto simp: ch_def)
qed

end
