(* ===== verification/Fs_map.thy ===== *)
theory Fs_map
  imports Gen_bitmap64_Spec
begin

text \<open>
  The handle with its two allocation bitmaps, the allocation of bitmaps of \<^verbatim>\<open>libext2fs/bitmaps.c\<close>, and
  what the generic operations do to a map behind a handle: \<open>map_is g f S\<close> says that the bitmap \<open>g\<close> has one of
  the two 64-bit back ends, the bounds and the cluster size of \<open>f\<close>, and the marked clusters \<open>S\<close>. The wrappers of
  \<^verbatim>\<open>bitops.h\<close> for block and inode bitmaps only forward and are not repeated. The function pointers of the
  handle that callers may install (none of the repository does) are left out.
\<close>

record ext2_filsys = fs_base +
  fs_block_map :: "generic_bitmap option"
  fs_inode_map :: "generic_bitmap option"

abbreviation (input) EXT2_ET_EXTERNAL_JOURNAL_NOSUPP :: errcode where "EXT2_ET_EXTERNAL_JOURNAL_NOSUPP \<equiv> 2133571510"
abbreviation (input) EXT2_ET_CANT_USE_LEGACY_BITMAPS :: errcode where "EXT2_ET_CANT_USE_LEGACY_BITMAPS \<equiv> 2133571465"
abbreviation (input) EXT2_ET_FUDGE_INODE_BITMAP_END :: errcode where "EXT2_ET_FUDGE_INODE_BITMAP_END \<equiv> 2133571380"
abbreviation (input) EXT2_ET_FUDGE_BLOCK_BITMAP_END :: errcode where "EXT2_ET_FUDGE_BLOCK_BITMAP_END \<equiv> 2133571379"
abbreviation (input) EXT2_ET_NEQ_BLOCK_BITMAP :: errcode where "EXT2_ET_NEQ_BLOCK_BITMAP \<equiv> 2133571384"
abbreviation (input) EXT2_ET_NEQ_INODE_BITMAP :: errcode where "EXT2_ET_NEQ_INODE_BITMAP \<equiv> 2133571385"
abbreviation (input) EXT2_ET_NO_BLOCK_BITMAP :: errcode where "EXT2_ET_NO_BLOCK_BITMAP \<equiv> 2133571368"
abbreviation (input) EXT2_ET_NO_INODE_BITMAP :: errcode where "EXT2_ET_NO_INODE_BITMAP \<equiv> 2133571367"

section \<open>Allocation of the bitmaps\<close>

definition ext2fs_allocate_inode_bitmap ::
  "allocator \<Rightarrow> 'a fs_base_scheme \<Rightarrow> string option \<Rightarrow> errcode + generic_bitmap" where
  "ext2fs_allocate_inode_bitmap mem fs descr =
     (if fs_magic fs \<noteq> EXT2_ET_MAGIC_EXT2FS_FILSYS then Inl EXT2_ET_MAGIC_EXT2FS_FILSYS
      else if ext2fs_has_feature_journal_dev (fs_super fs) then Inl EXT2_ET_EXTERNAL_JOURNAL_NOSUPP
      else let start = 1;
               end = ucast (s_inodes_count (fs_super fs));
               real_end = ucast (s_inodes_per_group (fs_super fs)) * ucast (fs_group_desc_count fs) :: u64
           in if fs_flags fs AND EXT2_FLAG_64BITS \<noteq> 0
              then ext2fs_alloc_generic_bmap mem fs EXT2_ET_MAGIC_INODE_BITMAP64 (uint (fs_default_bitmap_type fs))
                     start end real_end descr
              else if end > 0xFFFFFFFF \<or> real_end > 0xFFFFFFFF then Inl EXT2_ET_CANT_USE_LEGACY_BITMAPS
              else map_sum id GB32
                     (ext2fs_make_generic_bitmap mem EXT2_ET_MAGIC_INODE_BITMAP (ucast start) (ucast end)
                        (ucast real_end) descr None))"

definition ext2fs_allocate_block_bitmap ::
  "allocator \<Rightarrow> 'a fs_base_scheme \<Rightarrow> string option \<Rightarrow> errcode + generic_bitmap" where
  "ext2fs_allocate_block_bitmap mem fs descr =
     (if fs_magic fs \<noteq> EXT2_ET_MAGIC_EXT2FS_FILSYS then Inl EXT2_ET_MAGIC_EXT2FS_FILSYS
      else if ext2fs_has_feature_journal_dev (fs_super fs) then Inl EXT2_ET_EXTERNAL_JOURNAL_NOSUPP
      else let start = EXT2FS_B2C fs (ucast (s_first_data_block (fs_super fs)));
               end = EXT2FS_B2C fs (ext2fs_blocks_count (fs_super fs) - 1);
               real_end = ucast (s_clusters_per_group (fs_super fs)) * ucast (fs_group_desc_count fs) - 1 + start
           in if fs_flags fs AND EXT2_FLAG_64BITS \<noteq> 0
              then ext2fs_alloc_generic_bmap mem fs EXT2_ET_MAGIC_BLOCK_BITMAP64 (uint (fs_default_bitmap_type fs))
                     start end real_end descr
              else if end > 0xFFFFFFFF \<or> real_end > 0xFFFFFFFF then Inl EXT2_ET_CANT_USE_LEGACY_BITMAPS
              else map_sum id GB32
                     (ext2fs_make_generic_bitmap mem EXT2_ET_MAGIC_BLOCK_BITMAP (ucast start) (ucast end)
                        (ucast real_end) descr None))"

fun drop_cluster_bits :: "generic_bitmap \<Rightarrow> generic_bitmap" where
  "drop_cluster_bits (GB32 b) = GB32 b"
| "drop_cluster_bits (GB_BA b) = GB_BA (b\<lparr>bm_cluster_bits := 0\<rparr>)"
| "drop_cluster_bits (GB_RB b) = GB_RB (b\<lparr>bm_cluster_bits := 0\<rparr>)"

definition ext2fs_allocate_subcluster_bitmap ::
  "allocator \<Rightarrow> 'a fs_base_scheme \<Rightarrow> string option \<Rightarrow> errcode + generic_bitmap" where
  "ext2fs_allocate_subcluster_bitmap mem fs descr =
     (if fs_magic fs \<noteq> EXT2_ET_MAGIC_EXT2FS_FILSYS then Inl EXT2_ET_MAGIC_EXT2FS_FILSYS
      else if ext2fs_has_feature_journal_dev (fs_super fs) then Inl EXT2_ET_EXTERNAL_JOURNAL_NOSUPP
      else if fs_cluster_ratio_bits fs = 0 then ext2fs_allocate_block_bitmap mem fs descr
      else if fs_flags fs AND EXT2_FLAG_64BITS = 0 then Inl EXT2_ET_CANT_USE_LEGACY_BITMAPS
      else let start = ucast (s_first_data_block (fs_super fs));
               end = ext2fs_blocks_count (fs_super fs) - 1;
               real_end = ucast (s_blocks_per_group (fs_super fs)) * ucast (fs_group_desc_count fs) - 1 + start
           in map_sum id drop_cluster_bits
                (ext2fs_alloc_generic_bmap mem fs EXT2_ET_MAGIC_BLOCK_BITMAP64 (uint (fs_default_bitmap_type fs))
                   start end real_end descr))"

fun ext2fs_get_bitmap_granularity :: "generic_bitmap \<Rightarrow> nat" where
  "ext2fs_get_bitmap_granularity (GB32 b) = 0"
| "ext2fs_get_bitmap_granularity (GB_BA b) = (if is64 b then bm_cluster_bits b else 0)"
| "ext2fs_get_bitmap_granularity (GB_RB b) = (if is64 b then bm_cluster_bits b else 0)"

definition ext2fs_fudge_inode_bitmap_end ::
  "generic_bitmap option \<Rightarrow> u32 \<Rightarrow> errcode + generic_bitmap \<times> u32" where
  "ext2fs_fudge_inode_bitmap_end bitmap end =
     map_sum id (map_prod id ucast) (ext2fs_fudge_generic_bmap_end bitmap EXT2_ET_FUDGE_INODE_BITMAP_END (ucast end))"

definition ext2fs_fudge_block_bitmap_end2 ::
  "generic_bitmap option \<Rightarrow> u64 \<Rightarrow> errcode + generic_bitmap \<times> u64" where
  "ext2fs_fudge_block_bitmap_end2 bitmap end =
     ext2fs_fudge_generic_bmap_end bitmap EXT2_ET_FUDGE_BLOCK_BITMAP_END end"

definition ext2fs_compare_block_bitmap ::
  "generic_bitmap option \<Rightarrow> generic_bitmap option \<Rightarrow> (generic_bitmap option \<times> generic_bitmap option \<times> errcode) option" where
  "ext2fs_compare_block_bitmap bm1 bm2 = ext2fs_compare_generic_bmap EXT2_ET_NEQ_BLOCK_BITMAP bm1 bm2"

definition ext2fs_compare_inode_bitmap ::
  "generic_bitmap option \<Rightarrow> generic_bitmap option \<Rightarrow> (generic_bitmap option \<times> generic_bitmap option \<times> errcode) option" where
  "ext2fs_compare_inode_bitmap bm1 bm2 = ext2fs_compare_generic_bmap EXT2_ET_NEQ_INODE_BITMAP bm1 bm2"

section \<open>What an operation does to a map\<close>

fun map_is :: "generic_bitmap \<Rightarrow> gb_frame \<Rightarrow> nat set \<Rightarrow> bool" where
  "map_is (GB32 b) f S = False"
| "map_is (GB_BA b) f S = ba_set.refines b f S"
| "map_is (GB_RB b) f S = rb_set.refines b f S"

text \<open>The search for a clear number is exact unless the map is an empty red-black tree.\<close>

fun zero_ok :: "generic_bitmap \<Rightarrow> nat set \<Rightarrow> bool" where
  "zero_ok (GB_RB b) S = (S \<noteq> {})"
| "zero_ok g S = True"

named_theorems map_ops

lemma map_mark [map_ops]:
  assumes "map_is g f S"
  obtains g' where "fst (ext2fs_mark_generic_bmap (Some g) a) = Some g'"
    "map_is g' f (if fr_in f a then insert (unat (fr_cluster f a)) S else S)"
proof (cases g)
  case (GB_BA b)
  then have "ba_set.refines b f S" using assms by simp
  from ba_set.refines_mark [OF this, of a] GB_BA show ?thesis
    by (intro that [of "GB_BA (fst (gb64_mark ext2fs_blkmap64_bitarray b a))"])
      (simp_all add: ext2fs_mark_generic_bmap_def split: if_splits)
next
  case (GB_RB b)
  then have "rb_set.refines b f S" using assms by simp
  from rb_set.refines_mark [OF this, of a] GB_RB show ?thesis
    by (intro that [of "GB_RB (fst (gb64_mark ext2fs_blkmap64_rbtree b a))"])
      (simp_all add: ext2fs_mark_generic_bmap_def split: if_splits)
qed (use assms in simp)

lemma map_unmark [map_ops]:
  assumes "map_is g f S"
  obtains g' where "fst (ext2fs_unmark_generic_bmap (Some g) a) = Some g'"
    "map_is g' f (if fr_in f a then S - {unat (fr_cluster f a)} else S)"
proof (cases g)
  case (GB_BA b)
  then have "ba_set.refines b f S" using assms by simp
  from ba_set.refines_unmark [OF this, of a] GB_BA show ?thesis
    by (intro that [of "GB_BA (fst (gb64_unmark ext2fs_blkmap64_bitarray b a))"])
      (simp_all add: ext2fs_unmark_generic_bmap_def split: if_splits)
next
  case (GB_RB b)
  then have "rb_set.refines b f S" using assms by simp
  from rb_set.refines_unmark [OF this, of a] GB_RB show ?thesis
    by (intro that [of "GB_RB (fst (gb64_unmark ext2fs_blkmap64_rbtree b a))"])
      (simp_all add: ext2fs_unmark_generic_bmap_def split: if_splits)
qed (use assms in simp)

lemma map_test [map_ops]:
  assumes "map_is g f S"
  obtains g' where "fst (ext2fs_test_generic_bmap (Some g) a) = Some g'" "map_is g' f S"
    "snd (ext2fs_test_generic_bmap (Some g) a) \<noteq> 0 \<longleftrightarrow> fr_in f a \<and> unat (fr_cluster f a) \<in> S"
proof (cases g)
  case (GB_BA b)
  then have "ba_set.refines b f S" using assms by simp
  from ba_set.refines_test [OF this, of a] GB_BA show ?thesis
    by (intro that [of "GB_BA (fst (gb64_test ext2fs_blkmap64_bitarray b a))"])
      (simp_all add: ext2fs_test_generic_bmap_def)
next
  case (GB_RB b)
  then have "rb_set.refines b f S" using assms by simp
  from rb_set.refines_test [OF this, of a] GB_RB show ?thesis
    by (intro that [of "GB_RB (fst (gb64_test ext2fs_blkmap64_rbtree b a))"])
      (simp_all add: ext2fs_test_generic_bmap_def)
qed (use assms in simp)

lemma map_mark_range [map_ops]:
  assumes "map_is g f S" "0 < n" "unat a + unat n + 2 ^ 32 \<le> 2 ^ 64"
  obtains g' where "ext2fs_mark_block_bitmap_range2 (Some g) a n = Some g'"
    "map_is g' f (if fr_fits f a n then S \<union> fr_clusters f a n else S)"
proof (cases g)
  case (GB_BA b)
  then have "ba_set.refines b f S" using assms by simp
  from ba_set.refines_range(1) [OF this assms(2,3)] GB_BA show ?thesis
    by (intro that [of "GB_BA (gb64_mark_range ext2fs_blkmap64_bitarray b a n)"])
      (simp_all add: ext2fs_mark_block_bitmap_range2_def split: if_splits)
next
  case (GB_RB b)
  then have "rb_set.refines b f S" using assms by simp
  from rb_set.refines_range(1) [OF this assms(2,3)] GB_RB show ?thesis
    by (intro that [of "GB_RB (gb64_mark_range ext2fs_blkmap64_rbtree b a n)"])
      (simp_all add: ext2fs_mark_block_bitmap_range2_def split: if_splits)
qed (use assms in simp)

lemma map_unmark_range [map_ops]:
  assumes "map_is g f S" "0 < n" "unat a + unat n + 2 ^ 32 \<le> 2 ^ 64"
  obtains g' where "ext2fs_unmark_block_bitmap_range2 (Some g) a n = Some g'"
    "map_is g' f (if fr_fits f a n then S - fr_clusters f a n else S)"
proof (cases g)
  case (GB_BA b)
  then have "ba_set.refines b f S" using assms by simp
  from ba_set.refines_range(2) [OF this assms(2,3)] GB_BA show ?thesis
    by (intro that [of "GB_BA (gb64_unmark_range ext2fs_blkmap64_bitarray b a n)"])
      (simp_all add: ext2fs_unmark_block_bitmap_range2_def split: if_splits)
next
  case (GB_RB b)
  then have "rb_set.refines b f S" using assms by simp
  from rb_set.refines_range(2) [OF this assms(2,3)] GB_RB show ?thesis
    by (intro that [of "GB_RB (gb64_unmark_range ext2fs_blkmap64_rbtree b a n)"])
      (simp_all add: ext2fs_unmark_block_bitmap_range2_def split: if_splits)
qed (use assms in simp)

text \<open>The searches, with the numbers of clusters as the answers are blocks.\<close>

lemma map_find_set:
  assumes "map_is g f S" "\<not> fr_bad f a e"
  shows "\<exists>r. ext2fs_find_first_set_generic_bmap (Some g) a e = Some r
    \<and> (case first_in S (unat (fr_cluster f a)) (unat (fr_cluster f e)) of
         None \<Rightarrow> r = Inl ENOENT
       | Some n \<Rightarrow> r = Inr (first_block f a (of_nat n)))"
proof (cases g)
  case (GB_BA b)
  then have "ba_set.refines b f S" using assms by simp
  from ba_set.refines_find_set [OF this, of a e] assms(2) GB_BA show ?thesis
    by (simp add: ext2fs_find_first_set_generic_bmap_def split: option.splits)
next
  case (GB_RB b)
  then have "rb_set.refines b f S" using assms by simp
  from rb_set.refines_find_set [OF this, of a e] assms(2) GB_RB show ?thesis
    by (simp add: ext2fs_find_first_set_generic_bmap_def split: option.splits)
qed (use assms in simp)

lemma find_zero_end:
  assumes "gb_bounded b" "frame b = f" "\<not> fr_bad f a e"
    and "\<And>s t. in_bmap b s \<Longrightarrow> in_bmap b t \<Longrightarrow> s \<le> t \<Longrightarrow>
      (\<exists>x. F b s t = Inr x \<and> s \<le> x \<and> x \<le> t \<and> unat x \<notin> S \<and> {unat s ..< unat x} \<subseteq> S)
      \<or> F b s t = Inl ENOENT \<and> {unat s .. unat t} \<subseteq> S"
  shows "case first_in (- S) (unat (fr_cluster f a)) (unat (fr_cluster f e)) of
         None \<Rightarrow> gb64_find_first F b a e = Inl ENOENT
       | Some n \<Rightarrow> gb64_find_first F b a e = Inr (first_block f a (of_nat n))"
proof -
  have f: "bm_start b = fr_start f" "bm_end b = fr_end f" "bm_cluster_bits b = fr_bits f" using assms(2) by (auto simp: frame_def)
  have n: "\<not> fr_cluster f a < fr_start f" "\<not> fr_end f < fr_cluster f e" "\<not> e < a" using assms(3) by (auto simp: fr_bad_def)
  then have "unat a \<le> unat e" by (simp add: word_less_nat_alt)
  then have "drop_bit (fr_bits f) (unat a) \<le> drop_bit (fr_bits f) (unat e)" by (simp add: drop_bit_eq_div div_le_mono)
  then have le: "fr_cluster f a \<le> fr_cluster f e" by (simp only: fr_cluster_def word_le_nat_alt unat_drop_bit_eq)
  have ir: "in_bmap b (fr_cluster f a)" "in_bmap b (fr_cluster f e)"
    using n le assms(1) by (auto simp: in_bmap_def f gb_bounded_def)
  have eq: "gb64_find_first F b a e = (case F b (fr_cluster f a) (fr_cluster f e) of
      Inl retval \<Rightarrow> Inl retval | Inr cout \<Rightarrow> Inr (first_block f a cout))"
    using n assms(1) by (simp add: gb64_find_first_def gb_bounded_def Let_def f fr_cluster_def to_cluster_def first_block_def cong: sum.case_cong)
  show ?thesis using assms(4) [OF ir le]
  proof (elim disjE exE conjE)
    fix x assume x: "F b (fr_cluster f a) (fr_cluster f e) = Inr x" "fr_cluster f a \<le> x" "x \<le> fr_cluster f e" "unat x \<notin> S"
      "{unat (fr_cluster f a) ..< unat x} \<subseteq> S"
    then have "first_in (- S) (unat (fr_cluster f a)) (unat (fr_cluster f e)) = Some (unat x)"
      by (intro first_in_Some) (auto simp: word_le_nat_alt)
    then show ?thesis by (simp add: eq x(1))
  next
    assume "F b (fr_cluster f a) (fr_cluster f e) = Inl ENOENT" "{unat (fr_cluster f a) .. unat (fr_cluster f e)} \<subseteq> S"
    moreover from this have "first_in (- S) (unat (fr_cluster f a)) (unat (fr_cluster f e)) = None"
      by (intro first_in_None) blast
    ultimately show ?thesis by (simp add: eq)
  qed
qed

lemma map_find_zero:
  assumes "map_is g f S" "\<not> fr_bad f a e" "zero_ok g S"
  shows "\<exists>r. ext2fs_find_first_zero_generic_bmap (Some g) a e = Some r
    \<and> (case first_in (- S) (unat (fr_cluster f a)) (unat (fr_cluster f e)) of
         None \<Rightarrow> r = Inl ENOENT
       | Some n \<Rightarrow> r = Inr (first_block f a (of_nat n)))"
proof (cases g)
  case (GB_BA b)
  then have r: "ba_inv b" "gb_bounded b" "frame b = f" "ba_bits b = S" using assms by (simp_all add: ba_set.refines_def)
  have "case first_in (- S) (unat (fr_cluster f a)) (unat (fr_cluster f e)) of
         None \<Rightarrow> gb64_find_first (ops_find_first_zero ext2fs_blkmap64_bitarray) b a e = Inl ENOENT
       | Some n \<Rightarrow> gb64_find_first (ops_find_first_zero ext2fs_blkmap64_bitarray) b a e = Inr (first_block f a (of_nat n))"
  proof (rule find_zero_end [OF r(2,3) assms(2)])
    fix s t assume a: "in_bmap b s" "in_bmap b t" "s \<le> t"
    show "(\<exists>x. ops_find_first_zero ext2fs_blkmap64_bitarray b s t = Inr x \<and> s \<le> x \<and> x \<le> t \<and> unat x \<notin> S \<and> {unat s ..< unat x} \<subseteq> S)
      \<or> ops_find_first_zero ext2fs_blkmap64_bitarray b s t = Inl ENOENT \<and> {unat s .. unat t} \<subseteq> S"
      using ba_zero.find_first_zero_Inr [OF r(1) a] ba_zero.find_first_zero_Inl [OF r(1) a] r(4)
      by (cases "ops_find_first_zero ext2fs_blkmap64_bitarray b s t") auto
  qed
  then show ?thesis by (auto simp: ext2fs_find_first_zero_generic_bmap_def GB_BA split: option.splits)
next
  case (GB_RB b)
  then have r: "rb_inv b" "gb_bounded b" "frame b = f" "rb_bits b = S" "S \<noteq> {}" using assms by (simp_all add: rb_set.refines_def)
  have "case first_in (- S) (unat (fr_cluster f a)) (unat (fr_cluster f e)) of
         None \<Rightarrow> gb64_find_first rb_find_first_zero b a e = Inl ENOENT
       | Some n \<Rightarrow> gb64_find_first rb_find_first_zero b a e = Inr (first_block f a (of_nat n))"
    by (rule find_zero_end [OF r(2,3) assms(2)]) (use rb_find_first_zero_spec [OF r(1)] r(4,5) in auto)
  moreover have "ops_find_first_zero ext2fs_blkmap64_rbtree = rb_find_first_zero"
    by (simp add: ext2fs_blkmap64_rbtree_def)
  ultimately show ?thesis by (auto simp: ext2fs_find_first_zero_generic_bmap_def GB_RB split: option.splits)
qed (use assms in simp)

end
