(* ===== verification/Alloc_stats.thy ===== *)
theory Alloc_stats
  imports Fs_map Csum Super_loc
begin

text \<open>
  \<^verbatim>\<open>libext2fs/alloc_stats.c\<close> and \<^verbatim>\<open>libext2fs/alloc_sb.c\<close>: the accounting of allocations. Marking a block or
  an inode in the bitmap goes together with the counts of its group and of the super block.
  \<open>OMIT_COM_ERR\<close> is set, so that the range operation has no bounds check. No callback is installed.
\<close>

abbreviation (input) EXT2_BG_INODE_UNINIT :: u16 where "EXT2_BG_INODE_UNINIT \<equiv> 1"
abbreviation (input) EXT2_BG_BLOCK_UNINIT :: u16 where "EXT2_BG_BLOCK_UNINIT \<equiv> 2"

definition upd_block_map :: "(generic_bitmap option \<Rightarrow> generic_bitmap option) \<Rightarrow> 'a ext2_filsys_scheme \<Rightarrow> 'a ext2_filsys_scheme" where
  "upd_block_map f fs = fs\<lparr>fs_block_map := f (fs_block_map fs)\<rparr>"

definition upd_inode_map :: "(generic_bitmap option \<Rightarrow> generic_bitmap option) \<Rightarrow> 'a ext2_filsys_scheme \<Rightarrow> 'a ext2_filsys_scheme" where
  "upd_inode_map f fs = fs\<lparr>fs_inode_map := f (fs_inode_map fs)\<rparr>"

definition ext2fs_inode_alloc_stats2 :: "'a ext2_filsys_scheme \<Rightarrow> u32 \<Rightarrow> int \<Rightarrow> bool \<Rightarrow> 'a ext2_filsys_scheme" where
  "ext2fs_inode_alloc_stats2 fs ino inuse isdir =
     (let grp = ext2fs_group_of_ino fs ino
      in if ino > s_inodes_count (fs_super fs) then fs
         else let fs = upd_inode_map (\<lambda>m. fst ((if inuse > 0 then ext2fs_mark_generic_bmap else ext2fs_unmark_generic_bmap)
                                                 m (ucast ino))) fs;
                  fs = ext2fs_bg_free_inodes_count_set fs grp (ext2fs_bg_free_inodes_count fs grp - of_int inuse);
                  fs = (if isdir then ext2fs_bg_used_dirs_count_set fs grp (ext2fs_bg_used_dirs_count fs grp + of_int inuse)
                        else fs);
                  fs = ext2fs_bg_flags_clear fs grp EXT2_BG_INODE_UNINIT;
                  fs = (if ext2fs_has_group_desc_csum fs
                        then let ipg = s_inodes_per_group (fs_super fs);
                                 first_unused_inode = ipg - ext2fs_bg_itable_unused fs grp + grp * ipg + 1;
                                 fs = (if ino \<ge> first_unused_inode
                                       then ext2fs_bg_itable_unused_set fs grp (grp * ipg + ipg - ino) else fs)
                             in ext2fs_group_desc_csum_set fs grp
                        else fs);
                  fs = fs\<lparr>fs_super := (fs_super fs)\<lparr>s_free_inodes_count := s_free_inodes_count (fs_super fs) - of_int inuse\<rparr>\<rparr>
              in ext2fs_mark_ib_dirty (ext2fs_mark_super_dirty fs))"

definition ext2fs_inode_alloc_stats :: "'a ext2_filsys_scheme \<Rightarrow> u32 \<Rightarrow> int \<Rightarrow> 'a ext2_filsys_scheme" where
  "ext2fs_inode_alloc_stats fs ino inuse = ext2fs_inode_alloc_stats2 fs ino inuse False"

definition ext2fs_block_alloc_stats2 :: "'a ext2_filsys_scheme \<Rightarrow> u64 \<Rightarrow> int \<Rightarrow> 'a ext2_filsys_scheme" where
  "ext2fs_block_alloc_stats2 fs blk inuse =
     (let grp = ext2fs_group_of_blk2 fs blk
      in if blk < ucast (s_first_data_block (fs_super fs)) \<or> blk \<ge> ext2fs_blocks_count (fs_super fs) then fs
         else let fs = upd_block_map (\<lambda>m. fst ((if inuse > 0 then ext2fs_mark_generic_bmap else ext2fs_unmark_generic_bmap)
                                                 m blk)) fs;
                  fs = ext2fs_bg_free_blocks_count_set fs grp (ext2fs_bg_free_blocks_count fs grp - of_int inuse);
                  fs = ext2fs_bg_flags_clear fs grp EXT2_BG_BLOCK_UNINIT;
                  fs = ext2fs_group_desc_csum_set fs grp;
                  fs = fs\<lparr>fs_super := ext2fs_free_blocks_count_add (fs_super fs) (of_int (- inuse) * EXT2FS_CLUSTER_RATIO fs)\<rparr>
              in ext2fs_mark_bb_dirty (ext2fs_mark_super_dirty fs))"

definition ext2fs_block_alloc_stats :: "'a ext2_filsys_scheme \<Rightarrow> u32 \<Rightarrow> int \<Rightarrow> 'a ext2_filsys_scheme" where
  "ext2fs_block_alloc_stats fs blk inuse = ext2fs_block_alloc_stats2 fs (ucast blk) inuse"

text \<open>The loop over the groups of a range; it need not end when the geometry is unsound.\<close>

definition range_group_step :: "'a ext2_filsys_scheme \<Rightarrow> u64 \<Rightarrow> u32 \<Rightarrow> int \<Rightarrow> 'a ext2_filsys_scheme \<times> u64" where
  "range_group_step fs blk num inuse =
     (let grp = ext2fs_group_of_blk2 fs blk;
          last_blk = ext2fs_group_last_block2 fs grp;
          n = (if blk + ucast num > last_blk then last_blk - blk + 1 else ucast num);
          fs = ext2fs_bg_free_blocks_count_set fs grp
                 (ucast (ucast (ext2fs_bg_free_blocks_count fs grp) - of_int inuse * n div EXT2FS_CLUSTER_RATIO fs));
          fs = ext2fs_bg_flags_clear fs grp EXT2_BG_BLOCK_UNINIT;
          fs = ext2fs_group_desc_csum_set fs grp;
          fs = fs\<lparr>fs_super := ext2fs_free_blocks_count_add (fs_super fs) (of_int (- inuse) * n)\<rparr>
      in (fs, n))"

partial_function (option) stats_range_loop :: "'a ext2_filsys_scheme \<Rightarrow> u64 \<Rightarrow> u32 \<Rightarrow> int \<Rightarrow> 'a ext2_filsys_scheme option" where
  "stats_range_loop fs blk num inuse =
     (if num = 0 then Some fs
      else case range_group_step fs blk num inuse of
             (fs, n) \<Rightarrow> stats_range_loop fs (blk + n) (num - ucast n) inuse)"

definition ext2fs_block_alloc_stats_range ::
  "'a ext2_filsys_scheme \<Rightarrow> u64 \<Rightarrow> u32 \<Rightarrow> int \<Rightarrow> 'a ext2_filsys_scheme option" where
  "ext2fs_block_alloc_stats_range fs blk num inuse =
     (if inuse = 0 then Some fs
      else let fs = upd_block_map (\<lambda>m. (if inuse > 0 then ext2fs_mark_block_bitmap_range2 else ext2fs_unmark_block_bitmap_range2)
                                          m blk num) fs;
               inuse = (if inuse > 0 then 1 else - 1)
           in map_option (\<lambda>fs. ext2fs_mark_bb_dirty (ext2fs_mark_super_dirty fs)) (stats_range_loop fs blk num inuse))"

section \<open>Reserving the super block and the descriptors of a group\<close>

text \<open>The result of the map is \<open>bmap\<close> with its marks and the number of blocks the group is left with.\<close>

definition ext2fs_reserve_super_and_bgd ::
  "'a fs_base_scheme \<Rightarrow> u32 \<Rightarrow> generic_bitmap option \<Rightarrow> (generic_bitmap option \<times> u32) option" where
  "ext2fs_reserve_super_and_bgd fs grp bmap =
     (case ext2fs_super_and_bgd_loc2 fs grp of
        None \<Rightarrow> None
      | Some r \<Rightarrow>
          let old_desc_blocks = (if ext2fs_has_feature_meta_bg (fs_super fs) then s_first_meta_bg (fs_super fs)
                                 else ucast (fs_desc_blocks fs + ucast (s_reserved_gdt_blocks (fs_super fs))) :: u32);
              bmap = (if super_blk r \<noteq> 0 \<or> grp = 0 then fst (ext2fs_mark_generic_bmap bmap (super_blk r)) else bmap);
              bmap = (if grp = 0 \<and> fs_blocksize fs = 1024 \<and> EXT2FS_CLUSTER_RATIO fs > 1
                      then fst (ext2fs_mark_generic_bmap bmap 0) else bmap);
              bmap = (if old_desc_blk r \<noteq> 0
                      then let num_blocks = (if old_desc_blk r + scast old_desc_blocks \<ge> ext2fs_blocks_count (fs_super fs)
                                             then ucast (ext2fs_blocks_count (fs_super fs) - old_desc_blk r)
                                             else old_desc_blocks)
                           in ext2fs_mark_block_bitmap_range2 bmap (old_desc_blk r) num_blocks
                      else bmap);
              bmap = (if new_desc_blk r \<noteq> 0 then fst (ext2fs_mark_generic_bmap bmap (new_desc_blk r)) else bmap)
          in Some (bmap, ext2fs_group_blocks_count fs grp - (2 + fs_inode_blocks_per_group fs + used_blks r)))"

end
