(* ===== verification/Alloc.thy ===== *)
theory Alloc
  imports Alloc_stats
begin

text \<open>
  \<^verbatim>\<open>libext2fs/alloc.c\<close>: the search for free blocks and inodes. The bmap is an argument; a null pointer
  means the bmap of the handle. The outer option is \<open>None\<close> when a loop of the code does not end. No
  handler of the handle (\<open>get_alloc_block\<close>, \<open>new_range\<close>) is installed.
\<close>

abbreviation (input) EXT2_NEWRANGE_FIXED_GOAL :: u32 where "EXT2_NEWRANGE_FIXED_GOAL \<equiv> 1"
abbreviation (input) EXT2_NEWRANGE_MIN_LENGTH :: u32 where "EXT2_NEWRANGE_MIN_LENGTH \<equiv> 2"
abbreviation (input) EXT2_NEWRANGE_ALL_FLAGS :: u32 where "EXT2_NEWRANGE_ALL_FLAGS \<equiv> 3"
abbreviation (input) EXT2_ALLOCRANGE_FIXED_GOAL :: u32 where "EXT2_ALLOCRANGE_FIXED_GOAL \<equiv> 1"
abbreviation (input) EXT2_ALLOCRANGE_ZERO_BLOCKS :: u32 where "EXT2_ALLOCRANGE_ZERO_BLOCKS \<equiv> 2"
abbreviation (input) EXT2_ALLOCRANGE_ALL_FLAGS :: u32 where "EXT2_ALLOCRANGE_ALL_FLAGS \<equiv> 3"

definition ext2fs_clear_block_uninit :: "'a fs_base_scheme \<Rightarrow> u32 \<Rightarrow> 'a fs_base_scheme" where
  "ext2fs_clear_block_uninit fs grp =
     (if grp \<ge> fs_group_desc_count fs \<or> \<not> ext2fs_has_group_desc_csum fs
         \<or> ext2fs_bg_flags_test fs grp EXT2_BG_BLOCK_UNINIT = 0 then fs
      else ext2fs_mark_bb_dirty (ext2fs_mark_super_dirty
             (ext2fs_group_desc_csum_set (ext2fs_bg_flags_clear fs grp EXT2_BG_BLOCK_UNINIT) grp)))"

section \<open>Inodes\<close>

primrec unmark_inodes :: "generic_bitmap option \<Rightarrow> u32 \<Rightarrow> nat \<Rightarrow> generic_bitmap option" where
  "unmark_inodes bmap ino 0 = bmap"
| "unmark_inodes bmap ino (Suc n) = unmark_inodes (fst (ext2fs_unmark_generic_bmap bmap (ucast ino))) (ino + 1) n"

definition check_inode_uninit ::
  "'a fs_base_scheme \<Rightarrow> generic_bitmap option \<Rightarrow> u32 \<Rightarrow> 'a fs_base_scheme \<times> generic_bitmap option" where
  "check_inode_uninit fs bmap grp =
     (if grp \<ge> fs_group_desc_count fs \<or> \<not> ext2fs_has_group_desc_csum fs
         \<or> ext2fs_bg_flags_test fs grp EXT2_BG_INODE_UNINIT = 0 then (fs, bmap)
      else let bmap = unmark_inodes bmap (grp * s_inodes_per_group (fs_super fs) + 1)
                       (unat (s_inodes_per_group (fs_super fs)));
               fs = ext2fs_bg_flags_clear fs grp EXT2_BG_INODE_UNINIT;
               fs = ext2fs_bg_flags_clear fs grp EXT2_BG_BLOCK_UNINIT;
               fs = ext2fs_group_desc_csum_set fs grp
           in (ext2fs_mark_super_dirty (ext2fs_mark_ib_dirty fs), bmap))"

text \<open>The loop of \<open>ext2fs_new_inode\<close>: it gives the inode to be tested last, or an error.\<close>

partial_function (option) new_inode_loop ::
  "'a fs_base_scheme \<Rightarrow> generic_bitmap option \<Rightarrow> u32 \<Rightarrow> u32 \<Rightarrow> ('a fs_base_scheme \<times> generic_bitmap option \<times> (errcode + u32)) option" where
  "new_inode_loop fs bmap start_inode i =
     (let ipg = s_inodes_per_group (fs_super fs);
          ino_in_group = (i - 1) mod ipg;
          grp = (i - 1) div ipg
      in case check_inode_uninit fs bmap grp of
           (fs, bmap) \<Rightarrow>
             let upto = i + (ipg - ino_in_group);
                 upto = (if i < start_inode \<and> upto \<ge> start_inode then start_inode - 1 else upto);
                 upto = (if upto > s_inodes_count (fs_super fs) then s_inodes_count (fs_super fs) else upto)
             in case ext2fs_find_first_zero_generic_bmap bmap (ucast i) (ucast upto) of
                  None \<Rightarrow> None
                | Some (Inr first_zero) \<Rightarrow> Some (fs, bmap, Inr (ucast first_zero))
                | Some (Inl retval) \<Rightarrow>
                    if retval \<noteq> ENOENT then Some (fs, bmap, Inl EXT2_ET_INODE_ALLOC_FAIL)
                    else let i = upto + 1;
                             i = (if i > s_inodes_count (fs_super fs) then EXT2_FIRST_INO (fs_super fs) else i)
                         in if i \<noteq> start_inode then new_inode_loop fs bmap start_inode i
                            else Some (fs, bmap, Inr i))"

definition ext2fs_new_inode ::
  "'a ext2_filsys_scheme \<Rightarrow> u32 \<Rightarrow> generic_bitmap option \<Rightarrow>
   ('a ext2_filsys_scheme \<times> generic_bitmap option \<times> (errcode + u32)) option" where
  "ext2fs_new_inode fs dir bmap =
     (let own = (bmap = None);
          bmap = (if own then fs_inode_map fs else bmap);
          ipg = s_inodes_per_group (fs_super fs);
          start_inode = (if dir > 0 then (dir - 1) div ipg * ipg + 1 else 0);
          start_inode = (if start_inode < EXT2_FIRST_INO (fs_super fs) then EXT2_FIRST_INO (fs_super fs) else start_inode)
      in if fs_magic fs \<noteq> EXT2_ET_MAGIC_EXT2FS_FILSYS then Some (fs, bmap, Inl EXT2_ET_MAGIC_EXT2FS_FILSYS)
         else if bmap = None then Some (fs, bmap, Inl EXT2_ET_NO_INODE_BITMAP)
         else if start_inode > s_inodes_count (fs_super fs) then Some (fs, bmap, Inl EXT2_ET_INODE_ALLOC_FAIL)
         else case new_inode_loop fs bmap start_inode start_inode of
                None \<Rightarrow> None
              | Some (fs, bmap, Inl retval) \<Rightarrow> Some (if own then fs\<lparr>fs_inode_map := bmap\<rparr> else fs, bmap, Inl retval)
              | Some (fs, bmap, Inr i) \<Rightarrow>
                  let (bmap, set) = ext2fs_test_generic_bmap bmap (ucast i);
                      fs = (if own then fs\<lparr>fs_inode_map := bmap\<rparr> else fs)
                  in Some (fs, bmap, if set \<noteq> 0 then Inl EXT2_ET_INODE_ALLOC_FAIL else Inr i))"

section \<open>Single blocks\<close>

text \<open>The goal that \<open>ext2fs_new_block3\<close> starts from.\<close>

definition block_goal :: "'a fs_base_scheme \<Rightarrow> u64 \<Rightarrow> u64" where
  "block_goal fs goal =
     (if goal = 0 \<or> goal \<ge> ext2fs_blocks_count (fs_super fs) then ucast (s_first_data_block (fs_super fs)) else goal)"

definition ext2fs_new_block3 ::
  "'a ext2_filsys_scheme \<Rightarrow> u64 \<Rightarrow> generic_bitmap option \<Rightarrow> ('a ext2_filsys_scheme \<times> (errcode + u64)) option" where
  "ext2fs_new_block3 fs goal bmap =
     (let bmap = (if bmap = None then fs_block_map fs else bmap);
          first = ucast (s_first_data_block (fs_super fs));
          goal = block_goal fs goal AND NOT (EXT2FS_CLUSTER_MASK fs)
      in if fs_magic fs \<noteq> EXT2_ET_MAGIC_EXT2FS_FILSYS then Some (fs, Inl EXT2_ET_MAGIC_EXT2FS_FILSYS)
         else if bmap = None then Some (fs, Inl EXT2_ET_NO_BLOCK_BITMAP)
         else case ext2fs_find_first_zero_generic_bmap bmap goal (ext2fs_blocks_count (fs_super fs) - 1) of
                None \<Rightarrow> None
              | Some r \<Rightarrow>
                  (case (if r = Inl ENOENT \<and> goal \<noteq> first
                         then ext2fs_find_first_zero_generic_bmap bmap first (goal - 1) else Some r) of
                     None \<Rightarrow> None
                   | Some (Inl retval) \<Rightarrow> Some (fs, Inl (if retval = ENOENT then EXT2_ET_BLOCK_ALLOC_FAIL else retval))
                   | Some (Inr b) \<Rightarrow> Some (ext2fs_clear_block_uninit fs (ext2fs_group_of_blk2 fs b), Inr b)))"

definition ext2fs_new_block2 ::
  "'a ext2_filsys_scheme \<Rightarrow> u64 \<Rightarrow> generic_bitmap option \<Rightarrow> ('a ext2_filsys_scheme \<times> (errcode + u64)) option" where
  "ext2fs_new_block2 fs goal bmap = ext2fs_new_block3 fs goal bmap"

definition ext2fs_new_block ::
  "'a ext2_filsys_scheme \<Rightarrow> u32 \<Rightarrow> generic_bitmap option \<Rightarrow> ('a ext2_filsys_scheme \<times> (errcode + u32)) option" where
  "ext2fs_new_block fs goal bmap = map_option (map_prod id (map_sum id ucast)) (ext2fs_new_block2 fs (ucast goal) bmap)"

section \<open>Runs of blocks\<close>

text \<open>\<open>num\<close> is signed; the single-block test of a bmap moves its cursors, so the bmap comes back.\<close>

partial_function (option) free_blocks_loop ::
  "'a fs_base_scheme \<Rightarrow> u64 \<Rightarrow> u64 \<Rightarrow> u32 \<Rightarrow> u64 \<Rightarrow> generic_bitmap option \<Rightarrow> u64 \<Rightarrow> (generic_bitmap option \<times> (errcode + u64)) option" where
  "free_blocks_loop fs start finish num c_ratio bmap b =
     (let wraps = b + scast num - 1 \<ge> ext2fs_blocks_count (fs_super fs)
      in if wraps \<and> finish > start then Some (bmap, Inl EXT2_ET_BLOCK_ALLOC_FAIL)
         else let b = (if wraps then ucast (s_first_data_block (fs_super fs)) else b)
              in case ext2fs_test_block_bitmap_range2 bmap b num of
                   (bmap, r) \<Rightarrow>
                     if r \<noteq> 0 then Some (bmap, Inr b)
                     else if b + c_ratio \<noteq> finish then free_blocks_loop fs start finish num c_ratio bmap (b + c_ratio)
                     else Some (bmap, Inl EXT2_ET_BLOCK_ALLOC_FAIL))"

definition ext2fs_get_free_blocks2 ::
  "'a ext2_filsys_scheme \<Rightarrow> u64 \<Rightarrow> u64 \<Rightarrow> u32 \<Rightarrow> generic_bitmap option \<Rightarrow> (generic_bitmap option \<times> (errcode + u64)) option" where
  "ext2fs_get_free_blocks2 fs start finish num bmap =
     (let bmap = (if bmap = None then fs_block_map fs else bmap)
      in if fs_magic fs \<noteq> EXT2_ET_MAGIC_EXT2FS_FILSYS then Some (bmap, Inl EXT2_ET_MAGIC_EXT2FS_FILSYS)
         else case bmap of
                None \<Rightarrow> Some (bmap, Inl EXT2_ET_NO_BLOCK_BITMAP)
              | Some g \<Rightarrow>
                  let b = (if start = 0 then ucast (s_first_data_block (fs_super fs)) else start);
                      finish = (if finish = 0 then start else finish);
                      num = (if num = 0 then 1 else num);
                      c_ratio = push_bit (ext2fs_get_bitmap_granularity g) 1;
                      b = b AND NOT (c_ratio - 1);
                      finish = finish AND NOT (c_ratio - 1)
                  in free_blocks_loop fs start finish num c_ratio bmap b)"

definition ext2fs_get_free_blocks ::
  "'a ext2_filsys_scheme \<Rightarrow> u32 \<Rightarrow> u32 \<Rightarrow> u32 \<Rightarrow> generic_bitmap option \<Rightarrow> (generic_bitmap option \<times> (errcode + u32)) option" where
  "ext2fs_get_free_blocks fs start finish num bmap =
     map_option (map_prod id (map_sum id ucast)) (ext2fs_get_free_blocks2 fs (ucast start) (ucast finish) num bmap)"

text \<open>The search of \<open>ext2fs_new_range\<close>: the first block and the end of the run.\<close>

partial_function (option) new_range_loop ::
  "'a fs_base_scheme \<Rightarrow> u32 \<Rightarrow> u64 \<Rightarrow> u64 \<Rightarrow> generic_bitmap option \<Rightarrow> u64 \<Rightarrow> bool \<Rightarrow> (errcode + u64 \<times> u64) option" where
  "new_range_loop fs flags goal len bmap start looped =
     (let max_blocks = ext2fs_blocks_count (fs_super fs);
          first = ucast (s_first_data_block (fs_super fs));
          fixed = flags AND EXT2_NEWRANGE_FIXED_GOAL \<noteq> 0
      in if looped \<and> \<not> start \<le> goal then Some (Inl EXT2_ET_BLOCK_ALLOC_FAIL)
         else case ext2fs_find_first_zero_generic_bmap bmap start (max_blocks - 1) of
                None \<Rightarrow> None
              | Some (Inl retval) \<Rightarrow>
                  if retval = ENOENT then
                    if fixed \<or> start = first then Some (Inl EXT2_ET_BLOCK_ALLOC_FAIL)
                    else new_range_loop fs flags goal len bmap first looped
                  else Some (Inl retval)
              | Some (Inr start) \<Rightarrow>
                  if fixed \<and> start \<noteq> goal then Some (Inl EXT2_ET_BLOCK_ALLOC_FAIL)
                  else let b = min (start + len - 1) (max_blocks - 1)
                       in case ext2fs_find_first_set_generic_bmap bmap start b of
                            None \<Rightarrow> None
                          | Some r \<Rightarrow>
                              (case (if r = Inl ENOENT then Inr (b + 1) else r) of
                                 Inl retval \<Rightarrow> Some (Inl retval)
                               | Inr end \<Rightarrow>
                                   if flags AND EXT2_NEWRANGE_MIN_LENGTH = 0 \<or> end - start \<ge> len then Some (Inr (start, end))
                                   else if fixed then Some (Inl EXT2_ET_BLOCK_ALLOC_FAIL)
                                   else if end \<ge> max_blocks then
                                     if looped then Some (Inl EXT2_ET_BLOCK_ALLOC_FAIL)
                                     else new_range_loop fs flags goal len bmap first True
                                   else new_range_loop fs flags goal len bmap end looped))"

partial_function (option) clear_uninit_loop :: "'a fs_base_scheme \<Rightarrow> u64 \<Rightarrow> u64 \<Rightarrow> 'a fs_base_scheme option" where
  "clear_uninit_loop fs b end =
     (if b < end
      then clear_uninit_loop (ext2fs_clear_block_uninit fs (ext2fs_group_of_blk2 fs b))
             (b + ucast (s_blocks_per_group (fs_super fs))) end
      else Some fs)"

definition ext2fs_new_range ::
  "'a ext2_filsys_scheme \<Rightarrow> u32 \<Rightarrow> u64 \<Rightarrow> u64 \<Rightarrow> generic_bitmap option \<Rightarrow> ('a ext2_filsys_scheme \<times> (errcode + u64 \<times> u64)) option" where
  "ext2fs_new_range fs flags goal len bmap =
     (let bmap = (if bmap = None then fs_block_map fs else bmap);
          goal = block_goal fs goal
      in if fs_magic fs \<noteq> EXT2_ET_MAGIC_EXT2FS_FILSYS then Some (fs, Inl EXT2_ET_MAGIC_EXT2FS_FILSYS)
         else if len = 0 \<or> flags AND NOT EXT2_NEWRANGE_ALL_FLAGS \<noteq> 0 then Some (fs, Inl EXT2_ET_INVALID_ARGUMENT)
         else if bmap = None then Some (fs, Inl EXT2_ET_NO_BLOCK_BITMAP)
         else case new_range_loop fs flags goal len bmap goal False of
                None \<Rightarrow> None
              | Some (Inl retval) \<Rightarrow> Some (fs, Inl retval)
              | Some (Inr (start, end)) \<Rightarrow>
                  map_option (\<lambda>fs. (fs, Inr (start, end - start))) (clear_uninit_loop fs start end))"

end
