(* ===== verification/Alloc_inv.thy ===== *)
theory Alloc_inv
  imports Alloc
begin

text \<open>
  The accounting invariant of the block allocation, \<open>acc_ok\<close>, for file systems without bigalloc: the
  map of the handle covers exactly the blocks of the file system, and the counts of free blocks in the
  groups and in the super block are the numbers of unmarked blocks.
\<close>

definition blocks_of :: "'a fs_base_scheme \<Rightarrow> nat set" where
  "blocks_of fs = {fdb fs ..< nblocks fs}"

definition group_blocks :: "'a fs_base_scheme \<Rightarrow> nat \<Rightarrow> nat set" where
  "group_blocks fs i = {n \<in> blocks_of fs. (n - fdb fs) div bpg fs = i}"

definition map_frame :: "'a fs_base_scheme \<Rightarrow> gb_frame" where
  "map_frame fs = \<lparr>fr_start = ucast (s_first_data_block (fs_super fs)),
    fr_end = ext2fs_blocks_count (fs_super fs) - 1, fr_bits = 0\<rparr>"

definition fs_sound :: "'a ext2_filsys_scheme \<Rightarrow> bool" where
  "fs_sound fs \<longleftrightarrow> fs_geom fs \<and> fs_magic fs = EXT2_ET_MAGIC_EXT2FS_FILSYS \<and> fs_cluster_ratio_bits fs = 0
     \<and> length (fs_group_desc fs) = ngroups fs \<and> (ext2fs_has_feature_64bit (fs_super fs) \<or> bpg fs < 2 ^ 16)"

definition acc_ok :: "'a ext2_filsys_scheme \<Rightarrow> nat set \<Rightarrow> bool" where
  "acc_ok fs S \<longleftrightarrow> fs_sound fs \<and> (\<exists>g. fs_block_map fs = Some g \<and> map_is g (map_frame fs) S)
     \<and> (\<forall>i < ngroups fs. unat (ext2fs_bg_free_blocks_count fs (of_nat i)) = card (group_blocks fs i - S))
     \<and> unat (ext2fs_free_blocks_count (fs_super fs)) = card (blocks_of fs - S)"

section \<open>What the bookkeeping operations leave alone\<close>

definition same_geo :: "'a ext2_filsys_scheme \<Rightarrow> 'a ext2_filsys_scheme \<Rightarrow> bool" where
  "same_geo fs fs' \<longleftrightarrow> s_first_data_block (fs_super fs') = s_first_data_block (fs_super fs)
     \<and> s_blocks_per_group (fs_super fs') = s_blocks_per_group (fs_super fs)
     \<and> ext2fs_blocks_count (fs_super fs') = ext2fs_blocks_count (fs_super fs)
     \<and> s_feature_incompat (fs_super fs') = s_feature_incompat (fs_super fs)
     \<and> fs_group_desc_count fs' = fs_group_desc_count fs \<and> fs_cluster_ratio_bits fs' = fs_cluster_ratio_bits fs
     \<and> length (fs_group_desc fs') = length (fs_group_desc fs) \<and> fs_magic fs' = fs_magic fs"

lemma same_geo_refl [simp]: "same_geo fs fs"
  by (simp add: same_geo_def)

lemma same_geo_trans [trans]: "same_geo a b \<Longrightarrow> same_geo b c \<Longrightarrow> same_geo a c"
  by (simp add: same_geo_def)

lemma same_geoD:
  assumes "same_geo fs fs'"
  shows "fdb fs' = fdb fs" "bpg fs' = bpg fs" "nblocks fs' = nblocks fs" "ngroups fs' = ngroups fs"
    "fs_geom fs' = fs_geom fs" "fs_sound fs' = fs_sound fs" "blocks_of fs' = blocks_of fs" "map_frame fs' = map_frame fs"
    "group_blocks fs' = group_blocks fs" "group_in fs' g = group_in fs g" "ext2fs_group_of_blk2 fs' b = ext2fs_group_of_blk2 fs b"
    "EXT2FS_CLUSTER_RATIO fs' = EXT2FS_CLUSTER_RATIO fs" "group_count_wide fs' n = group_count_wide fs n"
    "fs_magic fs' = fs_magic fs"
  using assms by (auto simp: same_geo_def fdb_def bpg_def nblocks_def ngroups_def fs_geom_def fs_sound_def blocks_of_def
      map_frame_def group_blocks_def group_in_def ext2fs_group_of_blk2_def EXT2FS_CLUSTER_RATIO_def group_count_wide_def
      has_feature_incompat_def fun_eq_iff)

named_theorems book

lemma same_geo_ops [book]:
  "same_geo fs (upd_block_map h fs)" "same_geo fs (gdp_store fs g d)"
  "same_geo fs (ext2fs_bg_free_blocks_count_set fs g n)" "same_geo fs (ext2fs_bg_flags_clear fs g x)"
  "same_geo fs (ext2fs_group_desc_csum_set fs g)" "same_geo fs (ext2fs_mark_super_dirty fs)" "same_geo fs (ext2fs_mark_bb_dirty fs)"
  "same_geo fs (fs\<lparr>fs_super := ext2fs_free_blocks_count_add (fs_super fs) k\<rparr>)"
  by (simp_all add: same_geo_def upd_block_map_def gdp_store_def ext2fs_bg_free_blocks_count_set_def Let_def ext2fs_bg_flags_clear_def
      ext2fs_group_desc_csum_set_def ext2fs_bg_checksum_set_def ext2fs_mark_super_dirty_def ext2fs_mark_bb_dirty_def
      ext2fs_free_blocks_count_add_def ext2fs_free_blocks_count_set_def ext2fs_blocks_count_def)

lemma book_map [book]:
  "fs_block_map (upd_block_map h fs) = h (fs_block_map fs)"
  "fs_block_map (ext2fs_bg_free_blocks_count_set fs g n) = fs_block_map fs"
  "fs_block_map (ext2fs_bg_flags_clear fs g x) = fs_block_map fs"
  "fs_block_map (ext2fs_group_desc_csum_set fs g) = fs_block_map fs"
  "fs_block_map (ext2fs_mark_super_dirty fs) = fs_block_map fs" "fs_block_map (ext2fs_mark_bb_dirty fs) = fs_block_map fs"
  "fs_block_map (fs\<lparr>fs_super := s\<rparr>) = fs_block_map fs"
  by (simp_all add: upd_block_map_def ext2fs_bg_free_blocks_count_set_def Let_def ext2fs_bg_flags_clear_def gdp_store_def
      ext2fs_group_desc_csum_set_def ext2fs_bg_checksum_set_def ext2fs_mark_super_dirty_def ext2fs_mark_bb_dirty_def)

lemma book_super [book]:
  "fs_super (upd_block_map h fs) = fs_super fs" "fs_super (ext2fs_bg_free_blocks_count_set fs g n) = fs_super fs"
  "fs_super (ext2fs_bg_flags_clear fs g x) = fs_super fs" "fs_super (ext2fs_group_desc_csum_set fs g) = fs_super fs"
  "fs_super (ext2fs_mark_super_dirty fs) = fs_super fs" "fs_super (ext2fs_mark_bb_dirty fs) = fs_super fs"
  by (simp_all add: upd_block_map_def ext2fs_bg_free_blocks_count_set_def Let_def ext2fs_bg_flags_clear_def gdp_store_def
      ext2fs_group_desc_csum_set_def ext2fs_bg_checksum_set_def ext2fs_mark_super_dirty_def ext2fs_mark_bb_dirty_def)

lemma free_blocks_desc:
  "ext2fs_bg_free_blocks_count fs h = (let d = ext4fs_group_desc fs h in
     ucast (bg_free_blocks_count d) OR (if ext2fs_has_feature_64bit (fs_super fs) then push_bit 16 (ucast (bg_free_blocks_count_hi d)) else 0))"
  by (simp add: ext2fs_bg_free_blocks_count_def)

lemma book_free [book]:
  assumes "group_in fs g" "group_in fs h"
  shows "ext2fs_bg_free_blocks_count (ext2fs_bg_flags_clear fs g x) h = ext2fs_bg_free_blocks_count fs h"
    "ext2fs_bg_free_blocks_count (ext2fs_group_desc_csum_set fs g) h = ext2fs_bg_free_blocks_count fs h"
  using assms
  by (simp_all add: free_blocks_desc ext2fs_bg_flags_clear_def ext2fs_group_desc_csum_set_def ext2fs_bg_checksum_set_def Let_def gdp_store_get)

lemma book_free_same [book]:
  "ext2fs_bg_free_blocks_count (upd_block_map f fs) h = ext2fs_bg_free_blocks_count fs h"
  "ext2fs_bg_free_blocks_count (ext2fs_mark_super_dirty fs) h = ext2fs_bg_free_blocks_count fs h"
  "ext2fs_bg_free_blocks_count (ext2fs_mark_bb_dirty fs) h = ext2fs_bg_free_blocks_count fs h"
  "ext2fs_bg_free_blocks_count (fs\<lparr>fs_super := ext2fs_free_blocks_count_add (fs_super fs) k\<rparr>) h = ext2fs_bg_free_blocks_count fs h"
  by (simp_all add: free_blocks_desc upd_block_map_def ext2fs_mark_super_dirty_def ext2fs_mark_bb_dirty_def Let_def
      ext4fs_group_desc_def ext2fs_group_desc_def ext2fs_free_blocks_count_add_def ext2fs_free_blocks_count_set_def has_feature_incompat_def)


section \<open>Marking one block\<close>

lemma finite_group_blocks [simp]: "finite (group_blocks fs i)" "finite (blocks_of fs)"
  by (simp_all add: group_blocks_def blocks_of_def)

lemma group_blocks_sub: "group_blocks fs i \<subseteq> blocks_of fs"
  by (auto simp: group_blocks_def)

lemma card_group_blocks: "fs_geom fs \<Longrightarrow> card (group_blocks fs i) \<le> bpg fs"
proof -
  assume "fs_geom fs"
  then have b: "0 < bpg fs" by (rule fs_geomD)
  have "group_blocks fs i \<subseteq> {fdb fs + i * bpg fs ..< fdb fs + i * bpg fs + bpg fs}"
  proof
    fix n assume "n \<in> group_blocks fs i"
    then have n: "fdb fs \<le> n" "(n - fdb fs) div bpg fs = i" by (auto simp: group_blocks_def blocks_of_def)
    have "(n - fdb fs) mod bpg fs < bpg fs" using b by simp
    moreover have "n - fdb fs = i * bpg fs + (n - fdb fs) mod bpg fs" using n(2) div_mult_mod_eq [of "n - fdb fs" "bpg fs"] by simp
    ultimately have "i * bpg fs \<le> n - fdb fs" "n - fdb fs < i * bpg fs + bpg fs" by linarith+
    then show "n \<in> {fdb fs + i * bpg fs ..< fdb fs + i * bpg fs + bpg fs}" using n(1) by auto
  qed
  then have "card (group_blocks fs i) \<le> card {fdb fs + i * bpg fs ..< fdb fs + i * bpg fs + bpg fs}" by (rule card_mono [rotated]) simp
  then show ?thesis by simp
qed

lemma block_in:
  assumes "unat blk \<in> blocks_of fs"
  shows "ucast (s_first_data_block (fs_super fs)) \<le> blk" "blk < ext2fs_blocks_count (fs_super fs)" "fr_in (map_frame fs) blk"
    "fr_cluster (map_frame fs) blk = blk"
proof -
  show le: "ucast (s_first_data_block (fs_super fs)) \<le> blk" and lt: "blk < ext2fs_blocks_count (fs_super fs)"
    using assms by (auto simp: blocks_of_def fdb_def nblocks_def word_le_nat_alt word_less_nat_alt unat_ucast32_64)
  show c: "fr_cluster (map_frame fs) blk = blk" by (simp add: fr_cluster_def map_frame_def)
  have "0 < ext2fs_blocks_count (fs_super fs)" using lt by (simp add: word_less_nat_alt)
  then have "blk \<le> ext2fs_blocks_count (fs_super fs) - 1" using lt by (simp add: word_le_nat_alt word_less_nat_alt unat_dec)
  then show "fr_in (map_frame fs) blk" using le unfolding fr_in_def c by (simp add: map_frame_def)
qed

text \<open>A count goes down by one when a block is marked and up by one when it is unmarked.\<close>

lemma card_mark:
  assumes "finite A" "n \<in> A" "n \<notin> S"
  shows "card (A - insert n S) = card (A - S) - 1" "0 < card (A - S)"
proof -
  have e: "A - insert n S = (A - S) - {n}" by auto
  show "card (A - insert n S) = card (A - S) - 1" using assms by (simp add: e)
  show "0 < card (A - S)" using assms by (auto simp: card_gt_0_iff)
qed

lemma card_unmark:
  assumes "finite A" "n \<in> A" "n \<in> S"
  shows "card (A - (S - {n})) = card (A - S) + 1" "card (A - S) < card A"
proof -
  have "A - (S - {n}) = insert n (A - S)" using assms by auto
  then show "card (A - (S - {n})) = card (A - S) + 1" using assms by simp
  show "card (A - S) < card A" using assms by (intro psubset_card_mono) auto
qed

definition set_step :: "int \<Rightarrow> nat \<Rightarrow> nat set \<Rightarrow> nat set" where
  "set_step inuse n S = (if inuse = 1 then insert n S else S - {n})"

definition step_ok :: "int \<Rightarrow> nat \<Rightarrow> nat set \<Rightarrow> bool" where
  "step_ok inuse n S \<longleftrightarrow> inuse = 1 \<and> n \<notin> S \<or> inuse = - 1 \<and> n \<in> S"

lemma card_step32:
  assumes "step_ok inuse n S" "finite A" "n \<in> A" "unat (c :: u32) = card (A - S)" "card A < 2 ^ 32"
  shows "unat (c - of_int inuse) = card (A - set_step inuse n S)" "card (A - set_step inuse n S) \<le> card A"
proof -
  show "card (A - set_step inuse n S) \<le> card A" using assms(2) by (intro card_mono) auto
  show "unat (c - of_int inuse) = card (A - set_step inuse n S)"
    using assms(1)
    unfolding step_ok_def
  proof
    assume s: "inuse = 1 \<and> n \<notin> S"
    have "0 < unat c" using card_mark(2) [OF assms(2,3)] s assms(4) by simp
    then have "c \<noteq> 0" by auto
    then show ?thesis using card_mark(1) [OF assms(2,3), of S] s assms(4)
    by (simp add: set_step_def unat_minus_one unat_gt_0)
  next
    assume s: "inuse = - 1 \<and> n \<in> S"
    have "unat c + 1 < 2 ^ 32" using card_unmark(2) [OF assms(2,3)] s assms(4,5) by fastforce
    then show ?thesis using card_unmark(1) [OF assms(2,3), of S] s assms(4) by (simp add: set_step_def unat_word_ariths)
  qed
qed

lemma card_step64:
  assumes "step_ok inuse n S" "finite A" "n \<in> A" "unat (c :: u64) = card (A - S)" "card A < 2 ^ 64"
  shows "unat (c + of_int (- inuse)) = card (A - set_step inuse n S)"
  using assms(1)
  unfolding step_ok_def
proof
  assume s: "inuse = 1 \<and> n \<notin> S"
  have "0 < unat c" using card_mark(2) [OF assms(2,3)] s assms(4) by simp
  then have "c \<noteq> 0" by auto
  then show ?thesis using card_mark(1) [OF assms(2,3), of S] s assms(4)
    by (simp add: set_step_def unat_minus_one unat_gt_0)
next
  assume s: "inuse = - 1 \<and> n \<in> S"
  have "unat c + 1 < 2 ^ 64" using card_unmark(2) [OF assms(2,3)] s assms(4,5) by fastforce
  then show ?thesis using card_unmark(1) [OF assms(2,3), of S] s assms(4) by (simp add: set_step_def unat_word_ariths)
qed

lemma group_wide_id:
  assumes "fs_sound fs" "unat n \<le> bpg fs"
  shows "group_count_wide fs n = n"
proof (cases "ext2fs_has_feature_64bit (fs_super fs)")
  case False
  then have "unat n < 2 ^ 16" using assms by (auto simp: fs_sound_def)
  then have "unat (take_bit 16 n) = unat n" by (simp add: unsigned_take_bit_eq take_bit_nat_eq_self)
  then show ?thesis using False by (simp add: group_count_wide_def word_unat_eq_iff)
qed (simp add: group_count_wide_def)

lemma count_wide_id:
  assumes "unat n \<le> nblocks fs"
  shows "count_wide (fs_super fs) n = n"
proof (cases "ext2fs_has_feature_64bit (fs_super fs)")
  case False
  then have "ext2fs_blocks_count (fs_super fs) = ucast (s_blocks_count (fs_super fs))" by (simp add: ext2fs_blocks_count_def)
  then have "nblocks fs < 2 ^ 32" by (simp add: nblocks_def unat_ucast32_64 unat_lt32)
  then have "unat (take_bit 32 n) = unat n" using assms by (simp add: unat_take_bit32)
  then show ?thesis using False by (simp add: count_wide_def word_unat_eq_iff)
qed (simp add: count_wide_def)

lemma group_in_of_nat:
  assumes "fs_sound fs" "i < ngroups fs"
  shows "group_in fs (of_nat i)" "unat (of_nat i :: u32) = i"
proof -
  show u: "unat (of_nat i :: u32) = i" using assms by (intro unat_of_nat32)
  show "group_in fs (of_nat i)" using assms u by (simp add: group_in_def fs_sound_def ngroups_def word_less_nat_alt)
qed

lemma block_stats_acc:
  assumes acc: "acc_ok fs S" and blk: "unat blk \<in> blocks_of fs" and step: "step_ok inuse (unat blk) S"
  shows "same_geo fs (ext2fs_block_alloc_stats2 fs blk inuse)"
    "acc_ok (ext2fs_block_alloc_stats2 fs blk inuse) (set_step inuse (unat blk) S)"
proof -
  define g where "g = ext2fs_group_of_blk2 fs blk"
  define mk where "mk m = fst ((if inuse > 0 then ext2fs_mark_generic_bmap else ext2fs_unmark_generic_bmap) m blk)" for m
  define f1 where "f1 = upd_block_map mk fs"
  define f2 where "f2 = ext2fs_bg_free_blocks_count_set f1 g (ext2fs_bg_free_blocks_count f1 g - of_int inuse)"
  define f3 where "f3 = ext2fs_group_desc_csum_set (ext2fs_bg_flags_clear f2 g EXT2_BG_BLOCK_UNINIT) g"
  define f4 where "f4 = f3\<lparr>fs_super := ext2fs_free_blocks_count_add (fs_super f3) (of_int (- inuse) * EXT2FS_CLUSTER_RATIO f3)\<rparr>"
  note bi = block_in [OF blk]
  have eq: "ext2fs_block_alloc_stats2 fs blk inuse = ext2fs_mark_bb_dirty (ext2fs_mark_super_dirty f4)"
    using bi(1,2) by (simp add: ext2fs_block_alloc_stats2_def Let_def g_def f4_def f3_def f2_def f1_def mk_def [abs_def] not_less not_le)
  have snd: "fs_sound fs" using acc by (simp add: acc_ok_def)
  then have geo: "fs_geom fs" by (simp add: fs_sound_def)
  have s1: "same_geo fs f1" unfolding f1_def by (rule book)
  have s2: "same_geo fs f2" unfolding f2_def by (rule same_geo_trans [OF s1]) (rule book)
  have s3: "same_geo fs f3" unfolding f3_def by (rule same_geo_trans [OF same_geo_trans [OF s2]]) (rule book)+
  have s4: "same_geo fs f4" unfolding f4_def by (rule same_geo_trans [OF s3]) (rule book)
  have s5: "same_geo fs (ext2fs_mark_bb_dirty (ext2fs_mark_super_dirty f4))"
    by (rule same_geo_trans [OF same_geo_trans [OF s4]]) (rule book)+
  then show "same_geo fs (ext2fs_block_alloc_stats2 fs blk inuse)" by (simp only: eq)
  have gn: "unat g = (unat blk - fdb fs) div bpg fs" "unat g < ngroups fs"
    using group_of_blk_nat [OF geo, of blk] blk by (simp_all add: g_def blocks_of_def)
  have gin: "group_in fs g" using snd gn(2) by (simp add: group_in_def fs_sound_def ngroups_def word_less_nat_alt)
  have r1: "EXT2FS_CLUSTER_RATIO f3 = 1"
    using same_geoD(12) [OF s3] snd by (simp add: EXT2FS_CLUSTER_RATIO_def fs_sound_def)
  show "acc_ok (ext2fs_block_alloc_stats2 fs blk inuse) (set_step inuse (unat blk) S)"
    unfolding acc_ok_def eq
  proof (intro conjI allI impI)
    show "fs_sound (ext2fs_mark_bb_dirty (ext2fs_mark_super_dirty f4))" using same_geoD(6) [OF s5] snd by simp
    obtain m where m: "fs_block_map fs = Some m" "map_is m (map_frame fs) S" using acc by (auto simp: acc_ok_def)
    have "\<exists>m'. mk (Some m) = Some m' \<and> map_is m' (map_frame fs) (set_step inuse (unat blk) S)"
      using step unfolding step_ok_def
    proof
      assume s: "inuse = 1 \<and> unat blk \<notin> S"
      show ?thesis using s bi(3,4) by (auto simp: mk_def set_step_def intro: map_mark [OF m(2), of blk])
    next
      assume s: "inuse = - 1 \<and> unat blk \<in> S"
      show ?thesis using s bi(3,4) by (auto simp: mk_def set_step_def intro: map_unmark [OF m(2), of blk])
    qed
    then show "\<exists>m. fs_block_map (ext2fs_mark_bb_dirty (ext2fs_mark_super_dirty f4)) = Some m
        \<and> map_is m (map_frame (ext2fs_mark_bb_dirty (ext2fs_mark_super_dirty f4))) (set_step inuse (unat blk) S)"
      unfolding same_geoD(8) [OF s5] by (simp add: book_map f4_def f3_def f2_def f1_def m(1))
  next
    fix i assume "i < ngroups (ext2fs_mark_bb_dirty (ext2fs_mark_super_dirty f4))"
    then have i: "i < ngroups fs" by (simp only: same_geoD(4) [OF s5])
    note gi = group_in_of_nat [OF snd i]
    have free: "ext2fs_bg_free_blocks_count (ext2fs_mark_bb_dirty (ext2fs_mark_super_dirty f4)) (of_nat i)
        = ext2fs_bg_free_blocks_count f2 (of_nat i)"
      using gin gi(1) same_geoD(10) [OF s2] same_geoD(10) [OF same_geo_trans [OF s2 same_geo_ops(4)]]
      by (simp add: book_free_same f4_def f3_def book_free)
    have f2: "ext2fs_bg_free_blocks_count f2 (of_nat i) =
        (if of_nat i = g then group_count_wide fs (ext2fs_bg_free_blocks_count fs g - of_int inuse)
         else ext2fs_bg_free_blocks_count fs (of_nat i))"
      using gin gi(1) same_geoD(10) [OF s1] same_geoD(13) [OF s1]
      by (simp add: f2_def f1_def bg_free_blocks_count_set_get book_free_same)
    have old: "unat (ext2fs_bg_free_blocks_count fs (of_nat i)) = card (group_blocks fs i - S)"
      using acc i by (simp add: acc_ok_def)
    show "unat (ext2fs_bg_free_blocks_count (ext2fs_mark_bb_dirty (ext2fs_mark_super_dirty f4)) (of_nat i))
        = card (group_blocks (ext2fs_mark_bb_dirty (ext2fs_mark_super_dirty f4)) i - set_step inuse (unat blk) S)"
      unfolding free f2 same_geoD(9) [OF s5]
    proof (cases "of_nat i = g")
      case True
      then have "unat blk \<in> group_blocks fs i" using gn gi(2) blk by (auto simp: group_blocks_def)
      moreover have "card (group_blocks fs i) < 2 ^ 32"
        using card_group_blocks [OF geo, of i] unat_lt32 [of "s_blocks_per_group (fs_super fs)"] by (simp add: bpg_def)
      ultimately have c: "unat (ext2fs_bg_free_blocks_count fs g - of_int inuse) = card (group_blocks fs i - set_step inuse (unat blk) S)"
        "card (group_blocks fs i - set_step inuse (unat blk) S) \<le> card (group_blocks fs i)"
        using card_step32 [OF step, of "group_blocks fs i" "ext2fs_bg_free_blocks_count fs g"] old True by simp_all
      then have "group_count_wide fs (ext2fs_bg_free_blocks_count fs g - of_int inuse) = ext2fs_bg_free_blocks_count fs g - of_int inuse"
        using card_group_blocks [OF geo, of i] by (intro group_wide_id [OF snd]) simp
      then show "unat (if of_nat i = g then group_count_wide fs (ext2fs_bg_free_blocks_count fs g - of_int inuse)
         else ext2fs_bg_free_blocks_count fs (of_nat i)) = card (group_blocks fs i - set_step inuse (unat blk) S)"
        using True c(1) by simp
    next
      case False
      then have "unat blk \<notin> group_blocks fs i" using gn gi(2) by (auto simp: group_blocks_def word_unat_eq_iff)
      then have "group_blocks fs i - set_step inuse (unat blk) S = group_blocks fs i - S" by (auto simp: set_step_def)
      then show "unat (if of_nat i = g then group_count_wide fs (ext2fs_bg_free_blocks_count fs g - of_int inuse)
         else ext2fs_bg_free_blocks_count fs (of_nat i)) = card (group_blocks fs i - set_step inuse (unat blk) S)"
        using False old by simp
    qed
  next
    have "unat (ext2fs_free_blocks_count (fs_super fs)) = card (blocks_of fs - S)" using acc by (simp add: acc_ok_def)
    moreover have nb: "card (blocks_of fs) \<le> nblocks fs" by (simp add: blocks_of_def)
    ultimately have c: "unat (ext2fs_free_blocks_count (fs_super fs) + of_int (- inuse)) = card (blocks_of fs - set_step inuse (unat blk) S)"
      using fs_geomD(7) [OF geo] by (intro card_step64 [OF step _ blk]) auto
    also have "\<dots> \<le> card (blocks_of fs)" by (intro card_mono) auto
    finally have "count_wide (fs_super fs) (ext2fs_free_blocks_count (fs_super fs) + of_int (- inuse))
        = ext2fs_free_blocks_count (fs_super fs) + of_int (- inuse)"
      using nb by (intro count_wide_id) simp
    moreover have "fs_super f3 = fs_super fs" by (simp add: f3_def f2_def f1_def book_super)
    ultimately have "ext2fs_free_blocks_count (fs_super (ext2fs_mark_bb_dirty (ext2fs_mark_super_dirty f4)))
        = ext2fs_free_blocks_count (fs_super fs) + of_int (- inuse)"
      by (simp add: book_super f4_def r1 free_blocks_count_add_get)
    then show "unat (ext2fs_free_blocks_count (fs_super (ext2fs_mark_bb_dirty (ext2fs_mark_super_dirty f4))))
        = card (blocks_of (ext2fs_mark_bb_dirty (ext2fs_mark_super_dirty f4)) - set_step inuse (unat blk) S)"
      unfolding same_geoD(7) [OF s5] using c by simp
  qed
qed

end
