(* ===== verification/Alloc_find.thy ===== *)
theory Alloc_find
  imports Alloc_inv
begin

text \<open>
  The searches of \<^verbatim>\<open>Alloc\<close> on a sound file system without bigalloc: what they find is free, they
  find a free block when there is one, and exactly when the search for a run does not end.
\<close>

section \<open>The maps as sets of blocks\<close>

definition map_for :: "'a ext2_filsys_scheme \<Rightarrow> generic_bitmap \<Rightarrow> nat set \<Rightarrow> bool" where
  "map_for fs g S \<longleftrightarrow> fs_sound fs \<and> map_is g (map_frame fs) S"

lemma rb_find_zero_empty:
  assumes "rb_inv b" "rb_bits b = {}" "in_bmap b s" "in_bmap b e" "s \<le> e"
  shows "rb_find_first_zero b s e = Inl ENOENT"
proof -
  have "rb_exts b = []" using assms(1,2) rb_invD(2) [OF assms(1)]
    by (cases "rb_exts b") (auto simp: rb_bits_def ext_bits_def exts_ok_def ext_ok_def)
  then have "rb_root (rb_priv b) = Leaf" using rb_state_Leaf [OF assms(1)] by simp
  moreover have "\<not> e - bm_start b < s - bm_start b"
    using assms(3-5) by (simp add: in_bmap_def word_less_nat_alt word_le_nat_alt unat_sub)
  ultimately show ?thesis by (simp add: rb_find_first_zero_def Let_def cong: if_cong)
qed

lemma range_blocks:
  assumes "fs_geom fs" "unat a \<in> blocks_of fs" "unat e \<in> blocks_of fs" "a \<le> e"
  shows "\<not> fr_bad (map_frame fs) a e" "fr_cluster (map_frame fs) a = a" "fr_cluster (map_frame fs) e = e"
  using block_in [OF assms(2)] block_in [OF assms(3)] assms(4) by (auto simp: fr_bad_def fr_in_def)

lemma first_in_cases:
  obtains "first_in S lo hi = None" "S \<inter> {lo .. hi} = {}"
  | n where "first_in S lo hi = Some n" "n \<in> S" "lo \<le> n" "n \<le> hi" "S \<inter> {lo ..< n} = {}"
proof (cases "S \<inter> {lo .. hi} = {}")
  case True
  from first_in_None [OF this] True show ?thesis by (rule that(1))
next
  case False
  define n where "n = Min (S \<inter> {lo .. hi})"
  have fin: "finite (S \<inter> {lo .. hi})" by simp
  have n: "n \<in> S \<inter> {lo .. hi}" unfolding n_def using fin False by (rule Min_in)
  have "S \<inter> {lo ..< n} = {}"
  proof (rule ccontr)
    assume "S \<inter> {lo ..< n} \<noteq> {}"
    then obtain m where m: "m \<in> S" "lo \<le> m" "m < n" by auto
    then have "m \<in> S \<inter> {lo .. hi}" using n by auto
    then have "n \<le> m" unfolding n_def by (rule Min_le [OF fin])
    then show False using m(3) by simp
  qed
  moreover have m: "n \<in> S" "lo \<le> n" "n \<le> hi" using n by simp_all
  ultimately have "first_in S lo hi = Some n" by (intro first_in_Some)
  with \<open>S \<inter> {lo ..< n} = {}\<close> m show ?thesis by (intro that(2))
qed

lemma first_block_id:
  assumes "unat a \<le> n" "n < 2 ^ 64"
  shows "first_block (map_frame fs) a (of_nat n) = of_nat n" "unat (of_nat n :: u64) = n"
proof -
  show u: "unat (of_nat n :: u64) = n" unfolding unat_of_nat using assms(2) by (intro mod_less) simp
  then have "a \<le> of_nat n" using assms(1) by (simp add: word_le_nat_alt)
  then show "first_block (map_frame fs) a (of_nat n) = of_nat n" by (simp add: first_block_def map_frame_def)
qed

text \<open>The search for a free block in a range of blocks.\<close>

lemma find_zero:
  assumes m: "map_for fs g S" and a: "unat a \<in> blocks_of fs" and e: "unat e \<in> blocks_of fs" and le: "a \<le> e"
  obtains (found) x where "ext2fs_find_first_zero_generic_bmap (Some g) a e = Some (Inr x)"
      "a \<le> x" "x \<le> e" "unat x \<notin> S" "{unat a ..< unat x} \<subseteq> S" "zero_ok g S"
  | (none) "ext2fs_find_first_zero_generic_bmap (Some g) a e = Some (Inl ENOENT)"
      "zero_ok g S \<Longrightarrow> {unat a .. unat e} \<subseteq> S"
proof -
  have geo: "fs_geom fs" using m by (simp add: map_for_def fs_sound_def)
  note r = range_blocks [OF geo a e le]
  have mi: "map_is g (map_frame fs) S" using m by (simp add: map_for_def)
  have e64: "unat e < 2 ^ 64" using unat_lt64 [of e] by simp
  show thesis
  proof (cases "zero_ok g S")
    case True
    from map_find_zero [OF mi r(1) True]
    obtain res where res: "ext2fs_find_first_zero_generic_bmap (Some g) a e = Some res"
      "case first_in (- S) (unat a) (unat e) of None \<Rightarrow> res = Inl ENOENT | Some n \<Rightarrow> res = Inr (first_block (map_frame fs) a (of_nat n))"
      unfolding r(2,3) by blast
    show thesis
    proof (rule first_in_cases [of "- S" "unat a" "unat e"])
      assume "first_in (- S) (unat a) (unat e) = None" "- S \<inter> {unat a .. unat e} = {}"
      then show thesis using res none by auto
    next
      fix n assume n: "first_in (- S) (unat a) (unat e) = Some n" "n \<in> - S" "unat a \<le> n" "n \<le> unat e" "- S \<inter> {unat a ..< n} = {}"
      then have "n < 2 ^ 64" using e64 by linarith
      note fb = first_block_id(1) [OF n(3) this, where fs = fs] first_block_id(2) [OF n(3) this]
      show thesis
        by (rule found [of "of_nat n"]) (use res n fb True in \<open>auto simp: word_le_nat_alt\<close>)
    qed
  next
    case False
    then obtain b where g: "g = GB_RB b" "S = {}" by (cases g) auto
    then have b: "rb_inv b" "gb_bounded b" "frame b = map_frame fs" "rb_bits b = {}" using mi by (auto simp: rb_set.refines_def)
    have h: "bm_start b = fr_start (map_frame fs)" "bm_end b = fr_end (map_frame fs)" "bm_cluster_bits b = fr_bits (map_frame fs)"
      by (simp_all flip: b(3) add: frame_def)
    have c: "bm_start b \<le> a" "e \<le> bm_end b" "to_cluster b a = a" "to_cluster b e = e"
      using r by (auto simp: h fr_bad_def fr_cluster_def to_cluster_def)
    have ir: "in_bmap b a" "in_bmap b e" using c le b(2) by (auto simp: in_bmap_def gb_bounded_def)
    have "ext2fs_find_first_zero_generic_bmap (Some g) a e = Some (Inl ENOENT)"
      using rb_find_zero_empty [OF b(1,4) ir le] b(2) c le
      by (simp add: ext2fs_find_first_zero_generic_bmap_def g(1) gb64_find_first_def gb_bounded_def ext2fs_blkmap64_rbtree_def Let_def not_less)
    then show thesis using none False by blast
  qed
qed

lemma find_set:
  assumes m: "map_for fs g S" and a: "unat a \<in> blocks_of fs" and e: "unat e \<in> blocks_of fs" and le: "a \<le> e"
  obtains (found) x where "ext2fs_find_first_set_generic_bmap (Some g) a e = Some (Inr x)"
      "a \<le> x" "x \<le> e" "unat x \<in> S" "S \<inter> {unat a ..< unat x} = {}"
  | (none) "ext2fs_find_first_set_generic_bmap (Some g) a e = Some (Inl ENOENT)" "S \<inter> {unat a .. unat e} = {}"
proof -
  have geo: "fs_geom fs" using m by (simp add: map_for_def fs_sound_def)
  note r = range_blocks [OF geo a e le]
  have mi: "map_is g (map_frame fs) S" using m by (simp add: map_for_def)
  from map_find_set [OF mi r(1)]
  obtain res where res: "ext2fs_find_first_set_generic_bmap (Some g) a e = Some res"
    "case first_in S (unat a) (unat e) of None \<Rightarrow> res = Inl ENOENT | Some n \<Rightarrow> res = Inr (first_block (map_frame fs) a (of_nat n))"
    unfolding r(2,3) by blast
  show thesis
  proof (rule first_in_cases [of S "unat a" "unat e"])
    assume "first_in S (unat a) (unat e) = None" "S \<inter> {unat a .. unat e} = {}"
    then show thesis using res none by auto
  next
    fix n assume n: "first_in S (unat a) (unat e) = Some n" "n \<in> S" "unat a \<le> n" "n \<le> unat e" "S \<inter> {unat a ..< n} = {}"
    then have "n < 2 ^ 64" using unat_lt64 [of e] by simp
    note fb = first_block_id(1) [OF n(3) this, where fs = fs] first_block_id(2) [OF n(3) this]
    show thesis by (rule found [of "of_nat n"]) (use res n fb in \<open>auto simp: word_le_nat_alt\<close>)
  qed
qed

section \<open>One block\<close>

lemma first_last_block:
  assumes "fs_geom fs"
  defines "first \<equiv> ucast (s_first_data_block (fs_super fs)) :: u64" and "lastb \<equiv> ext2fs_blocks_count (fs_super fs) - 1"
  shows "unat first = fdb fs" "unat lastb = nblocks fs - 1" "unat first \<in> blocks_of fs" "unat lastb \<in> blocks_of fs"
proof -
  show f: "unat first = fdb fs" by (simp add: first_def fdb_def unat_ucast32_64)
  have lt: "fdb fs < nblocks fs" by (rule fs_geomD(2) [OF assms(1)])
  then have "0 < ext2fs_blocks_count (fs_super fs)" by (simp add: nblocks_def word_less_nat_alt)
  then show l: "unat lastb = nblocks fs - 1" by (simp add: lastb_def nblocks_def unat_dec)
  show "unat first \<in> blocks_of fs" "unat lastb \<in> blocks_of fs" using f l lt by (simp_all add: blocks_of_def)
qed

lemma block_goal_in:
  assumes "fs_geom fs" "goal = 0 \<or> fdb fs \<le> unat goal"
  shows "unat (block_goal fs goal) \<in> blocks_of fs"
proof (cases "goal = 0 \<or> goal \<ge> ext2fs_blocks_count (fs_super fs)")
  case True
  then show ?thesis using first_last_block(3) [OF assms(1)] by (simp add: block_goal_def)
next
  case False
  then show ?thesis using assms(2) by (auto simp: block_goal_def blocks_of_def nblocks_def word_le_nat_alt)
qed

lemma clear_uninit_same:
  "same_geo fs (ext2fs_clear_block_uninit fs g)" "fs_block_map (ext2fs_clear_block_uninit fs g) = fs_block_map fs"
  "fs_super (ext2fs_clear_block_uninit fs g) = fs_super fs"
proof -
  have "same_geo fs (ext2fs_mark_bb_dirty (ext2fs_mark_super_dirty (ext2fs_group_desc_csum_set (ext2fs_bg_flags_clear fs g x) g)))" for x
    by (rule same_geo_trans [OF same_geo_trans [OF same_geo_trans]]) (rule book)+
  then show "same_geo fs (ext2fs_clear_block_uninit fs g)" by (simp add: ext2fs_clear_block_uninit_def)
qed (simp_all add: ext2fs_clear_block_uninit_def book_map book_super)

lemma clear_uninit_acc:
  assumes "acc_ok fs S"
  shows "acc_ok (ext2fs_clear_block_uninit fs g) S"
proof -
  note s = same_geoD [OF clear_uninit_same(1), of fs g]
  have snd: "fs_sound fs" using assms by (simp add: acc_ok_def)
  have "ext2fs_bg_free_blocks_count (ext2fs_clear_block_uninit fs g) (of_nat i) = ext2fs_bg_free_blocks_count fs (of_nat i)"
    if "i < ngroups fs" for i
  proof (cases "g \<ge> fs_group_desc_count fs")
    case True
    then show ?thesis by (simp add: ext2fs_clear_block_uninit_def)
  next
    case False
    then have "group_in fs g" using snd by (simp add: group_in_def fs_sound_def ngroups_def)
    moreover have "group_in fs (of_nat i)" by (rule group_in_of_nat(1) [OF snd that])
    moreover have "group_in (ext2fs_bg_flags_clear fs g x) h = group_in fs h" for x h
      by (rule same_geoD(10)) (rule book)
    ultimately show ?thesis by (simp add: ext2fs_clear_block_uninit_def book_free_same book_free)
  qed
  then show ?thesis using assms by (simp add: acc_ok_def s clear_uninit_same(2,3))
qed

lemma new_block:
  assumes m: "map_for fs g S" and g: "fs_block_map fs = Some g" and goal: "goal = 0 \<or> fdb fs \<le> unat goal"
  obtains (found) b where "ext2fs_new_block2 fs goal None = Some (ext2fs_clear_block_uninit fs (ext2fs_group_of_blk2 fs b), Inr b)"
      "unat b \<in> blocks_of fs - S" "zero_ok g S"
  | (full) "ext2fs_new_block2 fs goal None = Some (fs, Inl EXT2_ET_BLOCK_ALLOC_FAIL)" "zero_ok g S \<Longrightarrow> blocks_of fs \<subseteq> S"
proof -
  have snd: "fs_sound fs" and geo: "fs_geom fs" using m by (simp_all add: map_for_def fs_sound_def)
  define first where "first = (ucast (s_first_data_block (fs_super fs)) :: u64)"
  define lastb where "lastb = ext2fs_blocks_count (fs_super fs) - 1"
  define h where "h = block_goal fs goal"
  note fl = first_last_block [OF geo, folded first_def lastb_def]
  have h: "unat h \<in> blocks_of fs" unfolding h_def by (rule block_goal_in [OF geo goal])
  have mask: "block_goal fs goal AND NOT (EXT2FS_CLUSTER_MASK fs) = h"
    using snd by (simp add: h_def EXT2FS_CLUSTER_MASK_def EXT2FS_CLUSTER_RATIO_def fs_sound_def)
  have magic: "fs_magic fs = EXT2_ET_MAGIC_EXT2FS_FILSYS" using snd by (simp add: fs_sound_def)
  have hl: "h \<le> lastb" using h fl(2) by (auto simp: word_le_nat_alt blocks_of_def)
  let ?F = "ext2fs_find_first_zero_generic_bmap (Some g)"
  have eq: "ext2fs_new_block2 fs goal None = (case ?F h lastb of None \<Rightarrow> None
      | Some r \<Rightarrow> (case (if r = Inl ENOENT \<and> h \<noteq> first then ?F first (h - 1) else Some r) of
                     None \<Rightarrow> None
                   | Some (Inl retval) \<Rightarrow> Some (fs, Inl (if retval = ENOENT then EXT2_ET_BLOCK_ALLOC_FAIL else retval))
                   | Some (Inr b) \<Rightarrow> Some (ext2fs_clear_block_uninit fs (ext2fs_group_of_blk2 fs b), Inr b)))"
    unfolding ext2fs_new_block2_def ext2fs_new_block3_def Let_def mask g magic first_def lastb_def by simp
  show thesis
  proof (cases rule: find_zero [OF m h fl(4) hl, case_names found none])
    case (found x)
    have "unat x \<in> blocks_of fs" using found(2,3) h fl(4) by (auto simp: word_le_nat_alt blocks_of_def)
    then show thesis using found(1,4,6) that(1) [of x] by (simp add: eq)
  next
    case none
    show thesis
    proof (cases "h = first")
      case True
      have "blocks_of fs \<subseteq> {unat h .. unat lastb}" using True fl by (auto simp: blocks_of_def)
      then show thesis using none True by (intro that(2)) (auto simp: eq)
    next
      case False
      then have "unat first \<noteq> unat h" by (simp add: word_unat_eq_iff)
      then have lt: "fdb fs < unat h" using fl(1) h by (simp add: blocks_of_def)
      then have h1: "unat (h - 1) = unat h - 1" by (intro unat_minus_one) auto
      have p: "unat (h - 1) \<in> blocks_of fs" "first \<le> h - 1" using h h1 lt fl(1) by (auto simp: blocks_of_def word_le_nat_alt)
      show thesis
      proof (cases rule: find_zero [OF m fl(3) p, case_names found none])
        case (found x)
        have "unat x \<in> blocks_of fs" using found(2,3) p(1) fl(3) by (auto simp: word_le_nat_alt blocks_of_def)
        then show thesis using found(1,4,6) none(1) False that(1) [of x] by (simp add: eq)
      next
        case n2: none
        have "blocks_of fs \<subseteq> {unat first .. unat (h - 1)} \<union> {unat h .. unat lastb}" using fl h h1 lt by (auto simp: blocks_of_def)
        then show thesis using n2 none False by (intro that(2)) (auto simp: eq)
      qed
    qed
  qed
qed

text \<open>A goal before the first data block (other than 0) is outside the map, and the search refuses it.\<close>

lemma find_zero_refused:
  assumes "map_is g f S" "fr_bad f a e"
  shows "ext2fs_find_first_zero_generic_bmap (Some g) a e = Some (Inl EINVAL)"
proof (cases g)
  case (GB_BA b)
  then have "gb_bounded b" "frame b = f" using assms(1) by (simp_all add: ba_set.refines_def)
  then show ?thesis using assms(2)
    by (auto simp: GB_BA ext2fs_find_first_zero_generic_bmap_def gb64_find_first_def gb_bounded_def
        fr_bad_def frame_def fr_cluster_def to_cluster_def)
next
  case (GB_RB b)
  then have "gb_bounded b" "frame b = f" using assms(1) by (simp_all add: rb_set.refines_def)
  then show ?thesis using assms(2)
    by (auto simp: GB_RB ext2fs_find_first_zero_generic_bmap_def gb64_find_first_def gb_bounded_def
        fr_bad_def frame_def fr_cluster_def to_cluster_def)
qed (use assms in simp)

lemma new_block_low_goal:
  assumes m: "map_for fs g S" and g: "fs_block_map fs = Some g" and goal: "goal \<noteq> 0" "unat goal < fdb fs"
  shows "ext2fs_new_block2 fs goal None = Some (fs, Inl EINVAL)"
proof -
  have snd: "fs_sound fs" and geo: "fs_geom fs" and mi: "map_is g (map_frame fs) S"
    using m by (simp_all add: map_for_def fs_sound_def)
  have "unat goal < nblocks fs" using goal(2) fs_geomD(2) [OF geo] by simp
  then have h: "block_goal fs goal AND NOT (EXT2FS_CLUSTER_MASK fs) = goal"
    using goal(1) snd by (simp add: block_goal_def nblocks_def word_le_nat_alt EXT2FS_CLUSTER_MASK_def
        EXT2FS_CLUSTER_RATIO_def fs_sound_def not_le)
  have "unat goal < unat (ucast (s_first_data_block (fs_super fs)) :: u64)"
    using goal(2) first_last_block(1) [OF geo] by simp
  then have "fr_bad (map_frame fs) goal (ext2fs_blocks_count (fs_super fs) - 1)"
    by (simp add: fr_bad_def map_frame_def fr_cluster_def word_less_nat_alt)
  from find_zero_refused [OF mi this] show ?thesis
    using snd g unfolding ext2fs_new_block2_def ext2fs_new_block3_def Let_def h
    by (simp add: fs_sound_def)
qed

section \<open>A run of blocks\<close>

text \<open>
  The body of the loop over its recursive calls, so that a round can be looked at both in the loop and
  in an induction over its runs.
\<close>

definition range_body ::
  "(u64 \<Rightarrow> bool \<Rightarrow> (errcode + u64 \<times> u64) option) \<Rightarrow> 'a fs_base_scheme \<Rightarrow> u32 \<Rightarrow> u64 \<Rightarrow> u64 \<Rightarrow> generic_bitmap option
   \<Rightarrow> u64 \<Rightarrow> bool \<Rightarrow> (errcode + u64 \<times> u64) option" where
  "range_body F fs flags goal len bmap start looped =
     (let max_blocks = ext2fs_blocks_count (fs_super fs);
          first = ucast (s_first_data_block (fs_super fs));
          fixed = flags AND EXT2_NEWRANGE_FIXED_GOAL \<noteq> 0
      in if looped \<and> \<not> start \<le> goal then Some (Inl EXT2_ET_BLOCK_ALLOC_FAIL)
         else case ext2fs_find_first_zero_generic_bmap bmap start (max_blocks - 1) of
                None \<Rightarrow> None
              | Some (Inl retval) \<Rightarrow>
                  if retval = ENOENT then
                    if fixed \<or> start = first then Some (Inl EXT2_ET_BLOCK_ALLOC_FAIL)
                    else F first looped
                  else Some (Inl retval)
              | Some (Inr start) \<Rightarrow>
                  if fixed \<and> start \<noteq> goal then Some (Inl EXT2_ET_BLOCK_ALLOC_FAIL)
                  else let b = min (start + len - 1) (max_blocks - 1)
                       in case ext2fs_find_first_set_generic_bmap bmap start b of
                            None \<Rightarrow> None
                          | Some r \<Rightarrow>
                              (case (if r = Inl ENOENT then Inr (b + 1) else r) of
                                 Inl retval \<Rightarrow> Some (Inl retval)
                               | Inr end \<Rightarrow>
                                   if flags AND EXT2_NEWRANGE_MIN_LENGTH = 0 \<or> end - start \<ge> len then Some (Inr (start, end))
                                   else if fixed then Some (Inl EXT2_ET_BLOCK_ALLOC_FAIL)
                                   else if end \<ge> max_blocks then
                                     if looped then Some (Inl EXT2_ET_BLOCK_ALLOC_FAIL)
                                     else F first True
                                   else F end looped))"

lemma new_range_loop_body:
  "new_range_loop fs flags goal len bmap start looped = range_body (new_range_loop fs flags goal len bmap) fs flags goal len bmap start looped"
  unfolding range_body_def by (rule new_range_loop.simps)

lemmas new_range_loop_run = new_range_loop.raw_induct [folded range_body_def, rotated, consumes 1, case_names round]

text \<open>One round of the search, by what the two searches find.\<close>

lemma range_round:
  fixes fs :: "'a ext2_filsys_scheme"
  assumes m: "map_for fs g S" and start: "unat start \<in> blocks_of fs" and len: "0 < len" "nblocks fs + unat len \<le> 2 ^ 64"
  defines "first \<equiv> ucast (s_first_data_block (fs_super fs)) :: u64"
  obtains (full) "zero_ok g S \<Longrightarrow> {unat start ..< nblocks fs} \<subseteq> S"
      "range_body F fs flags goal len (Some g) start looped =
        (if looped \<and> \<not> start \<le> goal then Some (Inl EXT2_ET_BLOCK_ALLOC_FAIL)
         else if flags AND EXT2_NEWRANGE_FIXED_GOAL \<noteq> 0 \<or> start = first then Some (Inl EXT2_ET_BLOCK_ALLOC_FAIL)
         else F first looped)"
  | (found) x e where "start \<le> x" "x < e" "unat e \<le> nblocks fs" "S \<inter> {unat x ..< unat e} = {}" "unat e - unat x \<le> unat len"
      "unat e - unat x < unat len \<Longrightarrow> unat e \<in> S \<or> unat e = nblocks fs"
      "range_body F fs flags goal len (Some g) start looped =
        (if looped \<and> \<not> start \<le> goal then Some (Inl EXT2_ET_BLOCK_ALLOC_FAIL)
         else if flags AND EXT2_NEWRANGE_FIXED_GOAL \<noteq> 0 \<and> x \<noteq> goal then Some (Inl EXT2_ET_BLOCK_ALLOC_FAIL)
         else if flags AND EXT2_NEWRANGE_MIN_LENGTH = 0 \<or> e - x \<ge> len then Some (Inr (x, e))
         else if flags AND EXT2_NEWRANGE_FIXED_GOAL \<noteq> 0 then Some (Inl EXT2_ET_BLOCK_ALLOC_FAIL)
         else if e \<ge> ext2fs_blocks_count (fs_super fs) then
           if looped then Some (Inl EXT2_ET_BLOCK_ALLOC_FAIL) else F first True
         else F e looped)"
proof -
  have geo: "fs_geom fs" using m by (simp add: map_for_def fs_sound_def)
  define lastb where "lastb = ext2fs_blocks_count (fs_super fs) - 1"
  note fl = first_last_block [OF geo, folded lastb_def]
  have sl: "start \<le> lastb" using start fl(2) by (auto simp: word_le_nat_alt blocks_of_def)
  note unf = range_body_def [of F fs flags goal len "Some g" start looped] first_def lastb_def
  show thesis
  proof (cases rule: find_zero [OF m start fl(4) sl, case_names found none])
    case none
    have "{unat start ..< nblocks fs} \<subseteq> {unat start .. unat lastb}" using fl(2) by auto
    moreover have "ext2fs_find_first_zero_generic_bmap (Some g) start (ext2fs_blocks_count (fs_super fs) - 1) = Some (Inl ENOENT)"
      using none(1) by (simp only: lastb_def)
    ultimately show thesis using none(2) by (intro full) (auto simp: unf Let_def)
  next
    case (found x)
    have xb: "unat x \<in> blocks_of fs" using found(2,3) start fl(4) by (auto simp: word_le_nat_alt blocks_of_def)
    have nl: "0 < unat len" using len(1) unat_gt_0 by auto
    have xl: "unat (x + len - 1) = unat x + unat len - 1"
    proof -
      have "unat x + unat len < 2 ^ 64" using xb len(2) by (auto simp: blocks_of_def)
      then have "unat (x + len) = unat x + unat len" by (simp add: unat_word_ariths)
      moreover have "x + len \<noteq> 0" using calculation nl by auto
      ultimately show ?thesis by (simp add: unat_minus_one)
    qed
    define b where "b = min (x + len - 1) lastb"
    have bn: "unat b = min (unat x + unat len - 1) (nblocks fs - 1)"
      unfolding b_def min_def word_le_nat_alt using xl fl(2) by simp
    have bb: "unat b \<in> blocks_of fs" "x \<le> b" using bn xb nl by (auto simp: blocks_of_def word_le_nat_alt)
    have b1: "unat (b + 1) = unat b + 1"
    proof -
      have "unat b + 1 < 2 ^ 64" using bb(1) fs_geomD(7) [OF geo] by (auto simp: blocks_of_def)
      then show ?thesis by (simp add: unat_word_ariths)
    qed
    have "\<exists>e r. ext2fs_find_first_set_generic_bmap (Some g) x b = Some r \<and> (if r = Inl ENOENT then Inr (b + 1) else r) = Inr e
        \<and> x < e \<and> e \<le> b + 1 \<and> S \<inter> {unat x ..< unat e} = {} \<and> (e \<noteq> b + 1 \<longrightarrow> unat e \<in> S)"
    proof (cases rule: find_set [OF m xb bb, case_names found none])
      case (found e)
      have "unat x \<noteq> unat e" using found(4) \<open>unat x \<notin> S\<close> by auto
      then have "x < e" using found(2) by (simp add: word_le_nat_alt word_less_nat_alt)
      moreover have "e \<le> b + 1" using found(3) b1 by (simp add: word_le_nat_alt)
      ultimately show ?thesis using found by auto
    next
      case none
      have "S \<inter> {unat x ..< unat (b + 1)} = {}" using none(2) b1 by auto
      moreover have "x < b + 1" using bb(2) b1 by (simp add: word_le_nat_alt word_less_nat_alt)
      ultimately show ?thesis using none(1) by auto
    qed
    then obtain e r where e: "ext2fs_find_first_set_generic_bmap (Some g) x b = Some r" "(if r = Inl ENOENT then Inr (b + 1) else r) = Inr e"
      "x < e" "e \<le> b + 1" "S \<inter> {unat x ..< unat e} = {}" "e \<noteq> b + 1 \<longrightarrow> unat e \<in> S" by blast
    show thesis
    proof (rule that(2))
      show "start \<le> x" "x < e" "S \<inter> {unat x ..< unat e} = {}" using found e by simp_all
      have eb: "unat e \<le> unat b + 1" using e(4) b1 by (simp add: word_le_nat_alt)
      then show "unat e \<le> nblocks fs" "unat e - unat x \<le> unat len"
        using bn bb(1) nl by (auto simp: blocks_of_def)
      show "unat e \<in> S \<or> unat e = nblocks fs" if "unat e - unat x < unat len"
      proof (cases "e = b + 1")
        case True
        then show ?thesis using that b1 bn nl bb(1) by (auto simp: blocks_of_def)
      qed (use e(6) in simp)
    qed (unfold unf(1) Let_def found(1) [unfolded lastb_def] option.case sum.case e(1) [unfolded b_def lastb_def]
        e(2) [unfolded b_def lastb_def], simp only: first_def)
  qed
qed

end
