(* ===== verification/Alloc_Theorems.thy ===== *)
theory Alloc_Theorems
  imports Alloc_find Fs_Examples Bitmap_Examples
begin

text \<open>
  The theorems about the allocation of blocks: the accounting along every sequence of allocations and
  releases, the search for a block and for a run of blocks, and the search that does not end.
\<close>

section \<open>Allocation as a state machine\<close>

text \<open>
  What \<open>ext2fs_alloc_block3\<close> does to the handle when the writes succeed, and its inverse. The states are a
  handle and the blocks handed out so far.
\<close>

definition alloc_one :: "'a ext2_filsys_scheme \<Rightarrow> u64 \<Rightarrow> ('a ext2_filsys_scheme \<times> u64) option" where
  "alloc_one fs goal =
     (case ext2fs_new_block2 fs goal None of
        Some (fs, Inr b) \<Rightarrow> Some (ext2fs_block_alloc_stats2 fs b 1, b)
      | _ \<Rightarrow> None)"

locale block_allocator =
  fixes ok :: "'s \<Rightarrow> nat set \<Rightarrow> bool" and goal_ok :: "'s \<Rightarrow> u64 \<Rightarrow> bool"
    and get :: "'s \<Rightarrow> u64 \<Rightarrow> ('s \<times> u64) option" and put :: "'s \<Rightarrow> u64 \<Rightarrow> 's" and blocks :: "'s \<Rightarrow> nat set"
  assumes get: "ok s S \<Longrightarrow> goal_ok s goal \<Longrightarrow> get s goal = Some (s', b) \<Longrightarrow>
      ok s' (insert (unat b) S) \<and> unat b \<in> blocks s - S \<and> blocks s' = blocks s"
    and put: "ok s S \<Longrightarrow> unat b \<in> S \<Longrightarrow> unat b \<in> blocks s \<Longrightarrow> ok (put s b) (S - {unat b}) \<and> blocks (put s b) = blocks s"
begin

inductive run :: "'s \<times> nat set \<Rightarrow> 's \<times> nat set \<Rightarrow> bool" where
  start: "run x x"
| take_one: "run x (s, own) \<Longrightarrow> goal_ok s goal \<Longrightarrow> get s goal = Some (s', b) \<Longrightarrow> run x (s', insert (unat b) own)"
| give_back: "run x (s, own) \<Longrightarrow> unat b \<in> own \<Longrightarrow> run x (put s b, own - {unat b})"

lemma run_inv:
  assumes "run x y" "x = (s0, {})" "ok s0 S0"
  shows "ok (fst y) (S0 \<union> snd y) \<and> S0 \<inter> snd y = {} \<and> snd y \<subseteq> blocks s0 \<and> blocks (fst y) = blocks s0"
  using assms
proof (induction rule: run.induct)
  case (start x)
  then show ?case by simp
next
  case (take_one x s own goal s' b)
  then have i: "ok s (S0 \<union> own)" "S0 \<inter> own = {}" "own \<subseteq> blocks s0" "blocks s = blocks s0" by auto
  from get [OF i(1) take_one.hyps(2,3)] i show ?case by auto
next
  case (give_back x s own b)
  then have i: "ok s (S0 \<union> own)" "S0 \<inter> own = {}" "own \<subseteq> blocks s0" "blocks s = blocks s0" by auto
  have "(S0 \<union> own) - {unat b} = S0 \<union> (own - {unat b})" using i(2) give_back.hyps(2) by auto
  with put [OF i(1), of b] i give_back.hyps(2) show ?case by auto
qed

end

lemma acc_map: "acc_ok fs S \<Longrightarrow> \<exists>g. fs_block_map fs = Some g \<and> map_for fs g S"
  by (auto simp: acc_ok_def map_for_def)

lemma alloc_one:
  assumes "acc_ok fs S" "goal = 0 \<or> fdb fs \<le> unat goal" "alloc_one fs goal = Some (fs', b)"
  shows "acc_ok fs' (insert (unat b) S)" "unat b \<in> blocks_of fs - S" "same_geo fs fs'"
proof -
  obtain g where g: "fs_block_map fs = Some g" "map_for fs g S" using acc_map [OF assms(1)] by blast
  have "acc_ok fs' (insert (unat b) S) \<and> unat b \<in> blocks_of fs - S \<and> same_geo fs fs'"
  proof (cases rule: new_block [OF g(2,1) assms(2), case_names found full])
    case (found x)
    define f1 where "f1 = ext2fs_clear_block_uninit fs (ext2fs_group_of_blk2 fs x)"
    have r: "b = x" "fs' = ext2fs_block_alloc_stats2 f1 x 1" using assms(3) found(1) by (auto simp: alloc_one_def f1_def)
    have a1: "acc_ok f1 S" unfolding f1_def by (rule clear_uninit_acc [OF assms(1)])
    have g1: "same_geo fs f1" unfolding f1_def by (rule clear_uninit_same)
    have x: "unat x \<in> blocks_of f1" "step_ok 1 (unat x) S" using found(2) same_geoD(7) [OF g1] by (simp_all add: step_ok_def)
    from block_stats_acc [OF a1 x] show ?thesis
      using g1 found(2) by (auto simp: r set_step_def intro: same_geo_trans)
  qed (use assms(3) in \<open>simp_all add: alloc_one_def\<close>)
  then show "acc_ok fs' (insert (unat b) S)" "unat b \<in> blocks_of fs - S" "same_geo fs fs'" by blast+
qed

interpretation alloc: block_allocator acc_ok "\<lambda>fs goal. goal = 0 \<or> fdb fs \<le> unat goal" alloc_one
  "\<lambda>fs b. ext2fs_block_alloc_stats2 fs b (- 1)" blocks_of
proof (unfold_locales, goal_cases)
  case (1 fs S goal fs' b)
  from alloc_one [OF 1] show ?case using same_geoD(7) by blast
next
  case (2 fs S b)
  then have "step_ok (- 1) (unat b) S" by (simp add: step_ok_def)
  from block_stats_acc [OF 2(1,3) this] show ?case using same_geoD(7) by (auto simp: set_step_def)
qed

inductive alloc_run :: "'a ext2_filsys_scheme \<Rightarrow> 'a ext2_filsys_scheme \<Rightarrow> nat set \<Rightarrow> bool" where
  init: "alloc_run fs fs {}"
| alloc: "alloc_run fs0 fs own \<Longrightarrow> goal = 0 \<or> fdb fs \<le> unat goal \<Longrightarrow> alloc_one fs goal = Some (fs', b) \<Longrightarrow>
    alloc_run fs0 fs' (insert (unat b) own)"
| release: "alloc_run fs0 fs own \<Longrightarrow> unat b \<in> own \<Longrightarrow> alloc_run fs0 (ext2fs_block_alloc_stats2 fs b (- 1)) (own - {unat b})"

inductive_cases alloc_runE: "alloc_run fs0 fs own"

lemma alloc_run_run: "alloc_run fs0 fs own \<Longrightarrow> alloc.run (fs0, {}) (fs, own)"
  by (induction rule: alloc_run.induct) (auto intro: alloc.run.intros)

section \<open>The search for a run\<close>

lemma range_first: "fs_geom fs \<Longrightarrow> unat (ucast (s_first_data_block (fs_super fs)) :: u64) \<in> blocks_of fs"
  by (rule first_last_block(3))

lemma new_range_found:
  fixes fs :: "'a ext2_filsys_scheme"
  assumes m: "map_for fs g S" and len: "0 < len" "nblocks fs + unat len \<le> 2 ^ 64"
    and r: "new_range_loop fs flags goal len (Some g) start looped = Some res" and s: "unat start \<in> blocks_of fs"
  shows "case res of Inl err \<Rightarrow> err = EXT2_ET_BLOCK_ALLOC_FAIL
    | Inr (x, e) \<Rightarrow> x < e \<and> {unat x ..< unat e} \<subseteq> blocks_of fs - S \<and> unat e - unat x \<le> unat len
        \<and> (flags AND EXT2_NEWRANGE_FIXED_GOAL \<noteq> 0 \<longrightarrow> x = goal)
        \<and> (flags AND EXT2_NEWRANGE_MIN_LENGTH \<noteq> 0 \<longrightarrow> len \<le> e - x)"
proof -
  have geo: "fs_geom fs" using m by (simp add: map_for_def fs_sound_def)
  note first = range_first [OF geo]
  define Q where "Q res \<longleftrightarrow> (case res of Inl err \<Rightarrow> err = EXT2_ET_BLOCK_ALLOC_FAIL
    | Inr (x, e) \<Rightarrow> x < e \<and> {unat x ..< unat e} \<subseteq> blocks_of fs - S \<and> unat e - unat x \<le> unat len
        \<and> (flags AND EXT2_NEWRANGE_FIXED_GOAL \<noteq> 0 \<longrightarrow> x = goal)
        \<and> (flags AND EXT2_NEWRANGE_MIN_LENGTH \<noteq> 0 \<longrightarrow> len \<le> e - x))" for res
  have "f = fs \<Longrightarrow> fl = flags \<Longrightarrow> go = goal \<Longrightarrow> le = len \<Longrightarrow> bm = Some g \<Longrightarrow> unat st \<in> blocks_of fs \<Longrightarrow> Q res"
    if "new_range_loop f fl go le bm st lo = Some res" for f fl go le bm st lo res
    using that
  proof (induction rule: new_range_loop_run)
    case (round F f fl go le bm st lo res)
    have rec: "Q res'" if "F fs flags goal len (Some g) s' l' = Some res'" "unat s' \<in> blocks_of fs" for s' l' res'
      using round.IH [OF that(1)] that(2) by simp
    have r: "range_body (F fs flags goal len (Some g)) fs flags goal len (Some g) st lo = Some res"
      using round.hyps round.prems by simp
    show ?case
    proof (cases rule: range_round [OF m round.prems(6) len, of "F fs flags goal len (Some g)" flags goal lo, case_names full found])
      case full
      then show ?thesis using r rec [OF _ first] by (auto simp: Q_def split: if_splits)
    next
      case (found x e)
      have x: "fdb fs \<le> unat x" "unat x < unat e" using found(1,2) round.prems(6)
        by (auto simp: blocks_of_def word_le_nat_alt word_less_nat_alt)
      have sub: "{unat x ..< unat e} \<subseteq> blocks_of fs - S" using found(3,4) x by (auto simp: blocks_of_def)
      have fin: "Q (Inr (x, e))" if "flags AND EXT2_NEWRANGE_FIXED_GOAL \<noteq> 0 \<longrightarrow> x = goal"
        "flags AND EXT2_NEWRANGE_MIN_LENGTH = 0 \<or> len \<le> e - x"
        using found(2,5) sub that by (auto simp: Q_def)
      have e: "unat e \<in> blocks_of fs" if "\<not> e \<ge> ext2fs_blocks_count (fs_super fs)"
        using that x by (auto simp: blocks_of_def nblocks_def word_le_nat_alt)
      show ?thesis using r fin rec [OF _ first] rec [OF _ e] unfolding found(7)
        by (auto simp: Q_def [of "Inl err" for err] split: if_splits)
    qed
  qed
  from this [OF r] s show ?thesis by (simp add: Q_def)
qed

text \<open>
  A minimal length was asked for, no run of that length is free, some block is, and the last block of
  the file system is in use: then the search goes round for ever.
\<close>

lemma new_range_spins:
  fixes fs :: "'a ext2_filsys_scheme"
  assumes m: "map_for fs g S" and z: "zero_ok g S" and len: "0 < len" "nblocks fs + unat len \<le> 2 ^ 64"
    and flags: "flags AND EXT2_NEWRANGE_MIN_LENGTH \<noteq> 0" "flags AND EXT2_NEWRANGE_FIXED_GOAL = 0"
    and full: "nblocks fs - 1 \<in> S" and some: "\<not> blocks_of fs \<subseteq> S"
    and none: "\<And>n. fdb fs \<le> n \<Longrightarrow> n + unat len \<le> nblocks fs \<Longrightarrow> S \<inter> {n ..< n + unat len} \<noteq> {}"
    and s: "unat start \<in> blocks_of fs"
  shows "new_range_loop fs flags goal len (Some g) start False = None"
proof -
  have geo: "fs_geom fs" using m by (simp add: map_for_def fs_sound_def)
  note first = range_first [OF geo]
  have False if "new_range_loop fs flags goal len (Some g) start False = Some res" for res
  proof -
    have "f = fs \<Longrightarrow> fl = flags \<Longrightarrow> go = goal \<Longrightarrow> le = len \<Longrightarrow> bm = Some g \<Longrightarrow> unat st \<in> blocks_of fs \<Longrightarrow> \<not> lo \<Longrightarrow> False"
      if "new_range_loop f fl go le bm st lo = Some res" for f fl go le bm st lo res
      using that
    proof (induction rule: new_range_loop_run)
      case (round F f fl go le bm st lo res)
      have rec: "unat s' \<in> blocks_of fs \<Longrightarrow> False" if "F fs flags goal len (Some g) s' False = Some res'" for s' res'
        using round.IH [OF that] by simp
      have r: "range_body (F fs flags goal len (Some g)) fs flags goal len (Some g) st False = Some res"
        using round.hyps round.prems by simp
      show ?case
      proof (cases rule: range_round [OF m round.prems(6) len, of "F fs flags goal len (Some g)" flags goal False, case_names full found])
        case a: full
        have "st \<noteq> ucast (s_first_data_block (fs_super fs))"
        proof
          assume "st = ucast (s_first_data_block (fs_super fs))"
          then have "unat st = fdb fs" using first_last_block(1) [OF geo] by simp
          then show False using a(1) [OF z] some by (simp add: blocks_of_def)
        qed
        then show ?thesis using r rec first flags unfolding a(2) by auto
      next
        case (found x e)
        have x: "fdb fs \<le> unat x" "unat x < unat e" using found(1,2) round.prems(6)
          by (auto simp: blocks_of_def word_le_nat_alt word_less_nat_alt)
        have "unat e \<noteq> nblocks fs"
        proof
          assume "unat e = nblocks fs"
          then have "nblocks fs - 1 \<in> {unat x ..< unat e}" using x by auto
          then show False using found(4) full by blast
        qed
        then have e: "unat e < nblocks fs" using found(3) by simp
        have "unat e - unat x \<noteq> unat len"
        proof
          assume "unat e - unat x = unat len"
          then have "unat x + unat len = unat e" using x by simp
          then show False using none [OF x(1)] found(3,4) by simp
        qed
        then have "unat (e - x) < unat len" using found(5) x by (simp add: unat_sub word_le_nat_alt)
        then have short: "\<not> len \<le> e - x" by (simp add: word_le_nat_alt)
        have inb: "\<not> e \<ge> ext2fs_blocks_count (fs_super fs)" "unat e \<in> blocks_of fs"
          using e x by (simp_all add: nblocks_def word_le_nat_alt blocks_of_def)
        show ?thesis using r rec [OF _ inb(2)] short inb(1) flags unfolding found(7) by simp
      qed
    qed
    from this [OF that] s show False by simp
  qed
  then show ?thesis by (cases "new_range_loop fs flags goal len (Some g) start False") auto
qed

text \<open>When no block is free, the search comes to an end at the first block.\<close>

lemma new_range_full:
  fixes fs :: "'a ext2_filsys_scheme"
  assumes m: "map_for fs g S" and len: "0 < len" "nblocks fs + unat len \<le> 2 ^ 64"
    and full: "blocks_of fs \<subseteq> S" and s: "unat start \<in> blocks_of fs"
  shows "new_range_loop fs flags goal len (Some g) start False = Some (Inl EXT2_ET_BLOCK_ALLOC_FAIL)"
proof -
  have geo: "fs_geom fs" using m by (simp add: map_for_def fs_sound_def)
  define first where "first = (ucast (s_first_data_block (fs_super fs)) :: u64)"
  have round: "new_range_loop fs flags goal len (Some g) st False =
      (if flags AND EXT2_NEWRANGE_FIXED_GOAL \<noteq> 0 \<or> st = first then Some (Inl EXT2_ET_BLOCK_ALLOC_FAIL)
       else new_range_loop fs flags goal len (Some g) first False)" if st: "unat st \<in> blocks_of fs" for st
  proof (cases rule: range_round [OF m st len, of "new_range_loop fs flags goal len (Some g)" flags goal False, case_names full found])
    case full
    then show ?thesis unfolding new_range_loop_body [of fs flags goal len "Some g" st] first_def by simp
  next
    case (found x e)
    have "unat x \<in> blocks_of fs" "unat x \<in> {unat x ..< unat e}"
      using found(1-3) st by (auto simp: blocks_of_def word_le_nat_alt word_less_nat_alt)
    then show ?thesis using full found(4) by blast
  qed
  show ?thesis using round [OF s] round [OF range_first [OF geo], folded first_def] by auto
qed


section \<open>A small file system\<close>

text \<open>Sixteen blocks in two groups; the map is the bit array \<open>bytes\<close>.\<close>

definition al_map :: "u8 list \<Rightarrow> generic_bitmap" where
  "al_map bytes = GB_BA (ex_bmap (Some \<lparr>bitarray = bytes, bitarray_addr = 0\<rparr>))"

definition al_fs :: "u8 list \<Rightarrow> u16 \<Rightarrow> u16 \<Rightarrow> ext2_filsys" where
  "al_fs bytes c0 c1 = \<lparr>fs_magic = EXT2_ET_MAGIC_EXT2FS_FILSYS, fs_flags = 0,
     fs_super = zero_super\<lparr>s_blocks_count := 16, s_blocks_per_group := 8, s_free_blocks_count := ucast c0 + ucast c1\<rparr>,
     fs_blocksize = 1024, fs_group_desc_count = 2, fs_desc_blocks = 1,
     fs_group_desc = [zero_desc\<lparr>bg_free_blocks_count := c0\<rparr>, zero_desc\<lparr>bg_free_blocks_count := c1\<rparr>],
     fs_inode_blocks_per_group = 2, fs_cluster_ratio_bits = 0, fs_default_bitmap_type = 0, fs_csum_seed = 0,
     fs_block_map = Some (al_map bytes), fs_inode_map = None\<rparr>"

lemma al_fs_facts:
  "fdb (al_fs bytes c0 c1) = 0" "nblocks (al_fs bytes c0 c1) = 16" "bpg (al_fs bytes c0 c1) = 8" "ngroups (al_fs bytes c0 c1) = 2"
  "fs_sound (al_fs bytes c0 c1)" "map_frame (al_fs bytes c0 c1) = \<lparr>fr_start = 0, fr_end = 15, fr_bits = 0\<rparr>"
  "blocks_of (al_fs bytes c0 c1) = {0 ..< 16}" "group_blocks (al_fs bytes c0 c1) 0 = {0 ..< 8}" "group_blocks (al_fs bytes c0 c1) 1 = {8 ..< 16}"
  "fs_block_map (al_fs bytes c0 c1) = Some (al_map bytes)"
proof -
  show f: "fdb (al_fs bytes c0 c1) = 0" "nblocks (al_fs bytes c0 c1) = 16" "bpg (al_fs bytes c0 c1) = 8" "ngroups (al_fs bytes c0 c1) = 2"
    by (simp_all add: al_fs_def fdb_def nblocks_def bpg_def ngroups_def zero_super_def ext2fs_blocks_count_def has_feature_incompat_def)
  show "fs_sound (al_fs bytes c0 c1)" using f by (simp add: fs_sound_def fs_geom_def) (simp add: al_fs_def)
  show "map_frame (al_fs bytes c0 c1) = \<lparr>fr_start = 0, fr_end = 15, fr_bits = 0\<rparr>"
    by (simp add: map_frame_def al_fs_def zero_super_def ext2fs_blocks_count_def has_feature_incompat_def)
  show b: "blocks_of (al_fs bytes c0 c1) = {0 ..< 16}" by (simp add: blocks_of_def f)
  show "group_blocks (al_fs bytes c0 c1) 0 = {0 ..< 8}" "group_blocks (al_fs bytes c0 c1) 1 = {8 ..< 16}"
    unfolding group_blocks_def b f by auto
qed (simp add: al_fs_def)

lemma al_map:
  assumes "length bytes = 2"
  shows "map_is (al_map bytes) \<lparr>fr_start = 0, fr_end = 15, fr_bits = 0\<rparr> {n. n < 16 \<and> bit_at bytes n}"
    "zero_ok (al_map bytes) S"
proof -
  let ?b = "ex_bmap (Some \<lparr>bitarray = bytes, bitarray_addr = 0\<rparr>) :: ba_private gen_bitmap_64"
  have "ba_inv ?b" "ba_bits ?b = {n. n < 16 \<and> bit_at bytes n}"
    using assms by (auto simp: ba_inv_def ba_arr_def ba_size_def ba_bits_def bm_range_def bit_at_def)
  then show "map_is (al_map bytes) \<lparr>fr_start = 0, fr_end = 15, fr_bits = 0\<rparr> {n. n < 16 \<and> bit_at bytes n}"
    by (simp add: al_map_def ba_set.refines_def frame_def)
  show "zero_ok (al_map bytes) S" by (simp add: al_map_def)
qed

lemma al_some_free:
  "\<not> {0 ..< 16} \<subseteq> {3, 4, 5, 6 :: nat}" "\<not> {0 ..< 16} \<subseteq> {0 ..< 16} - {2, 8 :: nat}"
proof -
  have "7 \<in> {0 ..< 16 :: nat}" "7 \<notin> {3, 4, 5, 6 :: nat}" "2 \<in> {0 ..< 16 :: nat}" "2 \<notin> {0 ..< 16} - {2, 8 :: nat}" by simp_all
  then show "\<not> {0 ..< 16} \<subseteq> {3, 4, 5, 6 :: nat}" "\<not> {0 ..< 16} \<subseteq> {0 ..< 16} - {2, 8 :: nat}" by blast+
qed

lemma al_bits:
  "{n. n < 16 \<and> bit_at [0x78, 0] n} = {3, 4, 5, 6}"
  "{n. n < 16 \<and> bit_at [0xFB, 0xFE] n} = {0 ..< 16} - {2, 8}"
proof -
  have l: "{0 ..< 16 :: nat} = set [0 ..< 16]" by simp
  have "{n. n < 16 \<and> bit_at [0x78, 0] n} = set (filter (bit_at [0x78, 0]) [0 ..< 16])" by auto
  also have "\<dots> = {3, 4, 5, 6}" by (simp add: upt_rec bit_at_def, simp add: eval_nat_numeral)
  finally show "{n. n < 16 \<and> bit_at [0x78, 0] n} = {3, 4, 5, 6}" .
  have "{n. n < 16 \<and> bit_at [0xFB, 0xFE] n} = set (filter (bit_at [0xFB, 0xFE]) [0 ..< 16])" by auto
  also have "\<dots> = {0 ..< 16} - {2, 8}" unfolding l by (simp add: upt_rec bit_at_def) auto
  finally show "{n. n < 16 \<and> bit_at [0xFB, 0xFE] n} = {0 ..< 16} - {2, 8}" .
qed

lemma al_acc: "acc_ok (al_fs [0x78, 0] 4 8) {3, 4, 5, 6}"
  unfolding acc_ok_def al_fs_facts
proof (intro conjI allI impI)
  show "\<exists>g. Some (al_map [0x78, 0]) = Some g \<and> map_is g \<lparr>fr_start = 0, fr_end = 15, fr_bits = 0\<rparr> {3, 4, 5, 6}"
    using al_map(1) [of "[0x78, 0]"] al_bits(1) by simp
  have c: "{0 ..< 8} - {3, 4, 5, 6 :: nat} = {0, 1, 2, 7}" "{8 ..< 16} - {3, 4, 5, 6 :: nat} = {8 ..< 16}"
    "{0 ..< 16} - {3, 4, 5, 6 :: nat} = {0, 1, 2} \<union> {7 ..< 16}" by auto
  fix i :: nat assume "i < 2"
  then consider "i = 0" | "i = 1" by linarith
  then show "unat (ext2fs_bg_free_blocks_count (al_fs [0x78, 0] 4 8) (of_nat i)) = card (group_blocks (al_fs [0x78, 0] 4 8) i - {3, 4, 5, 6})"
  proof cases
    case 1
    have "ext2fs_bg_free_blocks_count (al_fs [0x78, 0] 4 8) 0 = 4"
      by (simp add: ext2fs_bg_free_blocks_count_def ext4fs_group_desc_def ext2fs_group_desc_def al_fs_def zero_super_def has_feature_incompat_def)
    then show ?thesis using 1 by (simp add: al_fs_facts c)
  next
    case 2
    have "ext2fs_bg_free_blocks_count (al_fs [0x78, 0] 4 8) 1 = 8"
      by (simp add: ext2fs_bg_free_blocks_count_def ext4fs_group_desc_def ext2fs_group_desc_def al_fs_def zero_super_def has_feature_incompat_def)
    moreover have "card (group_blocks (al_fs [0x78, 0] 4 8) 1 - {3, 4, 5, 6}) = 8" unfolding al_fs_facts c by simp
    ultimately show ?thesis using 2 by simp
  qed
next
  have "{0 ..< 16} - {3, 4, 5, 6 :: nat} = {0, 1, 2} \<union> {7 ..< 16}" by auto
  moreover have "card ({0, 1, 2} \<union> {7 ..< 16 :: nat}) = 12" by (subst card_Un_disjoint) auto
  ultimately show "unat (ext2fs_free_blocks_count (fs_super (al_fs [0x78, 0] 4 8))) = card ({0 ..< 16} - {3, 4, 5, 6 :: nat})"
    by (simp add: al_fs_def zero_super_def ext2fs_free_blocks_count_def has_feature_incompat_def)
qed (rule al_fs_facts)

lemma al_map_for:
  "map_for (al_fs [0x78, 0] 4 8) (al_map [0x78, 0]) {3, 4, 5, 6}"
  "map_for (al_fs [0xFB, 0xFE] 1 1) (al_map [0xFB, 0xFE]) ({0 ..< 16} - {2, 8})"
  using al_map(1) [of "[0x78, 0]"] al_map(1) [of "[0xFB, 0xFE]"] by (simp_all add: map_for_def al_fs_facts al_bits)

section \<open>The theorems\<close>

text \<open>
  C39. However allocations with any goal and releases of allocated blocks follow one another, the map
  of the handle holds exactly the blocks in use at the start and those handed out since, no block is
  handed out twice, and the counts of free blocks in every group and in the super block stay exact.
\<close>

theorem alloc_accounting:
  assumes "alloc_run fs0 fs own" "acc_ok fs0 S"
  shows "acc_ok fs (S \<union> own) \<and> S \<inter> own = {} \<and> own \<subseteq> blocks_of fs0"
  using alloc.run_inv [OF alloc_run_run [OF assms(1)] refl assms(2)] by auto

theorem alloc_accounting_witness:
  "\<exists>fs own. alloc_run (al_fs [0x78, 0] 4 8) fs own \<and> own \<noteq> {} \<and> acc_ok fs ({3, 4, 5, 6} \<union> own)"
proof -
  have "\<not> blocks_of (al_fs [0x78, 0] 4 8) \<subseteq> {3, 4, 5, 6}" unfolding al_fs_facts by (rule al_some_free)
  then have "\<exists>fs b. alloc_one (al_fs [0x78, 0] 4 8) 0 = Some (fs, b)"
    by (cases rule: new_block [OF al_map_for(1) al_fs_facts(10), of 0]) (auto simp: alloc_one_def al_map(2))
  then obtain fs b where "alloc_one (al_fs [0x78, 0] 4 8) 0 = Some (fs, b)" by blast
  then have run: "alloc_run (al_fs [0x78, 0] 4 8) fs (insert (unat b) {})"
    by (intro alloc_run.alloc [OF alloc_run.init]) simp_all
  show ?thesis
    by (rule exI [of _ fs], rule exI [of _ "insert (unat b) {}"], intro conjI)
      (rule run, rule insert_not_empty, rule conjunct1 [OF alloc_accounting [OF run al_acc]])
qed

text \<open>
  C6. What \<open>ext2fs_new_block2\<close> does on a file system without bigalloc, for every goal and both kinds of
  map. A goal other than 0 before the first data block is refused with \<open>EINVAL\<close>. Otherwise the search fails
  with the error for a full file system exactly when no block is free or the map is a red-black tree that is
  empty (although then every block is free), and in all other cases it returns a block of the file system
  that is free; a failure changes nothing.
\<close>

theorem new_block_finds:
  assumes "map_for fs g S" "fs_block_map fs = Some g"
  shows "if goal \<noteq> 0 \<and> unat goal < fdb fs then ext2fs_new_block2 fs goal None = Some (fs, Inl EINVAL)
    else if blocks_of fs \<subseteq> S \<or> \<not> zero_ok g S
    then ext2fs_new_block2 fs goal None = Some (fs, Inl EXT2_ET_BLOCK_ALLOC_FAIL)
    else \<exists>fs' b. ext2fs_new_block2 fs goal None = Some (fs', Inr b) \<and> unat b \<in> blocks_of fs \<and> unat b \<notin> S"
proof (cases "goal \<noteq> 0 \<and> unat goal < fdb fs")
  case True
  then show ?thesis using new_block_low_goal [OF assms] by simp
next
  case False
  then have "goal = 0 \<or> fdb fs \<le> unat goal" by auto
  from new_block [OF assms this] show ?thesis by cases (use False in auto)
qed

theorem new_block_finds_witness:
  "\<exists>fs' b. ext2fs_new_block2 (al_fs [0xFB, 0xFE] 1 1) 9 None = Some (fs', Inr b) \<and> unat b \<in> {2, 8}"
proof -
  have "\<not> blocks_of (al_fs [0xFB, 0xFE] 1 1) \<subseteq> {0 ..< 16} - {2, 8}" unfolding al_fs_facts by (rule al_some_free)
  with new_block_finds [OF al_map_for(2) al_fs_facts(10), of 9] al_map(2) show ?thesis by (auto simp: al_fs_facts)
qed

text \<open>
  C15. A run that \<open>ext2fs_new_range\<close> returns is not empty, free, inside the file system and not longer than
  asked for; with a fixed goal it starts there and with a minimal length it has all of it. Its only error is
  the one for a full file system.
\<close>

theorem new_range_free:
  assumes "map_for fs g S" "0 < len" "nblocks fs + unat len \<le> 2 ^ 64" "unat goal \<in> blocks_of fs"
    and "new_range_loop fs flags goal len (Some g) goal False = Some res"
  shows "case res of Inl err \<Rightarrow> err = EXT2_ET_BLOCK_ALLOC_FAIL
    | Inr (x, e) \<Rightarrow> x < e \<and> {unat x ..< unat e} \<subseteq> blocks_of fs - S \<and> unat e - unat x \<le> unat len
        \<and> (flags AND EXT2_NEWRANGE_FIXED_GOAL \<noteq> 0 \<longrightarrow> x = goal)
        \<and> (flags AND EXT2_NEWRANGE_MIN_LENGTH \<noteq> 0 \<longrightarrow> len \<le> e - x)"
  by (rule new_range_found [OF assms(1-3,5,4)])

theorem new_range_free_witness:
  "\<exists>x e. new_range_loop (al_fs [0x78, 0] 4 8) 0 1 5 (Some (al_map [0x78, 0])) 1 False = Some (Inr (x, e))
    \<and> {unat x ..< unat e} \<subseteq> {0 ..< 16} - {3, 4, 5, 6}"
proof -
  let ?fs = "al_fs [0x78, 0] 4 8" and ?g = "al_map [0x78, 0]"
  have g: "unat (1 :: u64) \<in> blocks_of ?fs" unfolding al_fs_facts by simp
  have len: "nblocks ?fs + unat (5 :: u64) \<le> 2 ^ 64" unfolding al_fs_facts by simp
  have "\<exists>x e. new_range_loop ?fs 0 1 5 (Some ?g) 1 False = Some (Inr (x, e))"
  proof (cases rule: range_round [OF al_map_for(1) g _ len, of "new_range_loop ?fs 0 1 5 (Some ?g)" 0 1 False, case_names 0 full found])
    case full
    then have "{1 ..< 16} \<subseteq> {3, 4, 5, 6 :: nat}" using al_map(2) by (simp add: al_fs_facts)
    then have "(1 :: nat) \<in> {3, 4, 5, 6}" by (rule subsetD) simp
    then show ?thesis by simp
  next
    case (found x e)
    then show ?thesis unfolding new_range_loop_body [of ?fs 0 1 5 "Some ?g" 1 False] by auto
  qed simp
  then obtain x e where r: "new_range_loop ?fs 0 1 5 (Some ?g) 1 False = Some (Inr (x, e))" by blast
  from new_range_free [OF al_map_for(1) _ len g r] r show ?thesis by (auto simp: al_fs_facts)
qed

text \<open>
  C20. When a minimal length is asked for, no run of that length is free and the last block of the file
  system is in use, \<open>ext2fs_new_range\<close> returns the error for a full file system only if no block at all is
  free; as soon as one is, it never returns: its search starts over at the first block each time it reaches
  the end without noting that it has been there before. (The file system has no bigalloc, and the map is
  not an empty red-black tree.)
\<close>

theorem new_range_never_returns:
  assumes "map_for fs g S" "fs_block_map fs = Some g" "zero_ok g S" "0 < len" "nblocks fs + unat len \<le> 2 ^ 64"
    and "nblocks fs - 1 \<in> S"
    and "\<And>n. fdb fs \<le> n \<Longrightarrow> n + unat len \<le> nblocks fs \<Longrightarrow> S \<inter> {n ..< n + unat len} \<noteq> {}"
    and "goal = 0 \<or> fdb fs \<le> unat goal"
  shows "ext2fs_new_range fs EXT2_NEWRANGE_MIN_LENGTH goal len None =
    (if blocks_of fs \<subseteq> S then Some (fs, Inl EXT2_ET_BLOCK_ALLOC_FAIL) else None)"
proof -
  have snd: "fs_sound fs" using assms(1) by (simp add: map_for_def)
  then have goal: "unat (block_goal fs goal) \<in> blocks_of fs" using assms(8) by (intro block_goal_in) (simp_all add: fs_sound_def)
  have "new_range_loop fs EXT2_NEWRANGE_MIN_LENGTH (block_goal fs goal) len (Some g) (block_goal fs goal) False =
      (if blocks_of fs \<subseteq> S then Some (Inl EXT2_ET_BLOCK_ALLOC_FAIL) else None)"
    using new_range_full [OF assms(1,4,5) _ goal] new_range_spins [OF assms(1,3-5) _ _ assms(6) _ assms(7) goal] by simp
  then show ?thesis using snd assms(2,4) by (simp add: ext2fs_new_range_def Let_def fs_sound_def)
qed

theorem new_range_never_returns_witness:
  "ext2fs_new_range (al_fs [0xFB, 0xFE] 1 1) EXT2_NEWRANGE_MIN_LENGTH 0 2 None = None"
proof -
  have none: "({0 ..< 16} - {2, 8}) \<inter> {n ..< n + unat (2 :: u64)} \<noteq> {}"
    if "n + unat (2 :: u64) \<le> nblocks (al_fs [0xFB, 0xFE] 1 1)" for n
  proof -
    have "n + 2 \<le> 16" using that by (simp add: al_fs_facts)
    show ?thesis
    proof (cases "n = 2 \<or> n = 8")
      case True
      then have "n + 1 \<in> ({0 ..< 16} - {2, 8}) \<inter> {n ..< n + unat (2 :: u64)}" by auto
      then show ?thesis by blast
    next
      case False
      then have "n \<in> ({0 ..< 16} - {2, 8}) \<inter> {n ..< n + unat (2 :: u64)}" using \<open>n + 2 \<le> 16\<close> by auto
      then show ?thesis by blast
    qed
  qed
  have some: "\<not> blocks_of (al_fs [0xFB, 0xFE] 1 1) \<subseteq> {0 ..< 16} - {2, 8}" unfolding al_fs_facts by (rule al_some_free)
  show ?thesis
    by (subst new_range_never_returns [OF al_map_for(2) al_fs_facts(10) al_map(2)])
      (use none some in \<open>simp_all add: al_fs_facts\<close>)
qed

end
