(* ===== verification/Alloc_io.thy ===== *)
theory Alloc_io
  imports Alloc Xnu_io
begin

text \<open>
  The part of the allocation that writes: \<open>ext2fs_zero_blocks2\<close> of \<^verbatim>\<open>libext2fs/mkjournal.c\<close> and the
  operations of \<^verbatim>\<open>libext2fs/alloc.c\<close> that allocate and clear, over a channel \<open>ch\<close> with the manager \<open>m\<close>. The
  static buffer of zeros and its length in blocks are the state \<open>zero_buf\<close>.
\<close>

record zero_buf =
  zb_stride :: int
  zb_buf :: mem_block

definition MAX_STRIDE_LENGTH :: "'a fs_base_scheme \<Rightarrow> int" where
  "MAX_STRIDE_LENGTH fs = 4194304 div uint (fs_blocksize fs)"

definition zero_count :: "int \<Rightarrow> u64 \<Rightarrow> int \<Rightarrow> int" where
  "zero_count stride blk left =
     (if uint blk mod stride \<noteq> 0 then min (stride - uint blk mod stride) left else min left stride)"

partial_function (option) zero_loop ::
  "('d io_channel) io_manager \<Rightarrow> zero_buf \<Rightarrow> int \<Rightarrow> 'd io_channel \<Rightarrow> u64 \<Rightarrow> int \<Rightarrow> ('d io_channel \<times> errcode) option" where
  "zero_loop m zb num ch blk j =
     (if j < num
      then let count = zero_count (zb_stride zb) blk (num - j)
           in case io_channel_write_blk64 m ch blk count (snd (zb_buf zb)) of
                (ch, retval) \<Rightarrow> if retval \<noteq> 0 then Some (ch, retval)
                                else zero_loop m zb num ch (blk + of_int count) (j + count)
      else Some (ch, 0))"

definition ext2fs_zero_blocks2 ::
  "allocator \<Rightarrow> ('d io_channel) io_manager \<Rightarrow> 'a fs_base_scheme \<Rightarrow> zero_buf \<Rightarrow> 'd io_channel \<Rightarrow> u64 \<Rightarrow> int
   \<Rightarrow> (zero_buf \<times> 'd io_channel \<times> errcode) option" where
  "ext2fs_zero_blocks2 mem m fs zb ch blk num =
     (if num \<le> 0 then Some (zb, ch, 0)
      else case io_channel_zeroout m ch blk (of_int num) of
             (ch, retval) \<Rightarrow>
               if retval = 0 then Some (zb, ch, 0)
               else let bs = unat (fs_blocksize fs);
                        grow = (num > zb_stride zb \<and> zb_stride zb < MAX_STRIDE_LENGTH fs);
                        new_stride = min num (MAX_STRIDE_LENGTH fs)
                    in case (if grow
                             then map_option (\<lambda>p. \<lparr>zb_stride = new_stride, zb_buf = (fst p, replicate (bs * nat new_stride) 0)\<rparr>)
                                    (e2fsmac_realloc mem (zb_buf zb) (bs * nat (zb_stride zb)) (bs * nat new_stride))
                             else Some zb) of
                         None \<Rightarrow> Some (zb, ch, EXT2_ET_NO_MEMORY)
                       | Some zb \<Rightarrow> map_option (\<lambda>(ch, retval). (zb, ch, retval)) (zero_loop m zb num ch blk 0))"

text \<open>
  \<open>ext2fs_alloc_block3\<close> with the block bitmap in memory; \<open>buf\<close> tells whether the caller passes a buffer,
  which is filled with zeros.
\<close>

definition ext2fs_alloc_block3 ::
  "allocator \<Rightarrow> ('d io_channel) io_manager \<Rightarrow> 'a ext2_filsys_scheme \<Rightarrow> zero_buf \<Rightarrow> 'd io_channel \<Rightarrow> u64 \<Rightarrow> bool
   \<Rightarrow> ('a ext2_filsys_scheme \<times> zero_buf \<times> 'd io_channel \<times> (errcode + u64)) option" where
  "ext2fs_alloc_block3 mem m fs zb ch goal buf =
     (case ext2fs_new_block3 fs goal None of
        None \<Rightarrow> None
      | Some (fs, Inl retval) \<Rightarrow> Some (fs, zb, ch, Inl retval)
      | Some (fs, Inr block) \<Rightarrow>
          (case (if buf
                 then case io_channel_write_blk64 m ch block 1 (replicate (unat (fs_blocksize fs)) 0) of
                        (ch, retval) \<Rightarrow> Some (zb, ch, retval)
                 else ext2fs_zero_blocks2 mem m fs zb ch block 1) of
             None \<Rightarrow> None
           | Some (zb, ch, retval) \<Rightarrow>
               if retval \<noteq> 0 then Some (fs, zb, ch, Inl retval)
               else Some (ext2fs_block_alloc_stats2 fs block 1, zb, ch, Inr block)))"

definition ext2fs_alloc_block2 ::
  "allocator \<Rightarrow> ('d io_channel) io_manager \<Rightarrow> 'a ext2_filsys_scheme \<Rightarrow> zero_buf \<Rightarrow> 'd io_channel \<Rightarrow> u64 \<Rightarrow> bool
   \<Rightarrow> ('a ext2_filsys_scheme \<times> zero_buf \<times> 'd io_channel \<times> (errcode + u64)) option" where
  "ext2fs_alloc_block2 mem m fs zb ch goal buf = ext2fs_alloc_block3 mem m fs zb ch goal buf"

definition ext2fs_alloc_range ::
  "allocator \<Rightarrow> ('d io_channel) io_manager \<Rightarrow> 'a ext2_filsys_scheme \<Rightarrow> zero_buf \<Rightarrow> 'd io_channel \<Rightarrow> u32 \<Rightarrow> u64 \<Rightarrow> u32
   \<Rightarrow> ('a ext2_filsys_scheme \<times> zero_buf \<times> 'd io_channel \<times> (errcode + u64)) option" where
  "ext2fs_alloc_range mem m fs zb ch flags goal len =
     (let newr_flags = (if flags AND EXT2_ALLOCRANGE_FIXED_GOAL \<noteq> 0
                        then EXT2_NEWRANGE_MIN_LENGTH OR EXT2_NEWRANGE_FIXED_GOAL else EXT2_NEWRANGE_MIN_LENGTH)
      in if fs_magic fs \<noteq> EXT2_ET_MAGIC_EXT2FS_FILSYS then Some (fs, zb, ch, Inl EXT2_ET_MAGIC_EXT2FS_FILSYS)
         else if len = 0 \<or> flags AND NOT EXT2_ALLOCRANGE_ALL_FLAGS \<noteq> 0 then Some (fs, zb, ch, Inl EXT2_ET_INVALID_ARGUMENT)
         else case ext2fs_new_range fs newr_flags goal (ucast len) None of
                None \<Rightarrow> None
              | Some (fs, Inl retval) \<Rightarrow> Some (fs, zb, ch, Inl retval)
              | Some (fs, Inr (blk, plen)) \<Rightarrow>
                  if plen < ucast len then Some (fs, zb, ch, Inl EXT2_ET_BLOCK_ALLOC_FAIL)
                  else case (if flags AND EXT2_ALLOCRANGE_ZERO_BLOCKS \<noteq> 0
                             then ext2fs_zero_blocks2 mem m fs zb ch blk (sint len) else Some (zb, ch, 0)) of
                         None \<Rightarrow> None
                       | Some (zb, ch, retval) \<Rightarrow>
                           if retval \<noteq> 0 then Some (fs, zb, ch, Inl retval)
                           else map_option (\<lambda>fs. (fs, zb, ch, Inr blk)) (ext2fs_block_alloc_stats_range fs blk len 1))"

end
