(* ===== verification/Dir_iterate.thy ===== *)
theory Dir_iterate
  imports Csum Xnu_io
begin

text \<open>
  \<^verbatim>\<open>libext2fs/dirblock.c\<close>, the walk over a directory block of \<^verbatim>\<open>libext2fs/dir_iterate.c\<close> and the search of
  \<^verbatim>\<open>libext2fs/lookup.c\<close> in a block. A callback gets its private state, the kind of the entry, the block and
  the offset of the entry, and gives the new state and block and the flags it returns. Blocks are read
  and written through a channel; \<open>rdi\<close> reads the inode whose generation enters the checksum.
\<close>

abbreviation (input) EXT2_ET_DIR_CSUM_INVALID :: errcode where "EXT2_ET_DIR_CSUM_INVALID \<equiv> 2133571478"

abbreviation (input) DIRENT_CHANGED :: u32 where "DIRENT_CHANGED \<equiv> 1"
abbreviation (input) DIRENT_ABORT :: u32 where "DIRENT_ABORT \<equiv> 2"
abbreviation (input) DIRENT_FLAG_INCLUDE_EMPTY :: u32 where "DIRENT_FLAG_INCLUDE_EMPTY \<equiv> 1"
abbreviation (input) DIRENT_FLAG_INCLUDE_REMOVED :: u32 where "DIRENT_FLAG_INCLUDE_REMOVED \<equiv> 2"
abbreviation (input) DIRENT_FLAG_INCLUDE_CSUM :: u32 where "DIRENT_FLAG_INCLUDE_CSUM \<equiv> 4"
abbreviation (input) DIRENT_FLAG_INCLUDE_INLINE_DATA :: u32 where "DIRENT_FLAG_INCLUDE_INLINE_DATA \<equiv> 8"
abbreviation (input) DIRENT_DOT_FILE :: nat where "DIRENT_DOT_FILE \<equiv> 1"
abbreviation (input) DIRENT_DOT_DOT_FILE :: nat where "DIRENT_DOT_DOT_FILE \<equiv> 2"
abbreviation (input) DIRENT_OTHER_FILE :: nat where "DIRENT_OTHER_FILE \<equiv> 3"
abbreviation (input) DIRENT_DELETED_FILE :: nat where "DIRENT_DELETED_FILE \<equiv> 4"
abbreviation (input) DIRENT_CHECKSUM :: nat where "DIRENT_CHECKSUM \<equiv> 5"
abbreviation (input) BLOCK_ABORT :: u32 where "BLOCK_ABORT \<equiv> 2"
abbreviation (input) BLOCK_INLINE_DATA_CHANGED :: u32 where "BLOCK_INLINE_DATA_CHANGED \<equiv> 8"

section \<open>Reading and writing a directory block\<close>

definition ext2fs_read_dir_block4 ::
  "inode_reader \<Rightarrow> ('d io_channel) io_manager \<Rightarrow> 'a fs_base_scheme \<Rightarrow> 'd io_channel \<Rightarrow> u64 \<Rightarrow> u32
   \<Rightarrow> 'd io_channel \<times> u8 list \<times> errcode" where
  "ext2fs_read_dir_block4 rdi m fs ch block ino =
     (case io_channel_read_blk64 m ch block 1 of
        (ch, buf, retval) \<Rightarrow>
          if retval \<noteq> 0 then (ch, buf, retval)
          else if fs_flags fs AND EXT2_FLAG_IGNORE_CSUM_ERRORS = 0 \<and> ext2fs_dir_block_csum_verify rdi fs ino buf = 0
          then (ch, buf, EXT2_ET_DIR_CSUM_INVALID) else (ch, buf, 0))"

definition ext2fs_write_dir_block4 ::
  "inode_reader \<Rightarrow> ('d io_channel) io_manager \<Rightarrow> 'a fs_base_scheme \<Rightarrow> 'd io_channel \<Rightarrow> u64 \<Rightarrow> u8 list \<Rightarrow> u32
   \<Rightarrow> 'd io_channel \<times> u8 list \<times> errcode" where
  "ext2fs_write_dir_block4 rdi m fs ch block buf ino =
     (case ext2fs_dir_block_csum_set rdi fs ino buf of
        (buf, retval) \<Rightarrow>
          if retval \<noteq> 0 then (ch, buf, retval)
          else case io_channel_write_blk64 m ch block 1 buf of (ch, retval) \<Rightarrow> (ch, buf, retval))"

definition ext2fs_read_dir_block3 ::
  "inode_reader \<Rightarrow> ('d io_channel) io_manager \<Rightarrow> 'a fs_base_scheme \<Rightarrow> 'd io_channel \<Rightarrow> u64 \<Rightarrow> 'd io_channel \<times> u8 list \<times> errcode" where
  "ext2fs_read_dir_block3 rdi m fs ch block = ext2fs_read_dir_block4 rdi m fs ch block 0"

definition ext2fs_read_dir_block2 ::
  "inode_reader \<Rightarrow> ('d io_channel) io_manager \<Rightarrow> 'a fs_base_scheme \<Rightarrow> 'd io_channel \<Rightarrow> u32 \<Rightarrow> 'd io_channel \<times> u8 list \<times> errcode" where
  "ext2fs_read_dir_block2 rdi m fs ch block = ext2fs_read_dir_block3 rdi m fs ch (ucast block)"

definition ext2fs_read_dir_block ::
  "inode_reader \<Rightarrow> ('d io_channel) io_manager \<Rightarrow> 'a fs_base_scheme \<Rightarrow> 'd io_channel \<Rightarrow> u32 \<Rightarrow> 'd io_channel \<times> u8 list \<times> errcode" where
  "ext2fs_read_dir_block rdi m fs ch block = ext2fs_read_dir_block3 rdi m fs ch (ucast block)"

definition ext2fs_write_dir_block3 ::
  "inode_reader \<Rightarrow> ('d io_channel) io_manager \<Rightarrow> 'a fs_base_scheme \<Rightarrow> 'd io_channel \<Rightarrow> u64 \<Rightarrow> u8 list
   \<Rightarrow> 'd io_channel \<times> u8 list \<times> errcode" where
  "ext2fs_write_dir_block3 rdi m fs ch block buf = ext2fs_write_dir_block4 rdi m fs ch block buf 0"

definition ext2fs_write_dir_block2 ::
  "inode_reader \<Rightarrow> ('d io_channel) io_manager \<Rightarrow> 'a fs_base_scheme \<Rightarrow> 'd io_channel \<Rightarrow> u32 \<Rightarrow> u8 list
   \<Rightarrow> 'd io_channel \<times> u8 list \<times> errcode" where
  "ext2fs_write_dir_block2 rdi m fs ch block buf = ext2fs_write_dir_block3 rdi m fs ch (ucast block) buf"

definition ext2fs_write_dir_block ::
  "inode_reader \<Rightarrow> ('d io_channel) io_manager \<Rightarrow> 'a fs_base_scheme \<Rightarrow> 'd io_channel \<Rightarrow> u32 \<Rightarrow> u8 list
   \<Rightarrow> 'd io_channel \<times> u8 list \<times> errcode" where
  "ext2fs_write_dir_block rdi m fs ch block buf = ext2fs_write_dir_block3 rdi m fs ch (ucast block) buf"

section \<open>The walk over a block\<close>

text \<open>
  \<open>ext2fs_validate_entry\<close>: the loop moves on before it tests the length, so that it can go on forever
  only with a length of zero, which the test refuses; it is a function with a measure.
\<close>

function validate_loop :: "'a fs_base_scheme \<Rightarrow> u8 list \<Rightarrow> nat \<Rightarrow> nat \<Rightarrow> bool" where
  "validate_loop fs buf offset final_offset =
     (if offset < final_offset \<and> offset \<le> unat (fs_blocksize fs - 12)
      then let rec_len = ext2fs_get_rec_len fs buf offset
           in if rec_len < 8 \<or> rec_len mod 4 \<noteq> 0 \<or> ext2fs_dirent_name_len buf offset + 8 > rec_len then False
              else validate_loop fs buf (offset + rec_len) final_offset
      else offset = final_offset)"
  by pat_completeness auto
termination by (relation "measure (\<lambda>(fs, buf, offset, e). e - offset)") auto

declare validate_loop.simps [simp del]

definition ext2fs_validate_entry :: "'a fs_base_scheme \<Rightarrow> u8 list \<Rightarrow> nat \<Rightarrow> nat \<Rightarrow> bool" where
  "ext2fs_validate_entry fs buf offset final_offset = validate_loop fs buf offset final_offset"

text \<open>The search for the next entry inside the slack of an entry.\<close>

function skip_removed :: "'a fs_base_scheme \<Rightarrow> u8 list \<Rightarrow> nat \<Rightarrow> nat \<Rightarrow> nat" where
  "skip_removed fs buf offset final_offset =
     (if offset < final_offset \<and> \<not> ext2fs_validate_entry fs buf offset final_offset
      then skip_removed fs buf (offset + 4) final_offset else offset)"
  by pat_completeness auto
termination by (relation "measure (\<lambda>(fs, buf, offset, e). e - offset)") auto

declare skip_removed.simps [simp del]

record 'p dir_context =
  dc_dir :: u32
  dc_flags :: u32
  dc_buf :: "u8 list"
  dc_buflen :: nat
  dc_errcode :: errcode
  dc_priv :: 'p

type_synonym 'p dir_func = "'p \<Rightarrow> u32 \<Rightarrow> nat \<Rightarrow> u8 list \<Rightarrow> nat \<Rightarrow> nat \<Rightarrow> 'p \<times> u8 list \<times> u32"

text \<open>The three ways out of the loop over the entries.\<close>

datatype walk_end = Walk_corrupted | Walk_aborted | Walk_done

text \<open>The entry at \<open>offset\<close>: may the callback see it, and as what?\<close>

definition entry_skipped :: "'p dir_context \<Rightarrow> bool \<Rightarrow> nat \<Rightarrow> nat \<Rightarrow> nat \<Rightarrow> nat \<Rightarrow> bool \<times> nat" where
  "entry_skipped ctx inline_data buflen csum_size entry offset =
     (let buf = dc_buf ctx
      in if de_inode buf offset \<noteq> 0 then (False, entry)
         else if \<not> inline_data \<and> offset + csum_size = buflen \<and> unat (de_rec_len buf offset) = csum_size
                 \<and> de_name_len buf offset = EXT2_DIR_NAME_LEN_CSUM
         then if dc_flags ctx AND DIRENT_FLAG_INCLUDE_CSUM = 0 then (True, entry) else (False, DIRENT_CHECKSUM)
         else (dc_flags ctx AND DIRENT_FLAG_INCLUDE_EMPTY = 0, entry))"

text \<open>The place where the walk goes on after the entry at \<open>offset\<close>.\<close>

definition next_offset :: "'a fs_base_scheme \<Rightarrow> 'p dir_context \<Rightarrow> nat \<Rightarrow> nat \<Rightarrow> nat" where
  "next_offset fs ctx offset rec_len =
     (let size = (ext2fs_dirent_name_len (dc_buf ctx) offset + 11) div 4 * 4
      in if dc_flags ctx AND DIRENT_FLAG_INCLUDE_REMOVED \<noteq> 0 \<and> rec_len \<noteq> size
         then skip_removed fs (dc_buf ctx) (offset + size) (offset + rec_len)
         else offset + rec_len)"

text \<open>The last component tells whether the callback has changed something.\<close>

partial_function (option) dir_walk ::
  "'p dir_func \<Rightarrow> 'a fs_base_scheme \<Rightarrow> bool \<Rightarrow> nat \<Rightarrow> nat \<Rightarrow> 'p dir_context \<Rightarrow> nat \<Rightarrow> nat \<Rightarrow> nat \<Rightarrow> bool
   \<Rightarrow> ('p dir_context \<times> walk_end \<times> bool) option" where
  "dir_walk func fs inline_data buflen csum_size ctx entry offset next_real_entry changed =
     (if offset < buflen - 8
      then let rec_len = ext2fs_get_rec_len fs (dc_buf ctx) offset
           in if offset + rec_len > buflen \<or> rec_len < 8 \<or> rec_len mod 4 \<noteq> 0
                 \<or> ext2fs_dirent_name_len (dc_buf ctx) offset + 8 > rec_len
              then Some (ctx\<lparr>dc_errcode := EXT2_ET_DIR_CORRUPTED\<rparr>, Walk_corrupted, changed)
              else case entry_skipped ctx inline_data buflen csum_size entry offset of
                (skip, entry) \<Rightarrow>
                  if skip then
                    dir_walk func fs inline_data buflen csum_size ctx entry (next_offset fs ctx offset rec_len)
                      (if next_real_entry = offset then next_real_entry + rec_len else next_real_entry) changed
                  else
                  (case func (dc_priv ctx) (dc_dir ctx) (if next_real_entry > offset then DIRENT_DELETED_FILE else entry)
                          (dc_buf ctx) offset buflen of
                     (p, buf, ret) \<Rightarrow>
                       let ctx = ctx\<lparr>dc_buf := buf, dc_priv := p\<rparr>;
                           entry = (if entry < DIRENT_OTHER_FILE then entry + 1 else entry);
                           rec_len = (if ret AND DIRENT_CHANGED \<noteq> 0 then ext2fs_get_rec_len fs buf offset else rec_len);
                           changed = (changed \<or> ret AND DIRENT_CHANGED \<noteq> 0)
                       in if ret AND DIRENT_ABORT \<noteq> 0 then Some (ctx, Walk_aborted, changed)
                          else dir_walk func fs inline_data buflen csum_size ctx entry (next_offset fs ctx offset rec_len)
                                 (if next_real_entry = offset then next_real_entry + rec_len else next_real_entry) changed)
      else Some (ctx, Walk_done, changed))"

definition ext2fs_process_dir_block ::
  "inode_reader \<Rightarrow> ('d io_channel) io_manager \<Rightarrow> 'p dir_func \<Rightarrow> 'a fs_base_scheme \<Rightarrow> 'd io_channel \<Rightarrow> u64 \<Rightarrow> int \<Rightarrow> 'p dir_context
   \<Rightarrow> ('d io_channel \<times> 'p dir_context \<times> u32) option" where
  "ext2fs_process_dir_block rdi m func fs ch blocknr blockcnt ctx =
     (let entry = (if blockcnt \<noteq> 0 then DIRENT_OTHER_FILE else DIRENT_DOT_FILE);
          inline_data = (dc_flags ctx AND DIRENT_FLAG_INCLUDE_INLINE_DATA \<noteq> 0)
      in if blockcnt < 0 then Some (ch, ctx, 0)
         else case (if inline_data then (ch, ctx)
                    else case ext2fs_read_dir_block4 rdi m fs ch blocknr (dc_dir ctx) of
                           (ch, buf, retval) \<Rightarrow> (ch, ctx\<lparr>dc_buf := buf, dc_errcode := retval\<rparr>)) of
           (ch, ctx) \<Rightarrow>
             let buflen = (if inline_data then dc_buflen ctx else unat (fs_blocksize fs));
                 csum_size = (if ext2fs_has_feature_metadata_csum (fs_super fs) then 12 else 0)
             in if \<not> inline_data \<and> dc_errcode ctx \<noteq> 0 then Some (ch, ctx, BLOCK_ABORT)
                else if buflen < 8 then Some (ch, ctx\<lparr>dc_errcode := EXT2_ET_DIR_CORRUPTED\<rparr>, BLOCK_ABORT)
                else case dir_walk func fs inline_data buflen csum_size ctx entry 0 0 False of
                       None \<Rightarrow> None
                     | Some (ctx, Walk_corrupted, changed) \<Rightarrow> Some (ch, ctx, BLOCK_ABORT)
                     | Some (ctx, end, changed) \<Rightarrow>
                         let abort = (if end = Walk_aborted then BLOCK_ABORT else 0)
                         in if \<not> changed then Some (ch, ctx, abort)
                            else if inline_data then Some (ch, ctx, BLOCK_INLINE_DATA_CHANGED OR abort)
                            else case ext2fs_write_dir_block4 rdi m fs ch blocknr (dc_buf ctx) (dc_dir ctx) of
                                   (ch, buf, retval) \<Rightarrow>
                                     let ctx = ctx\<lparr>dc_buf := buf, dc_errcode := retval\<rparr>
                                     in if retval \<noteq> 0 then Some (ch, ctx, BLOCK_ABORT) else Some (ch, ctx, abort))"

section \<open>Looking up a name\<close>

text \<open>\<open>strncmp\<close> as a test for equality: it stops at a zero that both have.\<close>

fun strncmp_eq :: "u8 list \<Rightarrow> u8 list \<Rightarrow> nat \<Rightarrow> bool" where
  "strncmp_eq s t 0 = True"
| "strncmp_eq (a # s) (b # t) (Suc n) = (a = b \<and> (a = 0 \<or> strncmp_eq s t n))"
| "strncmp_eq [] (b # t) (Suc n) = (b = 0)"
| "strncmp_eq (a # s) [] (Suc n) = (a = 0)"
| "strncmp_eq [] [] (Suc n) = True"

record lookup_struct =
  lk_name :: "u8 list"
  lk_len :: int
  lk_inode :: u32
  lk_found :: nat

definition lookup_proc :: "lookup_struct dir_func" where
  "lookup_proc ls dir entry buf offset blocksize =
     (let n = ext2fs_dirent_name_len buf offset
      in if lk_len ls \<noteq> int n then (ls, buf, 0)
         else if \<not> strncmp_eq (lk_name ls) (de_name buf offset) n then (ls, buf, 0)
         else (ls\<lparr>lk_inode := de_inode buf offset, lk_found := lk_found ls + 1\<rparr>, buf, DIRENT_ABORT))"

end
