(* ===== verification/Link.thy ===== *)
theory Link
  imports Dir_iterate
begin

text \<open>
  \<^verbatim>\<open>libext2fs/link.c\<close>: linking a name into a directory block. \<open>link_proc\<close> is the callback of the walk: it
  joins an entry with an unused one behind it, splits off the slack of an entry in use, and fills in an
  unused entry that is long enough. \<open>dir_tiles\<close> is the abstract content of a block, the list of the
  entries that tile it.
\<close>

section \<open>The code\<close>

record link_struct =
  ls_name :: "u8 list"
  ls_namelen :: nat
  ls_inode :: u32
  ls_flags :: u32
  ls_done :: nat
  ls_blocksize :: u32
  ls_err :: errcode

text \<open>
  The first part of \<open>link_proc\<close>: an unused entry that follows is joined. The result is the block, the
  length of the entry, and the error of \<open>ext2fs_set_rec_len\<close> if there was something to join.
\<close>

definition link_absorb :: "'a fs_base_scheme \<Rightarrow> u8 list \<Rightarrow> nat \<Rightarrow> nat \<Rightarrow> nat \<Rightarrow> u8 list \<times> nat \<times> errcode option" where
  "link_absorb fs buf offset blocksize curr_rec_len =
     (let csum_size = (if ext2fs_has_feature_metadata_csum (fs_super fs) then 12 else 0);
          next_de = offset + curr_rec_len
      in if next_de + (8 + csum_size) < blocksize \<and> de_inode buf next_de = 0
            \<and> next_de + unat (de_rec_len buf next_de) \<le> blocksize
         then let curr_rec_len = curr_rec_len + unat (de_rec_len buf next_de)
              in case ext2fs_set_rec_len fs curr_rec_len buf offset of (buf, err) \<Rightarrow> (buf, curr_rec_len, Some err)
         else (buf, curr_rec_len, None))"

text \<open>The entry at \<open>offset\<close> is cut to \<open>min_rec_len\<close> and an unused one of \<open>rec_len\<close> bytes follows it.\<close>

definition link_split :: "'a fs_base_scheme \<Rightarrow> u8 list \<Rightarrow> nat \<Rightarrow> nat \<Rightarrow> nat \<Rightarrow> u8 list \<times> errcode" where
  "link_split fs buf offset min_rec_len rec_len =
     (case ext2fs_set_rec_len fs min_rec_len buf offset of
        (buf, err) \<Rightarrow>
          if err \<noteq> 0 then (buf, err)
          else let next_de = offset + unat (de_rec_len buf offset);
                   buf = de_set_inode 0 buf next_de;
                   buf = ext2fs_dirent_set_name_len 0 buf next_de;
                   buf = ext2fs_dirent_set_file_type 0 buf next_de
               in ext2fs_set_rec_len fs rec_len buf next_de)"

definition link_fill :: "'a fs_base_scheme \<Rightarrow> link_struct \<Rightarrow> u8 list \<Rightarrow> nat \<Rightarrow> u8 list" where
  "link_fill fs ls buf offset =
     (let buf = de_set_inode (ls_inode ls) buf offset;
          buf = ext2fs_dirent_set_name_len (ls_namelen ls) buf offset;
          buf = strncpy_at buf (offset + 8) (ls_name ls) (ls_namelen ls)
      in if ext2fs_has_feature_filetype (fs_super fs)
         then ext2fs_dirent_set_file_type (ucast (ls_flags ls AND 7)) buf offset else buf)"

definition link_proc :: "'a fs_base_scheme \<Rightarrow> link_struct dir_func" where
  "link_proc fs ls dir entry buf offset blocksize =
     (if ls_done ls \<noteq> 0 then (ls, buf, DIRENT_ABORT)
      else let rec_len = EXT2_DIR_REC_LEN (ls_namelen ls)
           in case link_absorb fs buf offset blocksize (ext2fs_get_rec_len fs buf offset) of
                (buf, curr_rec_len, joined) \<Rightarrow>
                  let ls = ls\<lparr>ls_err := (case joined of Some err \<Rightarrow> err | None \<Rightarrow> 0)\<rparr>;
                      ret = (if joined = None then 0 else DIRENT_CHANGED)
                  in if ls_err ls \<noteq> 0 then (ls, buf, DIRENT_ABORT)
                     else if de_inode buf offset \<noteq> 0 then
                       let min_rec_len = EXT2_DIR_REC_LEN (ext2fs_dirent_name_len buf offset)
                       in if curr_rec_len < min_rec_len + rec_len then (ls, buf, ret)
                          else case link_split fs buf offset min_rec_len (curr_rec_len - min_rec_len) of
                                 (buf, err) \<Rightarrow> (ls\<lparr>ls_err := err\<rparr>, buf, if err \<noteq> 0 then DIRENT_ABORT else DIRENT_CHANGED)
                     else if curr_rec_len < rec_len then (ls, buf, ret)
                     else (ls\<lparr>ls_done := ls_done ls + 1\<rparr>, link_fill fs ls buf offset, DIRENT_ABORT OR DIRENT_CHANGED))"

section \<open>The entries of a block\<close>

text \<open>An entry: its length, inode, name length with file type, and name.\<close>

type_synonym dent = "nat \<times> u32 \<times> u16 \<times> u8 list"

definition dent_at :: "'a fs_base_scheme \<Rightarrow> u8 list \<Rightarrow> nat \<Rightarrow> dent" where
  "dent_at fs buf d = (ext2fs_get_rec_len fs buf d, de_inode buf d, de_name_len buf d,
     take (ext2fs_dirent_name_len buf d) (de_name buf d))"

definition dent_ok :: "'a fs_base_scheme \<Rightarrow> u8 list \<Rightarrow> nat \<Rightarrow> bool" where
  "dent_ok fs buf d \<longleftrightarrow> 8 \<le> ext2fs_get_rec_len fs buf d \<and> ext2fs_get_rec_len fs buf d mod 4 = 0
     \<and> ext2fs_dirent_name_len buf d + 8 \<le> ext2fs_get_rec_len fs buf d"

inductive dir_tiles :: "'a fs_base_scheme \<Rightarrow> u8 list \<Rightarrow> nat \<Rightarrow> nat \<Rightarrow> dent list \<Rightarrow> bool"
  for fs :: "'a fs_base_scheme" and buf :: "u8 list" where
  nil: "dir_tiles fs buf e e []"
| cons: "dent_ok fs buf d \<Longrightarrow> dir_tiles fs buf (d + ext2fs_get_rec_len fs buf d) e E
    \<Longrightarrow> dir_tiles fs buf d e (dent_at fs buf d # E)"

inductive_cases dir_tilesE: "dir_tiles fs buf d e (x # E)"

text \<open>The entries in use: inode, file type and name. How much of an entry is free for a name.\<close>

definition dents_live :: "dent list \<Rightarrow> (u32 \<times> u16 \<times> u8 list) list" where
  "dents_live E = map (\<lambda>(l, i, n, s). (i, drop_bit 8 n, s)) (filter (\<lambda>(l, i, n, s). i \<noteq> 0) E)"

fun dent_room :: "dent \<Rightarrow> nat" where
  "dent_room (l, i, n, s) = (if i = 0 then l else l - EXT2_DIR_REC_LEN (unat (n AND 0xff)))"

lemma dents_live_simps [simp]:
  "dents_live [] = []"
  "dents_live ((l, i, n, s) # E) = (if i = 0 then dents_live E else (i, drop_bit 8 n, s) # dents_live E)"
  "dents_live (E @ F) = dents_live E @ dents_live F"
  by (simp_all add: dents_live_def)

lemma dir_tiles_le: "dir_tiles fs buf d e E \<Longrightarrow> d \<le> e"
  by (induction rule: dir_tiles.induct) (auto simp: dent_ok_def)

lemma dir_tiles_cons_iff:
  "dir_tiles fs buf d e (x # E) \<longleftrightarrow> dent_ok fs buf d \<and> x = dent_at fs buf d
    \<and> dir_tiles fs buf (d + ext2fs_get_rec_len fs buf d) e E"
  by (auto elim: dir_tilesE intro: dir_tiles.cons)

lemma dir_tiles_nil_iff: "dir_tiles fs buf d e [] \<longleftrightarrow> d = e"
  by (auto elim: dir_tiles.cases intro: dir_tiles.nil)

lemma dir_tiles_split: "dir_tiles fs buf d e E \<Longrightarrow> d < e \<Longrightarrow>
    \<exists>E'. E = dent_at fs buf d # E' \<and> dent_ok fs buf d \<and> dir_tiles fs buf (d + ext2fs_get_rec_len fs buf d) e E'"
  by (cases E) (auto simp: dir_tiles_cons_iff dir_tiles_nil_iff)

lemma dir_tiles_empty: "dir_tiles fs buf d d E \<Longrightarrow> E = []"
  by (cases E) (auto simp: dir_tiles_cons_iff dent_ok_def dest: dir_tiles_le)

lemma dir_tiles_append:
  "dir_tiles fs buf d m E \<Longrightarrow> dir_tiles fs buf m e F \<Longrightarrow> dir_tiles fs buf d e (E @ F)"
  by (induction rule: dir_tiles.induct) (auto intro: dir_tiles.cons)

text \<open>The header and the name of an entry depend on their bytes only.\<close>

lemma dent_fields_same:
  assumes "same_on d (d + 8) buf buf'"
  shows "ext2fs_get_rec_len fs buf' d = ext2fs_get_rec_len fs buf d" "de_inode buf' d = de_inode buf d"
    "de_name_len buf' d = de_name_len buf d" "ext2fs_dirent_name_len buf' d = ext2fs_dirent_name_len buf d"
  using assms by (simp_all add: ext2fs_get_rec_len_def de_defs same_on_get16 same_on_get32)

lemma dent_same:
  assumes "same_on d e buf buf'" "dent_ok fs buf d" "d + ext2fs_get_rec_len fs buf d \<le> e" "e \<le> length buf"
    and "length buf' = length buf"
  shows "dent_ok fs buf' d" "dent_at fs buf' d = dent_at fs buf d"
proof -
  have "same_on d (d + 8) buf buf'" by (rule same_on_mono [OF assms(1)]) (use assms(2,3) in \<open>auto simp: dent_ok_def\<close>)
  note f = dent_fields_same [OF this]
  show "dent_ok fs buf' d" using assms(2) by (simp add: dent_ok_def f)
  have "take n (de_name buf' d) = take n (de_name buf d)" if "n + 8 \<le> ext2fs_get_rec_len fs buf d" for n
    unfolding de_name_def by (rule same_on_take_drop [OF assms(1)]) (use that assms(3-5) in auto)
  then show "dent_at fs buf' d = dent_at fs buf d" using assms(2) by (simp add: dent_at_def f dent_ok_def)
qed

lemma dir_tiles_same:
  assumes "dir_tiles fs buf d e E" "same_on d e buf buf'" "e \<le> length buf" "length buf' = length buf"
  shows "dir_tiles fs buf' d e E"
  using assms
proof (induction rule: dir_tiles.induct)
  case nil
  then show ?case by (auto intro: dir_tiles.nil)
next
  case (cons d e E)
  have le: "d + ext2fs_get_rec_len fs buf d \<le> e" by (rule dir_tiles_le [OF cons(2)])
  note s = dent_same [OF cons.prems(1) cons(1) le cons.prems(2,3)]
  have "dir_tiles fs buf' (d + ext2fs_get_rec_len fs buf d) e E"
    by (rule cons.IH [OF same_on_mono [OF cons.prems(1)] cons.prems(2,3)]) auto
  then have "dir_tiles fs buf' (d + ext2fs_get_rec_len fs buf' d) e E" using s(2) by (simp add: dent_at_def)
  then show ?case using s dir_tiles.cons [OF s(1)] by metis
qed

section \<open>Storing a length\<close>

text \<open>In blocks of at most 64 KB the stored 16 bits are the length, unless it is the whole block.\<close>

lemma unat_ucast16_32 [word_nat]: "unat (ucast (w :: u16) :: u32) = unat w"
proof -
  have "unat w < 2 ^ 16" using unsigned_less [of w] by simp
  then have "unat w < 2 ^ 32" by simp
  then show ?thesis by (simp add: unsigned_ucast_eq take_bit_nat_eq_self)
qed

lemma rec_len_raw:
  assumes "unat (fs_blocksize fs) \<le> 65536" "ext2fs_get_rec_len fs buf d < 65536"
  shows "unat (de_rec_len buf d) = ext2fs_get_rec_len fs buf d"
proof (cases "fs_blocksize fs < 65536")
  case True
  then show ?thesis by (simp add: ext2fs_get_rec_len_def Let_def unat_ucast16_32)
next
  case False
  then have bs: "unat (fs_blocksize fs) = 65536" using assms(1) by (simp add: word_less_nat_alt)
  define len where "len = (ucast (de_rec_len buf d) :: u32)"
  have u: "unat len = unat (de_rec_len buf d)" by (simp add: len_def unat_ucast16_32)
  have g: "ext2fs_get_rec_len fs buf d = unat ((len AND 65532) OR push_bit 16 (len AND 3))"
    using assms(2) bs False unfolding ext2fs_get_rec_len_def len_def [symmetric] by (auto simp: Let_def split: if_splits)
  have m: "(65532 :: u32) = mask 16 AND NOT (mask 2)" "(3 :: u32) = mask 2" by (simp_all add: mask_eq_exp_minus_1)
  have hi: "\<not> bit ((len AND 65532) OR push_bit 16 (len AND 3)) k" if "16 \<le> k" for k
  proof -
    have t: "take_bit 16 x = x" if "unat x < 65536" for x :: u32
      using that by (simp add: word_unat_eq_iff unsigned_take_bit_eq take_bit_nat_eq_self_iff)
    have "take_bit 16 ((len AND 65532) OR push_bit 16 (len AND 3)) = (len AND 65532) OR push_bit 16 (len AND 3)"
      by (rule t) (use assms(2) in \<open>simp only: g\<close>)
    then show ?thesis using that by (metis bit_take_bit_iff not_le)
  qed
  have lo: "\<not> bit len k" if "k < 2" for k
    using hi [of "k + 16"] that unfolding m by (auto simp: bit_simps)
  have lo': "bit len k \<Longrightarrow> 2 \<le> k" for k using lo [of k] by force
  have up: "bit len k \<Longrightarrow> k < 16" for k by (auto simp: len_def bit_simps dest: bit_imp_le_length)
  have "(len AND 65532) OR push_bit 16 (len AND 3) = len"
    unfolding m by (rule bit_word_eqI) (auto simp: bit_simps not_less dest: up lo')
  then show ?thesis using g u by simp
qed

text \<open>\<open>blk_fs\<close>: a block size the format allows, from 1 KB to 64 KB.\<close>

definition blk_fs :: "'a fs_base_scheme \<Rightarrow> bool" where
  "blk_fs fs \<longleftrightarrow> 1024 \<le> unat (fs_blocksize fs) \<and> unat (fs_blocksize fs) \<le> 65536"

lemma set_rec_len_eff:
  assumes "blk_fs fs" "l mod 4 = 0" "0 < l" "l \<le> unat (fs_blocksize fs)" "de + 8 \<le> length buf"
  obtains buf' where "ext2fs_set_rec_len fs l buf de = (buf', 0)" "ext2fs_get_rec_len fs buf' de = l"
    "length buf' = length buf" "same_on 0 (de + 4) buf buf'" "\<And>n. same_on (de + 6) n buf buf'"
proof -
  obtain buf' err where s: "ext2fs_set_rec_len fs l buf de = (buf', err)" by force
  have l: "l < 2 ^ 32" using assms(1,4) by (simp add: blk_fs_def)
  have "snd (ext2fs_set_rec_len fs l buf de) = 0" using set_rec_len_ok [OF l, of fs buf de] assms(1,2,4) by (auto simp: blk_fs_def)
  then have e: "err = 0" using s by simp
  note s = s [unfolded e]
  have "ext2fs_get_rec_len fs buf' de = l"
    by (rule set_get_rec_len [OF s _ l]) (use assms in \<open>auto simp: blk_fs_def\<close>)
  moreover have "length buf' = length buf" using length_set_rec_len [of fs l buf de] s by simp
  moreover have "\<exists>v. buf' = put16 buf (de + 4) v"
    using s by (auto simp: ext2fs_set_rec_len_def de_set_rec_len_def Let_def split: if_splits)
  then obtain v where v: "buf' = put16 buf (de + 4) v" by blast
  moreover have "same_on 0 (de + 4) buf buf'" unfolding v by (rule same_on_put16) (use assms(5) in auto)
  moreover have "same_on (de + 6) n buf buf'" for n unfolding v by (rule same_on_put16) (use assms(5) in auto)
  ultimately show ?thesis using s by (intro that) auto
qed

lemma dent_after_set_rec_len:
  assumes "same_on 0 (de + 4) buf buf'" "same_on (de + 6) (length buf) buf buf'" "de + 8 + n \<le> length buf"
    and "length buf' = length buf"
  shows "de_inode buf' de = de_inode buf de" "de_name_len buf' de = de_name_len buf de"
    "ext2fs_dirent_name_len buf' de = ext2fs_dirent_name_len buf de" "take n (de_name buf' de) = take n (de_name buf de)"
proof -
  show i: "de_inode buf' de = de_inode buf de" "de_name_len buf' de = de_name_len buf de"
    using assms by (auto simp: de_defs intro: same_on_get32 [OF assms(1)] same_on_get16 [OF assms(2)])
  then show "ext2fs_dirent_name_len buf' de = ext2fs_dirent_name_len buf de" by (simp add: ext2fs_dirent_name_len_def)
  show "take n (de_name buf' de) = take n (de_name buf de)"
    unfolding de_name_def by (rule same_on_take_drop [OF assms(2)]) (use assms(3,4) in auto)
qed

section \<open>The three steps on a tiled block\<close>

text \<open>\<open>blk_end\<close>: where the entries end, before the tail with the checksum if there is one.\<close>

definition csum_len :: "'a fs_base_scheme \<Rightarrow> nat" where
  "csum_len fs = (if ext2fs_has_feature_metadata_csum (fs_super fs) then 12 else 0)"

definition blk_end :: "'a fs_base_scheme \<Rightarrow> nat" where
  "blk_end fs = unat (fs_blocksize fs) - csum_len fs"

lemma blk_end: "blk_fs fs \<Longrightarrow> blk_end fs + csum_len fs = unat (fs_blocksize fs) \<and> 8 \<le> blk_end fs"
  by (auto simp: blk_end_def csum_len_def blk_fs_def)

text \<open>What every step keeps: the bytes in front of the entry and behind the entries.\<close>

definition kept :: "'a fs_base_scheme \<Rightarrow> nat \<Rightarrow> u8 list \<Rightarrow> u8 list \<Rightarrow> bool" where
  "kept fs d buf buf' \<longleftrightarrow> length buf' = length buf \<and> same_on 0 d buf buf' \<and> same_on (blk_end fs) (length buf) buf buf'"

lemma kept_refl [simp]: "kept fs d buf buf" by (simp add: kept_def)

lemma kept_trans: "kept fs d a b \<Longrightarrow> kept fs d' b c \<Longrightarrow> d \<le> d' \<Longrightarrow> kept fs d a c"
  by (auto simp: kept_def intro: same_on_trans same_on_mono)

lemma link_absorb_step:
  assumes fs: "blk_fs fs" and len: "length buf = unat (fs_blocksize fs)"
    and t: "dir_tiles fs buf d (blk_end fs) (x # E)"
  obtains buf' c j E' where "link_absorb fs buf d (unat (fs_blocksize fs)) (ext2fs_get_rec_len fs buf d) = (buf', c, j)"
    "j = None \<and> buf' = buf \<or> j = Some 0" "c = ext2fs_get_rec_len fs buf' d" "kept fs d buf buf'"
    "dir_tiles fs buf' d (blk_end fs) (dent_at fs buf' d # E')" "snd (dent_at fs buf' d) = snd x" "dents_live E' = dents_live E"
proof -
  define c where "c = ext2fs_get_rec_len fs buf d"
  define n where "n = d + c"
  have x: "dent_ok fs buf d" "x = dent_at fs buf d" and tn: "dir_tiles fs buf n (blk_end fs) E"
    using t unfolding dir_tiles_cons_iff n_def c_def by auto
  note be = blk_end [OF fs]
  show ?thesis
  proof (cases "n + (8 + csum_len fs) < unat (fs_blocksize fs) \<and> de_inode buf n = 0
      \<and> n + unat (de_rec_len buf n) \<le> unat (fs_blocksize fs)")
    case False
    have "link_absorb fs buf d (unat (fs_blocksize fs)) c = (buf, c, None)"
      using False unfolding link_absorb_def csum_len_def [symmetric] n_def by (auto simp: Let_def)
    then show ?thesis using t x by (intro that [of buf c None E]) (auto simp: c_def)
  next
    case True
    then have "n < blk_end fs" using be by linarith
    from dir_tiles_split [OF tn this] obtain E2 where E2: "E = dent_at fs buf n # E2" "dent_ok fs buf n"
      "dir_tiles fs buf (n + ext2fs_get_rec_len fs buf n) (blk_end fs) E2" by blast
    note le = dir_tiles_le [OF E2(3)]
    have c8: "8 \<le> c" using x(1) by (simp add: dent_ok_def c_def)
    have bs: "unat (fs_blocksize fs) \<le> 65536" using fs by (simp add: blk_fs_def)
    have lt: "ext2fs_get_rec_len fs buf n < 65536" using le be c8 bs unfolding n_def by linarith
    have raw: "unat (de_rec_len buf n) = ext2fs_get_rec_len fs buf n" by (rule rec_len_raw [OF bs lt])
    define l where "l = c + ext2fs_get_rec_len fs buf n"
    have dl: "d + l \<le> blk_end fs" "d + l = n + ext2fs_get_rec_len fs buf n" using le by (simp_all add: l_def n_def)
    have "l mod 4 = 0" using x(1) E2(2) unfolding l_def c_def dent_ok_def by (simp add: mod_add_eq [symmetric])
    moreover have "0 < l" "l \<le> unat (fs_blocksize fs)" "d + 8 \<le> length buf" using c8 dl be len unfolding l_def by linarith+
    ultimately obtain b where b: "ext2fs_set_rec_len fs l buf d = (b, 0)" "ext2fs_get_rec_len fs b d = l"
      "length b = length buf" "same_on 0 (d + 4) buf b" "\<And>n. same_on (d + 6) n buf b"
      using set_rec_len_eff [OF fs] by metis
    have nl: "ext2fs_dirent_name_len buf d + 8 \<le> c" using x(1) by (simp add: dent_ok_def c_def)
    have "d + 8 + ext2fs_dirent_name_len buf d \<le> length buf" using nl dl be len unfolding l_def by linarith
    note f = dent_after_set_rec_len [OF b(4) b(5) this b(3)]
    have ok: "dent_ok fs b d" using x(1) E2(2) nl \<open>l mod 4 = 0\<close> unfolding dent_ok_def b(2) f(3) l_def by auto
    have "dir_tiles fs b (d + l) (blk_end fs) E2"
      by (rule dir_tiles_same [OF E2(3) [folded dl(2)] same_on_mono [OF b(5)]]) (use be len b(3) c8 in \<open>auto simp: l_def\<close>)
    then have tiles: "dir_tiles fs b d (blk_end fs) (dent_at fs b d # E2)" unfolding dir_tiles_cons_iff using ok b(2) by simp
    have "same_on 0 d buf b" by (rule same_on_mono [OF b(4)]) auto
    moreover have "same_on (blk_end fs) (length buf) buf b" by (rule same_on_mono [OF b(5)]) (use dl c8 in \<open>auto simp: l_def\<close>)
    ultimately have k: "kept fs d buf b" using b(3) by (simp add: kept_def)
    have a: "link_absorb fs buf d (unat (fs_blocksize fs)) c = (b, l, Some 0)"
      using True b(1) raw unfolding link_absorb_def csum_len_def [symmetric] n_def l_def by (auto simp: Let_def)
    show ?thesis
    proof (rule that [of b l "Some 0" E2, folded c_def, OF a])
      show "dents_live E2 = dents_live E" using True E2(1) by (simp add: dent_at_def)
      show "snd (dent_at fs b d) = snd x" unfolding x(2) by (simp add: dent_at_def f)
    qed (use b(2) k tiles in auto)
  qed
qed


lemma get32_put16_other [bytes]:
  "off + 1 < length b \<Longrightarrow> p + 3 < off \<or> off + 1 < p \<Longrightarrow> get32 (put16 b off v) p = get32 b p"
  by (auto simp: get32_def get16_put16_other)

lemma name_len_word:
  "((x AND 0xff00) OR (y AND 0xff)) AND 0xff = y AND (0xff :: u16)"
  "((x AND 0xff) OR push_bit 8 z) AND 0xff = x AND (0xff :: u16)"
  "drop_bit 8 ((x AND 0xff00) OR (y AND 0xff)) = drop_bit 8 (x :: u16)"
  "drop_bit 8 ((x AND 0xff) OR push_bit 8 z) = take_bit 8 (z :: u16)"
  "((x :: u16) AND 0xff00) AND 0xff = 0" "drop_bit 8 (push_bit 8 z) = take_bit 8 (z :: u16)"
proof -
  have m: "(0xff :: u16) = mask 8" "(0xff00 :: u16) = push_bit 8 (mask 8)" by (simp_all add: mask_eq_exp_minus_1)
  show "((x AND 0xff00) OR (y AND 0xff)) AND 0xff = y AND (0xff :: u16)"
    "((x AND 0xff) OR push_bit 8 z) AND 0xff = x AND (0xff :: u16)"
    "drop_bit 8 ((x AND 0xff00) OR (y AND 0xff)) = drop_bit 8 (x :: u16)"
    "drop_bit 8 ((x AND 0xff) OR push_bit 8 z) = take_bit 8 (z :: u16)"
    unfolding m by (rule bit_word_eqI; auto simp: bit_simps dest: bit_imp_le_length)+
  show "((x :: u16) AND 0xff00) AND 0xff = 0" by (simp add: and.assoc)
  show "drop_bit 8 (push_bit 8 z) = take_bit 8 (z :: u16)" by (rule bit_word_eqI) (auto simp: bit_simps dest: bit_imp_le_length)
qed

lemma unat_of_nat_ff: "n < 256 \<Longrightarrow> unat (of_nat n AND 0xff :: u16) = n"
proof -
  assume n: "n < 256"
  have "(0xff :: u16) = mask 8" by (simp add: mask_eq_exp_minus_1)
  then have "of_nat n AND 0xff = take_bit 8 (of_nat n :: u16)" by (simp add: take_bit_eq_mask)
  moreover have "unat (of_nat n :: u16) = n" using n unfolding unat_of_nat by (intro mod_less) simp
  ultimately show ?thesis using n by (simp add: unsigned_take_bit_eq take_bit_nat_eq_self)
qed

lemma link_split_step:
  assumes fs: "blk_fs fs" and len: "length buf = unat (fs_blocksize fs)"
    and t: "dir_tiles fs buf d (blk_end fs) (x # E)"
    and m: "m = EXT2_DIR_REC_LEN (ext2fs_dirent_name_len buf d)" "m + 8 \<le> ext2fs_get_rec_len fs buf d"
  defines "r \<equiv> ext2fs_get_rec_len fs buf d - m"
  obtains buf' where "link_split fs buf d m r = (buf', 0)" "kept fs d buf buf'" "ext2fs_get_rec_len fs buf' d = m"
    "dir_tiles fs buf' d (blk_end fs) (dent_at fs buf' d # (r, 0, 0, []) # E)" "snd (dent_at fs buf' d) = snd x"
proof -
  define nl where "nl = ext2fs_dirent_name_len buf d"
  define n where "n = d + m"
  have x: "dent_ok fs buf d" "x = dent_at fs buf d" and tn: "dir_tiles fs buf (n + r) (blk_end fs) E"
    using t m(2) unfolding dir_tiles_cons_iff n_def r_def by auto
  note be = blk_end [OF fs]
  have bs: "unat (fs_blocksize fs) \<le> 65536" using fs by (simp add: blk_fs_def)
  have le: "n + r \<le> blk_end fs" by (rule dir_tiles_le [OF tn])
  have ml: "nl + 8 \<le> m" "m mod 4 = 0" using dir_rec_len_bounds [OF name_len_lt] unfolding m(1) nl_def by auto
  have "r mod 4 = 0" using x(1) m(2) ml(2) unfolding r_def dent_ok_def by presburger
  have r8: "8 \<le> r" using m(2) by (simp add: r_def)
  have "0 < m" "m \<le> unat (fs_blocksize fs)" "d + 8 \<le> length buf" using ml le be r8 len unfolding n_def by linarith+
  with ml(2) obtain b where b: "ext2fs_set_rec_len fs m buf d = (b, 0)" "ext2fs_get_rec_len fs b d = m"
    "length b = length buf" "same_on 0 (d + 4) buf b" "\<And>n. same_on (d + 6) n buf b"
    using set_rec_len_eff [OF fs] by metis
  have raw: "unat (de_rec_len b d) = m" using rec_len_raw [OF bs, of b d] b(2) le be r8 bs unfolding n_def by simp
  have "d + 8 + nl \<le> length buf" using ml le be len unfolding n_def by linarith
  note f = dent_after_set_rec_len [OF b(4) b(5) this [unfolded nl_def] b(3)]
  define b1 where "b1 = ext2fs_dirent_set_file_type 0 (ext2fs_dirent_set_name_len 0 (de_set_inode 0 b n) n) n"
  have n8: "n + 8 \<le> length b" using le be len b(3) r8 by linarith
  have b1: "length b1 = length b" "same_on 0 n b b1" "\<And>k. same_on (n + 8) k b b1"
    using n8 unfolding b1_def by (auto simp: de_defs same_on_def nth_put16 nth_put32_other)
  have z: "de_inode b1 n = 0" "de_name_len b1 n = 0"
    using n8 unfolding b1_def de_defs
    by (simp_all add: get32_put16_other get32_put32 get16_put16 name_len_word)
  have "0 < r" "r \<le> unat (fs_blocksize fs)" "n + 8 \<le> length b1" using r8 le be n8 b1(1) by linarith+
  with \<open>r mod 4 = 0\<close> obtain b2 where b2: "ext2fs_set_rec_len fs r b1 n = (b2, 0)" "ext2fs_get_rec_len fs b2 n = r"
    "length b2 = length b1" "same_on 0 (n + 4) b1 b2" "\<And>k. same_on (n + 6) k b1 b2"
    using set_rec_len_eff [OF fs] by metis
  have "n + 8 + 0 \<le> length b1" using n8 b1(1) by simp
  note g = dent_after_set_rec_len [OF b2(4) b2(5) this b2(3)]
  have new: "dent_at fs b2 n = (r, 0, 0, [])" "dent_ok fs b2 n"
    using b2(2) g z r8 \<open>r mod 4 = 0\<close> by (simp_all add: dent_at_def dent_ok_def ext2fs_dirent_name_len_def)
  have up: "same_on 0 n b b2" by (rule same_on_trans [OF b1(2) same_on_mono [OF b2(4)]]) auto
  have lo: "same_on (n + 8) k buf b2" for k
    by (rule same_on_trans [OF same_on_mono [OF b(5)] same_on_trans [OF b1(3) same_on_mono [OF b2(5)]]])
      (use ml in \<open>auto simp: n_def\<close>)
  have ok: "dent_ok fs b d" using ml x(1) unfolding dent_ok_def b(2) f(3) nl_def by auto
  note s = dent_same [OF same_on_mono [OF up] ok]
  have at: "dent_ok fs b2 d" "dent_at fs b2 d = dent_at fs b d"
    using s [of n] n8 b1(1) b2(2,3) b(2) by (auto simp: n_def)
  have at2: "ext2fs_get_rec_len fs b2 d = m" "snd (dent_at fs b2 d) = snd x"
    using at(2) b(2) f unfolding x(2) by (simp_all add: dent_at_def)
  have "dir_tiles fs b2 (n + r) (blk_end fs) E"
    by (rule dir_tiles_same [OF tn same_on_mono [OF lo]]) (use r8 be len b(3) b1(1) b2(3) in auto)
  then have tiles: "dir_tiles fs b2 d (blk_end fs) (dent_at fs b2 d # (r, 0, 0, []) # E)"
    unfolding dir_tiles_cons_iff at2(1) n_def [symmetric] b2(2) using at(1) new by simp
  have "same_on 0 d buf b2"
    by (rule same_on_trans [OF same_on_mono [OF b(4)] same_on_mono [OF up]]) (auto simp: n_def)
  moreover have "same_on (blk_end fs) (length buf) buf b2" by (rule same_on_mono [OF lo]) (use le r8 in auto)
  ultimately have k: "kept fs d buf b2" using b(3) b1(1) b2(3) by (simp add: kept_def)
  have "link_split fs buf d m r = (b2, 0)"
    using b(1) b2(1) unfolding link_split_def by (simp add: Let_def raw n_def [symmetric] b1_def [symmetric])
  then show ?thesis by (rule that [OF _ k at2(1) tiles at2(2)])
qed


text \<open>An unused entry that is filled in. Without the feature the old file type stays in place.\<close>

lemma link_fill_step:
  assumes fs: "blk_fs fs" and len: "length buf = unat (fs_blocksize fs)"
    and t: "dir_tiles fs buf d (blk_end fs) (x # E)"
    and nm: "length (ls_name ls) = ls_namelen ls" "ls_namelen ls < 256" "ls_namelen ls + 8 \<le> ext2fs_get_rec_len fs buf d"
  obtains t where "kept fs d buf (link_fill fs ls buf d)"
    "dir_tiles fs (link_fill fs ls buf d) d (blk_end fs) (dent_at fs (link_fill fs ls buf d) d # E)"
    "dents_live [dent_at fs (link_fill fs ls buf d) d] = (if ls_inode ls = 0 then [] else [(ls_inode ls, t, ls_name ls)])"
    "ext2fs_has_feature_filetype (fs_super fs) \<Longrightarrow> t = ucast (ls_flags ls AND 7)"
proof -
  define n where "n = ls_namelen ls"
  define c where "c = ext2fs_get_rec_len fs buf d"
  have x: "dent_ok fs buf d" and tn: "dir_tiles fs buf (d + c) (blk_end fs) E"
    using t unfolding dir_tiles_cons_iff c_def by auto
  note be = blk_end [OF fs]
  have le: "d + c \<le> blk_end fs" by (rule dir_tiles_le [OF tn])
  have nc: "n + 8 \<le> c" using nm(3) by (simp add: n_def c_def)
  have l: "d + c \<le> length buf" using le be len by linarith
  define b1 where "b1 = ext2fs_dirent_set_name_len n (de_set_inode (ls_inode ls) buf d) d"
  define b2 where "b2 = strncpy_at b1 (d + 8) (ls_name ls) n"
  define b3 where "b3 = (if ext2fs_has_feature_filetype (fs_super fs)
         then ext2fs_dirent_set_file_type (ucast (ls_flags ls AND 7)) b2 d else b2)"
  have e: "link_fill fs ls buf d = b3" by (simp add: link_fill_def b1_def b2_def b3_def n_def Let_def)
  have n8: "d + 8 + n \<le> length buf" using nc l by linarith
  have l1: "length b1 = length buf" by (simp add: b1_def de_defs)
  have l2: "length b2 = length buf" using n8 l1 by (simp add: b2_def)
  have l3: "length b3 = length buf" using l2 by (simp add: b3_def)
  have s1: "same_on 0 d buf b1" "same_on (d + 8) k buf b1" "get16 b1 (d + 4) = get16 buf (d + 4)" for k
    using n8 unfolding b1_def by (auto simp: de_defs same_on_def nth_put16 nth_put32_other get16_def)
  have s2: "same_on 0 (d + 8) b1 b2" "same_on (d + 8 + n) (length buf) b1 b2"
    unfolding b2_def by (rule same_on_strncpy_at; use n8 l1 in auto)+
  have s3: "same_on 0 (d + 6) b2 b3" "same_on (d + 8) k b2 b3" for k
    using n8 l2 unfolding b3_def by (auto simp: de_defs same_on_def nth_put16)
  have up: "same_on 0 d buf b3"
    by (rule same_on_trans [OF s1(1) same_on_trans [OF same_on_mono [OF s2(1)] same_on_mono [OF s3(1)]]]) auto
  have lo: "same_on (d + 8 + n) (length buf) buf b3"
    by (rule same_on_trans [OF same_on_mono [OF s1(2)] same_on_trans [OF s2(2) same_on_mono [OF s3(2)]]]) auto
  have "get16 b3 (d + 4) = get16 b2 (d + 4)" by (rule same_on_get16 [OF s3(1)]) auto
  also have "\<dots> = get16 b1 (d + 4)" by (rule same_on_get16 [OF s2(1)]) auto
  finally have "de_rec_len b3 d = de_rec_len buf d" by (simp add: de_rec_len_def s1(3))
  then have rl: "ext2fs_get_rec_len fs b3 d = c" by (simp add: ext2fs_get_rec_len_def c_def)
  have "get32 b3 d = get32 b2 d" by (rule same_on_get32 [OF s3(1)]) auto
  also have "\<dots> = get32 b1 d" by (rule same_on_get32 [OF s2(1)]) auto
  also have "\<dots> = ls_inode ls" using n8 unfolding b1_def by (simp add: de_defs get32_put16_other get32_put32)
  finally have i: "de_inode b3 d = ls_inode ls" by (simp add: de_inode_def)
  have "get16 b2 (d + 6) = get16 b1 (d + 6)" by (rule same_on_get16 [OF s2(1)]) auto
  then have "get16 b2 (d + 6) AND 0xff = of_nat n AND 0xff"
    using n8 unfolding b1_def by (simp add: de_defs get16_put16 name_len_word)
  then have w: "de_name_len b3 d AND 0xff = of_nat n AND 0xff"
    using n8 l2 unfolding b3_def by (simp add: de_defs get16_put16 name_len_word)
  have n: "ext2fs_dirent_name_len b3 d = n"
    unfolding ext2fs_dirent_name_len_def w by (rule unat_of_nat_ff) (use nm(2) in \<open>simp add: n_def\<close>)
  have "take n (drop (d + 8) b3) = take n (drop (d + 8) b2)"
    by (rule same_on_take_drop [OF s3(2)]) (use n8 l2 l3 in auto)
  also have "\<dots> = ls_name ls" unfolding b2_def n_def nm(1) [symmetric]
    by (rule strncpy_at_name) (use n8 l1 nm(1) in \<open>simp add: n_def\<close>)
  finally have nme: "take n (de_name b3 d) = ls_name ls" by (simp add: de_name_def)
  have ok: "dent_ok fs b3 d" using x nc unfolding dent_ok_def rl n c_def by simp
  have "dir_tiles fs b3 (d + c) (blk_end fs) E"
    by (rule dir_tiles_same [OF tn same_on_mono [OF lo]]) (use nc be len l3 in auto)
  then have tiles: "dir_tiles fs b3 d (blk_end fs) (dent_at fs b3 d # E)" unfolding dir_tiles_cons_iff rl using ok by simp
  have "same_on (blk_end fs) (length buf) buf b3" by (rule same_on_mono [OF lo]) (use le nc in auto)
  then have k: "kept fs d buf b3" using up l3 by (simp add: kept_def)
  have ft: "drop_bit 8 (de_name_len b3 d) = ucast (ls_flags ls AND 7)" if "ext2fs_has_feature_filetype (fs_super fs)"
  proof -
    have "drop_bit 8 (de_name_len b3 d) = take_bit 8 (ucast (ls_flags ls AND 7))"
      using n8 l2 that unfolding b3_def by (simp add: de_defs get16_put16 name_len_word)
    moreover have "ls_flags ls AND 7 \<le> 7" by (rule word_and_le1)
    then have "unat (ls_flags ls AND 7) \<le> 7" by (simp add: word_le_nat_alt)
    then have "unat (ucast (ls_flags ls AND 7) :: u16) < 2 ^ 8"
      by (simp add: unsigned_ucast_eq take_bit_nat_eq_self)
    then have "take_bit 8 (ucast (ls_flags ls AND 7)) = (ucast (ls_flags ls AND 7) :: u16)"
      by (simp only: word_unat_eq_iff unsigned_take_bit_eq take_bit_nat_eq_self)
    ultimately show ?thesis by simp
  qed
  have lv: "dents_live [dent_at fs b3 d] = (if ls_inode ls = 0 then [] else [(ls_inode ls, drop_bit 8 (de_name_len b3 d), ls_name ls)])"
    by (simp add: dent_at_def i n nme)
  show ?thesis by (rule that [unfolded e, OF k tiles lv ft])
qed


section \<open>The walk over a tiled block\<close>

text \<open>The tail with the checksum, if the file system has checksums.\<close>

definition tail_ok :: "'a fs_base_scheme \<Rightarrow> u8 list \<Rightarrow> bool" where
  "tail_ok fs buf \<longleftrightarrow> (csum_len fs = 12 \<longrightarrow> de_inode buf (blk_end fs) = 0 \<and> de_rec_len buf (blk_end fs) = 12
     \<and> de_name_len buf (blk_end fs) = EXT2_DIR_NAME_LEN_CSUM)"

lemma tail_ok_kept:
  assumes "tail_ok fs buf" "kept fs d buf buf'" "length buf = unat (fs_blocksize fs)" "blk_fs fs"
  shows "tail_ok fs buf'"
proof (cases "csum_len fs = 12")
  case True
  then have "same_on (blk_end fs) (blk_end fs + 12) buf buf'" using assms(2,3) blk_end [OF assms(4)] by (simp add: kept_def)
  then show ?thesis using assms(1) unfolding tail_ok_def de_defs by (simp add: same_on_get16 same_on_get32)
qed (simp add: tail_ok_def)

lemma walk_stop:
  "\<not> d < n - 8 \<Longrightarrow> dir_walk f fs inl n c ctx entry d nre ch = Some (ctx, Walk_done, ch)"
  by (subst dir_walk.simps) (rule if_not_P)

lemma walk_tail:
  assumes fs: "blk_fs fs" and tl: "tail_ok fs (dc_buf ctx)" "dc_flags ctx = 0 \<or> dc_flags ctx = DIRENT_FLAG_INCLUDE_EMPTY"
    and d: "d < unat (fs_blocksize fs) - 8" "d = blk_end fs"
  shows "dir_walk f fs False (unat (fs_blocksize fs)) (csum_len fs) ctx entry d nre ch = Some (ctx, Walk_done, ch)"
proof -
  let ?bs = "unat (fs_blocksize fs)"
  note be = blk_end [OF fs] and w = dir_walk.simps [of f fs False ?bs "csum_len fs" ctx entry d nre ch]
  have c: "csum_len fs = 12" using d be by (auto simp: csum_len_def split: if_splits)
  have h: "de_inode (dc_buf ctx) d = 0" "de_rec_len (dc_buf ctx) d = 12" "de_name_len (dc_buf ctx) d = EXT2_DIR_NAME_LEN_CSUM"
    using tl c d(2) by (simp_all add: tail_ok_def)
  have r: "ext2fs_get_rec_len fs (dc_buf ctx) d = 12" by (simp add: ext2fs_get_rec_len_def h(2))
  have nl: "ext2fs_dirent_name_len (dc_buf ctx) d = 0" by (simp add: ext2fs_dirent_name_len_def h(3))
  have e: "d + 12 = ?bs" using d(2) be c by simp
  have sk: "entry_skipped ctx False ?bs (csum_len fs) entry d = (True, entry)"
    using tl(2) e by (auto simp: entry_skipped_def h c Let_def)
  have nx: "next_offset fs ctx d 12 = ?bs" using tl(2) e by (auto simp: next_offset_def Let_def)
  have "dir_walk f fs False ?bs (csum_len fs) ctx entry ?bs nre' ch = Some (ctx, Walk_done, ch)" for nre'
    by (rule walk_stop) linarith
  then show ?thesis using d(1) e unfolding w r nl sk by (simp add: nx)
qed

text \<open>At an entry the callback is called, unless the entry is unused and not asked for.\<close>

definition walk_on :: "'p dir_func \<Rightarrow> 'a fs_base_scheme \<Rightarrow> 'p dir_context \<Rightarrow> nat \<Rightarrow> nat \<Rightarrow> nat \<Rightarrow> bool
    \<Rightarrow> ('p dir_context \<times> walk_end \<times> bool) option" where
  "walk_on f fs ctx entry d nre ch =
    (let bs = unat (fs_blocksize fs); c = ext2fs_get_rec_len fs (dc_buf ctx) d
     in if de_inode (dc_buf ctx) d = 0 \<and> dc_flags ctx = 0
        then dir_walk f fs False bs (csum_len fs) ctx entry (d + c) (if nre = d then nre + c else nre) ch
        else case f (dc_priv ctx) (dc_dir ctx) (if nre > d then DIRENT_DELETED_FILE else entry) (dc_buf ctx) d bs of
          (p, buf, ret) \<Rightarrow>
            let ctx' = ctx\<lparr>dc_buf := buf, dc_priv := p\<rparr>; ch' = (ch \<or> ret AND DIRENT_CHANGED \<noteq> 0);
                l = (if ret AND DIRENT_CHANGED \<noteq> 0 then ext2fs_get_rec_len fs buf d else c)
            in if ret AND DIRENT_ABORT \<noteq> 0 then Some (ctx', Walk_aborted, ch')
               else dir_walk f fs False bs (csum_len fs) ctx'
                 (if entry < DIRENT_OTHER_FILE then entry + 1 else entry) (d + l) (if nre = d then nre + l else nre) ch')"

lemma walk_entry:
  assumes fs: "blk_fs fs" and tl: "dc_flags ctx = 0 \<or> dc_flags ctx = DIRENT_FLAG_INCLUDE_EMPTY"
    and d: "d < unat (fs_blocksize fs) - 8" "d < blk_end fs"
    and t: "dir_tiles fs (dc_buf ctx) d (blk_end fs) E"
  shows "dir_walk f fs False (unat (fs_blocksize fs)) (csum_len fs) ctx entry d nre ch = walk_on f fs ctx entry d nre ch"
proof -
  let ?bs = "unat (fs_blocksize fs)" and ?c = "ext2fs_get_rec_len fs (dc_buf ctx) d"
  note be = blk_end [OF fs] and w = dir_walk.simps [of f fs False ?bs "csum_len fs" ctx entry d nre ch]
  from dir_tiles_split [OF t d(2)] obtain E2 where "dent_ok fs (dc_buf ctx) d"
    and t2: "dir_tiles fs (dc_buf ctx) (d + ?c) (blk_end fs) E2" by blast
  then have c: "(d + ?c > ?bs \<or> ?c < 8 \<or> ?c mod 4 \<noteq> 0 \<or> ext2fs_dirent_name_len (dc_buf ctx) d + 8 > ?c) = False"
    using dir_tiles_le [OF t2] be by (auto simp: dent_ok_def)
  have sk: "entry_skipped ctx False ?bs (csum_len fs) entry d = (de_inode (dc_buf ctx) d = 0 \<and> dc_flags ctx = 0, entry)"
    using d(2) be tl by (auto simp: entry_skipped_def Let_def)
  have nx: "next_offset fs ctx' d l = d + l" if "dc_flags ctx' = dc_flags ctx" for ctx' l
    using tl that by (auto simp: next_offset_def Let_def)
  obtain p b ret where f: "f (dc_priv ctx) (dc_dir ctx) (if nre > d then DIRENT_DELETED_FILE else entry) (dc_buf ctx) d ?bs = (p, b, ret)"
    by (metis surj_pair)
  show ?thesis by (simp only: w walk_on_def d(1) c sk if_True if_False Let_def prod.case f) (simp add: nx)
qed

section \<open>Linking\<close>


definition link_args :: "link_struct \<Rightarrow> bool" where
  "link_args ls \<longleftrightarrow> ls_done ls = 0 \<and> ls_inode ls \<noteq> 0 \<and> length (ls_name ls) = ls_namelen ls
     \<and> 1 \<le> ls_namelen ls \<and> ls_namelen ls < 256"

text \<open>A callback of the walk passes an entry without room, or fills an unused one.\<close>

lemma link_proc_step:
  assumes fs: "blk_fs fs" and len: "length buf = unat (fs_blocksize fs)"
    and t: "dir_tiles fs buf d (blk_end fs) (x # E)" and ls: "link_args ls"
  obtains (pass) buf' ret E' where
    "link_proc fs ls dir entry buf d (unat (fs_blocksize fs)) = (ls\<lparr>ls_err := 0\<rparr>, buf', ret)"
    "ret AND DIRENT_ABORT = 0" "ret AND DIRENT_CHANGED = 0 \<Longrightarrow> buf' = buf" "kept fs d buf buf'"
    "dir_tiles fs buf' d (blk_end fs) (dent_at fs buf' d # E')" "dents_live (dent_at fs buf' d # E') = dents_live (x # E)"
    "dent_room (dent_at fs buf' d) < EXT2_DIR_REC_LEN (ls_namelen ls)"
  | (fill) buf' E' t where
    "link_proc fs ls dir entry buf d (unat (fs_blocksize fs)) = (ls\<lparr>ls_err := 0, ls_done := 1\<rparr>, buf', DIRENT_ABORT OR DIRENT_CHANGED)"
    "kept fs d buf buf'" "dir_tiles fs buf' d (blk_end fs) E'"
    "dents_live E' = (ls_inode ls, t, ls_name ls) # dents_live (x # E)"
    "ext2fs_has_feature_filetype (fs_super fs) \<Longrightarrow> t = ucast (ls_flags ls AND 7)"
proof -
  define need where "need = EXT2_DIR_REC_LEN (ls_namelen ls)"
  from link_absorb_step [OF fs len t] obtain b c j E1 where
    a: "link_absorb fs buf d (unat (fs_blocksize fs)) (ext2fs_get_rec_len fs buf d) = (b, c, j)"
      "j = None \<and> b = buf \<or> j = Some 0" "c = ext2fs_get_rec_len fs b d" "kept fs d buf b"
      "dir_tiles fs b d (blk_end fs) (dent_at fs b d # E1)" "snd (dent_at fs b d) = snd x" "dents_live E1 = dents_live E" .
  have err: "(case j of Some err \<Rightarrow> err | None \<Rightarrow> 0) = 0" using a(2) by auto
  have n: "need mod 4 = 0" "ls_namelen ls + 8 \<le> need"
    unfolding need_def using ls dir_rec_len_bounds by (auto simp: link_args_def)
  have lenb: "length b = unat (fs_blocksize fs)" using a(4) len by (simp add: kept_def)
  define m where "m = EXT2_DIR_REC_LEN (ext2fs_dirent_name_len b d)"
  have m8: "8 \<le> m" unfolding m_def using dir_rec_len_bounds(1) [OF name_len_lt, of b d] by simp
  have lv: "dents_live (dent_at fs b d # E1) = dents_live (x # E)"
    using a(6,7) by (cases x; cases "dent_at fs b d") simp
  note p = link_proc_def [of fs ls dir entry buf d "unat (fs_blocksize fs)"]
  show ?thesis
  proof (cases "de_inode b d = 0")
    case False
    have room: "dent_room (dent_at fs b d) = c - m"
      using False by (simp add: dent_at_def m_def ext2fs_dirent_name_len_def a(3))
    show ?thesis
    proof (cases "c < m + need")
      case True
      then have "c - m < need" using n(2) by linarith
      then show ?thesis
        by (intro pass [OF _ _ _ a(4,5) lv])
          (use ls False True a(1,2) in \<open>auto simp: p err room need_def [symmetric] m_def [symmetric] link_args_def Let_def\<close>)
    next
      case split: False
      have mc: "m + 8 \<le> ext2fs_get_rec_len fs b d" using split n(2) unfolding a(3) by linarith
      from link_split_step [OF fs lenb a(5) m_def mc] obtain b2 where
        s: "link_split fs b d m (ext2fs_get_rec_len fs b d - m) = (b2, 0)" "kept fs d b b2" "ext2fs_get_rec_len fs b2 d = m"
          "dir_tiles fs b2 d (blk_end fs) (dent_at fs b2 d # (ext2fs_get_rec_len fs b d - m, 0, 0, []) # E1)"
          "snd (dent_at fs b2 d) = snd (dent_at fs b d)" .
      have "dent_room (dent_at fs b2 d) = 0"
        using s(3,5) False by (auto simp: dent_at_def m_def ext2fs_dirent_name_len_def)
      moreover have "dents_live (dent_at fs b2 d # (ext2fs_get_rec_len fs b d - m, 0, 0, []) # E1) = dents_live (x # E)"
        using s(5) lv by (cases "dent_at fs b2 d"; cases "dent_at fs b d") (simp split: if_splits)
      ultimately show ?thesis
        by (intro pass [OF _ _ _ kept_trans [OF a(4) s(2)] s(4)])
          (use ls False split a(1,3) s(1) m8 n(2) in \<open>auto simp: p err need_def [symmetric] m_def [symmetric] link_args_def Let_def\<close>)
    qed
  next
    case True
    show ?thesis
    proof (cases "c < need")
      case small: True
      have room: "dent_room (dent_at fs b d) = c" using True by (simp add: dent_at_def a(3))
      show ?thesis
        by (rule pass [OF _ _ _ a(4,5) lv])
          (use ls True small a(1,2) in \<open>auto simp: p err room need_def [symmetric] link_args_def Let_def\<close>)
    next
      case False
      define ls' where "ls' = ls\<lparr>ls_err := 0\<rparr>"
      have ls': "length (ls_name ls') = ls_namelen ls'" "ls_namelen ls' < 256" "ls_namelen ls' + 8 \<le> ext2fs_get_rec_len fs b d"
        using ls n(2) False a(3) by (auto simp: ls'_def link_args_def)
      from link_fill_step [OF fs lenb a(5) ls'] obtain t where
        f: "kept fs d b (link_fill fs ls' b d)"
          "dir_tiles fs (link_fill fs ls' b d) d (blk_end fs) (dent_at fs (link_fill fs ls' b d) d # E1)"
          "dents_live [dent_at fs (link_fill fs ls' b d) d] = (if ls_inode ls' = 0 then [] else [(ls_inode ls', t, ls_name ls')])"
          "ext2fs_has_feature_filetype (fs_super fs) \<Longrightarrow> t = ucast (ls_flags ls' AND 7)" by metis
      have "dents_live (dent_at fs (link_fill fs ls' b d) d # E1) = dents_live [dent_at fs (link_fill fs ls' b d) d] @ dents_live E1"
        by (metis append_Cons append_Nil dents_live_simps(3))
      moreover have "dents_live E1 = dents_live (x # E)"
        using lv True by (simp add: dent_at_def)
      ultimately have l: "dents_live (dent_at fs (link_fill fs ls' b d) d # E1) = (ls_inode ls, t, ls_name ls) # dents_live (x # E)"
        using f(3) ls by (simp add: ls'_def link_args_def)
      show ?thesis
        by (rule fill [OF _ kept_trans [OF a(4) f(1)] f(2) l])
          (use ls True False a(1,2) f(4) in \<open>auto simp: p err ls'_def need_def [symmetric] link_args_def Let_def\<close>)
    qed
  qed
qed


text \<open>What a walk with \<open>link_proc\<close> leaves behind, from a block whose entries in use were \<open>L\<close>.\<close>

definition linked :: "'a fs_base_scheme \<Rightarrow> link_struct dir_context \<Rightarrow> bool \<Rightarrow> (u32 \<times> u16 \<times> u8 list) list
    \<Rightarrow> link_struct dir_context \<times> walk_end \<times> bool \<Rightarrow> bool" where
  "linked fs ctx ch0 L = (\<lambda>(ctx', w, ch).
     let ls = dc_priv ctx; ls' = dc_priv ctx'
     in \<exists>E'. dir_tiles fs (dc_buf ctx') 0 (blk_end fs) E' \<and> kept fs 0 (dc_buf ctx) (dc_buf ctx')
       \<and> dc_errcode ctx' = dc_errcode ctx \<and> ls_err ls' = 0 \<and> (ch0 \<longrightarrow> ch) \<and> (ch \<or> dc_buf ctx' = dc_buf ctx)
       \<and> (if ls_done ls' = 0
          then w = Walk_done \<and> dents_live E' = L \<and> (\<forall>x \<in> set E'. dent_room x < EXT2_DIR_REC_LEN (ls_namelen ls))
          else w = Walk_aborted \<and> ch \<and> (\<exists>L1 L2 t. L = L1 @ L2 \<and> dents_live E' = L1 @ (ls_inode ls, t, ls_name ls) # L2
            \<and> (ext2fs_has_feature_filetype (fs_super fs) \<longrightarrow> t = ucast (ls_flags ls AND 7)))))"

lemma link_walk:
  assumes fs: "blk_fs fs" and ls: "link_args (dc_priv ctx)" "ls_err (dc_priv ctx) = 0" and fl: "dc_flags ctx = DIRENT_FLAG_INCLUDE_EMPTY"
    and len: "length (dc_buf ctx) = unat (fs_blocksize fs)" and tl: "tail_ok fs (dc_buf ctx)"
    and pre: "dir_tiles fs (dc_buf ctx) 0 d P" "\<forall>x \<in> set P. dent_room x < EXT2_DIR_REC_LEN (ls_namelen (dc_priv ctx))"
    and t: "dir_tiles fs (dc_buf ctx) d (blk_end fs) E"
  shows "\<exists>r. dir_walk (link_proc fs) fs False (unat (fs_blocksize fs)) (csum_len fs) ctx entry d nre ch = Some r
    \<and> linked fs ctx ch (dents_live (P @ E)) r"
  using assms(2-)
proof (induction "unat (fs_blocksize fs) - d" arbitrary: ctx d P E entry nre ch rule: less_induct)
  case less
  let ?bs = "unat (fs_blocksize fs)" and ?need = "EXT2_DIR_REC_LEN (ls_namelen (dc_priv ctx))"
  note be = blk_end [OF fs]
  have dle: "d \<le> blk_end fs" by (rule dir_tiles_le [OF less.prems(8)])
  have n: "ls_namelen (dc_priv ctx) + 8 \<le> ?need" "?need mod 4 = 0"
    using dir_rec_len_bounds less.prems(1) by (auto simp: link_args_def)
  then have n12: "9 \<le> ?need" using less.prems(1) by (auto simp: link_args_def)
  consider (tail) "d < ?bs - 8" "d = blk_end fs" | (entry) "d < ?bs - 8" "d < blk_end fs" | (stop) "\<not> d < ?bs - 8"
    using dle by linarith
  then show ?case
  proof cases
    case stop
    have "dent_room x < ?need" if x: "x \<in> set E" for x
    proof -
      obtain y E2 where E: "E = y # E2" using x by (cases E) auto
      then have y: "dent_ok fs (dc_buf ctx) d" "y = dent_at fs (dc_buf ctx) d"
        and t2: "dir_tiles fs (dc_buf ctx) (d + ext2fs_get_rec_len fs (dc_buf ctx) d) (blk_end fs) E2"
        using less.prems(8) by (auto simp: dir_tiles_cons_iff)
      have le: "d + ext2fs_get_rec_len fs (dc_buf ctx) d \<le> blk_end fs" by (rule dir_tiles_le [OF t2])
      then have r8: "ext2fs_get_rec_len fs (dc_buf ctx) d = 8" "d + 8 = blk_end fs"
        using y(1) stop be by (auto simp: dent_ok_def)
      then have "E2 = []" using t2 by (auto dest: dir_tiles_empty)
      moreover have "dent_room y \<le> 8" unfolding y(2) dent_at_def r8(1) by simp
      ultimately show ?thesis using x E n12 by auto
    qed
    then have "\<forall>x \<in> set (P @ E). dent_room x < ?need" using less.prems(7) by auto
    moreover have "dir_tiles fs (dc_buf ctx) 0 (blk_end fs) (P @ E)" by (rule dir_tiles_append [OF less.prems(6,8)])
    ultimately have "linked fs ctx ch (dents_live (P @ E)) (ctx, Walk_done, ch)"
      using less.prems(1,2) unfolding linked_def Let_def split link_args_def by (intro exI [of _ "P @ E"]) simp
    then show ?thesis using walk_stop [OF stop] by blast
  next
    case tail
    have E: "E = []" using less.prems(8) tail(2) by (auto dest: dir_tiles_empty)
    have "dir_walk (link_proc fs) fs False ?bs (csum_len fs) ctx entry d nre ch = Some (ctx, Walk_done, ch)"
      by (rule walk_tail [OF fs less.prems(5) _ tail]) (use less.prems(3) in simp)
    moreover have "linked fs ctx ch (dents_live (P @ E)) (ctx, Walk_done, ch)"
      using less.prems tail(2) E unfolding linked_def Let_def split link_args_def by (intro exI [of _ "P @ E"]) simp
    ultimately show ?thesis by simp
  next
    case entry
    from dir_tiles_split [OF less.prems(8) entry(2)] obtain E2 where E: "E = dent_at fs (dc_buf ctx) d # E2"
      and ok: "dent_ok fs (dc_buf ctx) d" and t2: "dir_tiles fs (dc_buf ctx) (d + ext2fs_get_rec_len fs (dc_buf ctx) d) (blk_end fs) E2"
      by blast
    let ?c = "ext2fs_get_rec_len fs (dc_buf ctx) d"
    have fl: "dc_flags ctx = 0 \<or> dc_flags ctx = DIRENT_FLAG_INCLUDE_EMPTY" "dc_flags ctx \<noteq> 0" using less.prems(3) by simp_all
    note w = walk_entry [OF fs fl(1) entry less.prems(8), of "link_proc fs" entry nre ch]
    let ?kind = "if nre > d then DIRENT_DELETED_FILE else entry"
    show ?thesis
    proof (cases rule: link_proc_step [OF fs less.prems(4) less.prems(8) [unfolded E] less.prems(1), of "dc_dir ctx" ?kind, case_names pass fill])
      case (pass b ret E')
      define ctx' where "ctx' = ctx\<lparr>dc_buf := b, dc_priv := (dc_priv ctx)\<lparr>ls_err := 0\<rparr>\<rparr>"
      let ?c' = "ext2fs_get_rec_len fs b d"
      let ?ch = "ch \<or> ret AND DIRENT_CHANGED \<noteq> 0"
      have l: "(if ret AND DIRENT_CHANGED \<noteq> 0 then ?c' else ?c) = ?c'" using pass(3) by auto
      have step: "\<exists>entry' nre'. dir_walk (link_proc fs) fs False ?bs (csum_len fs) ctx entry d nre ch
          = dir_walk (link_proc fs) fs False ?bs (csum_len fs) ctx' entry' (d + ?c') nre' ?ch"
        using pass(1,2) fl(2) unfolding w by (simp add: walk_on_def Let_def l [unfolded not_not] ctx'_def) blast
      have t': "dir_tiles fs b d (blk_end fs) (dent_at fs b d # E')" by (rule pass(5))
      have P': "dir_tiles fs b 0 d P"
        by (rule dir_tiles_same [OF less.prems(6)]) (use pass(4) dle be less.prems(4) in \<open>auto simp: kept_def\<close>)
      have one: "dir_tiles fs b d (d + ?c') [dent_at fs b d]"
        using t' by (auto simp: dir_tiles_cons_iff intro: dir_tiles.nil)
      have c8: "8 \<le> ?c'" using t' by (auto simp: dir_tiles_cons_iff dent_ok_def)
      have "\<exists>r. dir_walk (link_proc fs) fs False ?bs (csum_len fs) ctx' entry' (d + ?c') nre' ?ch = Some r
          \<and> linked fs ctx' ?ch (dents_live ((P @ [dent_at fs b d]) @ E')) r" for entry' nre'
      proof (rule less.hyps)
        show "?bs - (d + ?c') < ?bs - d" using c8 entry by simp
        show "dir_tiles fs (dc_buf ctx') 0 (d + ?c') (P @ [dent_at fs b d])"
          using dir_tiles_append [OF P' one] by (simp add: ctx'_def)
        show "tail_ok fs (dc_buf ctx')" using tail_ok_kept [OF less.prems(5) pass(4) less.prems(4) fs] by (simp add: ctx'_def)
        show "dir_tiles fs (dc_buf ctx') (d + ?c') (blk_end fs) E'" using t' by (simp add: dir_tiles_cons_iff ctx'_def)
      qed (use less.prems pass(4,7) in \<open>auto simp: ctx'_def link_args_def kept_def\<close>)
      moreover have "dents_live ((P @ [dent_at fs b d]) @ E') = dents_live (P @ E)"
        using pass(6) E by (metis append.assoc append_Cons append_Nil dents_live_simps(3))
      moreover have "linked fs ctx ch L r" if r: "linked fs ctx' ?ch L r" for L r
      proof -
        have k: "kept fs 0 (dc_buf ctx) b" using pass(4) by (auto simp: kept_def intro: same_on_mono)
        have k: "kept fs 0 (dc_buf ctx) b'" if "kept fs 0 b b'" for b' by (rule kept_trans [OF k that]) simp
        have b: "ret AND DIRENT_CHANGED \<noteq> 0 \<or> b = dc_buf ctx" using pass(3) by blast
        have "(dc_priv ctx)\<lparr>ls_err := 0\<rparr> = dc_priv ctx" using less.prems(2) by (cases "dc_priv ctx") simp
        then have e: "dc_errcode ctx' = dc_errcode ctx" "dc_buf ctx' = b" "dc_priv ctx' = dc_priv ctx" by (simp_all add: ctx'_def)
        obtain c w x where r3: "r = (c, w, x)" by (cases r)
        show ?thesis using r unfolding r3 linked_def Let_def split e
          by (elim exE, intro exI, elim conjE, intro conjI) (assumption | rule k | use b in blast)+
      qed
      ultimately show ?thesis using step by metis
    next
      case (fill b E' t)
      have wd: "dir_walk (link_proc fs) fs False ?bs (csum_len fs) ctx entry d nre ch
          = Some (ctx\<lparr>dc_buf := b, dc_priv := (dc_priv ctx)\<lparr>ls_err := 0, ls_done := 1\<rparr>\<rparr>, Walk_aborted, True)"
        using fill(1) fl(2) unfolding w by (simp add: walk_on_def Let_def)
      have P': "dir_tiles fs b 0 d P"
        by (rule dir_tiles_same [OF less.prems(6)]) (use fill(2) dle be less.prems(4) in \<open>auto simp: kept_def\<close>)
      have "dents_live (P @ E') = dents_live P @ (ls_inode (dc_priv ctx), t, ls_name (dc_priv ctx)) # dents_live E"
        using fill(4) E by simp
      moreover have "kept fs 0 (dc_buf ctx) b" using fill(2) by (auto simp: kept_def intro: same_on_mono)
      moreover have "dir_tiles fs b 0 (blk_end fs) (P @ E')" by (rule dir_tiles_append [OF P' fill(3)])
      moreover have "\<exists>L1 L2 t. dents_live (P @ E) = L1 @ L2 \<and> dents_live (P @ E') = L1 @ (ls_inode (dc_priv ctx), t, ls_name (dc_priv ctx)) # L2
          \<and> (ext2fs_has_feature_filetype (fs_super fs) \<longrightarrow> t = ucast (ls_flags (dc_priv ctx) AND 7))"
        by (rule exI [of _ "dents_live P"], rule exI [of _ "dents_live E"], rule exI [of _ t]) (use fill(4,5) E in simp)
      ultimately have "linked fs ctx ch (dents_live (P @ E))
          (ctx\<lparr>dc_buf := b, dc_priv := (dc_priv ctx)\<lparr>ls_err := 0, ls_done := 1\<rparr>\<rparr>, Walk_aborted, True)"
        unfolding linked_def Let_def split by (intro exI [of _ "P @ E'"]) simp
      then show ?thesis unfolding wd by blast
    qed
  qed
qed

end
