(* ===== verification/Dir_Theorems.thy ===== *)
theory Dir_Theorems
  imports Link Fs_Examples
begin

text \<open>
  Properties of directory blocks: linking a name keeps the block tiled and adds exactly one entry, and a
  lookup returns the first entry in use with the name.
\<close>

section \<open>Names\<close>

text \<open>A name of C characters has no zero, so that \<open>strncmp\<close> compares all of it.\<close>

lemma strncmp_eq_name:
  "0 \<notin> set s \<Longrightarrow> strncmp_eq s t (length s) \<longleftrightarrow> take (length s) t = s"
  by (induction s arbitrary: t) (case_tac t; auto)+

text \<open>What \<open>lookup_proc\<close> looks for among the entries in use.\<close>

definition lookup_result :: "lookup_struct \<Rightarrow> (u32 \<times> u16 \<times> u8 list) list \<Rightarrow> lookup_struct \<times> walk_end" where
  "lookup_result lk L = (case List.find (\<lambda>(i, t, s). s = lk_name lk) L of
     None \<Rightarrow> (lk, Walk_done)
   | Some (i, t, s) \<Rightarrow> (lk\<lparr>lk_inode := i, lk_found := 1\<rparr>, Walk_aborted))"

definition lookup_args :: "lookup_struct \<Rightarrow> bool" where
  "lookup_args lk \<longleftrightarrow> lk_found lk = 0 \<and> lk_len lk = int (length (lk_name lk)) \<and> 0 \<notin> set (lk_name lk) \<and> lk_name lk \<noteq> []"

lemma lookup_proc_step:
  assumes "lookup_args lk"
  shows "lookup_proc lk dir entry buf d n =
    (if take (ext2fs_dirent_name_len buf d) (de_name buf d) = lk_name lk \<and> length (lk_name lk) = ext2fs_dirent_name_len buf d
     then (lk\<lparr>lk_inode := de_inode buf d, lk_found := 1\<rparr>, buf, DIRENT_ABORT) else (lk, buf, 0))"
proof (cases "lk_len lk = int (ext2fs_dirent_name_len buf d)")
  case True
  then have l: "ext2fs_dirent_name_len buf d = length (lk_name lk)" using assms by (simp add: lookup_args_def)
  show ?thesis using assms True strncmp_eq_name [of "lk_name lk" "de_name buf d"]
    unfolding lookup_proc_def l Let_def by (simp add: lookup_args_def)
next
  case False
  then have "length (lk_name lk) \<noteq> ext2fs_dirent_name_len buf d" using assms by (simp add: lookup_args_def)
  then show ?thesis using False by (simp add: lookup_proc_def)
qed

lemma lookup_none: "\<forall>x \<in> set L. snd (snd x) \<noteq> lk_name lk \<Longrightarrow> lookup_result lk L = (lk, Walk_done)"
proof -
  assume "\<forall>x \<in> set L. snd (snd x) \<noteq> lk_name lk"
  then have "List.find (\<lambda>(i, t, s). s = lk_name lk) L = None" by (auto simp: find_None_iff)
  then show ?thesis by (simp add: lookup_result_def)
qed

lemma lookup_walk:
  assumes fs: "blk_fs fs" and "lookup_args (dc_priv ctx)" "dc_flags ctx = 0"
    and "length (dc_buf ctx) = unat (fs_blocksize fs)" "tail_ok fs (dc_buf ctx)"
    and "dir_tiles fs (dc_buf ctx) d (blk_end fs) E"
  shows "dir_walk lookup_proc fs False (unat (fs_blocksize fs)) (csum_len fs) ctx entry d nre False
    = Some (ctx\<lparr>dc_priv := fst (lookup_result (dc_priv ctx) (dents_live E))\<rparr>, snd (lookup_result (dc_priv ctx) (dents_live E)), False)"
  using assms(2-)
proof (induction "unat (fs_blocksize fs) - d" arbitrary: d E entry nre rule: less_induct)
  case less
  let ?bs = "unat (fs_blocksize fs)" and ?buf = "dc_buf ctx" and ?lk = "dc_priv ctx"
  note be = blk_end [OF fs]
  have fl: "dc_flags ctx = 0 \<or> dc_flags ctx = DIRENT_FLAG_INCLUDE_EMPTY" using less.prems(2) by simp
  have dle: "d \<le> blk_end fs" by (rule dir_tiles_le [OF less.prems(5)])
  have name: "lk_name ?lk \<noteq> []" using less.prems(1) by (simp add: lookup_args_def)
  consider (tail) "d < ?bs - 8" "d = blk_end fs" | (entry) "d < ?bs - 8" "d < blk_end fs" | (stop) "\<not> d < ?bs - 8"
    using dle by linarith
  then show ?case
  proof cases
    case stop
    have "lookup_result ?lk (dents_live E) = (?lk, Walk_done)"
    proof (cases E)
      case (Cons y E2)
      then have y: "dent_ok fs ?buf d" "y = dent_at fs ?buf d"
        and t2: "dir_tiles fs ?buf (d + ext2fs_get_rec_len fs ?buf d) (blk_end fs) E2"
        using less.prems(5) by (auto simp: dir_tiles_cons_iff)
      have le: "d + ext2fs_get_rec_len fs ?buf d \<le> blk_end fs" by (rule dir_tiles_le [OF t2])
      then have r8: "ext2fs_get_rec_len fs ?buf d = 8" "d + 8 = blk_end fs" using y(1) stop be by (auto simp: dent_ok_def)
      then have "E2 = []" using t2 by (auto dest: dir_tiles_empty)
      moreover have "ext2fs_dirent_name_len ?buf d = 0" using y(1) r8 by (simp add: dent_ok_def)
      ultimately show ?thesis using Cons y(2) name by (intro lookup_none) (simp add: dent_at_def)
    qed (simp add: lookup_none)
    then show ?thesis using walk_stop [OF stop] by simp
  next
    case tail
    have "E = []" using less.prems(5) tail(2) by (auto dest: dir_tiles_empty)
    then show ?thesis using walk_tail [OF fs less.prems(4) fl tail] by (simp add: lookup_none)
  next
    case entry
    from dir_tiles_split [OF less.prems(5) entry(2)] obtain E2 where E: "E = dent_at fs ?buf d # E2"
      and ok: "dent_ok fs ?buf d" and t2: "dir_tiles fs ?buf (d + ext2fs_get_rec_len fs ?buf d) (blk_end fs) E2"
      by blast
    let ?c = "ext2fs_get_rec_len fs ?buf d" and ?name = "take (ext2fs_dirent_name_len ?buf d) (de_name ?buf d)"
    have "?bs - (d + ?c) < ?bs - d" using ok entry unfolding dent_ok_def by (intro diff_less_mono2) auto
    note IH = less.hyps [OF this less.prems(1-4) t2]
    note w = walk_entry [OF fs fl entry less.prems(5), of lookup_proc _ nre False]
    have "ext2fs_dirent_name_len ?buf d + 8 \<le> ?c" using ok by (simp add: dent_ok_def)
    then have "d + 8 + ext2fs_dirent_name_len ?buf d \<le> length ?buf" using dir_tiles_le [OF t2] be less.prems(3) by linarith
    then have len: "length ?name = ext2fs_dirent_name_len ?buf d" by (simp add: de_name_def)
    show ?thesis
    proof (cases "de_inode ?buf d = 0")
      case True
      then have "dents_live E = dents_live E2" by (simp add: E dent_at_def)
      then show ?thesis unfolding w walk_on_def using True less.prems(2) by (simp add: Let_def IH)
    next
      case False
      have l: "dents_live E = (de_inode ?buf d, drop_bit 8 (de_name_len ?buf d), ?name) # dents_live E2"
        using False by (simp add: E dent_at_def)
      show ?thesis
      proof (cases "?name = lk_name ?lk")
        case True
        then have "lookup_result ?lk (dents_live E) = (?lk\<lparr>lk_inode := de_inode ?buf d, lk_found := 1\<rparr>, Walk_aborted)"
          by (simp add: lookup_result_def l)
        then show ?thesis using False True len
          unfolding w walk_on_def lookup_proc_step [OF less.prems(1)] by (simp add: Let_def)
      next
        case neq: False
        then have "lookup_result ?lk (dents_live E) = lookup_result ?lk (dents_live E2)" by (simp add: lookup_result_def l)
        then show ?thesis using False neq
          unfolding w walk_on_def lookup_proc_step [OF less.prems(1)] by (simp add: Let_def IH)
      qed
    qed
  qed
qed

text \<open>The two outcomes of a walk with \<open>link_proc\<close> over a whole block.\<close>

lemma link_result:
  assumes "blk_fs fs" "length (dc_buf ctx) = unat (fs_blocksize fs)" "tail_ok fs (dc_buf ctx)"
    and "dir_tiles fs (dc_buf ctx) 0 (blk_end fs) E"
    and "dc_flags ctx = DIRENT_FLAG_INCLUDE_EMPTY" "link_args (dc_priv ctx)" "ls_err (dc_priv ctx) = 0"
  obtains (none) ctx' ch E' where
      "dir_walk (link_proc fs) fs False (unat (fs_blocksize fs)) (csum_len fs) ctx entry 0 0 False = Some (ctx', Walk_done, ch)"
      "dir_tiles fs (dc_buf ctx') 0 (blk_end fs) E'" "kept fs 0 (dc_buf ctx) (dc_buf ctx')" "ch \<or> dc_buf ctx' = dc_buf ctx"
      "ls_done (dc_priv ctx') = 0" "dents_live E' = dents_live E"
      "\<forall>x \<in> set E'. dent_room x < EXT2_DIR_REC_LEN (ls_namelen (dc_priv ctx))"
    | (put) ctx' E' L1 L2 t where
      "dir_walk (link_proc fs) fs False (unat (fs_blocksize fs)) (csum_len fs) ctx entry 0 0 False = Some (ctx', Walk_aborted, True)"
      "dir_tiles fs (dc_buf ctx') 0 (blk_end fs) E'" "kept fs 0 (dc_buf ctx) (dc_buf ctx')" "ls_done (dc_priv ctx') \<noteq> 0"
      "dents_live E = L1 @ L2" "dents_live E' = L1 @ (ls_inode (dc_priv ctx), t, ls_name (dc_priv ctx)) # L2"
      "ext2fs_has_feature_filetype (fs_super fs) \<longrightarrow> t = ucast (ls_flags (dc_priv ctx) AND 7)"
proof -
  have P: "dir_tiles fs (dc_buf ctx) 0 0 []" by (rule dir_tiles.nil)
  obtain r where r: "dir_walk (link_proc fs) fs False (unat (fs_blocksize fs)) (csum_len fs) ctx entry 0 0 False = Some r"
    and l: "linked fs ctx False (dents_live E) r"
    using link_walk [OF assms(1,6,7,5,2,3) P _ assms(4), of entry 0 False] by auto
  obtain ctx' w ch where e: "r = (ctx', w, ch)" by (cases r)
  note r = r [unfolded e]
  obtain E' where k: "dir_tiles fs (dc_buf ctx') 0 (blk_end fs) E'" "kept fs 0 (dc_buf ctx) (dc_buf ctx')"
    "ch \<or> dc_buf ctx' = dc_buf ctx"
    and o: "if ls_done (dc_priv ctx') = 0
     then w = Walk_done \<and> dents_live E' = dents_live E \<and> (\<forall>x \<in> set E'. dent_room x < EXT2_DIR_REC_LEN (ls_namelen (dc_priv ctx)))
     else w = Walk_aborted \<and> ch \<and> (\<exists>L1 L2 t. dents_live E = L1 @ L2 \<and> dents_live E' = L1 @ (ls_inode (dc_priv ctx), t, ls_name (dc_priv ctx)) # L2
       \<and> (ext2fs_has_feature_filetype (fs_super fs) \<longrightarrow> t = ucast (ls_flags (dc_priv ctx) AND 7)))"
    using l unfolding e linked_def Let_def split by iprover
  show ?thesis
  proof (cases "ls_done (dc_priv ctx') = 0")
    case True
    then show ?thesis using o r k by (intro none [of ctx' ch E']) simp_all
  next
    case False
    with o obtain L1 L2 t where "w = Walk_aborted" "ch" "dents_live E = L1 @ L2"
      "dents_live E' = L1 @ (ls_inode (dc_priv ctx), t, ls_name (dc_priv ctx)) # L2"
      "ext2fs_has_feature_filetype (fs_super fs) \<longrightarrow> t = ucast (ls_flags (dc_priv ctx) AND 7)"
      by (simp only: if_False) iprover
    then show ?thesis using False r k(1,2) by (intro put [of ctx' E' L1 L2 t]) simp_all
  qed
qed

section \<open>Properties\<close>

text \<open>
  C40. Linking a name of 1 to 255 characters into a well-formed directory block keeps it well-formed and
  leaves the checksum tail alone. Either no entry of the block has room for the name, and the entries in use
  are the old ones; or the new entry stands among the old ones, with its inode, name and, under the
  \<open>filetype\<close> feature, its type.
\<close>

theorem link_block:
  assumes "blk_fs fs" "length (dc_buf ctx) = unat (fs_blocksize fs)" "tail_ok fs (dc_buf ctx)"
    and "dir_tiles fs (dc_buf ctx) 0 (blk_end fs) E"
    and "dc_flags ctx = DIRENT_FLAG_INCLUDE_EMPTY" "link_args (dc_priv ctx)" "ls_err (dc_priv ctx) = 0"
  shows "\<exists>ctx' w ch E'. dir_walk (link_proc fs) fs False (unat (fs_blocksize fs)) (csum_len fs) ctx entry 0 0 False = Some (ctx', w, ch)
    \<and> dir_tiles fs (dc_buf ctx') 0 (blk_end fs) E' \<and> same_on (blk_end fs) (length (dc_buf ctx)) (dc_buf ctx) (dc_buf ctx')
    \<and> length (dc_buf ctx') = length (dc_buf ctx) \<and> (ch \<or> dc_buf ctx' = dc_buf ctx)
    \<and> (if ls_done (dc_priv ctx') = 0
       then dents_live E' = dents_live E \<and> (\<forall>x \<in> set E'. dent_room x < EXT2_DIR_REC_LEN (ls_namelen (dc_priv ctx)))
       else ch \<and> (\<exists>L1 L2 t. dents_live E = L1 @ L2 \<and> dents_live E' = L1 @ (ls_inode (dc_priv ctx), t, ls_name (dc_priv ctx)) # L2
         \<and> (ext2fs_has_feature_filetype (fs_super fs) \<longrightarrow> t = ucast (ls_flags (dc_priv ctx) AND 7))))"
  proof (cases rule: link_result [OF assms, of entry, case_names none put])
  case (none ctx' ch E')
  then show ?thesis by (intro exI [of _ ctx'] exI [of _ Walk_done] exI [of _ ch] exI [of _ E']) (simp add: kept_def)
next
  case (put ctx' E' L1 L2 t)
  then have "\<exists>L1 L2 t. dents_live E = L1 @ L2 \<and> dents_live E' = L1 @ (ls_inode (dc_priv ctx), t, ls_name (dc_priv ctx)) # L2
      \<and> (ext2fs_has_feature_filetype (fs_super fs) \<longrightarrow> t = ucast (ls_flags (dc_priv ctx) AND 7))" by blast
  with put(1-4) show ?thesis
    by (intro exI [of _ ctx'] exI [of _ Walk_aborted] exI [of _ True] exI [of _ E']) (simp add: kept_def)
qed

text \<open>A block of 1 KB with one unused entry, and the name \<open>a\<close>.\<close>

definition ex_block :: "u8 list" where
  "ex_block = [0, 0, 0, 0, 0, 4, 0, 0] @ replicate 1016 0"

definition ex_link :: "link_struct dir_context" where
  "ex_link = \<lparr>dc_dir = 2, dc_flags = 1, dc_buf = ex_block, dc_buflen = 0, dc_errcode = 0,
     dc_priv = \<lparr>ls_name = [0x61], ls_namelen = 1, ls_inode = 12, ls_flags = 1, ls_done = 0, ls_blocksize = 1024, ls_err = 0\<rparr>\<rparr>"

lemma ex_block:
  "blk_fs ex_fs" "length ex_block = unat (fs_blocksize ex_fs)" "csum_len ex_fs = 0" "blk_end ex_fs = 1024"
  "dir_tiles ex_fs ex_block 0 1024 [(1024, 0, 0, [])]" "tail_ok ex_fs ex_block"
proof -
  show b: "blk_fs ex_fs" "length ex_block = unat (fs_blocksize ex_fs)" by (simp_all add: blk_fs_def ex_fs_simps ex_block_def)
  show c: "csum_len ex_fs = 0" by (simp add: csum_len_def has_feature_ro_compat_def ex_super_def zero_super_def)
  then show "blk_end ex_fs = 1024" "tail_ok ex_fs ex_block" by (simp_all add: blk_end_def ex_fs_simps tail_ok_def)
  have d: "de_inode ex_block 0 = 0" "de_name_len ex_block 0 = 0" "de_rec_len ex_block 0 = 1024"
    by (simp_all add: de_defs get32_def get16_def ex_block_def)
  then have r: "ext2fs_get_rec_len ex_fs ex_block 0 = 1024" by (simp add: ext2fs_get_rec_len_def ex_fs_simps)
  show "dir_tiles ex_fs ex_block 0 1024 [(1024, 0, 0, [])]"
    by (simp add: dir_tiles_cons_iff dir_tiles_nil_iff dent_ok_def dent_at_def r d ext2fs_dirent_name_len_def)
qed

theorem link_block_witness:
  "\<exists>ctx' w ch E'. dir_walk (link_proc ex_fs) ex_fs False 1024 0 ex_link 3 0 0 False = Some (ctx', w, ch)
    \<and> dir_tiles ex_fs (dc_buf ctx') 0 1024 E'
    \<and> (ls_done (dc_priv ctx') = 0 \<and> dents_live E' = [] \<or> (\<exists>t. dents_live E' = [(12, t, [0x61])]))"
proof -
  have "dc_flags ex_link = DIRENT_FLAG_INCLUDE_EMPTY" "link_args (dc_priv ex_link)" "ls_err (dc_priv ex_link) = 0" "dc_buf ex_link = ex_block"
    by (simp_all add: ex_link_def link_args_def)
  note a = this
  obtain ctx' w ch E' where "dir_walk (link_proc ex_fs) ex_fs False 1024 0 ex_link 3 0 0 False = Some (ctx', w, ch)"
    "dir_tiles ex_fs (dc_buf ctx') 0 1024 E'"
    "if ls_done (dc_priv ctx') = 0 then dents_live E' = dents_live [(1024, 0, 0, [])] \<and> True
     else (\<exists>L1 L2 t. dents_live [(1024, 0, 0, [])] = L1 @ L2 \<and> dents_live E' = L1 @ (ls_inode (dc_priv ex_link), t, ls_name (dc_priv ex_link)) # L2)"
    using link_block [where ctx = ex_link and fs = ex_fs and entry = 3, unfolded a(4) ex_block(3,4), OF ex_block(1,2,6,5) a(1-3)]
    by (simp add: ex_fs_simps) (metis (no_types))
  then show ?thesis by (auto simp: ex_link_def split: if_splits)
qed

text \<open>
  C24. A name that \<open>ext2fs_link\<close> has put into a directory block is found there by the walk of
  \<open>ext2fs_lookup\<close>: with the inode it was linked to, unless an entry in front of it has the same name. A name
  that is not in the block is not found, and the lookup changes nothing in the block.
\<close>

theorem link_then_lookup:
  assumes "blk_fs fs" "length (dc_buf ctx) = unat (fs_blocksize fs)" "tail_ok fs (dc_buf ctx)"
    and "dir_tiles fs (dc_buf ctx) 0 (blk_end fs) E"
    and "dc_flags ctx = DIRENT_FLAG_INCLUDE_EMPTY" "link_args (dc_priv ctx)" "ls_err (dc_priv ctx) = 0"
    and "dir_walk (link_proc fs) fs False (unat (fs_blocksize fs)) (csum_len fs) ctx entry 0 0 False = Some (ctx', w, ch)"
    and "lookup_args lk" "dc_buf cl = dc_buf ctx'" "dc_flags cl = 0" "dc_priv cl = lk"
    and "\<forall>x \<in> set (dents_live E). snd (snd x) \<noteq> lk_name lk"
  shows "dir_walk lookup_proc fs False (unat (fs_blocksize fs)) (csum_len fs) cl entry 0 0 False =
    (if ls_done (dc_priv ctx') \<noteq> 0 \<and> lk_name lk = ls_name (dc_priv ctx)
     then Some (cl\<lparr>dc_priv := lk\<lparr>lk_inode := ls_inode (dc_priv ctx), lk_found := 1\<rparr>\<rparr>, Walk_aborted, False)
     else Some (cl, Walk_done, False))"
proof (cases rule: link_result [OF assms(1-7), of entry, case_names none put])
  case (none c ch' E')
  then have c: "c = ctx'" using assms(8) by simp
  have "lookup_result lk (dents_live E') = (lk, Walk_done)" using assms(13) none(6) by (intro lookup_none) auto
  moreover have "tail_ok fs (dc_buf cl)" using tail_ok_kept [OF assms(3) none(3) assms(2,1)] by (simp add: c assms(10))
  moreover have "cl\<lparr>dc_priv := lk\<rparr> = cl" using assms(12) by (cases cl) simp
  ultimately show ?thesis
    using lookup_walk [OF assms(1), of cl 0 E' entry 0] assms(2,9-12) none(2,3,5) by (simp add: c kept_def)
next
  case (put c E' L1 L2 t)
  then have c: "c = ctx'" using assms(8) by simp
  have L: "\<forall>x \<in> set L1. snd (snd x) \<noteq> lk_name lk" "\<forall>x \<in> set L2. snd (snd x) \<noteq> lk_name lk" using assms(13) put(5) by auto
  have res: "lookup_result lk (dents_live E') = (if lk_name lk = ls_name (dc_priv ctx)
      then (lk\<lparr>lk_inode := ls_inode (dc_priv ctx), lk_found := 1\<rparr>, Walk_aborted) else (lk, Walk_done))"
  proof (cases "lk_name lk = ls_name (dc_priv ctx)")
    case True
    have "List.find (\<lambda>(i, t, s). s = lk_name lk) (L1 @ (ls_inode (dc_priv ctx), t, ls_name (dc_priv ctx)) # L2)
        = Some (ls_inode (dc_priv ctx), t, ls_name (dc_priv ctx))"
      using L(1) True by (induction L1) auto
    then show ?thesis using True unfolding put(6) by (simp add: lookup_result_def)
  next
    case False
    then have "lookup_result lk (dents_live E') = (lk, Walk_done)" using L by (intro lookup_none) (auto simp: put(6))
    then show ?thesis using False by simp
  qed
  have "tail_ok fs (dc_buf cl)" using tail_ok_kept [OF assms(3) put(3) assms(2,1)] by (simp add: c assms(10))
  moreover have "cl\<lparr>dc_priv := lk\<rparr> = cl" using assms(12) by (cases cl) simp
  ultimately show ?thesis
    using lookup_walk [OF assms(1), of cl 0 E' entry 0] assms(2,9-12) put(2,3,4) by (simp add: c kept_def res)
qed

theorem link_then_lookup_witness:
  "\<exists>ctx' w ch cl. dir_walk (link_proc ex_fs) ex_fs False 1024 0 ex_link 3 0 0 False = Some (ctx', w, ch)
    \<and> dir_walk lookup_proc ex_fs False 1024 0 cl 3 0 0 False =
      (if ls_done (dc_priv ctx') \<noteq> 0
       then Some (cl\<lparr>dc_priv := (dc_priv cl)\<lparr>lk_inode := 12, lk_found := 1\<rparr>\<rparr>, Walk_aborted, False)
       else Some (cl, Walk_done, False))"
proof -
  have a: "dc_flags ex_link = DIRENT_FLAG_INCLUDE_EMPTY" "link_args (dc_priv ex_link)" "ls_err (dc_priv ex_link) = 0"
    and b: "dc_buf ex_link = ex_block" "ls_name (dc_priv ex_link) = [0x61]" "ls_inode (dc_priv ex_link) = 12"
    by (simp_all add: ex_link_def link_args_def)
  note ex = ex_block(1) ex_block(2,6,5) [folded b(1) ex_block(4)] a
  obtain r where r: "dir_walk (link_proc ex_fs) ex_fs False 1024 0 ex_link 3 0 0 False = Some r"
    by (rule link_result [OF ex, of 3]) (auto simp: ex_block(3) that)
  obtain ctx' w ch where e: "r = (ctx', w, ch)" by (cases r)
  define lk where "lk = \<lparr>lk_name = [0x61], lk_len = 1, lk_inode = 0, lk_found = 0\<rparr>"
  define cl where "cl = \<lparr>dc_dir = 2, dc_flags = 0, dc_buf = dc_buf ctx', dc_buflen = 0, dc_errcode = 0, dc_priv = lk\<rparr>"
  have "dir_walk lookup_proc ex_fs False (unat (fs_blocksize ex_fs)) (csum_len ex_fs) cl 3 0 0 False =
    (if ls_done (dc_priv ctx') \<noteq> 0 \<and> lk_name lk = ls_name (dc_priv ex_link)
     then Some (cl\<lparr>dc_priv := lk\<lparr>lk_inode := ls_inode (dc_priv ex_link), lk_found := 1\<rparr>\<rparr>, Walk_aborted, False)
     else Some (cl, Walk_done, False))"
    by (rule link_then_lookup [OF ex, of 3 ctx' w ch])
      (use r e in \<open>simp_all add: ex_block(3) lookup_args_def lk_def cl_def\<close>)
  then have "dir_walk lookup_proc ex_fs False 1024 0 cl 3 0 0 False =
    (if ls_done (dc_priv ctx') \<noteq> 0
     then Some (cl\<lparr>dc_priv := (dc_priv cl)\<lparr>lk_inode := 12, lk_found := 1\<rparr>\<rparr>, Walk_aborted, False)
     else Some (cl, Walk_done, False))"
    by (simp add: ex_block(3) b lk_def cl_def)
  with r e show ?thesis by blast
qed

end
