(* ===== verification/Sha512_Theorems.thy ===== *)
theory Sha512_Theorems
  imports Sha512
begin

text \<open>
  The code of \<^verbatim>\<open>libext2fs/sha512.c\<close> computes SHA-512: the unrolled rounds rotate the indices instead of
  the variables, the schedule is filled in place, and the buffer with its padding gives the padded message
  block by block.
\<close>

section \<open>A round\<close>

lemma sha512_Ch: "sha512_Ch x y z = (x AND y) XOR (NOT x AND z)"
  unfolding sha512_Ch_def by (rule bit_word_eqI) (auto simp: bit_simps)

lemma sha512_Maj: "sha512_Maj x y z = (x AND y) XOR (x AND z) XOR (y AND z)"
  unfolding sha512_Maj_def by (rule bit_word_eqI) (auto simp: bit_simps)

lemma list8: "length (S :: 'a list) = 8 \<Longrightarrow> \<exists>a b c d e f g h. S = [a, b, c, d, e, f, g, h]"
  by (auto simp: eval_nat_numeral length_Suc_conv)

text \<open>After \<open>r\<close> rounds the working variable number \<open>k\<close> is in place \<open>k - r\<close> of the array.\<close>

definition rotated :: "nat \<Rightarrow> u64 list \<Rightarrow> u64 list" where
  "rotated r S = map (\<lambda>k. S ! ((k + 8 - r) mod 8)) [0, 1, 2, 3, 4, 5, 6, 7]"

lemma rotated_RND:
  assumes "length S = 8"
  defines "R \<equiv> \<lambda>W i r. fips_round (sha512_K ! i) (W ! i) (rotated r S)"
  shows "rotated 1 (sha512_RND W 0 1 2 3 4 5 6 7 i S) = R W i 0"
    "rotated 2 (sha512_RND W 7 0 1 2 3 4 5 6 i S) = R W i 1"
    "rotated 3 (sha512_RND W 6 7 0 1 2 3 4 5 i S) = R W i 2"
    "rotated 4 (sha512_RND W 5 6 7 0 1 2 3 4 i S) = R W i 3"
    "rotated 5 (sha512_RND W 4 5 6 7 0 1 2 3 i S) = R W i 4"
    "rotated 6 (sha512_RND W 3 4 5 6 7 0 1 2 i S) = R W i 5"
    "rotated 7 (sha512_RND W 2 3 4 5 6 7 0 1 i S) = R W i 6"
    "rotated 0 (sha512_RND W 1 2 3 4 5 6 7 0 i S) = R W i 7"
proof -
  obtain a b c d e f g h where S: "S = [a, b, c, d, e, f, g, h]" using list8 [OF assms(1)] by blast
  note defs = R_def S rotated_def sha512_RND_def fips_round_def Let_def sha512_Ch sha512_Maj sha512_Sigma0_def sha512_Sigma1_def
  show "rotated 1 (sha512_RND W 0 1 2 3 4 5 6 7 i S) = R W i 0" by (simp add: defs)
  show "rotated 2 (sha512_RND W 7 0 1 2 3 4 5 6 i S) = R W i 1" by (simp add: defs)
  show "rotated 3 (sha512_RND W 6 7 0 1 2 3 4 5 i S) = R W i 2" by (simp add: defs)
  show "rotated 4 (sha512_RND W 5 6 7 0 1 2 3 4 i S) = R W i 3" by (simp add: defs)
  show "rotated 5 (sha512_RND W 4 5 6 7 0 1 2 3 i S) = R W i 4" by (simp add: defs)
  show "rotated 6 (sha512_RND W 3 4 5 6 7 0 1 2 i S) = R W i 5" by (simp add: defs)
  show "rotated 7 (sha512_RND W 2 3 4 5 6 7 0 1 i S) = R W i 6" by (simp add: defs)
  show "rotated 0 (sha512_RND W 1 2 3 4 5 6 7 0 i S) = R W i 7" by (simp add: defs)
qed

lemma rotated_0: "length S = 8 \<Longrightarrow> rotated 0 S = S"
  using list8 [of S] by (auto simp: rotated_def)

lemma length_RND [simp]: "length (sha512_RND W a b c d e f g h i S) = length S"
  by (simp add: sha512_RND_def Let_def)

lemma length_rounds8 [simp]: "length (sha512_rounds8 W S i) = length S"
  by (simp add: sha512_rounds8_def)

lemma rounds8:
  assumes "length S = 8"
  shows "sha512_rounds8 W S i = foldl (\<lambda>v t. fips_round (sha512_K ! t) (W ! t) v) S [i ..< i + 8]"
proof -
  have u: "[i ..< i + 8] = [i, i + 1, i + 2, i + 3, i + 4, i + 5, i + 6, i + 7]"
    by (simp add: upt_rec [of i] upt_rec [of "Suc _"] numeral_eq_Suc)
  have "rotated 0 (sha512_rounds8 W S i) = foldl (\<lambda>v t. fips_round (sha512_K ! t) (W ! t) v) (rotated 0 S) [i ..< i + 8]"
    unfolding sha512_rounds8_def u by (simp only: rotated_RND length_RND assms foldl_Cons foldl_Nil)
  then show ?thesis by (simp add: rotated_0 assms)
qed

lemma rounds80:
  assumes "length S = 8"
  shows "foldl (sha512_rounds8 W) S (map (\<lambda>i. 8 * i) [0 ..< n])
    = foldl (\<lambda>v t. fips_round (sha512_K ! t) (W ! t) v) S [0 ..< 8 * n] \<and>
    length (foldl (sha512_rounds8 W) S (map (\<lambda>i. 8 * i) [0 ..< n])) = 8"
proof (induction n)
  case (Suc n)
  have "[0 ..< 8 * Suc n] = [0 ..< 8 * n] @ [8 * n ..< 8 * n + 8]"
    using upt_add_eq_append [of 0 "8 * n" 8] by (simp add: algebra_simps)
  moreover have "length (foldl (\<lambda>v t. fips_round (sha512_K ! t) (W ! t) v) X [8 * n ..< 8 * n + 8]) = 8" if "length X = 8" for X
    using that by (simp flip: rounds8)
  moreover have "length (foldl (\<lambda>v t. fips_round (sha512_K ! t) (W ! t) v) S [0 ..< 8 * n]) = 8" using Suc.IH by metis
  ultimately show ?case using conjunct1 [OF Suc.IH] by (simp add: foldl_append rounds8)
qed (simp add: assms)

section \<open>The schedule\<close>

lemma fips_W_cong: "(\<And>i. i < 16 \<Longrightarrow> m i = m' i) \<Longrightarrow> fips_W m t = fips_W m' t"
proof (induction t rule: less_induct)
  case (less t)
  show ?case
  proof (cases "t < 16")
    case True
    then show ?thesis using less.prems by (simp add: fips_W.simps)
  next
    case False
    then have e: "fips_W m (t - 2) = fips_W m' (t - 2)" "fips_W m (t - 7) = fips_W m' (t - 7)"
      "fips_W m (t - 15) = fips_W m' (t - 15)" "fips_W m (t - 16) = fips_W m' (t - 16)"
      using less.IH less.prems by auto
    then show ?thesis using False by (simp add: fips_W.simps [of m t] fips_W.simps [of m' t])
  qed
qed

lemma fill:
  "16 \<le> k \<Longrightarrow> sha512_fill n (map (fips_W m) [0 ..< k]) = map (fips_W m) [0 ..< k + n]"
proof (induction n arbitrary: k)
  case (Suc n)
  have "fips_W m k = sha512_Gamma1 (fips_W m (k - 2)) + fips_W m (k - 7) + sha512_Gamma0 (fips_W m (k - 15)) + fips_W m (k - 16)"
    using Suc.prems by (subst fips_W.simps) (simp add: sha512_Gamma0_def sha512_Gamma1_def)
  then have "sha512_fill (Suc n) (map (fips_W m) [0 ..< k]) = sha512_fill n (map (fips_W m) [0 ..< Suc k])"
    using Suc.prems by (simp add: Let_def)
  also have "\<dots> = map (fips_W m) [0 ..< Suc k + n]" by (rule Suc.IH) (use Suc.prems in simp)
  finally show ?case by simp
qed simp

lemma take8: "p + 8 \<le> length xs \<Longrightarrow>
    take 8 (drop p xs) = [xs ! p, xs ! (p + 1), xs ! (p + 2), xs ! (p + 3), xs ! (p + 4), xs ! (p + 5), xs ! (p + 6), xs ! (p + 7)]"
  by (rule nth_equalityI) (auto simp: nth_Cons' less_Suc_eq numeral_eq_Suc)

lemma LOAD64H: "p + 8 \<le> length xs \<Longrightarrow> LOAD64H xs p = be64 (take 8 (drop p xs))"
  unfolding take8 be64_def LOAD64H_def by (simp add: push_bit_or or.assoc)

lemma sha512_W:
  assumes "p + 128 \<le> length buf"
  shows "sha512_W buf p = map (fips_W (\<lambda>i. be64 (take 8 (drop (8 * i) (drop p buf))))) [0 ..< 80]"
proof -
  let ?m = "\<lambda>i. be64 (take 8 (drop (8 * i) (drop p buf)))"
  have "map (\<lambda>i. LOAD64H buf (p + 8 * i)) [0 ..< 16] = map (fips_W ?m) [0 ..< 16]"
    using assms by (intro map_cong refl) (simp add: LOAD64H fips_W.simps add.commute)
  then show ?thesis unfolding sha512_W_def by (simp only: fill) simp
qed

lemma sha512_compress:
  assumes "length st = 8" "p + 128 \<le> length buf"
  shows "sha512_compress st buf p = fips_compress st (take 128 (drop p buf))" "length (sha512_compress st buf p) = 8"
proof -
  let ?m = "\<lambda>i. be64 (take 8 (drop (8 * i) (drop p buf)))"
  have W: "fips_W (\<lambda>i. be64 (take 8 (drop (8 * i) (take 128 (drop p buf))))) t = fips_W ?m t" for t
  proof -
    have "take 8 (drop (8 * i) (take 128 (drop p buf))) = take 8 (drop (8 * i) (drop p buf))" if "i < 16" for i
      using that by (simp add: drop_take min_def)
    then show ?thesis by (intro fips_W_cong) simp
  qed
  have "foldl (sha512_rounds8 (sha512_W buf p)) st (map (\<lambda>i. 8 * i) [0 ..< 10])
      = foldl (\<lambda>v t. fips_round (sha512_K ! t) (sha512_W buf p ! t) v) st [0 ..< 80]"
    using rounds80 [OF assms(1), of "sha512_W buf p" 10] by simp
  also have "\<dots> = foldl (\<lambda>v t. fips_round (sha512_K ! t) (fips_W ?m t) v) st [0 ..< 80]"
    unfolding sha512_W [OF assms(2)] by (rule foldl_cong) auto
  finally show "sha512_compress st buf p = fips_compress st (take 128 (drop p buf))"
    by (simp add: sha512_compress_def fips_compress_def Let_def W)
  show "length (sha512_compress st buf p) = 8"
    using conjunct2 [OF rounds80 [OF assms(1), of "sha512_W buf p" 10]] assms(1) by (simp add: sha512_compress_def Let_def)
qed

section \<open>The buffer\<close>

text \<open>
  \<open>sha_ok md m\<close>: \<open>md\<close> has seen the message \<open>m\<close>. What of it makes whole blocks is compressed and counted, the
  rest is in the buffer.
\<close>

definition sha_ok :: "sha512_state \<Rightarrow> u8 list \<Rightarrow> bool" where
  "sha_ok md m \<longleftrightarrow> length (sh_buf md) = 128 \<and> length (sh_state md) = 8 \<and> sh_curlen md < 128
     \<and> (\<exists>k. length m = 128 * k + sh_curlen md
        \<and> sh_state md = fips_blocks (sh_state (sha512_init [])) (take (128 * k) m)
        \<and> take (sh_curlen md) (sh_buf md) = drop (128 * k) m \<and> sh_length md = of_nat (1024 * k))"

lemma fips_blocks_append:
  "length m = 128 * k \<Longrightarrow> fips_blocks st (m @ m') = fips_blocks (fips_blocks st m) m'"
proof (induction k arbitrary: st m)
  case 0
  then show ?case by (simp add: fips_blocks.simps [of st "[]"])
next
  case (Suc k)
  then have l: "\<not> length m < 128" "length (drop 128 m) = 128 * k" by auto
  have "fips_blocks st (m @ m') = fips_blocks (fips_compress st (take 128 m)) (drop 128 m @ m')"
    using l(1) by (subst fips_blocks.simps) simp
  also have "\<dots> = fips_blocks (fips_blocks (fips_compress st (take 128 m)) (drop 128 m)) m'" by (rule Suc.IH [OF l(2)])
  also have "fips_blocks (fips_compress st (take 128 m)) (drop 128 m) = fips_blocks st m"
    using l(1) by (subst (2) fips_blocks.simps) simp
  finally show ?case .
qed

lemma fips_block: "length b = 128 \<Longrightarrow> fips_blocks st b = fips_compress st b"
  by (subst fips_blocks.simps, subst fips_blocks.simps) simp

lemma sha_ok_blocks:
  assumes "length (sh_buf md) = 128" "length (sh_state md) = 8" "sh_curlen md = 0" "length m = 128 * k"
    and "sh_state md = fips_blocks (sh_state (sha512_init [])) m" "sh_length md = of_nat (1024 * k)"
  shows "sha_ok md m"
proof -
  have "take (128 * k) m = m" "drop (128 * k) m = []" using assms(4) by simp_all
  then show ?thesis using assms unfolding sha_ok_def by (auto intro!: exI [of _ k])
qed

lemma sha_ok_init: "length g = 128 \<Longrightarrow> sha_ok (sha512_init g) []"
  by (auto simp: sha_ok_def sha512_init_def fips_blocks.simps)

text \<open>A full block of input, or as much as fits in the buffer.\<close>

lemma sha_block:
  assumes "sha_ok md m" "sh_curlen md = 0" "p + 128 \<le> length data"
  shows "sha_ok (md\<lparr>sh_state := sha512_compress (sh_state md) data p, sh_length := sh_length md + 1024\<rparr>)
    (m @ take 128 (drop p data))"
proof -
  let ?iv = "sh_state (sha512_init [])" and ?b = "take 128 (drop p data)"
  obtain k where k: "length m = 128 * k" "sh_state md = fips_blocks ?iv m" "sh_length md = of_nat (1024 * k)"
    using assms(1,2) by (auto simp: sha_ok_def)
  have s: "length (sh_state md) = 8" using assms(1) by (simp add: sha_ok_def)
  note c = sha512_compress [OF s assms(3)]
  have "sha512_compress (sh_state md) data p = fips_blocks ?iv (m @ ?b)"
    using fips_blocks_append [OF k(1), of ?iv ?b] assms(3) unfolding c(1) by (simp add: fips_block k(2))
  then show ?thesis using assms k(1,3) c(2) unfolding sha_ok_def by (auto intro!: exI [of _ "Suc k"])
qed

lemma sha_bytes:
  assumes "sha_ok md m" "n = min (length data - p) (128 - sh_curlen md)" "p \<le> length data"
  defines "md1 \<equiv> md\<lparr>sh_buf := memcpy_at (sh_buf md) (sh_curlen md) (drop p data) n, sh_curlen := sh_curlen md + n\<rparr>"
  defines "md2 \<equiv> (if sh_curlen md1 = 128
    then md1\<lparr>sh_state := sha512_compress (sh_state md1) (sh_buf md1) 0, sh_length := sh_length md1 + 1024, sh_curlen := 0\<rparr>
    else md1)"
  shows "sha_ok md2 (m @ take n (drop p data))"
proof -
  let ?iv = "sh_state (sha512_init [])" and ?c = "sh_curlen md" and ?x = "take n (drop p data)"
  obtain k where k: "length m = 128 * k + ?c" "sh_state md = fips_blocks ?iv (take (128 * k) m)"
    "take ?c (sh_buf md) = drop (128 * k) m" "sh_length md = of_nat (1024 * k)"
    and l: "length (sh_buf md) = 128" "length (sh_state md) = 8" "?c < 128"
    using assms(1) by (auto simp: sha_ok_def)
  have n: "?c + n \<le> 128" "length ?x = n" using assms(2,3) l(3) by auto
  have b: "length (sh_buf md1) = 128" "take (?c + n) (sh_buf md1) = drop (128 * k) m @ ?x"
    using n l k(1,3) by (auto simp: md1_def memcpy_at_def)
  show ?thesis
  proof (cases "?c + n = 128")
    case False
    then have "md2 = md1" by (simp add: md2_def md1_def)
    then show ?thesis using False n l k b unfolding sha_ok_def by (auto simp: md1_def intro!: exI [of _ k])
  next
    case True
    have st: "sh_state md1 = sh_state md" by (simp add: md1_def)
    have c: "sha512_compress (sh_state md1) (sh_buf md1) 0 = fips_compress (sh_state md) (sh_buf md1)"
      "length (sha512_compress (sh_state md1) (sh_buf md1) 0) = 8"
      using sha512_compress [of "sh_state md1" 0 "sh_buf md1"] b(1) l(2) st by simp_all
    have full: "sh_buf md1 = drop (128 * k) m @ ?x" using b True by simp
    have t: "length (take (128 * k) m) = 128 * k" using k(1) by simp
    have "fips_blocks ?iv (m @ ?x) = fips_blocks ?iv (take (128 * k) m @ (drop (128 * k) m @ ?x))" by (metis append.assoc append_take_drop_id)
    also have "\<dots> = fips_compress (sh_state md) (sh_buf md1)"
      using fips_blocks_append [OF t, of ?iv "drop (128 * k) m @ ?x"] fips_block [OF b(1)] k(2) full by simp
    finally have "fips_blocks ?iv (m @ ?x) = sha512_compress (sh_state md1) (sh_buf md1) 0" using c(1) by simp
    moreover have "length (m @ ?x) = 128 * Suc k" using k(1) n True by simp
    moreover have "md2 = md1\<lparr>sh_state := sha512_compress (sh_state md1) (sh_buf md1) 0, sh_length := sh_length md1 + 1024, sh_curlen := 0\<rparr>"
      using True by (simp add: md2_def md1_def)
    moreover have "sh_length md1 = of_nat (1024 * k)" using k(4) by (simp add: md1_def)
    ultimately show ?thesis using b(1) c(2) by (intro sha_ok_blocks [of _ _ "Suc k"]) simp_all
  qed
qed

lemma sha512_process_ok:
  assumes "sha_ok md m" "p + n = length data"
  shows "\<exists>md'. sha512_process md data p n = Some md' \<and> sha_ok md' (m @ drop p data)"
  using assms
proof (induction n arbitrary: md m p rule: less_induct)
  case (less n)
  consider (fin) "n = 0" | (block) "n \<noteq> 0" "sh_curlen md = 0 \<and> 128 \<le> n" | (bytes) "n \<noteq> 0" "\<not> (sh_curlen md = 0 \<and> 128 \<le> n)"
    by blast
  then show ?case
  proof cases
    case fin
    then show ?thesis using less.prems by (subst sha512_process.simps) simp
  next
    case block
    let ?md = "md\<lparr>sh_state := sha512_compress (sh_state md) data p, sh_length := sh_length md + 1024\<rparr>"
    have ok: "sha_ok ?md (m @ take 128 (drop p data))" by (rule sha_block) (use less.prems block in auto)
    have "\<exists>md'. sha512_process ?md data (p + 128) (n - 128) = Some md' \<and> sha_ok md' ((m @ take 128 (drop p data)) @ drop (p + 128) data)"
      by (rule less.IH [OF _ ok]) (use less.prems block in auto)
    moreover have "take 128 (drop p data) @ drop (p + 128) data = drop p data" by (metis append_take_drop_id drop_drop add.commute)
    ultimately show ?thesis using block by (subst sha512_process.simps) simp
  next
    case bytes
    let ?j = "min n (128 - sh_curlen md)"
    have j: "?j = min (length data - p) (128 - sh_curlen md)" "p \<le> length data" using less.prems(2) by auto
    have "0 < ?j" using bytes(1) less.prems(1) by (auto simp: sha_ok_def)
    define md1 where "md1 = md\<lparr>sh_buf := memcpy_at (sh_buf md) (sh_curlen md) (drop p data) ?j, sh_curlen := sh_curlen md + ?j\<rparr>"
    define md2 where "md2 = (if sh_curlen md1 = 128
      then md1\<lparr>sh_state := sha512_compress (sh_state md1) (sh_buf md1) 0, sh_length := sh_length md1 + 1024, sh_curlen := 0\<rparr>
      else md1)"
    have ok: "sha_ok md2 (m @ take ?j (drop p data))"
      unfolding md2_def md1_def by (rule sha_bytes [OF less.prems(1) j])
    have "\<exists>md'. sha512_process md2 data (p + ?j) (n - ?j) = Some md' \<and> sha_ok md' ((m @ take ?j (drop p data)) @ drop (p + ?j) data)"
      by (rule less.IH [OF _ ok]) (use less.prems bytes \<open>0 < ?j\<close> in auto)
    moreover have "take ?j (drop p data) @ drop (p + ?j) data = drop p data" by (metis append_take_drop_id drop_drop add.commute)
    moreover have "sha512_process md data p n = sha512_process md2 data (p + ?j) (n - ?j)"
      using bytes by (subst sha512_process.simps) (auto simp: Let_def md2_def md1_def)
    ultimately show ?thesis by simp
  qed
qed

section \<open>Padding and output\<close>

lemma zero_fill:
  assumes "sh_curlen md \<le> e" "e \<le> length (sh_buf md)"
  shows "sha512_zero md e = md\<lparr>sh_buf := take (sh_curlen md) (sh_buf md) @ replicate (e - sh_curlen md) 0 @ drop e (sh_buf md),
    sh_curlen := e\<rparr>"
  using assms
proof (induction "e - sh_curlen md" arbitrary: md)
  case 0
  then show ?case by (subst sha512_zero.simps) simp
next
  case (Suc n)
  let ?c = "sh_curlen md"
  let ?md = "md\<lparr>sh_buf := (sh_buf md)[?c := 0], sh_curlen := ?c + 1\<rparr>"
  have "sha512_zero ?md e = ?md\<lparr>sh_buf := take (?c + 1) (sh_buf ?md) @ replicate (e - (?c + 1)) 0 @ drop e (sh_buf ?md), sh_curlen := e\<rparr>"
    using Suc.hyps(1) [of ?md] Suc.hyps(2) Suc.prems by simp
  moreover have "take (?c + 1) ((sh_buf md)[?c := 0]) = take ?c (sh_buf md) @ [0]"
    using Suc.hyps(2) Suc.prems by (simp add: take_Suc_conv_app_nth)
  moreover have "e - ?c = Suc (e - (?c + 1))" using Suc.hyps(2) by simp
  ultimately show ?case using Suc.hyps(2) Suc.prems by (subst sha512_zero.simps) simp
qed

lemma byte_of_word: "ucast (drop_bit (8 * j) (w :: u64)) = (of_nat (unat w div 256 ^ j) :: u8)"
proof -
  have "unat w < 2 ^ 64" using unsigned_less [of w] by simp
  then have "unat (drop_bit (8 * j) w) = drop_bit (8 * j) (unat w)"
    by (simp add: unsigned_drop_bit_eq take_bit_nat_eq_self)
  also have "\<dots> = unat w div 2 ^ (8 * j)" by (rule drop_bit_eq_div)
  also have "(2 :: nat) ^ (8 * j) = 256 ^ j" by (simp add: power_mult)
  finally have "unat (drop_bit (8 * j) w) = unat w div 256 ^ j" .
  then show ?thesis by (metis of_nat_unat)
qed

lemma STORE64H:
  assumes "p + 8 \<le> length y"
  shows "STORE64H w y p = take p y @ be_bytes 8 (unat w) @ drop (p + 8) y"
proof -
  have b: "be_bytes 8 (unat w) = [ucast (drop_bit 56 w), ucast (drop_bit 48 w), ucast (drop_bit 40 w), ucast (drop_bit 32 w),
      ucast (drop_bit 24 w), ucast (drop_bit 16 w), ucast (drop_bit 8 w), ucast w]"
    using byte_of_word [of 7 w] byte_of_word [of 6 w] byte_of_word [of 5 w] byte_of_word [of 4 w]
      byte_of_word [of 3 w] byte_of_word [of 2 w] byte_of_word [of 1 w] byte_of_word [of 0 w]
    by (simp add: be_bytes_def upt_rec)
  show ?thesis unfolding STORE64H_def b
    by (rule nth_equalityI) (use assms in \<open>auto simp: nth_append nth_Cons' nth_list_update min_def\<close>)
qed

lemma length_be_bytes [simp]: "length (be_bytes n v) = n"
  by (simp add: be_bytes_def)

lemma be_bytes_16:
  assumes "v < 2 ^ 64"
  shows "be_bytes 16 v = replicate 8 0 @ be_bytes 8 v"
proof -
  have "v div 256 ^ j = 0" if "8 \<le> j" for j
  proof (rule div_less)
    have "v < 256 ^ 8" using assms by simp
    also have "(256 :: nat) ^ 8 \<le> 256 ^ j" using that by (intro power_increasing) auto
    finally show "v < 256 ^ j" .
  qed
  then show ?thesis
    by (intro nth_equalityI) (auto simp: be_bytes_def nth_append)
qed

lemma store_words:
  "p + 8 * length ws \<le> length out \<Longrightarrow>
    store_words ws out p = take p out @ concat (map (\<lambda>w. be_bytes 8 (unat w)) ws) @ drop (p + 8 * length ws) out"
proof (induction ws arbitrary: out p)
  case (Cons w ws)
  have p8: "p + 8 \<le> length out" using Cons.prems by simp
  let ?out = "STORE64H w out p"
  have l: "length ?out = length out" using p8 by (simp add: STORE64H)
  have "store_words ws ?out (p + 8) = take (p + 8) ?out @ concat (map (\<lambda>w. be_bytes 8 (unat w)) ws) @ drop (p + 8 + 8 * length ws) ?out"
    by (rule Cons.IH) (use Cons.prems l in simp)
  moreover have "take (p + 8) ?out = take p out @ be_bytes 8 (unat w)" using p8 by (simp add: STORE64H min_def)
  moreover have "drop (p + 8 + 8 * length ws) ?out = drop (p + 8 + 8 * length ws) out" using p8 by (simp add: STORE64H min_def ac_simps)
  ultimately show ?case by (simp add: add.assoc)
qed simp

text \<open>The two ways to pad: in the block of the buffer, or with one more block.\<close>

lemma fips_pad_split:
  assumes "length m = 128 * k + r" "r < 128" "8 * length m < 2 ^ 64"
  defines "rest \<equiv> drop (128 * k) m" and "len \<equiv> be_bytes 8 (8 * length m)"
  shows "fips_pad m = take (128 * k) m @ (if r < 112 then rest @ [0x80] @ replicate (119 - r) 0 @ len
    else (rest @ [0x80] @ replicate (127 - r) 0) @ (replicate 120 0 @ len))"
proof -
  have "int (length m) mod 128 = int r" using assms(1,2) by simp
  then have "(111 - int (length m)) mod 128 = (111 - int r) mod 128" by (metis mod_diff_right_eq)
  moreover have "(111 - int r) mod 128 = (if r < 112 then 111 - int r else 239 - int r)"
  proof (cases "r < 112")
    case False
    have "(111 - int r) mod 128 = (239 - int r) mod 128" using mod_add_self2 [of "111 - int r" 128] by simp
    then show ?thesis using False assms(2) by simp
  qed simp
  ultimately have z: "nat ((111 - int (length m)) mod 128) = (if r < 112 then 111 - r else 239 - r)" by auto
  have m: "m = take (128 * k) m @ rest" by (simp add: rest_def)
  have add: "replicate a (0 :: u8) @ replicate b 0 = replicate (a + b) 0" for a b by (simp add: replicate_add)
  have "fips_pad m = take (128 * k) m @ rest @ [0x80] @ replicate (if r < 112 then 111 - r else 239 - r) 0 @ replicate 8 0 @ len"
    unfolding fips_pad_def z be_bytes_16 [OF assms(3)] len_def by (metis m append.assoc)
  also have "replicate (if r < 112 then 111 - r else 239 - r) (0 :: u8) @ replicate 8 0 @ len
      = (if r < 112 then replicate (119 - r) 0 @ len else replicate (127 - r) 0 @ replicate 120 0 @ len)"
    using assms(2) by (auto simp: append.assoc [symmetric] add simp del: append.assoc)
  finally show ?thesis by simp
qed

lemma sha512_done_ok:
  assumes "sha_ok md m" "8 * length m < 2 ^ 64" "length out = 64"
  shows "snd (sha512_done md out) = fips_sha512 m"
proof -
  let ?iv = "sh_state (sha512_init [])" and ?r = "sh_curlen md"
  let ?len = "be_bytes 8 (8 * length m)"
  obtain k where k: "length m = 128 * k + ?r" "sh_state md = fips_blocks ?iv (take (128 * k) m)"
    "take ?r (sh_buf md) = drop (128 * k) m" "sh_length md = of_nat (1024 * k)"
    and l: "length (sh_buf md) = 128" "length (sh_state md) = 8" "?r < 128"
    using assms(1) by (auto simp: sha_ok_def)
  define rest where "rest = drop (128 * k) m"
  have rl: "length rest = ?r" using k(1) by (simp add: rest_def)
  have "sh_length md + of_nat ?r * 8 = of_nat (8 * length m)" unfolding k(4) k(1) by (simp add: algebra_simps)
  moreover have "unat (of_nat (8 * length m) :: u64) = 8 * length m"
    using assms(2) unfolding unat_of_nat by (intro mod_less) simp
  ultimately have len: "unat (sh_length md + of_nat ?r * 8) = 8 * length m" by simp
  define b1 where "b1 = (sh_buf md)[?r := 0x80]"
  have b1: "length b1 = 128" "take (?r + 1) b1 = rest @ [0x80]"
    using l k(3) by (simp_all add: b1_def take_Suc_conv_app_nth rest_def)
  have t: "length (take (128 * k) m) = 128 * k" using k(1) by simp
  have fin: "snd (sha512_done md out) = fips_sha512 m"
    if "sha512_done md out = (md', store_words (sha512_compress st blk 0) out 0)" "length st = 8" "length blk = 128"
      "fips_compress st blk = fips_blocks ?iv (fips_pad m)" for md' st blk
  proof -
    have c: "sha512_compress st blk 0 = fips_blocks ?iv (fips_pad m)" "length (sha512_compress st blk 0) = 8"
      using sha512_compress [of st 0 blk] that(2,3,4) by simp_all
    have "store_words (sha512_compress st blk 0) out 0 = concat (map (\<lambda>w. be_bytes 8 (unat w)) (sha512_compress st blk 0))"
      using store_words [of 0 "sha512_compress st blk 0" out] c(2) assms(3) by simp
    then show ?thesis using that(1) c(1) by (simp add: fips_sha512_def)
  qed
  let ?len64 = "sh_length md + of_nat ?r * 8"
  show ?thesis
  proof (cases "?r < 112")
    case True
    define blk where "blk = rest @ [0x80] @ replicate (119 - ?r) 0 @ ?len"
    have "STORE64H ?len64 (take (?r + 1) b1 @ replicate (119 - ?r) 0 @ drop 120 b1) 120 = blk"
      using True b1 rl Suc_diff_le [of ?r 119] by (simp add: STORE64H blk_def len)
    then have d: "sha512_done md out = (md\<lparr>sh_length := ?len64, sh_buf := blk, sh_curlen := 120,
        sh_state := sha512_compress (sh_state md) blk 0\<rparr>, store_words (sha512_compress (sh_state md) blk 0) out 0)"
      using True l(1) by (simp add: sha512_done_def Let_def zero_fill b1_def [symmetric] b1(1))
    have lb: "length blk = 128" using True rl by (simp add: blk_def)
    have "fips_pad m = take (128 * k) m @ blk"
      using fips_pad_split [OF k(1) l(3) assms(2)] True by (simp add: blk_def rest_def)
    then have "fips_compress (sh_state md) blk = fips_blocks ?iv (fips_pad m)"
      using fips_blocks_append [OF t, of ?iv blk] fips_block [OF lb] k(2) by simp
    then show ?thesis by (rule fin [OF d l(2) lb])
  next
    case False
    define blk1 where "blk1 = rest @ [0x80] @ replicate (127 - ?r) 0"
    define blk where "blk = replicate 120 0 @ ?len"
    let ?st = "sha512_compress (sh_state md) blk1 0"
    have z: "take (?r + 1) b1 @ replicate (127 - ?r) 0 @ drop 128 b1 = blk1" using b1 by (simp add: blk1_def)
    have lb: "length blk1 = 128" "length blk = 128" using False l(3) rl by (simp_all add: blk1_def blk_def)
    have "STORE64H ?len64 (replicate 120 0 @ drop 120 blk1) 120 = blk" using lb by (simp add: STORE64H blk_def len)
    then have d: "sha512_done md out = (md\<lparr>sh_length := ?len64, sh_buf := blk, sh_curlen := 120,
        sh_state := sha512_compress ?st blk 0\<rparr>, store_words (sha512_compress ?st blk 0) out 0)"
      using False l(1,3) lb z by (simp add: sha512_done_def Let_def zero_fill b1_def [symmetric] b1(1))
    have st: "?st = fips_compress (sh_state md) blk1" "length ?st = 8" using sha512_compress [of "sh_state md" 0 blk1] l(2) lb(1) by simp_all
    have "fips_pad m = (take (128 * k) m @ blk1) @ blk"
      using fips_pad_split [OF k(1) l(3) assms(2)] False by (simp add: blk1_def blk_def rest_def)
    moreover have "length (take (128 * k) m @ blk1) = 128 * Suc k" using t lb by simp
    then have "fips_blocks ?iv ((take (128 * k) m @ blk1) @ blk) = fips_blocks (fips_blocks ?iv (take (128 * k) m @ blk1)) blk"
      by (rule fips_blocks_append)
    moreover have "fips_blocks ?iv (take (128 * k) m @ blk1) = ?st"
      using fips_blocks_append [OF t, of ?iv blk1] fips_block [OF lb(1)] k(2) st(1) by simp
    ultimately have "fips_compress ?st blk = fips_blocks ?iv (fips_pad m)" using fips_block [OF lb(2)] by simp
    then show ?thesis by (rule fin [OF d st(2) lb(2)])
  qed
qed

text \<open>
  C12. \<open>ext2fs_sha512\<close> returns, and writes the SHA-512 hash of FIPS 180-4 of its input, whatever the buffer of
  its state held before.
\<close>

theorem sha512_is_fips:
  assumes "length garbage = 128" "8 * length data < 2 ^ 64" "length out = 64"
  shows "ext2fs_sha512 garbage data (length data) out = Some (fips_sha512 data)"
proof -
  obtain md where "sha512_process (sha512_init garbage) data 0 (length data) = Some md" "sha_ok md data"
    using sha512_process_ok [OF sha_ok_init [OF assms(1)], of 0 "length data" data] by auto
  then show ?thesis using sha512_done_ok [OF _ assms(2,3)] by (simp add: ext2fs_sha512_def)
qed

theorem sha512_is_fips_witness:
  "ext2fs_sha512 (replicate 128 7) (replicate 200 0x61) 200 (replicate 64 0) = Some (fips_sha512 (replicate 200 0x61))"
  using sha512_is_fips [of "replicate 128 7" "replicate 200 0x61" "replicate 64 0"] by simp

end
