(* ===== verification/Inode_io.thy ===== *)
theory Inode_io
  imports Alloc_io Csum Badblocks
begin

text \<open>
  \<^verbatim>\<open>libext2fs/inode.c\<close>: reading and writing one inode through the inode cache, and the scan of the inode
  tables. The handle gains the channel, the inode cache and what an image file needs. \<open>struct ext2_inode\<close> is
  both a record and, where the code casts or copies it, the bytes of the record; a buffer that the
  caller passes is a list of as many bytes as the caller says it has.
\<close>

abbreviation (input) EXT2_ET_MAGIC_INODE_SCAN :: errcode where "EXT2_ET_MAGIC_INODE_SCAN \<equiv> 2133571332"
abbreviation (input) EXT2_ET_RO_FILSYS :: errcode where "EXT2_ET_RO_FILSYS \<equiv> 2133571349"
abbreviation (input) EXT2_ET_GDESC_BAD_INODE_TABLE :: errcode where "EXT2_ET_GDESC_BAD_INODE_TABLE \<equiv> 2133571354"
abbreviation (input) EXT2_ET_NEXT_INODE_READ :: errcode where "EXT2_ET_NEXT_INODE_READ \<equiv> 2133571361"
abbreviation (input) EXT2_ET_MISSING_INODE_TABLE :: errcode where "EXT2_ET_MISSING_INODE_TABLE \<equiv> 2133571387"
abbreviation (input) EXT2_ET_BAD_BLOCK_IN_INODE_TABLE :: errcode where "EXT2_ET_BAD_BLOCK_IN_INODE_TABLE \<equiv> 2133571394"
abbreviation (input) EXT2_ET_NO_DIRECTORY :: errcode where "EXT2_ET_NO_DIRECTORY \<equiv> 2133571402"
abbreviation (input) EXT2_ET_INODE_CSUM_INVALID :: errcode where "EXT2_ET_INODE_CSUM_INVALID \<equiv> 2133571474"
abbreviation (input) EXT2_ET_INODE_IS_GARBAGE :: errcode where "EXT2_ET_INODE_IS_GARBAGE \<equiv> 2133571497"

abbreviation (input) ENOMEM :: errcode where "ENOMEM \<equiv> 12"
abbreviation (input) EXT2_FLAG_RW :: u32 where "EXT2_FLAG_RW \<equiv> 1"
abbreviation (input) EXT2_FLAG_IMAGE_FILE :: u32 where "EXT2_FLAG_IMAGE_FILE \<equiv> 0x2000"
abbreviation (input) EXT2_FLAG_IGNORE_CSUM_ERRORS :: u32 where "EXT2_FLAG_IGNORE_CSUM_ERRORS \<equiv> 0x200000"
abbreviation (input) READ_INODE_NOCSUM :: u32 where "READ_INODE_NOCSUM \<equiv> 1"
abbreviation (input) WRITE_INODE_NOCSUM :: u32 where "WRITE_INODE_NOCSUM \<equiv> 1"

section \<open>The bytes of an inode\<close>

definition inode_bytes :: "'a ext2_inode_scheme \<Rightarrow> u8 list" where
  "inode_bytes i =
     bytes16 (i_mode i) @ bytes16 (i_uid i) @ bytes32 (i_size i) @ bytes32 (i_atime i) @ bytes32 (i_ctime i) @
     bytes32 (i_mtime i) @ bytes32 (i_dtime i) @ bytes16 (i_gid i) @ bytes16 (i_links_count i) @
     bytes32 (i_blocks i) @ bytes32 (i_flags i) @ bytes32 (l_i_version i) @ concat (map bytes32 (i_block i)) @
     bytes32 (i_generation i) @ bytes32 (i_file_acl i) @ bytes32 (i_size_high i) @ bytes32 (i_faddr i) @
     bytes16 (l_i_blocks_hi i) @ bytes16 (l_i_file_acl_high i) @ bytes16 (l_i_uid_high i) @
     bytes16 (l_i_gid_high i) @ bytes16 (l_i_checksum_lo i) @ bytes16 (l_i_reserved i)"

definition inode_of :: "u8 list \<Rightarrow> ext2_inode" where
  "inode_of b =
     \<lparr>i_mode = get16 b 0, i_uid = get16 b 2, i_size = get32 b 4, i_atime = get32 b 8, i_ctime = get32 b 12,
      i_mtime = get32 b 16, i_dtime = get32 b 20, i_gid = get16 b 24, i_links_count = get16 b 26,
      i_blocks = get32 b 28, i_flags = get32 b 32, l_i_version = get32 b 36,
      i_block = map (\<lambda>k. get32 b (40 + 4 * k)) [0..<15],
      i_generation = get32 b 100, i_file_acl = get32 b 104, i_size_high = get32 b 108, i_faddr = get32 b 112,
      l_i_blocks_hi = get16 b 116, l_i_file_acl_high = get16 b 118, l_i_uid_high = get16 b 120,
      l_i_gid_high = get16 b 122, l_i_checksum_lo = get16 b 124, l_i_reserved = get16 b 126\<rparr>"

section \<open>The handle\<close>

record inode_cache_ent =
  ce_ino :: u32
  ce_inode :: "u8 list"

text \<open>\<open>cache_size\<close> is the length of \<open>ic_cache\<close>.\<close>

record inode_cache =
  ic_buffer :: "u8 list"
  ic_buffer_blk :: u64
  ic_cache_last :: int
  ic_refcount :: int
  ic_cache :: "inode_cache_ent list"

text \<open>\<open>fs_image_io\<close> is the channel of the image when it is not \<open>fs_io\<close> itself.\<close>

record 'd ext2_handle = ext2_filsys +
  fs_io :: "'d io_channel"
  fs_image_io :: "'d io_channel option"
  fs_offset_inode :: u32
  fs_icache :: "inode_cache option"
  fs_now :: u32
  fs_badblocks :: "u32_list option"

section \<open>The inode cache\<close>

definition flush_entries :: "inode_cache \<Rightarrow> inode_cache" where
  "flush_entries ic = ic\<lparr>ic_cache := map (\<lambda>c. c\<lparr>ce_ino := 0\<rparr>) (ic_cache ic), ic_buffer_blk := 0\<rparr>"

definition ext2fs_flush_icache :: "('d, 'a) ext2_handle_scheme \<Rightarrow> ('d, 'a) ext2_handle_scheme \<times> errcode" where
  "ext2fs_flush_icache fs = (fs\<lparr>fs_icache := map_option flush_entries (fs_icache fs)\<rparr>, 0)"

text \<open>The structure is freed when the count of its users drops to zero.\<close>

definition ext2fs_free_inode_cache :: "inode_cache \<Rightarrow> inode_cache option" where
  "ext2fs_free_inode_cache ic =
     (if ic_refcount ic - 1 \<noteq> 0 then Some (ic\<lparr>ic_refcount := ic_refcount ic - 1\<rparr>) else None)"

primrec alloc_entries :: "allocator \<Rightarrow> nat \<Rightarrow> nat \<Rightarrow> inode_cache_ent list option" where
  "alloc_entries mem sz 0 = Some []"
| "alloc_entries mem sz (Suc n) =
     (case mem sz of
        None \<Rightarrow> None
      | Some b \<Rightarrow> map_option ((#) \<lparr>ce_ino = 0, ce_inode = snd b\<rparr>) (alloc_entries mem sz n))"

definition ext2fs_create_inode_cache ::
  "allocator \<Rightarrow> ('d, 'a) ext2_handle_scheme \<Rightarrow> nat \<Rightarrow> ('d, 'a) ext2_handle_scheme \<times> errcode" where
  "ext2fs_create_inode_cache mem fs cache_size =
     (if fs_icache fs \<noteq> None then (fs, 0)
      else if mem 40 = None then (fs, EXT2_ET_NO_MEMORY)
      else case mem (unat (fs_blocksize fs)) of
             None \<Rightarrow> (fs, EXT2_ET_NO_MEMORY)
           | Some buffer \<Rightarrow>
               if mem (cache_size * 16) = None then (fs, EXT2_ET_NO_MEMORY)
               else (case alloc_entries mem (unat (EXT2_INODE_SIZE (fs_super fs))) cache_size of
                  None \<Rightarrow> (fs, EXT2_ET_NO_MEMORY)
                | Some cache \<Rightarrow>
                    ext2fs_flush_icache
                      (fs\<lparr>fs_icache := Some \<lparr>ic_buffer = snd buffer, ic_buffer_blk = 0, ic_cache_last = -1,
                                             ic_refcount = 1, ic_cache = cache\<rparr>\<rparr>)))"

text \<open>The entry that holds an inode, and what a hit copies to the caller.\<close>

definition icache_find :: "inode_cache \<Rightarrow> u32 \<Rightarrow> inode_cache_ent option" where
  "icache_find ic ino = find (\<lambda>c. ce_ino c = ino) (ic_cache ic)"

definition copy_inode :: "u8 list \<Rightarrow> u8 list \<Rightarrow> u8 list" where
  "copy_inode dst src = memcpy_at dst 0 src (min (length dst) (length src))"

text \<open>The block buffer is read again unless it holds the block; a failed read leaves what it stored.\<close>

definition icache_fill ::
  "('d io_channel) io_manager \<Rightarrow> 'd io_channel \<Rightarrow> inode_cache \<Rightarrow> u64 \<Rightarrow> 'd io_channel \<times> inode_cache \<times> errcode" where
  "icache_fill m io ic block_nr =
     (if block_nr = ic_buffer_blk ic then (io, ic, 0)
      else case io_channel_read_blk64 m io block_nr 1 of
             (io, b, retval) \<Rightarrow>
               let ic = ic\<lparr>ic_buffer := memcpy_at (ic_buffer ic) 0 b (length b)\<rparr>
               in (io, if retval \<noteq> 0 then ic else ic\<lparr>ic_buffer_blk := block_nr\<rparr>, retval))"

section \<open>Reading an inode\<close>

text \<open>The copy into the cache entry \<open>slot\<close>, block by block.\<close>

partial_function (option) read_inode_loop ::
  "('d io_channel) io_manager \<Rightarrow> nat \<Rightarrow> nat \<Rightarrow> 'd io_channel \<Rightarrow> inode_cache \<Rightarrow> nat \<Rightarrow> u64 \<Rightarrow> nat \<Rightarrow> nat
   \<Rightarrow> ('d io_channel \<times> inode_cache \<times> errcode) option" where
  "read_inode_loop m bs slot io ic ptr block_nr off n =
     (if n = 0 then Some (io, ic, 0)
      else let clen = (if off + n > bs then bs - off else n)
           in case icache_fill m io ic block_nr of
                (io, ic, retval) \<Rightarrow>
                  if retval \<noteq> 0 then Some (io, ic, retval)
                  else let e = ic_cache ic ! slot;
                           e = e\<lparr>ce_inode := memcpy_at (ce_inode e) ptr (drop off (ic_buffer ic)) clen\<rparr>
                       in read_inode_loop m bs slot io (ic\<lparr>ic_cache := (ic_cache ic)[slot := e]\<rparr>)
                            (ptr + clen) (block_nr + 1) 0 (n - clen))"

text \<open>The block and the offset of an inode in the table of its group.\<close>

definition inode_place :: "'a fs_base_scheme \<Rightarrow> u32 \<Rightarrow> errcode + u64 \<times> nat" where
  "inode_place fs ino =
     (let group = (ino - 1) div s_inodes_per_group (fs_super fs);
          off = ((ino - 1) mod s_inodes_per_group (fs_super fs)) * ucast (EXT2_INODE_SIZE (fs_super fs));
          block = drop_bit (unat (s_log_block_size (fs_super fs) + 10)) off;
          block_nr = ext2fs_inode_table_loc fs group
      in if block_nr = 0 then Inl EXT2_ET_MISSING_INODE_TABLE
         else if block_nr < ucast (s_first_data_block (fs_super fs))
                \<or> block_nr + ucast (fs_inode_blocks_per_group fs) - 1 \<ge> ext2fs_blocks_count (fs_super fs)
              then Inl EXT2_ET_GDESC_BAD_INODE_TABLE
              else Inr (block_nr + ucast block, unat (off AND (EXT2_BLOCK_SIZE (fs_super fs) - 1))))"

definition image_place :: "('d, 'a) ext2_handle_scheme \<Rightarrow> u32 \<Rightarrow> u64 \<times> nat" where
  "image_place fs ino =
     (let inodes_per_block = fs_blocksize fs div ucast (EXT2_INODE_SIZE (fs_super fs));
          block_nr = ucast (fs_offset_inode fs div fs_blocksize fs) + ucast ((ino - 1) div inodes_per_block);
          off = ((ino - 1) mod inodes_per_block) * ucast (EXT2_INODE_SIZE (fs_super fs))
      in (block_nr, unat (off AND (EXT2_BLOCK_SIZE (fs_super fs) - 1))))"

definition read_place :: "('d, 'a) ext2_handle_scheme \<Rightarrow> u32 \<Rightarrow> errcode + u64 \<times> nat" where
  "read_place fs ino =
     (if fs_flags fs AND EXT2_FLAG_IMAGE_FILE \<noteq> 0 then Inr (image_place fs ino)
      else if (ino - 1) div s_inodes_per_group (fs_super fs) > fs_group_desc_count fs then Inl EXT2_ET_BAD_INODE_NUM
      else inode_place fs ino)"

text \<open>The channel that is read: the image is one when it is open beside the device.\<close>

definition from_image :: "('d, 'a) ext2_handle_scheme \<Rightarrow> bool" where
  "from_image fs \<longleftrightarrow> fs_flags fs AND EXT2_FLAG_IMAGE_FILE \<noteq> 0 \<and> fs_image_io fs \<noteq> None"

definition read_io :: "('d, 'a) ext2_handle_scheme \<Rightarrow> 'd io_channel" where
  "read_io fs = (if from_image fs then the (fs_image_io fs) else fs_io fs)"

definition set_read_io :: "('d, 'a) ext2_handle_scheme \<Rightarrow> 'd io_channel \<Rightarrow> ('d, 'a) ext2_handle_scheme" where
  "set_read_io fs io = (if from_image fs then fs\<lparr>fs_image_io := Some io\<rparr> else fs\<lparr>fs_io := io\<rparr>)"

text \<open>
  A miss fills the entry after the last one used. The entry counts as the inode's only when the
  checksum is right, but it is overwritten in any case.
\<close>

definition read_inode_miss ::
  "('d io_channel) io_manager \<Rightarrow> ('d, 'a) ext2_handle_scheme \<Rightarrow> inode_cache \<Rightarrow> u32 \<Rightarrow> u8 list \<Rightarrow> u32
   \<Rightarrow> (('d, 'a) ext2_handle_scheme \<times> u8 list \<times> errcode) option" where
  "read_inode_miss m fs ic ino buf flags =
     (case read_place fs ino of
        Inl retval \<Rightarrow> Some (fs, buf, retval)
      | Inr (block_nr, off) \<Rightarrow>
          let slot = nat (ic_cache_last ic + 1) mod length (ic_cache ic)
          in case read_inode_loop m (unat (fs_blocksize fs)) slot (read_io fs) ic 0 block_nr off
                    (unat (EXT2_INODE_SIZE (fs_super fs))) of
               None \<Rightarrow> None
             | Some (io, ic, retval) \<Rightarrow>
                 if retval \<noteq> 0 then Some ((set_read_io fs io)\<lparr>fs_icache := Some ic\<rparr>, buf, retval)
                 else let iptr = ce_inode (ic_cache ic ! slot);
                          fail_csum = (ext2fs_inode_csum_verify fs ino iptr = 0);
                          ic = (if fail_csum then ic
                                else ic\<lparr>ic_cache_last := int slot,
                                        ic_cache := (ic_cache ic)[slot := \<lparr>ce_ino = ino, ce_inode = iptr\<rparr>]\<rparr>)
                      in Some ((set_read_io fs io)\<lparr>fs_icache := Some ic\<rparr>, copy_inode buf iptr,
                               if fs_flags fs AND EXT2_FLAG_IGNORE_CSUM_ERRORS = 0 \<and> flags AND READ_INODE_NOCSUM = 0
                                  \<and> fail_csum
                               then EXT2_ET_INODE_CSUM_INVALID else 0))"

definition ext2fs_read_inode2 ::
  "allocator \<Rightarrow> ('d io_channel) io_manager \<Rightarrow> ('d, 'a) ext2_handle_scheme \<Rightarrow> u32 \<Rightarrow> u8 list \<Rightarrow> u32
   \<Rightarrow> (('d, 'a) ext2_handle_scheme \<times> u8 list \<times> errcode) option" where
  "ext2fs_read_inode2 mem m fs ino buf flags =
     (if fs_magic fs \<noteq> EXT2_ET_MAGIC_EXT2FS_FILSYS then Some (fs, buf, EXT2_ET_MAGIC_EXT2FS_FILSYS)
      else if ext2fs_has_feature_journal_dev (fs_super fs) then Some (fs, buf, EXT2_ET_EXTERNAL_JOURNAL_NOSUPP)
      else if fs_blocksize fs < 1024 then Some (fs, buf, EXT2_FILSYS_CORRUPTED)
      else if ino = 0 \<or> ino > s_inodes_count (fs_super fs) then Some (fs, buf, EXT2_ET_BAD_INODE_NUM)
      else case ext2fs_create_inode_cache mem fs 4 of
             (fs, retval) \<Rightarrow>
               if retval \<noteq> 0 then Some (fs, buf, retval)
               else let ic = the (fs_icache fs)
                    in case icache_find ic ino of
                         Some e \<Rightarrow> Some (fs, copy_inode buf (ce_inode e), 0)
                       | None \<Rightarrow> read_inode_miss m fs ic ino buf flags)"

definition ext2fs_read_inode_full ::
  "allocator \<Rightarrow> ('d io_channel) io_manager \<Rightarrow> ('d, 'a) ext2_handle_scheme \<Rightarrow> u32 \<Rightarrow> u8 list
   \<Rightarrow> (('d, 'a) ext2_handle_scheme \<times> u8 list \<times> errcode) option" where
  "ext2fs_read_inode_full mem m fs ino buf = ext2fs_read_inode2 mem m fs ino buf 0"

text \<open>Reading into a \<open>struct ext2_inode\<close>.\<close>

definition ext2fs_read_inode ::
  "allocator \<Rightarrow> ('d io_channel) io_manager \<Rightarrow> ('d, 'a) ext2_handle_scheme \<Rightarrow> u32 \<Rightarrow> ext2_inode
   \<Rightarrow> (('d, 'a) ext2_handle_scheme \<times> ext2_inode \<times> errcode) option" where
  "ext2fs_read_inode mem m fs ino inode =
     map_option (\<lambda>(fs, b, retval). (fs, inode_of b, retval)) (ext2fs_read_inode2 mem m fs ino (inode_bytes inode) 0)"

section \<open>Writing an inode\<close>

partial_function (option) write_inode_loop ::
  "('d io_channel) io_manager \<Rightarrow> nat \<Rightarrow> u8 list \<Rightarrow> 'd io_channel \<Rightarrow> inode_cache \<Rightarrow> nat \<Rightarrow> u64 \<Rightarrow> nat \<Rightarrow> nat
   \<Rightarrow> ('d io_channel \<times> inode_cache \<times> errcode) option" where
  "write_inode_loop m bs w_inode io ic ptr block_nr off n =
     (if n = 0 then Some (io, ic, 0)
      else let clen = (if off + n > bs then bs - off else n)
           in case icache_fill m io ic block_nr of
                (io, ic, retval) \<Rightarrow>
                  if retval \<noteq> 0 then Some (io, ic, retval)
                  else let ic = ic\<lparr>ic_buffer := memcpy_at (ic_buffer ic) off (drop ptr w_inode) clen\<rparr>
                       in case io_channel_write_blk64 m io block_nr 1 (ic_buffer ic) of
                            (io, retval) \<Rightarrow>
                              if retval \<noteq> 0 then Some (io, ic, retval)
                              else write_inode_loop m bs w_inode io ic (ptr + clen) (block_nr + 1) 0 (n - clen))"

text \<open>The cache entry of the inode is updated before anything is checked or written.\<close>

fun update_entry :: "u32 \<Rightarrow> u8 list \<Rightarrow> inode_cache_ent list \<Rightarrow> inode_cache_ent list" where
  "update_entry ino inode [] = []"
| "update_entry ino inode (c # cs) =
     (if ce_ino c = ino
      then c\<lparr>ce_inode := memcpy_at (ce_inode c) 0 inode (min (length inode) (length (ce_inode c)))\<rparr> # cs
      else c # update_entry ino inode cs)"

definition write_inode_out ::
  "('d io_channel) io_manager \<Rightarrow> ('d, 'a) ext2_handle_scheme \<Rightarrow> u32 \<Rightarrow> u8 list \<Rightarrow> u32
   \<Rightarrow> (('d, 'a) ext2_handle_scheme \<times> errcode) option" where
  "write_inode_out m fs ino w_inode flags =
     (if fs_flags fs AND EXT2_FLAG_RW = 0 then Some (fs, EXT2_ET_RO_FILSYS)
      else case (if flags AND WRITE_INODE_NOCSUM = 0 then ext2fs_inode_csum_set fs ino w_inode else (w_inode, 0)) of
             (w_inode, retval) \<Rightarrow>
               if retval \<noteq> 0 then Some (fs, retval)
               else case inode_place fs ino of
                      Inl retval \<Rightarrow> Some (fs, retval)
                    | Inr (block_nr, off) \<Rightarrow>
                        case write_inode_loop m (unat (fs_blocksize fs)) w_inode (fs_io fs) (the (fs_icache fs)) 0
                               block_nr off (unat (EXT2_INODE_SIZE (fs_super fs))) of
                          None \<Rightarrow> None
                        | Some (io, ic, retval) \<Rightarrow>
                            let fs = fs\<lparr>fs_io := io, fs_icache := Some ic\<rparr>
                            in Some (if retval \<noteq> 0 then fs else ext2fs_mark_changed fs, retval))"

definition ext2fs_write_inode2 ::
  "allocator \<Rightarrow> ('d io_channel) io_manager \<Rightarrow> ('d, 'a) ext2_handle_scheme \<Rightarrow> u32 \<Rightarrow> u8 list \<Rightarrow> u32
   \<Rightarrow> (('d, 'a) ext2_handle_scheme \<times> errcode) option" where
  "ext2fs_write_inode2 mem m fs ino inode flags =
     (let n = unat (EXT2_INODE_SIZE (fs_super fs))
      in if fs_magic fs \<noteq> EXT2_ET_MAGIC_EXT2FS_FILSYS then Some (fs, EXT2_ET_MAGIC_EXT2FS_FILSYS)
         else if ext2fs_has_feature_journal_dev (fs_super fs) then Some (fs, EXT2_ET_EXTERNAL_JOURNAL_NOSUPP)
         else if ino = 0 \<or> ino > s_inodes_count (fs_super fs) then Some (fs, EXT2_ET_BAD_INODE_NUM)
         else case mem n of
                None \<Rightarrow> Some (fs, EXT2_ET_NO_MEMORY)
              | Some w \<Rightarrow>
                  (case (if length inode < n then ext2fs_read_inode2 mem m fs ino (snd w) READ_INODE_NOCSUM
                         else Some (fs, snd w, 0)) of
                     None \<Rightarrow> None
                   | Some (fs, w_inode, retval) \<Rightarrow>
                       if retval \<noteq> 0 then Some (fs, retval)
                       else case (case fs_icache fs of
                                    Some ic \<Rightarrow>
                                      (fs\<lparr>fs_icache := Some (ic\<lparr>ic_cache := update_entry ino inode (ic_cache ic)\<rparr>)\<rparr>, 0)
                                  | None \<Rightarrow> ext2fs_create_inode_cache mem fs 4) of
                              (fs, retval) \<Rightarrow>
                                if retval \<noteq> 0 then Some (fs, retval)
                                else write_inode_out m fs ino (memcpy_at w_inode 0 inode (min (length inode) n)) flags))"

definition ext2fs_write_inode_full ::
  "allocator \<Rightarrow> ('d io_channel) io_manager \<Rightarrow> ('d, 'a) ext2_handle_scheme \<Rightarrow> u32 \<Rightarrow> u8 list
   \<Rightarrow> (('d, 'a) ext2_handle_scheme \<times> errcode) option" where
  "ext2fs_write_inode_full mem m fs ino inode = ext2fs_write_inode2 mem m fs ino inode 0"

definition ext2fs_write_inode ::
  "allocator \<Rightarrow> ('d io_channel) io_manager \<Rightarrow> ('d, 'a) ext2_handle_scheme \<Rightarrow> u32 \<Rightarrow> ext2_inode
   \<Rightarrow> (('d, 'a) ext2_handle_scheme \<times> errcode) option" where
  "ext2fs_write_inode mem m fs ino inode = ext2fs_write_inode2 mem m fs ino (inode_bytes inode) 0"

text \<open>\<open>now\<close> is the clock of the kernel, \<open>get_time\<close>. The extra part of a large inode starts at offset 128.\<close>

definition stamp :: "u32 \<Rightarrow> ext2_inode \<Rightarrow> ext2_inode" where
  "stamp t inode =
     (let inode = (if i_ctime inode = 0 then inode\<lparr>i_ctime := t\<rparr> else inode);
          inode = (if i_mtime inode = 0 then inode\<lparr>i_mtime := t\<rparr> else inode)
      in if i_atime inode = 0 then inode\<lparr>i_atime := t\<rparr> else inode)"

definition ext2fs_write_new_inode ::
  "allocator \<Rightarrow> ('d io_channel) io_manager \<Rightarrow> u32 \<Rightarrow> ('d, 'a) ext2_handle_scheme \<Rightarrow> u32 \<Rightarrow> ext2_inode
   \<Rightarrow> (('d, 'a) ext2_handle_scheme \<times> ext2_inode \<times> errcode) option" where
  "ext2fs_write_new_inode mem m now fs ino inode =
     (let size = unat (EXT2_INODE_SIZE (fs_super fs));
          t = (if fs_now fs \<noteq> 0 then fs_now fs else now);
          inode = stamp t inode
      in map_option (\<lambda>(fs, retval). (fs, inode, retval))
           (if size = 128 then ext2fs_write_inode_full mem m fs ino (inode_bytes inode)
            else if mem size = None then Some (fs, ENOMEM)
            else let buf = memcpy_at (replicate size 0) 0 (inode_bytes inode) 128;
                     buf = put16 buf 128 32;
                     buf = put32 buf 144 t
                 in ext2fs_write_inode_full mem m fs ino buf))"

definition ext2fs_get_blocks ::
  "allocator \<Rightarrow> ('d io_channel) io_manager \<Rightarrow> ('d, 'a) ext2_handle_scheme \<Rightarrow> u32 \<Rightarrow> ext2_inode
   \<Rightarrow> (('d, 'a) ext2_handle_scheme \<times> (errcode + u32 list)) option" where
  "ext2fs_get_blocks mem m fs ino inode =
     (if fs_magic fs \<noteq> EXT2_ET_MAGIC_EXT2FS_FILSYS then Some (fs, Inl EXT2_ET_MAGIC_EXT2FS_FILSYS)
      else if ino > s_inodes_count (fs_super fs) then Some (fs, Inl EXT2_ET_BAD_INODE_NUM)
      else map_option (\<lambda>(fs, inode, retval). (fs, if retval \<noteq> 0 then Inl retval else Inr (i_block inode)))
             (ext2fs_read_inode mem m fs ino inode))"

definition ext2fs_check_directory ::
  "allocator \<Rightarrow> ('d io_channel) io_manager \<Rightarrow> ('d, 'a) ext2_handle_scheme \<Rightarrow> u32 \<Rightarrow> ext2_inode
   \<Rightarrow> (('d, 'a) ext2_handle_scheme \<times> errcode) option" where
  "ext2fs_check_directory mem m fs ino inode =
     (if fs_magic fs \<noteq> EXT2_ET_MAGIC_EXT2FS_FILSYS then Some (fs, EXT2_ET_MAGIC_EXT2FS_FILSYS)
      else if ino > s_inodes_count (fs_super fs) then Some (fs, EXT2_ET_BAD_INODE_NUM)
      else map_option (\<lambda>(fs, inode, retval). (fs, if retval \<noteq> 0 then retval
                                                 else if \<not> LINUX_S_ISDIR (i_mode inode) then EXT2_ET_NO_DIRECTORY else 0))
             (ext2fs_read_inode mem m fs ino inode))"

end
