(* ===== verification/Block_dev.thy ===== *)
theory Block_dev
  imports Io_Theorems
begin

text \<open>
  What the layers above the I/O channel rely on, as locales: a device \<open>V\<close> that maps a block number to
  \<open>bs\<close> bytes, where reading one block changes nothing and writing one block changes that block. When
  the device is \<open>lossy\<close>, a write may be forgotten although it reports success, as the channel of
  \<^verbatim>\<open>xnu_io.c\<close> does when it cannot evict a dirty block; over a reliable vnode it is not lossy.
\<close>

locale block_dev_any =
  fixes m :: "('d io_channel) io_manager"
    and dinv :: "'d io_channel \<Rightarrow> bool"
    and V :: "'d io_channel \<Rightarrow> u64 \<Rightarrow> u8 list"
    and bs :: nat
    and lossy :: bool
  assumes dev_read: "dinv io \<Longrightarrow> io_channel_read_blk64 m io b 1 = (io', buf, err) \<Longrightarrow>
      dinv io' \<and> V io' = V io \<and> (err = 0 \<longrightarrow> buf = V io b)"
    and dev_any_write: "dinv io \<Longrightarrow> length buf = bs \<Longrightarrow> io_channel_write_blk64 m io b 1 buf = (io', err) \<Longrightarrow>
      err = 0 \<and> dinv io' \<and> (V io' = (V io)(b := buf) \<or> lossy \<and> V io' = V io)"
    and dev_length: "dinv io \<Longrightarrow> length (V io b) = bs"

locale block_dev = block_dev_any m dinv V bs False
  for m :: "('d io_channel) io_manager" and dinv :: "'d io_channel \<Rightarrow> bool"
    and V :: "'d io_channel \<Rightarrow> u64 \<Rightarrow> u8 list" and bs :: nat
begin

lemma dev_write: "dinv io \<Longrightarrow> length buf = bs \<Longrightarrow> io_channel_write_blk64 m io b 1 buf = (io', err) \<Longrightarrow>
    err = 0 \<and> dinv io' \<and> V io' = (V io)(b := buf)"
  using dev_any_write by simp

end

definition xnu_any_dev :: "'d vnode_ops \<Rightarrow> ('d \<Rightarrow> int \<Rightarrow> u8) \<Rightarrow> nat \<Rightarrow> 'd io_channel \<Rightarrow> bool" where
  "xnu_any_dev ops content bs io \<longleftrightarrow> vnode_ok ops content \<and> xnu_inv content io \<and> io_block_size io = bs"

definition xnu_dev :: "'d vnode_ops \<Rightarrow> ('d \<Rightarrow> int \<Rightarrow> u8) \<Rightarrow> nat \<Rightarrow> 'd io_channel \<Rightarrow> bool" where
  "xnu_dev ops content bs io \<longleftrightarrow> vnode_ok ops content \<and> vnode_reliable ops \<and> xnu_inv content io \<and> io_block_size io = bs"

lemma xnu_manager_simps:
  "io_checks io = 0 \<Longrightarrow> io_channel_read_blk64 (xnu_io_manager ops) io b n = xnu_read_blk64 ops io b n"
  "io_checks io = 0 \<Longrightarrow> io_channel_write_blk64 (xnu_io_manager ops) io b n buf = xnu_write_blk64 ops io b n buf"
  by (simp_all add: io_channel_read_blk64_def io_channel_write_blk64_def xnu_io_manager_def io_checks_def split: if_splits)

lemma put_blocks_1: "length buf = bs \<Longrightarrow> put_blocks v b bs 1 buf = v(b := buf)"
  by (auto simp: put_blocks_def fun_eq_iff word_unat_eq_iff split: if_splits)

lemma xnu_any_read:
  assumes "xnu_any_dev ops content bs io" "io_channel_read_blk64 (xnu_io_manager ops) io b 1 = (io', buf, err)"
  shows "xnu_any_dev ops content bs io' \<and> view content io' = view content io \<and> (err = 0 \<longrightarrow> buf = view content io b)"
proof -
  have v: "vnode_ok ops content" and i: "xnu_inv content io" and c: "io_checks io = 0" and l: "io_block_size io = bs"
    using assms(1) by (auto simp: xnu_any_dev_def xnu_inv_def)
  have "xnu_read_blk64 ops io b (int 1) = (io', buf, err)" using assms(2) c by (simp add: xnu_manager_simps)
  moreover have "unat b + 1 \<le> 2 ^ 64" using unsigned_less [of b, where ?'a = nat] by simp
  ultimately have s: "same_view content io io'" "err = 0 \<longrightarrow> buf = view_run content io b 1" using xnu_read [OF v i] by blast+
  then show ?thesis using same_view_inv [OF s(1) i] v l
    by (simp add: xnu_any_dev_def same_view_def view_run_def)
qed

lemma xnu_any_write:
  assumes "xnu_any_dev ops content bs io" "length buf = bs"
    "io_channel_write_blk64 (xnu_io_manager ops) io b 1 buf = (io', err)"
  shows "err = 0 \<and> xnu_any_dev ops content bs io'"
    "view content io' = (view content io)(b := buf) \<or> view content io' = view content io"
    "vnode_reliable ops \<Longrightarrow> view content io' = (view content io)(b := buf)"
proof -
  have v: "vnode_ok ops content" and i: "xnu_inv content io" and c: "io_checks io = 0" and l: "io_block_size io = bs"
    using assms(1) by (auto simp: xnu_any_dev_def xnu_inv_def)
  have w: "xnu_write_blk64 ops io b (int 1) buf = (io', err)" using assms(3) c by (simp add: xnu_manager_simps)
  have n: "1 * io_block_size io \<le> length buf" using assms(2) l by simp
  note s = xnu_small_write [OF v i _ n w]
  show "err = 0 \<and> xnu_any_dev ops content bs io'" using s(1-3) v l by (simp add: xnu_any_dev_def)
  obtain k where k: "k \<le> 1" "view content io' = put_blocks (view content io) b (io_block_size io) k buf"
    "vnode_reliable ops \<longrightarrow> k = 1" using s(4) by auto
  then show "vnode_reliable ops \<Longrightarrow> view content io' = (view content io)(b := buf)"
    using assms(2) l by (simp add: put_blocks_1)
  have "k = 0 \<or> k = 1" using k(1) by auto
  then show "view content io' = (view content io)(b := buf) \<or> view content io' = view content io"
    using k(2) assms(2) l by (auto simp: put_blocks_1)
qed

lemma xnu_dev_any: "xnu_dev ops content bs io \<longleftrightarrow> xnu_any_dev ops content bs io \<and> vnode_reliable ops"
  by (auto simp: xnu_dev_def xnu_any_dev_def)

interpretation xany: block_dev_any "xnu_io_manager ops" "xnu_any_dev ops content bs" "view content" bs True
  for ops :: "'d vnode_ops" and content bs
proof (unfold_locales, goal_cases)
  case (1 io b io' buf err)
  then show ?case by (rule xnu_any_read)
next
  case (2 io buf b io' err)
  then show ?case using xnu_any_write(1,2) by blast
next
  case (3 io b)
  then show ?case by (simp add: xnu_any_dev_def xnu_inv_def length_view)
qed

interpretation xdev: block_dev "xnu_io_manager ops" "xnu_dev ops content bs" "view content" bs
  for ops :: "'d vnode_ops" and content bs
proof (unfold_locales, goal_cases)
  case (1 io b io' buf err)
  then show ?case unfolding xnu_dev_any using xnu_any_read by blast
next
  case (2 io buf b io' err)
  then show ?case unfolding xnu_dev_any using xnu_any_write(1,3) by blast
next
  case (3 io b)
  then show ?case unfolding xnu_dev_any using xany.dev_length by blast
qed

section \<open>Devices that do not fail\<close>

text \<open>Over a vnode that also reads what it is asked for, no transfer of one block fails.\<close>

locale block_dev_total = block_dev +
  assumes dev_total: "dinv io \<Longrightarrow> io_channel_read_blk64 m io b 1 = (io', buf, err) \<Longrightarrow> err = 0"
begin

lemma dev_read_total: "dinv io \<Longrightarrow> \<exists>io'. io_channel_read_blk64 m io b 1 = (io', V io b, 0) \<and> dinv io' \<and> V io' = V io"
  using dev_read dev_total by (metis prod_cases3)

lemma dev_write_total:
  "dinv io \<Longrightarrow> length buf = bs \<Longrightarrow> \<exists>io'. io_channel_write_blk64 m io b 1 buf = (io', 0) \<and> dinv io' \<and> V io' = (V io)(b := buf)"
  using dev_write by (metis surj_pair)

end

definition vnode_readable :: "'d vnode_ops \<Rightarrow> bool" where
  "vnode_readable ops \<longleftrightarrow> (\<forall>d n off. fst (snd (vpread ops d n off)) = int n)"

lemma read_1_total:
  assumes v: "vnode_ok ops content" "vnode_reliable ops" "vnode_readable ops" and ok: "cache_ok content ch"
    and r: "read_loop ops 1 ch b [] = (ch', buf, err)"
  shows "err = 0"
proof -
  have len: "length (xd_cache ch) = CACHE_SIZE" using ok by (simp add: cache_ok_def)
  obtain ch1 q where f: "find_cached_block ch b = (ch1, q)" by (metis surj_pair)
  note eq1 = find_cached_block(1) [where content = content, OF len f] and fr = find_cached_block(2) [OF len f]
  note s1 = chan_eq_same_view [OF eq1 ok]
  show ?thesis
  proof (cases q)
    case (Inl i)
    then show ?thesis using r f by (simp add: read_loop_step)
  next
    case (Inr e)
    obtain ch2 cp e2 where rr: "raw_read_blk ops ch1 b 1 = (ch2, cp, e2)" by (metis prod_cases3)
    have e2: "e2 = 0" using rr v(3) by (auto simp: raw_read_blk_def vnode_readable_def Let_def split: prod.splits if_splits) (metis fst_conv snd_conv)+
    obtain d where d: "ch2 = ch1\<lparr>xd_vp := d\<rparr>" "content d = content (xd_vp ch1)"
      using raw_read_blk(1) [OF v(1), of ch1 b 1] rr by auto
    then have c2: "chan_eq content ch1 ch2" by (simp add: chan_eq_def entry_eq_def)
    note s2 = chan_eq_same_view [OF c2 same_view_ok [OF s1]]
    have "\<not> (\<exists>i. cached_at ch1 i b)" using fr Inr chan_eq_cached_at [OF eq1] by simp
    then have "view content ch1 b = dev_block content ch1 b" by (rule view_uncached)
    moreover have "cp = dev_block content ch1 b" using raw_read_blk(2) [OF v(1), of ch1 b 1] rr e2 by simp
    ultimately have cp: "cp = view_run content ch2 b 1"
      using s2 by (simp add: same_view_def view_run_def)
    obtain ch3 e3 where sv: "save_in_cache ops 1 ch2 b cp = (ch3, e3)" by (metis surj_pair)
    have "e3 = 0" using save_in_cache [OF v(1) same_view_ok [OF s2] cp sv] v(2) by blast
    then show ?thesis using r f Inr rr e2 sv by (simp add: read_loop_step)
  qed
qed

interpretation xdev_total: block_dev_total "xnu_io_manager ops"
  "\<lambda>io. xnu_dev ops content bs io \<and> vnode_readable ops" "view content" bs
  for ops :: "'d vnode_ops" and content bs
proof (unfold_locales, goal_cases)
  case (1 io b io' buf err)
  then show ?case using xdev.dev_read by blast
next
  case (2 io buf b io' err)
  then show ?case using xdev.dev_write by blast
next
  case (3 io b)
  then show ?case using xdev.dev_length by blast
next
  case (4 io b io' buf err)
  then have v: "vnode_ok ops content" "vnode_reliable ops" "vnode_readable ops" and i: "xnu_inv content io"
    by (auto simp: xnu_dev_def)
  have "read_loop ops 1 io b [] = (io', buf, err)"
    using 4(2) i by (simp add: xnu_manager_simps xnu_inv_def xnu_read_blk64_def)
  then show ?case using i by (intro read_1_total [OF v]) (simp_all add: xnu_inv_def)
qed

end
