(* ===== verification/Inode_cache.thy ===== *)
theory Inode_cache
  imports Inode_io Block_dev
begin

text \<open>
  What reading and writing an inode does to a block device. \<open>icache_coh\<close> says that the block buffer of the
  inode cache holds the block it claims to hold; \<open>disk_inode\<close> is the inode on the device. The lemmas are
  stated in the locale \<open>block_dev\<close>.
\<close>

section \<open>The bytes of an inode\<close>

lemma length_bytes [simp]: "length (bytes16 a) = 2" "length (bytes32 v) = 4"
  by (simp_all add: bytes16_def bytes32_def)

lemma get16_bytes [simp]: "get16 (bytes16 v @ xs) 0 = v"
  by (rule bit_word_eqI) (auto simp: get16_def bytes16_def bit_simps)

lemma get32_bytes [simp]: "get32 (bytes32 v @ xs) 0 = v"
proof (rule bit_word_eqI)
  fix n assume "n < LENGTH(32)"
  then consider "n < 8" | "8 \<le> n" "n < 16" | "16 \<le> n" "n < 24" | "24 \<le> n" "n < 32" by fastforce
  then show "bit (get32 (bytes32 v @ xs) 0) n \<longleftrightarrow> bit v n"
    by cases (auto simp: get32_def get16_def bytes32_def bit_simps)
qed

lemma get_append: "get16 (xs @ ys) n = get16 ys (n - length xs)" "get32 (xs @ ys) n = get32 ys (n - length xs)"
  if "length xs \<le> n"
  using that by (simp_all add: get32_def get16_def nth_append Suc_diff_le)

lemma get16_bytes_end [simp]: "get16 (bytes16 v) 0 = v"
  using get16_bytes [of v "[]"] by simp

lemma length_concat_bytes32 [simp]: "length (concat (map bytes32 xs)) = 4 * length xs"
  by (induction xs) auto

lemma get32_concat: "k < length xs \<Longrightarrow> get32 (concat (map bytes32 xs) @ ys) (4 * k) = xs ! k"
proof (induction xs arbitrary: k)
  case (Cons x xs)
  show ?case
  proof (cases k)
    case (Suc j)
    then show ?thesis using Cons by (simp add: get_append)
  qed simp
qed simp

lemma length_inode_bytes: "length (i_block i) = 15 \<Longrightarrow> length (inode_bytes i) = 128"
  by (simp add: inode_bytes_def)

lemma inode_of_bytes: "length (i_block i) = 15 \<Longrightarrow> inode_of (inode_bytes i) = i"
  by (cases i) (auto simp: inode_of_def inode_bytes_def get_append get32_concat intro!: nth_equalityI)

section \<open>The invariant\<close>

definition icache_coh :: "(u64 \<Rightarrow> u8 list) \<Rightarrow> nat \<Rightarrow> inode_cache \<Rightarrow> bool" where
  "icache_coh v bs ic \<longleftrightarrow> length (ic_buffer ic) = bs \<and> (ic_buffer_blk ic \<noteq> 0 \<longrightarrow> ic_buffer ic = v (ic_buffer_blk ic))"

definition icache_shape :: "nat \<Rightarrow> inode_cache \<Rightarrow> bool" where
  "icache_shape n ic \<longleftrightarrow> ic_cache ic \<noteq> [] \<and> (\<forall>c \<in> set (ic_cache ic). length (ce_inode c) = n)"

definition isize :: "'a fs_base_scheme \<Rightarrow> nat" where
  "isize fs = unat (EXT2_INODE_SIZE (fs_super fs))"

definition bsize :: "'a fs_base_scheme \<Rightarrow> nat" where
  "bsize fs = unat (fs_blocksize fs)"

definition icache_inv :: "(u64 \<Rightarrow> u8 list) \<Rightarrow> ('d, 'a) ext2_handle_scheme \<Rightarrow> bool" where
  "icache_inv v fs \<longleftrightarrow> (case fs_icache fs of None \<Rightarrow> True
      | Some ic \<Rightarrow> icache_coh v (bsize fs) ic \<and> icache_shape (isize fs) ic)"

definition disk_inode :: "(u64 \<Rightarrow> u8 list) \<Rightarrow> 'a fs_base_scheme \<Rightarrow> u32 \<Rightarrow> u8 list" where
  "disk_inode v fs ino =
     (case inode_place fs ino of Inl _ \<Rightarrow> [] | Inr (b, off) \<Rightarrow> take (isize fs) (drop off (v b)))"

text \<open>A device file system whose inodes do not straddle blocks.\<close>

definition inode_fits :: "'a fs_base_scheme \<Rightarrow> u32 \<Rightarrow> bool" where
  "inode_fits fs ino \<longleftrightarrow> (\<forall>b off. inode_place fs ino = Inr (b, off) \<longrightarrow> b \<noteq> 0 \<and> off + isize fs \<le> bsize fs)"

definition on_device :: "'a fs_base_scheme \<Rightarrow> bool" where
  "on_device fs \<longleftrightarrow> fs_flags fs AND EXT2_FLAG_IMAGE_FILE = 0 \<and> 128 \<le> isize fs"

lemma icache_coh_0 [simp]: "ic_buffer_blk ic = 0 \<Longrightarrow> icache_coh v bs ic \<longleftrightarrow> length (ic_buffer ic) = bs"
  by (simp add: icache_coh_def)

lemma alloc_entries_shape:
  "alloc_sized mem \<Longrightarrow> alloc_entries mem sz n = Some cs \<Longrightarrow> length cs = n \<and> (\<forall>c \<in> set cs. length (ce_inode c) = sz)"
  by (induction n arbitrary: cs) (auto simp: alloc_sized_def split: option.splits)

text \<open>Creating the cache changes nothing else.\<close>

lemma create_inode_cache:
  assumes "alloc_sized mem" "icache_inv v fs" "ext2fs_create_inode_cache mem fs 4 = (fs1, err)"
  shows "icache_inv v fs1" "err = 0 \<Longrightarrow> fs_icache fs1 \<noteq> None" "\<exists>ic. fs1 = fs\<lparr>fs_icache := ic\<rparr>"
    "fs_icache fs \<noteq> None \<Longrightarrow> fs1 = fs"
    "err = 0 \<Longrightarrow> fs_icache fs = None \<Longrightarrow> ino \<noteq> 0 \<Longrightarrow> icache_find (the (fs_icache fs1)) ino = None"
proof -
  have "icache_inv v fs1 \<and> (err = 0 \<longrightarrow> fs_icache fs1 \<noteq> None) \<and> (\<exists>ic. fs1 = fs\<lparr>fs_icache := ic\<rparr>)
    \<and> (fs_icache fs \<noteq> None \<longrightarrow> fs1 = fs)
    \<and> (err = 0 \<longrightarrow> fs_icache fs = None \<longrightarrow> ino \<noteq> 0 \<longrightarrow> icache_find (the (fs_icache fs1)) ino = None)"
  proof (cases "fs_icache fs \<noteq> None \<or> mem 40 = None \<or> mem (unat (fs_blocksize fs)) = None \<or> mem 64 = None
      \<or> alloc_entries mem (unat (EXT2_INODE_SIZE (fs_super fs))) 4 = None")
    case True
    then have "fs1 = fs" "err = 0 \<longrightarrow> fs_icache fs \<noteq> None"
      using assms(3) by (auto simp: ext2fs_create_inode_cache_def split: if_splits option.splits)
    then show ?thesis using assms(2) by (auto intro: exI [of _ "fs_icache fs"])
  next
    case False
    then obtain bf cs where m: "mem (unat (fs_blocksize fs)) = Some bf"
      "alloc_entries mem (unat (EXT2_INODE_SIZE (fs_super fs))) 4 = Some cs" by auto
    have l: "length (snd bf) = unat (fs_blocksize fs)" using assms(1) m(1) unfolding alloc_sized_def by blast
    note sh = alloc_entries_shape [OF assms(1) m(2)]
    define ic where "ic = flush_entries \<lparr>ic_buffer = snd bf, ic_buffer_blk = 0, ic_cache_last = - 1, ic_refcount = 1, ic_cache = cs\<rparr>"
    have f: "fs1 = fs\<lparr>fs_icache := Some ic\<rparr>" "err = 0"
      using assms(3) False m
      by (auto simp: ext2fs_create_inode_cache_def ext2fs_flush_icache_def ic_def split: if_splits option.splits)
    have "icache_inv v fs1"
      using sh l by (auto simp: f icache_inv_def icache_shape_def ic_def flush_entries_def bsize_def isize_def)
    moreover have "ino \<noteq> 0 \<longrightarrow> icache_find ic ino = None"
      by (auto simp: icache_find_def ic_def flush_entries_def find_None_iff)
    ultimately show ?thesis using f False by auto
  qed
  then show "icache_inv v fs1" "err = 0 \<Longrightarrow> fs_icache fs1 \<noteq> None" "\<exists>ic. fs1 = fs\<lparr>fs_icache := ic\<rparr>"
    "fs_icache fs \<noteq> None \<Longrightarrow> fs1 = fs"
    "err = 0 \<Longrightarrow> fs_icache fs = None \<Longrightarrow> ino \<noteq> 0 \<Longrightarrow> icache_find (the (fs_icache fs1)) ino = None"
    by blast+
qed

section \<open>Reading and writing on a block device\<close>

lemma read_inode_loop_one:
  assumes "0 < n" "off + n \<le> bs" "icache_fill m io ic b = (io1, ic1, err)"
  shows "read_inode_loop m bs slot io ic 0 b off n =
    Some (if err \<noteq> 0 then (io1, ic1, err)
          else (io1, ic1\<lparr>ic_cache := (ic_cache ic1)[slot := (ic_cache ic1 ! slot)
                   \<lparr>ce_inode := memcpy_at (ce_inode (ic_cache ic1 ! slot)) 0 (drop off (ic_buffer ic1)) n\<rparr>]\<rparr>, 0))"
proof -
  have "read_inode_loop m bs slot i c p b' off' 0 = Some (i, c, 0)" for i c p b' off'
    by (subst read_inode_loop.simps) simp
  then show ?thesis using assms by (subst read_inode_loop.simps) (simp add: Let_def)
qed

lemma write_inode_loop_one:
  assumes "0 < n" "off + n \<le> bs" "icache_fill m io ic b = (io1, ic1, err)"
    and "io_channel_write_blk64 m io1 b 1 (memcpy_at (ic_buffer ic1) off w n) = (io2, err2)"
  shows "write_inode_loop m bs w io ic 0 b off n =
    Some (if err \<noteq> 0 then (io1, ic1, err) else (io2, ic1\<lparr>ic_buffer := memcpy_at (ic_buffer ic1) off w n\<rparr>, err2))"
proof -
  have "write_inode_loop m bs w i c p b' off' 0 = Some (i, c, 0)" for i c p b' off'
    by (subst write_inode_loop.simps) simp
  then show ?thesis using assms by (subst write_inode_loop.simps) (simp add: Let_def)
qed

lemma memcpy_at_all: "length src = n \<Longrightarrow> n \<le> length dst \<Longrightarrow> take n (memcpy_at dst 0 src n) = src"
  by (simp add: memcpy_at_def)

lemma memcpy_at_full: "n = length dst \<Longrightarrow> n \<le> length src \<Longrightarrow> memcpy_at dst 0 src n = take n src"
  by (simp add: memcpy_at_def)

lemma take_overlay:
  "length c = n \<Longrightarrow> take (length b) (memcpy_at c 0 b (min (length b) n)) = take n b"
  by (auto simp: memcpy_at_def min_def)

lemma update_entry_found:
  "\<forall>c \<in> set cs. length (ce_inode c) = n \<Longrightarrow> find (\<lambda>c. ce_ino c = ino) (update_entry ino inode cs) = Some e \<Longrightarrow>
   take (length inode) (ce_inode e) = take n inode"
  by (induction cs) (auto simp: take_overlay split: if_splits)

lemma update_entry_shape:
  "\<forall>c \<in> set cs. length (ce_inode c) = n \<Longrightarrow> \<forall>c \<in> set (update_entry ino inode cs). length (ce_inode c) = n"
  "update_entry ino inode cs = [] \<longleftrightarrow> cs = []"
  by (induction cs) (auto simp: icache_find_def find_None_iff split: if_splits)

lemma length_copy_inode [simp]: "length (copy_inode dst src) = length dst"
  by (simp add: copy_inode_def)

text \<open>What reading and writing inodes touches: the channel, the cache and the mark that something changed.\<close>

definition io_step :: "('d, 'a) ext2_handle_scheme \<Rightarrow> ('d, 'a) ext2_handle_scheme \<Rightarrow> bool" where
  "io_step fs fs1 \<longleftrightarrow> (\<exists>io ic fl. fs1 = fs\<lparr>fs_io := io, fs_icache := ic, fs_flags := fl\<rparr> \<and> (fl = fs_flags fs \<or> fl = fs_flags fs OR EXT2_FLAG_CHANGED))"

lemma io_step_refl [simp]: "io_step fs fs"
  unfolding io_step_def by (intro exI [of _ "fs_io fs"] exI [of _ "fs_icache fs"] exI [of _ "fs_flags fs"]) simp

lemma io_stepI: "fs1 = fs\<lparr>fs_io := io, fs_icache := ic\<rparr> \<Longrightarrow> io_step fs fs1"
  unfolding io_step_def by (intro exI [of _ io] exI [of _ ic] exI [of _ "fs_flags fs"]) simp

lemma io_step_trans [trans]: "io_step a b \<Longrightarrow> io_step b c \<Longrightarrow> io_step a c"
proof -
  assume "io_step a b" "io_step b c"
  then obtain io ic fl io2 ic2 fl2 where b: "b = a\<lparr>fs_io := io, fs_icache := ic, fs_flags := fl\<rparr>"
    and fl: "fl = fs_flags a \<or> fl = fs_flags a OR EXT2_FLAG_CHANGED"
    and c: "c = b\<lparr>fs_io := io2, fs_icache := ic2, fs_flags := fl2\<rparr>" "fl2 = fs_flags b \<or> fl2 = fs_flags b OR EXT2_FLAG_CHANGED"
    unfolding io_step_def by blast
  have "c = a\<lparr>fs_io := io2, fs_icache := ic2, fs_flags := fl2\<rparr>" "fl2 = fs_flags a \<or> fl2 = fs_flags a OR EXT2_FLAG_CHANGED"
    using b c fl by (auto simp: or.assoc)
  then show "io_step a c" unfolding io_step_def by blast
qed

lemma io_step_same:
  "io_step fs fs1 \<Longrightarrow> fs_super fs1 = fs_super fs \<and> fs_blocksize fs1 = fs_blocksize fs \<and> inode_place fs1 ino = inode_place fs ino
     \<and> isize fs1 = isize fs \<and> bsize fs1 = bsize fs \<and> disk_inode v fs1 ino = disk_inode v fs ino
     \<and> fs_flags fs1 AND EXT2_FLAG_IMAGE_FILE = fs_flags fs AND EXT2_FLAG_IMAGE_FILE
     \<and> inode_fits fs1 ino = inode_fits fs ino \<and> on_device fs1 = on_device fs \<and> fs_csum_seed fs1 = fs_csum_seed fs
     \<and> ext2fs_inode_csum_set fs1 ino b = ext2fs_inode_csum_set fs ino b"
proof -
  assume "io_step fs fs1"
  then obtain io ic fl where f: "fs1 = fs\<lparr>fs_io := io, fs_icache := ic, fs_flags := fl\<rparr>"
    "fl = fs_flags fs \<or> fl = fs_flags fs OR EXT2_FLAG_CHANGED" unfolding io_step_def by blast
  have fl: "fl AND EXT2_FLAG_IMAGE_FILE = fs_flags fs AND EXT2_FLAG_IMAGE_FILE"
    using f(2) by (auto simp: bit.conj_disj_distrib2)
  have s: "isize fs1 = isize fs" "bsize fs1 = bsize fs" "fs_super fs1 = fs_super fs" "fs_blocksize fs1 = fs_blocksize fs"
    "fs_flags fs1 = fl" "fs_csum_seed fs1 = fs_csum_seed fs"
    by (simp_all add: f(1) isize_def bsize_def)
  have "ext2fs_group_desc fs1 g = ext2fs_group_desc fs g" for g
    by (simp add: f(1) ext2fs_group_desc_def)
  then have l: "ext2fs_inode_table_loc fs1 g = ext2fs_inode_table_loc fs g" for g
    by (simp add: ext2fs_inode_table_loc_def ext4fs_group_desc_def s)
  have ib: "fs_inode_blocks_per_group fs1 = fs_inode_blocks_per_group fs" by (simp add: f(1))
  have p: "inode_place fs1 ino = inode_place fs ino"
    unfolding inode_place_def s l ib by (rule refl)
  have c: "inode_has_hi fs1 b = inode_has_hi fs b" "\<And>hi. ext2fs_inode_csum fs1 ino b hi = ext2fs_inode_csum fs ino b hi"
    unfolding inode_has_hi_def ext2fs_inode_csum_def crc32c_inode_def s by simp_all
  have "ext2fs_inode_csum_set fs1 ino b = ext2fs_inode_csum_set fs ino b"
    unfolding ext2fs_inode_csum_set_def c s by simp
  then show ?thesis
    unfolding disk_inode_def inode_fits_def on_device_def p s fl by simp
qed

text \<open>The bytes that a successful write stores, and the device after it.\<close>

definition stored_inode :: "'a fs_base_scheme \<Rightarrow> u32 \<Rightarrow> u8 list \<Rightarrow> u32 \<Rightarrow> u8 list" where
  "stored_inode fs ino w flags = (if flags AND WRITE_INODE_NOCSUM = 0 then fst (ext2fs_inode_csum_set fs ino w) else w)"

definition put_inode :: "(u64 \<Rightarrow> u8 list) \<Rightarrow> 'a fs_base_scheme \<Rightarrow> u32 \<Rightarrow> u8 list \<Rightarrow> u64 \<Rightarrow> u8 list" where
  "put_inode v fs ino w =
     (case inode_place fs ino of Inl _ \<Rightarrow> v | Inr (b, off) \<Rightarrow> v(b := memcpy_at (v b) off w (isize fs)))"

lemma io_step_put: "io_step fs fs1 \<Longrightarrow> put_inode v fs1 ino w = put_inode v fs ino w"
  "io_step fs fs1 \<Longrightarrow> stored_inode fs1 ino w flags = stored_inode fs ino w flags"
proof -
  assume "io_step fs fs1"
  then have s: "isize fs1 = isize fs" "inode_place fs1 ino = inode_place fs ino"
    "ext2fs_inode_csum_set fs1 ino w = ext2fs_inode_csum_set fs ino w"
    using io_step_same by blast+
  show "put_inode v fs1 ino w = put_inode v fs ino w" "stored_inode fs1 ino w flags = stored_inode fs ino w flags"
    unfolding put_inode_def stored_inode_def s by (rule refl)+
qed

lemma io_step_icache: "\<exists>ic. fs1 = fs\<lparr>fs_icache := ic\<rparr> \<Longrightarrow> io_step fs fs1"
proof -
  assume "\<exists>ic. fs1 = fs\<lparr>fs_icache := ic\<rparr>"
  then obtain ic where "fs1 = fs\<lparr>fs_icache := ic\<rparr>" by blast
  then show ?thesis by (intro io_stepI [of fs1 ic "fs_io fs" fs]) simp
qed

lemma update_step:
  assumes mem: "alloc_sized mem" and inv: "icache_inv v fs" and ino: "ino \<noteq> 0"
    and s: "(case fs_icache fs of
        Some ic \<Rightarrow> (fs\<lparr>fs_icache := Some (ic\<lparr>ic_cache := update_entry ino inode (ic_cache ic)\<rparr>)\<rparr>, 0)
      | None \<Rightarrow> ext2fs_create_inode_cache mem fs 4) = (fs1, e)"
  shows "\<exists>ic. fs1 = fs\<lparr>fs_icache := ic\<rparr>" "icache_inv v fs1"
    "e = 0 \<longrightarrow> (\<exists>ic. fs_icache fs1 = Some ic \<and>
       (\<forall>x. icache_find ic ino = Some x \<longrightarrow> take (length inode) (ce_inode x) = take (isize fs) inode))"
proof -
  have "(\<exists>ic. fs1 = fs\<lparr>fs_icache := ic\<rparr>) \<and> icache_inv v fs1 \<and>
    (e = 0 \<longrightarrow> (\<exists>ic. fs_icache fs1 = Some ic \<and>
       (\<forall>x. icache_find ic ino = Some x \<longrightarrow> take (length inode) (ce_inode x) = take (isize fs) inode)))"
  proof (cases "fs_icache fs")
    case None
    then have c: "ext2fs_create_inode_cache mem fs 4 = (fs1, e)" using s by simp
    note cr = create_inode_cache [OF mem inv c]
    show ?thesis using cr(1-3) cr(5) [OF _ None ino]
      by (intro conjI impI) (blast, blast, auto)
  next
    case (Some ic)
    define ic1 where "ic1 = ic\<lparr>ic_cache := update_entry ino inode (ic_cache ic)\<rparr>"
    have f: "fs1 = fs\<lparr>fs_icache := Some ic1\<rparr>" "e = 0" using s Some by (simp_all add: ic1_def)
    have sh: "icache_coh v (bsize fs) ic" "icache_shape (isize fs) ic" using inv Some by (simp_all add: icache_inv_def)
    then have n: "\<forall>c \<in> set (ic_cache ic). length (ce_inode c) = isize fs" by (simp add: icache_shape_def)
    have "icache_shape (isize fs) ic1"
      using sh(2) update_entry_shape(1) [OF n] by (simp add: icache_shape_def ic1_def update_entry_shape(2))
    moreover have "icache_coh v (bsize fs) ic1" using sh(1) by (simp add: icache_coh_def ic1_def)
    ultimately have "icache_inv v fs1" by (simp add: f icache_inv_def bsize_def isize_def)
    then show ?thesis using f update_entry_found [OF n] by (auto simp: ic1_def icache_find_def)
  qed
  then show "\<exists>ic. fs1 = fs\<lparr>fs_icache := ic\<rparr>" "icache_inv v fs1"
    "e = 0 \<longrightarrow> (\<exists>ic. fs_icache fs1 = Some ic \<and>
       (\<forall>x. icache_find ic ino = Some x \<longrightarrow> take (length inode) (ce_inode x) = take (isize fs) inode))" by blast+
qed

context block_dev_any
begin

lemma dev_fill:
  assumes "dinv io" "icache_coh (V io) bs ic" "b \<noteq> 0" "icache_fill m io ic b = (io', ic', err)"
  shows "dinv io'" "V io' = V io" "ic_cache ic' = ic_cache ic" "ic_cache_last ic' = ic_cache_last ic"
    "err = 0 \<Longrightarrow> icache_coh (V io) bs ic' \<and> ic_buffer ic' = V io b \<and> ic_buffer_blk ic' = b"
proof -
  have "dinv io' \<and> V io' = V io \<and> ic_cache ic' = ic_cache ic \<and> ic_cache_last ic' = ic_cache_last ic
    \<and> (err = 0 \<longrightarrow> icache_coh (V io) bs ic' \<and> ic_buffer ic' = V io b \<and> ic_buffer_blk ic' = b)"
  proof (cases "b = ic_buffer_blk ic")
    case True
    then show ?thesis using assms by (auto simp: icache_fill_def icache_coh_def)
  next
    case False
    obtain io1 bf e where r: "io_channel_read_blk64 m io b 1 = (io1, bf, e)" by (metis prod_cases3)
    note d = dev_read [OF assms(1) r]
    show ?thesis using False assms r d dev_length [OF assms(1), of b]
      by (auto simp: icache_fill_def icache_coh_def memcpy_at_full Let_def split: if_splits)
  qed
  then show "dinv io'" "V io' = V io" "ic_cache ic' = ic_cache ic" "ic_cache_last ic' = ic_cache_last ic"
    "err = 0 \<Longrightarrow> icache_coh (V io) bs ic' \<and> ic_buffer ic' = V io b \<and> ic_buffer_blk ic' = b"
    by blast+
qed

text \<open>A miss reads the inode from the device; whether it is cached depends on its checksum.\<close>

lemma read_miss:
  assumes d: "dinv (fs_io fs)" and bs: "bsize fs = bs" and inv: "icache_inv (V (fs_io fs)) fs"
    and ic: "fs_icache fs = Some ic" and dev: "on_device fs" "inode_fits fs ino"
    and r: "read_inode_miss m fs ic ino buf flags = Some (fs1, out, err)"
  shows "dinv (fs_io fs1)" "V (fs_io fs1) = V (fs_io fs)"
    "\<exists>io ic1. fs1 = fs\<lparr>fs_io := io, fs_icache := Some ic1\<rparr> \<and> icache_shape (isize fs) ic1"
    "err = 0 \<Longrightarrow> icache_inv (V (fs_io fs)) fs1 \<and> out = copy_inode buf (disk_inode (V (fs_io fs)) fs ino)"
proof -
  have io: "read_io fs = fs_io fs" "\<And>io. set_read_io fs io = fs\<lparr>fs_io := io\<rparr>"
    using dev(1) by (simp_all add: read_io_def set_read_io_def from_image_def on_device_def)
  have coh: "icache_coh (V (fs_io fs)) bs ic" and sh: "icache_shape (isize fs) ic"
    using inv ic bs by (simp_all add: icache_inv_def)
  have goal: "dinv (fs_io fs1) \<and> V (fs_io fs1) = V (fs_io fs)
    \<and> (\<exists>io ic1. fs1 = fs\<lparr>fs_io := io, fs_icache := Some ic1\<rparr> \<and> icache_shape (isize fs) ic1)
    \<and> (err = 0 \<longrightarrow> icache_inv (V (fs_io fs)) fs1 \<and> out = copy_inode buf (disk_inode (V (fs_io fs)) fs ino))"
  proof (cases "read_place fs ino")
    case (Inl e)
    then have "e \<noteq> 0" by (auto simp: read_place_def inode_place_def Let_def split: if_splits)
    have "\<exists>io ic1. fs = fs\<lparr>fs_io := io, fs_icache := Some ic1\<rparr> \<and> icache_shape (isize fs) ic1"
      using ic sh by (intro exI [of _ "fs_io fs"] exI [of _ ic]) simp
    moreover have "fs1 = fs" "err = e" using r Inl by (simp_all add: read_inode_miss_def)
    ultimately show ?thesis using d \<open>e \<noteq> 0\<close> by simp
  next
    case (Inr p)
    then obtain b off where p: "p = (b, off)" "inode_place fs ino = Inr (b, off)"
      using dev(1) by (cases p) (auto simp: read_place_def on_device_def split: if_splits)
    then have b: "b \<noteq> 0" "off + isize fs \<le> bs" using dev(2) bs by (auto simp: inode_fits_def)
    have n: "0 < isize fs" using dev(1) by (simp add: on_device_def)
    obtain io1 ic1 e where f: "icache_fill m (fs_io fs) ic b = (io1, ic1, e)" by (metis prod_cases3)
    note fl = dev_fill [OF d coh b(1) f]
    define slot where "slot = nat (ic_cache_last ic + 1) mod length (ic_cache ic)"
    have slot: "slot < length (ic_cache ic1)" using sh by (simp add: slot_def icache_shape_def fl(3))
    note rd = r [unfolded read_inode_miss_def Inr p(1), simplified, folded slot_def isize_def bsize_def, unfolded bs io
        read_inode_loop_one [OF n b(2) f]]
    show ?thesis
    proof (cases "e = 0")
      case False
      then have "fs1 = fs\<lparr>fs_io := io1, fs_icache := Some ic1\<rparr>" "err = e" using rd by (simp_all add: io)
      moreover have "\<exists>io ic. fs\<lparr>fs_io := io1, fs_icache := Some ic1\<rparr> = fs\<lparr>fs_io := io, fs_icache := Some ic\<rparr>
          \<and> icache_shape (isize fs) ic"
        using sh fl(3) by (intro exI [of _ io1] exI [of _ ic1]) (simp add: icache_shape_def)
      ultimately show ?thesis using fl(1,2) False by simp
    next
      case True
      define x where "x = ic_cache ic1 ! slot"
      have lx: "length (ce_inode x) = isize fs"
        using sh slot by (auto simp: x_def icache_shape_def fl(3))
      have di: "memcpy_at (ce_inode x) 0 (drop off (ic_buffer ic1)) (isize fs) = disk_inode (V (fs_io fs)) fs ino"
        using fl(5) [OF True] lx b(2) p(2) dev_length [OF d, of b]
        by (simp add: memcpy_at_full disk_inode_def)
      have ld: "length (disk_inode (V (fs_io fs)) fs ino) = isize fs"
        using b(2) p(2) dev_length [OF d, of b] by (simp add: disk_inode_def)
      define y where "y = disk_inode (V (fs_io fs)) fs ino"
      define icx where "icx = ic1\<lparr>ic_cache := (ic_cache ic1)[slot := x\<lparr>ce_inode := y\<rparr>]\<rparr>"
      define ic2 where "ic2 = (if ext2fs_inode_csum_verify fs ino y = 0 then icx
        else icx\<lparr>ic_cache_last := int slot, ic_cache := (ic_cache icx)[slot := \<lparr>ce_ino = ino, ce_inode = y\<rparr>]\<rparr>)"
      have g: "fs1 = fs\<lparr>fs_io := io1, fs_icache := Some ic2\<rparr>" "out = copy_inode buf y"
        using rd True slot
        by (simp_all add: io x_def [symmetric] di y_def [symmetric] Let_def icx_def ic2_def split: if_splits)
      have g2: "ic_buffer ic2 = ic_buffer ic1" "ic_buffer_blk ic2 = ic_buffer_blk ic1"
        by (simp_all add: ic2_def icx_def)
      have "\<exists>e. ic_cache ic2 = (ic_cache ic1)[slot := e] \<and> ce_inode e = y"
        by (auto simp: ic2_def icx_def)
      then obtain e2 where g5: "ic_cache ic2 = (ic_cache ic1)[slot := e2]" "ce_inode e2 = y" by blast
      have "icache_shape (isize fs) ic2"
        using g5 sh ld y_def by (auto simp: icache_shape_def fl(3) dest!: set_update_subset_insert [THEN subsetD])
      moreover have "icache_coh (V (fs_io fs)) bs ic2" using fl(5) [OF True] g2 dev_length [OF d, of b] by (simp add: icache_coh_def)
      ultimately have "icache_inv (V (fs_io fs)) fs1" using g(1) bs by (simp add: icache_inv_def bsize_def isize_def)
      moreover have "\<exists>io ic. fs1 = fs\<lparr>fs_io := io, fs_icache := Some ic\<rparr> \<and> icache_shape (isize fs) ic"
        using \<open>icache_shape (isize fs) ic2\<close> g(1) by (intro exI [of _ io1] exI [of _ ic2]) simp
      ultimately show ?thesis using g(1,2) fl(1,2) by (simp add: y_def)
    qed
  qed
  then show "dinv (fs_io fs1)" "V (fs_io fs1) = V (fs_io fs)"
    "\<exists>io ic1. fs1 = fs\<lparr>fs_io := io, fs_icache := Some ic1\<rparr> \<and> icache_shape (isize fs) ic1"
    "err = 0 \<Longrightarrow> icache_inv (V (fs_io fs)) fs1 \<and> out = copy_inode buf (disk_inode (V (fs_io fs)) fs ino)"
    by blast+
qed

lemma read_inode2:
  assumes d: "dinv (fs_io fs)" and bs: "bsize fs = bs" and inv: "icache_inv (V (fs_io fs)) fs" and mem: "alloc_sized mem"
    and dev: "on_device fs" "inode_fits fs ino"
    and r: "ext2fs_read_inode2 mem m fs ino buf flags = Some (fs1, out, err)"
  shows "dinv (fs_io fs1) \<and> V (fs_io fs1) = V (fs_io fs) \<and> io_step fs fs1"
    "err = 0 \<Longrightarrow> icache_inv (V (fs_io fs)) fs1 \<and> length out = length buf \<and> fs_icache fs1 \<noteq> None"
    "err = 0 \<Longrightarrow> out = copy_inode buf (disk_inode (V (fs_io fs)) fs ino)
      \<or> (\<exists>ic e. fs_icache fs = Some ic \<and> icache_find ic ino = Some e \<and> out = copy_inode buf (ce_inode e))"
proof -
  have "dinv (fs_io fs1) \<and> V (fs_io fs1) = V (fs_io fs) \<and> io_step fs fs1
    \<and> (err = 0 \<longrightarrow> icache_inv (V (fs_io fs)) fs1 \<and> length out = length buf \<and> fs_icache fs1 \<noteq> None
        \<and> (out = copy_inode buf (disk_inode (V (fs_io fs)) fs ino)
           \<or> (\<exists>ic e. fs_icache fs = Some ic \<and> icache_find ic ino = Some e \<and> out = copy_inode buf (ce_inode e))))"
  proof (cases "fs_magic fs \<noteq> EXT2_ET_MAGIC_EXT2FS_FILSYS \<or> ext2fs_has_feature_journal_dev (fs_super fs)
      \<or> fs_blocksize fs < 1024 \<or> ino = 0 \<or> ino > s_inodes_count (fs_super fs)")
    case True
    then have "fs1 = fs" "err \<noteq> 0" using r by (auto simp: ext2fs_read_inode2_def split: if_splits)
    then show ?thesis using d by simp
  next
    case ok: False
    obtain fs2 e where c: "ext2fs_create_inode_cache mem fs 4 = (fs2, e)" by (metis surj_pair)
    note cr = create_inode_cache [OF mem inv c]
    obtain ic where ic: "fs2 = fs\<lparr>fs_icache := ic\<rparr>" using cr(3) by blast
    have st: "io_step fs fs2" using io_stepI [of fs2 ic "fs_io fs" fs] ic by simp
    show ?thesis
    proof (cases "e = 0")
      case False
      then have "fs1 = fs2" "err = e" using r c ok by (auto simp: ext2fs_read_inode2_def split: if_splits)
      then show ?thesis using d ic st False by simp
    next
      case True
      then obtain ic1 where i1: "fs_icache fs2 = Some ic1" using cr(2) by blast
      show ?thesis
      proof (cases "icache_find ic1 ino")
        case (Some x)
        then have o: "fs1 = fs2" "err = 0" "out = copy_inode buf (ce_inode x)"
          using r c i1 True ok by (auto simp: ext2fs_read_inode2_def split: if_splits)
        have "fs_icache fs = Some ic1"
          using cr(4,5) [OF _ ] i1 Some True ok by (cases "fs_icache fs") auto
        then show ?thesis using o d ic st cr(1) i1 Some by (auto simp: )
      next
        case None
        then have rm: "read_inode_miss m fs2 ic1 ino buf flags = Some (fs1, out, err)"
          using r c i1 True ok by (auto simp: ext2fs_read_inode2_def split: if_splits)
        note s = io_step_same [OF st]
        have p: "dinv (fs_io fs2)" "bsize fs2 = bs" "icache_inv (V (fs_io fs2)) fs2" "on_device fs2" "inode_fits fs2 ino"
          using d bs cr(1) dev s ic by simp_all
        note ms = read_miss [OF p(1-3) i1 p(4,5) rm]
        then show ?thesis using st s ic
          by (auto intro: io_step_trans io_stepI)
      qed
    qed
  qed
  then show "dinv (fs_io fs1) \<and> V (fs_io fs1) = V (fs_io fs) \<and> io_step fs fs1"
    "err = 0 \<Longrightarrow> icache_inv (V (fs_io fs)) fs1 \<and> length out = length buf \<and> fs_icache fs1 \<noteq> None"
    "err = 0 \<Longrightarrow> out = copy_inode buf (disk_inode (V (fs_io fs)) fs ino)
      \<or> (\<exists>ic e. fs_icache fs = Some ic \<and> icache_find ic ino = Some e \<and> out = copy_inode buf (ce_inode e))"
    by blast+
qed

text \<open>A successful write is on the device, unless the device has lost it.\<close>

lemma write_inode_out_any:
  assumes d: "dinv (fs_io fs)" and bs: "bsize fs = bs" and inv: "icache_inv (V (fs_io fs)) fs"
    and ic: "fs_icache fs = Some ic" and dev: "on_device fs" "inode_fits fs ino" and w: "length w = isize fs"
    and r: "write_inode_out m fs ino w flags = Some (fs1, err)"
  shows "dinv (fs_io fs1) \<and> io_step fs fs1"
    "err \<noteq> 0 \<Longrightarrow> V (fs_io fs1) = V (fs_io fs)"
    "err = 0 \<Longrightarrow> (V (fs_io fs1) = put_inode (V (fs_io fs)) fs ino (stored_inode fs ino w flags)
          \<and> icache_inv (V (fs_io fs1)) fs1 \<or> lossy \<and> V (fs_io fs1) = V (fs_io fs))
      \<and> (\<exists>ic1. fs_icache fs1 = Some ic1 \<and> ic_cache ic1 = ic_cache ic)"
proof -
  have coh: "icache_coh (V (fs_io fs)) bs ic" and sh: "icache_shape (isize fs) ic"
    using inv ic bs by (simp_all add: icache_inv_def)
  have lw: "length (stored_inode fs ino w flags) = isize fs"
    using w by (simp add: stored_inode_def ext2fs_inode_csum_set_def ext2fs_inode_csum_def Let_def)
  have "dinv (fs_io fs1) \<and> io_step fs fs1 \<and> (err \<noteq> 0 \<longrightarrow> V (fs_io fs1) = V (fs_io fs))
    \<and> (err = 0 \<longrightarrow> (V (fs_io fs1) = put_inode (V (fs_io fs)) fs ino (stored_inode fs ino w flags)
          \<and> icache_inv (V (fs_io fs1)) fs1 \<or> lossy \<and> V (fs_io fs1) = V (fs_io fs))
      \<and> (\<exists>ic1. fs_icache fs1 = Some ic1 \<and> ic_cache ic1 = ic_cache ic))"
  proof (cases "fs_flags fs AND EXT2_FLAG_RW = 0 \<or> (\<exists>e. inode_place fs ino = Inl e)")
    case True
    then have "fs1 = fs \<and> err \<noteq> 0"
      using r by (auto simp: write_inode_out_def ext2fs_inode_csum_set_def inode_place_def Let_def split: if_splits prod.splits)
    then show ?thesis using d by simp
  next
    case rw: False
    then obtain b off where p: "inode_place fs ino = Inr (b, off)" by (cases "inode_place fs ino") auto
    then have b: "b \<noteq> 0" "off + isize fs \<le> bs" using dev(2) bs by (auto simp: inode_fits_def)
    have n: "0 < isize fs" using dev(1) by (simp add: on_device_def)
    obtain io1 ic1 e where f: "icache_fill m (fs_io fs) ic b = (io1, ic1, e)" by (metis prod_cases3)
    note fl = dev_fill [OF d coh b(1) f]
    define w' where "w' = stored_inode fs ino w flags"
    define x where "x = memcpy_at (ic_buffer ic1) off w' (isize fs)"
    obtain io2 e2 where wr: "io_channel_write_blk64 m io1 b 1 x = (io2, e2)" by (metis surj_pair)
    have cs: "(if flags AND WRITE_INODE_NOCSUM = 0 then ext2fs_inode_csum_set fs ino w else (w, 0)) = (w', 0)"
      by (simp add: w'_def stored_inode_def ext2fs_inode_csum_set_def Let_def split: prod.splits)
    note lp = write_inode_loop_one [OF n b(2) f wr [unfolded x_def], folded x_def]
    note rd = r [unfolded write_inode_out_def cs p, simplified, folded isize_def bsize_def, unfolded bs ic option.sel]
    show ?thesis
    proof (cases "e = 0")
      case False
      then have g: "fs1 = fs\<lparr>fs_io := io1, fs_icache := Some ic1\<rparr>" "err = e"
        using rd rw lp by (simp_all split: if_splits)
      then show ?thesis using fl(1,2) False io_stepI [OF g(1)] by simp
    next
      case True
      have lx: "length x = bs" using fl(5) [OF True] b(2) lw dev_length [OF d, of b] by (simp add: x_def w'_def)
      note dw = dev_any_write [OF fl(1) lx wr]
      define ic2 where "ic2 = ic1\<lparr>ic_buffer := x\<rparr>"
      have g: "fs1 = ext2fs_mark_changed (fs\<lparr>fs_io := io2, fs_icache := Some ic2\<rparr>)" "err = 0"
        using rd True dw rw lp by (simp_all add: ic2_def Let_def split: if_splits)
      have h: "fs_io fs1 = io2" "fs_icache fs1 = Some ic2" by (simp_all add: g ext2fs_mark_changed_def)
      have st: "io_step fs fs1"
        unfolding io_step_def
        by (intro exI [of _ io2] exI [of _ "Some ic2"] exI [of _ "fs_flags fs OR EXT2_FLAG_CHANGED"])
          (simp add: g ext2fs_mark_changed_def)
      have "V io2 = put_inode (V (fs_io fs)) fs ino w' \<and> icache_inv (V io2) fs1 \<or> lossy \<and> V io2 = V (fs_io fs)"
      proof (cases "V io2 = (V io1)(b := x)")
        case v: True
        have "icache_coh (V io2) bs ic2" using v lx fl(5) [OF True] by (simp add: icache_coh_def ic2_def)
        moreover have "icache_shape (isize fs) ic2" using sh fl(3) by (simp add: icache_shape_def ic2_def)
        ultimately have "icache_inv (V io2) fs1"
          using bs io_step_same [OF st] by (simp add: icache_inv_def h)
        then show ?thesis using v fl(2) fl(5) [OF True] by (simp add: put_inode_def p x_def)
      qed (use dw fl(2) in simp)
      then show ?thesis using dw st g(2) h fl(3) by (auto simp: w'_def ic2_def)
    qed
  qed
  then show "dinv (fs_io fs1) \<and> io_step fs fs1" "err \<noteq> 0 \<Longrightarrow> V (fs_io fs1) = V (fs_io fs)"
    "err = 0 \<Longrightarrow> (V (fs_io fs1) = put_inode (V (fs_io fs)) fs ino (stored_inode fs ino w flags)
          \<and> icache_inv (V (fs_io fs1)) fs1 \<or> lossy \<and> V (fs_io fs1) = V (fs_io fs))
      \<and> (\<exists>ic1. fs_icache fs1 = Some ic1 \<and> ic_cache ic1 = ic_cache ic)"
    by blast+
qed

text \<open>Writing an inode, whether the caller passes all of it or its first bytes only.\<close>

lemma write_inode2_any:
  assumes d: "dinv (fs_io fs)" and bs: "bsize fs = bs" and inv: "icache_inv (V (fs_io fs)) fs" and mem: "alloc_sized mem"
    and dev: "on_device fs" "inode_fits fs ino"
    and r: "ext2fs_write_inode2 mem m fs ino inode flags = Some (fs1, err)"
  shows "dinv (fs_io fs1) \<and> io_step fs fs1"
    "err \<noteq> 0 \<Longrightarrow> V (fs_io fs1) = V (fs_io fs)"
    "err = 0 \<Longrightarrow> lossy \<and> V (fs_io fs1) = V (fs_io fs) \<or> icache_inv (V (fs_io fs1)) fs1
      \<and> (\<exists>w. length w = isize fs \<and> take (length inode) w = take (isize fs) inode
           \<and> V (fs_io fs1) = put_inode (V (fs_io fs)) fs ino (stored_inode fs ino w flags)
           \<and> (\<forall>ic e. fs_icache fs1 = Some ic \<longrightarrow> icache_find ic ino = Some e \<longrightarrow> take (length inode) (ce_inode e) = take (isize fs) inode))"
proof -
  have "dinv (fs_io fs1) \<and> io_step fs fs1 \<and> (err \<noteq> 0 \<longrightarrow> V (fs_io fs1) = V (fs_io fs))
    \<and> (err = 0 \<longrightarrow> lossy \<and> V (fs_io fs1) = V (fs_io fs) \<or> icache_inv (V (fs_io fs1)) fs1
      \<and> (\<exists>w. length w = isize fs \<and> take (length inode) w = take (isize fs) inode
           \<and> V (fs_io fs1) = put_inode (V (fs_io fs)) fs ino (stored_inode fs ino w flags)
           \<and> (\<forall>ic e. fs_icache fs1 = Some ic \<longrightarrow> icache_find ic ino = Some e \<longrightarrow> take (length inode) (ce_inode e) = take (isize fs) inode)))"
  proof (cases "fs_magic fs \<noteq> EXT2_ET_MAGIC_EXT2FS_FILSYS \<or> ext2fs_has_feature_journal_dev (fs_super fs)
      \<or> ino = 0 \<or> ino > s_inodes_count (fs_super fs) \<or> mem (isize fs) = None")
    case True
    then have "fs1 = fs" "err \<noteq> 0" using r by (auto simp: ext2fs_write_inode2_def isize_def Let_def split: if_splits)
    then show ?thesis using d by simp
  next
    case ok: False
    then obtain w0 where w0: "mem (isize fs) = Some w0" by blast
    have lw0: "length (snd w0) = isize fs" using mem w0 unfolding alloc_sized_def by blast
    define step1 where "step1 = (if length inode < isize fs then ext2fs_read_inode2 mem m fs ino (snd w0) READ_INODE_NOCSUM
      else Some (fs, snd w0, 0))"
    obtain fs2 w e where s1: "step1 = Some (fs2, w, e)"
      using r ok w0 by (auto simp: ext2fs_write_inode2_def isize_def Let_def step1_def split: if_splits option.splits prod.splits)
    have p: "dinv (fs_io fs2) \<and> V (fs_io fs2) = V (fs_io fs) \<and> io_step fs fs2
        \<and> (e = 0 \<longrightarrow> icache_inv (V (fs_io fs)) fs2 \<and> length w = isize fs)"
      using s1 read_inode2 [OF d bs inv mem dev, of "snd w0" READ_INODE_NOCSUM fs2 w e] lw0 d inv
      by (auto simp: step1_def split: if_splits)
    show ?thesis
    proof (cases "e = 0")
      case False
      then have "fs1 = fs2" "err = e" using r ok w0 s1
        by (auto simp: ext2fs_write_inode2_def isize_def Let_def step1_def split: if_splits)
      then show ?thesis using p False by simp
    next
      case True
      define step2 where "step2 = (case fs_icache fs2 of
          Some ic \<Rightarrow> (fs2\<lparr>fs_icache := Some (ic\<lparr>ic_cache := update_entry ino inode (ic_cache ic)\<rparr>)\<rparr>, 0)
        | None \<Rightarrow> ext2fs_create_inode_cache mem fs2 4)"
      obtain fs3 e3 where s2: "step2 = (fs3, e3)" by (metis surj_pair)
      have q: "\<exists>ic. fs3 = fs2\<lparr>fs_icache := ic\<rparr>" "icache_inv (V (fs_io fs)) fs3"
        "e3 = 0 \<longrightarrow> (\<exists>ic. fs_icache fs3 = Some ic \<and>
           (\<forall>x. icache_find ic ino = Some x \<longrightarrow> take (length inode) (ce_inode x) = take (isize fs2) inode))"
        using update_step [OF mem _ _ s2 [unfolded step2_def]] p True ok by blast+
      show ?thesis
      proof (cases "e3 = 0")
        case False
        then have "fs1 = fs3" "err = e3" using r ok w0 s1 s2 True
          by (auto simp: ext2fs_write_inode2_def isize_def Let_def step1_def step2_def split: if_splits)
        moreover have "io_step fs fs3" using p q(1) io_step_trans io_step_icache by blast
        ultimately show ?thesis using p q(1) False by auto
      next
        case e3: True
        define wf where "wf = memcpy_at w 0 inode (min (length inode) (isize fs))"
        have lw: "length wf = isize fs" "take (length inode) wf = take (isize fs) inode"
          using p True by (simp_all add: wf_def take_overlay)
        have out: "write_inode_out m fs3 ino wf flags = Some (fs1, err)"
          using r ok w0 s1 s2 True e3
          by (auto simp: ext2fs_write_inode2_def isize_def Let_def step1_def step2_def wf_def split: if_splits)
        obtain ic3 where ic3: "fs_icache fs3 = Some ic3"
          "\<forall>x. icache_find ic3 ino = Some x \<longrightarrow> take (length inode) (ce_inode x) = take (isize fs2) inode"
          using q(3) e3 by blast
        have st: "io_step fs fs3" using p q(1) io_step_trans io_step_icache by blast
        note s = io_step_same [OF st]
        have io3: "fs_io fs3 = fs_io fs2" using q(1) by auto
        have x: "dinv (fs_io fs3)" "bsize fs3 = bs" "icache_inv (V (fs_io fs3)) fs3" "on_device fs3" "inode_fits fs3 ino"
            "length wf = isize fs3"
          using p q(2) s bs dev lw(1) by (simp_all add: io3)
        note wo = write_inode_out_any [OF x(1-3) ic3(1) x(4-6) out]
        have eq: "V (fs_io fs3) = V (fs_io fs)" "isize fs2 = isize fs" using p io3 io_step_same [of fs fs2] by simp_all
        have st1: "io_step fs fs1" using st wo(1) io_step_trans by blast
        have b: "err = 0 \<longrightarrow> lossy \<and> V (fs_io fs1) = V (fs_io fs) \<or>
            V (fs_io fs1) = put_inode (V (fs_io fs)) fs ino (stored_inode fs ino wf flags)
            \<and> icache_inv (V (fs_io fs1)) fs1"
          using wo(3) unfolding eq io_step_put [OF st] by blast
        have c: "err = 0 \<longrightarrow> (\<forall>ic e. fs_icache fs1 = Some ic \<longrightarrow> icache_find ic ino = Some e \<longrightarrow>
            take (length inode) (ce_inode e) = take (isize fs) inode)"
          using wo(3) ic3(2) by (auto simp: icache_find_def eq)
        have "err \<noteq> 0 \<longrightarrow> V (fs_io fs1) = V (fs_io fs)" using wo(2) eq by simp
        then show ?thesis using wo(1) st1 b c lw by blast
      qed
    qed
  qed
  then show "dinv (fs_io fs1) \<and> io_step fs fs1"
    "err \<noteq> 0 \<Longrightarrow> V (fs_io fs1) = V (fs_io fs)"
    "err = 0 \<Longrightarrow> lossy \<and> V (fs_io fs1) = V (fs_io fs) \<or> icache_inv (V (fs_io fs1)) fs1
      \<and> (\<exists>w. length w = isize fs \<and> take (length inode) w = take (isize fs) inode
           \<and> V (fs_io fs1) = put_inode (V (fs_io fs)) fs ino (stored_inode fs ino w flags)
           \<and> (\<forall>ic e. fs_icache fs1 = Some ic \<longrightarrow> icache_find ic ino = Some e \<longrightarrow> take (length inode) (ce_inode e) = take (isize fs) inode))"
    by blast+
qed

end

text \<open>Over a device that keeps what is written.\<close>

context block_dev
begin

lemma write_inode_out:
  assumes "dinv (fs_io fs)" "bsize fs = bs" "icache_inv (V (fs_io fs)) fs"
    "fs_icache fs = Some ic" "on_device fs" "inode_fits fs ino" "length w = isize fs"
    "write_inode_out m fs ino w flags = Some (fs1, err)"
  shows "dinv (fs_io fs1) \<and> io_step fs fs1"
    "err \<noteq> 0 \<Longrightarrow> V (fs_io fs1) = V (fs_io fs)"
    "err = 0 \<Longrightarrow> V (fs_io fs1) = put_inode (V (fs_io fs)) fs ino (stored_inode fs ino w flags)
      \<and> icache_inv (V (fs_io fs1)) fs1 \<and> (\<exists>ic1. fs_icache fs1 = Some ic1 \<and> ic_cache ic1 = ic_cache ic)"
  using write_inode_out_any [OF assms] by blast+

lemma write_inode2:
  assumes "dinv (fs_io fs)" "bsize fs = bs" "icache_inv (V (fs_io fs)) fs" "alloc_sized mem"
    "on_device fs" "inode_fits fs ino"
    "ext2fs_write_inode2 mem m fs ino inode flags = Some (fs1, err)"
  shows "dinv (fs_io fs1) \<and> io_step fs fs1"
    "err \<noteq> 0 \<Longrightarrow> V (fs_io fs1) = V (fs_io fs)"
    "err = 0 \<Longrightarrow> icache_inv (V (fs_io fs1)) fs1
      \<and> (\<exists>w. length w = isize fs \<and> take (length inode) w = take (isize fs) inode
           \<and> V (fs_io fs1) = put_inode (V (fs_io fs)) fs ino (stored_inode fs ino w flags)
           \<and> (\<forall>ic e. fs_icache fs1 = Some ic \<longrightarrow> icache_find ic ino = Some e \<longrightarrow> take (length inode) (ce_inode e) = take (isize fs) inode))"
  using write_inode2_any [OF assms] by blast+

end

end
