(* ===== verification/Inode_tables.thy ===== *)
theory Inode_tables
  imports Inode_cache Fs_Examples
begin

text \<open>
  Where the inodes lie on the device: \<open>itables_ok\<close> is the geometry of the inode tables. Two inodes never
  share a byte, so that storing one keeps all the others.
\<close>

section \<open>The inode tables\<close>

definition ino_group :: "'a fs_base_scheme \<Rightarrow> u32 \<Rightarrow> u32" where
  "ino_group fs ino = (ino - 1) div s_inodes_per_group (fs_super fs)"

definition ino_idx :: "'a fs_base_scheme \<Rightarrow> u32 \<Rightarrow> nat" where
  "ino_idx fs ino = unat ((ino - 1) mod s_inodes_per_group (fs_super fs))"

definition itable_len :: "'a fs_base_scheme \<Rightarrow> nat" where
  "itable_len fs = unat (s_inodes_per_group (fs_super fs)) * isize fs div bsize fs + 1"

definition itables_ok :: "'a fs_base_scheme \<Rightarrow> bool" where
  "itables_ok fs \<longleftrightarrow> s_log_block_size (fs_super fs) \<le> 6 \<and> bsize fs = 2 ^ (10 + unat (s_log_block_size (fs_super fs)))
     \<and> 128 \<le> isize fs \<and> isize fs dvd bsize fs \<and> 0 < s_inodes_per_group (fs_super fs)
     \<and> unat (s_inodes_per_group (fs_super fs)) * isize fs < 2 ^ 32
     \<and> (\<forall>g h. g < fs_group_desc_count fs \<and> h < fs_group_desc_count fs \<and> g \<noteq> h \<longrightarrow>
          unat (ext2fs_inode_table_loc fs g) + itable_len fs \<le> unat (ext2fs_inode_table_loc fs h)
          \<or> unat (ext2fs_inode_table_loc fs h) + itable_len fs \<le> unat (ext2fs_inode_table_loc fs g))
     \<and> (\<forall>g. g < fs_group_desc_count fs \<longrightarrow> unat (ext2fs_inode_table_loc fs g) + itable_len fs < 2 ^ 64)"

definition ino_ok :: "'a fs_base_scheme \<Rightarrow> u32 \<Rightarrow> bool" where
  "ino_ok fs ino \<longleftrightarrow> ino \<noteq> 0 \<and> ino_group fs ino < fs_group_desc_count fs"

lemma inode_place_at:
  assumes g: "itables_ok fs" and i: "ino_ok fs ino" and p: "inode_place fs ino = Inr (b, off)"
  shows "unat b = unat (ext2fs_inode_table_loc fs (ino_group fs ino)) + ino_idx fs ino * isize fs div bsize fs"
    "off = ino_idx fs ino * isize fs mod bsize fs" "ino_idx fs ino * isize fs div bsize fs < itable_len fs"
    "unat (ext2fs_inode_table_loc fs (ino_group fs ino)) \<noteq> 0"
proof -
  define k where "k = unat (s_log_block_size (fs_super fs))"
  define x :: u32 where "x = ((ino - 1) mod s_inodes_per_group (fs_super fs)) * ucast (EXT2_INODE_SIZE (fs_super fs))"
  have k: "k \<le> 6" using g by (simp add: itables_ok_def k_def word_le_nat_alt)
  have "ino_idx fs ino < unat (s_inodes_per_group (fs_super fs))"
    using g by (simp add: itables_ok_def ino_idx_def unat_mod word_less_nat_alt)
  then have lt: "ino_idx fs ino * isize fs < unat (s_inodes_per_group (fs_super fs)) * isize fs"
    using g by (simp add: itables_ok_def)
  have is32: "unat (ucast (EXT2_INODE_SIZE (fs_super fs)) :: u32) = isize fs"
    by (simp add: isize_def unsigned_ucast_eq take_bit_nat_eq_self less_trans [OF unsigned_less])
  have "ino_idx fs ino * isize fs < 2 ^ 32" using lt g unfolding itables_ok_def by linarith
  then have x: "unat x = ino_idx fs ino * isize fs"
    using unat_mult_lem [of "(ino - 1) mod s_inodes_per_group (fs_super fs)" "ucast (EXT2_INODE_SIZE (fs_super fs)) :: u32"]
    by (simp add: x_def ino_idx_def is32)
  show t: "ino_idx fs ino * isize fs div bsize fs < itable_len fs"
    using lt by (simp add: itable_len_def div_le_mono less_Suc_eq_le)
  have b1: "unat (s_log_block_size (fs_super fs) + 10) = 10 + k"
    using k unat_add_lem [of "s_log_block_size (fs_super fs)" 10] by (simp add: k_def)
  have "k = 0 \<or> k = 1 \<or> k = 2 \<or> k = 3 \<or> k = 4 \<or> k = 5 \<or> k = 6" using k by linarith
  then have b2: "EXT2_BLOCK_SIZE (fs_super fs) - 1 = mask (10 + k)"
    by (auto simp: EXT2_BLOCK_SIZE_def k_def [symmetric] mask_eq_exp_minus_1)
  have bsz: "bsize fs = 2 ^ (10 + k)" using g by (simp add: itables_ok_def k_def)
  have dr: "unat (drop_bit (10 + k) x) = unat x div bsize fs"
    unfolding unat_drop_bit_eq bsz by (rule drop_bit_eq_div)
  have an: "unat (x AND mask (10 + k)) = unat x mod bsize fs"
    unfolding take_bit_eq_mask [symmetric] unsigned_take_bit_eq bsz by (rule take_bit_eq_mod)
  define loc where "loc = ext2fs_inode_table_loc fs (ino_group fs ino)"
  have r: "loc \<noteq> 0" "b = loc + ucast (drop_bit (10 + k) x)" "off = unat (x AND mask (10 + k))"
    using p unfolding inode_place_def Let_def x_def [symmetric] b1 b2 ino_group_def [symmetric] loc_def [symmetric]
    by (auto split: if_splits)
  show "off = ino_idx fs ino * isize fs mod bsize fs" using r(3) an x by simp
  show "unat (ext2fs_inode_table_loc fs (ino_group fs ino)) \<noteq> 0" using r(1) by (simp add: loc_def unat_eq_0)
  have "unat loc + itable_len fs < 2 ^ 64" using g i by (simp add: itables_ok_def ino_ok_def loc_def)
  then have "unat loc + unat (ucast (drop_bit (10 + k) x) :: u64) < 2 ^ 64" using t dr x by (simp add: unat_ucast32_64)
  then show "unat b = unat (ext2fs_inode_table_loc fs (ino_group fs ino)) + ino_idx fs ino * isize fs div bsize fs"
    using r(2) dr x unat_add_lem [of loc "ucast (drop_bit (10 + k) x)"] by (simp add: unat_ucast32_64 loc_def)
qed

lemma mod_multiple:
  fixes d q i :: nat
  assumes "d dvd q" "0 < q"
  shows "i * d mod q + d \<le> q"
proof -
  obtain c where c: "q = d * c" using assms(1) by blast
  then have "0 < c" using assms(2) by (cases c) auto
  then have "i mod c + 1 \<le> c" by (simp add: Suc_leI)
  then have "d * (i mod c + 1) \<le> d * c" by (rule mult_le_mono2)
  moreover have "i * d mod q = d * (i mod c)" by (simp only: c mult.commute [of i d] mult_mod_right)
  ultimately show ?thesis by (simp add: c)
qed

lemma inode_fits_ok:
  assumes "itables_ok fs" "ino_ok fs ino"
  shows "inode_fits fs ino"
  unfolding inode_fits_def
proof (intro allI impI)
  fix b off assume p: "inode_place fs ino = Inr (b, off)"
  note a = inode_place_at [OF assms p]
  have "unat b \<noteq> 0" using a(1,4) by simp
  moreover have "off + isize fs \<le> bsize fs"
  proof -
    have "isize fs dvd bsize fs" "0 < bsize fs" using assms(1) unfolding itables_ok_def by (blast, simp)
    then show ?thesis unfolding a(2) by (rule mod_multiple)
  qed
  ultimately show "b \<noteq> 0 \<and> off + isize fs \<le> bsize fs" by auto
qed

lemma idx_apart:
  fixes i j d q :: nat
  assumes "i < j" "i * d div q = j * d div q"
  shows "i * d mod q + d \<le> j * d mod q"
proof -
  have "i * d + d \<le> j * d" using mult_le_mono1 [of "i + 1" j d] assms(1) by simp
  moreover have "i * d = i * d div q * q + i * d mod q" "j * d = i * d div q * q + j * d mod q"
    using div_mult_mod_eq [of "i * d" q] div_mult_mod_eq [of "j * d" q] assms(2) by simp_all
  ultimately show ?thesis by linarith
qed

lemma ino_determined:
  assumes "ino_group fs i = ino_group fs j" "ino_idx fs i = ino_idx fs j"
  shows "i = j"
proof -
  have "i - 1 = j - 1"
    using assms div_mult_mod_eq [of "unat (i - 1)" "unat (s_inodes_per_group (fs_super fs))"]
      div_mult_mod_eq [of "unat (j - 1)" "unat (s_inodes_per_group (fs_super fs))"]
    unfolding ino_group_def ino_idx_def by (metis unat_div unat_mod word_unat_eq_iff)
  then show ?thesis by simp
qed

lemma inodes_apart:
  assumes g: "itables_ok fs" and i: "ino_ok fs i" "ino_ok fs j" "i \<noteq> j"
    and p: "inode_place fs i = Inr (b, off)" "inode_place fs j = Inr (c, off2)"
  shows "b \<noteq> c \<or> off + isize fs \<le> off2 \<or> off2 + isize fs \<le> off"
proof (cases "ino_group fs i = ino_group fs j")
  case True
  note a = inode_place_at [OF g i(1) p(1)] and a2 = inode_place_at [OF g i(2) p(2)]
  show ?thesis
  proof (cases "b = c")
    case eq: True
    then have d: "ino_idx fs i * isize fs div bsize fs = ino_idx fs j * isize fs div bsize fs"
      using a(1) a2(1) True by simp
    have "ino_idx fs i \<noteq> ino_idx fs j" using ino_determined True i(3) by blast
    then consider "ino_idx fs i < ino_idx fs j" | "ino_idx fs j < ino_idx fs i" by linarith
    then show ?thesis using idx_apart [OF _ d] idx_apart [OF _ d [symmetric]] a(2) a2(2) by cases auto
  qed simp
next
  case False
  note a = inode_place_at [OF g i(1) p(1)] and a2 = inode_place_at [OF g i(2) p(2)]
  have "unat (ext2fs_inode_table_loc fs (ino_group fs i)) + itable_len fs \<le> unat (ext2fs_inode_table_loc fs (ino_group fs j))
      \<or> unat (ext2fs_inode_table_loc fs (ino_group fs j)) + itable_len fs \<le> unat (ext2fs_inode_table_loc fs (ino_group fs i))"
    using g i False by (simp add: itables_ok_def ino_ok_def)
  then have "unat b \<noteq> unat c" using a(1,3) a2(1,3) by linarith
  then show ?thesis by blast
qed

lemma disk_inode_put:
  assumes "inode_fits fs ino" "inode_place fs ino = Inr (b, off)" "length (v b) = bsize fs" "length w = isize fs"
  shows "disk_inode (put_inode v fs ino w) fs ino = w"
proof -
  have "off + isize fs \<le> length (v b)" using assms by (auto simp: inode_fits_def)
  then show ?thesis using assms(2,4) by (simp add: disk_inode_def put_inode_def memcpy_at_def)
qed

lemma disk_inode_put_other:
  assumes g: "itables_ok fs" and i: "ino_ok fs ino" "ino_ok fs j" "ino \<noteq> j"
    and l: "\<And>b. length (v b) = bsize fs" "length w = isize fs"
  shows "disk_inode (put_inode v fs ino w) fs j = disk_inode v fs j"
proof (cases "inode_place fs ino")
  case (Inl e)
  then show ?thesis by (simp add: put_inode_def)
next
  case (Inr p)
  obtain b off where p: "inode_place fs ino = Inr (b, off)" using Inr by (cases p) auto
  show ?thesis
  proof (cases "inode_place fs j")
    case (Inr q)
    obtain c off2 where q: "inode_place fs j = Inr (c, off2)" using Inr by (cases q) auto
    have f: "off + isize fs \<le> bsize fs" "off2 + isize fs \<le> bsize fs"
      using inode_fits_ok [OF g i(1)] inode_fits_ok [OF g i(2)] p q by (auto simp: inode_fits_def)
    have "take (isize fs) (drop off2 (memcpy_at (v b) off w (isize fs))) = take (isize fs) (drop off2 (v b))"
      if "off + isize fs \<le> off2 \<or> off2 + isize fs \<le> off"
      using that f l by (intro nth_equalityI) (auto simp: nth_memcpy_at)
    then show ?thesis using inodes_apart [OF g i p q] by (auto simp: disk_inode_def put_inode_def p q)
  qed (simp add: disk_inode_def)
qed

end
