(* ===== verification/Inode_total.thy ===== *)
theory Inode_total
  imports Inode_tables
begin

text \<open>
  On a device that does not fail, over an allocator that does not, reading and writing a valid inode succeed,
  and what was written is what is read.
\<close>

section \<open>On a device that does not fail\<close>

definition fs_ready :: "'a fs_base_scheme \<Rightarrow> bool" where
  "fs_ready fs \<longleftrightarrow> fs_magic fs = EXT2_ET_MAGIC_EXT2FS_FILSYS \<and> \<not> ext2fs_has_feature_journal_dev (fs_super fs)
     \<and> 1024 \<le> fs_blocksize fs \<and> fs_flags fs AND EXT2_FLAG_RW \<noteq> 0"

definition ino_valid :: "'a fs_base_scheme \<Rightarrow> u32 \<Rightarrow> bool" where
  "ino_valid fs ino \<longleftrightarrow> ino_ok fs ino \<and> ino \<le> s_inodes_count (fs_super fs) \<and> (\<exists>p. inode_place fs ino = Inr p)"

definition alloc_total :: "allocator \<Rightarrow> bool" where
  "alloc_total mem \<longleftrightarrow> alloc_sized mem \<and> (\<forall>n. mem n \<noteq> None)"

lemma alloc_entries_total: "alloc_total mem \<Longrightarrow> \<exists>cs. alloc_entries mem sz n = Some cs"
  by (induction n) (auto simp: alloc_total_def split: option.splits)

lemma create_inode_cache_total:
  assumes "alloc_total mem"
  shows "\<exists>fs1. ext2fs_create_inode_cache mem fs 4 = (fs1, 0)"
proof -
  obtain cs where "alloc_entries mem (unat (EXT2_INODE_SIZE (fs_super fs))) 4 = Some cs"
    using alloc_entries_total [OF assms] by blast
  moreover have "mem 40 \<noteq> None" "mem 64 \<noteq> None" "mem (unat (fs_blocksize fs)) \<noteq> None"
    using assms by (simp_all add: alloc_total_def)
  ultimately show ?thesis
    by (auto simp: ext2fs_create_inode_cache_def ext2fs_flush_icache_def split: option.splits)
qed

lemma csum_set_verify:
  assumes "128 \<le> length b" "inode_has_hi fs b \<Longrightarrow> 132 \<le> length b" "length b = isize fs"
  shows "ext2fs_inode_csum_verify fs ino (fst (ext2fs_inode_csum_set fs ino b)) = 1"
proof (cases "132 \<le> length b")
  case True
  then show ?thesis by (rule inode_csum_set_verify)
next
  case False
  then have nh: "\<not> inode_has_hi fs b" using assms(2) by blast
  define crc where "crc = snd (ext2fs_inode_csum fs ino b False)"
  define c where "c = put16 b 124 (ucast (crc AND 0xFFFF))"
  have p: "ext2fs_inode_csum fs ino b False = (b, crc)"
    using assms(1) by (simp add: crc_def ext2fs_inode_csum_def Let_def put16_twice put16_same)
  have q: "ext2fs_inode_csum fs ino c False = (c, crc)"
    using assms(1) by (simp add: c_def crc_def ext2fs_inode_csum_def Let_def put16_twice put16_same get16_put16)
  have h: "\<not> inode_has_hi fs c" using nh assms(1) by (simp add: inode_has_hi_def c_def get16_put16_other)
  show ?thesis
  proof (cases "ext2fs_has_feature_metadata_csum (fs_super fs)")
    case True
    then have "fst (ext2fs_inode_csum_set fs ino b) = c"
      using nh p by (simp add: ext2fs_inode_csum_set_def Let_def c_def)
    moreover have "get16 c 124 = ucast (crc AND 0xFFFF)" using assms(1) by (simp add: c_def get16_put16)
    ultimately show ?thesis using True h q
      by (simp add: ext2fs_inode_csum_verify_def Let_def low_high_16)
  qed (simp add: ext2fs_inode_csum_verify_def)
qed

lemma io_step_ready:
  assumes "io_step fs fs1"
  shows "fs_ready fs1 = fs_ready fs" "ino_valid fs1 ino = ino_valid fs ino" "read_place fs1 ino = read_place fs ino"
    "ino_ok fs1 ino = ino_ok fs ino" "itables_ok fs1 = itables_ok fs"
    "ext2fs_inode_csum_verify fs1 ino b = ext2fs_inode_csum_verify fs ino b"
proof -
  obtain io ic fl where f: "fs1 = fs\<lparr>fs_io := io, fs_icache := ic, fs_flags := fl\<rparr>"
    "fl = fs_flags fs \<or> fl = fs_flags fs OR EXT2_FLAG_CHANGED" using assms unfolding io_step_def by blast
  have fl: "fl AND EXT2_FLAG_IMAGE_FILE = fs_flags fs AND EXT2_FLAG_IMAGE_FILE" "fl AND EXT2_FLAG_RW = fs_flags fs AND EXT2_FLAG_RW"
    using f(2) by (auto simp: bit.conj_disj_distrib2)
  have s: "isize fs1 = isize fs" "bsize fs1 = bsize fs" "fs_super fs1 = fs_super fs" "fs_blocksize fs1 = fs_blocksize fs"
    "fs_flags fs1 = fl" "fs_csum_seed fs1 = fs_csum_seed fs" "fs_group_desc_count fs1 = fs_group_desc_count fs"
    "fs_magic fs1 = fs_magic fs" "fs_offset_inode fs1 = fs_offset_inode fs"
    by (simp_all add: f(1) isize_def bsize_def)
  have "ext2fs_group_desc fs1 g = ext2fs_group_desc fs g" for g
    by (simp add: f(1) ext2fs_group_desc_def)
  then have l: "ext2fs_inode_table_loc fs1 g = ext2fs_inode_table_loc fs g" for g
    by (simp add: ext2fs_inode_table_loc_def ext4fs_group_desc_def s)
  have p: "inode_place fs1 ino = inode_place fs ino" using io_step_same [OF assms] by blast
  have c: "inode_has_hi fs1 b = inode_has_hi fs b" "\<And>hi. ext2fs_inode_csum fs1 ino b hi = ext2fs_inode_csum fs ino b hi"
    unfolding inode_has_hi_def ext2fs_inode_csum_def crc32c_inode_def s by simp_all
  show "fs_ready fs1 = fs_ready fs" unfolding fs_ready_def s fl ..
  show o: "ino_ok fs1 ino = ino_ok fs ino" unfolding ino_ok_def ino_group_def s ..
  show "ino_valid fs1 ino = ino_valid fs ino" unfolding ino_valid_def o p s ..
  show "read_place fs1 ino = read_place fs ino" unfolding read_place_def image_place_def s fl p ..
  have "itable_len fs1 = itable_len fs" unfolding itable_len_def s ..
  then show "itables_ok fs1 = itables_ok fs" unfolding itables_ok_def s l by simp
  show "ext2fs_inode_csum_verify fs1 ino b = ext2fs_inode_csum_verify fs ino b"
    unfolding ext2fs_inode_csum_verify_def c s ..
qed

context block_dev_total
begin

lemma fill_total:
  assumes "dinv io" "icache_coh (V io) bs ic" "b \<noteq> 0"
  shows "\<exists>io' ic'. icache_fill m io ic b = (io', ic', 0)"
  using dev_read_total [OF assms(1), of b] by (auto simp: icache_fill_def Let_def)

lemma read_inode2_total:
  assumes d: "dinv (fs_io fs)" and bs: "bsize fs = bs" and inv: "icache_inv (V (fs_io fs)) fs" and mem: "alloc_total mem"
    and dev: "on_device fs" "inode_fits fs ino" and rdy: "fs_ready fs" "ino_valid fs ino"
    and cs: "flags AND READ_INODE_NOCSUM \<noteq> 0 \<or> ext2fs_inode_csum_verify fs ino (disk_inode (V (fs_io fs)) fs ino) \<noteq> 0"
  shows "\<exists>fs1 out. ext2fs_read_inode2 mem m fs ino buf flags = Some (fs1, out, 0)"
proof -
  have ms: "alloc_sized mem" using mem by (simp add: alloc_total_def)
  obtain fs2 where c: "ext2fs_create_inode_cache mem fs 4 = (fs2, 0)" using create_inode_cache_total [OF mem] by blast
  note cr = create_inode_cache [OF ms inv c]
  obtain ic where ic: "fs_icache fs2 = Some ic" using cr(2) by blast
  obtain ic0 where fs2: "fs2 = fs\<lparr>fs_icache := ic0\<rparr>" using cr(3) by blast
  have st: "io_step fs fs2" using io_step_icache cr(3) by blast
  note s = io_step_same [OF st] io_step_ready [OF st]
  have ok: "fs_magic fs = EXT2_ET_MAGIC_EXT2FS_FILSYS" "\<not> ext2fs_has_feature_journal_dev (fs_super fs)"
    "\<not> fs_blocksize fs < 1024" "ino \<noteq> 0" "\<not> ino > s_inodes_count (fs_super fs)"
    using rdy by (simp_all add: fs_ready_def ino_valid_def ino_ok_def not_less)
  show ?thesis
  proof (cases "icache_find ic ino")
    case (Some e)
    then show ?thesis using c ic ok by (simp add: ext2fs_read_inode2_def)
  next
    case None
    obtain b off where p: "inode_place fs ino = Inr (b, off)" using rdy(2) by (auto simp: ino_valid_def)
    have rp: "read_place fs ino = Inr (b, off)"
      using p dev(1) rdy(2) by (simp add: read_place_def on_device_def ino_valid_def ino_ok_def ino_group_def less_imp_not_less [of "(ino - 1) div _"])
    have b: "b \<noteq> 0" "off + isize fs \<le> bs" using dev(2) bs p by (auto simp: inode_fits_def)
    have n: "0 < isize fs" using dev(1) by (simp add: on_device_def)
    have io: "read_io fs2 = fs_io fs" "\<And>io. set_read_io fs2 io = fs2\<lparr>fs_io := io\<rparr>"
      using dev(1) by (simp_all add: read_io_def set_read_io_def from_image_def on_device_def fs2)
    have coh: "icache_coh (V (fs_io fs)) bs ic" and sh: "icache_shape (isize fs) ic"
      using cr(1) ic bs s by (simp_all add: icache_inv_def)
    obtain io1 ic1 where f: "icache_fill m (fs_io fs) ic b = (io1, ic1, 0)" using fill_total [OF d coh b(1)] by blast
    note fl = dev_fill [OF d coh b(1) f]
    define slot where "slot = nat (ic_cache_last ic + 1) mod length (ic_cache ic)"
    have slot: "slot < length (ic_cache ic1)" using sh by (simp add: slot_def icache_shape_def fl(3))
    define x where "x = ic_cache ic1 ! slot"
    have lx: "length (ce_inode x) = isize fs" using sh slot by (auto simp: x_def icache_shape_def fl(3))
    have di: "memcpy_at (ce_inode x) 0 (drop off (ic_buffer ic1)) (isize fs) = disk_inode (V (fs_io fs)) fs ino"
      using fl(5) lx b(2) p dev_length [OF d, of b] by (simp add: memcpy_at_full disk_inode_def)
    have sz: "unat (EXT2_INODE_SIZE (fs_super fs2)) = isize fs" "unat (fs_blocksize fs2) = bs"
      using s bs by (simp_all add: isize_def bsize_def)
    have "\<exists>fs1 out. read_inode_miss m fs2 ic ino buf flags = Some (fs1, out, 0)"
      using cs slot unfolding read_inode_miss_def s rp
      by (auto simp: io sz slot_def [symmetric] read_inode_loop_one [OF n b(2) f] x_def [symmetric] di Let_def)
    then show ?thesis using c ic ok None by (simp add: ext2fs_read_inode2_def)
  qed
qed

lemma write_inode2_total:
  assumes d: "dinv (fs_io fs)" and bs: "bsize fs = bs" and inv: "icache_inv (V (fs_io fs)) fs" and mem: "alloc_total mem"
    and dev: "on_device fs" "inode_fits fs ino" and rdy: "fs_ready fs" "ino_valid fs ino"
  shows "\<exists>fs1. ext2fs_write_inode2 mem m fs ino inode flags = Some (fs1, 0)"
proof -
  have ms: "alloc_sized mem" using mem by (simp add: alloc_total_def)
  have ok: "fs_magic fs = EXT2_ET_MAGIC_EXT2FS_FILSYS" "\<not> ext2fs_has_feature_journal_dev (fs_super fs)"
    "ino \<noteq> 0" "\<not> ino > s_inodes_count (fs_super fs)"
    using rdy by (simp_all add: fs_ready_def ino_valid_def ino_ok_def not_less)
  obtain w0 where w0: "mem (isize fs) = Some w0" using mem unfolding alloc_total_def by blast
  have lw0: "length (snd w0) = isize fs" using ms w0 unfolding alloc_sized_def by blast
  obtain fs2 w where s1: "(if length inode < isize fs then ext2fs_read_inode2 mem m fs ino (snd w0) READ_INODE_NOCSUM
      else Some (fs, snd w0, 0)) = Some (fs2, w, 0)"
    using read_inode2_total [OF d bs inv mem dev rdy, of READ_INODE_NOCSUM "snd w0"] by (cases "length inode < isize fs") auto
  have p: "dinv (fs_io fs2) \<and> V (fs_io fs2) = V (fs_io fs) \<and> io_step fs fs2 \<and> icache_inv (V (fs_io fs)) fs2 \<and> length w = isize fs"
    using s1 read_inode2 [OF d bs inv ms dev, of "snd w0" READ_INODE_NOCSUM fs2 w 0] lw0 d inv
    by (auto split: if_splits)
  define step2 where "step2 = (case fs_icache fs2 of
      Some ic \<Rightarrow> (fs2\<lparr>fs_icache := Some (ic\<lparr>ic_cache := update_entry ino inode (ic_cache ic)\<rparr>)\<rparr>, 0)
    | None \<Rightarrow> ext2fs_create_inode_cache mem fs2 4)"
  obtain fs3 e3 where "step2 = (fs3, e3)" by (metis surj_pair)
  note s2 = this [unfolded step2_def]
  have inv2: "icache_inv (V (fs_io fs)) fs2" using p by iprover
  note us = update_step [OF ms inv2 ok(3) s2]
  have q: "\<exists>ic. fs3 = fs2\<lparr>fs_icache := ic\<rparr>" "icache_inv (V (fs_io fs)) fs3" "e3 = 0 \<longrightarrow> (\<exists>ic. fs_icache fs3 = Some ic)"
    using us by (iprover, iprover, blast)
  have e3: "e3 = 0" using s2 create_inode_cache_total [OF mem, of fs2] by (auto split: option.splits)
  obtain ic where ic: "fs_icache fs3 = Some ic" using q(3) e3 by blast
  have st: "io_step fs fs3" using p q(1) io_step_trans io_step_icache by blast
  note s = io_step_same [OF st] io_step_ready [OF st]
  have io3: "fs_io fs3 = fs_io fs2" using q(1) by auto
  have d3: "dinv (fs_io fs3)" "V (fs_io fs3) = V (fs_io fs)" using p io3 by simp_all
  obtain b off where pl: "inode_place fs ino = Inr (b, off)" using rdy(2) by (auto simp: ino_valid_def)
  have b: "b \<noteq> 0" "off + isize fs \<le> bs" using dev(2) bs pl by (auto simp: inode_fits_def)
  have n: "0 < isize fs" using dev(1) by (simp add: on_device_def)
  have coh: "icache_coh (V (fs_io fs3)) bs ic" using q(2) ic bs s d3 by (simp add: icache_inv_def)
  obtain io1 ic1 where f: "icache_fill m (fs_io fs3) ic b = (io1, ic1, 0)" using fill_total [OF d3(1) coh b(1)] by blast
  note fl = dev_fill [OF d3(1) coh b(1) f]
  define wf where "wf = memcpy_at w 0 inode (min (length inode) (isize fs))"
  define w' where "w' = stored_inode fs3 ino wf flags"
  have lw: "length w' = isize fs"
    using p by (simp add: w'_def wf_def stored_inode_def ext2fs_inode_csum_set_def ext2fs_inode_csum_def Let_def)
  have cs: "(if flags AND WRITE_INODE_NOCSUM = 0 then ext2fs_inode_csum_set fs3 ino wf else (wf, 0)) = (w', 0)"
    by (simp add: w'_def stored_inode_def ext2fs_inode_csum_set_def Let_def split: prod.splits)
  have "length (memcpy_at (ic_buffer ic1) off w' (isize fs)) = bs"
    using fl(5) b(2) lw dev_length [OF d3(1), of b] by simp
  then obtain io2 where wr: "io_channel_write_blk64 m io1 b 1 (memcpy_at (ic_buffer ic1) off w' (isize fs)) = (io2, 0)"
    using dev_write_total [OF fl(1)] by blast
  have rw: "fs_flags fs3 AND EXT2_FLAG_RW \<noteq> 0" "inode_place fs3 ino = Inr (b, off)"
    using s rdy(1) pl by (simp_all add: fs_ready_def)
  have sz: "unat (EXT2_INODE_SIZE (fs_super fs3)) = isize fs" "unat (fs_blocksize fs3) = bs"
    using s bs by (simp_all add: isize_def bsize_def)
  have "\<exists>fs1. write_inode_out m fs3 ino wf flags = Some (fs1, 0)"
    unfolding write_inode_out_def cs using rw
    by (simp add: ic sz write_inode_loop_one [OF n b(2) f wr] Let_def)
  then show ?thesis
    using ok w0 s1 s2 e3 by (simp add: ext2fs_write_inode2_def isize_def [symmetric] Let_def wf_def)
qed

end


section \<open>The fields of an inode that is written and read\<close>

text \<open>All fields but the checksum.\<close>

lemma inode_of_cong:
  assumes "\<And>i. i < 128 \<Longrightarrow> i \<noteq> 124 \<Longrightarrow> i \<noteq> 125 \<Longrightarrow> a ! i = b ! i"
  shows "(inode_of a)\<lparr>l_i_checksum_lo := 0\<rparr> = (inode_of b)\<lparr>l_i_checksum_lo := 0\<rparr>"
proof -
  have "map (\<lambda>k. get32 a (40 + 4 * k)) [0..<15] = map (\<lambda>k. get32 b (40 + 4 * k)) [0..<15]"
    using assms by (intro map_cong refl) (simp add: get32_def get16_def)
  then show ?thesis unfolding inode_of_def using assms by (simp add: get32_def get16_def)
qed

lemma stored_inode_nth:
  assumes "length w = isize fs" "128 \<le> length w" "i < 128" "i \<noteq> 124" "i \<noteq> 125"
  shows "stored_inode fs ino w flags ! i = w ! i"
  using assms
  by (simp add: stored_inode_def ext2fs_inode_csum_set_def ext2fs_inode_csum_def Let_def put16_def nth_list_update)

lemma dvd_pow2: "(d::nat) dvd 2 ^ n \<Longrightarrow> \<exists>l. d = 2 ^ l"
proof (induction n arbitrary: d)
  case (Suc n)
  show ?case
  proof (cases "even d")
    case True
    then obtain e where "d = 2 * e" by blast
    then have "e dvd 2 ^ n" using Suc.prems by simp
    then obtain l where "e = 2 ^ l" using Suc.IH by blast
    then have "d = 2 ^ Suc l" using \<open>d = 2 * e\<close> by simp
    then show ?thesis by blast
  next
    case False
    then have "coprime d 2" by simp
    then show ?thesis using Suc by (simp add: coprime_dvd_mult_right_iff)
  qed
qed (auto intro: exI [of _ 0])

lemma isize_cases:
  assumes "itables_ok fs"
  shows "isize fs = 128 \<or> 256 \<le> isize fs"
proof -
  have "isize fs dvd 2 ^ (10 + unat (s_log_block_size (fs_super fs)))" "128 \<le> isize fs"
    using assms unfolding itables_ok_def by metis+
  moreover from this(1) obtain l where l: "isize fs = 2 ^ l" using dvd_pow2 by blast
  ultimately have "(2::nat) ^ 7 \<le> 2 ^ l" by simp
  then have "7 \<le> l" by (simp only: power_increasing_iff)
  then show ?thesis
  proof (cases "l = 7")
    case False
    then have "(2::nat) ^ 8 \<le> 2 ^ l" using \<open>7 \<le> l\<close> by (intro power_increasing) auto
    then show ?thesis using l by simp
  qed (simp add: l)
qed

lemma stored_verify:
  assumes g: "itables_ok fs" and w: "length w = isize fs"
  shows "ext2fs_inode_csum_verify fs ino (stored_inode fs ino w 0) \<noteq> 0"
proof -
  have "inode_has_hi fs w \<Longrightarrow> isize fs \<noteq> 128" by (auto simp: inode_has_hi_def isize_def word_less_nat_alt)
  then have "inode_has_hi fs w \<Longrightarrow> 132 \<le> length w" "128 \<le> length w" using isize_cases [OF g] w by auto
  then show ?thesis using csum_set_verify [of w fs ino] w by (simp add: stored_inode_def)
qed

lemma inode_of_stored:
  assumes w: "length w = isize fs" "128 \<le> isize fs" "take 128 w = inode_bytes i" and i: "length (i_block i) = 15"
    and b: "length buf = 128"
  shows "(inode_of (copy_inode buf (stored_inode fs ino w flags)))\<lparr>l_i_checksum_lo := 0\<rparr> = i\<lparr>l_i_checksum_lo := 0\<rparr>"
proof -
  have l: "length (stored_inode fs ino w flags) = isize fs"
    using w by (simp add: stored_inode_def ext2fs_inode_csum_set_def ext2fs_inode_csum_def Let_def)
  have "copy_inode buf (stored_inode fs ino w flags) ! k = inode_bytes i ! k" if k: "k < 128" "k \<noteq> 124" "k \<noteq> 125" for k
  proof -
    have "copy_inode buf (stored_inode fs ino w flags) ! k = stored_inode fs ino w flags ! k"
      using l b w(2) k by (simp add: copy_inode_def nth_memcpy_at)
    also have "\<dots> = w ! k" using stored_inode_nth [of w fs k ino flags] w k by simp
    also have "\<dots> = inode_bytes i ! k" using k w(3) [symmetric] by simp
    finally show ?thesis .
  qed
  then have "(inode_of (copy_inode buf (stored_inode fs ino w flags)))\<lparr>l_i_checksum_lo := 0\<rparr>
      = (inode_of (inode_bytes i))\<lparr>l_i_checksum_lo := 0\<rparr>"
    by (rule inode_of_cong)
  then show ?thesis by (simp add: inode_of_bytes [OF i])
qed

context block_dev_total
begin

lemma write_read_inode:
  assumes d: "dinv (fs_io fs)" and bs: "bsize fs = bs" and inv: "icache_inv (V (fs_io fs)) fs" and mem: "alloc_total mem"
    and dev: "on_device fs" "itables_ok fs" and rdy: "fs_ready fs" "ino_valid fs ino"
    and i: "length (i_block i) = 15" "length (i_block j) = 15"
  shows "\<exists>fs1 fs2 k. ext2fs_write_inode mem m fs ino i = Some (fs1, 0) \<and> ext2fs_read_inode mem m fs1 ino j = Some (fs2, k, 0)
    \<and> k\<lparr>l_i_checksum_lo := 0\<rparr> = i\<lparr>l_i_checksum_lo := 0\<rparr>"
proof -
  have ms: "alloc_sized mem" using mem by (simp add: alloc_total_def)
  have ok: "ino_ok fs ino" using rdy(2) by (simp add: ino_valid_def)
  have fit: "inode_fits fs ino" by (rule inode_fits_ok [OF dev(2) ok])
  have sz: "128 \<le> isize fs" using dev(1) by (simp add: on_device_def)
  have lb: "length (inode_bytes i) = 128" "length (inode_bytes j) = 128" using i by (simp_all add: length_inode_bytes)
  obtain fs1 where wr: "ext2fs_write_inode2 mem m fs ino (inode_bytes i) 0 = Some (fs1, 0)"
    using write_inode2_total [OF d bs inv mem dev(1) fit rdy] by blast
  note w2 = write_inode2 [OF d bs inv ms dev(1) fit wr]
  obtain w where w: "length w = isize fs" "take 128 w = inode_bytes i"
      "V (fs_io fs1) = put_inode (V (fs_io fs)) fs ino (stored_inode fs ino w 0)"
      "\<forall>ic e. fs_icache fs1 = Some ic \<longrightarrow> icache_find ic ino = Some e \<longrightarrow> take 128 (ce_inode e) = inode_bytes i"
    using w2(3) lb sz by auto
  have d1: "dinv (fs_io fs1)" and st: "io_step fs fs1" and inv1: "icache_inv (V (fs_io fs1)) fs1" using w2 by blast+
  note s = io_step_same [OF st] io_step_ready [OF st]
  obtain b off where p: "inode_place fs ino = Inr (b, off)" using rdy(2) by (auto simp: ino_valid_def)
  have lst: "length (stored_inode fs ino w 0) = isize fs"
    using w by (simp add: stored_inode_def ext2fs_inode_csum_set_def ext2fs_inode_csum_def Let_def)
  have di: "disk_inode (V (fs_io fs1)) fs ino = stored_inode fs ino w 0"
    unfolding w(3) by (rule disk_inode_put [OF fit p _ lst]) (simp add: dev_length [OF d] bs)
  have cs: "ext2fs_inode_csum_verify fs1 ino (disk_inode (V (fs_io fs1)) fs1 ino) \<noteq> 0"
    using stored_verify [OF dev(2) w(1), of ino] s di by simp
  have x: "bsize fs1 = bs" "on_device fs1" "inode_fits fs1 ino" "fs_ready fs1" "ino_valid fs1 ino"
    using s bs dev fit rdy by simp_all
  obtain fs2 out where rd: "ext2fs_read_inode2 mem m fs1 ino (inode_bytes j) 0 = Some (fs2, out, 0)"
    using read_inode2_total [OF d1 x(1) inv1 mem x(2-5) disjI2 [OF cs]] by blast
  have "(inode_of out)\<lparr>l_i_checksum_lo := 0\<rparr> = i\<lparr>l_i_checksum_lo := 0\<rparr>"
    using read_inode2(3) [OF d1 x(1) inv1 ms x(2,3) rd refl]
  proof (elim disjE exE conjE)
    assume "out = copy_inode (inode_bytes j) (disk_inode (V (fs_io fs1)) fs1 ino)"
    then have "out = copy_inode (inode_bytes j) (stored_inode fs ino w 0)" using di s by simp
    then show ?thesis using inode_of_stored [OF w(1) sz w(2) i(1) lb(2)] by simp
  next
    fix ic e assume h: "fs_icache fs1 = Some ic" "icache_find ic ino = Some e" "out = copy_inode (inode_bytes j) (ce_inode e)"
    have "length (ce_inode e) = isize fs"
      using inv1 h s by (auto simp: icache_inv_def icache_shape_def icache_find_def find_Some_iff)
    then have "out = take 128 (ce_inode e)" using lb sz h(3) by (simp add: copy_inode_def memcpy_at_def)
    then show ?thesis using w(4) h inode_of_bytes [OF i(1)] by simp
  qed
  then show ?thesis using wr rd by (auto simp: ext2fs_write_inode_def ext2fs_read_inode_def)
qed

end

end
