(* ===== verification/Inode_Theorems.thy ===== *)
theory Inode_Theorems
  imports Inode_total
begin

text \<open>
  The theorems about reading and writing inodes: the round trip, what a write leaves alone, and what
  goes wrong in the inode cache after a read that failed.
\<close>

section \<open>A read that fails\<close>

text \<open>The cache entry of another inode is overwritten by an inode whose checksum is wrong.\<close>

lemma stale_entry:
  assumes f: "fs_icache fs = Some ic" "fs_ready fs" "on_device fs" "fs_flags fs AND EXT2_FLAG_IGNORE_CSUM_ERRORS = 0"
    and a: "a \<noteq> 0" "a \<le> s_inodes_count (fs_super fs)" and b: "ino_valid fs b" "inode_place fs b = Inr (ic_buffer_blk ic, off)"
    and sl: "slot = nat (ic_cache_last ic + 1) mod length (ic_cache ic)" "slot < length (ic_cache ic)"
      "ce_ino (ic_cache ic ! slot) = a" "\<And>k. k < slot \<Longrightarrow> ce_ino (ic_cache ic ! k) \<noteq> a" "icache_find ic b = None"
    and len: "length (ce_inode (ic_cache ic ! slot)) = isize fs" "length (ic_buffer ic) = bsize fs" "off + isize fs \<le> bsize fs"
    and x: "x = take (isize fs) (drop off (ic_buffer ic))" "ext2fs_inode_csum_verify fs b x = 0"
  shows "\<exists>fs1. ext2fs_read_inode_full mem m fs b buf = Some (fs1, copy_inode buf x, EXT2_ET_INODE_CSUM_INVALID)
    \<and> ext2fs_read_inode_full mem m fs1 a buf2 = Some (fs1, copy_inode buf2 x, 0)"
proof -
  define e where "e = ic_cache ic ! slot"
  define ic1 where "ic1 = ic\<lparr>ic_cache := (ic_cache ic)[slot := e\<lparr>ce_inode := x\<rparr>]\<rparr>"
  define fs1 where "fs1 = fs\<lparr>fs_icache := Some ic1\<rparr>"
  have ok: "fs_magic fs = EXT2_ET_MAGIC_EXT2FS_FILSYS" "\<not> ext2fs_has_feature_journal_dev (fs_super fs)"
    "\<not> fs_blocksize fs < 1024" "b \<noteq> 0" "\<not> b > s_inodes_count (fs_super fs)" "\<not> a > s_inodes_count (fs_super fs)"
    using f(2) b(1) a by (simp_all add: fs_ready_def ino_valid_def ino_ok_def not_less)
  have io: "read_io fs = fs_io fs" "\<And>io. set_read_io fs io = fs\<lparr>fs_io := io\<rparr>"
    using f(3) by (simp_all add: read_io_def set_read_io_def from_image_def on_device_def)
  have rp: "read_place fs b = Inr (ic_buffer_blk ic, off)"
    using b f(3) by (simp add: read_place_def on_device_def ino_valid_def ino_ok_def ino_group_def less_imp_not_less [of "(b - 1) div _"])
  have n: "0 < isize fs" using f(3) by (simp add: on_device_def)
  have fl: "icache_fill m (fs_io fs) ic (ic_buffer_blk ic) = (fs_io fs, ic, 0)" by (simp add: icache_fill_def)
  have mc: "memcpy_at (ce_inode e) 0 (drop off (ic_buffer ic)) (isize fs) = x"
    using len by (simp add: e_def x(1) memcpy_at_full)
  have cx: "ce_inode (ic_cache ic1 ! slot) = x" using sl(2) by (simp add: ic1_def)
  have st: "fs\<lparr>fs_io := fs_io fs, fs_icache := Some ic1\<rparr> = fs1" by (simp add: fs1_def)
  have "read_inode_miss m fs ic b buf 0 = Some (fs1, copy_inode buf x, EXT2_ET_INODE_CSUM_INVALID)"
    unfolding read_inode_miss_def rp
    using sl(2) f(4) x(2) st mc cx
    by (simp add: io sl(1) [symmetric] isize_def [symmetric] bsize_def [symmetric]
        read_inode_loop_one [OF n len(3) fl] e_def [symmetric] ic1_def [symmetric] Let_def)
  then have r1: "ext2fs_read_inode_full mem m fs b buf = Some (fs1, copy_inode buf x, EXT2_ET_INODE_CSUM_INVALID)"
    using ok f(1) sl(5) by (simp add: ext2fs_read_inode_full_def ext2fs_read_inode2_def ext2fs_create_inode_cache_def)
  have "icache_find ic1 a = Some (e\<lparr>ce_inode := x\<rparr>)"
    using sl(2-4) unfolding icache_find_def ic1_def find_Some_iff
    by (intro exI [of _ slot]) (auto simp: e_def nth_list_update)
  then have "ext2fs_read_inode_full mem m fs1 a buf2 = Some (fs1, copy_inode buf2 x, 0)"
    using ok a(1) by (simp add: ext2fs_read_inode_full_def ext2fs_read_inode2_def ext2fs_create_inode_cache_def fs1_def)
  then show ?thesis using r1 by blast
qed

text \<open>
  A read that fails overwrites the block buffer, which still counts as the block read before: the next
  write of an inode of that block stores the buffer.
\<close>

context block_dev
begin

lemma poisoned_buffer:
  assumes d: "dinv (fs_io fs)" and bs: "bsize fs = bs" and ic: "fs_icache fs = Some ic" and sh: "icache_shape (isize fs) ic"
    and lb: "length (ic_buffer ic) = bs" and mem: "alloc_total mem"
    and dev: "on_device fs" "itables_ok fs" "fs_ready fs"
    and a: "ino_valid fs a" "inode_place fs a = Inr (ic_buffer_blk ic, offa)"
    and b: "ino_valid fs b" "inode_place fs b = Inr (y, offb)" "y \<noteq> ic_buffer_blk ic" "icache_find ic b = None"
    and rd: "io_channel_read_blk64 m (fs_io fs) y 1 = (io1, z, err)" "err \<noteq> 0" "length z = bs"
    and inode: "length inode = isize fs"
  shows "\<exists>fs1 fs2. ext2fs_read_inode_full mem m fs b buf = Some (fs1, buf, err)
    \<and> ext2fs_write_inode_full mem m fs1 a inode = Some (fs2, 0)
    \<and> V (fs_io fs2) = (V (fs_io fs))(ic_buffer_blk ic := memcpy_at z offa (stored_inode fs a inode 0) (isize fs))"
proof -
  have oka: "ino_ok fs a" and okb: "ino_ok fs b" using a b by (simp_all add: ino_valid_def)
  have n: "0 < isize fs" using dev(1) by (simp add: on_device_def)
  have fa: "offa + isize fs \<le> bs" and fb: "offb + isize fs \<le> bs"
    using inode_fits_ok [OF dev(2) oka] inode_fits_ok [OF dev(2) okb] a(2) b(2) bs by (auto simp: inode_fits_def)
  have ok: "fs_magic fs = EXT2_ET_MAGIC_EXT2FS_FILSYS" "\<not> ext2fs_has_feature_journal_dev (fs_super fs)"
    "\<not> fs_blocksize fs < 1024" "b \<noteq> 0" "\<not> b > s_inodes_count (fs_super fs)" "a \<noteq> 0" "\<not> a > s_inodes_count (fs_super fs)"
    using dev(3) b(1) a(1) by (simp_all add: fs_ready_def ino_valid_def ino_ok_def not_less)
  have io: "read_io fs = fs_io fs" "\<And>io. set_read_io fs io = fs\<lparr>fs_io := io\<rparr>"
    using dev(1) by (simp_all add: read_io_def set_read_io_def from_image_def on_device_def)
  have rp: "read_place fs b = Inr (y, offb)"
    using b dev(1) by (simp add: read_place_def on_device_def ino_valid_def ino_ok_def ino_group_def less_imp_not_less [of "(b - 1) div _"])
  define ic1 where "ic1 = ic\<lparr>ic_buffer := z\<rparr>"
  have fl: "icache_fill m (fs_io fs) ic y = (io1, ic1, err)"
    using b(3) rd lb by (simp add: icache_fill_def ic1_def memcpy_at_def)
  define fs1 where "fs1 = fs\<lparr>fs_io := io1, fs_icache := Some ic1\<rparr>"
  have st: "io_step fs fs1" unfolding fs1_def by (rule io_stepI) simp
  note s = io_step_same [OF st] io_step_ready [OF st]
  have "read_inode_miss m fs ic b buf 0 = Some (fs1, buf, err)"
    unfolding read_inode_miss_def rp using rd(2) bs
    by (simp add: io isize_def [symmetric] bsize_def [symmetric] read_inode_loop_one [OF n fb fl] fs1_def Let_def)
  then have r1: "ext2fs_read_inode_full mem m fs b buf = Some (fs1, buf, err)"
    using ok ic b(4) by (simp add: ext2fs_read_inode_full_def ext2fs_read_inode2_def ext2fs_create_inode_cache_def)
  have dv: "dinv io1" "V io1 = V (fs_io fs)" using dev_read [OF d rd(1)] by blast+
  obtain w0 where w0: "mem (isize fs) = Some w0" "length (snd w0) = isize fs"
    using mem unfolding alloc_total_def alloc_sized_def by blast
  define ic2 where "ic2 = ic1\<lparr>ic_cache := update_entry a inode (ic_cache ic1)\<rparr>"
  define fs2 where "fs2 = fs1\<lparr>fs_icache := Some ic2\<rparr>"
  have "\<exists>ic. fs2 = fs1\<lparr>fs_icache := ic\<rparr>" using fs2_def by blast
  then have st2: "io_step fs fs2" using io_step_trans [OF st io_step_icache] by blast
  note s2 = io_step_same [OF st2] io_step_ready [OF st2]
  have io2: "fs_io fs2 = io1" "fs_icache fs2 = Some ic2" by (simp_all add: fs2_def fs1_def)
  define w where "w = stored_inode fs a inode 0"
  have lw: "length w = isize fs"
    using inode by (simp add: w_def stored_inode_def ext2fs_inode_csum_set_def ext2fs_inode_csum_def Let_def)
  have fill2: "icache_fill m io1 ic2 (ic_buffer_blk ic) = (io1, ic2, 0)" "ic_buffer ic2 = z"
    by (simp_all add: icache_fill_def ic2_def ic1_def)
  have "length (memcpy_at z offa w (isize fs)) = bs" using rd(3) fa lw by simp
  then obtain io3 where wr: "io_channel_write_blk64 m io1 (ic_buffer_blk ic) 1 (memcpy_at (ic_buffer ic2) offa w (isize fs)) = (io3, 0)"
    "V io3 = (V (fs_io fs))(ic_buffer_blk ic := memcpy_at z offa w (isize fs))"
    using dev_write [OF dv(1)] dv(2) fill2(2) by (metis surj_pair)
  have cs: "(if (0::u32) AND WRITE_INODE_NOCSUM = 0 then ext2fs_inode_csum_set fs2 a inode else (inode, 0)) = (w, 0)"
  proof -
    have "ext2fs_inode_csum_set fs2 a inode = ext2fs_inode_csum_set fs a inode" using io_step_same [OF st2] by blast
    moreover have "snd (ext2fs_inode_csum_set fs a inode) = 0" by (simp add: ext2fs_inode_csum_set_def Let_def split: prod.splits)
    ultimately show ?thesis by (simp add: w_def stored_inode_def prod_eq_iff)
  qed
  have rw: "fs_flags fs2 AND EXT2_FLAG_RW \<noteq> 0" "inode_place fs2 a = Inr (ic_buffer_blk ic, offa)"
    using s2 dev(3) a(2) by (simp_all add: fs_ready_def)
  have sz: "unat (EXT2_INODE_SIZE (fs_super fs2)) = isize fs" "unat (fs_blocksize fs2) = bs"
    using s2 bs by (simp_all add: isize_def bsize_def)
  have "\<exists>fs3. write_inode_out m fs2 a inode 0 = Some (fs3, 0) \<and> fs_io fs3 = io3"
    unfolding write_inode_out_def cs using rw
    by (simp add: io2 sz write_inode_loop_one [OF n fa fill2(1) wr(1)] Let_def ext2fs_mark_changed_def)
  then obtain fs3 where f3: "write_inode_out m fs2 a inode 0 = Some (fs3, 0)" "fs_io fs3 = io3" by blast
  have "fs_super fs1 = fs_super fs" "fs_magic fs1 = fs_magic fs" "fs_icache fs1 = Some ic1" by (simp_all add: fs1_def)
  then have "ext2fs_write_inode_full mem m fs1 a inode = Some (fs3, 0)"
    using ok w0 f3(1) inode
    by (simp add: ext2fs_write_inode_full_def ext2fs_write_inode2_def isize_def [symmetric] Let_def memcpy_at_full
        ic2_def [symmetric] fs2_def [symmetric])
  then show ?thesis using r1 wr(2) f3(2) by (auto simp: w_def)
qed

end

section \<open>A small device\<close>

text \<open>
  Two groups of sixteen inodes of 128 bytes, their tables at the blocks 5 and 13. \<open>half_ops\<close> is a vnode that
  cannot be read from block 6 on.
\<close>

definition ino_super :: ext2_super_block where
  "ino_super = zero_super\<lparr>s_inodes_count := 32, s_blocks_count := 64, s_first_data_block := 1, s_inodes_per_group := 16\<rparr>"

definition ino_ch :: "(int \<Rightarrow> u8) io_channel" where
  "ino_ch = (mem_ch (replicate 8 (empty_entry [])))\<lparr>io_block_size := 1024\<rparr>"

definition ino_fs :: "ext2_super_block \<Rightarrow> inode_cache option \<Rightarrow> (int \<Rightarrow> u8) ext2_handle" where
  "ino_fs sb ic = \<lparr>fs_magic = EXT2_ET_MAGIC_EXT2FS_FILSYS, fs_flags = 1, fs_super = sb,
     fs_blocksize = 1024, fs_group_desc_count = 2, fs_desc_blocks = 1,
     fs_group_desc = [zero_desc\<lparr>bg_inode_table := 5\<rparr>, zero_desc\<lparr>bg_inode_table := 13\<rparr>], fs_inode_blocks_per_group = 2,
     fs_cluster_ratio_bits = 0, fs_default_bitmap_type = 0, fs_csum_seed = 0, fs_block_map = None, fs_inode_map = None,
     fs_io = ino_ch, fs_image_io = None, fs_offset_inode = 0, fs_icache = ic, fs_now = 0, fs_badblocks = None\<rparr>"

definition ino_mem :: allocator where
  "ino_mem n = Some (0, replicate n 0)"

definition half_ops :: "(int \<Rightarrow> u8) vnode_ops" where
  "half_ops = mem_ops\<lparr>vpread := (\<lambda>d n off. if off \<ge> 6144 then (d, -1, []) else (d, int n, map (\<lambda>i. d (off + int i)) [0..<n]))\<rparr>"

lemma ino_super_simps [simp]:
  "s_inodes_count ino_super = 32" "s_blocks_count ino_super = 64" "s_first_data_block ino_super = 1"
  "s_inodes_per_group ino_super = 16" "s_log_block_size ino_super = 0" "s_rev_level ino_super = 0"
  "s_feature_incompat ino_super = 0" "s_feature_ro_compat ino_super = 0" "s_blocks_count_hi ino_super = 0"
  by (simp_all add: ino_super_def zero_super_def)

lemma ino_fs_simps [simp]:
  "fs_magic (ino_fs sb ic) = EXT2_ET_MAGIC_EXT2FS_FILSYS" "fs_flags (ino_fs sb ic) = 1" "fs_super (ino_fs sb ic) = sb"
  "fs_blocksize (ino_fs sb ic) = 1024" "fs_group_desc_count (ino_fs sb ic) = 2" "fs_io (ino_fs sb ic) = ino_ch"
  "fs_icache (ino_fs sb ic) = ic" "fs_inode_blocks_per_group (ino_fs sb ic) = 2"
  by (simp_all add: ino_fs_def)

lemma ino_mem_total: "alloc_total ino_mem" "alloc_sized ino_mem"
  by (auto simp: alloc_total_def alloc_sized_def ino_mem_def)

lemma ino_ch_inv: "xnu_inv (\<lambda>d. d) ino_ch" "io_block_size ino_ch = 1024"
  by (auto simp: xnu_inv_def cache_ok_def ino_ch_def mem_ch_def io_checks_def cached_at_def empty_entry_def)

lemma ino_dev: "xnu_dev mem_ops (\<lambda>d. d) 1024 ino_ch" "xnu_dev half_ops (\<lambda>d. d) 1024 ino_ch" "vnode_readable mem_ops"
proof -
  have "vnode_ok half_ops (\<lambda>d. d)" "vnode_reliable half_ops"
    using mem_vnode by (auto simp: vnode_ok_def vnode_reliable_def half_ops_def mem_ops_def split: if_splits)
  then show "xnu_dev half_ops (\<lambda>d. d) 1024 ino_ch" using ino_ch_inv by (simp add: xnu_dev_def)
  show "xnu_dev mem_ops (\<lambda>d. d) 1024 ino_ch" using mem_vnode ino_ch_inv by (simp add: xnu_dev_def)
  show "vnode_readable mem_ops" by (simp add: vnode_readable_def mem_ops_def)
qed

lemma word_less_2: "(g :: u32) < 2 \<longleftrightarrow> g = 0 \<or> g = 1"
  by (simp add: word_less_nat_alt word_unat_eq_iff) linarith

lemma ino_loc:
  "ext2fs_inode_table_loc (ino_fs ino_super ic) 0 = 5" "ext2fs_inode_table_loc (ino_fs ino_super ic) 1 = 13"
  by (simp_all add: ext2fs_inode_table_loc_def ext4fs_group_desc_def ext2fs_group_desc_def ino_fs_def has_feature_incompat_def)

lemma ino_sizes: "isize (ino_fs ino_super ic) = 128" "bsize (ino_fs ino_super ic) = 1024"
  by (simp_all add: isize_def bsize_def EXT2_INODE_SIZE_def)

lemma ino_fs_ok:
  "itables_ok (ino_fs ino_super ic)" "on_device (ino_fs ino_super ic)" "fs_ready (ino_fs ino_super ic)"
proof -
  have "itable_len (ino_fs ino_super ic) = 3" by (simp add: itable_len_def ino_sizes)
  then show "itables_ok (ino_fs ino_super ic)"
    by (auto simp: itables_ok_def ino_sizes ino_loc word_less_2 simp flip: power_Suc)
  show "on_device (ino_fs ino_super ic)" by (simp add: on_device_def ino_sizes)
  show "fs_ready (ino_fs ino_super ic)"
    by (simp add: fs_ready_def has_feature_incompat_def)
qed

lemma ino_places:
  "inode_place (ino_fs ino_super ic) 1 = Inr (5, 0)" "inode_place (ino_fs ino_super ic) 2 = Inr (5, 128)"
  "inode_place (ino_fs ino_super ic) 9 = Inr (6, 0)"
  by (simp_all add: inode_place_def ino_loc EXT2_INODE_SIZE_def EXT2_BLOCK_SIZE_def ext2fs_blocks_count_def
      has_feature_incompat_def Let_def)

lemma ino_valids:
  "ino_valid (ino_fs ino_super ic) 1" "ino_valid (ino_fs ino_super ic) 2" "ino_valid (ino_fs ino_super ic) 9"
  by (simp_all add: ino_valid_def ino_ok_def ino_group_def ino_places)

text \<open>The same with checksums: an inode whose checksum is wrong, in the block buffer behind inode 1.\<close>

definition csum_super :: ext2_super_block where
  "csum_super = ino_super\<lparr>s_feature_ro_compat := 0x400\<rparr>"

definition broken_inode :: "u8 list" where
  "broken_inode = (let b = 1 # replicate 127 0 in put16 b 124 (ucast (snd (ext2fs_inode_csum (ino_fs csum_super None) 2 b False)) + 1))"

definition ino_cache :: "u32 \<Rightarrow> u8 list \<Rightarrow> inode_cache" where
  "ino_cache first buffer = \<lparr>ic_buffer = buffer, ic_buffer_blk = 5, ic_cache_last = 3, ic_refcount = 1,
     ic_cache = \<lparr>ce_ino = first, ce_inode = replicate 128 0\<rparr> # replicate 3 \<lparr>ce_ino = 0, ce_inode = replicate 128 0\<rparr>\<rparr>"

lemma ino_cache_find: "ino \<noteq> 0 \<Longrightarrow> ino \<noteq> first \<Longrightarrow> icache_find (ino_cache first buffer) ino = None"
  by (simp add: icache_find_def ino_cache_def numeral_3_eq_3)

lemma ino_cache_shape: "icache_shape 128 (ino_cache first buffer)"
  by (simp add: icache_shape_def ino_cache_def)

lemma csum_super_simps [simp]:
  "s_inodes_count csum_super = 32" "s_blocks_count csum_super = 64" "s_first_data_block csum_super = 1"
  "s_inodes_per_group csum_super = 16" "s_log_block_size csum_super = 0" "s_rev_level csum_super = 0"
  "s_feature_incompat csum_super = 0" "s_feature_ro_compat csum_super = 0x400" "s_blocks_count_hi csum_super = 0"
  by (simp_all add: csum_super_def)

lemma csum_fs_ok:
  "on_device (ino_fs csum_super ic)" "fs_ready (ino_fs csum_super ic)" "ino_valid (ino_fs csum_super ic) 2"
  "inode_place (ino_fs csum_super ic) 2 = Inr (5, 128)" "isize (ino_fs csum_super ic) = 128" "bsize (ino_fs csum_super ic) = 1024"
proof -
  have l: "ext2fs_inode_table_loc (ino_fs csum_super ic) 0 = 5"
    by (simp add: ext2fs_inode_table_loc_def ext4fs_group_desc_def ext2fs_group_desc_def ino_fs_def has_feature_incompat_def)
  show s: "isize (ino_fs csum_super ic) = 128" "bsize (ino_fs csum_super ic) = 1024"
    by (simp_all add: isize_def bsize_def EXT2_INODE_SIZE_def)
  show "on_device (ino_fs csum_super ic)" by (simp add: on_device_def s)
  show "fs_ready (ino_fs csum_super ic)" by (simp add: fs_ready_def has_feature_incompat_def)
  show p: "inode_place (ino_fs csum_super ic) 2 = Inr (5, 128)"
    by (simp add: inode_place_def l EXT2_INODE_SIZE_def EXT2_BLOCK_SIZE_def ext2fs_blocks_count_def has_feature_incompat_def Let_def)
  show "ino_valid (ino_fs csum_super ic) 2" by (simp add: ino_valid_def ino_ok_def ino_group_def p)
qed

lemma wrong_checksum:
  assumes l: "128 \<le> length b" and h: "\<not> inode_has_hi fs (put16 b 124 v)" and m: "ext2fs_has_feature_metadata_csum (fs_super fs)"
    and v: "v = ucast (snd (ext2fs_inode_csum fs ino b False)) + 1" and nz: "\<exists>x \<in> set (take 128 (put16 b 124 v)). x \<noteq> 0"
  shows "ext2fs_inode_csum_verify fs ino (put16 b 124 v) = 0"
proof -
  define c where "c = snd (ext2fs_inode_csum fs ino b False)"
  have q: "ext2fs_inode_csum fs ino (put16 b 124 v) False = (put16 b 124 v, c)"
    using l by (simp add: c_def ext2fs_inode_csum_def Let_def put16_twice put16_same get16_put16)
  have g: "get16 (put16 b 124 v) 124 = ucast c + 1" using l by (simp add: get16_put16 v c_def)
  have "ucast (ucast c + 1 :: u16) \<noteq> c AND 0xFFFF"
  proof
    assume a: "ucast (ucast c + 1 :: u16) = c AND 0xFFFF"
    have "ucast (ucast (ucast c + 1 :: u16) :: u32) = (ucast c + 1 :: u16)" by (rule bit_word_eqI) (simp add: bit_simps)
    moreover have "ucast (c AND 0xFFFF) = (ucast c :: u16)"
    proof -
      have "(0xFFFF :: u32) = mask 16" by (simp add: mask_eq_exp_minus_1)
      show ?thesis unfolding \<open>(0xFFFF :: u32) = mask 16\<close> by (rule bit_word_eqI) (simp add: bit_simps)
    qed
    ultimately show False using a by simp
  qed
  then show ?thesis using q h m g nz by (auto simp: ext2fs_inode_csum_verify_def Let_def)
qed

lemma broken_inode: "length broken_inode = 128" "broken_inode ! 0 = 1"
  "ext2fs_inode_csum_verify (ino_fs csum_super ic) 2 broken_inode = 0"
proof -
  let ?fs = "ino_fs csum_super None"
  define b :: "u8 list" where "b = 1 # replicate 127 0"
  define v :: u16 where "v = ucast (snd (ext2fs_inode_csum ?fs 2 b False)) + 1"
  have l: "length b = 128" by (simp add: b_def)
  have e: "broken_inode = put16 b 124 v" unfolding broken_inode_def b_def v_def Let_def ..
  show n: "length broken_inode = 128" using l by (simp add: e)
  have "b ! 0 = 1" by (simp add: b_def)
  then show f: "broken_inode ! 0 = 1" using l by (simp add: e nth_put16)
  have "1 \<in> set broken_inode" using f n nth_mem [of 0 broken_inode] by simp
  then have nz: "\<exists>x \<in> set (take 128 (put16 b 124 v)). x \<noteq> 0" using n unfolding e by (intro bexI [of _ 1]) simp_all
  have h: "\<not> inode_has_hi ?fs (put16 b 124 v)" by (simp add: inode_has_hi_def EXT2_INODE_SIZE_def)
  have m: "ext2fs_has_feature_metadata_csum (fs_super ?fs)" by (simp add: has_feature_ro_compat_def)
  have "128 \<le> length b" by (simp add: l)
  from wrong_checksum [OF this h m v_def nz] have "ext2fs_inode_csum_verify ?fs 2 broken_inode = 0" unfolding e .
  moreover have "ext2fs_inode_csum_verify (ino_fs csum_super ic) 2 broken_inode = ext2fs_inode_csum_verify ?fs 2 broken_inode"
    by (rule io_step_ready(6)) (rule io_stepI [of _ ic ino_ch], simp add: ino_fs_def)
  ultimately show "ext2fs_inode_csum_verify (ino_fs csum_super ic) 2 broken_inode = 0" by simp
qed

lemma half_read: "\<exists>io1. io_channel_read_blk64 (xnu_io_manager half_ops) ino_ch 6 1 = (io1, replicate 1024 0, EIO)"
proof -
  have cok: "cache_ok (\<lambda>d. d) ino_ch" "io_checks ino_ch = 0" "xd_flags ino_ch AND IO_FLAG_NOCACHE = 0" using ino_ch_inv by (simp_all add: xnu_inv_def)
  then have len: "length (xd_cache ino_ch) = CACHE_SIZE" by (simp add: cache_ok_def)
  obtain ch1 q where f: "find_cached_block ino_ch 6 = (ch1, q)" by (metis surj_pair)
  note eq1 = find_cached_block(1) [where content = "\<lambda>d. d", OF len f] and fr = find_cached_block(2) [OF len f]
  have "\<not> cached_at ino_ch i 6" for i by (auto simp: cached_at_def ino_ch_def mem_ch_def empty_entry_def)
  then obtain e where q: "q = Inr e" using fr by (cases q) auto
  have b: "io_block_size ch1 = 1024" "xd_offset ch1 = 0" using eq1 by (simp_all add: chan_eq_def ino_ch_def mem_ch_def)
  obtain ch2 where rr: "raw_read_blk half_ops ch1 6 (int 1) = (ch2, replicate 1024 0, EIO)"
    using b by (simp add: raw_read_blk_def half_ops_def xfer_size_def xfer_location_def Let_def)
  obtain ch3 e3 where sv: "save_in_cache half_ops 1 ch2 6 (replicate 1024 0) = (ch3, e3)" by (metis surj_pair)
  have u: "uncached_run ch1 6 1 (1 - 1) = (ch1, 1)" by simp
  have "read_loop half_ops 1 ino_ch 6 [] = (ch2, replicate 1024 0, EIO)"
    using read_loop_step(3) [OF _ f [unfolded q] u rr sv] by simp
  then show ?thesis using cok by (simp add: xnu_manager_simps xnu_read_blk64_def)
qed

section \<open>The theorems\<close>

text \<open>
  C9. On a device that does not fail, an inode that is written is read back: whatever the inode cache held
  before, both calls return success and every field but the checksum is the one that was written.
\<close>

theorem inode_write_read:
  assumes "xnu_dev ops content (bsize fs) (fs_io fs)" "vnode_readable ops" "icache_inv (view content (fs_io fs)) fs"
    "alloc_total mem" "on_device fs" "itables_ok fs" "fs_ready fs" "ino_valid fs ino"
    "length (i_block i) = 15" "length (i_block j) = 15"
  shows "\<exists>fs1 fs2 k. ext2fs_write_inode mem (xnu_io_manager ops) fs ino i = Some (fs1, 0)
    \<and> ext2fs_read_inode mem (xnu_io_manager ops) fs1 ino j = Some (fs2, k, 0)
    \<and> k\<lparr>l_i_checksum_lo := 0\<rparr> = i\<lparr>l_i_checksum_lo := 0\<rparr>"
  by (rule xdev_total.write_read_inode [where bs = "bsize fs"]) (use assms in auto)

theorem inode_write_read_witness:
  "\<exists>fs1 fs2 k. ext2fs_write_inode ino_mem (xnu_io_manager mem_ops) (ino_fs ino_super None) 9
      (zero_inode\<lparr>i_mode := 7, i_block := replicate 15 3\<rparr>) = Some (fs1, 0)
    \<and> ext2fs_read_inode ino_mem (xnu_io_manager mem_ops) fs1 9 (zero_inode\<lparr>i_block := replicate 15 0\<rparr>) = Some (fs2, k, 0)
    \<and> k\<lparr>l_i_checksum_lo := 0\<rparr> = zero_inode\<lparr>i_mode := 7, i_block := replicate 15 3\<rparr>"
  using inode_write_read [of mem_ops "\<lambda>d. d" "ino_fs ino_super None" ino_mem 9 "zero_inode\<lparr>i_mode := 7, i_block := replicate 15 3\<rparr>"
      "zero_inode\<lparr>i_block := replicate 15 0\<rparr>"]
  by (simp add: ino_dev ino_mem_total ino_fs_ok ino_valids ino_sizes icache_inv_def zero_inode_def)

text \<open>
  C14. However the writing of an inode ends, with success or with any error, every other inode, read
  through the I/O channel, is what it was: over every vnode that writes only where it is told to, also
  one whose writes fail. The inode cache must be coherent (\<open>icache_inv\<close>: its block buffer holds the block
  it names, or there is no cache yet); C18 shows that a failed read breaks that, and what happens then.
\<close>

theorem inode_write_frame:
  assumes "xnu_any_dev ops content (bsize fs) (fs_io fs)" "icache_inv (view content (fs_io fs)) fs"
    "alloc_sized mem" "on_device fs" "itables_ok fs" "ino_ok fs ino" "ino_ok fs other" "ino \<noteq> other"
    "ext2fs_write_inode2 mem (xnu_io_manager ops) fs ino inode flags = Some (fs1, err)"
  shows "disk_inode (view content (fs_io fs1)) fs other = disk_inode (view content (fs_io fs)) fs other"
proof (cases "view content (fs_io fs1) = view content (fs_io fs)")
  case False
  then obtain w where w: "length w = isize fs"
    "view content (fs_io fs1) = put_inode (view content (fs_io fs)) fs ino (stored_inode fs ino w flags)"
    using xany.write_inode2_any(2,3) [OF assms(1) refl assms(2-4) inode_fits_ok [OF assms(5,6)] assms(9)] by blast
  then have "length (stored_inode fs ino w flags) = isize fs"
    by (simp add: stored_inode_def ext2fs_inode_csum_set_def ext2fs_inode_csum_def Let_def)
  then show ?thesis unfolding w(2)
    by (intro disk_inode_put_other [OF assms(5-8)] xany.dev_length [OF assms(1)])
qed simp

theorem inode_write_frame_witness:
  "\<exists>fs1. ext2fs_write_inode2 ino_mem (xnu_io_manager mem_ops) (ino_fs ino_super None) 2 (replicate 128 1) 0 = Some (fs1, 0)
    \<and> disk_inode (view (\<lambda>d. d) (fs_io fs1)) (ino_fs ino_super None) 1 = disk_inode (view (\<lambda>d. d) ino_ch) (ino_fs ino_super None) 1"
proof -
  have x: "xnu_dev mem_ops (\<lambda>d. d) (bsize (ino_fs ino_super None)) (fs_io (ino_fs ino_super None))"
    "icache_inv (view (\<lambda>d. d) (fs_io (ino_fs ino_super None))) (ino_fs ino_super None)"
    by (simp_all add: ino_dev ino_sizes icache_inv_def)
  have o: "ino_ok (ino_fs ino_super None) 2" "ino_ok (ino_fs ino_super None) 1"
    using ino_valids by (simp_all add: ino_valid_def)
  have "xnu_dev mem_ops (\<lambda>d. d) (bsize (ino_fs ino_super None)) (fs_io (ino_fs ino_super None)) \<and> vnode_readable mem_ops"
    using x ino_dev by blast
  then obtain fs1 where w: "ext2fs_write_inode2 ino_mem (xnu_io_manager mem_ops) (ino_fs ino_super None) 2 (replicate 128 1) 0 = Some (fs1, 0)"
    using xdev_total.write_inode2_total [OF _ refl x(2) ino_mem_total(1) ino_fs_ok(2) inode_fits_ok [OF ino_fs_ok(1) o(1)] ino_fs_ok(3) ino_valids(2)]
    by blast
  have "xnu_any_dev mem_ops (\<lambda>d. d) (bsize (ino_fs ino_super None)) (fs_io (ino_fs ino_super None))"
    using x(1) by (simp add: xnu_dev_any)
  from inode_write_frame [OF this x(2) ino_mem_total(2) ino_fs_ok(2,1) o _ w] w show ?thesis by auto
qed

text \<open>
  C29. A read that finds a wrong checksum has already overwritten the next entry of the inode cache, which keeps
  the number of the inode \<open>a\<close> it held: the read returns the error, and the next read of \<open>a\<close> returns
  the bytes \<open>x\<close> of the broken inode, with success.
\<close>

theorem bad_checksum_poisons_cache:
  assumes "fs_icache fs = Some ic" "fs_ready fs" "on_device fs" "fs_flags fs AND EXT2_FLAG_IGNORE_CSUM_ERRORS = 0"
    "a \<noteq> 0" "a \<le> s_inodes_count (fs_super fs)" "ino_valid fs b" "inode_place fs b = Inr (ic_buffer_blk ic, off)"
    "slot = nat (ic_cache_last ic + 1) mod length (ic_cache ic)" "slot < length (ic_cache ic)"
    "ce_ino (ic_cache ic ! slot) = a" "\<And>k. k < slot \<Longrightarrow> ce_ino (ic_cache ic ! k) \<noteq> a" "icache_find ic b = None"
    "length (ce_inode (ic_cache ic ! slot)) = isize fs" "length (ic_buffer ic) = bsize fs" "off + isize fs \<le> bsize fs"
    "x = take (isize fs) (drop off (ic_buffer ic))" "ext2fs_inode_csum_verify fs b x = 0"
  shows "\<exists>fs1. ext2fs_read_inode_full mem m fs b buf = Some (fs1, copy_inode buf x, EXT2_ET_INODE_CSUM_INVALID)
    \<and> ext2fs_read_inode_full mem m fs1 a buf2 = Some (fs1, copy_inode buf2 x, 0)"
  using assms by (rule stale_entry)

theorem bad_checksum_poisons_cache_witness:
  "\<exists>fs1. ext2fs_read_inode_full ino_mem (xnu_io_manager mem_ops)
      (ino_fs csum_super (Some (ino_cache 1 (replicate 128 0 @ broken_inode @ replicate 768 0)))) 2 (replicate 128 0)
      = Some (fs1, broken_inode, EXT2_ET_INODE_CSUM_INVALID)
    \<and> ext2fs_read_inode_full ino_mem (xnu_io_manager mem_ops) fs1 1 (replicate 128 0) = Some (fs1, broken_inode, 0)
    \<and> broken_inode ! 0 = 1"
proof -
  have "copy_inode (replicate 128 0) broken_inode = broken_inode"
    by (simp add: copy_inode_def memcpy_at_def broken_inode)
  then show ?thesis
    using bad_checksum_poisons_cache [of "ino_fs csum_super (Some (ino_cache 1 (replicate 128 0 @ broken_inode @ replicate 768 0)))"
        "ino_cache 1 (replicate 128 0 @ broken_inode @ replicate 768 0)" 1 2 128 0 broken_inode ino_mem "xnu_io_manager mem_ops"
        "replicate 128 0" "replicate 128 0"]
      ino_cache_find [of 2 1]
    by (simp add: csum_fs_ok broken_inode ino_cache_def)
qed

text \<open>
  C18. A read that fails leaves the block buffer of the inode cache overwritten, by zeros where nothing was
  read, and the buffer still counts as the block \<open>ic_buffer_blk\<close> it held: the next write of an
  inode \<open>a\<close> of that block succeeds and stores the buffer over the whole block, so that all other inodes
  of the block are lost.
\<close>

theorem failed_read_corrupts_block:
  assumes "xnu_dev ops content (bsize fs) (fs_io fs)" "fs_icache fs = Some ic" "icache_shape (isize fs) ic"
    "length (ic_buffer ic) = bsize fs" "alloc_total mem" "on_device fs" "itables_ok fs" "fs_ready fs"
    "ino_valid fs a" "inode_place fs a = Inr (ic_buffer_blk ic, offa)"
    "ino_valid fs b" "inode_place fs b = Inr (y, offb)" "y \<noteq> ic_buffer_blk ic" "icache_find ic b = None"
    "io_channel_read_blk64 (xnu_io_manager ops) (fs_io fs) y 1 = (io1, z, err)" "err \<noteq> 0" "length z = bsize fs"
    "length inode = isize fs"
  shows "\<exists>fs1 fs2. ext2fs_read_inode_full mem (xnu_io_manager ops) fs b buf = Some (fs1, buf, err)
    \<and> ext2fs_write_inode_full mem (xnu_io_manager ops) fs1 a inode = Some (fs2, 0)
    \<and> view content (fs_io fs2) = (view content (fs_io fs))
        (ic_buffer_blk ic := memcpy_at z offa (stored_inode fs a inode 0) (isize fs))"
  by (rule xdev.poisoned_buffer [OF assms(1) refl assms(2-18)])

theorem failed_read_corrupts_block_witness:
  "\<exists>fs1 fs2. ext2fs_read_inode_full ino_mem (xnu_io_manager half_ops) (ino_fs ino_super (Some (ino_cache 0 (replicate 1024 7)))) 9
        (replicate 128 0) = Some (fs1, replicate 128 0, EIO)
    \<and> ext2fs_write_inode_full ino_mem (xnu_io_manager half_ops) fs1 1 (replicate 128 9) = Some (fs2, 0)
    \<and> disk_inode (view (\<lambda>d. d) ino_ch) (ino_fs ino_super None) 2 = replicate 128 7
    \<and> disk_inode (view (\<lambda>d. d) (fs_io fs2)) (ino_fs ino_super None) 2 = replicate 128 0"
proof -
  let ?fs = "ino_fs ino_super (Some (ino_cache 0 (replicate 1024 7)))"
  obtain io1 where r: "io_channel_read_blk64 (xnu_io_manager half_ops) ino_ch 6 1 = (io1, replicate 1024 0, EIO)"
    using half_read by blast
  have buf: "ic_buffer (ino_cache f b) = b" "ic_buffer_blk (ino_cache f b) = 5" for f b by (simp_all add: ino_cache_def)
  have st: "stored_inode ?fs 1 (replicate 128 9) 0 = replicate 128 9"
    by (simp add: stored_inode_def ext2fs_inode_csum_set_def has_feature_ro_compat_def)
  have "\<not> cached_at ino_ch i 5" for i by (auto simp: cached_at_def ino_ch_def mem_ch_def empty_entry_def)
  then have "view (\<lambda>d. d) ino_ch 5 = replicate 1024 7"
    by (subst view_uncached) (auto simp: dev_bytes_def ino_ch_def mem_ch_def map_replicate_const)
  then have v: "disk_inode (view (\<lambda>d. d) ino_ch) (ino_fs ino_super None) 2 = replicate 128 7"
    by (simp add: disk_inode_def ino_places ino_sizes)
  show ?thesis
    using failed_read_corrupts_block [of half_ops "\<lambda>d. d" ?fs "ino_cache 0 (replicate 1024 7)" ino_mem 1 0 9 6 0 io1
        "replicate 1024 0" EIO "replicate 128 9" "replicate 128 0"]
      r v st ino_cache_find [of 9 0 "replicate 1024 7"] ino_cache_shape [of 0 "replicate 1024 7"]
      buf [of 0 "replicate 1024 7"]
    by (auto simp: ino_dev ino_mem_total ino_fs_ok ino_valids ino_places ino_sizes disk_inode_def memcpy_at_def)
qed

end
