(* ===== verification/Dirhash.thy ===== *)
theory Dirhash
  imports Bytes
begin

text \<open>
  \<^verbatim>\<open>libext2fs/dirhash.c\<close>: the hash of a file name in an indexed directory. The name is a list of bytes of
  which the first \<open>len\<close> count. The case folding of the file system's character set is a parameter.
\<close>

abbreviation (input) EXT2_ET_DIRHASH_UNSUPP :: errcode where "EXT2_ET_DIRHASH_UNSUPP \<equiv> 2133571417"
abbreviation (input) EXT2_HASH_LEGACY :: int where "EXT2_HASH_LEGACY \<equiv> 0"
abbreviation (input) EXT2_HASH_HALF_MD4 :: int where "EXT2_HASH_HALF_MD4 \<equiv> 1"
abbreviation (input) EXT2_HASH_TEA :: int where "EXT2_HASH_TEA \<equiv> 2"
abbreviation (input) EXT2_HASH_LEGACY_UNSIGNED :: int where "EXT2_HASH_LEGACY_UNSIGNED \<equiv> 3"
abbreviation (input) EXT2_HASH_HALF_MD4_UNSIGNED :: int where "EXT2_HASH_HALF_MD4_UNSIGNED \<equiv> 4"
abbreviation (input) EXT2_HASH_TEA_UNSIGNED :: int where "EXT2_HASH_TEA_UNSIGNED \<equiv> 5"
abbreviation (input) EXT4_CASEFOLD_FL :: u32 where "EXT4_CASEFOLD_FL \<equiv> 0x40000000"

section \<open>The transformations\<close>

primrec tea_rounds :: "nat \<Rightarrow> u32 list \<Rightarrow> u32 \<Rightarrow> u32 \<times> u32 \<Rightarrow> u32 \<times> u32" where
  "tea_rounds 0 inp su b = b"
| "tea_rounds (Suc n) inp su b =
     (let su = su + 0x9E3779B9;
          b0 = fst b + ((push_bit 4 (snd b) + inp ! 0) XOR (snd b + su) XOR (drop_bit 5 (snd b) + inp ! 1));
          b1 = snd b + ((push_bit 4 b0 + inp ! 2) XOR (b0 + su) XOR (drop_bit 5 b0 + inp ! 3))
      in tea_rounds n inp su (b0, b1))"

definition TEA_transform :: "u32 list \<Rightarrow> u32 list \<Rightarrow> u32 list" where
  "TEA_transform buf inp =
     (case tea_rounds 16 inp 0 (buf ! 0, buf ! 1) of (b0, b1) \<Rightarrow> buf[0 := buf ! 0 + b0, 1 := buf ! 1 + b1])"

definition md4_F :: "u32 \<Rightarrow> u32 \<Rightarrow> u32 \<Rightarrow> u32" where
  "md4_F x y z = z XOR (x AND (y XOR z))"

definition md4_G :: "u32 \<Rightarrow> u32 \<Rightarrow> u32 \<Rightarrow> u32" where
  "md4_G x y z = (x AND y) + ((x XOR y) AND z)"

definition md4_H :: "u32 \<Rightarrow> u32 \<Rightarrow> u32 \<Rightarrow> u32" where
  "md4_H x y z = x XOR y XOR z"

definition md4_ROUND :: "(u32 \<Rightarrow> u32 \<Rightarrow> u32 \<Rightarrow> u32) \<Rightarrow> u32 \<Rightarrow> u32 \<Rightarrow> u32 \<Rightarrow> u32 \<Rightarrow> u32 \<Rightarrow> nat \<Rightarrow> u32" where
  "md4_ROUND f a b c d x s = (let a = a + (f b c d + x) in push_bit s a OR drop_bit (32 - s) a)"

definition halfMD4Transform :: "u32 list \<Rightarrow> u32 list \<Rightarrow> u32 list" where
  "halfMD4Transform buf inp =
     (let a = buf ! 0; b = buf ! 1; c = buf ! 2; d = buf ! 3; K1 = 0; K2 = 0x5A827999; K3 = 0x6ED9EBA1;
          a = md4_ROUND md4_F a b c d (inp ! 0 + K1) 3;
          d = md4_ROUND md4_F d a b c (inp ! 1 + K1) 7;
          c = md4_ROUND md4_F c d a b (inp ! 2 + K1) 11;
          b = md4_ROUND md4_F b c d a (inp ! 3 + K1) 19;
          a = md4_ROUND md4_F a b c d (inp ! 4 + K1) 3;
          d = md4_ROUND md4_F d a b c (inp ! 5 + K1) 7;
          c = md4_ROUND md4_F c d a b (inp ! 6 + K1) 11;
          b = md4_ROUND md4_F b c d a (inp ! 7 + K1) 19;
          a = md4_ROUND md4_G a b c d (inp ! 1 + K2) 3;
          d = md4_ROUND md4_G d a b c (inp ! 3 + K2) 5;
          c = md4_ROUND md4_G c d a b (inp ! 5 + K2) 9;
          b = md4_ROUND md4_G b c d a (inp ! 7 + K2) 13;
          a = md4_ROUND md4_G a b c d (inp ! 0 + K2) 3;
          d = md4_ROUND md4_G d a b c (inp ! 2 + K2) 5;
          c = md4_ROUND md4_G c d a b (inp ! 4 + K2) 9;
          b = md4_ROUND md4_G b c d a (inp ! 6 + K2) 13;
          a = md4_ROUND md4_H a b c d (inp ! 3 + K3) 3;
          d = md4_ROUND md4_H d a b c (inp ! 7 + K3) 9;
          c = md4_ROUND md4_H c d a b (inp ! 2 + K3) 11;
          b = md4_ROUND md4_H b c d a (inp ! 6 + K3) 15;
          a = md4_ROUND md4_H a b c d (inp ! 1 + K3) 3;
          d = md4_ROUND md4_H d a b c (inp ! 5 + K3) 9;
          c = md4_ROUND md4_H c d a b (inp ! 0 + K3) 11;
          b = md4_ROUND md4_H b c d a (inp ! 4 + K3) 15
      in buf[0 := buf ! 0 + a, 1 := buf ! 1 + b, 2 := buf ! 2 + c, 3 := buf ! 3 + d])"

section \<open>From names to words\<close>

definition hash_char :: "bool \<Rightarrow> u8 \<Rightarrow> u32" where
  "hash_char unsigned_flag c = (if unsigned_flag then ucast c else scast c)"

primrec hack_loop :: "bool \<Rightarrow> u8 list \<Rightarrow> nat \<Rightarrow> nat \<Rightarrow> u32 \<Rightarrow> u32 \<Rightarrow> u32" where
  "hack_loop uf name i 0 hash0 hash1 = hash0"
| "hack_loop uf name i (Suc n) hash0 hash1 =
     (let hash = hash1 + (hash0 XOR (hash_char uf (name ! i) * 7152373));
          hash = (if hash AND 0x80000000 \<noteq> 0 then hash - 0x7fffffff else hash)
      in hack_loop uf name (i + 1) n hash hash0)"

definition dx_hack_hash :: "u8 list \<Rightarrow> nat \<Rightarrow> bool \<Rightarrow> u32" where
  "dx_hack_hash name len uf = push_bit 1 (hack_loop uf name 0 len 0x12a3fe2d 0x37abe8f9)"

text \<open>The loop of \<open>str2hashbuf\<close>: the words that are complete, and the one in the making.\<close>

primrec str2hash_loop :: "bool \<Rightarrow> u8 list \<Rightarrow> u32 \<Rightarrow> nat \<Rightarrow> nat \<Rightarrow> u32 \<Rightarrow> u32 list \<Rightarrow> u32 \<times> u32 list" where
  "str2hash_loop uf msg pad i 0 val out = (val, out)"
| "str2hash_loop uf msg pad i (Suc n) val out =
     (let val = hash_char uf (msg ! i) + push_bit 8 val
      in if i mod 4 = 3 then str2hash_loop uf msg pad (i + 1) n pad (out @ [val])
         else str2hash_loop uf msg pad (i + 1) n val out)"

definition str2hashbuf :: "u8 list \<Rightarrow> nat \<Rightarrow> nat \<Rightarrow> bool \<Rightarrow> u32 list" where
  "str2hashbuf msg len num uf =
     (let pad = of_nat len OR push_bit 8 (of_nat len);
          pad = pad OR push_bit 16 pad;
          len = (if len > num * 4 then num * 4 else len)
      in case str2hash_loop uf msg pad 0 len pad [] of
           (val, out) \<Rightarrow> if length out < num then out @ [val] @ replicate (num - length out - 1) pad else out)"

function md4_loop :: "bool \<Rightarrow> u8 list \<Rightarrow> nat \<Rightarrow> int \<Rightarrow> u32 list \<Rightarrow> u32 list" where
  "md4_loop uf name p len buf =
     (if len > 0 then md4_loop uf name (p + 32) (len - 32) (halfMD4Transform buf (str2hashbuf (drop p name) (nat len) 8 uf))
      else buf)"
  by pat_completeness auto
termination by (relation "measure (\<lambda>(uf, name, p, len, buf). nat len)") auto

function tea_loop :: "bool \<Rightarrow> u8 list \<Rightarrow> nat \<Rightarrow> int \<Rightarrow> u32 list \<Rightarrow> u32 list" where
  "tea_loop uf name p len buf =
     (if len > 0 then tea_loop uf name (p + 16) (len - 16) (TEA_transform buf (str2hashbuf (drop p name) (nat len) 4 uf))
      else buf)"
  by pat_completeness auto
termination by (relation "measure (\<lambda>(uf, name, p, len, buf). nat len)") auto

declare md4_loop.simps [simp del] tea_loop.simps [simp del]

section \<open>The hash\<close>

definition hash_seed :: "u32 list option \<Rightarrow> u32 list" where
  "hash_seed seed =
     (case seed of
        None \<Rightarrow> [0x67452301, 0xefcdab89, 0x98badcfe, 0x10325476]
      | Some s \<Rightarrow> if \<exists>i \<in> set [0 ..< 4]. s ! i \<noteq> 0 then take 4 s else [0x67452301, 0xefcdab89, 0x98badcfe, 0x10325476])"

text \<open>The result is an error, or the hash and the minor hash.\<close>

definition ext2fs_dirhash :: "int \<Rightarrow> u8 list \<Rightarrow> nat \<Rightarrow> u32 list option \<Rightarrow> errcode + (u32 \<times> u32)" where
  "ext2fs_dirhash version name len seed =
     (let buf = hash_seed seed
      in if version = EXT2_HASH_LEGACY_UNSIGNED \<or> version = EXT2_HASH_LEGACY
         then Inr (dx_hack_hash name len (version = EXT2_HASH_LEGACY_UNSIGNED) AND NOT 1, 0)
         else if version = EXT2_HASH_HALF_MD4_UNSIGNED \<or> version = EXT2_HASH_HALF_MD4
         then let buf = md4_loop (version = EXT2_HASH_HALF_MD4_UNSIGNED) name 0 (int len) buf
              in Inr (buf ! 1 AND NOT 1, buf ! 2)
         else if version = EXT2_HASH_TEA_UNSIGNED \<or> version = EXT2_HASH_TEA
         then let buf = tea_loop (version = EXT2_HASH_TEA_UNSIGNED) name 0 (int len) buf
              in Inr (buf ! 0 AND NOT 1, buf ! 1)
         else Inl EXT2_ET_DIRHASH_UNSUPP)"

text \<open>
  \<open>charset\<close> is the \<open>casefold\<close> operation of the character set, if there is one: the length it returns, or a
  negative error, and the folded name.
\<close>

definition ext2fs_dirhash2 ::
  "int \<Rightarrow> u8 list \<Rightarrow> nat \<Rightarrow> (u8 list \<Rightarrow> nat \<Rightarrow> int \<times> u8 list) option \<Rightarrow> u32 \<Rightarrow> u32 list option \<Rightarrow> errcode + (u32 \<times> u32)" where
  "ext2fs_dirhash2 version name len charset hash_flags seed =
     (case charset of
        Some casefold \<Rightarrow>
          if len \<noteq> 0 \<and> hash_flags AND EXT4_CASEFOLD_FL \<noteq> 0
          then case casefold name len of
                 (dlen, buff) \<Rightarrow>
                   if dlen < 0 then if dlen = - EINVAL then ext2fs_dirhash version name len seed else Inl dlen
                   else ext2fs_dirhash version buff (nat dlen) seed
          else ext2fs_dirhash version name len seed
      | None \<Rightarrow> ext2fs_dirhash version name len seed)"

section \<open>Properties of the hash\<close>

text \<open>On names of seven-bit characters the signedness of \<open>char\<close> does not matter.\<close>

lemma hash_char_ascii:
  assumes "c < 128"
  shows "hash_char uf c = ucast c"
proof -
  have "unat c < 128" using assms by (simp add: word_less_nat_alt)
  then have "take_bit 7 c = c" by (simp add: word_unat_eq_iff unsigned_take_bit_eq take_bit_nat_eq_self)
  then have "\<not> bit c n" if "7 \<le> n" for n using that by (metis bit_take_bit_iff not_le)
  then show ?thesis unfolding hash_char_def by (cases uf) (auto intro!: bit_word_eqI simp: bit_simps min_def split: if_splits)
qed

lemma hack_loop_ascii:
  "\<forall>j < i + n. name ! j < 128 \<Longrightarrow> hack_loop uf name i n h0 h1 = hack_loop uf' name i n h0 h1"
  by (induction n arbitrary: i h0 h1) (simp_all add: hash_char_ascii Let_def)

lemma str2hash_loop_ascii:
  "\<forall>j < i + n. msg ! j < 128 \<Longrightarrow> str2hash_loop uf msg pad i n val out = str2hash_loop uf' msg pad i n val out"
  by (induction n arbitrary: i val out) (simp_all add: hash_char_ascii Let_def)

lemma str2hashbuf_ascii:
  "\<forall>j < len. msg ! j < 128 \<Longrightarrow> str2hashbuf msg len num uf = str2hashbuf msg len num uf'"
  unfolding str2hashbuf_def by (simp add: str2hash_loop_ascii [of 0 _ msg uf _ _ _ uf'] Let_def)

text \<open>The loops agree when the words they take from the name agree.\<close>

lemma loops_eq:
  assumes w: "\<And>p len num. p + nat len \<le> n \<Longrightarrow> str2hashbuf (drop p s) (nat len) num uf = str2hashbuf (drop p t) (nat len) num uf'"
    and "p + nat len \<le> n"
  shows "md4_loop uf s p len buf = md4_loop uf' t p len buf" "tea_loop uf s p len buf = tea_loop uf' t p len buf"
proof -
  show "md4_loop uf s p len buf = md4_loop uf' t p len buf" using assms(2)
  proof (induction "nat len" arbitrary: p len buf rule: less_induct)
    case less
    have "md4_loop uf s (p + 32) (len - 32) b = md4_loop uf' t (p + 32) (len - 32) b" if "len > 0" for b
    proof (cases "len \<le> 32")
      case False
      then show ?thesis using less.prems by (intro less.hyps) auto
    qed (simp add: md4_loop.simps)
    then show ?case using w [OF less.prems] by (simp add: md4_loop.simps [of _ _ _ len])
  qed
  show "tea_loop uf s p len buf = tea_loop uf' t p len buf" using assms(2)
  proof (induction "nat len" arbitrary: p len buf rule: less_induct)
    case less
    have "tea_loop uf s (p + 16) (len - 16) b = tea_loop uf' t (p + 16) (len - 16) b" if "len > 0" for b
    proof (cases "len \<le> 16")
      case False
      then show ?thesis using less.prems by (intro less.hyps) auto
    qed (simp add: tea_loop.simps)
    then show ?case using w [OF less.prems] by (simp add: tea_loop.simps [of _ _ _ len])
  qed
qed

lemma loops_ascii:
  assumes "\<forall>j < n. name ! j < 128" "n \<le> length name"
  shows "md4_loop uf name 0 (int n) buf = md4_loop uf' name 0 (int n) buf" "tea_loop uf name 0 (int n) buf = tea_loop uf' name 0 (int n) buf"
proof -
  have "str2hashbuf (drop p name) (nat len) num uf = str2hashbuf (drop p name) (nat len) num uf'"
    if "p + nat len \<le> n" for p len num
    by (rule str2hashbuf_ascii) (use that assms in auto)
  from loops_eq [OF this, where p = 0 and len = "int n"] show "md4_loop uf name 0 (int n) buf = md4_loop uf' name 0 (int n) buf"
    "tea_loop uf name 0 (int n) buf = tea_loop uf' name 0 (int n) buf" by simp_all
qed

lemma dirhash_ascii:
  assumes "\<forall>j < len. name ! j < 128" "len \<le> length name" "v \<in> {EXT2_HASH_LEGACY, EXT2_HASH_HALF_MD4, EXT2_HASH_TEA}"
  shows "ext2fs_dirhash (v + 3) name len seed = ext2fs_dirhash v name len seed"
  using assms(3) loops_ascii [OF assms(1,2), of True _ False] hack_loop_ascii [of 0 len name True _ _ False] assms(1,2)
  by (auto simp: ext2fs_dirhash_def dx_hack_hash_def Let_def)

text \<open>The hash depends on the first \<open>len\<close> bytes only.\<close>

lemma hack_loop_cong:
  "\<forall>j < i + n. name ! j = name' ! j \<Longrightarrow> hack_loop uf name i n h0 h1 = hack_loop uf name' i n h0 h1"
  by (induction n arbitrary: i h0 h1) (simp_all add: Let_def)

lemma str2hash_loop_cong:
  "\<forall>j < i + n. msg ! j = msg' ! j \<Longrightarrow> str2hash_loop uf msg pad i n val out = str2hash_loop uf msg' pad i n val out"
  by (induction n arbitrary: i val out) (simp_all add: Let_def)

lemma str2hashbuf_cong:
  "\<forall>j < len. msg ! j = msg' ! j \<Longrightarrow> str2hashbuf msg len num uf = str2hashbuf msg' len num uf"
  unfolding str2hashbuf_def by (simp add: str2hash_loop_cong [of 0 _ msg msg'] Let_def)

lemma loops_cong:
  assumes "n \<le> length name"
  shows "md4_loop uf name 0 (int n) buf = md4_loop uf (take n name) 0 (int n) buf"
    "tea_loop uf name 0 (int n) buf = tea_loop uf (take n name) 0 (int n) buf"
proof -
  have "str2hashbuf (drop p name) (nat len) num uf = str2hashbuf (drop p (take n name)) (nat len) num uf"
    if "p + nat len \<le> n" for p len num
    by (rule str2hashbuf_cong) (use that assms in auto)
  from loops_eq [OF this, where p = 0 and len = "int n"] show "md4_loop uf name 0 (int n) buf = md4_loop uf (take n name) 0 (int n) buf"
    "tea_loop uf name 0 (int n) buf = tea_loop uf (take n name) 0 (int n) buf" by simp_all
qed

lemma dirhash_take:
  assumes "n \<le> length name"
  shows "ext2fs_dirhash v name n seed = ext2fs_dirhash v (take n name) n seed"
proof -
  have "hack_loop uf name 0 n h0 h1 = hack_loop uf (take n name) 0 n h0 h1" for uf h0 h1
    by (rule hack_loop_cong) simp
  moreover have "md4_loop uf name 0 (int n) buf = md4_loop uf (take n name) 0 (int n) buf"
    "tea_loop uf name 0 (int n) buf = tea_loop uf (take n name) 0 (int n) buf" for uf buf
    by (rule loops_cong [OF assms])+
  ultimately show ?thesis by (simp add: ext2fs_dirhash_def dx_hack_hash_def Let_def)
qed

lemma dirhash_supported: "0 \<le> v \<Longrightarrow> v \<le> 5 \<Longrightarrow> \<exists>h mh. ext2fs_dirhash v name n seed = Inr (h, mh)"
  by (simp add: ext2fs_dirhash_def Let_def) presburger

end
