(* ===== verification/Dx_index.thy ===== *)
theory Dx_index
  imports Link Dx_map Badblocks Dirhash
begin

text \<open>
  \<^verbatim>\<open>libext2fs/link.c\<close>: the index of a directory. \<open>dx_search_entry\<close> finds the entry of an index block whose
  range has a hash, \<open>dx_lookup\<close> descends to the leaf, and \<open>dx_split_leaf\<close> distributes the entries of a
  full leaf over two blocks in the order of their hashes. The entries of an index block are the
  \<open>struct ext2_dx_entry\<close> of eight bytes from its \<open>ext2_dx_countlimit\<close> on; the first has no hash.
\<close>

abbreviation (input) EXT2_FLAGS_UNSIGNED_HASH :: u32 where "EXT2_FLAGS_UNSIGNED_HASH \<equiv> 2"

section \<open>The code\<close>

record dx_frame =
  fr_buf :: "u8 list"
  fr_pblock :: u64
  fr_head :: nat
  fr_at :: nat

record dx_lookup_info =
  dx_name :: "u8 list"
  dx_namelen :: nat
  dx_hash_alg :: int
  dx_hash :: u32
  dx_frames :: "dx_frame list"

text \<open>The hash and the block of entry \<open>i\<close>.\<close>

definition dxe_hash :: "u8 list \<Rightarrow> nat \<Rightarrow> nat \<Rightarrow> u32" where
  "dxe_hash buf entries i = get32 buf (entries + 8 * i)"

definition dxe_block :: "u8 list \<Rightarrow> nat \<Rightarrow> nat \<Rightarrow> u32" where
  "dxe_block buf entries i = get32 buf (entries + 8 * i + 4)"

text \<open>The pointers \<open>p\<close>, \<open>q\<close> and \<open>m\<close> are indices; \<open>q\<close> can end in front of \<open>p\<close>.\<close>

function dx_search_loop :: "u8 list \<Rightarrow> nat \<Rightarrow> u32 \<Rightarrow> int \<Rightarrow> int \<Rightarrow> int" where
  "dx_search_loop buf entries hash p q =
     (if p \<le> q
      then let m = p + (q - p) div 2
           in if dxe_hash buf entries (nat m) > hash then dx_search_loop buf entries hash p (m - 1)
              else dx_search_loop buf entries hash (m + 1) q
      else p)"
  by pat_completeness auto
termination by (relation "measure (\<lambda>(buf, entries, hash, p, q). nat (q + 1 - p))") auto

declare dx_search_loop.simps [simp del]

definition dx_search_entry :: "u8 list \<Rightarrow> nat \<Rightarrow> int \<Rightarrow> u32 \<Rightarrow> nat" where
  "dx_search_entry buf entries n hash = nat (dx_search_loop buf entries hash 1 (n - 1) - 1)"

text \<open>
  \<open>bmap\<close> maps a logical block of the directory: an error, or the block and whether it is uninitialised.
\<close>

definition load_logical_dir_block ::
  "inode_reader \<Rightarrow> ('d io_channel) io_manager \<Rightarrow> (u64 \<Rightarrow> errcode + (u64 \<times> bool)) \<Rightarrow> 'a fs_base_scheme \<Rightarrow> 'd io_channel \<Rightarrow> u32 \<Rightarrow> u64
   \<Rightarrow> 'd io_channel \<times> (errcode + (u64 \<times> u8 list))" where
  "load_logical_dir_block rdi m bmap fs ch dir block =
     (case bmap block of
        Inl errcode \<Rightarrow> (ch, Inl errcode)
      | Inr (pblk, uninit) \<Rightarrow>
          if uninit then (ch, Inl EXT2_ET_DIR_CORRUPTED)
          else case ext2fs_read_dir_block4 rdi m fs ch pblk dir of
                 (ch, buf, retval) \<Rightarrow> (ch, if retval \<noteq> 0 then Inl retval else Inr (pblk, buf)))"

definition ext2_dir_htree_level :: "'a fs_base_scheme \<Rightarrow> nat" where
  "ext2_dir_htree_level fs = (if ext2fs_has_feature_largedir (fs_super fs) then 3 else 2)"

text \<open>One level: the block is checked and searched.\<close>

definition dx_enter :: "'a fs_base_scheme \<Rightarrow> u64 \<Rightarrow> u8 list \<Rightarrow> u32 \<Rightarrow> errcode + dx_frame" where
  "dx_enter fs pblk buf hash =
     (case ext2fs_get_dx_countlimit fs buf of
        Inl errcode \<Rightarrow> Inl errcode
      | Inr head \<Rightarrow>
          let n = unat (get16 buf (head + 2)); limit = unat (get16 buf head)
          in if n = 0 \<or> n > limit then Inl EXT2_ET_DIR_CORRUPTED
             else Inr \<lparr>fr_buf = buf, fr_pblock = pblk, fr_head = head, fr_at = dx_search_entry buf head (int n) hash\<rparr>)"

definition fr_child :: "dx_frame \<Rightarrow> u64" where
  "fr_child fr = ucast (dxe_block (fr_buf fr) (fr_head fr) (fr_at fr) AND 0x0fffffff)"

text \<open>The levels below the root; \<open>n\<close> of them are left.\<close>

primrec dx_descend ::
  "nat \<Rightarrow> inode_reader \<Rightarrow> ('d io_channel) io_manager \<Rightarrow> (u64 \<Rightarrow> errcode + (u64 \<times> bool)) \<Rightarrow> 'a fs_base_scheme \<Rightarrow> 'd io_channel \<Rightarrow> u32
   \<Rightarrow> u32 \<Rightarrow> dx_frame list \<Rightarrow> 'd io_channel \<times> (errcode + dx_frame list)" where
  "dx_descend 0 rdi m bmap fs ch dir hash frames = (ch, Inr frames)"
| "dx_descend (Suc n) rdi m bmap fs ch dir hash frames =
     (case load_logical_dir_block rdi m bmap fs ch dir (fr_child (last frames)) of
        (ch, Inl errcode) \<Rightarrow> (ch, Inl errcode)
      | (ch, Inr (pblk, buf)) \<Rightarrow>
          (case dx_enter fs pblk buf hash of
             Inl errcode \<Rightarrow> (ch, Inl errcode)
           | Inr fr \<Rightarrow> dx_descend n rdi m bmap fs ch dir hash (frames @ [fr])))"

text \<open>The \<open>ext2_dx_root_info\<close> is at offset 24 of the first block.\<close>

definition dx_lookup ::
  "inode_reader \<Rightarrow> ('d io_channel) io_manager \<Rightarrow> (u64 \<Rightarrow> errcode + (u64 \<times> bool)) \<Rightarrow> (u8 list \<Rightarrow> nat \<Rightarrow> int \<times> u8 list) option
   \<Rightarrow> 'a fs_base_scheme \<Rightarrow> 'd io_channel \<Rightarrow> u32 \<Rightarrow> ext2_inode \<Rightarrow> dx_lookup_info
   \<Rightarrow> 'd io_channel \<times> (errcode + dx_lookup_info)" where
  "dx_lookup rdi m bmap charset fs ch dir diri info =
     (case load_logical_dir_block rdi m bmap fs ch dir 0 of
        (ch, Inl errcode) \<Rightarrow> (ch, Inl errcode)
      | (ch, Inr (pblk, buf)) \<Rightarrow>
          let hash_alg = int (unat (buf ! 28));
              indirect_levels = unat (buf ! 30)
          in if hash_alg \<noteq> EXT2_HASH_TEA \<and> hash_alg \<noteq> EXT2_HASH_HALF_MD4 \<and> hash_alg \<noteq> EXT2_HASH_LEGACY
             then (ch, Inl EXT2_ET_DIRHASH_UNSUPP)
             else let hash_alg = (if hash_alg \<le> EXT2_HASH_TEA \<and> s_flags (fs_super fs) AND EXT2_FLAGS_UNSIGNED_HASH \<noteq> 0
                                  then hash_alg + 3 else hash_alg)
                  in if indirect_levels \<ge> ext2_dir_htree_level fs then (ch, Inl EXT2_ET_DIR_CORRUPTED)
                     else case ext2fs_dirhash2 hash_alg (dx_name info) (dx_namelen info) charset
                                 (i_flags diri AND EXT4_CASEFOLD_FL) (Some (s_hash_seed (fs_super fs))) of
                            Inl errcode \<Rightarrow> (ch, Inl errcode)
                          | Inr (hash, minor_hash) \<Rightarrow>
                              (case dx_enter fs pblk buf hash of
                                 Inl errcode \<Rightarrow> (ch, Inl errcode)
                               | Inr fr \<Rightarrow>
                                   (case dx_descend indirect_levels rdi m bmap fs ch dir hash [fr] of
                                      (ch, Inl errcode) \<Rightarrow> (ch, Inl errcode)
                                    | (ch, Inr frames) \<Rightarrow>
                                        (ch, Inr (info\<lparr>dx_hash_alg := hash_alg, dx_hash := hash, dx_frames := frames\<rparr>)))))"

text \<open>
  The distribution of a leaf. The entry \<open>de\<close> at the offset of a map entry is packed behind the others; \<open>to_p\<close>
  is the pointer \<open>to\<close> and \<open>rec_len\<close> the length of the last entry packed.
\<close>

primrec dx_move_loop :: "'a fs_base_scheme \<Rightarrow> u8 list \<Rightarrow> dx_hash_map list \<Rightarrow> u8 list \<Rightarrow> nat \<Rightarrow> nat \<Rightarrow> u8 list \<times> errcode \<times> nat \<times> nat" where
  "dx_move_loop fs from_buf [] to_buf to_p rec_len = (to_buf, 0, to_p, rec_len)"
| "dx_move_loop fs from_buf (e # es) to_buf to_p rec_len =
     (let de = nat (dm_off e);
          rec_len = EXT2_DIR_REC_LEN (ext2fs_dirent_name_len from_buf de);
          to_buf = memcpy_at to_buf to_p (drop de from_buf) rec_len
      in case ext2fs_set_rec_len fs rec_len to_buf to_p of
           (to_buf, retval) \<Rightarrow> if retval \<noteq> 0 then (to_buf, retval, to_p, rec_len)
                              else dx_move_loop fs from_buf es to_buf (to_p + rec_len) rec_len)"

definition dx_move_dirents :: "'a fs_base_scheme \<Rightarrow> dx_hash_map list \<Rightarrow> u8 list \<Rightarrow> u8 list \<Rightarrow> u8 list \<times> errcode" where
  "dx_move_dirents fs es from_buf to_buf =
     (let csum_size = (if ext2fs_has_feature_metadata_csum (fs_super fs) then 12 else 0)
      in case dx_move_loop fs from_buf es to_buf 0 0 of
           (to_buf, retval, to_p, rec_len) \<Rightarrow>
             if retval \<noteq> 0 then (to_buf, retval)
             else let to_p = to_p - rec_len;
                      rec_len = unat (fs_blocksize fs) - to_p - csum_size
                  in case ext2fs_set_rec_len fs rec_len to_buf to_p of
                       (to_buf, retval) \<Rightarrow>
                         if retval \<noteq> 0 then (to_buf, retval)
                         else if csum_size \<noteq> 0 then (ext2fs_initialize_dirent_tail fs to_buf (unat (fs_blocksize fs) - 12), 0)
                         else (to_buf, 0))"

text \<open>A new entry of an index block behind the one that was found: \<open>memmove\<close>, then hash, block and count.\<close>

definition dx_insert_entry ::
  "inode_reader \<Rightarrow> ('d io_channel) io_manager \<Rightarrow> 'a fs_base_scheme \<Rightarrow> 'd io_channel \<Rightarrow> u32 \<Rightarrow> dx_lookup_info \<Rightarrow> nat \<Rightarrow> u32 \<Rightarrow> u64
   \<Rightarrow> 'd io_channel \<times> dx_lookup_info \<times> errcode" where
  "dx_insert_entry rdi m fs ch dir info level hash lblk =
     (let fr = dx_frames info ! level; buf = fr_buf fr;
          pcount = unat (get16 buf (fr_head fr + 2));
          top = fr_head fr + 8 * pcount;
          new = fr_head fr + 8 * (fr_at fr + 1);
          buf = memcpy_at buf (new + 8) (drop new buf) (top - new);
          buf = put32 buf new hash;
          buf = put32 buf (new + 4) (ucast lblk);
          buf = put16 buf (fr_head fr + 2) (of_nat (pcount + 1))
      in case ext2fs_write_dir_block4 rdi m fs ch (fr_pblock fr) buf dir of
           (ch, buf, retval) \<Rightarrow> (ch, info\<lparr>dx_frames := (dx_frames info)[level := fr\<lparr>fr_buf := buf\<rparr>]\<rparr>, retval))"

text \<open>
  The map of a leaf: the entries in use that have a name, with their hashes. A length of zero makes the
  loop run forever.
\<close>

partial_function (option) dx_map_loop ::
  "(u8 list \<Rightarrow> nat \<Rightarrow> errcode + (u32 \<times> u32)) \<Rightarrow> 'a fs_base_scheme \<Rightarrow> u8 list \<Rightarrow> nat \<Rightarrow> dx_hash_map list
   \<Rightarrow> (errcode + dx_hash_map list) option" where
  "dx_map_loop dirhash fs buf offset es =
     (if offset < unat (fs_blocksize fs)
      then let rec_len = ext2fs_get_rec_len fs buf offset; nl = ext2fs_dirent_name_len buf offset
           in if nl > 0 \<and> de_inode buf offset \<noteq> 0
              then case dirhash (de_name buf offset) nl of
                     Inl retval \<Rightarrow> Some (Inl retval)
                   | Inr (h, minor_hash) \<Rightarrow>
                       dx_map_loop dirhash fs buf (offset + rec_len)
                         (es @ [\<lparr>dm_hash = h, dm_size = int rec_len, dm_off = int offset\<rparr>])
              else dx_map_loop dirhash fs buf (offset + rec_len) es
      else Some (Inr es))"

text \<open>
  The two halves are written in turn from one buffer. \<open>before\<close> stands for the hash in memory in front of the
  map, which is compared when every entry moves.
\<close>

definition dx_split_leaf ::
  "allocator \<Rightarrow> inode_reader \<Rightarrow> ('d io_channel) io_manager \<Rightarrow> (u8 list \<Rightarrow> nat \<Rightarrow> int \<times> u8 list) option \<Rightarrow> u32
   \<Rightarrow> 'a fs_base_scheme \<Rightarrow> 'd io_channel \<Rightarrow> u32 \<Rightarrow> ext2_inode \<Rightarrow> dx_lookup_info \<Rightarrow> u8 list \<Rightarrow> u64 \<Rightarrow> u64 \<Rightarrow> u64
   \<Rightarrow> ('d io_channel \<times> dx_lookup_info \<times> errcode) option" where
  "dx_split_leaf mem rdi m charset before fs ch dir diri info buf leaf_pblk new_lblk new_pblk =
     (let bs = unat (fs_blocksize fs);
          dirhash = (\<lambda>name n. ext2fs_dirhash2 (dx_hash_alg info) name n charset (i_flags diri AND EXT4_CASEFOLD_FL)
                               (Some (s_hash_seed (fs_super fs))))
      in case ext2fs_get_mem mem bs of
           Inl retval \<Rightarrow> Some (ch, info, retval)
         | Inr buf2 \<Rightarrow>
             (case ext2fs_get_array mem (bs div 12) 12 of
                Inl retval \<Rightarrow> Some (ch, info, retval)
              | Inr _ \<Rightarrow>
                  (case dx_map_loop dirhash fs buf 0 [] of
                     None \<Rightarrow> None
                   | Some (Inl retval) \<Rightarrow> Some (ch, info, retval)
                   | Some (Inr es) \<Rightarrow>
                       let n = length es;
                           es = dx_sort_map es n;
                           i = dx_split_scan bs es n 0
                       in case dx_move_dirents fs (drop i es) buf (snd buf2) of
                            (b, retval) \<Rightarrow>
                              if retval \<noteq> 0 then Some (ch, info, retval)
                              else case ext2fs_write_dir_block4 rdi m fs ch new_pblk b dir of
                                (ch, b, retval) \<Rightarrow>
                                  if retval \<noteq> 0 then Some (ch, info, retval)
                                  else case dx_move_dirents fs (take i es) buf b of
                                    (b, retval) \<Rightarrow>
                                      if retval \<noteq> 0 then Some (ch, info, retval)
                                      else case ext2fs_write_dir_block4 rdi m fs ch leaf_pblk b dir of
                                        (ch, b, retval) \<Rightarrow>
                                          if retval \<noteq> 0 then Some (ch, info, retval)
                                          else let h = dm_hash (es ! i);
                                                   continued = (h = (if i = 0 then before else dm_hash (es ! (i - 1))))
                                               in Some (dx_insert_entry rdi m fs ch dir info (length (dx_frames info) - 1)
                                                          (h + (if continued then 1 else 0)) new_lblk))))"

section \<open>The search\<close>

lemma dx_search_loop:
  assumes "1 \<le> p" "p \<le> q + 1" "q < n"
    and "\<And>i j. 1 \<le> i \<Longrightarrow> i \<le> j \<Longrightarrow> int j < n \<Longrightarrow> dxe_hash buf e i \<le> dxe_hash buf e j"
    and "\<And>i. 1 \<le> i \<Longrightarrow> int i < p \<Longrightarrow> dxe_hash buf e i \<le> hash" "\<And>i. q < int i \<Longrightarrow> int i < n \<Longrightarrow> hash < dxe_hash buf e i"
  defines "r \<equiv> dx_search_loop buf e hash p q"
  shows "1 \<le> r \<and> r \<le> n \<and> (\<forall>i. 1 \<le> i \<longrightarrow> int i < r \<longrightarrow> dxe_hash buf e i \<le> hash) \<and> (\<forall>i. r \<le> int i \<longrightarrow> int i < n \<longrightarrow> hash < dxe_hash buf e i)"
  using assms(1,2,3,5,6) unfolding r_def
proof (induction "nat (q + 1 - p)" arbitrary: p q rule: less_induct)
  case less
  show ?case
  proof (cases "p \<le> q")
    case False
    then have "p = q + 1" using less.prems(2) by simp
    moreover have "dx_search_loop buf e hash p q = p" using False by (subst dx_search_loop.simps) simp
    ultimately show ?thesis using less.prems by auto
  next
    case True
    define m where "m = p + (q - p) div 2"
    have m: "p \<le> m" "m \<le> q" using True by (simp_all add: m_def)
    have m1: "1 \<le> nat m" "int (nat m) = m" using m less.prems(1) by simp_all
    show ?thesis
    proof (cases "dxe_hash buf e (nat m) > hash")
      case gt: True
      have up: "hash < dxe_hash buf e i" if "m - 1 < int i" "int i < n" for i
        by (rule less_le_trans [OF gt assms(4)]) (use that m1 in linarith)+
      have "dx_search_loop buf e hash p q = dx_search_loop buf e hash p (m - 1)"
        using True gt by (subst dx_search_loop.simps) (simp add: m_def Let_def)
      moreover note less.hyps [of "m - 1" p]
      ultimately show ?thesis using m less.prems up by auto
    next
      case le: False
      have lo: "dxe_hash buf e i \<le> hash" if "1 \<le> i" "int i < m + 1" for i
        using le assms(4) [of i "nat m"] that m m1 less.prems(3) by auto
      have "dx_search_loop buf e hash p q = dx_search_loop buf e hash (m + 1) q"
        using True le by (subst dx_search_loop.simps) (simp add: m_def Let_def)
      moreover note less.hyps [of q "m + 1"]
      ultimately show ?thesis using m less.prems lo by auto
    qed
  qed
qed

section \<open>Packing entries\<close>

definition dm_rec :: "u8 list \<Rightarrow> dx_hash_map \<Rightarrow> nat" where
  "dm_rec src e = EXT2_DIR_REC_LEN (ext2fs_dirent_name_len src (nat (dm_off e)))"

text \<open>The offset of a map entry leads to an entry of the block.\<close>

definition dm_ok :: "'a fs_base_scheme \<Rightarrow> u8 list \<Rightarrow> dx_hash_map \<Rightarrow> bool" where
  "dm_ok fs src e \<longleftrightarrow> dent_ok fs src (nat (dm_off e))
     \<and> nat (dm_off e) + ext2fs_get_rec_len fs src (nat (dm_off e)) \<le> length src"

definition packed :: "'a fs_base_scheme \<Rightarrow> u8 list \<Rightarrow> dx_hash_map \<Rightarrow> dent" where
  "packed fs src e = (dm_rec src e, snd (dent_at fs src (nat (dm_off e))))"

lemma dm_rec_bounds:
  assumes "dm_ok fs src e"
  shows "8 \<le> dm_rec src e" "dm_rec src e mod 4 = 0" "dm_rec src e \<le> ext2fs_get_rec_len fs src (nat (dm_off e))"
    "ext2fs_dirent_name_len src (nat (dm_off e)) + 8 \<le> dm_rec src e"
proof -
  let ?n = "ext2fs_dirent_name_len src (nat (dm_off e))" and ?r = "ext2fs_get_rec_len fs src (nat (dm_off e))"
  have n: "?n < 256" by (rule name_len_lt)
  note b = dir_rec_len_bounds [OF n, folded dm_rec_def]
  show "8 \<le> dm_rec src e" "dm_rec src e mod 4 = 0" "?n + 8 \<le> dm_rec src e" using b by auto
  have "?n + 8 \<le> ?r" "?r mod 4 = 0" using assms by (auto simp: dm_ok_def dent_ok_def)
  then show "dm_rec src e \<le> ?r" using b by presburger
qed

lemma move_entry:
  assumes fs: "blk_fs fs" and src: "dm_ok fs src e" and len: "length src = unat (fs_blocksize fs)" "length b = unat (fs_blocksize fs)"
    and fit: "p + dm_rec src e \<le> length b"
  obtains b' where "ext2fs_set_rec_len fs (dm_rec src e) (memcpy_at b p (drop (nat (dm_off e)) src) (dm_rec src e)) p = (b', 0)"
    "length b' = length b" "same_on 0 p b b'" "dir_tiles fs b' p (p + dm_rec src e) [packed fs src e]"
proof -
  let ?d = "nat (dm_off e)" and ?r = "dm_rec src e"
  define c where "c = memcpy_at b p (drop ?d src) ?r"
  note r = dm_rec_bounds [OF src]
  have d: "?d + ?r \<le> length src" using src r(3) by (simp add: dm_ok_def)
  have lc: "length c = length b" using fit d by (simp add: c_def)
  have nth: "c ! (p + j) = src ! (?d + j)" if "j < ?r" for j
    using that fit d unfolding c_def by (simp add: nth_memcpy_at)
  have c: "same_on 0 p b c" using fit d unfolding c_def same_on_def by (auto simp: nth_memcpy_at)
  have "?r \<le> unat (fs_blocksize fs)" "p + 8 \<le> length c" "0 < ?r" using fit len lc r(1) by linarith+
  with r(2) obtain b' where b': "ext2fs_set_rec_len fs ?r c p = (b', 0)" "ext2fs_get_rec_len fs b' p = ?r"
    "length b' = length c" "same_on 0 (p + 4) c b'" "\<And>n. same_on (p + 6) n c b'"
    using set_rec_len_eff [OF fs] by metis
  let ?n = "ext2fs_dirent_name_len src ?d"
  have "p + 8 + ?n \<le> length c" using fit lc r(4) by linarith
  note f = dent_after_set_rec_len [OF b'(4,5) this b'(3)]
  have g16: "get16 c (p + j) = get16 src (?d + j)" if "j + 1 < ?r" for j
    using nth [of j] nth [of "j + 1"] that by (simp add: get16_def)
  have ci: "de_inode c p = de_inode src ?d" "de_name_len c p = de_name_len src ?d"
    using g16 [of 0] g16 [of 2] g16 [of 6] r(1) by (simp_all add: de_defs get32_def)
  have cn: "take ?n (de_name c p) = take ?n (de_name src ?d)"
    unfolding de_name_def using nth r(4) d fit lc by (intro nth_equalityI) (auto simp: add.assoc)
  have nl: "ext2fs_dirent_name_len b' p = ?n" using f(3) ci(2) by (simp add: ext2fs_dirent_name_len_def)
  have ok: "dent_ok fs b' p" using r by (simp add: dent_ok_def b'(2) nl)
  have "dent_at fs b' p = packed fs src e"
    unfolding dent_at_def packed_def snd_conv b'(2) nl f(1,2,4) ci cn by simp
  then have "dir_tiles fs b' p (p + ?r) [packed fs src e]"
    using ok by (simp add: dir_tiles_cons_iff dir_tiles_nil_iff b'(2))
  moreover have "same_on 0 p b b'" by (rule same_on_trans [OF c same_on_mono [OF b'(4)]]) auto
  ultimately show ?thesis using b'(1,3) lc by (intro that [of b']) (simp_all add: c_def)
qed

lemma move_loop:
  assumes fs: "blk_fs fs" and "\<forall>e \<in> set es. dm_ok fs src e" and "length src = unat (fs_blocksize fs)"
    and "length b = unat (fs_blocksize fs)" "p + sum_list (map (dm_rec src) es) \<le> length b"
  obtains b' where "dx_move_loop fs src es b p r = (b', 0, p + sum_list (map (dm_rec src) es), if es = [] then r else dm_rec src (last es))"
    "length b' = length b" "same_on 0 p b b'" "dir_tiles fs b' p (p + sum_list (map (dm_rec src) es)) (map (packed fs src) es)"
  using assms(2-)
proof (induction es arbitrary: b p r thesis)
  case Nil
  then show ?case by (intro Nil(1) [of b]) (auto intro: dir_tiles.nil)
next
  case (Cons e es)
  have "dm_ok fs src e" "p + dm_rec src e \<le> length b" using Cons.prems by auto
  then obtain c where c: "ext2fs_set_rec_len fs (dm_rec src e) (memcpy_at b p (drop (nat (dm_off e)) src) (dm_rec src e)) p = (c, 0)"
    "length c = length b" "same_on 0 p b c" "dir_tiles fs c p (p + dm_rec src e) [packed fs src e]"
    using move_entry [OF fs] Cons.prems by metis
  let ?s = "sum_list (map (dm_rec src) es)"
  obtain b' where b': "dx_move_loop fs src es c (p + dm_rec src e) (dm_rec src e)
      = (b', 0, p + dm_rec src e + ?s, if es = [] then dm_rec src e else dm_rec src (last es))"
    "length b' = length c" "same_on 0 (p + dm_rec src e) c b'"
    "dir_tiles fs b' (p + dm_rec src e) (p + dm_rec src e + ?s) (map (packed fs src) es)"
    by (rule Cons.IH [of c "p + dm_rec src e" "dm_rec src e"]) (use Cons.prems c(2) in auto)
  have "dir_tiles fs b' p (p + dm_rec src e) [packed fs src e]"
    by (rule dir_tiles_same [OF c(4) same_on_mono [OF b'(3)]]) (use Cons.prems c(2) b'(2) in auto)
  from dir_tiles_append [OF this b'(4)]
  have t: "dir_tiles fs b' p (p + sum_list (map (dm_rec src) (e # es))) (map (packed fs src) (e # es))" by (simp add: add.assoc)
  have "dx_move_loop fs src (e # es) b p r = (b', 0, p + sum_list (map (dm_rec src) (e # es)),
      if e # es = [] then r else dm_rec src (last (e # es)))"
    using c(1) b'(1) by (simp add: Let_def dm_rec_def [symmetric] add.assoc)
  moreover have "same_on 0 p b b'" by (rule same_on_trans [OF c(3) same_on_mono [OF b'(3)]]) auto
  ultimately show ?case using b'(2) c(2) t by (intro Cons.prems(1) [of b']) simp_all
qed

lemma dir_tiles_appendD:
  "dir_tiles fs buf d e (E @ F) \<Longrightarrow> \<exists>m. dir_tiles fs buf d m E \<and> dir_tiles fs buf m e F"
  by (induction E arbitrary: d) (auto simp: dir_tiles_cons_iff intro: dir_tiles.nil)

lemma init_tail:
  assumes "blk_fs fs" "length b = unat (fs_blocksize fs)"
  defines "b' \<equiv> ext2fs_initialize_dirent_tail fs b (unat (fs_blocksize fs) - 12)"
  shows "length b' = length b" "same_on 0 (unat (fs_blocksize fs) - 12) b b'" "csum_len fs = 12 \<Longrightarrow> tail_ok fs b'"
proof -
  define t where "t = unat (fs_blocksize fs) - 12"
  have t: "t + 12 = length b" using assms(1,2) by (simp add: t_def blk_fs_def)
  define c where "c = memset b t 0 12"
  have c: "length c = length b" "same_on 0 t b c" "\<And>j. t \<le> j \<Longrightarrow> j < t + 12 \<Longrightarrow> c ! j = 0"
    using t unfolding c_def by (auto simp: memset_def same_on_def nth_append)
  obtain d where d: "ext2fs_set_rec_len fs 12 c t = (d, 0)" "length d = length c" "same_on 0 (t + 4) c d" "\<And>n. same_on (t + 6) n c d"
    "ext2fs_get_rec_len fs d t = 12"
    by (rule set_rec_len_eff [OF assms(1), of 12 t c]) (use assms(1) t c(1) in \<open>auto simp: blk_fs_def\<close>)
  have b': "b' = put16 d (t + 6) EXT2_DIR_NAME_LEN_CSUM"
    using d(1) unfolding b'_def ext2fs_initialize_dirent_tail_def t_def [symmetric] c_def [symmetric] by (simp add: Let_def)
  show "length b' = length b" using b' c(1) d(2) by simp
  have "same_on 0 t d b'" unfolding b' by (rule same_on_put16) (use t c(1) d(2) in auto)
  then show "same_on 0 (unat (fs_blocksize fs) - 12) b b'" unfolding t_def [symmetric]
    by (intro same_on_trans [OF c(2) same_on_trans [OF same_on_mono [OF d(3)]]]) auto
  assume "csum_len fs = 12"
  then have e: "blk_end fs = t" by (simp add: blk_end_def t_def)
  have "get32 d t = get32 c t" by (rule same_on_get32 [OF d(3)]) auto
  moreover have "get32 c t = 0" using t c(1,3) by (simp add: get32_def get16_def)
  ultimately have "de_inode b' t = 0" using t c(1) d(2) unfolding b' by (simp add: de_inode_def get32_put16_other)
  moreover have "unat (de_rec_len d t) = 12" using rec_len_raw [of fs d t] d(5) assms(1) by (simp add: blk_fs_def)
  then have "de_rec_len d t = 12" by (simp add: word_unat_eq_iff)
  then have "de_rec_len b' t = 12" using t c(1) d(2) unfolding b' by (simp add: de_rec_len_def get16_put16_other)
  moreover have "de_name_len b' t = EXT2_DIR_NAME_LEN_CSUM" using t c(1) d(2) unfolding b' by (simp add: de_name_len_def get16_put16)
  ultimately show "tail_ok fs b'" by (simp add: tail_ok_def e)
qed

lemma mod4_arith:
  "(a + b) mod 4 = 0 \<Longrightarrow> b mod 4 = 0 \<Longrightarrow> a mod 4 = (0 :: nat)"
  "(a + b) mod 4 = 0 \<Longrightarrow> a mod 4 = 0 \<Longrightarrow> b mod 4 = (0 :: nat)"
  by presburger+

lemma sum_mod4: "\<forall>x \<in> set xs. f x mod 4 = (0 :: nat) \<Longrightarrow> sum_list (map f xs) mod 4 = 0"
  by (induction xs) (auto simp: mod_add_eq [symmetric])

lemma move_dirents:
  assumes fs: "blk_fs fs" "unat (fs_blocksize fs) mod 4 = 0" and es: "es \<noteq> []" "\<forall>e \<in> set es. dm_ok fs src e"
    and len: "length src = unat (fs_blocksize fs)" "length b = unat (fs_blocksize fs)"
    and fit: "sum_list (map (dm_rec src) es) \<le> blk_end fs"
  obtains b' E where "dx_move_dirents fs es src b = (b', 0)" "length b' = length b" "tail_ok fs b'"
    "dir_tiles fs b' 0 (blk_end fs) E" "map snd E = map (\<lambda>e. snd (packed fs src e)) es"
proof -
  let ?s = "sum_list (map (dm_rec src) es)" and ?e = "last es"
  note be = blk_end [OF fs(1)]
  have f: "0 + ?s \<le> length b" using fit be len by simp
  obtain c where c: "dx_move_loop fs src es b 0 0 = (c, 0, ?s, dm_rec src ?e)" "length c = length b"
    "dir_tiles fs c 0 ?s (map (packed fs src) es)"
    using move_loop [OF fs(1) es(2) len f, of 0] es(1) by auto
  have sp: "map (packed fs src) es = map (packed fs src) (butlast es) @ [packed fs src ?e]"
    using es(1) by (metis append_butlast_last_id list.simps(8,9) map_append)
  obtain q where q: "dir_tiles fs c 0 q (map (packed fs src) (butlast es))" "dir_tiles fs c q ?s [packed fs src ?e]"
    using dir_tiles_appendD [OF c(3) [unfolded sp]] by blast
  have qs: "q + dm_rec src ?e = ?s" "dent_ok fs c q" "dent_at fs c q = packed fs src ?e"
    using q(2) by (auto simp: dir_tiles_cons_iff dir_tiles_nil_iff dent_at_def packed_def)
  have e: "dm_ok fs src ?e" using es by simp
  note r = dm_rec_bounds [OF e]
  have "?s mod 4 = 0" using es(2) dm_rec_bounds(2) by (intro sum_mod4) blast
  then have q4: "q mod 4 = 0" using mod4_arith(1) [of q "dm_rec src ?e"] qs(1) r(2) by simp
  define l where "l = blk_end fs - q"
  have e4: "blk_end fs mod 4 = 0" using mod4_arith(1) [of "blk_end fs" "csum_len fs"] fs(2) be by (simp add: csum_len_def split: if_splits)
  have l: "q + l = blk_end fs" "dm_rec src ?e \<le> l" using qs(1) fit unfolding l_def by linarith+
  then have l2: "l mod 4 = 0" "0 < l" "l \<le> unat (fs_blocksize fs)" "q + 8 \<le> length c"
    using mod4_arith(2) [of q l] e4 q4 r(1) be c(2) len by auto
  obtain c' where c': "ext2fs_set_rec_len fs l c q = (c', 0)" "ext2fs_get_rec_len fs c' q = l"
    "length c' = length c" "same_on 0 (q + 4) c c'" "\<And>n. same_on (q + 6) n c c'"
    using set_rec_len_eff [OF fs(1) l2] by metis
  let ?n = "ext2fs_dirent_name_len c q"
  have "?n + 8 \<le> dm_rec src ?e" using qs(2,3) by (simp add: dent_ok_def dent_at_def packed_def)
  then have n: "?n + 8 \<le> l" "q + 8 + ?n \<le> length c" using l be c(2) len by linarith+
  note d = dent_after_set_rec_len [OF c'(4,5) n(2) c'(3)]
  have ok: "dent_ok fs c' q" using l2(1,2) n(1) r(1) l(2) by (simp add: dent_ok_def c'(2) d(3))
  have snd: "snd (dent_at fs c' q) = snd (packed fs src ?e)" using qs(3) by (simp add: dent_at_def d packed_def)
  have "dir_tiles fs c' 0 q (map (packed fs src) (butlast es))"
    by (rule dir_tiles_same [OF q(1) same_on_mono [OF c'(4)]]) (use l(1) be c(2) c'(3) len in auto)
  moreover have "dir_tiles fs c' q (blk_end fs) [dent_at fs c' q]"
    using ok l(1) by (simp add: dir_tiles_cons_iff dir_tiles_nil_iff c'(2))
  ultimately have tiles: "dir_tiles fs c' 0 (blk_end fs) (map (packed fs src) (butlast es) @ [dent_at fs c' q])"
    by (rule dir_tiles_append)
  let ?E = "map (packed fs src) (butlast es) @ [dent_at fs c' q]"
  have E: "map snd ?E = map (\<lambda>e. snd (packed fs src e)) es"
    using arg_cong [OF sp, of "map snd"] by (simp add: snd comp_def)
  have lc: "length c' = unat (fs_blocksize fs)" using c(2) c'(3) len by simp
  have mv: "dx_move_dirents fs es src b = (if csum_len fs \<noteq> 0 then (ext2fs_initialize_dirent_tail fs c' (unat (fs_blocksize fs) - 12), 0) else (c', 0))"
  proof -
    have "?s - dm_rec src ?e = q" using qs(1) by simp
    moreover have "unat (fs_blocksize fs) - q - csum_len fs = l" using be unfolding l_def by linarith
    ultimately show ?thesis using c(1) c'(1) unfolding dx_move_dirents_def csum_len_def [symmetric] by (simp add: Let_def)
  qed
  show ?thesis
  proof (cases "csum_len fs = 0")
    case True
    then show ?thesis using mv lc len tiles E by (intro that [of c' ?E]) (auto simp: tail_ok_def)
  next
    case False
    then have c12: "csum_len fs = 12" by (simp add: csum_len_def split: if_splits)
    let ?c = "ext2fs_initialize_dirent_tail fs c' (unat (fs_blocksize fs) - 12)"
    note i = init_tail [OF fs(1) lc]
    have "unat (fs_blocksize fs) - 12 = blk_end fs" using c12 by (simp add: blk_end_def)
    then have "dir_tiles fs ?c 0 (blk_end fs) ?E"
      using dir_tiles_same [OF tiles, of ?c] i(1,2) lc be by simp
    then show ?thesis using mv False i(1) i(3) [OF c12] lc len E by (intro that [of ?c ?E]) auto
  qed
qed

section \<open>The map of a leaf\<close>

text \<open>The entry a map entry stands for, and the entries that have one.\<close>

definition dm_live :: "u8 list \<Rightarrow> dx_hash_map \<Rightarrow> u32 \<times> u16 \<times> u8 list" where
  "dm_live src e = (let d = nat (dm_off e) in
     (de_inode src d, drop_bit 8 (de_name_len src d), take (ext2fs_dirent_name_len src d) (de_name src d)))"

definition named :: "(u32 \<times> u16 \<times> u8 list) list \<Rightarrow> (u32 \<times> u16 \<times> u8 list) list" where
  "named L = filter (\<lambda>(i, t, s). s \<noteq> []) L"

lemma dents_live_packed:
  assumes "map snd E = map (\<lambda>e. snd (packed fs src e)) es" "\<forall>e \<in> set es. de_inode src (nat (dm_off e)) \<noteq> 0"
  shows "dents_live E = map (dm_live src) es"
  using assms
proof (induction es arbitrary: E)
  case (Cons e es)
  then obtain l E2 where E: "E = (l, snd (packed fs src e)) # E2" "map snd E2 = map (\<lambda>e. snd (packed fs src e)) es"
    by (cases E) auto
  have "dents_live E2 = map (dm_live src) es" using Cons.IH [OF E(2)] Cons.prems(2) by simp
  then show ?case using Cons.prems(2) unfolding E(1) packed_def dent_at_def by (simp add: dm_live_def Let_def)
qed simp

text \<open>What the loop over the leaf puts into the map.\<close>

definition dx_mapped :: "(u8 list \<Rightarrow> u32) \<Rightarrow> 'a fs_base_scheme \<Rightarrow> u8 list \<Rightarrow> dx_hash_map list \<Rightarrow> bool" where
  "dx_mapped h fs src es \<longleftrightarrow> (\<forall>e \<in> set es. dm_ok fs src e \<and> de_inode src (nat (dm_off e)) \<noteq> 0
     \<and> dm_hash e = h (snd (snd (dm_live src e))) \<and> int (dm_rec src e) \<le> dm_size e)"

lemma dx_map_loop:
  assumes fs: "blk_fs fs" and len: "length buf = unat (fs_blocksize fs)" and tl: "tail_ok fs buf"
    and h: "\<And>s n. n \<le> length s \<Longrightarrow> \<exists>mh. dirhash s n = Inr (h (take n s), mh)"
    and t: "dir_tiles fs buf d (blk_end fs) E"
  shows "\<exists>es. dx_map_loop dirhash fs buf d acc = Some (Inr (acc @ es)) \<and> dx_mapped h fs buf es
    \<and> map (dm_live buf) es = named (dents_live E) \<and> sum_list (map (dm_rec buf) es) + d \<le> blk_end fs"
  using t
proof (induction E arbitrary: d acc rule: list.induct)
  case Nil
  then have d: "d = blk_end fs" by (simp add: dir_tiles_nil_iff)
  note be = blk_end [OF fs]
  let ?bs = "unat (fs_blocksize fs)"
  have fin: "dx_map_loop dirhash fs buf ?bs acc = Some (Inr acc)" by (subst dx_map_loop.simps) simp
  have "dx_map_loop dirhash fs buf d acc = Some (Inr acc)"
  proof (cases "csum_len fs = 0")
    case False
    then have c: "csum_len fs = 12" by (simp add: csum_len_def split: if_splits)
    then have i: "de_inode buf d = 0" "de_rec_len buf d = 12" using tl d by (simp_all add: tail_ok_def)
    have "ext2fs_get_rec_len fs buf d = 12" by (simp add: ext2fs_get_rec_len_def i)
    then show ?thesis using be c d i fin by (subst dx_map_loop.simps) (simp add: Let_def)
  qed (use fin d be in simp)
  then show ?case using d by (intro exI [of _ "[]"]) (simp add: dx_mapped_def named_def)
next
  case (Cons x E)
  let ?r = "ext2fs_get_rec_len fs buf d" and ?nl = "ext2fs_dirent_name_len buf d"
  note be = blk_end [OF fs]
  have x: "dent_ok fs buf d" "x = dent_at fs buf d" "dir_tiles fs buf (d + ?r) (blk_end fs) E"
    using Cons.prems by (auto simp: dir_tiles_cons_iff)
  have le: "d + ?r \<le> blk_end fs" by (rule dir_tiles_le [OF x(3)])
  have d: "d < unat (fs_blocksize fs)" using le be x(1) by (auto simp: dent_ok_def)
  show ?case
  proof (cases "?nl > 0 \<and> de_inode buf d \<noteq> 0")
    case False
    obtain es where es: "dx_map_loop dirhash fs buf (d + ?r) acc = Some (Inr (acc @ es))" "dx_mapped h fs buf es"
      "map (dm_live buf) es = named (dents_live E)" "sum_list (map (dm_rec buf) es) + (d + ?r) \<le> blk_end fs"
      using Cons.IH [OF x(3), of acc] by blast
    have "named (dents_live (x # E)) = named (dents_live E)" using False unfolding x(2) dent_at_def by (auto simp: named_def)
    moreover have "dx_map_loop dirhash fs buf d acc = Some (Inr (acc @ es))"
      using False d es(1) by (subst dx_map_loop.simps) (auto simp: Let_def)
    ultimately show ?thesis using es by (intro exI [of _ es]) simp
  next
    case True
    have nl: "?nl + 8 \<le> ?r" using x(1) by (simp add: dent_ok_def)
    then have n: "?nl \<le> length (de_name buf d)" using le be len by (simp add: de_name_def)
    obtain mh where mh: "dirhash (de_name buf d) ?nl = Inr (h (take ?nl (de_name buf d)), mh)" using h [OF n] by blast
    define e where "e = \<lparr>dm_hash = h (take ?nl (de_name buf d)), dm_size = int ?r, dm_off = int d\<rparr>"
    have off: "nat (dm_off e) = d" by (simp add: e_def)
    obtain es where es: "dx_map_loop dirhash fs buf (d + ?r) (acc @ [e]) = Some (Inr ((acc @ [e]) @ es))" "dx_mapped h fs buf es"
      "map (dm_live buf) es = named (dents_live E)" "sum_list (map (dm_rec buf) es) + (d + ?r) \<le> blk_end fs"
      using Cons.IH [OF x(3), of "acc @ [e]"] by blast
    have ok: "dm_ok fs buf e" using x(1) le be len by (simp add: dm_ok_def off)
    have r: "dm_rec buf e \<le> ?r" using dm_rec_bounds(3) [OF ok] by (simp add: off)
    have lv: "dm_live buf e = (de_inode buf d, drop_bit 8 (de_name_len buf d), take ?nl (de_name buf d))"
      by (simp add: dm_live_def off Let_def)
    have ne: "take ?nl (de_name buf d) \<noteq> []" using True n by auto
    have "dx_map_loop dirhash fs buf d acc = Some (Inr (acc @ (e # es)))"
      using True d es(1) mh by (subst dx_map_loop.simps) (simp add: Let_def e_def)
    moreover have "dx_mapped h fs buf (e # es)" using es(2) ok True r lv by (simp add: dx_mapped_def off) (simp add: e_def)
    moreover have "map (dm_live buf) (e # es) = named (dents_live (x # E))"
      using True ne es(3) lv unfolding x(2) dent_at_def by (simp add: named_def)
    moreover have "sum_list (map (dm_rec buf) (e # es)) + d \<le> blk_end fs" using es(4) r by simp
    ultimately show ?thesis by blast
  qed
qed

end
