(* ===== verification/Dx_split.thy ===== *)
theory Dx_split
  imports Dx_index Block_dev
begin

text \<open>
  The split of a leaf on the device: the checksum of a well-formed leaf block can be set and leaves its entries
  alone, so that the two blocks \<open>dx_split_leaf\<close> writes are the two halves it packed.
\<close>

section \<open>The hashes and the map\<close>

text \<open>The hash of a name under version \<open>v\<close>.\<close>

definition name_hash :: "int \<Rightarrow> u32 list \<Rightarrow> u8 list \<Rightarrow> u32" where
  "name_hash v seed s = fst (projr (ext2fs_dirhash v s (length s) (Some seed)))"

lemma dirhash2_name_hash:
  assumes "0 \<le> v" "v \<le> 5" "n \<le> length s"
  shows "\<exists>mh. ext2fs_dirhash2 v s n None flags (Some seed) = Inr (name_hash v seed (take n s), mh)"
proof -
  obtain h mh where h: "ext2fs_dirhash v (take n s) n (Some seed) = Inr (h, mh)" using dirhash_supported assms(1,2) by blast
  have l: "length (take n s) = n" using assms(3) by simp
  have "name_hash v seed (take n s) = h" by (simp only: name_hash_def l h sum.sel fst_conv)
  then show ?thesis using h dirhash_take [OF assms(3), of v "Some seed"] by (simp add: ext2fs_dirhash2_def)
qed

lemma sort_map_all:
  assumes "s = dx_sort_map es (length es)"
  shows "mset s = mset es" "set s = set es" "length s = length es" "sorted (map dm_hash s)"
proof -
  note m = dx_sort_map [of "length es" es, folded assms]
  show "mset s = mset es" using m(1) by simp
  then show "set s = set es" "length s = length es" by (auto dest: mset_eq_setD mset_eq_length)
  then show "sorted (map dm_hash s)" using m(3) by simp
qed

section \<open>The checksum of a leaf\<close>

lemma tail_walk_tiles:
  assumes fs: "blk_fs fs" "csum_len fs = 12"
  shows "dir_tiles fs c d e F \<Longrightarrow> e = blk_end fs \<Longrightarrow> dirent_tail_walk (\<lambda>x. x) c (blk_end fs) d = Inr (blk_end fs)"
proof (induction rule: dir_tiles.induct)
  case (nil e)
  then show ?case by (subst dirent_tail_walk.simps) simp
next
  case (cons d e E)
  note be = blk_end [OF fs(1)]
  have bs: "unat (fs_blocksize fs) \<le> 65536" using fs(1) by (simp add: blk_fs_def)
  have le: "d + ext2fs_get_rec_len fs c d \<le> blk_end fs" using dir_tiles_le [OF cons(2)] cons.prems by simp
  then have "ext2fs_get_rec_len fs c d < 65536" using be bs fs(2) by linarith
  from rec_len_raw [OF bs this] have r: "unat (de_rec_len c d) = ext2fs_get_rec_len fs c d" .
  have "8 \<le> ext2fs_get_rec_len fs c d" "ext2fs_get_rec_len fs c d mod 4 = 0" using cons(1) by (simp_all add: dent_ok_def)
  then show ?case using cons.IH [OF cons.prems] le r
    by (subst dirent_tail_walk.simps) simp
qed

lemma leaf_tail:
  assumes fs: "blk_fs fs" "csum_len fs = 12" and c: "tail_ok fs c" "dir_tiles fs c 0 (blk_end fs) F"
  shows "get_dirent_tail fs c True = Inr (blk_end fs)"
proof -
  have b: "blk_end fs = unat (fs_blocksize fs) - 12" "1024 \<le> unat (fs_blocksize fs)" using fs by (simp_all add: blk_end_def blk_fs_def)
  have w: "dirent_tail_walk (\<lambda>x. x) c (unat (fs_blocksize fs) - 12) 0 = Inr (unat (fs_blocksize fs) - 12)"
    using tail_walk_tiles [OF fs c(2) refl] b(1) by simp
  have t: "get32 c (unat (fs_blocksize fs) - 12) = 0" "get16 c (unat (fs_blocksize fs) - 12 + 4) = 12"
    "get16 c (unat (fs_blocksize fs) - 12 + 6) = EXT2_DIR_NAME_LEN_CSUM"
    using c(1) fs(2) b(1) by (simp_all add: tail_ok_def de_defs)
  show ?thesis unfolding get_dirent_tail_def Let_def translate_id using b w t by simp
qed

lemma leaf_csum:
  assumes fs: "blk_fs fs" and c: "length c = unat (fs_blocksize fs)" "tail_ok fs c" "dir_tiles fs c 0 (blk_end fs) F"
    and rd: "ext2fs_has_feature_metadata_csum (fs_super fs) \<longrightarrow> (\<exists>inode. rdi dir = Inr inode)"
  obtains c' where "ext2fs_dir_block_csum_set rdi fs dir c = (c', 0)" "length c' = unat (fs_blocksize fs)"
    "tail_ok fs c'" "dir_tiles fs c' 0 (blk_end fs) F"
proof (cases "ext2fs_has_feature_metadata_csum (fs_super fs)")
  case False
  then show ?thesis using c by (intro that [of c]) (simp_all add: ext2fs_dir_block_csum_set_def)
next
  case True
  have cl: "csum_len fs = 12" using True by (simp add: csum_len_def)
  note be = blk_end [OF fs] and t = leaf_tail [OF fs cl c(2,3)]
  obtain inode where i: "rdi dir = Inr inode" using rd True by blast
  define crc where "crc = crc32c (crc32c_inode fs dir (i_generation inode)) c 0 (blk_end fs)"
  define c' where "c' = put32 c (blk_end fs + 8) crc"
  have len: "blk_end fs + 12 = length c" using be cl c(1) by simp
  have s: "same_on 0 (blk_end fs + 8) c c'" unfolding c'_def by (rule same_on_put32) (use len in auto)
  have l: "length c' = length c" by (simp add: c'_def)
  have code: "ext2fs_dir_block_csum_set rdi fs dir c = (c', 0)"
    using True t i by (simp add: ext2fs_dir_block_csum_set_def ext2fs_dirent_csum_set_def ext2fs_dirent_csum_def c'_def crc_def)
  have tl: "tail_ok fs c'" using c(2) same_on_mono [OF s, of "blk_end fs"]
    unfolding tail_ok_def de_defs by (simp add: same_on_get16 [OF s] same_on_get32 [OF s])
  have "dir_tiles fs c' 0 (blk_end fs) F"
    by (rule dir_tiles_same [OF c(3) same_on_mono [OF s]]) (use len l in auto)
  then show ?thesis using that [OF code _ tl] l c(1) by simp
qed

section \<open>The two halves\<close>

text \<open>The entries of a map that are packed into a block, whatever the block held before.\<close>

lemma pack_leaf:
  assumes fs: "blk_fs fs" "unat (fs_blocksize fs) mod 4 = 0" "length buf = unat (fs_blocksize fs)"
    and m: "dx_mapped h fs buf es" "sum_list (map (dm_rec buf) es) \<le> blk_end fs"
    and xs: "xs \<noteq> []" "mset xs \<subseteq># mset es" "length a = unat (fs_blocksize fs)"
  obtains c F where "dx_move_dirents fs xs buf a = (c, 0)" "dir_tiles fs c 0 (blk_end fs) F" "tail_ok fs c"
    "length c = unat (fs_blocksize fs)" "dents_live F = map (dm_live buf) xs"
proof -
  have set: "set xs \<subseteq> set es" using set_mset_mono [OF xs(2)] by simp
  then have ok: "\<forall>e \<in> set xs. dm_ok fs buf e" "\<forall>e \<in> set xs. de_inode buf (nat (dm_off e)) \<noteq> 0"
    using m(1) by (auto simp: dx_mapped_def)
  have "sum_list (map (dm_rec buf) xs) \<le> sum_list (map (dm_rec buf) es)"
    using xs(2) by (metis sum_mset_sum_list mset_map image_mset_subseteq_mono subset_mset.le_iff_add sum_mset.union le_add1)
  then have "sum_list (map (dm_rec buf) xs) \<le> blk_end fs" using m(2) by simp
  from move_dirents [OF fs(1,2) xs(1) ok(1) fs(3) xs(3) this] obtain c F where
    c: "dx_move_dirents fs xs buf a = (c, 0)" "tail_ok fs c" "dir_tiles fs c 0 (blk_end fs) F"
      "map snd F = map (\<lambda>e. snd (packed fs buf e)) xs" "length c = unat (fs_blocksize fs)" using xs(3) by metis
  show ?thesis by (rule that [OF c(1,3,2,5) dents_live_packed [OF c(4) ok(2)]])
qed

text \<open>How a sorted map splits at \<open>i\<close>.\<close>

lemma sorted_halves:
  assumes m: "dx_mapped h fs buf es" and s: "s = dx_sort_map es (length es)" and i: "0 < i" "i < length es"
  shows "mset (map (dm_live buf) (take i s)) + mset (map (dm_live buf) (drop i s)) = mset (map (dm_live buf) es)"
    "x \<in> set (map (dm_live buf) (take i s)) \<Longrightarrow> h (snd (snd x)) \<le> dm_hash (s ! i)"
    "y \<in> set (map (dm_live buf) (drop i s)) \<Longrightarrow> dm_hash (s ! i) \<le> h (snd (snd y))"
    "dm_hash (s ! i) = dm_hash (s ! (i - 1)) \<longleftrightarrow> (\<exists>x \<in> set (map (dm_live buf) (take i s)). h (snd (snd x)) = dm_hash (s ! i))"
proof -
  note so = sort_map_all [OF s]
  have hash: "h (snd (snd (dm_live buf e))) = dm_hash e" if "e \<in> set s" for e
  proof -
    have "e \<in> set es" using that so(2) by blast
    then have "dm_hash e = h (snd (snd (dm_live buf e)))" using m unfolding dx_mapped_def by blast
    then show ?thesis by (rule sym)
  qed
  have srt: "dm_hash (s ! a) \<le> dm_hash (s ! b)" if "a \<le> b" "b < length s" for a b
    using sorted_nth_mono [OF so(4), of a b] that by simp
  have tk: "\<exists>k < i. e = s ! k" if ts: "e \<in> set (take i s)" for e
  proof -
    obtain k where "k < length (take i s)" "e = take i s ! k" using ts in_set_conv_nth by metis
    then show ?thesis by (intro exI [of _ k]) simp
  qed
  have dr: "\<exists>k. i \<le> k \<and> k < length s \<and> e = s ! k" if ts: "e \<in> set (drop i s)" for e
  proof -
    obtain k where "k < length (drop i s)" "e = drop i s ! k" using ts in_set_conv_nth by metis
    then show ?thesis using i so(3) by (intro exI [of _ "i + k"]) simp
  qed
  show "mset (map (dm_live buf) (take i s)) + mset (map (dm_live buf) (drop i s)) = mset (map (dm_live buf) es)"
    unfolding mset_append [symmetric] map_append [symmetric] append_take_drop_id by (simp only: mset_map so(1))
  show "x \<in> set (map (dm_live buf) (take i s)) \<Longrightarrow> h (snd (snd x)) \<le> dm_hash (s ! i)"
  proof -
    assume "x \<in> set (map (dm_live buf) (take i s))"
    then obtain e where e: "e \<in> set (take i s)" "x = dm_live buf e" by auto
    then obtain k where "k < i" "e = s ! k" using tk by blast
    then show ?thesis using e srt [of k i] so(3) i hash [OF in_set_takeD [OF e(1)]] by simp
  qed
  show "y \<in> set (map (dm_live buf) (drop i s)) \<Longrightarrow> dm_hash (s ! i) \<le> h (snd (snd y))"
  proof -
    assume "y \<in> set (map (dm_live buf) (drop i s))"
    then obtain e where e: "e \<in> set (drop i s)" "y = dm_live buf e" by auto
    then obtain k where "i \<le> k" "k < length s" "e = s ! k" using dr by blast
    then show ?thesis using e srt [of i k] hash [OF in_set_dropD [OF e(1)]] by simp
  qed
  have "take i s ! (i - 1) \<in> set (take i s)" using i so(3) by (intro nth_mem) simp
  then have pre: "s ! (i - 1) \<in> set (take i s)" using i by simp
  have hp: "h (snd (snd (dm_live buf (s ! (i - 1))))) = dm_hash (s ! (i - 1))" by (rule hash [OF in_set_takeD [OF pre]])
  show "dm_hash (s ! i) = dm_hash (s ! (i - 1)) \<longleftrightarrow> (\<exists>x \<in> set (map (dm_live buf) (take i s)). h (snd (snd x)) = dm_hash (s ! i))"
  proof
    assume "dm_hash (s ! i) = dm_hash (s ! (i - 1))"
    then have "h (snd (snd (dm_live buf (s ! (i - 1))))) = dm_hash (s ! i)" using hp by simp
    moreover have "dm_live buf (s ! (i - 1)) \<in> set (map (dm_live buf) (take i s))" using pre by simp
    ultimately show "\<exists>x \<in> set (map (dm_live buf) (take i s)). h (snd (snd x)) = dm_hash (s ! i)" by blast
  next
    assume "\<exists>x \<in> set (map (dm_live buf) (take i s)). h (snd (snd x)) = dm_hash (s ! i)"
    then obtain e where e: "e \<in> set (take i s)" "h (snd (snd (dm_live buf e))) = dm_hash (s ! i)" by auto
    then have eh: "dm_hash e = dm_hash (s ! i)" using hash [OF in_set_takeD [OF e(1)]] by simp
    obtain k where "k < i" "e = s ! k" using tk [OF e(1)] by blast
    then have "dm_hash (s ! i) \<le> dm_hash (s ! (i - 1))" using srt [of k "i - 1"] eh i so(3) by simp
    then show "dm_hash (s ! i) = dm_hash (s ! (i - 1))" using srt [of "i - 1" i] i so(3) by simp
  qed
qed

context block_dev_total
begin

lemma write_leaf:
  assumes d: "dinv ch" "bs = unat (fs_blocksize fs)"
    and c: "blk_fs fs" "length c = unat (fs_blocksize fs)" "tail_ok fs c" "dir_tiles fs c 0 (blk_end fs) F"
    and rd: "ext2fs_has_feature_metadata_csum (fs_super fs) \<longrightarrow> (\<exists>inode. rdi dir = Inr inode)"
  obtains ch' c' where "ext2fs_write_dir_block4 rdi m fs ch b c dir = (ch', c', 0)" "dinv ch'" "V ch' = (V ch)(b := c')"
    "length c' = unat (fs_blocksize fs)" "tail_ok fs c'" "dir_tiles fs c' 0 (blk_end fs) F"
proof -
  obtain c' where c': "ext2fs_dir_block_csum_set rdi fs dir c = (c', 0)" "length c' = unat (fs_blocksize fs)"
    "tail_ok fs c'" "dir_tiles fs c' 0 (blk_end fs) F" using leaf_csum [where rdi = rdi and dir = dir, OF c rd] by blast
  obtain ch' where "io_channel_write_blk64 m ch b 1 c' = (ch', 0)" "dinv ch'" "V ch' = (V ch)(b := c')"
    using dev_write_total [OF d(1), of c' b] c'(2) d(2) by auto
  then show ?thesis using c' by (intro that [of ch' c']) (simp_all add: ext2fs_write_dir_block4_def)
qed

lemma split_leaf:
  assumes d: "dinv ch" "bs = unat (fs_blocksize fs)" and mem: "alloc_sized mem" "\<And>n. mem n \<noteq> None"
    and fs: "blk_fs fs" "unat (fs_blocksize fs) mod 4 = 0" "length buf = unat (fs_blocksize fs)"
    and rd: "ext2fs_has_feature_metadata_csum (fs_super fs) \<longrightarrow> (\<exists>inode. rdi dir = Inr inode)"
    and es: "dx_map_loop (\<lambda>name n. ext2fs_dirhash2 (dx_hash_alg info) name n None (i_flags diri AND EXT4_CASEFOLD_FL)
        (Some (s_hash_seed (fs_super fs)))) fs buf 0 [] = Some (Inr es)" "dx_mapped h fs buf es" "sum_list (map (dm_rec buf) es) \<le> blk_end fs"
    and s: "s = dx_sort_map es (length es)" "i = dx_split_scan (unat (fs_blocksize fs)) s (length es) 0" "0 < i" "i < length es"
  obtains ch2 new old En Eo where
    "dx_split_leaf mem rdi m None before fs ch dir diri info buf leaf_pblk new_lblk new_pblk =
       Some (dx_insert_entry rdi m fs ch2 dir info (length (dx_frames info) - 1)
              (dm_hash (s ! i) + (if dm_hash (s ! i) = dm_hash (s ! (i - 1)) then 1 else 0)) new_lblk)"
    "dinv ch2" "V ch2 = (V ch)(new_pblk := new, leaf_pblk := old)"
    "dir_tiles fs new 0 (blk_end fs) En" "tail_ok fs new" "dir_tiles fs old 0 (blk_end fs) Eo" "tail_ok fs old"
    "dents_live En = map (dm_live buf) (drop i s)" "dents_live Eo = map (dm_live buf) (take i s)"
proof -
  note so = sort_map_all [OF s(1)]
  have ts: "mset (take i s) + mset (drop i s) = mset es" using so(1) by (metis mset_append append_take_drop_id)
  have ne: "drop i s \<noteq> []" "take i s \<noteq> []" using s(3,4) so(3) by auto
  have sub: "mset (drop i s) \<subseteq># mset es" "mset (take i s) \<subseteq># mset es"
    unfolding ts [symmetric] by simp_all
  obtain b0 where b0: "ext2fs_get_mem mem (unat (fs_blocksize fs)) = Inr b0" "length (snd b0) = unat (fs_blocksize fs)"
    using mem unfolding ext2fs_get_mem_def alloc_sized_def by (metis (mono_tags, lifting) option.exhaust option.simps(5))
  have "unat (fs_blocksize fs) div 12 \<le> 65536" using fs(1) by (intro le_trans [OF div_le_dividend]) (simp add: blk_fs_def)
  then have "12 * (unat (fs_blocksize fs) div 12) \<le> 2 ^ 64 - 1" by simp
  then have "unat (fs_blocksize fs) div 12 \<noteq> 0 \<Longrightarrow> 12 \<le> (2 ^ 64 - 1) div (unat (fs_blocksize fs) div 12)"
    by (subst less_eq_div_iff_mult_less_eq) simp_all
  then have "ext2fs_get_array mem (unat (fs_blocksize fs) div 12) 12 = ext2fs_get_mem mem (unat (fs_blocksize fs) div 12 * 12)"
    by (auto simp: ext2fs_get_array_def)
  moreover have "\<exists>a. ext2fs_get_mem mem n = Inr a" for n using mem(2) [of n] by (cases "mem n") (simp_all add: ext2fs_get_mem_def)
  ultimately have "\<exists>a. ext2fs_get_array mem (unat (fs_blocksize fs) div 12) 12 = Inr a" by metis
  then obtain ar where ar: "ext2fs_get_array mem (unat (fs_blocksize fs) div 12) 12 = Inr ar" by blast
  obtain c En where n: "dx_move_dirents fs (drop i s) buf (snd b0) = (c, 0)" "dir_tiles fs c 0 (blk_end fs) En" "tail_ok fs c"
    "length c = unat (fs_blocksize fs)" "dents_live En = map (dm_live buf) (drop i s)"
    using pack_leaf [OF fs es(2,3) ne(1) sub(1) b0(2)] by blast
  obtain ch1 new where w1: "ext2fs_write_dir_block4 rdi m fs ch new_pblk c dir = (ch1, new, 0)" "dinv ch1" "V ch1 = (V ch)(new_pblk := new)"
    "length new = unat (fs_blocksize fs)" "tail_ok fs new" "dir_tiles fs new 0 (blk_end fs) En"
    using write_leaf [where rdi = rdi and dir = dir, OF d fs(1) n(4,3,2) rd] by blast
  obtain c2 Eo where o: "dx_move_dirents fs (take i s) buf new = (c2, 0)" "dir_tiles fs c2 0 (blk_end fs) Eo" "tail_ok fs c2"
    "length c2 = unat (fs_blocksize fs)" "dents_live Eo = map (dm_live buf) (take i s)"
    using pack_leaf [OF fs es(2,3) ne(2) sub(2) w1(4)] by blast
  obtain ch2 old where w2: "ext2fs_write_dir_block4 rdi m fs ch1 leaf_pblk c2 dir = (ch2, old, 0)" "dinv ch2" "V ch2 = (V ch1)(leaf_pblk := old)"
    "tail_ok fs old" "dir_tiles fs old 0 (blk_end fs) Eo"
    using write_leaf [where rdi = rdi and dir = dir, OF w1(2) d(2) fs(1) o(4,3,2) rd] by blast
  have "dx_split_leaf mem rdi m None before fs ch dir diri info buf leaf_pblk new_lblk new_pblk =
       Some (dx_insert_entry rdi m fs ch2 dir info (length (dx_frames info) - 1)
              (dm_hash (s ! i) + (if dm_hash (s ! i) = dm_hash (s ! (i - 1)) then 1 else 0)) new_lblk)"
    unfolding dx_split_leaf_def Let_def b0(1) ar es(1) using n(1) w1(1) o(1) w2(1) s(3)
    by (simp add: s(1) [symmetric] s(2) [symmetric])
  then show ?thesis
    by (rule that [OF _ w2(2) _ w1(6,5) w2(5,4) n(5) o(5)]) (simp add: w2(3) w1(3))
qed

end

end
