(* ===== verification/Dx_Theorems.thy ===== *)
theory Dx_Theorems
  imports Inode_Theorems Dx_split Dir_Theorems
begin

text \<open>
  Properties of indexed directories: the search in an index block finds the entry whose range has the hash,
  and the split of a leaf distributes its entries over two well-formed blocks in the order of their hashes.
\<close>

text \<open>
  C13. The binary search of an index block finds the last entry whose hash is not above the one looked for, or
  the first entry, which has no hash of its own, when there is none.
\<close>

theorem dx_search_correct:
  assumes "1 \<le> n" "\<And>i j. 1 \<le> i \<Longrightarrow> i \<le> j \<Longrightarrow> j < n \<Longrightarrow> dxe_hash buf e i \<le> dxe_hash buf e j"
  shows "dx_search_entry buf e (int n) hash < n
    \<and> (\<forall>i. 1 \<le> i \<and> i \<le> dx_search_entry buf e (int n) hash \<longrightarrow> dxe_hash buf e i \<le> hash)
    \<and> (\<forall>i. dx_search_entry buf e (int n) hash < i \<and> i < n \<longrightarrow> hash < dxe_hash buf e i)"
proof -
  let ?r = "dx_search_loop buf e hash 1 (int n - 1)"
  have r: "1 \<le> ?r \<and> ?r \<le> int n \<and> (\<forall>i. 1 \<le> i \<longrightarrow> int i < ?r \<longrightarrow> dxe_hash buf e i \<le> hash) \<and> (\<forall>i. ?r \<le> int i \<longrightarrow> int i < int n \<longrightarrow> hash < dxe_hash buf e i)"
    by (rule dx_search_loop) (use assms in auto)
  have "dx_search_entry buf e (int n) hash = nat (?r - 1)" by (simp add: dx_search_entry_def)
  then show ?thesis using r by auto
qed

theorem dx_search_correct_witness:
  "dx_search_entry (replicate 16 0 @ [7] @ replicate 7 0) 0 (int 3) 5 = 1
    \<and> dxe_hash (replicate 16 0 @ [7] @ replicate 7 0) 0 1 = 0 \<and> dxe_hash (replicate 16 0 @ [7] @ replicate 7 0) 0 2 = 7"
proof -
  define buf :: "u8 list" where "buf = replicate 16 0 @ [7] @ replicate 7 0"
  define r where "r = dx_search_entry buf 0 (int 3) 5"
  have h: "dxe_hash buf 0 1 = 0" "dxe_hash buf 0 2 = 7" unfolding buf_def by code_simp+
  have s: "dxe_hash buf 0 i \<le> dxe_hash buf 0 j" if "1 \<le> i" "i \<le> j" "j < 3" for i j
  proof -
    have "i = j \<or> i = 1 \<and> j = 2" using that by linarith
    then show ?thesis using h by auto
  qed
  note c = dx_search_correct [of 3 buf 0 5, OF _ s, folded r_def]
  have "r < 3" "2 \<le> r \<longrightarrow> dxe_hash buf 0 2 \<le> 5" "r < 1 \<longrightarrow> 5 < dxe_hash buf 0 1"
    using c by simp_all
  then have "r \<noteq> 0" "r \<noteq> 2" "r < 3" using h by auto
  then have "r = 1" by linarith
  then show ?thesis using h unfolding r_def buf_def by simp
qed

text \<open>
  C34. Splitting a leaf on a device and over an allocator that do not fail, when the point that the sizes of
  the entries choose lies inside the map (\<open>0 < i < length es\<close>): \<open>dx_split_leaf\<close> writes two well-formed blocks with their
  tails and no other block before it turns to the index; together they hold exactly the named entries in use of the
  leaf; the hash of the entry at the split point separates them; and the hash that goes into the index is that one, plus
  one when the old block has a name with the same hash. The guard matters: the code does not check it, and for \<open>i = 0\<close>
  (all entries move) it compares with the memory in front of its map and stretches over the old block the first entry
  of what it has just written to the new one, which then is in both; \<open>i = length es\<close> reads behind the map.
\<close>

theorem dx_split_partition:
  assumes "xnu_dev ops content (unat (fs_blocksize fs)) ch \<and> vnode_readable ops" "alloc_sized mem" "\<And>n. mem n \<noteq> None"
    and "blk_fs fs" "unat (fs_blocksize fs) mod 4 = 0" "length buf = unat (fs_blocksize fs)" "tail_ok fs buf"
    and "dir_tiles fs buf 0 (blk_end fs) E" "0 \<le> dx_hash_alg info" "dx_hash_alg info \<le> 5"
    and "ext2fs_has_feature_metadata_csum (fs_super fs) \<longrightarrow> (\<exists>inode. rdi dir = Inr inode)" "new_pblk \<noteq> leaf_pblk"
  shows "\<exists>es. dx_map_loop (\<lambda>name n. ext2fs_dirhash2 (dx_hash_alg info) name n None (i_flags diri AND EXT4_CASEFOLD_FL)
        (Some (s_hash_seed (fs_super fs)))) fs buf 0 [] = Some (Inr es)
    \<and> (let s = dx_sort_map es (length es); i = dx_split_scan (unat (fs_blocksize fs)) s (length es) 0;
           hash = (\<lambda>x. name_hash (dx_hash_alg info) (s_hash_seed (fs_super fs)) (snd (snd x)))
       in 0 < i \<and> i < length es \<longrightarrow>
       (\<exists>ch2 En Eo. dx_split_leaf mem rdi (xnu_io_manager ops) None before fs ch dir diri info buf leaf_pblk new_lblk new_pblk
           = Some (dx_insert_entry rdi (xnu_io_manager ops) fs ch2 dir info (length (dx_frames info) - 1)
               (dm_hash (s ! i) + (if \<exists>x \<in> set (dents_live Eo). hash x = dm_hash (s ! i) then 1 else 0)) new_lblk)
         \<and> dir_tiles fs (view content ch2 new_pblk) 0 (blk_end fs) En \<and> tail_ok fs (view content ch2 new_pblk)
         \<and> dir_tiles fs (view content ch2 leaf_pblk) 0 (blk_end fs) Eo \<and> tail_ok fs (view content ch2 leaf_pblk)
         \<and> (\<forall>b. b \<noteq> new_pblk \<and> b \<noteq> leaf_pblk \<longrightarrow> view content ch2 b = view content ch b)
         \<and> mset (dents_live Eo) + mset (dents_live En) = mset (named (dents_live E))
         \<and> (\<forall>x \<in> set (dents_live Eo). hash x \<le> dm_hash (s ! i)) \<and> (\<forall>y \<in> set (dents_live En). dm_hash (s ! i) \<le> hash y)))"
proof -
  define h where "h = name_hash (dx_hash_alg info) (s_hash_seed (fs_super fs))"
  have "\<exists>mh. ext2fs_dirhash2 (dx_hash_alg info) s n None (i_flags diri AND EXT4_CASEFOLD_FL) (Some (s_hash_seed (fs_super fs)))
      = Inr (h (take n s), mh)" if "n \<le> length s" for s n
    unfolding h_def using dirhash2_name_hash [OF assms(9,10) that] .
  from dx_map_loop [OF assms(4,6,7), of "\<lambda>s n. ext2fs_dirhash2 (dx_hash_alg info) s n None (i_flags diri AND EXT4_CASEFOLD_FL)
      (Some (s_hash_seed (fs_super fs)))" h, OF this assms(8), of "[]"]
  obtain es where es: "dx_map_loop (\<lambda>name n. ext2fs_dirhash2 (dx_hash_alg info) name n None (i_flags diri AND EXT4_CASEFOLD_FL)
        (Some (s_hash_seed (fs_super fs)))) fs buf 0 [] = Some (Inr es)"
    "dx_mapped h fs buf es" "map (dm_live buf) es = named (dents_live E)" "sum_list (map (dm_rec buf) es) \<le> blk_end fs" by auto
  define s where "s = dx_sort_map es (length es)"
  define i where "i = dx_split_scan (unat (fs_blocksize fs)) s (length es) 0"
  have main: "\<exists>ch2 En Eo. dx_split_leaf mem rdi (xnu_io_manager ops) None before fs ch dir diri info buf leaf_pblk new_lblk new_pblk
           = Some (dx_insert_entry rdi (xnu_io_manager ops) fs ch2 dir info (length (dx_frames info) - 1)
               (dm_hash (s ! i) + (if \<exists>x \<in> set (dents_live Eo). h (snd (snd x)) = dm_hash (s ! i) then 1 else 0)) new_lblk)
         \<and> dir_tiles fs (view content ch2 new_pblk) 0 (blk_end fs) En \<and> tail_ok fs (view content ch2 new_pblk)
         \<and> dir_tiles fs (view content ch2 leaf_pblk) 0 (blk_end fs) Eo \<and> tail_ok fs (view content ch2 leaf_pblk)
         \<and> (\<forall>b. b \<noteq> new_pblk \<and> b \<noteq> leaf_pblk \<longrightarrow> view content ch2 b = view content ch b)
         \<and> mset (dents_live Eo) + mset (dents_live En) = mset (named (dents_live E))
         \<and> (\<forall>x \<in> set (dents_live Eo). h (snd (snd x)) \<le> dm_hash (s ! i)) \<and> (\<forall>y \<in> set (dents_live En). dm_hash (s ! i) \<le> h (snd (snd y)))"
    if i: "0 < i" "i < length es"
  proof -
    note sh = sorted_halves [OF es(2) s_def i]
    obtain ch2 new old En Eo where r:
      "dx_split_leaf mem rdi (xnu_io_manager ops) None before fs ch dir diri info buf leaf_pblk new_lblk new_pblk =
       Some (dx_insert_entry rdi (xnu_io_manager ops) fs ch2 dir info (length (dx_frames info) - 1)
              (dm_hash (s ! i) + (if dm_hash (s ! i) = dm_hash (s ! (i - 1)) then 1 else 0)) new_lblk)"
      "view content ch2 = (view content ch)(new_pblk := new, leaf_pblk := old)"
      "dir_tiles fs new 0 (blk_end fs) En" "tail_ok fs new" "dir_tiles fs old 0 (blk_end fs) Eo" "tail_ok fs old"
      "dents_live En = map (dm_live buf) (drop i s)" "dents_live Eo = map (dm_live buf) (take i s)"
      by (rule xdev_total.split_leaf [where rdi = rdi and dir = dir and info = info and diri = diri, OF assms(1) refl assms(2,3,4-6,11) es(1,2,4) s_def i_def i])
    have v: "view content ch2 new_pblk = new" "view content ch2 leaf_pblk = old"
      "\<forall>b. b \<noteq> new_pblk \<and> b \<noteq> leaf_pblk \<longrightarrow> view content ch2 b = view content ch b" using r(2) assms(12) by auto
    have c: "(dm_hash (s ! i) = dm_hash (s ! (i - 1))) = (\<exists>x \<in> set (dents_live Eo). h (snd (snd x)) = dm_hash (s ! i))"
      unfolding r(8) by (rule sh(4))
    have p: "mset (dents_live Eo) + mset (dents_live En) = mset (named (dents_live E))"
      unfolding r(7,8) es(3) [symmetric] by (rule sh(1))
    have b: "\<forall>x \<in> set (dents_live Eo). h (snd (snd x)) \<le> dm_hash (s ! i)" "\<forall>y \<in> set (dents_live En). dm_hash (s ! i) \<le> h (snd (snd y))"
      unfolding r(7,8) using sh(2,3) by blast+
    show ?thesis
      by (rule exI [of _ ch2], rule exI [of _ En], rule exI [of _ Eo], unfold v(1,2), intro conjI r(1) [unfolded c] r(3-6) v(3) p b)
  qed
  show ?thesis
    by (rule exI [of _ es], rule conjI [OF es(1)], unfold Let_def s_def [symmetric] i_def [symmetric] h_def [symmetric],
        rule impI, elim conjE, rule main)
qed

text \<open>A leaf of 1 KB with the names \<open>a\<close> and \<open>b\<close>, each in an entry of half the block.\<close>

definition ex_leaf :: "u8 list" where
  "ex_leaf = [1, 0, 0, 0, 0, 2, 1, 1, 0x61] @ replicate 503 0 @ [2, 0, 0, 0, 0, 2, 1, 1, 0x62] @ replicate 503 0"

lemma ex_leaf_fields:
  "de_inode ex_leaf 0 = 1" "de_name_len ex_leaf 0 = 0x101" "de_rec_len ex_leaf 0 = 512"
  "de_inode ex_leaf 512 = 2" "de_name_len ex_leaf 512 = 0x101" "de_rec_len ex_leaf 512 = 512"
  by (simp_all add: de_defs get32_def get16_def ex_leaf_def nth_append nth_Cons')

lemma ex_leaf:
  "length ex_leaf = unat (fs_blocksize ex_fs)" "tail_ok ex_fs ex_leaf"
  "dir_tiles ex_fs ex_leaf 0 (blk_end ex_fs) [dent_at ex_fs ex_leaf 0, dent_at ex_fs ex_leaf 512]"
  "ext2fs_get_rec_len ex_fs ex_leaf 0 = 512" "ext2fs_get_rec_len ex_fs ex_leaf 512 = 512"
  "ext2fs_dirent_name_len ex_leaf 0 = 1" "ext2fs_dirent_name_len ex_leaf 512 = 1"
proof -
  show "length ex_leaf = unat (fs_blocksize ex_fs)" "tail_ok ex_fs ex_leaf" by (simp_all add: ex_leaf_def tail_ok_def ex_block(3))
  show r: "ext2fs_get_rec_len ex_fs ex_leaf 0 = 512" "ext2fs_get_rec_len ex_fs ex_leaf 512 = 512"
    by (simp_all add: ext2fs_get_rec_len_def ex_leaf_fields)
  show n: "ext2fs_dirent_name_len ex_leaf 0 = 1" "ext2fs_dirent_name_len ex_leaf 512 = 1"
    by (simp_all add: ext2fs_dirent_name_len_def ex_leaf_fields)
  show "dir_tiles ex_fs ex_leaf 0 (blk_end ex_fs) [dent_at ex_fs ex_leaf 0, dent_at ex_fs ex_leaf 512]"
    by (simp add: dir_tiles_cons_iff dir_tiles_nil_iff dent_ok_def r n ex_block(4))
qed


definition ex_info :: dx_lookup_info where
  "ex_info = \<lparr>dx_name = [0x63], dx_namelen = 1, dx_hash_alg = 2, dx_hash = 0,
     dx_frames = [\<lparr>fr_buf = ex_block, fr_pblock = 5, fr_head = 32, fr_at = 0\<rparr>]\<rparr>"

theorem dx_split_partition_witness:
  "\<exists>ch2 En Eo hash. dx_split_leaf ino_mem (\<lambda>_. Inr zero_inode) (xnu_io_manager mem_ops) None 0 ex_fs ino_ch 2 zero_inode ex_info
        ex_leaf 6 1 7
      = Some (dx_insert_entry (\<lambda>_. Inr zero_inode) (xnu_io_manager mem_ops) ex_fs ch2 2 ex_info 0 hash 1)
    \<and> dir_tiles ex_fs (view (\<lambda>d. d) ch2 7) 0 (blk_end ex_fs) En \<and> dir_tiles ex_fs (view (\<lambda>d. d) ch2 6) 0 (blk_end ex_fs) Eo
    \<and> mset (dents_live Eo) + mset (dents_live En) = mset (named (dents_live [dent_at ex_fs ex_leaf 0, dent_at ex_fs ex_leaf 512]))"
proof -
  let ?h = "\<lambda>name n. ext2fs_dirhash2 (dx_hash_alg ex_info) name n None (i_flags zero_inode AND EXT4_CASEFOLD_FL) (Some (s_hash_seed (fs_super ex_fs)))"
  have a: "0 \<le> dx_hash_alg ex_info" "dx_hash_alg ex_info \<le> 5" by (simp_all add: ex_info_def)
  have nl: "1 \<le> length (de_name ex_leaf 0)" "1 \<le> length (de_name ex_leaf 512)" using ex_leaf(1) by (simp_all add: de_name_def)
  obtain h1 m1 where h1: "?h (de_name ex_leaf 0) 1 = Inr (h1, m1)"
    using dirhash2_name_hash [OF a nl(1), of "i_flags zero_inode AND EXT4_CASEFOLD_FL" "s_hash_seed (fs_super ex_fs)"] by blast
  obtain h2 m2 where h2: "?h (de_name ex_leaf 512) 1 = Inr (h2, m2)"
    using dirhash2_name_hash [OF a nl(2), of "i_flags zero_inode AND EXT4_CASEFOLD_FL" "s_hash_seed (fs_super ex_fs)"] by blast
  define es where "es = [\<lparr>dm_hash = h1, dm_size = 512, dm_off = 0\<rparr>, \<lparr>dm_hash = h2, dm_size = 512, dm_off = 512\<rparr>]"
  define hh where "hh = ?h"
  have hs: "hh (de_name ex_leaf 0) (Suc 0) = Inr (h1, m1)" "hh (de_name ex_leaf 512) (Suc 0) = Inr (h2, m2)"
    unfolding hh_def using h1 h2 unfolding One_nat_def by blast+
  have l1: "dx_map_loop hh ex_fs ex_leaf 1024 es = Some (Inr es)" for es by (subst dx_map_loop.simps) simp
  have l2: "dx_map_loop hh ex_fs ex_leaf 512 es = Some (Inr (es @ [\<lparr>dm_hash = h2, dm_size = 512, dm_off = 512\<rparr>]))" for es
    by (subst dx_map_loop.simps) (simp add: ex_leaf ex_leaf_fields hs(2) l1 Let_def)
  have loop: "dx_map_loop hh ex_fs ex_leaf 0 [] = Some (Inr es)"
    by (subst dx_map_loop.simps) (simp add: ex_leaf ex_leaf_fields hs(1) l2 Let_def es_def)
  define s where "s = dx_sort_map es (length es)"
  define i where "i = dx_split_scan (unat (fs_blocksize ex_fs)) s (length es) 0"
  have so: "length s = 2" "set s = set es" using sort_map_all [OF s_def] by (simp_all add: es_def)
  have size: "dm_size (s ! k) = 512" if "k < 2" for k
  proof -
    have "s ! k \<in> set es" using nth_mem [of k s] so that by simp
    then show ?thesis unfolding es_def by auto
  qed
  have l: "length es = 2" by (simp add: es_def)
  have b: "unat (fs_blocksize ex_fs) = 1024" by simp
  have sc: "dx_split_scan 1024 s (Suc (Suc 0)) 0 = 1" using size [of 0] size [of 1] by simp
  have "i = 1" unfolding i_def l b numeral_2_eq_2 by (rule sc)
  then have i: "0 < i \<and> i < length es" using l by simp
  have p: "xnu_dev mem_ops (\<lambda>d. d) (unat (fs_blocksize ex_fs)) ino_ch \<and> vnode_readable mem_ops" "unat (fs_blocksize ex_fs) mod 4 = 0"
    "\<And>n. ino_mem n \<noteq> None" "ext2fs_has_feature_metadata_csum (fs_super ex_fs) \<longrightarrow> (\<exists>inode. Inr zero_inode = (Inr inode :: errcode + ext2_inode))"
    "(7 :: u64) \<noteq> 6" using ino_dev ino_mem_total by (simp_all add: alloc_total_def)
  obtain es' where es': "dx_map_loop hh ex_fs ex_leaf 0 [] = Some (Inr es')"
    and r: "let s = dx_sort_map es' (length es'); i = dx_split_scan (unat (fs_blocksize ex_fs)) s (length es') 0;
           hash = (\<lambda>x. name_hash (dx_hash_alg ex_info) (s_hash_seed (fs_super ex_fs)) (snd (snd x)))
       in 0 < i \<and> i < length es' \<longrightarrow>
       (\<exists>ch2 En Eo. dx_split_leaf ino_mem (\<lambda>_. Inr zero_inode) (xnu_io_manager mem_ops) None 0 ex_fs ino_ch 2 zero_inode ex_info ex_leaf 6 1 7
           = Some (dx_insert_entry (\<lambda>_. Inr zero_inode) (xnu_io_manager mem_ops) ex_fs ch2 2 ex_info (length (dx_frames ex_info) - 1)
               (dm_hash (s ! i) + (if \<exists>x \<in> set (dents_live Eo). hash x = dm_hash (s ! i) then 1 else 0)) 1)
         \<and> dir_tiles ex_fs (view (\<lambda>d. d) ch2 7) 0 (blk_end ex_fs) En \<and> tail_ok ex_fs (view (\<lambda>d. d) ch2 7)
         \<and> dir_tiles ex_fs (view (\<lambda>d. d) ch2 6) 0 (blk_end ex_fs) Eo \<and> tail_ok ex_fs (view (\<lambda>d. d) ch2 6)
         \<and> (\<forall>b. b \<noteq> 7 \<and> b \<noteq> 6 \<longrightarrow> view (\<lambda>d. d) ch2 b = view (\<lambda>d. d) ino_ch b)
         \<and> mset (dents_live Eo) + mset (dents_live En) = mset (named (dents_live [dent_at ex_fs ex_leaf 0, dent_at ex_fs ex_leaf 512]))
         \<and> (\<forall>x \<in> set (dents_live Eo). hash x \<le> dm_hash (s ! i)) \<and> (\<forall>y \<in> set (dents_live En). dm_hash (s ! i) \<le> hash y))"
    unfolding hh_def
    using dx_split_partition [where rdi = "\<lambda>_. Inr zero_inode" and dir = 2 and info = ex_info and diri = zero_inode and before = 0 and new_lblk = 1,
        OF p(1) ino_mem_total(2) p(3) ex_block(1) p(2) ex_leaf(1-3) a p(4,5)] by iprover
  have "es' = es" using es' loop by simp
  note r = mp [OF r [unfolded this Let_def s_def [symmetric] i_def [symmetric]] i]
  have f: "length (dx_frames ex_info) - 1 = 0" by (simp add: ex_info_def)
  show ?thesis using r unfolding f by iprover
qed

end
