(* ===== verification/Bmap.thy ===== *)
theory Bmap
  imports Inode_io Iblock
begin

text \<open>
  \<^verbatim>\<open>libext2fs/ind_block.c\<close> and the part of \<^verbatim>\<open>libext2fs/bmap.c\<close> that maps the blocks of an inode without extents:
  twelve direct blocks, and trees of one, two and three levels of indirect blocks. An indirect block is the
  bytes on the device; block numbers in it are 32 bits wide. \<open>zb\<close> is the static buffer of zeros of the
  allocation.
\<close>

abbreviation (input) EXT2_ET_SET_BMAP_NO_IND :: errcode where "EXT2_ET_SET_BMAP_NO_IND \<equiv> 2133571423"
abbreviation (input) EXT2_ET_INLINE_DATA_NO_BLOCK :: errcode where "EXT2_ET_INLINE_DATA_NO_BLOCK \<equiv> 2133571494"

abbreviation (input) BMAP_ALLOC :: u32 where "BMAP_ALLOC \<equiv> 1"
abbreviation (input) BMAP_SET :: u32 where "BMAP_SET \<equiv> 2"
abbreviation (input) BMAP_ZERO :: u32 where "BMAP_ZERO \<equiv> 8"
abbreviation (input) EXT4_EXTENTS_FL :: u32 where "EXT4_EXTENTS_FL \<equiv> 0x80000"

section \<open>Indirect blocks\<close>

text \<open>A block number is passed to the 32-bit operations of the manager.\<close>

definition io_channel_read_blk :: "('d io_channel) io_manager \<Rightarrow> 'd io_channel \<Rightarrow> u32 \<Rightarrow> int \<Rightarrow> 'd io_channel \<times> u8 list \<times> errcode" where
  "io_channel_read_blk m ch block n = m_read_blk m ch (ucast block) n"

definition io_channel_write_blk :: "('d io_channel) io_manager \<Rightarrow> 'd io_channel \<Rightarrow> u32 \<Rightarrow> int \<Rightarrow> u8 list \<Rightarrow> 'd io_channel \<times> errcode" where
  "io_channel_write_blk m ch block n buf = m_write_blk m ch (ucast block) n buf"

definition ext2fs_read_ind_block ::
  "('d io_channel) io_manager \<Rightarrow> ('d, 'a) ext2_handle_scheme \<Rightarrow> u32 \<Rightarrow> u8 list \<Rightarrow> ('d, 'a) ext2_handle_scheme \<times> u8 list \<times> errcode" where
  "ext2fs_read_ind_block m fs blk buf =
     (if from_image fs then (fs, memset buf 0 0 (unat (fs_blocksize fs)), 0)
      else case io_channel_read_blk m (fs_io fs) blk 1 of
             (io, b, retval) \<Rightarrow> (fs\<lparr>fs_io := io\<rparr>, memcpy_at buf 0 b (length b), retval))"

definition ext2fs_write_ind_block ::
  "('d io_channel) io_manager \<Rightarrow> ('d, 'a) ext2_handle_scheme \<Rightarrow> u32 \<Rightarrow> u8 list \<Rightarrow> ('d, 'a) ext2_handle_scheme \<times> errcode" where
  "ext2fs_write_ind_block m fs blk buf =
     (if fs_flags fs AND EXT2_FLAG_IMAGE_FILE \<noteq> 0 then (fs, 0)
      else case io_channel_write_blk m (fs_io fs) blk 1 buf of (io, retval) \<Rightarrow> (fs\<lparr>fs_io := io\<rparr>, retval))"

section \<open>Allocation over the handle\<close>

definition handle_alloc ::
  "allocator \<Rightarrow> ('d io_channel) io_manager \<Rightarrow> ('d, 'a) ext2_handle_scheme \<Rightarrow> zero_buf \<Rightarrow> u64 \<Rightarrow> bool
   \<Rightarrow> (('d, 'a) ext2_handle_scheme \<times> zero_buf \<times> (errcode + u64)) option" where
  "handle_alloc mem m fs zb goal buf =
     map_option (\<lambda>(fs, zb, io, r). (fs\<lparr>fs_io := io\<rparr>, zb, r)) (ext2fs_alloc_block3 mem m fs zb (fs_io fs) goal buf)"

definition ext2fs_alloc_block ::
  "allocator \<Rightarrow> ('d io_channel) io_manager \<Rightarrow> ('d, 'a) ext2_handle_scheme \<Rightarrow> zero_buf \<Rightarrow> u32 \<Rightarrow> bool
   \<Rightarrow> (('d, 'a) ext2_handle_scheme \<times> zero_buf \<times> (errcode + u32)) option" where
  "ext2fs_alloc_block mem m fs zb goal buf =
     map_option (\<lambda>(fs, zb, r). (fs, zb, map_sum id ucast r)) (handle_alloc mem m fs zb (ucast goal) buf)"

definition ext2fs_is_fast_symlink :: "ext2_inode \<Rightarrow> bool" where
  "ext2fs_is_fast_symlink inode \<longleftrightarrow> LINUX_S_ISLNK (i_mode inode) \<and> EXT2_I_SIZE inode \<noteq> 0 \<and> EXT2_I_SIZE inode < 60"

text \<open>\<open>ext2fs_find_inode_goal\<close> for an inode without extents.\<close>

definition find_inode_goal :: "'a fs_base_scheme \<Rightarrow> u32 \<Rightarrow> ext2_inode \<Rightarrow> u64" where
  "find_inode_goal fs ino inode =
     (if \<not> ext2fs_is_fast_symlink inode \<and> i_flags inode AND EXT4_INLINE_DATA_FL = 0 \<and> i_block inode ! 0 \<noteq> 0
      then ucast (i_block inode ! 0)
      else let log_flex = s_log_groups_per_flex (fs_super fs);
               grp = ext2fs_group_of_ino fs ino;
               grp = (if log_flex \<noteq> 0 then grp AND NOT (push_bit (unat log_flex) 1 - 1) else grp)
           in ext2fs_group_first_block2 fs grp)"

section \<open>The trees of indirect blocks\<close>

definition addr_per_block :: "'a fs_base_scheme \<Rightarrow> u32" where
  "addr_per_block fs = drop_bit 2 (fs_blocksize fs)"

text \<open>
  The result of a level: the handle, how many blocks were allocated, the block number and the error code.
\<close>

definition block_ind_bmap ::
  "allocator \<Rightarrow> ('d io_channel) io_manager \<Rightarrow> u32 \<Rightarrow> u32 \<Rightarrow> u32 \<Rightarrow> ('d, 'a) ext2_handle_scheme \<Rightarrow> zero_buf \<Rightarrow> u32
   \<Rightarrow> (('d, 'a) ext2_handle_scheme \<times> zero_buf \<times> nat \<times> u32 \<times> errcode) option" where
  "block_ind_bmap mem m flags ind nr fs zb ret_blk =
     (if ind = 0 then
        (if flags AND BMAP_SET \<noteq> 0 then Some (fs, zb, 0, ret_blk, EXT2_ET_SET_BMAP_NO_IND) else Some (fs, zb, 0, 0, 0))
      else case io_channel_read_blk m (fs_io fs) ind 1 of
             (io, buf, retval) \<Rightarrow>
               let fs = fs\<lparr>fs_io := io\<rparr>
               in if retval \<noteq> 0 then Some (fs, zb, 0, ret_blk, retval)
                  else if flags AND BMAP_SET \<noteq> 0 then
                    (case io_channel_write_blk m io ind 1 (put32 buf (4 * unat nr) ret_blk) of
                       (io, retval) \<Rightarrow> Some (fs\<lparr>fs_io := io\<rparr>, zb, 0, ret_blk, retval))
                  else let b = get32 buf (4 * unat nr)
                       in if b = 0 \<and> flags AND BMAP_ALLOC \<noteq> 0 then
                            let goal = (if nr \<noteq> 0 then get32 buf (4 * unat (nr - 1)) else ind)
                            in case ext2fs_alloc_block mem m fs zb goal True of
                                 None \<Rightarrow> None
                               | Some (fs, zb, Inl retval) \<Rightarrow> Some (fs, zb, 0, ret_blk, retval)
                               | Some (fs, zb, Inr b) \<Rightarrow>
                                   (case io_channel_write_blk m (fs_io fs) ind 1 (put32 buf (4 * unat nr) b) of
                                      (io, retval) \<Rightarrow>
                                        let fs = fs\<lparr>fs_io := io\<rparr>
                                        in if retval \<noteq> 0 then Some (fs, zb, 0, ret_blk, retval)
                                           else Some (fs, zb, 1, b, 0))
                          else Some (fs, zb, 0, b, 0))"

text \<open>A level above: the first step never sets, and the numbers of allocated blocks add up.\<close>

definition block_dind_bmap ::
  "allocator \<Rightarrow> ('d io_channel) io_manager \<Rightarrow> u32 \<Rightarrow> u32 \<Rightarrow> u32 \<Rightarrow> ('d, 'a) ext2_handle_scheme \<Rightarrow> zero_buf \<Rightarrow> u32
   \<Rightarrow> (('d, 'a) ext2_handle_scheme \<times> zero_buf \<times> nat \<times> u32 \<times> errcode) option" where
  "block_dind_bmap mem m flags dind nr fs zb ret_blk =
     (case block_ind_bmap mem m (flags AND NOT BMAP_SET) dind (nr div addr_per_block fs) fs zb 0 of
        None \<Rightarrow> None
      | Some (fs1, zb, n, b, retval) \<Rightarrow>
          if retval \<noteq> 0 then Some (fs1, zb, n, ret_blk, retval)
          else map_option (\<lambda>(fs, zb, k, b, retval). (fs, zb, n + k, b, retval))
                 (block_ind_bmap mem m flags b (nr mod addr_per_block fs) fs1 zb ret_blk))"

definition block_tind_bmap ::
  "allocator \<Rightarrow> ('d io_channel) io_manager \<Rightarrow> u32 \<Rightarrow> u32 \<Rightarrow> u32 \<Rightarrow> ('d, 'a) ext2_handle_scheme \<Rightarrow> zero_buf \<Rightarrow> u32
   \<Rightarrow> (('d, 'a) ext2_handle_scheme \<times> zero_buf \<times> nat \<times> u32 \<times> errcode) option" where
  "block_tind_bmap mem m flags tind nr fs zb ret_blk =
     (case block_dind_bmap mem m (flags AND NOT BMAP_SET) tind (nr div addr_per_block fs) fs zb 0 of
        None \<Rightarrow> None
      | Some (fs1, zb, n, b, retval) \<Rightarrow>
          if retval \<noteq> 0 then Some (fs1, zb, n, ret_blk, retval)
          else map_option (\<lambda>(fs, zb, k, b, retval). (fs, zb, n + k, b, retval))
                 (block_ind_bmap mem m flags b (nr mod addr_per_block fs) fs1 zb ret_blk))"

section \<open>The map of an inode\<close>

definition ext2fs_file_block_offset_too_big :: "'a fs_base_scheme \<Rightarrow> ext2_inode \<Rightarrow> u64 \<Rightarrow> bool" where
  "ext2fs_file_block_offset_too_big fs inode offset =
     (if offset \<ge> 0xFFFFFFFF then True
      else if i_flags inode AND EXT4_EXTENTS_FL \<noteq> 0 then False
      else let a = ucast (addr_per_block fs) :: u64
           in offset \<ge> a + a * a + a * a * a + 12)"

text \<open>
  The root of a tree, the pointer \<open>k\<close> of the inode, which is allocated behind its predecessor when it is
  missing. \<open>Inl\<close> ends the call with an error code (or success, with nothing mapped).
\<close>

definition ind_root ::
  "allocator \<Rightarrow> ('d io_channel) io_manager \<Rightarrow> u32 \<Rightarrow> nat \<Rightarrow> ext2_inode \<Rightarrow> ('d, 'a) ext2_handle_scheme \<Rightarrow> zero_buf
   \<Rightarrow> (('d, 'a) ext2_handle_scheme \<times> zero_buf \<times> ext2_inode \<times> nat \<times> (errcode + u32)) option" where
  "ind_root mem m flags k inode fs zb =
     (let b = i_block inode ! k
      in if b \<noteq> 0 then Some (fs, zb, inode, 0, Inr b)
         else if flags AND BMAP_ALLOC = 0
              then Some (fs, zb, inode, 0, Inl (if flags AND BMAP_SET \<noteq> 0 then EXT2_ET_SET_BMAP_NO_IND else 0))
              else case handle_alloc mem m fs zb (ucast (i_block inode ! (k - 1))) True of
                     None \<Rightarrow> None
                   | Some (fs, zb, Inl retval) \<Rightarrow> Some (fs, zb, inode, 0, Inl retval)
                   | Some (fs, zb, Inr b) \<Rightarrow>
                       Some (fs, zb, inode\<lparr>i_block := (i_block inode)[k := ucast b]\<rparr>, 1, Inr (ucast b)))"

text \<open>The direct blocks. The last two results are the number of allocated blocks and whether the inode was changed by a set.\<close>

definition bmap_direct ::
  "allocator \<Rightarrow> ('d io_channel) io_manager \<Rightarrow> u32 \<Rightarrow> u32 \<Rightarrow> nat \<Rightarrow> ext2_inode \<Rightarrow> ('d, 'a) ext2_handle_scheme \<Rightarrow> zero_buf \<Rightarrow> u64
   \<Rightarrow> (('d, 'a) ext2_handle_scheme \<times> zero_buf \<times> ext2_inode \<times> u64 \<times> errcode \<times> nat \<times> bool) option" where
  "bmap_direct mem m ino flags block inode fs zb phys =
     (if flags AND BMAP_SET \<noteq> 0
      then Some (fs, zb, inode\<lparr>i_block := (i_block inode)[block := ucast phys]\<rparr>, phys, 0, 0, True)
      else let phys = ucast (i_block inode ! block);
               goal = (if block \<noteq> 0 then ucast (i_block inode ! (block - 1)) else ucast (ucast (find_inode_goal fs ino inode) :: u32))
           in if phys = 0 \<and> flags AND BMAP_ALLOC \<noteq> 0 then
                (case handle_alloc mem m fs zb goal True of
                   None \<Rightarrow> None
                 | Some (fs, zb, Inl retval) \<Rightarrow> Some (fs, zb, inode, phys, retval, 0, False)
                 | Some (fs, zb, Inr b) \<Rightarrow>
                     Some (fs, zb, inode\<lparr>i_block := (i_block inode)[block := ucast b]\<rparr>, ucast (ucast b :: u32), 0, 1, False))
              else Some (fs, zb, inode, phys, 0, 0, False))"

text \<open>One of the three trees, from the root \<open>k\<close> with the function of its depth.\<close>

definition bmap_tree ::
  "allocator \<Rightarrow> ('d io_channel) io_manager \<Rightarrow> u32 \<Rightarrow> nat \<Rightarrow>
   (u32 \<Rightarrow> ('d, 'a) ext2_handle_scheme \<Rightarrow> zero_buf \<Rightarrow> (('d, 'a) ext2_handle_scheme \<times> zero_buf \<times> nat \<times> u32 \<times> errcode) option)
   \<Rightarrow> ext2_inode \<Rightarrow> ('d, 'a) ext2_handle_scheme \<Rightarrow> zero_buf \<Rightarrow> u64
   \<Rightarrow> (('d, 'a) ext2_handle_scheme \<times> zero_buf \<times> ext2_inode \<times> u64 \<times> errcode \<times> nat \<times> bool) option" where
  "bmap_tree mem m flags k level inode fs zb phys =
     (case ind_root mem m flags k inode fs zb of
        None \<Rightarrow> None
      | Some (fs, zb, inode, n, Inl retval) \<Rightarrow> Some (fs, zb, inode, phys, retval, n, False)
      | Some (fs, zb, inode, n, Inr b) \<Rightarrow>
          map_option (\<lambda>(fs, zb, j, b, retval). (fs, zb, inode, if retval = 0 then ucast b else phys, retval, n + j, False))
            (level b fs zb))"

definition bmap_blocks ::
  "allocator \<Rightarrow> ('d io_channel) io_manager \<Rightarrow> u32 \<Rightarrow> u32 \<Rightarrow> u64 \<Rightarrow> ext2_inode \<Rightarrow> ('d, 'a) ext2_handle_scheme \<Rightarrow> zero_buf \<Rightarrow> u64
   \<Rightarrow> (('d, 'a) ext2_handle_scheme \<times> zero_buf \<times> ext2_inode \<times> u64 \<times> errcode \<times> nat \<times> bool) option" where
  "bmap_blocks mem m ino flags block inode fs zb phys =
     (let a = ucast (addr_per_block fs) :: u64;
          aa = ucast (addr_per_block fs * addr_per_block fs) :: u64
      in if block < 12 then bmap_direct mem m ino flags (unat block) inode fs zb phys
         else if block - 12 < a
              then bmap_tree mem m flags 12 (\<lambda>b fs zb. block_ind_bmap mem m flags b (ucast (block - 12)) fs zb (ucast phys))
                     inode fs zb phys
         else if block - 12 - a < aa
              then bmap_tree mem m flags 13 (\<lambda>b fs zb. block_dind_bmap mem m flags b (ucast (block - 12 - a)) fs zb (ucast phys))
                     inode fs zb phys
         else bmap_tree mem m flags 14
                (\<lambda>b fs zb. block_tind_bmap mem m flags b (ucast (block - 12 - a - aa)) fs zb (ucast phys)) inode fs zb phys)"

text \<open>The end of the call: the block is cleared when that was asked for, and a changed inode is written.\<close>

definition bmap_done ::
  "allocator \<Rightarrow> ('d io_channel) io_manager \<Rightarrow> u32 \<Rightarrow> u32 \<Rightarrow> ('d, 'a) ext2_handle_scheme \<times> zero_buf \<times> ext2_inode \<times> u64 \<times> errcode \<times> nat \<times> bool
   \<Rightarrow> (('d, 'a) ext2_handle_scheme \<times> zero_buf \<times> ext2_inode \<times> u64 \<times> errcode) option" where
  "bmap_done mem m ino flags r =
     (case r of (fs, zb, inode, phys, retval, blocks_alloc, inode_dirty) \<Rightarrow>
        case (if phys \<noteq> 0 \<and> retval = 0 \<and> flags AND BMAP_ZERO \<noteq> 0
              then map_option (\<lambda>(zb, io, retval). (fs\<lparr>fs_io := io\<rparr>, zb, retval))
                     (ext2fs_zero_blocks2 mem m fs zb (fs_io fs) phys 1)
              else Some (fs, zb, retval)) of
          None \<Rightarrow> None
        | Some (fs, zb, retval) \<Rightarrow>
            if retval = 0 \<and> (blocks_alloc \<noteq> 0 \<or> inode_dirty) then
              let inode = fst (ext2fs_iblk_add_blocks fs inode (of_nat blocks_alloc))
              in map_option (\<lambda>(fs, retval). (fs, zb, inode, phys, retval)) (ext2fs_write_inode mem m fs ino inode)
            else Some (fs, zb, inode, phys, retval))"

text \<open>
  \<open>ext2fs_bmap2\<close> for an inode without extents. \<open>inode\<close> is \<open>None\<close> for a null pointer; \<open>has_buf\<close> tells whether
  the caller passes a buffer.
\<close>

definition bmap2_block_mapped ::
  "allocator \<Rightarrow> ('d io_channel) io_manager \<Rightarrow> ('d, 'a) ext2_handle_scheme \<Rightarrow> zero_buf \<Rightarrow> u32 \<Rightarrow> ext2_inode option \<Rightarrow> bool \<Rightarrow> u32 \<Rightarrow> u64 \<Rightarrow> u64
   \<Rightarrow> (('d, 'a) ext2_handle_scheme \<times> zero_buf \<times> ext2_inode \<times> u64 \<times> errcode) option" where
  "bmap2_block_mapped mem m fs zb ino inode has_buf flags block phys =
     (let phys = (if flags AND BMAP_SET = 0 then 0 else phys)
      in case (case inode of
                 Some i \<Rightarrow> Some (fs, i, 0)
               | None \<Rightarrow> ext2fs_read_inode mem m fs ino (inode_of (replicate 128 0))) of
           None \<Rightarrow> None
         | Some (fs, inode, retval) \<Rightarrow>
             if retval \<noteq> 0 then Some (fs, zb, inode, phys, retval)
             else if ext2fs_file_block_offset_too_big fs inode block then Some (fs, zb, inode, phys, EXT2_ET_FILE_TOO_BIG)
             else if i_flags inode AND EXT4_INLINE_DATA_FL \<noteq> 0 then Some (fs, zb, inode, phys, EXT2_ET_INLINE_DATA_NO_BLOCK)
             else if \<not> has_buf \<and> mem (2 * unat (fs_blocksize fs)) = None then Some (fs, zb, inode, phys, EXT2_ET_NO_MEMORY)
             else case bmap_blocks mem m ino flags block inode fs zb phys of
                    None \<Rightarrow> None
                  | Some r \<Rightarrow> bmap_done mem m ino flags r)"

text \<open>\<open>ext2fs_bmap\<close>: a block number that needs more than 32 bits is an error, after everything was done.\<close>

definition bmap_block_mapped ::
  "allocator \<Rightarrow> ('d io_channel) io_manager \<Rightarrow> ('d, 'a) ext2_handle_scheme \<Rightarrow> zero_buf \<Rightarrow> u32 \<Rightarrow> ext2_inode option \<Rightarrow> bool \<Rightarrow> u32 \<Rightarrow> u32 \<Rightarrow> u32
   \<Rightarrow> (('d, 'a) ext2_handle_scheme \<times> zero_buf \<times> ext2_inode \<times> u32 \<times> errcode) option" where
  "bmap_block_mapped mem m fs zb ino inode has_buf flags block phys =
     map_option (\<lambda>(fs, zb, inode, p, retval).
         if retval \<noteq> 0 then (fs, zb, inode, phys, retval)
         else if p \<ge> 0x100000000 then (fs, zb, inode, phys, EOVERFLOW)
         else (fs, zb, inode, ucast p, 0))
       (bmap2_block_mapped mem m fs zb ino inode has_buf flags (ucast block) (ucast phys))"

end
