(* ===== verification/Bmap_tree.thy ===== *)
theory Bmap_tree
  imports Bmap Inode_total
begin

text \<open>
  The block map of an inode as a lookup along a path: \<open>bmap_path\<close> is the root and the indices that a block number
  is split into, \<open>ind_walk\<close> follows them through the indirect blocks on the device. The lemmas say that the
  code of each level is that walk, and that setting an entry changes the walk along its own path only.
\<close>

section \<open>The walk\<close>

definition ind_entry :: "(u64 \<Rightarrow> u8 list) \<Rightarrow> u32 \<Rightarrow> nat \<Rightarrow> u32" where
  "ind_entry v b i = (if b = 0 then 0 else get32 (v (ucast b)) (4 * i))"

fun ind_walk :: "(u64 \<Rightarrow> u8 list) \<Rightarrow> u32 \<Rightarrow> nat list \<Rightarrow> u32" where
  "ind_walk v b [] = b"
| "ind_walk v b (i # is) = ind_walk v (ind_entry v b i) is"

definition bmap_path :: "nat \<Rightarrow> nat \<Rightarrow> nat \<times> nat list" where
  "bmap_path a n =
     (if n < 12 then (n, [])
      else if n - 12 < a then (12, [n - 12])
      else if n - 12 - a < a * a then (13, [(n - 12 - a) div a, (n - 12 - a) mod a])
      else (14, [(n - 12 - a - a * a) div a div a, (n - 12 - a - a * a) div a mod a, (n - 12 - a - a * a) mod a]))"

definition bmap_lookup :: "(u64 \<Rightarrow> u8 list) \<Rightarrow> nat \<Rightarrow> ext2_inode \<Rightarrow> nat \<Rightarrow> u32" where
  "bmap_lookup v a inode n = (case bmap_path a n of (r, is) \<Rightarrow> ind_walk v (i_block inode ! r) is)"

lemma ind_walk_append: "ind_walk v b (is @ js) = ind_walk v (ind_walk v b is) js"
  by (induction "is" arbitrary: b) auto

lemma ind_walk_0 [simp]: "ind_walk v 0 is = 0"
  by (induction "is") (auto simp: ind_entry_def)

section \<open>One changed entry\<close>

text \<open>A node is a root and a path to an indirect block; no two nodes share their block.\<close>

definition tree_node :: "nat \<Rightarrow> nat \<times> nat list \<Rightarrow> bool" where
  "tree_node a p \<longleftrightarrow> fst p \<in> {12, 13, 14} \<and> length (snd p) < fst p - 11 \<and> (\<forall>i \<in> set (snd p). i < a)"

definition node_block :: "(u64 \<Rightarrow> u8 list) \<Rightarrow> ext2_inode \<Rightarrow> nat \<times> nat list \<Rightarrow> u32" where
  "node_block v inode p = ind_walk v (i_block inode ! fst p) (snd p)"

text \<open>The node whose block holds the pointer to the block \<open>n\<close>.\<close>

definition ind_of :: "nat \<Rightarrow> nat \<Rightarrow> nat \<times> nat list" where
  "ind_of a n = (fst (bmap_path a n), butlast (snd (bmap_path a n)))"

definition tree_ok :: "(u64 \<Rightarrow> u8 list) \<Rightarrow> nat \<Rightarrow> ext2_inode \<Rightarrow> bool" where
  "tree_ok v a inode \<longleftrightarrow> (\<forall>p q. tree_node a p \<and> tree_node a q \<and> node_block v inode p = node_block v inode q
     \<and> node_block v inode p \<noteq> 0 \<longrightarrow> p = q)"

lemma get32_put32_word:
  assumes "4 * i + 3 < length b" "4 * j + 3 < length b"
  shows "get32 (put32 b (4 * i) x) (4 * j) = (if i = j then x else get32 b (4 * j))"
proof (cases "i = j")
  case False
  then have "4 * j + 3 < 4 * i \<or> 4 * i + 3 < 4 * j" by linarith
  then show ?thesis using assms False by (auto simp: get32_def get16_def nth_put32_other)
qed (use assms in \<open>simp add: get32_put32\<close>)

lemma bmap_path_split:
  assumes "0 < a" "n < 12 + a + a * a + a * a * a" "12 \<le> n"
  shows "\<exists>r is i. bmap_path a n = (r, is @ [i]) \<and> tree_node a (r, is) \<and> length is = r - 12 \<and> i < a"
proof -
  consider "n - 12 < a" | "\<not> n - 12 < a" "n - 12 - a < a * a" | "\<not> n - 12 < a" "\<not> n - 12 - a < a * a" by blast
  then show ?thesis
  proof cases
    case 1
    then show ?thesis using assms by (auto simp: bmap_path_def tree_node_def)
  next
    case 2
    then have "(n - 12 - a) div a < a" by (simp add: less_mult_imp_div_less)
    then have f: "bmap_path a n = (13, [(n - 12 - a) div a] @ [(n - 12 - a) mod a])" "tree_node a (13, [(n - 12 - a) div a])"
      using 2 assms by (simp_all add: bmap_path_def tree_node_def)
    show ?thesis
      by (rule exI [of _ 13], rule exI [of _ "[(n - 12 - a) div a]"], rule exI [of _ "(n - 12 - a) mod a"], use f assms(1) in simp)
  next
    case 3
    define j where "j = n - 12 - a - a * a"
    have "j < a * a * a" using 3 assms by (simp add: j_def)
    then have "j div a < a * a" by (simp add: less_mult_imp_div_less)
    then have "j div a div a < a" by (simp add: less_mult_imp_div_less)
    then have f: "bmap_path a n = (14, [j div a div a, j div a mod a] @ [j mod a])" "tree_node a (14, [j div a div a, j div a mod a])"
      using 3 assms by (simp_all add: bmap_path_def tree_node_def j_def)
    show ?thesis
      by (rule exI [of _ 14], rule exI [of _ "[j div a div a, j div a mod a]"], rule exI [of _ "j mod a"], use f assms(1) in simp)
  qed
qed

fun path_number :: "nat \<Rightarrow> nat \<times> nat list \<Rightarrow> nat" where
  "path_number a (r, []) = r"
| "path_number a (r, [i]) = 12 + i"
| "path_number a (r, [i, j]) = 12 + a + (i * a + j)"
| "path_number a (r, i # j # k # _) = 12 + a + a * a + ((i * a + j) * a + k)"

lemma path_number: "path_number a (bmap_path a n) = n"
  by (auto simp: bmap_path_def)

lemma bmap_path_inj: "bmap_path a n = bmap_path a k \<Longrightarrow> n = k"
  by (metis path_number)


lemma ucast_up_inj: "ucast (c :: u32) = (ucast b :: u64) \<Longrightarrow> c = b"
  by (metis unat_ucast32_64 unsigned_word_eqI)

lemma ind_entry_upd:
  assumes "length (v (ucast b)) = bs" "4 * i + 3 < bs" "4 * j + 3 < bs" "b \<noteq> 0"
  shows "ind_entry (v(ucast b := put32 (v (ucast b)) (4 * i) x)) c j = (if c = b \<and> i = j then x else ind_entry v c j)"
proof -
  have "(ucast c :: u64) = ucast b \<longleftrightarrow> c = b" by (metis ucast_up_inj)
  then show ?thesis using assms by (auto simp: ind_entry_def get32_put32_word)
qed

text \<open>An entry of an indirect block of the lowest level is set.\<close>

definition leaf_set ::
  "(u64 \<Rightarrow> u8 list) \<Rightarrow> nat \<Rightarrow> ext2_inode \<Rightarrow> nat \<Rightarrow> nat list \<Rightarrow> nat \<Rightarrow> u32 \<Rightarrow> (u64 \<Rightarrow> u8 list) \<Rightarrow> bool" where
  "leaf_set v a inode r is i x v' \<longleftrightarrow>
     (let b = node_block v inode (r, is)
      in tree_ok v a inode \<and> tree_node a (r, is) \<and> length is = r - 12 \<and> i < a \<and> b \<noteq> 0
         \<and> 4 * a \<le> length (v (ucast b)) \<and> v' = v(ucast b := put32 (v (ucast b)) (4 * i) x))"

lemma tree_okD:
  "tree_ok v a inode \<Longrightarrow> tree_node a p \<Longrightarrow> tree_node a q \<Longrightarrow> node_block v inode p = node_block v inode q \<Longrightarrow>
    node_block v inode p \<noteq> 0 \<Longrightarrow> p = q"
  unfolding tree_ok_def by blast

lemma node_entry:
  assumes l: "leaf_set v a inode r is i x v'" and n: "tree_node a (q, js)" "j < a"
  shows "ind_entry v' (node_block v inode (q, js)) j =
    (if (q, js @ [j]) = (r, is @ [i]) then x else ind_entry v (node_block v inode (q, js)) j)"
proof -
  define b where "b = node_block v inode (r, is)"
  have f: "tree_ok v a inode" "tree_node a (r, is)" "i < a" "b \<noteq> 0" "4 * a \<le> length (v (ucast b))"
    "v' = v(ucast b := put32 (v (ucast b)) (4 * i) x)" using l by (simp_all add: leaf_set_def b_def Let_def)
  have "node_block v inode (q, js) = b \<longleftrightarrow> (q, js) = (r, is)"
    using tree_okD [OF f(1) n(1) f(2)] f(4) by (auto simp: b_def)
  then have e: "node_block v inode (q, js) = b \<and> i = j \<longleftrightarrow> (q, js @ [j]) = (r, is @ [i])" by auto
  have "ind_entry v' (node_block v inode (q, js)) j =
    (if node_block v inode (q, js) = b \<and> i = j then x else ind_entry v (node_block v inode (q, js)) j)"
    unfolding f(6)
  proof (rule ind_entry_upd [OF refl])
    show "4 * i + 3 < length (v (ucast b))" "4 * j + 3 < length (v (ucast b))" using f(3,5) n(2) by linarith+
  qed (rule f(4))
  then show ?thesis unfolding e .
qed

lemma node_block_same:
  assumes l: "leaf_set v a inode r is i x v'"
  shows "tree_node a (q, js) \<Longrightarrow> node_block v' inode (q, js) = node_block v inode (q, js)"
proof (induction js rule: rev_induct)
  case Nil
  then show ?case by (simp add: node_block_def)
next
  case (snoc j js)
  then have n: "tree_node a (q, js)" "j < a" "length js < q - 12" by (auto simp: tree_node_def)
  have "node_block v' inode (q, js @ [j]) = ind_entry v' (node_block v inode (q, js)) j"
    using snoc.IH [OF n(1)] by (simp add: node_block_def ind_walk_append)
  moreover have "(q, js @ [j]) \<noteq> (r, is @ [i])" using n(3) l by (auto simp: leaf_set_def Let_def)
  ultimately have "node_block v' inode (q, js @ [j]) = ind_entry v (node_block v inode (q, js)) j"
    using node_entry [OF l n(1,2)] by (simp only: if_False)
  then show ?case by (simp add: node_block_def ind_walk_append)
qed

lemma bmap_lookup_upd:
  assumes l: "leaf_set v a inode r is i x v'" and k: "k < 12 + a + a * a + a * a * a"
  shows "bmap_lookup v' a inode k = (if bmap_path a k = (r, is @ [i]) then x else bmap_lookup v a inode k)"
proof (cases "k < 12")
  case True
  then show ?thesis by (simp add: bmap_lookup_def bmap_path_def)
next
  case False
  have "0 < a" using l by (auto simp: leaf_set_def Let_def)
  then obtain q js j where p: "bmap_path a k = (q, js @ [j])" "tree_node a (q, js)" "j < a"
    using bmap_path_split [of a k] k False by (metis not_less)
  have "bmap_lookup v' a inode k = ind_entry v' (node_block v' inode (q, js)) j"
    by (simp add: bmap_lookup_def p node_block_def ind_walk_append)
  also have "\<dots> = (if (q, js @ [j]) = (r, is @ [i]) then x else ind_entry v (node_block v inode (q, js)) j)"
    unfolding node_block_same [OF l p(2)] by (rule node_entry [OF l p(2,3)])
  finally show ?thesis by (simp add: bmap_lookup_def p node_block_def ind_walk_append)
qed

end
