(* ===== verification/Bmap_dev.thy ===== *)
theory Bmap_dev
  imports Bmap_tree
begin

text \<open>
  The operations of the block map over a device: without allocation a call is the lookup and changes nothing, and
  a call that sets a block changes one entry.
\<close>

section \<open>The 32-bit operations of the channel\<close>

locale block_dev32 = block_dev_total +
  assumes dev_read32: "dinv io \<Longrightarrow> m_read_blk m io b 1 = io_channel_read_blk64 m io b 1"
    and dev_write32: "dinv io \<Longrightarrow> m_write_blk m io b 1 buf = io_channel_write_blk64 m io b 1 buf"
begin

lemma read_ind: "dinv io \<Longrightarrow> \<exists>io'. io_channel_read_blk m io b 1 = (io', V io (ucast b), 0) \<and> dinv io' \<and> V io' = V io"
  unfolding io_channel_read_blk_def using dev_read32 dev_read_total by metis

lemma write_ind:
  "dinv io \<Longrightarrow> length buf = bs \<Longrightarrow>
    \<exists>io'. io_channel_write_blk m io b 1 buf = (io', 0) \<and> dinv io' \<and> V io' = (V io)(ucast b := buf)"
  unfolding io_channel_write_blk_def using dev_write32 dev_write_total by metis

section \<open>Looking up\<close>

lemma ind_get:
  assumes "dinv (fs_io fs)" "flags AND BMAP_SET = 0" "flags AND BMAP_ALLOC = 0 \<or> ind_entry (V (fs_io fs)) ind (unat nr) \<noteq> 0"
  shows "\<exists>io. block_ind_bmap mem m flags ind nr fs zb p = Some (fs\<lparr>fs_io := io\<rparr>, zb, 0, ind_entry (V (fs_io fs)) ind (unat nr), 0)
    \<and> dinv io \<and> V io = V (fs_io fs)"
proof (cases "ind = 0")
  case True
  then show ?thesis using assms by (intro exI [of _ "fs_io fs"]) (simp add: block_ind_bmap_def ind_entry_def)
next
  case False
  obtain io where "io_channel_read_blk m (fs_io fs) ind 1 = (io, V (fs_io fs) (ucast ind), 0)" "dinv io" "V io = V (fs_io fs)"
    using read_ind [OF assms(1)] by blast
  then show ?thesis using assms(2,3) False by (auto simp: block_ind_bmap_def ind_entry_def Let_def)
qed

lemma mask_set: "(flags AND NOT BMAP_SET) AND BMAP_SET = 0" "(flags AND NOT BMAP_SET) AND BMAP_ALLOC = flags AND BMAP_ALLOC"
  by (simp_all add: bit_eq_iff bit_simps) (auto simp: bit_numeral_rec bit_1_iff)

lemma addr_io: "addr_per_block (fs\<lparr>fs_io := io\<rparr>) = addr_per_block fs"
  by (simp add: addr_per_block_def)

lemma dind_get:
  assumes d: "dinv (fs_io fs)" and f: "flags AND BMAP_SET = 0"
    and w: "w = ind_walk (V (fs_io fs)) dind [unat (nr div addr_per_block fs), unat (nr mod addr_per_block fs)]"
    and al: "flags AND BMAP_ALLOC = 0 \<or> w \<noteq> 0"
  shows "\<exists>io. block_dind_bmap mem m flags dind nr fs zb p = Some (fs\<lparr>fs_io := io\<rparr>, zb, 0, w, 0) \<and> dinv io \<and> V io = V (fs_io fs)"
proof -
  let ?b = "ind_entry (V (fs_io fs)) dind (unat (nr div addr_per_block fs))"
  have "flags AND BMAP_ALLOC = 0 \<or> ?b \<noteq> 0" using al w by (auto simp: ind_entry_def)
  then obtain io where 1: "block_ind_bmap mem m (flags AND NOT BMAP_SET) dind (nr div addr_per_block fs) fs zb 0 = Some (fs\<lparr>fs_io := io\<rparr>, zb, 0, ?b, 0)"
    "dinv io" "V io = V (fs_io fs)" using ind_get [OF d mask_set(1)] unfolding mask_set(2) by blast
  have "flags AND BMAP_ALLOC = 0 \<or> ind_entry (V (fs_io (fs\<lparr>fs_io := io\<rparr>))) ?b (unat (nr mod addr_per_block fs)) \<noteq> 0"
    using al w 1(3) by simp
  then obtain io2 where "block_ind_bmap mem m flags ?b (nr mod addr_per_block fs) (fs\<lparr>fs_io := io\<rparr>) zb p = Some (fs\<lparr>fs_io := io2\<rparr>, zb, 0, w, 0)"
    "dinv io2" "V io2 = V (fs_io fs)"
    using ind_get [of "fs\<lparr>fs_io := io\<rparr>" flags ?b "nr mod addr_per_block fs" mem zb p] 1(2,3) f w by auto
  then show ?thesis using 1(1) unfolding block_dind_bmap_def by (intro exI [of _ io2]) (simp del: ind_walk.simps)
qed

lemma tind_get:
  assumes d: "dinv (fs_io fs)" and f: "flags AND BMAP_SET = 0"
    and w: "w = ind_walk (V (fs_io fs)) tind [unat (nr div addr_per_block fs div addr_per_block fs),
                  unat (nr div addr_per_block fs mod addr_per_block fs), unat (nr mod addr_per_block fs)]"
    and al: "flags AND BMAP_ALLOC = 0 \<or> w \<noteq> 0"
  shows "\<exists>io. block_tind_bmap mem m flags tind nr fs zb p = Some (fs\<lparr>fs_io := io\<rparr>, zb, 0, w, 0) \<and> dinv io \<and> V io = V (fs_io fs)"
proof -
  let ?n = "nr div addr_per_block fs"
  let ?b = "ind_walk (V (fs_io fs)) tind [unat (?n div addr_per_block fs), unat (?n mod addr_per_block fs)]"
  have "flags AND BMAP_ALLOC = 0 \<or> ?b \<noteq> 0" using al w by (auto simp: ind_entry_def)
  then obtain io where 1: "block_dind_bmap mem m (flags AND NOT BMAP_SET) tind ?n fs zb 0 = Some (fs\<lparr>fs_io := io\<rparr>, zb, 0, ?b, 0)"
    "dinv io" "V io = V (fs_io fs)" using dind_get [OF d mask_set(1) refl] unfolding mask_set(2) by blast
  have "flags AND BMAP_ALLOC = 0 \<or> ind_entry (V (fs_io (fs\<lparr>fs_io := io\<rparr>))) ?b (unat (nr mod addr_per_block fs)) \<noteq> 0"
    using al w 1(3) by simp
  then obtain io2 where "block_ind_bmap mem m flags ?b (nr mod addr_per_block fs) (fs\<lparr>fs_io := io\<rparr>) zb p = Some (fs\<lparr>fs_io := io2\<rparr>, zb, 0, w, 0)"
    "dinv io2" "V io2 = V (fs_io fs)"
    using ind_get [of "fs\<lparr>fs_io := io\<rparr>" flags ?b "nr mod addr_per_block fs" mem zb p] 1(2,3) f w by auto
  then show ?thesis using 1(1) unfolding block_tind_bmap_def by (intro exI [of _ io2]) (simp del: ind_walk.simps)
qed

section \<open>Setting\<close>

lemma ind_set:
  assumes "dinv (fs_io fs)" "flags AND BMAP_SET \<noteq> 0" "ind \<noteq> 0"
  shows "\<exists>io. block_ind_bmap mem m flags ind nr fs zb p = Some (fs\<lparr>fs_io := io\<rparr>, zb, 0, p, 0) \<and> dinv io
    \<and> V io = (V (fs_io fs))(ucast ind := put32 (V (fs_io fs) (ucast ind)) (4 * unat nr) p)"
proof -
  obtain io where r: "io_channel_read_blk m (fs_io fs) ind 1 = (io, V (fs_io fs) (ucast ind), 0)" "dinv io" "V io = V (fs_io fs)"
    using read_ind [OF assms(1)] by blast
  have "length (put32 (V (fs_io fs) (ucast ind)) (4 * unat nr) p) = bs" using dev_length [OF assms(1)] by simp
  then obtain io2 where "io_channel_write_blk m io ind 1 (put32 (V (fs_io fs) (ucast ind)) (4 * unat nr) p) = (io2, 0)" "dinv io2"
    "V io2 = (V io)(ucast ind := put32 (V (fs_io fs) (ucast ind)) (4 * unat nr) p)" using write_ind [OF r(2)] by blast
  then show ?thesis using r assms(2,3) by (intro exI [of _ io2]) (simp add: block_ind_bmap_def Let_def)
qed

text \<open>The level above finds the indirect block and sets its entry, or reports that there is none.\<close>

lemma ind_step:
  assumes "dinv io" "flags AND BMAP_SET \<noteq> 0"
  shows "\<exists>io'. block_ind_bmap mem m flags b nr (fs\<lparr>fs_io := io\<rparr>) zb p
      = Some (fs\<lparr>fs_io := io'\<rparr>, zb, 0, p, if b = 0 then EXT2_ET_SET_BMAP_NO_IND else 0) \<and> dinv io'
    \<and> V io' = (if b = 0 then V io else (V io)(ucast b := put32 (V io (ucast b)) (4 * unat nr) p))"
proof (cases "b = 0")
  case True
  then show ?thesis using assms by (intro exI [of _ io]) (simp add: block_ind_bmap_def)
next
  case False
  then obtain io' where "block_ind_bmap mem m flags b nr (fs\<lparr>fs_io := io\<rparr>) zb p = Some (fs\<lparr>fs_io := io'\<rparr>, zb, 0, p, 0)" "dinv io'"
    "V io' = (V io)(ucast b := put32 (V io (ucast b)) (4 * unat nr) p)"
    using ind_set [of "fs\<lparr>fs_io := io\<rparr>" flags b mem nr zb p] assms by auto
  then show ?thesis using False by (intro exI [of _ io']) simp
qed

lemma dind_set:
  assumes d: "dinv (fs_io fs)" and f: "flags AND BMAP_SET \<noteq> 0" "flags AND BMAP_ALLOC = 0"
    and b: "b = ind_walk (V (fs_io fs)) dind [unat (nr div addr_per_block fs)]"
  shows "\<exists>io. block_dind_bmap mem m flags dind nr fs zb p
      = Some (fs\<lparr>fs_io := io\<rparr>, zb, 0, p, if b = 0 then EXT2_ET_SET_BMAP_NO_IND else 0) \<and> dinv io
    \<and> V io = (if b = 0 then V (fs_io fs)
        else (V (fs_io fs))(ucast b := put32 (V (fs_io fs) (ucast b)) (4 * unat (nr mod addr_per_block fs)) p))"
proof -
  obtain io where 1: "block_ind_bmap mem m (flags AND NOT BMAP_SET) dind (nr div addr_per_block fs) fs zb 0 = Some (fs\<lparr>fs_io := io\<rparr>, zb, 0, b, 0)"
    "dinv io" "V io = V (fs_io fs)" using ind_get [OF d mask_set(1)] f(2) b unfolding mask_set(2) ind_walk.simps by blast
  obtain io' where "block_ind_bmap mem m flags b (nr mod addr_per_block fs) (fs\<lparr>fs_io := io\<rparr>) zb p
      = Some (fs\<lparr>fs_io := io'\<rparr>, zb, 0, p, if b = 0 then EXT2_ET_SET_BMAP_NO_IND else 0)" "dinv io'"
    "V io' = (if b = 0 then V io else (V io)(ucast b := put32 (V io (ucast b)) (4 * unat (nr mod addr_per_block fs)) p))"
    using ind_step [OF 1(2) f(1)] by blast
  then show ?thesis using 1(1,3) unfolding block_dind_bmap_def by (intro exI [of _ io']) (simp del: ind_walk.simps)
qed

lemma tind_set:
  assumes d: "dinv (fs_io fs)" and f: "flags AND BMAP_SET \<noteq> 0" "flags AND BMAP_ALLOC = 0"
    and b: "b = ind_walk (V (fs_io fs)) tind [unat (nr div addr_per_block fs div addr_per_block fs), unat (nr div addr_per_block fs mod addr_per_block fs)]"
  shows "\<exists>io. block_tind_bmap mem m flags tind nr fs zb p
      = Some (fs\<lparr>fs_io := io\<rparr>, zb, 0, p, if b = 0 then EXT2_ET_SET_BMAP_NO_IND else 0) \<and> dinv io
    \<and> V io = (if b = 0 then V (fs_io fs)
        else (V (fs_io fs))(ucast b := put32 (V (fs_io fs) (ucast b)) (4 * unat (nr mod addr_per_block fs)) p))"
proof -
  obtain io where 1: "block_dind_bmap mem m (flags AND NOT BMAP_SET) tind (nr div addr_per_block fs) fs zb 0 = Some (fs\<lparr>fs_io := io\<rparr>, zb, 0, b, 0)"
    "dinv io" "V io = V (fs_io fs)" using dind_get [OF d mask_set(1) b] f(2) unfolding mask_set(2) by blast
  obtain io' where "block_ind_bmap mem m flags b (nr mod addr_per_block fs) (fs\<lparr>fs_io := io\<rparr>) zb p
      = Some (fs\<lparr>fs_io := io'\<rparr>, zb, 0, p, if b = 0 then EXT2_ET_SET_BMAP_NO_IND else 0)" "dinv io'"
    "V io' = (if b = 0 then V io else (V io)(ucast b := put32 (V io (ucast b)) (4 * unat (nr mod addr_per_block fs)) p))"
    using ind_step [OF 1(2) f(1)] by blast
  then show ?thesis using 1(1,3) unfolding block_tind_bmap_def by (intro exI [of _ io']) (simp del: ind_walk.simps)
qed

end

section \<open>The split of a block number\<close>

definition map_geom :: "'a fs_base_scheme \<Rightarrow> bool" where
  "map_geom fs \<longleftrightarrow> 1024 \<le> fs_blocksize fs \<and> fs_blocksize fs \<le> 65536"

definition napb :: "'a fs_base_scheme \<Rightarrow> nat" where
  "napb fs = unat (fs_blocksize fs) div 4"

definition map_limit :: "nat \<Rightarrow> nat" where
  "map_limit a = min (2 ^ 32 - 1) (12 + a + a * a + a * a * a)"

lemma map_geom:
  assumes "map_geom fs"
  shows "unat (addr_per_block fs) = napb fs" "256 \<le> napb fs" "napb fs \<le> 16384" "4 * napb fs \<le> unat (fs_blocksize fs)"
proof -
  have "1024 \<le> unat (fs_blocksize fs)" "unat (fs_blocksize fs) \<le> 65536"
    using assms by (simp_all add: map_geom_def word_le_nat_alt)
  then show "256 \<le> napb fs" "napb fs \<le> 16384" "4 * napb fs \<le> unat (fs_blocksize fs)" by (simp_all add: napb_def)
  show "unat (addr_per_block fs) = napb fs"
    by (simp add: addr_per_block_def napb_def drop_bit_eq_div unat_div)
qed

lemma square_bound: "(a :: nat) \<le> 16384 \<Longrightarrow> a * a \<le> 268435456"
  using mult_le_mono [of a 16384 a 16384] by simp

lemma cube_bound: "(a :: nat) \<le> 16384 \<Longrightarrow> a * a * a \<le> 4398046511104"
  using mult_le_mono [OF square_bound, of a a 16384] by simp

lemma unat_square:
  assumes "map_geom fs"
  shows "unat (addr_per_block fs * addr_per_block fs) = napb fs * napb fs"
    "unat (ucast (addr_per_block fs * addr_per_block fs) :: u64) = napb fs * napb fs"
  using square_bound [OF map_geom(3) [OF assms]] map_geom(1) [OF assms] by (simp_all add: unat_word_ariths unat_ucast32_64)

lemma too_big_limit:
  assumes "map_geom fs" "i_flags inode AND EXT4_EXTENTS_FL = 0"
  shows "ext2fs_file_block_offset_too_big fs inode n \<longleftrightarrow> map_limit (napb fs) \<le> unat n"
proof -
  let ?a = "ucast (addr_per_block fs) :: u64"
  have a: "unat ?a = napb fs" using map_geom(1) [OF assms(1)] by (simp add: unat_ucast32_64)
  note b = map_geom(3) [OF assms(1)]
  have "unat (?a * ?a) = napb fs * napb fs" using square_bound [OF b] by (simp add: unat_word_ariths a)
  then have "unat (?a * ?a * ?a) = napb fs * napb fs * napb fs" "unat (?a + ?a * ?a) = napb fs + napb fs * napb fs"
    using cube_bound [OF b] square_bound [OF b] b unat_mult_lem [of "?a * ?a" ?a] unat_add_lem [of ?a "?a * ?a"] a by auto
  then have "unat (?a + ?a * ?a + ?a * ?a * ?a) = napb fs + napb fs * napb fs + napb fs * napb fs * napb fs"
    using cube_bound [OF b] square_bound [OF b] b unat_add_lem [of "?a + ?a * ?a" "?a * ?a * ?a"] by auto
  then have "unat (?a + ?a * ?a + ?a * ?a * ?a + 12) = 12 + napb fs + napb fs * napb fs + napb fs * napb fs * napb fs"
    using cube_bound [OF b] square_bound [OF b] b unat_add_lem [of "?a + ?a * ?a + ?a * ?a * ?a" 12] by auto
  then show ?thesis
    using assms(2) by (auto simp: ext2fs_file_block_offset_too_big_def map_limit_def word_le_nat_alt Let_def min_def)
qed

text \<open>The tree that a number belongs to, and the number within it, as the code computes them.\<close>

lemma bmap_split:
  fixes n :: u64
  assumes g: "map_geom fs" and n: "unat n < map_limit (napb fs)" and a: "a = napb fs"
  shows "n < 12 \<longleftrightarrow> unat n < 12"
    "12 \<le> unat n \<Longrightarrow> n - 12 < ucast (addr_per_block fs) \<longleftrightarrow> unat n - 12 < a"
    "12 \<le> unat n \<Longrightarrow> unat (ucast (n - 12) :: u32) = unat n - 12"
    "12 + a \<le> unat n \<Longrightarrow> n - 12 - ucast (addr_per_block fs) < ucast (addr_per_block fs * addr_per_block fs) \<longleftrightarrow> unat n - 12 - a < a * a"
    "12 + a \<le> unat n \<Longrightarrow> unat (ucast (n - 12 - ucast (addr_per_block fs)) :: u32) = unat n - 12 - a"
    "12 + a + a * a \<le> unat n \<Longrightarrow> unat (ucast (n - 12 - ucast (addr_per_block fs) - ucast (addr_per_block fs * addr_per_block fs)) :: u32)
      = unat n - 12 - a - a * a"
proof -
  have l: "unat n < 2 ^ 32" using n by (simp add: map_limit_def)
  have u: "unat (ucast (addr_per_block fs) :: u64) = a" using map_geom(1) [OF g] by (simp add: unat_ucast32_64 a)
  note q = unat_square(2) [OF g, folded a]
  show "n < 12 \<longleftrightarrow> unat n < 12" by (simp add: word_less_nat_alt)
  have 1: "12 \<le> unat n \<Longrightarrow> unat (n - 12) = unat n - 12" by (simp add: unat_sub word_le_nat_alt)
  then show "12 \<le> unat n \<Longrightarrow> n - 12 < ucast (addr_per_block fs) \<longleftrightarrow> unat n - 12 < a" by (simp add: word_less_nat_alt u)
  show "12 \<le> unat n \<Longrightarrow> unat (ucast (n - 12) :: u32) = unat n - 12" using l 1 by (subst unat_ucast64_32) simp_all
  have 2: "12 + a \<le> unat n \<Longrightarrow> unat (n - 12 - ucast (addr_per_block fs)) = unat n - 12 - a"
    by (simp add: unat_sub word_le_nat_alt u 1)
  then show "12 + a \<le> unat n \<Longrightarrow> n - 12 - ucast (addr_per_block fs) < ucast (addr_per_block fs * addr_per_block fs) \<longleftrightarrow> unat n - 12 - a < a * a"
    by (simp add: word_less_nat_alt q)
  show "12 + a \<le> unat n \<Longrightarrow> unat (ucast (n - 12 - ucast (addr_per_block fs)) :: u32) = unat n - 12 - a"
    using l 2 by (subst unat_ucast64_32) simp_all
  have 3: "12 + a + a * a \<le> unat n \<Longrightarrow> unat (n - 12 - ucast (addr_per_block fs) - ucast (addr_per_block fs * addr_per_block fs)) = unat n - 12 - a - a * a"
    by (simp add: unat_sub word_le_nat_alt q 2)
  then show "12 + a + a * a \<le> unat n \<Longrightarrow> unat (ucast (n - 12 - ucast (addr_per_block fs) - ucast (addr_per_block fs * addr_per_block fs)) :: u32)
      = unat n - 12 - a - a * a"
    using l by (subst unat_ucast64_32) simp_all
qed

context block_dev32
begin

lemma bmap_tree_get:
  assumes d: "dinv (fs_io fs)" and f: "flags AND BMAP_SET = 0" and al: "flags AND BMAP_ALLOC = 0 \<or> w \<noteq> 0"
    and w: "w = ind_walk (V (fs_io fs)) (i_block inode ! k) is"
    and lev: "\<exists>io. level (i_block inode ! k) fs zb = Some (fs\<lparr>fs_io := io\<rparr>, zb, 0, w, 0) \<and> dinv io \<and> V io = V (fs_io fs)"
  shows "\<exists>io. bmap_tree mem m flags k level inode fs zb 0 = Some (fs\<lparr>fs_io := io\<rparr>, zb, inode, ucast w, 0, 0, False)
    \<and> dinv io \<and> V io = V (fs_io fs)"
proof (cases "i_block inode ! k = 0")
  case True
  then have "w = 0" using w by simp
  then show ?thesis using True d f al by (intro exI [of _ "fs_io fs"]) (simp add: bmap_tree_def ind_root_def)
next
  case False
  then show ?thesis using lev by (auto simp: bmap_tree_def ind_root_def)
qed

lemma bmap_blocks_get:
  assumes d: "dinv (fs_io fs)" and g: "map_geom fs" and n: "unat n < map_limit (napb fs)" and f: "flags AND BMAP_SET = 0"
    and w: "w = bmap_lookup (V (fs_io fs)) (napb fs) inode (unat n)" and al: "flags AND BMAP_ALLOC = 0 \<or> w \<noteq> 0"
  shows "\<exists>io. bmap_blocks mem m ino flags n inode fs zb 0 = Some (fs\<lparr>fs_io := io\<rparr>, zb, inode, ucast w, 0, 0, False)
    \<and> dinv io \<and> V io = V (fs_io fs)"
proof -
  note s = bmap_split [OF g n refl] and a = map_geom(1) [OF g]
  consider "unat n < 12" | "12 \<le> unat n" "unat n - 12 < napb fs" | "12 + napb fs \<le> unat n" "unat n - 12 - napb fs < napb fs * napb fs"
    | "12 + napb fs + napb fs * napb fs \<le> unat n" by linarith
  then show ?thesis
  proof cases
    case 1
    then have "w = i_block inode ! unat n" using w by (simp add: bmap_lookup_def bmap_path_def)
    moreover have "(ucast (i_block inode ! unat n) :: u64) = 0 \<longleftrightarrow> i_block inode ! unat n = 0"
      using ucast_up_inj [of _ 0] by auto
    ultimately show ?thesis using 1 d f al s(1)
      by (intro exI [of _ "fs_io fs"]) (auto simp: bmap_blocks_def bmap_direct_def Let_def)
  next
    case 2
    then have p: "w = ind_walk (V (fs_io fs)) (i_block inode ! 12) [unat (ucast (n - 12) :: u32)]"
      using w s(3) by (simp add: bmap_lookup_def bmap_path_def)
    show ?thesis unfolding bmap_blocks_def Let_def
      using bmap_tree_get [OF d f al p, of "\<lambda>b h zb. block_ind_bmap mem m flags b (ucast (n - 12)) h zb (ucast (0 :: u64))" zb mem]
        ind_get [OF d f] p al 2 s(1,2) by simp
  next
    case 3
    then have "\<not> unat n - 12 < napb fs" by linarith
    then have p: "w = ind_walk (V (fs_io fs)) (i_block inode ! 13)
        [unat ((ucast (n - 12 - ucast (addr_per_block fs)) :: u32) div addr_per_block fs), unat ((ucast (n - 12 - ucast (addr_per_block fs)) :: u32) mod addr_per_block fs)]"
      using 3 w s(5) a by (simp add: bmap_lookup_def bmap_path_def unat_div unat_mod)
    show ?thesis unfolding bmap_blocks_def Let_def
      using bmap_tree_get [OF d f al p, of "\<lambda>b h zb. block_dind_bmap mem m flags b (ucast (n - 12 - ucast (addr_per_block fs))) h zb (ucast (0 :: u64))" zb mem]
        dind_get [OF d f p al] 3 s(1,2,4) \<open>\<not> unat n - 12 < napb fs\<close> by simp
  next
    case 4
    define k where "k = (ucast (n - 12 - ucast (addr_per_block fs) - ucast (addr_per_block fs * addr_per_block fs)) :: u32)"
    have x: "\<not> unat n - 12 < napb fs" "\<not> unat n - 12 - napb fs < napb fs * napb fs" using 4 by linarith+
    then have p: "w = ind_walk (V (fs_io fs)) (i_block inode ! 14)
        [unat (k div addr_per_block fs div addr_per_block fs), unat (k div addr_per_block fs mod addr_per_block fs), unat (k mod addr_per_block fs)]"
      using 4 w s(6) a by (simp add: bmap_lookup_def bmap_path_def unat_div unat_mod k_def)
    show ?thesis unfolding bmap_blocks_def Let_def k_def [symmetric]
      using bmap_tree_get [OF d f al p, of "\<lambda>b h zb. block_tind_bmap mem m flags b k h zb (ucast (0 :: u64))" zb mem]
        tind_get [OF d f p al] 4 s(1,2,4) x by simp
  qed
qed


lemma fs_io_same: "fs\<lparr>fs_io := fs_io fs\<rparr> = fs"
  by simp

lemma bmap_tree_set:
  assumes d: "dinv (fs_io fs)" and f: "flags AND BMAP_SET \<noteq> 0" "flags AND BMAP_ALLOC = 0"
    and b: "b = ind_walk (V (fs_io fs)) (i_block inode ! k) is"
    and lev: "\<exists>io. level (i_block inode ! k) fs zb
        = Some (fs\<lparr>fs_io := io\<rparr>, zb, 0, ucast phys, if b = 0 then EXT2_ET_SET_BMAP_NO_IND else 0) \<and> dinv io
      \<and> V io = (if b = 0 then V (fs_io fs) else V')"
  shows "\<exists>io. bmap_tree mem m flags k level inode fs zb phys = Some (fs\<lparr>fs_io := io\<rparr>, zb, inode,
        if b = 0 then phys else ucast (ucast phys :: u32), if b = 0 then EXT2_ET_SET_BMAP_NO_IND else 0, 0, False)
    \<and> dinv io \<and> V io = (if b = 0 then V (fs_io fs) else V')"
proof (cases "i_block inode ! k = 0")
  case True
  then have "b = 0" using b by simp
  then show ?thesis using True d f by (intro exI [of _ "fs_io fs"]) (simp add: bmap_tree_def ind_root_def)
next
  case False
  then show ?thesis using lev by (auto simp: bmap_tree_def ind_root_def)
qed

lemma bmap_blocks_set:
  assumes d: "dinv (fs_io fs)" and g: "map_geom fs" and n: "12 \<le> unat n" "unat n < map_limit (napb fs)"
    and f: "flags AND BMAP_SET \<noteq> 0" "flags AND BMAP_ALLOC = 0"
    and p: "bmap_path (napb fs) (unat n) = (r, is @ [i])" and b: "b = node_block (V (fs_io fs)) inode (r, is)"
  shows "\<exists>io. bmap_blocks mem m ino flags n inode fs zb phys = Some (fs\<lparr>fs_io := io\<rparr>, zb, inode,
        if b = 0 then phys else ucast (ucast phys :: u32), if b = 0 then EXT2_ET_SET_BMAP_NO_IND else 0, 0, False)
    \<and> dinv io \<and> V io = (if b = 0 then V (fs_io fs)
        else (V (fs_io fs))(ucast b := put32 (V (fs_io fs) (ucast b)) (4 * i) (ucast phys)))"
proof -
  note s = bmap_split [OF g n(2) refl] and a = map_geom(1) [OF g]
  consider "unat n - 12 < napb fs" | "12 + napb fs \<le> unat n" "unat n - 12 - napb fs < napb fs * napb fs"
    | "12 + napb fs + napb fs * napb fs \<le> unat n" using n(1) by linarith
  then show ?thesis
  proof cases
    case 1
    then have q: "r = 12" "is = []" "i = unat (ucast (n - 12) :: u32)" using p s(3) n(1) by (auto simp: bmap_path_def)
    then have b0: "b = ind_walk (V (fs_io fs)) (i_block inode ! 12) []" using b by (simp add: node_block_def)
    have lev: "\<exists>io. block_ind_bmap mem m flags (i_block inode ! 12) (ucast (n - 12)) fs zb (ucast phys)
        = Some (fs\<lparr>fs_io := io\<rparr>, zb, 0, ucast phys, if b = 0 then EXT2_ET_SET_BMAP_NO_IND else 0) \<and> dinv io
      \<and> V io = (if b = 0 then V (fs_io fs) else (V (fs_io fs))(ucast b := put32 (V (fs_io fs) (ucast b)) (4 * i) (ucast phys)))"
      using ind_step [OF d f(1), of mem b "ucast (n - 12)" fs zb "ucast phys"] b0 unfolding q(3) by (simp only: ind_walk.simps fs_io_same)
    show ?thesis unfolding bmap_blocks_def Let_def
      using bmap_tree_set [OF d f b0, of "\<lambda>b h zb. block_ind_bmap mem m flags b (ucast (n - 12)) h zb (ucast phys)", OF lev] 1 s(1,2) n(1) by simp
  next
    case 2
    define k where "k = (ucast (n - 12 - ucast (addr_per_block fs)) :: u32)"
    have x: "\<not> unat n - 12 < napb fs" using 2 by linarith
    then have q: "r = 13" "is = [unat (k div addr_per_block fs)]" "i = unat (k mod addr_per_block fs)"
      using p s(5) 2 a by (auto simp: bmap_path_def k_def unat_div unat_mod)
    then have b0: "b = ind_walk (V (fs_io fs)) (i_block inode ! 13) [unat (k div addr_per_block fs)]" using b by (simp add: node_block_def)
    have lev: "\<exists>io. block_dind_bmap mem m flags (i_block inode ! 13) k fs zb (ucast phys)
        = Some (fs\<lparr>fs_io := io\<rparr>, zb, 0, ucast phys, if b = 0 then EXT2_ET_SET_BMAP_NO_IND else 0) \<and> dinv io
      \<and> V io = (if b = 0 then V (fs_io fs) else (V (fs_io fs))(ucast b := put32 (V (fs_io fs) (ucast b)) (4 * i) (ucast phys)))"
      unfolding q(3) by (rule dind_set [OF d f b0])
    show ?thesis unfolding bmap_blocks_def Let_def k_def [symmetric]
      using bmap_tree_set [OF d f b0, of "\<lambda>b h zb. block_dind_bmap mem m flags b k h zb (ucast phys)", OF lev] 2 s(1,2,4) n(1) x by simp
  next
    case 3
    define k where "k = (ucast (n - 12 - ucast (addr_per_block fs) - ucast (addr_per_block fs * addr_per_block fs)) :: u32)"
    have x: "\<not> unat n - 12 < napb fs" "\<not> unat n - 12 - napb fs < napb fs * napb fs" using 3 by linarith+
    then have q: "r = 14" "is = [unat (k div addr_per_block fs div addr_per_block fs), unat (k div addr_per_block fs mod addr_per_block fs)]"
      "i = unat (k mod addr_per_block fs)"
      using p s(6) 3 a by (auto simp: bmap_path_def k_def unat_div unat_mod)
    then have b0: "b = ind_walk (V (fs_io fs)) (i_block inode ! 14)
        [unat (k div addr_per_block fs div addr_per_block fs), unat (k div addr_per_block fs mod addr_per_block fs)]"
      using b by (simp add: node_block_def)
    have lev: "\<exists>io. block_tind_bmap mem m flags (i_block inode ! 14) k fs zb (ucast phys)
        = Some (fs\<lparr>fs_io := io\<rparr>, zb, 0, ucast phys, if b = 0 then EXT2_ET_SET_BMAP_NO_IND else 0) \<and> dinv io
      \<and> V io = (if b = 0 then V (fs_io fs) else (V (fs_io fs))(ucast b := put32 (V (fs_io fs) (ucast b)) (4 * i) (ucast phys)))"
      unfolding q(3) by (rule tind_set [OF d f b0])
    show ?thesis unfolding bmap_blocks_def Let_def k_def [symmetric]
      using bmap_tree_set [OF d f b0, of "\<lambda>b h zb. block_tind_bmap mem m flags b k h zb (ucast phys)", OF lev] 3 s(1,2,4) n(1) x by simp
  qed
qed

section \<open>The whole call\<close>

lemma bmap2_get:
  assumes d: "dinv (fs_io fs)" and g: "map_geom fs" and n: "unat n < map_limit (napb fs)"
    and i: "i_flags inode AND EXT4_EXTENTS_FL = 0" "i_flags inode AND EXT4_INLINE_DATA_FL = 0"
    and f: "flags AND BMAP_SET = 0" "flags AND BMAP_ZERO = 0"
    and al: "flags AND BMAP_ALLOC = 0 \<or> bmap_lookup (V (fs_io fs)) (napb fs) inode (unat n) \<noteq> 0"
  shows "\<exists>io. bmap2_block_mapped mem m fs zb ino (Some inode) True flags n phys
      = Some (fs\<lparr>fs_io := io\<rparr>, zb, inode, ucast (bmap_lookup (V (fs_io fs)) (napb fs) inode (unat n)), 0)
    \<and> dinv io \<and> V io = V (fs_io fs)"
proof -
  obtain io where io: "bmap_blocks mem m ino flags n inode fs zb 0
      = Some (fs\<lparr>fs_io := io\<rparr>, zb, inode, ucast (bmap_lookup (V (fs_io fs)) (napb fs) inode (unat n)), 0, 0, False)"
    "dinv io" "V io = V (fs_io fs)" using bmap_blocks_get [OF d g n f(1) refl al] by blast
  have nb: "\<not> ext2fs_file_block_offset_too_big fs inode n" using n too_big_limit [OF g i(1)] by simp
  show ?thesis
    unfolding bmap2_block_mapped_def by (intro exI [of _ io]) (use io nb i f in \<open>simp add: bmap_done_def\<close>)
qed

lemma bmap2_set:
  assumes d: "dinv (fs_io fs)" and g: "map_geom fs" and n: "12 \<le> unat n" "unat n < map_limit (napb fs)" and bs: "bs = unat (fs_blocksize fs)"
    and i: "i_flags inode AND EXT4_EXTENTS_FL = 0" "i_flags inode AND EXT4_INLINE_DATA_FL = 0"
    and t: "tree_ok (V (fs_io fs)) (napb fs) inode"
  shows "\<exists>io p err. bmap2_block_mapped mem m fs zb ino (Some inode) True BMAP_SET n phys = Some (fs\<lparr>fs_io := io\<rparr>, zb, inode, p, err)
    \<and> dinv io \<and> err = (if node_block (V (fs_io fs)) inode (ind_of (napb fs) (unat n)) = 0 then EXT2_ET_SET_BMAP_NO_IND else 0)
    \<and> (err = 0 \<longrightarrow> p = ucast (ucast phys :: u32))
    \<and> (\<forall>k < map_limit (napb fs). bmap_lookup (V io) (napb fs) inode k
        = (if err = 0 \<and> k = unat n then ucast phys else bmap_lookup (V (fs_io fs)) (napb fs) inode k))"
proof -
  have lim: "unat n < 12 + napb fs + napb fs * napb fs + napb fs * napb fs * napb fs" using n(2) by (simp add: map_limit_def)
  have "0 < napb fs" using map_geom(2) [OF g] by simp
  then obtain q js j where pt: "bmap_path (napb fs) (unat n) = (q, js @ [j])" "tree_node (napb fs) (q, js)" "length js = q - 12" "j < napb fs"
    using bmap_path_split [OF _ lim n(1)] by blast
  define b where "b = node_block (V (fs_io fs)) inode (q, js)"
  have bo: "node_block (V (fs_io fs)) inode (ind_of (napb fs) (unat n)) = b" by (simp add: ind_of_def pt(1) b_def)
  obtain io where io: "bmap_blocks mem m ino BMAP_SET n inode fs zb phys = Some (fs\<lparr>fs_io := io\<rparr>, zb, inode,
        if b = 0 then phys else ucast (ucast phys :: u32), if b = 0 then EXT2_ET_SET_BMAP_NO_IND else 0, 0, False)" "dinv io"
    "V io = (if b = 0 then V (fs_io fs) else (V (fs_io fs))(ucast b := put32 (V (fs_io fs) (ucast b)) (4 * j) (ucast phys)))"
    using bmap_blocks_set [OF d g n _ _ pt(1) b_def, of BMAP_SET mem ino zb phys] by auto
  have nb: "\<not> ext2fs_file_block_offset_too_big fs inode n" using n(2) too_big_limit [OF g i(1)] by simp
  have call: "bmap2_block_mapped mem m fs zb ino (Some inode) True BMAP_SET n phys = bmap_done mem m ino BMAP_SET (fs\<lparr>fs_io := io\<rparr>, zb, inode,
        if b = 0 then phys else ucast (ucast phys :: u32), if b = 0 then EXT2_ET_SET_BMAP_NO_IND else 0, 0, False)"
    unfolding bmap2_block_mapped_def using io(1) nb i by simp
  have res: "bmap2_block_mapped mem m fs zb ino (Some inode) True BMAP_SET n phys = Some (fs\<lparr>fs_io := io\<rparr>, zb, inode,
        if b = 0 then phys else ucast (ucast phys :: u32), if b = 0 then EXT2_ET_SET_BMAP_NO_IND else 0)"
    unfolding call by (simp add: bmap_done_def)
  have look: "bmap_lookup (V io) (napb fs) inode k
      = (if b \<noteq> 0 \<and> k = unat n then ucast phys else bmap_lookup (V (fs_io fs)) (napb fs) inode k)" if k: "k < map_limit (napb fs)" for k
  proof (cases "b = 0")
    case True
    then show ?thesis using io(3) by simp
  next
    case False
    then have "leaf_set (V (fs_io fs)) (napb fs) inode q js j (ucast phys) (V io)"
      using t pt io(3) map_geom(4) [OF g] dev_length [OF d] bs by (simp add: leaf_set_def b_def)
    moreover have "bmap_path (napb fs) k = (q, js @ [j]) \<longleftrightarrow> k = unat n" using pt(1) bmap_path_inj by metis
    ultimately show ?thesis using bmap_lookup_upd [of "V (fs_io fs)" "napb fs" inode q js j "ucast phys" "V io" k] k False
      by (simp add: map_limit_def)
  qed
  show ?thesis unfolding bo
    by (intro exI [of _ io] exI [of _ "if b = 0 then phys else ucast (ucast phys :: u32)"]
        exI [of _ "if b = 0 then EXT2_ET_SET_BMAP_NO_IND else 0"] conjI res io(2)) (use look in auto)
qed

end

section \<open>The channel of \<^verbatim>\<open>xnu_io.c\<close>\<close>

interpretation xdev32: block_dev32 "xnu_io_manager ops"
  "\<lambda>io. xnu_dev ops content bs io \<and> vnode_readable ops" "view content" bs
  for ops :: "'d vnode_ops" and content bs
proof (unfold_locales, goal_cases)
  case (1 io b)
  then have "io_checks io = 0" by (simp add: xnu_dev_def xnu_inv_def)
  then show ?case by (simp add: xnu_manager_simps) (simp add: xnu_io_manager_def xnu_read_blk_def)
next
  case (2 io b buf)
  then have "io_checks io = 0" by (simp add: xnu_dev_def xnu_inv_def)
  then show ?case by (simp add: xnu_manager_simps) (simp add: xnu_io_manager_def xnu_write_blk_def)
qed

end
