(* ===== verification/Bmap_fill.thy ===== *)
theory Bmap_fill
  imports Bmap_dev Alloc_Theorems
begin

text \<open>
  What allocating does to the map of an inode: a cleared block is attached where there was none. \<open>grown\<close>
  relates the device and the inode before and after any number of such steps on the way to one block.
\<close>

section \<open>Paths and the blocks in use\<close>

definition path_ok :: "nat \<Rightarrow> nat \<times> nat list \<Rightarrow> bool" where
  "path_ok a p \<longleftrightarrow> (if fst p < 12 then snd p = [] else fst p < 15 \<and> length (snd p) \<le> fst p - 11 \<and> (\<forall>i \<in> set (snd p). i < a))"

definition map_inv :: "(u64 \<Rightarrow> u8 list) \<Rightarrow> nat \<Rightarrow> ext2_inode \<Rightarrow> nat set \<Rightarrow> bool" where
  "map_inv v a inode S \<longleftrightarrow> tree_ok v a inode \<and> length (i_block inode) = 15
     \<and> (\<forall>p. path_ok a p \<and> node_block v inode p \<noteq> 0 \<longrightarrow> unat (node_block v inode p) \<in> S)"

definition grown ::
  "nat \<Rightarrow> nat \<times> nat list \<Rightarrow> (u64 \<Rightarrow> u8 list) \<times> ext2_inode \<times> nat set \<Rightarrow> (u64 \<Rightarrow> u8 list) \<times> ext2_inode \<times> nat set \<Rightarrow> bool" where
  "grown a w x y \<longleftrightarrow> (case (x, y) of ((v, inode, S), (v', inode', S')) \<Rightarrow>
     map_inv v' a inode' S' \<and> S \<subseteq> S' \<and> (\<exists>bs. inode' = inode\<lparr>i_block := bs\<rparr>)
     \<and> (\<forall>q. path_ok a q \<and> node_block v' inode' q \<noteq> node_block v inode q \<longrightarrow>
          node_block v inode q = 0 \<and> unat (node_block v' inode' q) \<notin> S \<and> (\<exists>t. w = (fst q, snd q @ t)))
     \<and> (\<forall>x. unat x \<in> S \<and> (\<forall>q. tree_node a q \<longrightarrow> ucast (node_block v inode q) \<noteq> x) \<longrightarrow> v' x = v x))"

lemma path_ok_node: "tree_node a p \<Longrightarrow> path_ok a p"
  by (auto simp: tree_node_def path_ok_def)

lemma tree_node_path: "tree_node a (q, js) \<and> j < a \<longleftrightarrow> path_ok a (q, js @ [j])"
  by (auto simp: tree_node_def path_ok_def split: if_splits)

lemma node_block_snoc: "node_block v inode (q, js @ [j]) = ind_entry v (node_block v inode (q, js)) j"
  by (simp add: node_block_def ind_walk_append)

lemma node_block_root: "node_block v inode (q, []) = i_block inode ! q"
  by (simp add: node_block_def)

lemma map_invD:
  assumes "map_inv v a inode S"
  shows "tree_ok v a inode" "length (i_block inode) = 15"
    "path_ok a p \<Longrightarrow> node_block v inode p \<noteq> 0 \<Longrightarrow> unat (node_block v inode p) \<in> S"
  using assms unfolding map_inv_def by blast+

lemma grown_refl: "map_inv v a inode S \<Longrightarrow> grown a w (v, inode, S) (v, inode, S)"
  by (auto simp: grown_def intro: exI [of _ "i_block inode"])

lemma grown_trans:
  assumes "grown a w (v, inode, S) (v1, inode1, S1)" "grown a w (v1, inode1, S1) (v2, inode2, S2)" "map_inv v a inode S"
  shows "grown a w (v, inode, S) (v2, inode2, S2)"
proof -
  have g1: "S \<subseteq> S1" "\<exists>bs. inode1 = inode\<lparr>i_block := bs\<rparr>"
    "\<And>q. path_ok a q \<Longrightarrow> node_block v1 inode1 q \<noteq> node_block v inode q \<Longrightarrow>
       node_block v inode q = 0 \<and> unat (node_block v1 inode1 q) \<notin> S \<and> (\<exists>t. w = (fst q, snd q @ t))"
    "\<And>x. unat x \<in> S \<Longrightarrow> \<forall>q. tree_node a q \<longrightarrow> ucast (node_block v inode q) \<noteq> x \<Longrightarrow> v1 x = v x"
    using assms(1) by (auto simp: grown_def)
  have g2: "map_inv v2 a inode2 S2" "S1 \<subseteq> S2" "\<exists>bs. inode2 = inode1\<lparr>i_block := bs\<rparr>"
    "\<And>q. path_ok a q \<Longrightarrow> node_block v2 inode2 q \<noteq> node_block v1 inode1 q \<Longrightarrow>
       node_block v1 inode1 q = 0 \<and> unat (node_block v2 inode2 q) \<notin> S1 \<and> (\<exists>t. w = (fst q, snd q @ t))"
    "\<And>x. unat x \<in> S1 \<Longrightarrow> \<forall>q. tree_node a q \<longrightarrow> ucast (node_block v1 inode1 q) \<noteq> x \<Longrightarrow> v2 x = v1 x"
    using assms(2) by (auto simp: grown_def)
  show ?thesis unfolding grown_def prod.case
  proof (intro conjI allI impI)
    show "map_inv v2 a inode2 S2" "S \<subseteq> S2" using g1(1) g2(1,2) by auto
    show "\<exists>bs. inode2 = inode\<lparr>i_block := bs\<rparr>" using g1(2) g2(3) by auto
  next
    fix q assume q: "path_ok a q \<and> node_block v2 inode2 q \<noteq> node_block v inode q"
    have "node_block v inode q = 0 \<and> unat (node_block v2 inode2 q) \<notin> S \<and> (\<exists>t. w = (fst q, snd q @ t))"
    proof (cases "node_block v1 inode1 q = node_block v inode q")
      case True
      then show ?thesis using g2(4) [of q] q g1(1) by auto
    next
      case False
      then have "node_block v1 inode1 q \<noteq> 0" using g1(3) [of q] q by auto
      then have "node_block v2 inode2 q = node_block v1 inode1 q" using g2(4) [of q] q by blast
      then show ?thesis using g1(3) [of q] q False by simp
    qed
    then show "node_block v inode q = 0" "unat (node_block v2 inode2 q) \<notin> S" "\<exists>t. w = (fst q, snd q @ t)" by blast+
  next
    fix x :: u64 assume x: "unat x \<in> S \<and> (\<forall>q. tree_node a q \<longrightarrow> ucast (node_block v inode q) \<noteq> x)"
    have "ucast (node_block v1 inode1 q) \<noteq> x" if n: "tree_node a q" for q
    proof (cases "node_block v1 inode1 q = node_block v inode q")
      case True
      then show ?thesis using x n by (simp del: split_paired_All)
    next
      case False
      then have "unat (node_block v1 inode1 q) \<notin> S" using g1(3) [OF path_ok_node [OF n]] by blast
      then show ?thesis using x unat_ucast32_64 [of "node_block v1 inode1 q"] by metis
    qed
    then show "v2 x = v x" using g1(4) [of x] g2(5) [of x] x g1(1) by auto
  qed
qed

section \<open>Attaching a cleared block\<close>

text \<open>The pointer of the path \<open>p\<close>, in the inode or in an indirect block, is set to a new block.\<close>

fun attach :: "(u64 \<Rightarrow> u8 list) \<Rightarrow> ext2_inode \<Rightarrow> nat \<times> nat list \<Rightarrow> u32 \<Rightarrow> u8 list \<Rightarrow> (u64 \<Rightarrow> u8 list) \<times> ext2_inode" where
  "attach v inode (r, []) c z = (v(ucast c := z), inode\<lparr>i_block := (i_block inode)[r := c]\<rparr>)"
| "attach v inode (r, i # is) c z =
     (let b = ucast (node_block v inode (r, butlast (i # is)))
      in (v(ucast c := z, b := put32 (v b) (4 * last (i # is)) c), inode))"

lemma get32_zeros: "4 * i + 3 < n \<Longrightarrow> get32 (replicate n 0) (4 * i) = 0"
  by (simp add: get32_def get16_def)

lemma attach_snoc:
  "attach v inode (r, js @ [j]) c z =
     (v(ucast c := z, ucast (node_block v inode (r, js)) := put32 (v (ucast (node_block v inode (r, js)))) (4 * j) c), inode)"
  by (cases js) (simp_all add: Let_def butlast_append)

definition attachable :: "(u64 \<Rightarrow> u8 list) \<Rightarrow> nat \<Rightarrow> ext2_inode \<Rightarrow> nat set \<Rightarrow> nat \<times> nat list \<Rightarrow> u32 \<Rightarrow> bool" where
  "attachable v a inode S p c \<longleftrightarrow> map_inv v a inode S \<and> path_ok a p \<and> node_block v inode p = 0 \<and> c \<noteq> 0 \<and> unat c \<notin> S
     \<and> (snd p \<noteq> [] \<longrightarrow> node_block v inode (fst p, butlast (snd p)) \<noteq> 0)"

lemma attach_node:
  assumes at: "attachable v a inode S p c" and len: "\<And>b. length (v b) = bs" "4 * a \<le> bs"
    and r: "attach v inode p c (replicate bs 0) = (v', inode')"
  shows "path_ok a q \<Longrightarrow> node_block v' inode' q = (if q = p then c else node_block v inode q)"
proof -
  obtain s ks where q: "q = (s, ks)" by (cases q)
  obtain r "is" where p: "p = (r, is)" by (cases p)
  have m: "map_inv v a inode S" "path_ok a p" "node_block v inode p = 0" "c \<noteq> 0" "unat c \<notin> S"
    "is \<noteq> [] \<Longrightarrow> node_block v inode (r, butlast is) \<noteq> 0" using at by (auto simp: attachable_def p)
  show "path_ok a q \<Longrightarrow> node_block v' inode' q = (if q = p then c else node_block v inode q)"
    unfolding q
  proof (induction ks rule: rev_induct)
    case Nil
    show ?case
    proof (cases "is = []")
      case True
      then have "inode' = inode\<lparr>i_block := (i_block inode)[r := c]\<rparr>" using r p by simp
      moreover have "r < 15" "s < 15" using m(2) Nil by (auto simp: path_ok_def p split: if_splits)
      ultimately show ?thesis using True map_invD(2) [OF m(1)] by (auto simp: node_block_root p nth_list_update)
    next
      case False
      then have "inode' = inode" using r p by (cases "is") (auto simp: Let_def)
      then show ?thesis using False by (simp add: node_block_root p)
    qed
  next
    case (snoc j js)
    then have n: "tree_node a (s, js)" "j < a" and pj: "path_ok a (s, js)" using tree_node_path path_ok_node by blast+
    have IH: "node_block v' inode' (s, js) = (if (s, js) = p then c else node_block v inode (s, js))" by (rule snoc.IH [OF pj])
    define B where "B = node_block v inode (s, js)"
    have j: "4 * j + 3 < bs" using n(2) len(2) by linarith
    have old: "node_block v inode (s, js @ [j]) = ind_entry v B j" by (simp add: node_block_snoc B_def)
    have new: "node_block v' inode' (s, js @ [j]) = ind_entry v' (node_block v' inode' (s, js)) j" by (simp add: node_block_snoc)
    have vc: "is = [] \<Longrightarrow> v' = v(ucast c := replicate bs 0)" using r p by simp
    have uc: "(ucast x :: u64) = ucast c \<longleftrightarrow> x = c" "(ucast x :: u64) = ucast y \<longleftrightarrow> x = y" for x y :: u32
      using ucast_up_inj by blast+
    consider "(s, js) = p" | "(s, js) \<noteq> p" "B = 0" | "(s, js) \<noteq> p" "B \<noteq> 0" by blast
    then show ?case
    proof cases
      case 1
      then have "B = 0" using m(3) by (simp add: B_def)
      moreover have "v' (ucast c) = replicate bs 0"
      proof (cases "is = []")
        case True
        then show ?thesis using vc by simp
      next
        case False
        define b where "b = node_block v inode (r, butlast is)"
        have e: "is = butlast is @ [last is]" using False by simp
        have "path_ok a (r, butlast is @ [last is])" using m(2) p e by simp
        then have "path_ok a (r, butlast is)" using tree_node_path path_ok_node by blast
        then have "b \<noteq> c" using map_invD(3) [OF m(1), of "(r, butlast is)"] m(5,6) False by (auto simp: b_def)
        moreover have "v' = v(ucast c := replicate bs 0, ucast b := put32 (v (ucast b)) (4 * last is) c)"
          using r attach_snoc [of v inode r "butlast is" "last is" c "replicate bs 0"] e p by (simp add: b_def)
        ultimately show ?thesis using uc by simp
      qed
      ultimately show ?thesis using 1 IH new old j m(4) by (auto simp: ind_entry_def get32_zeros)
    next
      case 2
      then have "(s, js @ [j]) \<noteq> p" using m(6) by (auto simp: p B_def)
      then show ?thesis using 2 IH new old by (simp add: B_def ind_entry_def)
    next
      case 3
      have "B \<noteq> c" using map_invD(3) [OF m(1) pj] 3 m(5) by (auto simp: B_def)
      show ?thesis
      proof (cases "is = []")
        case True
        then have "v' (ucast B) = v (ucast B)" using vc uc \<open>B \<noteq> c\<close> by simp
        moreover have "(s, js @ [j]) \<noteq> p" using True p by simp
        ultimately show ?thesis using 3 IH new old by (simp add: B_def ind_entry_def)
      next
        case False
        define b where "b = node_block v inode (r, butlast is)"
        have e: "is = butlast is @ [last is]" using False by simp
        have "path_ok a (r, butlast is @ [last is])" using m(2) p e by simp
        then have nb: "tree_node a (r, butlast is)" "last is < a" using tree_node_path by blast+
        have b0: "b \<noteq> 0" "b \<noteq> c"
          using map_invD(3) [OF m(1) path_ok_node [OF nb(1)]] m(5,6) False by (auto simp: b_def)
        have v': "v' = (v(ucast c := replicate bs 0))(ucast b := put32 ((v(ucast c := replicate bs 0)) (ucast b)) (4 * last is) c)"
          using r attach_snoc [of v inode r "butlast is" "last is" c "replicate bs 0"] e p b0 uc by (simp add: b_def)
        have "ind_entry v' B j = (if B = b \<and> last is = j then c else ind_entry (v(ucast c := replicate bs 0)) B j)"
          unfolding v' by (rule ind_entry_upd [of _ _ bs]) (use len nb(2) j b0 in auto)
        also have "ind_entry (v(ucast c := replicate bs 0)) B j = ind_entry v B j"
          using \<open>B \<noteq> c\<close> uc by (simp add: ind_entry_def)
        also have "B = b \<and> last is = j \<longleftrightarrow> (s, js @ [j]) = p"
        proof -
          have "B = b \<longleftrightarrow> (s, js) = (r, butlast is)"
            using tree_okD [OF map_invD(1) [OF m(1)] n(1) nb(1)] 3 by (auto simp: B_def b_def)
          then show ?thesis using e p by (metis append1_eq_conv prod.inject)
        qed
        finally show ?thesis using 3 IH new old by (simp add: B_def)
      qed
    qed
  qed
qed

lemma attach_grown:
  assumes at: "attachable v a inode S p c" and len: "\<And>b. length (v b) = bs" "4 * a \<le> bs"
    and r: "attach v inode p c (replicate bs 0) = (v', inode')" and w: "w = (fst p, snd p @ t)"
  shows "grown a w (v, inode, S) (v', inode', insert (unat c) S)"
proof -
  obtain s "is" where p: "p = (s, is)" by (cases p)
  have m: "map_inv v a inode S" "path_ok a p" "node_block v inode p = 0" "c \<noteq> 0" "unat c \<notin> S"
    "is \<noteq> [] \<Longrightarrow> node_block v inode (s, butlast is) \<noteq> 0" using at by (auto simp: attachable_def p)
  note an = attach_node [OF at len r]
  have io: "\<exists>bs. inode' = inode\<lparr>i_block := bs\<rparr>" "length (i_block inode') = 15"
  proof -
    have *: "inode' = inode\<lparr>i_block := (i_block inode)[s := c]\<rparr> \<or> inode' = inode\<lparr>i_block := i_block inode\<rparr>"
      using r p by (cases "is") (auto simp: Let_def)
    then show "\<exists>bs. inode' = inode\<lparr>i_block := bs\<rparr>" by blast
    show "length (i_block inode') = 15" using * map_invD(2) [OF m(1)] by auto
  qed
  show ?thesis unfolding grown_def prod.case
  proof (intro conjI allI impI)
    have inS: "path_ok a q \<Longrightarrow> node_block v' inode' q \<noteq> 0 \<Longrightarrow> unat (node_block v' inode' q) \<in> insert (unat c) S" for q
      using an [of q] map_invD(3) [OF m(1), of q] by (cases "q = p") simp_all
    have "tree_ok v' a inode'" unfolding tree_ok_def
    proof (intro allI impI)
      fix x y assume *: "tree_node a x \<and> tree_node a y \<and> node_block v' inode' x = node_block v' inode' y \<and> node_block v' inode' x \<noteq> 0"
      then have pk: "path_ok a x" "path_ok a y" using path_ok_node by blast+
      show "x = y"
      proof (rule ccontr)
        assume "x \<noteq> y"
        then consider "x = p" "y \<noteq> p" | "x \<noteq> p" "y = p" | "x \<noteq> p" "y \<noteq> p" by blast
        then show False
        proof cases
          case 3
          then have "node_block v inode x = node_block v inode y" "node_block v inode x \<noteq> 0"
            using * an [OF pk(1)] an [OF pk(2)] by (metis (no_types))+
          then show False using * \<open>x \<noteq> y\<close> tree_okD [OF map_invD(1) [OF m(1)]] by blast
        next
          case 1
          then have "node_block v inode y = c" using * an [OF pk(1)] an [OF pk(2)] by simp
          then show False using map_invD(3) [OF m(1) pk(2)] m(4,5) by simp
        next
          case 2
          then have "node_block v inode x = c" using * an [OF pk(1)] an [OF pk(2)] by simp
          then show False using map_invD(3) [OF m(1) pk(1)] m(4,5) by simp
        qed
      qed
    qed
    then show "map_inv v' a inode' (insert (unat c) S)" using inS io(2) unfolding map_inv_def by blast
    show "S \<subseteq> insert (unat c) S" by auto
    show "\<exists>bs. inode' = inode\<lparr>i_block := bs\<rparr>" by (rule io)
  next
    fix q assume "path_ok a q \<and> node_block v' inode' q \<noteq> node_block v inode q"
    then have "q = p" "node_block v' inode' q = c" using an [of q] by (cases "q = p"; simp)+
    then show "node_block v inode q = 0" "unat (node_block v' inode' q) \<notin> S" "\<exists>t. w = (fst q, snd q @ t)"
      using m(3,5) w by auto
  next
    fix x :: u64 assume x: "unat x \<in> S \<and> (\<forall>q. tree_node a q \<longrightarrow> ucast (node_block v inode q) \<noteq> x)"
    then have xc: "x \<noteq> ucast c" using m(5) unat_ucast32_64 [of c] by metis
    show "v' x = v x"
    proof (cases "is = []")
      case True
      then show ?thesis using r p xc by auto
    next
      case False
      then have e: "is = butlast is @ [last is]" by simp
      have "path_ok a (s, butlast is @ [last is])" using m(2) p e by simp
      then have "x \<noteq> ucast (node_block v inode (s, butlast is))" using x tree_node_path by blast
      then show ?thesis using r attach_snoc [of v inode s "butlast is" "last is" c "replicate bs 0"] e p xc by auto
    qed
  qed
qed

end
