(* ===== verification/Bmap_keep.thy ===== *)
theory Bmap_keep
  imports Bmap_fill
begin

text \<open>
  What the allocation of a block leaves alone in the handle, so that the inode can be written after it:
  the cache of inodes, the tables of inodes and all of the super block but the counts of free blocks.
  Then the writing of an inode as a change of its block on the device.
\<close>

section \<open>The handle\<close>

definition keeps_inodes :: "('d, 'a) ext2_handle_scheme \<Rightarrow> ('d, 'a) ext2_handle_scheme \<Rightarrow> bool" where
  "keeps_inodes fs fs1 \<longleftrightarrow> fs_icache fs1 = fs_icache fs \<and> fs_magic fs1 = fs_magic fs \<and> fs_blocksize fs1 = fs_blocksize fs
     \<and> fs_group_desc_count fs1 = fs_group_desc_count fs \<and> length (fs_group_desc fs1) = length (fs_group_desc fs)
     \<and> fs_inode_blocks_per_group fs1 = fs_inode_blocks_per_group fs \<and> fs_csum_seed fs1 = fs_csum_seed fs
     \<and> fs_cluster_ratio_bits fs1 = fs_cluster_ratio_bits fs
     \<and> fs_flags fs1 AND EXT2_FLAG_IMAGE_FILE = fs_flags fs AND EXT2_FLAG_IMAGE_FILE
     \<and> fs_flags fs1 AND EXT2_FLAG_RW = fs_flags fs AND EXT2_FLAG_RW
     \<and> (\<exists>a b. fs_super fs1 = (fs_super fs)\<lparr>s_free_blocks_count := a, s_free_blocks_hi := b\<rparr>)
     \<and> (\<forall>g. group_in fs g \<longrightarrow> bg_inode_table (ext4fs_group_desc fs1 g) = bg_inode_table (ext4fs_group_desc fs g)
          \<and> bg_inode_table_hi (ext4fs_group_desc fs1 g) = bg_inode_table_hi (ext4fs_group_desc fs g))"

lemma super_same: "(s :: ext2_super_block) = s\<lparr>s_free_blocks_count := s_free_blocks_count s, s_free_blocks_hi := s_free_blocks_hi s\<rparr>"
  by simp

lemma keeps_super: "\<exists>a b. (s :: ext2_super_block) = s\<lparr>s_free_blocks_count := a, s_free_blocks_hi := b\<rparr>"
  using super_same by blast

lemma keeps_refl [simp]: "keeps_inodes fs fs"
  unfolding keeps_inodes_def using keeps_super by blast

lemma keeps_group: "keeps_inodes fs fs1 \<Longrightarrow> group_in fs1 g = group_in fs g"
  by (simp add: keeps_inodes_def group_in_def)

lemma keeps_trans:
  assumes "keeps_inodes fs fs1" "keeps_inodes fs1 fs2"
  shows "keeps_inodes fs fs2"
proof -
  have "\<exists>a b. fs_super fs2 = (fs_super fs)\<lparr>s_free_blocks_count := a, s_free_blocks_hi := b\<rparr>"
  proof -
    obtain a b c d where "fs_super fs1 = (fs_super fs)\<lparr>s_free_blocks_count := a, s_free_blocks_hi := b\<rparr>"
      "fs_super fs2 = (fs_super fs1)\<lparr>s_free_blocks_count := c, s_free_blocks_hi := d\<rparr>"
      using assms unfolding keeps_inodes_def by blast
    then have "fs_super fs2 = (fs_super fs)\<lparr>s_free_blocks_count := c, s_free_blocks_hi := d\<rparr>" by simp
    then show ?thesis by blast
  qed
  moreover have "group_in fs g \<Longrightarrow> bg_inode_table (ext4fs_group_desc fs2 g) = bg_inode_table (ext4fs_group_desc fs g)
          \<and> bg_inode_table_hi (ext4fs_group_desc fs2 g) = bg_inode_table_hi (ext4fs_group_desc fs g)" for g
    using assms keeps_group [OF assms(1)] by (simp add: keeps_inodes_def)
  ultimately show ?thesis using assms by (simp add: keeps_inodes_def)
qed

lemma keeps_io: "keeps_inodes fs (fs\<lparr>fs_io := io\<rparr>)"
  using keeps_super by (simp add: keeps_inodes_def ext4fs_group_desc_def ext2fs_group_desc_def)

lemma keeps_desc:
  assumes "group_in fs g" "bg_inode_table d = bg_inode_table (ext4fs_group_desc fs g)"
    "bg_inode_table_hi d = bg_inode_table_hi (ext4fs_group_desc fs g)"
  shows "keeps_inodes fs (gdp_store fs g d)"
  using assms keeps_super by (auto simp: keeps_inodes_def gdp_store_get) (simp_all add: gdp_store_def)

lemma keeps_ops:
  "keeps_inodes fs (upd_block_map h fs)" "keeps_inodes fs (ext2fs_mark_super_dirty fs)" "keeps_inodes fs (ext2fs_mark_bb_dirty fs)"
  "keeps_inodes fs (fs\<lparr>fs_super := ext2fs_free_blocks_count_add (fs_super fs) k\<rparr>)"
proof -
  show "keeps_inodes fs (fs\<lparr>fs_super := ext2fs_free_blocks_count_add (fs_super fs) k\<rparr>)"
  proof -
    have "\<exists>a b. ext2fs_free_blocks_count_add (fs_super fs) k = (fs_super fs)\<lparr>s_free_blocks_count := a, s_free_blocks_hi := b\<rparr>"
    proof (cases "ext2fs_has_feature_64bit (fs_super fs)")
      case True
      then show ?thesis by (auto simp: ext2fs_free_blocks_count_add_def ext2fs_free_blocks_count_set_def Let_def has_feature_incompat_def)
    next
      case False
      then show ?thesis
        by (intro exI [of _ "ucast (ext2fs_free_blocks_count (fs_super fs) + k)"] exI [of _ "s_free_blocks_hi (fs_super fs)"])
          (simp add: ext2fs_free_blocks_count_add_def ext2fs_free_blocks_count_set_def Let_def has_feature_incompat_def)
    qed
    then show ?thesis by (simp add: keeps_inodes_def ext4fs_group_desc_def ext2fs_group_desc_def)
  qed
qed (use keeps_super in \<open>simp_all add: keeps_inodes_def upd_block_map_def ext2fs_mark_super_dirty_def ext2fs_mark_bb_dirty_def
       ext4fs_group_desc_def ext2fs_group_desc_def bit.conj_disj_distrib2\<close>)

lemma keeps_group_ops:
  assumes "group_in fs g"
  shows "keeps_inodes fs (ext2fs_bg_free_blocks_count_set fs g n)" "keeps_inodes fs (ext2fs_bg_flags_clear fs g x)"
    "keeps_inodes fs (ext2fs_group_desc_csum_set fs g)"
  using assms by (auto simp: ext2fs_bg_free_blocks_count_set_def ext2fs_bg_flags_clear_def ext2fs_group_desc_csum_set_def
      ext2fs_bg_checksum_set_def Let_def intro!: keeps_desc)

lemma block_group_in:
  assumes "fs_sound fs" "unat b \<in> blocks_of fs"
  shows "group_in fs (ext2fs_group_of_blk2 fs b)"
  using group_of_blk_nat [of fs b] assms
  by (simp add: blocks_of_def group_in_def fs_sound_def ngroups_def word_less_nat_alt)

lemma keeps_alloc:
  assumes "group_in fs (ext2fs_group_of_blk2 fs b)"
  shows "keeps_inodes fs (ext2fs_clear_block_uninit fs (ext2fs_group_of_blk2 fs b))" (is "keeps_inodes fs ?c")
    "keeps_inodes fs (ext2fs_block_alloc_stats2 fs b k)"
proof -
  define g where "g = ext2fs_group_of_blk2 fs b"
  have g: "group_in fs g" using assms by (simp add: g_def)
  note step = keeps_trans [OF _ keeps_ops(1)] keeps_trans [OF _ keeps_ops(2)] keeps_trans [OF _ keeps_ops(3)] keeps_trans [OF _ keeps_ops(4)]
    keeps_trans [OF _ keeps_group_ops(1)] keeps_trans [OF _ keeps_group_ops(2)] keeps_trans [OF _ keeps_group_ops(3)]
  have c1: "keeps_inodes fs (ext2fs_bg_flags_clear fs g EXT2_BG_BLOCK_UNINIT)" (is "keeps_inodes fs ?c1") by (rule keeps_group_ops(2) [OF g])
  then have "group_in ?c1 g" using g keeps_group by blast
  then have "keeps_inodes fs (ext2fs_mark_bb_dirty (ext2fs_mark_super_dirty (ext2fs_group_desc_csum_set ?c1 g)))"
    using c1 by - (rule step(3), rule step(2), rule step(7))
  then show "keeps_inodes fs ?c" by (simp add: ext2fs_clear_block_uninit_def g_def)
  define f1 where "f1 = upd_block_map (\<lambda>m. fst ((if k > 0 then ext2fs_mark_generic_bmap else ext2fs_unmark_generic_bmap) m b)) fs"
  define f2 where "f2 = ext2fs_bg_free_blocks_count_set f1 g (ext2fs_bg_free_blocks_count f1 g - of_int k)"
  define f3 where "f3 = ext2fs_bg_flags_clear f2 g EXT2_BG_BLOCK_UNINIT"
  define f4 where "f4 = ext2fs_group_desc_csum_set f3 g"
  define f5 where "f5 = f4\<lparr>fs_super := ext2fs_free_blocks_count_add (fs_super f4) (of_int (- k) * EXT2FS_CLUSTER_RATIO f4)\<rparr>"
  have k1: "keeps_inodes fs f1" by (simp add: f1_def keeps_ops)
  then have k2: "keeps_inodes fs f2" unfolding f2_def by (rule step(5)) (simp add: keeps_group [OF k1] g)
  then have k3: "keeps_inodes fs f3" unfolding f3_def by (rule step(6)) (simp add: keeps_group [OF k2] g)
  then have k4: "keeps_inodes fs f4" unfolding f4_def by (rule step(7)) (simp add: keeps_group [OF k3] g)
  then have k5: "keeps_inodes fs f5" unfolding f5_def by (rule step(4))
  then have "keeps_inodes fs (ext2fs_mark_bb_dirty (ext2fs_mark_super_dirty f5))" by (intro step(2,3))
  then show "keeps_inodes fs (ext2fs_block_alloc_stats2 fs b k)" using k1
    by (simp add: ext2fs_block_alloc_stats2_def Let_def g_def f1_def f2_def f3_def f4_def f5_def)
qed

text \<open>The places and the sizes of the inodes are the same.\<close>

lemma keepsD:
  assumes "keeps_inodes fs fs1"
  shows "fs_icache fs1 = fs_icache fs" "isize fs1 = isize fs" "bsize fs1 = bsize fs" "fs_ready fs1 = fs_ready fs"
    "on_device fs1 = on_device fs" "ino_ok fs1 ino = ino_ok fs ino"
    "iblk_get fs1 i = iblk_get fs i" "ext2fs_iblk_add_blocks fs1 i n = ext2fs_iblk_add_blocks fs i n"
    "ext2fs_inode_csum_set fs1 ino x = ext2fs_inode_csum_set fs ino x"
proof -
  obtain a b where s: "fs_super fs1 = (fs_super fs)\<lparr>s_free_blocks_count := a, s_free_blocks_hi := b\<rparr>"
    using assms by (auto simp: keeps_inodes_def)
  have k: "fs_icache fs1 = fs_icache fs" "fs_magic fs1 = fs_magic fs" "fs_blocksize fs1 = fs_blocksize fs"
     "fs_group_desc_count fs1 = fs_group_desc_count fs" "fs_csum_seed fs1 = fs_csum_seed fs"
     "fs_cluster_ratio_bits fs1 = fs_cluster_ratio_bits fs"
     "fs_flags fs1 AND EXT2_FLAG_IMAGE_FILE = fs_flags fs AND EXT2_FLAG_IMAGE_FILE"
     "fs_flags fs1 AND EXT2_FLAG_RW = fs_flags fs AND EXT2_FLAG_RW" using assms by (simp_all add: keeps_inodes_def)
  show "fs_icache fs1 = fs_icache fs" by (rule k)
  show i: "isize fs1 = isize fs" by (simp add: isize_def EXT2_INODE_SIZE_def s)
  show "bsize fs1 = bsize fs" by (simp add: bsize_def k)
  show "fs_ready fs1 = fs_ready fs" by (simp add: fs_ready_def k s has_feature_incompat_def)
  show "on_device fs1 = on_device fs" by (simp add: on_device_def k i)
  show "ino_ok fs1 ino = ino_ok fs ino" by (simp add: ino_ok_def ino_group_def k s)
  show g: "iblk_get fs1 i = iblk_get fs i" for i :: "'e ext2_inode_scheme"
    by (simp add: iblk_get_def s has_feature_ro_compat_def)
  show "ext2fs_iblk_add_blocks fs1 i n = ext2fs_iblk_add_blocks fs i n"
    by (simp add: ext2fs_iblk_add_blocks_def g iblk_units_def EXT2FS_CLUSTER_RATIO_def k s has_feature_ro_compat_def)
  show "ext2fs_inode_csum_set fs1 ino x = ext2fs_inode_csum_set fs ino x"
    by (simp add: ext2fs_inode_csum_set_def ext2fs_inode_csum_def crc32c_inode_def inode_has_hi_def k s has_feature_ro_compat_def EXT2_INODE_SIZE_def)
qed

lemma keeps_place:
  assumes k: "keeps_inodes fs fs1" and l: "length (fs_group_desc fs) = unat (fs_group_desc_count fs)"
  shows "g < fs_group_desc_count fs \<Longrightarrow> ext2fs_inode_table_loc fs1 g = ext2fs_inode_table_loc fs g"
    "ino_ok fs ino \<Longrightarrow> inode_place fs1 ino = inode_place fs ino" "itables_ok fs1 = itables_ok fs"
    "ino_valid fs ino \<Longrightarrow> ino_valid fs1 ino" "ino_ok fs ino \<Longrightarrow> disk_inode v fs1 ino = disk_inode v fs ino"
    "ino_ok fs ino \<Longrightarrow> put_inode v fs1 ino w = put_inode v fs ino w"
proof -
  obtain a b where s: "fs_super fs1 = (fs_super fs)\<lparr>s_free_blocks_count := a, s_free_blocks_hi := b\<rparr>"
    using k by (auto simp: keeps_inodes_def)
  note d = keepsD [OF k]
  have c: "fs_group_desc_count fs1 = fs_group_desc_count fs" "fs_inode_blocks_per_group fs1 = fs_inode_blocks_per_group fs"
    using k by (simp_all add: keeps_inodes_def)
  show loc: "ext2fs_inode_table_loc fs1 g = ext2fs_inode_table_loc fs g" if "g < fs_group_desc_count fs" for g
    using that l k by (simp add: ext2fs_inode_table_loc_def keeps_inodes_def group_in_def Let_def s has_feature_incompat_def)
  show pl: "inode_place fs1 ino = inode_place fs ino" if "ino_ok fs ino"
    using that loc [of "ino_group fs ino"]
    by (simp add: inode_place_def ino_ok_def ino_group_def Let_def s c EXT2_INODE_SIZE_def EXT2_BLOCK_SIZE_def
        ext2fs_blocks_count_def has_feature_incompat_def)
  have "itable_len fs1 = itable_len fs" by (simp add: itable_len_def s d)
  then show "itables_ok fs1 = itables_ok fs" using loc by (auto simp: itables_ok_def s c d)
  show "ino_valid fs ino \<Longrightarrow> ino_valid fs1 ino" using pl by (simp add: ino_valid_def d s)
  show "ino_ok fs ino \<Longrightarrow> disk_inode v fs1 ino = disk_inode v fs ino" unfolding disk_inode_def d(2) using pl by simp
  show "ino_ok fs ino \<Longrightarrow> put_inode v fs1 ino w = put_inode v fs ino w" unfolding put_inode_def d(2) using pl by simp
qed

section \<open>The inode on the device\<close>

text \<open>The fields of an inode on the device, all but its checksum.\<close>

definition inode_on :: "(u64 \<Rightarrow> u8 list) \<Rightarrow> 'a fs_base_scheme \<Rightarrow> u32 \<Rightarrow> ext2_inode \<Rightarrow> bool" where
  "inode_on v fs ino i \<longleftrightarrow> (inode_of (disk_inode v fs ino))\<lparr>l_i_checksum_lo := 0\<rparr> = i\<lparr>l_i_checksum_lo := 0\<rparr>"

context block_dev_total
begin

lemma write_inode_done:
  assumes d: "dinv (fs_io fs)" and bs: "bsize fs = bs" and inv: "icache_inv (V (fs_io fs)) fs" and mem: "alloc_total mem"
    and dev: "on_device fs" "itables_ok fs" and rdy: "fs_ready fs" "ino_valid fs ino" and i: "length (i_block i) = 15"
  shows "\<exists>fs1. ext2fs_write_inode mem m fs ino i = Some (fs1, 0) \<and> dinv (fs_io fs1) \<and> io_step fs fs1
    \<and> icache_inv (V (fs_io fs1)) fs1 \<and> inode_on (V (fs_io fs1)) fs ino i
    \<and> (\<forall>b off. inode_place fs ino = Inr (b, off) \<longrightarrow> (\<forall>x. x \<noteq> b \<longrightarrow> V (fs_io fs1) x = V (fs_io fs) x))
    \<and> (\<forall>j. ino_ok fs j \<and> j \<noteq> ino \<longrightarrow> disk_inode (V (fs_io fs1)) fs j = disk_inode (V (fs_io fs)) fs j)"
proof -
  have ms: "alloc_sized mem" using mem by (simp add: alloc_total_def)
  have ok: "ino_ok fs ino" using rdy(2) by (simp add: ino_valid_def)
  have fit: "inode_fits fs ino" by (rule inode_fits_ok [OF dev(2) ok])
  have sz: "128 \<le> isize fs" using dev(1) by (simp add: on_device_def)
  have lb: "length (inode_bytes i) = 128" using i by (simp add: length_inode_bytes)
  obtain fs1 where wr: "ext2fs_write_inode2 mem m fs ino (inode_bytes i) 0 = Some (fs1, 0)"
    using write_inode2_total [OF d bs inv mem dev(1) fit rdy] by blast
  note w2 = write_inode2 [OF d bs inv ms dev(1) fit wr]
  obtain w where w: "length w = isize fs" "take 128 w = inode_bytes i"
      "V (fs_io fs1) = put_inode (V (fs_io fs)) fs ino (stored_inode fs ino w 0)"
    using w2(3) lb sz by auto
  obtain b off where p: "inode_place fs ino = Inr (b, off)" using rdy(2) by (auto simp: ino_valid_def)
  have lst: "length (stored_inode fs ino w 0) = isize fs"
    using w by (simp add: stored_inode_def ext2fs_inode_csum_set_def ext2fs_inode_csum_def Let_def)
  have len: "length (V (fs_io fs) x) = bsize fs" for x by (simp add: dev_length [OF d] bs)
  have "stored_inode fs ino w 0 ! k = inode_bytes i ! k" if k: "k < 128" "k \<noteq> 124" "k \<noteq> 125" for k
    using stored_inode_nth [of w fs k ino 0] w sz k by (metis nth_take)
  then have "(inode_of (stored_inode fs ino w 0))\<lparr>l_i_checksum_lo := 0\<rparr> = (inode_of (inode_bytes i))\<lparr>l_i_checksum_lo := 0\<rparr>"
    by (rule inode_of_cong)
  then have on: "inode_on (V (fs_io fs1)) fs ino i"
    unfolding inode_on_def w(3) disk_inode_put [OF fit p len lst] by (simp add: inode_of_bytes [OF i])
  have oth: "\<forall>j. ino_ok fs j \<and> j \<noteq> ino \<longrightarrow> disk_inode (V (fs_io fs1)) fs j = disk_inode (V (fs_io fs)) fs j"
  proof (intro allI impI)
    fix j assume "ino_ok fs j \<and> j \<noteq> ino"
    then have "ino_ok fs j" "ino \<noteq> j" by auto
    then show "disk_inode (V (fs_io fs1)) fs j = disk_inode (V (fs_io fs)) fs j"
      unfolding w(3) by (rule disk_inode_put_other [OF dev(2) ok _ _ len lst])
  qed
  have "\<forall>x. x \<noteq> b \<longrightarrow> V (fs_io fs1) x = V (fs_io fs) x" unfolding w(3) by (simp add: put_inode_def p)
  then have fr: "\<forall>b off. inode_place fs ino = Inr (b, off) \<longrightarrow> (\<forall>x. x \<noteq> b \<longrightarrow> V (fs_io fs1) x = V (fs_io fs) x)" using p by simp
  have res: "ext2fs_write_inode mem m fs ino i = Some (fs1, 0)" using wr by (simp add: ext2fs_write_inode_def)
  have st: "dinv (fs_io fs1)" "io_step fs fs1" "icache_inv (V (fs_io fs1)) fs1" using w2(1) w2(3) [OF refl] by iprover+
  show ?thesis by (intro exI [of _ fs1] conjI res st on oth fr)
qed

end

end
