(* ===== verification/Bmap_alloc.thy ===== *)
theory Bmap_alloc
  imports Bmap_keep
begin

text \<open>
  The allocation of a block of an inode: every level keeps the accounting of the blocks and the map of the
  inode, and grows the map towards the block that was asked for.
\<close>

section \<open>One new block\<close>

lemma alloc_keeps [simp]:
  "fs_blocksize (ext2fs_clear_block_uninit fs g) = fs_blocksize fs"
  "fs_io (ext2fs_clear_block_uninit h g) = fs_io h"
  "fs_blocksize (ext2fs_block_alloc_stats2 f b k) = fs_blocksize f"
  "fs_io (ext2fs_block_alloc_stats2 h b k) = fs_io h"
  by (simp_all add: ext2fs_clear_block_uninit_def ext2fs_block_alloc_stats2_def Let_def upd_block_map_def gdp_store_def
      ext2fs_bg_free_blocks_count_set_def ext2fs_bg_flags_clear_def ext2fs_group_desc_csum_set_def ext2fs_bg_checksum_set_def
      ext2fs_mark_super_dirty_def ext2fs_mark_bb_dirty_def)

definition map_state ::
  "('d io_channel \<Rightarrow> bool) \<Rightarrow> ('d io_channel \<Rightarrow> u64 \<Rightarrow> u8 list) \<Rightarrow> ('d, 'a) ext2_handle_scheme \<Rightarrow> ext2_inode \<Rightarrow> nat set \<Rightarrow> bool" where
  "map_state dinv V fs inode S \<longleftrightarrow> dinv (fs_io fs) \<and> acc_ok fs S \<and> map_inv (V (fs_io fs)) (napb fs) inode S
     \<and> S \<noteq> {} \<and> S \<subseteq> blocks_of fs \<and> (0 \<in> blocks_of fs \<longrightarrow> 0 \<in> S) \<and> map_geom fs \<and> nblocks fs \<le> 2 ^ 32"

definition reached ::
  "('d io_channel \<Rightarrow> bool) \<Rightarrow> ('d io_channel \<Rightarrow> u64 \<Rightarrow> u8 list) \<Rightarrow> nat \<times> nat list \<Rightarrow>
   ('d, 'a) ext2_handle_scheme \<times> ext2_inode \<times> nat set \<Rightarrow> ('d, 'a) ext2_handle_scheme \<times> ext2_inode \<times> nat set \<Rightarrow> nat \<Rightarrow> bool" where
  "reached dinv V w x y n \<longleftrightarrow> (case (x, y) of ((fs, inode, S), (fs1, inode1, S1)) \<Rightarrow>
     map_state dinv V fs1 inode1 S1 \<and> same_geo fs fs1 \<and> keeps_inodes fs fs1 \<and> fs_blocksize fs1 = fs_blocksize fs \<and> card S1 = card S + n
     \<and> grown (napb fs) w (V (fs_io fs), inode, S) (V (fs_io fs1), inode1, S1))"

text \<open>Nothing is free.\<close>

definition no_space :: "'a fs_base_scheme \<Rightarrow> nat set \<Rightarrow> bool" where
  "no_space fs S \<longleftrightarrow> blocks_of fs \<subseteq> S"

lemma no_space_same: "same_geo fs fs1 \<Longrightarrow> no_space fs1 S = no_space fs S"
  using same_geoD(7) [of fs fs1] by (simp add: no_space_def)

lemma same_napb: "fs_blocksize fs1 = fs_blocksize fs \<Longrightarrow> napb fs1 = napb fs \<and> addr_per_block fs1 = addr_per_block fs \<and> map_geom fs1 = map_geom fs"
  by (simp add: napb_def addr_per_block_def map_geom_def)

lemma acc_io: "acc_ok (fs\<lparr>fs_io := io\<rparr>) S = acc_ok fs S"
proof -
  have "same_geo fs (fs\<lparr>fs_io := io\<rparr>)" by (simp add: same_geo_def)
  note s = same_geoD [OF this]
  have "ext2fs_bg_free_blocks_count (fs\<lparr>fs_io := io\<rparr>) g = ext2fs_bg_free_blocks_count fs g" for g
    by (simp add: free_blocks_desc ext4fs_group_desc_def ext2fs_group_desc_def)
  then show ?thesis by (simp add: acc_ok_def s)
qed

lemma reached_trans:
  assumes "reached dinv V w (fs, inode, S) (fs1, inode1, S1) n" "reached dinv V w (fs1, inode1, S1) (fs2, inode2, S2) k"
    "map_state dinv V fs inode S"
  shows "reached dinv V w (fs, inode, S) (fs2, inode2, S2) (n + k)"
proof -
  have r1: "same_geo fs fs1" "fs_blocksize fs1 = fs_blocksize fs" "card S1 = card S + n" "keeps_inodes fs fs1"
    "grown (napb fs) w (V (fs_io fs), inode, S) (V (fs_io fs1), inode1, S1)"
    using assms(1) unfolding reached_def prod.case by simp_all
  have n: "napb fs1 = napb fs" using same_napb [OF r1(2)] by simp
  have r2: "map_state dinv V fs2 inode2 S2" "same_geo fs1 fs2" "fs_blocksize fs2 = fs_blocksize fs1" "card S2 = card S1 + k" "keeps_inodes fs1 fs2"
    "grown (napb fs) w (V (fs_io fs1), inode1, S1) (V (fs_io fs2), inode2, S2)"
    using assms(2) unfolding reached_def prod.case n by simp_all
  have "map_inv (V (fs_io fs)) (napb fs) inode S" using assms(3) by (simp add: map_state_def)
  then have "grown (napb fs) w (V (fs_io fs), inode, S) (V (fs_io fs2), inode2, S2)"
    by (rule grown_trans [OF r1(5) r2(6)])
  then show ?thesis using r1 r2 same_geo_trans [OF r1(1) r2(2)] keeps_trans [OF r1(4) r2(5)] unfolding reached_def prod.case by simp
qed

lemma same_geo_io: "same_geo fs (fs\<lparr>fs_io := io\<rparr>)"
  by (simp add: same_geo_def)

lemma map_state_io:
  assumes "map_state dinv V fs inode S" "dinv io" "V io = V (fs_io fs)"
  shows "map_state dinv V (fs\<lparr>fs_io := io\<rparr>) inode S" "reached dinv V w (fs, inode, S) (fs\<lparr>fs_io := io\<rparr>, inode, S) 0"
proof -
  note s = same_geoD [OF same_geo_io [of fs io]]
  have n: "napb (fs\<lparr>fs_io := io\<rparr>) = napb fs" "map_geom (fs\<lparr>fs_io := io\<rparr>) = map_geom fs" by (simp_all add: napb_def map_geom_def)
  show st: "map_state dinv V (fs\<lparr>fs_io := io\<rparr>) inode S" using assms by (simp add: map_state_def acc_io s n)
  show "reached dinv V w (fs, inode, S) (fs\<lparr>fs_io := io\<rparr>, inode, S) 0"
    using st assms by (simp add: reached_def same_geo_io keeps_io map_state_def grown_refl)
qed

lemma map_state_goal:
  assumes "map_state dinv V fs inode S" "path_ok (napb fs) p"
  shows "(ucast (node_block (V (fs_io fs)) inode p) :: u64) = 0 \<or> fdb fs \<le> unat (ucast (node_block (V (fs_io fs)) inode p) :: u64)"
proof (cases "node_block (V (fs_io fs)) inode p = 0")
  case False
  then have "unat (node_block (V (fs_io fs)) inode p) \<in> blocks_of fs"
    using assms map_invD(3) [of "V (fs_io fs)" "napb fs" inode S p] by (auto simp: map_state_def)
  then show ?thesis by (simp add: blocks_of_def unat_ucast32_64)
qed simp

context block_dev32
begin

lemma handle_alloc:
  assumes st: "map_state dinv V fs inode S" and bs: "bs = unat (fs_blocksize fs)" and goal: "goal = 0 \<or> fdb fs \<le> unat goal"
  obtains (full) "handle_alloc mem m fs zb goal True = Some (fs, zb, Inl EXT2_ET_BLOCK_ALLOC_FAIL)" "no_space fs S"
  | (got) fs1 b where "handle_alloc mem m fs zb goal True = Some (fs1, zb, Inr b)" "unat b \<in> blocks_of fs - S"
      "acc_ok fs1 (insert (unat b) S)" "same_geo fs fs1" "fs_blocksize fs1 = fs_blocksize fs" "dinv (fs_io fs1)" "keeps_inodes fs fs1"
      "V (fs_io fs1) = (V (fs_io fs))(b := replicate bs 0)"
proof -
  have acc: "acc_ok fs S" and d: "dinv (fs_io fs)" using st by (simp_all add: map_state_def)
  obtain g where g: "fs_block_map fs = Some g" "map_for fs g S" using acc_map [OF acc] by blast
  show ?thesis
  proof (cases rule: new_block [OF g(2,1) goal, case_names found full])
    case (found b)
    define f1 where "f1 = ext2fs_clear_block_uninit fs (ext2fs_group_of_blk2 fs b)"
    obtain io where w: "io_channel_write_blk64 m (fs_io fs) b 1 (replicate (unat (fs_blocksize fs)) 0) = (io, 0)"
      "dinv io" "V io = (V (fs_io fs))(b := replicate bs 0)"
      using dev_write_total [OF d, of "replicate bs 0"] bs by auto
    define f2 where "f2 = ext2fs_block_alloc_stats2 f1 b 1"
    have "alloc_one fs goal = Some (f2, b)" using found(1) by (simp add: alloc_one_def f1_def f2_def)
    note a = alloc_one [OF acc goal this]
    have bz: "fs_blocksize f2 = fs_blocksize fs" by (simp add: f2_def f1_def)
    have fz: "fs_blocksize f1 = fs_blocksize fs" by (simp add: f1_def)
    have "handle_alloc mem m fs zb goal True = Some (f2\<lparr>fs_io := io\<rparr>, zb, Inr b)"
      using found(1) w(1) fz by (simp add: handle_alloc_def ext2fs_alloc_block3_def ext2fs_new_block2_def f1_def [symmetric] f2_def)
    moreover have "keeps_inodes fs (f2\<lparr>fs_io := io\<rparr>)"
    proof -
      have gi: "group_in fs (ext2fs_group_of_blk2 fs b)" using a(2) acc by (simp add: block_group_in acc_ok_def)
      have k: "keeps_inodes fs f1" unfolding f1_def by (rule keeps_alloc(1) [OF gi])
      have "ext2fs_group_of_blk2 f1 b = ext2fs_group_of_blk2 fs b" using k by (auto simp: keeps_inodes_def ext2fs_group_of_blk2_def)
      then have "keeps_inodes f1 f2" unfolding f2_def by (intro keeps_alloc(2)) (simp add: keeps_group [OF k] gi)
      then show ?thesis using k keeps_trans keeps_io by blast
    qed
    ultimately show ?thesis
      using a w bz by (intro got [of "f2\<lparr>fs_io := io\<rparr>" b]) (simp_all add: acc_io same_geo_trans [OF _ same_geo_io])
  next
    case full
    then have "handle_alloc mem m fs zb goal True = Some (fs, zb, Inl EXT2_ET_BLOCK_ALLOC_FAIL)"
      by (simp add: handle_alloc_def ext2fs_alloc_block3_def ext2fs_new_block2_def)
    moreover have "no_space fs S" using full(2) st by (cases g) (auto simp: no_space_def map_state_def)
    ultimately show ?thesis by (rule that(1))
  qed
qed

text \<open>A new block that is attached at \<open>p\<close>: the state and the map go on.\<close>

lemma attach_state:
  fixes b :: u64
  assumes st: "map_state dinv V fs inode S" and bs: "bs = unat (fs_blocksize fs)"
    and b: "unat b \<in> blocks_of fs - S" "acc_ok fs1 (insert (unat b) S)" "same_geo fs fs1" "fs_blocksize fs1 = fs_blocksize fs" "dinv (fs_io fs1)"
      "keeps_inodes fs fs1"
    and p: "path_ok (napb fs) p" "node_block (V (fs_io fs)) inode p = 0"
      "snd p \<noteq> [] \<Longrightarrow> node_block (V (fs_io fs)) inode (fst p, butlast (snd p)) \<noteq> 0"
    and r: "attach (V (fs_io fs)) inode p (ucast b) (replicate bs 0) = (V (fs_io fs1), inode1)"
    and w: "w = (fst p, snd p @ t)"
  shows "reached dinv V w (fs, inode, S) (fs1, inode1, insert (unat b) S) 1"
    "node_block (V (fs_io fs1)) inode1 p = ucast b" "(ucast b :: u32) \<noteq> 0"
proof -
  have m: "map_inv (V (fs_io fs)) (napb fs) inode S" and geom: "map_geom fs" and nb: "nblocks fs \<le> 2 ^ 32"
    and S: "S \<subseteq> blocks_of fs" and d: "dinv (fs_io fs)" using st by (simp_all add: map_state_def)
  have "unat b < 2 ^ 32" using b(1) nb by (auto simp: blocks_of_def)
  then have u: "unat (ucast b :: u32) = unat b" by (rule unat_ucast64_32)
  have "b \<noteq> 0" using st b(1) by (auto simp: map_state_def)
  then show c: "(ucast b :: u32) \<noteq> 0" using u by (metis unsigned_0 unsigned_eq_0_iff)
  have at: "attachable (V (fs_io fs)) (napb fs) inode S p (ucast b)"
    using m p c b(1) u by (simp add: attachable_def)
  have len: "\<And>x. length (V (fs_io fs) x) = bs" "4 * napb fs \<le> bs" using dev_length [OF d] map_geom(4) [OF geom] bs by simp_all
  have g: "grown (napb fs) w (V (fs_io fs), inode, S) (V (fs_io fs1), inode1, insert (unat b) S)"
    using attach_grown [OF at len r w] u by simp
  show "node_block (V (fs_io fs1)) inode1 p = ucast b" using attach_node [OF at len r p(1)] by simp
  have nm: "napb fs1 = napb fs" "map_geom fs1 = map_geom fs" using same_napb [OF b(4)] by blast+
  have "map_inv (V (fs_io fs1)) (napb fs) inode1 (insert (unat b) S)" using g by (simp add: grown_def)
  then have "map_state dinv V fs1 inode1 (insert (unat b) S)"
    using b S st by (auto simp: map_state_def nm same_geoD [OF b(3)])
  moreover have "finite S" using S finite_group_blocks(2) by (rule finite_subset)
  ultimately show "reached dinv V w (fs, inode, S) (fs1, inode1, insert (unat b) S) 1"
    using g b by (simp add: reached_def)
qed


text \<open>
  The outcome of a step towards the path \<open>p\<close>: the state is reached with \<open>n\<close> new blocks, and there is
  a block at \<open>p\<close>, or the file system is full.
\<close>

lemma reached_state: "reached dinv V w x (fs1, inode1, S1) n \<Longrightarrow> map_state dinv V fs1 inode1 S1"
  by (auto simp: reached_def)

lemma reached_same:
  assumes "reached dinv V w (fs, inode, S) (fs1, inode1, S1) n"
  shows "fs_blocksize fs1 = fs_blocksize fs" "napb fs1 = napb fs" "addr_per_block fs1 = addr_per_block fs" "same_geo fs fs1"
  using assms same_napb [of fs1 fs] by (auto simp: reached_def)

lemma ind_alloc:
  assumes st: "map_state dinv V fs inode S" and bs: "bs = unat (fs_blocksize fs)"
    and f: "flags AND BMAP_SET = 0" "flags AND BMAP_ALLOC \<noteq> 0"
    and p: "path_ok (napb fs) (r, is @ [unat nr])" and b: "b = node_block (V (fs_io fs)) inode (r, is)" "b \<noteq> 0"
    and w: "w = (r, is @ [unat nr] @ t)"
  shows "\<exists>fs1 S1 n x err. block_ind_bmap mem m flags b nr fs zb q = Some (fs1, zb, n, x, err)
    \<and> reached dinv V w (fs, inode, S) (fs1, inode, S1) n \<and> n \<le> 1
    \<and> (err = 0 \<and> x = node_block (V (fs_io fs1)) inode (r, is @ [unat nr]) \<and> x \<noteq> 0 \<or> err = EXT2_ET_BLOCK_ALLOC_FAIL \<and> no_space fs1 S1)"
proof -
  have d: "dinv (fs_io fs)" and mi: "map_inv (V (fs_io fs)) (napb fs) inode S" and S: "S \<subseteq> blocks_of fs" and geom: "map_geom fs"
    using st by (simp_all add: map_state_def)
  have nd: "tree_node (napb fs) (r, is)" "unat nr < napb fs" using p tree_node_path by blast+
  define e where "e = ind_entry (V (fs_io fs)) b (unat nr)"
  have e: "e = node_block (V (fs_io fs)) inode (r, is @ [unat nr])" by (simp add: e_def b(1) node_block_snoc)
  show ?thesis
  proof (cases "e = 0")
    case False
    then obtain io where io: "block_ind_bmap mem m flags b nr fs zb q = Some (fs\<lparr>fs_io := io\<rparr>, zb, 0, e, 0)" "dinv io" "V io = V (fs_io fs)"
      using ind_get [OF d f(1), of b nr mem zb q] by (auto simp: e_def)
    then show ?thesis using map_state_io(2) [OF st io(2,3), of w] e False
      by (intro exI [of _ "fs\<lparr>fs_io := io\<rparr>"] exI [of _ S]) auto
  next
    case True
    obtain io where io: "io_channel_read_blk m (fs_io fs) b 1 = (io, V (fs_io fs) (ucast b), 0)" "dinv io" "V io = V (fs_io fs)"
      using read_ind [OF d] by blast
    define h where "h = fs\<lparr>fs_io := io\<rparr>"
    have h: "map_state dinv V h inode S" "fs_io h = io" "fs_blocksize h = fs_blocksize fs" "napb h = napb fs" "blocks_of h = blocks_of fs" "fdb h = fdb fs"
      using map_state_io(1) [OF st io(2,3)] same_geoD [OF same_geo_io [of fs io]] by (simp_all add: h_def napb_def)
    have bh: "bs = unat (fs_blocksize h)" using bs h(3) by simp
    have r0: "reached dinv V w (fs, inode, S) (h, inode, S) 0" using map_state_io(2) [OF st io(2,3)] by (simp add: h_def)
    define goal where "goal = (if nr \<noteq> 0 then get32 (V (fs_io fs) (ucast b)) (4 * unat (nr - 1)) else b)"
    have goal: "(ucast goal :: u64) = 0 \<or> fdb h \<le> unat (ucast goal :: u64)"
    proof (cases "nr = 0")
      case True
      then show ?thesis using map_state_goal [OF st path_ok_node [OF nd(1)]] b h(6) by (simp add: goal_def)
    next
      case False
      then have "unat (nr - 1) < napb fs" using nd(2) unat_minus_one [of nr] by simp
      then have pp: "path_ok (napb fs) (r, is @ [unat (nr - 1)])" using nd(1) tree_node_path by blast
      have "goal = node_block (V (fs_io fs)) inode (r, is @ [unat (nr - 1)])"
        using False b by (simp add: goal_def node_block_snoc ind_entry_def)
      then show ?thesis using map_state_goal [OF st pp] h(6) by simp
    qed
    have step: "block_ind_bmap mem m flags b nr fs zb q = (case ext2fs_alloc_block mem m h zb goal True of
          None \<Rightarrow> None
        | Some (fs, zb, Inl retval) \<Rightarrow> Some (fs, zb, 0, q, retval)
        | Some (g, zb, Inr c) \<Rightarrow> (case io_channel_write_blk m (fs_io g) b 1 (put32 (V (fs_io fs) (ucast b)) (4 * unat nr) c) of
            (io, retval) \<Rightarrow> let fs = g\<lparr>fs_io := io\<rparr> in if retval \<noteq> 0 then Some (fs, zb, 0, q, retval) else Some (fs, zb, 1, c, 0)))"
      using True b(2) f io e_def by (simp add: block_ind_bmap_def Let_def [of "fs\<lparr>fs_io := io\<rparr>"] Let_def [of "get32 _ _"] Let_def [of "if _ then _ else _"] goal_def h_def ind_entry_def)
    show ?thesis
    proof (cases rule: handle_alloc [OF h(1) bh goal, of mem zb, case_names full got])
      case full
      then have "block_ind_bmap mem m flags b nr fs zb q = Some (h, zb, 0, q, EXT2_ET_BLOCK_ALLOC_FAIL)"
        unfolding step by (simp add: ext2fs_alloc_block_def)
      moreover have "no_space h S" using full(2) same_geoD(7) [OF same_geo_io [of fs io]] by (simp add: no_space_def h_def)
      ultimately show ?thesis using r0 zero_le by blast
    next
      case (got f1 c)
      obtain io2 where io2: "io_channel_write_blk m (fs_io f1) b 1 (put32 (V io (ucast b)) (4 * unat nr) (ucast c)) = (io2, 0)"
        "dinv io2" "V io2 = (V (fs_io f1))(ucast b := put32 (V io (ucast b)) (4 * unat nr) (ucast c))"
        using write_ind [OF got(6), of "put32 (V io (ucast b)) (4 * unat nr) (ucast c)" b] dev_length [OF io(2)] by auto
      define f2 where "f2 = f1\<lparr>fs_io := io2\<rparr>"
      have code: "block_ind_bmap mem m flags b nr fs zb q = Some (f2, zb, 1, ucast c, 0)"
        unfolding step using got(1) io2(1) io(3) by (simp add: ext2fs_alloc_block_def f2_def)
      have bc: "ucast b \<noteq> c"
      proof
        assume "ucast b = c"
        then have "unat b = unat c" by (auto simp: unat_ucast32_64)
        then show False using map_invD(3) [OF mi path_ok_node [OF nd(1)]] b got(2) by auto
      qed
      have "unat c \<in> blocks_of fs" "nblocks fs \<le> 2 ^ 32" using got(2) st h(5) by (simp_all add: map_state_def)
      then have "unat c < 2 ^ 32" by (simp add: blocks_of_def)
      then have uc: "ucast (ucast c :: u32) = c" by (simp add: word_unat_eq_iff unat_ucast32_64 unat_ucast64_32)
      have at: "attach (V (fs_io h)) inode (r, is @ [unat nr]) (ucast c) (replicate bs 0) = (V (fs_io f2), inode)"
        unfolding attach_snoc
        using got(8) io2(3) io(3) b(1) bc h(2) uc by (simp add: f2_def)
      have ps: "path_ok (napb h) (r, is @ [unat nr])" "node_block (V (fs_io h)) inode (r, is @ [unat nr]) = 0"
        "snd (r, is @ [unat nr]) \<noteq> [] \<Longrightarrow> node_block (V (fs_io h)) inode (fst (r, is @ [unat nr]), butlast (snd (r, is @ [unat nr]))) \<noteq> 0"
        using p e True b h(2,4) io(3) by simp_all
      have f2: "acc_ok f2 (insert (unat c) S)" "same_geo h f2" "fs_blocksize f2 = fs_blocksize h" "dinv (fs_io f2)"
        "keeps_inodes h f2"
        using got io2(2) by (simp_all add: f2_def acc_io same_geo_trans [OF _ same_geo_io] keeps_trans [OF _ keeps_io])
      have w2: "w = (fst (r, is @ [unat nr]), snd (r, is @ [unat nr]) @ t)" using w by simp
      note r1 = attach_state [OF h(1) bh got(2) f2 ps at w2]
      have "reached dinv V w (fs, inode, S) (f2, inode, insert (unat c) S) 1"
        using reached_trans [OF r0 r1(1) st] by simp
      then show ?thesis using code r1(2,3) by fastforce
    qed
  qed
qed


lemma dind_alloc:
  assumes st: "map_state dinv V fs inode S" and bs: "bs = unat (fs_blocksize fs)"
    and f: "flags AND BMAP_SET = 0" "flags AND BMAP_ALLOC \<noteq> 0"
    and ij: "i = unat (nr div addr_per_block fs)" "j = unat (nr mod addr_per_block fs)"
    and p: "path_ok (napb fs) (r, is @ [i, j])" and b: "b = node_block (V (fs_io fs)) inode (r, is)" "b \<noteq> 0"
    and w: "w = (r, is @ [i, j] @ t)"
  shows "\<exists>fs1 S1 n x err. block_dind_bmap mem m flags b nr fs zb q = Some (fs1, zb, n, x, err)
    \<and> reached dinv V w (fs, inode, S) (fs1, inode, S1) n \<and> n \<le> 2
    \<and> (err = 0 \<and> x = node_block (V (fs_io fs1)) inode (r, is @ [i, j]) \<and> x \<noteq> 0 \<or> err = EXT2_ET_BLOCK_ALLOC_FAIL \<and> no_space fs1 S1)"
proof -
  have p1: "path_ok (napb fs) (r, is @ [unat (nr div addr_per_block fs)])"
    using p tree_node_path [of "napb fs" r "is @ [i]" j] path_ok_node ij(1) by auto
  have w1: "w = (r, is @ [unat (nr div addr_per_block fs)] @ (j # t))" using w ij by simp
  have fl: "(flags AND NOT BMAP_SET) AND BMAP_ALLOC \<noteq> 0" using f(2) unfolding mask_set(2) .
  obtain fs1 S1 n x err where 1: "block_ind_bmap mem m (flags AND NOT BMAP_SET) b (nr div addr_per_block fs) fs zb 0 = Some (fs1, zb, n, x, err)"
    "reached dinv V w (fs, inode, S) (fs1, inode, S1) n" "n \<le> 1"
    "err = 0 \<and> x = node_block (V (fs_io fs1)) inode (r, is @ [i]) \<and> x \<noteq> 0 \<or> err = EXT2_ET_BLOCK_ALLOC_FAIL \<and> no_space fs1 S1"
    using ind_alloc [OF st bs mask_set(1) fl p1 b w1, of mem zb 0] ij(1) by auto
  show ?thesis
  proof (cases "err = 0")
    case False
    then have "block_dind_bmap mem m flags b nr fs zb q = Some (fs1, zb, n, q, err)" using 1(1) unfolding block_dind_bmap_def by simp
    moreover have "n \<le> 2" using 1(3) by simp
    ultimately show ?thesis using 1(2,4) False by blast
  next
    case True
    then have x: "x = node_block (V (fs_io fs1)) inode (r, is @ [i])" "x \<noteq> 0" using 1(4) by auto
    note sm = reached_same [OF 1(2)]
    have p2: "path_ok (napb fs1) (r, (is @ [i]) @ [unat (nr mod addr_per_block fs)])" using p sm(2) ij(2) by simp
    have w2: "w = (r, (is @ [i]) @ [unat (nr mod addr_per_block fs)] @ t)" using w ij(2) by simp
    have bs1: "bs = unat (fs_blocksize fs1)" using bs sm(1) by simp
    obtain fs2 S2 k y e2 where 2: "block_ind_bmap mem m flags x (nr mod addr_per_block fs) fs1 zb q = Some (fs2, zb, k, y, e2)"
      "reached dinv V w (fs1, inode, S1) (fs2, inode, S2) k" "k \<le> 1"
      "e2 = 0 \<and> y = node_block (V (fs_io fs2)) inode (r, (is @ [i]) @ [unat (nr mod addr_per_block fs)]) \<and> y \<noteq> 0 \<or> e2 = EXT2_ET_BLOCK_ALLOC_FAIL \<and> no_space fs2 S2"
      using ind_alloc [OF reached_state [OF 1(2)] bs1 f p2 x w2, of mem zb q] by blast
    have "block_dind_bmap mem m flags b nr fs zb q = Some (fs2, zb, n + k, y, e2)"
      using 1(1) 2(1) True unfolding block_dind_bmap_def by simp
    moreover have "reached dinv V w (fs, inode, S) (fs2, inode, S2) (n + k)" by (rule reached_trans [OF 1(2) 2(2) st])
    moreover have "n + k \<le> 2" using 1(3) 2(3) by simp
    ultimately show ?thesis using 2(4) ij(2) by auto
  qed
qed

lemma tind_alloc:
  assumes st: "map_state dinv V fs inode S" and bs: "bs = unat (fs_blocksize fs)"
    and f: "flags AND BMAP_SET = 0" "flags AND BMAP_ALLOC \<noteq> 0"
    and ijk: "i = unat (nr div addr_per_block fs div addr_per_block fs)" "j = unat (nr div addr_per_block fs mod addr_per_block fs)"
      "k = unat (nr mod addr_per_block fs)"
    and p: "path_ok (napb fs) (r, is @ [i, j, k])" and b: "b = node_block (V (fs_io fs)) inode (r, is)" "b \<noteq> 0"
    and w: "w = (r, is @ [i, j, k])"
  shows "\<exists>fs1 S1 n x err. block_tind_bmap mem m flags b nr fs zb q = Some (fs1, zb, n, x, err)
    \<and> reached dinv V w (fs, inode, S) (fs1, inode, S1) n \<and> n \<le> 3
    \<and> (err = 0 \<and> x = node_block (V (fs_io fs1)) inode (r, is @ [i, j, k]) \<and> x \<noteq> 0 \<or> err = EXT2_ET_BLOCK_ALLOC_FAIL \<and> no_space fs1 S1)"
proof -
  have p1: "path_ok (napb fs) (r, is @ [i, j])" using p tree_node_path [of "napb fs" r "is @ [i, j]" k] path_ok_node by auto
  have w1: "w = (r, is @ [i, j] @ [k])" using w by simp
  have fl: "(flags AND NOT BMAP_SET) AND BMAP_ALLOC \<noteq> 0" using f(2) unfolding mask_set(2) .
  obtain fs1 S1 n x err where 1: "block_dind_bmap mem m (flags AND NOT BMAP_SET) b (nr div addr_per_block fs) fs zb 0 = Some (fs1, zb, n, x, err)"
    "reached dinv V w (fs, inode, S) (fs1, inode, S1) n" "n \<le> 2"
    "err = 0 \<and> x = node_block (V (fs_io fs1)) inode (r, is @ [i, j]) \<and> x \<noteq> 0 \<or> err = EXT2_ET_BLOCK_ALLOC_FAIL \<and> no_space fs1 S1"
    using dind_alloc [OF st bs mask_set(1) fl ijk(1,2) p1 b w1, of mem zb 0] by blast
  show ?thesis
  proof (cases "err = 0")
    case False
    then have "block_tind_bmap mem m flags b nr fs zb q = Some (fs1, zb, n, q, err)" using 1(1) unfolding block_tind_bmap_def by simp
    moreover have "n \<le> 3" using 1(3) by simp
    ultimately show ?thesis using 1(2,4) False by blast
  next
    case True
    then have x: "x = node_block (V (fs_io fs1)) inode (r, is @ [i, j])" "x \<noteq> 0" using 1(4) by auto
    note sm = reached_same [OF 1(2)]
    have p2: "path_ok (napb fs1) (r, (is @ [i, j]) @ [unat (nr mod addr_per_block fs)])" using p sm(2) ijk(3) by simp
    have w2: "w = (r, (is @ [i, j]) @ [unat (nr mod addr_per_block fs)] @ [])" using w ijk(3) by simp
    have bs1: "bs = unat (fs_blocksize fs1)" using bs sm(1) by simp
    obtain fs2 S2 l y e2 where 2: "block_ind_bmap mem m flags x (nr mod addr_per_block fs) fs1 zb q = Some (fs2, zb, l, y, e2)"
      "reached dinv V w (fs1, inode, S1) (fs2, inode, S2) l" "l \<le> 1"
      "e2 = 0 \<and> y = node_block (V (fs_io fs2)) inode (r, (is @ [i, j]) @ [unat (nr mod addr_per_block fs)]) \<and> y \<noteq> 0 \<or> e2 = EXT2_ET_BLOCK_ALLOC_FAIL \<and> no_space fs2 S2"
      using ind_alloc [OF reached_state [OF 1(2)] bs1 f p2 x w2, of mem zb q] by blast
    have "block_tind_bmap mem m flags b nr fs zb q = Some (fs2, zb, n + l, y, e2)"
      using 1(1) 2(1) True unfolding block_tind_bmap_def by simp
    moreover have "reached dinv V w (fs, inode, S) (fs2, inode, S2) (n + l)" by (rule reached_trans [OF 1(2) 2(2) st])
    moreover have "n + l \<le> 3" using 1(3) 2(3) by simp
    ultimately show ?thesis using 2(4) ijk(3) by auto
  qed
qed

text \<open>A pointer of the inode: a direct block or the root of a tree.\<close>

lemma root_alloc:
  assumes st: "map_state dinv V fs inode S" and bs: "bs = unat (fs_blocksize fs)"
    and k: "k < 15" "i_block inode ! k = 0" and w: "w = (k, t)" and goal: "goal = 0 \<or> fdb fs \<le> unat goal"
  obtains (full) "handle_alloc mem m fs zb goal True = Some (fs, zb, Inl EXT2_ET_BLOCK_ALLOC_FAIL)" "no_space fs S"
  | (got) fs1 c S1 inode1 where "handle_alloc mem m fs zb goal True = Some (fs1, zb, Inr c)"
      "inode1 = inode\<lparr>i_block := (i_block inode)[k := ucast c]\<rparr>" "reached dinv V w (fs, inode, S) (fs1, inode1, S1) 1"
      "node_block (V (fs_io fs1)) inode1 (k, []) = ucast c" "(ucast c :: u32) \<noteq> 0"
proof (cases rule: handle_alloc [OF st bs goal, of mem zb, case_names full got])
  case full
  then show ?thesis by (rule that(1))
next
  case (got f1 c)
  have "unat c \<in> blocks_of fs" "nblocks fs \<le> 2 ^ 32" using got(2) st by (simp_all add: map_state_def)
  then have "unat c < 2 ^ 32" by (simp add: blocks_of_def)
  then have uc: "ucast (ucast c :: u32) = c" by (simp add: word_unat_eq_iff unat_ucast32_64 unat_ucast64_32)
  have p: "path_ok (napb fs) (k, [])" "node_block (V (fs_io fs)) inode (k, []) = 0"
    using k by (simp_all add: path_ok_def node_block_root)
  have "attach (V (fs_io fs)) inode (k, []) (ucast c) (replicate bs 0) = (V (fs_io f1), inode\<lparr>i_block := (i_block inode)[k := ucast c]\<rparr>)"
    using got(8) uc by simp
  then show ?thesis using attach_state [OF st bs got(2-7) p, of _ w t] w by (intro that(2) [OF got(1) refl]) simp_all
qed

lemma ind_root_alloc:
  assumes st: "map_state dinv V fs inode S" and bs: "bs = unat (fs_blocksize fs)" and f: "flags AND BMAP_ALLOC \<noteq> 0"
    and k: "12 \<le> k" "k < 15" and w: "w = (k, t)"
  shows "\<exists>fs1 S1 inode1 n. (ind_root mem m flags k inode fs zb = Some (fs1, zb, inode1, n, Inl EXT2_ET_BLOCK_ALLOC_FAIL) \<and> no_space fs1 S1
      \<or> (\<exists>b. ind_root mem m flags k inode fs zb = Some (fs1, zb, inode1, n, Inr b) \<and> b = i_block inode1 ! k \<and> b \<noteq> 0))
    \<and> reached dinv V w (fs, inode, S) (fs1, inode1, S1) n \<and> n \<le> 1"
proof (cases "i_block inode ! k = 0")
  case False
  have "fs\<lparr>fs_io := fs_io fs\<rparr> = fs" by simp
  then have "reached dinv V w (fs, inode, S) (fs, inode, S) 0"
    using map_state_io(2) [OF st, of "fs_io fs" w] st by (simp add: map_state_def)
  then show ?thesis using False by (intro exI [of _ fs] exI [of _ S] exI [of _ inode] exI [of _ 0]) (simp add: ind_root_def)
next
  case True
  have pk: "path_ok (napb fs) (k - 1, [])" using k by (auto simp: path_ok_def)
  have goal: "(ucast (i_block inode ! (k - 1)) :: u64) = 0 \<or> fdb fs \<le> unat (ucast (i_block inode ! (k - 1)) :: u64)"
    using map_state_goal [OF st pk] by (simp add: node_block_root)
  show ?thesis
  proof (cases rule: root_alloc [OF st bs k(2) True w goal, of mem zb, case_names full got])
    case full
    have "fs\<lparr>fs_io := fs_io fs\<rparr> = fs" by simp
    then have "reached dinv V w (fs, inode, S) (fs, inode, S) 0"
      using map_state_io(2) [OF st, of "fs_io fs" w] st by (simp add: map_state_def)
    then show ?thesis using full True f by (intro exI [of _ fs] exI [of _ S] exI [of _ inode] exI [of _ 0]) (simp add: ind_root_def)
  next
    case (got fs1 c S1 inode1)
    then show ?thesis using True f
      by (intro exI [of _ fs1] exI [of _ S1] exI [of _ inode1] exI [of _ 1]) (auto simp: ind_root_def node_block_root)
  qed
qed


section \<open>The block of an inode\<close>

lemma inode_goal:
  assumes st: "map_state dinv V fs inode S" and i: "ino_ok fs ino" "i_block inode ! 0 = 0"
  shows "fdb fs \<le> unat (ucast (ucast (find_inode_goal fs ino inode) :: u32) :: u64)"
proof -
  have snd: "fs_sound fs" and nb: "nblocks fs \<le> 2 ^ 32" using st by (simp_all add: map_state_def acc_ok_def)
  have "\<exists>g \<le> ino_group fs ino. find_inode_goal fs ino inode = ext2fs_group_first_block2 fs g"
  proof (cases "s_log_groups_per_flex (fs_super fs) = 0")
    case True
    then show ?thesis using i(2)
      by (intro exI [of _ "ino_group fs ino"]) (simp add: find_inode_goal_def ext2fs_group_of_ino_def ino_group_def)
  next
    case False
    then show ?thesis using i(2)
      by (intro exI [of _ "ino_group fs ino AND NOT (push_bit (unat (s_log_groups_per_flex (fs_super fs))) 1 - 1)"])
        (simp add: find_inode_goal_def ext2fs_group_of_ino_def ino_group_def Let_def word_and_le2)
  qed
  then obtain g where g: "g \<le> ino_group fs ino" "find_inode_goal fs ino inode = ext2fs_group_first_block2 fs g" by blast
  have "unat g < ngroups fs" using g(1) i(1) snd by (simp add: ino_ok_def ngroups_def word_le_nat_alt word_less_nat_alt fs_sound_def)
  then have f: "unat (ext2fs_group_first_block2 fs g) = fdb fs + unat g * bpg fs" "fdb fs + unat g * bpg fs < nblocks fs"
    using first_block_nat [of fs g] snd by (simp_all add: fs_sound_def)
  then have "unat (ext2fs_group_first_block2 fs g) < 2 ^ 32" using nb by simp
  then show ?thesis using f by (simp add: g(2) unat_ucast32_64 unat_ucast64_32)
qed

lemma word_u64_0: "(ucast (x :: u32) :: u64) = 0 \<longleftrightarrow> x = 0"
  using ucast_up_inj [of x 0] by auto

lemma bmap_direct_alloc:
  assumes st: "map_state dinv V fs inode S" and bs: "bs = unat (fs_blocksize fs)" and k: "k < 12" and i: "ino_ok fs ino"
    and f: "flags AND BMAP_SET = 0" "flags AND BMAP_ALLOC \<noteq> 0"
  shows "\<exists>fs1 S1 inode1 n p err. bmap_direct mem m ino flags k inode fs zb 0 = Some (fs1, zb, inode1, p, err, n, False)
    \<and> reached dinv V (k, []) (fs, inode, S) (fs1, inode1, S1) n \<and> n \<le> 1
    \<and> (err = 0 \<and> p = ucast (node_block (V (fs_io fs1)) inode1 (k, [])) \<and> p \<noteq> 0 \<or> err = EXT2_ET_BLOCK_ALLOC_FAIL \<and> no_space fs1 S1)"
proof -
  have "fs\<lparr>fs_io := fs_io fs\<rparr> = fs" by simp
  then have r0: "reached dinv V (k, []) (fs, inode, S) (fs, inode, S) 0"
    using map_state_io(2) [OF st, of "fs_io fs"] st by (simp add: map_state_def)
  show ?thesis
  proof (cases "i_block inode ! k = 0")
    case False
    then show ?thesis using r0 f
      by (intro exI [of _ fs] exI [of _ S] exI [of _ inode] exI [of _ 0] exI [of _ "ucast (i_block inode ! k)"])
        (simp add: bmap_direct_def node_block_root word_u64_0)
  next
    case True
    define goal :: u64 where
      "goal = (if k \<noteq> 0 then ucast (i_block inode ! (k - 1)) else ucast (ucast (find_inode_goal fs ino inode) :: u32))"
    have goal: "goal = 0 \<or> fdb fs \<le> unat goal"
    proof (cases "k = 0")
      case True
      then show ?thesis using inode_goal [OF st i] \<open>i_block inode ! k = 0\<close> by (simp add: goal_def)
    next
      case False
      have "path_ok (napb fs) (k - 1, [])" using k by (auto simp: path_ok_def)
      then show ?thesis using map_state_goal [OF st, of "(k - 1, [])"] False by (simp add: goal_def node_block_root)
    qed
    have k15: "k < 15" using k by simp
    have code: "bmap_direct mem m ino flags k inode fs zb 0 = (case handle_alloc mem m fs zb goal True of
          None \<Rightarrow> None
        | Some (fs, zb, Inl retval) \<Rightarrow> Some (fs, zb, inode, ucast (i_block inode ! k), retval, 0, False)
        | Some (fs, zb, Inr b) \<Rightarrow>
            Some (fs, zb, inode\<lparr>i_block := (i_block inode)[k := ucast b]\<rparr>, ucast (ucast b :: u32), 0, 1, False))"
      unfolding bmap_direct_def goal_def Let_def using True f by (simp add: word_u64_0)
    show ?thesis
    proof (cases rule: root_alloc [OF st bs k15 True refl [of "(k, [])"] goal, of mem zb, case_names full got])
      case full
      then show ?thesis unfolding code using r0 by auto
    next
      case (got fs1 c S1 inode1)
      have "bmap_direct mem m ino flags k inode fs zb 0 = Some (fs1, zb, inode1, ucast (ucast c :: u32), 0, 1, False)"
        unfolding code using got(1,2) by simp
      then show ?thesis using got(3-5) by (metis word_u64_0 order_refl)
    qed
  qed
qed

lemma bmap_tree_alloc:
  assumes st: "map_state dinv V fs inode S" and bs: "bs = unat (fs_blocksize fs)" and f: "flags AND BMAP_ALLOC \<noteq> 0"
    and k: "12 \<le> k" "k < 15" and w: "w = (k, t)"
    and lev: "\<And>fs1 S1 inode1 b. map_state dinv V fs1 inode1 S1 \<Longrightarrow> bs = unat (fs_blocksize fs1) \<Longrightarrow> napb fs1 = napb fs \<Longrightarrow>
      addr_per_block fs1 = addr_per_block fs \<Longrightarrow> b = node_block (V (fs_io fs1)) inode1 (k, []) \<Longrightarrow> b \<noteq> 0 \<Longrightarrow>
      \<exists>fs2 S2 n x err. level b fs1 zb = Some (fs2, zb, n, x, err) \<and> reached dinv V w (fs1, inode1, S1) (fs2, inode1, S2) n \<and> n \<le> l
        \<and> (err = 0 \<and> x = node_block (V (fs_io fs2)) inode1 w \<and> x \<noteq> 0 \<or> err = EXT2_ET_BLOCK_ALLOC_FAIL \<and> no_space fs2 S2)"
  shows "\<exists>fs1 S1 inode1 n p err. bmap_tree mem m flags k level inode fs zb 0 = Some (fs1, zb, inode1, p, err, n, False)
    \<and> reached dinv V w (fs, inode, S) (fs1, inode1, S1) n \<and> n \<le> Suc l
    \<and> (err = 0 \<and> p = ucast (node_block (V (fs_io fs1)) inode1 w) \<and> p \<noteq> 0 \<or> err = EXT2_ET_BLOCK_ALLOC_FAIL \<and> no_space fs1 S1)"
proof -
  obtain fs1 S1 inode1 n where 1: "reached dinv V w (fs, inode, S) (fs1, inode1, S1) n" and n: "n \<le> 1"
    and c: "ind_root mem m flags k inode fs zb = Some (fs1, zb, inode1, n, Inl EXT2_ET_BLOCK_ALLOC_FAIL) \<and> no_space fs1 S1
      \<or> (\<exists>b. ind_root mem m flags k inode fs zb = Some (fs1, zb, inode1, n, Inr b) \<and> b = i_block inode1 ! k \<and> b \<noteq> 0)"
    using ind_root_alloc [OF st bs f k w, of mem zb] by blast
  from c show ?thesis
  proof
    assume a: "ind_root mem m flags k inode fs zb = Some (fs1, zb, inode1, n, Inl EXT2_ET_BLOCK_ALLOC_FAIL) \<and> no_space fs1 S1"
    then have "bmap_tree mem m flags k level inode fs zb 0 = Some (fs1, zb, inode1, 0, EXT2_ET_BLOCK_ALLOC_FAIL, n, False)"
      by (simp add: bmap_tree_def)
    moreover have "n \<le> Suc l" using n by simp
    ultimately show ?thesis using 1 a by blast
  next
    assume "\<exists>b. ind_root mem m flags k inode fs zb = Some (fs1, zb, inode1, n, Inr b) \<and> b = i_block inode1 ! k \<and> b \<noteq> 0"
    then obtain b where b: "ind_root mem m flags k inode fs zb = Some (fs1, zb, inode1, n, Inr b)"
      "b = node_block (V (fs_io fs1)) inode1 (k, [])" "b \<noteq> 0" by (auto simp: node_block_root)
    note sm = reached_same [OF 1]
    have bs1: "bs = unat (fs_blocksize fs1)" using bs sm(1) by simp
    obtain fs2 S2 j x err where 2: "level b fs1 zb = Some (fs2, zb, j, x, err)" "reached dinv V w (fs1, inode1, S1) (fs2, inode1, S2) j" "j \<le> l"
      "err = 0 \<and> x = node_block (V (fs_io fs2)) inode1 w \<and> x \<noteq> 0 \<or> err = EXT2_ET_BLOCK_ALLOC_FAIL \<and> no_space fs2 S2"
      using lev [OF reached_state [OF 1] bs1 sm(2,3) b(2,3)] by blast
    have "bmap_tree mem m flags k level inode fs zb 0 = Some (fs2, zb, inode1, if err = 0 then ucast x else 0, err, n + j, False)"
      using b(1) 2(1) by (simp add: bmap_tree_def)
    moreover have "reached dinv V w (fs, inode, S) (fs2, inode1, S2) (n + j)" by (rule reached_trans [OF 1 2(2) st])
    moreover have "n + j \<le> Suc l" using n 2(3) by simp
    ultimately show ?thesis using 2(4)
      by (intro exI [of _ fs2] exI [of _ S2] exI [of _ inode1] exI [of _ "n + j"] exI [of _ "if err = 0 then ucast x else 0"] exI [of _ err])
        (auto simp: word_u64_0)
  qed
qed

lemma le_weaken:
  "\<exists>a b c j d e. P a b c j d e \<and> Q a b c j \<and> j \<le> l \<and> R a b c d e \<Longrightarrow> (l :: nat) \<le> k \<Longrightarrow>
    \<exists>a b c j d e. P a b c j d e \<and> Q a b c j \<and> j \<le> k \<and> R a b c d e"
  by (meson le_trans)

lemma bmap_blocks_alloc:
  assumes st: "map_state dinv V fs inode S" and bs: "bs = unat (fs_blocksize fs)" and i: "ino_ok fs ino"
    and n: "unat n < map_limit (napb fs)" and f: "flags AND BMAP_SET = 0" "flags AND BMAP_ALLOC \<noteq> 0"
  shows "\<exists>fs1 S1 inode1 j p err. bmap_blocks mem m ino flags n inode fs zb 0 = Some (fs1, zb, inode1, p, err, j, False)
    \<and> reached dinv V (bmap_path (napb fs) (unat n)) (fs, inode, S) (fs1, inode1, S1) j \<and> j \<le> 4
    \<and> (err = 0 \<and> p = ucast (bmap_lookup (V (fs_io fs1)) (napb fs) inode1 (unat n)) \<and> p \<noteq> 0 \<or> err = EXT2_ET_BLOCK_ALLOC_FAIL \<and> no_space fs1 S1)"
proof -
  have g: "map_geom fs" using st by (simp add: map_state_def)
  note s = bmap_split [OF g n refl] and a = map_geom(1) [OF g]
  have lim: "unat n < 12 + napb fs + napb fs * napb fs + napb fs * napb fs * napb fs" using n by (simp add: map_limit_def)
  have a0: "0 < napb fs" using map_geom(2) [OF g] by simp
  define w where "w = bmap_path (napb fs) (unat n)"
  have look: "bmap_lookup v (napb fs) ind (unat n) = node_block v ind w" for v ind
    by (simp add: bmap_lookup_def node_block_def w_def split: prod.split)
  have pw: "path_ok (napb fs) w"
  proof (cases "unat n < 12")
    case True
    then show ?thesis by (simp add: w_def bmap_path_def path_ok_def)
  next
    case False
    then obtain r "is" j where "w = (r, is @ [j])" "tree_node (napb fs) (r, is)" "j < napb fs"
      using bmap_path_split [OF a0 lim] by (metis w_def not_less)
    then show ?thesis using tree_node_path by blast
  qed
  consider "unat n < 12" | "12 \<le> unat n" "unat n - 12 < napb fs" | "12 + napb fs \<le> unat n" "unat n - 12 - napb fs < napb fs * napb fs"
    | "12 + napb fs + napb fs * napb fs \<le> unat n" by linarith
  then have "\<exists>fs1 S1 inode1 j p err. bmap_blocks mem m ino flags n inode fs zb 0 = Some (fs1, zb, inode1, p, err, j, False)
        \<and> reached dinv V w (fs, inode, S) (fs1, inode1, S1) j \<and> j \<le> 4
        \<and> (err = 0 \<and> p = ucast (node_block (V (fs_io fs1)) inode1 w) \<and> p \<noteq> 0 \<or> err = EXT2_ET_BLOCK_ALLOC_FAIL \<and> no_space fs1 S1)"
  proof cases
    case 1
    then have "w = (unat n, [])" "n < 12" using s(1) by (simp_all add: w_def bmap_path_def)
    then show ?thesis
      using bmap_direct_alloc [OF st bs 1 i f, of mem zb] by (auto simp: bmap_blocks_def Let_def)
  next
    case 2
    define k where "k = (ucast (n - 12) :: u32)"
    have w: "w = (12, [unat k])" using 2 s(3) by (simp add: w_def bmap_path_def k_def)
    have "\<exists>fs1 S1 inode1 j p err. bmap_tree mem m flags 12 (\<lambda>b h zb. block_ind_bmap mem m flags b k h zb (ucast (0 :: u64))) inode fs zb 0
          = Some (fs1, zb, inode1, p, err, j, False) \<and> reached dinv V w (fs, inode, S) (fs1, inode1, S1) j \<and> j \<le> 4
        \<and> (err = 0 \<and> p = ucast (node_block (V (fs_io fs1)) inode1 w) \<and> p \<noteq> 0 \<or> err = EXT2_ET_BLOCK_ALLOC_FAIL \<and> no_space fs1 S1)"
    proof (rule le_weaken [OF bmap_tree_alloc [OF st bs f(2) _ _ w, where l = 1]], goal_cases)
      case (3 fs1 S1 inode1 b)
      then show ?case using ind_alloc [OF 3(1,2) f, of 12 "[]" k b w "[]" mem zb] pw w by simp
    qed simp_all
    then show ?thesis using 2 s(1,2) by (simp add: bmap_blocks_def k_def)
  next
    case 3
    define k where "k = (ucast (n - 12 - ucast (addr_per_block fs)) :: u32)"
    have x: "\<not> unat n - 12 < napb fs" using 3 by linarith
    then have w: "w = (13, [unat (k div addr_per_block fs), unat (k mod addr_per_block fs)])"
      using 3 s(5) a by (simp add: w_def bmap_path_def k_def unat_div unat_mod)
    have "\<exists>fs1 S1 inode1 j p err. bmap_tree mem m flags 13 (\<lambda>b h zb. block_dind_bmap mem m flags b k h zb (ucast (0 :: u64))) inode fs zb 0
          = Some (fs1, zb, inode1, p, err, j, False) \<and> reached dinv V w (fs, inode, S) (fs1, inode1, S1) j \<and> j \<le> 4
        \<and> (err = 0 \<and> p = ucast (node_block (V (fs_io fs1)) inode1 w) \<and> p \<noteq> 0 \<or> err = EXT2_ET_BLOCK_ALLOC_FAIL \<and> no_space fs1 S1)"
    proof (rule le_weaken [OF bmap_tree_alloc [OF st bs f(2) _ _ w, where l = 2]], goal_cases)
      case (3 fs1 S1 inode1 b)
      then show ?case using dind_alloc [OF 3(1,2) f refl refl, of 13 "[]" k b w "[]" mem zb] pw w by simp
    qed simp_all
    then show ?thesis using 3 s(1,2,4) x by (simp add: bmap_blocks_def k_def)
  next
    case 4
    define k where "k = (ucast (n - 12 - ucast (addr_per_block fs) - ucast (addr_per_block fs * addr_per_block fs)) :: u32)"
    have x: "\<not> unat n - 12 < napb fs" "\<not> unat n - 12 - napb fs < napb fs * napb fs" using 4 by linarith+
    then have w: "w = (14, [unat (k div addr_per_block fs div addr_per_block fs), unat (k div addr_per_block fs mod addr_per_block fs), unat (k mod addr_per_block fs)])"
      using 4 s(6) a by (simp add: w_def bmap_path_def k_def unat_div unat_mod)
    have "\<exists>fs1 S1 inode1 j p err. bmap_tree mem m flags 14 (\<lambda>b h zb. block_tind_bmap mem m flags b k h zb (ucast (0 :: u64))) inode fs zb 0
          = Some (fs1, zb, inode1, p, err, j, False) \<and> reached dinv V w (fs, inode, S) (fs1, inode1, S1) j \<and> j \<le> 4
        \<and> (err = 0 \<and> p = ucast (node_block (V (fs_io fs1)) inode1 w) \<and> p \<noteq> 0 \<or> err = EXT2_ET_BLOCK_ALLOC_FAIL \<and> no_space fs1 S1)"
    proof (rule le_weaken [OF bmap_tree_alloc [OF st bs f(2) _ _ w, where l = 3]], goal_cases)
      case (3 fs1 S1 inode1 b)
      then show ?case using tind_alloc [OF 3(1,2) f refl refl refl, of 14 "[]" k b w mem zb] pw w by simp
    qed simp_all
    then show ?thesis using 4 s(1,2,4) x by (simp add: bmap_blocks_def k_def)
  qed
  then show ?thesis by (simp only: look w_def)
qed

end

end
