(* ===== verification/Bmap_call.thy ===== *)
theory Bmap_call
  imports Bmap_alloc
begin

text \<open>
  \<open>ext2fs_bmap2\<close> as a whole, with the writing of the inode at its end: what setting and what allocating a block
  leave on the device when the inode can be written.
\<close>

section \<open>When an inode can be written\<close>

definition apart :: "(u64 \<Rightarrow> u8 list) \<Rightarrow> nat \<Rightarrow> ext2_inode \<Rightarrow> u64 \<Rightarrow> bool" where
  "apart v a inode x \<longleftrightarrow> (\<forall>q. tree_node a q \<longrightarrow> ucast (node_block v inode q) \<noteq> x)"

text \<open>
  The handle is open for writing, the inode is valid, the block buffer of the inode cache holds a block of an
  inode table as it is on the device, and no indirect block of \<open>inode\<close> lies in an inode table.
\<close>

definition inode_setup :: "(u64 \<Rightarrow> u8 list) \<Rightarrow> ('d, 'a) ext2_handle_scheme \<Rightarrow> u32 \<Rightarrow> ext2_inode \<Rightarrow> bool" where
  "inode_setup v fs ino inode \<longleftrightarrow> fs_ready fs \<and> ino_valid fs ino \<and> on_device fs \<and> itables_ok fs \<and> icache_inv v fs
     \<and> (\<forall>ic. fs_icache fs = Some ic \<and> ic_buffer_blk ic \<noteq> 0 \<longrightarrow> (\<exists>j off. ino_ok fs j \<and> inode_place fs j = Inr (ic_buffer_blk ic, off)))
     \<and> (\<forall>j b off. ino_ok fs j \<and> inode_place fs j = Inr (b, off) \<longrightarrow> apart v (napb fs) inode b)"

definition tables_used :: "'a fs_base_scheme \<Rightarrow> nat set \<Rightarrow> bool" where
  "tables_used fs S \<longleftrightarrow> (\<forall>j b off. ino_ok fs j \<and> inode_place fs j = Inr (b, off) \<longrightarrow> unat b \<in> S)"

lemma node_block_frame:
  assumes v: "\<And>x. x \<noteq> b \<Longrightarrow> v' x = v x" and a: "apart v a inode b"
    and r: "i_block inode' ! fst q = i_block inode ! fst q" and q: "path_ok a q"
  shows "node_block v' inode' q = node_block v inode q"
proof -
  have "path_ok a (s, ks) \<Longrightarrow> i_block inode' ! s = i_block inode ! s \<Longrightarrow> node_block v' inode' (s, ks) = node_block v inode (s, ks)" for s ks
  proof (induction ks rule: rev_induct)
    case (snoc j js)
    then have n: "tree_node a (s, js)" using tree_node_path by blast
    then have "ucast (node_block v inode (s, js)) \<noteq> b" using a by (simp add: apart_def del: split_paired_All)
    then show ?case using snoc.IH [OF path_ok_node [OF n] snoc.prems(2)] v by (simp add: node_block_snoc ind_entry_def)
  qed (simp add: node_block_root)
  then show ?thesis using r q by (cases q) simp
qed

lemma grown_apart:
  assumes g: "grown a w (v, inode, S) (v1, inode1, S1)" and x: "apart v a inode x" "unat x \<in> S"
  shows "apart v1 a inode1 x" "v1 x = v x"
proof -
  show "v1 x = v x" using g x unfolding grown_def prod.case apart_def by blast
  show "apart v1 a inode1 x" unfolding apart_def
  proof (intro allI impI)
    fix q assume n: "tree_node a q"
    show "ucast (node_block v1 inode1 q) \<noteq> x"
    proof (cases "node_block v1 inode1 q = node_block v inode q")
      case True
      then show ?thesis using x(1) n by (simp add: apart_def del: split_paired_All)
    next
      case False
      then have "unat (node_block v1 inode1 q) \<notin> S"
        using g path_ok_node [OF n] unfolding grown_def prod.case by blast
      then show ?thesis using x(2) unat_ucast32_64 [of "node_block v1 inode1 q"] by metis
    qed
  qed
qed

lemma iblk_add_keeps: "i_block (fst (ext2fs_iblk_add_blocks fs inode n)) = i_block inode"
  by (simp add: ext2fs_iblk_add_blocks_def Let_def)

lemma iblk_add_0: "fst (ext2fs_iblk_add_blocks fs inode 0) = inode"
proof -
  have u: "iblk_units fs inode 0 = 0" by (simp add: iblk_units_def)
  show ?thesis using iblk_low [of fs inode] iblk_high [of fs inode]
    by (simp add: ext2fs_iblk_add_blocks_def u Let_def)
qed

lemma map_inv_same:
  assumes "map_inv v a inode S" "\<And>q. path_ok a q \<Longrightarrow> node_block v' inode' q = node_block v inode q" "length (i_block inode') = 15"
  shows "map_inv v' a inode' S"
  using assms path_ok_node unfolding map_inv_def tree_ok_def by metis

lemma io_step_acc:
  assumes "io_step fs fs1"
  shows "acc_ok fs1 S = acc_ok fs S" "same_geo fs fs1" "map_geom fs1 = map_geom fs" "napb fs1 = napb fs"
proof -
  obtain io ic fl where f: "fs1 = fs\<lparr>fs_io := io, fs_icache := ic, fs_flags := fl\<rparr>" using assms unfolding io_step_def by blast
  show g: "same_geo fs fs1" by (simp add: f same_geo_def)
  have "ext2fs_bg_free_blocks_count fs1 i = ext2fs_bg_free_blocks_count fs i" for i
    by (simp add: f free_blocks_desc ext4fs_group_desc_def ext2fs_group_desc_def)
  moreover have "fs_block_map fs1 = fs_block_map fs" "fs_super fs1 = fs_super fs" by (simp_all add: f)
  ultimately show "acc_ok fs1 S = acc_ok fs S" by (simp add: acc_ok_def same_geoD [OF g])
  show "map_geom fs1 = map_geom fs" "napb fs1 = napb fs" by (simp_all add: f map_geom_def napb_def)
qed

context block_dev32
begin

section \<open>Allocating\<close>

text \<open>After the blocks were allocated, the inode is written.\<close>

lemma alloc_write:
  assumes st: "map_state dinv V fs inode S" and bs: "bs = unat (fs_blocksize fs)" and mem: "alloc_total mem"
    and su: "inode_setup (V (fs_io fs)) fs ino inode" "tables_used fs S"
    and r: "reached dinv V w (fs, inode, S) (fs1, inode1, S1) k"
    and i: "inode2 = fst (ext2fs_iblk_add_blocks fs1 inode1 n)"
  shows "\<exists>fs2. ext2fs_write_inode mem m fs1 ino inode2 = Some (fs2, 0) \<and> map_state dinv V fs2 inode2 S1 \<and> same_geo fs fs2
    \<and> napb fs2 = napb fs \<and> inode_on (V (fs_io fs2)) fs ino inode2
    \<and> (\<forall>q. path_ok (napb fs) q \<longrightarrow> node_block (V (fs_io fs2)) inode2 q = node_block (V (fs_io fs1)) inode1 q)
    \<and> (\<forall>b off. inode_place fs ino = Inr (b, off) \<longrightarrow> (\<forall>x. x \<noteq> b \<longrightarrow> V (fs_io fs2) x = V (fs_io fs1) x))
    \<and> (\<forall>j. ino_ok fs j \<and> j \<noteq> ino \<longrightarrow> disk_inode (V (fs_io fs2)) fs j = disk_inode (V (fs_io fs1)) fs j)"
proof -
  have g: "grown (napb fs) w (V (fs_io fs), inode, S) (V (fs_io fs1), inode1, S1)" and k: "keeps_inodes fs fs1"
    and st1: "map_state dinv V fs1 inode1 S1" and sg: "same_geo fs fs1" and bz: "fs_blocksize fs1 = fs_blocksize fs"
    using r by (simp_all add: reached_def)
  note nb = same_napb [OF bz]
  have d1: "dinv (fs_io fs1)" and snd: "fs_sound fs" and mi: "map_inv (V (fs_io fs1)) (napb fs1) inode1 S1"
    using st st1 by (simp_all add: map_state_def acc_ok_def)
  have l: "length (fs_group_desc fs) = unat (fs_group_desc_count fs)" using snd by (simp add: fs_sound_def ngroups_def)
  note kd = keepsD [OF k] and kp = keeps_place [OF k l]
  have ok: "ino_ok fs ino" "ino_valid fs ino" "itables_ok fs" using su(1) by (simp_all add: inode_setup_def ino_valid_def)
  have tab: "apart (V (fs_io fs1)) (napb fs) inode1 b \<and> V (fs_io fs1) b = V (fs_io fs) b"
    if "ino_ok fs j" "inode_place fs j = Inr (b, off)" for j b off
    using grown_apart [OF g, of b] su that unfolding inode_setup_def tables_used_def by blast
  have inv: "icache_inv (V (fs_io fs1)) fs1"
  proof -
    have "icache_coh (V (fs_io fs1)) (bsize fs) ic" if ic: "fs_icache fs = Some ic" for ic
    proof (cases "ic_buffer_blk ic = 0")
      case False
      then obtain j off where "ino_ok fs j" "inode_place fs j = Inr (ic_buffer_blk ic, off)"
        using su(1) ic unfolding inode_setup_def by blast
      then show ?thesis using tab su(1) ic by (simp add: inode_setup_def icache_inv_def icache_coh_def)
    qed (use su(1) ic in \<open>simp add: inode_setup_def icache_inv_def\<close>)
    then show ?thesis using su(1) by (simp add: inode_setup_def icache_inv_def kd split: option.splits)
  qed
  have i2: "i_block inode2 = i_block inode1" "length (i_block inode2) = 15"
    using mi by (simp_all add: i iblk_add_keeps map_inv_def)
  have c: "bsize fs1 = bs" "on_device fs1" "itables_ok fs1" "fs_ready fs1" "ino_valid fs1 ino" "ino_ok fs1 ino"
    using su(1) bs ok kd kp by (simp_all add: inode_setup_def bsize_def)
  obtain fs2 where w: "ext2fs_write_inode mem m fs1 ino inode2 = Some (fs2, 0)" "dinv (fs_io fs2)" "io_step fs1 fs2"
    "inode_on (V (fs_io fs2)) fs1 ino inode2"
    "\<And>b off x. inode_place fs1 ino = Inr (b, off) \<Longrightarrow> x \<noteq> b \<Longrightarrow> V (fs_io fs2) x = V (fs_io fs1) x"
    "\<And>j. ino_ok fs1 j \<Longrightarrow> j \<noteq> ino \<Longrightarrow> disk_inode (V (fs_io fs2)) fs1 j = disk_inode (V (fs_io fs1)) fs1 j"
    using write_inode_done [OF d1 c(1) inv mem c(2-5) i2(2)] by blast
  note ist = io_step_acc [OF w(3)]
  obtain b off where p: "inode_place fs ino = Inr (b, off)" using ok(2) by (auto simp: ino_valid_def)
  have p1: "inode_place fs1 ino = Inr (b, off)" using p kp(2) [OF ok(1)] by simp
  have nd: "node_block (V (fs_io fs2)) inode2 q = node_block (V (fs_io fs1)) inode1 q" if "path_ok (napb fs) q" for q
    by (rule node_block_frame [OF w(5) [OF p1] conjunct1 [OF tab [OF ok(1) p]] _ that]) (simp_all add: i2)
  have "map_inv (V (fs_io fs2)) (napb fs2) inode2 S1"
    using map_inv_same [OF mi _ i2(2), of "V (fs_io fs2)"] nd nb ist(4) by simp
  then have st2: "map_state dinv V fs2 inode2 S1" using st1 w(2) ist same_geoD [OF ist(2)] by (simp add: map_state_def)
  have on: "inode_on (V (fs_io fs2)) fs ino inode2" using w(4) kp(5) [OF ok(1)] by (simp add: inode_on_def)
  have oth: "disk_inode (V (fs_io fs2)) fs j = disk_inode (V (fs_io fs1)) fs j" if "ino_ok fs j" "j \<noteq> ino" for j
    using w(6) [of j] that kd kp(5) [OF that(1)] by simp
  have n2: "napb fs2 = napb fs" using ist(4) nb by simp
  have fr: "\<forall>b off. inode_place fs ino = Inr (b, off) \<longrightarrow> (\<forall>x. x \<noteq> b \<longrightarrow> V (fs_io fs2) x = V (fs_io fs1) x)"
    using w(5) p1 p by simp
  show ?thesis
    by (rule exI [of _ fs2], intro conjI w(1) st2 same_geo_trans [OF sg ist(2)] n2 on fr allI impI) (use nd oth in blast)+
qed

text \<open>
  The call that allocates, on every outcome: what was allocated is \<open>fs1\<close>, \<open>inode1\<close> and \<open>S1\<close>; the call ends there when
  it fails or had nothing to allocate, and writes the inode with its new count otherwise.
\<close>

lemma bmap2_alloc:
  assumes st: "map_state dinv V fs inode S" and bs: "bs = unat (fs_blocksize fs)" and mem: "alloc_total mem"
    and su: "inode_setup (V (fs_io fs)) fs ino inode" "tables_used fs S" and n: "unat n < map_limit (napb fs)"
    and i: "i_flags inode AND EXT4_EXTENTS_FL = 0" "i_flags inode AND EXT4_INLINE_DATA_FL = 0"
    and f: "flags AND BMAP_SET = 0" "flags AND BMAP_ALLOC \<noteq> 0" "flags AND BMAP_ZERO = 0"
  obtains fs1 S1 inode1 j p err fs2 inode2 where
    "bmap2_block_mapped mem m fs zb ino (Some inode) True flags n phys = Some (fs2, zb, inode2, p, err)"
    "reached dinv V (bmap_path (napb fs) (unat n)) (fs, inode, S) (fs1, inode1, S1) j" "j \<le> 4"
    "err = 0 \<and> p = ucast (bmap_lookup (V (fs_io fs1)) (napb fs) inode1 (unat n)) \<and> p \<noteq> 0 \<or> err = EXT2_ET_BLOCK_ALLOC_FAIL \<and> no_space fs1 S1"
    "inode2 = (if err = 0 \<and> 0 < j then fst (ext2fs_iblk_add_blocks fs inode1 (of_nat j)) else inode1)"
    "\<not> (err = 0 \<and> 0 < j) \<Longrightarrow> fs2 = fs1" "err = 0 \<and> 0 < j \<Longrightarrow> inode_on (V (fs_io fs2)) fs ino inode2"
    "map_state dinv V fs2 inode2 S1" "same_geo fs fs2"
    "\<And>q. path_ok (napb fs) q \<Longrightarrow> node_block (V (fs_io fs2)) inode2 q = node_block (V (fs_io fs1)) inode1 q"
    "\<And>b off x. inode_place fs ino = Inr (b, off) \<Longrightarrow> x \<noteq> b \<Longrightarrow> V (fs_io fs2) x = V (fs_io fs1) x"
    "\<And>j. ino_ok fs j \<Longrightarrow> j \<noteq> ino \<Longrightarrow> disk_inode (V (fs_io fs2)) fs j = disk_inode (V (fs_io fs1)) fs j"
proof -
  have g: "map_geom fs" using st by (simp add: map_state_def)
  have ok: "ino_ok fs ino" using su(1) by (simp add: inode_setup_def ino_valid_def)
  obtain fs1 S1 inode1 j p err where r: "bmap_blocks mem m ino flags n inode fs zb 0 = Some (fs1, zb, inode1, p, err, j, False)"
    "reached dinv V (bmap_path (napb fs) (unat n)) (fs, inode, S) (fs1, inode1, S1) j" "j \<le> 4"
    "err = 0 \<and> p = ucast (bmap_lookup (V (fs_io fs1)) (napb fs) inode1 (unat n)) \<and> p \<noteq> 0 \<or> err = EXT2_ET_BLOCK_ALLOC_FAIL \<and> no_space fs1 S1"
    using bmap_blocks_alloc [OF st bs ok n f(1,2), of mem zb] by blast
  have nb: "\<not> ext2fs_file_block_offset_too_big fs inode n" using n too_big_limit [OF g i(1)] by simp
  have call: "bmap2_block_mapped mem m fs zb ino (Some inode) True flags n phys = bmap_done mem m ino flags (fs1, zb, inode1, p, err, j, False)"
    unfolding bmap2_block_mapped_def using r(1) nb i f(1) by simp
  show ?thesis
  proof (cases "err = 0 \<and> 0 < j")
    case False
    then have c: "bmap2_block_mapped mem m fs zb ino (Some inode) True flags n phys = Some (fs1, zb, inode1, p, err)"
      unfolding call bmap_done_def using f(3) by auto
    have g1: "same_geo fs fs1" using r(2) by (simp add: reached_def)
    show ?thesis by (rule that [OF c r(2-4) _ _ _ reached_state [OF r(2)] g1]) (use False in auto)
  next
    case True
    have k: "keeps_inodes fs fs1" using r(2) by (simp add: reached_def)
    define inode2 where "inode2 = fst (ext2fs_iblk_add_blocks fs1 inode1 (of_nat j))"
    have i2: "inode2 = fst (ext2fs_iblk_add_blocks fs inode1 (of_nat j))" by (simp add: inode2_def keepsD(8) [OF k])
    obtain fs2 where w: "ext2fs_write_inode mem m fs1 ino inode2 = Some (fs2, 0)" "map_state dinv V fs2 inode2 S1" "same_geo fs fs2"
      "inode_on (V (fs_io fs2)) fs ino inode2"
      "\<And>q. path_ok (napb fs) q \<Longrightarrow> node_block (V (fs_io fs2)) inode2 q = node_block (V (fs_io fs1)) inode1 q"
      "\<And>b off x. inode_place fs ino = Inr (b, off) \<Longrightarrow> x \<noteq> b \<Longrightarrow> V (fs_io fs2) x = V (fs_io fs1) x"
      "\<And>j. ino_ok fs j \<Longrightarrow> j \<noteq> ino \<Longrightarrow> disk_inode (V (fs_io fs2)) fs j = disk_inode (V (fs_io fs1)) fs j"
      using alloc_write [OF st bs mem su r(2) inode2_def] by blast
    have c: "bmap2_block_mapped mem m fs zb ino (Some inode) True flags n phys = Some (fs2, zb, inode2, p, err)"
      unfolding call bmap_done_def using True f(3) w(1) by (simp add: inode2_def Let_def)
    show ?thesis by (rule that [OF c r(2-4) _ _ w(4) w(2,3,5-7)]) (use True i2 in auto)
  qed
qed

section \<open>Setting a direct block\<close>

lemma bmap2_set_direct:
  assumes d: "dinv (fs_io fs)" and g: "map_geom fs" and bs: "bs = unat (fs_blocksize fs)" and mem: "alloc_total mem"
    and su: "inode_setup (V (fs_io fs)) fs ino inode" and n: "unat n < 12" and l: "length (i_block inode) = 15"
    and i: "i_flags inode AND EXT4_EXTENTS_FL = 0" "i_flags inode AND EXT4_INLINE_DATA_FL = 0"
    and i1: "inode1 = inode\<lparr>i_block := (i_block inode)[unat n := ucast phys]\<rparr>"
  shows "\<exists>fs1. bmap2_block_mapped mem m fs zb ino (Some inode) True BMAP_SET n phys = Some (fs1, zb, inode1, phys, 0)
    \<and> dinv (fs_io fs1) \<and> inode_on (V (fs_io fs1)) fs ino inode1
    \<and> (\<forall>j. ino_ok fs j \<and> j \<noteq> ino \<longrightarrow> disk_inode (V (fs_io fs1)) fs j = disk_inode (V (fs_io fs)) fs j)
    \<and> (\<forall>k < map_limit (napb fs). bmap_lookup (V (fs_io fs1)) (napb fs) inode1 k
        = (if k = unat n then ucast phys else bmap_lookup (V (fs_io fs)) (napb fs) inode k))"
proof -
  have nl: "unat n < map_limit (napb fs)" using n by (simp add: map_limit_def)
  have nb: "\<not> ext2fs_file_block_offset_too_big fs inode n" using nl too_big_limit [OF g i(1)] by simp
  have lt: "n < 12" using n by (simp add: word_less_nat_alt)
  have call: "bmap2_block_mapped mem m fs zb ino (Some inode) True BMAP_SET n phys = bmap_done mem m ino BMAP_SET (fs, zb, inode1, phys, 0, 0, True)"
    unfolding bmap2_block_mapped_def using nb i lt by (simp add: bmap_blocks_def bmap_direct_def i1 Let_def)
  have s: "bsize fs = bs" "icache_inv (V (fs_io fs)) fs" "on_device fs" "itables_ok fs" "fs_ready fs" "ino_valid fs ino" "ino_ok fs ino"
    using su bs by (simp_all add: inode_setup_def bsize_def ino_valid_def)
  have l1: "length (i_block inode1) = 15" using l by (simp add: i1)
  obtain fs1 where w: "ext2fs_write_inode mem m fs ino inode1 = Some (fs1, 0)" "dinv (fs_io fs1)" "inode_on (V (fs_io fs1)) fs ino inode1"
    "\<And>b off x. inode_place fs ino = Inr (b, off) \<Longrightarrow> x \<noteq> b \<Longrightarrow> V (fs_io fs1) x = V (fs_io fs) x"
    "\<forall>j. ino_ok fs j \<and> j \<noteq> ino \<longrightarrow> disk_inode (V (fs_io fs1)) fs j = disk_inode (V (fs_io fs)) fs j"
    using write_inode_done [OF d s(1,2) mem s(3-6) l1] by blast
  have c: "bmap2_block_mapped mem m fs zb ino (Some inode) True BMAP_SET n phys = Some (fs1, zb, inode1, phys, 0)"
    unfolding call bmap_done_def using w(1) iblk_add_0 [of fs inode1] by simp
  obtain b off where p: "inode_place fs ino = Inr (b, off)" using s(6) by (auto simp: ino_valid_def)
  have ap: "apart (V (fs_io fs)) (napb fs) inode b" using su s(7) p unfolding inode_setup_def by blast
  have "bmap_lookup (V (fs_io fs1)) (napb fs) inode1 k = (if k = unat n then ucast phys else bmap_lookup (V (fs_io fs)) (napb fs) inode k)"
    if k: "k < map_limit (napb fs)" for k
  proof (cases "k < 12")
    case True
    then show ?thesis using l n by (simp add: bmap_lookup_def bmap_path_def i1 nth_list_update)
  next
    case False
    have pk: "path_ok (napb fs) (bmap_path (napb fs) k)" "12 \<le> fst (bmap_path (napb fs) k)"
    proof -
      have a: "0 < napb fs" using map_geom(2) [OF g] by simp
      obtain r js x where "bmap_path (napb fs) k = (r, js @ [x])" "tree_node (napb fs) (r, js)" "x < napb fs"
        using bmap_path_split [OF a, of k] k False unfolding map_limit_def by auto
      then show "path_ok (napb fs) (bmap_path (napb fs) k)" "12 \<le> fst (bmap_path (napb fs) k)"
        using tree_node_path [of "napb fs" r js x] by (auto simp: tree_node_def)
    qed
    have r: "i_block inode1 ! fst (bmap_path (napb fs) k) = i_block inode ! fst (bmap_path (napb fs) k)"
      using pk(2) n by (simp add: i1)
    have "node_block (V (fs_io fs1)) inode1 (bmap_path (napb fs) k) = node_block (V (fs_io fs)) inode (bmap_path (napb fs) k)"
      by (rule node_block_frame [OF w(4) [OF p] ap r pk(1)])
    then show ?thesis using False n by (auto simp: bmap_lookup_def node_block_def split: prod.splits)
  qed
  then show ?thesis using c w(2,3,5) by blast
qed

end

end
