(* ===== verification/Bmap_Theorems.thy ===== *)
theory Bmap_Theorems
  imports Bmap_call Inode_Theorems
begin

text \<open>
  The theorems about the block map of an inode without extents: what a lookup finds, what setting a block
  changes and what allocating a block changes.
\<close>

lemma path_full: "k < map_limit a \<Longrightarrow> 0 < a \<Longrightarrow> path_ok a (bmap_path a k) \<and> (fst (bmap_path a k) < 12 \<or> length (snd (bmap_path a k)) = fst (bmap_path a k) - 11)"
proof (cases "k < 12")
  case False
  assume k: "k < map_limit a" "0 < a"
  then have "k < 12 + a + a * a + a * a * a" by (simp add: map_limit_def)
  then obtain r "is" j where "bmap_path a k = (r, is @ [j])" "tree_node a (r, is)" "length is = r - 12" "j < a"
    using bmap_path_split [of a k] k(2) False by (metis not_less)
  then show ?thesis using tree_node_path [of a r "is" j] by (auto simp: tree_node_def)
qed (simp add: bmap_path_def path_ok_def)

lemma grown_lookup:
  assumes g: "grown a (bmap_path a n) (v, inode, S) (v', inode', S')" and k: "k < map_limit a" "n < map_limit a" "0 < a"
    and c: "bmap_lookup v' a inode' k \<noteq> bmap_lookup v a inode k"
  shows "k = n" "bmap_lookup v a inode k = 0" "unat (bmap_lookup v' a inode' k) \<notin> S"
proof -
  have look: "bmap_lookup v a i k = node_block v i (bmap_path a k)" for v i
    by (simp add: bmap_lookup_def node_block_def split: prod.split)
  have g': "node_block v inode (bmap_path a k) = 0 \<and> unat (node_block v' inode' (bmap_path a k)) \<notin> S
      \<and> (\<exists>t. bmap_path a n = (fst (bmap_path a k), snd (bmap_path a k) @ t))"
    using g path_full [OF k(1,3)] c unfolding grown_def prod.case look by blast
  then show "bmap_lookup v a inode k = 0" "unat (bmap_lookup v' a inode' k) \<notin> S" by (simp_all add: look)
  obtain t where t: "bmap_path a n = (fst (bmap_path a k), snd (bmap_path a k) @ t)" using g' by blast
  then have "t = []" using path_full [OF k(1,3)] path_full [OF k(2,3)] by (auto simp: path_ok_def)
  then have "bmap_path a k = bmap_path a n" using t by simp
  then show "k = n" by (rule bmap_path_inj)
qed


section \<open>A small file system\<close>

text \<open>
  Sixteen blocks of 1024 bytes in two groups, five of them in use; the inode tables are the blocks 3 and 5, and
  every byte of the device is 7.
\<close>

definition bm_fs :: "(int \<Rightarrow> u8) ext2_handle" where
  "bm_fs = \<lparr>fs_magic = EXT2_ET_MAGIC_EXT2FS_FILSYS, fs_flags = 1,
     fs_super = zero_super\<lparr>s_blocks_count := 16, s_blocks_per_group := 8, s_free_blocks_count := 11, s_inodes_count := 16, s_inodes_per_group := 8\<rparr>,
     fs_blocksize = 1024, fs_group_desc_count = 2, fs_desc_blocks = 1,
     fs_group_desc = [zero_desc\<lparr>bg_free_blocks_count := 3, bg_inode_table := 3\<rparr>, zero_desc\<lparr>bg_free_blocks_count := 8, bg_inode_table := 5\<rparr>],
     fs_inode_blocks_per_group = 1, fs_cluster_ratio_bits = 0, fs_default_bitmap_type = 0, fs_csum_seed = 0,
     fs_block_map = Some (al_map [0x79, 0]), fs_inode_map = None,
     fs_io = ino_ch, fs_image_io = None, fs_offset_inode = 0, fs_icache = None, fs_now = 0, fs_badblocks = None\<rparr>"

definition bm_inode :: "u32 \<Rightarrow> ext2_inode" where
  "bm_inode b = zero_inode\<lparr>i_block := (replicate 15 0)[12 := b]\<rparr>"

definition bm_zb :: zero_buf where
  "bm_zb = \<lparr>zb_stride = 0, zb_buf = (0, [])\<rparr>"

lemma bm_facts:
  "fdb bm_fs = 0" "nblocks bm_fs = 16" "bpg bm_fs = 8" "ngroups bm_fs = 2"
  "fs_sound bm_fs" "map_frame bm_fs = \<lparr>fr_start = 0, fr_end = 15, fr_bits = 0\<rparr>"
  "blocks_of bm_fs = {0 ..< 16}" "group_blocks bm_fs 0 = {0 ..< 8}" "group_blocks bm_fs 1 = {8 ..< 16}"
  "fs_block_map bm_fs = Some (al_map [0x79, 0])" "fs_io bm_fs = ino_ch" "fs_blocksize bm_fs = 1024"
proof -
  show f: "fdb bm_fs = 0" "nblocks bm_fs = 16" "bpg bm_fs = 8" "ngroups bm_fs = 2"
    by (simp_all add: bm_fs_def fdb_def nblocks_def bpg_def ngroups_def zero_super_def ext2fs_blocks_count_def has_feature_incompat_def)
  show "fs_sound bm_fs" using f by (simp add: fs_sound_def fs_geom_def) (simp add: bm_fs_def)
  show "map_frame bm_fs = \<lparr>fr_start = 0, fr_end = 15, fr_bits = 0\<rparr>"
    by (simp add: map_frame_def bm_fs_def zero_super_def ext2fs_blocks_count_def has_feature_incompat_def)
  show b: "blocks_of bm_fs = {0 ..< 16}" by (simp add: blocks_of_def f)
  show "group_blocks bm_fs 0 = {0 ..< 8}" "group_blocks bm_fs 1 = {8 ..< 16}" unfolding group_blocks_def b f by auto
qed (simp_all add: bm_fs_def)

lemma bm_bits: "{n. n < 16 \<and> bit_at [0x79, 0] n} = {0, 3, 4, 5, 6}"
proof -
  have "{n. n < 16 \<and> bit_at [0x79, 0] n} = set (filter (bit_at [0x79, 0]) [0 ..< 16])" by auto
  also have "\<dots> = {0, 3, 4, 5, 6}" by (simp add: upt_rec bit_at_def, simp add: eval_nat_numeral)
  finally show ?thesis .
qed

lemma bm_acc: "acc_ok bm_fs {0, 3, 4, 5, 6}"
  unfolding acc_ok_def bm_facts
proof (intro conjI allI impI)
  show "\<exists>g. Some (al_map [0x79, 0]) = Some g \<and> map_is g \<lparr>fr_start = 0, fr_end = 15, fr_bits = 0\<rparr> {0, 3, 4, 5, 6}"
    using al_map(1) [of "[0x79, 0]"] bm_bits by simp
  have c: "{0 ..< 8} - {0, 3, 4, 5, 6 :: nat} = {1, 2, 7}" "{8 ..< 16} - {0, 3, 4, 5, 6 :: nat} = {8 ..< 16}" by auto
  fix i :: nat assume "i < 2"
  then consider "i = 0" | "i = 1" by linarith
  then show "unat (ext2fs_bg_free_blocks_count bm_fs (of_nat i)) = card (group_blocks bm_fs i - {0, 3, 4, 5, 6})"
  proof cases
    case 1
    have "ext2fs_bg_free_blocks_count bm_fs 0 = 3"
      by (simp add: ext2fs_bg_free_blocks_count_def ext4fs_group_desc_def ext2fs_group_desc_def bm_fs_def zero_super_def has_feature_incompat_def)
    then show ?thesis using 1 by (simp add: bm_facts c)
  next
    case 2
    have "ext2fs_bg_free_blocks_count bm_fs 1 = 8"
      by (simp add: ext2fs_bg_free_blocks_count_def ext4fs_group_desc_def ext2fs_group_desc_def bm_fs_def zero_super_def has_feature_incompat_def)
    moreover have "card (group_blocks bm_fs 1 - {0, 3, 4, 5, 6}) = 8" unfolding bm_facts c by simp
    ultimately show ?thesis using 2 by simp
  qed
next
  have "{0 ..< 16} - {0, 3, 4, 5, 6 :: nat} = {1, 2} \<union> {7 ..< 16}" by auto
  moreover have "card ({1, 2} \<union> {7 ..< 16 :: nat}) = 11" by (subst card_Un_disjoint) auto
  ultimately show "unat (ext2fs_free_blocks_count (fs_super bm_fs)) = card ({0 ..< 16} - {0, 3, 4, 5, 6 :: nat})"
    by (simp add: bm_fs_def zero_super_def ext2fs_free_blocks_count_def has_feature_incompat_def)
qed (rule bm_facts)

lemma bm_geom: "map_geom bm_fs" "napb bm_fs = 256" "ino_ok bm_fs 1"
  by (simp_all add: map_geom_def napb_def bm_facts ino_ok_def ino_group_def) (simp_all add: bm_fs_def zero_super_def)

lemma bm_dev: "xnu_dev mem_ops (\<lambda>d. d) 1024 (fs_io bm_fs) \<and> vnode_readable mem_ops"
  by (simp add: bm_facts ino_dev)

lemma bm_roots: "i_block (bm_inode b) ! k = (if k = 12 then b else 0)" if "k < 15"
  using that by (simp add: bm_inode_def zero_inode_def nth_list_update)

lemma bm_node: "path_ok a p \<Longrightarrow> fst p \<noteq> 12 \<or> b = 0 \<Longrightarrow> node_block v (bm_inode b) p = 0"
  by (cases p) (auto simp: node_block_def path_ok_def bm_roots split: if_splits)

lemma bm_flags: "i_flags (bm_inode b) = 0"
  by (simp add: bm_inode_def zero_inode_def)

lemma bm_tree: "tree_ok v a (bm_inode b)"
proof -
  have "p = (12, [])" if "tree_node a p" "node_block v (bm_inode b) p \<noteq> 0" for p
    using bm_node [OF path_ok_node [OF that(1)], of b v] that by (cases p) (auto simp: tree_node_def)
  then show ?thesis unfolding tree_ok_def by metis
qed

lemma bm_view: "view (\<lambda>d. d) ino_ch b = replicate 1024 7"
proof -
  have "\<not> cached_at ino_ch i b" for i by (auto simp: cached_at_def ino_ch_def mem_ch_def empty_entry_def)
  then show ?thesis by (subst view_uncached) (auto simp: dev_bytes_def ino_ch_def mem_ch_def map_replicate_const)
qed

lemma bm_sevens: "4 * i + 3 < 1024 \<Longrightarrow> get32 (replicate 1024 7) (4 * i) = 0x07070707"
  by (simp add: get32_def get16_def)

lemma bm_lookup: "k < 256 \<Longrightarrow> bmap_lookup (view (\<lambda>d. d) ino_ch) 256 (bm_inode 9) (12 + k) = 0x07070707"
  by (simp add: bmap_lookup_def bmap_path_def ind_entry_def bm_roots bm_view bm_sevens)

lemma bm_state: "map_state (\<lambda>io. xnu_dev mem_ops (\<lambda>d. d) 1024 io \<and> vnode_readable mem_ops) (view (\<lambda>d. d)) bm_fs (bm_inode 0) {0, 3, 4, 5, 6}"
proof -
  have "map_inv (view (\<lambda>d. d) (fs_io bm_fs)) (napb bm_fs) (bm_inode 0) {0, 3, 4, 5, 6}"
    using bm_tree bm_node by (auto simp: map_inv_def bm_inode_def)
  then show ?thesis using bm_acc bm_geom bm_dev by (simp add: map_state_def bm_facts)
qed

lemma bm_super: "isize bm_fs = 128" "bsize bm_fs = 1024" "itable_len bm_fs = 2"
  by (simp_all add: bm_fs_def isize_def bsize_def itable_len_def EXT2_INODE_SIZE_def zero_super_def)

lemma bm_table: "g < 2 \<Longrightarrow> ext2fs_inode_table_loc bm_fs g = (if g = 0 then 3 else 5)"
proof -
  assume "g < (2 :: u32)"
  then have "g = 0 \<or> g = 1" by (simp add: word_less_nat_alt word_unat_eq_iff) linarith
  then show ?thesis
    by (auto simp: ext2fs_inode_table_loc_def ext4fs_group_desc_def ext2fs_group_desc_def bm_fs_def zero_super_def has_feature_incompat_def)
qed

lemma bm_group: "ino_ok bm_fs j \<Longrightarrow> (j - 1) div 8 < 2"
  by (simp add: ino_ok_def ino_group_def bm_fs_def zero_super_def)

lemma bm_place:
  assumes "ino_ok bm_fs j"
  shows "\<exists>off. inode_place bm_fs j = Inr (if (j - 1) div 8 = 0 then 3 else 5, off)"
proof -
  define off where "off = ((j - 1) mod 8) * (128 :: u32)"
  have "unat ((j - 1) mod 8) < 8" by (simp add: unat_mod)
  then have "unat off < 1024" by (simp add: off_def unat_word_ariths)
  then have o: "drop_bit 10 off = 0" by (simp add: word_unat_eq_iff drop_bit_eq_div unat_div)
  note t = bm_table [OF bm_group [OF assms]]
  have f: "s_inodes_per_group (fs_super bm_fs) = 8" "ucast (EXT2_INODE_SIZE (fs_super bm_fs)) = (128 :: u32)"
    "s_log_block_size (fs_super bm_fs) = 0" "s_first_data_block (fs_super bm_fs) = 0" "fs_inode_blocks_per_group bm_fs = 1"
    "ext2fs_blocks_count (fs_super bm_fs) = 16"
    by (simp_all add: bm_fs_def zero_super_def EXT2_INODE_SIZE_def ext2fs_blocks_count_def has_feature_incompat_def)
  show ?thesis unfolding inode_place_def f Let_def t using o by (simp add: off_def [symmetric])
qed

lemma bm_apart: "apart v (napb bm_fs) (bm_inode b) 3 \<and> apart v (napb bm_fs) (bm_inode b) 5" if "b \<noteq> 3" "b \<noteq> 5"
proof -
  have n: "node_block v (bm_inode b) q = (if q = (12, []) then b else 0)" if q: "tree_node (napb bm_fs) q" for q
    using q bm_node [OF path_ok_node [OF q], of b v] by (cases q) (auto simp: tree_node_def node_block_root bm_roots)
  have u: "(ucast b :: u64) = 3 \<longleftrightarrow> b = 3" "(ucast b :: u64) = 5 \<longleftrightarrow> b = 5"
    using ucast_up_inj [of b 3] ucast_up_inj [of b 5] by auto
  show ?thesis unfolding apart_def using n u that by simp
qed

lemma bm_setup:
  assumes "b \<noteq> 3" "b \<noteq> 5"
  shows "inode_setup v bm_fs 1 (bm_inode b)" "tables_used bm_fs {0, 3, 4, 5, 6}"
proof -
  have p: "c = 3 \<or> c = 5" if "ino_ok bm_fs j" "inode_place bm_fs j = Inr (c, off)" for j c off
    using bm_place [OF that(1)] that(2) by (auto split: if_splits)
  have t: "itables_ok bm_fs"
    unfolding itables_ok_def
  proof (intro conjI allI impI)
    fix g h assume "g < fs_group_desc_count bm_fs \<and> h < fs_group_desc_count bm_fs \<and> g \<noteq> h"
    then have l: "g < 2" "h < 2" "g \<noteq> h" by (simp_all add: bm_fs_def)
    then have "g = 0 \<and> h = 1 \<or> g = 1 \<and> h = 0" by (auto simp: word_less_nat_alt word_unat_eq_iff)
    then show "unat (ext2fs_inode_table_loc bm_fs g) + itable_len bm_fs \<le> unat (ext2fs_inode_table_loc bm_fs h)
          \<or> unat (ext2fs_inode_table_loc bm_fs h) + itable_len bm_fs \<le> unat (ext2fs_inode_table_loc bm_fs g)"
      using bm_table [OF l(1)] bm_table [OF l(2)] by (auto simp: bm_super)
  next
    fix g assume "g < fs_group_desc_count bm_fs"
    then have "g < 2" by (simp add: bm_fs_def)
    then show "unat (ext2fs_inode_table_loc bm_fs g) + itable_len bm_fs < 2 ^ 64" using bm_table [of g] by (simp add: bm_super)
  qed (simp_all add: bm_super, simp_all add: bm_fs_def zero_super_def)
  have r: "fs_ready bm_fs" "ino_valid bm_fs 1" "on_device bm_fs" "icache_inv v bm_fs" "fs_icache bm_fs = None"
    using bm_geom(3) bm_place [of 1] by (simp_all add: fs_ready_def ino_valid_def on_device_def icache_inv_def bm_super)
      (auto simp: bm_fs_def zero_super_def has_feature_incompat_def)
  show "inode_setup v bm_fs 1 (bm_inode b)" unfolding inode_setup_def using r t p bm_apart [OF assms] by fastforce
  show "tables_used bm_fs {0, 3, 4, 5, 6}" unfolding tables_used_def using p by force
qed

section \<open>The theorems\<close>

text \<open>
  C10. \<open>ext2fs_bmap2\<close> for an inode without extents, on every path that need not allocate: it returns the block
  that the pointer path of \<open>n\<close> leads to (0 when the path ends early), through up to three levels of indirect
  blocks, and changes nothing, neither the inode nor the device. Asking to allocate makes no difference
  for a block that is mapped.
\<close>

theorem bmap_get:
  assumes "xnu_dev ops content (unat (fs_blocksize fs)) (fs_io fs) \<and> vnode_readable ops" "map_geom fs" "unat n < map_limit (napb fs)"
    "i_flags inode AND EXT4_EXTENTS_FL = 0" "i_flags inode AND EXT4_INLINE_DATA_FL = 0"
    "flags AND BMAP_SET = 0" "flags AND BMAP_ZERO = 0"
    "flags AND BMAP_ALLOC = 0 \<or> bmap_lookup (view content (fs_io fs)) (napb fs) inode (unat n) \<noteq> 0"
  shows "\<exists>io. bmap2_block_mapped mem (xnu_io_manager ops) fs zb ino (Some inode) True flags n phys
      = Some (fs\<lparr>fs_io := io\<rparr>, zb, inode, ucast (bmap_lookup (view content (fs_io fs)) (napb fs) inode (unat n)), 0)
    \<and> view content io = view content (fs_io fs)"
  using xdev32.bmap2_get [OF assms] by blast

theorem bmap_get_witness:
  "\<exists>io. bmap2_block_mapped ino_mem (xnu_io_manager mem_ops) bm_fs bm_zb 1 (Some (bm_inode 9)) True BMAP_ALLOC 20 0
    = Some (bm_fs\<lparr>fs_io := io\<rparr>, bm_zb, bm_inode 9, 0x07070707, 0)"
proof -
  have l: "bmap_lookup (view (\<lambda>d. d) (fs_io bm_fs)) (napb bm_fs) (bm_inode 9) (unat (20 :: u64)) = 0x07070707"
    using bm_lookup [of 8] by (simp add: bm_facts bm_geom)
  show ?thesis
    using bmap_get [of mem_ops "\<lambda>d. d" bm_fs 20 "bm_inode 9" BMAP_ALLOC ino_mem bm_zb 1 0] l bm_dev
    by (auto simp: bm_facts bm_geom bm_flags map_limit_def)
qed

text \<open>
  C16. Setting the block \<open>n\<close> of an inode whose indirect blocks are distinct. A direct block is set in the inode, and
  the inode is written to the device, where it is found with the new pointer while every other inode is what it
  was. Behind the direct blocks, the call fails and changes nothing when the indirect block of the path is missing,
  and otherwise sets the number in that block without touching the inode. In each case that succeeds a lookup of \<open>n\<close>
  finds the number, cut to 32 bits, and every other block of the file is found where it was. Writing the inode needs an
  allocator that does not fail and a handle whose inode can be written (\<open>inode_setup\<close>).
\<close>

theorem bmap_set_updates:
  assumes "xnu_dev ops content (unat (fs_blocksize fs)) (fs_io fs) \<and> vnode_readable ops" "map_geom fs" "unat n < map_limit (napb fs)"
    "i_flags inode AND EXT4_EXTENTS_FL = 0" "i_flags inode AND EXT4_INLINE_DATA_FL = 0"
    "tree_ok (view content (fs_io fs)) (napb fs) inode"
    "unat n < 12 \<Longrightarrow> alloc_total mem \<and> inode_setup (view content (fs_io fs)) fs ino inode \<and> length (i_block inode) = 15"
  shows "\<exists>fs1 inode1 p err. bmap2_block_mapped mem (xnu_io_manager ops) fs zb ino (Some inode) True BMAP_SET n phys
      = Some (fs1, zb, inode1, p, err)
    \<and> err = (if 12 \<le> unat n \<and> node_block (view content (fs_io fs)) inode (ind_of (napb fs) (unat n)) = 0
              then EXT2_ET_SET_BMAP_NO_IND else 0)
    \<and> inode1 = (if unat n < 12 then inode\<lparr>i_block := (i_block inode)[unat n := ucast phys]\<rparr> else inode)
    \<and> (\<forall>k < map_limit (napb fs). bmap_lookup (view content (fs_io fs1)) (napb fs) inode1 k
        = (if err = 0 \<and> k = unat n then ucast phys else bmap_lookup (view content (fs_io fs)) (napb fs) inode k))
    \<and> (if unat n < 12
        then inode_on (view content (fs_io fs1)) fs ino inode1
          \<and> (\<forall>j. ino_ok fs j \<and> j \<noteq> ino \<longrightarrow> disk_inode (view content (fs_io fs1)) fs j = disk_inode (view content (fs_io fs)) fs j)
        else fs1 = fs\<lparr>fs_io := fs_io fs1\<rparr>)"
proof (cases "unat n < 12")
  case True
  then have a: "alloc_total mem" "inode_setup (view content (fs_io fs)) fs ino inode" "length (i_block inode) = 15" using assms(7) by blast+
  show ?thesis
    using xdev32.bmap2_set_direct [OF assms(1,2) refl a(1,2) True a(3) assms(4,5) refl, of zb phys] True
    by (elim exE conjE, intro exI conjI) (assumption | simp)+
next
  case False
  then have n: "12 \<le> unat n" by simp
  obtain io p err where r: "bmap2_block_mapped mem (xnu_io_manager ops) fs zb ino (Some inode) True BMAP_SET n phys
      = Some (fs\<lparr>fs_io := io\<rparr>, zb, inode, p, err)"
    "err = (if node_block (view content (fs_io fs)) inode (ind_of (napb fs) (unat n)) = 0 then EXT2_ET_SET_BMAP_NO_IND else 0)"
    "\<forall>k < map_limit (napb fs). bmap_lookup (view content io) (napb fs) inode k
        = (if err = 0 \<and> k = unat n then ucast phys else bmap_lookup (view content (fs_io fs)) (napb fs) inode k)"
    using xdev32.bmap2_set [OF assms(1,2) n assms(3) refl assms(4-6), of mem zb ino phys] by blast
  show ?thesis
    by (rule exI [of _ "fs\<lparr>fs_io := io\<rparr>"], rule exI [of _ inode], rule exI [of _ p], rule exI [of _ err]) (use r n in simp)
qed

theorem bmap_set_updates_witness:
  "(\<exists>io p. bmap2_block_mapped ino_mem (xnu_io_manager mem_ops) bm_fs bm_zb 1 (Some (bm_inode 9)) True BMAP_SET 20 0x100000005
      = Some (bm_fs\<lparr>fs_io := io\<rparr>, bm_zb, bm_inode 9, p, 0)
    \<and> bmap_lookup (view (\<lambda>d. d) io) 256 (bm_inode 9) 20 = 5 \<and> bmap_lookup (view (\<lambda>d. d) io) 256 (bm_inode 9) 21 = 0x07070707)
   \<and> (\<exists>fs1 p. bmap2_block_mapped ino_mem (xnu_io_manager mem_ops) bm_fs bm_zb 1 (Some (bm_inode 9)) True BMAP_SET 2 0x100000005
      = Some (fs1, bm_zb, (bm_inode 9)\<lparr>i_block := (i_block (bm_inode 9))[2 := 5]\<rparr>, p, 0)
    \<and> inode_on (view (\<lambda>d. d) (fs_io fs1)) bm_fs 1 ((bm_inode 9)\<lparr>i_block := (i_block (bm_inode 9))[2 := 5]\<rparr>))"
proof
  have "node_block (view (\<lambda>d. d) ino_ch) (bm_inode 9) (ind_of 256 20) = 9"
    by (simp add: ind_of_def bmap_path_def node_block_def bm_roots)
  then obtain fs1 p where r: "bmap2_block_mapped ino_mem (xnu_io_manager mem_ops) bm_fs bm_zb 1 (Some (bm_inode 9)) True BMAP_SET 20 0x100000005
      = Some (fs1, bm_zb, bm_inode 9, p, 0)" "fs1 = bm_fs\<lparr>fs_io := fs_io fs1\<rparr>"
    "\<And>k. k < map_limit 256 \<Longrightarrow> bmap_lookup (view (\<lambda>d. d) (fs_io fs1)) 256 (bm_inode 9) k
      = (if k = 20 then 5 else bmap_lookup (view (\<lambda>d. d) ino_ch) 256 (bm_inode 9) k)"
    using bmap_set_updates [of mem_ops "\<lambda>d. d" bm_fs 20 "bm_inode 9" ino_mem 1 bm_zb "0x100000005"] bm_dev bm_tree
    by (auto simp: bm_facts bm_geom bm_flags map_limit_def)
  have l: "20 < map_limit 256" "21 < map_limit 256" by (simp_all add: map_limit_def)
  have x: "bmap_lookup (view (\<lambda>d. d) ino_ch) 256 (bm_inode 9) 21 = 0x07070707" using bm_lookup [of 9] by simp
  show "\<exists>io p. bmap2_block_mapped ino_mem (xnu_io_manager mem_ops) bm_fs bm_zb 1 (Some (bm_inode 9)) True BMAP_SET 20 0x100000005
      = Some (bm_fs\<lparr>fs_io := io\<rparr>, bm_zb, bm_inode 9, p, 0)
    \<and> bmap_lookup (view (\<lambda>d. d) io) 256 (bm_inode 9) 20 = 5 \<and> bmap_lookup (view (\<lambda>d. d) io) 256 (bm_inode 9) 21 = 0x07070707"
    using r(1) r(3) [OF l(1)] r(3) [OF l(2)] x r(2) by (intro exI [of _ "fs_io fs1"] exI [of _ p]) simp
next
  have s: "inode_setup (view (\<lambda>d. d) (fs_io bm_fs)) bm_fs 1 (bm_inode 9)" by (rule bm_setup) simp_all
  have l: "length (i_block (bm_inode 9)) = 15" and u: "(0x100000005 :: u32) = 5" by (simp_all add: bm_inode_def)
  show "\<exists>fs1 p. bmap2_block_mapped ino_mem (xnu_io_manager mem_ops) bm_fs bm_zb 1 (Some (bm_inode 9)) True BMAP_SET 2 0x100000005
      = Some (fs1, bm_zb, (bm_inode 9)\<lparr>i_block := (i_block (bm_inode 9))[2 := 5]\<rparr>, p, 0)
    \<and> inode_on (view (\<lambda>d. d) (fs_io fs1)) bm_fs 1 ((bm_inode 9)\<lparr>i_block := (i_block (bm_inode 9))[2 := 5]\<rparr>)"
    using bmap_set_updates [of mem_ops "\<lambda>d. d" bm_fs 2 "bm_inode 9" ino_mem 1 bm_zb "0x100000005"] bm_dev bm_tree s l ino_mem_total
    by (auto simp: bm_facts bm_geom bm_flags map_limit_def u)
qed

text \<open>
  C22. The call of \<open>ext2fs_bmap2\<close> that allocates the block \<open>n\<close> of an inode, with the roots and the indirect blocks that are
  missing on its path, over a device and an allocator that do not fail. It always returns, and fails only
  when every block is in use. When it succeeds, a lookup of \<open>n\<close> finds the block that is
  returned, a new block if there was none, the count of the inode went up by the number of blocks
  taken, and the inode on the device is that inode. When it fails on the way, the blocks taken so far stay
  taken, while the count and the inode on the device are what they were. Either way every other block of the file
  is found where it was; the free counts, the map of blocks in use and the shape of the trees stay right; every
  other inode is what it was; and blocks in use change only when they are indirect blocks of the inode or hold
  it.
\<close>

theorem bmap_alloc_grows:
  assumes "map_state (\<lambda>io. xnu_dev ops content (unat (fs_blocksize fs)) io \<and> vnode_readable ops) (view content) fs inode S"
    "alloc_total mem" "inode_setup (view content (fs_io fs)) fs ino inode" "tables_used fs S" "unat n < map_limit (napb fs)"
    "i_flags inode AND EXT4_EXTENTS_FL = 0" "i_flags inode AND EXT4_INLINE_DATA_FL = 0"
    "flags AND BMAP_SET = 0" "flags AND BMAP_ALLOC \<noteq> 0" "flags AND BMAP_ZERO = 0"
  shows "\<exists>fs1 S1 inode1 bs j p err. bmap2_block_mapped mem (xnu_io_manager ops) fs zb ino (Some inode) True flags n phys
      = Some (fs1, zb, inode1, p, err)
    \<and> map_state (\<lambda>io. xnu_dev ops content (unat (fs_blocksize fs)) io \<and> vnode_readable ops) (view content) fs1 inode1 S1
    \<and> same_geo fs fs1 \<and> S \<subseteq> S1 \<and> card S1 = card S + j \<and> j \<le> 4
    \<and> (err = 0 \<and> p \<noteq> 0 \<and> p = ucast (bmap_lookup (view content (fs_io fs1)) (napb fs) inode1 (unat n))
         \<and> (if j = 0 then inode1 = inode\<lparr>i_block := bs\<rparr>
             else inode1 = fst (ext2fs_iblk_add_blocks fs (inode\<lparr>i_block := bs\<rparr>) (of_nat j))
               \<and> inode_on (view content (fs_io fs1)) fs ino inode1)
       \<or> err = EXT2_ET_BLOCK_ALLOC_FAIL \<and> blocks_of fs \<subseteq> S1 \<and> inode1 = inode\<lparr>i_block := bs\<rparr>
         \<and> disk_inode (view content (fs_io fs1)) fs ino = disk_inode (view content (fs_io fs)) fs ino)
    \<and> (\<forall>k < map_limit (napb fs).
         bmap_lookup (view content (fs_io fs1)) (napb fs) inode1 k \<noteq> bmap_lookup (view content (fs_io fs)) (napb fs) inode k \<longrightarrow>
         k = unat n \<and> bmap_lookup (view content (fs_io fs)) (napb fs) inode k = 0
         \<and> unat (bmap_lookup (view content (fs_io fs1)) (napb fs) inode1 k) \<notin> S)
    \<and> (\<forall>i. ino_ok fs i \<and> i \<noteq> ino \<longrightarrow> disk_inode (view content (fs_io fs1)) fs i = disk_inode (view content (fs_io fs)) fs i)
    \<and> (\<forall>x. unat x \<in> S \<and> apart (view content (fs_io fs)) (napb fs) inode x \<and> (\<forall>off. inode_place fs ino \<noteq> Inr (x, off)) \<longrightarrow>
         view content (fs_io fs1) x = view content (fs_io fs) x)"
proof (cases rule: xdev32.bmap2_alloc [OF assms(1) refl assms(2-10), of zb phys, case_names res])
  case (res fs0 S1 inode0 j p err fs1 inode1)
  note r = res
  have g: "grown (napb fs) (bmap_path (napb fs) (unat n)) (view content (fs_io fs), inode, S) (view content (fs_io fs0), inode0, S1)"
    and c: "card S1 = card S + j" and sg: "same_geo fs fs0" using r(2) by (simp_all add: reached_def)
  have a: "0 < napb fs" using assms(1) map_geom(2) [of fs] by (simp add: map_state_def)
  obtain bs where bs: "inode0 = inode\<lparr>i_block := bs\<rparr>" and s: "S \<subseteq> S1" using g by (auto simp: grown_def)
  have ok: "ino_ok fs ino" using assms(3) by (simp add: inode_setup_def ino_valid_def)
  have look: "bmap_lookup (view content (fs_io fs1)) (napb fs) inode1 k = bmap_lookup (view content (fs_io fs0)) (napb fs) inode0 k"
    if "k < map_limit (napb fs)" for k
    using r(10) [OF conjunct1 [OF path_full [OF that a]]] by (cases "bmap_path (napb fs) k") (simp add: bmap_lookup_def node_block_def)
  have same: "view content (fs_io fs0) x = view content (fs_io fs) x" if "unat x \<in> S" "apart (view content (fs_io fs)) (napb fs) inode x" for x
    by (rule grown_apart(2) [OF g that(2,1)])
  have tab: "disk_inode (view content (fs_io fs0)) fs i = disk_inode (view content (fs_io fs)) fs i" if i: "ino_ok fs i" for i
  proof (cases "inode_place fs i")
    case (Inr y)
    then obtain b off where y: "inode_place fs i = Inr (b, off)" by (cases y) simp
    then have "view content (fs_io fs0) b = view content (fs_io fs) b"
      using same assms(3,4) i unfolding inode_setup_def tables_used_def by blast
    then show ?thesis by (simp add: disk_inode_def y)
  qed (simp add: disk_inode_def)
  have e: "err = 0 \<and> p \<noteq> 0 \<and> p = ucast (bmap_lookup (view content (fs_io fs1)) (napb fs) inode1 (unat n))
         \<and> (if j = 0 then inode1 = inode\<lparr>i_block := bs\<rparr>
             else inode1 = fst (ext2fs_iblk_add_blocks fs (inode\<lparr>i_block := bs\<rparr>) (of_nat j))
               \<and> inode_on (view content (fs_io fs1)) fs ino inode1)
       \<or> err = EXT2_ET_BLOCK_ALLOC_FAIL \<and> blocks_of fs \<subseteq> S1 \<and> inode1 = inode\<lparr>i_block := bs\<rparr>
         \<and> disk_inode (view content (fs_io fs1)) fs ino = disk_inode (view content (fs_io fs)) fs ino"
  proof (cases "err = 0")
    case True
    then have "p = ucast (bmap_lookup (view content (fs_io fs1)) (napb fs) inode1 (unat n))" "p \<noteq> 0"
      using r(4) look [OF assms(5)] by auto
    then show ?thesis using True r(5,7) bs by simp
  next
    case False
    then have "err = EXT2_ET_BLOCK_ALLOC_FAIL" "blocks_of fs \<subseteq> S1" using r(4) same_geoD(7) [OF sg] by (auto simp: no_space_def)
    then show ?thesis using False r(5,6) bs tab [OF ok] by simp
  qed
  have l: "k = unat n \<and> bmap_lookup (view content (fs_io fs)) (napb fs) inode k = 0
         \<and> unat (bmap_lookup (view content (fs_io fs1)) (napb fs) inode1 k) \<notin> S"
    if "k < map_limit (napb fs)" "bmap_lookup (view content (fs_io fs1)) (napb fs) inode1 k \<noteq> bmap_lookup (view content (fs_io fs)) (napb fs) inode k" for k
    using grown_lookup [OF g that(1) assms(5) a] that(2) unfolding look [OF that(1)] by blast
  have oth: "disk_inode (view content (fs_io fs1)) fs i = disk_inode (view content (fs_io fs)) fs i" if "ino_ok fs i" "i \<noteq> ino" for i
    using r(12) [OF that] tab [OF that(1)] by simp
  have fr: "view content (fs_io fs1) x = view content (fs_io fs) x"
    if x: "unat x \<in> S" "apart (view content (fs_io fs)) (napb fs) inode x" "\<forall>off. inode_place fs ino \<noteq> Inr (x, off)" for x
  proof -
    obtain b off where "inode_place fs ino = Inr (b, off)" using assms(3) by (auto simp: inode_setup_def ino_valid_def)
    then show ?thesis using r(11) [of b off x] same [OF x(1,2)] x(3) by metis
  qed
  show ?thesis
    by (rule exI [of _ fs1], rule exI [of _ S1], rule exI [of _ inode1], rule exI [of _ bs], rule exI [of _ j], rule exI [of _ p], rule exI [of _ err],
        intro conjI r(1,3,8,9) s c e allI impI) (use l oth fr in blast)+
qed

theorem bmap_alloc_grows_witness:
  "\<exists>fs1 inode1 p. bmap2_block_mapped ino_mem (xnu_io_manager mem_ops) bm_fs bm_zb 1 (Some (bm_inode 0)) True BMAP_ALLOC 12 0
      = Some (fs1, bm_zb, inode1, p, 0)
    \<and> p = ucast (bmap_lookup (view (\<lambda>d. d) (fs_io fs1)) 256 inode1 12) \<and> p \<noteq> 0
    \<and> bmap_lookup (view (\<lambda>d. d) (fs_io fs1)) 256 inode1 13 = 0"
proof -
  have z: "bmap_lookup (view (\<lambda>d. d) ino_ch) 256 (bm_inode 0) 13 = 0"
    by (simp add: bmap_lookup_def bmap_path_def bm_roots ind_entry_def)
  have st: "map_state (\<lambda>io. xnu_dev mem_ops (\<lambda>d. d) (unat (fs_blocksize bm_fs)) io \<and> vnode_readable mem_ops) (view (\<lambda>d. d))
      bm_fs (bm_inode 0) {0, 3, 4, 5, 6}" using bm_state by (simp add: bm_facts)
  have n: "unat (12 :: u64) < map_limit (napb bm_fs)" by (simp add: bm_geom map_limit_def)
  have su: "inode_setup (view (\<lambda>d. d) (fs_io bm_fs)) bm_fs 1 (bm_inode 0)" "tables_used bm_fs {0, 3, 4, 5, 6}"
    using bm_setup(1) [of 0 "view (\<lambda>d. d) (fs_io bm_fs)"] bm_setup(2) [of 0] by simp_all
  have fl: "i_flags (bm_inode 0) AND EXT4_EXTENTS_FL = 0" "i_flags (bm_inode 0) AND EXT4_INLINE_DATA_FL = 0"
    "BMAP_ALLOC AND BMAP_SET = 0" "BMAP_ALLOC AND BMAP_ALLOC \<noteq> 0" "BMAP_ALLOC AND BMAP_ZERO = 0" by (simp_all add: bm_flags)
  obtain fs1 S1 inode1 j p err where r: "bmap2_block_mapped ino_mem (xnu_io_manager mem_ops) bm_fs bm_zb 1 (Some (bm_inode 0)) True BMAP_ALLOC 12 0
      = Some (fs1, bm_zb, inode1, p, err)"
    "map_state (\<lambda>io. xnu_dev mem_ops (\<lambda>d. d) 1024 io \<and> vnode_readable mem_ops) (view (\<lambda>d. d)) fs1 inode1 S1"
    "same_geo bm_fs fs1" "{0, 3, 4, 5, 6} \<subseteq> S1" "card S1 = card {0, 3, 4, 5, 6 :: nat} + j" "j \<le> 4"
    "err = 0 \<and> p \<noteq> 0 \<and> p = ucast (bmap_lookup (view (\<lambda>d. d) (fs_io fs1)) 256 inode1 12) \<or> blocks_of bm_fs \<subseteq> S1"
    "\<And>k. k < map_limit 256 \<Longrightarrow> bmap_lookup (view (\<lambda>d. d) (fs_io fs1)) 256 inode1 k \<noteq> bmap_lookup (view (\<lambda>d. d) ino_ch) 256 (bm_inode 0) k \<Longrightarrow> k = 12"
    using bmap_alloc_grows [OF st ino_mem_total(1) su n fl, of bm_zb 0] by (auto simp: bm_facts bm_geom)
  have "\<not> blocks_of bm_fs \<subseteq> S1"
  proof
    assume "blocks_of bm_fs \<subseteq> S1"
    then have "{0 ..< 16} \<subseteq> S1" by (simp add: bm_facts)
    moreover have "finite S1"
      using r(2) finite_subset [OF _ finite_group_blocks(2) [of fs1]] by (simp add: map_state_def)
    ultimately have "card {0 ..< 16 :: nat} \<le> card S1" by (intro card_mono)
    then show False using r(5,6) by simp
  qed
  then have e: "err = 0" "p \<noteq> 0" "p = ucast (bmap_lookup (view (\<lambda>d. d) (fs_io fs1)) 256 inode1 12)" using r(7) by blast+
  have "bmap_lookup (view (\<lambda>d. d) (fs_io fs1)) 256 inode1 13 = 0"
    using r(8) [of 13] z by (auto simp: map_limit_def)
  then show ?thesis using r(1) e by blast
qed

end
