(* ===== verification/Spec2Isabelle.thy ===== *)
theory Spec2Isabelle
  imports Bitmap_Theorems Fs_Theorems Crc_Theorems Container_Theorems Layout_Theorems Csum_Theorems Io_Theorems Alloc_Theorems Alloc_io Dir_Theorems Sha512_Theorems Dx_Theorems Inode_Theorems Bmap_Theorems
begin

text \<open>
  A verification library for the ext2 library of \<^verbatim>\<open>e2fsmac\<close>, the code under
  \<^verbatim>\<open>src/libext2fs\<close> (and the quicksort of \<^verbatim>\<open>src/e2fsmac\<close>). The C code is modelled as functions on
  explicit state: a structure is a record, an \<open>__u8\<close> to \<open>__u64\<close> is a machine word with the wrap-around
  of C, an \<open>errcode_t\<close> an \<open>int\<close> that is returned beside the new state, a byte buffer a list of bytes,
  and what the code calls outside \<^verbatim>\<open>src\<close> (the allocator of the kernel) an argument.

  \<^bold>\<open>The program.\<close> The library keeps a file system handle (\<^verbatim>\<open>ext2fs.h\<close>) with the super block, the
  group descriptors and two bitmaps, for blocks and for inodes. The bitmaps hide behind a table of
  operations (\<^verbatim>\<open>bmap64.h\<close>) that two back ends fill in, a bit array and a tree of extents;
  \<^verbatim>\<open>gen_bitmap64.c\<close> dispatches to them and converts blocks to clusters. \<^verbatim>\<open>blknum.c\<close> reads and
  writes the counters split over two fields, \<^verbatim>\<open>closefs.c\<close> and \<^verbatim>\<open>openfs.c\<close> place the backups of the
  descriptors, and the directory code (\<^verbatim>\<open>dir_iterate.c\<close>, \<^verbatim>\<open>link.c\<close>, \<^verbatim>\<open>lookup.c\<close>) edits directory
  blocks. Containers (bad block lists, a hash table, a quicksort) and checksums stand on their own.

  \<^bold>\<open>Theories and what they model.\<close>

  \<^item> \<open>E2fs_Prelude\<close>: the integer types, the error codes of \<^verbatim>\<open>ext2_err.h\<close>, \<open>memset\<close> and \<open>memcpy\<close>, and the
    collection \<open>word_nat\<close> of rewrites from words to natural numbers.
  \<^item> \<open>Bitops\<close>: \<^verbatim>\<open>bitops.c\<close>, \<^verbatim>\<open>bitops.h\<close>: bits of a buffer, byte swapping, population count;
    \<open>bit_at\<close> is the abstract content of a buffer.
  \<^item> \<open>Bmap64\<close>: \<^verbatim>\<open>bmap64.h\<close>: the 64-bit bitmap, its table of operations, and the contracts of the
    table as locales: \<open>bmap_backend\<close>, extended by \<open>bmap_lifecycle\<close>, \<open>bmap_find_set\<close> and
    \<open>bmap_find_zero\<close>. Each says what an operation does to the set of marked numbers and that the
    invariant of the back end is kept.
  \<^item> \<open>Gen_bitmap\<close>, \<open>Gen_bitmap32\<close>: \<^verbatim>\<open>gen_bitmap.c\<close>: the masked test of a bit range and the 32-bit
    bitmap with all its operations.
  \<^item> \<open>Blkmap64_ba\<close>, \<open>Blkmap64_ba_Life\<close>: \<^verbatim>\<open>blkmap64_ba.c\<close>: the bit array, its searches by words and bytes,
    copying, resizing and block-wise transfer; interpretations of all four contracts.
  \<^item> \<open>Rbtree\<close>: \<^verbatim>\<open>rbtree.c\<close>, \<^verbatim>\<open>rbtree.h\<close>: red-black trees with a path of crumbs in the place of parent
    pointers; insertion and erasure keep order, colours and black height.
  \<^item> \<open>Blkmap64_rb\<close>: \<^verbatim>\<open>blkmap64_rb.c\<close>: extents in a red-black tree with three cursors. \<open>Blkmap64_rb_State\<close>
    reads that state as a list, \<open>Blkmap64_rb_Ops\<close> verifies insertion, removal and searches on it,
    \<open>Blkmap64_rb_Table\<close> and \<open>Blkmap64_rb_Life\<close> interpret the contracts (not \<open>bmap_find_zero\<close>, which
    the code does not meet on an empty tree: C11).
  \<^item> \<open>Gen_bitmap64\<close>: \<^verbatim>\<open>gen_bitmap64.c\<close>: magic numbers, cluster conversion, guards, dispatch.
    \<open>Gen_bitmap64_Spec\<close> has what each operation does to bounds and marks, \<open>Gen_bitmap64_Machine\<close> the abstract
    machine \<open>gb_spec\<close> over sequences of operations. The back ends do not answer alike everywhere: \<open>gb_behaviour\<close>
    names the differences, and the locale \<open>gb_machine\<close>, interpreted on both, proves each the machine of its behaviour.
  \<^item> \<open>Ext2_fs\<close>, \<open>Blknum\<close>: \<^verbatim>\<open>ext2_fs.h\<close>, \<^verbatim>\<open>ext2fs.h\<close>, \<^verbatim>\<open>blknum.c\<close>, \<^verbatim>\<open>get_num_dirs.c\<close>: the on-disk
    structures, features, the geometry of the groups (\<open>fs_geom\<close> is its invariant) and the counters.
  \<^item> \<open>Super_loc\<close>: the placement part of \<^verbatim>\<open>closefs.c\<close> and \<^verbatim>\<open>openfs.c\<close>. \<open>test_root\<close> loops until it
    returns, so it is a partial function, and that it returns is C31.
  \<^item> \<open>Iblock\<close>: \<^verbatim>\<open>i_block.c\<close>, \<^verbatim>\<open>valid_blk.c\<close>: the sector count of an inode and its overflow.
  \<^item> \<open>Dx_map\<close>: the hash map of \<^verbatim>\<open>link.c\<close> that orders the entries of a directory leaf before it is split.
  \<^item> \<open>Bytes\<close>, \<open>Dirent\<close>, \<open>Csum\<close>: the structures in a byte buffer, the entries and the tail of a directory
    block, and every checksum of \<^verbatim>\<open>csum.c\<close>: super block, descriptors, bitmaps, inodes, extent blocks,
    directory blocks, index blocks, attribute blocks.
  \<^item> \<open>Dir_iterate\<close>, \<open>Link\<close>: \<^verbatim>\<open>dirblock.c\<close>, the walk of \<^verbatim>\<open>dir_iterate.c\<close> over a block with a callback,
    \<open>lookup_proc\<close> of \<^verbatim>\<open>lookup.c\<close> and \<open>link_proc\<close> of \<^verbatim>\<open>link.c\<close>; \<open>dir_tiles\<close> is the abstract content of a block.
  \<^item> \<open>Dirhash\<close>, \<open>Dx_index\<close>: \<^verbatim>\<open>dirhash.c\<close> and the index of \<^verbatim>\<open>link.c\<close>: the hashes of names, the binary search
    and the descent of a lookup, insertion into an index block, the split of a leaf by hash (\<open>Dx_split\<close>).
  \<^item> \<open>Sha512\<close>: \<^verbatim>\<open>sha512.c\<close>, the code and the function of FIPS 180-4.
  \<^item> \<open>Xnu_io\<close>: \<^verbatim>\<open>xnu_io.c\<close>, \<^verbatim>\<open>io_manager.c\<close>: the channel to the device with its write-back cache of eight
    blocks. The vnode is a parameter (locale \<open>vnode_reliable\<close>). \<open>Xnu_cache\<close> reads device and cache as one
    array of blocks and verifies every transfer against it.
  \<^item> \<open>Fs_map\<close>, \<open>Alloc_stats\<close>, \<open>Alloc\<close>, \<open>Alloc_io\<close>: \<^verbatim>\<open>bitmaps.c\<close>, \<^verbatim>\<open>alloc_stats.c\<close>, \<^verbatim>\<open>alloc_sb.c\<close>, \<^verbatim>\<open>alloc.c\<close> and the
    zeroing of \<^verbatim>\<open>mkjournal.c\<close>: the bitmaps of the handle, the searches for blocks, runs and inodes, the
    accounting, and allocation over the channel. \<open>Alloc_inv\<close> has the invariant \<open>acc_ok\<close> (bitmap and counters
    agree), \<open>Alloc_find\<close> the searches; the locale \<open>block_allocator\<close> is the contract they meet.
  \<^item> \<open>Inode_io\<close>: \<^verbatim>\<open>inode.c\<close>: the inode cache, reading and writing of an inode. \<open>Block_dev\<close> is the contract of
    the device below (locales \<open>block_dev_any\<close>, whose writes may fail, \<open>block_dev\<close>, \<open>block_dev_total\<close>), \<open>Inode_cache\<close> what the operations do to it,
    \<open>Inode_tables\<close> where the inodes lie, \<open>Inode_total\<close> that the calls succeed on a device that does not fail.
  \<^item> \<open>Bmap\<close>: \<^verbatim>\<open>ind_block.c\<close> and \<^verbatim>\<open>bmap.c\<close> for inodes without extents. \<open>Bmap_tree\<close> reads the indirect blocks as
    a lookup along a path, \<open>Bmap_dev\<close> (locale \<open>block_dev32\<close>) proves the operations against it, \<open>Bmap_fill\<close> and
    \<open>Bmap_alloc\<close> follow the allocation of blocks and of missing indirect blocks, \<open>Bmap_keep\<close> has what it leaves of
    the inodes, and \<open>Bmap_call\<close> the whole call of \<open>ext2fs_bmap2\<close> with the count and the inode that it writes.
  \<^item> \<open>Crc_Tables\<close>, \<open>Crc\<close>, \<open>Crc_Check\<close>: \<^verbatim>\<open>crc16.c\<close>, \<^verbatim>\<open>crc32c.c\<close>, \<^verbatim>\<open>crc32c_table.h\<close>: the tables entry by
    entry, the sliced loops, the bit-serial definitions (locales \<open>crc_step\<close> and \<open>crc_tables\<close>), and the
    evaluation that the tables are right.
  \<^item> \<open>Badblocks\<close>, \<open>Hashmap\<close>, \<open>Qsort\<close>: \<^verbatim>\<open>badblocks.c\<close>, \<^verbatim>\<open>bb_compat.c\<close>, \<^verbatim>\<open>hashmap.c\<close>,
    \<^verbatim>\<open>e2fsmac/qsort.c\<close>. The locale \<open>comparator\<close> is the contract of a comparison function.
  \<^item> \<open>Bitmap_Examples\<close>, \<open>Fs_Examples\<close>: concrete states for the witnesses.
  \<^item> \<open>Bitmap_Theorems\<close> (the rest of C1 to C20), \<open>Fs_Theorems\<close> (C21, C23), \<open>Crc_Theorems\<close> (C25 to C27),
    \<open>Container_Theorems\<close> (C28, C30), \<open>Layout_Theorems\<close> (C31 to C33), \<open>Csum_Theorems\<close> (C35), \<open>Io_Theorems\<close> (C36 to C38),
    \<open>Alloc_Theorems\<close> (C6, C15, C20, C39), \<open>Dir_Theorems\<close> (C24, C40), \<open>Sha512_Theorems\<close> (C12),
    \<open>Dx_Theorems\<close> (C13, C34), \<open>Inode_Theorems\<close> (C9, C14, C18, C29),
    \<open>Bmap_Theorems\<close> (C10, C16, C22): the properties.

  \<^bold>\<open>Groups of lemmas.\<close> For each component: its invariant (\<open>ba_inv\<close>, \<open>rbt\<close>, \<open>exts_ok\<close>, \<open>rb_inv\<close>, \<open>u32_wf\<close>,
  \<open>hm_wf\<close>, \<open>fs_geom\<close>,
  \<open>cache_ok\<close>, \<open>acc_ok\<close>, \<open>dir_tiles\<close>, \<open>icache_inv\<close>, \<open>map_inv\<close>) and that every operation keeps it; its abstraction (\<open>bit_at\<close>, \<open>ba_bits\<close>,
  \<open>rb_bits\<close>, \<open>u32_set\<close>, \<open>view\<close>, \<open>map_is\<close>, \<open>disk_inode\<close>, \<open>bmap_lookup\<close>) and what every operation does to it, on every branch; round trips for
  the split counters; equivalence of optimised loops with plain ones (bit ranges, CRC tables).

  \<^bold>\<open>Fuel.\<close> Only the loops over \<open>ext2fs_rb_next\<close> in \<open>Blkmap64_rb\<close> have fuel: the number of nodes of
  the tree they start on. Each round moves to a later node, and the lemmas show that on a well-formed
  tree the loops are functions of the in-order list, so that the fuel is never used up. Every other
  loop is structural, has a measure, or is a partial function whose return is a theorem.

  \<^bold>\<open>Not modelled.\<close> Statistics and debug printing, which are compiled out; warnings, which only print;
  freeing of memory. Opening, flushing and closing a file system and the creation of a journal
  are sequences of device operations; multi-mount protection is compiled out. The kernel
  extension and the mount command are glue. The case folding tables of \<^verbatim>\<open>utf8data.h\<close> are generated
  data. Extents, extended attributes and inline data are not modelled.

  \<^bold>\<open>Plan.\<close> Next: truncation and iteration over the block map, extents, and linking over the block map.
\<close>

end
